(* ===== verification/L2Prelude.thy ===== *)
theory L2Prelude
  imports Main "HOL-Library.Word" "HOL-Library.Monad_Syntax"
begin

unbundle bit_operations_syntax

text \<open>
  The vocabulary shared by every theory of the development.

  Go's fixed-width unsigned integers are words; Go's \<open>int\<close> (64 bits, used for lengths and
  positions that stay far below \<open>2 ^ 62\<close>) is \<open>int\<close> or \<open>nat\<close>. A byte slice is a \<open>byte list\<close>;
  a function that writes through a slice returns the new list.

  A Go run-time panic (index out of range, negative length, nil dereference) is the value
  \<open>None\<close> of type \<open>'a option\<close>, sequenced with the \<open>do\<close> notation of \<open>Option.bind\<close>. An \<open>error\<close>
  result is the left side of a sum, so a function that may do both has type
  \<open>(go_error + 'a) option\<close>.

  The collection \<open>le_codec\<close> holds the facts that turn the byte-by-byte reading and writing of the
  source into whole words.
\<close>

named_theorems le_codec

type_synonym byte = "8 word"
type_synonym u16 = "16 word"
type_synonym u32 = "32 word"
type_synonym u64 = "64 word"

section \<open>Indexing a slice\<close>

definition go_get :: "'a list \<Rightarrow> int \<Rightarrow> 'a option" where
  "go_get xs i = (if 0 \<le> i \<and> i < int (length xs) then Some (xs ! nat i) else None)"

definition go_set :: "'a list \<Rightarrow> int \<Rightarrow> 'a \<Rightarrow> 'a list option" where
  "go_set xs i x = (if 0 \<le> i \<and> i < int (length xs) then Some (xs[nat i := x]) else None)"

text \<open>\<open>xs[a:b]\<close> of a slice whose capacity is its length.\<close>

definition go_slice :: "'a list \<Rightarrow> int \<Rightarrow> int \<Rightarrow> 'a list option" where
  "go_slice xs a b =
     (if 0 \<le> a \<and> a \<le> b \<and> b \<le> int (length xs)
      then Some (take (nat b - nat a) (drop (nat a) xs)) else None)"

lemma go_get_Some [simp]:
  "0 \<le> i \<Longrightarrow> i < int (length xs) \<Longrightarrow> go_get xs i = Some (xs ! nat i)"
  by (simp add: go_get_def)

lemma go_get_at [le_codec]: "i = int (length pre) \<Longrightarrow> go_get (pre @ x # post) i = Some x"
  by (simp add: go_get_def)

lemma go_set_at [le_codec]: "i = int (length pre) \<Longrightarrow> go_set (pre @ x # post) i y = Some (pre @ y # post)"
  by (simp add: go_set_def)

lemma go_set_Some: "go_set xs i x = Some ys \<Longrightarrow> length ys = length xs"
  by (auto simp: go_set_def split: if_splits)

lemma last_two: "2 \<le> length xs \<Longrightarrow> \<exists>ys a b. xs = ys @ [a, b]"
  by (cases xs rule: rev_cases; simp) (metis One_nat_def Suc_le_length_iff append_butlast_last_id list.distinct(1))

lemma length_4: "length xs = 4 \<Longrightarrow> \<exists>a b c d. xs = [a, b, c, d]"
  by (auto simp: numeral_eq_Suc length_Suc_conv)

section \<open>Little-endian words\<close>

definition le16 :: "byte \<Rightarrow> byte \<Rightarrow> u16" where
  "le16 a b = ucast a OR push_bit 8 (ucast b)"

definition le32 :: "byte \<Rightarrow> byte \<Rightarrow> byte \<Rightarrow> byte \<Rightarrow> u32" where
  "le32 a b c d = ucast a OR push_bit 8 (ucast b) OR push_bit 16 (ucast c) OR push_bit 24 (ucast d)"

definition le64 :: "u32 \<Rightarrow> u32 \<Rightarrow> u64" where
  "le64 lo hi = ucast lo OR push_bit 32 (ucast hi)"

definition bytes16 :: "u16 \<Rightarrow> byte list" where
  "bytes16 w = [ucast w, ucast (drop_bit 8 w)]"

definition bytes32 :: "u32 \<Rightarrow> byte list" where
  "bytes32 w = [ucast w, ucast (drop_bit 8 w), ucast (drop_bit 16 w), ucast (drop_bit 24 w)]"

definition bytes64 :: "u64 \<Rightarrow> byte list" where
  "bytes64 w = bytes32 (ucast w) @ bytes32 (ucast (drop_bit 32 w))"

lemma length_bytes [simp]:
  "length (bytes16 v) = 2" "length (bytes32 w) = 4" "length (bytes64 x) = 8"
  by (simp_all add: bytes16_def bytes32_def bytes64_def)

lemma byte_bit: "bit (a::byte) n \<Longrightarrow> n < 8"
  using bit_imp_le_length [of a n] by simp

lemma le16_bytes [le_codec]: "le16 (ucast w) (ucast (drop_bit 8 w)) = w"
  by (rule bit_word_eqI) (auto simp: le16_def bit_simps)

lemma bytes16_le [le_codec]: "bytes16 (le16 a b) = [a, b]"
  unfolding le16_def bytes16_def
  by (simp, intro conjI; rule bit_word_eqI) (auto simp: bit_simps dest: byte_bit)

lemma le32_bytes [le_codec]:
  "le32 (ucast w) (ucast (drop_bit 8 w)) (ucast (drop_bit 16 w)) (ucast (drop_bit 24 w)) = w"
proof (rule bit_word_eqI)
  fix n assume "n < LENGTH(32)"
  then consider "n < 8" | "8 \<le> n" "n < 16" | "16 \<le> n" "n < 24" | "24 \<le> n" "n < 32"
    by fastforce
  then show "bit (le32 (ucast w) (ucast (drop_bit 8 w)) (ucast (drop_bit 16 w)) (ucast (drop_bit 24 w))) n
      = bit w n"
    by cases (auto simp: le32_def bit_simps)
qed

lemma bytes32_le [le_codec]: "bytes32 (le32 a b c d) = [a, b, c, d]"
  unfolding le32_def bytes32_def
  by (simp, intro conjI; rule bit_word_eqI) (auto simp: bit_simps dest: byte_bit)

lemma le64_halves [le_codec]: "le64 (ucast w) (ucast (drop_bit 32 w)) = w"
  by (rule bit_word_eqI) (auto simp: le64_def bit_simps)

lemma bytes32_inj [simp]: "bytes32 v = bytes32 w \<longleftrightarrow> v = w"
proof
  assume "bytes32 v = bytes32 w"
  then have "le32 (ucast v) (ucast (drop_bit 8 v)) (ucast (drop_bit 16 v)) (ucast (drop_bit 24 v))
      = le32 (ucast w) (ucast (drop_bit 8 w)) (ucast (drop_bit 16 w)) (ucast (drop_bit 24 w))"
    by (simp only: bytes32_def list.inject)
  then show "v = w" by (simp only: le32_bytes)
qed simp

lemma xor_cancel_left [simp]: "(a :: 'a::len word) XOR b = a XOR c \<longleftrightarrow> b = c"
proof
  assume "a XOR b = a XOR c"
  then have "a XOR (a XOR b) = a XOR (a XOR c)" by simp
  then show "b = c" by (simp only: xor.assoc [symmetric] xor_self_eq xor.left_neutral)
qed simp

lemma xor_cancel_right [simp]: "(b :: 'a::len word) XOR a = c XOR a \<longleftrightarrow> b = c"
  using xor_cancel_left [of a b c] by (simp only: xor.commute)

lemma xor_zero_iff [simp]: "(a :: 'a::len word) XOR b = 0 \<longleftrightarrow> a = b"
  using xor_cancel_left [of a b a] by auto

lemma xor_twice [simp]: "(a :: 'a::len word) XOR (a XOR b) = b"
  by (simp only: xor.assoc [symmetric] xor_self_eq xor.left_neutral)

lemma xor_twice_right [simp]: "((b :: 'a::len word) XOR a) XOR a = b"
  by (simp only: xor.assoc xor_self_eq xor.right_neutral)

section \<open>The masks of the source\<close>

text \<open>
  The source masks after shifting a byte up (\<open>(x << 8) & 0xff00\<close>) and before narrowing a word to
  a byte (\<open>byte(x & 0xff)\<close>). Both masks are redundant, as these lemmas show.
\<close>

lemma bit_mask_literals:
  "bit (0xff :: u32) n \<longleftrightarrow> n < 8"
  "bit (0xff00 :: u32) n \<longleftrightarrow> 8 \<le> n \<and> n < 16"
  "bit (0xff0000 :: u32) n \<longleftrightarrow> 16 \<le> n \<and> n < 24"
  "bit (0xff000000 :: u32) n \<longleftrightarrow> 24 \<le> n \<and> n < 32"
proof -
  have m: "bit (push_bit k (mask 8 :: u32)) n \<longleftrightarrow> k \<le> n \<and> n < k + 8 \<and> n < 32" for k
    by (auto simp: bit_push_bit_iff bit_mask_iff simp del: mask_numeral)
  show "bit (0xff :: u32) n \<longleftrightarrow> n < 8"
    using bit_mask_iff [of 8 n, where 'a = "32 word"] by (auto simp: mask_eq_exp_minus_1)
  show "bit (0xff00 :: u32) n \<longleftrightarrow> 8 \<le> n \<and> n < 16"
    using m [of 8] by (auto simp add: mask_eq_exp_minus_1 push_bit_eq_mult)
  show "bit (0xff0000 :: u32) n \<longleftrightarrow> 16 \<le> n \<and> n < 24"
    using m [of 16] by (auto simp add: mask_eq_exp_minus_1 push_bit_eq_mult)
  show "bit (0xff000000 :: u32) n \<longleftrightarrow> 24 \<le> n \<and> n < 32"
    using m [of 24] by (auto simp add: mask_eq_exp_minus_1 push_bit_eq_mult)
qed

lemma mask_literals_take_bit:
  fixes x :: u32
  shows "x AND 0xff = take_bit 8 x"
    and "x AND 0xff00 = push_bit 8 (take_bit 8 (drop_bit 8 x))"
    and "x AND 0xff0000 = push_bit 16 (take_bit 8 (drop_bit 16 x))"
    and "x AND 0xff000000 = push_bit 24 (take_bit 8 (drop_bit 24 x))"
  by (rule bit_word_eqI; simp only: bit_and_iff bit_mask_literals; auto simp: bit_simps)+

lemma byte_mask [le_codec]:
  fixes w :: u32 and a :: byte
  shows "ucast (w AND 0xff) = (ucast w :: byte)"
    and "ucast a AND 0xff = (ucast a :: u32)"
  unfolding mask_literals_take_bit by (auto simp: bit_simps intro!: bit_word_eqI dest: byte_bit)

lemma shifted_byte_mask [le_codec]:
  fixes a :: byte
  shows "push_bit 8 (ucast a) AND 0xff00 = (push_bit 8 (ucast a) :: u32)"
    and "push_bit 16 (ucast a) AND 0xff0000 = (push_bit 16 (ucast a) :: u32)"
    and "push_bit 24 (ucast a) AND 0xff000000 = (push_bit 24 (ucast a) :: u32)"
  unfolding mask_literals_take_bit by (auto simp: bit_simps intro!: bit_word_eqI dest: byte_bit)

section \<open>A byte slice as a sequence of words\<close>

definition bytes_of :: "u32 list \<Rightarrow> byte list" where
  "bytes_of ws = concat (map bytes32 ws)"

lemma bytes_of_simps [simp]:
  "bytes_of [] = []"
  "bytes_of (w # ws) = bytes32 w @ bytes_of ws"
  "bytes_of (vs @ ws) = bytes_of vs @ bytes_of ws"
  by (simp_all add: bytes_of_def)

lemma length_bytes_of [simp]: "length (bytes_of ws) = 4 * length ws"
  by (induction ws) auto

lemma bytes_of_inj [simp]: "bytes_of vs = bytes_of ws \<longleftrightarrow> vs = ws"
proof (induction vs arbitrary: ws)
  case Nil
  then show ?case by (cases ws) (auto simp: bytes32_def)
next
  case (Cons v vs)
  show ?case
  proof (cases ws)
    case Nil
    then show ?thesis by (simp add: bytes32_def)
  next
    case (Cons w ws')
    then show ?thesis
      using \<open>\<And>ws. bytes_of vs = bytes_of ws \<longleftrightarrow> vs = ws\<close> by (simp add: append_eq_append_conv)
  qed
qed

lemma bytes_of_words:
  assumes "length bs = 4 * n"
  obtains ws where "length ws = n" "bs = bytes_of ws"
proof -
  have "\<exists>ws. length ws = n \<and> bs = bytes_of ws"
    using assms
  proof (induction n arbitrary: bs)
    case 0
    then show ?case by simp
  next
    case (Suc n)
    then obtain a b c d rest where bs: "bs = a # b # c # d # rest" and "length rest = 4 * n"
      by (auto simp: numeral_eq_Suc length_Suc_conv)
    with Suc.IH obtain ws where "length ws = n" "rest = bytes_of ws" by blast
    then have "length (le32 a b c d # ws) = Suc n \<and> bs = bytes_of (le32 a b c d # ws)"
      by (simp add: bs bytes32_le)
    then show ?case by blast
  qed
  then show thesis using that by blast
qed

section \<open>Results\<close>

text \<open>An error result carries the text of the error.\<close>

type_synonym go_error = string

text \<open>\<open>strconv.Itoa\<close> of a number that is not negative.\<close>

fun itoa :: "nat \<Rightarrow> string" where
  "itoa n = (if n < 10 then [char_of (48 + n)] else itoa (n div 10) @ [char_of (48 + n mod 10)])"

declare itoa.simps [simp del]

text \<open>\<open>%d\<close> of an \<open>int\<close>.\<close>

definition format_int :: "int \<Rightarrow> string" where
  "format_int i = (if i < 0 then ''-'' @ itoa (nat (- i)) else itoa (nat i))"

abbreviation ok :: "'a \<Rightarrow> (go_error + 'a) option" where
  "ok x \<equiv> Some (Inr x)"

abbreviation err :: "go_error \<Rightarrow> (go_error + 'a) option" where
  "err e \<equiv> Some (Inl e)"

definition is_ok :: "(go_error + 'a) option \<Rightarrow> bool" where
  "is_ok r = (case r of Some (Inr _) \<Rightarrow> True | _ \<Rightarrow> False)"

definition panics :: "'a option \<Rightarrow> bool" where
  "panics r = (r = None)"

lemma panics_simps [simp]: "panics None" "\<not> panics (Some x)"
  by (simp_all add: panics_def)

text \<open>\<open>if err != nil { return err }\<close>: stop at an error, go on with the value.\<close>

definition try_bind :: "(go_error + 'a) option \<Rightarrow> ('a \<Rightarrow> (go_error + 'b) option) \<Rightarrow> (go_error + 'b) option"
  where
  "try_bind r f = (case r of None \<Rightarrow> None | Some (Inl e) \<Rightarrow> Some (Inl e) | Some (Inr x) \<Rightarrow> f x)"

lemma try_bind_simps [simp]:
  "try_bind None f = None"
  "try_bind (err e) f = err e"
  "try_bind (ok x) f = f x"
  by (simp_all add: try_bind_def)

end
