(* ===== verification/LoginCrypt.thy ===== *)
theory LoginCrypt
  imports L2Prelude
begin

text \<open>
  The integrity and obfuscation layer of login packets (\<open>pkg/crypt/crypt.go\<close>): the XOR checksum
  that every login packet carries, checked at the end of the packet or 16 bytes before it, and
  the XOR pass that hides the first packet the login server sends. Both walk a byte slice four
  bytes at a time; the lemmas relate the walks to folds over the 32-bit words of the slice.
\<close>

section \<open>Reading and writing a word of a slice\<close>

text \<open>The form of \<open>VerifyChecksum\<close>: shift, then mask.\<close>

definition word_masked :: "byte list \<Rightarrow> int \<Rightarrow> u32 option" where
  "word_masked raw i = do {
     a \<leftarrow> go_get raw i;
     b \<leftarrow> go_get raw (i + 1);
     c \<leftarrow> go_get raw (i + 2);
     d \<leftarrow> go_get raw (i + 3);
     Some ((ucast a AND 0xff) OR (push_bit 8 (ucast b) AND 0xff00)
       OR (push_bit 16 (ucast c) AND 0xff0000) OR (push_bit 24 (ucast d) AND 0xff000000))
   }"

text \<open>The form of \<open>EncXORPass\<close>: mask, then shift.\<close>

definition word_at :: "byte list \<Rightarrow> int \<Rightarrow> u32 option" where
  "word_at raw pos = do {
     a \<leftarrow> go_get raw pos;
     b \<leftarrow> go_get raw (pos + 1);
     c \<leftarrow> go_get raw (pos + 2);
     d \<leftarrow> go_get raw (pos + 3);
     Some ((ucast a AND 0xff) OR push_bit 8 (ucast b AND 0xff)
       OR push_bit 16 (ucast c AND 0xff) OR push_bit 24 (ucast d AND 0xff))
   }"

definition put_word :: "byte list \<Rightarrow> int \<Rightarrow> u32 \<Rightarrow> byte list option" where
  "put_word raw pos w = do {
     raw \<leftarrow> go_set raw pos (ucast (w AND 0xff));
     raw \<leftarrow> go_set raw (pos + 1) (ucast (drop_bit 8 w AND 0xff));
     raw \<leftarrow> go_set raw (pos + 2) (ucast (drop_bit 16 w AND 0xff));
     go_set raw (pos + 3) (ucast (drop_bit 24 w AND 0xff))
   }"

lemma four_at:
  assumes "i = int (length pre)"
  shows "go_get (pre @ [a, b, c, d] @ post) i = Some a"
    and "go_get (pre @ [a, b, c, d] @ post) (i + 1) = Some b"
    and "go_get (pre @ [a, b, c, d] @ post) (i + 2) = Some c"
    and "go_get (pre @ [a, b, c, d] @ post) (i + 3) = Some d"
  using go_get_at [of i pre a] go_get_at [of "i + 1" "pre @ [a]" b]
    go_get_at [of "i + 2" "pre @ [a, b]" c] go_get_at [of "i + 3" "pre @ [a, b, c]" d] assms
  by simp_all

lemma word_masked_at [le_codec]:
  "i = int (length pre) \<Longrightarrow> word_masked (pre @ bytes32 w @ post) i = Some w"
  by (simp only: word_masked_def bytes32_def four_at bind.bind_lunit shifted_byte_mask byte_mask
      le32_def [symmetric] le32_bytes)

lemma word_at_at [le_codec]:
  "i = int (length pre) \<Longrightarrow> word_at (pre @ bytes32 w @ post) i = Some w"
  by (simp only: word_at_def bytes32_def four_at bind.bind_lunit shifted_byte_mask byte_mask
      le32_def [symmetric] le32_bytes)

lemma put_word_at [le_codec]:
  assumes "i = int (length pre)"
  shows "put_word (pre @ bytes32 v @ post) i w = Some (pre @ bytes32 w @ post)"
proof -
  define a b c d where "a = (ucast w :: byte)" and "b = (ucast (drop_bit 8 w) :: byte)"
    and "c = (ucast (drop_bit 16 w) :: byte)" and "d = (ucast (drop_bit 24 w) :: byte)"
  obtain a' b' c' d' where v: "bytes32 v = [a', b', c', d']"
    by (simp add: bytes32_def)
  have "go_set (pre @ [a', b', c', d'] @ post) i a = Some (pre @ [a, b', c', d'] @ post)"
    using go_set_at [of i pre a'] assms by simp
  moreover have "go_set (pre @ [a, b', c', d'] @ post) (i + 1) b = Some (pre @ [a, b, c', d'] @ post)"
    using go_set_at [of "i + 1" "pre @ [a]" b'] assms by simp
  moreover have "go_set (pre @ [a, b, c', d'] @ post) (i + 2) c = Some (pre @ [a, b, c, d'] @ post)"
    using go_set_at [of "i + 2" "pre @ [a, b]" c'] assms by simp
  moreover have "go_set (pre @ [a, b, c, d'] @ post) (i + 3) d = Some (pre @ [a, b, c, d] @ post)"
    using go_set_at [of "i + 3" "pre @ [a, b, c]" d'] assms by simp
  ultimately show ?thesis
    by (simp only: put_word_def byte_mask v bind.bind_lunit a_def [symmetric] b_def [symmetric]
        c_def [symmetric] d_def [symmetric]) (simp add: bytes32_def a_def b_def c_def d_def)
qed

section \<open>The checksum\<close>

function xor_words :: "byte list \<Rightarrow> int \<Rightarrow> int \<Rightarrow> u32 \<Rightarrow> (int \<times> u32) option" where
  "xor_words raw i count chksum =
     (if i < count then do {
        check \<leftarrow> word_masked raw i;
        xor_words raw (i + 4) count (chksum XOR check)
      } else Some (i, chksum))"
  by pat_completeness auto
termination
  by (relation "measure (\<lambda>(raw, i, count, _). nat (count - i))") auto

declare xor_words.simps [simp del]

definition VerifyChecksum :: "byte list \<Rightarrow> bool option" where
  "VerifyChecksum raw =
     (let offset = 0; size = int (length raw)
      in if size AND 3 \<noteq> 0 \<or> size \<le> 4 then Some False
         else do {
           (i, chksum) \<leftarrow> xor_words raw offset (offset + size - 4) 0;
           check \<leftarrow> word_masked raw i;
           Some (check = chksum)
         })"

definition VerifyChecksumClient :: "byte list \<Rightarrow> bool option" where
  "VerifyChecksumClient raw =
     (let offset = 0; size = int (length raw)
      in if size AND 3 \<noteq> 0 \<or> size < 16 then Some False
         else do {
           let count = offset + size - 16;
           (_, chksum) \<leftarrow> xor_words raw offset count 0;
           check \<leftarrow> word_masked raw count;
           Some (check = chksum)
         })"

definition AppendChecksum :: "byte list \<Rightarrow> byte list option" where
  "AppendChecksum raw =
     (let offset = 0; size = int (length raw)
      in if size < 4 \<or> size AND 3 \<noteq> 0 then Some raw
         else do {
           (_, chksum) \<leftarrow> xor_words raw offset (offset + size - 4) 0;
           put_word raw (size - 4) chksum
         })"

fun xor_sum :: "u32 list \<Rightarrow> u32" where
  "xor_sum [] = 0"
| "xor_sum (w # ws) = w XOR xor_sum ws"

lemma xor_sum_append [simp]: "xor_sum (vs @ ws) = xor_sum vs XOR xor_sum ws"
  by (induction vs) (auto simp: xor.assoc)

lemma xor_words_bytes [le_codec]:
  assumes "i = int (length pre)" and "count = i + 4 * int (length ws)"
  shows "xor_words (pre @ bytes_of ws @ post) i count x = Some (count, x XOR xor_sum ws)"
  using assms
proof (induction ws arbitrary: pre i x)
  case Nil
  then show ?case by (simp add: xor_words.simps)
next
  case (Cons w ws)
  have "xor_words ((pre @ bytes32 w) @ bytes_of ws @ post) (i + 4) count (x XOR w)
      = Some (count, (x XOR w) XOR xor_sum ws)"
    by (rule Cons.IH) (use Cons.prems in auto)
  then show ?case
    using Cons.prems word_masked_at [of i pre w "bytes_of ws @ post"]
    by (subst xor_words.simps) (simp add: xor.assoc)
qed

lemma and3_mod4: "(n::int) AND 3 = n mod 4"
  using take_bit_eq_mask [of 2 n] by (simp add: take_bit_eq_mod mask_eq_exp_minus_1)

lemma aligned_iff: "int n AND 3 = 0 \<longleftrightarrow> 4 dvd n"
  by (auto simp: and3_mod4 mod_eq_0_iff_dvd int_dvd_int_iff [symmetric])

lemma aligned_words:
  assumes "int (length raw) AND 3 = 0"
  obtains ws where "raw = bytes_of ws"
proof -
  from assms obtain n where "length raw = 4 * n"
    by (auto simp: aligned_iff elim: dvdE)
  then show thesis using bytes_of_words that by metis
qed

lemma aligned_bytes_of [simp]: "int (length (bytes_of ws)) AND 3 = 0"
  by (simp add: and3_mod4)

lemma VerifyChecksum_words:
  "ws \<noteq> [] \<Longrightarrow> VerifyChecksum (bytes_of (ws @ [w])) = Some (w = xor_sum ws)"
proof -
  assume "ws \<noteq> []"
  then have "0 < length ws" by simp
  have "xor_words (bytes_of ws @ bytes32 w) 0 (4 * int (length ws)) 0
      = Some (4 * int (length ws), xor_sum ws)"
    using xor_words_bytes [of 0 "[]" "4 * int (length ws)" ws "bytes32 w" 0] by simp
  moreover have "word_masked (bytes_of ws @ bytes32 w) (4 * int (length ws)) = Some w"
    using word_masked_at [of "4 * int (length ws)" "bytes_of ws" w "[]"] by simp
  ultimately show ?thesis
    using \<open>0 < length ws\<close> aligned_bytes_of [of "ws @ [w]"]
    by (simp add: VerifyChecksum_def Let_def)
qed

lemma VerifyChecksum_short: "length raw \<le> 4 \<Longrightarrow> VerifyChecksum raw = Some False"
  by (simp add: VerifyChecksum_def Let_def)

lemma AppendChecksum_words:
  "AppendChecksum (bytes_of (ws @ [w])) = Some (bytes_of (ws @ [xor_sum ws]))"
proof -
  have "xor_words (bytes_of ws @ bytes32 w) 0 (4 * int (length ws)) 0
      = Some (4 * int (length ws), xor_sum ws)"
    using xor_words_bytes [of 0 "[]" "4 * int (length ws)" ws "bytes32 w" 0] by simp
  moreover have "put_word (bytes_of ws @ bytes32 w) (4 * int (length ws)) (xor_sum ws)
      = Some (bytes_of ws @ bytes32 (xor_sum ws))"
    using put_word_at [of "4 * int (length ws)" "bytes_of ws" w "[]"] by simp
  ultimately show ?thesis
    using aligned_bytes_of [of "ws @ [w]"] by (simp add: AppendChecksum_def Let_def)
qed

lemma last_word:
  assumes "int (length raw) AND 3 = 0" and "4 \<le> length raw"
  obtains ws w where "raw = bytes_of (ws @ [w])"
proof -
  obtain vs where vs: "raw = bytes_of vs" using assms(1) by (rule aligned_words)
  with assms(2) have "vs \<noteq> []" by auto
  then show thesis using that vs by (metis append_butlast_last_id)
qed

lemma VerifyChecksumClient_words:
  "VerifyChecksumClient (bytes_of (ws @ [w, p, q, r])) = Some (w = xor_sum ws)"
proof -
  have "xor_words (bytes_of ws @ bytes_of [w, p, q, r]) 0 (4 * int (length ws)) 0
      = Some (4 * int (length ws), xor_sum ws)"
    using xor_words_bytes [of 0 "[]" "4 * int (length ws)" ws "bytes_of [w, p, q, r]" 0] by simp
  moreover have "word_masked (bytes_of ws @ bytes_of [w, p, q, r]) (4 * int (length ws)) = Some w"
    using word_masked_at [of "4 * int (length ws)" "bytes_of ws" w "bytes_of [p, q, r]"] by simp
  ultimately show ?thesis
    using aligned_bytes_of [of "ws @ [w, p, q, r]"] by (simp add: VerifyChecksumClient_def Let_def)
qed

lemma AppendChecksum_length: "AppendChecksum raw = Some out \<Longrightarrow> length out = length raw"
  by (auto simp: AppendChecksum_def Let_def put_word_def bind_eq_Some_conv split: if_splits
      dest!: go_set_Some)

section \<open>Properties of the checksum\<close>

lemma VerifyChecksum_eq:
  "VerifyChecksum raw = Some (\<exists>ws. ws \<noteq> [] \<and> raw = bytes_of (ws @ [xor_sum ws]))"
proof (cases "int (length raw) AND 3 = 0 \<and> 4 < length raw")
  case True
  then obtain ws w where raw: "raw = bytes_of (ws @ [w])"
    using last_word [of raw] by auto
  with True have "ws \<noteq> []" by auto
  have "(\<exists>vs. vs \<noteq> [] \<and> raw = bytes_of (vs @ [xor_sum vs])) \<longleftrightarrow> w = xor_sum ws"
    using \<open>ws \<noteq> []\<close> by (auto simp only: raw bytes_of_inj append1_eq_conv)
  then show ?thesis
    using VerifyChecksum_words [OF \<open>ws \<noteq> []\<close>] by (simp only: raw)
next
  case False
  then have "VerifyChecksum raw = Some False"
    by (auto simp: VerifyChecksum_def Let_def)
  moreover have "\<not> (ws \<noteq> [] \<and> raw = bytes_of (ws @ [xor_sum ws]))" for ws
    using False by (auto simp: and3_mod4)
  ultimately show ?thesis by simp
qed

text \<open>
  \<open>VerifyChecksum\<close> never panics, on any input, and accepts exactly the slices that
  consist of at least two words of which the last is the XOR of the others.
\<close>

theorem VerifyChecksum_accepts_iff:
  "VerifyChecksum raw = Some (\<exists>ws. ws \<noteq> [] \<and> raw = bytes_of (ws @ [xor_sum ws]))"
  by (rule VerifyChecksum_eq)

text \<open>
  A slice of at least eight bytes whose length is a multiple of four passes
  \<open>VerifyChecksum\<close> once \<open>AppendChecksum\<close> has filled in its last word, and every byte before that
  word is left as it was.
\<close>

theorem AppendChecksum_verifies:
  assumes "8 \<le> length raw" and "4 dvd length raw"
  shows "\<exists>out. AppendChecksum raw = Some out \<and> VerifyChecksum out = Some True
      \<and> length out = length raw \<and> take (length raw - 4) out = take (length raw - 4) raw"
proof -
  from assms have "int (length raw) AND 3 = 0" and "4 \<le> length raw"
    by (simp_all add: aligned_iff)
  then obtain ws w where raw: "raw = bytes_of (ws @ [w])"
    by (rule last_word)
  with assms have "ws \<noteq> []" by auto
  then show ?thesis
    using AppendChecksum_words [of ws w] VerifyChecksum_words [OF \<open>ws \<noteq> []\<close>, of "xor_sum ws"]
    by (simp add: raw)
qed

theorem AppendChecksum_verifies_witness:
  "\<exists>out. AppendChecksum [1, 2, 3, 4, 0, 0, 0, 0] = Some out \<and> VerifyChecksum out = Some True"
proof -
  have "4 dvd length [1, 2, 3, 4, 0, 0, 0, 0 :: byte]"
    by (rule dvdI [of _ _ 2]) simp
  then show ?thesis using AppendChecksum_verifies [of "[1, 2, 3, 4, 0, 0, 0, 0]"] by auto
qed

text \<open>
  The checksum detects every change that is confined to one word: if a packet is
  accepted and one of its words, the checksum included, is replaced by a different word, the
  result is rejected.
\<close>

theorem VerifyChecksum_detects:
  assumes "VerifyChecksum (bytes_of (us @ [v] @ ws)) = Some True" and "v \<noteq> v'"
  shows "VerifyChecksum (bytes_of (us @ [v'] @ ws)) = Some False"
proof -
  have balanced: "VerifyChecksum (bytes_of xs) = Some True \<longleftrightarrow> 2 \<le> length xs \<and> xor_sum xs = 0" for xs
  proof (cases xs rule: rev_cases)
    case Nil
    then show ?thesis by (simp add: VerifyChecksum_short)
  next
    case (snoc ys y)
    show ?thesis
    proof (cases "ys = []")
      case True
      then show ?thesis by (simp add: snoc VerifyChecksum_short)
    next
      case False
      have "y = xor_sum ys \<longleftrightarrow> xor_sum ys XOR y = 0"
        by auto
      moreover have "2 \<le> length xs"
        using False snoc by (cases ys) auto
      ultimately show ?thesis
        using VerifyChecksum_words [OF False, of y] by (simp only: snoc) simp
    qed
  qed
  have "xor_sum (us @ [v] @ ws) = 0" and "2 \<le> length (us @ [v] @ ws)"
    using assms(1) by (auto simp only: balanced)
  moreover have "xor_sum (us @ [v] @ ws) = xor_sum (us @ [v'] @ ws) \<longleftrightarrow> v = v'"
    by (simp add: xor.assoc)
  ultimately have "xor_sum (us @ [v'] @ ws) \<noteq> 0" using assms(2) by simp
  then have "VerifyChecksum (bytes_of (us @ [v'] @ ws)) \<noteq> Some True"
    using balanced [of "us @ [v'] @ ws"] by blast
  then show ?thesis
    using VerifyChecksum_eq [of "bytes_of (us @ [v'] @ ws)"] by simp
qed

theorem VerifyChecksum_detects_witness:
  "VerifyChecksum (bytes_of [7, 5]) = Some False"
proof -
  have "VerifyChecksum (bytes_of ([] @ [5] @ [5])) = Some True"
    using VerifyChecksum_words [of "[5]" 5] by simp
  then show ?thesis using VerifyChecksum_detects [of "[]" 5 "[5]" 7] by simp
qed


section \<open>The XOR pass\<close>

function enc_loop :: "byte list \<Rightarrow> int \<Rightarrow> int \<Rightarrow> u32 \<Rightarrow> (byte list \<times> int \<times> u32) option" where
  "enc_loop raw pos stop ecx =
     (if pos < stop then do {
        edx \<leftarrow> word_at raw pos;
        let ecx = ecx + edx;
        let edx = edx XOR ecx;
        raw \<leftarrow> put_word raw pos edx;
        enc_loop raw (pos + 4) stop ecx
      } else Some (raw, pos, ecx))"
  by pat_completeness auto
termination
  by (relation "measure (\<lambda>(raw, pos, stop, _). nat (stop - pos))") auto

declare enc_loop.simps [simp del]

definition EncXORPass :: "byte list \<Rightarrow> int \<Rightarrow> int \<Rightarrow> u32 \<Rightarrow> byte list option" where
  "EncXORPass raw offset sz key = do {
     let stop = offset + sz - 8;
     let pos = 4 + offset;
     (raw, pos, ecx) \<leftarrow> enc_loop raw pos stop key;
     put_word raw pos ecx
   }"

text \<open>\<open>DecXORPass\<close> first collects the encrypted words, then undoes them from the last one.\<close>

function enc_blocks :: "byte list \<Rightarrow> int \<Rightarrow> int \<Rightarrow> u32 list option" where
  "enc_blocks raw i stop =
     (if i < stop then do {
        block \<leftarrow> word_at raw i;
        blocks \<leftarrow> enc_blocks raw (i + 4) stop;
        Some (block # blocks)
      } else Some [])"
  by pat_completeness auto
termination
  by (relation "measure (\<lambda>(raw, i, stop). nat (stop - i))") auto

declare enc_blocks.simps [simp del]

fun dec_loop :: "byte list \<Rightarrow> int \<Rightarrow> u32 list \<Rightarrow> nat \<Rightarrow> u32 \<Rightarrow> byte list option" where
  "dec_loop raw offset blocks 0 currentKey = Some raw"
| "dec_loop raw offset blocks (Suc i) currentKey = do {
     block \<leftarrow> go_get blocks (int i);
     let originalData = block XOR currentKey;
     raw \<leftarrow> put_word raw (4 + offset + int i * 4) originalData;
     dec_loop raw offset blocks i (currentKey - originalData)
   }"

definition DecXORPass :: "byte list \<Rightarrow> int \<Rightarrow> int \<Rightarrow> byte list option" where
  "DecXORPass raw offset sz =
     (if sz \<le> 8 then Some raw
      else do {
        let stop = offset + sz - 8;
        let pos = 4 + offset;
        let keyPos = offset + sz - 8;
        finalKey \<leftarrow> word_at raw keyPos;
        encryptedBlocks \<leftarrow> enc_blocks raw pos stop;
        raw \<leftarrow> dec_loop raw offset encryptedBlocks (length encryptedBlocks) finalKey;
        raw \<leftarrow> go_set raw keyPos 0;
        raw \<leftarrow> go_set raw (keyPos + 1) 0;
        raw \<leftarrow> go_set raw (keyPos + 2) 0;
        go_set raw (keyPos + 3) 0
      })"

text \<open>The pass on words: the running key absorbs each word before it masks it.\<close>

fun xor_pass :: "u32 \<Rightarrow> u32 list \<Rightarrow> u32 list" where
  "xor_pass k [] = []"
| "xor_pass k (w # ws) = (w XOR (k + w)) # xor_pass (k + w) ws"

lemma length_xor_pass [simp]: "length (xor_pass k ws) = length ws"
  by (induction ws arbitrary: k) auto

lemma xor_pass_snoc:
  "xor_pass k (ws @ [w]) = xor_pass k ws @ [w XOR (k + sum_list ws + w)]"
  by (induction ws arbitrary: k) (auto simp: ac_simps)

lemma enc_loop_bytes [le_codec]:
  assumes "pos = int (length pre)" and "stop = pos + 4 * int (length ws)"
  shows "enc_loop (pre @ bytes_of ws @ post) pos stop k
      = Some (pre @ bytes_of (xor_pass k ws) @ post, stop, k + sum_list ws)"
  using assms
proof (induction ws arbitrary: pre pos k)
  case Nil
  then show ?case by (simp add: enc_loop.simps)
next
  case (Cons w ws)
  let ?e = "w XOR (k + w)"
  have "enc_loop ((pre @ bytes32 ?e) @ bytes_of ws @ post) (pos + 4) stop (k + w)
      = Some ((pre @ bytes32 ?e) @ bytes_of (xor_pass (k + w) ws) @ post, stop, k + w + sum_list ws)"
    by (rule Cons.IH) (use Cons.prems in auto)
  then show ?case
    using Cons.prems word_at_at [of pos pre w "bytes_of ws @ post"]
      put_word_at [of pos pre w "bytes_of ws @ post" ?e]
    by (subst enc_loop.simps) (simp add: Let_def add.assoc)
qed

lemma enc_blocks_bytes [le_codec]:
  assumes "i = int (length pre)" and "stop = i + 4 * int (length ws)"
  shows "enc_blocks (pre @ bytes_of ws @ post) i stop = Some ws"
  using assms
proof (induction ws arbitrary: pre i)
  case Nil
  then show ?case by (simp add: enc_blocks.simps)
next
  case (Cons w ws)
  have "enc_blocks ((pre @ bytes32 w) @ bytes_of ws @ post) (i + 4) stop = Some ws"
    by (rule Cons.IH) (use Cons.prems in auto)
  then show ?case
    using Cons.prems word_at_at [of i pre w "bytes_of ws @ post"]
    by (subst enc_blocks.simps) simp
qed

lemma dec_loop_bytes [le_codec]:
  assumes "4 + offset = int (length pre)"
  shows "dec_loop (pre @ bytes_of (xor_pass k ws) @ post) offset (xor_pass k ws @ more)
      (length ws) (k + sum_list ws) = Some (pre @ bytes_of ws @ post)"
proof (induction ws arbitrary: post more rule: rev_induct)
  case Nil
  then show ?case by simp
next
  case (snoc w ws)
  let ?es = "xor_pass k ws" and ?e = "w XOR (k + sum_list ws + w)"
  have get: "go_get (?es @ ?e # more) (int (length ws)) = Some ?e"
    by (rule go_get_at) simp
  have put: "put_word ((pre @ bytes_of ?es) @ bytes32 ?e @ post) (4 + offset + int (length ws) * 4) w
      = Some ((pre @ bytes_of ?es) @ bytes32 w @ post)"
    by (rule put_word_at) (use assms in simp)
  have key: "?e XOR (k + sum_list ws + w) = w" by simp
  show ?case
    using snoc.IH [of "bytes32 w @ post" "?e # more"] get put
    by (simp add: xor_pass_snoc Let_def key add.assoc [symmetric])
qed

lemma EncXORPass_words:
  assumes "length pre = 4"
  shows "EncXORPass (pre @ bytes_of (ws @ [k0, t])) 0 (12 + 4 * int (length ws)) key
      = Some (pre @ bytes_of (xor_pass key ws @ [key + sum_list ws, t]))"
proof -
  have "enc_loop (pre @ bytes_of ws @ bytes_of [k0, t]) 4 (4 + 4 * int (length ws)) key
      = Some (pre @ bytes_of (xor_pass key ws) @ bytes_of [k0, t], 4 + 4 * int (length ws),
          key + sum_list ws)"
    by (rule enc_loop_bytes) (use assms in auto)
  moreover have "put_word ((pre @ bytes_of (xor_pass key ws)) @ bytes32 k0 @ bytes32 t)
      (4 + 4 * int (length ws)) (key + sum_list ws)
      = Some ((pre @ bytes_of (xor_pass key ws)) @ bytes32 (key + sum_list ws) @ bytes32 t)"
    by (rule put_word_at) (use assms in auto)
  ultimately show ?thesis by (simp add: EncXORPass_def Let_def)
qed

lemma zero_word: "bytes32 0 = [0, 0, 0, 0]"
  by (simp add: bytes32_def)

lemma four_zeros:
  assumes "i = int (length pre)"
  shows "do {
     raw \<leftarrow> go_set (pre @ bytes32 w @ post) i 0;
     raw \<leftarrow> go_set raw (i + 1) 0;
     raw \<leftarrow> go_set raw (i + 2) 0;
     go_set raw (i + 3) 0 } = Some (pre @ bytes32 0 @ post)"
  using put_word_at [OF assms, of w post 0] by (simp add: put_word_def)

lemma DecXORPass_words:
  assumes "length pre = 4"
  shows "DecXORPass (pre @ bytes_of (xor_pass key ws @ [key + sum_list ws, t])) 0
      (12 + 4 * int (length ws)) = Some (pre @ bytes_of (ws @ [0, t]))"
proof -
  let ?es = "xor_pass key ws" and ?k = "key + sum_list ws" and ?kp = "4 + 4 * int (length ws)"
  have "word_at ((pre @ bytes_of ?es) @ bytes32 ?k @ bytes32 t) ?kp = Some ?k"
    by (rule word_at_at) (use assms in auto)
  moreover have "enc_blocks (pre @ bytes_of ?es @ bytes_of [?k, t]) 4 ?kp = Some ?es"
    by (rule enc_blocks_bytes) (use assms in auto)
  moreover have "dec_loop (pre @ bytes_of ?es @ bytes_of [?k, t]) 0 ?es (length ws) ?k
      = Some (pre @ bytes_of ws @ bytes_of [?k, t])"
    using dec_loop_bytes [of 0 pre key ws "bytes_of [?k, t]" "[]"] assms by simp
  moreover have "do {
      raw \<leftarrow> go_set ((pre @ bytes_of ws) @ bytes32 ?k @ bytes32 t) ?kp 0;
      raw \<leftarrow> go_set raw (?kp + 1) 0;
      raw \<leftarrow> go_set raw (?kp + 2) 0;
      go_set raw (?kp + 3) 0 } = Some ((pre @ bytes_of ws) @ bytes32 0 @ bytes32 t)"
    by (rule four_zeros) (use assms in auto)
  ultimately show ?thesis by (simp add: DecXORPass_def Let_def)
qed

text \<open>
  The XOR pass is invertible without the key. For every slice of at least twelve
  bytes whose length is a multiple of four and every initial key, \<open>EncXORPass\<close> over the whole
  slice succeeds and keeps the length, and \<open>DecXORPass\<close> restores every byte, except the four
  bytes before the last four, which held no data and come back as zeros.
\<close>

theorem DecXORPass_inverts_EncXORPass:
  assumes "12 \<le> length raw" and "4 dvd length raw"
  shows "\<exists>enc. EncXORPass raw 0 (int (length raw)) key = Some enc \<and> length enc = length raw
      \<and> DecXORPass enc 0 (int (length enc))
        = Some (take (length raw - 8) raw @ [0, 0, 0, 0] @ drop (length raw - 4) raw)"
proof -
  obtain vs where vs: "raw = bytes_of vs"
    using assms(2) aligned_iff [of "length raw"] by (auto elim: aligned_words)
  with assms(1) obtain h vs' where "vs = h # vs'" and "2 \<le> length vs'"
    by (cases vs) auto
  then obtain ws k0 t where "vs' = ws @ [k0, t]"
    by (metis last_two)
  with vs \<open>vs = h # vs'\<close> have raw: "raw = bytes32 h @ bytes_of (ws @ [k0, t])" by simp
  have len: "int (length raw) = 12 + 4 * int (length ws)" by (simp add: raw)
  show ?thesis
    using EncXORPass_words [of "bytes32 h" ws k0 t key] DecXORPass_words [of "bytes32 h" key ws t]
    by (simp add: len) (simp add: raw zero_word)
qed

theorem DecXORPass_inverts_EncXORPass_witness:
  "\<exists>enc. EncXORPass (replicate 16 9) 0 16 77 = Some enc
     \<and> DecXORPass enc 0 16 = Some (replicate 8 9 @ [0, 0, 0, 0] @ replicate 4 9)"
proof -
  have "4 dvd length (replicate 16 (9 :: byte))"
    by (rule dvdI [of _ _ 4]) simp
  then show ?thesis
    using DecXORPass_inverts_EncXORPass [of "replicate 16 9" 77]
    by (auto simp: take_replicate drop_replicate)
qed

end
