(* ===== verification/Blowfish.thy ===== *)
theory Blowfish
  imports BlowfishTables
begin

text \<open>
  Blowfish as \<open>pkg/crypt/blowfish\<close> implements it: a little-endian variant of the standard
  cipher. A \<open>cipher\<close> holds the expanded key; \<open>encryptBlock\<close> and \<open>decryptBlock\<close> are the 16
  unrolled Feistel rounds, one step of the model for one line of the code; \<open>ExpandKey\<close> and
  \<open>expandKeyWithSalt\<close> are the key schedules, which encrypt with the cipher they are filling.
  \<open>BlowfishEncrypt\<close> and \<open>BlowfishDecrypt\<close> of \<open>pkg/crypt/crypt.go\<close> apply the cipher block by
  block. The locale \<open>block_cipher\<close> is what they rely on; \<open>Encrypt\<close> and \<open>Decrypt\<close> are an
  interpretation of it for every expanded key.
\<close>

record cipher =
  cp :: "u32 list"
  cs0 :: "u32 list"
  cs1 :: "u32 list"
  cs2 :: "u32 list"
  cs3 :: "u32 list"

definition cipher_wf :: "cipher \<Rightarrow> bool" where
  "cipher_wf c \<longleftrightarrow> length (cp c) = 18 \<and> length (cs0 c) = 256 \<and> length (cs1 c) = 256
     \<and> length (cs2 c) = 256 \<and> length (cs3 c) = 256"

section \<open>The rounds\<close>

definition byte_index :: "u32 \<Rightarrow> nat \<Rightarrow> nat" where
  "byte_index x k = unat (ucast (drop_bit k x) :: byte)"

text \<open>\<open>((c.s0[byte(x>>24)] + c.s1[byte(x>>16)]) ^ c.s2[byte(x>>8)]) + c.s3[byte(x)]\<close>\<close>

definition feistel :: "cipher \<Rightarrow> u32 \<Rightarrow> u32" where
  "feistel c x = ((cs0 c ! byte_index x 24 + cs1 c ! byte_index x 16) XOR cs2 c ! byte_index x 8)
     + cs3 c ! byte_index x 0"

text \<open>
  The four kinds of lines: \<open>xl ^= c.p[i]\<close>, \<open>xr ^= c.p[i]\<close>, \<open>xr ^= F(xl) ^ c.p[i]\<close> and
  \<open>xl ^= F(xr) ^ c.p[i]\<close>, on the pair \<open>(xl, xr)\<close>.
\<close>

fun whiten_l :: "cipher \<Rightarrow> nat \<Rightarrow> u32 \<times> u32 \<Rightarrow> u32 \<times> u32" where
  "whiten_l c i (xl, xr) = (xl XOR cp c ! i, xr)"

fun whiten_r :: "cipher \<Rightarrow> nat \<Rightarrow> u32 \<times> u32 \<Rightarrow> u32 \<times> u32" where
  "whiten_r c i (xl, xr) = (xl, xr XOR cp c ! i)"

fun round_r :: "cipher \<Rightarrow> nat \<Rightarrow> u32 \<times> u32 \<Rightarrow> u32 \<times> u32" where
  "round_r c i (xl, xr) = (xl, xr XOR (feistel c xl XOR cp c ! i))"

fun round_l :: "cipher \<Rightarrow> nat \<Rightarrow> u32 \<times> u32 \<Rightarrow> u32 \<times> u32" where
  "round_l c i (xl, xr) = (xl XOR (feistel c xr XOR cp c ! i), xr)"

definition encryptBlock :: "u32 \<Rightarrow> u32 \<Rightarrow> cipher \<Rightarrow> u32 \<times> u32" where
  "encryptBlock l r c =
     (let x = (l, r);
          x = whiten_l c 0 x;
          x = round_r c 1 x; x = round_l c 2 x;
          x = round_r c 3 x; x = round_l c 4 x;
          x = round_r c 5 x; x = round_l c 6 x;
          x = round_r c 7 x; x = round_l c 8 x;
          x = round_r c 9 x; x = round_l c 10 x;
          x = round_r c 11 x; x = round_l c 12 x;
          x = round_r c 13 x; x = round_l c 14 x;
          x = round_r c 15 x; x = round_l c 16 x;
          x = whiten_r c 17 x
      in (snd x, fst x))"

definition decryptBlock :: "u32 \<Rightarrow> u32 \<Rightarrow> cipher \<Rightarrow> u32 \<times> u32" where
  "decryptBlock l r c =
     (let x = (l, r);
          x = whiten_l c 17 x;
          x = round_r c 16 x; x = round_l c 15 x;
          x = round_r c 14 x; x = round_l c 13 x;
          x = round_r c 12 x; x = round_l c 11 x;
          x = round_r c 10 x; x = round_l c 9 x;
          x = round_r c 8 x; x = round_l c 7 x;
          x = round_r c 6 x; x = round_l c 5 x;
          x = round_r c 4 x; x = round_l c 3 x;
          x = round_r c 2 x; x = round_l c 1 x;
          x = whiten_r c 0 x
      in (snd x, fst x))"

definition swap_halves :: "u32 \<times> u32 \<Rightarrow> u32 \<times> u32" where
  "swap_halves x = (snd x, fst x)"

lemma swap_halves_twice [simp]: "swap_halves (swap_halves x) = x"
  by (simp add: swap_halves_def)

lemma rounds_swap [simp]:
  "whiten_l c i (swap_halves x) = swap_halves (whiten_r c i x)"
  "whiten_r c i (swap_halves x) = swap_halves (whiten_l c i x)"
  "round_r c i (swap_halves x) = swap_halves (round_l c i x)"
  "round_l c i (swap_halves x) = swap_halves (round_r c i x)"
  by (cases x; simp add: swap_halves_def)+

lemma rounds_twice [simp]:
  "whiten_l c i (whiten_l c i x) = x"
  "whiten_r c i (whiten_r c i x) = x"
  "round_r c i (round_r c i x) = x"
  "round_l c i (round_l c i x) = x"
  by (cases x; simp)+

lemma encryptBlock_rounds:
  "encryptBlock l r c = swap_halves (whiten_r c 17 (round_l c 16 (round_r c 15 (round_l c 14
     (round_r c 13 (round_l c 12 (round_r c 11 (round_l c 10 (round_r c 9 (round_l c 8 (round_r c 7
     (round_l c 6 (round_r c 5 (round_l c 4 (round_r c 3 (round_l c 2 (round_r c 1
     (whiten_l c 0 (l, r)))))))))))))))))))"
  by (simp only: encryptBlock_def Let_def swap_halves_def)

lemma decryptBlock_rounds:
  "decryptBlock l r c = swap_halves (whiten_r c 0 (round_l c 1 (round_r c 2 (round_l c 3
     (round_r c 4 (round_l c 5 (round_r c 6 (round_l c 7 (round_r c 8 (round_l c 9 (round_r c 10
     (round_l c 11 (round_r c 12 (round_l c 13 (round_r c 14 (round_l c 15 (round_r c 16
     (whiten_l c 17 (l, r)))))))))))))))))))"
  by (simp only: decryptBlock_def Let_def swap_halves_def)

lemma decryptBlock_encryptBlock:
  assumes "encryptBlock l r c = (l', r')"
  shows "decryptBlock l' r' c = (l, r)"
proof -
  define x where "x = (l, r)"
  show ?thesis
    unfolding decryptBlock_rounds
    by (simp only: assms [symmetric] encryptBlock_rounds x_def [symmetric] rounds_swap rounds_twice
        swap_halves_twice)
qed

lemma encryptBlock_decryptBlock:
  assumes "decryptBlock l r c = (l', r')"
  shows "encryptBlock l' r' c = (l, r)"
proof -
  define x where "x = (l, r)"
  show ?thesis
    unfolding encryptBlock_rounds
    by (simp only: assms [symmetric] decryptBlock_rounds x_def [symmetric] rounds_swap rounds_twice
        swap_halves_twice)
qed

section \<open>The key schedule\<close>

text \<open>\<open>getNextWord\<close>: four bytes, most significant first, from position \<open>j\<close>, wrapping at the end.\<close>

fun next_bytes :: "byte list \<Rightarrow> nat \<Rightarrow> nat \<Rightarrow> u32 \<Rightarrow> (u32 \<times> nat) option" where
  "next_bytes b 0 j w = Some (w, j)"
| "next_bytes b (Suc n) j w = do {
     x \<leftarrow> go_get b (int j);
     let w = push_bit 8 w OR ucast x;
     let j = j + 1;
     next_bytes b n (if j \<ge> length b then 0 else j) w
   }"

definition getNextWord :: "byte list \<Rightarrow> nat \<Rightarrow> (u32 \<times> nat) option" where
  "getNextWord b pos = next_bytes b 4 pos 0"

text \<open>\<open>for i := 0; i < 18; i++\<close> with \<open>n\<close> iterations left: \<open>c.p[i] ^= d\<close>.\<close>

fun mix_key :: "byte list \<Rightarrow> nat \<Rightarrow> nat \<Rightarrow> nat \<Rightarrow> cipher \<Rightarrow> cipher option" where
  "mix_key key 0 i j c = Some c"
| "mix_key key (Suc n) i j c = do {
     (d, j) \<leftarrow> getNextWord key j;
     mix_key key n (i + 1) j (c\<lparr>cp := (cp c)[i := cp c ! i XOR d]\<rparr>)
   }"

type_synonym table_update = "(u32 list \<Rightarrow> u32 list) \<Rightarrow> cipher \<Rightarrow> cipher"

text \<open>\<open>for i := 0; i < ..; i += 2\<close> with \<open>n\<close> iterations left, on the table \<open>upd\<close> updates.\<close>

fun fill :: "table_update \<Rightarrow> nat \<Rightarrow> nat \<Rightarrow> u32 \<times> u32 \<Rightarrow> cipher \<Rightarrow> (u32 \<times> u32) \<times> cipher" where
  "fill upd 0 i lr c = (lr, c)"
| "fill upd (Suc n) i lr c =
     (let lr = encryptBlock (fst lr) (snd lr) c;
          c = upd (\<lambda>t. t[i := fst lr, i + 1 := snd lr]) c
      in fill upd n (i + 2) lr c)"

definition ExpandKey :: "byte list \<Rightarrow> cipher \<Rightarrow> cipher option" where
  "ExpandKey key c = do {
     c \<leftarrow> mix_key key 18 0 0 c;
     let (lr, c) = fill cp_update 9 0 (0, 0) c;
     let (lr, c) = fill cs0_update 128 0 lr c;
     let (lr, c) = fill cs1_update 128 0 lr c;
     let (lr, c) = fill cs2_update 128 0 lr c;
     let (lr, c) = fill cs3_update 128 0 lr c;
     Some c
   }"

fun fill_salted :: "byte list \<Rightarrow> table_update \<Rightarrow> nat \<Rightarrow> nat \<Rightarrow> nat \<Rightarrow> u32 \<times> u32 \<Rightarrow> cipher
    \<Rightarrow> (nat \<times> (u32 \<times> u32) \<times> cipher) option" where
  "fill_salted salt upd 0 i j lr c = Some (j, lr, c)"
| "fill_salted salt upd (Suc n) i j lr c = do {
     (a, j) \<leftarrow> getNextWord salt j;
     (b, j) \<leftarrow> getNextWord salt j;
     let lr = encryptBlock (fst lr XOR a) (snd lr XOR b) c;
     fill_salted salt upd n (i + 2) j lr (upd (\<lambda>t. t[i := fst lr, i + 1 := snd lr]) c)
   }"

definition expandKeyWithSalt :: "byte list \<Rightarrow> byte list \<Rightarrow> cipher \<Rightarrow> cipher option" where
  "expandKeyWithSalt key salt c = do {
     c \<leftarrow> mix_key key 18 0 0 c;
     (j, lr, c) \<leftarrow> fill_salted salt cp_update 9 0 0 (0, 0) c;
     (j, lr, c) \<leftarrow> fill_salted salt cs0_update 128 0 j lr c;
     (j, lr, c) \<leftarrow> fill_salted salt cs1_update 128 0 j lr c;
     (j, lr, c) \<leftarrow> fill_salted salt cs2_update 128 0 j lr c;
     (j, lr, c) \<leftarrow> fill_salted salt cs3_update 128 0 j lr c;
     Some c
   }"

definition initCipher :: cipher where
  "initCipher = \<lparr>cp = p_table, cs0 = s0_table, cs1 = s1_table, cs2 = s2_table, cs3 = s3_table\<rparr>"

definition key_size_error :: "nat \<Rightarrow> go_error" where
  "key_size_error k = ''crypto/blowfish: invalid key size '' @ itoa k"

definition NewCipher :: "byte list \<Rightarrow> (go_error + cipher) option" where
  "NewCipher key =
     (if length key < 1 \<or> length key > 56 then err (key_size_error (length key))
      else map_option Inr (ExpandKey key initCipher))"

definition NewSaltedCipher :: "byte list \<Rightarrow> byte list \<Rightarrow> (go_error + cipher) option" where
  "NewSaltedCipher key salt =
     (if length salt = 0 then NewCipher key
      else if length key < 1 then err (key_size_error (length key))
      else map_option Inr (expandKeyWithSalt key salt initCipher))"

lemma next_bytes_total:
  "j < length b \<Longrightarrow> \<exists>w' j'. next_bytes b n j w = Some (w', j') \<and> j' < length b"
proof (induction n arbitrary: j w)
  case (Suc n)
  then have "b \<noteq> []" by auto
  then show ?case
    using Suc.IH [of 0] Suc.IH [of "Suc j"] Suc.prems by (auto simp: Let_def)
qed simp

lemma getNextWord_total:
  "j < length b \<Longrightarrow> \<exists>w j'. getNextWord b j = Some (w, j') \<and> j' < length b"
  unfolding getNextWord_def by (rule next_bytes_total)

lemma mix_key_total:
  assumes "j < length key" and "cipher_wf c"
  shows "\<exists>c'. mix_key key n i j c = Some c' \<and> cipher_wf c'"
  using assms
proof (induction n arbitrary: i j c)
  case (Suc n)
  obtain d j' where "getNextWord key j = Some (d, j')" "j' < length key"
    using getNextWord_total Suc.prems(1) by blast
  then show ?case
    using Suc.IH [of j' "c\<lparr>cp := (cp c)[i := cp c ! i XOR d]\<rparr>"] Suc.prems(2)
    by (auto simp: cipher_wf_def)
qed simp

definition keeps_wf :: "table_update \<Rightarrow> bool" where
  "keeps_wf upd \<longleftrightarrow> (\<forall>f c. (\<forall>t. length (f t) = length t) \<longrightarrow> cipher_wf c \<longrightarrow> cipher_wf (upd f c))"

lemma table_updates_keep_wf [simp]:
  "keeps_wf cp_update" "keeps_wf cs0_update" "keeps_wf cs1_update" "keeps_wf cs2_update"
  "keeps_wf cs3_update"
  by (simp_all add: keeps_wf_def cipher_wf_def)

lemma fill_wf: "keeps_wf upd \<Longrightarrow> cipher_wf c \<Longrightarrow> cipher_wf (snd (fill upd n i lr c))"
  by (induction n arbitrary: i lr c) (auto simp: Let_def keeps_wf_def)

lemma fill_wf_eq: "fill upd n i lr c = (lr', c') \<Longrightarrow> keeps_wf upd \<Longrightarrow> cipher_wf c \<Longrightarrow> cipher_wf c'"
  using fill_wf [of upd c n i lr] by simp

lemma ExpandKey_total:
  assumes "key \<noteq> []" and "cipher_wf c"
  shows "\<exists>c'. ExpandKey key c = Some c' \<and> cipher_wf c'"
proof -
  obtain c' where "mix_key key 18 0 0 c = Some c'" "cipher_wf c'"
    using mix_key_total [of 0 key c 18 0] assms by auto
  then show ?thesis
    by (auto simp: ExpandKey_def Let_def split: prod.splits elim!: fill_wf_eq)
qed

lemma initCipher_wf: "cipher_wf initCipher"
  by (simp add: cipher_wf_def initCipher_def)

text \<open>With an all-zero salt the salted schedule is the plain one.\<close>

lemma next_bytes_zero:
  "j < k \<Longrightarrow> \<exists>j'. next_bytes (replicate k 0) n j 0 = Some (0, j') \<and> j' < k"
  by (induction n arbitrary: j) (auto simp: Let_def)

lemma getNextWord_zero:
  "j < k \<Longrightarrow> \<exists>j'. getNextWord (replicate k 0) j = Some (0, j') \<and> j' < k"
  unfolding getNextWord_def by (rule next_bytes_zero)

lemma fill_salted_zero:
  "j < k \<Longrightarrow> \<exists>j'. fill_salted (replicate k 0) upd n i j lr c
     = Some (j', fst (fill upd n i lr c), snd (fill upd n i lr c)) \<and> j' < k"
proof (induction n arbitrary: i j lr c)
  case (Suc n)
  obtain j1 where j1: "getNextWord (replicate k 0) j = Some (0, j1)" "j1 < k"
    using getNextWord_zero Suc.prems by blast
  obtain j2 where j2: "getNextWord (replicate k 0) j1 = Some (0, j2)" "j2 < k"
    using getNextWord_zero j1(2) by blast
  show ?case
    using Suc.IH [OF j2(2)] j1 j2 by (simp add: Let_def)
qed simp

section \<open>One block of bytes\<close>

definition load_word :: "byte list \<Rightarrow> int \<Rightarrow> u32 option" where
  "load_word src i = do {
     a \<leftarrow> go_get src i;
     b \<leftarrow> go_get src (i + 1);
     c \<leftarrow> go_get src (i + 2);
     d \<leftarrow> go_get src (i + 3);
     Some (le32 a b c d)
   }"

definition store_word :: "byte list \<Rightarrow> int \<Rightarrow> u32 \<Rightarrow> byte list option" where
  "store_word dst i w = do {
     dst \<leftarrow> go_set dst i (ucast w);
     dst \<leftarrow> go_set dst (i + 1) (ucast (drop_bit 8 w));
     dst \<leftarrow> go_set dst (i + 2) (ucast (drop_bit 16 w));
     go_set dst (i + 3) (ucast (drop_bit 24 w))
   }"

definition Encrypt :: "cipher \<Rightarrow> byte list \<Rightarrow> byte list \<Rightarrow> byte list option" where
  "Encrypt c dst src = do {
     l \<leftarrow> load_word src 0;
     r \<leftarrow> load_word src 4;
     let (l, r) = encryptBlock l r c;
     dst \<leftarrow> store_word dst 0 l;
     store_word dst 4 r
   }"

definition Decrypt :: "cipher \<Rightarrow> byte list \<Rightarrow> byte list \<Rightarrow> byte list option" where
  "Decrypt c dst src = do {
     l \<leftarrow> load_word src 0;
     r \<leftarrow> load_word src 4;
     let (l, r) = decryptBlock l r c;
     dst \<leftarrow> store_word dst 0 l;
     store_word dst 4 r
   }"

lemma load_word_at:
  "load_word (bytes32 l @ src) 0 = Some l" "load_word (bytes32 l @ bytes32 r @ src) 4 = Some r"
  by (simp_all add: load_word_def go_get_def bytes32_def le32_bytes)

lemma store_word_at:
  "length out = 8 \<Longrightarrow> do { dst \<leftarrow> store_word (out @ dst) 0 l; store_word dst 4 r }
     = Some (bytes32 l @ bytes32 r @ dst)"
  by (auto simp: store_word_def go_set_def bytes32_def length_Suc_conv numeral_eq_Suc)

section \<open>A block cipher, block by block\<close>

text \<open>A slice whose length is a multiple of eight, as a sequence of 64-bit blocks.\<close>

definition blocks_of :: "(u32 \<times> u32) list \<Rightarrow> byte list" where
  "blocks_of ps = concat (map (\<lambda>(l, r). bytes32 l @ bytes32 r) ps)"

lemma blocks_of_simps [simp]:
  "blocks_of [] = []"
  "blocks_of (p # ps) = bytes32 (fst p) @ bytes32 (snd p) @ blocks_of ps"
  "blocks_of (ps @ qs) = blocks_of ps @ blocks_of qs"
  by (simp_all add: blocks_of_def split: prod.splits)

lemma length_blocks_of [simp]: "length (blocks_of ps) = 8 * length ps"
  by (induction ps) auto

lemma bytes_of_blocks:
  assumes "8 dvd length bs"
  obtains ps where "bs = blocks_of ps"
proof -
  obtain n where n: "length bs = 8 * n" using assms by (auto elim: dvdE)
  have "\<exists>ps. bs = blocks_of ps" if "length bs = 8 * n" for bs n
    using that
  proof (induction n arbitrary: bs)
    case (Suc n)
    then obtain a b c d e f g h rest where bs: "bs = a # b # c # d # e # f # g # h # rest"
      and "length rest = 8 * n"
      by (auto simp: numeral_eq_Suc length_Suc_conv)
    with Suc.IH obtain ps where "rest = blocks_of ps" by blast
    then have "bs = blocks_of ((le32 a b c d, le32 e f g h) # ps)"
      by (simp add: bs bytes32_le)
    then show ?case by blast
  next
    case 0
    then have "bs = blocks_of []" by simp
    then show ?case by blast
  qed
  then show thesis using n that by blast
qed

text \<open>
  \<open>for i := 0; i < count; i++ { f(out[i*8:], src[i*8:]) }\<close>, with \<open>n\<close> iterations left.
\<close>

fun each_block :: "(byte list \<Rightarrow> byte list \<Rightarrow> byte list option) \<Rightarrow> byte list \<Rightarrow> nat \<Rightarrow> nat \<Rightarrow> byte list
    \<Rightarrow> byte list option" where
  "each_block f src 0 i out = Some out"
| "each_block f src (Suc n) i out = do {
     tail \<leftarrow> f (drop (i * 8) out) (drop (i * 8) src);
     each_block f src n (i + 1) (take (i * 8) out @ tail)
   }"

text \<open>
  What the loop relies on: each of the two operations reads one block at the front of the source
  and overwrites one block at the front of the destination, and the block functions are inverse
  to each other.
\<close>

locale block_cipher =
  fixes encrypt :: "byte list \<Rightarrow> byte list \<Rightarrow> byte list option"
    and decrypt :: "byte list \<Rightarrow> byte list \<Rightarrow> byte list option"
    and enc :: "u32 \<times> u32 \<Rightarrow> u32 \<times> u32"
    and dec :: "u32 \<times> u32 \<Rightarrow> u32 \<times> u32"
  assumes encrypt_block: "length out = 8 \<Longrightarrow>
      encrypt (out @ dst) (blocks_of [p] @ src) = Some (blocks_of [enc p] @ dst)"
    and decrypt_block: "length out = 8 \<Longrightarrow>
      decrypt (out @ dst) (blocks_of [p] @ src) = Some (blocks_of [dec p] @ dst)"
    and dec_enc: "dec (enc p) = p"
    and enc_dec: "enc (dec p) = p"
begin

lemma each_block_map:
  assumes "\<And>out dst p src. length out = 8 \<Longrightarrow> f (out @ dst) (blocks_of [p] @ src) = Some (blocks_of [g p] @ dst)"
    and "length rest = 8 * length ps"
  shows "each_block f (blocks_of (done @ ps)) (length ps) (length done) (blocks_of (map g done) @ rest)
      = Some (blocks_of (map g (done @ ps)))"
  using assms(2)
proof (induction ps arbitrary: "done" rest)
  case (Cons p ps)
  define out rest' where "out = take 8 rest" and "rest' = drop 8 rest"
  then have rest: "rest = out @ rest'" "length out = 8" "length rest' = 8 * length ps"
    using Cons.prems by simp_all
  have "f (out @ rest') (blocks_of [p] @ blocks_of ps) = Some (blocks_of [g p] @ rest')"
    by (rule assms(1)) (rule rest(2))
  then show ?case
    using Cons.IH [of rest' "done @ [p]"] rest by simp
qed simp

lemma each_block_encrypt:
  "each_block encrypt (blocks_of ps) (length ps) 0 (replicate (8 * length ps) 0)
    = Some (blocks_of (map enc ps))"
  using each_block_map [of encrypt enc "replicate (8 * length ps) 0" ps "[]"] encrypt_block by simp

lemma each_block_decrypt:
  "each_block decrypt (blocks_of ps) (length ps) 0 (replicate (8 * length ps) 0)
    = Some (blocks_of (map dec ps))"
  using each_block_map [of decrypt dec "replicate (8 * length ps) 0" ps "[]"] decrypt_block by simp

lemma map_dec_enc: "map dec (map enc ps) = ps"
  by (simp add: dec_enc o_def)

lemma map_enc_dec: "map enc (map dec ps) = ps"
  by (simp add: enc_dec o_def)

end

definition enc_pair :: "cipher \<Rightarrow> u32 \<times> u32 \<Rightarrow> u32 \<times> u32" where
  "enc_pair c p = encryptBlock (fst p) (snd p) c"

definition dec_pair :: "cipher \<Rightarrow> u32 \<times> u32 \<Rightarrow> u32 \<times> u32" where
  "dec_pair c p = decryptBlock (fst p) (snd p) c"

interpretation bf: block_cipher "Encrypt c" "Decrypt c" "enc_pair c" "dec_pair c" for c
proof unfold_locales
  fix out dst src :: "byte list" and p :: "u32 \<times> u32"
  assume "length out = 8"
  then show "Encrypt c (out @ dst) (blocks_of [p] @ src) = Some (blocks_of [enc_pair c p] @ dst)"
    by (simp add: Encrypt_def load_word_at enc_pair_def store_word_at split: prod.splits)
next
  fix out dst src :: "byte list" and p :: "u32 \<times> u32"
  assume "length out = 8"
  then show "Decrypt c (out @ dst) (blocks_of [p] @ src) = Some (blocks_of [dec_pair c p] @ dst)"
    by (simp add: Decrypt_def load_word_at dec_pair_def store_word_at split: prod.splits)
next
  fix p :: "u32 \<times> u32"
  show "dec_pair c (enc_pair c p) = p"
    using decryptBlock_encryptBlock [of "fst p" "snd p" c]
    by (simp add: enc_pair_def dec_pair_def)
  show "enc_pair c (dec_pair c p) = p"
    using encryptBlock_decryptBlock [of "fst p" "snd p" c]
    by (simp add: enc_pair_def dec_pair_def)
qed

definition cipher_init_error :: go_error where
  "cipher_init_error = ''Couldn't initialize the blowfish cipher''"

definition encrypted_size_error :: go_error where
  "encrypted_size_error = ''The encrypted data is not a multiple of the block size''"

definition decrypted_size_error :: go_error where
  "decrypted_size_error = ''The decrypted data is not a multiple of the block size''"

definition BlowfishDecrypt :: "byte list \<Rightarrow> byte list \<Rightarrow> (go_error + byte list) option" where
  "BlowfishDecrypt encrypted key = do {
     r \<leftarrow> NewCipher key;
     (case r of
        Inl _ \<Rightarrow> err cipher_init_error
      | Inr cipher \<Rightarrow>
          (if length encrypted mod 8 \<noteq> 0 then err encrypted_size_error
           else map_option Inr (each_block (Decrypt cipher) encrypted (length encrypted div 8) 0
                  (replicate (length encrypted) 0))))
   }"

definition BlowfishEncrypt :: "byte list \<Rightarrow> byte list \<Rightarrow> (go_error + byte list) option" where
  "BlowfishEncrypt decrypted key = do {
     r \<leftarrow> NewCipher key;
     (case r of
        Inl _ \<Rightarrow> err cipher_init_error
      | Inr cipher \<Rightarrow>
          (if length decrypted mod 8 \<noteq> 0 then err decrypted_size_error
           else map_option Inr (each_block (Encrypt cipher) decrypted (length decrypted div 8) 0
                  (replicate (length decrypted) 0))))
   }"

definition StaticBlowfishKey :: "byte list" where
  "StaticBlowfishKey = [0x6b, 0x60, 0xcb, 0x5b, 0x82, 0xce, 0x90, 0xb1,
     0xcc, 0x2b, 0x6c, 0x55, 0x6c, 0x6c, 0x6c, 0x6c]"

definition GameServerBlowfishKey :: "byte list" where
  "GameServerBlowfishKey = [0x5f, 0x3b, 0x76, 0x2e, 0x5d, 0x30, 0x35, 0x2d,
     0x33, 0x31, 0x21, 0x7c, 0x2b, 0x2d, 0x25, 0x78, 0x54, 0x21, 0x5e, 0x5b, 0x24, 0x00]"

definition BlowfishEncryptStatic :: "byte list \<Rightarrow> (go_error + byte list) option" where
  "BlowfishEncryptStatic decrypted = BlowfishEncrypt decrypted StaticBlowfishKey"

definition BlowfishEncryptGameServer :: "byte list \<Rightarrow> (go_error + byte list) option" where
  "BlowfishEncryptGameServer decrypted = BlowfishEncrypt decrypted GameServerBlowfishKey"

definition BlowfishDecryptGameServer :: "byte list \<Rightarrow> (go_error + byte list) option" where
  "BlowfishDecryptGameServer encrypted = BlowfishDecrypt encrypted GameServerBlowfishKey"

text \<open>A key of a length Blowfish accepts.\<close>

definition key_ok :: "byte list \<Rightarrow> bool" where
  "key_ok key \<longleftrightarrow> 1 \<le> length key \<and> length key \<le> 56"

lemma NewCipher_ok: "key_ok key \<Longrightarrow> \<exists>c. NewCipher key = ok c \<and> cipher_wf c"
  using ExpandKey_total [of key initCipher] initCipher_wf
  by (cases key) (auto simp: NewCipher_def key_ok_def)

lemma NewCipher_error: "\<not> key_ok key \<Longrightarrow> NewCipher key = err (key_size_error (length key))"
  by (cases key) (auto simp: NewCipher_def key_ok_def)

lemma Blowfish_blocks:
  assumes "NewCipher key = ok c"
  shows "BlowfishEncrypt (blocks_of ps) key = ok (blocks_of (map (enc_pair c) ps))"
    and "BlowfishDecrypt (blocks_of ps) key = ok (blocks_of (map (dec_pair c) ps))"
  using assms bf.each_block_encrypt [of c ps] bf.each_block_decrypt [of c ps]
  by (simp_all add: BlowfishEncrypt_def BlowfishDecrypt_def)

text \<open>The two directions undo each other, for every key and every whole number of blocks.\<close>

lemma Blowfish_roundtrip:
  assumes "key_ok key" and "8 dvd length data"
  shows "\<exists>out. BlowfishEncrypt data key = ok out \<and> length out = length data
      \<and> BlowfishDecrypt out key = ok data"
    and "\<exists>out. BlowfishDecrypt data key = ok out \<and> length out = length data
      \<and> BlowfishEncrypt out key = ok data"
proof -
  obtain c where c: "NewCipher key = ok c" using NewCipher_ok assms(1) by blast
  obtain ps where ps: "data = blocks_of ps" using assms(2) by (rule bytes_of_blocks)
  show "\<exists>out. BlowfishEncrypt data key = ok out \<and> length out = length data
      \<and> BlowfishDecrypt out key = ok data"
    using Blowfish_blocks [OF c] bf.map_dec_enc [of c ps] by (simp add: ps)
  show "\<exists>out. BlowfishDecrypt data key = ok out \<and> length out = length data
      \<and> BlowfishEncrypt out key = ok data"
    using Blowfish_blocks [OF c] bf.map_enc_dec [of c ps] by (simp add: ps)
qed

section \<open>Properties of the cipher\<close>

text \<open>
  \<open>encryptBlock\<close> and \<open>decryptBlock\<close>, each the 18 unrolled lines of the source, are
  inverse to each other on every pair of words, whatever the tables of the cipher hold.
\<close>

theorem block_bijection:
  "(let (l', r') = encryptBlock l r c in decryptBlock l' r' c) = (l, r)
   \<and> (let (l', r') = decryptBlock l r c in encryptBlock l' r' c) = (l, r)"
proof -
  obtain el er dl dr where e: "encryptBlock l r c = (el, er)" and d: "decryptBlock l r c = (dl, dr)"
    by fastforce
  show ?thesis
    using decryptBlock_encryptBlock [OF e] encryptBlock_decryptBlock [OF d]
    by (simp only: e d Let_def prod.case)
qed

text \<open>
  \<open>NewCipher\<close> never panics. It fails exactly on keys that are empty or longer than 56
  bytes, and otherwise returns a cipher whose five tables have their full sizes, so that no round
  of \<open>encryptBlock\<close> reads outside a table.
\<close>

theorem NewCipher_total:
  "(if 1 \<le> length key \<and> length key \<le> 56 then \<exists>c. NewCipher key = ok c \<and> cipher_wf c
    else NewCipher key = err (key_size_error (length key)))
   \<and> byte_index x k < 256"
proof -
  have "byte_index x k < 256"
    using unsigned_less [of "ucast (drop_bit k x) :: byte"] by (simp add: byte_index_def)
  then show ?thesis
    using NewCipher_ok [of key] NewCipher_error [of key] by (auto simp: key_ok_def)
qed

text \<open>
  The comment of \<open>expandKeyWithSalt\<close> holds: for every non-empty all-zero salt, of any
  length, the salted key schedule computes exactly what \<open>ExpandKey\<close> computes.
\<close>

theorem expandKeyWithSalt_zero_salt:
  "expandKeyWithSalt key (replicate (Suc k) 0) c = ExpandKey key c"
proof -
  have step: "\<exists>j'. fill_salted (replicate (Suc k) 0) upd n i j lr c
     = Some (j', fst (fill upd n i lr c), snd (fill upd n i lr c)) \<and> j' < Suc k"
    if "j < Suc k" for upd n i j lr c
    using that by (rule fill_salted_zero)
  show ?thesis
  proof (cases "mix_key key 18 0 0 c")
    case None
    then show ?thesis by (simp add: expandKeyWithSalt_def ExpandKey_def)
  next
    case (Some c0)
    obtain lr1 c1 where f1: "fill cp_update 9 0 (0, 0) c0 = (lr1, c1)" by fastforce
    obtain lr2 c2 where f2: "fill cs0_update 128 0 lr1 c1 = (lr2, c2)" by fastforce
    obtain lr3 c3 where f3: "fill cs1_update 128 0 lr2 c2 = (lr3, c3)" by fastforce
    obtain lr4 c4 where f4: "fill cs2_update 128 0 lr3 c3 = (lr4, c4)" by fastforce
    obtain lr5 c5 where f5: "fill cs3_update 128 0 lr4 c4 = (lr5, c5)" by fastforce
    obtain j1 where j1: "fill_salted (replicate (Suc k) 0) cp_update 9 0 0 (0, 0) c0 = Some (j1, lr1, c1)"
      "j1 < Suc k" using step [of 0 cp_update 9 0 "(0, 0)" c0] f1 by auto
    obtain j2 where j2: "fill_salted (replicate (Suc k) 0) cs0_update 128 0 j1 lr1 c1 = Some (j2, lr2, c2)"
      "j2 < Suc k" using step [OF j1(2), of cs0_update 128 0 lr1 c1] f2 by auto
    obtain j3 where j3: "fill_salted (replicate (Suc k) 0) cs1_update 128 0 j2 lr2 c2 = Some (j3, lr3, c3)"
      "j3 < Suc k" using step [OF j2(2), of cs1_update 128 0 lr2 c2] f3 by auto
    obtain j4 where j4: "fill_salted (replicate (Suc k) 0) cs2_update 128 0 j3 lr3 c3 = Some (j4, lr4, c4)"
      "j4 < Suc k" using step [OF j3(2), of cs2_update 128 0 lr3 c3] f4 by auto
    obtain j5 where j5: "fill_salted (replicate (Suc k) 0) cs3_update 128 0 j4 lr4 c4 = Some (j5, lr5, c5)"
      "j5 < Suc k" using step [OF j4(2), of cs3_update 128 0 lr4 c4] f5 by auto
    show ?thesis
      by (simp only: expandKeyWithSalt_def ExpandKey_def Some bind.bind_lunit Let_def prod.case
          f1 f2 f3 f4 f5 j1(1) j2(1) j3(1) j4(1) j5(1))
  qed
qed

end
