(* ===== verification/GameCrypt.thy ===== *)
theory GameCrypt
  imports L2Prelude
begin

text \<open>
  The stream cipher between the game client and the game server
  (\<open>internal/gameserver/transport/gamecrypt/crypt.go\<close>): a 16-byte key per direction, chained
  byte by byte, whose bytes 8 to 11 count the bytes sent. A \<open>crypt\<close> is the Go struct. The
  locale \<open>packet_stream\<close> states what a pair of stream end points promises to the connection that
  uses it, and lifts it from one packet to a whole conversation.
\<close>

record crypt =
  inKey :: "byte list"
  outKey :: "byte list"
  inEnabled :: bool
  outEnabled :: bool

definition gc_New :: crypt where
  "gc_New = \<lparr>inKey = replicate 16 0, outKey = replicate 16 0, inEnabled = False, outEnabled = False\<rparr>"

definition SetKey :: "crypt \<Rightarrow> byte list \<Rightarrow> crypt" where
  "SetKey c key =
     (if length key \<ge> 16 then c\<lparr>inKey := take 16 key, outKey := take 16 key\<rparr> else c)"

definition EnableDecrypt :: "crypt \<Rightarrow> crypt" where
  "EnableDecrypt c = c\<lparr>inEnabled := True\<rparr>"

text \<open>The loops: \<open>i\<close> is the position in the packet, \<open>temp\<close> the previous ciphertext byte.\<close>

fun decrypt_bytes :: "byte list \<Rightarrow> nat \<Rightarrow> byte \<Rightarrow> byte list \<Rightarrow> byte list" where
  "decrypt_bytes key i temp [] = []"
| "decrypt_bytes key i temp (temp2 # raw) =
     (temp2 XOR key ! (i mod 16) XOR temp) # decrypt_bytes key (i + 1) temp2 raw"

fun encrypt_bytes :: "byte list \<Rightarrow> nat \<Rightarrow> byte \<Rightarrow> byte list \<Rightarrow> byte list" where
  "encrypt_bytes key i temp [] = []"
| "encrypt_bytes key i temp (temp2 # raw) =
     (let temp = temp2 XOR key ! (i mod 16) XOR temp
      in temp # encrypt_bytes key (i + 1) temp raw)"

text \<open>
  Bytes 8 to 11 as a number of type \<open>int\<close> (64 bits in Go), advanced by the packet length; the
  four low bytes are written back.
\<close>

definition advance_key :: "byte list \<Rightarrow> nat \<Rightarrow> byte list" where
  "advance_key key n =
     (let old = (ucast (key ! 8) :: u64) OR push_bit 8 (ucast (key ! 9))
            OR push_bit 16 (ucast (key ! 10)) OR push_bit 24 (ucast (key ! 11));
          old = old + of_nat n
      in key[8 := ucast old, 9 := ucast (drop_bit 8 old), 10 := ucast (drop_bit 16 old),
             11 := ucast (drop_bit 24 old)])"

definition gc_Decrypt :: "crypt \<Rightarrow> byte list \<Rightarrow> crypt \<times> byte list" where
  "gc_Decrypt c raw =
     (if \<not> inEnabled c then (c, raw)
      else (c\<lparr>inKey := advance_key (inKey c) (length raw)\<rparr>, decrypt_bytes (inKey c) 0 0 raw))"

definition gc_Encrypt :: "crypt \<Rightarrow> byte list \<Rightarrow> crypt \<times> byte list" where
  "gc_Encrypt c raw =
     (if \<not> outEnabled c then (c\<lparr>outEnabled := True\<rparr>, raw)
      else (c\<lparr>outKey := advance_key (outKey c) (length raw)\<rparr>, encrypt_bytes (outKey c) 0 0 raw))"

lemma length_gc_bytes [simp]:
  "length (encrypt_bytes key i t raw) = length raw" "length (decrypt_bytes key i t raw) = length raw"
  by (induction raw arbitrary: i t) (auto simp: Let_def)

lemma length_advance_key [simp]: "length (advance_key key n) = length key"
  by (simp add: advance_key_def Let_def)

lemma decrypt_encrypt_bytes [simp]:
  "decrypt_bytes key i t (encrypt_bytes key i t raw) = raw"
proof (induction raw arbitrary: i t)
  case (Cons b raw)
  have "b XOR key ! (i mod 16) XOR t XOR key ! (i mod 16) XOR t = b"
    by (simp add: xor.assoc xor.left_commute)
  with Cons show ?case by (simp add: Let_def xor.assoc)
qed simp

section \<open>Conversations\<close>

fun send_all :: "('s \<Rightarrow> 'p \<Rightarrow> 's \<times> 'p) \<Rightarrow> 's \<Rightarrow> 'p list \<Rightarrow> 's \<times> 'p list" where
  "send_all f s [] = (s, [])"
| "send_all f s (p # ps) =
     (let (s, q) = f s p; (s, qs) = send_all f s ps in (s, q # qs))"

locale packet_stream =
  fixes send :: "'s \<Rightarrow> 'p \<Rightarrow> 's \<times> 'p"
    and recv :: "'t \<Rightarrow> 'p \<Rightarrow> 't \<times> 'p"
    and synced :: "'s \<Rightarrow> 't \<Rightarrow> bool"
  assumes recv_send: "synced s t \<Longrightarrow> send s p = (s', q) \<Longrightarrow> \<exists>t'. recv t q = (t', p) \<and> synced s' t'"
begin

lemma recv_all_send_all:
  "synced s t \<Longrightarrow> send_all send s ps = (s', qs) \<Longrightarrow> \<exists>t'. send_all recv t qs = (t', ps) \<and> synced s' t'"
proof (induction ps arbitrary: s t qs)
  case (Cons p ps)
  obtain s1 q where q: "send s p = (s1, q)" by fastforce
  obtain qs1 where qs1: "send_all send s1 ps = (s', qs1)" "qs = q # qs1"
    using Cons.prems(2) q by (auto split: prod.splits)
  obtain t1 where t1: "recv t q = (t1, p)" "synced s1 t1"
    using recv_send [OF Cons.prems(1) q] by blast
  obtain t' where "send_all recv t1 qs1 = (t', ps)" "synced s' t'"
    using Cons.IH [OF t1(2) qs1(1)] by blast
  with t1 qs1 show ?case by simp
qed simp

end

text \<open>The sender's outbound half and the receiver's inbound half agree and are both enabled.\<close>

definition gc_synced :: "crypt \<Rightarrow> crypt \<Rightarrow> bool" where
  "gc_synced s t \<longleftrightarrow> outEnabled s \<and> inEnabled t \<and> outKey s = inKey t"

interpretation gc: packet_stream gc_Encrypt gc_Decrypt gc_synced
  by unfold_locales (auto simp: gc_synced_def gc_Encrypt_def gc_Decrypt_def)

lemma ucast_low_add: "(ucast (a + b :: u64) :: u32) = ucast a + ucast b"
proof -
  have "take_bit 32 (take_bit 64 (x + y)) = take_bit 32 (take_bit 64 x + take_bit 64 y)" for x y :: int
    by (subst (2) take_bit_add [symmetric]) (simp add: take_bit_add)
  then show ?thesis by transfer simp
qed

lemma ucast_low_of_nat: "(ucast (of_nat n :: u64) :: u32) = of_nat n"
  by transfer simp

lemma advance_key_counter:
  assumes "12 \<le> length key"
  shows "le32 (advance_key key n ! 8) (advance_key key n ! 9) (advance_key key n ! 10)
      (advance_key key n ! 11) = le32 (key ! 8) (key ! 9) (key ! 10) (key ! 11) + of_nat n"
proof -
  define old :: u64 where "old = ucast (key ! 8) OR push_bit 8 (ucast (key ! 9))
      OR push_bit 16 (ucast (key ! 10)) OR push_bit 24 (ucast (key ! 11))"
  have low: "(ucast old :: u32) = le32 (key ! 8) (key ! 9) (key ! 10) (key ! 11)"
    by (rule bit_word_eqI) (auto simp: old_def le32_def bit_simps)
  have bytes: "le32 (ucast x) (ucast (drop_bit 8 x)) (ucast (drop_bit 16 x)) (ucast (drop_bit 24 x))
      = ucast x" for x :: u64
  proof -
    have "(ucast (drop_bit k x) :: byte) = ucast (drop_bit k (ucast x :: u32))" if "k \<le> 24" for k
      using that by (intro bit_word_eqI) (auto simp: bit_simps)
    moreover have "(ucast x :: byte) = ucast (ucast x :: u32)"
      by (intro bit_word_eqI) (auto simp: bit_simps)
    ultimately show ?thesis by (simp add: le32_bytes)
  qed
  have "(ucast (old + of_nat n) :: u32) = ucast old + of_nat n"
    by (simp add: ucast_low_add ucast_low_of_nat)
  with assms show ?thesis
    by (simp add: advance_key_def Let_def old_def [symmetric] bytes low)
qed

section \<open>Properties\<close>

text \<open>
  A server and a client that were given the same key understand each other for the
  whole connection. The first packet the server encrypts leaves in clear; from then on the client,
  once it has enabled decryption, recovers every packet of every conversation, in order.
\<close>

theorem gamecrypt_conversation:
  "(let server = SetKey gc_New key;
        client = EnableDecrypt (SetKey gc_New key);
        (server, first') = gc_Encrypt server first;
        (server, wire) = send_all gc_Encrypt server packets
    in first' = first \<and> snd (send_all gc_Decrypt client wire) = packets)"
proof -
  let ?s = "(SetKey gc_New key)\<lparr>outEnabled := True\<rparr>" and ?c = "EnableDecrypt (SetKey gc_New key)"
  have first: "gc_Encrypt (SetKey gc_New key) first = (?s, first)"
    by (simp add: gc_Encrypt_def SetKey_def gc_New_def)
  have "gc_synced ?s ?c"
    by (simp add: gc_synced_def SetKey_def gc_New_def EnableDecrypt_def)
  moreover obtain s' wire where wire: "send_all gc_Encrypt ?s packets = (s', wire)" by fastforce
  ultimately obtain c' where "send_all gc_Decrypt ?c wire = (c', packets)"
    using gc.recv_all_send_all by blast
  then show ?thesis by (simp add: first wire)
qed

definition key_counter :: "byte list \<Rightarrow> u32" where
  "key_counter key = le32 (key ! 8) (key ! 9) (key ! 10) (key ! 11)"

lemma gc_Encrypt_counter:
  assumes "gc_Encrypt c raw = (c', q)" and "outEnabled c" and "length (outKey c) = 16"
  shows "key_counter (outKey c') = key_counter (outKey c) + of_nat (length raw)"
    and "outEnabled c'" and "length (outKey c') = 16"
  using assms advance_key_counter [of "outKey c" "length raw"]
  by (auto simp: gc_Encrypt_def key_counter_def)

text \<open>
  Bytes 8 to 11 of the outbound key are a 32-bit little-endian counter of the bytes
  encrypted: after any conversation they hold the initial value plus the total length of its
  packets, modulo \<open>2 ^ 32\<close>, and the key still has its length.
\<close>

theorem gamecrypt_key_counts_bytes:
  assumes "outEnabled c" and "length (outKey c) = 16"
    and "send_all gc_Encrypt c packets = (c', wire)"
  shows "key_counter (outKey c') = key_counter (outKey c) + of_nat (sum_list (map length packets))
     \<and> length (outKey c') = 16"
  using assms
proof (induction packets arbitrary: c wire)
  case (Cons p ps)
  obtain c1 q where q: "gc_Encrypt c p = (c1, q)" by fastforce
  note c1 = gc_Encrypt_counter [OF q Cons.prems(1,2)]
  obtain wire1 where "send_all gc_Encrypt c1 ps = (c', wire1)"
    using Cons.prems(3) q by (auto split: prod.splits)
  from Cons.IH [OF c1(2,3) this] c1(1) show ?case by simp
qed simp

theorem gamecrypt_key_counts_bytes_witness:
  "key_counter (outKey (fst (send_all gc_Encrypt (gc_New\<lparr>outEnabled := True\<rparr>) [[1, 2, 3], [4]]))) = 4"
proof -
  let ?c = "gc_New\<lparr>outEnabled := True\<rparr>"
  obtain c' wire where "send_all gc_Encrypt ?c [[1, 2, 3], [4]] = (c', wire)" by fastforce
  with gamecrypt_key_counts_bytes [of ?c "[[1, 2, 3], [4]]" c' wire] show ?thesis
    by (simp add: gc_New_def key_counter_def le32_def)
qed

end
