(* ===== verification/Utf16.thy ===== *)
theory Utf16
  imports L2Prelude
begin

text \<open>
  Strings. A Go string is modelled by its sequence of runes (Unicode code points): this is what
  \<open>[]rune(s)\<close> and \<open>string(runes)\<close> convert to and from, and both packet libraries of the
  repository go through these conversions before they write or after they read UTF-16.
  \<open>utf16_encode\<close> and \<open>utf16_decode\<close> are the functions of Go's \<open>unicode/utf16\<close>.
\<close>

type_synonym rune = nat
type_synonym go_string = "rune list"

text \<open>A string literal of the source.\<close>

definition lit :: "string \<Rightarrow> go_string" where
  "lit s = map of_char s"

definition replacement_rune :: rune where
  "replacement_rune = 0xFFFD"

text \<open>A rune that is a Unicode scalar value: everything but the surrogates.\<close>

definition valid_rune :: "rune \<Rightarrow> bool" where
  "valid_rune r \<longleftrightarrow> r < 0xD800 \<or> (0xE000 \<le> r \<and> r \<le> 0x10FFFF)"

definition encode_rune :: "rune \<Rightarrow> u16 list" where
  "encode_rune r =
     (if r < 0xD800 \<or> (0xE000 \<le> r \<and> r < 0x10000) then [of_nat r]
      else if 0x10000 \<le> r \<and> r \<le> 0x10FFFF
      then [of_nat (0xD800 + (r - 0x10000) div 1024), of_nat (0xDC00 + (r - 0x10000) mod 1024)]
      else [of_nat replacement_rune])"

definition utf16_encode :: "go_string \<Rightarrow> u16 list" where
  "utf16_encode rs = concat (map encode_rune rs)"

definition high_surrogate :: "u16 \<Rightarrow> bool" where
  "high_surrogate u \<longleftrightarrow> 0xD800 \<le> unat u \<and> unat u < 0xDC00"

definition low_surrogate :: "u16 \<Rightarrow> bool" where
  "low_surrogate u \<longleftrightarrow> 0xDC00 \<le> unat u \<and> unat u < 0xE000"

fun utf16_decode :: "u16 list \<Rightarrow> go_string" where
  "utf16_decode [] = []"
| "utf16_decode [u] =
     [if high_surrogate u \<or> low_surrogate u then replacement_rune else unat u]"
| "utf16_decode (u # v # us) =
     (if \<not> high_surrogate u \<and> \<not> low_surrogate u then unat u # utf16_decode (v # us)
      else if high_surrogate u \<and> low_surrogate v
      then ((unat u - 0xD800) * 1024 + (unat v - 0xDC00) + 0x10000) # utf16_decode us
      else replacement_rune # utf16_decode (v # us))"

lemma unat_of_nat_u16: "n < 65536 \<Longrightarrow> unat (of_nat n :: u16) = n"
  by (simp add: unat_of_nat take_bit_nat_eq_self)

lemma decode_single:
  "\<not> high_surrogate u \<Longrightarrow> \<not> low_surrogate u \<Longrightarrow> utf16_decode (u # us) = unat u # utf16_decode us"
  by (cases us) auto

lemma utf16_decode_encode [simp]:
  assumes "\<forall>r \<in> set rs. valid_rune r"
  shows "utf16_decode (utf16_encode rs) = rs"
  using assms
proof (induction rs)
  case Nil
  then show ?case by (simp add: utf16_encode_def)
next
  case (Cons r rs)
  then have IH: "utf16_decode (utf16_encode rs) = rs" and r: "valid_rune r" by auto
  show ?case
  proof (cases "r < 0x10000")
    case True
    then have "unat (of_nat r :: u16) = r" by (simp add: unat_of_nat_u16)
    moreover from this r have "\<not> high_surrogate (of_nat r)" "\<not> low_surrogate (of_nat r)"
      by (auto simp: valid_rune_def high_surrogate_def low_surrogate_def)
    moreover have "encode_rune r = [of_nat r]"
      using True r by (auto simp: encode_rune_def valid_rune_def)
    ultimately show ?thesis
      using IH by (simp add: utf16_encode_def decode_single)
  next
    case False
    define d where "d = r - 0x10000"
    have d: "d < 1048576" "r = d + 0x10000"
      using False r by (auto simp: d_def valid_rune_def)
    have hi: "unat (of_nat (0xD800 + d div 1024) :: u16) = 0xD800 + d div 1024"
      using d(1) by (intro unat_of_nat_u16) (auto simp: less_mult_imp_div_less)
    have lo: "unat (of_nat (0xDC00 + d mod 1024) :: u16) = 0xDC00 + d mod 1024"
      using mod_less_divisor [of 1024 d] by (intro unat_of_nat_u16) linarith
    have "encode_rune r = [of_nat (0xD800 + d div 1024), of_nat (0xDC00 + d mod 1024)]"
      using d by (simp add: encode_rune_def)
    moreover have "high_surrogate (of_nat (0xD800 + d div 1024))"
      unfolding high_surrogate_def hi using less_mult_imp_div_less [of d 1024 1024] d(1) by simp
    moreover have "low_surrogate (of_nat (0xDC00 + d mod 1024))"
      unfolding low_surrogate_def lo using mod_less_divisor [of 1024 d] by simp
    ultimately show ?thesis
      using IH d(2) hi lo by (simp add: utf16_encode_def)
  qed
qed

lemma encode_rune_nonzero:
  "valid_rune r \<Longrightarrow> r \<noteq> 0 \<Longrightarrow> 0 \<notin> set (encode_rune r)"
proof -
  have nz: "(of_nat n :: u16) \<noteq> 0" if "0 < n" "n < 65536" for n
    using that unat_of_nat_u16 [of n] by auto
  assume r: "valid_rune r" "r \<noteq> 0"
  have "(r - 0x10000) div 1024 < 1024" if "r \<le> 0x10FFFF"
    using that less_mult_imp_div_less [of "r - 0x10000" 1024 1024] by simp
  moreover have "(r - 0x10000) mod 1024 < 1024" by simp
  ultimately show ?thesis
    using r nz [of r] nz [of "0xD800 + (r - 0x10000) div 1024"] nz [of "0xDC00 + (r - 0x10000) mod 1024"]
    by (auto simp: encode_rune_def valid_rune_def simp del: of_nat_add of_nat_numeral)
qed

text \<open>A string that survives a zero-terminated UTF-16 field: scalar values only, none of them 0.\<close>

definition wire_string :: "go_string \<Rightarrow> bool" where
  "wire_string s \<longleftrightarrow> (\<forall>r \<in> set s. valid_rune r \<and> r \<noteq> 0)"

lemma wire_string_units: "wire_string s \<Longrightarrow> 0 \<notin> set (utf16_encode s)"
  using encode_rune_nonzero by (auto simp: wire_string_def utf16_encode_def)

lemma wire_string_roundtrip: "wire_string s \<Longrightarrow> utf16_decode (utf16_encode s) = s"
  by (simp add: wire_string_def)

text \<open>The units of a field, terminated, as bytes.\<close>

definition string_bytes :: "go_string \<Rightarrow> byte list" where
  "string_bytes s = concat (map bytes16 (utf16_encode s)) @ bytes16 0"

end
