(* ===== verification/L2Packet.thy ===== *)
theory L2Packet
  imports Utf16
begin

text \<open>
  The packet reader and writer of the game server (\<open>pkg/l2pkt\<close>). A \<open>reader\<close> is the Go struct: the
  buffer and the offset of the next unread byte; a writer is the content of its buffer.
  \<open>unread\<close> is the part still to be read. The locale \<open>field_codec\<close> states what a read operation
  promises about the bytes of the matching write operation; every pair of the package is an
  interpretation of it, and packets with any sequence of fields rest on it.
\<close>

record reader =
  buf :: "byte list"
  off :: nat

definition NewReader :: "byte list \<Rightarrow> reader" where
  "NewReader b = \<lparr>buf = b, off = 0\<rparr>"

definition unread :: "reader \<Rightarrow> byte list" where
  "unread r = drop (off r) (buf r)"

definition reader_ok :: "reader \<Rightarrow> bool" where
  "reader_ok r \<longleftrightarrow> off r \<le> length (buf r)"

definition HasRemaining :: "reader \<Rightarrow> bool" where
  "HasRemaining r \<longleftrightarrow> off r < length (buf r)"

definition Remaining :: "reader \<Rightarrow> int" where
  "Remaining r = int (length (buf r)) - int (off r)"

definition ErrUnderflow :: go_error where
  "ErrUnderflow = ''buffer underflow''"

definition skip :: "nat \<Rightarrow> reader \<Rightarrow> reader" where
  "skip n r = r\<lparr>off := off r + n\<rparr>"

section \<open>Reading\<close>

definition ReadB :: "nat \<Rightarrow> reader \<Rightarrow> (go_error + byte list) \<times> reader" where
  "ReadB n r =
     (if off r + n > length (buf r) then (Inl ErrUnderflow, r)
      else (Inr (take n (drop (off r) (buf r))), skip n r))"

text \<open>\<open>ReadBInto(dst, offset, n)\<close>: \<open>n\<close> is an \<open>int\<close>; a negative one passes the guard and panics.\<close>

definition ReadBInto :: "byte list \<Rightarrow> int \<Rightarrow> int \<Rightarrow> reader \<Rightarrow> ((go_error + byte list) \<times> reader) option" where
  "ReadBInto dst offset n r =
     (if int (off r) + n > int (length (buf r)) \<or> offset < 0 \<or> offset + n > int (length dst)
      then Some (Inl ErrUnderflow, r)
      else do {
        _ \<leftarrow> go_slice dst offset (offset + n);
        src \<leftarrow> go_slice (buf r) (int (off r)) (int (off r) + n);
        Some (Inr (take (nat offset) dst @ src @ drop (nat (offset + n)) dst), skip (nat n) r)
      })"

definition ReadC :: "reader \<Rightarrow> (go_error + byte) \<times> reader" where
  "ReadC r =
     (if off r + 1 > length (buf r) then (Inl ErrUnderflow, r)
      else (Inr (buf r ! off r), skip 1 r))"

definition ReadH :: "reader \<Rightarrow> (go_error + u16) \<times> reader" where
  "ReadH r =
     (if off r + 2 > length (buf r) then (Inl ErrUnderflow, r)
      else (Inr (le16 (buf r ! off r) (buf r ! (off r + 1))), skip 2 r))"

text \<open>The 32-bit pattern of the Go \<open>int32\<close>; \<open>sint\<close> reads it as the signed number.\<close>

definition le32_in :: "byte list \<Rightarrow> nat \<Rightarrow> u32" where
  "le32_in b i = le32 (b ! i) (b ! (i + 1)) (b ! (i + 2)) (b ! (i + 3))"

definition ReadD :: "reader \<Rightarrow> (go_error + u32) \<times> reader" where
  "ReadD r =
     (if off r + 4 > length (buf r) then (Inl ErrUnderflow, r)
      else (Inr (le32_in (buf r) (off r)), skip 4 r))"

definition ReadQ :: "reader \<Rightarrow> (go_error + u64) \<times> reader" where
  "ReadQ r =
     (if off r + 8 > length (buf r) then (Inl ErrUnderflow, r)
      else (Inr (le64 (le32_in (buf r) (off r)) (le32_in (buf r) (off r + 4))), skip 8 r))"

text \<open>A \<open>float64\<close> is its IEEE bit pattern, which is all \<open>math.Float64frombits\<close> looks at.\<close>

definition ReadF :: "reader \<Rightarrow> (go_error + u64) \<times> reader" where
  "ReadF r = (case ReadQ r of (Inl e, r) \<Rightarrow> (Inl e, r) | (Inr u, r) \<Rightarrow> (Inr u, r))"

text \<open>The loop of \<open>ReadS\<close>; the accumulator is \<open>u16scratch\<close>.\<close>

function read_units :: "reader \<Rightarrow> u16 list \<Rightarrow> (go_error + u16 list) \<times> reader" where
  "read_units r u16scratch =
     (if off r + 2 > length (buf r) then (Inl ErrUnderflow, r)
      else let u = le16 (buf r ! off r) (buf r ! (off r + 1)); r = skip 2 r
           in if u = 0 then (Inr u16scratch, r) else read_units r (u16scratch @ [u]))"
  by pat_completeness auto
termination
  by (relation "measure (\<lambda>(r, _). length (buf r) - off r)") (auto simp: skip_def)

declare read_units.simps [simp del]

definition ReadS :: "reader \<Rightarrow> (go_error + go_string) \<times> reader" where
  "ReadS r =
     (case read_units r [] of
        (Inl e, r) \<Rightarrow> (Inl e, r)
      | (Inr us, r) \<Rightarrow> (Inr (if us = [] then [] else utf16_decode us), r))"

section \<open>Writing\<close>

type_synonym writer = "byte list"

definition NewWriter :: writer where
  "NewWriter = []"

definition WriteB :: "byte list \<Rightarrow> writer \<Rightarrow> writer" where
  "WriteB b w = w @ b"

definition WriteC :: "byte \<Rightarrow> writer \<Rightarrow> writer" where
  "WriteC v w = w @ [v]"

definition WriteH :: "u16 \<Rightarrow> writer \<Rightarrow> writer" where
  "WriteH v w = w @ bytes16 v"

definition WriteD :: "u32 \<Rightarrow> writer \<Rightarrow> writer" where
  "WriteD v w = w @ bytes32 v"

definition WriteQ :: "u64 \<Rightarrow> writer \<Rightarrow> writer" where
  "WriteQ v w = w @ bytes64 v"

definition WriteF :: "u64 \<Rightarrow> writer \<Rightarrow> writer" where
  "WriteF v w = w @ bytes64 v"

definition WriteS :: "go_string \<Rightarrow> writer \<Rightarrow> writer" where
  "WriteS s w = fold WriteH (utf16_encode s) w @ bytes16 0"

lemma fold_WriteH: "fold WriteH us w = w @ concat (map bytes16 us)"
  by (induction us arbitrary: w) (auto simp: WriteH_def)

lemma WriteS_bytes: "WriteS s w = w @ string_bytes s"
  by (simp add: WriteS_def string_bytes_def fold_WriteH)

section \<open>The contract of a field\<close>

locale field_codec =
  fixes put :: "'a \<Rightarrow> byte list"
    and get :: "reader \<Rightarrow> (go_error + 'a) \<times> reader"
    and valid :: "'a \<Rightarrow> bool"
  assumes get_put: "reader_ok r \<Longrightarrow> valid x \<Longrightarrow> unread r = put x @ rest
      \<Longrightarrow> \<exists>r'. get r = (Inr x, r') \<and> reader_ok r' \<and> unread r' = rest"
begin

lemma get_put_new:
  assumes "valid x"
  shows "\<exists>r'. get (NewReader (put x @ rest)) = (Inr x, r') \<and> unread r' = rest"
  using get_put [of "NewReader (put x @ rest)" x rest] assms
  by (auto simp: NewReader_def unread_def reader_ok_def)

end

lemma unread_skip:
  assumes "reader_ok r" and "unread r = p @ rest"
  shows "reader_ok (skip (length p) r)" "unread (skip (length p) r) = rest"
    "off r + length p \<le> length (buf r)"
proof -
  have len: "length (buf r) = off r + length p + length rest"
    using assms(1) arg_cong [OF assms(2), of length] by (simp add: unread_def reader_ok_def)
  then show "reader_ok (skip (length p) r)" "off r + length p \<le> length (buf r)"
    by (simp_all add: reader_ok_def skip_def)
  have "drop (length p) (unread r) = rest" by (simp add: assms(2))
  then show "unread (skip (length p) r) = rest"
    by (simp add: unread_def skip_def add.commute)
qed

lemma buf_nth:
  assumes "reader_ok r" and "unread r = p @ rest" and "i < length p"
  shows "buf r ! (off r + i) = p ! i"
proof -
  have "unread r ! i = buf r ! (off r + i)"
    using assms(1) by (simp add: unread_def reader_ok_def)
  then show ?thesis using assms by (simp add: nth_append)
qed

interpretation codec_C: field_codec "\<lambda>v. [v]" ReadC "\<lambda>_. True"
proof unfold_locales
  fix r x rest
  assume r: "reader_ok r" "unread r = [x] @ rest"
  then show "\<exists>r'. ReadC r = (Inr x, r') \<and> reader_ok r' \<and> unread r' = rest"
    using unread_skip [OF r] buf_nth [OF r, of 0] by (simp add: ReadC_def)
qed

interpretation codec_H: field_codec bytes16 ReadH "\<lambda>_. True"
proof unfold_locales
  fix r x rest
  assume r: "reader_ok r" "unread r = bytes16 x @ rest"
  then show "\<exists>r'. ReadH r = (Inr x, r') \<and> reader_ok r' \<and> unread r' = rest"
    using unread_skip [OF r] buf_nth [OF r, of 0] buf_nth [OF r, of 1]
    by (simp add: ReadH_def) (simp add: bytes16_def le16_bytes)
qed

lemma le32_in_at:
  assumes "reader_ok r" and "unread r = p @ rest" and "i + 4 \<le> length p"
    and "take 4 (drop i p) = bytes32 x"
  shows "le32_in (buf r) (off r + i) = x"
proof -
  have at: "p ! (i + k) = bytes32 x ! k" if "k < 4" for k
    using assms(3) that by (simp add: assms(4) [symmetric])
  have get: "buf r ! (off r + i + k) = bytes32 x ! k" if "k < 4" for k
    using buf_nth [OF assms(1,2), of "i + k"] at [OF that] assms(3) that by (simp add: add.assoc)
  show ?thesis
    using get [of 0] get [of 1] get [of 2] get [of 3]
    by (simp add: le32_in_def) (simp add: bytes32_def le32_bytes)
qed

interpretation codec_D: field_codec bytes32 ReadD "\<lambda>_. True"
proof unfold_locales
  fix r x rest
  assume r: "reader_ok r" "unread r = bytes32 x @ rest"
  then show "\<exists>r'. ReadD r = (Inr x, r') \<and> reader_ok r' \<and> unread r' = rest"
    using unread_skip [OF r] le32_in_at [OF r, of 0 x] by (simp add: ReadD_def)
qed

interpretation codec_Q: field_codec bytes64 ReadQ "\<lambda>_. True"
proof unfold_locales
  fix r x rest
  assume r: "reader_ok r" "unread r = bytes64 x @ rest"
  have "le32_in (buf r) (off r) = ucast x"
    using le32_in_at [OF r, of 0] by (simp add: bytes64_def)
  moreover have "le32_in (buf r) (off r + 4) = ucast (drop_bit 32 x)"
    using le32_in_at [OF r, of 4] by (simp add: bytes64_def)
  ultimately show "\<exists>r'. ReadQ r = (Inr x, r') \<and> reader_ok r' \<and> unread r' = rest"
    using unread_skip [OF r] by (simp add: ReadQ_def le64_halves)
qed

interpretation codec_F: field_codec bytes64 ReadF "\<lambda>_. True"
proof unfold_locales
  fix r x rest
  assume "reader_ok r" "unread r = bytes64 x @ rest"
  then obtain r' where "ReadQ r = (Inr x, r')" "reader_ok r'" "unread r' = rest"
    using codec_Q.get_put by blast
  then show "\<exists>r'. ReadF r = (Inr x, r') \<and> reader_ok r' \<and> unread r' = rest"
    by (simp add: ReadF_def)
qed

lemma read_units_at:
  assumes "reader_ok r" and "unread r = concat (map bytes16 us) @ bytes16 0 @ rest" and "0 \<notin> set us"
  shows "\<exists>r'. read_units r acc = (Inr (acc @ us), r') \<and> reader_ok r' \<and> unread r' = rest"
  using assms
proof (induction us arbitrary: r acc)
  case Nil
  then have u: "unread r = bytes16 0 @ rest" by simp
  have "le16 (buf r ! off r) (buf r ! (off r + 1)) = 0"
    using buf_nth [OF Nil.prems(1) u, of 0] buf_nth [OF Nil.prems(1) u, of 1]
    by simp (simp add: bytes16_def le16_def)
  then show ?case
    using unread_skip [OF Nil.prems(1) u] by (subst read_units.simps) (simp add: Let_def)
next
  case (Cons v us)
  then have u: "unread r = bytes16 v @ concat (map bytes16 us) @ bytes16 0 @ rest" by simp
  note next' = unread_skip [OF Cons.prems(1) u]
  have "le16 (buf r ! off r) (buf r ! (off r + 1)) = v"
    using buf_nth [OF Cons.prems(1) u, of 0] buf_nth [OF Cons.prems(1) u, of 1]
    by simp (simp add: bytes16_def le16_bytes)
  then show ?case
    using Cons.IH [of "skip 2 r" "acc @ [v]"] next' Cons.prems(3)
    by (subst read_units.simps) (auto simp: Let_def)
qed

interpretation codec_S: field_codec string_bytes ReadS wire_string
proof unfold_locales
  fix r s rest
  assume r: "reader_ok r" and s: "wire_string s" and "unread r = string_bytes s @ rest"
  then have "unread r = concat (map bytes16 (utf16_encode s)) @ bytes16 0 @ rest"
    by (simp add: string_bytes_def)
  from read_units_at [OF r this wire_string_units [OF s], of "[]"] obtain r'
    where r': "read_units r [] = (Inr (utf16_encode s), r')" "reader_ok r'" "unread r' = rest"
    by auto
  have "(if utf16_encode s = [] then [] else utf16_decode (utf16_encode s)) = s"
    using wire_string_roundtrip [OF s] by (cases "utf16_encode s = []") auto
  with r' show "\<exists>r'. ReadS r = (Inr s, r') \<and> reader_ok r' \<and> unread r' = rest"
    by (simp add: ReadS_def)
qed

section \<open>Packets of many fields\<close>

datatype field = FC byte | FH u16 | FD u32 | FQ u64 | FF u64 | FS go_string | FB "byte list"

datatype kind = KC | KH | KD | KQ | KF | KS | KB nat

fun kind_of :: "field \<Rightarrow> kind" where
  "kind_of (FC _) = KC"
| "kind_of (FH _) = KH"
| "kind_of (FD _) = KD"
| "kind_of (FQ _) = KQ"
| "kind_of (FF _) = KF"
| "kind_of (FS _) = KS"
| "kind_of (FB b) = KB (length b)"

fun write_field :: "field \<Rightarrow> writer \<Rightarrow> writer" where
  "write_field (FC v) = WriteC v"
| "write_field (FH v) = WriteH v"
| "write_field (FD v) = WriteD v"
| "write_field (FQ v) = WriteQ v"
| "write_field (FF v) = WriteF v"
| "write_field (FS s) = WriteS s"
| "write_field (FB b) = WriteB b"

definition map_res :: "('a \<Rightarrow> 'b) \<Rightarrow> (go_error + 'a) \<times> reader \<Rightarrow> (go_error + 'b) \<times> reader" where
  "map_res f x = (case x of (Inl e, r) \<Rightarrow> (Inl e, r) | (Inr v, r) \<Rightarrow> (Inr (f v), r))"

fun read_field :: "kind \<Rightarrow> reader \<Rightarrow> (go_error + field) \<times> reader" where
  "read_field KC r = map_res FC (ReadC r)"
| "read_field KH r = map_res FH (ReadH r)"
| "read_field KD r = map_res FD (ReadD r)"
| "read_field KQ r = map_res FQ (ReadQ r)"
| "read_field KF r = map_res FF (ReadF r)"
| "read_field KS r = map_res FS (ReadS r)"
| "read_field (KB n) r = map_res FB (ReadB n r)"

fun read_fields :: "kind list \<Rightarrow> reader \<Rightarrow> (go_error + field list) \<times> reader" where
  "read_fields [] r = (Inr [], r)"
| "read_fields (k # ks) r =
     (case read_field k r of
        (Inl e, r) \<Rightarrow> (Inl e, r)
      | (Inr f, r) \<Rightarrow> map_res ((#) f) (read_fields ks r))"

fun field_bytes :: "field \<Rightarrow> byte list" where
  "field_bytes (FC v) = [v]"
| "field_bytes (FH v) = bytes16 v"
| "field_bytes (FD v) = bytes32 v"
| "field_bytes (FQ v) = bytes64 v"
| "field_bytes (FF v) = bytes64 v"
| "field_bytes (FS s) = string_bytes s"
| "field_bytes (FB b) = b"

fun wire_field :: "field \<Rightarrow> bool" where
  "wire_field (FS s) = wire_string s"
| "wire_field _ = True"

lemma write_field_bytes: "write_field f w = w @ field_bytes f"
  by (cases f) (auto simp: WriteC_def WriteH_def WriteD_def WriteQ_def WriteF_def WriteS_bytes WriteB_def)

lemma fold_write_field: "fold write_field fs w = w @ concat (map field_bytes fs)"
  by (induction fs arbitrary: w) (auto simp: write_field_bytes)

lemma read_field_bytes:
  assumes "reader_ok r" and "wire_field f" and "unread r = field_bytes f @ rest"
  shows "\<exists>r'. read_field (kind_of f) r = (Inr f, r') \<and> reader_ok r' \<and> unread r' = rest"
proof (cases f)
  case (FC x)
  with assms codec_C.get_put [of r x rest] show ?thesis by (auto simp: map_res_def)
next
  case (FH x)
  with assms codec_H.get_put [of r x rest] show ?thesis by (auto simp: map_res_def)
next
  case (FD x)
  with assms codec_D.get_put [of r x rest] show ?thesis by (auto simp: map_res_def)
next
  case (FQ x)
  with assms codec_Q.get_put [of r x rest] show ?thesis by (auto simp: map_res_def)
next
  case (FF x)
  with assms codec_F.get_put [of r x rest] show ?thesis by (auto simp: map_res_def)
next
  case (FS x)
  with assms codec_S.get_put [of r x rest] show ?thesis by (auto simp: map_res_def)
next
  case (FB b)
  with assms have u: "unread r = b @ rest" by simp
  then have "take (length b) (drop (off r) (buf r)) = b"
    by (simp add: unread_def)
  with FB unread_skip [OF assms(1) u] show ?thesis by (simp add: map_res_def ReadB_def)
qed

lemma read_fields_bytes:
  assumes "reader_ok r" and "\<forall>f \<in> set fs. wire_field f"
    and "unread r = concat (map field_bytes fs) @ rest"
  shows "\<exists>r'. read_fields (map kind_of fs) r = (Inr fs, r') \<and> reader_ok r' \<and> unread r' = rest"
  using assms
proof (induction fs arbitrary: r)
  case (Cons f fs)
  then obtain r1 where r1: "read_field (kind_of f) r = (Inr f, r1)" "reader_ok r1"
    "unread r1 = concat (map field_bytes fs) @ rest"
    using read_field_bytes [of r f "concat (map field_bytes fs) @ rest"] by auto
  with Cons.IH [of r1] Cons.prems(2) show ?case by (auto simp: map_res_def)
qed simp

section \<open>Properties\<close>

text \<open>
  Any packet written field by field is read back. For every sequence of fields
  (bytes, 16-, 32- and 64-bit integers, doubles by bit pattern, byte blocks of known length, and
  strings of non-zero Unicode scalar values, surrogate pairs included), reading the kinds of the
  fields in order returns the fields and leaves exactly what followed the packet.
\<close>

theorem l2pkt_roundtrip:
  assumes "\<forall>f \<in> set fs. wire_field f"
  shows "\<exists>r'. read_fields (map kind_of fs) (NewReader (fold write_field fs NewWriter @ rest)) = (Inr fs, r')
      \<and> unread r' = rest \<and> Remaining r' = int (length rest)"
proof -
  let ?r = "NewReader (fold write_field fs NewWriter @ rest)"
  have "reader_ok ?r" "unread ?r = concat (map field_bytes fs) @ rest"
    by (simp_all add: NewReader_def reader_ok_def unread_def fold_write_field NewWriter_def)
  from read_fields_bytes [OF this(1) assms this(2)] obtain r'
    where "read_fields (map kind_of fs) ?r = (Inr fs, r')" "reader_ok r'" "unread r' = rest" by blast
  moreover from this have "Remaining r' = int (length rest)"
    by (auto simp: Remaining_def unread_def reader_ok_def of_nat_diff)
  ultimately show ?thesis by blast
qed

theorem l2pkt_roundtrip_witness:
  "\<exists>r'. read_fields [KC, KS, KD] (NewReader (fold write_field [FC 7, FS [0x1F600, 65], FD 9] NewWriter @ [3]))
     = (Inr [FC 7, FS [0x1F600, 65], FD 9], r')"
  using l2pkt_roundtrip [of "[FC 7, FS [0x1F600, 65], FD 9]" "[3]"]
  by (auto simp: wire_string_def valid_rune_def)

lemma read_units_bounds:
  "reader_ok r \<Longrightarrow> read_units r acc = (x, r') \<Longrightarrow>
     reader_ok r' \<and> buf r' = buf r \<and> off r \<le> off r' \<and> (\<forall>e. x = Inl e \<longrightarrow> e = ErrUnderflow)"
proof (induction r acc rule: read_units.induct)
  case (1 r acc)
  let ?u = "le16 (buf r ! off r) (buf r ! (off r + 1))"
  show ?case
  proof (cases "off r + 2 > length (buf r)")
    case True
    with "1.prems" show ?thesis by (auto simp: read_units.simps [of r acc])
  next
    case False
    then have ok: "reader_ok (skip 2 r)" by (simp add: reader_ok_def skip_def)
    show ?thesis
    proof (cases "?u = 0")
      case True
      with False "1.prems" ok show ?thesis
        by (auto simp: read_units.simps [of r acc] Let_def skip_def)
    next
      case nonzero: False
      with False "1.prems" have "read_units (skip 2 r) (acc @ [?u]) = (x, r')"
        by (simp add: read_units.simps [of r acc] Let_def)
      with "1.IH" [OF False refl refl nonzero ok] show ?thesis by (auto simp: skip_def)
    qed
  qed
qed

text \<open>
  The reader never runs past its buffer and never goes back. Whatever the bytes and
  whatever the kind of field asked for, a read leaves the offset between its old value and the
  length of the buffer, and the buffer as it was; the only error is the underflow error.
\<close>

theorem l2pkt_reader_bounds:
  assumes "reader_ok r" and "read_field k r = (x, r')"
  shows "off r \<le> off r' \<and> off r' \<le> length (buf r) \<and> buf r' = buf r
      \<and> (\<forall>e. x = Inl e \<longrightarrow> e = ErrUnderflow)"
proof (cases k)
  case KS
  obtain y r1 where y: "read_units r [] = (y, r1)" by fastforce
  from read_units_bounds [OF assms(1) y] assms(2) KS y show ?thesis
    by (cases y) (auto simp: ReadS_def map_res_def reader_ok_def)
qed (use assms in \<open>auto simp: map_res_def ReadC_def ReadH_def ReadD_def ReadQ_def ReadF_def ReadB_def
      reader_ok_def skip_def split: if_splits\<close>)

theorem l2pkt_reader_bounds_witness:
  "off (snd (read_field KS (NewReader [65, 0, 66]))) \<le> 3"
proof -
  obtain x r' where x: "read_field KS (NewReader [65, 0, 66]) = (x, r')" by fastforce
  show ?thesis
    using l2pkt_reader_bounds [OF _ x] x by (simp add: NewReader_def reader_ok_def)
qed

end
