(* ===== verification/GoMap.thy ===== *)
theory GoMap
  imports L2Prelude "HOL-Library.AList"
begin

text \<open>
  Go maps. A \<open>map[K]V\<close> is an association list with distinct keys; the order of the list is the
  order in which one \<open>range\<close> over the map visits it, which Go leaves open: no result of the
  development depends on it. The locale \<open>keyed_store\<close> is what the components rely on, with the
  facts about deleting several keys that the clean-up loops share.
\<close>

type_synonym ('k, 'v) go_map = "('k \<times> 'v) list"

definition map_ok :: "('k, 'v) go_map \<Rightarrow> bool" where
  "map_ok m \<longleftrightarrow> distinct (map fst m)"

locale keyed_store =
  fixes empty :: 'm
    and lookup :: "'m \<Rightarrow> 'k \<Rightarrow> 'v option"
    and insert :: "'k \<Rightarrow> 'v \<Rightarrow> 'm \<Rightarrow> 'm"
    and delete :: "'k \<Rightarrow> 'm \<Rightarrow> 'm"
    and keys :: "'m \<Rightarrow> 'k list"
    and invar :: "'m \<Rightarrow> bool"
  assumes lookup_empty: "lookup empty k = None"
    and lookup_insert: "lookup (insert k v m) k' = (if k' = k then Some v else lookup m k')"
    and lookup_delete: "lookup (delete k m) k' = (if k' = k then None else lookup m k')"
    and keys_lookup: "set (keys m) = {k. lookup m k \<noteq> None}"
    and invar_empty: "invar empty"
    and invar_insert: "invar m \<Longrightarrow> invar (insert k v m)"
    and invar_delete: "invar m \<Longrightarrow> invar (delete k m)"
begin

lemma lookup_delete_many:
  "lookup (fold delete ks m) k = (if k \<in> set ks then None else lookup m k)"
  by (induction ks arbitrary: m) (auto simp: lookup_delete)

lemma invar_delete_many: "invar m \<Longrightarrow> invar (fold delete ks m)"
  by (induction ks arbitrary: m) (auto simp: invar_delete)

lemma lookup_delete_filter:
  "lookup (fold delete (filter P (keys m)) m) k = (if P k then None else lookup m k)"
  by (auto simp: lookup_delete_many keys_lookup)

end

interpretation gm: keyed_store "[]" map_of AList.update AList.delete "map fst" map_ok
  by unfold_locales
    (auto simp: update_conv' delete_conv' map_ok_def distinct_update distinct_delete
      map_of_eq_None_iff dom_map_of_conv_image_fst)

lemma map_ok_empty [simp]: "map_ok []"
  by (rule gm.invar_empty)

lemma map_ok_update [simp]: "map_ok m \<Longrightarrow> map_ok (AList.update k v m)"
  by (rule gm.invar_insert)

lemma map_ok_delete [simp]: "map_ok m \<Longrightarrow> map_ok (AList.delete k m)"
  by (rule gm.invar_delete)

lemma map_of_update [simp]:
  "map_of (AList.update k v m) k' = (if k' = k then Some v else map_of m k')"
  by (rule gm.lookup_insert)

lemma map_of_delete [simp]:
  "map_of (AList.delete k m) k' = (if k' = k then None else map_of m k')"
  by (rule gm.lookup_delete)

text \<open>A \<open>range\<close> loop that deletes the entries satisfying \<open>P\<close> and counts them.\<close>

definition delete_where :: "('k \<Rightarrow> 'v \<Rightarrow> bool) \<Rightarrow> ('k, 'v) go_map \<Rightarrow> ('k, 'v) go_map \<times> nat" where
  "delete_where P m =
     fold (\<lambda>(k, v) (m', n). if P k v then (AList.delete k m', n + 1) else (m', n)) m (m, 0)"

lemma delete_where_fold:
  "fold (\<lambda>(k, v) (m', n). if P k v then (AList.delete k m', n + 1) else (m', n)) es (m0, n0)
    = (fold AList.delete (map fst (filter (\<lambda>(k, v). P k v) es)) m0,
       n0 + length (filter (\<lambda>(k, v). P k v) es))"
  by (induction es arbitrary: m0 n0) auto

lemma map_ok_lookup: "map_ok m \<Longrightarrow> (k, v) \<in> set m \<longleftrightarrow> map_of m k = Some v"
  by (simp add: map_ok_def map_of_eq_Some_iff)

lemma delete_where_lookup:
  assumes "map_ok m"
  shows "map_of (fst (delete_where P m)) k
      = (case map_of m k of None \<Rightarrow> None | Some v \<Rightarrow> if P k v then None else Some v)"
  using assms map_ok_lookup [OF assms, of k]
  by (auto simp: delete_where_def delete_where_fold gm.lookup_delete_many split: option.split)
    force

lemma delete_where_ok: "map_ok m \<Longrightarrow> map_ok (fst (delete_where P m))"
  by (simp add: delete_where_def delete_where_fold gm.invar_delete_many)

lemma delete_where_count: "snd (delete_where P m) = length (filter (\<lambda>(k, v). P k v) m)"
  by (simp add: delete_where_def delete_where_fold)

end
