(* ===== verification/LoginSession.thy ===== *)
theory LoginSession
  imports GoMap Utf16
begin

text \<open>
  Session keys of the login server: \<open>models/session.go\<close>, \<open>usecase/session.go\<close> and the two
  operations of \<open>usecase/gameservercomm.go\<close> that consume a key when a game server presents it.
  The store is the Go map from accounts to keys; \<open>now\<close> is the clock reading and \<open>rnd1\<close>, \<open>rnd2\<close> what
  \<open>rand.Read\<close> delivered. The events of a history are the calls that change the store.
\<close>

section \<open>Keys\<close>

record SessionKey =
  LoginKey1 :: u32
  LoginKey2 :: u32
  PlayKey1 :: u32
  PlayKey2 :: u32
  KeyAccount :: go_string
  KeyServerID :: int
  CreatedAt :: int

definition Equals :: "SessionKey \<Rightarrow> SessionKey \<Rightarrow> bool" where
  "Equals sk other \<longleftrightarrow> LoginKey1 sk = LoginKey1 other \<and> LoginKey2 sk = LoginKey2 other
     \<and> PlayKey1 sk = PlayKey1 other \<and> PlayKey2 sk = PlayKey2 other"

definition IsExpired :: "int \<Rightarrow> int \<Rightarrow> SessionKey \<Rightarrow> bool" where
  "IsExpired now maxAge sk \<longleftrightarrow> now - CreatedAt sk > maxAge"

section \<open>The use case\<close>

type_synonym session_store = "(go_string, SessionKey) go_map"

definition default_max_age :: int where
  "default_max_age = 5 * 60 * 1000000000"

definition NewSessionUseCase :: "int \<Rightarrow> session_store \<times> int" where
  "NewSessionUseCase maxSessionAge =
     ([], if maxSessionAge = 0 then default_max_age else maxSessionAge)"

definition generateRandomUint32 :: "go_error + byte list \<Rightarrow> go_error + u32" where
  "generateRandomUint32 rnd =
     (case rnd of Inl e \<Rightarrow> Inl e
      | Inr bs \<Rightarrow> Inr (le32 (bs ! 0) (bs ! 1) (bs ! 2) (bs ! 3)))"

definition CreateSessionKey :: "int \<Rightarrow> go_error + byte list \<Rightarrow> go_error + byte list \<Rightarrow> session_store
    \<Rightarrow> go_string \<Rightarrow> int \<Rightarrow> u32 \<Rightarrow> u32 \<Rightarrow> (go_error + SessionKey) \<times> session_store" where
  "CreateSessionKey now rnd1 rnd2 store account serverID loginOkID1 loginOkID2 =
     (case generateRandomUint32 rnd1 of
        Inl e \<Rightarrow> (Inl (''failed to generate playKey1: '' @ e), store)
      | Inr playKey1 \<Rightarrow>
          (case generateRandomUint32 rnd2 of
             Inl e \<Rightarrow> (Inl (''failed to generate playKey2: '' @ e), store)
           | Inr playKey2 \<Rightarrow>
               let sessionKey = \<lparr>LoginKey1 = loginOkID1, LoginKey2 = loginOkID2,
                     PlayKey1 = playKey1, PlayKey2 = playKey2,
                     KeyAccount = account, KeyServerID = serverID, CreatedAt = now\<rparr>
               in (Inr sessionKey, AList.update account sessionKey store)))"

definition ValidateSessionKey :: "int \<Rightarrow> int \<Rightarrow> session_store \<Rightarrow> go_string \<Rightarrow> SessionKey
    \<Rightarrow> bool \<times> session_store" where
  "ValidateSessionKey now maxAge store account requestedKey =
     (case map_of store account of
        None \<Rightarrow> (False, store)
      | Some storedKey \<Rightarrow>
          if IsExpired now maxAge storedKey then (False, AList.delete account store)
          else if \<not> Equals storedKey requestedKey then (False, store)
          else (True, store))"

definition session_not_found :: go_error where
  "session_not_found = ''session key not found for account''"

definition session_expired :: go_error where
  "session_expired = ''session key expired for account''"

definition RemoveSessionKey :: "session_store \<Rightarrow> go_string \<Rightarrow> (go_error + unit) \<times> session_store" where
  "RemoveSessionKey store account =
     (case map_of store account of
        Some _ \<Rightarrow> (Inr (), AList.delete account store)
      | None \<Rightarrow> (Inl session_not_found, store))"

definition GetSessionKey :: "int \<Rightarrow> int \<Rightarrow> session_store \<Rightarrow> go_string \<Rightarrow> go_error + SessionKey" where
  "GetSessionKey now maxAge store account =
     (case map_of store account of
        None \<Rightarrow> Inl session_not_found
      | Some sessionKey \<Rightarrow>
          if IsExpired now maxAge sessionKey then Inl session_expired else Inr sessionKey)"

definition CleanupExpiredSessions :: "int \<Rightarrow> int \<Rightarrow> session_store \<Rightarrow> session_store \<times> nat" where
  "CleanupExpiredSessions now maxAge store =
     delete_where (\<lambda>account sessionKey. IsExpired now maxAge sessionKey) store"

definition GetSessionCount :: "session_store \<Rightarrow> nat" where
  "GetSessionCount store = length store"

section \<open>A game server presents a key\<close>

record PlayerAuthResult =
  ResultAccount :: go_string
  ResultSuccess :: bool
  ResultReason :: string

definition HandlePlayerAuthRequest :: "int \<Rightarrow> int \<Rightarrow> session_store \<Rightarrow> go_string \<Rightarrow> SessionKey
    \<Rightarrow> PlayerAuthResult \<times> session_store" where
  "HandlePlayerAuthRequest now maxAge store account requestedKey =
     (case ValidateSessionKey now maxAge store account requestedKey of
        (valid, store) \<Rightarrow>
          if \<not> valid
          then (\<lparr>ResultAccount = account, ResultSuccess = False, ResultReason = ''Invalid session key''\<rparr>, store)
          else (case RemoveSessionKey store account of
                  (_, store) \<Rightarrow>
                    (\<lparr>ResultAccount = account, ResultSuccess = True,
                      ResultReason = ''Authentication successful''\<rparr>, store)))"

definition HandlePlayerLogout :: "session_store \<Rightarrow> go_string \<Rightarrow> session_store" where
  "HandlePlayerLogout store account = snd (RemoveSessionKey store account)"

lemma HandlePlayerAuthRequest_eq:
  "HandlePlayerAuthRequest now maxAge store account req =
     (case map_of store account of
        Some sk \<Rightarrow>
          if \<not> IsExpired now maxAge sk \<and> Equals sk req
          then (\<lparr>ResultAccount = account, ResultSuccess = True, ResultReason = ''Authentication successful''\<rparr>,
                AList.delete account store)
          else (\<lparr>ResultAccount = account, ResultSuccess = False, ResultReason = ''Invalid session key''\<rparr>,
                if IsExpired now maxAge sk then AList.delete account store else store)
      | None \<Rightarrow> (\<lparr>ResultAccount = account, ResultSuccess = False, ResultReason = ''Invalid session key''\<rparr>, store))"
  by (auto simp: HandlePlayerAuthRequest_def ValidateSessionKey_def RemoveSessionKey_def split: option.split)

section \<open>Histories\<close>

datatype session_event =
    Issue go_string int u32 u32 "go_error + byte list" "go_error + byte list"
  | Redeem go_string SessionKey
  | Drop go_string
  | Sweep

text \<open>One call at time \<open>now\<close>; the flag says whether the call authenticated a player.\<close>

fun session_call :: "int \<Rightarrow> int \<Rightarrow> session_event \<Rightarrow> session_store \<Rightarrow> bool \<times> session_store" where
  "session_call maxAge now (Issue a srv l1 l2 r1 r2) store =
     (False, snd (CreateSessionKey now r1 r2 store a srv l1 l2))"
| "session_call maxAge now (Redeem a key) store =
     (case HandlePlayerAuthRequest now maxAge store a key of (res, store) \<Rightarrow> (ResultSuccess res, store))"
| "session_call maxAge now (Drop a) store = (False, HandlePlayerLogout store a)"
| "session_call maxAge now Sweep store = (False, fst (CleanupExpiredSessions now maxAge store))"

fun session_run :: "int \<Rightarrow> (int \<times> session_event) list \<Rightarrow> session_store \<Rightarrow> bool list \<times> session_store" where
  "session_run maxAge [] store = ([], store)"
| "session_run maxAge ((now, e) # es) store =
     (case session_call maxAge now e store of
        (b, store) \<Rightarrow> (case session_run maxAge es store of (bs, store) \<Rightarrow> (b # bs, store)))"

fun event_account :: "session_event \<Rightarrow> go_string option" where
  "event_account (Issue a _ _ _ _ _) = Some a"
| "event_account (Redeem a _) = Some a"
| "event_account (Drop a) = Some a"
| "event_account Sweep = None"

fun is_issue :: "session_event \<Rightarrow> bool" where
  "is_issue (Issue _ _ _ _ _ _) = True"
| "is_issue _ = False"

text \<open>How often the history issued a key for an account, and how often it was authenticated.\<close>

definition issued :: "go_string \<Rightarrow> (int \<times> session_event) list \<Rightarrow> nat" where
  "issued a es = length (filter (\<lambda>(_, e). is_issue e \<and> event_account e = Some a) es)"

definition redeemed :: "go_string \<Rightarrow> (int \<times> session_event) list \<Rightarrow> bool list \<Rightarrow> nat" where
  "redeemed a es bs = length (filter (\<lambda>((_, e), b). b \<and> event_account e = Some a) (zip es bs))"

definition holds_key :: "go_string \<Rightarrow> session_store \<Rightarrow> nat" where
  "holds_key a store = (if map_of store a = None then 0 else 1)"

lemma session_call_ok: "map_ok store \<Longrightarrow> session_call maxAge now e store = (b, store') \<Longrightarrow> map_ok store'"
  by (cases e) (auto simp: CreateSessionKey_def HandlePlayerAuthRequest_eq HandlePlayerLogout_def
      RemoveSessionKey_def CleanupExpiredSessions_def Let_def delete_where_ok
      split: sum.splits option.splits if_splits)

lemma CleanupExpiredSessions_lookup:
  "map_ok store \<Longrightarrow> map_of (fst (CleanupExpiredSessions now maxAge store)) a
    = (case map_of store a of None \<Rightarrow> None
       | Some sk \<Rightarrow> if IsExpired now maxAge sk then None else Some sk)"
  by (simp add: CleanupExpiredSessions_def delete_where_lookup split: option.split)

lemma session_call_balance:
  assumes "map_ok store" and "session_call maxAge now e store = (b, store')"
  shows "(if b \<and> event_account e = Some a then 1 else 0) + holds_key a store'
      \<le> holds_key a store + (if is_issue e \<and> event_account e = Some a then 1 else 0)"
  using assms
  by (cases e) (auto simp: holds_key_def CreateSessionKey_def HandlePlayerAuthRequest_eq
      HandlePlayerLogout_def RemoveSessionKey_def Let_def CleanupExpiredSessions_lookup
      split: sum.splits option.splits if_splits)

lemma session_run_balance:
  assumes "map_ok store" and "session_run maxAge es store = (bs, store')"
  shows "redeemed a es bs + holds_key a store' \<le> holds_key a store + issued a es"
  using assms
proof (induction es arbitrary: store bs)
  case Nil
  then show ?case by (simp add: redeemed_def)
next
  case (Cons te es)
  obtain now e where te: "te = (now, e)" by fastforce
  obtain b s1 where s1: "session_call maxAge now e store = (b, s1)" by fastforce
  obtain bs1 where run: "session_run maxAge es s1 = (bs1, store')" and bs: "bs = b # bs1"
    using Cons.prems(2) s1 te by (auto split: prod.splits)
  have "redeemed a es bs1 + holds_key a store' \<le> holds_key a s1 + issued a es"
    using Cons.IH [OF session_call_ok [OF Cons.prems(1) s1] run] .
  with session_call_balance [OF Cons.prems(1) s1, of a] show ?case
    by (auto simp: te bs redeemed_def issued_def split: if_splits)
qed

text \<open>
  Where a key of the store comes from: it was issued for its account, at its creation time, and
  since then the account has seen no other issue (an issue whose random source fails changes
  nothing) and no logout.
\<close>

definition drawn :: "go_error + byte list \<Rightarrow> bool" where
  "drawn rnd = (case rnd of Inl _ \<Rightarrow> False | Inr _ \<Rightarrow> True)"

lemma drawn_simps [simp]: "\<not> drawn (Inl e)" "drawn (Inr bs)"
  by (simp_all add: drawn_def)

definition quiet :: "go_string \<Rightarrow> session_event \<Rightarrow> bool" where
  "quiet a e \<longleftrightarrow>
     (case e of Issue b _ _ _ r1 r2 \<Rightarrow> \<not> (a = b \<and> drawn r1 \<and> drawn r2)
      | Drop b \<Rightarrow> a \<noteq> b | _ \<Rightarrow> True)"

definition comes_from :: "go_string \<Rightarrow> SessionKey \<Rightarrow> (int \<times> session_event) list \<Rightarrow> bool" where
  "comes_from a sk es \<longleftrightarrow> (\<exists>pre srv r1 r2 post.
     es = pre @ (CreatedAt sk, Issue a srv (LoginKey1 sk) (LoginKey2 sk) r1 r2) # post
     \<and> generateRandomUint32 r1 = Inr (PlayKey1 sk) \<and> generateRandomUint32 r2 = Inr (PlayKey2 sk)
     \<and> KeyServerID sk = srv \<and> (\<forall>(t, e) \<in> set post. quiet a e))"

lemma comes_from_snoc:
  assumes "comes_from a sk es" and "quiet a e"
  shows "comes_from a sk (es @ [(t, e)])"
proof -
  from assms(1) obtain pre srv r1 r2 post where
    "es = pre @ (CreatedAt sk, Issue a srv (LoginKey1 sk) (LoginKey2 sk) r1 r2) # post"
    "generateRandomUint32 r1 = Inr (PlayKey1 sk)" "generateRandomUint32 r2 = Inr (PlayKey2 sk)"
    "KeyServerID sk = srv" "\<forall>(t, e) \<in> set post. quiet a e"
    unfolding comes_from_def by blast
  with assms(2) show ?thesis
    unfolding comes_from_def
    by (intro exI [of _ pre] exI [of _ srv] exI [of _ r1] exI [of _ r2] exI [of _ "post @ [(t, e)]"]) auto
qed

lemma session_run_snoc:
  "session_run maxAge (es @ [(t, e)]) store =
     (case session_run maxAge es store of (bs, s) \<Rightarrow>
        (case session_call maxAge t e s of (b, s') \<Rightarrow> (bs @ [b], s')))"
  by (induction es arbitrary: store) (auto split: prod.splits)

lemma session_call_origin:
  assumes "map_ok s" and "session_call maxAge t e s = (b, s')" and "map_of s' a = Some sk"
  shows "(map_of s a = Some sk \<and> quiet a e) \<or> comes_from a sk [(t, e)]"
proof (cases e)
  case (Issue x srv l1 l2 r1 r2)
  show ?thesis
  proof (cases "x = a \<and> drawn r1 \<and> drawn r2")
    case True
    then obtain w1 w2 where "r1 = Inr w1" "r2 = Inr w2"
      by (cases r1; cases r2) auto
    with True assms Issue show ?thesis
      unfolding comes_from_def
      by (intro disjI2 exI [of _ "[]"] exI [of _ srv] exI [of _ r1] exI [of _ r2] exI [of _ "[]"])
        (auto simp: CreateSessionKey_def generateRandomUint32_def Let_def)
  next
    case False
    with assms Issue show ?thesis
      by (cases r1; cases r2)
        (auto simp: CreateSessionKey_def generateRandomUint32_def quiet_def Let_def)
  qed
qed (use assms in \<open>auto simp: HandlePlayerAuthRequest_eq HandlePlayerLogout_def RemoveSessionKey_def
      CleanupExpiredSessions_lookup quiet_def split: option.splits if_splits\<close>)

lemma session_run_ok: "map_ok store \<Longrightarrow> session_run maxAge es store = (bs, s) \<Longrightarrow> map_ok s"
  by (induction es arbitrary: store bs) (auto split: prod.splits, metis session_call_ok)

lemma session_run_origin:
  assumes "session_run maxAge es [] = (bs, s)" and "map_of s a = Some sk"
  shows "comes_from a sk es"
  using assms
proof (induction es arbitrary: bs s rule: rev_induct)
  case Nil
  then show ?case by simp
next
  case (snoc te es)
  obtain t e where te: "te = (t, e)" by fastforce
  obtain bs1 s1 where run: "session_run maxAge es [] = (bs1, s1)" by fastforce
  obtain b where call: "session_call maxAge t e s1 = (b, s)"
    using snoc.prems(1) run by (auto simp: te session_run_snoc split: prod.splits)
  have "map_ok s1" using run by (rule session_run_ok [rotated]) simp
  from session_call_origin [OF this call snoc.prems(2)] show ?case
  proof
    assume "map_of s1 a = Some sk \<and> quiet a e"
    then show ?thesis using snoc.IH [OF run] comes_from_snoc te by blast
  next
    assume "comes_from a sk [(t, e)]"
    then show ?thesis
      unfolding comes_from_def te
      by (elim exE) (metis append_assoc)
  qed
qed

section \<open>Two game servers at once\<close>

text \<open>
  \<open>HandlePlayerAuthRequest\<close> runs in the goroutine of its game-server connection. It takes the mutex
  of the session store twice: once to validate the key, once to remove it. Between the two another
  goroutine may run. A request is at one of the program points of \<open>auth_pc\<close>; the steps are the two
  critical sections.
\<close>

datatype auth_pc = Start | Validated | Finished bool

record auth_thread =
  Pc :: auth_pc
  ReqAccount :: go_string
  ReqKey :: SessionKey

inductive auth_step :: "int \<Rightarrow> int \<Rightarrow> auth_thread list \<times> session_store
    \<Rightarrow> auth_thread list \<times> session_store \<Rightarrow> bool" for now maxAge where
  validate: "i < length ts \<Longrightarrow> Pc (ts ! i) = Start \<Longrightarrow>
    ValidateSessionKey now maxAge store (ReqAccount (ts ! i)) (ReqKey (ts ! i)) = (valid, store') \<Longrightarrow>
    auth_step now maxAge (ts, store)
      (ts[i := (ts ! i)\<lparr>Pc := if valid then Validated else Finished False\<rparr>], store')"
| remove: "i < length ts \<Longrightarrow> Pc (ts ! i) = Validated \<Longrightarrow>
    RemoveSessionKey store (ReqAccount (ts ! i)) = (res, store') \<Longrightarrow>
    auth_step now maxAge (ts, store) (ts[i := (ts ! i)\<lparr>Pc := Finished True\<rparr>], store')"

inductive_cases auth_stepE: "auth_step now maxAge c c'"

text \<open>Run without a pause between its two halves, a request is the sequential operation.\<close>

lemma auth_thread_sequential:
  assumes "i < length ts" and "Pc (ts ! i) = Start"
  shows "(auth_step now maxAge)\<^sup>*\<^sup>* (ts, store)
     (ts[i := (ts ! i)\<lparr>Pc := Finished (ResultSuccess (fst (HandlePlayerAuthRequest now maxAge store
          (ReqAccount (ts ! i)) (ReqKey (ts ! i)))))\<rparr>],
      snd (HandlePlayerAuthRequest now maxAge store (ReqAccount (ts ! i)) (ReqKey (ts ! i))))"
proof -
  let ?t = "ts ! i"
  obtain valid s1 where v: "ValidateSessionKey now maxAge store (ReqAccount ?t) (ReqKey ?t) = (valid, s1)"
    by fastforce
  obtain res s2 where r: "RemoveSessionKey s1 (ReqAccount ?t) = (res, s2)" by fastforce
  let ?ts1 = "ts[i := ?t\<lparr>Pc := if valid then Validated else Finished False\<rparr>]"
  have 1: "auth_step now maxAge (ts, store) (?ts1, s1)"
    using assms v by (rule auth_step.validate)
  show ?thesis
  proof (cases valid)
    case True
    have "auth_step now maxAge (?ts1, s1) (?ts1[i := (?ts1 ! i)\<lparr>Pc := Finished True\<rparr>], s2)"
      by (rule auth_step.remove) (use assms r True in auto)
    with 1 show ?thesis
      using v r True assms
      by (auto simp: HandlePlayerAuthRequest_def intro!: converse_rtranclp_into_rtranclp [where r = "auth_step now maxAge"])
  next
    case False
    with 1 v show ?thesis by (auto simp: HandlePlayerAuthRequest_def)
  qed
qed

section \<open>Properties\<close>

text \<open>
  C5: In every history of calls on a fresh store, an account is authenticated at most as many times
  as a key was issued to it: a key is good for one use. (The calls of the history run one after
  the other; two concurrent requests are the subject of the last property of this theory.)
\<close>

theorem session_key_single_use:
  assumes "session_run maxAge es (fst (NewSessionUseCase d)) = (bs, store)"
  shows "redeemed a es bs \<le> issued a es"
  using session_run_balance [of "[]" maxAge es bs store a] assms
  by (simp add: NewSessionUseCase_def holds_key_def)

text \<open>
  A game server that gets the answer "authenticated" presented the four keys of the account's
  last key issue, at most \<open>maxAge\<close> before, with no logout of the account since: when a history on a
  fresh store ends with a successful request, the issue is in the history.
\<close>

theorem session_key_authentic:
  assumes "session_run maxAge (es @ [(now, Redeem a key)]) (fst (NewSessionUseCase d)) = (bs @ [True], store)"
  shows "\<exists>sk. comes_from a sk es \<and> Equals sk key \<and> now - CreatedAt sk \<le> maxAge"
proof -
  obtain bs1 s where run: "session_run maxAge es [] = (bs1, s)" by fastforce
  with assms obtain sk where "map_of s a = Some sk" "\<not> IsExpired now maxAge sk" "Equals sk key"
    by (auto simp: NewSessionUseCase_def session_run_snoc HandlePlayerAuthRequest_eq
        split: prod.splits option.splits if_splits)
  with session_run_origin [OF run] show ?thesis
    by (intro exI [of _ sk]) (auto simp: IsExpired_def)
qed

definition sample_account :: go_string where
  "sample_account = lit ''bob''"

definition sample_history :: "(int \<times> session_event) list" where
  "sample_history = [(10, Issue sample_account 1 7 8 (Inr [1, 0, 0, 0]) (Inr [2, 0, 0, 0])), (11, Sweep)]"

definition sample_key :: SessionKey where
  "sample_key = \<lparr>LoginKey1 = 7, LoginKey2 = 8, PlayKey1 = 1, PlayKey2 = 2,
     KeyAccount = sample_account, KeyServerID = 1, CreatedAt = 10\<rparr>"

lemma sample_draws:
  "generateRandomUint32 (Inr [1, 0, 0, 0]) = Inr 1" "generateRandomUint32 (Inr [2, 0, 0, 0]) = Inr 2"
  by (simp_all add: generateRandomUint32_def le32_def)

lemma sample_run:
  "session_run 100 (sample_history @ [(12, Redeem sample_account sample_key)]) (fst (NewSessionUseCase 0))
     = ([False, False] @ [True], [])"
  by (simp add: sample_history_def NewSessionUseCase_def CreateSessionKey_def sample_draws
      HandlePlayerAuthRequest_eq CleanupExpiredSessions_def delete_where_def IsExpired_def Equals_def
      sample_key_def Let_def)

lemma session_key_single_use_witness:
  "redeemed sample_account (sample_history @ [(12, Redeem sample_account sample_key)])
      [False, False, True]
    \<le> issued sample_account (sample_history @ [(12, Redeem sample_account sample_key)])"
  using session_key_single_use [OF sample_run, of sample_account] by simp

lemma session_key_authentic_witness:
  "\<exists>sk. comes_from sample_account sk sample_history \<and> Equals sk sample_key \<and> 12 - CreatedAt sk \<le> 100"
  by (rule session_key_authentic [OF sample_run])

text \<open>
  Two requests for the same account and key that arrive together can both be answered
  "authenticated", though one key was issued: both goroutines validate before either removes.
\<close>

theorem session_key_race:
  assumes "map_of store a = Some sk" and "\<not> IsExpired now maxAge sk" and "Equals sk key"
  shows "(auth_step now maxAge)\<^sup>*\<^sup>*
     ([\<lparr>Pc = Start, ReqAccount = a, ReqKey = key\<rparr>, \<lparr>Pc = Start, ReqAccount = a, ReqKey = key\<rparr>], store)
     ([\<lparr>Pc = Finished True, ReqAccount = a, ReqKey = key\<rparr>, \<lparr>Pc = Finished True, ReqAccount = a, ReqKey = key\<rparr>],
      AList.delete a store)"
proof -
  let ?t = "\<lambda>pc. \<lparr>Pc = pc, ReqAccount = a, ReqKey = key\<rparr>"
  have v: "ValidateSessionKey now maxAge store a key = (True, store)"
    using assms by (simp add: ValidateSessionKey_def)
  have r: "RemoveSessionKey store a = (Inr (), AList.delete a store)"
    using assms by (simp add: RemoveSessionKey_def)
  have r': "RemoveSessionKey (AList.delete a store) a = (Inl session_not_found, AList.delete a store)"
    by (simp add: RemoveSessionKey_def)
  have 1: "auth_step now maxAge ([?t Start, ?t Start], store) ([?t Validated, ?t Start], store)"
    using auth_step.validate [of 0 "[?t Start, ?t Start]" now maxAge store True store] v by simp
  have 2: "auth_step now maxAge ([?t Validated, ?t Start], store) ([?t Validated, ?t Validated], store)"
    using auth_step.validate [of 1 "[?t Validated, ?t Start]" now maxAge store True store] v by simp
  have 3: "auth_step now maxAge ([?t Validated, ?t Validated], store)
      ([?t (Finished True), ?t Validated], AList.delete a store)"
    using auth_step.remove [of 0 "[?t Validated, ?t Validated]" store _ _ now maxAge] r by simp
  have 4: "auth_step now maxAge ([?t (Finished True), ?t Validated], AList.delete a store)
      ([?t (Finished True), ?t (Finished True)], AList.delete a store)"
    using auth_step.remove [of 1 "[?t (Finished True), ?t Validated]" "AList.delete a store" _ _ now maxAge] r'
    by simp
  from 1 2 3 4 show ?thesis
    by (meson converse_rtranclp_into_rtranclp rtranclp.rtrancl_refl)
qed

lemma session_key_race_witness:
  "(auth_step 12 100)\<^sup>*\<^sup>*
     ([\<lparr>Pc = Start, ReqAccount = sample_account, ReqKey = sample_key\<rparr>,
       \<lparr>Pc = Start, ReqAccount = sample_account, ReqKey = sample_key\<rparr>], [(sample_account, sample_key)])
     ([\<lparr>Pc = Finished True, ReqAccount = sample_account, ReqKey = sample_key\<rparr>,
       \<lparr>Pc = Finished True, ReqAccount = sample_account, ReqKey = sample_key\<rparr>], [])"
  using session_key_race [of "[(sample_account, sample_key)]" sample_account sample_key 12 100 sample_key]
  by (simp add: IsExpired_def Equals_def sample_key_def)

end
