(* ===== verification/NetAddr.thy ===== *)
theory NetAddr
  imports Utf16
begin

text \<open>
  What the login server uses of Go's package \<open>net\<close> to route a client to a game-server address: IPv4
  and CIDR parsing, the mask arithmetic of \<open>IPNet.Contains\<close>, \<open>SplitHostPort\<close>. An \<open>net.IP\<close> is its
  byte slice (16 bytes from the parser, an IPv4 address as \<open>::ffff:a.b.c.d\<close>). The textual form of an
  IPv6 address is left open: \<open>parse6\<close> is a parameter of the parser, with its result as 16 bytes.
\<close>

type_synonym ip = "byte list"
type_synonym ip6_parser = "go_string \<Rightarrow> ip option"

section \<open>Decimal numbers\<close>

definition digit :: "rune \<Rightarrow> bool" where
  "digit r \<longleftrightarrow> 48 \<le> r \<and> r \<le> 57"

text \<open>\<open>dtoi\<close>: the number at the start of the string, refused from \<open>0xFFFFFF\<close> on.\<close>

fun dtoi_loop :: "nat \<Rightarrow> nat \<Rightarrow> go_string \<Rightarrow> (nat \<times> nat \<times> bool)" where
  "dtoi_loop n i (r # s) =
     (if digit r
      then (let n = n * 10 + (r - 48) in if n \<ge> 0xFFFFFF then (0xFFFFFF, i, False) else dtoi_loop n (i + 1) s)
      else (n, i, i \<noteq> 0))"
| "dtoi_loop n i [] = (n, i, i \<noteq> 0)"

definition dtoi :: "go_string \<Rightarrow> nat \<times> nat \<times> bool" where
  "dtoi s = dtoi_loop 0 0 s"

text \<open>One field of a dotted address: digits only, no leading zero, at most 255.\<close>

definition octet :: "go_string \<Rightarrow> byte option" where
  "octet s =
     (if s = [] \<or> \<not> list_all digit s \<or> (hd s = 48 \<and> length s > 1) then None
      else let n = foldl (\<lambda>n r. n * 10 + (r - 48)) 0 s in if n > 255 then None else Some (of_nat n))"

fun split_at :: "rune \<Rightarrow> go_string \<Rightarrow> go_string list" where
  "split_at c [] = [[]]"
| "split_at c (r # s) =
     (if r = c then [] # split_at c s
      else (case split_at c s of p # ps \<Rightarrow> (r # p) # ps | [] \<Rightarrow> [[r]]))"

definition parseIPv4 :: "go_string \<Rightarrow> ip option" where
  "parseIPv4 s =
     (case split_at 46 s of
        [a, b, c, d] \<Rightarrow> do { a \<leftarrow> octet a; b \<leftarrow> octet b; c \<leftarrow> octet c; d \<leftarrow> octet d; Some [a, b, c, d] }
      | _ \<Rightarrow> None)"

definition v4InV6Prefix :: "byte list" where
  "v4InV6Prefix = replicate 10 0 @ [0xFF, 0xFF]"

text \<open>The first dot or colon decides the family (a zone sign before it is an error). The second component is \<open>BitLen\<close>.\<close>

definition ParseAddr :: "ip6_parser \<Rightarrow> go_string \<Rightarrow> (ip \<times> nat) option" where
  "ParseAddr parse6 s =
     (case find (\<lambda>r. r = 46 \<or> r = 58 \<or> r = 37) s of
        None \<Rightarrow> None
      | Some r \<Rightarrow>
          if r = 37 then None
          else if r = 46 then map_option (\<lambda>a. (v4InV6Prefix @ a, 32)) (parseIPv4 s)
          else map_option (\<lambda>a. (a, 128)) (parse6 s))"

definition ParseIP :: "ip6_parser \<Rightarrow> go_string \<Rightarrow> ip option" where
  "ParseIP parse6 s = map_option fst (ParseAddr parse6 s)"

definition To4 :: "ip \<Rightarrow> ip option" where
  "To4 a =
     (if length a = 4 then Some a
      else if length a = 16 \<and> take 12 a = v4InV6Prefix then Some (drop 12 a) else None)"

section \<open>Networks\<close>

record IPNet =
  NetIP :: ip
  NetMask :: "byte list"

definition CIDRMask :: "nat \<Rightarrow> nat \<Rightarrow> byte list" where
  "CIDRMask ones bits =
     map (\<lambda>i. if 8 * i + 8 \<le> ones then 0xFF else NOT (drop_bit (ones - 8 * i) 0xFF)) [0..<bits div 8]"

definition ip_mask :: "ip \<Rightarrow> byte list \<Rightarrow> ip" where
  "ip_mask a msk =
     (let msk = (if length msk = 16 \<and> length a = 4 \<and> take 12 msk = replicate 12 0xFF then drop 12 msk else msk);
          a = (if length msk = 4 \<and> length a = 16 \<and> take 12 a = v4InV6Prefix then drop 12 a else a)
      in if length a \<noteq> length msk then [] else map2 (AND) a msk)"

definition ParseCIDR :: "ip6_parser \<Rightarrow> go_string \<Rightarrow> IPNet option" where
  "ParseCIDR parse6 s =
     (if 47 \<notin> set s then None
      else let addr = takeWhile (\<lambda>r. r \<noteq> 47) s; msk = tl (dropWhile (\<lambda>r. r \<noteq> 47) s)
           in case ParseAddr parse6 addr of
                None \<Rightarrow> None
              | Some (ipAddr, bitLen) \<Rightarrow>
                  (case dtoi msk of (n, i, good) \<Rightarrow>
                     if \<not> good \<or> i \<noteq> length msk \<or> n > bitLen then None
                     else let m = CIDRMask n bitLen in Some \<lparr>NetIP = ip_mask ipAddr m, NetMask = m\<rparr>))"

definition networkNumberAndMask :: "IPNet \<Rightarrow> (ip \<times> byte list) option" where
  "networkNumberAndMask n =
     (case (case To4 (NetIP n) of Some a \<Rightarrow> Some a
            | None \<Rightarrow> if length (NetIP n) = 16 then Some (NetIP n) else None) of
        None \<Rightarrow> None
      | Some a \<Rightarrow>
          let m = NetMask n in
          if length m = 4 then (if length a \<noteq> 4 then None else Some (a, m))
          else if length m = 16 then Some (a, if length a = 4 then drop 12 m else m)
          else None)"

definition Contains :: "IPNet \<Rightarrow> ip \<Rightarrow> bool" where
  "Contains n a =
     (case (case networkNumberAndMask n of None \<Rightarrow> ([], []) | Some p \<Rightarrow> p) of (nn, m) \<Rightarrow>
        let a = (case To4 a of Some x \<Rightarrow> x | None \<Rightarrow> a) in
        length a = length nn
        \<and> list_all (\<lambda>i. (nn ! i) AND (m ! i) = (a ! i) AND (m ! i)) [0..<length a])"

section \<open>Host and port\<close>

definition last_index :: "rune \<Rightarrow> go_string \<Rightarrow> nat option" where
  "last_index c s = find (\<lambda>i. s ! i = c) (rev [0..<length s])"

definition first_index :: "rune \<Rightarrow> go_string \<Rightarrow> nat option" where
  "first_index c s = find (\<lambda>i. s ! i = c) [0..<length s]"

text \<open>The host of \<open>SplitHostPort\<close>; \<open>None\<close> is an address error.\<close>

definition SplitHost :: "go_string \<Rightarrow> go_string option" where
  "SplitHost hostport =
     (case last_index 58 hostport of
        None \<Rightarrow> None
      | Some i \<Rightarrow>
          if hostport ! 0 = 91
          then (case first_index 93 hostport of
                  None \<Rightarrow> None
                | Some e \<Rightarrow>
                    if e + 1 \<noteq> i \<or> 91 \<in> set (drop 1 hostport) \<or> 93 \<in> set (drop (e + 1) hostport) then None
                    else Some (take (e - 1) (drop 1 hostport)))
          else let host = take i hostport
               in if 58 \<in> set host \<or> 91 \<in> set hostport \<or> 93 \<in> set hostport then None
                  else Some host)"

section \<open>The meaning of a network\<close>

text \<open>
  An IPv4 address as a 32-bit number, most significant byte first, and the claim behind the byte by
  byte comparison: an address is in \<open>a.b.c.d/n\<close> when its upper \<open>n\<close> bits are those of the network.
\<close>

definition ip4_word :: "byte list \<Rightarrow> u32" where
  "ip4_word a = le32 (a ! 3) (a ! 2) (a ! 1) (a ! 0)"

definition ip4 :: "byte list \<Rightarrow> ip" where
  "ip4 a = v4InV6Prefix @ a"

definition ip4_net :: "byte list \<Rightarrow> nat \<Rightarrow> IPNet" where
  "ip4_net a n = \<lparr>NetIP = ip_mask (ip4 a) (CIDRMask n 32), NetMask = CIDRMask n 32\<rparr>"

lemma CIDRMask_32: "CIDRMask n 32 = map (\<lambda>i. if 8 * i + 8 \<le> n then 0xFF else NOT (drop_bit (n - 8 * i) 0xFF)) [0, 1, 2, 3]"
  by (simp add: CIDRMask_def upt_rec)

lemma length_v4InV6Prefix [simp]: "length v4InV6Prefix = 12"
  by (simp add: v4InV6Prefix_def)

lemma To4_ip4 [simp]: "length a = 4 \<Longrightarrow> To4 (ip4 a) = Some a"
  by (simp add: To4_def ip4_def)

text \<open>A masked byte keeps its upper \<open>k\<close> bits.\<close>

lemma masked_byte:
  fixes x y :: byte
  assumes "k \<le> 8"
  shows "x AND NOT (drop_bit k 0xFF) = y AND NOT (drop_bit k 0xFF)
    \<longleftrightarrow> (\<forall>i < 8. 8 - k \<le> i \<longrightarrow> bit x i = bit y i)"
proof -
  have m: "bit (drop_bit k (0xFF :: byte)) i \<longleftrightarrow> k + i < 8" for i
    using bit_mask_iff [of 8 "k + i", where 'a = "8 word"]
    by (auto simp: bit_drop_bit_eq mask_eq_exp_minus_1)
  have "u = v \<longleftrightarrow> (\<forall>i < 8. bit u i = bit v i)" for u v :: byte
    by (auto intro: bit_word_eqI)
  then show ?thesis
    using assms by (auto simp: bit_and_iff bit_not_iff m)
qed

definition mask_byte :: "nat \<Rightarrow> nat \<Rightarrow> byte" where
  "mask_byte n m = (if 8 * m + 8 \<le> n then 0xFF else NOT (drop_bit (n - 8 * m) 0xFF))"

lemma mask_byte_bits:
  fixes x y :: byte
  assumes "n \<le> 32" and "m < 4"
  shows "x AND mask_byte n m = y AND mask_byte n m
    \<longleftrightarrow> (\<forall>i < 8. 32 - n \<le> 8 * (3 - m) + i \<longrightarrow> bit x i = bit y i)"
proof (cases "8 * m + 8 \<le> n")
  case True
  have "(0xFF :: byte) = -1" by simp
  then have "x AND 0xFF = x" "y AND 0xFF = y" by (simp_all only: and.right_neutral)
  with True have "x AND mask_byte n m = y AND mask_byte n m \<longleftrightarrow> (\<forall>i < 8. bit x i = bit y i)"
    using masked_byte [of 8 x y] by (simp add: mask_byte_def)
  moreover have "32 - n \<le> 8 * (3 - m) + i" for i using True assms by linarith
  ultimately show ?thesis by simp
next
  case False
  then have "x AND mask_byte n m = y AND mask_byte n m
      \<longleftrightarrow> (\<forall>i < 8. 8 - (n - 8 * m) \<le> i \<longrightarrow> bit x i = bit y i)"
    using masked_byte [of "n - 8 * m" x y] by (simp add: mask_byte_def)
  moreover have "8 - (n - 8 * m) \<le> i \<longleftrightarrow> 32 - n \<le> 8 * (3 - m) + i" if "i < 8" for i
    using False assms that by linarith
  ultimately show ?thesis by simp
qed

lemma ip4_word_bits:
  assumes "m < 4" and "i < 8"
  shows "bit (ip4_word a) (8 * (3 - m) + i) = bit (a ! m) i"
proof -
  consider "m = 0" | "m = 1" | "m = 2" | "m = 3" using assms(1) by linarith
  then show ?thesis
    using assms(2) by cases (auto simp: ip4_word_def le32_def bit_simps dest: byte_bit)
qed

lemma upper_bits:
  assumes "n \<le> 32"
  shows "drop_bit (32 - n) (v :: u32) = drop_bit (32 - n) w
    \<longleftrightarrow> (\<forall>m < 4. \<forall>i < 8. 32 - n \<le> 8 * (3 - m) + i \<longrightarrow> bit v (8 * (3 - m) + i) = bit w (8 * (3 - m) + i))"
    (is "_ \<longleftrightarrow> ?R")
proof
  assume eq: "drop_bit (32 - n) v = drop_bit (32 - n) w"
  show ?R
  proof (intro allI impI)
    fix m i :: nat
    assume "32 - n \<le> 8 * (3 - m) + i"
    then obtain j where "8 * (3 - m) + i = 32 - n + j" by (metis le_Suc_ex)
    then show "bit v (8 * (3 - m) + i) = bit w (8 * (3 - m) + i)"
      using arg_cong [OF eq, of "\<lambda>u. bit u j"] by (simp add: bit_drop_bit_eq)
  qed
next
  assume R: ?R
  show "drop_bit (32 - n) v = drop_bit (32 - n) w"
  proof (rule bit_word_eqI)
    fix j assume "j < LENGTH(32)"
    define k where "k = 32 - n + j"
    show "bit (drop_bit (32 - n) v) j = bit (drop_bit (32 - n) w) j"
    proof (cases "k < 32")
      case True
      then have "k div 8 < 4" by simp
      then have "8 * (3 - (3 - k div 8)) + k mod 8 = k" by simp
      with True show ?thesis
        using R [rule_format, of "3 - k div 8" "k mod 8"] by (simp add: bit_drop_bit_eq k_def)
    next
      case False
      then show ?thesis
        using bit_imp_le_length [of v k] bit_imp_le_length [of w k] by (auto simp: bit_drop_bit_eq k_def)
    qed
  qed
qed

lemma ip4_net_parts:
  assumes "length a = 4"
  shows "networkNumberAndMask (ip4_net a n)
    = Some (map (\<lambda>m. a ! m AND mask_byte n m) [0, 1, 2, 3], map (mask_byte n) [0, 1, 2, 3])"
proof -
  have mask: "CIDRMask n 32 = map (mask_byte n) [0, 1, 2, 3]"
    by (simp add: CIDRMask_32 mask_byte_def)
  obtain x y z w where a: "a = [x, y, z, w]" using assms by (auto simp: numeral_eq_Suc length_Suc_conv)
  have "ip_mask (ip4 a) (CIDRMask n 32) = map (\<lambda>m. a ! m AND mask_byte n m) [0, 1, 2, 3]"
    by (simp add: ip_mask_def mask ip4_def a)
  then show ?thesis
    by (simp add: networkNumberAndMask_def ip4_net_def mask To4_def)
qed

lemma Contains_ip4:
  assumes "length net = 4" and "length a = 4" and "n \<le> 32"
  shows "Contains (ip4_net net n) (ip4 a)
    \<longleftrightarrow> drop_bit (32 - n) (ip4_word a) = drop_bit (32 - n) (ip4_word net)"
proof -
  have "Contains (ip4_net net n) (ip4 a)
      \<longleftrightarrow> (\<forall>m < 4. net ! m AND mask_byte n m AND mask_byte n m = a ! m AND mask_byte n m)"
    using assms(2) by (simp add: Contains_def ip4_net_parts [OF assms(1)] upt_rec numeral_eq_Suc All_less_Suc) auto
  also have "\<dots> \<longleftrightarrow> (\<forall>m < 4. a ! m AND mask_byte n m = net ! m AND mask_byte n m)"
    by (auto simp: and.assoc)
  also have "\<dots> \<longleftrightarrow> drop_bit (32 - n) (ip4_word a) = drop_bit (32 - n) (ip4_word net)"
    by (simp add: upper_bits [OF assms(3)] mask_byte_bits [OF assms(3)] ip4_word_bits)
  finally show ?thesis .
qed

end
