(* ===== verification/LoginWire.thy ===== *)
theory LoginWire
  imports Utf16
begin

text \<open>
  The packets of the login server (\<open>internal/loginserver/packets\<close>). A reader is the list of bytes
  still unread; each read returns its value and the rest. The reads of this package never fail:
  a read that runs past the end returns the zero value and has used up what was left. The locale
  \<open>lenient_codec\<close> is the contract between a write and its read. \<open>ScrambleModulus\<close> is the byte
  shuffle of the RSA modulus in the Init packet.
\<close>

section \<open>The reader\<close>

type_synonym 'a rd = "byte list \<Rightarrow> 'a \<times> byte list"

definition ReadBytes :: "nat \<Rightarrow> byte list rd" where
  "ReadBytes number r = (if length r < number then ([], []) else (take number r, drop number r))"

definition ReadUInt8 :: "byte rd" where
  "ReadUInt8 r = (case r of a # rest \<Rightarrow> (a, rest) | _ \<Rightarrow> (0, []))"

definition ReadUInt16 :: "u16 rd" where
  "ReadUInt16 r = (case r of a # b # rest \<Rightarrow> (le16 a b, rest) | _ \<Rightarrow> (0, []))"

definition ReadUInt32 :: "u32 rd" where
  "ReadUInt32 r = (case r of a # b # c # d # rest \<Rightarrow> (le32 a b c d, rest) | _ \<Rightarrow> (0, []))"

definition ReadUInt64 :: "u64 rd" where
  "ReadUInt64 r =
     (case r of a # b # c # d # e # f # g # h # rest \<Rightarrow> (le64 (le32 a b c d) (le32 e f g h), rest)
      | _ \<Rightarrow> (0, []))"

lemma ReadUInt16_shrinks: "ReadUInt16 r = (u, r') \<Longrightarrow> u \<noteq> 0 \<Longrightarrow> length r' < length r"
  by (auto simp: ReadUInt16_def split: list.splits)

function read_codes :: "u16 list \<Rightarrow> byte list \<Rightarrow> u16 list \<times> byte list" where
  "read_codes utf16Codes r =
     (case ReadUInt16 r of (codeUnit, rest) \<Rightarrow>
        if codeUnit = 0 then (utf16Codes, rest) else read_codes (utf16Codes @ [codeUnit]) rest)"
  by pat_completeness auto
termination
  by (relation "measure (\<lambda>(_, r). length r)") (auto dest: ReadUInt16_shrinks [OF sym])

declare read_codes.simps [simp del]

definition ReadString :: "go_string rd" where
  "ReadString r = (case read_codes [] r of (us, rest) \<Rightarrow> (utf16_decode us, rest))"

section \<open>The buffer\<close>

definition WriteByte :: "byte \<Rightarrow> byte list \<Rightarrow> byte list" where
  "WriteByte v b = b @ [v]"

definition WriteUInt8 :: "byte \<Rightarrow> byte list \<Rightarrow> byte list" where
  "WriteUInt8 v b = b @ [v]"

definition WriteUInt16 :: "u16 \<Rightarrow> byte list \<Rightarrow> byte list" where
  "WriteUInt16 v b = b @ bytes16 v"

definition WriteUInt32 :: "u32 \<Rightarrow> byte list \<Rightarrow> byte list" where
  "WriteUInt32 v b = b @ bytes32 v"

definition WriteUInt64 :: "u64 \<Rightarrow> byte list \<Rightarrow> byte list" where
  "WriteUInt64 v b = b @ bytes64 v"

definition WriteBytes :: "byte list \<Rightarrow> byte list \<Rightarrow> byte list" where
  "WriteBytes v b = b @ v"

definition WriteString :: "go_string \<Rightarrow> byte list \<Rightarrow> byte list" where
  "WriteString str b = WriteUInt16 0 (fold WriteUInt16 (utf16_encode str) b)"

lemma fold_WriteUInt16: "fold WriteUInt16 us b = b @ concat (map bytes16 us)"
  by (induction us arbitrary: b) (auto simp: WriteUInt16_def)

lemma buffer_writes [simp]:
  "WriteByte v b = b @ [v]"
  "WriteUInt8 v b = b @ [v]"
  "WriteUInt16 h b = b @ bytes16 h"
  "WriteUInt32 w b = b @ bytes32 w"
  "WriteUInt64 q b = b @ bytes64 q"
  "WriteBytes bs b = b @ bs"
  "WriteString s b = b @ string_bytes s"
  by (simp_all add: WriteByte_def WriteUInt8_def WriteUInt16_def WriteUInt32_def WriteUInt64_def
      WriteBytes_def WriteString_def string_bytes_def
      fold_WriteUInt16)

section \<open>What a write promises its read\<close>

locale lenient_codec =
  fixes put :: "'a \<Rightarrow> byte list"
    and get :: "'a rd"
    and valid :: "'a \<Rightarrow> bool"
  assumes get_put [simp]: "valid x \<Longrightarrow> get (put x @ rest) = (x, rest)"
begin

lemma get_put_end: "valid x \<Longrightarrow> get (put x) = (x, [])"
  using get_put [of x "[]"] by simp

end

interpretation u8: lenient_codec "\<lambda>v. [v]" ReadUInt8 "\<lambda>_. True"
  by unfold_locales (simp add: ReadUInt8_def)

interpretation u16: lenient_codec bytes16 ReadUInt16 "\<lambda>_. True"
  by unfold_locales (simp add: ReadUInt16_def bytes16_def le16_bytes)

interpretation u32: lenient_codec bytes32 ReadUInt32 "\<lambda>_. True"
  by unfold_locales (simp add: ReadUInt32_def bytes32_def le32_bytes)

interpretation u64: lenient_codec bytes64 ReadUInt64 "\<lambda>_. True"
  by unfold_locales (simp add: ReadUInt64_def bytes64_def bytes32_def le32_bytes le64_halves)

lemma read_codes_units:
  "0 \<notin> set us \<Longrightarrow> read_codes acc (concat (map bytes16 us) @ bytes16 0 @ rest) = (acc @ us, rest)"
proof (induction us arbitrary: acc)
  case Nil
  show ?case using u16.get_put [of 0 rest] by (subst read_codes.simps) simp
next
  case (Cons u us)
  then show ?case
    using u16.get_put [of u "concat (map bytes16 us) @ bytes16 0 @ rest"]
    by (subst read_codes.simps) simp
qed

interpretation str: lenient_codec string_bytes ReadString wire_string
proof unfold_locales
  fix s rest
  assume s: "wire_string s"
  show "ReadString (string_bytes s @ rest) = (s, rest)"
    using read_codes_units [OF wire_string_units [OF s], of "[]" rest] wire_string_roundtrip [OF s]
    by (simp add: ReadString_def string_bytes_def)
qed

lemma ReadBytes_at [simp]: "length bs = n \<Longrightarrow> ReadBytes n (bs @ rest) = (bs, rest)"
  by (auto simp: ReadBytes_def)

section \<open>The modulus shuffle\<close>

text \<open>\<open>for i := 0; i < n; i++ { mods[d+i] ^= mods[s+i] }\<close> and the swap loop.\<close>

definition xor_range :: "nat \<Rightarrow> nat \<Rightarrow> nat \<Rightarrow> byte list \<Rightarrow> byte list" where
  "xor_range d s n mods = fold (\<lambda>i m. m[d + i := m ! (d + i) XOR m ! (s + i)]) [0..<n] mods"

definition swap_range :: "nat \<Rightarrow> nat \<Rightarrow> nat \<Rightarrow> byte list \<Rightarrow> byte list" where
  "swap_range a b n mods = fold (\<lambda>i m. m[a + i := m ! (b + i), b + i := m ! (a + i)]) [0..<n] mods"

definition ScrambleModulus :: "byte list \<Rightarrow> byte list" where
  "ScrambleModulus mods =
     (if length mods \<noteq> 128 then mods
      else let mods = swap_range 0x00 0x4D 4 mods;
               mods = xor_range 0 0x40 0x40 mods;
               mods = xor_range 0x0D 0x34 4 mods;
               mods = xor_range 0x40 0 0x40 mods
           in mods)"

definition UnscrambleModulus :: "byte list \<Rightarrow> byte list" where
  "UnscrambleModulus mods =
     (if length mods \<noteq> 128 then mods
      else let mods = xor_range 0x40 0 0x40 mods;
               mods = xor_range 0x0D 0x34 4 mods;
               mods = xor_range 0 0x40 0x40 mods;
               mods = swap_range 0x00 0x4D 4 mods
           in mods)"

text \<open>
  A pass over disjoint ranges changes exactly the positions of its target range, each by the value
  its source had at the start; so a second pass undoes the first.
\<close>

lemma xor_range_nth:
  assumes "d + n \<le> length m" and "s + n \<le> length m" and "d + n \<le> s \<or> s + n \<le> d"
  shows "length (xor_range d s n m) = length m \<and> (\<forall>k < length m. xor_range d s n m ! k
      = (if d \<le> k \<and> k < d + n then m ! k XOR m ! (s + (k - d)) else m ! k))"
  using assms
proof (induction n)
  case (Suc n)
  let ?x = "xor_range d s n m"
  have IH: "length ?x = length m" "\<And>k. k < length m \<Longrightarrow> ?x ! k
      = (if d \<le> k \<and> k < d + n then m ! k XOR m ! (s + (k - d)) else m ! k)"
    using Suc by auto
  have step: "xor_range d s (Suc n) m = ?x[d + n := ?x ! (d + n) XOR ?x ! (s + n)]"
    by (simp add: xor_range_def)
  have "?x ! (d + n) = m ! (d + n)" "?x ! (s + n) = m ! (s + n)"
    using IH(2) [of "d + n"] IH(2) [of "s + n"] Suc.prems by auto
  then show ?case
    using IH Suc.prems by (auto simp: step nth_list_update not_less less_Suc_eq)
qed (auto simp: xor_range_def)

lemma xor_range_twice:
  assumes "d + n \<le> length m" and "s + n \<le> length m" and "d + n \<le> s \<or> s + n \<le> d"
  shows "xor_range d s n (xor_range d s n m) = m"
proof (rule nth_equalityI)
  have once: "length (xor_range d s n m) = length m"
    "\<And>k. k < length m \<Longrightarrow> xor_range d s n m ! k
      = (if d \<le> k \<and> k < d + n then m ! k XOR m ! (s + (k - d)) else m ! k)"
    using xor_range_nth [OF assms] by simp_all
  have twice: "length (xor_range d s n (xor_range d s n m)) = length m"
    "k < length m \<Longrightarrow> xor_range d s n (xor_range d s n m) ! k
      = (if d \<le> k \<and> k < d + n then xor_range d s n m ! k XOR xor_range d s n m ! (s + (k - d))
         else xor_range d s n m ! k)" for k
    using xor_range_nth [of d n "xor_range d s n m" s] assms once(1) by simp_all
  show "length (xor_range d s n (xor_range d s n m)) = length m" by (rule twice(1))
  fix k assume "k < length (xor_range d s n (xor_range d s n m))"
  then have k: "k < length m" by (simp add: twice(1))
  show "xor_range d s n (xor_range d s n m) ! k = m ! k"
  proof (cases "d \<le> k \<and> k < d + n")
    case True
    with assms have "s + (k - d) < length m" "\<not> (d \<le> s + (k - d) \<and> s + (k - d) < d + n)" by auto
    then have "xor_range d s n m ! (s + (k - d)) = m ! (s + (k - d))"
      using once(2) [of "s + (k - d)"] by presburger
    with True k show ?thesis using twice(2) [OF k] once(2) [OF k] by simp
  next
    case False
    then show ?thesis using twice(2) [OF k] once(2) [OF k] by presburger
  qed
qed

lemma swap_range_nth:
  assumes "a + n \<le> b" and "b + n \<le> length m"
  shows "length (swap_range a b n m) = length m \<and> (\<forall>k < length m. swap_range a b n m ! k
      = (if a \<le> k \<and> k < a + n then m ! (b + (k - a))
         else if b \<le> k \<and> k < b + n then m ! (a + (k - b)) else m ! k))"
  using assms
proof (induction n)
  case (Suc n)
  let ?x = "swap_range a b n m"
  have IH: "length ?x = length m" "\<And>k. k < length m \<Longrightarrow> ?x ! k
      = (if a \<le> k \<and> k < a + n then m ! (b + (k - a))
         else if b \<le> k \<and> k < b + n then m ! (a + (k - b)) else m ! k)"
    using Suc by auto
  have step: "swap_range a b (Suc n) m = ?x[a + n := ?x ! (b + n), b + n := ?x ! (a + n)]"
    by (simp add: swap_range_def)
  have "?x ! (a + n) = m ! (a + n)" "?x ! (b + n) = m ! (b + n)"
    using IH(2) [of "a + n"] IH(2) [of "b + n"] Suc.prems by auto
  then show ?case
    using IH Suc.prems by (auto simp: step nth_list_update not_less less_Suc_eq)
qed (auto simp: swap_range_def)

lemma swap_range_twice:
  assumes "a + n \<le> b" and "b + n \<le> length m"
  shows "swap_range a b n (swap_range a b n m) = m"
proof (rule nth_equalityI)
  have once: "length (swap_range a b n m) = length m"
    "\<And>k. k < length m \<Longrightarrow> swap_range a b n m ! k
      = (if a \<le> k \<and> k < a + n then m ! (b + (k - a))
         else if b \<le> k \<and> k < b + n then m ! (a + (k - b)) else m ! k)"
    using swap_range_nth [OF assms] by simp_all
  have twice: "length (swap_range a b n (swap_range a b n m)) = length m"
    "k < length m \<Longrightarrow> swap_range a b n (swap_range a b n m) ! k
      = (if a \<le> k \<and> k < a + n then swap_range a b n m ! (b + (k - a))
         else if b \<le> k \<and> k < b + n then swap_range a b n m ! (a + (k - b))
         else swap_range a b n m ! k)" for k
    using swap_range_nth [of a n b "swap_range a b n m"] assms once(1) by simp_all
  show "length (swap_range a b n (swap_range a b n m)) = length m" by (rule twice(1))
  fix k assume "k < length (swap_range a b n (swap_range a b n m))"
  then have k: "k < length m" by (simp add: twice(1))
  consider "a \<le> k \<and> k < a + n" | "b \<le> k \<and> k < b + n" | "\<not> (a \<le> k \<and> k < a + n)" "\<not> (b \<le> k \<and> k < b + n)"
    by blast
  then show "swap_range a b n (swap_range a b n m) ! k = m ! k"
  proof cases
    case 1
    then obtain i where "k = a + i" "i < n" by (metis add_less_cancel_left le_Suc_ex)
    then show ?thesis using twice(2) [OF k] once(2) [of "b + i"] assms by simp
  next
    case 2
    then obtain i where "k = b + i" "i < n" by (metis add_less_cancel_left le_Suc_ex)
    then show ?thesis using twice(2) [OF k] once(2) [of "a + i"] assms by simp
  next
    case 3
    then show ?thesis using twice(2) [OF k] once(2) [OF k] by presburger
  qed
qed

lemma length_passes [simp]:
  "length m = 128 \<Longrightarrow> length (swap_range 0 0x4D 4 m) = 128"
  "length m = 128 \<Longrightarrow> length (xor_range 0 0x40 0x40 m) = 128"
  "length m = 128 \<Longrightarrow> length (xor_range 0x0D 0x34 4 m) = 128"
  "length m = 128 \<Longrightarrow> length (xor_range 0x40 0 0x40 m) = 128"
  using swap_range_nth [of 0 4 "0x4D" m] xor_range_nth [of 0 "0x40" m "0x40"]
    xor_range_nth [of "0x0D" 4 m "0x34"] xor_range_nth [of "0x40" "0x40" m 0]
  by simp_all

lemma passes_twice [simp]:
  "length m = 128 \<Longrightarrow> swap_range 0 0x4D 4 (swap_range 0 0x4D 4 m) = m"
  "length m = 128 \<Longrightarrow> xor_range 0 0x40 0x40 (xor_range 0 0x40 0x40 m) = m"
  "length m = 128 \<Longrightarrow> xor_range 0x0D 0x34 4 (xor_range 0x0D 0x34 4 m) = m"
  "length m = 128 \<Longrightarrow> xor_range 0x40 0 0x40 (xor_range 0x40 0 0x40 m) = m"
  using swap_range_twice [of 0 4 "0x4D" m] xor_range_twice [of 0 "0x40" m "0x40"]
    xor_range_twice [of "0x0D" 4 m "0x34"] xor_range_twice [of "0x40" "0x40" m 0]
  by simp_all

text \<open>
  The modulus shuffle of the Init packet is reversible: \<open>UnscrambleModulus\<close> undoes
  \<open>ScrambleModulus\<close>, and the other way round, on every byte slice; a slice that does not have the
  128 bytes of a 1024-bit modulus is left alone.
\<close>

theorem UnscrambleModulus_inverts:
  "UnscrambleModulus (ScrambleModulus mods) = mods \<and> ScrambleModulus (UnscrambleModulus mods) = mods
   \<and> length (ScrambleModulus mods) = length mods"
  by (cases "length mods = 128") (simp_all add: ScrambleModulus_def UnscrambleModulus_def Let_def)

end
