(* ===== verification/Rsa.thy ===== *)
theory Rsa
  imports L2Prelude
begin

text \<open>
  The textbook RSA of both servers (\<open>packets/helpers.go\<close>, \<open>ings/blowfishkey.go\<close>,
  \<open>outls/blowfishkey.go\<close>): big-endian numbers as \<open>math/big\<close> reads and writes them, and the
  padding to the size of the modulus. A key pair is the three numbers of \<open>rsa.PrivateKey\<close> that the
  source reads. That exponentiation by \<open>RsaD\<close> undoes exponentiation by \<open>RsaE\<close> is the hypothesis
  \<open>rsa_pair\<close>, a fact about the keys that \<open>crypto/rsa\<close> generates.
\<close>

section \<open>Numbers and bytes\<close>

definition be_step :: "nat \<Rightarrow> byte \<Rightarrow> nat" where
  "be_step n b = 256 * n + unat b"

definition SetBytes :: "byte list \<Rightarrow> nat" where
  "SetBytes bs = foldl be_step 0 bs"

fun Bytes :: "nat \<Rightarrow> byte list" where
  "Bytes n = (if n = 0 then [] else Bytes (n div 256) @ [of_nat (n mod 256)])"

fun BitLen :: "nat \<Rightarrow> nat" where
  "BitLen n = (if n = 0 then 0 else Suc (BitLen (n div 2)))"

declare Bytes.simps [simp del] BitLen.simps [simp del]

lemma SetBytes_simps [simp]: "SetBytes [] = 0" "SetBytes [b] = unat b" "SetBytes (bs @ [b]) = 256 * SetBytes bs + unat b"
  by (simp_all add: SetBytes_def be_step_def)

lemma SetBytes_zeros [simp]: "SetBytes (replicate n 0 @ bs) = SetBytes bs"
proof -
  have "foldl be_step 0 (replicate n 0) = 0" by (induction n) (auto simp: be_step_def)
  then show ?thesis by (simp add: SetBytes_def)
qed

lemma Bytes_zero [simp]: "Bytes 0 = []"
  by (simp add: Bytes.simps)

lemma Bytes_step: "unat b < 256 \<Longrightarrow> 256 * n + unat b \<noteq> 0 \<Longrightarrow> Bytes (256 * n + unat b) = Bytes n @ [b]"
  by (subst Bytes.simps) simp

lemma byte_less: "unat (b :: byte) < 256"
  using unsigned_less [of b, where 'a = nat] by simp

lemma Bytes_SetBytes:
  "bs = [] \<or> hd bs \<noteq> 0 \<Longrightarrow> Bytes (SetBytes bs) = bs"
proof (induction bs rule: rev_induct)
  case (snoc b bs)
  show ?case
  proof (cases "bs = []")
    case True
    with snoc.prems have "unat b \<noteq> 0" by (auto simp: unat_eq_0)
    with True show ?thesis using Bytes_step [of b 0] byte_less [of b] by simp
  next
    case False
    with snoc.prems have "hd bs \<noteq> 0" by auto
    with snoc.IH have IH: "Bytes (SetBytes bs) = bs" by simp
    with False have "SetBytes bs \<noteq> 0" by (metis Bytes_zero)
    with IH show ?thesis using Bytes_step [of b "SetBytes bs"] byte_less [of b] by simp
  qed
qed simp

lemma SetBytes_Bytes [simp]: "SetBytes (Bytes n) = n"
proof (induction n rule: Bytes.induct)
  case (1 n)
  then show ?case
    by (subst Bytes.simps) (auto simp: unat_of_nat take_bit_nat_eq_self)
qed

lemma SetBytes_bound: "SetBytes bs < 256 ^ length bs"
proof (induction bs rule: rev_induct)
  case (snoc b bs)
  have "256 * SetBytes bs + unat b < 256 * SetBytes bs + 256" using byte_less [of b] by simp
  also have "\<dots> = 256 * (SetBytes bs + 1)" by simp
  also have "\<dots> \<le> 256 * 256 ^ length bs" using snoc by (intro mult_le_mono2) simp
  finally show ?case by simp
qed simp

lemma length_Bytes: "n < 256 ^ k \<Longrightarrow> length (Bytes n) \<le> k"
proof (induction k arbitrary: n)
  case (Suc k)
  then have "n div 256 < 256 ^ k" by (simp add: less_mult_imp_div_less mult.commute)
  with Suc.IH show ?case by (subst Bytes.simps) auto
qed simp

lemma BitLen_eq: "2 ^ n \<le> m \<Longrightarrow> m < 2 ^ Suc n \<Longrightarrow> BitLen m = Suc n"
proof (induction n arbitrary: m)
  case 0
  then have "m = 1" by simp
  then show ?case by (simp add: BitLen.simps)
next
  case (Suc n)
  then have "2 ^ n \<le> m div 2" "m div 2 < 2 ^ Suc n" by (simp_all add: less_mult_imp_div_less)
  with Suc.IH have "BitLen (m div 2) = Suc n" by blast
  then show ?case using Suc.prems by (subst BitLen.simps) auto
qed

lemma less_two_pow_BitLen: "m < 2 ^ BitLen m"
proof (induction m rule: BitLen.induct)
  case (1 m)
  show ?case
  proof (cases "m = 0")
    case False
    with 1 have "m div 2 < 2 ^ BitLen (m div 2)" by simp
    then have "m < 2 * 2 ^ BitLen (m div 2)" by linarith
    with False show ?thesis by (simp add: BitLen.simps [of m])
  qed (simp add: BitLen.simps)
qed

section \<open>Keys\<close>

record rsa_key =
  RsaN :: nat
  RsaE :: nat
  RsaD :: nat

definition rsa_size :: "rsa_key \<Rightarrow> nat" where
  "rsa_size key = (BitLen (RsaN key) + 7) div 8"

definition modexp :: "nat \<Rightarrow> nat \<Rightarrow> nat \<Rightarrow> nat" where
  "modexp x y m = x ^ y mod m"

definition rsa_pair :: "rsa_key \<Rightarrow> bool" where
  "rsa_pair key \<longleftrightarrow> (\<forall>m < RsaN key. modexp (modexp m (RsaE key) (RsaN key)) (RsaD key) (RsaN key) = m)"

text \<open>\<open>pad := make([]byte, k-len(out)); out = append(pad, out...)\<close>, when \<open>out\<close> is short.\<close>

definition pad_left :: "nat \<Rightarrow> byte list \<Rightarrow> byte list" where
  "pad_left k out = (if length out < k then replicate (k - length out) 0 @ out else out)"

definition cipher_length_error :: "nat \<Rightarrow> nat \<Rightarrow> go_error" where
  "cipher_length_error n k = ''cipher length != key size: '' @ itoa n @ '' != '' @ itoa k"

definition RsaDecryptNoPadding :: "rsa_key \<Rightarrow> byte list \<Rightarrow> go_error + byte list" where
  "RsaDecryptNoPadding priv cipher =
     (let k = rsa_size priv in
      if length cipher \<noteq> k then Inl (cipher_length_error (length cipher) k)
      else let c = SetBytes cipher;
               m = modexp c (RsaD priv) (RsaN priv);
               out = Bytes m
           in Inr (pad_left k out))"

text \<open>The encryption of the game server: \<open>m ^ E mod N\<close>, padded to the size of the modulus.\<close>

definition rsa_encrypt :: "rsa_key \<Rightarrow> byte list \<Rightarrow> byte list" where
  "rsa_encrypt pub msg =
     (let m = SetBytes msg;
          c = modexp m (RsaE pub) (RsaN pub);
          encrypted = Bytes c;
          actualKeySize = (BitLen (RsaN pub) + 7) div 8
      in pad_left actualKeySize encrypted)"

lemma SetBytes_pad_left [simp]: "SetBytes (pad_left k bs) = SetBytes bs"
  by (simp add: pad_left_def)

lemma length_pad_left: "length bs \<le> k \<Longrightarrow> length (pad_left k bs) = k"
  by (simp add: pad_left_def)

lemma below_modulus: "m < RsaN key \<Longrightarrow> m < 256 ^ rsa_size key"
proof -
  assume "m < RsaN key"
  also have "RsaN key < 2 ^ BitLen (RsaN key)" by (rule less_two_pow_BitLen)
  also have "\<dots> \<le> 2 ^ (8 * rsa_size key)" by (rule power_increasing) (auto simp: rsa_size_def)
  also have "\<dots> = 256 ^ rsa_size key" by (simp add: power_mult)
  finally show ?thesis .
qed

lemma length_rsa_encrypt [simp]: "0 < RsaN pub \<Longrightarrow> length (rsa_encrypt pub msg) = rsa_size pub"
  using below_modulus [of "modexp (SetBytes msg) (RsaE pub) (RsaN pub)" pub]
  by (simp add: rsa_encrypt_def Let_def modexp_def rsa_size_def length_pad_left length_Bytes)

lemma RsaDecryptNoPadding_encrypt:
  assumes "rsa_pair key" and "SetBytes msg < RsaN key"
  shows "RsaDecryptNoPadding key (rsa_encrypt key msg) = Inr (pad_left (rsa_size key) (Bytes (SetBytes msg)))"
proof -
  have len: "length (rsa_encrypt key msg) = rsa_size key" using assms(2) by simp
  have "SetBytes (rsa_encrypt key msg) = modexp (SetBytes msg) (RsaE key) (RsaN key)"
    by (simp add: rsa_encrypt_def Let_def)
  with assms len show ?thesis
    by (simp add: RsaDecryptNoPadding_def Let_def rsa_pair_def)
qed

lemma RsaDecryptNoPadding_length:
  "0 < RsaN key \<Longrightarrow> RsaDecryptNoPadding key c = Inr out \<Longrightarrow> length out = rsa_size key"
  using below_modulus [of "modexp (SetBytes c) (RsaD key) (RsaN key)" key]
  by (auto simp: RsaDecryptNoPadding_def Let_def modexp_def length_pad_left length_Bytes split: if_splits)

text \<open>A full block comes back as it was sent.\<close>

lemma pad_left_Bytes_SetBytes:
  assumes "length bs = k"
  shows "pad_left k (Bytes (SetBytes bs)) = bs"
proof -
  obtain n cs where bs: "bs = replicate n 0 @ cs" and cs: "cs = [] \<or> hd cs \<noteq> 0"
  proof -
    have "bs = takeWhile (\<lambda>b. b = 0) bs @ dropWhile (\<lambda>b. b = 0) bs" by simp
    moreover have "takeWhile (\<lambda>b. b = 0) bs = replicate (length (takeWhile (\<lambda>b. b = 0) bs)) 0"
      by (rule replicate_length_same [symmetric]) (auto dest: set_takeWhileD)
    moreover have "dropWhile (\<lambda>b. b = 0) bs = [] \<or> hd (dropWhile (\<lambda>b. b = 0) bs) \<noteq> 0"
      using hd_dropWhile [of "\<lambda>b. b = 0" bs] by blast
    ultimately show thesis using that by metis
  qed
  have "Bytes (SetBytes bs) = cs" unfolding bs using Bytes_SetBytes [OF cs] by simp
  then show ?thesis using assms by (auto simp: pad_left_def bs)
qed

end
