(* ===== verification/LoginPackets.thy ===== *)
theory LoginPackets
  imports LoginWire LoginSession Rsa
begin

text \<open>
  The packets the login server exchanges: those it gets from a game server
  (\<open>packets/ings\<close>) and sends to one (\<open>packets/outgs\<close>), those it gets from a game client
  (\<open>packets/inclient\<close>) and sends to one (\<open>packets/outclient\<close>, but for the server list, which is in
  ServerList). A constructor that returns nil on a bad packet is an option; one that can panic has
  the panic as the outer \<open>None\<close>.
\<close>

section \<open>From a game server\<close>

record AuthRequest =
  arVersion :: byte
  arID :: byte
  arAcceptAlternate :: bool
  arReserveHost :: bool
  arPort :: u16
  arMaxPlayers :: u32
  arHexID :: "byte list"
  arSubnets :: "go_string list"
  arHosts :: "go_string list"

text \<open>The loop over the address table, with the two slices it appends to.\<close>

fun read_addresses :: "nat \<Rightarrow> go_string list \<Rightarrow> go_string list \<Rightarrow> (go_string list \<times> go_string list) rd" where
  "read_addresses 0 subnets hosts r = ((subnets, hosts), r)"
| "read_addresses (Suc n) subnets hosts r =
     (case ReadString r of (subnet, r) \<Rightarrow>
      case ReadString r of (host, r) \<Rightarrow>
        read_addresses n (subnets @ [subnet]) (hosts @ [host]) r)"

definition NewAuthRequest :: "byte list \<Rightarrow> AuthRequest option" where
  "NewAuthRequest data =
     (if length data < 10 then None
      else case ReadUInt8 data of (version, r) \<Rightarrow>
           case ReadUInt8 r of (ident, r) \<Rightarrow>
           case ReadUInt8 r of (alt, r) \<Rightarrow>
           case ReadUInt8 r of (res, r) \<Rightarrow>
           case ReadUInt16 r of (port, r) \<Rightarrow>
           case ReadUInt32 r of (maxPlayers, r) \<Rightarrow>
           case ReadUInt32 r of (hexIDSize, r) \<Rightarrow>
           case ReadBytes (unat hexIDSize) r of (hexID, r) \<Rightarrow>
             if hexID = [] then None
             else case ReadUInt32 r of (subnetSize, r) \<Rightarrow>
                  case read_addresses (unat subnetSize) [] [] r of ((subnets, hosts), r) \<Rightarrow>
                    Some \<lparr>arVersion = version, arID = ident, arAcceptAlternate = (alt \<noteq> 0),
                      arReserveHost = (res \<noteq> 0), arPort = port, arMaxPlayers = maxPlayers,
                      arHexID = hexID, arSubnets = subnets, arHosts = hosts\<rparr>)"

text \<open>
  \<open>4+keySize\<close> is a \<open>uint32\<close> sum. The outer option is the panic of \<open>data[4:4+keySize]\<close>.
\<close>

definition NewBlowFishKey :: "byte list \<Rightarrow> byte list option option" where
  "NewBlowFishKey data =
     (if length data < 4 then Some None
      else let keySize = ucast (data ! 0) OR push_bit 8 (ucast (data ! 1))
                 OR push_bit 16 (ucast (data ! 2)) OR push_bit 24 (ucast (data ! 3)) :: u32
           in if length data < unat (4 + keySize) then Some None
              else do {
                src \<leftarrow> go_slice data 4 (int (unat (4 + keySize)));
                Some (Some (take (unat keySize) (src @ replicate (unat keySize - length src) 0)))
              })"

definition first_nonzero :: "byte list \<Rightarrow> int" where
  "first_nonzero bs =
     (case find (\<lambda>i. bs ! i \<noteq> 0) [0..<length bs] of Some i \<Rightarrow> int i | None \<Rightarrow> -1)"

definition DecryptKey :: "rsa_key \<Rightarrow> byte list \<Rightarrow> (go_error + byte list) option" where
  "DecryptKey privateKey encryptedKey =
     (case RsaDecryptNoPadding privateKey encryptedKey of
        Inl e \<Rightarrow> err (''failed to decrypt BlowFish key: '' @ e)
      | Inr decrypted \<Rightarrow>
          let startIndex = first_nonzero decrypted; n = int (length decrypted) in
          if startIndex \<ge> 0 \<and> n - startIndex \<ge> 22
          then if n - startIndex \<ge> 40
               then do { k \<leftarrow> go_slice decrypted startIndex (startIndex + 40); ok k }
               else do { k \<leftarrow> go_slice decrypted startIndex (startIndex + 22); ok k }
          else if startIndex \<ge> 0
          then do { k \<leftarrow> go_slice decrypted startIndex n; ok k }
          else ok decrypted)"

record PlayerAuthRequest =
  parAccount :: go_string
  parPlayKey1 :: u32
  parPlayKey2 :: u32
  parLoginKey1 :: u32
  parLoginKey2 :: u32

definition NewPlayerAuthRequest :: "byte list \<Rightarrow> PlayerAuthRequest option" where
  "NewPlayerAuthRequest data =
     (if length data < 18 then None
      else case ReadString data of (account, r) \<Rightarrow>
           case ReadUInt32 r of (playKey1, r) \<Rightarrow>
           case ReadUInt32 r of (playKey2, r) \<Rightarrow>
           case ReadUInt32 r of (loginKey1, r) \<Rightarrow>
           case ReadUInt32 r of (loginKey2, r) \<Rightarrow>
             Some \<lparr>parAccount = account, parPlayKey1 = playKey1, parPlayKey2 = playKey2,
               parLoginKey1 = loginKey1, parLoginKey2 = loginKey2\<rparr>)"

text \<open>The other fields of the key are zero; a zero \<open>time.Time\<close> is modelled as 0.\<close>

definition parGetSessionKey :: "PlayerAuthRequest \<Rightarrow> SessionKey" where
  "parGetSessionKey par =
     \<lparr>LoginKey1 = parLoginKey1 par, LoginKey2 = parLoginKey2 par, PlayKey1 = parPlayKey1 par,
      PlayKey2 = parPlayKey2 par, KeyAccount = [], KeyServerID = 0, CreatedAt = 0\<rparr>"

definition NewPlayerLogout :: "byte list \<Rightarrow> go_string option" where
  "NewPlayerLogout data = (if length data < 2 then None else Some (fst (ReadString data)))"

record PlayerTracert =
  ptAccount :: go_string
  ptPcIP :: go_string
  ptHop1 :: go_string
  ptHop2 :: go_string
  ptHop3 :: go_string
  ptHop4 :: go_string

definition NewPlayerTracert :: "byte list \<Rightarrow> PlayerTracert option" where
  "NewPlayerTracert data =
     (if length data < 2 then None
      else case ReadString data of (account, r) \<Rightarrow>
           case ReadString r of (pcIP, r) \<Rightarrow>
           case ReadString r of (hop1, r) \<Rightarrow>
           case ReadString r of (hop2, r) \<Rightarrow>
           case ReadString r of (hop3, r) \<Rightarrow>
           case ReadString r of (hop4, r) \<Rightarrow>
             Some \<lparr>ptAccount = account, ptPcIP = pcIP, ptHop1 = hop1, ptHop2 = hop2,
               ptHop3 = hop3, ptHop4 = hop4\<rparr>)"

record ReplyCharacters =
  rcAccount :: go_string
  rcCharacterCount :: int
  rcDeletionCount :: int
  rcDeletionTimes :: "u64 list"

fun read_times :: "nat \<Rightarrow> u64 list rd" where
  "read_times 0 r = ([], r)"
| "read_times (Suc n) r =
     (case ReadUInt64 r of (t, r) \<Rightarrow> case read_times n r of (ts, r) \<Rightarrow> (t # ts, r))"

definition NewReplyCharacters :: "byte list \<Rightarrow> ReplyCharacters option" where
  "NewReplyCharacters data =
     (if length data < 3 then None
      else case ReadString data of (account, r) \<Rightarrow>
             if account = [] then None
             else case ReadUInt8 r of (charCount, r) \<Rightarrow>
                  case ReadUInt8 r of (deletionCount, r) \<Rightarrow>
                  case read_times (unat deletionCount) r of (deletionTimes, r) \<Rightarrow>
                    Some \<lparr>rcAccount = account, rcCharacterCount = int (unat charCount),
                      rcDeletionCount = int (unat deletionCount), rcDeletionTimes = deletionTimes\<rparr>)"

section \<open>To a game server\<close>

definition AuthResponse_GetData :: "int \<Rightarrow> go_string \<Rightarrow> byte list" where
  "AuthResponse_GetData serverID serverName =
     (let b = WriteByte 0x02 []; b = WriteByte (of_int serverID) b; b = WriteString serverName b in b)"

definition InitLS_GetData :: "byte list \<Rightarrow> byte list" where
  "InitLS_GetData publicKey =
     (let b = WriteByte 0x00 []; b = WriteUInt32 (of_nat (length publicKey)) b;
          b = WriteBytes publicKey b in b)"

definition PlayerAuthResponse_GetData :: "go_string \<Rightarrow> bool \<Rightarrow> byte list" where
  "PlayerAuthResponse_GetData account success =
     (let b = WriteByte 0x03 []; b = WriteString account b;
          b = (if success then WriteByte 0x01 b else WriteByte 0x00 b) in b)"

definition RequestCharacters_GetData :: "go_string \<Rightarrow> byte list" where
  "RequestCharacters_GetData account =
     (let b = WriteByte 0x05 []; b = WriteString account b in b)"

section \<open>From a game client\<close>

record AuthGameGuard =
  ggSessionId :: u32
  ggData1 :: u32
  ggData2 :: u32
  ggData3 :: u32
  ggData4 :: u32

definition NewAuthGameGuard :: "byte list \<Rightarrow> AuthGameGuard" where
  "NewAuthGameGuard data =
     (case ReadUInt32 data of (s, r) \<Rightarrow>
      case ReadUInt32 r of (d1, r) \<Rightarrow>
      case ReadUInt32 r of (d2, r) \<Rightarrow>
      case ReadUInt32 r of (d3, r) \<Rightarrow>
      case ReadUInt32 r of (d4, r) \<Rightarrow>
        \<lparr>ggSessionId = s, ggData1 = d1, ggData2 = d2, ggData3 = d3, ggData4 = d4\<rparr>)"

definition NewRequestServerList :: "byte list \<Rightarrow> byte list" where
  "NewRequestServerList request = fst (ReadBytes 8 request)"

definition NewRequestServerLogin :: "byte list \<Rightarrow> byte list \<times> byte" where
  "NewRequestServerLogin request =
     (case ReadBytes 8 request of (sessionID, r) \<Rightarrow>
      case ReadUInt8 r of (serverID, r) \<Rightarrow> (sessionID, serverID))"

definition NewRequestPlay :: "byte list \<Rightarrow> byte list \<times> byte" where
  "NewRequestPlay request =
     (case ReadBytes 8 request of (sessionID, r) \<Rightarrow>
      case ReadUInt8 r of (serverID, r) \<Rightarrow> (sessionID, serverID))"

text \<open>
  Credentials. Here a string is its bytes: they come from a decrypted block and are compared
  byte by byte. Lower-casing a string with a byte above 127 follows the Unicode tables of Go and is
  the parameter \<open>unicode_lower\<close>; such a user name is refused or turns into plain ASCII first.
\<close>

type_synonym raw_string = "byte list"

definition trim_cutset :: "byte list" where
  "trim_cutset = [0x00, 0x20, 0x09, 0x0D, 0x0A]"

definition trimASCII :: "byte list \<Rightarrow> raw_string" where
  "trimASCII b =
     rev (dropWhile (\<lambda>x. x \<in> set trim_cutset) (rev (dropWhile (\<lambda>x. x \<in> set trim_cutset) b)))"

definition ascii_lower :: "byte \<Rightarrow> byte" where
  "ascii_lower b = (if 0x41 \<le> b \<and> b \<le> 0x5A then b + 32 else b)"

definition ToLower :: "(raw_string \<Rightarrow> raw_string) \<Rightarrow> raw_string \<Rightarrow> raw_string" where
  "ToLower unicode_lower s =
     (if \<forall>b \<in> set s. b < 0x80 then map ascii_lower s else unicode_lower s)"

definition IsLetter :: "byte \<Rightarrow> bool" where
  "IsLetter b \<longleftrightarrow> (0x41 \<le> b \<and> b \<le> 0x5A) \<or> (0x61 \<le> b \<and> b \<le> 0x7A)"

definition IsDigit :: "byte \<Rightarrow> bool" where
  "IsDigit b \<longleftrightarrow> 0x30 \<le> b \<and> b \<le> 0x39"

text \<open>
  The loops run over the runes of the string. A string with a byte from \<open>0x80\<close> on has a rune from
  \<open>0x80\<close> on (the replacement rune at least), which both refuse; every other rune is its byte.
\<close>

definition plausible_user_rune :: "byte \<Rightarrow> bool" where
  "plausible_user_rune r \<longleftrightarrow> \<not> (r < 0x20 \<or> r \<ge> 0x7F)
     \<and> (IsLetter r \<or> IsDigit r \<or> r = 0x2E \<or> r = 0x5F \<or> r = 0x2D)"

definition plausibleUser :: "raw_string \<Rightarrow> bool" where
  "plausibleUser s =
     (if length s = 0 \<or> length s > 14 then False else list_all plausible_user_rune s)"

definition plausiblePass :: "raw_string \<Rightarrow> bool" where
  "plausiblePass s =
     (if length s < 3 \<or> length s > 16 then False
      else list_all (\<lambda>r. \<not> (r < 0x20 \<or> r \<ge> 0x7F)) s)"

definition extractCredsFromDecrypted128 :: "(raw_string \<Rightarrow> raw_string) \<Rightarrow> byte list
    \<Rightarrow> (go_error + raw_string \<times> raw_string) option" where
  "extractCredsFromDecrypted128 unicode_lower dec =
     (if length dec < 128 then err ''decrypted block must be 128 bytes''
      else do {
        userRaw \<leftarrow> go_slice dec 0x5E (0x5E + 14);
        passRaw \<leftarrow> go_slice dec 0x6C (0x6C + 16);
        let user = ToLower unicode_lower (trimASCII userRaw);
        let pass = trimASCII passRaw;
        if \<not> plausibleUser user then err ''username not plausible''
        else if \<not> plausiblePass pass then err ''password not plausible''
        else ok (user, pass)
      })"

definition NewRequestAuthLogin :: "(raw_string \<Rightarrow> raw_string) \<Rightarrow> rsa_key \<Rightarrow> byte list
    \<Rightarrow> (go_error + raw_string \<times> raw_string) option" where
  "NewRequestAuthLogin unicode_lower privateKey request =
     (if length request < 128 then err ''request too short''
      else do {
        block \<leftarrow> go_slice request 0 128;
        case RsaDecryptNoPadding privateKey block of
          Inl e \<Rightarrow> err e
        | Inr dec128 \<Rightarrow> extractCredsFromDecrypted128 unicode_lower dec128
      })"

section \<open>To a game client\<close>

text \<open>\<open>binary.LittleEndian.Uint32(s[:4])\<close>, a panic when the slice is shorter.\<close>

definition Uint32 :: "byte list \<Rightarrow> u32 option" where
  "Uint32 s = do { b \<leftarrow> go_slice s 0 4; Some (le32 (b ! 0) (b ! 1) (b ! 2) (b ! 3)) }"

definition GetSessionIdFromSessionBytes :: "byte list \<Rightarrow> u32" where
  "GetSessionIdFromSessionBytes sessionBytes =
     (if length sessionBytes \<ge> 4 then the (Uint32 sessionBytes) else 0)"

definition NewInitPacket :: "byte list \<Rightarrow> rsa_key \<Rightarrow> byte list \<Rightarrow> byte list option" where
  "NewInitPacket sessionID privateKey blowfishKey =
     (let b = WriteByte 0x00 [] in
      do {
        sid \<leftarrow> go_slice sessionID 0 4;
        let b = WriteBytes sid b;
        let b = WriteUInt32 0x0000c621 b;
        let modulus = ScrambleModulus (Bytes (RsaN privateKey));
        let b = WriteBytes modulus b;
        let b = WriteUInt32 0x29DD954E b;
        let b = WriteUInt32 0x77C39CFC b;
        let b = WriteUInt32 0x97ADB620 b;
        let b = WriteUInt32 0x07BDE0F7 b;
        let b = WriteBytes blowfishKey b;
        let b = WriteByte 0x00 b;
        Some b
      })"

definition NewGGAuthPacket :: "byte list \<Rightarrow> byte list option" where
  "NewGGAuthPacket sessionID =
     do {
       sessionID32 \<leftarrow> Uint32 sessionID;
       let b = WriteByte 0x0B [];
       let b = WriteUInt32 sessionID32 b;
       Some (WriteUInt32 0 (WriteUInt32 0 (WriteUInt32 0 (WriteUInt32 0 b))))
     }"

definition REASON_SYSTEM_ERROR :: u32 where "REASON_SYSTEM_ERROR = 0x01"
definition REASON_USER_OR_PASS_WRONG :: u32 where "REASON_USER_OR_PASS_WRONG = 0x02"
definition REASON_ACCESS_FAILED :: u32 where "REASON_ACCESS_FAILED = 0x04"
definition REASON_ACCOUNT_IN_USE :: u32 where "REASON_ACCOUNT_IN_USE = 0x07"
definition REASON_SERVER_OVERLOADED :: u32 where "REASON_SERVER_OVERLOADED = 0x0F"

definition NewLoginFailPacket :: "u32 \<Rightarrow> byte list" where
  "NewLoginFailPacket reason = (let b = WriteByte 0x01 []; b = WriteUInt32 reason b in b)"

definition NewLoginOkPacket :: "byte list \<Rightarrow> byte list option" where
  "NewLoginOkPacket sessionID =
     (let b = WriteByte 0x03 [] in
      do {
        id1 \<leftarrow> go_slice sessionID 0 4;
        let b = WriteBytes id1 b;
        id2 \<leftarrow> go_slice sessionID 4 8;
        let b = WriteBytes id2 b;
        let b = WriteUInt32 0x00 (WriteUInt32 0x00 b);
        let b = WriteUInt32 0x000003ea b;
        let b = WriteUInt32 0x00 (WriteUInt32 0x00 (WriteUInt32 0x00 b));
        Some (fold (\<lambda>_ b. WriteByte 0x00 b) [0..<16] b)
      })"

definition PLAY_REASON_ACCESS_FAILED :: u32 where "PLAY_REASON_ACCESS_FAILED = 0x04"
definition PLAY_REASON_SERVER_OVERLOADED :: u32 where "PLAY_REASON_SERVER_OVERLOADED = 0x0F"
definition PLAY_REASON_TEMP_BAN :: u32 where "PLAY_REASON_TEMP_BAN = 0x10"

definition NewPlayFailPacket :: "u32 \<Rightarrow> byte list" where
  "NewPlayFailPacket reason = (let b = WriteByte 0x06 []; b = WriteUInt32 reason b in b)"

definition NewPlayOkPacket :: "u32 \<Rightarrow> u32 \<Rightarrow> byte list" where
  "NewPlayOkPacket playOkID1 playOkID2 =
     (let b = WriteByte 0x07 []; b = WriteUInt32 playOkID1 b; b = WriteUInt32 playOkID2 b in b)"

lemma lower_case_rune: "0x61 \<le> b \<Longrightarrow> b \<le> 0x7A \<Longrightarrow> plausible_user_rune b"
  by (simp add: plausible_user_rune_def IsLetter_def word_less_nat_alt word_le_nat_alt)

lemma ascii_lower_letter: "0x41 \<le> b \<Longrightarrow> b \<le> 0x5A \<Longrightarrow> 0x61 \<le> b + 32 \<and> b + 32 \<le> (0x7A :: byte)"
  by unat_arith auto

lemma ascii_lower_rune: "plausible_user_rune b \<Longrightarrow> plausible_user_rune (ascii_lower b)"
  using ascii_lower_letter [of b] lower_case_rune [of "b + 32"] by (simp add: ascii_lower_def)

lemma plausible_user_rune_ascii: "plausible_user_rune b \<Longrightarrow> b < 0x80"
  unfolding plausible_user_rune_def by unat_arith

lemma plausible_rune_kept: "plausible_user_rune b \<Longrightarrow> b \<notin> set trim_cutset"
  by (auto simp: plausible_user_rune_def trim_cutset_def IsLetter_def IsDigit_def)

lemma printable_kept: "\<not> (b < 0x20 \<or> b \<ge> 0x7F) \<Longrightarrow> b \<noteq> 0x20 \<Longrightarrow> b \<notin> set trim_cutset"
  by (auto simp: trim_cutset_def)

lemma trimASCII_padded:
  assumes "s \<noteq> []" and "hd s \<notin> set trim_cutset" and "last s \<notin> set trim_cutset"
  shows "trimASCII (s @ replicate n 0) = s"
proof -
  let ?P = "\<lambda>x. x \<in> set trim_cutset"
  have "dropWhile ?P (s @ t) = s @ t" for t using assms(1,2) by (cases s) auto
  moreover have "dropWhile ?P (replicate n 0 @ rev s) = rev s"
  proof -
    have "dropWhile ?P (replicate n 0 @ rev s) = dropWhile ?P (rev s)"
      by (rule dropWhile_append2) (simp add: trim_cutset_def)
    then show ?thesis using assms(1,3) by (cases s rule: rev_cases) auto
  qed
  ultimately show ?thesis by (simp add: trimASCII_def)
qed

lemma ToLower_plausible:
  "list_all plausible_user_rune s \<Longrightarrow> ToLower f s = map ascii_lower s"
  by (auto simp: ToLower_def list_all_iff dest: plausible_user_rune_ascii)

lemma extractCreds_block:
  assumes "length block = 128"
    and "take 14 (drop 0x5E block) = user @ replicate (14 - length user) 0"
    and "take 16 (drop 0x6C block) = pass @ replicate (16 - length pass) 0"
    and "user \<noteq> []" and "list_all plausible_user_rune user"
    and "plausiblePass pass" and "hd pass \<noteq> 0x20" and "last pass \<noteq> 0x20"
  shows "extractCredsFromDecrypted128 f block = ok (map ascii_lower user, pass)"
proof -
  have lens: "length user \<le> 14" "length pass \<le> 16"
    using arg_cong [OF assms(2), of length] assms(1,6) by (auto simp: plausiblePass_def split: if_splits)
  have pass: "pass \<noteq> []" "\<forall>r \<in> set pass. \<not> (r < 0x20 \<or> r \<ge> 0x7F)"
    using assms(6) by (auto simp: plausiblePass_def list_all_iff split: if_splits)
  have u: "trimASCII (user @ replicate (14 - length user) 0) = user"
    using assms(4,5) plausible_rune_kept
    by (intro trimASCII_padded) (auto simp: list_all_iff)
  have p: "trimASCII (pass @ replicate (16 - length pass) 0) = pass"
    using pass assms(7,8) printable_kept [of "hd pass"] printable_kept [of "last pass"]
    by (intro trimASCII_padded) simp_all
  have "plausibleUser (map ascii_lower user)"
    using assms(4,5) lens by (auto simp: plausibleUser_def list_all_iff ascii_lower_rune)
  then show ?thesis
    using assms(1-3,5,6) u p
    by (simp add: extractCredsFromDecrypted128_def go_slice_def ToLower_plausible Let_def)
qed

section \<open>Properties\<close>

text \<open>
  What a client types is what the server checks. When the client puts a user name and a
  password of plausible characters, zero-padded, at their places in a 128-byte block below the
  modulus and encrypts the block with the public key of the Init packet, the server reads back the
  lower-cased user name and the password. That exponentiation by the private exponent undoes the
  public one is the property of the key pair.
\<close>

theorem login_credentials_roundtrip:
  assumes "rsa_pair key" and "rsa_size key = 128" and "length block = 128" and "SetBytes block < RsaN key"
    and "take 14 (drop 0x5E block) = user @ replicate (14 - length user) 0"
    and "take 16 (drop 0x6C block) = pass @ replicate (16 - length pass) 0"
    and "user \<noteq> []" and "list_all plausible_user_rune user"
    and "plausiblePass pass" and "hd pass \<noteq> 0x20" and "last pass \<noteq> 0x20"
  shows "NewRequestAuthLogin unicode_lower key (rsa_encrypt key block @ rest)
      = ok (map ascii_lower user, pass)"
proof -
  have len: "length (rsa_encrypt key block) = 128" using assms(2,4) by simp
  have "go_slice (rsa_encrypt key block @ rest) 0 128 = Some (rsa_encrypt key block)"
    using len by (simp add: go_slice_def)
  moreover have "RsaDecryptNoPadding key (rsa_encrypt key block) = Inr block"
    using RsaDecryptNoPadding_encrypt [OF assms(1,4)] assms(2,3) by (simp add: pad_left_Bytes_SetBytes)
  ultimately show ?thesis
    using len extractCreds_block [OF assms(3,5-11)] by (simp add: NewRequestAuthLogin_def)
qed

definition sample_rsa_key :: rsa_key where
  "sample_rsa_key = \<lparr>RsaN = 2 ^ 1023, RsaE = 1, RsaD = 1\<rparr>"

definition sample_block :: "byte list" where
  "sample_block = replicate 94 0 @ [0x42, 0x6F, 0x62] @ replicate 11 0
     @ [0x73, 0x33, 0x63, 0x72] @ replicate 12 0 @ replicate 4 0"

lemma sample_rsa_pair: "rsa_pair sample_rsa_key"
  by (simp add: rsa_pair_def modexp_def sample_rsa_key_def)

lemma sample_rsa_size: "rsa_size sample_rsa_key = 128"
  using BitLen_eq [of 1023 "2 ^ 1023"] by (simp add: rsa_size_def sample_rsa_key_def)

lemma login_credentials_roundtrip_witness:
  "NewRequestAuthLogin (\<lambda>s. s) sample_rsa_key (rsa_encrypt sample_rsa_key sample_block @ [])
     = ok (map ascii_lower [0x42, 0x6F, 0x62], [0x73, 0x33, 0x63, 0x72])"
proof (rule login_credentials_roundtrip [OF sample_rsa_pair sample_rsa_size])
  have "SetBytes sample_block = SetBytes (drop 94 sample_block)" by (simp add: sample_block_def)
  also have "\<dots> < 256 ^ 34" using SetBytes_bound [of "drop 94 sample_block"] by (simp add: sample_block_def)
  also have "\<dots> < RsaN sample_rsa_key" by (simp add: sample_rsa_key_def)
  finally show "SetBytes sample_block < RsaN sample_rsa_key" .
qed (simp_all add: sample_block_def plausible_user_rune_def IsLetter_def plausiblePass_def)


text \<open>
  No RequestAuthLogin makes the parser panic, and the credentials it lets through are
  plausible: a user name of 1 to 14 letters, digits and \<open>. _ -\<close>, a password of 3 to 16 printable
  ASCII characters; it lets none through when the key is not a 1024-bit one.
\<close>

theorem NewRequestAuthLogin_guards:
  "\<exists>res. NewRequestAuthLogin unicode_lower key request = Some res
    \<and> (case res of
         Inl _ \<Rightarrow> True
       | Inr (user, pass) \<Rightarrow> rsa_size key = 128 \<and> plausibleUser user \<and> plausiblePass pass)"
  by (auto simp: NewRequestAuthLogin_def go_slice_def extractCredsFromDecrypted128_def Let_def
      RsaDecryptNoPadding_def split: sum.splits if_splits)

lemma NewBlowFishKey_eq:
  "NewBlowFishKey data =
     (if length data < 4 then Some None
      else let keySize = unat (le32 (data ! 0) (data ! 1) (data ! 2) (data ! 3)) in
        if 2 ^ 32 - 4 \<le> keySize then None
        else if length data < 4 + keySize then Some None
        else Some (Some (take keySize (drop 4 data))))"
proof (cases "length data < 4")
  case False
  define w where "w = le32 (data ! 0) (data ! 1) (data ! 2) (data ! 3)"
  have w: "ucast (data ! 0) OR push_bit 8 (ucast (data ! 1)) OR push_bit 16 (ucast (data ! 2))
      OR push_bit 24 (ucast (data ! 3)) = w"
    by (simp add: w_def le32_def)
  have bound: "unat w < 2 ^ 32" using unsigned_less [of w, where 'a = nat] by simp
  have sum: "unat (4 + w) = (if 2 ^ 32 - 4 \<le> unat w then unat w - (2 ^ 32 - 4) else 4 + unat w)"
    using bound by (auto simp: unat_word_ariths mod_if)
  define n m where nm: "n = unat w" "m = unat (4 + w)"
  have "NewBlowFishKey data = (if length data < m then Some None
      else do { src \<leftarrow> go_slice data 4 (int m);
        Some (Some (take n (src @ replicate (n - length src) 0))) })"
    using False by (simp only: NewBlowFishKey_def w Let_def nm if_False)
  moreover have "m = (if 2 ^ 32 - 4 \<le> n then n - (2 ^ 32 - 4) else 4 + n)" "n < 2 ^ 32"
    using sum bound by (simp_all add: nm)
  ultimately show ?thesis
    unfolding w_def [symmetric] nm(1) [symmetric] Let_def
    using False by (auto simp: go_slice_def)
qed (simp add: NewBlowFishKey_def)

text \<open>
  The BlowFishKey packet of a game server, which needs no authentication, is the one that can
  make the login server panic: exactly when its size field is one of the last four 32-bit values, so
  that \<open>4 + keySize\<close> wraps around and the slice bounds cross. Otherwise the packet is refused when
  it is shorter than its size field says, and else the key bytes are the ones after the field.
\<close>

theorem NewBlowFishKey_outcomes:
  "NewBlowFishKey data =
     (if length data < 4 then Some None
      else let keySize = unat (le32 (data ! 0) (data ! 1) (data ! 2) (data ! 3)) in
        if 2 ^ 32 - 4 \<le> keySize then None
        else if length data < 4 + keySize then Some None
        else Some (Some (take keySize (drop 4 data))))"
  by (rule NewBlowFishKey_eq)

end
