(* ===== verification/LoginRegistry.thy ===== *)
theory LoginRegistry
  imports NetAddr GoMap LoginPackets
begin

text \<open>
  The registries of the login server: the game servers that are up (\<open>models/gameserver.go\<close>,
  \<open>registry/gameserver.go\<close>, \<open>usecase/gameserver.go\<close>), the cache of character counts
  (\<open>registry/charactercounts.go\<close>), and the operations of \<open>usecase/gameservercomm.go\<close> that fill
  them. The registry's entries are pointers, but every reader gets a copy, so a map of values is the
  same. \<open>now\<close> is the reading of the clock.
\<close>

section \<open>Game servers\<close>

datatype ServerStatus = ServerStatusDown | ServerStatusOnline | ServerStatusGMOnly | ServerStatusTest

record GameServerAddress =
  Subnet :: IPNet
  ServerAddress :: go_string

record GameServerInfo =
  InfoID :: int
  Name :: go_string
  Port :: int
  Status :: ServerStatus
  CurrentPlayers :: int
  MaxPlayers :: int
  PvP :: bool
  AgeLimit :: int
  ServerType :: int
  ShowBrackets :: bool
  LastUpdate :: int
  Addresses :: "GameServerAddress list"

definition IsOnline :: "GameServerInfo \<Rightarrow> bool" where
  "IsOnline gsi \<longleftrightarrow> Status gsi = ServerStatusOnline \<or> Status gsi = ServerStatusGMOnly"

definition IsVisible :: "GameServerInfo \<Rightarrow> int \<Rightarrow> bool" where
  "IsVisible gsi accessLevel =
     (if Status gsi = ServerStatusGMOnly then accessLevel > 0 else Status gsi \<noteq> ServerStatusDown)"

text \<open>A subnet that is neither a CIDR nor an address is refused; a lone address is a one-address net.\<close>

definition AddServerAddress :: "ip6_parser \<Rightarrow> go_string \<Rightarrow> go_string \<Rightarrow> GameServerInfo
    \<Rightarrow> (go_error + GameServerInfo)" where
  "AddServerAddress parse6 subnet serverAddr gsi =
     (let add = (\<lambda>ipNet. Inr (gsi\<lparr>Addresses := Addresses gsi @ [\<lparr>Subnet = ipNet, ServerAddress = serverAddr\<rparr>]\<rparr>)) in
      case ParseCIDR parse6 subnet of
        Some ipNet \<Rightarrow> add ipNet
      | None \<Rightarrow>
          (case ParseIP parse6 subnet of
             None \<Rightarrow> Inl ''invalid CIDR address''
           | Some a \<Rightarrow>
               if To4 a \<noteq> None then add (the (ParseCIDR parse6 (subnet @ lit ''/32'')))
               else add (the (ParseCIDR parse6 (subnet @ lit ''/128'')))))"

definition ClearServerAddresses :: "GameServerInfo \<Rightarrow> GameServerInfo" where
  "ClearServerAddresses gsi = gsi\<lparr>Addresses := []\<rparr>"

definition GetServerAddress :: "GameServerInfo \<Rightarrow> ip \<Rightarrow> go_string" where
  "GetServerAddress gsi clientIP =
     (case find (\<lambda>addr. Contains (Subnet addr) clientIP) (Addresses gsi) of
        Some addr \<Rightarrow> ServerAddress addr
      | None \<Rightarrow> if length (Addresses gsi) > 0 then ServerAddress (Addresses gsi ! 0) else [])"

definition GetExternalHost :: "GameServerInfo \<Rightarrow> go_string" where
  "GetExternalHost gsi = GetServerAddress gsi (ip4 [0, 0, 0, 0])"

section \<open>The registry\<close>

type_synonym registry = "(int, GameServerInfo) go_map"

definition not_found :: "int \<Rightarrow> go_error" where
  "not_found ident = ''gameserver with ID '' @ format_int ident @ '' not found''"

definition Register :: "int \<Rightarrow> registry \<Rightarrow> GameServerInfo option \<Rightarrow> (go_error + unit) \<times> registry" where
  "Register now servers info =
     (case info of
        None \<Rightarrow> (Inl ''gameserver info cannot be nil'', servers)
      | Some info \<Rightarrow>
          if InfoID info \<le> 0 then (Inl (''invalid gameserver ID: '' @ format_int (InfoID info)), servers)
          else (Inr (), AList.update (InfoID info) (info\<lparr>LastUpdate := now\<rparr>) servers))"

definition Unregister :: "registry \<Rightarrow> int \<Rightarrow> (go_error + unit) \<times> registry" where
  "Unregister servers ident =
     (if map_of servers ident = None then (Inl (not_found ident), servers)
      else (Inr (), AList.delete ident servers))"

definition GetAll :: "registry \<Rightarrow> GameServerInfo list" where
  "GetAll servers = map snd servers"

definition GetByID :: "registry \<Rightarrow> int \<Rightarrow> go_error + GameServerInfo" where
  "GetByID servers ident =
     (case map_of servers ident of None \<Rightarrow> Inl (not_found ident) | Some server \<Rightarrow> Inr server)"

definition UpdateStatus :: "int \<Rightarrow> registry \<Rightarrow> int \<Rightarrow> ServerStatus \<Rightarrow> (go_error + unit) \<times> registry" where
  "UpdateStatus now servers ident status =
     (case map_of servers ident of
        None \<Rightarrow> (Inl (not_found ident), servers)
      | Some server \<Rightarrow>
          (Inr (), AList.update ident (server\<lparr>Status := status, LastUpdate := now\<rparr>) servers))"

definition UpdatePlayerCount :: "int \<Rightarrow> registry \<Rightarrow> int \<Rightarrow> int \<Rightarrow> int \<Rightarrow> (go_error + unit) \<times> registry" where
  "UpdatePlayerCount now servers ident current maxp =
     (case map_of servers ident of
        None \<Rightarrow> (Inl (not_found ident), servers)
      | Some server \<Rightarrow>
          (Inr (), AList.update ident
             (server\<lparr>CurrentPlayers := current, MaxPlayers := maxp, LastUpdate := now\<rparr>) servers))"

definition GetVisibleServers :: "registry \<Rightarrow> int \<Rightarrow> GameServerInfo list" where
  "GetVisibleServers servers accessLevel = filter (\<lambda>server. IsVisible server accessLevel) (map snd servers)"

definition GetServerList :: "registry \<Rightarrow> int \<Rightarrow> GameServerInfo list" where
  "GetServerList servers accessLevel = GetVisibleServers servers accessLevel"

definition RegisterGameServer :: "int \<Rightarrow> registry \<Rightarrow> GameServerInfo option \<Rightarrow> (go_error + unit) \<times> registry" where
  "RegisterGameServer now servers info =
     (case info of
        None \<Rightarrow> (Inl ''gameserver info cannot be nil'', servers)
      | Some info \<Rightarrow>
          let info = (if Name info = [] then info\<lparr>Name := lit (''Server_'' @ format_int (InfoID info))\<rparr> else info);
              info = (if ServerType info = 0 then info\<lparr>ServerType := 1\<rparr> else info);
              info = info\<lparr>Status := ServerStatusOnline, LastUpdate := now\<rparr>
          in Register now servers (Some info))"

section \<open>A game server asks to be let in\<close>

definition server_names :: "(int \<times> string) list" where
  "server_names =
     [(1, ''Bartz''), (2, ''Sieghardt''), (3, ''Kain''), (4, ''Lionna''), (5, ''Erica''),
      (6, ''Gustin''), (7, ''Devianne''), (8, ''Hindemith''), (9, ''Teon (EURO)''),
      (10, ''Franz (EURO)''), (11, ''Luna (EURO)''), (12, ''Sayha''), (13, ''Aria''),
      (14, ''Phoenix''), (15, ''Chronos''), (16, ''Naia (EURO)''), (17, ''Elhwynna'')]"

definition generateServerName :: "int \<Rightarrow> go_string" where
  "generateServerName serverID =
     (case map_of server_names serverID of
        Some name \<Rightarrow> lit name
      | None \<Rightarrow> lit (''Server_'' @ format_int serverID))"

record AuthResult =
  AuthSuccess :: bool
  AuthServerID :: int
  AuthServerName :: go_string
  AuthReason :: string

definition add_addresses :: "ip6_parser \<Rightarrow> (go_string \<times> go_string) list \<Rightarrow> GameServerInfo \<Rightarrow> GameServerInfo" where
  "add_addresses parse6 pairs info =
     fold (\<lambda>(subnet, serverAddr) info.
       case AddServerAddress parse6 subnet serverAddr info of Inl _ \<Rightarrow> info | Inr info \<Rightarrow> info) pairs info"

text \<open>The slices of subnets and hosts have one length (\<open>read_addresses\<close>), so no index is out of range.\<close>

definition HandleAuthRequest :: "ip6_parser \<Rightarrow> int \<Rightarrow> registry \<Rightarrow> AuthRequest
    \<Rightarrow> (AuthResult \<times> (go_error + unit)) \<times> registry" where
  "HandleAuthRequest parse6 now servers authReq =
     (let serverID = int (unat (arID authReq));
          serverName = generateServerName serverID;
          serverInfo = \<lparr>InfoID = serverID, Name = serverName, Port = int (unat (arPort authReq)),
            Status = ServerStatusOnline, CurrentPlayers = 0, MaxPlayers = int (unat (arMaxPlayers authReq)),
            PvP = True, AgeLimit = 0, ServerType = 1, ShowBrackets = False, LastUpdate = 0, Addresses = []\<rparr>;
          serverInfo = add_addresses parse6 (zip (arSubnets authReq) (arHosts authReq)) serverInfo
      in case Register now servers (Some serverInfo) of
           (Inl e, servers) \<Rightarrow>
             ((\<lparr>AuthSuccess = False, AuthServerID = 0, AuthServerName = [], AuthReason = ''Registration failed''\<rparr>,
               Inl e), servers)
         | (Inr _, servers) \<Rightarrow>
             ((\<lparr>AuthSuccess = True, AuthServerID = serverID, AuthServerName = serverName, AuthReason = []\<rparr>,
               Inr ()), servers))"

section \<open>Character counts\<close>

record CharacterCountInfo =
  Count :: int
  Timestamp :: int

type_synonym char_counts = "(go_string, (int, CharacterCountInfo) go_map) go_map"

definition SetCharacterCount :: "int \<Rightarrow> char_counts \<Rightarrow> go_string \<Rightarrow> int \<Rightarrow> int \<Rightarrow> char_counts" where
  "SetCharacterCount now data account serverID cnt =
     (let serverData = (case map_of data account of None \<Rightarrow> [] | Some m \<Rightarrow> m)
      in AList.update account
           (AList.update serverID \<lparr>Count = cnt, Timestamp = now\<rparr> serverData) data)"

definition GetCharacterCount :: "int \<Rightarrow> int \<Rightarrow> char_counts \<Rightarrow> go_string \<Rightarrow> int \<Rightarrow> int" where
  "GetCharacterCount now cacheTTL data account serverID =
     (case map_of data account of
        None \<Rightarrow> 0
      | Some serverData \<Rightarrow>
          (case map_of serverData serverID of
             None \<Rightarrow> 0
           | Some countInfo \<Rightarrow> if now - Timestamp countInfo > cacheTTL then 0 else Count countInfo))"

definition GetCharacterCounts :: "int \<Rightarrow> int \<Rightarrow> char_counts \<Rightarrow> go_string \<Rightarrow> (int, int) go_map" where
  "GetCharacterCounts now cacheTTL data account =
     (case map_of data account of
        None \<Rightarrow> []
      | Some serverData \<Rightarrow>
          fold (\<lambda>(serverID, countInfo) result.
            if now - Timestamp countInfo \<le> cacheTTL then AList.update serverID (Count countInfo) result
            else result) serverData [])"

definition ClearServer :: "char_counts \<Rightarrow> int \<Rightarrow> char_counts" where
  "ClearServer data serverID =
     fold (\<lambda>account data.
       let m = AList.delete serverID (the (map_of data account));
           data = AList.update account m data
       in if length m = 0 then AList.delete account data else data) (map fst data) data"

definition ClearAccount :: "char_counts \<Rightarrow> go_string \<Rightarrow> char_counts" where
  "ClearAccount data account = AList.delete account data"

definition CleanupExpired :: "int \<Rightarrow> int \<Rightarrow> char_counts \<Rightarrow> char_counts" where
  "CleanupExpired now cacheTTL data =
     fold (\<lambda>(account, serverData) data.
       let m = fst (delete_where (\<lambda>_ countInfo. now - Timestamp countInfo > cacheTTL) serverData);
           data = AList.update account m data
       in if length m = 0 then AList.delete account data else data) data data"

definition HandleReplyCharacters :: "int \<Rightarrow> char_counts \<Rightarrow> ReplyCharacters \<Rightarrow> int \<Rightarrow> char_counts" where
  "HandleReplyCharacters now data reply serverID =
     SetCharacterCount now data (rcAccount reply) serverID (rcCharacterCount reply)"

section \<open>Text of an IPv4 network\<close>

definition dotted :: "byte list \<Rightarrow> go_string" where
  "dotted a = lit (itoa (unat (a ! 0)) @ ''.'' @ itoa (unat (a ! 1)) @ ''.''
     @ itoa (unat (a ! 2)) @ ''.'' @ itoa (unat (a ! 3)))"

definition cidr_text :: "byte list \<Rightarrow> nat \<Rightarrow> go_string" where
  "cidr_text a n = dotted a @ lit (''/'' @ itoa n)"

definition number_of :: "go_string \<Rightarrow> nat" where
  "number_of s = foldl (\<lambda>n r. n * 10 + (r - 48)) 0 s"

lemma lit_append [simp]: "lit (s @ t) = lit s @ lit t"
  by (simp add: lit_def)

lemma lit_Cons: "lit (c # s) = of_char c # lit s"
  by (simp add: lit_def)

lemma lit_Nil [simp]: "lit [] = []"
  by (simp add: lit_def)

lemma lit_itoa_step: "lit (itoa n) = (if n < 10 then [48 + n] else lit (itoa (n div 10)) @ [48 + n mod 10])"
  by (subst itoa.simps) (simp add: lit_def)

lemma number_of_itoa [simp]: "number_of (lit (itoa n)) = n"
  by (induction n rule: itoa.induct) (subst lit_itoa_step, simp add: number_of_def)

lemma itoa_digits: "r \<in> set (lit (itoa n)) \<Longrightarrow> digit r"
proof (induction n rule: itoa.induct)
  case (1 n)
  then show ?case by (subst (asm) (2) lit_itoa_step) (auto simp: digit_def split: if_splits)
qed

lemma itoa_nonempty [simp]: "lit (itoa n) \<noteq> []"
  by (subst lit_itoa_step) simp

lemma itoa_leading: "10 \<le> n \<Longrightarrow> hd (lit (itoa n)) \<noteq> 48"
proof (induction n rule: itoa.induct)
  case (1 n)
  show ?case
  proof (cases "n div 10 < 10")
    case True
    with 1(2) show ?thesis by (subst lit_itoa_step) (simp add: lit_itoa_step [of "n div 10"])
  next
    case False
    with 1 show ?thesis by (subst lit_itoa_step) simp
  qed
qed

lemma itoa_length: "length (lit (itoa n)) > 1 \<Longrightarrow> 10 \<le> n"
  by (subst (asm) lit_itoa_step) (simp split: if_splits)

lemma octet_itoa [simp]: "octet (lit (itoa (unat b))) = Some b"
proof -
  have "unat b < 256" using unsigned_less [of b, where 'a = nat] by simp
  moreover have "list_all digit (lit (itoa (unat b)))" using itoa_digits by (auto simp: list_all_iff)
  moreover have "\<not> (hd (lit (itoa (unat b))) = 48 \<and> length (lit (itoa (unat b))) > 1)"
    using itoa_leading itoa_length by blast
  ultimately show ?thesis
    using number_of_itoa [of "unat b"] by (simp add: octet_def number_of_def)
qed

lemma number_of_mono: "(n :: nat) \<le> foldl (\<lambda>n r. n * 10 + (r - 48)) n s"
proof (induction s arbitrary: n)
  case (Cons r s)
  have "n \<le> n * 10 + (r - 48)" by simp
  also have "\<dots> \<le> foldl (\<lambda>n r. n * 10 + (r - 48)) (n * 10 + (r - 48)) s" by (rule Cons)
  finally show ?case by simp
qed simp

lemma dtoi_loop_digits:
  "\<forall>r \<in> set s. digit r \<Longrightarrow> foldl (\<lambda>n r. n * 10 + (r - 48)) n s < 0xFFFFFF
    \<Longrightarrow> dtoi_loop n i s = (foldl (\<lambda>n r. n * 10 + (r - 48)) n s, i + length s, i + length s \<noteq> 0)"
proof (induction s arbitrary: n i)
  case (Cons r s)
  have "n * 10 + (r - 48) < 0xFFFFFF"
    using number_of_mono [of "n * 10 + (r - 48)" s] Cons.prems(2) by simp
  with Cons show ?case by (simp add: Let_def)
qed simp

lemma dtoi_itoa: "n < 0xFFFFFF \<Longrightarrow> dtoi (lit (itoa n)) = (n, length (lit (itoa n)), True)"
  using dtoi_loop_digits [of "lit (itoa n)" 0 0] itoa_digits number_of_itoa [of n]
  by (simp add: dtoi_def number_of_def)

lemma split_at_last: "c \<notin> set p \<Longrightarrow> split_at c p = [p]"
  by (induction p) auto

lemma split_at_more: "c \<notin> set p \<Longrightarrow> split_at c (p @ c # s) = p # split_at c s"
  by (induction p) auto

lemma no_separator: "r \<in> {37, 46, 47, 58} \<Longrightarrow> r \<notin> set (lit (itoa n))"
  using itoa_digits [of r n] by (auto simp: digit_def)

lemma dotted_fields:
  "dotted a = lit (itoa (unat (a ! 0))) @ 46 # lit (itoa (unat (a ! 1))) @ 46 # lit (itoa (unat (a ! 2)))
     @ 46 # lit (itoa (unat (a ! 3)))"
  by (simp add: dotted_def lit_Cons)

lemma find_skip: "\<forall>x \<in> set xs. \<not> P x \<Longrightarrow> find P (xs @ ys) = find P ys"
  by (induction xs) auto

lemma ParseAddr_dotted:
  assumes "length a = 4"
  shows "ParseAddr parse6 (dotted a) = Some (ip4 a, 32)"
proof -
  have "find (\<lambda>r. r = 46 \<or> r = 58 \<or> r = 37) (dotted a) = Some 46"
  proof -
    have "\<not> (r = 46 \<or> r = 58 \<or> r = 37)" if "r \<in> set (lit (itoa n))" for r n
      using that no_separator [of r n] by auto
    then show ?thesis unfolding dotted_fields by (subst find_skip) auto
  qed
  moreover have "parseIPv4 (dotted a) = Some a"
  proof -
    obtain x y z w where "a = [x, y, z, w]" using assms by (auto simp: numeral_eq_Suc length_Suc_conv)
    then show ?thesis
      by (simp add: parseIPv4_def dotted_fields split_at_more split_at_last no_separator)
  qed
  ultimately show ?thesis by (simp add: ParseAddr_def ip4_def)
qed

lemma cut_at: "c \<notin> set p \<Longrightarrow> takeWhile (\<lambda>r. r \<noteq> c) (p @ c # s) = p"
    "c \<notin> set p \<Longrightarrow> dropWhile (\<lambda>r. r \<noteq> c) (p @ c # s) = c # s"
  by (induction p) auto

lemma ParseCIDR_text:
  assumes "length a = 4" and "n \<le> 32"
  shows "ParseCIDR parse6 (cidr_text a n) = Some (ip4_net a n)"
proof -
  have slash: "47 \<notin> set (dotted a)" using no_separator by (auto simp: dotted_fields)
  have shape: "cidr_text a n = dotted a @ 47 # lit (itoa n)" by (simp add: cidr_text_def lit_Cons)
  have "takeWhile (\<lambda>r. r \<noteq> 47) (cidr_text a n) = dotted a"
    "tl (dropWhile (\<lambda>r. r \<noteq> 47) (cidr_text a n)) = lit (itoa n)"
    unfolding shape using slash by (simp_all add: cut_at)
  then show ?thesis
    using assms shape ParseAddr_dotted [OF assms(1), of parse6] dtoi_itoa [of n]
    by (simp add: ParseCIDR_def ip4_net_def Let_def)
qed
section \<open>Routing a client\<close>

type_synonym route = "byte list \<times> nat \<times> go_string"

definition route_address :: "route \<Rightarrow> GameServerAddress" where
  "route_address = (\<lambda>(net, n, host). \<lparr>Subnet = ip4_net net n, ServerAddress = host\<rparr>)"

text \<open>The first route whose network shares its upper bits with the address, or else the first of all.\<close>

definition best_route :: "route list \<Rightarrow> byte list \<Rightarrow> go_string" where
  "best_route table a =
     (case find (\<lambda>(net, n, host). drop_bit (32 - n) (ip4_word a) = drop_bit (32 - n) (ip4_word net)) table of
        Some (_, _, host) \<Rightarrow> host
      | None \<Rightarrow> (case table of (_, _, host) # _ \<Rightarrow> host | [] \<Rightarrow> []))"

definition routes_ok :: "route list \<Rightarrow> bool" where
  "routes_ok table \<longleftrightarrow> (\<forall>(net, n, host) \<in> set table. length net = 4 \<and> n \<le> 32)"

lemma add_addresses_routes:
  assumes "routes_ok table"
  shows "add_addresses parse6
      (zip (map (\<lambda>(net, n, host). cidr_text net n) table) (map (\<lambda>(net, n, host). host) table)) info
    = info\<lparr>Addresses := Addresses info @ map route_address table\<rparr>"
  using assms
proof (induction table arbitrary: info)
  case Nil
  then show ?case by (simp add: add_addresses_def)
next
  case (Cons x table)
  obtain net n host where x: "x = (net, n, host)" by (cases x)
  with Cons.prems have "length net = 4" "n \<le> 32" and ok: "routes_ok table"
    by (auto simp: routes_ok_def)
  then have "AddServerAddress parse6 (cidr_text net n) host info
      = Inr (info\<lparr>Addresses := Addresses info @ [route_address x]\<rparr>)"
    by (simp add: AddServerAddress_def ParseCIDR_text route_address_def x)
  with Cons.IH [OF ok] show ?case by (simp add: add_addresses_def x)
qed

lemma find_map_pred:
  "(\<And>x. x \<in> set xs \<Longrightarrow> P (f x) = Q x) \<Longrightarrow> find P (map f xs) = map_option f (find Q xs)"
  by (induction xs) auto

lemma GetServerAddress_routes:
  assumes "routes_ok table" and "length a = 4" and "Addresses gsi = map route_address table"
  shows "GetServerAddress gsi (ip4 a) = best_route table a"
proof -
  have "find (\<lambda>addr. Contains (Subnet addr) (ip4 a)) (map route_address table) = map_option route_address
      (find (\<lambda>(net, n, host). drop_bit (32 - n) (ip4_word a) = drop_bit (32 - n) (ip4_word net)) table)"
    using assms(1,2)
    by (intro find_map_pred) (auto simp: route_address_def Contains_ip4 routes_ok_def)
  then show ?thesis
    unfolding GetServerAddress_def best_route_def assms(3)
    by (auto simp: route_address_def split: option.split list.split)
qed

text \<open>
  From the packet to the address a client is sent to. When a game server with a non-zero id
  announces a table of IPv4 networks in CIDR notation, it ends up in the registry under its id, and
  a client with an IPv4 address is routed to the host of the first network of the table that holds
  the address, i.e.\ agrees with it in the upper \<open>n\<close> bits; to the first host when there is none.
\<close>

theorem announced_routes:
  assumes "routes_ok table" and "length a = 4" and "arID authReq \<noteq> 0"
    and "arSubnets authReq = map (\<lambda>(net, n, host). cidr_text net n) table"
    and "arHosts authReq = map (\<lambda>(net, n, host). host) table"
  shows "\<exists>info. GetByID (snd (HandleAuthRequest parse6 now servers authReq)) (int (unat (arID authReq))) = Inr info
    \<and> IsOnline info \<and> GetServerAddress info (ip4 a) = best_route table a"
proof -
  have id: "\<not> uint (arID authReq) \<le> 0" using assms(3) by (simp add: unsigned_eq_0_iff)
  show ?thesis
    using GetServerAddress_routes [OF assms(1,2)] id
    by (simp add: HandleAuthRequest_def Register_def assms(4,5) add_addresses_routes [OF assms(1)] GetByID_def
        IsOnline_def Let_def)
qed

definition sample_routes :: "route list" where
  "sample_routes = [([10, 0, 0, 0], 8, lit ''10.0.0.1''), ([0, 0, 0, 0], 0, lit ''203.0.113.5'')]"

definition sample_auth :: AuthRequest where
  "sample_auth = \<lparr>arVersion = 14, arID = 1, arAcceptAlternate = True, arReserveHost = False, arPort = 7777,
     arMaxPlayers = 100, arHexID = [1], arSubnets = map (\<lambda>(net, n, host). cidr_text net n) sample_routes,
     arHosts = map (\<lambda>(net, n, host). host) sample_routes\<rparr>"

lemma announced_routes_witness:
  "\<exists>info. GetByID (snd (HandleAuthRequest (\<lambda>_. None) 0 [] sample_auth)) 1 = Inr info
    \<and> IsOnline info \<and> GetServerAddress info (ip4 [10, 1, 2, 3]) = lit ''10.0.0.1''"
proof -
  have "best_route sample_routes [10, 1, 2, 3] = lit ''10.0.0.1''"
    by (simp add: best_route_def sample_routes_def ip4_word_def le32_def)
  moreover have "routes_ok sample_routes" by (simp add: routes_ok_def sample_routes_def)
  ultimately show ?thesis
    using announced_routes [of sample_routes "[10, 1, 2, 3]" sample_auth "\<lambda>_. None" 0 "[]"]
    by (simp add: sample_auth_def)
qed

section \<open>The registry's invariant\<close>

definition registry_ok :: "registry \<Rightarrow> bool" where
  "registry_ok servers \<longleftrightarrow> map_ok servers \<and> (\<forall>(ident, info) \<in> set servers. InfoID info = ident \<and> 0 < ident)"

lemma registry_ok_lookup:
  "registry_ok servers \<longleftrightarrow> map_ok servers \<and> (\<forall>ident info. map_of servers ident = Some info \<longrightarrow> InfoID info = ident \<and> 0 < ident)"
  unfolding registry_ok_def using map_ok_lookup by fastforce

text \<open>
  Whatever is done to the registry of game servers, every server in it is stored once, under its
  own positive id: registration (by a game server's AuthRequest or directly), removal, and the updates
  of status and player count keep this.
\<close>

theorem registry_invariant:
  assumes "registry_ok servers"
  shows "registry_ok (snd (HandleAuthRequest parse6 now servers authReq))
    \<and> registry_ok (snd (Register now servers info))
    \<and> registry_ok (snd (RegisterGameServer now servers info))
    \<and> registry_ok (snd (Unregister servers ident))
    \<and> registry_ok (snd (UpdateStatus now servers ident status))
    \<and> registry_ok (snd (UpdatePlayerCount now servers ident current maxp))"
proof -
  have reg: "registry_ok (snd (Register now servers i))" for i
    using assms by (auto simp: Register_def registry_ok_lookup split: option.split)
  have "registry_ok (snd (HandleAuthRequest parse6 now servers authReq))"
    using reg by (auto simp: HandleAuthRequest_def Let_def split: prod.splits sum.splits) (metis snd_conv)+
  moreover have "registry_ok (snd (RegisterGameServer now servers info))"
    using reg assms by (auto simp: RegisterGameServer_def Let_def split: option.split)
  moreover have "registry_ok (snd (Unregister servers ident))"
    "registry_ok (snd (UpdateStatus now servers ident status))"
    "registry_ok (snd (UpdatePlayerCount now servers ident current maxp))"
    using assms by (auto simp: Unregister_def UpdateStatus_def UpdatePlayerCount_def registry_ok_lookup
        split: option.split)
  ultimately show ?thesis using reg by blast
qed

lemma registry_invariant_witness:
  "registry_ok (snd (HandleAuthRequest (\<lambda>_. None) 0 [] sample_auth))"
proof -
  have "registry_ok []" by (simp add: registry_ok_def)
  from registry_invariant [OF this] show ?thesis by blast
qed

section \<open>The character counts as a table\<close>

text \<open>
  What the nested maps mean: a table of one entry per account and server. No inner map is ever left
  empty by the operations that delete.
\<close>

definition counts_ok :: "char_counts \<Rightarrow> bool" where
  "counts_ok data \<longleftrightarrow> map_ok data \<and> (\<forall>account m. map_of data account = Some m \<longrightarrow> map_ok m \<and> m \<noteq> [])"

definition entry :: "char_counts \<Rightarrow> go_string \<Rightarrow> int \<Rightarrow> CharacterCountInfo option" where
  "entry data account serverID = (case map_of data account of None \<Rightarrow> None | Some m \<Rightarrow> map_of m serverID)"

lemma map_of_none_empty: "(\<And>k. map_of m k = None) \<Longrightarrow> m = []"
  by (cases m) (auto simp: split: if_splits, metis option.distinct(1))

text \<open>A loop over the accounts that rewrites each inner map and drops it when it is empty.\<close>

definition rewrite :: "((int, CharacterCountInfo) go_map \<Rightarrow> (int, CharacterCountInfo) go_map)
    \<Rightarrow> go_string \<Rightarrow> char_counts \<Rightarrow> char_counts" where
  "rewrite f account data =
     (let m = f (the (map_of data account)); data = AList.update account m data
      in if length m = 0 then AList.delete account data else data)"

lemma rewrite_lookup:
  "map_of (rewrite f account data) a =
     (if a = account then (if f (the (map_of data account)) = [] then None else Some (f (the (map_of data account))))
      else map_of data a)"
  by (auto simp: rewrite_def Let_def)

lemma rewrite_all:
  assumes "distinct accounts"
  shows "map_of (fold (rewrite f) accounts data) a =
     (if a \<in> set accounts then (if f (the (map_of data a)) = [] then None else Some (f (the (map_of data a))))
      else map_of data a)"
  using assms by (induction accounts arbitrary: data) (auto simp: rewrite_lookup)

lemma rewrite_map_ok: "map_ok data \<Longrightarrow> map_ok (fold (rewrite f) accounts data)"
  by (induction accounts arbitrary: data) (auto simp: rewrite_def Let_def)

lemma ClearServer_rewrite: "ClearServer data serverID = fold (rewrite (AList.delete serverID)) (map fst data) data"
  unfolding ClearServer_def rewrite_def Let_def by (rule refl)

lemma fold_cong_map:
  "(\<And>x. x \<in> set xs \<Longrightarrow> f x = g (h x)) \<Longrightarrow> fold f xs s = fold g (map h xs) s"
  by (induction xs arbitrary: s) auto

text \<open>The clean-up loop reads the inner map from the entry it visits, not from the map.\<close>

definition drop_expired :: "int \<Rightarrow> int \<Rightarrow> (int, CharacterCountInfo) go_map \<Rightarrow> (int, CharacterCountInfo) go_map" where
  "drop_expired now ttl m = fst (delete_where (\<lambda>_ countInfo. now - Timestamp countInfo > ttl) m)"

lemma CleanupExpired_lookup_loop:
  assumes "distinct (map fst entries)"
  shows "map_of (fold (\<lambda>(account, serverData) data.
       let m = fst (delete_where (\<lambda>_ countInfo. now - Timestamp countInfo > ttl) serverData);
           data = AList.update account m data
       in if length m = 0 then AList.delete account data else data) entries data) a =
     (case map_of entries a of None \<Rightarrow> map_of data a
      | Some m \<Rightarrow> if drop_expired now ttl m = [] then None else Some (drop_expired now ttl m))"
  using assms
proof (induction entries arbitrary: data)
  case (Cons e entries)
  obtain k m where e: "e = (k, m)" by fastforce
  from Cons.prems have "map_of entries k = None" by (auto simp: e map_of_eq_None_iff)
  then show ?case
    using Cons by (auto simp: e drop_expired_def Let_def split: option.split)
qed simp
lemma drop_expired_lookup:
  "map_ok m \<Longrightarrow> map_of (drop_expired now ttl m) s = (case map_of m s of None \<Rightarrow> None
     | Some c \<Rightarrow> if now - Timestamp c > ttl then None else Some c)"
  by (simp add: drop_expired_def delete_where_lookup)

lemma CleanupExpired_lookup:
  assumes "counts_ok data"
  shows "map_of (CleanupExpired now ttl data) a = (case map_of data a of None \<Rightarrow> None
     | Some m \<Rightarrow> if drop_expired now ttl m = [] then None else Some (drop_expired now ttl m))"
proof -
  have "distinct (map fst data)" using assms by (simp add: counts_ok_def map_ok_def)
  then show ?thesis
    unfolding CleanupExpired_def by (subst CleanupExpired_lookup_loop) (auto split: option.split)
qed

lemma CleanupExpired_map_ok: "map_ok data \<Longrightarrow> map_ok (CleanupExpired now ttl data)"
proof -
  have "map_ok d \<Longrightarrow> map_ok (fold (\<lambda>(account, serverData) data.
       let m = fst (delete_where (\<lambda>_ countInfo. now - Timestamp countInfo > ttl) serverData);
           data = AList.update account m data
       in if length m = 0 then AList.delete account data else data) es d)" for es d
    by (induction es arbitrary: d) (auto simp: Let_def)
  then show "map_ok data \<Longrightarrow> map_ok (CleanupExpired now ttl data)"
    unfolding CleanupExpired_def by blast
qed

lemma ClearServer_lookup:
  assumes "counts_ok data"
  shows "map_of (ClearServer data s) a = (case map_of data a of None \<Rightarrow> None
     | Some m \<Rightarrow> if AList.delete s m = [] then None else Some (AList.delete s m))"
proof -
  have "distinct (map fst data)" using assms by (simp add: counts_ok_def map_ok_def)
  moreover have "a \<in> set (map fst data) \<longleftrightarrow> map_of data a \<noteq> None"
    by (auto simp: map_of_eq_None_iff)
  ultimately show ?thesis
    unfolding ClearServer_rewrite by (auto simp only: rewrite_all split: option.split) auto
qed

lemma counts_ok_ops:
  assumes "counts_ok data"
  shows "counts_ok (SetCharacterCount now data a s n)" "counts_ok (ClearServer data s)"
    "counts_ok (ClearAccount data a)" "counts_ok (CleanupExpired now ttl data)"
proof -
  show "counts_ok (SetCharacterCount now data a s n)"
    using assms by (auto simp: counts_ok_def SetCharacterCount_def Let_def update_nonempty
        split: option.splits)
  show "counts_ok (ClearServer data s)"
    using assms rewrite_map_ok [of data]
    by (auto simp: counts_ok_def ClearServer_lookup [OF assms] split: option.splits if_splits)
      (simp add: ClearServer_rewrite)
  show "counts_ok (ClearAccount data a)"
    using assms by (auto simp: counts_ok_def ClearAccount_def split: if_splits)
  show "counts_ok (CleanupExpired now ttl data)"
    using assms CleanupExpired_map_ok [of data now ttl]
    by (auto simp: counts_ok_def CleanupExpired_lookup [OF assms] drop_expired_def delete_where_ok
        split: option.splits if_splits)
qed

text \<open>
  The nested maps of the character counts behave as one table with an entry for each account
  and server: a reply sets one entry, clearing a server or an account removes its entries and no
  other, and the clean-up removes exactly the entries older than the cache's lifetime; the maps stay
  well formed throughout.
\<close>

theorem character_counts_refinement:
  assumes "counts_ok data"
  shows "entry (HandleReplyCharacters now data reply s) = (\<lambda>x y.
      if x = rcAccount reply \<and> y = s then Some \<lparr>Count = rcCharacterCount reply, Timestamp = now\<rparr> else entry data x y)
    \<and> entry (ClearServer data s) = (\<lambda>x y. if y = s then None else entry data x y)
    \<and> entry (ClearAccount data a) = (\<lambda>x y. if x = a then None else entry data x y)
    \<and> entry (CleanupExpired now ttl data) = (\<lambda>x y. case entry data x y of None \<Rightarrow> None
        | Some c \<Rightarrow> if now - Timestamp c > ttl then None else Some c)
    \<and> counts_ok (HandleReplyCharacters now data reply s) \<and> counts_ok (ClearServer data s)
    \<and> counts_ok (ClearAccount data a) \<and> counts_ok (CleanupExpired now ttl data)"
proof -
  have empty: "(if m = [] then None else Some m) = None \<Longrightarrow> map_of m y = None" for m :: "(int, CharacterCountInfo) go_map" and y
    by (auto split: if_splits)
  have "entry (ClearServer data s) = (\<lambda>x y. if y = s then None else entry data x y)"
  proof (intro ext)
    fix x y
    show "entry (ClearServer data s) x y = (if y = s then None else entry data x y)"
    proof (cases "map_of data x")
      case (Some m)
      have "map_of (AList.delete s m) y = (if y = s then None else map_of m y)" by simp
      moreover from this have "AList.delete s m = [] \<Longrightarrow> y \<noteq> s \<Longrightarrow> map_of m y = None" by simp
      ultimately show ?thesis
        using Some by (auto simp: entry_def ClearServer_lookup [OF assms] simp del: map_of_delete split: if_splits)
    qed (simp add: entry_def ClearServer_lookup [OF assms])
  qed
  moreover have "entry (CleanupExpired now ttl data) = (\<lambda>x y. case entry data x y of None \<Rightarrow> None
        | Some c \<Rightarrow> if now - Timestamp c > ttl then None else Some c)"
  proof (intro ext)
    fix x y
    show "entry (CleanupExpired now ttl data) x y = (case entry data x y of None \<Rightarrow> None
        | Some c \<Rightarrow> if now - Timestamp c > ttl then None else Some c)"
    proof (cases "map_of data x")
      case (Some m)
      with assms have "map_ok m" by (auto simp: counts_ok_def)
      note drop_expired_lookup [OF this, of now ttl y]
      with Some show ?thesis
        by (auto simp: entry_def CleanupExpired_lookup [OF assms] split: if_splits)
    qed (simp add: entry_def CleanupExpired_lookup [OF assms])
  qed
  moreover have "entry (HandleReplyCharacters now data reply s) = (\<lambda>x y.
      if x = rcAccount reply \<and> y = s then Some \<lparr>Count = rcCharacterCount reply, Timestamp = now\<rparr> else entry data x y)"
    by (auto simp: fun_eq_iff entry_def HandleReplyCharacters_def SetCharacterCount_def Let_def split: option.split)
  moreover have "entry (ClearAccount data a) = (\<lambda>x y. if x = a then None else entry data x y)"
    by (auto simp: fun_eq_iff entry_def ClearAccount_def)
  ultimately show ?thesis
    using counts_ok_ops [OF assms] by (simp add: HandleReplyCharacters_def)
qed

lemma character_counts_refinement_witness:
  "counts_ok (ClearServer [(lit ''bob'', [(1, \<lparr>Count = 2, Timestamp = 0\<rparr>)])] 1)"
proof -
  have "counts_ok [(lit ''bob'', [(1, \<lparr>Count = 2, Timestamp = 0\<rparr>)])]"
    by (simp add: counts_ok_def map_ok_def)
  from character_counts_refinement [OF this] show ?thesis by blast
qed

end
