(* ===== verification/ServerList.thy ===== *)
theory ServerList
  imports LoginRegistry
begin

text \<open>
  The ServerList packet (\<open>packets/outclient/serverlist.go\<close>): one entry of 21 bytes for each server,
  with the address this client should connect to, and the character counts. \<open>lookup\<close> is the host-name
  resolution of the operating system.
\<close>

type_synonym resolver = "go_string \<Rightarrow> ip list"

record ServerListPacket =
  slServers :: "GameServerInfo list"
  slLastServer :: int
  slClientAddr :: go_string
  slAccessLevel :: int
  slCharacterCounts :: "(int, int) go_map"

definition NewServerList :: "GameServerInfo list \<Rightarrow> int \<Rightarrow> go_string \<Rightarrow> int \<Rightarrow> ServerListPacket" where
  "NewServerList servers lastServer clientAddr accessLevel =
     \<lparr>slServers = servers, slLastServer = lastServer, slClientAddr = clientAddr,
      slAccessLevel = accessLevel, slCharacterCounts = []\<rparr>"

definition NewServerListWithCharCounts :: "GameServerInfo list \<Rightarrow> int \<Rightarrow> go_string \<Rightarrow> int
    \<Rightarrow> (int, int) go_map \<Rightarrow> ServerListPacket" where
  "NewServerListWithCharCounts servers lastServer clientAddr accessLevel characterCounts =
     \<lparr>slServers = servers, slLastServer = lastServer, slClientAddr = clientAddr,
      slAccessLevel = accessLevel, slCharacterCounts = characterCounts\<rparr>"

definition localhost :: "byte list" where
  "localhost = [127, 0, 0, 1]"

definition getServerIP :: "ip6_parser \<Rightarrow> resolver \<Rightarrow> ServerListPacket \<Rightarrow> GameServerInfo \<Rightarrow> byte list" where
  "getServerIP parse6 lookup p server =
     (let clientIP = (case ParseIP parse6 (slClientAddr p) of
            Some a \<Rightarrow> Some a
          | None \<Rightarrow> (case SplitHost (slClientAddr p) of
                      Some host \<Rightarrow> ParseIP parse6 host
                    | None \<Rightarrow> None));
          selectedIP = (case clientIP of Some a \<Rightarrow> GetServerAddress server a | None \<Rightarrow> []);
          selectedIP = (if selectedIP = [] then GetExternalHost server else selectedIP)
      in if selectedIP = [] then localhost
         else let addr = (case ParseIP parse6 selectedIP of
                    Some a \<Rightarrow> Some a
                  | None \<Rightarrow> (case lookup selectedIP of a # _ \<Rightarrow> Some a | [] \<Rightarrow> None))
              in case addr of
                   None \<Rightarrow> localhost
                 | Some a \<Rightarrow> (case To4 a of Some v4 \<Rightarrow> v4 | None \<Rightarrow> localhost))"

definition WriteFlagByte :: "bool \<Rightarrow> byte list \<Rightarrow> byte list" where
  "WriteFlagByte f b = (if f then WriteByte 0x01 b else WriteByte 0x00 b)"

definition write_server :: "ip6_parser \<Rightarrow> resolver \<Rightarrow> ServerListPacket \<Rightarrow> GameServerInfo \<Rightarrow> byte list \<Rightarrow> byte list" where
  "write_server parse6 lookup p server b =
     (let b = WriteUInt8 (of_int (InfoID server)) b;
          addr = getServerIP parse6 lookup p server;
          b = WriteByte (addr ! 0) b;
          b = WriteByte (addr ! 1) b;
          b = WriteByte (addr ! 2) b;
          b = WriteByte (addr ! 3) b;
          b = WriteUInt32 (of_int (Port server)) b;
          b = WriteUInt8 (of_int (AgeLimit server)) b;
          b = WriteFlagByte (PvP server) b;
          b = WriteUInt16 (of_int (CurrentPlayers server)) b;
          b = WriteUInt16 (of_int (MaxPlayers server)) b;
          b = WriteFlagByte (IsOnline server \<and> IsVisible server (slAccessLevel p)) b;
          b = WriteUInt32 (of_int (ServerType server)) b;
          b = WriteFlagByte (ShowBrackets server) b
      in b)"

definition writeCharacterCounts :: "ServerListPacket \<Rightarrow> byte list \<Rightarrow> byte list" where
  "writeCharacterCounts p b =
     (let serverCount = fold (\<lambda>server n. if map_of (slCharacterCounts p) (InfoID server) \<noteq> None then n + 1 else n)
            (slServers p) (0 :: int);
          b = WriteUInt8 (of_int serverCount) b
      in fold (\<lambda>server b.
           case map_of (slCharacterCounts p) (InfoID server) of
             Some charCount \<Rightarrow>
               (let b = WriteUInt8 (of_int (InfoID server)) b; b = WriteUInt8 (of_int charCount) b in b)
           | None \<Rightarrow> b) (slServers p) b)"

definition ServerList_GetData :: "ip6_parser \<Rightarrow> resolver \<Rightarrow> ServerListPacket \<Rightarrow> byte list" where
  "ServerList_GetData parse6 lookup p =
     (let b = WriteByte 0x04 [];
          b = WriteUInt8 (of_nat (length (slServers p))) b;
          b = WriteUInt8 (of_int (slLastServer p)) b;
          b = fold (write_server parse6 lookup p) (slServers p) b;
          b = WriteUInt16 0x00 b
      in writeCharacterCounts p b)"

section \<open>Reading the packet back\<close>

text \<open>
  The client's view of the packet: reading it back, field by field, with the reads of
  \<open>LoginWire\<close>. One row per server, then the rows of the counts.
\<close>

record row =
  RowID :: byte
  RowIP :: "byte list"
  RowPort :: u32
  RowPlayers :: u16
  RowMax :: u16
  RowUp :: bool

fun read_rows :: "nat \<Rightarrow> row list rd" where
  "read_rows 0 r = ([], r)"
| "read_rows (Suc n) r =
     (case ReadUInt8 r of (i, r) \<Rightarrow>
      case ReadBytes 4 r of (addr, r) \<Rightarrow>
      case ReadUInt32 r of (port, r) \<Rightarrow>
      case ReadUInt8 r of (age, r) \<Rightarrow>
      case ReadUInt8 r of (pvp, r) \<Rightarrow>
      case ReadUInt16 r of (cur, r) \<Rightarrow>
      case ReadUInt16 r of (mx, r) \<Rightarrow>
      case ReadUInt8 r of (up, r) \<Rightarrow>
      case ReadUInt32 r of (typ, r) \<Rightarrow>
      case ReadUInt8 r of (brackets, r) \<Rightarrow>
      case read_rows n r of (rows, r) \<Rightarrow>
        (\<lparr>RowID = i, RowIP = addr, RowPort = port, RowPlayers = cur, RowMax = mx, RowUp = (up \<noteq> 0)\<rparr> # rows, r))"

fun read_counts :: "nat \<Rightarrow> (byte \<times> byte) list rd" where
  "read_counts 0 r = ([], r)"
| "read_counts (Suc n) r =
     (case ReadUInt8 r of (i, r) \<Rightarrow> case ReadUInt8 r of (c, r) \<Rightarrow>
      case read_counts n r of (cs, r) \<Rightarrow> ((i, c) # cs, r))"

definition read_server_list :: "byte list \<Rightarrow> byte \<times> byte \<times> row list \<times> (byte \<times> byte) list" where
  "read_server_list data =
     (case ReadUInt8 data of (opcode, r) \<Rightarrow>
      case ReadUInt8 r of (n, r) \<Rightarrow>
      case ReadUInt8 r of (lastServer, r) \<Rightarrow>
      case read_rows (unat n) r of (rows, r) \<Rightarrow>
      case ReadUInt16 r of (unknown, r) \<Rightarrow>
      case ReadUInt8 r of (k, r) \<Rightarrow>
      case read_counts (unat k) r of (cs, r) \<Rightarrow> (opcode, lastServer, rows, cs))"

definition row_of :: "ip6_parser \<Rightarrow> resolver \<Rightarrow> ServerListPacket \<Rightarrow> GameServerInfo \<Rightarrow> row" where
  "row_of parse6 lookup p s =
     \<lparr>RowID = of_int (InfoID s), RowIP = getServerIP parse6 lookup p s, RowPort = of_int (Port s),
      RowPlayers = of_int (CurrentPlayers s), RowMax = of_int (MaxPlayers s),
      RowUp = (IsOnline s \<and> IsVisible s (slAccessLevel p))\<rparr>"

definition counts_of :: "ServerListPacket \<Rightarrow> (byte \<times> byte) list" where
  "counts_of p = List.map_filter (\<lambda>s. map_option (\<lambda>c. (of_int (InfoID s), of_int c))
     (map_of (slCharacterCounts p) (InfoID s))) (slServers p)"

lemma ReadUInt8_byte [simp]: "ReadUInt8 (v # rest) = (v, rest)"
  by (simp add: ReadUInt8_def)

lemma length_To4: "To4 a = Some v \<Longrightarrow> length v = 4"
  by (auto simp: To4_def split: if_splits)

lemma length_getServerIP: "length (getServerIP parse6 lookup p s) = 4"
  using length_To4 by (auto simp: getServerIP_def Let_def localhost_def split: option.split list.split)

definition server_bytes :: "ip6_parser \<Rightarrow> resolver \<Rightarrow> ServerListPacket \<Rightarrow> GameServerInfo \<Rightarrow> byte list" where
  "server_bytes parse6 lookup p s =
     [of_int (InfoID s)] @ getServerIP parse6 lookup p s @ bytes32 (of_int (Port s))
     @ [of_int (AgeLimit s), if PvP s then 1 else 0] @ bytes16 (of_int (CurrentPlayers s))
     @ bytes16 (of_int (MaxPlayers s)) @ [if IsOnline s \<and> IsVisible s (slAccessLevel p) then 1 else 0]
     @ bytes32 (of_int (ServerType s)) @ [if ShowBrackets s then 1 else 0]"

lemma write_server_bytes: "write_server parse6 lookup p s b = b @ server_bytes parse6 lookup p s"
proof -
  obtain x y z w where "getServerIP parse6 lookup p s = [x, y, z, w]"
    using length_getServerIP [of parse6 lookup p s] by (auto simp: numeral_eq_Suc length_Suc_conv)
  then show ?thesis by (simp add: write_server_def server_bytes_def WriteFlagByte_def Let_def)
qed

lemma length_server_bytes: "length (server_bytes parse6 lookup p s) = 21"
  by (simp add: server_bytes_def length_getServerIP)

lemma fold_write_server:
  "fold (write_server parse6 lookup p) ss b = b @ concat (map (server_bytes parse6 lookup p) ss)"
  by (induction ss arbitrary: b) (auto simp: write_server_bytes)

lemma read_rows_bytes:
  "read_rows (length ss) (concat (map (server_bytes parse6 lookup p) ss) @ rest)
    = (map (row_of parse6 lookup p) ss, rest)"
proof (induction ss)
  case (Cons s ss)
  have "ReadBytes 4 (getServerIP parse6 lookup p s @ tl) = (getServerIP parse6 lookup p s, tl)" for tl
    by (rule ReadBytes_at) (rule length_getServerIP)
  with Cons show ?case by (simp add: server_bytes_def row_of_def)
qed simp

lemma writeCharacterCounts_bytes:
  "writeCharacterCounts p b = b @ [of_nat (length (counts_of p))] @ concat (map (\<lambda>(i, c). [i, c]) (counts_of p))"
proof -
  let ?f = "\<lambda>s. map_of (slCharacterCounts p) (InfoID s)"
  have n: "fold (\<lambda>s n. if ?f s \<noteq> None then n + 1 else n) ss (k :: int)
      = k + int (length (List.map_filter (\<lambda>s. map_option (\<lambda>c. (of_int (InfoID s) :: byte, of_int c :: byte)) (?f s)) ss))" for ss k
    by (induction ss arbitrary: k) (auto simp: map_filter_simps split: option.split)
  have c: "fold (\<lambda>s b. case ?f s of Some charCount \<Rightarrow> (b @ [of_int (InfoID s)]) @ [of_int charCount] | None \<Rightarrow> b) ss b
      = b @ concat (map (\<lambda>(i, c). [i, c])
          (List.map_filter (\<lambda>s. map_option (\<lambda>c. (of_int (InfoID s), of_int c)) (?f s)) ss))" for ss and b :: "byte list"
    by (induction ss arbitrary: b) (auto simp: map_filter_simps split: option.split)
  show ?thesis
    unfolding writeCharacterCounts_def Let_def buffer_writes n c counts_of_def by simp
qed

lemma read_counts_bytes: "read_counts (length cs) (concat (map (\<lambda>(i, c). [i, c]) cs) @ rest) = (cs, rest)"
  by (induction cs) auto

lemma length_counts_of: "length (counts_of p) \<le> length (slServers p)"
proof -
  have "length (List.map_filter f xs) \<le> length xs" for f :: "GameServerInfo \<Rightarrow> (byte \<times> byte) option" and xs
    by (induction xs) (auto simp: map_filter_simps split: option.split)
  then show ?thesis unfolding counts_of_def by blast
qed

text \<open>
  A client that reads the ServerList packet field by field gets, for up to 255 servers, one row
  per server, in order, with the address chosen for this client, the port, the player numbers and
  whether the server is up and open to it, then the counts of exactly the servers that have one; and the
  packet is 21 bytes per server and 2 per count, plus 6.
\<close>

theorem server_list_roundtrip:
  assumes "length (slServers p) \<le> 255"
  shows "read_server_list (ServerList_GetData parse6 lookup p)
      = (4, of_int (slLastServer p), map (row_of parse6 lookup p) (slServers p), counts_of p)
    \<and> length (ServerList_GetData parse6 lookup p) = 6 + 21 * length (slServers p) + 2 * length (counts_of p)"
proof
  have bytes: "ServerList_GetData parse6 lookup p = [4, of_nat (length (slServers p)), of_int (slLastServer p)]
      @ concat (map (server_bytes parse6 lookup p) (slServers p)) @ bytes16 0
      @ [of_nat (length (counts_of p))] @ concat (map (\<lambda>(i, c). [i, c]) (counts_of p))"
    by (simp add: ServerList_GetData_def fold_write_server writeCharacterCounts_bytes)
  have u: "unat (of_nat k :: byte) = k" if "k \<le> 255" for k
    using that by (simp add: unat_of_nat take_bit_nat_eq_self)
  have n: "unat (of_nat (length (slServers p)) :: byte) = length (slServers p)"
    "unat (of_nat (length (counts_of p)) :: byte) = length (counts_of p)"
    using u assms length_counts_of [of p] by simp_all
  show "read_server_list (ServerList_GetData parse6 lookup p)
      = (4, of_int (slLastServer p), map (row_of parse6 lookup p) (slServers p), counts_of p)"
    unfolding bytes read_server_list_def
    using read_counts_bytes [of "counts_of p" "[]"]
    by (simp add: n read_rows_bytes)
  show "length (ServerList_GetData parse6 lookup p) = 6 + 21 * length (slServers p) + 2 * length (counts_of p)"
    unfolding bytes
    by (simp add: length_concat comp_def length_server_bytes sum_list_triv case_prod_unfold)
qed

definition sample_list :: ServerListPacket where
  "sample_list = NewServerListWithCharCounts
     [\<lparr>InfoID = 1, Name = [], Port = 7777, Status = ServerStatusOnline, CurrentPlayers = 3, MaxPlayers = 100,
       PvP = True, AgeLimit = 0, ServerType = 1, ShowBrackets = False, LastUpdate = 0, Addresses = []\<rparr>]
     1 (lit ''10.0.0.9:50123'') 0 [(1, 2)]"

lemma server_list_roundtrip_witness:
  "length (ServerList_GetData (\<lambda>_. None) (\<lambda>_. []) sample_list) = 29"
proof -
  have "length (slServers sample_list) \<le> 255"
    by (simp add: sample_list_def NewServerListWithCharCounts_def)
  from server_list_roundtrip [OF this] show ?thesis
    by (simp add: sample_list_def NewServerListWithCharCounts_def counts_of_def map_filter_simps)
qed

end
