(* ===== verification/Transport.thy ===== *)
theory Transport
  imports LoginCrypt Blowfish LoginWire L2Packet
begin

text \<open>
  The framing of packets on the wire: \<open>loginserver/transport/client.go\<close> (login server and game
  client), \<open>loginserver/transport/gameserver.go\<close> and \<open>gameserver/transport/loginserver.go\<close> (the two
  ends of the link between the servers). A frame is a 16-bit length, then the Blowfish-encrypted
  payload with its checksum.

  A socket is the list of chunks in which the network will deliver the bytes: a read takes at most
  the size of its buffer from the first chunk; no chunk left is the end of the stream. A function that
  sends returns the bytes it hands to \<open>Write\<close>.
\<close>

section \<open>The socket\<close>

type_synonym sock = "byte list list"

definition EOF :: go_error where
  "EOF = ''EOF''"

definition ErrClosed :: go_error where
  "ErrClosed = ''use of closed network connection''"

definition sock_read :: "nat \<Rightarrow> sock \<Rightarrow> (go_error + byte list) \<times> sock" where
  "sock_read n s =
     (if n = 0 then (Inr [], s)
      else case s of
             [] \<Rightarrow> (Inl EOF, [])
           | c # cs \<Rightarrow> if length c \<le> n then (Inr c, cs) else (Inr (take n c), drop n c # cs))"

section \<open>Sealing a payload\<close>

text \<open>Four bytes for the checksum, zeros up to a whole number of blocks.\<close>

definition pad_block :: "byte list \<Rightarrow> byte list" where
  "pad_block data =
     (let missing = length data mod 8
      in if missing \<noteq> 0 then data @ replicate (8 - missing) 0 else data)"

definition seal :: "byte list \<Rightarrow> byte list option" where
  "seal data = AppendChecksum (pad_block (data @ [0x00, 0x00, 0x00, 0x00]))"

definition frame :: "byte list \<Rightarrow> byte list" where
  "frame data = WriteBytes data (WriteUInt16 (of_nat (length data + 2)) [])"

section \<open>The login server and a game client\<close>

definition Client_Send :: "byte list \<Rightarrow> bool \<Rightarrow> bool \<Rightarrow> byte list \<Rightarrow> (go_error + byte list) option" where
  "Client_Send blowfishKey doChecksum doBlowfish data =
     do {
       data \<leftarrow> (if doChecksum then seal data else Some data);
       res \<leftarrow> (if doBlowfish then BlowfishEncrypt data blowfishKey else ok data);
       case res of Inl e \<Rightarrow> err e | Inr data \<Rightarrow> ok (frame data)
     }"

text \<open>\<open>SendStatic\<close>, for the Init packet: the XOR pass under a random key instead of the checksum.\<close>

definition SendStatic :: "u32 \<Rightarrow> byte list \<Rightarrow> (go_error + byte list) option" where
  "SendStatic xorKey data =
     do {
       let data = pad_block (data @ [0x00, 0x00, 0x00, 0x00] @ [0x00, 0x00, 0x00, 0x00]);
       data \<leftarrow> EncXORPass data 0 (int (length data)) xorKey;
       res \<leftarrow> BlowfishEncryptStatic data;
       case res of Inl e \<Rightarrow> err e | Inr data \<Rightarrow> ok (frame data)
     }"

definition header_error :: go_error where
  "header_error = ''an error occured while reading the packet header''"

definition data_error :: go_error where
  "data_error = ''an error occured while reading the packet data''"

definition packet_size :: "byte list \<Rightarrow> int" where
  "packet_size header = int (unat (header ! 0)) + int (unat (header ! 1)) * 256"

text \<open>\<open>make([]byte, size-2)\<close> panics on a negative length.\<close>

definition Client_Receive :: "byte list \<Rightarrow> sock \<Rightarrow> ((go_error + byte \<times> byte list) \<times> sock) option" where
  "Client_Receive blowfishKey s =
     (case sock_read 2 s of
        (Inl e, s) \<Rightarrow> Some (Inl (if e = EOF then ErrClosed else header_error), s)
      | (Inr header, s) \<Rightarrow>
          if length header \<noteq> 2 then Some (Inl header_error, s)
          else let size = packet_size header in
            if size - 2 < 0 then None
            else (case sock_read (nat (size - 2)) s of
                    (Inl e, s) \<Rightarrow> Some (Inl data_error, s)
                  | (Inr data, s) \<Rightarrow>
                      if int (length data) \<noteq> size - 2 then Some (Inl data_error, s)
                      else do {
                        res \<leftarrow> BlowfishDecrypt data blowfishKey;
                        case res of
                          Inl e \<Rightarrow> Some (Inl ''An error occured while decrypting the packet data.'', s)
                        | Inr data \<Rightarrow> do {
                            checksumValid \<leftarrow> VerifyChecksum data;
                            checksumValid \<leftarrow> (if checksumValid then Some True else VerifyChecksumClient data);
                            if \<not> checksumValid then Some (Inl ''packet checksum verification failed'', s)
                            else do {
                              opcode \<leftarrow> go_get data 0;
                              data \<leftarrow> go_slice data 1 (int (length data));
                              Some (Inr (opcode, data), s)
                            }
                          }
                      }))"

section \<open>The login server's end of a game server connection\<close>

text \<open>\<open>key\<close> is \<open>DynamicBlowfishKey\<close>, \<open>None\<close> while it is nil.\<close>

definition GameServer_Send :: "byte list option \<Rightarrow> byte list \<Rightarrow> (go_error + byte list) option" where
  "GameServer_Send key data =
     do {
       data \<leftarrow> seal data;
       res \<leftarrow> (case key of Some k \<Rightarrow> BlowfishEncrypt data k | None \<Rightarrow> BlowfishEncryptGameServer data);
       case res of
         Inl e \<Rightarrow> err (''error encrypting packet: '' @ e)
       | Inr data \<Rightarrow> ok (frame data)
     }"

definition GameServer_Receive :: "byte list option \<Rightarrow> sock \<Rightarrow> ((go_error + byte \<times> byte list) \<times> sock) option" where
  "GameServer_Receive key s =
     (case sock_read 2 s of
        (Inl e, s) \<Rightarrow> Some (Inl (if e = EOF then ErrClosed else ''error reading packet header: '' @ e), s)
      | (Inr header, s) \<Rightarrow>
          if length header \<noteq> 2 then Some (Inl ''incomplete packet header'', s)
          else let size = packet_size header in
            if size < 2 then Some (Inl ''invalid packet size'', s)
            else (case sock_read (nat (size - 2)) s of
                    (Inl e, s) \<Rightarrow> Some (Inl (''error reading packet data: '' @ e), s)
                  | (Inr data, s) \<Rightarrow>
                      if int (length data) \<noteq> size - 2
                      then Some (Inl (''incomplete packet data: expected '' @ format_int (size - 2)
                             @ '', got '' @ format_int (int (length data))), s)
                      else do {
                        res \<leftarrow> (case key of Some k \<Rightarrow> BlowfishDecrypt data k
                                | None \<Rightarrow> BlowfishDecryptGameServer data);
                        case res of
                          Inl e \<Rightarrow> Some (Inl (''error decrypting packet: '' @ e), s)
                        | Inr data \<Rightarrow> do {
                            valid \<leftarrow> VerifyChecksum data;
                            if \<not> valid then Some (Inl ''gameserver packet checksum verification failed'', s)
                            else if length data = 0 then Some (Inl ''empty packet data'', s)
                            else do {
                              opcode \<leftarrow> go_get data 0;
                              data \<leftarrow> go_slice data 1 (int (length data));
                              Some (Inr (opcode, data), s)
                            }
                          }
                      }))"

section \<open>The game server's end\<close>

record LoginServerConnection =
  blowfishKey :: "byte list"
  useNewKey :: bool
  connected :: bool

definition NewLoginServerConnection :: LoginServerConnection where
  "NewLoginServerConnection = \<lparr>blowfishKey = GameServerBlowfishKey, useNewKey = False, connected = True\<rparr>"

definition SetBlowfishKey :: "byte list \<Rightarrow> LoginServerConnection \<Rightarrow> LoginServerConnection" where
  "SetBlowfishKey key lsc = lsc\<lparr>blowfishKey := key, useNewKey := True\<rparr>"

definition LoginServer_Send :: "LoginServerConnection \<Rightarrow> byte list \<Rightarrow> (go_error + byte list) option" where
  "LoginServer_Send lsc data =
     (if \<not> connected lsc then err ''connection closed''
      else do {
        data \<leftarrow> seal data;
        res \<leftarrow> (if useNewKey lsc then BlowfishEncrypt data (blowfishKey lsc) else BlowfishEncryptGameServer data);
        case res of
          Inl e \<Rightarrow> err (''error encrypting packet: '' @ e)
        | Inr data \<Rightarrow> ok (WriteB data (WriteH (of_nat (length data + 2)) NewWriter))
      })"

text \<open>\<open>for totalRead < n { ... }\<close>: read until the buffer is full.\<close>

function read_full :: "nat \<Rightarrow> byte list \<Rightarrow> sock \<Rightarrow> (go_error + byte list) \<times> sock" where
  "read_full wanted acc s =
     (if length acc < wanted
      then (case sock_read (wanted - length acc) s of
              (Inl e, s) \<Rightarrow> (Inl e, s)
            | (Inr bs, s) \<Rightarrow> read_full wanted (acc @ bs) s)
      else (Inr acc, s))"
  by pat_completeness auto
termination
  by (relation "measures [\<lambda>(wanted, acc, s). length s, \<lambda>(wanted, acc, s). wanted - length acc]")
    (auto simp: sock_read_def split: list.splits if_splits)

declare read_full.simps [simp del]

definition LoginServer_Receive :: "LoginServerConnection \<Rightarrow> sock
    \<Rightarrow> ((go_error + byte \<times> byte list) \<times> LoginServerConnection \<times> sock) option" where
  "LoginServer_Receive lsc s =
     (if \<not> connected lsc then Some (Inl ''connection closed'', lsc, s)
      else case read_full 2 [] s of
        (Inl e, s) \<Rightarrow> Some (Inl (''failed to read packet length: '' @ e), lsc\<lparr>connected := False\<rparr>, s)
      | (Inr lengthBytes, s) \<Rightarrow>
          let totalPacketLength = le16 (lengthBytes ! 0) (lengthBytes ! 1) in
          if totalPacketLength < 7
          then Some (Inl (''packet too short: '' @ itoa (unat totalPacketLength) @ '' bytes''), lsc, s)
          else let dataLength = totalPacketLength - 2 in
            (case read_full (unat dataLength) [] s of
               (Inl e, s) \<Rightarrow> Some (Inl (''failed to read packet data: '' @ e), lsc\<lparr>connected := False\<rparr>, s)
             | (Inr packetData, s) \<Rightarrow> do {
                 res \<leftarrow> BlowfishDecrypt packetData (blowfishKey lsc);
                 case res of
                   Inl e \<Rightarrow> Some (Inl (''blowfish decryption failed: '' @ e), lsc, s)
                 | Inr decrypted \<Rightarrow> do {
                     valid \<leftarrow> VerifyChecksum decrypted;
                     if \<not> valid then Some (Inl ''checksum verification failed'', lsc, s)
                     else do {
                       decrypted \<leftarrow> go_slice decrypted 0 (int (length decrypted) - 4);
                       if length decrypted < 1 then Some (Inl ''decrypted packet too short'', lsc, s)
                       else do {
                         opcode \<leftarrow> go_get decrypted 0;
                         payload \<leftarrow> go_slice decrypted 1 (int (length decrypted));
                         Some (Inr (opcode, payload), lsc, s)
                       }
                     }
                   }
               }))"

section \<open>A sealed payload\<close>

definition block_zeros :: "byte list \<Rightarrow> nat" where
  "block_zeros data = (8 - (length data + 4) mod 8) mod 8"

lemma four_zero_bytes: "[0, 0, 0, 0 :: byte] = replicate 4 0"
  by (simp add: numeral_eq_Suc)

lemma pad_block_eq: "pad_block (data @ [0, 0, 0, 0]) = data @ replicate (block_zeros data) 0 @ [0, 0, 0, 0]"
proof (cases "(length data + 4) mod 8 = 0")
  case True
  then have "block_zeros data = 0" unfolding block_zeros_def by (simp only: diff_zero mod_self)
  with True show ?thesis by (simp add: pad_block_def Let_def add.commute)
next
  case False
  have "[0, 0, 0, 0 :: byte] @ replicate n 0 = replicate n 0 @ [0, 0, 0, 0]" for n
    unfolding four_zero_bytes by (simp only: replicate_add [symmetric] add.commute)
  with False show ?thesis by (simp add: pad_block_def block_zeros_def Let_def add.commute [of 4])
qed

lemma round_up: "8 dvd n + (8 - n mod 8) mod 8" for n :: nat
proof (cases "n mod 8 = 0")
  case False
  have "n mod 8 < 8" by simp
  with False have "(8 - n mod 8) mod 8 = 8 - n mod 8" by simp
  moreover have "n + (8 - n mod 8) = 8 * (n div 8 + 1)"
    using mult_div_mod_eq [of 8 n] \<open>n mod 8 < 8\<close> unfolding distrib_left by arith
  ultimately show ?thesis by (metis dvd_triv_left)
qed (simp add: mod_eq_0_iff_dvd)

lemma sealed_length: "8 dvd length data + 4 + block_zeros data"
  unfolding block_zeros_def by (rule round_up)

text \<open>Sealing keeps the payload, adds zeros to a whole block and a checksum that verifies.\<close>

lemma seal_ok:
  assumes "data \<noteq> []"
  obtains c where "seal data = Some (data @ replicate (block_zeros data) 0 @ c)" "length c = 4"
    "VerifyChecksum (data @ replicate (block_zeros data) 0 @ c) = Some True"
proof -
  let ?k = "data @ replicate (block_zeros data) 0"
  obtain q where "length data + 4 + block_zeros data = 8 * q" using sealed_length [of data] by (rule dvdE)
  then have "length ?k = 4 * (2 * q - 1)" by simp
  then obtain ws where ws: "?k = bytes_of ws" by (rule bytes_of_words)
  have "ws \<noteq> []" using ws assms by auto
  show thesis
  proof (rule that)
    have "pad_block (data @ [0, 0, 0, 0]) = bytes_of (ws @ [0])"
      using ws by (simp add: pad_block_eq zero_word)
    then show "seal data = Some (data @ replicate (block_zeros data) 0 @ bytes32 (xor_sum ws))"
      using ws by (simp only: seal_def AppendChecksum_words) simp
    show "length (bytes32 (xor_sum ws)) = 4" by simp
    show "VerifyChecksum (data @ replicate (block_zeros data) 0 @ bytes32 (xor_sum ws)) = Some True"
      unfolding append_assoc [symmetric] ws
      using VerifyChecksum_words [OF \<open>ws \<noteq> []\<close>, of "xor_sum ws"] by simp
  qed
qed

section \<open>Reading a frame\<close>

lemma sock_read_piece:
  assumes "0 < n" and "concat s = bs @ rest" and "length bs = n"
  obtains p bs' s' where "sock_read n s = (Inr p, s')" "bs = p @ bs'" "concat s' = bs' @ rest"
proof -
  obtain c cs where s: "s = c # cs" using assms by (cases s) auto
  have eq: "c @ concat cs = bs @ rest" using assms(2) s by simp
  show thesis
  proof (cases "length c \<le> n")
    case True
    have "take (length c) (bs @ rest) = c" "drop (length c) (bs @ rest) = concat cs"
      unfolding eq [symmetric] by simp_all
    with True assms(3) have c: "take (length c) bs = c" "concat cs = drop (length c) bs @ rest"
      by simp_all
    have "bs = c @ drop (length c) bs"
      using append_take_drop_id [of "length c" bs] unfolding c(1) by (rule sym)
    note this c(2)
    with True assms(1) show thesis using that [of c cs "drop (length c) bs"] by (simp add: sock_read_def s)
  next
    case False
    have "take n (c @ concat cs) = bs" "drop n (c @ concat cs) = rest"
      unfolding eq using assms(3) by simp_all
    with False have "take n c = bs" "drop n c @ concat cs = rest" by simp_all
    with False assms(1) show thesis using that [of bs "drop n c # cs" "[]"] by (simp add: sock_read_def s)
  qed
qed

text \<open>However the network cuts the stream, the loop gets the bytes it asks for.\<close>

lemma read_full_concat:
  assumes "concat s = bs @ rest" and "length acc + length bs = n"
  shows "\<exists>s'. read_full n acc s = (Inr (acc @ bs), s') \<and> concat s' = rest"
  using assms
proof (induction n acc s arbitrary: bs rule: read_full.induct)
  case (1 n acc s)
  show ?case
  proof (cases "bs = []")
    case True
    with 1(2,3) show ?thesis by (subst read_full.simps) simp
  next
    case False
    with 1(3) have less: "length acc < n" by auto
    with 1(3) have "0 < n - length acc" "length bs = n - length acc" by auto
    then obtain p bs' s' where rd: "sock_read (n - length acc) s = (Inr p, s')" "bs = p @ bs'" "concat s' = bs' @ rest"
      using sock_read_piece [OF _ 1(2)] by metis
    have "\<exists>t. read_full n (acc @ p) s' = (Inr ((acc @ p) @ bs'), t) \<and> concat t = rest"
      using 1(1) [OF less rd(1) [symmetric]] rd(2,3) 1(3) by auto
    then show ?thesis using less rd by (subst read_full.simps) simp
  qed
qed

lemma GameServerBlowfishKey_ok: "key_ok GameServerBlowfishKey"
  by (simp add: key_ok_def GameServerBlowfishKey_def)

lemma sealed_frame:
  assumes "data \<noteq> []" and "key_ok k" and "length data \<le> 65000"
  obtains c enc where "seal data = Some (data @ replicate (block_zeros data) 0 @ c)"
    "BlowfishEncrypt (data @ replicate (block_zeros data) 0 @ c) k = ok enc"
    "BlowfishDecrypt enc k = ok (data @ replicate (block_zeros data) 0 @ c)"
    "length c = 4" "VerifyChecksum (data @ replicate (block_zeros data) 0 @ c) = Some True"
    "length enc = length data + block_zeros data + 4" "block_zeros data < 8"
    "8 \<le> length enc"
proof -
  obtain c where c: "seal data = Some (data @ replicate (block_zeros data) 0 @ c)" "length c = 4"
    "VerifyChecksum (data @ replicate (block_zeros data) 0 @ c) = Some True"
    using seal_ok [OF assms(1)] by blast
  let ?p = "data @ replicate (block_zeros data) 0 @ c"
  have len: "length ?p = length data + block_zeros data + 4" using c(2) by simp
  have "8 dvd length ?p" using sealed_length [of data] len by (simp add: ac_simps)
  with Blowfish_roundtrip(1) [OF assms(2)] obtain enc where
    "BlowfishEncrypt ?p k = ok enc" "length enc = length ?p" "BlowfishDecrypt enc k = ok ?p" by blast
  moreover have "8 \<le> length ?p"
  proof -
    obtain q where "length ?p = 8 * q" using \<open>8 dvd length ?p\<close> by (rule dvdE)
    moreover have "0 < length ?p" using assms(1) by simp
    ultimately show ?thesis by (cases q) auto
  qed
  moreover have "block_zeros data < 8" by (simp add: block_zeros_def)
  ultimately show thesis using that c len by metis
qed

lemma frame_eq: "frame data = bytes16 (of_nat (length data + 2)) @ data"
  by (simp add: frame_def)

lemma packet_size_bytes16: "packet_size (bytes16 w) = int (unat w)"
proof -
  have "unat (ucast w :: byte) = unat w mod 256" by (simp add: unsigned_ucast_eq take_bit_eq_mod)
  moreover have "unat (ucast (drop_bit 8 w) :: byte) = unat w div 256"
  proof -
    have "unat w < 65536" using unsigned_less [of w, where 'a = nat] by simp
    then show ?thesis
      by (simp add: unsigned_ucast_eq take_bit_eq_mod unsigned_drop_bit_eq drop_bit_eq_div unat_div_distrib less_mult_imp_div_less)
  qed
  ultimately have "packet_size (bytes16 w) = int (unat w mod 256) + int (unat w div 256) * 256"
    unfolding packet_size_def bytes16_def by simp
  then show ?thesis by (metis mod_div_mult_eq of_nat_add of_nat_mult of_nat_numeral)
qed

lemma unat_of_nat_16: "n < 65536 \<Longrightarrow> unat (of_nat n :: u16) = n"
  by (simp add: unat_of_nat take_bit_nat_eq_self)

lemma go_slice_prefix: "go_slice (x @ c) 0 (int (length (x @ c)) - int (length c)) = Some x"
  by (simp add: go_slice_def)

lemma go_slice_tail: "go_slice (x # xs) 1 (1 + int (length xs)) = Some xs"
  by (simp add: go_slice_def)

text \<open>The two ends of the link agree on the key.\<close>

definition link :: "LoginServerConnection \<Rightarrow> byte list option \<Rightarrow> bool" where
  "link lsc key \<longleftrightarrow> connected lsc \<and>
     (case key of
        None \<Rightarrow> \<not> useNewKey lsc \<and> blowfishKey lsc = GameServerBlowfishKey
      | Some k \<Rightarrow> useNewKey lsc \<and> blowfishKey lsc = k \<and> key_ok k)"

lemma link_key:
  assumes "link lsc key"
  shows "key_ok (blowfishKey lsc)"
    and "(case key of Some k \<Rightarrow> BlowfishEncrypt d k | None \<Rightarrow> BlowfishEncryptGameServer d) = BlowfishEncrypt d (blowfishKey lsc)"
    and "(case key of Some k \<Rightarrow> BlowfishDecrypt d k | None \<Rightarrow> BlowfishDecryptGameServer d) = BlowfishDecrypt d (blowfishKey lsc)"
    and "(if useNewKey lsc then BlowfishEncrypt d (blowfishKey lsc) else BlowfishEncryptGameServer d)
      = BlowfishEncrypt d (blowfishKey lsc)"
  using assms GameServerBlowfishKey_ok
  by (auto simp: link_def BlowfishEncryptGameServer_def BlowfishDecryptGameServer_def split: option.splits)

text \<open>
  C34: From the login server to the game server. Every packet of 1 to 65000 bytes the login server
  sends comes out of the game server's \<open>Receive\<close> as its opcode and its payload, with the zeros of the
  block padding, before and after the exchange of the key, and however the network cuts the stream
  into segments; the bytes after the frame stay in the stream.
\<close>

theorem login_to_game_link:
  assumes "link lsc key" and "length (opcode # payload) \<le> 65000"
  shows "\<exists>out. GameServer_Send key (opcode # payload) = ok out \<and>
    (\<forall>s rest. concat s = out @ rest \<longrightarrow> (\<exists>s'. concat s' = rest \<and> LoginServer_Receive lsc s
       = Some (Inr (opcode, payload @ replicate (block_zeros (opcode # payload)) 0), lsc, s')))"
proof -
  let ?d = "opcode # payload"
  obtain c enc where f: "seal ?d = Some (?d @ replicate (block_zeros ?d) 0 @ c)"
    "BlowfishEncrypt (?d @ replicate (block_zeros ?d) 0 @ c) (blowfishKey lsc) = ok enc"
    "BlowfishDecrypt enc (blowfishKey lsc) = ok (?d @ replicate (block_zeros ?d) 0 @ c)"
    "length c = 4" "VerifyChecksum (?d @ replicate (block_zeros ?d) 0 @ c) = Some True"
    "length enc = length ?d + block_zeros ?d + 4" "block_zeros ?d < 8" "8 \<le> length enc"
    using sealed_frame [OF _ link_key(1) [OF assms(1)] assms(2)] by blast
  define body where "body = payload @ replicate (block_zeros ?d) 0"
  define plain where "plain = ?d @ replicate (block_zeros ?d) 0 @ c"
  note f' = f(1-3,5) [folded plain_def]
  have n: "length enc + 2 < 65536" using f(6,7) assms(2) by simp
  define w :: u16 where "w = of_nat (length enc + 2)"
  have uw: "unat w = length enc + 2" unfolding w_def using n by (rule unat_of_nat_16)
  have w: "\<not> w < 7" "unat (w - 2) = length enc"
    using uw f(8) by (auto simp: word_less_nat_alt unat_sub word_le_nat_alt)
  have send: "GameServer_Send key ?d = ok (bytes16 w @ enc)"
    using f'(1,2) by (simp add: GameServer_Send_def link_key(2) [OF assms(1)] frame_eq w_def)
  have recv: "\<exists>s'. concat s' = rest \<and> LoginServer_Receive lsc s
       = Some (Inr (opcode, payload @ replicate (block_zeros ?d) 0), lsc, s')"
    if s: "concat s = (bytes16 w @ enc) @ rest" for s rest
  proof -
    obtain s1 where r1: "read_full 2 [] s = (Inr (bytes16 w), s1)" "concat s1 = enc @ rest"
      using read_full_concat [of s "bytes16 w" "enc @ rest" "[]" 2] s by auto
    obtain s2 where r2: "read_full (length enc) [] s1 = (Inr enc, s2)" "concat s2 = rest"
      using read_full_concat [of s1 enc rest "[]" "length enc"] r1 by auto
    have le: "le16 (bytes16 w ! 0) (bytes16 w ! Suc 0) = w" by (simp add: bytes16_def le16_bytes)
    have sl: "go_slice plain 0 (int (length plain) - 4) = Some (opcode # body)"
      using go_slice_prefix [of "?d @ replicate (block_zeros ?d) 0" c] f(4) by (simp add: plain_def body_def)
    show ?thesis
      unfolding body_def [symmetric]
      using assms(1) r2(2) w f'
      by (simp add: LoginServer_Receive_def r1 le r2 link_def sl Let_def go_slice_tail)
  qed
  show ?thesis using send recv by blast
qed

lemma login_to_game_link_witness:
  "\<exists>out. GameServer_Send None [2, 1, 66, 0, 0, 0] = ok out \<and>
    (\<forall>s rest. concat s = out @ rest \<longrightarrow> (\<exists>s'. concat s' = rest \<and> LoginServer_Receive NewLoginServerConnection s
       = Some (Inr (2, [1, 66, 0, 0, 0] @ replicate 6 0), NewLoginServerConnection, s')))"
proof -
  have "link NewLoginServerConnection None" by (simp add: link_def NewLoginServerConnection_def)
  from login_to_game_link [OF this, of 2 "[1, 66, 0, 0, 0]"] show ?thesis
    by (simp add: block_zeros_def)
qed

section \<open>Reads that must come whole\<close>

lemma sock_read_whole: "0 < length c \<Longrightarrow> sock_read (length c) (c # cs) = (Inr c, cs)"
  by (simp add: sock_read_def)

lemma sock_read_header: "2 < length c \<Longrightarrow> sock_read 2 (c # cs) = (Inr (take 2 c), drop 2 c # cs)"
  by (simp add: sock_read_def)

lemma sock_read_short: "0 < length c \<Longrightarrow> length c < n \<Longrightarrow> sock_read n (c # cs) = (Inr c, cs)"
  by (simp add: sock_read_def)

text \<open>
  From the game server to the login server. A packet of 1 to 65000 bytes that arrives in one
  segment comes out of the login server's \<open>Receive\<close> as its opcode and payload, followed by the block
  padding and the four checksum bytes, which this end leaves in. But each half of the frame must come
  in one read: when the network delivers the frame in two segments cut anywhere but right after the
  length, \<open>Receive\<close> fails, and the connection with it.
\<close>

theorem game_to_login_link:
  assumes "link lsc key" and "length (opcode # payload) \<le> 65000"
  shows "\<exists>out c. LoginServer_Send lsc (opcode # payload) = ok out \<and> length c = 4
    \<and> GameServer_Receive key (out # cs)
      = Some (Inr (opcode, payload @ replicate (block_zeros (opcode # payload)) 0 @ c), cs)
    \<and> (\<forall>k. 0 < k \<longrightarrow> k < length out \<longrightarrow>
        (\<exists>e s'. GameServer_Receive key (take k out # drop k out # cs) = Some (Inl e, s')) = (k \<noteq> 2))"
proof -
  let ?d = "opcode # payload"
  obtain c enc where f: "seal ?d = Some (?d @ replicate (block_zeros ?d) 0 @ c)"
    "BlowfishEncrypt (?d @ replicate (block_zeros ?d) 0 @ c) (blowfishKey lsc) = ok enc"
    "BlowfishDecrypt enc (blowfishKey lsc) = ok (?d @ replicate (block_zeros ?d) 0 @ c)"
    "length c = 4" "VerifyChecksum (?d @ replicate (block_zeros ?d) 0 @ c) = Some True"
    "length enc = length ?d + block_zeros ?d + 4" "block_zeros ?d < 8" "8 \<le> length enc"
    using sealed_frame [OF _ link_key(1) [OF assms(1)] assms(2)] by blast
  define body where "body = payload @ replicate (block_zeros ?d) 0 @ c"
  have plain: "?d @ replicate (block_zeros ?d) 0 @ c = opcode # body" by (simp add: body_def)
  note f' = f(1-3,5) [unfolded plain]
  have n: "length enc + 2 < 65536" using f(6,7) assms(2) by simp
  define w :: u16 where "w = of_nat (length enc + 2)"
  have size: "packet_size (bytes16 w) = int (length enc + 2)"
    unfolding packet_size_bytes16 w_def using n by (simp only: unat_of_nat_16)
  have "enc \<noteq> []" using f(8) by (cases enc) auto
  define out where "out = bytes16 w @ enc"
  have out: "take 2 out = bytes16 w" "drop 2 out = enc" "length out = length enc + 2"
    by (simp_all add: out_def)
  have send: "LoginServer_Send lsc ?d = ok out"
    using assms(1) f' by (simp add: LoginServer_Send_def link_key(4) [OF assms(1)] out_def w_def link_def
        WriteB_def WriteH_def NewWriter_def)
  have tail: "GameServer_Receive key s = Some (Inr (opcode, body), s2)"
    if "sock_read 2 s = (Inr (bytes16 w), s1)" "sock_read (length enc) s1 = (Inr enc, s2)" for s s1 s2
    using that f' by (simp add: GameServer_Receive_def size link_key(3) [OF assms(1)] go_slice_tail)
  have whole: "GameServer_Receive key (out # cs) = Some (Inr (opcode, body), cs)"
  proof (rule tail)
    show "sock_read 2 (out # cs) = (Inr (bytes16 w), enc # cs)"
      using sock_read_header [of out cs] out \<open>enc \<noteq> []\<close> by simp
    show "sock_read (length enc) (enc # cs) = (Inr enc, cs)"
      using \<open>enc \<noteq> []\<close> by (intro sock_read_whole) simp
  qed
  have cut: "(\<exists>e s'. GameServer_Receive key (take k out # drop k out # cs) = Some (Inl e, s')) = (k \<noteq> 2)"
    if k: "0 < k" "k < length out" for k
  proof -
    consider "k = 1" | "k = 2" | "2 < k" using k(1) by linarith
    then show ?thesis
    proof cases
      case 1
      then show ?thesis
        using k sock_read_short [of "take 1 out" 2 "drop 1 out # cs"] by (simp add: GameServer_Receive_def)
    next
      case 2
      have "sock_read 2 (take 2 out # drop 2 out # cs) = (Inr (bytes16 w), enc # cs)"
        using sock_read_whole [of "take 2 out"] out by simp
      from tail [OF this, of cs] show ?thesis using 2 sock_read_whole [of enc cs] \<open>enc \<noteq> []\<close> by auto
    next
      case 3
      have "sock_read 2 (take k out # drop k out # cs) = (Inr (bytes16 w), drop 2 (take k out) # drop k out # cs)"
        using sock_read_header [of "take k out"] 3 k out by (simp add: min_def)
      moreover have "sock_read (length enc) (drop 2 (take k out) # drop k out # cs)
          = (Inr (drop 2 (take k out)), drop k out # cs)"
        using sock_read_short [of "drop 2 (take k out)" "length enc"] 3 k out by simp
      ultimately show ?thesis using 3 k out by (simp add: GameServer_Receive_def size)
    qed
  qed
  show ?thesis using send whole cut f(4) unfolding body_def by blast
qed

lemma game_to_login_link_witness:
  "\<exists>out c. LoginServer_Send NewLoginServerConnection [3, 66, 0, 0, 0] = ok out \<and> length c = 4
    \<and> GameServer_Receive None [out] = Some (Inr (3, [66, 0, 0, 0] @ replicate 7 0 @ c), [])"
proof -
  have "link NewLoginServerConnection None" by (simp add: link_def NewLoginServerConnection_def)
  from game_to_login_link [OF this, of 3 "[66, 0, 0, 0]" "[]"]
  obtain out c where "LoginServer_Send NewLoginServerConnection [3, 66, 0, 0, 0] = ok out" "length c = 4"
    "GameServer_Receive None [out] = Some (Inr (3, [66, 0, 0, 0] @ replicate (block_zeros [3, 66, 0, 0, 0]) 0 @ c), [])"
    by auto
  moreover have "block_zeros [3, 66, 0, 0, 0] = 7" by (simp add: block_zeros_def)
  ultimately show ?thesis by metis
qed

section \<open>The login server's end of a client connection\<close>

lemma VerifyChecksum_total: "\<exists>b. VerifyChecksum raw = Some b \<and> (b \<longrightarrow> raw \<noteq> [])"
proof (cases "int (length raw) AND 3 = 0 \<and> 4 < length raw")
  case True
  then obtain ws w where raw: "raw = bytes_of (ws @ [w])" using last_word [of raw] by auto
  with True have "ws \<noteq> []" by auto
  moreover have "raw \<noteq> []" using True by auto
  ultimately show ?thesis using VerifyChecksum_words [of ws w] raw by metis
next
  case False
  then show ?thesis by (auto simp: VerifyChecksum_def Let_def)
qed

lemma VerifyChecksumClient_total: "\<exists>b. VerifyChecksumClient raw = Some b \<and> (b \<longrightarrow> raw \<noteq> [])"
proof (cases "int (length raw) AND 3 = 0 \<and> 16 \<le> length raw")
  case True
  then obtain vs where raw: "raw = bytes_of vs" using aligned_words [of raw] by blast
  with True have "4 \<le> length vs" by simp
  then have "length (drop (length vs - 4) vs) = 4" by simp
  then obtain w p q r where "drop (length vs - 4) vs = [w, p, q, r]" using length_4 by metis
  then have vs: "vs = take (length vs - 4) vs @ [w, p, q, r]" by (metis append_take_drop_id)
  have "raw \<noteq> []" using True by auto
  then show ?thesis using VerifyChecksumClient_words [of "take (length vs - 4) vs" w p q r] vs raw by metis
next
  case False
  then show ?thesis by (auto simp: VerifyChecksumClient_def Let_def)
qed

lemma BlowfishDecrypt_total: "BlowfishDecrypt data key \<noteq> None"
proof (cases "key_ok key")
  case True
  then obtain c where c: "NewCipher key = ok c" using NewCipher_ok by blast
  show ?thesis
  proof (cases "8 dvd length data")
    case True
    then show ?thesis using Blowfish_roundtrip(2) [OF \<open>key_ok key\<close>, of data] by auto
  next
    case False
    then show ?thesis using c by (simp add: BlowfishDecrypt_def mod_eq_0_iff_dvd)
  qed
next
  case False
  then show ?thesis using NewCipher_error [of key] by (simp add: BlowfishDecrypt_def)
qed

lemma checksum_step:
  "\<exists>b. VerifyChecksum data \<bind> (\<lambda>v. if v then Some True else VerifyChecksumClient data) = Some b \<and> (b \<longrightarrow> data \<noteq> [])"
  using VerifyChecksum_total [of data] VerifyChecksumClient_total [of data] by auto

text \<open>
  Any peer can make the login server panic, before any authentication: \<open>Receive\<close> on a client
  connection panics exactly when the two bytes of a packet's length arrive together and say 0 or 1,
  whatever the key. In every other case it returns a packet or an error.
\<close>

theorem Client_Receive_panics_iff:
  "panics (Client_Receive key s)
    \<longleftrightarrow> (\<exists>c cs. s = c # cs \<and> 2 \<le> length c \<and> packet_size (take 2 c) < 2)"
proof -
  have safe: "\<not> panics (do {
        res \<leftarrow> BlowfishDecrypt data key;
        case res of
          Inl e \<Rightarrow> Some (Inl ''An error occured while decrypting the packet data.'', s)
        | Inr data \<Rightarrow> do {
            checksumValid \<leftarrow> VerifyChecksum data;
            checksumValid \<leftarrow> (if checksumValid then Some True else VerifyChecksumClient data);
            if \<not> checksumValid then Some (Inl ''packet checksum verification failed'', s)
            else do {
              opcode \<leftarrow> go_get data 0;
              data \<leftarrow> go_slice data 1 (int (length data));
              Some (Inr (opcode, data), s)
            }
          }
      })" for data and s :: sock
  proof -
    have 1: "\<not> panics (do {
            checksumValid \<leftarrow> VerifyChecksum d;
            checksumValid \<leftarrow> (if checksumValid then Some True else VerifyChecksumClient d);
            if \<not> checksumValid then Some (Inl ''packet checksum verification failed'', s)
            else do {
              opcode \<leftarrow> go_get d 0;
              d \<leftarrow> go_slice d 1 (int (length d));
              Some (Inr (opcode, d), s)
            }
          } :: ((go_error + byte \<times> byte list) \<times> sock) option)" for d
    proof -
      obtain a where a: "VerifyChecksum d = Some a" "a \<longrightarrow> d \<noteq> []" using VerifyChecksum_total by blast
      obtain b where b: "VerifyChecksumClient d = Some b" "b \<longrightarrow> d \<noteq> []" using VerifyChecksumClient_total by blast
      show ?thesis using a b by (cases d) (auto simp: go_slice_def)
    qed
    from BlowfishDecrypt_total [of data key] obtain res where res: "BlowfishDecrypt data key = Some res" by auto
    show ?thesis
    proof (cases res)
      case (Inr d)
      show ?thesis using 1 [of d] by (simp only: res Inr bind.bind_lunit sum.case not_False_eq_True)
    qed (simp add: res)
  qed
  show ?thesis
  proof (cases s)
    case Nil
    then show ?thesis by (simp add: Client_Receive_def sock_read_def)
  next
    case (Cons c cs)
    show ?thesis
    proof (cases "2 \<le> length c")
      case False
      then show ?thesis by (auto simp: Client_Receive_def sock_read_def Cons)
    next
      case True
      then obtain s1 where rd: "sock_read 2 s = (Inr (take 2 c), s1)"
        by (cases "length c = 2") (auto simp: sock_read_def Cons)
      have "panics (Client_Receive key s) \<longleftrightarrow> packet_size (take 2 c) < 2"
        using safe True unfolding Client_Receive_def rd Let_def
        by (auto simp: panics_def split: prod.split sum.split)
      then show ?thesis using True Cons by auto
    qed
  qed
qed

section \<open>The Init packet\<close>

text \<open>What the game client does with the body of the first frame.\<close>

definition read_static :: "byte list \<Rightarrow> byte list option" where
  "read_static enc =
     do {
       res \<leftarrow> BlowfishDecrypt enc StaticBlowfishKey;
       case res of Inl _ \<Rightarrow> None | Inr dec \<Rightarrow> DecXORPass dec 0 (int (length dec))
     }"

definition static_zeros :: "byte list \<Rightarrow> nat" where
  "static_zeros data = (8 - (length data + 8) mod 8) mod 8"

lemma eight_zero_bytes: "[0, 0, 0, 0] @ [0, 0, 0, 0] = replicate 8 (0 :: byte)"
  unfolding four_zero_bytes replicate_add [symmetric] by simp

lemma StaticBlowfishKey_ok: "key_ok StaticBlowfishKey"
  by (simp add: key_ok_def StaticBlowfishKey_def)

lemma pad_block_static: "pad_block (data @ [0, 0, 0, 0] @ [0, 0, 0, 0]) = data @ replicate (8 + static_zeros data) 0"
proof (cases "(length data + 8) mod 8 = 0")
  case True
  then have "static_zeros data = 0" unfolding static_zeros_def by (simp only: diff_zero mod_self)
  with True show ?thesis unfolding eight_zero_bytes by (simp add: pad_block_def Let_def)
next
  case False
  have "pad_block (data @ [0, 0, 0, 0] @ [0, 0, 0, 0]) = data @ replicate 8 0 @ replicate (8 - (length data + 8) mod 8) 0"
    unfolding eight_zero_bytes pad_block_def Let_def using False by simp
  moreover have "static_zeros data = 8 - (length data + 8) mod 8"
    unfolding static_zeros_def by (rule mod_less) (use False in linarith)
  ultimately show ?thesis by (simp only: replicate_add)
qed

text \<open>
  The Init packet. Whatever the server sends with \<open>SendStatic\<close> under whatever random XOR key, a
  client that only knows the static Blowfish key reads it back, followed by zeros; the frame carries
  its own length.
\<close>

theorem static_frame_roundtrip:
  assumes "data \<noteq> []" and "length data \<le> 65000"
  shows "\<exists>enc. SendStatic xorKey data = ok (bytes16 (of_nat (length enc + 2)) @ enc)
    \<and> length enc + 2 < 2 ^ 16
    \<and> read_static enc = Some (data @ replicate (8 + static_zeros data) 0)"
proof -
  let ?p = "data @ replicate (8 + static_zeros data) 0"
  have "8 dvd length data + 8 + static_zeros data" unfolding static_zeros_def by (rule round_up)
  then obtain q where q: "length data + 8 + static_zeros data = 8 * q" by (rule dvdE)
  have "0 < length data" using assms(1) by simp
  with q have "2 \<le> q" by linarith
  then have lk: "length (data @ replicate (static_zeros data) 0) = 4 * (2 * q - 2)" "0 < 2 * q - 2"
    using q by simp_all
  then obtain vs where vs: "data @ replicate (static_zeros data) 0 = bytes_of vs" "length vs = 2 * q - 2"
    by (metis bytes_of_words)
  then obtain h ws where hws: "vs = h # ws" using lk(2) by (cases vs) auto
  have "?p = (data @ replicate (static_zeros data) 0) @ [0, 0, 0, 0] @ [0, 0, 0, 0]"
    unfolding eight_zero_bytes by (simp add: replicate_add [symmetric] add.commute)
  then have p: "?p = bytes32 h @ bytes_of (ws @ [0, 0])"
    unfolding vs hws by (simp add: zero_word)
  define e where "e = bytes32 h @ bytes_of (xor_pass xorKey ws @ [xorKey + sum_list ws, 0])"
  have lenp: "length ?p = 12 + 4 * length ws" unfolding p by simp
  have lene: "length e = 12 + 4 * length ws" by (simp add: e_def)
  have len8: "length ?p = 8 * q" using q by simp
  have enc: "EncXORPass ?p 0 (int (length ?p)) xorKey = Some e"
    unfolding lenp unfolding p e_def using EncXORPass_words [of "bytes32 h" ws 0 0 xorKey] by simp
  have dec: "DecXORPass e 0 (int (length e)) = Some ?p"
    unfolding lene unfolding p e_def using DecXORPass_words [of "bytes32 h" xorKey ws 0] by simp
  have "length e = 8 * q" by (simp only: lene lenp [symmetric] len8)
  then have "8 dvd length e" by simp
  with Blowfish_roundtrip(1) [OF StaticBlowfishKey_ok] obtain out where
    out: "BlowfishEncrypt e StaticBlowfishKey = ok out" "length out = length e"
    "BlowfishDecrypt out StaticBlowfishKey = ok e" by blast
  have "SendStatic xorKey data = ok (bytes16 (of_nat (length out + 2)) @ out)"
    unfolding SendStatic_def pad_block_static Let_def using enc out(1)
    by (simp add: BlowfishEncryptStatic_def frame_eq)
  moreover have "read_static out = Some ?p" using out(3) dec by (simp add: read_static_def)
  moreover have "length out + 2 < 2 ^ 16"
  proof -
    have "static_zeros data < 8" by (simp add: static_zeros_def)
    moreover have "length out = length data + 8 + static_zeros data" using out(2) lene lenp q len8 by simp
    ultimately show ?thesis using assms(2) by simp
  qed
  ultimately show ?thesis by blast
qed

lemma static_frame_roundtrip_witness:
  "\<exists>enc. SendStatic 99 (replicate 5 7) = ok (bytes16 (of_nat (length enc + 2)) @ enc)
    \<and> read_static enc = Some (replicate 5 7 @ replicate (8 + static_zeros (replicate 5 7)) 0)"
proof -
  have "replicate 5 (7 :: byte) \<noteq> []" "length (replicate 5 (7 :: byte)) \<le> 65000" by simp_all
  from static_frame_roundtrip [OF this, of 99] show ?thesis by blast
qed

end
