(* ===== verification/ServerWire.thy ===== *)
theory ServerWire
  imports LoginPackets L2Packet
begin

text \<open>
  The same conversation seen from the game server: the packets it writes to the login server
  (\<open>gameserver/packets/outls\<close>) and those it reads from it (\<open>gameserver/packets/inls\<close>). They are
  written with the other packet library of the repository, \<open>pkg/l2pkt\<close>. The properties say that the
  two programs understand each other, packet by packet, whatever padding follows the fields, and
  when the exchange of the Blowfish key succeeds.
\<close>

section \<open>To the login server\<close>

record outls_AuthRequest =
  oarVersion :: int
  oarDesiredID :: int
  oarAcceptAlternateID :: bool
  oarReserveHost :: bool
  oarPort :: int
  oarMaxPlayers :: int
  oarHexID :: "byte list"
  oarSubnets :: "go_string list"
  oarHosts :: "go_string list"

definition outls_NewAuthRequest :: "int \<Rightarrow> bool \<Rightarrow> byte list \<Rightarrow> int \<Rightarrow> bool \<Rightarrow> int
    \<Rightarrow> go_string list \<Rightarrow> go_string list \<Rightarrow> outls_AuthRequest" where
  "outls_NewAuthRequest desiredID acceptAlternateID hexID port reserveHost maxPlayers subnets hosts =
     \<lparr>oarVersion = 14, oarDesiredID = desiredID, oarAcceptAlternateID = acceptAlternateID,
      oarReserveHost = reserveHost, oarPort = port, oarMaxPlayers = maxPlayers, oarHexID = hexID,
      oarSubnets = subnets, oarHosts = hosts\<rparr>"

definition WriteFlag :: "bool \<Rightarrow> writer \<Rightarrow> writer" where
  "WriteFlag b w = (if b then WriteC 0x01 w else WriteC 0x00 w)"

fun write_addresses :: "go_string list \<Rightarrow> go_string list \<Rightarrow> writer \<Rightarrow> writer" where
  "write_addresses [] hosts w = w"
| "write_addresses (subnet # subnets) hosts w =
     (case hosts of
        host # hosts \<Rightarrow> write_addresses subnets hosts (WriteS host (WriteS subnet w))
      | [] \<Rightarrow> write_addresses subnets [] (WriteS [] (WriteS subnet w)))"

definition outls_AuthRequest_GetData :: "outls_AuthRequest \<Rightarrow> byte list" where
  "outls_AuthRequest_GetData ar =
     (let b = NewWriter;
          b = WriteC 0x01 b;
          b = WriteC (of_int (oarVersion ar)) b;
          b = WriteC (of_int (oarDesiredID ar)) b;
          b = WriteFlag (oarAcceptAlternateID ar) b;
          b = WriteFlag (oarReserveHost ar) b;
          b = WriteH (of_int (oarPort ar)) b;
          b = WriteD (of_int (oarMaxPlayers ar)) b;
          b = WriteD (of_nat (length (oarHexID ar))) b;
          b = WriteB (oarHexID ar) b;
          b = WriteD (of_nat (length (oarSubnets ar))) b
      in write_addresses (oarSubnets ar) (oarHosts ar) b)"

definition BlowFishKey_Write :: "byte list \<Rightarrow> rsa_key \<Rightarrow> byte list" where
  "BlowFishKey_Write blowfishKey publicKey =
     (let w = NewWriter;
          w = WriteC 0x00 w;
          encrypted = rsa_encrypt publicKey blowfishKey;
          w = WriteD (of_nat (length encrypted)) w;
          w = WriteB encrypted w
      in w)"

record outls_SessionKey =
  PlayOkID1 :: u32
  PlayOkID2 :: u32
  KeyLoginOkID1 :: u32
  KeyLoginOkID2 :: u32

definition outls_PlayerAuthRequest_GetData :: "go_string \<Rightarrow> outls_SessionKey \<Rightarrow> byte list" where
  "outls_PlayerAuthRequest_GetData account key =
     (let b = NewWriter;
          b = WriteC 0x05 b;
          b = WriteS account b;
          b = WriteD (PlayOkID1 key) b;
          b = WriteD (PlayOkID2 key) b;
          b = WriteD (KeyLoginOkID1 key) b;
          b = WriteD (KeyLoginOkID2 key) b
      in b)"

definition PlayerInGame_GetData :: "go_string list \<Rightarrow> byte list" where
  "PlayerInGame_GetData players =
     (let b = NewWriter;
          b = WriteC 0x02 b;
          b = WriteH (of_nat (length players)) b
      in fold WriteS players b)"

definition PlayerLogout_GetData :: "go_string \<Rightarrow> byte list" where
  "PlayerLogout_GetData account =
     (let b = NewWriter; b = WriteC 0x03 b; b = WriteS account b in b)"

definition PlayerTracert_GetData :: "PlayerTracert \<Rightarrow> byte list" where
  "PlayerTracert_GetData pt =
     (let b = NewWriter;
          b = WriteC 0x07 b;
          b = WriteS (ptAccount pt) b;
          b = WriteS (ptPcIP pt) b;
          b = WriteS (ptHop1 pt) b;
          b = WriteS (ptHop2 pt) b;
          b = WriteS (ptHop3 pt) b;
          b = WriteS (ptHop4 pt) b
      in b)"

definition ReplyCharacters_GetData :: "go_string \<Rightarrow> int \<Rightarrow> int \<Rightarrow> byte list" where
  "ReplyCharacters_GetData account charCount charsInDel =
     (let b = NewWriter;
          b = WriteC 0x08 b;
          b = WriteS account b;
          b = WriteC (of_int charCount) b;
          b = WriteC (of_int charsInDel) b
      in fold (\<lambda>_. WriteQ 0) [0..<nat charsInDel] b)"

definition ChangePassword_GetData :: "go_string \<Rightarrow> go_string \<Rightarrow> go_string \<Rightarrow> go_string \<Rightarrow> byte list" where
  "ChangePassword_GetData accountName characterName oldPassword newPassword =
     (let b = NewWriter;
          b = WriteC 0x0B b;
          b = WriteS accountName b;
          b = WriteS characterName b;
          b = WriteS oldPassword b;
          b = WriteS newPassword b
      in b)"

record outls_ServerStatus =
  ossServerID :: int
  ossServerStatus :: int
  ossPort :: int
  ossMaxPlayers :: int
  ossServerType :: int
  ossMinLevel :: int
  ossMaxLevel :: int
  ossAgeLimit :: int
  ossShowBrackets :: bool
  ossPvp :: bool
  ossTestServer :: bool
  ossShowClock :: bool

definition ServerStatus_GetData :: "outls_ServerStatus \<Rightarrow> byte list" where
  "ServerStatus_GetData ss =
     (let b = NewWriter;
          b = WriteC 0x06 b;
          b = WriteC (of_int (ossServerID ss)) b;
          b = WriteD (of_int (ossServerStatus ss)) b;
          b = WriteD (of_int (ossPort ss)) b;
          b = WriteD (of_int (ossMaxPlayers ss)) b;
          b = WriteD (of_int (ossServerType ss)) b;
          b = WriteD (of_int (ossMinLevel ss)) b;
          b = WriteD (of_int (ossMaxLevel ss)) b;
          b = WriteD (of_int (ossAgeLimit ss)) b;
          b = WriteFlag (ossShowBrackets ss) b;
          b = WriteFlag (ossPvp ss) b;
          b = WriteFlag (ossTestServer ss) b;
          b = WriteFlag (ossShowClock ss) b
      in b)"

section \<open>From the login server\<close>

text \<open>\<open>x, _ := read()\<close>: the zero value when the read fails.\<close>

definition or_zero :: "'a \<Rightarrow> (go_error + 'a) \<times> reader \<Rightarrow> 'a \<times> reader" where
  "or_zero z res = (case res of (Inr x, r) \<Rightarrow> (x, r) | (Inl _, r) \<Rightarrow> (z, r))"

definition inls_NewAuthResponse :: "byte list \<Rightarrow> int \<times> go_string" where
  "inls_NewAuthResponse data =
     (case or_zero 0 (ReadC (NewReader data)) of (c, r) \<Rightarrow>
      case or_zero [] (ReadS r) of (serverName, r) \<Rightarrow> (int (unat c), serverName))"

definition inls_NewChangePasswordResponse :: "byte list \<Rightarrow> go_string \<times> bool" where
  "inls_NewChangePasswordResponse data =
     (case or_zero [] (ReadS (NewReader data)) of (account, r) \<Rightarrow>
      case or_zero 0 (ReadC r) of (c, r) \<Rightarrow> (account, c \<noteq> 0))"

text \<open>
  \<open>make([]byte, int(keySize))\<close> panics on a negative \<open>int32\<close>; a key that is not all there leaves the
  zeros of the fresh slice.
\<close>

definition inls_NewInitLS :: "byte list \<Rightarrow> byte list option" where
  "inls_NewInitLS data =
     (case or_zero 0 (ReadD (NewReader data)) of (keySize, r) \<Rightarrow>
        if sint keySize < 0 then None
        else let rsaKey = replicate (nat (sint keySize)) 0
             in (case ReadB (length rsaKey) r of
                   (Inr key, r) \<Rightarrow> Some key | (Inl _, r) \<Rightarrow> Some rsaKey))"

definition inls_NewKickPlayer :: "byte list \<Rightarrow> go_string" where
  "inls_NewKickPlayer data = fst (or_zero [] (ReadS (NewReader data)))"

definition inls_NewLoginServerFail :: "byte list \<Rightarrow> go_string" where
  "inls_NewLoginServerFail data = fst (or_zero [] (ReadS (NewReader data)))"

definition inls_NewPlayerAuthResponse :: "byte list \<Rightarrow> go_string \<times> bool" where
  "inls_NewPlayerAuthResponse data =
     (case or_zero [] (ReadS (NewReader data)) of (account, r) \<Rightarrow>
      case or_zero 0 (ReadC r) of (c, r) \<Rightarrow> (account, c \<noteq> 0))"

definition inls_NewRequestCharacters :: "byte list \<Rightarrow> go_string" where
  "inls_NewRequestCharacters data = fst (or_zero [] (ReadS (NewReader data)))"

text \<open>\<open>HandleInitLS\<close>: the public key made of the modulus.\<close>

definition HandleInitLS :: "byte list \<Rightarrow> go_error + rsa_key" where
  "HandleInitLS rsaKeyBytes =
     (if length rsaKeyBytes = 0 then Inl ''empty RSA key received from LoginServer''
      else let modulus = SetBytes rsaKeyBytes
           in Inr \<lparr>RsaN = modulus, RsaE = 65537, RsaD = 0\<rparr>)"

text \<open>The bytes of the modulus the login server sends in InitLS, with the sign byte of Java.\<close>

definition init_modulus :: "rsa_key \<Rightarrow> byte list" where
  "init_modulus privateKey =
     (let modulusBytes = Bytes (RsaN privateKey)
      in if length modulusBytes > 0 \<and> modulusBytes ! 0 AND 0x80 \<noteq> 0 then 0x00 # modulusBytes
         else modulusBytes)"

lemma writer_bytes [simp]:
  "NewWriter = []"
  "WriteC c w = w @ [c]"
  "WriteH h w = w @ bytes16 h"
  "WriteD d w = w @ bytes32 d"
  "WriteQ q w = w @ bytes64 q"
  "WriteB b w = w @ b"
  "WriteS s w = w @ string_bytes s"
  "WriteFlag f w = w @ [if f then 1 else 0]"
  by (simp_all add: NewWriter_def WriteC_def WriteH_def WriteD_def WriteQ_def WriteB_def WriteS_bytes
      WriteFlag_def)

lemma ReadUInt8_Cons [simp]: "ReadUInt8 (v # rest) = (v, rest)"
  by (simp add: ReadUInt8_def)

lemma length_string_bytes: "2 \<le> length (string_bytes s)"
  by (simp add: string_bytes_def)

lemma string_bytes_nonempty [simp]: "string_bytes s \<noteq> []"
  using length_string_bytes [of s] by auto

lemma unat_of_nat_u32 [simp]: "n < 2 ^ 32 \<Longrightarrow> unat (of_nat n :: u32) = n"
  by (simp add: unat_of_nat take_bit_nat_eq_self)

lemma string_bytes_Nil [simp]: "wire_string []"
  by (simp add: wire_string_def)

text \<open>The address table: a subnet without a host gets the empty host.\<close>

fun pad_hosts :: "go_string list \<Rightarrow> go_string list \<Rightarrow> go_string list" where
  "pad_hosts [] hosts = []"
| "pad_hosts (s # subnets) hosts =
     (case hosts of h # hosts \<Rightarrow> h # pad_hosts subnets hosts | [] \<Rightarrow> [] # pad_hosts subnets [])"

lemma write_addresses_prefix: "write_addresses ss hs w = w @ write_addresses ss hs []"
proof (induction ss arbitrary: hs w)
  case (Cons s ss)
  show ?case
  proof (cases hs)
    case Nil
    then show ?thesis
      using Cons [of "[]" "w @ string_bytes s @ string_bytes []"]
        Cons [of "[]" "string_bytes s @ string_bytes []"] by simp
  next
    case hs: (Cons h hs')
    then show ?thesis
      using Cons [of hs' "w @ string_bytes s @ string_bytes h"]
        Cons [of hs' "string_bytes s @ string_bytes h"] by simp
  qed
qed simp

lemma read_write_addresses:
  assumes "\<forall>s \<in> set ss. wire_string s" and "\<forall>h \<in> set hs. wire_string h"
  shows "read_addresses (length ss) subnets hosts (write_addresses ss hs [] @ rest)
      = ((subnets @ ss, hosts @ pad_hosts ss hs), rest)"
  using assms
proof (induction ss arbitrary: hs subnets hosts)
  case (Cons s ss)
  show ?case
  proof (cases hs)
    case Nil
    then show ?thesis
      using Cons.IH [of "[]"] Cons.prems by (simp add: write_addresses_prefix [of ss "[]" "_ @ _"])
  next
    case hs: (Cons h hs')
    then show ?thesis
      using Cons.IH [of hs'] Cons.prems by (simp add: write_addresses_prefix [of ss hs' "_ @ _"])
  qed
qed simp

lemma read_times_zeros: "read_times n (concat (replicate n (bytes64 0)) @ rest) = (replicate n 0, rest)"
  by (induction n) simp_all

lemma fold_WriteQ: "fold (\<lambda>_. WriteQ 0) [0..<n] w = w @ concat (replicate n (bytes64 0))"
proof (induction n)
  case (Suc n)
  have "concat (replicate n (bytes64 0)) @ bytes64 0 = bytes64 0 @ concat (replicate n (bytes64 0))"
    by (induction n) auto
  with Suc show ?case by simp
qed simp

lemma or_zero_simps [simp]: "or_zero z (Inr x, r) = (x, r)" "or_zero z (Inl e, r) = (z, r)"
  by (simp_all add: or_zero_def)

lemma ReadB_at:
  assumes "reader_ok r" and "unread r = bs @ rest"
  shows "ReadB (length bs) r = (Inr bs, skip (length bs) r)"
proof -
  have "take (length bs) (unread r) = bs" by (simp add: assms(2))
  then show ?thesis using unread_skip [OF assms] by (simp add: ReadB_def unread_def)
qed

lemma new_reader: "reader_ok (NewReader bs)" "unread (NewReader bs) = bs"
  by (simp_all add: NewReader_def reader_ok_def unread_def)

lemma init_modulus_number: "SetBytes (init_modulus key) = RsaN key"
  using SetBytes_zeros [of 1 "Bytes (RsaN key)"] by (simp add: init_modulus_def Let_def)

lemma init_modulus_length: "length (init_modulus key) \<le> Suc (rsa_size key)"
proof -
  have "RsaN key < 256 ^ rsa_size key \<or> rsa_size key = 0 \<and> RsaN key = 0"
  proof -
    have "RsaN key < 2 ^ BitLen (RsaN key)" by (rule less_two_pow_BitLen)
    also have "\<dots> \<le> 2 ^ (8 * rsa_size key)" by (rule power_increasing) (auto simp: rsa_size_def)
    also have "\<dots> = 256 ^ rsa_size key" by (simp add: power_mult)
    finally show ?thesis by simp
  qed
  then have "length (Bytes (RsaN key)) \<le> rsa_size key" by (auto intro: length_Bytes)
  then show ?thesis by (simp add: init_modulus_def Let_def)
qed

lemma inls_NewInitLS_at:
  assumes "length key < 2 ^ 31"
  shows "inls_NewInitLS (bytes32 (of_nat (length key)) @ key @ pad) = Some key"
proof -
  have s: "sint (of_nat (length key) :: u32) = int (length key)"
    using assms by (simp add: signed_of_nat signed_take_bit_int_eq_self)
  obtain r where "ReadD (NewReader (bytes32 (of_nat (length key)) @ key @ pad)) = (Inr (of_nat (length key)), r)"
    and r: "reader_ok r" "unread r = key @ pad"
    using codec_D.get_put [OF new_reader(1) TrueI new_reader(2)] by blast
  then show ?thesis
    using ReadB_at [OF r] by (simp add: inls_NewInitLS_def s)
qed

lemma inls_account_flag:
  assumes "wire_string account"
  shows "inls_NewPlayerAuthResponse (string_bytes account @ [c] @ pad) = (account, c \<noteq> 0)"
proof -
  obtain r where "ReadS (NewReader (string_bytes account @ [c] @ pad)) = (Inr account, r)"
    and r: "reader_ok r" "unread r = [c] @ pad"
    using codec_S.get_put [OF new_reader(1) assms new_reader(2)] by blast
  moreover obtain r' where "ReadC r = (Inr c, r')"
    using codec_C.get_put [OF r(1) TrueI r(2)] by blast
  ultimately show ?thesis by (simp add: inls_NewPlayerAuthResponse_def)
qed

lemma inls_id_name:
  assumes "wire_string name"
  shows "inls_NewAuthResponse ([c] @ string_bytes name @ pad) = (int (unat c), name)"
proof -
  obtain r where "ReadC (NewReader ([c] @ string_bytes name @ pad)) = (Inr c, r)"
    and r: "reader_ok r" "unread r = string_bytes name @ pad"
    using codec_C.get_put [OF new_reader(1) TrueI new_reader(2)] by blast
  moreover obtain r' where "ReadS r = (Inr name, r')"
    using codec_S.get_put [OF r(1) assms r(2)] by blast
  ultimately show ?thesis by (simp add: inls_NewAuthResponse_def)
qed

lemma inls_account: "wire_string account \<Longrightarrow> inls_NewRequestCharacters (string_bytes account @ pad) = account"
  using codec_S.get_put_new [of account pad] by (auto simp: inls_NewRequestCharacters_def)

section \<open>Properties\<close>

text \<open>
  The login server reads the AuthRequest of a game server as it was meant, whatever padding
  follows: the numbers at the width of their fields, the flags, the hex id (which must not be
  empty), and the table of addresses, where a subnet without a host gets the empty host.
\<close>

theorem login_reads_AuthRequest:
  assumes "oarHexID ar \<noteq> []" and "length (oarHexID ar) < 2 ^ 32" and "length (oarSubnets ar) < 2 ^ 32"
    and "\<forall>s \<in> set (oarSubnets ar). wire_string s" and "\<forall>h \<in> set (oarHosts ar). wire_string h"
  shows "NewAuthRequest (tl (outls_AuthRequest_GetData ar) @ pad) = Some
     \<lparr>arVersion = of_int (oarVersion ar), arID = of_int (oarDesiredID ar),
      arAcceptAlternate = oarAcceptAlternateID ar, arReserveHost = oarReserveHost ar,
      arPort = of_int (oarPort ar), arMaxPlayers = of_int (oarMaxPlayers ar),
      arHexID = oarHexID ar, arSubnets = oarSubnets ar,
      arHosts = pad_hosts (oarSubnets ar) (oarHosts ar)\<rparr>"
proof -
  have tl: "tl (outls_AuthRequest_GetData ar) = [of_int (oarVersion ar), of_int (oarDesiredID ar),
      if oarAcceptAlternateID ar then 1 else 0, if oarReserveHost ar then 1 else 0]
      @ bytes16 (of_int (oarPort ar)) @ bytes32 (of_int (oarMaxPlayers ar))
      @ bytes32 (of_nat (length (oarHexID ar))) @ oarHexID ar
      @ bytes32 (of_nat (length (oarSubnets ar))) @ write_addresses (oarSubnets ar) (oarHosts ar) []"
    unfolding outls_AuthRequest_GetData_def Let_def
    by (subst write_addresses_prefix) simp
  show ?thesis
    unfolding NewAuthRequest_def tl
    using assms by (simp add: read_write_addresses)
qed

definition sample_request :: outls_AuthRequest where
  "sample_request = outls_NewAuthRequest 5 True [1, 2, 3, 4, 5, 6, 7, 8] 7777 False 5000
     [lit ''10.0.0.0/8'', lit ''0.0.0.0/0''] [lit ''10.0.0.1'']"

lemma login_reads_AuthRequest_witness:
  "NewAuthRequest (tl (outls_AuthRequest_GetData sample_request) @ [0, 0, 0]) = Some
     \<lparr>arVersion = 14, arID = 5, arAcceptAlternate = True, arReserveHost = False, arPort = 7777,
      arMaxPlayers = 5000, arHexID = [1, 2, 3, 4, 5, 6, 7, 8],
      arSubnets = [lit ''10.0.0.0/8'', lit ''0.0.0.0/0''], arHosts = [lit ''10.0.0.1'', []]\<rparr>"
  using login_reads_AuthRequest [of sample_request "[0, 0, 0]"]
  by (simp add: sample_request_def outls_NewAuthRequest_def wire_string_def lit_def valid_rune_def)

text \<open>
  The login server reads a player's authentication request, logout, trace and character counts
  as the game server sent them, whatever padding follows the fields (and with a zero for every
  deletion time, which the game server does not send).
\<close>

theorem login_reads_game_packets:
  assumes "wire_string account" and "account \<noteq> []" and "0 \<le> n" and "n < 256" and "0 \<le> d" and "d < 256"
    and "\<forall>s \<in> {ptAccount pt, ptPcIP pt, ptHop1 pt, ptHop2 pt, ptHop3 pt, ptHop4 pt}. wire_string s"
  shows "NewPlayerAuthRequest (tl (outls_PlayerAuthRequest_GetData account key) @ pad) = Some
      \<lparr>parAccount = account, parPlayKey1 = PlayOkID1 key, parPlayKey2 = PlayOkID2 key,
       parLoginKey1 = KeyLoginOkID1 key, parLoginKey2 = KeyLoginOkID2 key\<rparr>
    \<and> NewPlayerLogout (tl (PlayerLogout_GetData account) @ pad) = Some account
    \<and> NewReplyCharacters (tl (ReplyCharacters_GetData account n d) @ pad) = Some
      \<lparr>rcAccount = account, rcCharacterCount = n, rcDeletionCount = d,
       rcDeletionTimes = replicate (nat d) 0\<rparr>
    \<and> NewPlayerTracert (tl (PlayerTracert_GetData pt) @ pad) = Some pt"
proof (intro conjI)
  note len = length_string_bytes [of account] length_string_bytes [of "ptAccount pt"]
  show "NewPlayerAuthRequest (tl (outls_PlayerAuthRequest_GetData account key) @ pad) = Some
      \<lparr>parAccount = account, parPlayKey1 = PlayOkID1 key, parPlayKey2 = PlayOkID2 key,
       parLoginKey1 = KeyLoginOkID1 key, parLoginKey2 = KeyLoginOkID2 key\<rparr>"
    using assms(1) len by (simp add: NewPlayerAuthRequest_def outls_PlayerAuthRequest_GetData_def)
  show "NewPlayerLogout (tl (PlayerLogout_GetData account) @ pad) = Some account"
    using assms(1) len by (simp add: NewPlayerLogout_def PlayerLogout_GetData_def)
  show "NewPlayerTracert (tl (PlayerTracert_GetData pt) @ pad) = Some pt"
    using assms(7) len by (simp add: NewPlayerTracert_def PlayerTracert_GetData_def)
  have "uint (of_int n :: byte) = n" "uint (of_int d :: byte) = d"
    "unat (of_int n :: byte) = nat n" "unat (of_int d :: byte) = nat d"
    using assms(3-6) by (simp_all add: unsigned_of_int take_bit_int_eq_self)
  then show "NewReplyCharacters (tl (ReplyCharacters_GetData account n d) @ pad) = Some
      \<lparr>rcAccount = account, rcCharacterCount = n, rcDeletionCount = d,
       rcDeletionTimes = replicate (nat d) 0\<rparr>"
    using assms len
    by (simp add: NewReplyCharacters_def ReplyCharacters_GetData_def fold_WriteQ read_times_zeros)
qed

definition sample_trace :: PlayerTracert where
  "sample_trace = \<lparr>ptAccount = lit ''bob'', ptPcIP = lit ''10.0.0.7'', ptHop1 = [], ptHop2 = [],
     ptHop3 = [], ptHop4 = []\<rparr>"

lemma login_reads_game_packets_witness:
  "NewReplyCharacters (tl (ReplyCharacters_GetData (lit ''bob'') 3 1) @ [0]) = Some
      \<lparr>rcAccount = lit ''bob'', rcCharacterCount = 3, rcDeletionCount = 1, rcDeletionTimes = [0]\<rparr>"
proof -
  have "wire_string (lit ''bob'')" "lit ''bob'' \<noteq> []"
    "\<forall>s \<in> {ptAccount sample_trace, ptPcIP sample_trace, ptHop1 sample_trace, ptHop2 sample_trace,
       ptHop3 sample_trace, ptHop4 sample_trace}. wire_string s"
    by (simp_all add: sample_trace_def wire_string_def lit_def valid_rune_def)
  from login_reads_game_packets [OF this(1,2) _ _ _ _ this(3), of 3 1] show ?thesis by simp
qed

text \<open>
  The game server reads the four packets of the login server as they were meant, whatever
  padding follows: the modulus it rebuilds from InitLS is the one of the login server's key, with or
  without the sign byte, and the server id, the account names and the verdict come through.
\<close>

theorem game_reads_login_packets:
  assumes "wire_string account" and "0 \<le> n" and "n < 256" and "0 < RsaN key" and "rsa_size key < 2 ^ 30"
  shows "inls_NewAuthResponse (tl (AuthResponse_GetData n account) @ pad) = (n, account)
    \<and> inls_NewPlayerAuthResponse (tl (PlayerAuthResponse_GetData account authed) @ pad) = (account, authed)
    \<and> inls_NewRequestCharacters (tl (RequestCharacters_GetData account) @ pad) = account
    \<and> map_option HandleInitLS (inls_NewInitLS (tl (InitLS_GetData (init_modulus key)) @ pad))
        = Some (Inr \<lparr>RsaN = RsaN key, RsaE = 65537, RsaD = 0\<rparr>)"
proof (intro conjI)
  have "uint (of_int n :: byte) = n" using assms(2,3) by (simp add: unsigned_of_int take_bit_int_eq_self)
  then show "inls_NewAuthResponse (tl (AuthResponse_GetData n account) @ pad) = (n, account)"
    using inls_id_name [OF assms(1), of "of_int n" pad] by (simp add: AuthResponse_GetData_def)
  show "inls_NewPlayerAuthResponse (tl (PlayerAuthResponse_GetData account authed) @ pad) = (account, authed)"
    using inls_account_flag [OF assms(1), of "if authed then 1 else 0" pad]
    by (cases authed) (simp_all add: PlayerAuthResponse_GetData_def)
  show "inls_NewRequestCharacters (tl (RequestCharacters_GetData account) @ pad) = account"
    using inls_account [OF assms(1)] by (simp add: RequestCharacters_GetData_def)
  have "length (init_modulus key) < 2 ^ 31" using init_modulus_length [of key] assms(5) by simp
  then have "inls_NewInitLS (tl (InitLS_GetData (init_modulus key)) @ pad) = Some (init_modulus key)"
    using inls_NewInitLS_at [of "init_modulus key" pad] by (simp add: InitLS_GetData_def)
  moreover have "init_modulus key \<noteq> []" using assms(4) init_modulus_number [of key] by auto
  ultimately show "map_option HandleInitLS (inls_NewInitLS (tl (InitLS_GetData (init_modulus key)) @ pad))
        = Some (Inr \<lparr>RsaN = RsaN key, RsaE = 65537, RsaD = 0\<rparr>)"
    by (simp add: HandleInitLS_def init_modulus_number)
qed

lemma game_reads_login_packets_witness:
  "inls_NewPlayerAuthResponse (tl (PlayerAuthResponse_GetData (lit ''bob'') True) @ [0, 0]) = (lit ''bob'', True)"
proof -
  have "wire_string (lit ''bob'')" by (simp add: wire_string_def lit_def valid_rune_def)
  moreover have "0 < RsaN sample_rsa_key" "rsa_size sample_rsa_key < 2 ^ 30"
    by (simp_all add: sample_rsa_size) (simp add: sample_rsa_key_def)
  ultimately show ?thesis using game_reads_login_packets [of "lit ''bob''" 1 sample_rsa_key "[0, 0]" True] by simp
qed

section \<open>The exchange of the Blowfish key\<close>

text \<open>\<open>handleBlowFishKey\<close> of the login server: the key it stores for the connection.\<close>

definition handleBlowFishKey :: "rsa_key \<Rightarrow> byte list \<Rightarrow> (go_error + byte list) option" where
  "handleBlowFishKey privateKey data =
     do {
       blowFishKey \<leftarrow> NewBlowFishKey data;
       case blowFishKey of
         None \<Rightarrow> err ''failed to parse BlowFishKey packet''
       | Some encryptedKey \<Rightarrow>
           do {
             res \<leftarrow> DecryptKey privateKey encryptedKey;
             case res of
               Inl e \<Rightarrow> err (''failed to decrypt BlowFish key: '' @ e)
             | Inr decryptedKey \<Rightarrow> ok decryptedKey
           }
     }"

lemma first_nonzero_at:
  assumes "c \<noteq> 0"
  shows "first_nonzero (replicate z 0 @ c # cs) = int z"
proof -
  have "find (\<lambda>i. (replicate z 0 @ c # cs) ! i \<noteq> 0) [0..<length (replicate z 0 @ c # cs)] = Some z"
    unfolding find_Some_iff using assms by (intro exI [of _ z]) (auto simp: nth_append)
  then show ?thesis by (simp add: first_nonzero_def)
qed

lemma first_nonzero_none: "first_nonzero (replicate z 0) = -1"
proof -
  have "find (\<lambda>i. (replicate z 0 :: byte list) ! i \<noteq> 0) [0..<z] = None"
    by (simp add: find_None_iff)
  then show ?thesis by (simp add: first_nonzero_def)
qed

lemma leading_zeros:
  obtains z where "(msg :: byte list) = replicate z 0 @ dropWhile (\<lambda>b. b = 0) msg"
proof -
  have "takeWhile (\<lambda>b. b = 0) msg = replicate (length (takeWhile (\<lambda>b. b = 0) msg)) 0"
    by (rule replicate_length_same [symmetric]) (auto dest: set_takeWhileD)
  then show thesis using that takeWhile_dropWhile_id [of "\<lambda>b. b = 0" msg] by metis
qed

lemma Bytes_SetBytes_strip: "Bytes (SetBytes msg) = dropWhile (\<lambda>b. b = 0) msg"
proof -
  obtain z where z: "msg = replicate z 0 @ dropWhile (\<lambda>b. b = 0) msg" by (rule leading_zeros)
  have "SetBytes msg = SetBytes (dropWhile (\<lambda>b. b = 0) msg)"
    using SetBytes_zeros by (subst z) blast
  moreover have "dropWhile (\<lambda>b. b = 0) msg = [] \<or> hd (dropWhile (\<lambda>b. b = 0) msg) \<noteq> 0"
    using hd_dropWhile [of "\<lambda>b. b = 0" msg] by blast
  ultimately show ?thesis by (simp add: Bytes_SetBytes)
qed

lemma DecryptKey_short:
  assumes "rsa_pair key" and "SetBytes msg < RsaN key" and "length msg < 22"
  shows "DecryptKey key (rsa_encrypt key msg) = ok (case dropWhile (\<lambda>b. b = 0) msg of
      [] \<Rightarrow> replicate (rsa_size key) 0 | c # cs \<Rightarrow> c # cs)"
proof -
  let ?core = "dropWhile (\<lambda>b. b = 0) msg"
  have dec: "RsaDecryptNoPadding key (rsa_encrypt key msg) = Inr (pad_left (rsa_size key) ?core)"
    using RsaDecryptNoPadding_encrypt [OF assms(1,2)] by (simp add: Bytes_SetBytes_strip)
  have "length ?core \<le> rsa_size key"
    using length_Bytes [OF below_modulus [OF assms(2)]] by (simp add: Bytes_SetBytes_strip)
  then have pad: "pad_left (rsa_size key) ?core = replicate (rsa_size key - length ?core) 0 @ ?core"
    by (simp add: pad_left_def)
  have short: "length ?core < 22" using assms(3) length_dropWhile_le [of "\<lambda>b. b = 0" msg] by linarith
  show ?thesis
  proof (cases ?core)
    case Nil
    then show ?thesis
      unfolding DecryptKey_def dec Nil Let_def by (auto simp: pad_left_def first_nonzero_none
          first_nonzero_none [of 0, simplified])
  next
    case (Cons c cs)
    then have "c \<noteq> 0" using hd_dropWhile [of "\<lambda>b. b = 0" msg] by auto
    moreover have "pad_left (rsa_size key) (c # cs) = replicate (rsa_size key - Suc (length cs)) 0 @ c # cs"
      using pad Cons by simp
    ultimately show ?thesis
      unfolding DecryptKey_def dec Cons Let_def
      using short Cons by (simp add: first_nonzero_at go_slice_def)
  qed
qed

text \<open>
  The exchange of the 16-byte Blowfish key. The login server stores the game server's key with
  its leading zero bytes cut off (for the all-zero key, the whole zero block). So the two sides have
  the same key exactly when the first byte of the game server's random key is not zero; for one
  key in 256 the connection is dead after the exchange.
\<close>

theorem blowfish_key_exchange:
  assumes "rsa_pair key" and "rsa_size key = 128" and "SetBytes msg < RsaN key" and "length msg = 16"
  shows "handleBlowFishKey key (tl (BlowFishKey_Write msg key) @ pad) =
      ok (if \<forall>b \<in> set msg. b = 0 then replicate 128 0 else dropWhile (\<lambda>b. b = 0) msg)
    \<and> (handleBlowFishKey key (tl (BlowFishKey_Write msg key) @ pad) = ok msg \<longleftrightarrow> hd msg \<noteq> 0)"
proof -
  have len: "length (rsa_encrypt key msg) = 128" using assms(2,3) by simp
  obtain a b c d where b4: "bytes32 128 = [a, b, c, d]" "le32 a b c d = 128"
    using bytes32_def le32_bytes by metis
  have "tl (BlowFishKey_Write msg key) = bytes32 128 @ rsa_encrypt key msg"
    using len by (simp add: BlowFishKey_Write_def Let_def)
  then have "NewBlowFishKey (tl (BlowFishKey_Write msg key) @ pad) = Some (Some (rsa_encrypt key msg))"
    using len b4 by (simp add: NewBlowFishKey_eq)
  then have "handleBlowFishKey key (tl (BlowFishKey_Write msg key) @ pad) =
      ok (case dropWhile (\<lambda>b. b = 0) msg of [] \<Rightarrow> replicate 128 0 | c # cs \<Rightarrow> c # cs)"
    using DecryptKey_short [OF assms(1,3), unfolded assms(2)] assms(4) by (simp add: handleBlowFishKey_def)
  moreover have "(case dropWhile (\<lambda>b. b = 0) msg of [] \<Rightarrow> replicate 128 0 | c # cs \<Rightarrow> c # cs)
      = (if \<forall>b \<in> set msg. b = 0 then replicate 128 0 else dropWhile (\<lambda>b. b = 0) msg)"
    using dropWhile_eq_Nil_conv [of "\<lambda>b. b = 0" msg]
    by (cases "dropWhile (\<lambda>b. b = 0) msg") (auto simp del: dropWhile_eq_Nil_conv)
  moreover have "(if \<forall>b \<in> set msg. b = 0 then replicate 128 0 else dropWhile (\<lambda>b. b = 0) msg) = msg
      \<longleftrightarrow> hd msg \<noteq> 0"
  proof -
    obtain x xs where msg: "msg = x # xs" using assms(4) by (cases msg) auto
    have "length (dropWhile (\<lambda>b. b = 0) xs) \<noteq> length msg"
      using length_dropWhile_le [of "\<lambda>b. b = 0" xs] by (simp add: msg)
    moreover have "length (replicate 128 (0 :: byte)) \<noteq> length msg" using assms(4) by simp
    ultimately show ?thesis by (auto simp: msg dest: arg_cong [where f = length])
  qed
  ultimately show ?thesis by simp
qed

lemma blowfish_key_exchange_witness:
  "handleBlowFishKey sample_rsa_key (tl (BlowFishKey_Write ([0, 7] @ replicate 14 1) sample_rsa_key) @ [])
     = ok (7 # replicate 14 1)"
proof -
  have "SetBytes ([0, 7] @ replicate 14 1) < 256 ^ 16"
    using SetBytes_bound [of "[0, 7] @ replicate 14 1"] by simp
  also have "\<dots> < RsaN sample_rsa_key" by (simp add: sample_rsa_key_def)
  finally show ?thesis
    using blowfish_key_exchange [OF sample_rsa_pair sample_rsa_size, of "[0, 7] @ replicate 14 1" "[]"]
    by simp
qed

end
