(* ===== verification/LoginHandlers.thy ===== *)
theory LoginHandlers
  imports LoginSession ServerList Transport ServerWire
begin

text \<open>
  The login server's handlers: \<open>usecase/client.go\<close>, \<open>handlers/client\<close>, \<open>handlers/gameserver\<close> and the
  rest of \<open>usecase/gameservercomm.go\<close>. A handler takes the state of its connection and of the shared
  stores and returns them with the packets it sends. What the database and bcrypt answer are the
  fields of \<open>login_env\<close>. The last part is the life of the client connections as a step relation, one
  step for each section the handler runs under its mutex.
\<close>

section \<open>Logging in\<close>

record Account =
  AccountID :: int
  Username :: raw_string
  Password :: raw_string
  AccessLevel :: int
  AccountLastServer :: int

text \<open>The repository and bcrypt.\<close>

record login_env =
  GetByUsername :: "raw_string \<Rightarrow> go_error + Account option"
  CompareHashAndPassword :: "raw_string \<Rightarrow> raw_string \<Rightarrow> go_error + unit"
  GenerateFromPassword :: "raw_string \<Rightarrow> go_error + raw_string"
  CreateAccount :: "Account \<Rightarrow> go_error + int"
  UpdateLastServer :: "int \<Rightarrow> int \<Rightarrow> go_error + unit"

definition ACCESS_LEVEL_BANNED :: int where "ACCESS_LEVEL_BANNED = -1"
definition ACCESS_LEVEL_PLAYER :: int where "ACCESS_LEVEL_PLAYER = 0"

datatype login_error = ErrAccountBanned | ErrAccountNotFound | ErrOther go_error

text \<open>A nil request panics where its user name is logged.\<close>

definition HandleAuthLogin :: "login_env \<Rightarrow> bool \<Rightarrow> (raw_string \<times> raw_string) option
    \<Rightarrow> (login_error + Account) option" where
  "HandleAuthLogin env autoCreate request =
     (case request of
        None \<Rightarrow> None
      | Some (username, password) \<Rightarrow> Some
          (case GetByUsername env username of
             Inl _ \<Rightarrow> Inl ErrAccountNotFound
           | Inr (Some account) \<Rightarrow>
               if AccessLevel account = ACCESS_LEVEL_BANNED then Inl ErrAccountBanned
               else (case CompareHashAndPassword env (Password account) password of
                       Inl e \<Rightarrow> Inl (ErrOther e)
                     | Inr _ \<Rightarrow> Inr account)
           | Inr None \<Rightarrow>
               if autoCreate
               then (case GenerateFromPassword env password of
                       Inl e \<Rightarrow> Inl (ErrOther e)
                     | Inr hashedPassword \<Rightarrow>
                         let newAccount = \<lparr>AccountID = 0, Username = username, Password = hashedPassword,
                               AccessLevel = ACCESS_LEVEL_PLAYER, AccountLastServer = 0\<rparr>
                         in (case CreateAccount env newAccount of
                               Inl e \<Rightarrow> Inl (ErrOther e)
                             | Inr ident \<Rightarrow> Inr (newAccount\<lparr>AccountID := ident\<rparr>)))
               else Inl ErrAccountNotFound))"

record RequestServerLoginResult =
  LoginSuccess :: bool
  ResultPlayKey1 :: u32
  ResultPlayKey2 :: u32
  LoginReason :: string

text \<open>The user name of an account, all ASCII, as a key of the session store.\<close>

definition account_name :: "raw_string \<Rightarrow> go_string" where
  "account_name s = map unat s"

definition HandleRequestServerLogin :: "login_env \<Rightarrow> int \<Rightarrow> go_error + byte list \<Rightarrow> go_error + byte list
    \<Rightarrow> session_store \<Rightarrow> byte list \<times> byte \<Rightarrow> Account option \<Rightarrow> u32 \<Rightarrow> u32
    \<Rightarrow> (RequestServerLoginResult \<times> (go_error + unit)) \<times> Account option \<times> session_store" where
  "HandleRequestServerLogin env now rnd1 rnd2 store request account loginOkID1 loginOkID2 =
     (case account of
        None \<Rightarrow> ((\<lparr>LoginSuccess = False, ResultPlayKey1 = 0, ResultPlayKey2 = 0,
                   LoginReason = ''Account not authenticated''\<rparr>, Inr ()), None, store)
      | Some acc \<Rightarrow>
          let serverID = int (unat (snd request)) in
          (case CreateSessionKey now rnd1 rnd2 store (account_name (Username acc)) serverID loginOkID1 loginOkID2 of
             (Inl e, store) \<Rightarrow>
               ((\<lparr>LoginSuccess = False, ResultPlayKey1 = 0, ResultPlayKey2 = 0,
                  LoginReason = ''Failed to create session key''\<rparr>, Inl e), Some acc, store)
           | (Inr sessionKey, store) \<Rightarrow>
               let acc = (case UpdateLastServer env (AccountID acc) serverID of
                            Inl _ \<Rightarrow> acc | Inr _ \<Rightarrow> acc\<lparr>AccountLastServer := serverID\<rparr>)
               in ((\<lparr>LoginSuccess = True, ResultPlayKey1 = PlayKey1 sessionKey, ResultPlayKey2 = PlayKey2 sessionKey,
                     LoginReason = ''''\<rparr>, Inr ()), Some acc, store)))"

section \<open>The client connection\<close>

type_synonym client_id = nat

record Client =
  SessionID :: "byte list"
  PrivateKey :: rsa_key
  LoginOkID1 :: u32
  LoginOkID2 :: u32
  ClientAccount :: "Account option"
  ClientAccessLevel :: int
  LastServer :: int
  RemoteAddr :: go_string

datatype action = Send client_id "byte list" | CloseSocket client_id | SendToServer int "byte list"

type_synonym accounts = "(raw_string, client_id) go_map"

definition REASON_PASS_WRONG :: u32 where "REASON_PASS_WRONG = 0x02"
definition REASON_ACCESS_FAILED_TRY_AGAIN_LATER :: u32 where "REASON_ACCESS_FAILED_TRY_AGAIN_LATER = 0x04"
definition CONST_ACCESS_FAILED :: u32 where "CONST_ACCESS_FAILED = 0x15"
definition REASON_ACCOUNT_SUSPENDED_CALL :: u32 where "REASON_ACCOUNT_SUSPENDED_CALL = 0x28"

definition handleAuthGameGuard :: "client_id \<Rightarrow> Client \<Rightarrow> byte list \<Rightarrow> action list option" where
  "handleAuthGameGuard me client data =
     (let authGG = NewAuthGameGuard data;
          expectedSessionID = GetSessionIdFromSessionBytes (SessionID client)
      in if ggSessionId authGG \<noteq> expectedSessionID
         then Some [Send me (NewLoginFailPacket CONST_ACCESS_FAILED)]
         else do { resp \<leftarrow> NewGGAuthPacket (SessionID client); Some [Send me resp] })"

definition registerAccount :: "accounts \<Rightarrow> raw_string \<Rightarrow> client_id \<Rightarrow> client_id option \<times> accounts" where
  "registerAccount accounts username c =
     (let old = map_of accounts username;
          accounts = AList.update username c accounts
      in if old = Some c then (None, accounts) else (old, accounts))"

text \<open>\<open>RequestCharacterCountsFromAllServers\<close>: one packet to every server that is online.\<close>

definition RequestCharacterCountsFromAllServers :: "registry \<Rightarrow> go_string \<Rightarrow> action list" where
  "RequestCharacterCountsFromAllServers servers account =
     (let packetData = RequestCharacters_GetData account
      in map (\<lambda>server. SendToServer (InfoID server) packetData) (filter IsOnline (GetAll servers)))"

definition handleRequestAuthLogin :: "login_env \<Rightarrow> bool \<Rightarrow> (raw_string \<Rightarrow> raw_string) \<Rightarrow> registry
    \<Rightarrow> client_id \<Rightarrow> Client \<times> accounts \<Rightarrow> byte list \<Rightarrow> (action list \<times> Client \<times> accounts) option" where
  "handleRequestAuthLogin env autoCreate unicode_lower servers me st data =
     (case st of (client, accounts) \<Rightarrow> do {
        parsed \<leftarrow> NewRequestAuthLogin unicode_lower (PrivateKey client) data;
        let (acts, packet) = (case parsed of
            Inl _ \<Rightarrow> ([Send me (NewLoginFailPacket CONST_ACCESS_FAILED)], None)
          | Inr p \<Rightarrow> ([], Some p));
        res \<leftarrow> HandleAuthLogin env autoCreate packet;
        case res of
          Inl e \<Rightarrow>
            let reason = (case e of ErrAccountBanned \<Rightarrow> REASON_ACCOUNT_SUSPENDED_CALL
                | ErrAccountNotFound \<Rightarrow> REASON_PASS_WRONG | ErrOther _ \<Rightarrow> CONST_ACCESS_FAILED)
            in Some (acts @ [Send me (NewLoginFailPacket reason)], client, accounts)
        | Inr account \<Rightarrow>
            do {
              let client = client\<lparr>ClientAccount := Some account\<rparr>;
              let (old, accounts) = registerAccount accounts (Username account) me;
              let acts = acts @ (case old of
                  Some prev \<Rightarrow> [Send prev (NewLoginFailPacket REASON_ACCOUNT_IN_USE), CloseSocket prev] | None \<Rightarrow> []);
              id1 \<leftarrow> Uint32 (SessionID client);
              rest \<leftarrow> go_slice (SessionID client) 4 8;
              id2 \<leftarrow> Uint32 rest;
              let client = client\<lparr>ClientAccessLevel := AccessLevel account, LastServer := AccountLastServer account,
                  LoginOkID1 := id1, LoginOkID2 := id2\<rparr>;
              let acts = acts @ RequestCharacterCountsFromAllServers servers (account_name (Username account));
              okPacket \<leftarrow> NewLoginOkPacket (SessionID client);
              Some (acts @ [Send me okPacket], client, accounts)
            }
      })"

definition handleServerList :: "ip6_parser \<Rightarrow> resolver \<Rightarrow> int \<Rightarrow> int \<Rightarrow> registry \<Rightarrow> char_counts \<Rightarrow> client_id
    \<Rightarrow> Client \<Rightarrow> byte list \<Rightarrow> action list option" where
  "handleServerList parse6 lookup now cacheTTL servers counts me client data =
     do {
       let sessionID = NewRequestServerList data;
       expected \<leftarrow> go_slice (SessionID client) 0 8;
       if expected \<noteq> sessionID then Some [Send me (NewLoginFailPacket REASON_ACCESS_FAILED)]
       else
         (let visible = GetServerList servers (ClientAccessLevel client);
              characterCounts = (case ClientAccount client of
                  Some account \<Rightarrow> GetCharacterCounts now cacheTTL counts (account_name (Username account))
                | None \<Rightarrow> []);
              serverList = (if length characterCounts > 0
                  then NewServerListWithCharCounts visible (LastServer client) (RemoteAddr client)
                    (ClientAccessLevel client) characterCounts
                  else NewServerList visible (LastServer client) (RemoteAddr client) (ClientAccessLevel client))
          in Some [Send me (ServerList_GetData parse6 lookup serverList)])
     }"

definition handleRequestServerLogin :: "login_env \<Rightarrow> int \<Rightarrow> go_error + byte list \<Rightarrow> go_error + byte list
    \<Rightarrow> client_id \<Rightarrow> Client \<times> session_store \<Rightarrow> byte list
    \<Rightarrow> action list \<times> (go_error + unit) \<times> Client \<times> session_store" where
  "handleRequestServerLogin env now rnd1 rnd2 me st data =
     (case st of (client, store) \<Rightarrow>
      let packet = NewRequestServerLogin data in
      case HandleRequestServerLogin env now rnd1 rnd2 store packet (ClientAccount client)
          (LoginOkID1 client) (LoginOkID2 client) of
        ((login, e), account, store) \<Rightarrow>
          let client = client\<lparr>ClientAccount := account\<rparr> in
          (case e of
             Inl e \<Rightarrow> ([Send me (NewLoginFailPacket REASON_ACCESS_FAILED)], Inl e, client, store)
           | Inr _ \<Rightarrow>
               if \<not> LoginSuccess login
               then ([Send me (NewLoginFailPacket REASON_ACCESS_FAILED)], Inr (), client, store)
               else ([Send me (NewPlayOkPacket (ResultPlayKey1 login) (ResultPlayKey2 login))], Inr (),
                     client\<lparr>LastServer := int (unat (snd packet))\<rparr>, store)))"

text \<open>\<open>removeClient\<close>: the entry of the account goes only when it is still this client's.\<close>

definition removeClient :: "client_id list \<Rightarrow> accounts \<Rightarrow> client_id \<Rightarrow> raw_string option
    \<Rightarrow> client_id list \<times> accounts" where
  "removeClient clients accounts me account =
     (filter (\<lambda>c. c \<noteq> me) clients,
      case account of
        None \<Rightarrow> accounts
      | Some username \<Rightarrow> if map_of accounts username = Some me then AList.delete username accounts else accounts)"

section \<open>The game server connection\<close>

record GameServer =
  gsID :: int
  gsPrivateKey :: rsa_key
  gsDynamicBlowfishKey :: "byte list option"
  gsAuthenticated :: bool

text \<open>The stores the handlers of all connections share.\<close>

record login_state =
  lsServers :: registry
  lsSessions :: session_store
  lsCounts :: char_counts

type_synonym gs_result = "(go_error + unit) \<times> byte list list \<times> GameServer \<times> login_state"

definition NewGameServerConnection :: "rsa_key \<Rightarrow> GameServer" where
  "NewGameServerConnection privateKey =
     \<lparr>gsID = 0, gsPrivateKey = privateKey, gsDynamicBlowfishKey = None, gsAuthenticated = False\<rparr>"

text \<open>Each handler returns its error, the packets sent, and the two states. Logging is left out.\<close>

definition gs_fail :: "go_error \<Rightarrow> GameServer \<Rightarrow> login_state \<Rightarrow> gs_result" where
  "gs_fail e gs st = (Inl e, [], gs, st)"

definition not_authenticated :: go_error where
  "not_authenticated = ''GameServer not authenticated''"

definition gs_handleBlowFishKey :: "GameServer \<Rightarrow> login_state \<Rightarrow> byte list \<Rightarrow> gs_result option" where
  "gs_handleBlowFishKey gs st data =
     do {
       res \<leftarrow> handleBlowFishKey (gsPrivateKey gs) data;
       case res of
         Inl e \<Rightarrow> Some (gs_fail e gs st)
       | Inr decryptedKey \<Rightarrow> Some (Inr (), [], gs\<lparr>gsDynamicBlowfishKey := Some decryptedKey\<rparr>, st)
     }"

definition gs_handleAuthRequest :: "ip6_parser \<Rightarrow> int \<Rightarrow> GameServer \<Rightarrow> login_state \<Rightarrow> byte list \<Rightarrow> gs_result" where
  "gs_handleAuthRequest parse6 now gs st data =
     (case NewAuthRequest data of
        None \<Rightarrow> gs_fail ''failed to parse AuthRequest packet'' gs st
      | Some authRequest \<Rightarrow>
          (case HandleAuthRequest parse6 now (lsServers st) authRequest of
             ((result, e), servers) \<Rightarrow>
               let st = st\<lparr>lsServers := servers\<rparr> in
               (case e of
                  Inl e \<Rightarrow> gs_fail e gs st
                | Inr _ \<Rightarrow>
                    if \<not> AuthSuccess result then gs_fail (''authentication rejected: '' @ AuthReason result) gs st
                    else let gs = gs\<lparr>gsID := AuthServerID result, gsAuthenticated := True\<rparr>
                         in (Inr (), [AuthResponse_GetData (AuthServerID result) (AuthServerName result)], gs, st))))"

definition gs_handlePlayerInGame :: "GameServer \<Rightarrow> login_state \<Rightarrow> byte list \<Rightarrow> gs_result" where
  "gs_handlePlayerInGame gs st data =
     (if \<not> gsAuthenticated gs then gs_fail not_authenticated gs st else (Inr (), [], gs, st))"

definition gs_handlePlayerLogout :: "GameServer \<Rightarrow> login_state \<Rightarrow> byte list \<Rightarrow> gs_result" where
  "gs_handlePlayerLogout gs st data =
     (if \<not> gsAuthenticated gs then gs_fail not_authenticated gs st
      else case NewPlayerLogout data of
             None \<Rightarrow> gs_fail ''failed to parse PlayerLogout packet'' gs st
           | Some account \<Rightarrow>
               (Inr (), [], gs, st\<lparr>lsSessions := HandlePlayerLogout (lsSessions st) account\<rparr>))"

definition gs_handlePlayerAuthRequest :: "int \<Rightarrow> int \<Rightarrow> GameServer \<Rightarrow> login_state \<Rightarrow> byte list \<Rightarrow> gs_result" where
  "gs_handlePlayerAuthRequest now maxAge gs st data =
     (if \<not> gsAuthenticated gs then gs_fail not_authenticated gs st
      else case NewPlayerAuthRequest data of
             None \<Rightarrow> gs_fail ''failed to parse PlayerAuthRequest packet'' gs st
           | Some authReq \<Rightarrow>
               (case HandlePlayerAuthRequest now maxAge (lsSessions st) (parAccount authReq) (parGetSessionKey authReq) of
                  (result, sessions) \<Rightarrow>
                    (Inr (), [PlayerAuthResponse_GetData (ResultAccount result) (ResultSuccess result)], gs,
                     st\<lparr>lsSessions := sessions\<rparr>)))"

definition gs_handleServerStatus :: "GameServer \<Rightarrow> login_state \<Rightarrow> byte list \<Rightarrow> gs_result" where
  "gs_handleServerStatus gs st data =
     (if \<not> gsAuthenticated gs then gs_fail not_authenticated gs st else (Inr (), [], gs, st))"

definition gs_handlePlayerTracert :: "GameServer \<Rightarrow> login_state \<Rightarrow> byte list \<Rightarrow> gs_result" where
  "gs_handlePlayerTracert gs st data =
     (if \<not> gsAuthenticated gs then gs_fail not_authenticated gs st
      else if NewPlayerTracert data = None then gs_fail ''failed to parse PlayerTracert packet'' gs st
      else (Inr (), [], gs, st))"

definition gs_handleReplyCharacters :: "int \<Rightarrow> GameServer \<Rightarrow> login_state \<Rightarrow> byte list \<Rightarrow> gs_result" where
  "gs_handleReplyCharacters now gs st data =
     (if \<not> gsAuthenticated gs then gs_fail not_authenticated gs st
      else case NewReplyCharacters data of
             None \<Rightarrow> gs_fail ''failed to parse ReplyCharacters packet'' gs st
           | Some reply \<Rightarrow>
               (Inr (), [], gs, st\<lparr>lsCounts := HandleReplyCharacters now (lsCounts st) reply (gsID gs)\<rparr>))"

definition gs_handlePacket :: "ip6_parser \<Rightarrow> int \<Rightarrow> int \<Rightarrow> GameServer \<Rightarrow> login_state \<Rightarrow> byte \<Rightarrow> byte list
    \<Rightarrow> gs_result option" where
  "gs_handlePacket parse6 now maxAge gs st opcode data =
     (if opcode = 0x00 then gs_handleBlowFishKey gs st data
      else if opcode = 0x01 then Some (gs_handleAuthRequest parse6 now gs st data)
      else if opcode = 0x02 then Some (gs_handlePlayerInGame gs st data)
      else if opcode = 0x03 then Some (gs_handlePlayerLogout gs st data)
      else if opcode = 0x05 then Some (gs_handlePlayerAuthRequest now maxAge gs st data)
      else if opcode = 0x06 then Some (gs_handleServerStatus gs st data)
      else if opcode = 0x07 then Some (gs_handlePlayerTracert gs st data)
      else if opcode = 0x08 then Some (gs_handleReplyCharacters now gs st data)
      else Some (gs_fail ''unknown GameServer packet opcode'' gs st))"

text \<open>\<open>SendToServer\<close> over one order of the connections; the result is the index of the receiver.\<close>

definition find_server :: "GameServer list \<Rightarrow> int \<Rightarrow> nat option" where
  "find_server gss serverID =
     find (\<lambda>i. gsAuthenticated (gss ! i) \<and> gsID (gss ! i) = serverID) [0..<length gss]"

section \<open>The life of the client connections\<close>

text \<open>
  Where the goroutine of a connection is. A login that succeeded has three sections of its own:
  the account is set (\<open>Named\<close>), the client is registered, with an older client of the account to be
  kicked (\<open>Kick\<close>), and the socket of that one is closed. A connection ends by closing its socket
  (\<open>Closing\<close>) and then leaving the handler's maps (\<open>Gone\<close>). A kicked client's socket is closed while its
  goroutine goes on until its next read.
\<close>

datatype client_pc = Idle | Named raw_string | Kick "client_id option" | Closing | Gone

record connection =
  Pc_c :: client_pc
  Open_c :: bool
  Account_c :: "raw_string option"

type_synonym login_conf = "(client_id \<rightharpoonup> connection) \<times> client_id list \<times> accounts"

inductive client_step :: "login_conf \<Rightarrow> login_conf \<Rightarrow> bool" where
  connect: "conns c = None \<Longrightarrow>
    client_step (conns, clients, accs)
      (conns(c \<mapsto> \<lparr>Pc_c = Idle, Open_c = True, Account_c = None\<rparr>), c # clients, accs)"
| authenticated: "conns c = Some k \<Longrightarrow> Pc_c k = Idle \<Longrightarrow>
    client_step (conns, clients, accs) (conns(c \<mapsto> k\<lparr>Pc_c := Named a, Account_c := Some a\<rparr>), clients, accs)"
| register: "conns c = Some k \<Longrightarrow> Pc_c k = Named a \<Longrightarrow> registerAccount accs a c = (old, accs') \<Longrightarrow>
    client_step (conns, clients, accs) (conns(c \<mapsto> k\<lparr>Pc_c := Kick old\<rparr>), clients, accs')"
| kick: "conns c = Some k \<Longrightarrow> Pc_c k = Kick (Some d) \<Longrightarrow> conns d = Some j \<Longrightarrow> d \<noteq> c \<Longrightarrow>
    client_step (conns, clients, accs)
      (conns(c \<mapsto> k\<lparr>Pc_c := Idle\<rparr>, d \<mapsto> j\<lparr>Open_c := False\<rparr>), clients, accs)"
| no_kick: "conns c = Some k \<Longrightarrow> Pc_c k = Kick None \<Longrightarrow>
    client_step (conns, clients, accs) (conns(c \<mapsto> k\<lparr>Pc_c := Idle\<rparr>), clients, accs)"
| hang_up: "conns c = Some k \<Longrightarrow> Pc_c k = Idle \<Longrightarrow>
    client_step (conns, clients, accs) (conns(c \<mapsto> k\<lparr>Pc_c := Closing, Open_c := False\<rparr>), clients, accs)"
| leave: "conns c = Some k \<Longrightarrow> Pc_c k = Closing \<Longrightarrow>
    removeClient clients accs c (Account_c k) = (clients', accs') \<Longrightarrow>
    client_step (conns, clients, accs) (conns(c \<mapsto> k\<lparr>Pc_c := Gone\<rparr>), clients', accs')"

inductive_cases client_stepE: "client_step c c'"

definition login_start :: login_conf where
  "login_start = (Map.empty, [], [])"

definition login_reachable :: "login_conf \<Rightarrow> bool" where
  "login_reachable conf \<longleftrightarrow> client_step\<^sup>*\<^sup>* login_start conf"

text \<open>An open client of an account is the registered one, unless somebody is about to kick it.\<close>

definition kicked :: "(client_id \<rightharpoonup> connection) \<Rightarrow> client_id \<Rightarrow> bool" where
  "kicked conns c \<longleftrightarrow> (\<exists>d j. conns d = Some j \<and> Pc_c j = Kick (Some c))"

definition closed_when_leaving :: "(client_id \<rightharpoonup> connection) \<Rightarrow> bool" where
  "closed_when_leaving conns \<longleftrightarrow> (\<forall>c k. conns c = Some k \<longrightarrow> Pc_c k \<in> {Closing, Gone} \<longrightarrow> \<not> Open_c k)"

definition named_account :: "(client_id \<rightharpoonup> connection) \<Rightarrow> bool" where
  "named_account conns \<longleftrightarrow> (\<forall>c k a. conns c = Some k \<longrightarrow> Pc_c k = Named a \<longrightarrow> Account_c k = Some a)"

definition registered :: "(client_id \<rightharpoonup> connection) \<Rightarrow> accounts \<Rightarrow> bool" where
  "registered conns accs \<longleftrightarrow> (\<forall>c k a. conns c = Some k \<longrightarrow> Open_c k \<longrightarrow> Account_c k = Some a \<longrightarrow>
     Pc_c k \<noteq> Named a \<longrightarrow> map_of accs a = Some c \<or> kicked conns c)"

definition login_inv :: "login_conf \<Rightarrow> bool" where
  "login_inv conf \<longleftrightarrow> (case conf of (conns, clients, accs) \<Rightarrow>
     closed_when_leaving conns \<and> named_account conns \<and> registered conns accs)"

lemma registered_mono:
  assumes "registered conns accs"
    and "\<And>x kx a. conns' x = Some kx \<Longrightarrow> Open_c kx \<Longrightarrow> Account_c kx = Some a \<Longrightarrow> Pc_c kx \<noteq> Named a \<Longrightarrow>
      \<exists>ky. conns x = Some ky \<and> Open_c ky \<and> Account_c ky = Some a \<and> Pc_c ky \<noteq> Named a"
    and "\<And>x kx. kicked conns x \<Longrightarrow> conns' x = Some kx \<Longrightarrow> Open_c kx \<Longrightarrow> kicked conns' x"
    and "\<And>x kx a. conns' x = Some kx \<Longrightarrow> Open_c kx \<Longrightarrow> map_of accs a = Some x \<Longrightarrow> map_of accs' a = Some x"
  shows "registered conns' accs'"
  using assms unfolding registered_def by meson

lemma kicked_other:
  assumes "kicked conns x" and "\<And>k. conns c = Some k \<Longrightarrow> Pc_c k \<noteq> Kick (Some x)"
  shows "kicked (conns(c \<mapsto> k')) x"
proof -
  from assms(1) obtain d j where d: "conns d = Some j" "Pc_c j = Kick (Some x)" unfolding kicked_def by blast
  with assms(2) have "d \<noteq> c" by auto
  with d show ?thesis unfolding kicked_def by (intro exI [of _ d]) auto
qed

lemma login_inv_step:
  assumes "client_step conf conf'" and "login_inv conf"
  shows "login_inv conf'"
proof -
  have shape: "closed_when_leaving conns'" "named_account conns'"
    if "client_step (conns, clients, accs) (conns', clients', accs')" "closed_when_leaving conns" "named_account conns"
    for conns conns' clients clients' accs accs'
    using that by (cases rule: client_step.cases;
        fastforce simp: closed_when_leaving_def named_account_def split: if_splits)+
  from assms show ?thesis
  proof cases
    case (register conns c k a accs old accs' clients)
    have inv: "closed_when_leaving conns" "named_account conns" "registered conns accs"
      using assms(2) register by (simp_all add: login_inv_def)
    have acc: "Account_c k = Some a" using inv(2) register unfolding named_account_def by blast
    have old: "accs' = AList.update a c accs" "old = (if map_of accs a = Some c then None else map_of accs a)"
      using register by (auto simp: registerAccount_def Let_def split: if_splits)
    have "registered (conns(c \<mapsto> k\<lparr>Pc_c := Kick old\<rparr>)) accs'"
      unfolding registered_def
    proof (intro allI impI)
      fix c' k' a'
      assume k': "(conns(c \<mapsto> k\<lparr>Pc_c := Kick old\<rparr>)) c' = Some k'" "Open_c k'" "Account_c k' = Some a'"
        "Pc_c k' \<noteq> Named a'"
      show "map_of accs' a' = Some c' \<or> kicked (conns(c \<mapsto> k\<lparr>Pc_c := Kick old\<rparr>)) c'"
      proof (cases "c' = c")
        case True
        then show ?thesis using k' acc old(1) by auto
      next
        case False
        with k' have "map_of accs a' = Some c' \<or> kicked conns c'"
          using inv(3) unfolding registered_def by auto
        then show ?thesis
        proof
          assume "map_of accs a' = Some c'"
          then show ?thesis
            using False old unfolding kicked_def by (cases "a' = a") auto
        next
          assume "kicked conns c'"
          then obtain d j where d: "conns d = Some j" "Pc_c j = Kick (Some c')" unfolding kicked_def by blast
          with register have "d \<noteq> c" by auto
          with d have "kicked (conns(c \<mapsto> k\<lparr>Pc_c := Kick old\<rparr>)) c'"
            unfolding kicked_def by (intro exI [of _ d]) auto
          then show ?thesis ..
        qed
      qed
    qed
    with shape assms(1) inv register show ?thesis by (simp add: login_inv_def)
  next
    case (kick conns c k d j clients accs)
    have inv: "closed_when_leaving conns" "named_account conns" "registered conns accs"
      using assms(2) kick by (simp_all add: login_inv_def)
    let ?conns = "conns(c \<mapsto> k\<lparr>Pc_c := Idle\<rparr>, d \<mapsto> j\<lparr>Open_c := False\<rparr>)"
    have "kicked ?conns x" if "kicked conns x" "?conns x = Some kx" "Open_c kx" for x kx
    proof -
      from that have "x \<noteq> d" by auto
      obtain e m where e: "conns e = Some m" "Pc_c m = Kick (Some x)" using \<open>kicked conns x\<close> unfolding kicked_def by blast
      with kick \<open>x \<noteq> d\<close> have "e \<noteq> c" by auto
      with e kick show ?thesis unfolding kicked_def by (intro exI [of _ e]) auto
    qed
    moreover have "\<exists>ky. conns x = Some ky \<and> Open_c ky \<and> Account_c ky = Some a \<and> Pc_c ky \<noteq> Named a"
      if "?conns x = Some kx" "Open_c kx" "Account_c kx = Some a" "Pc_c kx \<noteq> Named a" for x kx a
      using that kick by (auto split: if_splits)
    ultimately have "registered ?conns accs" by (intro registered_mono [OF inv(3)]) blast+
    with shape assms(1) inv kick show ?thesis by (simp add: login_inv_def)
  next
    case (leave conns c k clients accs clients' accs')
    have inv: "closed_when_leaving conns" "named_account conns" "registered conns accs"
      using assms(2) leave by (simp_all add: login_inv_def)
    have "\<not> Open_c k" using inv(1) leave unfolding closed_when_leaving_def by blast
    then have "registered (conns(c \<mapsto> k\<lparr>Pc_c := Gone\<rparr>)) accs'"
      using leave by (intro registered_mono [OF inv(3)])
        (auto simp: removeClient_def intro: kicked_other split: if_splits option.splits)
    with shape assms(1) inv leave show ?thesis by (simp add: login_inv_def)
  next
    case (connect conns c clients accs)
    have inv: "closed_when_leaving conns" "named_account conns" "registered conns accs"
      using assms(2) connect by (simp_all add: login_inv_def)
    have "registered (conns(c \<mapsto> \<lparr>Pc_c = Idle, Open_c = True, Account_c = None\<rparr>)) accs"
      using connect by (intro registered_mono [OF inv(3)]) (auto intro: kicked_other split: if_splits)
    with shape assms(1) inv connect show ?thesis by (simp add: login_inv_def)
  next
    case (authenticated conns c k clients accs a)
    have inv: "closed_when_leaving conns" "named_account conns" "registered conns accs"
      using assms(2) authenticated by (simp_all add: login_inv_def)
    have "registered (conns(c \<mapsto> k\<lparr>Pc_c := Named a, Account_c := Some a\<rparr>)) accs"
      using authenticated by (intro registered_mono [OF inv(3)]) (auto intro: kicked_other split: if_splits)
    with shape assms(1) inv authenticated show ?thesis by (simp add: login_inv_def)
  next
    case (no_kick conns c k clients accs)
    have inv: "closed_when_leaving conns" "named_account conns" "registered conns accs"
      using assms(2) no_kick by (simp_all add: login_inv_def)
    have "registered (conns(c \<mapsto> k\<lparr>Pc_c := Idle\<rparr>)) accs"
      using no_kick by (intro registered_mono [OF inv(3)]) (auto intro: kicked_other split: if_splits)
    with shape assms(1) inv no_kick show ?thesis by (simp add: login_inv_def)
  next
    case (hang_up conns c k clients accs)
    have inv: "closed_when_leaving conns" "named_account conns" "registered conns accs"
      using assms(2) hang_up by (simp_all add: login_inv_def)
    have "registered (conns(c \<mapsto> k\<lparr>Pc_c := Closing, Open_c := False\<rparr>)) accs"
      using hang_up by (intro registered_mono [OF inv(3)]) (auto intro: kicked_other split: if_splits)
    with shape assms(1) inv hang_up show ?thesis by (simp add: login_inv_def)
  qed
qed

lemma login_reachable_inv: "login_reachable conf \<Longrightarrow> login_inv conf"
  unfolding login_reachable_def
proof (induction rule: rtranclp_induct)
  case base
  show ?case
    by (simp add: login_start_def login_inv_def closed_when_leaving_def named_account_def registered_def)
next
  case (step conf conf')
  then show ?case by (blast intro: login_inv_step)
qed

section \<open>Properties\<close>

text \<open>
  C35: One session per account. In every state the client connections can reach, whatever logins,
  re-logins under other names, kicks and disconnects interleave, two different connections with open
  sockets do not have the same account once no login is half done.
\<close>

theorem one_client_per_account:
  assumes "login_reachable (conns, clients, accs)"
    and "\<forall>x m. conns x = Some m \<longrightarrow> Pc_c m \<in> {Idle, Closing, Gone}"
    and "conns c = Some k" and "Open_c k" and "Account_c k = Some a"
    and "conns d = Some j" and "Open_c j" and "Account_c j = Some a"
  shows "c = d"
proof -
  have inv: "registered conns accs" using login_reachable_inv [OF assms(1)] by (simp add: login_inv_def)
  have "\<not> kicked conns x" for x using assms(2) unfolding kicked_def by fastforce
  moreover have "Pc_c k \<noteq> Named a" "Pc_c j \<noteq> Named a" using assms(2,3,6) by fastforce+
  ultimately have "map_of accs a = Some c" "map_of accs a = Some d"
    using inv assms(3-8) unfolding registered_def by blast+
  then show ?thesis by simp
qed

lemma one_client_per_account_witness:
  "login_reachable (Map.empty(7 \<mapsto> \<lparr>Pc_c = Idle, Open_c = True, Account_c = Some [98, 111, 98]\<rparr>), [7], [([98, 111, 98], 7)])
    \<and> (7 :: client_id) = 7"
proof -
  let ?k = "\<lambda>pc a. \<lparr>Pc_c = pc, Open_c = True, Account_c = a\<rparr>"
  let ?a = "[98, 111, 98] :: raw_string"
  have "client_step login_start (Map.empty(7 \<mapsto> ?k Idle None), [7], [])"
    unfolding login_start_def by (rule client_step.connect) simp
  moreover have "client_step (Map.empty(7 \<mapsto> ?k Idle None), [7], []) (Map.empty(7 \<mapsto> ?k (Named ?a) (Some ?a)), [7], [])"
    using client_step.authenticated [of "Map.empty(7 \<mapsto> ?k Idle None)" 7 "?k Idle None" "[7]" "[]" ?a] by simp
  moreover have "client_step (Map.empty(7 \<mapsto> ?k (Named ?a) (Some ?a)), [7], [])
      (Map.empty(7 \<mapsto> ?k (Kick None) (Some ?a)), [7], [(?a, 7)])"
    using client_step.register [of "Map.empty(7 \<mapsto> ?k (Named ?a) (Some ?a))" 7 "?k (Named ?a) (Some ?a)" ?a "[]" None "[(?a, 7)]" "[7]"]
    by (simp add: registerAccount_def)
  moreover have "client_step (Map.empty(7 \<mapsto> ?k (Kick None) (Some ?a)), [7], [(?a, 7)])
      (Map.empty(7 \<mapsto> ?k Idle (Some ?a)), [7], [(?a, 7)])"
    using client_step.no_kick [of "Map.empty(7 \<mapsto> ?k (Kick None) (Some ?a))" 7 "?k (Kick None) (Some ?a)" "[7]" "[(?a, 7)]"] by simp
  ultimately have r: "login_reachable (Map.empty(7 \<mapsto> ?k Idle (Some ?a)), [7], [(?a, 7)])"
    unfolding login_reachable_def by (meson converse_rtranclp_into_rtranclp rtranclp.rtrancl_refl)
  then have "(7 :: client_id) = 7" by (rule one_client_per_account [where k = "?k Idle (Some ?a)" and j = "?k Idle (Some ?a)" and a = ?a]) auto
  with r show ?thesis by simp
qed

text \<open>
  The end of a malformed login. When the login packet of a client does not parse, because it is
  too short, its block has the wrong size or its credentials are not plausible, the handler sends the
  failure and goes on with a nil request, which panics; and that is the only way it panics, for the
  16-byte session ids the server makes.
\<close>

theorem malformed_login_panics:
  assumes "length (SessionID client) = 16"
  shows "panics (handleRequestAuthLogin env autoCreate unicode_lower servers me (client, accs) data)
    \<longleftrightarrow> (\<exists>e. NewRequestAuthLogin unicode_lower (PrivateKey client) data = err e)"
proof -
  have "NewRequestAuthLogin unicode_lower (PrivateKey client) data \<noteq> None"
    by (auto simp: NewRequestAuthLogin_def go_slice_def extractCredsFromDecrypted128_def Let_def
        split: sum.splits)
  then obtain parsed where parsed: "NewRequestAuthLogin unicode_lower (PrivateKey client) data = Some parsed" by auto
  have ids: "\<exists>x. Uint32 (SessionID client) = Some x" "\<exists>r y. go_slice (SessionID client) 4 8 = Some r \<and> Uint32 r = Some y"
    "\<exists>p. NewLoginOkPacket (SessionID client) = Some p"
    using assms by (auto simp: Uint32_def go_slice_def NewLoginOkPacket_def Let_def)
  show ?thesis
  proof (cases parsed)
    case (Inl e)
    then show ?thesis by (simp add: handleRequestAuthLogin_def parsed HandleAuthLogin_def)
  next
    case (Inr p)
    then show ?thesis
      using ids by (cases p) (auto simp: handleRequestAuthLogin_def parsed HandleAuthLogin_def Let_def
          split: sum.split option.split prod.split)
  qed
qed

definition sample_client :: Client where
  "sample_client = \<lparr>SessionID = replicate 16 7, PrivateKey = sample_rsa_key, LoginOkID1 = 0, LoginOkID2 = 0,
     ClientAccount = None, ClientAccessLevel = 0, LastServer = 0, RemoteAddr = []\<rparr>"

definition sample_env :: login_env where
  "sample_env = \<lparr>GetByUsername = (\<lambda>_. Inr None), CompareHashAndPassword = (\<lambda>_ _. Inr ()),
     GenerateFromPassword = Inr, CreateAccount = (\<lambda>_. Inr 1), UpdateLastServer = (\<lambda>_ _. Inr ())\<rparr>"

lemma malformed_login_panics_witness:
  "panics (handleRequestAuthLogin sample_env True (\<lambda>s. s) [] 1 (sample_client, []) [1, 2, 3])"
  using malformed_login_panics [of sample_client sample_env True "\<lambda>s. s" "[]" 1 "[]" "[1, 2, 3]"]
  by (simp add: sample_client_def NewRequestAuthLogin_def)

text \<open>Who may log in: the owner of the password of an account that is not banned, or a new account.\<close>

definition authentic :: "login_env \<Rightarrow> bool \<Rightarrow> raw_string \<Rightarrow> raw_string \<Rightarrow> Account \<Rightarrow> bool" where
  "authentic env autoCreate user pass account \<longleftrightarrow>
     (GetByUsername env user = Inr (Some account) \<and> AccessLevel account \<noteq> -1
        \<and> CompareHashAndPassword env (Password account) pass = Inr ())
     \<or> (autoCreate \<and> GetByUsername env user = Inr None \<and> Username account = user \<and> AccessLevel account = 0
        \<and> GenerateFromPassword env pass = Inr (Password account))"

text \<open>
  C4: Who gets in. When the login handler returns, either nothing has changed and the client was
  sent failures only, or the packet held credentials of an account that may log in, the client
  has this account and is its registered connection, its two session key halves are the first and the second
  four bytes of its session id, little-endian, the connection registered before was kicked, and the client was told so last.
\<close>

theorem login_authentic:
  assumes "handleRequestAuthLogin env autoCreate unicode_lower servers me (client, accs) data
      = Some (acts, client', accs')"
  shows "(client' = client \<and> accs' = accs \<and> (\<forall>x \<in> set acts. \<exists>reason. x = Send me (NewLoginFailPacket reason)))
    \<or> (\<exists>user pass account okPacket.
        NewRequestAuthLogin unicode_lower (PrivateKey client) data = ok (user, pass)
        \<and> authentic env autoCreate user pass account
        \<and> ClientAccount client' = Some account \<and> map_of accs' (Username account) = Some me
        \<and> Uint32 (SessionID client) = Some (LoginOkID1 client')
        \<and> Option.bind (go_slice (SessionID client) 4 8) Uint32 = Some (LoginOkID2 client')
        \<and> (\<forall>c. map_of accs (Username account) = Some c \<longrightarrow> c \<noteq> me \<longrightarrow> CloseSocket c \<in> set acts)
        \<and> NewLoginOkPacket (SessionID client) = Some okPacket \<and> last acts = Send me okPacket)"
proof -
  obtain parsed where parsed: "NewRequestAuthLogin unicode_lower (PrivateKey client) data = Some parsed"
    using assms by (auto simp: handleRequestAuthLogin_def bind_eq_Some_conv)
  show ?thesis
  proof (cases parsed)
    case (Inl e)
    then show ?thesis using assms by (simp add: handleRequestAuthLogin_def parsed HandleAuthLogin_def)
  next
    case (Inr p)
    obtain user pass where p: "p = (user, pass)" by fastforce
    obtain res where res: "HandleAuthLogin env autoCreate (Some (user, pass)) = Some res"
      by (simp add: HandleAuthLogin_def)
    show ?thesis
    proof (cases res)
      case (Inl e)
      then show ?thesis
        using assms by (auto simp: handleRequestAuthLogin_def parsed Inr p res split: login_error.splits)
    next
      case res': (Inr account)
      have "authentic env autoCreate user pass account"
        using res res' by (auto simp: HandleAuthLogin_def authentic_def ACCESS_LEVEL_BANNED_def
            ACCESS_LEVEL_PLAYER_def Let_def split: sum.splits option.splits if_splits)
      then show ?thesis
        using assms by (auto simp: handleRequestAuthLogin_def parsed Inr p res res' bind_eq_Some_conv
            registerAccount_def Let_def split: option.splits if_splits)
    qed
  qed
qed

lemma sample_login_parses:
  "NewRequestAuthLogin (\<lambda>s. s) sample_rsa_key (rsa_encrypt sample_rsa_key sample_block)
     = ok (map ascii_lower [0x42, 0x6F, 0x62], [0x73, 0x33, 0x63, 0x72])"
proof -
  have "SetBytes sample_block = SetBytes (drop 94 sample_block)" by (simp add: sample_block_def)
  also have "\<dots> < 256 ^ 34" using SetBytes_bound [of "drop 94 sample_block"] by (simp add: sample_block_def)
  also have "\<dots> < RsaN sample_rsa_key" by (simp add: sample_rsa_key_def)
  finally have below: "SetBytes sample_block < RsaN sample_rsa_key" .
  have len: "length sample_block = 128" by (simp add: sample_block_def)
  have "RsaDecryptNoPadding sample_rsa_key (rsa_encrypt sample_rsa_key sample_block) = Inr sample_block"
    using RsaDecryptNoPadding_encrypt [OF sample_rsa_pair below] len
    by (simp add: pad_left_Bytes_SetBytes sample_rsa_size)
  moreover have "extractCredsFromDecrypted128 (\<lambda>s. s) sample_block = ok (map ascii_lower [0x42, 0x6F, 0x62], [0x73, 0x33, 0x63, 0x72])"
    by (rule extractCreds_block)
      (simp_all add: sample_block_def plausible_user_rune_def IsLetter_def plausiblePass_def)
  ultimately show ?thesis using below by (simp add: NewRequestAuthLogin_def go_slice_def sample_rsa_size)
qed

definition bob :: Account where
  "bob = \<lparr>AccountID = 1, Username = map ascii_lower [0x42, 0x6F, 0x62], Password = [0x73, 0x33, 0x63, 0x72],
     AccessLevel = 0, AccountLastServer = 0\<rparr>"

lemma sample_login:
  "\<exists>client' okPacket. handleRequestAuthLogin sample_env True (\<lambda>s. s) [] 1 (sample_client, [])
      (rsa_encrypt sample_rsa_key sample_block) = Some ([Send 1 okPacket], client', [(Username bob, 1)])
    \<and> ClientAccount client' = Some bob"
  using sample_login_parses
  by (simp add: handleRequestAuthLogin_def HandleAuthLogin_def sample_client_def sample_env_def registerAccount_def
      bob_def ACCESS_LEVEL_PLAYER_def RequestCharacterCountsFromAllServers_def GetAll_def Uint32_def go_slice_def
      NewLoginOkPacket_def Let_def)

lemma login_authentic_witness: "\<exists>user pass. authentic sample_env True user pass bob"
proof -
  obtain client' okPacket where run: "handleRequestAuthLogin sample_env True (\<lambda>s. s) [] 1 (sample_client, [])
      (rsa_encrypt sample_rsa_key sample_block) = Some ([Send 1 okPacket], client', [(Username bob, 1)])"
    and acc: "ClientAccount client' = Some bob"
    using sample_login by blast
  have "client' \<noteq> sample_client" using acc by (auto simp: sample_client_def)
  with login_authentic [OF run] acc show ?thesis by auto
qed

text \<open>
  C36: A game server that has not been let in changes nothing. On a connection without a successful
  AuthRequest, every packet but BlowFishKey and AuthRequest ends the connection with an error, sends nothing
  and leaves the registry, the session keys, the counts and the connection as they are; BlowFishKey sends
  nothing either and changes nothing but the key of the connection.
\<close>

theorem unauthenticated_game_server:
  assumes "\<not> gsAuthenticated gs" and "opcode \<noteq> 1"
    and "gs_handlePacket parse6 now maxAge gs st opcode data = Some (res, sent, gs', st')"
  shows "sent = [] \<and> st' = st \<and> \<not> gsAuthenticated gs'
    \<and> (opcode \<noteq> 0 \<longrightarrow> gs' = gs \<and> (\<exists>e. res = Inl e))
    \<and> (opcode = 0 \<longrightarrow> gs'\<lparr>gsDynamicBlowfishKey := gsDynamicBlowfishKey gs\<rparr> = gs)"
proof (cases "opcode = 0")
  case True
  then obtain key where "handleBlowFishKey (gsPrivateKey gs) data = Some key"
    using assms(3) by (auto simp: gs_handlePacket_def gs_handleBlowFishKey_def bind_eq_Some_conv)
  with True assms show ?thesis
    by (cases key) (auto simp: gs_handlePacket_def gs_handleBlowFishKey_def gs_fail_def)
next
  case False
  with assms show ?thesis
    by (auto simp: gs_handlePacket_def gs_fail_def gs_handlePlayerInGame_def gs_handlePlayerLogout_def
        gs_handlePlayerAuthRequest_def gs_handleServerStatus_def gs_handlePlayerTracert_def
        gs_handleReplyCharacters_def split: if_splits)
qed

definition empty_state :: login_state where
  "empty_state = \<lparr>lsServers = [], lsSessions = [], lsCounts = []\<rparr>"

lemma unauthenticated_game_server_witness:
  "\<exists>e. gs_handlePacket (\<lambda>_. None) 0 0 (NewGameServerConnection sample_rsa_key) empty_state 5 [1, 2]
     = Some (Inl e, [], NewGameServerConnection sample_rsa_key, empty_state)"
proof -
  have un: "\<not> gsAuthenticated (NewGameServerConnection sample_rsa_key)" by (simp add: NewGameServerConnection_def)
  obtain res sent gs' st' where run: "gs_handlePacket (\<lambda>_. None) 0 0 (NewGameServerConnection sample_rsa_key) empty_state 5 [1, 2]
     = Some (res, sent, gs', st')"
    by (simp add: gs_handlePacket_def) (metis prod.exhaust)
  with unauthenticated_game_server [OF un _ run] show ?thesis by auto
qed

section \<open>A player changes servers\<close>

text \<open>
  The whole path of a player from the login server to a game server: RequestServerLogin makes a session
  key, the client brings its halves to the game server, which asks the login server with a
  PlayerAuthRequest and reads the answer.
\<close>

definition game_server_asks :: "int \<Rightarrow> int \<Rightarrow> GameServer \<Rightarrow> login_state \<Rightarrow> go_string \<Rightarrow> outls_SessionKey
    \<Rightarrow> byte list \<Rightarrow> (go_string \<times> bool) option \<times> login_state" where
  "game_server_asks now maxAge gs st account key pad =
     (case gs_handlePlayerAuthRequest now maxAge gs st (tl (outls_PlayerAuthRequest_GetData account key) @ pad) of
        (Inr _, [answer], _, st) \<Rightarrow> (Some (inls_NewPlayerAuthResponse (tl answer @ pad)), st)
      | (_, _, _, st) \<Rightarrow> (None, st))"

definition asked_key :: "outls_SessionKey \<Rightarrow> SessionKey" where
  "asked_key key = \<lparr>LoginKey1 = KeyLoginOkID1 key, LoginKey2 = KeyLoginOkID2 key, PlayKey1 = PlayOkID1 key,
     PlayKey2 = PlayOkID2 key, KeyAccount = [], KeyServerID = 0, CreatedAt = 0\<rparr>"

lemma game_server_asks_eq:
  assumes "wire_string name" and "gsAuthenticated gs"
  shows "game_server_asks now maxAge gs st name key pad =
    (case HandlePlayerAuthRequest now maxAge (lsSessions st) name (asked_key key) of
       (result, sessions) \<Rightarrow> (Some (name, ResultSuccess result), st\<lparr>lsSessions := sessions\<rparr>))"
proof -
  have "2 \<le> length (string_bytes name)" by (rule length_string_bytes)
  with assms(1) have parse: "NewPlayerAuthRequest (tl (outls_PlayerAuthRequest_GetData name key) @ pad) = Some
      \<lparr>parAccount = name, parPlayKey1 = PlayOkID1 key, parPlayKey2 = PlayOkID2 key,
       parLoginKey1 = KeyLoginOkID1 key, parLoginKey2 = KeyLoginOkID2 key\<rparr>"
    by (simp add: NewPlayerAuthRequest_def outls_PlayerAuthRequest_GetData_def)
  have answer: "inls_NewPlayerAuthResponse (tl (PlayerAuthResponse_GetData name b) @ pad) = (name, b)" for b
    using inls_account_flag [OF assms(1), of "if b then 1 else 0" pad]
    by (cases b) (simp_all add: PlayerAuthResponse_GetData_def)
  obtain result sessions where r: "HandlePlayerAuthRequest now maxAge (lsSessions st) name (asked_key key) = (result, sessions)"
    by fastforce
  then have "ResultAccount result = name"
    by (auto simp: HandlePlayerAuthRequest_eq split: option.splits if_splits)
  then show ?thesis
    using r assms(2) answer
    by (simp add: game_server_asks_def gs_handlePlayerAuthRequest_def parse parGetSessionKey_def asked_key_def)
qed

text \<open>
  C22: From server selection to the game. When a client with an account selects a server and the random
  source works, the play keys in its PlayOk, together with the two halves of its session id, let the account
  into an authenticated game server, provided it asks within the lifetime of a key; the key is gone after
  that, so that the same question gets the answer no.
\<close>

theorem player_enters_game:
  assumes "ClientAccount client = Some account" and "wire_string (account_name (Username account))"
    and "length rnd1 = 4" and "length rnd2 = 4" and "gsAuthenticated gs" and "0 \<le> later - now" and "later - now \<le> maxAge"
  shows "\<exists>k1 k2 client' sessions.
      handleRequestServerLogin env now (Inr rnd1) (Inr rnd2) me (client, lsSessions st) data
        = ([Send me (NewPlayOkPacket k1 k2)], Inr (), client', sessions)
    \<and> (let key = \<lparr>PlayOkID1 = k1, PlayOkID2 = k2, KeyLoginOkID1 = LoginOkID1 client, KeyLoginOkID2 = LoginOkID2 client\<rparr>;
           name = account_name (Username account);
           (first, st') = game_server_asks later maxAge gs (st\<lparr>lsSessions := sessions\<rparr>) name key pad;
           (second, st'') = game_server_asks later maxAge gs st' name key pad
       in first = Some (name, True) \<and> second = Some (name, False))"
proof -
  let ?name = "account_name (Username account)"
  define k1 k2 where "k1 = le32 (rnd1 ! 0) (rnd1 ! 1) (rnd1 ! 2) (rnd1 ! 3)"
    and "k2 = le32 (rnd2 ! 0) (rnd2 ! 1) (rnd2 ! 2) (rnd2 ! 3)"
  let ?srv = "int (unat (snd (NewRequestServerLogin data)))"
  define sk where "sk = \<lparr>LoginKey1 = LoginOkID1 client, LoginKey2 = LoginOkID2 client, PlayKey1 = k1, PlayKey2 = k2,
    KeyAccount = ?name, KeyServerID = ?srv, CreatedAt = now\<rparr>"
  let ?sessions = "AList.update ?name sk (lsSessions st)"
  have create: "CreateSessionKey now (Inr rnd1) (Inr rnd2) (lsSessions st) ?name ?srv (LoginOkID1 client) (LoginOkID2 client)
      = (Inr sk, ?sessions)"
    by (simp add: CreateSessionKey_def generateRandomUint32_def sk_def k1_def k2_def Let_def)
  have 1: "\<exists>client'. handleRequestServerLogin env now (Inr rnd1) (Inr rnd2) me (client, lsSessions st) data
      = ([Send me (NewPlayOkPacket k1 k2)], Inr (), client', ?sessions)"
    using assms(1) create
    by (simp add: handleRequestServerLogin_def HandleRequestServerLogin_def Let_def) (simp add: sk_def)
  have live: "\<not> IsExpired later maxAge sk" using assms(7) by (simp add: IsExpired_def sk_def)
  define key where "key = \<lparr>PlayOkID1 = k1, PlayOkID2 = k2, KeyLoginOkID1 = LoginOkID1 client,
    KeyLoginOkID2 = LoginOkID2 client\<rparr>"
  have "Equals sk (asked_key key)" by (simp add: Equals_def sk_def asked_key_def key_def)
  with live have first: "\<exists>r. HandlePlayerAuthRequest later maxAge ?sessions ?name (asked_key key)
      = (r, AList.delete ?name ?sessions) \<and> ResultSuccess r"
    by (simp add: HandlePlayerAuthRequest_eq)
  have second: "\<exists>r. HandlePlayerAuthRequest later maxAge (AList.delete ?name ?sessions) ?name (asked_key key)
      = (r, AList.delete ?name ?sessions) \<and> \<not> ResultSuccess r"
    by (simp add: HandlePlayerAuthRequest_eq)
  from 1 obtain client' where "handleRequestServerLogin env now (Inr rnd1) (Inr rnd2) me (client, lsSessions st) data
      = ([Send me (NewPlayOkPacket k1 k2)], Inr (), client', ?sessions)" by blast
  moreover have "let name = ?name;
        (first, st') = game_server_asks later maxAge gs (st\<lparr>lsSessions := ?sessions\<rparr>) name key pad;
        (second, st'') = game_server_asks later maxAge gs st' name key pad
      in first = Some (name, True) \<and> second = Some (name, False)"
    using first second by (auto simp: game_server_asks_eq [OF assms(2,5)])
  ultimately show ?thesis
    unfolding key_def Let_def by - (intro exI conjI, assumption, assumption)
qed

lemma player_enters_game_witness:
  "\<exists>k1 k2 client' sessions. handleRequestServerLogin sample_env 5 (Inr [1, 2, 3, 4]) (Inr [5, 6, 7, 8]) 1
      (sample_client\<lparr>ClientAccount := Some bob\<rparr>, []) [] = ([Send 1 (NewPlayOkPacket k1 k2)], Inr (), client', sessions)"
proof -
  have name: "wire_string (account_name (Username bob))"
    by (simp add: bob_def account_name_def ascii_lower_def wire_string_def valid_rune_def)
  have "ClientAccount (sample_client\<lparr>ClientAccount := Some bob\<rparr>) = Some bob" by simp
  from player_enters_game [OF this name, of "[1, 2, 3, 4]" "[5, 6, 7, 8]"
      "NewGameServerConnection sample_rsa_key\<lparr>gsAuthenticated := True\<rparr>" 9 5 100 sample_env 1 empty_state "[]" "[]"]
  show ?thesis by (auto simp: empty_state_def)
qed

end
