(* ===== verification/GameConn.thy ===== *)
theory GameConn
  imports GameCrypt Transport "HOL-Library.Sublist"
begin

text \<open>
  The connection of a game client, \<open>gameserver/transport/client/conn.go\<close>. \<open>Send\<close> queues a packet;
  one writer goroutine per connection takes packets off the queue, frames and encrypts them into a
  batch and writes the batch at once. \<open>conn_step\<close> interleaves the two in every way. \<open>wire\<close> is what the
  socket has been given; \<open>Receive\<close> reads a socket as in \<open>Transport\<close>.
\<close>

section \<open>The connection\<close>

text \<open>Where \<open>writeLoop\<close> is: in its \<open>select\<close>, filling the batch of \<open>n\<close> packets (the last one when \<open>done\<close> was chosen), or returned.\<close>

datatype writer_pc = Selecting | Filling "byte list" nat bool | Returned

record client_conn =
  cc_crypt :: crypt
  cc_enable :: bool
  sendCh :: "byte list list"
  conn_done :: bool
  wire :: "byte list"
  writer :: writer_pc

definition sendQueueCapacity :: nat where
  "sendQueueCapacity = 1024"

definition maxBatchPackets :: nat where
  "maxBatchPackets = 256"

definition NewClientConn :: client_conn where
  "NewClientConn = \<lparr>cc_crypt = gc_New, cc_enable = False, sendCh = [], conn_done = False, wire = [],
     writer = Selecting\<rparr>"

definition EnableCrypt :: "byte list \<Rightarrow> client_conn \<Rightarrow> (go_error + unit) \<times> client_conn" where
  "EnableCrypt key16 cc =
     (if length key16 < 16
      then (Inl (''gamecrypt key must be 16 bytes, got '' @ format_int (int (length key16))), cc)
      else (Inr (), cc\<lparr>cc_crypt := EnableDecrypt (SetKey (cc_crypt cc) key16), cc_enable := True\<rparr>))"

definition Close :: "client_conn \<Rightarrow> client_conn" where
  "Close cc = cc\<lparr>conn_done := True\<rparr>"

definition errSendQueueFull :: go_error where
  "errSendQueueFull = ''send queue full: closing slow connection''"

definition Send :: "byte list \<Rightarrow> client_conn \<Rightarrow> (go_error + unit) \<times> client_conn" where
  "Send data cc =
     (if length data = 0 then (Inl ''empty packet'', cc)
      else if length (sendCh cc) < sendQueueCapacity then (Inr (), cc\<lparr>sendCh := sendCh cc @ [data]\<rparr>)
      else (Inl errSendQueueFull, Close cc))"

text \<open>
  The frame that \<open>appendFramed\<close> puts behind the batch, and the cipher after it. The length wraps at
  16 bits.
\<close>

definition header_of :: "byte list \<Rightarrow> byte list" where
  "header_of data = bytes16 (of_nat (length data + 2))"

definition frame_packet :: "crypt \<Rightarrow> bool \<Rightarrow> byte list \<Rightarrow> crypt \<times> byte list" where
  "frame_packet c enable data =
     (let (c, payload) = (if enable then gc_Encrypt c data else (c, data))
      in (c, header_of data @ payload))"

definition appendFramed :: "byte list \<Rightarrow> byte list \<Rightarrow> client_conn \<Rightarrow> byte list \<times> client_conn" where
  "appendFramed dst data cc =
     (let (c, bytes) = frame_packet (cc_crypt cc) (cc_enable cc) data
      in (dst @ bytes, cc\<lparr>cc_crypt := c\<rparr>))"

section \<open>Reading\<close>

lemma sock_read_shorter:
  "sock_read n s = (Inr b, s') \<Longrightarrow> 0 < n \<Longrightarrow> length s' < length s \<or> length s' = length s \<and> length b = n"
  by (auto simp: sock_read_def split: if_splits list.splits)

function readFull :: "nat \<Rightarrow> sock \<Rightarrow> (go_error + byte list) \<times> sock" where
  "readFull n s =
     (if n = 0 then (Inr [], s)
      else case sock_read n s of
             (Inl e, s) \<Rightarrow> (Inl e, s)
           | (Inr b, s) \<Rightarrow>
               (case readFull (n - length b) s of
                  (Inl e, s) \<Rightarrow> (Inl e, s)
                | (Inr rest, s) \<Rightarrow> (Inr (b @ rest), s)))"
  by pat_completeness auto
termination
  by (relation "measures [\<lambda>(n, s). length s, \<lambda>(n, s). n]") (auto dest: sock_read_shorter [OF sym])

declare readFull.simps [simp del]

definition Receive :: "client_conn \<Rightarrow> sock \<Rightarrow> (go_error + byte \<times> byte list) \<times> client_conn \<times> sock" where
  "Receive cc s =
     (case readFull 2 s of
        (Inl e, s) \<Rightarrow> (Inl (''read header: '' @ e), cc, s)
      | (Inr header, s) \<Rightarrow>
          let size = unat (le16 (header ! 0) (header ! 1)) in
          if size < 3 then (Inl ''invalid packet size'', cc, s)
          else (case readFull (size - 2) s of
                  (Inl e, s) \<Rightarrow> (Inl (''read payload: '' @ e), cc, s)
                | (Inr payload, s) \<Rightarrow>
                    let (c, payload) = (if cc_enable cc then gc_Decrypt (cc_crypt cc) payload else (cc_crypt cc, payload))
                    in (Inr (hd payload, tl payload), cc\<lparr>cc_crypt := c\<rparr>, s)))"

text \<open>Whatever the chunks are, \<open>readFull\<close> gets the first bytes of the stream.\<close>

lemma readFull_concat:
  "n \<le> length (concat s) \<Longrightarrow> \<exists>s'. readFull n s = (Inr (take n (concat s)), s') \<and> concat s' = drop n (concat s)"
proof (induction n s rule: readFull.induct)
  case (1 n s)
  show ?case
  proof (cases "n = 0")
    case False
    then obtain c cs where s: "s = c # cs" using 1(2) by (cases s) auto
    show ?thesis
    proof (cases "length c \<le> n")
      case True
      then have read: "sock_read n s = (Inr c, cs)" using False s by (simp add: sock_read_def)
      from 1(1) [OF False read [symmetric] refl] 1(2) s True obtain s' where
        "readFull (n - length c) cs = (Inr (take (n - length c) (concat cs)), s')"
        "concat s' = drop (n - length c) (concat cs)" by fastforce
      then show ?thesis using False read s True by (subst readFull.simps) simp
    next
      case more: False
      then have read: "sock_read n s = (Inr (take n c), drop n c # cs)" using False s by (simp add: sock_read_def)
      then show ?thesis using False s more by (subst readFull.simps) (simp add: readFull.simps)
    qed
  qed (simp add: readFull.simps)
qed

lemma readFull_short: "length (concat s) < n \<Longrightarrow> \<exists>s'. readFull n s = (Inl EOF, s')"
proof (induction n s rule: readFull.induct)
  case (1 n s)
  then have n: "n \<noteq> 0" by auto
  show ?case
  proof (cases s)
    case Nil
    with n show ?thesis by (subst readFull.simps) (simp add: sock_read_def)
  next
    case (Cons c cs)
    with 1(2) n have read: "sock_read n s = (Inr c, cs)" by (simp add: sock_read_def)
    from 1(1) [OF n read [symmetric] refl] 1(2) Cons show ?thesis
      using n read by (subst readFull.simps) fastforce
  qed
qed

section \<open>The writer\<close>

text \<open>
  One step of the connection and the packets \<open>Send\<close> accepted in it. The writer takes a packet, drains
  what is queued as long as the batch is not full, and writes the batch; a write may fail after any
  number of bytes. When the connection is closed the writer drains once more and writes what the
  closing socket still takes.
\<close>

inductive conn_step :: "client_conn \<Rightarrow> byte list list \<Rightarrow> client_conn \<Rightarrow> bool" where
  send: "Send data cc = (r, cc') \<Longrightarrow> conn_step cc (if r = Inr () then [data] else []) cc'"
| receive: "Receive cc s = (r, cc', s') \<Longrightarrow> conn_step cc [] cc'"
| close: "conn_step cc [] (Close cc)"
| take: "writer cc = Selecting \<Longrightarrow> sendCh cc = data # q \<Longrightarrow> appendFramed [] data (cc\<lparr>sendCh := q\<rparr>) = (batch, cc')
    \<Longrightarrow> conn_step cc [] (cc'\<lparr>writer := Filling batch 1 False\<rparr>)"
| drain: "writer cc = Filling batch n fin \<Longrightarrow> n < maxBatchPackets \<Longrightarrow> sendCh cc = data # q
    \<Longrightarrow> appendFramed batch data (cc\<lparr>sendCh := q\<rparr>) = (batch', cc')
    \<Longrightarrow> conn_step cc [] (cc'\<lparr>writer := Filling batch' (n + 1) fin\<rparr>)"
| flush: "writer cc = Filling batch n False \<Longrightarrow> sendCh cc = [] \<or> n = maxBatchPackets
    \<Longrightarrow> conn_step cc [] (cc\<lparr>wire := wire cc @ batch, writer := Selecting\<rparr>)"
| flush_fails: "writer cc = Filling batch n False \<Longrightarrow> sendCh cc = [] \<or> n = maxBatchPackets
    \<Longrightarrow> conn_step cc [] (Close (cc\<lparr>wire := wire cc @ List.take k batch, writer := Returned\<rparr>))"
| finish: "writer cc = Selecting \<Longrightarrow> conn_done cc \<Longrightarrow> conn_step cc [] (cc\<lparr>writer := Filling [] 1 True\<rparr>)"
| flush_last: "writer cc = Filling batch n True \<Longrightarrow> sendCh cc = [] \<or> n = maxBatchPackets
    \<Longrightarrow> conn_step cc [] (cc\<lparr>wire := wire cc @ List.take k batch, writer := Returned\<rparr>)"

inductive conn_run :: "client_conn \<Rightarrow> byte list list \<Rightarrow> client_conn \<Rightarrow> bool" where
  idle: "conn_run cc [] cc"
| step: "conn_run cc ps cc' \<Longrightarrow> conn_step cc' qs cc'' \<Longrightarrow> conn_run cc (ps @ qs) cc''"

text \<open>The reference: one packet after the other, each in a write of its own.\<close>

fun frames :: "crypt \<Rightarrow> bool \<Rightarrow> byte list list \<Rightarrow> byte list" where
  "frames c enable [] = []"
| "frames c enable (p # ps) =
     (let (c, bytes) = frame_packet c enable p in bytes @ frames c enable ps)"

definition after_frames :: "crypt \<Rightarrow> bool \<Rightarrow> byte list list \<Rightarrow> crypt" where
  "after_frames c enable ps = fold (\<lambda>p c. fst (frame_packet c enable p)) ps c"

lemma frames_append: "frames c enable (ps @ qs) = frames c enable ps @ frames (after_frames c enable ps) enable qs"
  by (induction ps arbitrary: c) (auto simp: after_frames_def split: prod.split)

definition same_out :: "crypt \<Rightarrow> crypt \<Rightarrow> bool" where
  "same_out c d \<longleftrightarrow> outKey c = outKey d \<and> outEnabled c = outEnabled d"

lemma frame_packet_same_out:
  assumes "same_out c d"
  shows "snd (frame_packet c enable p) = snd (frame_packet d enable p)
    \<and> same_out (fst (frame_packet c enable p)) (fst (frame_packet d enable p))"
  using assms by (auto simp: frame_packet_def gc_Encrypt_def same_out_def Let_def)

lemma frames_same_out: "same_out c d \<Longrightarrow> frames c enable ps = frames d enable ps"
proof (induction ps arbitrary: c d)
  case (Cons p ps)
  from Cons.IH [OF conjunct2 [OF frame_packet_same_out [OF Cons.prems]]]
    conjunct1 [OF frame_packet_same_out [OF Cons.prems]]
  show ?case by (simp add: split_beta)
qed simp

lemma Receive_keeps:
  assumes "Receive cc s = (r, cc', s')"
  shows "same_out (cc_crypt cc') (cc_crypt cc)" "cc' = cc\<lparr>cc_crypt := cc_crypt cc'\<rparr>"
  using assms by (auto simp: Receive_def Let_def same_out_def gc_Decrypt_def
      split: sum.splits prod.splits if_splits)

lemma after_frames_same_out: "same_out c d \<Longrightarrow> same_out (after_frames c enable ps) (after_frames d enable ps)"
  unfolding after_frames_def
  by (induction ps arbitrary: c d) (auto dest: frame_packet_same_out [THEN conjunct2])

fun in_batch :: "writer_pc \<Rightarrow> byte list" where
  "in_batch (Filling batch n fin) = batch"
| "in_batch _ = []"

definition sent_ok :: "crypt \<Rightarrow> bool \<Rightarrow> byte list list \<Rightarrow> client_conn \<Rightarrow> bool" where
  "sent_ok c0 enable ps cc \<longleftrightarrow>
     (if writer cc = Returned then prefix (wire cc) (frames c0 enable ps)
      else cc_enable cc = enable
        \<and> same_out (after_frames c0 enable ps) (after_frames (cc_crypt cc) enable (sendCh cc))
        \<and> frames c0 enable ps = wire cc @ in_batch (writer cc) @ frames (cc_crypt cc) enable (sendCh cc))"

lemma sent_ok_queued:
  assumes "sent_ok c0 enable ps cc"
  shows "sent_ok c0 enable (ps @ [data]) (cc\<lparr>sendCh := sendCh cc @ [data]\<rparr>)"
proof (cases "writer cc = Returned")
  case False
  with assms have sync: "same_out (after_frames c0 enable ps) (after_frames (cc_crypt cc) enable (sendCh cc))"
    and rest: "frames c0 enable ps = wire cc @ in_batch (writer cc) @ frames (cc_crypt cc) enable (sendCh cc)"
    and enable: "cc_enable cc = enable"
    by (simp_all add: sent_ok_def)
  have "same_out (after_frames c0 enable (ps @ [data])) (after_frames (cc_crypt cc) enable (sendCh cc @ [data]))"
    using frame_packet_same_out [OF sync] by (simp add: after_frames_def)
  with False rest enable frames_same_out [OF sync, of enable "[data]"] show ?thesis
    by (simp add: sent_ok_def frames_append del: frames.simps)
next
  case True
  with assms show ?thesis by (simp add: sent_ok_def frames_append)
qed

lemma same_out_trans: "same_out a b \<Longrightarrow> same_out b c \<Longrightarrow> same_out a c"
  by (simp add: same_out_def)

lemma same_out_sym: "same_out a b \<Longrightarrow> same_out b a"
  by (simp add: same_out_def)

lemma sent_ok_receive:
  assumes ok: "sent_ok c0 enable ps cc" and cc': "cc' = cc\<lparr>cc_crypt := d\<rparr>" and same: "same_out d (cc_crypt cc)"
  shows "sent_ok c0 enable ps cc'"
  using ok frames_same_out [OF same] same_out_trans [OF _ after_frames_same_out [OF same_out_sym [OF same]]]
  unfolding sent_ok_def cc' by (simp split: if_splits)

lemma sent_ok_take:
  assumes "sent_ok c0 enable ps cc" and "writer cc \<noteq> Returned" and "sendCh cc = data # q"
    and "appendFramed (in_batch (writer cc)) data (cc\<lparr>sendCh := q\<rparr>) = (batch, cc')"
  shows "sent_ok c0 enable ps (cc'\<lparr>writer := Filling batch n fin\<rparr>)"
  using assms by (auto simp: sent_ok_def appendFramed_def after_frames_def split: prod.splits)

lemma sent_ok_step:
  assumes "conn_step cc qs cc'" and "sent_ok c0 enable ps cc"
  shows "sent_ok c0 enable (ps @ qs) cc'"
  using assms
proof cases
  case (send data r)
  then have "r = Inr () \<and> cc' = cc\<lparr>sendCh := sendCh cc @ [data]\<rparr> \<or> r \<noteq> Inr () \<and> (cc' = cc \<or> cc' = Close cc)"
    by (auto simp: Send_def split: if_splits)
  with send assms(2) show ?thesis
    by (auto simp: sent_ok_queued) (simp_all add: sent_ok_def Close_def)
next
  case (receive s r s')
  with assms(2) Receive_keeps [OF receive(2)] sent_ok_receive show ?thesis by (metis append_Nil2)
next
  case close
  with assms(2) show ?thesis by (simp add: sent_ok_def Close_def)
next
  case (take data q batch cc1)
  with sent_ok_take [OF assms(2), of data q batch cc1] show ?thesis by simp
next
  case (drain batch n fin data q batch' cc1)
  with sent_ok_take [OF assms(2), of data q batch' cc1] show ?thesis by simp
next
  case (flush batch n)
  with assms(2) show ?thesis by (simp add: sent_ok_def)
next
  case (flush_fails batch n k)
  with assms(2) show ?thesis
    by (simp add: sent_ok_def Close_def) (metis append_assoc append_take_drop_id prefixI)
next
  case finish
  with assms(2) show ?thesis by (simp add: sent_ok_def)
next
  case (flush_last batch n k)
  with assms(2) show ?thesis
    by (simp add: sent_ok_def) (metis append_assoc append_take_drop_id prefixI)
qed

lemma sent_ok_run: "conn_run cc ps cc' \<Longrightarrow> sent_ok c0 enable rs cc \<Longrightarrow> sent_ok c0 enable (rs @ ps) cc'"
  by (induction rule: conn_run.induct) (auto dest: sent_ok_step simp flip: append_assoc)

lemma sent_ok_start: "writer cc = Selecting \<Longrightarrow> sendCh cc = [] \<Longrightarrow> wire cc = []
    \<Longrightarrow> sent_ok (cc_crypt cc) (cc_enable cc) [] cc"
  by (simp add: sent_ok_def after_frames_def same_out_def)

section \<open>What the other end reads\<close>

fun receive_up_to :: "nat \<Rightarrow> client_conn \<Rightarrow> sock \<Rightarrow> (byte \<times> byte list) list" where
  "receive_up_to 0 cc s = []"
| "receive_up_to (Suc n) cc s =
     (case Receive cc s of
        (Inl _, _, _) \<Rightarrow> []
      | (Inr packet, cc, s) \<Rightarrow> packet # receive_up_to n cc s)"

text \<open>
  The client's side of a connection: the first packet in clear, then everything under the key that
  the packet brings.
\<close>

definition client_reads :: "nat \<Rightarrow> byte list \<Rightarrow> sock \<Rightarrow> (byte \<times> byte list) list" where
  "client_reads n key16 s =
     (case Receive NewClientConn s of
        (Inl _, _, _) \<Rightarrow> []
      | (Inr packet, cc, s) \<Rightarrow> packet # receive_up_to n (snd (EnableCrypt key16 cc)) s)"

definition split_opcode :: "byte list \<Rightarrow> byte \<times> byte list" where
  "split_opcode p = (hd p, tl p)"

definition sendable :: "byte list \<Rightarrow> bool" where
  "sendable p \<longleftrightarrow> 0 < length p \<and> length p \<le> 65533"

text \<open>A peer that can read what the next packet of a sender becomes.\<close>

definition understands :: "client_conn \<Rightarrow> crypt \<Rightarrow> bool" where
  "understands peer c \<longleftrightarrow> (if cc_enable peer then gc_synced c (cc_crypt peer) else \<not> outEnabled c)"

lemma frame_packet_parts:
  "frame_packet c True p = (fst (gc_Encrypt c p), header_of p @ snd (gc_Encrypt c p))"
  by (simp add: frame_packet_def split_beta)

lemma length_gc_Encrypt [simp]: "length (snd (gc_Encrypt c p)) = length p"
  by (simp add: gc_Encrypt_def)

lemma length_header_of [simp]: "length (header_of p) = 2"
  by (simp add: header_of_def bytes16_def)

lemma header_size:
  assumes "sendable p"
  shows "unat (le16 (header_of p ! 0) (header_of p ! Suc 0)) = length p + 2"
proof -
  have "unat (of_nat n :: u16) = n" if "n < 65536" for n
    using that by (simp add: unat_of_nat)
  from this [of "length p + 2"] assms have "unat (of_nat (length p + 2) :: u16) = length p + 2"
    unfolding sendable_def by linarith
  then show ?thesis by (simp only: header_of_def bytes16_def nth_Cons_0 nth_Cons_Suc One_nat_def le16_bytes)
qed

lemma Receive_frame:
  assumes peer: "understands peer c" and p: "sendable p"
    and s: "concat s = snd (frame_packet c True p) @ rest"
  shows "\<exists>peer' s'. Receive peer s = (Inr (split_opcode p), peer', s') \<and> concat s' = rest
    \<and> cc_enable peer' = cc_enable peer
    \<and> (cc_enable peer \<longrightarrow> gc_synced (fst (frame_packet c True p)) (cc_crypt peer'))
    \<and> (\<not> cc_enable peer \<longrightarrow> peer' = peer \<and> fst (frame_packet c True p) = c\<lparr>outEnabled := True\<rparr>)"
proof -
  let ?h = "header_of p" and ?e = "snd (gc_Encrypt c p)"
  have s1: "concat s = ?h @ ?e @ rest" using s by (simp add: frame_packet_parts)
  then obtain s2 where h: "readFull 2 s = (Inr ?h, s2)" "concat s2 = ?e @ rest"
    using readFull_concat [of 2 s] by auto
  then obtain s3 where e: "readFull (length p) s2 = (Inr ?e, s3)" "concat s3 = rest"
    using readFull_concat [of "length p" s2] by auto
  have big: "\<not> length p + 2 < 3" using p by (simp add: sendable_def)
  show ?thesis
  proof (cases "cc_enable peer")
    case True
    then have synced: "gc_synced c (cc_crypt peer)" using peer by (simp add: understands_def)
    obtain t' where "gc_Decrypt (cc_crypt peer) ?e = (t', p)" "gc_synced (fst (gc_Encrypt c p)) t'"
      using gc.recv_send [OF synced, of p "fst (gc_Encrypt c p)" ?e] by auto
    with True h e big show ?thesis
      by (simp add: Receive_def header_size [OF p] frame_packet_parts split_opcode_def Let_def)
  next
    case False
    then have "gc_Encrypt c p = (c\<lparr>outEnabled := True\<rparr>, p)"
      using peer by (simp add: understands_def gc_Encrypt_def)
    with False h e big show ?thesis
      by (simp add: Receive_def header_size [OF p] frame_packet_parts split_opcode_def Let_def)
  qed
qed

lemma Receive_cut:
  assumes p: "sendable p" and s: "strict_prefix (concat s) (snd (frame_packet c True p))"
  shows "\<exists>e peer' s'. Receive peer s = (Inl e, peer', s')"
proof (cases "length (concat s) < 2")
  case True
  with readFull_short [of s 2] show ?thesis by (auto simp: Receive_def)
next
  case False
  let ?h = "header_of p" and ?e = "snd (gc_Encrypt c p)"
  obtain zs where zs: "?h @ ?e = concat s @ zs" "zs \<noteq> []"
    using s by (auto simp: strict_prefix_def prefix_def frame_packet_parts)
  define rest where "rest = drop 2 (concat s)"
  have h: "?h = take 2 (concat s)"
    using arg_cong [OF zs(1), of "take 2"] False by simp
  then have rest: "concat s = ?h @ rest" by (simp add: rest_def)
  with zs have "?e = rest @ zs" by simp
  then have short: "length rest < length p" using zs(2) length_gc_Encrypt [of c p] by (auto simp: neq_Nil_conv)
  from rest obtain s2 where h: "readFull 2 s = (Inr ?h, s2)" "concat s2 = rest"
    using readFull_concat [of 2 s] by auto
  with short obtain s3 where "readFull (length p) s2 = (Inl EOF, s3)"
    using readFull_short [of s2 "length p"] by auto
  with h p show ?thesis
    by (simp add: Receive_def header_size [OF p] Let_def)
qed

lemma receive_up_to_prefix:
  assumes "understands peer c" and "cc_enable peer" and "\<forall>p \<in> set ps. sendable p"
    and "prefix (concat s) (frames c True ps)"
  shows "prefix (receive_up_to n peer s) (map split_opcode ps)
    \<and> (concat s = frames c True ps \<and> length ps \<le> n \<longrightarrow> receive_up_to n peer s = map split_opcode ps)"
  using assms
proof (induction n arbitrary: peer c ps s)
  case (Suc n)
  show ?case
  proof (cases ps)
    case Nil
    with Suc.prems have "concat s = []" by simp
    then have "length (concat s) < 2" by (simp only: list.size)
    then obtain s' where "readFull 2 s = (Inl EOF, s')" using readFull_short by blast
    then have "Receive peer s = (Inl (''read header: '' @ EOF), peer, s')"
      unfolding Receive_def by simp
    with Nil show ?thesis by simp
  next
    case (Cons p qs)
    let ?f = "frame_packet c True p"
    have p: "sendable p" and qs: "\<forall>p \<in> set qs. sendable p" using Suc.prems(3) Cons by auto
    have F: "frames c True ps = snd ?f @ frames (fst ?f) True qs" using Cons by (simp add: split_beta)
    show ?thesis
    proof (cases "prefix (snd ?f) (concat s)")
      case True
      then obtain rest where rest: "concat s = snd ?f @ rest" by (auto simp: prefix_def)
      obtain peer' s' where R: "Receive peer s = (Inr (split_opcode p), peer', s')" "concat s' = rest"
        "cc_enable peer'" "gc_synced (fst ?f) (cc_crypt peer')"
        using Receive_frame [OF Suc.prems(1) p rest] Suc.prems(2) by auto
      have "prefix (concat s') (frames (fst ?f) True qs)" using Suc.prems(4) F rest R(2) by simp
      moreover have "understands peer' (fst ?f)" using R by (simp add: understands_def)
      moreover note Suc.IH [OF _ R(3) qs, of "fst ?f" s']
      ultimately show ?thesis using R Cons F rest by auto
    next
      case False
      then have "strict_prefix (concat s) (snd ?f)"
        using Suc.prems(4) F by (metis prefix_append prefix_order.less_le prefix_order.refl prefix_same_cases prefixI)
      moreover from this have "concat s \<noteq> frames c True ps"
        unfolding F by (metis prefixI prefix_order.leD)
      ultimately show ?thesis using Receive_cut [OF p, of s c peer] by fastforce
    qed
  qed
qed simp

text \<open>
  C3: What a game client receives. Take any interleaving of \<open>Send\<close> calls, reads, a \<open>Close\<close> and the steps
  of the writer, with batches of any size and with failing writes, on a connection whose key has been
  set, and let the network cut the written bytes into any chunks. The bytes written are a prefix of
  what writing one packet at a time would give, the client reads a prefix of the packets \<open>Send\<close> accepted, in order
  and unchanged, and it reads all of them once the queue is drained and no write has failed. A
  packet may have up to 65533 bytes: the length field holds no more.
\<close>

theorem client_stream:
  assumes "EnableCrypt key16 NewClientConn = (Inr (), cc0)"
    and "conn_run cc0 (first # packets) cc"
    and "\<forall>p \<in> set (first # packets). sendable p"
    and "concat chunks = wire cc"
    and "length packets \<le> n"
  shows "prefix (wire cc) (frames (cc_crypt cc0) True (first # packets))
    \<and> prefix (client_reads n key16 chunks) (map split_opcode (first # packets))
    \<and> (writer cc = Selecting \<and> sendCh cc = []
        \<longrightarrow> client_reads n key16 chunks = map split_opcode (first # packets))"
proof -
  let ?c = "cc_crypt cc0" and ?ps = "first # packets"
  have cc0: "writer cc0 = Selecting" "sendCh cc0 = []" "wire cc0 = []" "cc_enable cc0"
    and c: "?c = EnableDecrypt (SetKey gc_New key16)" and key: "16 \<le> length key16"
    using assms(1) by (auto simp: EnableCrypt_def NewClientConn_def split: if_splits)
  have ok: "sent_ok ?c True ?ps cc"
    using sent_ok_run [OF assms(2) sent_ok_start [OF cc0(1-3)]] cc0(4) by simp
  then have F: "prefix (wire cc) (frames ?c True ?ps)"
    by (auto simp: sent_ok_def prefix_def split: if_splits)
  have whole: "wire cc = frames ?c True ?ps" if "writer cc = Selecting \<and> sendCh cc = []"
    using ok that by (simp add: sent_ok_def)
  let ?f = "frame_packet ?c True first"
  have p: "sendable first" using assms(3) by simp
  have Fsplit: "frames ?c True ?ps = snd ?f @ frames (fst ?f) True packets" by (simp add: split_beta)
  have "\<not> outEnabled ?c" by (simp add: c EnableDecrypt_def SetKey_def gc_New_def)
  then have first: "understands NewClientConn ?c" by (simp add: understands_def NewClientConn_def)
  have new: "\<not> cc_enable NewClientConn" by (simp add: NewClientConn_def)
  show ?thesis
  proof (cases "prefix (snd ?f) (wire cc)")
    case True
    then obtain rest where rest: "wire cc = snd ?f @ rest" by (auto simp: prefix_def)
    obtain s' where R: "Receive NewClientConn chunks = (Inr (split_opcode first), NewClientConn, s')"
      "concat s' = rest" "fst ?f = ?c\<lparr>outEnabled := True\<rparr>"
      using Receive_frame [OF first p, of chunks rest] assms(4) rest new by auto
    have peer: "snd (EnableCrypt key16 NewClientConn) = cc0" using assms(1) by simp
    have "understands cc0 (fst ?f)"
      unfolding understands_def R(3) using cc0(4) by (simp add: c gc_synced_def EnableDecrypt_def SetKey_def gc_New_def)
    moreover have "prefix (concat s') (frames (fst ?f) True packets)" using F Fsplit rest R(2) by simp
    moreover have "\<forall>p \<in> set packets. sendable p" using assms(3) by simp
    ultimately have "prefix (receive_up_to n cc0 s') (map split_opcode packets)
        \<and> (concat s' = frames (fst ?f) True packets \<and> length packets \<le> n
            \<longrightarrow> receive_up_to n cc0 s' = map split_opcode packets)"
      using receive_up_to_prefix [OF _ cc0(4)] by blast
    with F R(1,2) whole Fsplit rest assms(5) show ?thesis by (auto simp: client_reads_def peer)
  next
    case False
    then have cut: "strict_prefix (wire cc) (snd ?f)"
      using F Fsplit by (metis prefix_append prefix_order.less_le prefix_order.refl prefix_same_cases prefixI)
    then have "wire cc \<noteq> frames ?c True ?ps"
      unfolding Fsplit by (metis prefixI prefix_order.leD)
    moreover obtain e peer s' where "Receive NewClientConn chunks = (Inl e, peer, s')"
      using Receive_cut [OF p, of chunks ?c NewClientConn] cut assms(4) by auto
    ultimately show ?thesis using F whole by (auto simp: client_reads_def)
  qed
qed

lemma conn_run_step:
  "conn_run cc ps cc' \<Longrightarrow> conn_step cc' qs cc'' \<Longrightarrow> rs = ps @ qs \<Longrightarrow> conn_run cc rs cc''"
  using conn_run.step by blast

theorem client_stream_witness:
  "\<exists>cc. conn_run (snd (EnableCrypt (replicate 16 7) NewClientConn)) [[0x2e, 1], [5, 6, 7]] cc
    \<and> client_reads 1 (replicate 16 7) [take 5 (wire cc), drop 5 (wire cc)] = [(0x2e, [1]), (5, [6, 7])]"
proof -
  let ?cc0 = "snd (EnableCrypt (replicate 16 7) NewClientConn)"
  define cc1 where "cc1 = ?cc0\<lparr>sendCh := [[0x2e, 1]]\<rparr>"
  obtain b2 cc2 where b2: "appendFramed [] [0x2e, 1] (cc1\<lparr>sendCh := []\<rparr>) = (b2, cc2)" by fastforce
  define cc3 where "cc3 = cc2\<lparr>writer := Filling b2 1 False\<rparr>"
  define cc4 where "cc4 = cc3\<lparr>sendCh := [[5, 6, 7]]\<rparr>"
  obtain b5 cc5 where b5: "appendFramed b2 [5, 6, 7] (cc4\<lparr>sendCh := []\<rparr>) = (b5, cc5)" by fastforce
  define cc6 where "cc6 = cc5\<lparr>writer := Filling b5 2 False\<rparr>"
  define cc7 where "cc7 = cc6\<lparr>wire := wire cc6 @ b5, writer := Selecting\<rparr>"
  note cc_defs = cc1_def cc3_def cc4_def cc6_def cc7_def EnableCrypt_def NewClientConn_def
  have empty: "sendCh cc2 = []" "sendCh cc5 = []"
    using b2 b5 by (auto simp: appendFramed_def split: prod.splits)
  have w: "writer cc1 = Selecting" by (simp add: cc_defs)
  have "conn_run ?cc0 [[0x2e, 1]] cc1"
    by (rule conn_run_step [OF conn_run.idle conn_step.send [of "[0x2e, 1]" _ "Inr ()"]])
      (simp_all add: Send_def cc_defs sendQueueCapacity_def)
  from conn_run_step [OF this conn_step.take [OF w _ b2]]
  have "conn_run ?cc0 [[0x2e, 1]] cc3" by (simp add: cc_defs)
  from conn_run_step [OF this conn_step.send [of "[5, 6, 7]" _ "Inr ()" cc4]]
  have "conn_run ?cc0 [[0x2e, 1], [5, 6, 7]] cc4"
    by (simp add: Send_def cc3_def cc4_def empty sendQueueCapacity_def)
  moreover have "conn_step cc4 [] cc6"
    using conn_step.drain [of cc4 b2 1 False "[5, 6, 7]" "[]" b5 cc5] b5
    by (simp add: cc3_def cc4_def cc6_def maxBatchPackets_def numeral_2_eq_2)
  ultimately have "conn_run ?cc0 [[0x2e, 1], [5, 6, 7]] cc6" by (auto intro: conn_run_step)
  moreover have "conn_step cc6 [] cc7"
    using conn_step.flush [of cc6 b5 2] by (simp add: cc6_def cc7_def empty)
  ultimately have run: "conn_run ?cc0 [[0x2e, 1], [5, 6, 7]] cc7" by (auto intro: conn_run_step)
  have key: "EnableCrypt (replicate 16 7) NewClientConn = (Inr (), ?cc0)" by (simp add: EnableCrypt_def)
  define chunks where "chunks = [take 5 (wire cc7), drop 5 (wire cc7)]"
  have cut: "concat chunks = wire cc7" by (simp add: chunks_def)
  have drained: "writer cc7 = Selecting" "sendCh cc7 = []" by (simp_all add: cc7_def cc6_def empty)
  have "client_reads 1 (replicate 16 7) chunks = map split_opcode [[0x2e, 1], [5, 6, 7]]"
    using client_stream [OF key run _ cut, of 1] drained by (simp add: sendable_def)
  with run show ?thesis unfolding chunks_def by (auto simp: split_opcode_def)
qed

end
