(* ===== verification/Dispatch.thy ===== *)
theory Dispatch
  imports GoMap "HOL-Library.Monad_Syntax"
begin

text \<open>
  Which handler a game packet reaches, \<open>gameserver/handlers/client/dispatch.go\<close> and the \<open>register...\<close>
  functions of the domain files. An opcode is a \<open>nat\<close> below 256, a sub-opcode one below 65536. A
  registration that finds its opcode taken panics: \<open>None\<close>.
\<close>

section \<open>The registry\<close>

datatype ConnState = StateConnected | StateAuthed | StateInGame

text \<open>The methods of \<open>Handler\<close> that handle packets, and the two kinds of stub.\<close>

datatype handler =
  noopStub string | warnStub string
| handleAuthLogin | handleCharacterSelect | handleNewCharacter
| handleCharacterCreate | handleCharacterDelete | handleEnterWorld
| handleLogout | handleRequestRestart | handleRequestGotoLobby
| handleAction | handleAppearing | handleRequestRestartPoint
| handleRequestTargetCancel | handleMoveBackwardToLocation | handleValidatePosition
| handleCannotMoveAnymore | handleRequestActionUse | handleRequestItemList
| handleUseItem | handleRequestUnEquipItem | handleRequestAutoSoulShot
| handleRequestKeyMapping | handleRequestSaveKeyMapping | handleRequestShowMiniMap
| handleRequestMagicSkillUse | handleRequestDispel | handleSay2
| handleAttack | handleRequestEnchantItem | handleRequestExTryToPutEnchantTargetItem
| handleRequestExCancelEnchantItem | handleRequestShortCutReg | handleRequestShortCutDel
| handleRequestBypassToServer | handleRequestAcquireSkillInfo | handleRequestAcquireSkill

record packetEntry =
  Name :: string
  Handle :: handler
  Transition :: "ConnState option"
  Fatal :: bool

record Registry =
  simple :: "(ConnState \<times> nat, packetEntry) go_map"
  multi :: "(ConnState \<times> nat, packetEntry) go_map"

definition multiPacketOpcode :: nat where
  "multiPacketOpcode = 0xD0"

definition Resolve :: "Registry \<Rightarrow> ConnState \<Rightarrow> nat \<Rightarrow> nat \<Rightarrow> packetEntry option" where
  "Resolve r state opcode sub =
     (if opcode = multiPacketOpcode
      then (case map_of (multi r) (state, sub) of
              Some e \<Rightarrow> Some e
            | None \<Rightarrow> if state \<noteq> StateInGame then map_of (multi r) (StateInGame, sub) else None)
      else map_of (simple r) (state, opcode))"

definition parseSubOpcode :: "byte list \<Rightarrow> (nat \<times> byte list) option" where
  "parseSubOpcode payload =
     (case payload of a # b # rest \<Rightarrow> Some (unat (le16 a b), rest) | _ \<Rightarrow> None)"

section \<open>Registration\<close>

type_synonym registrator = "Registry \<Rightarrow> Registry option"

definition set_simple :: "ConnState \<Rightarrow> nat \<Rightarrow> packetEntry \<Rightarrow> registrator" where
  "set_simple state opcode e r = Some (r\<lparr>simple := AList.update (state, opcode) e (simple r)\<rparr>)"

definition set_multi :: "ConnState \<Rightarrow> nat \<Rightarrow> packetEntry \<Rightarrow> registrator" where
  "set_multi state sub e r = Some (r\<lparr>multi := AList.update (state, sub) e (multi r)\<rparr>)"

definition registerStub :: "ConnState \<Rightarrow> nat \<Rightarrow> string \<Rightarrow> registrator" where
  "registerStub state opcode name r =
     (if map_of (simple r) (state, opcode) \<noteq> None then None
      else set_simple state opcode \<lparr>Name = name, Handle = warnStub name, Transition = None, Fatal = False\<rparr> r)"

definition register :: "ConnState \<Rightarrow> nat \<Rightarrow> string \<Rightarrow> handler \<Rightarrow> registrator" where
  "register state opcode name h r =
     (if map_of (simple r) (state, opcode) \<noteq> None then None
      else set_simple state opcode \<lparr>Name = name, Handle = h, Transition = None, Fatal = False\<rparr> r)"

definition registerMultiStub :: "ConnState \<Rightarrow> nat \<Rightarrow> string \<Rightarrow> registrator" where
  "registerMultiStub state sub name r =
     (if map_of (multi r) (state, sub) \<noteq> None then None
      else set_multi state sub \<lparr>Name = name, Handle = warnStub name, Transition = None, Fatal = False\<rparr> r)"

definition registerMulti :: "ConnState \<Rightarrow> nat \<Rightarrow> string \<Rightarrow> handler \<Rightarrow> registrator" where
  "registerMulti state sub name h r =
     (if map_of (multi r) (state, sub) \<noteq> None then None
      else set_multi state sub \<lparr>Name = name, Handle = h, Transition = None, Fatal = False\<rparr> r)"

text \<open>The calls a \<open>register...\<close> function makes, in order.\<close>

datatype registration =
  SetSimple ConnState nat packetEntry
| SetMulti ConnState nat packetEntry
| RegisterStub ConnState nat string
| Register ConnState nat string handler
| RegisterMultiStub ConnState nat string
| RegisterMulti ConnState nat string handler

primrec run_registration :: "registration \<Rightarrow> registrator" where
  "run_registration (SetSimple s k e) = set_simple s k e"
| "run_registration (SetMulti s k e) = set_multi s k e"
| "run_registration (RegisterStub s k n) = registerStub s k n"
| "run_registration (Register s k n h) = register s k n h"
| "run_registration (RegisterMultiStub s k n) = registerMultiStub s k n"
| "run_registration (RegisterMulti s k n h) = registerMulti s k n h"

fun run_all :: "registration list \<Rightarrow> registrator" where
  "run_all [] r = Some r"
| "run_all (f # fs) r = do { r \<leftarrow> run_registration f r; run_all fs r }"

section \<open>The registrations, file by file\<close>

definition registerAllyStubs :: "registration list" where
  "registerAllyStubs =
  [RegisterStub StateInGame 0x2e ''RequestAllyInfo'',
   RegisterStub StateInGame 0x8c ''RequestJoinAlly'',
   RegisterStub StateInGame 0x8d ''RequestAnswerJoinAlly'',
   RegisterStub StateInGame 0x8e ''AllyLeave'',
   RegisterStub StateInGame 0x8f ''AllyDismiss'',
   RegisterStub StateInGame 0x90 ''RequestDismissAlly'',
   RegisterStub StateInGame 0x91 ''RequestSetAllyCrest'',
   RegisterStub StateInGame 0x92 ''RequestAllyCrest'']"

definition registerBoardStubs :: "registration list" where
  "registerBoardStubs =
  [RegisterStub StateInGame 0x24 ''RequestBBSwrite'',
   RegisterStub StateInGame 0x5e ''RequestShowBoard'',
   SetSimple StateInGame 0x6c
    \<lparr>Name = ''RequestShowMiniMap'', Handle = handleRequestShowMiniMap, Transition = None, Fatal = False\<rparr>]"

definition registerCastHandlers :: "registration list" where
  "registerCastHandlers =
  [Register StateInGame 0x39 ''RequestMagicSkillUse'' handleRequestMagicSkillUse,
   RegisterMulti StateInGame 0x4b ''RequestDispel'' handleRequestDispel]"

definition registerCastleFortressStubs :: "registration list" where
  "registerCastleFortressStubs =
  [RegisterMultiStub StateInGame 0x3c ''RequestAllCastleInfo'',
   RegisterMultiStub StateInGame 0x3d ''RequestAllFortressInfo'',
   RegisterMultiStub StateInGame 0x3e ''RequestAllAgitInfo'',
   RegisterMultiStub StateInGame 0x40 ''RequestGetBossRecord'']"

definition registerCharacterManagementStubs :: "registration list" where
  "registerCharacterManagementStubs =
  [RegisterStub StateAuthed 0x7b ''CharacterRestore'']"

definition registerChatStubs :: "registration list" where
  "registerChatStubs =
  [SetSimple StateInGame 0x49
    \<lparr>Name = ''Say2'', Handle = handleSay2, Transition = None, Fatal = False\<rparr>,
   RegisterStub StateInGame 0x6b ''RequestSendFriendMsg'',
   RegisterMultiStub StateInGame 0x7a ''AnswerCoupleAction'',
   RegisterMultiStub StateInGame 0x7e ''RequestVoteNew'']"

definition registerClanStubs :: "registration list" where
  "registerClanStubs =
  [RegisterStub StateInGame 0x03 ''RequestStartPledgeWar'',
   RegisterStub StateInGame 0x04 ''RequestReplyStartPledgeWar'',
   RegisterStub StateInGame 0x05 ''RequestStopPledgeWar'',
   RegisterStub StateInGame 0x06 ''RequestReplyStopPledgeWar'',
   RegisterStub StateInGame 0x07 ''RequestSurrenderPledgeWar'',
   RegisterStub StateInGame 0x08 ''RequestReplySurrenderPledgeWar'',
   RegisterStub StateInGame 0x09 ''RequestSetPledgeCrest'',
   RegisterStub StateInGame 0x0b ''RequestGiveNickName'',
   RegisterStub StateInGame 0x26 ''RequestJoinPledge'',
   RegisterStub StateInGame 0x27 ''RequestAnswerJoinPledge'',
   RegisterStub StateInGame 0x28 ''RequestWithdrawalPledge'',
   RegisterStub StateInGame 0x29 ''RequestOustPledgeMember'',
   RegisterStub StateInGame 0x4d ''RequestPledgeMemberList'',
   RegisterStub StateInGame 0x65 ''RequestPledgeInfo'',
   RegisterStub StateInGame 0x66 ''RequestPledgeExtendedInfo'',
   RegisterStub StateInGame 0x67 ''RequestPledgeCrest'',
   RegisterStub StateInGame 0xcc ''RequestPledgePower'',
   RegisterMultiStub StateInGame 0x10 ''RequestExPledgeCrestLarge'',
   RegisterMultiStub StateInGame 0x11 ''RequestExSetPledgeCrestLarge'',
   RegisterMultiStub StateInGame 0x12 ''RequestPledgeSetAcademyMaster'',
   RegisterMultiStub StateInGame 0x13 ''RequestPledgePowerGradeList'',
   RegisterMultiStub StateInGame 0x14 ''RequestPledgeMemberPowerInfo'',
   RegisterMultiStub StateInGame 0x15 ''RequestPledgeSetMemberPowerGrade'',
   RegisterMultiStub StateInGame 0x16 ''RequestPledgeMemberInfo'',
   RegisterMultiStub StateInGame 0x17 ''RequestPledgeWarList'',
   RegisterMultiStub StateInGame 0x2c ''RequestPledgeReorganizeMember'',
   RegisterMultiStub StateInGame 0x3b ''RequestExChangeName'']"

definition registerCombatStubs :: "registration list" where
  "registerCombatStubs =
  [Register StateInGame 0x01 ''Attack'' handleAttack,
   Register StateInGame 0x32 ''AttackRequest'' handleAttack,
   RegisterStub StateInGame 0x5b ''StartRotating'',
   RegisterStub StateInGame 0x5c ''FinishRotating'',
   RegisterMultiStub StateInGame 0x44 ''RequestExMagicSkillUseGround'']"

definition registerCommandChannelStubs :: "registration list" where
  "registerCommandChannelStubs =
  [RegisterMultiStub StateInGame 0x06 ''RequestExAskJoinMPCC'',
   RegisterMultiStub StateInGame 0x07 ''RequestExAcceptJoinMPCC'',
   RegisterMultiStub StateInGame 0x08 ''RequestExOustFromMPCC'',
   RegisterMultiStub StateInGame 0x2d ''RequestExMPCCShowPartyMembersInfo'']"

definition registerContactsStubs :: "registration list" where
  "registerContactsStubs =
  [RegisterMultiStub StateInGame 0x84 ''RequestExAddContactToContactList'',
   RegisterMultiStub StateInGame 0x85 ''RequestExDeleteContactFromContactList'',
   RegisterMultiStub StateInGame 0x86 ''RequestExShowContactList'',
   RegisterMultiStub StateInGame 0x87 ''RequestExFriendListExtended'']"

definition registerDuelStubs :: "registration list" where
  "registerDuelStubs =
  [RegisterMultiStub StateInGame 0x1b ''RequestDuelStart'',
   RegisterMultiStub StateInGame 0x1c ''RequestDuelAnswerStart'',
   RegisterMultiStub StateInGame 0x45 ''RequestDuelSurrender'']"

definition registerEventsMiscStubs :: "registration list" where
  "registerEventsMiscStubs =
  [RegisterStub StateInGame 0xc1 ''ObserverReturn'',
   RegisterStub StateInGame 0xc8 ''RequestSSQStatus'',
   RegisterStub StateInGame 0xb4 ''SnoopQuit'',
   RegisterStub StateInGame 0x6e ''RequestRecordInfo'',
   RegisterStub StateInGame 0xcb ''GameGuardReply'',
   RegisterMultiStub StateInGame 0x05 ''RequestWriteHeroWords'',
   RegisterMultiStub StateInGame 0x18 ''RequestExFishRanking'',
   RegisterMultiStub StateInGame 0x19 ''RequestPCCafeCouponUse'',
   RegisterMultiStub StateInGame 0x1e ''RequestExRqItemLink'',
   RegisterMultiStub StateInGame 0x2a ''RequestCursedWeaponList'',
   RegisterMultiStub StateInGame 0x2b ''RequestCursedWeaponLocation'',
   RegisterMultiStub StateInGame 0x39 ''RequestBidItemAuction'',
   RegisterMultiStub StateInGame 0x3a ''RequestInfoItemAuction'',
   RegisterMultiStub StateInGame 0x52 ''RequestWithDrawPremiumItem'',
   RegisterMultiStub StateInGame 0x59 ''RequestExCleftEnter'',
   RegisterMultiStub StateInGame 0x5a ''RequestExCubeGameChangeTeam'',
   RegisterMultiStub StateInGame 0x5b ''EndScenePlayer'',
   RegisterMultiStub StateInGame 0x5c ''RequestExCubeGameReadyAnswer'',
   RegisterMultiStub StateInGame 0x7b ''BrEventRankerList'']"

definition registerFriendsStubs :: "registration list" where
  "registerFriendsStubs =
  [RegisterStub StateInGame 0x77 ''RequestFriendInvite'',
   RegisterStub StateInGame 0x78 ''RequestAnswerFriendInvite'',
   RegisterStub StateInGame 0x79 ''RequestFriendList'',
   RegisterStub StateInGame 0x7a ''RequestFriendDel'']"

definition registerGmPetitionStubs :: "registration list" where
  "registerGmPetitionStubs =
  [RegisterStub StateInGame 0x74 ''SendBypassBuildCmd'',
   RegisterStub StateInGame 0x7e ''RequestGMCommand'',
   RegisterStub StateInGame 0x8b ''RequestGmList'',
   RegisterStub StateInGame 0x89 ''RequestPetition'',
   RegisterStub StateInGame 0x8a ''RequestPetitionCancel'',
   RegisterStub StateInGame 0xc9 ''RequestPetitionFeedback'']"

definition registerHennaStubs :: "registration list" where
  "registerHennaStubs =
  [RegisterStub StateInGame 0x6f ''RequestHennaEquip'',
   RegisterStub StateInGame 0x70 ''RequestHennaRemoveList'',
   RegisterStub StateInGame 0x71 ''RequestHennaItemRemoveInfo'',
   RegisterStub StateInGame 0x72 ''RequestHennaRemove'',
   RegisterStub StateInGame 0xc3 ''RequestHennaItemList'',
   RegisterStub StateInGame 0xc4 ''RequestHennaItemInfo'']"

definition registerInventoryStubs :: "registration list" where
  "registerInventoryStubs =
  [RegisterStub StateInGame 0x17 ''RequestDropItem'',
   RegisterStub StateInGame 0x60 ''RequestDestroyItem'',
   RegisterStub StateInGame 0x2f ''RequestCrystallizeItem'',
   RegisterStub StateInGame 0xc7 ''RequestPreviewItem'',
   RegisterStub StateInGame 0xb0 ''MultiSellChoose'']"

definition registerItemEnchantStubs :: "registration list" where
  "registerItemEnchantStubs =
  [Register StateInGame 0x5f ''RequestEnchantItem'' handleRequestEnchantItem,
   RegisterMultiStub StateInGame 0x35 ''RequestExEnchantItemAttribute'',
   RegisterMultiStub StateInGame 0x23 ''RequestExRemoveItemAttribute'',
   RegisterMultiStub StateInGame 0x26 ''RequestConfirmTargetItem'',
   RegisterMultiStub StateInGame 0x27 ''RequestConfirmRefinerItem'',
   RegisterMultiStub StateInGame 0x28 ''RequestConfirmGemStone'',
   RegisterMultiStub StateInGame 0x41 ''RequestRefine'',
   RegisterMultiStub StateInGame 0x42 ''RequestConfirmCancelItem'',
   RegisterMultiStub StateInGame 0x43 ''RequestRefineCancel'',
   RegisterMulti StateInGame 0x4c ''RequestExTryToPutEnchantTargetItem'' handleRequestExTryToPutEnchantTargetItem,
   RegisterMulti StateInGame 0x4d ''RequestExTryToPutEnchantSupportItem'' (noopStub ''RequestExTryToPutEnchantSupportItem''),
   RegisterMulti StateInGame 0x4e ''RequestExCancelEnchantItem'' handleRequestExCancelEnchantItem]"

definition registerMacroStubs :: "registration list" where
  "registerMacroStubs =
  [RegisterStub StateInGame 0xcd ''RequestMakeMacro'',
   RegisterStub StateInGame 0xce ''RequestDeleteMacro'']"

definition registerMailStubs :: "registration list" where
  "registerMailStubs =
  [RegisterMultiStub StateInGame 0x65 ''RequestPostItemList'',
   RegisterMultiStub StateInGame 0x66 ''RequestSendPost'',
   RegisterMultiStub StateInGame 0x67 ''RequestReceivedPostList'',
   RegisterMultiStub StateInGame 0x68 ''RequestDeleteReceivedPost'',
   RegisterMultiStub StateInGame 0x69 ''RequestReceivedPost'',
   RegisterMultiStub StateInGame 0x6a ''RequestPostAttachment'',
   RegisterMultiStub StateInGame 0x6b ''RequestRejectPostAttachment'',
   RegisterMultiStub StateInGame 0x6c ''RequestSentPostList'',
   RegisterMultiStub StateInGame 0x6d ''RequestDeleteSentPost'',
   RegisterMultiStub StateInGame 0x6e ''RequestSentPost'',
   RegisterMultiStub StateInGame 0x6f ''RequestCancelPostAttachment'']"

definition registerManorStubs :: "registration list" where
  "registerManorStubs =
  [RegisterMultiStub StateInGame 0x02 ''RequestProcureCropList'',
   RegisterMultiStub StateInGame 0x03 ''RequestSetSeed'',
   RegisterMultiStub StateInGame 0x04 ''RequestSetCrop'',
   RegisterMultiStub StateInGame 0x63 ''RequestSeedPhase'']"

definition registerNpcInteractionStubs :: "registration list" where
  "registerNpcInteractionStubs =
  [RegisterStub StateInGame 0x22 ''RequestLinkHtml'',
   RegisterStub StateInGame 0xc6 ''DlgAnswer'',
   RegisterStub StateInGame 0xb3 ''BypassUserCmd'']"

definition registerOlympiadStubs :: "registration list" where
  "registerOlympiadStubs =
  [RegisterMultiStub StateInGame 0x29 ''RequestOlympiadObserverEnd'',
   RegisterMultiStub StateInGame 0x2e ''RequestOlympiadMatchList'',
   RegisterMultiStub StateInGame 0x88 ''RequestExOlympiadMatchListRefresh'']"

definition registerPartyStubs :: "registration list" where
  "registerPartyStubs =
  [RegisterStub StateInGame 0x42 ''RequestJoinParty'',
   RegisterStub StateInGame 0x43 ''RequestAnswerJoinParty'',
   RegisterStub StateInGame 0x44 ''RequestWithDrawalParty'',
   RegisterStub StateInGame 0x45 ''RequestOustPartyMember'',
   RegisterMultiStub StateInGame 0x0c ''RequestChangePartyLeader'',
   RegisterMultiStub StateInGame 0x78 ''RequestPartyLootModification'',
   RegisterMultiStub StateInGame 0x79 ''AnswerPartyLootModification'']"

definition registerPartyMatchingStubs :: "registration list" where
  "registerPartyMatchingStubs =
  [RegisterStub StateInGame 0x7f ''RequestPartyMatchConfig'',
   RegisterStub StateInGame 0x80 ''RequestPartyMatchList'',
   RegisterStub StateInGame 0x81 ''RequestPartyMatchDetail'',
   RegisterMultiStub StateInGame 0x09 ''RequestOustFromPartyRoom'',
   RegisterMultiStub StateInGame 0x0a ''RequestDismissPartyRoom'',
   RegisterMultiStub StateInGame 0x0b ''RequestWithdrawPartyRoom'',
   RegisterMultiStub StateInGame 0x25 ''RequestExitPartyMatchingWaitingRoom'',
   RegisterMultiStub StateInGame 0x2f ''RequestAskJoinPartyRoom'',
   RegisterMultiStub StateInGame 0x30 ''AnswerJoinPartyRoom'',
   RegisterMultiStub StateInGame 0x31 ''RequestListPartyMatchingWaitingRoom'']"

definition registerPetStubs :: "registration list" where
  "registerPetStubs =
  [RegisterStub StateInGame 0x93 ''RequestChangePetName'',
   RegisterStub StateInGame 0x94 ''RequestPetUseItem'',
   RegisterStub StateInGame 0x95 ''RequestGiveItemToPet'',
   RegisterStub StateInGame 0x98 ''RequestPetGetItem'',
   RegisterStub StateInGame 0x2c ''RequestGetItemFromPet'']"

definition registerPrivateStoreStubs :: "registration list" where
  "registerPrivateStoreStubs =
  [RegisterStub StateInGame 0x30 ''RequestPrivateStoreManageSell'',
   RegisterStub StateInGame 0x31 ''SetPrivateStoreListSell'',
   RegisterStub StateInGame 0x83 ''RequestPrivateStoreBuy'',
   RegisterStub StateInGame 0x96 ''RequestPrivateStoreQuitSell'',
   RegisterStub StateInGame 0x97 ''SetPrivateStoreMsgSell'',
   RegisterStub StateInGame 0x99 ''RequestPrivateStoreManageBuy'',
   RegisterStub StateInGame 0x9a ''SetPrivateStoreListBuy'',
   RegisterStub StateInGame 0x9c ''RequestPrivateStoreQuitBuy'',
   RegisterStub StateInGame 0x9d ''SetPrivateStoreMsgBuy'',
   RegisterStub StateInGame 0x9f ''RequestPrivateStoreSell'',
   RegisterMultiStub StateInGame 0x4a ''SetPrivateStoreWholeMsg'']"

definition registerQuestStubs :: "registration list" where
  "registerQuestStubs =
  [RegisterStub StateInGame 0x62 ''RequestQuestList'',
   RegisterStub StateInGame 0x63 ''RequestQuestAbort'']"

definition registerRecipeStubs :: "registration list" where
  "registerRecipeStubs =
  [RegisterStub StateInGame 0xb5 ''RequestRecipeBookOpen'',
   RegisterStub StateInGame 0xb6 ''RequestRecipeBookDestroy'',
   RegisterStub StateInGame 0xb7 ''RequestRecipeItemMakeInfo'',
   RegisterStub StateInGame 0xb8 ''RequestRecipeItemMakeSelf'',
   RegisterStub StateInGame 0xba ''RequestRecipeShopMessageSet'',
   RegisterStub StateInGame 0xbb ''RequestRecipeShopListSet'',
   RegisterStub StateInGame 0xbc ''RequestRecipeShopManageQuit'',
   RegisterStub StateInGame 0xbe ''RequestRecipeShopMakeInfo'',
   RegisterStub StateInGame 0xbf ''RequestRecipeShopMakeItem'',
   RegisterStub StateInGame 0xc0 ''RequestRecipeShopManagePrev'']"

definition registerSecondPasswordStubs :: "registration list" where
  "registerSecondPasswordStubs =
  [RegisterMultiStub StateAuthed 0x93 ''RequestEx2ndPasswordCheck'',
   RegisterMultiStub StateAuthed 0x94 ''RequestEx2ndPasswordVerify'',
   RegisterMultiStub StateAuthed 0x95 ''RequestEx2ndPasswordReq'']"

definition registerShopStubs :: "registration list" where
  "registerShopStubs =
  [RegisterStub StateInGame 0x37 ''RequestSellItem'',
   RegisterStub StateInGame 0x40 ''RequestBuyItem'',
   RegisterStub StateInGame 0xc5 ''RequestBuySeed'',
   RegisterStub StateInGame 0xa7 ''RequestPackageSendableItemList'',
   RegisterStub StateInGame 0xa8 ''RequestPackageSend'',
   RegisterMultiStub StateInGame 0x75 ''RequestRefundItem'',
   RegisterMultiStub StateInGame 0x76 ''RequestBuySellUIClose'']"

definition registerShortcutsStubs :: "registration list" where
  "registerShortcutsStubs =
  [Register StateInGame 0x3d ''RequestShortCutReg'' handleRequestShortCutReg,
   Register StateInGame 0x3f ''RequestShortCutDel'' handleRequestShortCutDel]"

definition registerSiegeStubs :: "registration list" where
  "registerSiegeStubs =
  [RegisterStub StateInGame 0x58 ''RequestSiegeInfo'',
   RegisterStub StateInGame 0xa9 ''RequestBlock'',
   RegisterStub StateInGame 0xaa ''RequestSiegeInfo2'',
   RegisterStub StateInGame 0xab ''RequestSiegeAttackerList'',
   RegisterStub StateInGame 0xac ''RequestSiegeDefenderList'',
   RegisterStub StateInGame 0xad ''RequestJoinSiege'',
   RegisterStub StateInGame 0xae ''RequestConfirmSiegeWaitingList'',
   RegisterStub StateInGame 0xaf ''RequestSetCastleSiegeTime'',
   RegisterMultiStub StateInGame 0x3f ''RequestFortressSiegeInfo'',
   RegisterMultiStub StateInGame 0x48 ''RequestFortressMapInfo'',
   RegisterMultiStub StateInGame 0x57 ''RequestJoinDominionWar'',
   RegisterMultiStub StateInGame 0x58 ''RequestDominionInfo'']"

definition registerSkillsStubs :: "registration list" where
  "registerSkillsStubs =
  [RegisterStub StateInGame 0x50 ''RequestSkillList'',
   RegisterMultiStub StateInGame 0x0e ''RequestExEnchantSkillInfo'',
   RegisterMultiStub StateInGame 0x0f ''RequestExEnchantSkill'',
   RegisterMultiStub StateInGame 0x32 ''RequestExEnchantSkillSafe'',
   RegisterMultiStub StateInGame 0x33 ''RequestExEnchantSkillUntrain'',
   RegisterMultiStub StateInGame 0x34 ''RequestExEnchantSkillRouteChange'',
   RegisterMultiStub StateInGame 0x46 ''RequestExEnchantSkillInfoDetail'']"

definition registerSkillLearnHandlers :: "registration list" where
  "registerSkillLearnHandlers =
  [Register StateInGame 0x23 ''RequestBypassToServer'' handleRequestBypassToServer,
   Register StateInGame 0x73 ''RequestAcquireSkillInfo'' handleRequestAcquireSkillInfo,
   Register StateInGame 0x7c ''RequestAcquireSkill'' handleRequestAcquireSkill]"

definition registerTeleportBookmarkStubs :: "registration list" where
  "registerTeleportBookmarkStubs =
  [RegisterMultiStub StateInGame 0x51 ''TeleportBookMark'']"

definition registerTradeStubs :: "registration list" where
  "registerTradeStubs =
  [RegisterStub StateInGame 0x1a ''TradeRequest'',
   RegisterStub StateInGame 0x1b ''AddTradeItem'',
   RegisterStub StateInGame 0x1c ''TradeDone'',
   RegisterStub StateInGame 0x55 ''AnswerTradeRequest'']"

definition registerTutorialStubs :: "registration list" where
  "registerTutorialStubs =
  [RegisterStub StateInGame 0x85 ''RequestTutorialLinkHtml'',
   RegisterStub StateInGame 0x86 ''RequestTutorialPassCmdToServer'',
   RegisterStub StateInGame 0x87 ''RequestTutorialQuestionMark'',
   RegisterStub StateInGame 0x88 ''RequestTutorialClientEvent'']"

definition registerVehicleStubs :: "registration list" where
  "registerVehicleStubs =
  [RegisterStub StateInGame 0x53 ''RequestGetOnVehicle'',
   RegisterStub StateInGame 0x54 ''RequestGetOffVehicle'',
   RegisterStub StateInGame 0x75 ''RequestMoveToLocationInVehicle'',
   RegisterStub StateInGame 0x76 ''CannotMoveAnymoreInVehicle'',
   RegisterMultiStub StateInGame 0x20 ''MoveToLocationInAirShip'',
   RegisterMultiStub StateInGame 0x36 ''ExGetOnAirShip'']"

definition registerWarehouseStubs :: "registration list" where
  "registerWarehouseStubs =
  [RegisterStub StateInGame 0x3b ''SendWareHouseDepositList'',
   RegisterStub StateInGame 0x3c ''SendWareHouseWithDrawList'']"

definition base_registrations :: "registration list" where
  "base_registrations =
  [SetSimple StateConnected 0x2b
    \<lparr>Name = ''AuthLogin'', Handle = handleAuthLogin, Transition = Some StateAuthed, Fatal = True\<rparr>,
   SetSimple StateAuthed 0x12
    \<lparr>Name = ''CharacterSelect'', Handle = handleCharacterSelect, Transition = None, Fatal = True\<rparr>,
   SetSimple StateAuthed 0x13
    \<lparr>Name = ''NewCharacter'', Handle = handleNewCharacter, Transition = None, Fatal = True\<rparr>,
   SetSimple StateAuthed 0x0c
    \<lparr>Name = ''CharacterCreate'', Handle = handleCharacterCreate, Transition = None, Fatal = True\<rparr>,
   SetSimple StateAuthed 0x0d
    \<lparr>Name = ''CharacterDelete'', Handle = handleCharacterDelete, Transition = None, Fatal = True\<rparr>,
   SetSimple StateAuthed 0x11
    \<lparr>Name = ''EnterWorld'', Handle = handleEnterWorld, Transition = Some StateInGame, Fatal = True\<rparr>,
   SetSimple StateAuthed 0x00
    \<lparr>Name = ''Logout'', Handle = handleLogout, Transition = None, Fatal = False\<rparr>,
   SetSimple StateAuthed 0x57
    \<lparr>Name = ''RequestRestart'', Handle = handleRequestRestart, Transition = None, Fatal = False\<rparr>,
   SetMulti StateAuthed 0x36
    \<lparr>Name = ''RequestGotoLobby'', Handle = handleRequestGotoLobby, Transition = None, Fatal = False\<rparr>,
   SetSimple StateInGame 0x1f
    \<lparr>Name = ''Action'', Handle = handleAction, Transition = None, Fatal = False\<rparr>,
   SetSimple StateInGame 0x3a
    \<lparr>Name = ''Appearing'', Handle = handleAppearing, Transition = None, Fatal = False\<rparr>,
   SetSimple StateInGame 0x7d
    \<lparr>Name = ''RequestRestartPoint'', Handle = handleRequestRestartPoint, Transition = None, Fatal = False\<rparr>,
   SetSimple StateInGame 0x48
    \<lparr>Name = ''RequestTargetCancel'', Handle = handleRequestTargetCancel, Transition = None, Fatal = False\<rparr>,
   SetSimple StateInGame 0x0f
    \<lparr>Name = ''MoveBackwardToLocation'', Handle = handleMoveBackwardToLocation, Transition = None, Fatal = False\<rparr>,
   SetSimple StateInGame 0x59
    \<lparr>Name = ''ValidatePosition'', Handle = handleValidatePosition, Transition = None, Fatal = False\<rparr>,
   SetSimple StateInGame 0x47
    \<lparr>Name = ''CannotMoveAnymore'', Handle = handleCannotMoveAnymore, Transition = None, Fatal = False\<rparr>,
   SetSimple StateInGame 0x52
    \<lparr>Name = ''MoveWithDelta'', Handle = (noopStub ''MoveWithDelta''), Transition = None, Fatal = False\<rparr>,
   SetSimple StateInGame 0x56
    \<lparr>Name = ''RequestActionUse'', Handle = handleRequestActionUse, Transition = None, Fatal = False\<rparr>,
   SetSimple StateInGame 0x00
    \<lparr>Name = ''Logout'', Handle = handleLogout, Transition = None, Fatal = False\<rparr>,
   SetSimple StateInGame 0x57
    \<lparr>Name = ''RequestRestart'', Handle = handleRequestRestart, Transition = None, Fatal = False\<rparr>,
   SetSimple StateInGame 0x14
    \<lparr>Name = ''RequestItemList'', Handle = handleRequestItemList, Transition = None, Fatal = False\<rparr>,
   SetSimple StateInGame 0x19
    \<lparr>Name = ''UseItem'', Handle = handleUseItem, Transition = None, Fatal = False\<rparr>,
   SetSimple StateInGame 0x16
    \<lparr>Name = ''RequestUnEquipItem'', Handle = handleRequestUnEquipItem, Transition = None, Fatal = False\<rparr>,
   SetSimple StateInGame 0xa6
    \<lparr>Name = ''RequestSkillCoolTime'', Handle = (noopStub ''RequestSkillCoolTime''), Transition = None, Fatal = False\<rparr>,
   SetMulti StateInGame 0x01
    \<lparr>Name = ''RequestManorList'', Handle = (noopStub ''RequestManorList''), Transition = None, Fatal = False\<rparr>,
   SetMulti StateInGame 0x0d
    \<lparr>Name = ''RequestAutoSoulShot'', Handle = handleRequestAutoSoulShot, Transition = None, Fatal = False\<rparr>,
   SetMulti StateInGame 0x21
    \<lparr>Name = ''RequestKeyMapping'', Handle = handleRequestKeyMapping, Transition = None, Fatal = False\<rparr>,
   SetMulti StateInGame 0x22
    \<lparr>Name = ''RequestSaveKeyMapping'', Handle = handleRequestSaveKeyMapping, Transition = None, Fatal = False\<rparr>,
   SetMulti StateInGame 0x24
    \<lparr>Name = ''RequestSaveInventoryOrder'', Handle = (noopStub ''RequestSaveInventoryOrder''), Transition = None, Fatal = False\<rparr>]"

definition stubRegistrators :: "registration list" where
  "stubRegistrators = concat
  [registerAllyStubs, registerBoardStubs, registerCastHandlers,
   registerCastleFortressStubs, registerCharacterManagementStubs, registerChatStubs,
   registerClanStubs, registerCombatStubs, registerCommandChannelStubs,
   registerContactsStubs, registerDuelStubs, registerEventsMiscStubs,
   registerFriendsStubs, registerGmPetitionStubs, registerHennaStubs,
   registerInventoryStubs, registerItemEnchantStubs, registerMacroStubs,
   registerMailStubs, registerManorStubs, registerNpcInteractionStubs,
   registerOlympiadStubs, registerPartyStubs, registerPartyMatchingStubs,
   registerPetStubs, registerPrivateStoreStubs, registerQuestStubs,
   registerRecipeStubs, registerSecondPasswordStubs, registerShopStubs,
   registerShortcutsStubs, registerSiegeStubs, registerSkillsStubs,
   registerSkillLearnHandlers, registerTeleportBookmarkStubs, registerTradeStubs,
   registerTutorialStubs, registerVehicleStubs, registerWarehouseStubs]"

text \<open>The registrators run in the order in which Go initialises the files of a package.\<close>

definition buildRegistry :: "Registry option" where
  "buildRegistry = run_all (base_registrations @ stubRegistrators) \<lparr>simple = [], multi = []\<rparr>"

section \<open>No collisions\<close>

text \<open>The place a registration takes, simple or multi, and what it puts there.\<close>

primrec slot_of :: "registration \<Rightarrow> bool \<times> ConnState \<times> nat" where
  "slot_of (SetSimple s k e) = (False, s, k)"
| "slot_of (RegisterStub s k n) = (False, s, k)"
| "slot_of (Register s k n h) = (False, s, k)"
| "slot_of (SetMulti s k e) = (True, s, k)"
| "slot_of (RegisterMultiStub s k n) = (True, s, k)"
| "slot_of (RegisterMulti s k n h) = (True, s, k)"

primrec entry_of :: "registration \<Rightarrow> packetEntry" where
  "entry_of (SetSimple s k e) = e"
| "entry_of (SetMulti s k e) = e"
| "entry_of (RegisterStub s k n) = \<lparr>Name = n, Handle = warnStub n, Transition = None, Fatal = False\<rparr>"
| "entry_of (Register s k n h) = \<lparr>Name = n, Handle = h, Transition = None, Fatal = False\<rparr>"
| "entry_of (RegisterMultiStub s k n) = \<lparr>Name = n, Handle = warnStub n, Transition = None, Fatal = False\<rparr>"
| "entry_of (RegisterMulti s k n h) = \<lparr>Name = n, Handle = h, Transition = None, Fatal = False\<rparr>"

fun slot :: "Registry \<Rightarrow> bool \<times> ConnState \<times> nat \<Rightarrow> packetEntry option" where
  "slot r (mul, s, k) = (if mul then map_of (multi r) (s, k) else map_of (simple r) (s, k))"

lemma run_registration_free:
  assumes "slot r (slot_of f) = None"
  shows "\<exists>r'. run_registration f r = Some r' \<and> slot r' = (slot r)(slot_of f \<mapsto> entry_of f)"
  using assms
  by (cases f) (auto simp: set_simple_def set_multi_def registerStub_def register_def registerMultiStub_def
      registerMulti_def fun_eq_iff)

lemma run_all_free:
  assumes "distinct (map slot_of rs)" and "\<forall>f \<in> set rs. slot r (slot_of f) = None"
  shows "\<exists>r'. run_all rs r = Some r' \<and> slot r' = slot r ++ map_of (map (\<lambda>f. (slot_of f, entry_of f)) rs)"
  using assms
proof (induction rs arbitrary: r)
  case (Cons f rs)
  obtain r1 where r1: "run_registration f r = Some r1" "slot r1 = (slot r)(slot_of f \<mapsto> entry_of f)"
    using run_registration_free Cons.prems(2) by (meson list.set_intros(1))
  have "\<forall>g \<in> set rs. slot r1 (slot_of g) = None"
    using Cons.prems unfolding r1(2) by (force simp: image_iff)
  with Cons.IH [of r1] Cons.prems(1) obtain r' where
    r': "run_all rs r1 = Some r'" "slot r' = slot r1 ++ map_of (map (\<lambda>f. (slot_of f, entry_of f)) rs)"
    by auto
  have "map_of (map (\<lambda>f. (slot_of f, entry_of f)) rs) (slot_of f) = None"
    using Cons.prems(1) by (auto simp: map_of_eq_None_iff image_iff)
  then have "slot r' = slot r ++ map_of (map (\<lambda>f. (slot_of f, entry_of f)) (f # rs))"
    unfolding r'(2) r1(2) by (auto simp: fun_eq_iff map_add_def split: option.splits)
  with r1(1) r'(1) show ?case by (auto simp del: list.map)
qed simp

text \<open>The places as numbers, so that their being distinct is a computation.\<close>

primrec state_number :: "ConnState \<Rightarrow> nat" where
  "state_number StateConnected = 0"
| "state_number StateAuthed = 1"
| "state_number StateInGame = 2"

fun slot_code :: "bool \<times> ConnState \<times> nat \<Rightarrow> nat" where
  "slot_code (mul, s, k) = 65536 * (if mul then 3 + state_number s else state_number s) + k"

lemmas registration_defs = base_registrations_def stubRegistrators_def
  registerAllyStubs_def registerBoardStubs_def registerCastHandlers_def
  registerCastleFortressStubs_def registerCharacterManagementStubs_def registerChatStubs_def
  registerClanStubs_def registerCombatStubs_def registerCommandChannelStubs_def
  registerContactsStubs_def registerDuelStubs_def registerEventsMiscStubs_def
  registerFriendsStubs_def registerGmPetitionStubs_def registerHennaStubs_def
  registerInventoryStubs_def registerItemEnchantStubs_def registerMacroStubs_def
  registerMailStubs_def registerManorStubs_def registerNpcInteractionStubs_def
  registerOlympiadStubs_def registerPartyStubs_def registerPartyMatchingStubs_def
  registerPetStubs_def registerPrivateStoreStubs_def registerQuestStubs_def
  registerRecipeStubs_def registerSecondPasswordStubs_def registerShopStubs_def
  registerShortcutsStubs_def registerSiegeStubs_def registerSkillsStubs_def
  registerSkillLearnHandlers_def registerTeleportBookmarkStubs_def registerTradeStubs_def
  registerTutorialStubs_def registerVehicleStubs_def registerWarehouseStubs_def

definition registrations :: "registration list" where
  "registrations = base_registrations @ stubRegistrators"

lemma registration_codes: "map (slot_code \<circ> slot_of) registrations = [43, 65554, 65555, 65548, 65549, 65553, 65536, 65623, 262198, 131103, 131130, 131197,
   131144, 131087, 131161, 131143, 131154, 131158, 131072, 131159, 131092, 131097, 131094, 131238,
   327681, 327693, 327713, 327714, 327716, 131118, 131212, 131213, 131214, 131215, 131216, 131217,
   131218, 131108, 131166, 131180, 131129, 327755, 327740, 327741, 327742, 327744, 65659, 131145,
   131179, 327802, 327806, 131075, 131076, 131077, 131078, 131079, 131080, 131081, 131083, 131110,
   131111, 131112, 131113, 131149, 131173, 131174, 131175, 131276, 327696, 327697, 327698, 327699,
   327700, 327701, 327702, 327703, 327724, 327739, 131073, 131122, 131163, 131164, 327748, 327686,
   327687, 327688, 327725, 327812, 327813, 327814, 327815, 327707, 327708, 327749, 131265, 131272,
   131252, 131182, 131275, 327685, 327704, 327705, 327710, 327722, 327723, 327737, 327738, 327762,
   327769, 327770, 327771, 327772, 327803, 131191, 131192, 131193, 131194, 131188, 131198, 131211,
   131209, 131210, 131273, 131183, 131184, 131185, 131186, 131267, 131268, 131095, 131168, 131119,
   131271, 131248, 131167, 327733, 327715, 327718, 327719, 327720, 327745, 327746, 327747, 327756,
   327757, 327758, 131277, 131278, 327781, 327782, 327783, 327784, 327785, 327786, 327787, 327788,
   327789, 327790, 327791, 327682, 327683, 327684, 327779, 131106, 131270, 131251, 327721, 327726,
   327816, 131138, 131139, 131140, 131141, 327692, 327800, 327801, 131199, 131200, 131201, 327689,
   327690, 327691, 327717, 327727, 327728, 327729, 131219, 131220, 131221, 131224, 131116, 131120,
   131121, 131203, 131222, 131223, 131225, 131226, 131228, 131229, 131231, 327754, 131170, 131171,
   131253, 131254, 131255, 131256, 131258, 131259, 131260, 131262, 131263, 131264, 262291, 262292,
   262293, 131127, 131136, 131269, 131239, 131240, 327797, 327798, 131133, 131135, 131160, 131241,
   131242, 131243, 131244, 131245, 131246, 131247, 327743, 327752, 327767, 327768, 131152, 327694,
   327695, 327730, 327731, 327732, 327750, 131107, 131187, 131196, 327761, 131098, 131099, 131100,
   131157, 131205, 131206, 131207, 131208, 131155, 131156, 131189, 131190, 327712, 327734, 131131,
   131132]"
  by (simp add: registrations_def registration_defs)

lemma distinct_slots: "distinct (map slot_of registrations)"
proof -
  have "distinct (map (slot_code \<circ> slot_of) registrations)"
    unfolding registration_codes by simp
  then show ?thesis unfolding map_map [symmetric] by (rule conjunct1 [OF iffD1 [OF distinct_map]])
qed

definition packet_table :: "((bool \<times> ConnState \<times> nat) \<times> packetEntry) list" where
  "packet_table = map (\<lambda>f. (slot_of f, entry_of f)) registrations"

lemma buildRegistry_table: "\<exists>r. buildRegistry = Some r \<and> slot r = map_of packet_table"
proof -
  let ?r = "\<lparr>simple = [], multi = []\<rparr>"
  have empty: "slot ?r = Map.empty" by (auto simp: fun_eq_iff)
  then show ?thesis
    using run_all_free [OF distinct_slots, of ?r]
    unfolding buildRegistry_def packet_table_def registrations_def by simp
qed

lemma in_table:
  assumes "list_all (\<lambda>f. P (slot_of f) (entry_of f)) registrations" and "map_of packet_table k = Some e"
  shows "P k e"
  using map_of_SomeD [OF assms(2)] assms(1) by (auto simp: packet_table_def list_all_iff)

lemma table_connected:
  "list_all (\<lambda>f. fst (slot_of f) \<or> fst (snd (slot_of f)) \<noteq> StateConnected
     \<or> snd (snd (slot_of f)) = 0x2b \<and> Handle (entry_of f) = handleAuthLogin) registrations"
  by (simp add: registrations_def registration_defs)

text \<open>The two-byte opcodes of the character selection: RequestGotoLobby and the second password.\<close>

definition lobby_codes :: "nat set" where
  "lobby_codes = {0x36, 0x93, 0x94, 0x95}"

lemma table_multi:
  "list_all (\<lambda>f. fst (slot_of f) \<longrightarrow> fst (snd (slot_of f)) = StateInGame
     \<or> fst (snd (slot_of f)) = StateAuthed \<and> snd (snd (slot_of f)) \<in> lobby_codes) registrations"
  by (simp add: registrations_def registration_defs lobby_codes_def)

lemma table_transitions:
  "list_all (\<lambda>f. Transition (entry_of f) = None
     \<or> slot_of f = (False, StateConnected, 0x2b) \<and> Handle (entry_of f) = handleAuthLogin
         \<and> Transition (entry_of f) = Some StateAuthed
     \<or> slot_of f = (False, StateAuthed, 0x11) \<and> Handle (entry_of f) = handleEnterWorld
         \<and> Transition (entry_of f) = Some StateInGame) registrations"
  by (simp add: registrations_def registration_defs)

lemma table_auth_login:
  "list_all (\<lambda>f. Handle (entry_of f) = handleAuthLogin
     \<longrightarrow> slot_of f = (False, StateConnected, 0x2b) \<and> Fatal (entry_of f)) registrations"
  by (simp add: registrations_def registration_defs)

lemma Resolve_slot:
  "Resolve r state opcode sub =
     (if opcode = multiPacketOpcode
      then (case slot r (True, state, sub) of
              Some e \<Rightarrow> Some e
            | None \<Rightarrow> if state \<noteq> StateInGame then slot r (True, StateInGame, sub) else None)
      else slot r (False, state, opcode))"
  by (auto simp: Resolve_def split: option.split)

lemma slot_buildRegistry: "buildRegistry = Some r \<Longrightarrow> slot r = map_of packet_table"
  using buildRegistry_table by (metis option.inject)

lemma Resolve_some_slot:
  "Resolve r state op sub = Some e \<Longrightarrow> \<exists>s k. slot r (op = multiPacketOpcode, s, k) = Some e
     \<and> (op \<noteq> multiPacketOpcode \<longrightarrow> s = state \<and> k = op)"
  by (auto simp: Resolve_slot simp del: slot.simps split: option.splits if_splits)

lemma Resolve_connected:
  assumes "buildRegistry = Some r" and "op \<noteq> multiPacketOpcode" and "Resolve r StateConnected op sub = Some e"
  shows "op = 0x2b \<and> Handle e = handleAuthLogin"
proof -
  have "map_of packet_table (False, StateConnected, op) = Some e"
    using assms(2,3) slot_buildRegistry [OF assms(1)] by (simp add: Resolve_slot del: slot.simps)
  from in_table [OF table_connected this] show ?thesis by simp
qed

lemma Resolve_transition:
  assumes "buildRegistry = Some r" and e: "Resolve r state op sub = Some e" and "Transition e = Some n"
  shows "op \<noteq> multiPacketOpcode
    \<and> (state = StateConnected \<and> n = StateAuthed \<and> Handle e = handleAuthLogin
       \<or> state = StateAuthed \<and> n = StateInGame \<and> Handle e = handleEnterWorld)"
proof -
  obtain s k where k: "map_of packet_table (op = multiPacketOpcode, s, k) = Some e"
    and s: "op \<noteq> multiPacketOpcode \<longrightarrow> s = state \<and> k = op"
    using Resolve_some_slot [OF e] slot_buildRegistry [OF assms(1)] by auto
  from in_table [OF table_transitions k] assms(3) s show ?thesis by auto
qed

lemma Resolve_auth_login:
  assumes "buildRegistry = Some r" and e: "Resolve r state op sub = Some e" and "Handle e = handleAuthLogin"
  shows "state = StateConnected \<and> Fatal e \<and> Transition e = Some StateAuthed"
proof -
  obtain s k where k: "map_of packet_table (op = multiPacketOpcode, s, k) = Some e"
    and s: "op \<noteq> multiPacketOpcode \<longrightarrow> s = state \<and> k = op"
    using Resolve_some_slot [OF e] slot_buildRegistry [OF assms(1)] by auto
  have slot: "(op = multiPacketOpcode, s, k) = (False, StateConnected, 0x2b)" and f: "Fatal e"
    using in_table [OF table_auth_login k] assms(3) by auto
  have "map_of packet_table (False, StateConnected, 0x2b) = Some e" using k unfolding slot .
  then have "Transition e = Some StateAuthed"
    by (auto simp: packet_table_def registrations_def base_registrations_def)
  with slot s f show ?thesis by simp
qed

text \<open>The entries that log a player in and choose a character.\<close>

lemma Resolve_login_entry:
  assumes "buildRegistry = Some r"
  shows "Resolve r StateConnected 0x2b sub = Some
    \<lparr>Name = ''AuthLogin'', Handle = handleAuthLogin, Transition = Some StateAuthed, Fatal = True\<rparr>"
  unfolding Resolve_slot slot_buildRegistry [OF assms]
  by (simp add: multiPacketOpcode_def packet_table_def registrations_def base_registrations_def)

lemma Resolve_select_entry:
  assumes "buildRegistry = Some r"
  shows "Resolve r StateAuthed 0x12 sub = Some
    \<lparr>Name = ''CharacterSelect'', Handle = handleCharacterSelect, Transition = None, Fatal = True\<rparr>"
  unfolding Resolve_slot slot_buildRegistry [OF assms]
  by (simp add: multiPacketOpcode_def packet_table_def registrations_def base_registrations_def)

section \<open>Properties\<close>



end
