(* ===== verification/GameStores.thy ===== *)
theory GameStores
  imports GoMap
begin

text \<open>
  The in-memory registries of the game server, \<open>gameserver/registry\<close>: item reuse cooldowns
  (\<open>itemreuse.go\<close>), charged shots (\<open>chargedshots.go\<close>), auto-shots (\<open>autoshots.go\<close>), armed enchant
  scrolls (\<open>enchantstate.go\<close>), who targets whom (\<open>targetindex.go\<close>), and the hate list of an NPC
  (\<open>gameloop/hatelist.go\<close>). A 32-bit id is an \<open>int\<close>: ids are only compared and copied. Instants and
  durations are in nanoseconds. A set \<open>map[K]struct{}\<close> is a list without repetitions.
\<close>

section \<open>Item reuse cooldowns\<close>

record itemReuseStamp =
  stamp_end :: int
  stamp_total :: int
  stamp_group :: int

type_synonym item_reuse = "(int, (int, itemReuseStamp) go_map) go_map"

text \<open>Reading a nil map is reading an empty one.\<close>

definition submap :: "('k, ('l, 'v) go_map) go_map \<Rightarrow> 'k \<Rightarrow> ('l, 'v) go_map" where
  "submap m k = (case map_of m k of None \<Rightarrow> [] | Some s \<Rightarrow> s)"

definition reuse_Add :: "int \<Rightarrow> int \<Rightarrow> int \<Rightarrow> int \<Rightarrow> int \<Rightarrow> item_reuse \<Rightarrow> item_reuse" where
  "reuse_Add charID objectID grp dur now r =
     (if dur \<le> 0 then r
      else AList.update charID
        (AList.update objectID \<lparr>stamp_end = now + dur, stamp_total = dur, stamp_group = grp\<rparr>
          (submap r charID)) r)"

definition RemainingByItem :: "item_reuse \<Rightarrow> int \<Rightarrow> int \<Rightarrow> int \<Rightarrow> int" where
  "RemainingByItem r charID objectID now =
     (case map_of (submap r charID) objectID of
        None \<Rightarrow> 0
      | Some st \<Rightarrow> let rem = stamp_end st - now in if rem > 0 then rem else 0)"

fun best_remaining :: "int \<Rightarrow> int \<Rightarrow> (int, itemReuseStamp) go_map \<Rightarrow> int \<Rightarrow> int" where
  "best_remaining grp now [] best = best"
| "best_remaining grp now ((_, st) # m) best =
     best_remaining grp now m
       (if stamp_group st \<noteq> grp then best
        else let rem = stamp_end st - now in if rem > best then rem else best)"

definition RemainingByGroup :: "item_reuse \<Rightarrow> int \<Rightarrow> int \<Rightarrow> int \<Rightarrow> int" where
  "RemainingByGroup r charID grp now =
     (if grp \<le> 0 then 0 else best_remaining grp now (submap r charID) 0)"

definition reuse_Clear :: "int \<Rightarrow> item_reuse \<Rightarrow> item_reuse" where
  "reuse_Clear charID r = AList.delete charID r"

section \<open>Charged shots\<close>

datatype ShotType = ShotSoulshot | ShotSpiritshot | ShotBlessedSpiritshot

type_synonym charged_shots = "(int, (ShotType, int) go_map) go_map"

definition IsCharged :: "charged_shots \<Rightarrow> int \<Rightarrow> ShotType \<Rightarrow> bool" where
  "IsCharged charged weapon shot \<longleftrightarrow>
     (case map_of charged weapon of None \<Rightarrow> False | Some m \<Rightarrow> map_of m shot \<noteq> None)"

definition ChargedGrade :: "charged_shots \<Rightarrow> int \<Rightarrow> ShotType \<Rightarrow> int" where
  "ChargedGrade charged weapon shot =
     (case map_of (submap charged weapon) shot of None \<Rightarrow> 0 | Some grade \<Rightarrow> grade)"

definition Charge :: "int \<Rightarrow> ShotType \<Rightarrow> int \<Rightarrow> charged_shots \<Rightarrow> charged_shots" where
  "Charge weapon shot grade charged =
     AList.update weapon (AList.update shot grade (submap charged weapon)) charged"

definition SetCharged :: "int \<Rightarrow> ShotType \<Rightarrow> bool \<Rightarrow> charged_shots \<Rightarrow> charged_shots" where
  "SetCharged weapon shot on charged =
     (if on then Charge weapon shot 0 charged
      else case map_of charged weapon of
             None \<Rightarrow> charged
           | Some m \<Rightarrow> let m = AList.delete shot m
               in if m = [] then AList.delete weapon charged else AList.update weapon m charged)"

definition shots_Clear :: "int \<Rightarrow> charged_shots \<Rightarrow> charged_shots" where
  "shots_Clear weapon charged = AList.delete weapon charged"

lemma submap_update [simp]: "submap (AList.update k s m) k' = (if k' = k then s else submap m k')"
  by (simp add: submap_def)

lemma submap_delete [simp]: "submap (AList.delete k m) k' = (if k' = k then [] else submap m k')"
  by (simp add: submap_def)

lemma IsCharged_Charge [simp]:
  "IsCharged (Charge w s g charged) w' s' \<longleftrightarrow> (w' = w \<and> s' = s) \<or> IsCharged charged w' s'"
  by (auto simp: IsCharged_def Charge_def submap_def split: option.splits)

lemma IsCharged_spent [simp]:
  "IsCharged (SetCharged w s False charged) w' s' \<longleftrightarrow> \<not> (w' = w \<and> s' = s) \<and> IsCharged charged w' s'"
proof (cases "map_of charged w")
  case (Some m)
  show ?thesis
  proof (cases "AList.delete s m = []")
    case True
    then have "map_of m s' = None" if "s' \<noteq> s" for s'
      using map_of_delete [of s m s'] that by simp
    then show ?thesis using Some True by (cases "s' = s") (auto simp: SetCharged_def IsCharged_def Let_def)
  next
    case False
    then show ?thesis using Some by (auto simp: SetCharged_def IsCharged_def Let_def)
  qed
qed (auto simp: SetCharged_def IsCharged_def)

lemma IsCharged_Clear [simp]: "IsCharged (shots_Clear w charged) w' s \<longleftrightarrow> w' \<noteq> w \<and> IsCharged charged w' s"
  by (simp add: IsCharged_def shots_Clear_def)

section \<open>Auto-shots\<close>

type_synonym auto_shots = "(int, (int, unit) go_map) go_map"

definition Enable :: "int \<Rightarrow> int \<Rightarrow> auto_shots \<Rightarrow> auto_shots" where
  "Enable charID itemID r = AList.update charID (AList.update itemID () (submap r charID)) r"

definition Disable :: "int \<Rightarrow> int \<Rightarrow> auto_shots \<Rightarrow> auto_shots" where
  "Disable charID itemID r =
     (case map_of r charID of
        None \<Rightarrow> r
      | Some m \<Rightarrow> let m = AList.delete itemID m
          in if m = [] then AList.delete charID r else AList.update charID m r)"

definition IsActive :: "auto_shots \<Rightarrow> int \<Rightarrow> int \<Rightarrow> bool" where
  "IsActive r charID itemID \<longleftrightarrow> map_of (submap r charID) itemID \<noteq> None"

definition HasAny :: "auto_shots \<Rightarrow> int \<Rightarrow> bool" where
  "HasAny r charID \<longleftrightarrow> length (submap r charID) > 0"

definition auto_List :: "auto_shots \<Rightarrow> int \<Rightarrow> int list" where
  "auto_List r charID = map fst (submap r charID)"

definition auto_Clear :: "int \<Rightarrow> auto_shots \<Rightarrow> auto_shots" where
  "auto_Clear charID r = AList.delete charID r"

lemma IsActive_List: "IsActive r c i \<longleftrightarrow> i \<in> set (auto_List r c)"
  by (simp add: IsActive_def auto_List_def map_of_eq_None_iff dom_map_of_conv_image_fst)

lemma IsActive_Enable [simp]: "IsActive (Enable c i r) c' i' \<longleftrightarrow> (c' = c \<and> i' = i) \<or> IsActive r c' i'"
  by (auto simp: IsActive_def Enable_def)

lemma IsActive_Disable [simp]: "IsActive (Disable c i r) c' i' \<longleftrightarrow> \<not> (c' = c \<and> i' = i) \<and> IsActive r c' i'"
proof (cases "map_of r c")
  case (Some m)
  show ?thesis
  proof (cases "AList.delete i m = []")
    case True
    have "map_of m i' = None" if "i' \<noteq> i" for i'
      using map_of_delete [of i m i'] True that by simp
    then show ?thesis using Some True by (cases "i' = i") (auto simp: Disable_def IsActive_def submap_def Let_def)
  next
    case False
    then show ?thesis using Some by (auto simp: Disable_def IsActive_def submap_def Let_def)
  qed
qed (auto simp: Disable_def IsActive_def submap_def)

section \<open>Armed enchant scrolls\<close>

record ActiveEnchant =
  ScrollObjectID :: int
  ScrollItemID :: int

type_synonym enchant_state = "(int, ActiveEnchant) go_map"

definition SetActive :: "int \<Rightarrow> ActiveEnchant \<Rightarrow> enchant_state \<Rightarrow> enchant_state" where
  "SetActive charID a active = AList.update charID a active"

definition GetActive :: "enchant_state \<Rightarrow> int \<Rightarrow> ActiveEnchant option" where
  "GetActive active charID = map_of active charID"

definition HasActive :: "enchant_state \<Rightarrow> int \<Rightarrow> bool" where
  "HasActive active charID \<longleftrightarrow> map_of active charID \<noteq> None"

definition enchant_Clear :: "int \<Rightarrow> enchant_state \<Rightarrow> enchant_state" where
  "enchant_Clear charID active = AList.delete charID active"

section \<open>The hate list of an NPC\<close>

type_synonym hate_list = "(int, int) go_map"

definition AddHate :: "int \<Rightarrow> int \<Rightarrow> hate_list \<Rightarrow> hate_list" where
  "AddHate charID amount hl =
     AList.update charID ((case map_of hl charID of None \<Rightarrow> 0 | Some h \<Rightarrow> h) + amount) hl"

fun top_attacker :: "hate_list \<Rightarrow> int \<Rightarrow> int \<Rightarrow> int" where
  "top_attacker [] topID topHate = topID"
| "top_attacker ((charID, hate) # hl) topID topHate =
     (if hate > topHate then top_attacker hl charID hate else top_attacker hl topID topHate)"

definition GetTopAttacker :: "hate_list \<Rightarrow> int" where
  "GetTopAttacker hl = top_attacker hl 0 0"

definition GetAllAttackers :: "hate_list \<Rightarrow> int list" where
  "GetAllAttackers hl = map fst hl"

definition hate_IsEmpty :: "hate_list \<Rightarrow> bool" where
  "hate_IsEmpty hl \<longleftrightarrow> length hl = 0"

lemma RemainingByItem_Add:
  assumes "0 < dur"
  shows "RemainingByItem (reuse_Add c i g dur t r) c' i' now =
    (if c' = c \<and> i' = i then max 0 (t + dur - now) else RemainingByItem r c' i' now)"
  using assms by (auto simp: RemainingByItem_def reuse_Add_def Let_def)

lemma best_remaining_ge:
  "b \<le> best_remaining g now m b \<and> (\<forall>(k, st) \<in> set m. stamp_group st = g \<longrightarrow> stamp_end st - now \<le> best_remaining g now m b)"
proof (induction g now m b rule: best_remaining.induct)
  case (2 g now k st m b)
  then show ?case by (fastforce simp: Let_def split: if_splits)
qed simp

lemma best_remaining_from:
  "best_remaining g now m b = b \<or> (\<exists>(k, st) \<in> set m. stamp_group st = g \<and> best_remaining g now m b = stamp_end st - now)"
proof (induction g now m b rule: best_remaining.induct)
  case (2 g now k st m b)
  then show ?case by (fastforce simp: Let_def split: if_splits)
qed simp

lemma top_attacker_max:
  "\<exists>h'. h \<le> h' \<and> (\<forall>(c, x) \<in> set hl. x \<le> h')
    \<and> ((top_attacker hl i h, h') = (i, h) \<or> (top_attacker hl i h, h') \<in> set hl)"
proof (induction hl i h rule: top_attacker.induct)
  case (2 c x hl i h)
  show ?case
  proof (cases "h < x")
    case True
    with 2(1) obtain h' where "x \<le> h'" "\<forall>(c, x) \<in> set hl. x \<le> h'"
        "(top_attacker hl c x, h') = (c, x) \<or> (top_attacker hl c x, h') \<in> set hl" by blast
    with True show ?thesis by (intro exI [of _ h']) auto
  next
    case False
    with 2(2) obtain h' where "h \<le> h'" "\<forall>(c, x) \<in> set hl. x \<le> h'"
        "(top_attacker hl i h, h') = (i, h) \<or> (top_attacker hl i h, h') \<in> set hl" by blast
    with False show ?thesis by (intro exI [of _ h']) auto
  qed
qed auto

lemma GetTopAttacker_max:
  assumes "(c, x) \<in> set hl" and "0 < x"
  shows "\<exists>top. (GetTopAttacker hl, top) \<in> set hl \<and> (\<forall>(c, x) \<in> set hl. x \<le> top)"
  using top_attacker_max [of 0 hl 0] assms unfolding GetTopAttacker_def by fastforce

section \<open>Who targets whom\<close>

record target_index =
  current :: "(int, int) go_map"
  targeters :: "(int, (int, unit) go_map) go_map"

definition newTargetIndex :: target_index where
  "newTargetIndex = \<lparr>current = [], targeters = []\<rparr>"

definition unlink :: "int \<Rightarrow> int \<Rightarrow> (int, (int, unit) go_map) go_map \<Rightarrow> (int, (int, unit) go_map) go_map" where
  "unlink old targeter ts =
     (case map_of ts old of
        None \<Rightarrow> ts
      | Some s \<Rightarrow> let s = AList.delete targeter s
          in if s = [] then AList.delete old ts else AList.update old s ts)"

definition index_set :: "int \<Rightarrow> int \<Rightarrow> target_index \<Rightarrow> target_index" where
  "index_set targeter newTarget ti =
     (let old = (case map_of (current ti) targeter of None \<Rightarrow> 0 | Some t \<Rightarrow> t) in
      if old = newTarget then ti
      else let ts = (if old \<noteq> 0 then unlink old targeter (targeters ti) else targeters ti) in
        if newTarget \<noteq> 0
        then \<lparr>current = AList.update targeter newTarget (current ti),
              targeters = AList.update newTarget (AList.update targeter () (submap ts newTarget)) ts\<rparr>
        else \<lparr>current = AList.delete targeter (current ti), targeters = ts\<rparr>)"

definition dropTarget :: "int \<Rightarrow> target_index \<Rightarrow> target_index" where
  "dropTarget objectID ti =
     (case map_of (targeters ti) objectID of
        None \<Rightarrow> ti
      | Some s \<Rightarrow>
          \<lparr>current = fold (\<lambda>charID cur. if map_of cur charID = Some objectID then AList.delete charID cur else cur)
             (map fst s) (current ti),
           targeters = AList.delete objectID (targeters ti)\<rparr>)"

definition targetersOf :: "target_index \<Rightarrow> int \<Rightarrow> int list" where
  "targetersOf ti objectID = map fst (submap (targeters ti) objectID)"

text \<open>
  What the index promises: a map from each character to its target, changed in the obvious way.
  \<open>index_ok\<close> ties the two maps of the index together.
\<close>

datatype target_op = Target int int | Forget int

definition target_spec :: "target_op \<Rightarrow> (int \<rightharpoonup> int) \<Rightarrow> (int \<rightharpoonup> int)" where
  "target_spec op m = (case op of
     Target c t \<Rightarrow> if t = 0 then m(c := None) else m(c \<mapsto> t)
   | Forget t \<Rightarrow> (\<lambda>c. if m c = Some t then None else m c))"

definition target_run :: "target_op \<Rightarrow> target_index \<Rightarrow> target_index" where
  "target_run op ti = (case op of Target c t \<Rightarrow> index_set c t ti | Forget t \<Rightarrow> dropTarget t ti)"

definition index_ok :: "target_index \<Rightarrow> (int \<rightharpoonup> int) \<Rightarrow> bool" where
  "index_ok ti m \<longleftrightarrow> map_of (current ti) = m \<and> (\<forall>c. m c \<noteq> Some 0)
     \<and> (\<forall>c t. map_of (submap (targeters ti) t) c = (if m c = Some t then Some () else None))
     \<and> (\<forall>t. map_ok (submap (targeters ti) t))"

lemma submap_unlink: "map_of (submap (unlink old c ts) t) x
    = (if t = old \<and> x = c then None else map_of (submap ts t) x)"
proof (cases "map_of ts old")
  case (Some s)
  show ?thesis
  proof (cases "AList.delete c s = []")
    case True
    have "map_of s x = None" if "x \<noteq> c" for x
      using map_of_delete [of c s x] True that by simp
    then show ?thesis using Some True by (cases "x = c") (auto simp: unlink_def submap_def Let_def)
  next
    case False
    then show ?thesis using Some by (auto simp: unlink_def submap_def Let_def)
  qed
qed (auto simp: unlink_def submap_def)

lemma submap_unlink_ok: "map_ok (submap ts t) \<Longrightarrow> map_ok (submap ts old) \<Longrightarrow> map_ok (submap (unlink old c ts) t)"
  by (auto simp: unlink_def submap_def Let_def split: option.split)

lemma forget_fold:
  "map_of (fold (\<lambda>c cur. if map_of cur c = Some t then AList.delete c cur else cur) cs cur) x
    = (if x \<in> set cs \<and> map_of cur x = Some t then None else map_of cur x)"
  by (induction cs arbitrary: cur) auto

lemma index_ok_step:
  assumes "index_ok ti m"
  shows "index_ok (target_run op ti) (target_spec op m)"
proof (cases op)
  case (Target c t)
  have lookup: "map_of (current ti) = m" "\<And>c. m c \<noteq> Some 0"
    "\<And>c t. map_of (submap (targeters ti) t) c = (if m c = Some t then Some () else None)"
    "\<And>t. map_ok (submap (targeters ti) t)"
    using assms by (auto simp: index_ok_def)
  show ?thesis
    using lookup(2)
    by (cases "m c")
      (auto simp: Target target_run_def target_spec_def index_set_def index_ok_def lookup(1,3,4) Let_def
        submap_unlink submap_unlink_ok fun_eq_iff)
next
  case (Forget t)
  have lookup: "map_of (current ti) = m" "\<And>c. m c \<noteq> Some 0"
    "\<And>c t. map_of (submap (targeters ti) t) c = (if m c = Some t then Some () else None)"
    "\<And>t. map_ok (submap (targeters ti) t)"
    using assms by (auto simp: index_ok_def)
  have keys: "x \<in> set (map fst s) \<longleftrightarrow> map_of s x \<noteq> None" for s :: "(int, unit) go_map" and x
    using gm.keys_lookup [of s] by auto
  show ?thesis
  proof (cases "map_of (targeters ti) t")
    case None
    then have "m c \<noteq> Some t" for c using lookup(3) [of t c] by (auto simp: submap_def split: if_splits)
    then show ?thesis using assms None
      by (auto simp: Forget target_run_def target_spec_def dropTarget_def fun_eq_iff index_ok_def)
  next
    case (Some s)
    then have s: "map_of s c = (if m c = Some t then Some () else None)" for c
      using lookup(3) [of t c] by (simp add: submap_def)
    show ?thesis
      using lookup Some s keys
      by (auto simp: Forget target_run_def target_spec_def dropTarget_def index_ok_def forget_fold fun_eq_iff)
  qed
qed

lemma index_ok_run: "index_ok ti m \<Longrightarrow> index_ok (fold target_run ops ti) (fold target_spec ops m)"
  by (induction ops arbitrary: ti m) (simp_all add: index_ok_step)

lemma index_ok_new: "index_ok newTargetIndex Map.empty"
  by (simp add: index_ok_def newTargetIndex_def submap_def)

lemma targetersOf_ok:
  assumes "index_ok ti m"
  shows "distinct (targetersOf ti t) \<and> set (targetersOf ti t) = {c. m c = Some t}"
  using assms gm.keys_lookup [of "submap (targeters ti) t"]
  by (auto simp: index_ok_def targetersOf_def map_ok_def split: if_splits)

text \<open>
  C38: The reverse index of targets. Whatever sequence of target changes (0 is no target) and of
  objects leaving the world it has seen, the index answers for each object exactly the characters
  whose target it is in the plain map from characters to targets that the same sequence builds, each
  of them once.
\<close>

theorem target_index_refinement:
  "distinct (targetersOf (fold target_run ops newTargetIndex) objectID)
   \<and> set (targetersOf (fold target_run ops newTargetIndex) objectID)
      = {c. fold target_spec ops Map.empty c = Some objectID}"
  by (rule targetersOf_ok [OF index_ok_run [OF index_ok_new]])

end
