(* ===== verification/WorldGrid.thy ===== *)
theory WorldGrid
  imports GameStores "HOL-Library.Signed_Division"
begin

text \<open>
  The world of the game server, \<open>gameserver/registry/world.go\<close>: the players and NPCs in it and the
  grid of regions through which they are found. A player state is the fields of
  \<open>PlayerWorldState\<close> that the registry itself reads or writes; the free-form \<open>Data\<close> of a world object
  is left out. A pointer to a state is the state: the registry hands out the pointer it stores. A Go
  \<open>int\<close> is unbounded here: coordinates are 32-bit numbers on the wire, so that the sums, differences
  and, within \<open>2 ^ 25\<close> of the origin, the \<open>float64\<close> square root of the code are exact.
\<close>

section \<open>The data\<close>

record Position =
  X :: int
  Y :: int
  Z :: int

record Character =
  ID :: int
  AccountName :: string
  CharName :: string
  CharPosition :: Position

record PlayerWorldState =
  wpCharID :: int
  wpAccountName :: string
  wpCharacter :: "Character option"
  wpPosition :: Position
  wpHeading :: int
  wpOnline :: bool
  wpInCombat :: bool
  wpLastUpdate :: int
  wpIsMoving :: bool
  wpIsRunning :: bool
  wpTargetID :: int
  wpPvPFlagUntil :: "int option"
  wpKnownNPCs :: "(int, bool) go_map"
  wpKnownPlayers :: "(int, bool) go_map"

datatype WorldObjectType = ObjectTypePlayer | ObjectTypeNPC | ObjectTypeItem | ObjectTypeDoor | ObjectTypeSpawn

record WorldObject =
  woID :: int
  woName :: string
  woType :: WorldObjectType
  woPosition :: Position

record NpcInstance =
  npcObjectID :: int
  npcName :: string
  npcPosition :: Position

type_synonym region_key = "64 word"

text \<open>The registry, with the two global registries \<open>RemovePlayer\<close> also clears.\<close>

record WorldRegistry =
  players :: "(int, PlayerWorldState) go_map"
  objects :: "(int, WorldObject) go_map"
  npcs :: "(int, NpcInstance) go_map"
  regions :: "(region_key, int list) go_map"
  targets :: target_index
  item_reuses :: item_reuse
  auto_shots :: auto_shots

definition NewWorldRegistry :: WorldRegistry where
  "NewWorldRegistry = \<lparr>players = [], objects = [], npcs = [], regions = [], targets = newTargetIndex,
     item_reuses = [], auto_shots = []\<rparr>"

section \<open>The grid\<close>

definition regionSize :: int where
  "regionSize = 1000"

definition packRegion :: "int \<Rightarrow> int \<Rightarrow> region_key" where
  "packRegion rx ry =
     push_bit 32 (word_of_int rx) OR (scast (word_of_int ry :: 32 word) AND 0xffffffff)"

definition getRegionKey :: "int \<Rightarrow> int \<Rightarrow> region_key" where
  "getRegionKey x y = packRegion (x sdiv regionSize) (y sdiv regionSize)"

definition region_ids :: "(region_key, int list) go_map \<Rightarrow> region_key \<Rightarrow> int list" where
  "region_ids rs k = (case map_of rs k of None \<Rightarrow> [] | Some ids \<Rightarrow> ids)"

definition addToRegion :: "region_key \<Rightarrow> int \<Rightarrow> (region_key, int list) go_map \<Rightarrow> (region_key, int list) go_map" where
  "addToRegion k i rs = AList.update k (region_ids rs k @ [i]) rs"

definition removeFromRegion :: "region_key \<Rightarrow> int \<Rightarrow> (region_key, int list) go_map \<Rightarrow> (region_key, int list) go_map" where
  "removeFromRegion k i rs =
     (case map_of rs k of
        None \<Rightarrow> rs
      | Some ids \<Rightarrow> let ids = remove1 i ids
          in if ids = [] then AList.delete k rs else AList.update k ids rs)"

definition getNearbyRegions :: "int \<Rightarrow> int \<Rightarrow> int \<Rightarrow> region_key list" where
  "getNearbyRegions x y radius =
     (let startX = (x - radius) sdiv regionSize; endX = (x + radius) sdiv regionSize;
          startY = (y - radius) sdiv regionSize; endY = (y + radius) sdiv regionSize
      in concat (map (\<lambda>rx. map (packRegion rx) [startY..endY]) [startX..endX]))"

text \<open>\<open>int(math.Sqrt(float64(n)))\<close>, digit by digit in base 2.\<close>

fun isqrt :: "nat \<Rightarrow> nat" where
  "isqrt n =
     (if n = 0 then 0
      else let r = 2 * isqrt (n div 4) in if (r + 1) * (r + 1) \<le> n then r + 1 else r)"

declare isqrt.simps [simp del]

definition calculateDistance :: "Position \<Rightarrow> Position \<Rightarrow> int" where
  "calculateDistance pos1 pos2 =
     (let dx = X pos1 - X pos2; dy = Y pos1 - Y pos2 in int (isqrt (nat (dx * dx + dy * dy))))"

section \<open>Players\<close>

definition AddPlayer :: "int \<Rightarrow> Character \<Rightarrow> WorldRegistry \<Rightarrow> WorldRegistry" where
  "AddPlayer now char wr =
     (let state = \<lparr>wpCharID = ID char, wpAccountName = AccountName char, wpCharacter = Some char,
            wpPosition = CharPosition char, wpHeading = 0, wpOnline = True, wpInCombat = False,
            wpLastUpdate = now, wpIsMoving = False, wpIsRunning = True, wpTargetID = 0,
            wpPvPFlagUntil = None, wpKnownNPCs = [], wpKnownPlayers = []\<rparr>;
          obj = \<lparr>woID = ID char, woName = CharName char, woType = ObjectTypePlayer, woPosition = CharPosition char\<rparr>;
          regionKey = getRegionKey (X (CharPosition char)) (Y (CharPosition char))
      in wr\<lparr>players := AList.update (ID char) state (players wr),
            objects := AList.update (ID char) obj (objects wr),
            regions := addToRegion regionKey (ID char) (regions wr)\<rparr>)"

definition player_region :: "PlayerWorldState \<Rightarrow> region_key" where
  "player_region state = getRegionKey (X (wpPosition state)) (Y (wpPosition state))"

text \<open>What \<open>RemovePlayer\<close> and \<open>CleanupOfflinePlayers\<close> both do to one player.\<close>

definition drop_player :: "int \<Rightarrow> PlayerWorldState \<Rightarrow> WorldRegistry \<Rightarrow> WorldRegistry" where
  "drop_player charID state wr =
     wr\<lparr>regions := removeFromRegion (player_region state) charID (regions wr),
        players := AList.delete charID (players wr),
        objects := AList.delete charID (objects wr),
        targets := dropTarget charID (index_set charID 0 (targets wr))\<rparr>"

definition RemovePlayer :: "int \<Rightarrow> WorldRegistry \<Rightarrow> WorldRegistry" where
  "RemovePlayer charID wr =
     (case map_of (players wr) charID of
        None \<Rightarrow> wr
      | Some state \<Rightarrow>
          let wr = drop_player charID state wr
          in wr\<lparr>item_reuses := reuse_Clear charID (item_reuses wr),
                auto_shots := auto_Clear charID (auto_shots wr)\<rparr>)"

definition GetPlayer :: "WorldRegistry \<Rightarrow> int \<Rightarrow> PlayerWorldState option" where
  "GetPlayer wr charID = map_of (players wr) charID"

definition GetPlayerByAccount :: "WorldRegistry \<Rightarrow> string \<Rightarrow> PlayerWorldState option" where
  "GetPlayerByAccount wr account = find (\<lambda>state. wpAccountName state = account) (map snd (players wr))"

definition ErrPlayerNotFound :: string where
  "ErrPlayerNotFound = ''player not found''"

definition UpdatePlayerPosition :: "int \<Rightarrow> int \<Rightarrow> Position \<Rightarrow> int \<Rightarrow> WorldRegistry
    \<Rightarrow> (string + unit) \<times> WorldRegistry" where
  "UpdatePlayerPosition now charID newPos heading wr =
     (case map_of (players wr) charID of
        None \<Rightarrow> (Inl ErrPlayerNotFound, wr)
      | Some state \<Rightarrow>
          let oldRegionKey = player_region state;
              newRegionKey = getRegionKey (X newPos) (Y newPos);
              state = state\<lparr>wpPosition := newPos, wpHeading := heading, wpLastUpdate := now,
                  wpCharacter := map_option (\<lambda>c. c\<lparr>CharPosition := newPos\<rparr>) (wpCharacter state)\<rparr>;
              objs = (case map_of (objects wr) charID of
                  None \<Rightarrow> objects wr
                | Some obj \<Rightarrow> AList.update charID (obj\<lparr>woPosition := newPos\<rparr>) (objects wr));
              rs = (if oldRegionKey \<noteq> newRegionKey
                  then addToRegion newRegionKey charID (removeFromRegion oldRegionKey charID (regions wr))
                  else regions wr)
          in (Inr (), wr\<lparr>players := AList.update charID state (players wr), objects := objs, regions := rs\<rparr>))"

text \<open>The three setters that change one player in place.\<close>

definition modify_player :: "int \<Rightarrow> (PlayerWorldState \<Rightarrow> PlayerWorldState) \<Rightarrow> WorldRegistry \<Rightarrow> WorldRegistry" where
  "modify_player charID f wr =
     (case map_of (players wr) charID of
        None \<Rightarrow> wr
      | Some state \<Rightarrow> wr\<lparr>players := AList.update charID (f state) (players wr)\<rparr>)"

definition SetPlayerCombatState :: "int \<Rightarrow> int \<Rightarrow> bool \<Rightarrow> WorldRegistry \<Rightarrow> (string + unit) \<times> WorldRegistry" where
  "SetPlayerCombatState now charID inCombat wr =
     (if map_of (players wr) charID = None then (Inl ErrPlayerNotFound, wr)
      else (Inr (), modify_player charID (\<lambda>s. s\<lparr>wpInCombat := inCombat, wpLastUpdate := now\<rparr>) wr))"

definition UpdatePlayerRunWalkState :: "int \<Rightarrow> int \<Rightarrow> bool \<Rightarrow> WorldRegistry \<Rightarrow> (string + unit) \<times> WorldRegistry" where
  "UpdatePlayerRunWalkState now charID isRunning wr =
     (if map_of (players wr) charID = None then (Inl (''player not found: '' @ format_int charID), wr)
      else (Inr (), modify_player charID (\<lambda>s. s\<lparr>wpIsRunning := isRunning, wpLastUpdate := now\<rparr>) wr))"

definition SetPlayerTarget :: "int \<Rightarrow> int \<Rightarrow> WorldRegistry \<Rightarrow> WorldRegistry" where
  "SetPlayerTarget charID targetID wr =
     (let wr = modify_player charID (\<lambda>s. s\<lparr>wpTargetID := targetID\<rparr>) wr
      in wr\<lparr>targets := index_set charID targetID (targets wr)\<rparr>)"

definition GetPlayersTargeting :: "WorldRegistry \<Rightarrow> int \<Rightarrow> int list" where
  "GetPlayersTargeting wr objectID = targetersOf (targets wr) objectID"

definition GetOnlinePlayerCount :: "WorldRegistry \<Rightarrow> nat" where
  "GetOnlinePlayerCount wr = length (filter wpOnline (map snd (players wr)))"

definition SnapshotPlayers :: "WorldRegistry \<Rightarrow> PlayerWorldState list" where
  "SnapshotPlayers wr = map snd (players wr)"

fun cleanup_loop :: "int \<Rightarrow> int \<Rightarrow> (int, PlayerWorldState) go_map \<Rightarrow> WorldRegistry \<Rightarrow> nat \<Rightarrow> nat \<times> WorldRegistry" where
  "cleanup_loop now maxOfflineTime [] wr removed = (removed, wr)"
| "cleanup_loop now maxOfflineTime ((charID, state) # rest) wr removed =
     (if \<not> wpOnline state \<and> now - wpLastUpdate state > maxOfflineTime
      then cleanup_loop now maxOfflineTime rest (drop_player charID state wr) (removed + 1)
      else cleanup_loop now maxOfflineTime rest wr removed)"

definition CleanupOfflinePlayers :: "int \<Rightarrow> int \<Rightarrow> WorldRegistry \<Rightarrow> nat \<times> WorldRegistry" where
  "CleanupOfflinePlayers now maxOfflineTime wr = cleanup_loop now maxOfflineTime (players wr) wr 0"

section \<open>NPCs\<close>

definition AddNPC :: "NpcInstance \<Rightarrow> WorldRegistry \<Rightarrow> WorldRegistry" where
  "AddNPC npc wr =
     (let obj = \<lparr>woID = npcObjectID npc, woName = npcName npc, woType = ObjectTypeNPC, woPosition = npcPosition npc\<rparr>;
          regionKey = getRegionKey (X (npcPosition npc)) (Y (npcPosition npc))
      in wr\<lparr>npcs := AList.update (npcObjectID npc) npc (npcs wr),
            objects := AList.update (npcObjectID npc) obj (objects wr),
            regions := addToRegion regionKey (npcObjectID npc) (regions wr)\<rparr>)"

definition RemoveNPC :: "int \<Rightarrow> WorldRegistry \<Rightarrow> WorldRegistry" where
  "RemoveNPC objectID wr =
     (case map_of (npcs wr) objectID of
        None \<Rightarrow> wr
      | Some npc \<Rightarrow>
          wr\<lparr>regions := removeFromRegion (getRegionKey (X (npcPosition npc)) (Y (npcPosition npc))) objectID (regions wr),
             npcs := AList.delete objectID (npcs wr),
             objects := AList.delete objectID (objects wr),
             targets := dropTarget objectID (targets wr)\<rparr>)"

definition GetNPC :: "WorldRegistry \<Rightarrow> int \<Rightarrow> NpcInstance option" where
  "GetNPC wr objectID = map_of (npcs wr) objectID"

definition GetNPCCount :: "WorldRegistry \<Rightarrow> nat" where
  "GetNPCCount wr = length (npcs wr)"

definition GetAllNPCs :: "WorldRegistry \<Rightarrow> NpcInstance list" where
  "GetAllNPCs wr = map snd (npcs wr)"

section \<open>Range queries\<close>

text \<open>The loop the three queries share: each id of the cells once, looked up and measured.\<close>

fun scan_ids :: "(int \<Rightarrow> 'a option) \<Rightarrow> ('a \<Rightarrow> Position) \<Rightarrow> Position \<Rightarrow> int \<Rightarrow> int list \<Rightarrow> int list \<Rightarrow> 'a list" where
  "scan_ids get at pos radius seen [] = []"
| "scan_ids get at pos radius seen (i # ids) =
     (if i \<in> set seen then scan_ids get at pos radius seen ids
      else case get i of
             None \<Rightarrow> scan_ids get at pos radius (i # seen) ids
           | Some s \<Rightarrow> if calculateDistance pos (at s) \<le> radius
               then s # scan_ids get at pos radius (i # seen) ids
               else scan_ids get at pos radius (i # seen) ids)"

definition nearby_ids :: "WorldRegistry \<Rightarrow> Position \<Rightarrow> int \<Rightarrow> int list" where
  "nearby_ids wr pos radius = concat (map (region_ids (regions wr)) (getNearbyRegions (X pos) (Y pos) radius))"

definition GetObjectsInRange :: "WorldRegistry \<Rightarrow> Position \<Rightarrow> int \<Rightarrow> WorldObject list" where
  "GetObjectsInRange wr pos radius =
     scan_ids (map_of (objects wr)) woPosition pos radius [] (nearby_ids wr pos radius)"

definition GetPlayersInRange :: "WorldRegistry \<Rightarrow> Position \<Rightarrow> int \<Rightarrow> PlayerWorldState list" where
  "GetPlayersInRange wr pos radius =
     scan_ids (map_of (players wr)) wpPosition pos radius [] (nearby_ids wr pos radius)"

definition GetNPCsInRange :: "WorldRegistry \<Rightarrow> Position \<Rightarrow> int \<Rightarrow> NpcInstance list" where
  "GetNPCsInRange wr pos radius =
     scan_ids (map_of (npcs wr)) npcPosition pos radius [] (nearby_ids wr pos radius)"

lemma isqrt_ok: "isqrt n * isqrt n \<le> n \<and> n < (isqrt n + 1) * (isqrt n + 1)"
proof (induction n rule: isqrt.induct)
  case (1 n)
  show ?case
  proof (cases "n = 0")
    case False
    define s where "s = isqrt (n div 4)"
    have s: "s * s \<le> n div 4" "n div 4 < (s + 1) * (s + 1)" using 1 [OF False] by (simp_all add: s_def)
    have "4 * (s * s) \<le> n" using s(1) by linarith
    moreover have "n < 4 * ((s + 1) * (s + 1))" using s(2) by linarith
    ultimately have "(2 * s) * (2 * s) \<le> n" "n < (2 * s + 2) * (2 * s + 2)" by (simp_all add: algebra_simps)
    moreover have "isqrt n = (if (2 * s + 1) * (2 * s + 1) \<le> n then 2 * s + 1 else 2 * s)"
      using False by (subst isqrt.simps) (simp add: s_def Let_def)
    ultimately show ?thesis by auto
  qed (simp add: isqrt.simps)
qed

lemma isqrt_le: "isqrt n \<le> r \<longleftrightarrow> n < (r + 1) * (r + 1)"
proof
  assume "isqrt n \<le> r"
  then have "(isqrt n + 1) * (isqrt n + 1) \<le> (r + 1) * (r + 1)" by (intro mult_le_mono) auto
  then show "n < (r + 1) * (r + 1)" using isqrt_ok [of n] by linarith
next
  assume n: "n < (r + 1) * (r + 1)"
  show "isqrt n \<le> r"
  proof (rule ccontr)
    assume "\<not> isqrt n \<le> r"
    then have "(r + 1) * (r + 1) \<le> isqrt n * isqrt n" by (intro mult_le_mono) auto
    with n isqrt_ok [of n] show False by linarith
  qed
qed

lemma sdiv_mono: "a \<le> b \<Longrightarrow> a sdiv k \<le> b sdiv k" if "0 < k" for a b k :: int
proof -
  have *: "x sdiv k = (if 0 \<le> x then x div k else - ((- x) div k))" for x
    using that by (auto simp: signed_divide_int_def sgn_if)
  assume "a \<le> b"
  then show ?thesis using that unfolding * by (auto simp: zdiv_mono1 pos_imp_zdiv_nonneg_iff intro: order_trans [of _ 0])
qed


definition dist2 :: "Position \<Rightarrow> Position \<Rightarrow> int" where
  "dist2 p q = (X p - X q) * (X p - X q) + (Y p - Y q) * (Y p - Y q)"

lemma calculateDistance_le:
  assumes "0 \<le> r"
  shows "calculateDistance p q \<le> r \<longleftrightarrow> dist2 p q < (r + 1) * (r + 1)"
proof -
  have nonneg: "0 \<le> dist2 p q" by (simp add: dist2_def)
  have "calculateDistance p q \<le> r \<longleftrightarrow> isqrt (nat (dist2 p q)) \<le> nat r"
    using assms by (auto simp: calculateDistance_def dist2_def Let_def)
  also have "\<dots> \<longleftrightarrow> nat (dist2 p q) < (nat r + 1) * (nat r + 1)" by (rule isqrt_le)
  also have "\<dots> \<longleftrightarrow> int (nat (dist2 p q)) < int ((nat r + 1) * (nat r + 1))" by (rule of_nat_less_iff [symmetric])
  also have "\<dots> \<longleftrightarrow> dist2 p q < (r + 1) * (r + 1)"
    using assms nonneg by (simp add: algebra_simps)
  finally show ?thesis .
qed

lemma near_coordinates:
  assumes "dist2 p q \<le> r * r" and "0 \<le> r"
  shows "\<bar>X p - X q\<bar> \<le> r" "\<bar>Y p - Y q\<bar> \<le> r"
proof -
  have "(X p - X q) * (X p - X q) \<le> r * r" "(Y p - Y q) * (Y p - Y q) \<le> r * r"
    using assms(1) zero_le_square [of "X p - X q"] zero_le_square [of "Y p - Y q"] unfolding dist2_def by linarith+
  then show "\<bar>X p - X q\<bar> \<le> r" "\<bar>Y p - Y q\<bar> \<le> r"
    using assms(2) abs_le_square_iff [of "X p - X q" r] abs_le_square_iff [of "Y p - Y q" r] by (simp_all add: power2_eq_square)
qed

lemma nearby_key:
  assumes "\<bar>x - x'\<bar> \<le> r" and "\<bar>y - y'\<bar> \<le> r"
  shows "getRegionKey x' y' \<in> set (getNearbyRegions x y r)"
proof -
  have "(x - r) sdiv 1000 \<le> x' sdiv 1000" "x' sdiv 1000 \<le> (x + r) sdiv 1000"
    "(y - r) sdiv 1000 \<le> y' sdiv 1000" "y' sdiv 1000 \<le> (y + r) sdiv 1000"
    using assms by (auto intro!: sdiv_mono)
  then show ?thesis
    unfolding getNearbyRegions_def getRegionKey_def regionSize_def Let_def set_concat
    by (auto intro!: bexI [of _ "x' sdiv 1000"] imageI)
qed

lemma scan_ids_set:
  "s \<in> set (scan_ids get at pos r seen ids) \<longleftrightarrow>
    (\<exists>i \<in> set ids - set seen. get i = Some s \<and> calculateDistance pos (at s) \<le> r)"
proof (induction ids arbitrary: seen)
  case (Cons i ids)
  show ?case by (auto simp: Cons.IH split: option.splits)
qed simp

lemma scan_ids_distinct:
  assumes "\<And>i s. get i = Some s \<Longrightarrow> key s = i"
  shows "distinct (map key (scan_ids get at pos r seen ids))
    \<and> (\<forall>s \<in> set (scan_ids get at pos r seen ids). key s \<notin> set seen)"
proof (induction ids arbitrary: seen)
  case (Cons i ids)
  show ?case using Cons.IH [of seen] Cons.IH [of "i # seen"] assms
    by (auto split: option.splits)
qed simp

section \<open>The grid follows the world\<close>

definition occurrences :: "(region_key, int list) go_map \<Rightarrow> region_key \<Rightarrow> int \<Rightarrow> nat" where
  "occurrences rs k i = count_list (region_ids rs k) i"

lemma region_ids_update [simp]: "region_ids (AList.update k ids rs) k' = (if k' = k then ids else region_ids rs k')"
  by (simp add: region_ids_def)

lemma occurrences_add [simp]:
  "occurrences (addToRegion k i rs) k' i' = occurrences rs k' i' + (if k' = k \<and> i' = i then 1 else 0)"
  by (simp add: occurrences_def addToRegion_def)

lemma count_remove1: "count_list (remove1 x xs) y = (if x = y then count_list xs y - 1 else count_list xs y)"
  by (induction xs) auto

lemma occurrences_remove [simp]:
  "occurrences (removeFromRegion k i rs) k' i' = occurrences rs k' i' - (if k' = k \<and> i' = i then 1 else 0)"
proof (cases "map_of rs k")
  case (Some ids)
  have "region_ids (removeFromRegion k i rs) k' = (if k' = k then remove1 i ids else region_ids rs k')"
    using Some by (auto simp: removeFromRegion_def region_ids_def Let_def)
  then show ?thesis using Some by (auto simp: occurrences_def count_remove1 region_ids_def)
qed (simp add: removeFromRegion_def occurrences_def region_ids_def)

text \<open>
  Every player and every NPC is listed at least once in the cell of its position. An id that is listed
  more often, or without an owner, does no harm: a query looks every id up and measures it.
\<close>

definition at_cell :: "(int \<rightharpoonup> 'a) \<Rightarrow> ('a \<Rightarrow> Position) \<Rightarrow> region_key \<Rightarrow> int \<Rightarrow> nat" where
  "at_cell m at k i = (case m i of None \<Rightarrow> 0 | Some s \<Rightarrow> if getRegionKey (X (at s)) (Y (at s)) = k then 1 else 0)"

definition grid_ok :: "WorldRegistry \<Rightarrow> bool" where
  "grid_ok wr \<longleftrightarrow>
     (\<forall>k i. at_cell (map_of (players wr)) wpPosition k i + at_cell (map_of (npcs wr)) npcPosition k i
        \<le> occurrences (regions wr) k i)
     \<and> (\<forall>i s. map_of (players wr) i = Some s \<longrightarrow> wpCharID s = i)
     \<and> (\<forall>i n. map_of (npcs wr) i = Some n \<longrightarrow> npcObjectID n = i)"

lemma grid_okI:
  assumes "\<And>k i. at_cell (map_of (players wr)) wpPosition k i + at_cell (map_of (npcs wr)) npcPosition k i
        \<le> occurrences (regions wr) k i"
    and "\<And>i s. map_of (players wr) i = Some s \<Longrightarrow> wpCharID s = i"
    and "\<And>i n. map_of (npcs wr) i = Some n \<Longrightarrow> npcObjectID n = i"
  shows "grid_ok wr"
  using assms by (simp add: grid_ok_def)

lemma grid_okD:
  assumes "grid_ok wr"
  shows "at_cell (map_of (players wr)) wpPosition k i + at_cell (map_of (npcs wr)) npcPosition k i
        \<le> occurrences (regions wr) k i"
    and "map_of (players wr) i = Some s \<Longrightarrow> wpCharID s = i"
    and "map_of (npcs wr) i = Some n \<Longrightarrow> npcObjectID n = i"
  using assms by (simp_all add: grid_ok_def)

lemma grid_ok_new: "grid_ok NewWorldRegistry"
  by (simp add: grid_ok_def NewWorldRegistry_def at_cell_def)

lemma at_cell_update: "at_cell (\<lambda>j. if j = i then Some s else m j) at k j
    = (if j = i then (if getRegionKey (X (at s)) (Y (at s)) = k then 1 else 0) else at_cell m at k j)"
  by (simp add: at_cell_def)

lemma at_cell_delete: "at_cell (\<lambda>j. if j = i then None else m j) at k j = (if j = i then 0 else at_cell m at k j)"
  by (simp add: at_cell_def)

lemma map_of_update_fun: "map_of (AList.update k v m) = (\<lambda>j. if j = k then Some v else map_of m j)"
  by (rule ext) simp

lemma map_of_delete_fun: "map_of (AList.delete k m) = (\<lambda>j. if j = k then None else map_of m j)"
  by (rule ext) simp

lemmas cell_simps = at_cell_update at_cell_delete map_of_update_fun map_of_delete_fun

lemma grid_ok_AddPlayer: "grid_ok wr \<Longrightarrow> grid_ok (AddPlayer now char wr)"
  by (rule grid_okI)
    (use grid_okD [of wr] in \<open>auto simp: AddPlayer_def Let_def cell_simps split: if_splits intro: add_leD2 le_trans\<close>)


lemma grid_ok_AddNPC: "grid_ok wr \<Longrightarrow> grid_ok (AddNPC npc wr)"
  by (rule grid_okI)
    (use grid_okD [of wr] in \<open>auto simp: AddNPC_def Let_def cell_simps split: if_splits intro: add_leD1 le_trans\<close>)

lemma at_cell_at: "m i = Some s \<Longrightarrow> at_cell m at (getRegionKey (X (at s)) (Y (at s))) i = 1"
  by (simp add: at_cell_def)

lemma at_cell_elsewhere: "m i = Some s \<Longrightarrow> k \<noteq> getRegionKey (X (at s)) (Y (at s)) \<Longrightarrow> at_cell m at k i = 0"
  by (simp add: at_cell_def)

lemma grid_ok_drop:
  assumes "grid_ok wr" and "map_of (players wr) c = Some s"
  shows "grid_ok (drop_player c s wr)"
proof (rule grid_okI)
  fix k i
  have "at_cell (map_of (players wr)) wpPosition k i + at_cell (map_of (npcs wr)) npcPosition k i
      \<le> occurrences (regions wr) k i" using grid_okD(1) [OF assms(1)] .
  then show "at_cell (map_of (players (drop_player c s wr))) wpPosition k i
      + at_cell (map_of (npcs (drop_player c s wr))) npcPosition k i \<le> occurrences (regions (drop_player c s wr)) k i"
    using at_cell_at [of "map_of (players wr)" c s wpPosition] assms(2)
    by (auto simp: drop_player_def cell_simps player_region_def)
qed (use grid_okD(2,3) [OF assms(1)] in \<open>auto simp: drop_player_def split: if_splits\<close>)

lemma grid_ok_RemoveNPC:
  assumes "grid_ok wr"
  shows "grid_ok (RemoveNPC c wr)"
proof (cases "map_of (npcs wr) c")
  case (Some n)
  show ?thesis
  proof (rule grid_okI)
    fix k i
    have "at_cell (map_of (players wr)) wpPosition k i + at_cell (map_of (npcs wr)) npcPosition k i
        \<le> occurrences (regions wr) k i" using grid_okD(1) [OF assms(1)] .
    then show "at_cell (map_of (players (RemoveNPC c wr))) wpPosition k i
        + at_cell (map_of (npcs (RemoveNPC c wr))) npcPosition k i \<le> occurrences (regions (RemoveNPC c wr)) k i"
      using at_cell_at [of "map_of (npcs wr)" c n npcPosition] Some
      by (auto simp: RemoveNPC_def cell_simps)
  qed (use grid_okD(2,3) [OF assms] Some in \<open>auto simp: RemoveNPC_def split: if_splits\<close>)
qed (use assms in \<open>simp add: RemoveNPC_def\<close>)

lemma grid_ok_more: "grid_ok (wr\<lparr>item_reuses := a, auto_shots := b\<rparr>) \<longleftrightarrow> grid_ok wr"
  "grid_ok (wr\<lparr>targets := t\<rparr>) \<longleftrightarrow> grid_ok wr"
  by (simp_all add: grid_ok_def)

lemma grid_ok_RemovePlayer: "grid_ok wr \<Longrightarrow> grid_ok (RemovePlayer c wr)"
  using grid_ok_drop [of wr c] by (auto simp: RemovePlayer_def Let_def grid_ok_more split: option.split)

lemma grid_ok_move:
  assumes "grid_ok wr"
  shows "grid_ok (snd (UpdatePlayerPosition now c pos heading wr))"
proof (cases "map_of (players wr) c")
  case (Some s)
  let ?wr = "snd (UpdatePlayerPosition now c pos heading wr)"
  let ?new = "getRegionKey (X pos) (Y pos)"
  have s: "wpCharID s = c" using grid_okD(2) [OF assms Some] .
  obtain s' where w: "players ?wr = AList.update c s' (players wr)" "wpPosition s' = pos" "wpCharID s' = c" "npcs ?wr = npcs wr"
    "regions ?wr = (if player_region s \<noteq> ?new
       then addToRegion ?new c (removeFromRegion (player_region s) c (regions wr)) else regions wr)"
    using Some s by (simp add: UpdatePlayerPosition_def Let_def)
  show ?thesis
  proof (rule grid_okI)
    fix k i
    have old: "at_cell (map_of (players wr)) wpPosition k i + at_cell (map_of (npcs wr)) npcPosition k i
        \<le> occurrences (regions wr) k i" using grid_okD(1) [OF assms] .
    show "at_cell (map_of (players ?wr)) wpPosition k i + at_cell (map_of (npcs ?wr)) npcPosition k i
        \<le> occurrences (regions ?wr) k i"
    proof (cases "i = c")
      case False
      then show ?thesis using old by (simp add: w cell_simps)
    next
      case True
      have "at_cell (map_of (players wr)) wpPosition k c = (if k = player_region s then 1 else 0)"
        using Some by (simp add: at_cell_def player_region_def)
      then show ?thesis using old True by (auto simp: w cell_simps split: if_splits)
    qed
  qed (use grid_okD(2,3) [OF assms] in \<open>auto simp: w split: if_splits\<close>)
qed (use assms in \<open>simp add: UpdatePlayerPosition_def\<close>)

lemma grid_ok_modify:
  assumes "grid_ok wr" and "\<And>s. wpPosition (f s) = wpPosition s \<and> wpCharID (f s) = wpCharID s"
  shows "grid_ok (modify_player c f wr)"
proof (cases "map_of (players wr) c")
  case (Some s)
  have "at_cell (map_of (AList.update c (f s) (players wr))) wpPosition k i = at_cell (map_of (players wr)) wpPosition k i" for k i
    using assms(2) [of s] Some by (auto simp: at_cell_def)
  then show ?thesis
    using grid_okD [OF assms(1)] Some assms(2) [of s]
    by (intro grid_okI) (auto simp: modify_player_def split: if_splits)
qed (use assms(1) in \<open>simp add: modify_player_def\<close>)

lemma grid_ok_cleanup:
  assumes "grid_ok wr" and "distinct (map fst m)" and "\<And>c s. (c, s) \<in> set m \<Longrightarrow> map_of (players wr) c = Some s"
  shows "grid_ok (snd (cleanup_loop now age m wr n))"
  using assms
proof (induction now age m wr n rule: cleanup_loop.induct)
  case (2 now age c s rest wr n)
  have "grid_ok (drop_player c s wr)" using 2(3,5) grid_ok_drop by simp
  moreover have "map_of (players (drop_player c s wr)) d = Some t" if "(d, t) \<in> set rest" for d t
    using 2(4,5) that by (force simp: drop_player_def)
  ultimately show ?case using 2 by auto
qed simp

lemma map_ok_players:
  assumes "map_ok (players wr)"
  shows "map_ok (players (AddPlayer now char wr))" "map_ok (players (RemovePlayer c wr))"
    "map_ok (players (snd (UpdatePlayerPosition now c pos heading wr)))"
    "map_ok (players (modify_player c f wr))" "map_ok (players (drop_player c s wr))"
    "map_ok (players (AddNPC npc wr))" "map_ok (players (RemoveNPC c wr))"
  using assms by (auto simp: AddPlayer_def RemovePlayer_def UpdatePlayerPosition_def modify_player_def drop_player_def
      AddNPC_def RemoveNPC_def Let_def split: option.split)

lemma map_ok_cleanup: "map_ok (players wr) \<Longrightarrow> map_ok (players (snd (cleanup_loop now age m wr n)))"
  by (induction now age m wr n rule: cleanup_loop.induct) (simp_all add: map_ok_players)

section \<open>Every world the server can be in\<close>

datatype world_op =
    Enter int Character
  | Leave int
  | Move int int Position int
  | Combat int int bool
  | RunWalk int int bool
  | Aim int int
  | Cleanup int int
  | Spawn NpcInstance
  | Despawn int

fun world_change :: "world_op \<Rightarrow> WorldRegistry \<Rightarrow> WorldRegistry" where
  "world_change (Enter now char) wr = AddPlayer now char wr"
| "world_change (Leave charID) wr = RemovePlayer charID wr"
| "world_change (Move now charID pos heading) wr = snd (UpdatePlayerPosition now charID pos heading wr)"
| "world_change (Combat now charID on) wr = snd (SetPlayerCombatState now charID on wr)"
| "world_change (RunWalk now charID on) wr = snd (UpdatePlayerRunWalkState now charID on wr)"
| "world_change (Aim charID target) wr = SetPlayerTarget charID target wr"
| "world_change (Cleanup now age) wr = snd (CleanupOfflinePlayers now age wr)"
| "world_change (Spawn npc) wr = AddNPC npc wr"
| "world_change (Despawn objectID) wr = RemoveNPC objectID wr"

definition world_after :: "world_op list \<Rightarrow> WorldRegistry" where
  "world_after ops = fold world_change ops NewWorldRegistry"

definition world_ok :: "WorldRegistry \<Rightarrow> bool" where
  "world_ok wr \<longleftrightarrow> grid_ok wr \<and> map_ok (players wr)"

lemma world_ok_change:
  assumes "world_ok wr"
  shows "world_ok (world_change op wr)"
proof -
  have wr: "grid_ok wr" "map_ok (players wr)" using assms by (simp_all add: world_ok_def)
  show ?thesis
  proof (cases op)
    case (Cleanup now age)
    have "grid_ok (snd (cleanup_loop now age (players wr) wr 0))"
      using wr by (intro grid_ok_cleanup) (auto simp: map_ok_def)
    then show ?thesis using wr Cleanup by (simp add: world_ok_def CleanupOfflinePlayers_def map_ok_cleanup)
  qed (use wr in \<open>auto simp: world_ok_def grid_ok_AddPlayer grid_ok_AddNPC grid_ok_RemovePlayer grid_ok_RemoveNPC
      grid_ok_move SetPlayerCombatState_def UpdatePlayerRunWalkState_def SetPlayerTarget_def Let_def grid_ok_more
      grid_ok_modify map_ok_players\<close>)
qed

lemma world_ok_after: "world_ok (world_after ops)"
proof -
  have "world_ok (fold world_change ops wr)" if "world_ok wr" for wr
    using that by (induction ops arbitrary: wr) (simp_all add: world_ok_change)
  moreover have "world_ok NewWorldRegistry" unfolding world_ok_def by (simp add: grid_ok_new) (simp add: NewWorldRegistry_def)
  ultimately show ?thesis by (simp add: world_after_def)
qed

lemma listed_nearby:
  assumes "0 < occurrences (regions wr) (getRegionKey (X q) (Y q)) i" and "dist2 pos q \<le> r * r" and "0 \<le> r"
  shows "i \<in> set (nearby_ids wr pos r)"
proof -
  have "i \<in> set (region_ids (regions wr) (getRegionKey (X q) (Y q)))"
    using assms(1) count_list_0_iff [of "region_ids (regions wr) (getRegionKey (X q) (Y q))" i]
    by (auto simp: occurrences_def)
  moreover have "getRegionKey (X q) (Y q) \<in> set (getNearbyRegions (X pos) (Y pos) r)"
    using near_coordinates [OF assms(2,3)] by (intro nearby_key)
  ultimately show ?thesis unfolding nearby_ids_def set_concat by auto
qed

lemma players_in_range:
  assumes "grid_ok wr" and "0 \<le> r"
  shows "s \<in> set (GetPlayersInRange wr pos r) \<Longrightarrow> map_of (players wr) (wpCharID s) = Some s \<and> dist2 pos (wpPosition s) < (r + 1) * (r + 1)"
    and "map_of (players wr) i = Some s \<Longrightarrow> dist2 pos (wpPosition s) \<le> r * r \<Longrightarrow> s \<in> set (GetPlayersInRange wr pos r)"
    and "distinct (map wpCharID (GetPlayersInRange wr pos r))"
proof -
  show "s \<in> set (GetPlayersInRange wr pos r) \<Longrightarrow> map_of (players wr) (wpCharID s) = Some s \<and> dist2 pos (wpPosition s) < (r + 1) * (r + 1)"
    using grid_okD(2) [OF assms(1)] assms(2) by (auto simp: GetPlayersInRange_def scan_ids_set calculateDistance_le)
  show "distinct (map wpCharID (GetPlayersInRange wr pos r))"
    using scan_ids_distinct [of "map_of (players wr)" wpCharID] grid_okD(2) [OF assms(1)] unfolding GetPlayersInRange_def by blast
  assume s: "map_of (players wr) i = Some s" "dist2 pos (wpPosition s) \<le> r * r"
  have "0 < occurrences (regions wr) (getRegionKey (X (wpPosition s)) (Y (wpPosition s))) i"
    using grid_okD(1) [OF assms(1), of "getRegionKey (X (wpPosition s)) (Y (wpPosition s))" i] at_cell_at [of "map_of (players wr)" i s wpPosition] s(1) by simp
  from listed_nearby [OF this s(2) assms(2)] s(1)
  have "i \<in> set (nearby_ids wr pos r)" "map_of (players wr) i = Some s" by simp_all
  moreover have "dist2 pos (wpPosition s) < (r + 1) * (r + 1)"
    using s(2) mult_mono [of r "r + 1" r "r + 1"] assms(2) by (simp add: algebra_simps)
  ultimately show "s \<in> set (GetPlayersInRange wr pos r)"
    using assms(2) by (auto simp: GetPlayersInRange_def scan_ids_set calculateDistance_le)
qed

lemma npcs_in_range:
  assumes "grid_ok wr" and "0 \<le> r"
  shows "n \<in> set (GetNPCsInRange wr pos r) \<Longrightarrow> map_of (npcs wr) (npcObjectID n) = Some n \<and> dist2 pos (npcPosition n) < (r + 1) * (r + 1)"
    and "map_of (npcs wr) i = Some n \<Longrightarrow> dist2 pos (npcPosition n) \<le> r * r \<Longrightarrow> n \<in> set (GetNPCsInRange wr pos r)"
    and "distinct (map npcObjectID (GetNPCsInRange wr pos r))"
proof -
  show "n \<in> set (GetNPCsInRange wr pos r) \<Longrightarrow> map_of (npcs wr) (npcObjectID n) = Some n \<and> dist2 pos (npcPosition n) < (r + 1) * (r + 1)"
    using grid_okD(3) [OF assms(1)] assms(2) by (auto simp: GetNPCsInRange_def scan_ids_set calculateDistance_le)
  show "distinct (map npcObjectID (GetNPCsInRange wr pos r))"
    using scan_ids_distinct [of "map_of (npcs wr)" npcObjectID] grid_okD(3) [OF assms(1)] unfolding GetNPCsInRange_def by blast
  assume s: "map_of (npcs wr) i = Some n" "dist2 pos (npcPosition n) \<le> r * r"
  have "0 < occurrences (regions wr) (getRegionKey (X (npcPosition n)) (Y (npcPosition n))) i"
    using grid_okD(1) [OF assms(1), of "getRegionKey (X (npcPosition n)) (Y (npcPosition n))" i] at_cell_at [of "map_of (npcs wr)" i n npcPosition] s(1) by simp
  from listed_nearby [OF this s(2) assms(2)] s(1)
  have "i \<in> set (nearby_ids wr pos r)" "map_of (npcs wr) i = Some n" by simp_all
  moreover have "dist2 pos (npcPosition n) < (r + 1) * (r + 1)"
    using s(2) mult_mono [of r "r + 1" r "r + 1"] assms(2) by (simp add: algebra_simps)
  ultimately show "n \<in> set (GetNPCsInRange wr pos r)"
    using assms(2) by (auto simp: GetNPCsInRange_def scan_ids_set calculateDistance_le)
qed

text \<open>
  C21: Range queries are complete. In every world that players and NPCs can make by entering, moving,
  leaving, being spawned, despawned and cleaned up, in any order and with ids used again, a query
  through the grid finds every player and every NPC within the radius, finds nobody at a distance of
  a whole unit more (the code truncates the distance), and finds each of them once.
\<close>

theorem range_queries_complete:
  assumes "0 \<le> radius" and "wr = world_after ops"
  shows "{s \<in> ran (map_of (players wr)). dist2 pos (wpPosition s) \<le> radius * radius} \<subseteq> set (GetPlayersInRange wr pos radius)
    \<and> set (GetPlayersInRange wr pos radius)
      \<subseteq> {s \<in> ran (map_of (players wr)). dist2 pos (wpPosition s) < (radius + 1) * (radius + 1)}
    \<and> distinct (map wpCharID (GetPlayersInRange wr pos radius))
    \<and> {n \<in> ran (map_of (npcs wr)). dist2 pos (npcPosition n) \<le> radius * radius} \<subseteq> set (GetNPCsInRange wr pos radius)
    \<and> set (GetNPCsInRange wr pos radius)
      \<subseteq> {n \<in> ran (map_of (npcs wr)). dist2 pos (npcPosition n) < (radius + 1) * (radius + 1)}
    \<and> distinct (map npcObjectID (GetNPCsInRange wr pos radius))"
proof -
  have ok: "grid_ok wr" using world_ok_after [of ops] assms(2) by (simp add: world_ok_def)
  note p = players_in_range [OF ok assms(1)] and n = npcs_in_range [OF ok assms(1)]
  have "s \<in> ran (map_of (players wr)) \<and> dist2 pos (wpPosition s) < (radius + 1) * (radius + 1)"
    if "s \<in> set (GetPlayersInRange wr pos radius)" for s
    using p(1) [OF that] by (blast intro: ranI)
  moreover have "n \<in> ran (map_of (npcs wr)) \<and> dist2 pos (npcPosition n) < (radius + 1) * (radius + 1)"
    if "n \<in> set (GetNPCsInRange wr pos radius)" for n
    using n(1) [OF that] by (blast intro: ranI)
  moreover have "s \<in> set (GetPlayersInRange wr pos radius)"
    if "s \<in> ran (map_of (players wr))" "dist2 pos (wpPosition s) \<le> radius * radius" for s
    using that p(2) unfolding ran_def by blast
  moreover have "n \<in> set (GetNPCsInRange wr pos radius)"
    if "n \<in> ran (map_of (npcs wr))" "dist2 pos (npcPosition n) \<le> radius * radius" for n
    using that n(2) unfolding ran_def by blast
  ultimately show ?thesis using p(3) n(3) by blast
qed

lemma range_queries_complete_witness:
  "let wr = world_after [Enter 0 \<lparr>ID = 7, AccountName = ''bob'', CharName = ''Bob'', CharPosition = \<lparr>X = -1500, Y = 20, Z = 0\<rparr>\<rparr>,
       Spawn \<lparr>npcObjectID = 9, npcName = ''orc'', npcPosition = \<lparr>X = -900, Y = 20, Z = 0\<rparr>\<rparr>, Move 1 7 \<lparr>X = 300, Y = -999, Z = 0\<rparr> 0]
   in {s \<in> ran (map_of (players wr)). dist2 \<lparr>X = 0, Y = 0, Z = 0\<rparr> (wpPosition s) \<le> 1100 * 1100}
      \<subseteq> set (GetPlayersInRange wr \<lparr>X = 0, Y = 0, Z = 0\<rparr> 1100)"
  unfolding Let_def using range_queries_complete [of 1100 _ _ "\<lparr>X = 0, Y = 0, Z = 0\<rparr>", OF _ refl] by simp

end
