(* ===== verification/GameSession.thy ===== *)
theory GameSession
  imports Dispatch WorldGrid
begin

text \<open>
  The sessions of the game clients: \<open>gameserver/handlers/client\<close> (\<open>handler.go\<close>, \<open>auth.go\<close>,
  \<open>character.go\<close>, \<open>logout.go\<close>), \<open>gameserver/registry/connections.go\<close> and \<open>gameserver/usecase/logout.go\<close>.
  A handler is a function on the state the connections share; it returns whether it fails. What a
  request says (\<open>request\<close>) is the parsed packet. The database is the rows of the characters; the
  answers of the network and of the database are a \<open>game_env\<close>.
\<close>

section \<open>The state\<close>

type_synonym conn = nat

record ClientSession =
  sessAccount :: string
  sessKeys :: "u32 list"
  sessLoginAt :: bool
  pendingState :: "ConnState option"

record stored_character =
  storedChar :: Character
  storedSlot :: int
  storedLevel :: int
  storedDeleteTime :: int

datatype out_packet =
  CharSelectionInfo string
| CharSelected int
| LeaveWorld
| RestartResponse bool
| CannotLogoutInCombat
| CannotRestartInCombat
| ActionFailed

datatype loop_cmd =
  CmdPlayerDisconnected int
| CmdPlayerEnteredWorld int string Position

record game_server =
  sessions :: "(conn, ClientSession) go_map"
  connections :: "(string, conn) go_map"
  world :: WorldRegistry
  database :: "(int, stored_character) go_map"
  loopCmds :: "loop_cmd list"
  outbox :: "(conn \<times> out_packet) list"
  closed :: "conn list"
  connStates :: "(conn, ConnState) go_map"

text \<open>
  What the code asks of the outside: is the link to the login server up, does \<open>Send\<close> accept the
  packet, does a query succeed, the time.
\<close>

record game_env =
  link_up :: "string \<Rightarrow> u32 list \<Rightarrow> bool"
  send_ok :: "conn \<Rightarrow> out_packet \<Rightarrow> bool"
  list_ok :: "string \<Rightarrow> bool"
  paperdoll_ok :: "int \<Rightarrow> bool"
  update_ok :: "int \<Rightarrow> bool"
  entry_ok :: "int \<Rightarrow> bool"
  now_unix :: int

record request =
  reqAccount :: string
  reqKeys :: "u32 list"
  reqCharID :: int

section \<open>Connections and sessions\<close>

definition Register :: "string \<Rightarrow> conn \<Rightarrow> (string, conn) go_map \<Rightarrow> (string, conn) go_map" where
  "Register accountName c m = AList.update accountName c m"

definition Unregister :: "string \<Rightarrow> (string, conn) go_map \<Rightarrow> (string, conn) go_map" where
  "Unregister accountName m = AList.delete accountName m"

definition UnregisterIf :: "string \<Rightarrow> conn \<Rightarrow> (string, conn) go_map \<Rightarrow> (string, conn) go_map" where
  "UnregisterIf accountName c m = (if map_of m accountName = Some c then AList.delete accountName m else m)"

definition GetConnection :: "(string, conn) go_map \<Rightarrow> string \<Rightarrow> conn option" where
  "GetConnection m accountName = map_of m accountName"

definition getSession :: "game_server \<Rightarrow> conn \<Rightarrow> ClientSession option" where
  "getSession st c = map_of (sessions st) c"

definition setSession :: "conn \<Rightarrow> ClientSession \<Rightarrow> game_server \<Rightarrow> game_server" where
  "setSession c session st =
     st\<lparr>sessions := AList.update c session (sessions st),
        connections := Register (sessAccount session) c (connections st)\<rparr>"

text \<open>\<open>conn.Send\<close>; the result is whether it was accepted.\<close>

definition send_to :: "game_env \<Rightarrow> conn \<Rightarrow> out_packet \<Rightarrow> game_server \<Rightarrow> bool \<times> game_server" where
  "send_to env c p st = (if send_ok env c p then (True, st\<lparr>outbox := outbox st @ [(c, p)]\<rparr>) else (False, st))"

definition loop_send :: "loop_cmd \<Rightarrow> game_server \<Rightarrow> game_server" where
  "loop_send cmd st = st\<lparr>loopCmds := loopCmds st @ [cmd]\<rparr>"

section \<open>Logout\<close>

definition CanPerformLogout :: "WorldRegistry \<Rightarrow> int \<Rightarrow> bool" where
  "CanPerformLogout wr charID =
     (case GetPlayer wr charID of None \<Rightarrow> True | Some playerState \<Rightarrow> \<not> wpInCombat playerState)"

definition db_update :: "game_env \<Rightarrow> Character \<Rightarrow> game_server \<Rightarrow> game_server" where
  "db_update env char st =
     (case map_of (database st) (ID char) of
        None \<Rightarrow> st
      | Some row \<Rightarrow>
          if update_ok env (ID char)
          then st\<lparr>database := AList.update (ID char) (row\<lparr>storedChar := char\<rparr>) (database st)\<rparr>
          else st)"

text \<open>The live character when it is in the world, else the row itself (only \<open>LastAccess\<close> changes then).\<close>

definition saveCharacterData :: "game_env \<Rightarrow> int \<Rightarrow> game_server \<Rightarrow> game_server" where
  "saveCharacterData env charID st =
     (if charID = 0 then st
      else let live = (case GetPlayer (world st) charID of
               None \<Rightarrow> None
             | Some playerState \<Rightarrow>
                 map_option (\<lambda>char. char\<lparr>CharPosition := wpPosition playerState\<rparr>) (wpCharacter playerState))
        in case live of
             Some char \<Rightarrow> db_update env char st
           | None \<Rightarrow>
               (case map_of (database st) charID of
                  None \<Rightarrow> st
                | Some row \<Rightarrow> db_update env (storedChar row) st))"

definition removeCharacterFromWorld :: "int \<Rightarrow> game_server \<Rightarrow> game_server" where
  "removeCharacterFromWorld charID st = st\<lparr>world := RemovePlayer charID (world st)\<rparr>"

definition PerformLogout :: "game_env \<Rightarrow> int \<Rightarrow> game_server \<Rightarrow> bool \<times> game_server" where
  "PerformLogout env charID st =
     (if \<not> CanPerformLogout (world st) charID then (False, st)
      else (True, removeCharacterFromWorld charID (saveCharacterData env charID st)))"

definition PerformRestart :: "game_env \<Rightarrow> int \<Rightarrow> game_server \<Rightarrow> bool \<times> game_server" where
  "PerformRestart env charID st =
     (if \<not> CanPerformLogout (world st) charID then (False, st)
      else (True, removeCharacterFromWorld charID (saveCharacterData env charID st)))"

text \<open>What a kick and a disconnect do to a player of the account that is in the world.\<close>

definition drop_from_world :: "game_env \<Rightarrow> string \<Rightarrow> game_server \<Rightarrow> game_server" where
  "drop_from_world env account st =
     (case GetPlayerByAccount (world st) account of
        None \<Rightarrow> st
      | Some playerState \<Rightarrow>
          let charID = wpCharID playerState;
              st = loop_send (CmdPlayerDisconnected charID) st;
              st = st\<lparr>world := RemovePlayer charID (world st)\<rparr>
          in snd (PerformLogout env charID st))"

definition removeSession :: "game_env \<Rightarrow> conn \<Rightarrow> game_server \<Rightarrow> game_server" where
  "removeSession env c st =
     (let st = (case getSession st c of
            None \<Rightarrow> st
          | Some session \<Rightarrow>
              let account = sessAccount session;
                  st = st\<lparr>connections := UnregisterIf account c (connections st)\<rparr>
              in drop_from_world env account st)
      in st\<lparr>sessions := AList.delete c (sessions st)\<rparr>)"

definition kickExistingSession :: "game_env \<Rightarrow> string \<Rightarrow> conn \<Rightarrow> game_server \<Rightarrow> game_server" where
  "kickExistingSession env account newConn st =
     (case GetConnection (connections st) account of
        None \<Rightarrow> st
      | Some old \<Rightarrow>
          if old = newConn then st
          else let st = st\<lparr>sessions := AList.delete old (sessions st)\<rparr>;
                   st = drop_from_world env account st;
                   st = st\<lparr>connections := Unregister account (connections st)\<rparr>;
                   st = snd (send_to env old LeaveWorld st)
               in st\<lparr>closed := old # closed st\<rparr>)"

section \<open>The handlers\<close>

definition handleAuthLogin :: "game_env \<Rightarrow> conn \<Rightarrow> string \<Rightarrow> u32 list \<Rightarrow> game_server \<Rightarrow> bool \<times> game_server" where
  "handleAuthLogin env c account keys st =
     (if \<not> link_up env account keys then (False, st)
      else let session = \<lparr>sessAccount = account, sessKeys = keys, sessLoginAt = False, pendingState = None\<rparr>;
               st = kickExistingSession env account c st;
               st = setSession c session st;
               (sent, st) = send_to env c (CharSelectionInfo account) st
           in (\<not> sent, st))"

definition IsMarkedForDeletion :: "stored_character \<Rightarrow> bool" where
  "IsMarkedForDeletion row \<longleftrightarrow> storedDeleteTime row > 0"

definition CanBeDeleted :: "int \<Rightarrow> stored_character \<Rightarrow> bool" where
  "CanBeDeleted now row =
     (if storedLevel row \<ge> 20 then IsMarkedForDeletion row \<and> storedDeleteTime row - now \<le> 0 else True)"

text \<open>The row is looked up by account and slot, whatever the name of the argument says.\<close>

definition SelectCharacter :: "game_env \<Rightarrow> int \<Rightarrow> string \<Rightarrow> game_server \<Rightarrow> go_error + Character" where
  "SelectCharacter env charID account st =
     (case find (\<lambda>row. storedSlot row = charID \<and> AccountName (storedChar row) = account) (map snd (database st)) of
        None \<Rightarrow> Inl ''character not found''
      | Some row \<Rightarrow>
          if AccountName (storedChar row) \<noteq> account then Inl ''character does not belong to account''
          else if IsMarkedForDeletion row \<and> \<not> CanBeDeleted (now_unix env) row
          then Inl ''character is marked for deletion''
          else if \<not> paperdoll_ok env (ID (storedChar row)) then Inl ''failed to load character items''
          else Inr (storedChar row))"

definition handleCharacterSelect :: "game_env \<Rightarrow> conn \<Rightarrow> int \<Rightarrow> game_server \<Rightarrow> bool \<times> game_server" where
  "handleCharacterSelect env c charID st =
     (case getSession st c of
        None \<Rightarrow> (False, st)
      | Some session \<Rightarrow>
          (case SelectCharacter env charID (sessAccount session) st of
             Inl e \<Rightarrow> (True, st)
           | Inr char \<Rightarrow>
               let st = st\<lparr>world := AddPlayer (now_unix env) char (world st)\<rparr>;
                   st = st\<lparr>world := snd (UpdatePlayerRunWalkState (now_unix env) (ID char) True (world st))\<rparr>;
                   (sent, st) = send_to env c (CharSelected (ID char)) st
               in (\<not> sent, st)))"

definition handleEnterWorld :: "game_env \<Rightarrow> conn \<Rightarrow> game_server \<Rightarrow> bool \<times> game_server" where
  "handleEnterWorld env c st =
     (case getSession st c of
        None \<Rightarrow> (False, st)
      | Some session \<Rightarrow>
          (case GetPlayerByAccount (world st) (sessAccount session) of
             None \<Rightarrow> (False, st)
           | Some playerState \<Rightarrow>
               if \<not> entry_ok env (wpCharID playerState) then (True, st)
               else let st = loop_send (CmdPlayerEnteredWorld (wpCharID playerState) (sessAccount session)
                               (wpPosition playerState)) st
                    in (False, st\<lparr>sessions := AList.update c (session\<lparr>sessLoginAt := True\<rparr>) (sessions st)\<rparr>)))"

definition sendUpdatedCharacterList :: "game_env \<Rightarrow> conn \<Rightarrow> string \<Rightarrow> game_server \<Rightarrow> bool \<times> game_server" where
  "sendUpdatedCharacterList env c account st =
     (if \<not> list_ok env account then (True, st)
      else let (sent, st) = send_to env c (CharSelectionInfo account) st in (\<not> sent, st))"

definition world_char :: "game_server \<Rightarrow> string \<Rightarrow> int" where
  "world_char st account =
     (case GetPlayerByAccount (world st) account of None \<Rightarrow> 0 | Some playerState \<Rightarrow> wpCharID playerState)"

definition handleLogout :: "game_env \<Rightarrow> conn \<Rightarrow> game_server \<Rightarrow> bool \<times> game_server" where
  "handleLogout env c st =
     (case getSession st c of
        None \<Rightarrow> (False, st)
      | Some session \<Rightarrow>
          let charID = world_char st (sessAccount session) in
          if charID > 0 \<and> \<not> CanPerformLogout (world st) charID
          then let st = snd (send_to env c CannotLogoutInCombat st);
                   st = snd (send_to env c ActionFailed st)
               in (False, st)
          else let st = (if charID > 0 then loop_send (CmdPlayerDisconnected charID) st else st);
                   st = snd (PerformLogout env charID st);
                   st = snd (send_to env c LeaveWorld st)
               in (False, st\<lparr>closed := c # closed st\<rparr>))"

definition handleRequestRestart :: "game_env \<Rightarrow> conn \<Rightarrow> game_server \<Rightarrow> bool \<times> game_server" where
  "handleRequestRestart env c st =
     (case getSession st c of
        None \<Rightarrow> let (sent, st) = send_to env c (RestartResponse False) st in (\<not> sent, st)
      | Some session \<Rightarrow>
          let charID = world_char st (sessAccount session);
              st = (if charID > 0 then loop_send (CmdPlayerDisconnected charID) st else st);
              (done, st) = PerformRestart env charID st in
          if \<not> done
          then let st = snd (send_to env c CannotRestartInCombat st);
                   st = snd (send_to env c ActionFailed st);
                   (sent, st) = send_to env c (RestartResponse False) st
               in (\<not> sent, st)
          else let st = st\<lparr>sessions := AList.update c (session\<lparr>pendingState := Some StateAuthed\<rparr>) (sessions st)\<rparr>;
                   (sent, st) = send_to env c (RestartResponse True) st
               in if \<not> sent then (True, st) else sendUpdatedCharacterList env c (sessAccount session) st)"

definition handleRequestGotoLobby :: "game_env \<Rightarrow> conn \<Rightarrow> game_server \<Rightarrow> bool \<times> game_server" where
  "handleRequestGotoLobby env c st =
     (case getSession st c of
        None \<Rightarrow> (False, st)
      | Some session \<Rightarrow>
          let st = (case GetPlayerByAccount (world st) (sessAccount session) of
                None \<Rightarrow> st
              | Some playerState \<Rightarrow> st\<lparr>world := RemovePlayer (wpCharID playerState) (world st)\<rparr>)
          in sendUpdatedCharacterList env c (sessAccount session) st)"

text \<open>The other handlers change neither sessions nor who is in the world: see \<open>other\<close> below.\<close>

fun run_handler :: "game_env \<Rightarrow> handler \<Rightarrow> conn \<Rightarrow> request \<Rightarrow> game_server \<Rightarrow> bool \<times> game_server" where
  "run_handler env Dispatch.handleAuthLogin c req st = handleAuthLogin env c (reqAccount req) (reqKeys req) st"
| "run_handler env Dispatch.handleCharacterSelect c req st = handleCharacterSelect env c (reqCharID req) st"
| "run_handler env Dispatch.handleEnterWorld c req st = handleEnterWorld env c st"
| "run_handler env Dispatch.handleLogout c req st = handleLogout env c st"
| "run_handler env Dispatch.handleRequestRestart c req st = handleRequestRestart env c st"
| "run_handler env Dispatch.handleRequestGotoLobby c req st = handleRequestGotoLobby env c st"
| "run_handler env _ c req st = (False, st)"

section \<open>The loop of a connection\<close>

definition hang_up :: "game_env \<Rightarrow> conn \<Rightarrow> game_server \<Rightarrow> game_server" where
  "hang_up env c st =
     (let st = removeSession env c st
      in st\<lparr>closed := c # closed st, connStates := AList.delete c (connStates st)\<rparr>)"

definition take_pending :: "conn \<Rightarrow> game_server \<Rightarrow> game_server" where
  "take_pending c st =
     (case getSession st c of
        None \<Rightarrow> st
      | Some session \<Rightarrow>
          (case pendingState session of
             None \<Rightarrow> st
           | Some state \<Rightarrow>
               st\<lparr>connStates := AList.update c state (connStates st),
                  sessions := AList.update c (session\<lparr>pendingState := None\<rparr>) (sessions st)\<rparr>))"

definition serve :: "game_env \<Rightarrow> Registry \<Rightarrow> conn \<Rightarrow> nat \<Rightarrow> nat \<Rightarrow> request \<Rightarrow> game_server \<Rightarrow> game_server" where
  "serve env r c opcode sub req st =
     (case map_of (connStates st) c of
        None \<Rightarrow> st
      | Some state \<Rightarrow>
          (case Resolve r state opcode sub of
             None \<Rightarrow> st
           | Some entry \<Rightarrow>
               let (failed, st) = run_handler env (Handle entry) c req st in
               if failed then (if Fatal entry then hang_up env c st else st)
               else let st = (case Transition entry of
                          None \<Rightarrow> st
                        | Some next \<Rightarrow> st\<lparr>connStates := AList.update c next (connStates st)\<rparr>)
                    in take_pending c st))"

section \<open>Who is in the world\<close>

definition player_account :: "WorldRegistry \<Rightarrow> int \<Rightarrow> string option" where
  "player_account wr i = map_option wpAccountName (map_of (players wr) i)"

definition players_ok :: "WorldRegistry \<Rightarrow> bool" where
  "players_ok wr \<longleftrightarrow> map_ok (players wr) \<and> (\<forall>i p. map_of (players wr) i = Some p \<longrightarrow> wpCharID p = i)"

lemma players_RemovePlayer: "map_of (players (RemovePlayer i wr)) = (map_of (players wr))(i := None)"
  by (auto simp: RemovePlayer_def drop_player_def Let_def fun_eq_iff split: option.split)

lemma player_account_RemovePlayer [simp]: "player_account (RemovePlayer i wr) = (player_account wr)(i := None)"
  by (auto simp: player_account_def players_RemovePlayer fun_eq_iff)

lemma players_ok_RemovePlayer [simp]: "players_ok wr \<Longrightarrow> players_ok (RemovePlayer i wr)"
  by (auto simp: players_ok_def players_RemovePlayer RemovePlayer_def drop_player_def Let_def split: option.split)

lemma players_AddPlayer: "players (AddPlayer now char wr) = AList.update (ID char)
    \<lparr>wpCharID = ID char, wpAccountName = AccountName char, wpCharacter = Some char,
     wpPosition = CharPosition char, wpHeading = 0, wpOnline = True, wpInCombat = False,
     wpLastUpdate = now, wpIsMoving = False, wpIsRunning = True, wpTargetID = 0,
     wpPvPFlagUntil = None, wpKnownNPCs = [], wpKnownPlayers = []\<rparr> (players wr)"
  by (simp add: AddPlayer_def Let_def)

lemma player_account_AddPlayer:
  "player_account (AddPlayer now char wr) = (player_account wr)(ID char \<mapsto> AccountName char)"
  by (auto simp: player_account_def players_AddPlayer fun_eq_iff)

lemma players_ok_AddPlayer: "players_ok wr \<Longrightarrow> players_ok (AddPlayer now char wr)"
  by (auto simp: players_ok_def players_AddPlayer)

lemma run_walk_accounts [simp]:
  "player_account (snd (UpdatePlayerRunWalkState now i b wr)) = player_account wr"
  "players_ok wr \<Longrightarrow> players_ok (snd (UpdatePlayerRunWalkState now i b wr))"
  by (auto simp: player_account_def players_ok_def UpdatePlayerRunWalkState_def modify_player_def fun_eq_iff
      split: option.split)

lemma GetPlayerByAccount_Some:
  assumes "GetPlayerByAccount wr account = Some p" and "players_ok wr"
  shows "player_account wr (wpCharID p) = Some account" "map_of (players wr) (wpCharID p) = Some p"
proof -
  obtain k where k: "k < length (players wr)" "wpAccountName p = account" "p = snd (players wr ! k)"
    using assms(1) by (auto simp: GetPlayerByAccount_def find_Some_iff)
  then obtain i where "(i, p) \<in> set (players wr)" "wpAccountName p = account"
    by (metis nth_mem prod.collapse)
  moreover from this assms(2) have "map_of (players wr) i = Some p"
    by (simp add: players_ok_def map_ok_lookup [symmetric])
  moreover from this assms(2) have "wpCharID p = i" by (simp add: players_ok_def)
  ultimately show "player_account wr (wpCharID p) = Some account" "map_of (players wr) (wpCharID p) = Some p"
    by (simp_all add: player_account_def)
qed

lemma GetPlayerByAccount_None:
  assumes "GetPlayerByAccount wr account = None"
  shows "player_account wr i \<noteq> Some account"
proof
  assume "player_account wr i = Some account"
  then obtain p where "map_of (players wr) i = Some p" "wpAccountName p = account"
    by (auto simp: player_account_def)
  then have "(i, p) \<in> set (players wr)" by (simp add: map_of_SomeD)
  with assms \<open>wpAccountName p = account\<close> show False
    by (auto simp: GetPlayerByAccount_def find_None_iff image_iff)
qed

lemma GetPlayer_gone: "GetPlayer (RemovePlayer i wr) i = None"
  by (simp add: GetPlayer_def players_RemovePlayer)

section \<open>What the steps leave alone\<close>

text \<open>Everything but the outbox, the commands to the loop and the rows of the database.\<close>

definition core :: "game_server \<Rightarrow> (conn, ClientSession) go_map \<times> (string, conn) go_map \<times> conn list \<times> (conn, ConnState) go_map" where
  "core st = (sessions st, connections st, closed st, connStates st)"

lemma core_send_to [simp]: "core (snd (send_to env c p st)) = core st" "world (snd (send_to env c p st)) = world st"
    "database (snd (send_to env c p st)) = database st"
  by (auto simp: send_to_def core_def)

lemma core_loop_send [simp]: "core (loop_send cmd st) = core st" "world (loop_send cmd st) = world st"
    "database (loop_send cmd st) = database st"
  by (auto simp: loop_send_def core_def)

lemma core_db_update [simp]: "core (db_update env char st) = core st" "world (db_update env char st) = world st"
  by (auto simp: db_update_def core_def split: option.split)

lemma core_save [simp]: "core (saveCharacterData env i st) = core st" "world (saveCharacterData env i st) = world st"
  by (auto simp: saveCharacterData_def Let_def split: option.split)

lemma core_world [simp]: "core (st\<lparr>world := wr\<rparr>) = core st"
  by (simp add: core_def)

lemma core_removeCharacter [simp]:
  "core (removeCharacterFromWorld i st) = core st" "world (removeCharacterFromWorld i st) = RemovePlayer i (world st)"
  by (auto simp: removeCharacterFromWorld_def)

lemma core_PerformLogout [simp]:
  "core (snd (PerformLogout env i st)) = core st"
  "world (snd (PerformLogout env i st)) = (if CanPerformLogout (world st) i then RemovePlayer i (world st) else world st)"
  by (auto simp: PerformLogout_def)

lemma core_PerformRestart [simp]:
  "core (snd (PerformRestart env i st)) = core st"
  "world (snd (PerformRestart env i st)) = (if CanPerformLogout (world st) i then RemovePlayer i (world st) else world st)"
  by (auto simp: PerformRestart_def)

lemma core_drop_from_world [simp]: "core (drop_from_world env account st) = core st"
  by (simp add: drop_from_world_def Let_def split: option.split)

lemma drop_from_world_accounts:
  assumes "players_ok (world st)"
  shows "players_ok (world (drop_from_world env account st))"
    and "\<And>i b. b \<noteq> account \<Longrightarrow> player_account (world (drop_from_world env account st)) i = Some b
           \<longleftrightarrow> player_account (world st) i = Some b"
    and "\<And>i. player_account (world (drop_from_world env account st)) i = Some account
           \<longleftrightarrow> player_account (world st) i = Some account
              \<and> (\<exists>p. GetPlayerByAccount (world st) account = Some p \<and> i \<noteq> wpCharID p)"
  using assms GetPlayerByAccount_Some [of "world st" account] GetPlayerByAccount_None [of "world st" account]
  by (auto simp: drop_from_world_def Let_def split: option.split)

section \<open>The invariant\<close>

text \<open>The registered connections and the sessions are the two sides of one bijection.\<close>

definition bound :: "game_server \<Rightarrow> bool" where
  "bound st \<longleftrightarrow> (\<forall>a c. map_of (connections st) a = Some c
     \<longleftrightarrow> (\<exists>s. map_of (sessions st) c = Some s \<and> sessAccount s = a))"

text \<open>A connection with a session is past AuthLogin; \<open>ex\<close> is the one that is just logging in.\<close>

definition states_ok :: "conn option \<Rightarrow> game_server \<Rightarrow> bool" where
  "states_ok ex st \<longleftrightarrow> (\<forall>c s. map_of (sessions st) c = Some s
     \<longrightarrow> (pendingState s = None \<or> pendingState s = Some StateAuthed)
       \<and> (ex = Some c \<or> map_of (connStates st) c = Some StateAuthed \<or> map_of (connStates st) c = Some StateInGame))"

text \<open>Each account has at most one character in the world, and is connected then.\<close>

definition lone :: "bool \<Rightarrow> game_server \<Rightarrow> bool" where
  "lone polite st \<longleftrightarrow> (polite \<longrightarrow> (\<forall>i a. player_account (world st) i = Some a
     \<longrightarrow> map_of (connections st) a \<noteq> None \<and> (\<forall>j. player_account (world st) j = Some a \<longrightarrow> j = i)))"

definition server_inv :: "bool \<Rightarrow> conn option \<Rightarrow> game_server \<Rightarrow> bool" where
  "server_inv polite ex st \<longleftrightarrow> bound st \<and> states_ok ex st \<and> players_ok (world st) \<and> lone polite st"

lemma server_inv_shrink:
  assumes "server_inv polite ex st" and "core st' = core st" and "players_ok (world st')"
    and "\<And>i a. player_account (world st') i = Some a \<Longrightarrow> player_account (world st) i = Some a"
  shows "server_inv polite ex st'"
  using assms unfolding server_inv_def bound_def states_ok_def lone_def core_def by simp blast

lemma server_inv_session:
  assumes "server_inv polite ex st" and "map_of (sessions st) c = Some s" and "sessAccount s' = sessAccount s"
    and "pendingState s' = None \<or> pendingState s' = Some StateAuthed"
  shows "server_inv polite ex (st\<lparr>sessions := AList.update c s' (sessions st)\<rparr>)"
proof -
  have "(\<exists>s''. (if d = c then Some s' else map_of (sessions st) d) = Some s'' \<and> sessAccount s'' = a)
      \<longleftrightarrow> (\<exists>s. map_of (sessions st) d = Some s \<and> sessAccount s = a)" for d a
    using assms(2,3) by auto
  with assms(1,2,4) show ?thesis
    by (auto simp: server_inv_def bound_def states_ok_def lone_def)
qed

lemma drop_from_world_none:
  assumes "players_ok (world st)" and "\<And>i j. player_account (world st) i = Some account
      \<Longrightarrow> player_account (world st) j = Some account \<Longrightarrow> j = i"
  shows "player_account (world (drop_from_world env account st)) i \<noteq> Some account"
proof
  assume "player_account (world (drop_from_world env account st)) i = Some account"
  then obtain p where "player_account (world st) i = Some account"
    "GetPlayerByAccount (world st) account = Some p" "i \<noteq> wpCharID p"
    using drop_from_world_accounts(3) [OF assms(1)] by blast
  with GetPlayerByAccount_Some(1) [OF _ assms(1)] assms(2) show False by blast
qed

lemma drop_from_world_shrinks:
  assumes "players_ok (world st)" and "player_account (world (drop_from_world env account st)) i = Some b"
  shows "player_account (world st) i = Some b"
  using drop_from_world_accounts(2,3) [OF assms(1), where env = env and account = account] assms(2) by (cases "b = account") auto

lemma core_parts:
  "core st' = core st \<Longrightarrow> sessions st' = sessions st \<and> connections st' = connections st
    \<and> closed st' = closed st \<and> connStates st' = connStates st"
  by (simp add: core_def)

text \<open>Taking the session and the registration of an account away, with its player.\<close>

lemma server_inv_evict:
  assumes inv: "server_inv polite ex st" and s: "map_of (sessions st) c = Some s"
    and st': "sessions st' = AList.delete c (sessions st)"
      "map_of (connections st') = (map_of (connections st))(sessAccount s := None)"
      "connStates st' = connStates st" "world st' = world (drop_from_world env (sessAccount s) mid)"
    and mid: "world mid = world st"
  shows "server_inv polite ex st'"
proof -
  let ?a = "sessAccount s"
  have ok: "players_ok (world mid)" using inv mid by (simp add: server_inv_def)
  have conn: "map_of (connections st) ?a = Some c" using inv s by (auto simp: server_inv_def bound_def)
  have "bound st'"
    using inv conn unfolding server_inv_def bound_def st'(1,2) by (auto split: if_splits) (metis option.inject)+
  moreover have "states_ok ex st'"
    using inv unfolding server_inv_def states_ok_def st'(1,3) by auto
  moreover have "players_ok (world st')" unfolding st'(4) by (rule drop_from_world_accounts(1) [OF ok])
  moreover have "lone polite st'"
    unfolding lone_def
  proof (intro impI allI)
    fix i a
    assume polite and i: "player_account (world st') i = Some a"
    then have uniq: "player_account (world st) i = Some a \<Longrightarrow> player_account (world st) j = Some a \<Longrightarrow> j = i"
      and here: "player_account (world st) i = Some a \<Longrightarrow> map_of (connections st) a \<noteq> None" for i j a
      using inv by (auto simp: server_inv_def lone_def)
    have old: "player_account (world st) j = Some b" if "player_account (world st') j = Some b" for j b
      using drop_from_world_shrinks [OF ok, of env ?a j b] that st'(4) mid by simp
    have "a \<noteq> ?a"
      using drop_from_world_none [OF ok, of ?a env i] uniq i st'(4) mid by auto
    moreover have "j = i" if "player_account (world st') j = Some a" for j
      by (rule uniq [OF old [OF i] old [OF that]])
    ultimately show "map_of (connections st') a \<noteq> None
        \<and> (\<forall>j. player_account (world st') j = Some a \<longrightarrow> j = i)"
      using here [OF old [OF i]] st'(2) by simp
  qed
  ultimately show ?thesis by (simp add: server_inv_def)
qed

lemma map_of_UnregisterIf: "map_of m a = Some c \<Longrightarrow> map_of (UnregisterIf a c m) = (map_of m)(a := None)"
  by (auto simp: UnregisterIf_def fun_eq_iff)

lemma server_inv_removeSession:
  assumes "server_inv polite ex st"
  shows "server_inv polite ex (removeSession env c st)"
proof (cases "map_of (sessions st) c")
  case None
  then have "AList.delete c (sessions st) = sessions st"
    by (simp add: delete_idem map_of_eq_None_iff)
  with None assms show ?thesis by (simp add: removeSession_def getSession_def)
next
  case (Some s)
  let ?a = "sessAccount s"
  let ?st1 = "st\<lparr>connections := UnregisterIf ?a c (connections st)\<rparr>"
  let ?st2 = "drop_from_world env ?a ?st1"
  have "map_of (connections st) ?a = Some c"
    using assms Some by (auto simp: server_inv_def bound_def)
  note unreg = map_of_UnregisterIf [OF this]
  have core: "core ?st2 = core ?st1" by simp
  have eq: "removeSession env c st = ?st2\<lparr>sessions := AList.delete c (sessions ?st2)\<rparr>"
    using Some by (simp add: removeSession_def getSession_def Let_def)
  show ?thesis
    unfolding eq
    by (rule server_inv_evict [OF assms Some, where mid = "?st1" and env = env]) (use core_parts [OF core] unreg in simp_all)
qed

lemma server_inv_kick:
  assumes inv: "server_inv polite ex st" and new: "map_of (sessions st) c = None"
  shows "server_inv polite ex (kickExistingSession env a c st)
    \<and> map_of (connections (kickExistingSession env a c st)) a = None
    \<and> map_of (sessions (kickExistingSession env a c st)) c = None"
proof (cases "map_of (connections st) a")
  case None
  with inv new show ?thesis by (simp add: kickExistingSession_def GetConnection_def)
next
  case (Some old)
  then obtain s where s: "map_of (sessions st) old = Some s" "sessAccount s = a"
    using inv by (auto simp: server_inv_def bound_def)
  with new have "old \<noteq> c" by auto
  let ?st1 = "st\<lparr>sessions := AList.delete old (sessions st)\<rparr>"
  let ?st2 = "drop_from_world env a ?st1"
  let ?st3 = "?st2\<lparr>connections := Unregister a (connections ?st2)\<rparr>"
  let ?st4 = "snd (send_to env old LeaveWorld ?st3)"
  have parts2: "core ?st2 = core ?st1" by simp
  have parts4: "core ?st4 = core ?st3" by simp
  have eq: "kickExistingSession env a c st = ?st4\<lparr>closed := old # closed ?st4\<rparr>"
    using Some \<open>old \<noteq> c\<close> by (simp add: kickExistingSession_def GetConnection_def Let_def)
  have conns: "map_of (connections (?st4\<lparr>closed := old # closed ?st4\<rparr>)) = (map_of (connections st))(a := None)"
    using core_parts [OF parts2] core_parts [OF parts4] by (simp add: Unregister_def fun_eq_iff)
  have sess: "sessions (?st4\<lparr>closed := old # closed ?st4\<rparr>) = AList.delete old (sessions st)"
    using core_parts [OF parts2] core_parts [OF parts4] by simp
  have "server_inv polite ex (?st4\<lparr>closed := old # closed ?st4\<rparr>)"
    by (rule server_inv_evict [OF inv s(1), where mid = "?st1" and env = env])
      (use core_parts [OF parts2] core_parts [OF parts4] conns s(2) in simp_all)
  with conns sess new show ?thesis unfolding eq by simp
qed

lemma server_inv_setSession:
  assumes "server_inv polite None st" and "map_of (connections st) (sessAccount s) = None"
    and "map_of (sessions st) c = None" and "pendingState s = None"
  shows "server_inv polite (Some c) (setSession c s st)"
proof -
  have free: "sessAccount s' \<noteq> sessAccount s" if "map_of (sessions st) d = Some s'" for d s'
    using assms(1,2) that unfolding server_inv_def bound_def by (metis option.distinct(1))
  have "bound (setSession c s st)"
    using assms(1-3) free unfolding server_inv_def bound_def setSession_def Register_def
    by (auto split: if_splits)
  moreover have "states_ok (Some c) (setSession c s st)"
    using assms(1,4) unfolding server_inv_def states_ok_def setSession_def by auto
  moreover have "lone polite (setSession c s st)"
    using assms(1) unfolding server_inv_def lone_def setSession_def Register_def by auto
  ultimately show ?thesis using assms(1) by (simp add: server_inv_def setSession_def)
qed

lemma server_inv_handleAuthLogin:
  assumes "server_inv polite None st" and "map_of (sessions st) c = None"
  shows "server_inv polite (Some c) (snd (handleAuthLogin env c a keys st))"
proof (cases "link_up env a keys")
  case False
  with assms(1) show ?thesis
    by (auto simp: handleAuthLogin_def server_inv_def states_ok_def)
next
  case True
  let ?s = "\<lparr>sessAccount = a, sessKeys = keys, sessLoginAt = False, pendingState = None\<rparr>"
  let ?st1 = "kickExistingSession env a c st"
  have "server_inv polite (Some c) (setSession c ?s ?st1)"
    by (rule server_inv_setSession) (use server_inv_kick [OF assms] in simp_all)
  note set = this
  have "server_inv polite (Some c) (snd (send_to env c (CharSelectionInfo a) (setSession c ?s ?st1)))"
    by (rule server_inv_shrink [OF set]) (use set in \<open>auto simp: server_inv_def\<close>)
  with True show ?thesis by (simp add: handleAuthLogin_def Let_def split_beta)
qed

lemma SelectCharacter_account: "SelectCharacter env charID account st = Inr char \<Longrightarrow> AccountName char = account"
  by (auto simp: SelectCharacter_def split: option.splits if_splits)

text \<open>Selecting while no character of the account is in the world.\<close>

definition selects_alone :: "conn \<Rightarrow> game_server \<Rightarrow> bool" where
  "selects_alone c st \<longleftrightarrow> (\<forall>s i. map_of (sessions st) c = Some s \<longrightarrow> player_account (world st) i \<noteq> Some (sessAccount s))"

lemma server_inv_handleCharacterSelect:
  assumes inv: "server_inv polite ex st" and alone: "polite \<Longrightarrow> selects_alone c st"
  shows "server_inv polite ex (snd (handleCharacterSelect env c charID st))"
proof (cases "map_of (sessions st) c")
  case None
  with inv show ?thesis by (simp add: handleCharacterSelect_def getSession_def)
next
  case (Some s)
  show ?thesis
  proof (cases "SelectCharacter env charID (sessAccount s) st")
    case (Inl e)
    with Some inv show ?thesis by (simp add: handleCharacterSelect_def getSession_def)
  next
    case (Inr char)
    let ?a = "sessAccount s" and ?now = "now_unix env"
    let ?wr = "snd (UpdatePlayerRunWalkState ?now (ID char) True (AddPlayer ?now char (world st)))"
    have acc: "player_account ?wr = (player_account (world st))(ID char \<mapsto> ?a)"
      using SelectCharacter_account [OF Inr] by (simp add: player_account_AddPlayer)
    have ok: "players_ok ?wr" using inv by (simp add: server_inv_def players_ok_AddPlayer)
    have conn: "map_of (connections st) ?a = Some c" using inv Some by (auto simp: server_inv_def bound_def)
    have "lone polite (st\<lparr>world := ?wr\<rparr>)"
      using inv alone conn Some acc by (auto simp: server_inv_def lone_def selects_alone_def)
    with inv ok have "server_inv polite ex (st\<lparr>world := ?wr\<rparr>)"
      by (simp add: server_inv_def bound_def states_ok_def)
    note set = this
    have "server_inv polite ex (snd (send_to env c (CharSelected (ID char)) (st\<lparr>world := ?wr\<rparr>)))"
      by (rule server_inv_shrink [OF set]) (use set in \<open>auto simp: server_inv_def\<close>)
    with Some Inr show ?thesis by (simp add: handleCharacterSelect_def getSession_def Let_def split_beta)
  qed
qed

lemma server_inv_send_to: "server_inv polite ex st \<Longrightarrow> server_inv polite ex (snd (send_to env c p st))"
  by (rule server_inv_shrink) (auto simp: server_inv_def)

lemma server_inv_loop_send: "server_inv polite ex st \<Longrightarrow> server_inv polite ex (loop_send cmd st)"
  by (rule server_inv_shrink) (auto simp: server_inv_def)

lemma server_inv_closed: "server_inv polite ex st \<Longrightarrow> server_inv polite ex (st\<lparr>closed := cs\<rparr>)"
proof -
  have "bound (st\<lparr>closed := cs\<rparr>) = bound st" by (simp add: bound_def)
  moreover have "states_ok ex (st\<lparr>closed := cs\<rparr>) = states_ok ex st" by (simp add: states_ok_def)
  moreover have "lone polite (st\<lparr>closed := cs\<rparr>) = lone polite st" by (simp add: lone_def)
  ultimately show "server_inv polite ex st \<Longrightarrow> server_inv polite ex (st\<lparr>closed := cs\<rparr>)"
    by (simp add: server_inv_def)
qed

lemma server_inv_PerformLogout: "server_inv polite ex st \<Longrightarrow> server_inv polite ex (snd (PerformLogout env i st))"
  by (rule server_inv_shrink) (auto simp: server_inv_def split: if_splits)

lemma server_inv_PerformRestart: "server_inv polite ex st \<Longrightarrow> server_inv polite ex (snd (PerformRestart env i st))"
  by (rule server_inv_shrink) (auto simp: server_inv_def split: if_splits)

lemma server_inv_RemovePlayer: "server_inv polite ex st \<Longrightarrow> server_inv polite ex (st\<lparr>world := RemovePlayer i (world st)\<rparr>)"
  by (rule server_inv_shrink) (auto simp: server_inv_def split: if_splits)

lemma server_inv_charlist:
  "server_inv polite ex st \<Longrightarrow> server_inv polite ex (snd (sendUpdatedCharacterList env c a st))"
  using server_inv_send_to by (auto simp: sendUpdatedCharacterList_def split_beta)

lemmas server_inv_steps = server_inv_send_to server_inv_loop_send server_inv_closed server_inv_PerformLogout
  server_inv_PerformRestart server_inv_RemovePlayer server_inv_charlist

lemma server_inv_handleEnterWorld:
  assumes inv: "server_inv polite ex st"
  shows "server_inv polite ex (snd (handleEnterWorld env c st))"
proof (cases "map_of (sessions st) c")
  case (Some s)
  let ?s = "s\<lparr>sessLoginAt := True\<rparr>"
  have pend: "pendingState s = None \<or> pendingState s = Some StateAuthed"
    using inv Some by (auto simp: server_inv_def states_ok_def)
  have "server_inv polite ex ((loop_send cmd st)\<lparr>sessions := AList.update c ?s (sessions st)\<rparr>)" for cmd
    using server_inv_session [OF server_inv_loop_send [OF inv, of cmd], of c s ?s] Some pend by (simp add: loop_send_def)
  with inv Some show ?thesis
    by (auto simp: handleEnterWorld_def getSession_def Let_def loop_send_def split: option.split)
qed (use inv in \<open>simp add: handleEnterWorld_def getSession_def\<close>)

lemma server_inv_handleLogout:
  assumes "server_inv polite ex st"
  shows "server_inv polite ex (snd (handleLogout env c st))"
  using assms by (auto simp: handleLogout_def Let_def server_inv_steps split: option.split)

lemma server_inv_handleRequestGotoLobby:
  assumes "server_inv polite ex st"
  shows "server_inv polite ex (snd (handleRequestGotoLobby env c st))"
  using assms by (auto simp: handleRequestGotoLobby_def Let_def server_inv_steps split: option.split)

lemma server_inv_handleRequestRestart:
  assumes inv: "server_inv polite ex st"
  shows "server_inv polite ex (snd (handleRequestRestart env c st))"
proof (cases "map_of (sessions st) c")
  case None
  with inv show ?thesis by (simp add: handleRequestRestart_def getSession_def split_beta server_inv_steps)
next
  case (Some s)
  let ?i = "world_char st (sessAccount s)"
  let ?st1 = "if ?i > 0 then loop_send (CmdPlayerDisconnected ?i) st else st"
  let ?st2 = "snd (PerformRestart env ?i ?st1)"
  let ?s = "s\<lparr>pendingState := Some StateAuthed\<rparr>"
  have st2: "server_inv polite ex ?st2" using inv by (simp add: server_inv_steps)
  have "sessions ?st2 = sessions st"
    using core_parts [of ?st2 st] by simp
  then have st3: "server_inv polite ex (?st2\<lparr>sessions := AList.update c ?s (sessions ?st2)\<rparr>)"
    using server_inv_session [OF st2, of c s ?s] Some by simp
  show ?thesis
    using st2 st3 Some
    by (auto simp: handleRequestRestart_def getSession_def Let_def split_beta server_inv_steps)
qed

lemma server_inv_run_handler:
  assumes "server_inv polite None st"
    and "h = Dispatch.handleAuthLogin \<Longrightarrow> map_of (sessions st) c = None"
    and "polite \<Longrightarrow> h = Dispatch.handleCharacterSelect \<Longrightarrow> selects_alone c st"
  shows "server_inv polite (if h = Dispatch.handleAuthLogin then Some c else None) (snd (run_handler env h c req st))"
  using assms
  by (cases h) (simp_all add: server_inv_handleAuthLogin server_inv_handleCharacterSelect server_inv_handleEnterWorld
      server_inv_handleLogout server_inv_handleRequestRestart server_inv_handleRequestGotoLobby)

lemma connStates_run_handler: "connStates (snd (run_handler env h c req st)) = connStates st"
proof -
  have kick: "connStates (kickExistingSession env a d st) = connStates st" for a d st
    by (simp add: kickExistingSession_def Let_def core_parts [OF core_send_to(1)] core_parts [OF core_drop_from_world]
        split: option.split)
  have logout: "connStates (snd (PerformLogout env i st)) = connStates st" for i st
    by (rule conjunct2 [OF conjunct2 [OF conjunct2 [OF core_parts [OF core_PerformLogout(1)]]]])
  have restart: "connStates (snd (PerformRestart env i st)) = connStates st" for i st
    by (rule conjunct2 [OF conjunct2 [OF conjunct2 [OF core_parts [OF core_PerformRestart(1)]]]])
  note send = core_parts [OF core_send_to(1)] core_parts [OF core_loop_send(1)]
  show ?thesis
    by (cases h) (auto simp: handleAuthLogin_def handleCharacterSelect_def handleEnterWorld_def handleLogout_def
        handleRequestRestart_def handleRequestGotoLobby_def sendUpdatedCharacterList_def setSession_def Let_def
        split_beta send kick logout restart split: option.split sum.split)
qed

lemma server_inv_hang_up:
  assumes "server_inv polite ex st" and "ex = None \<or> ex = Some c"
  shows "server_inv polite None (hang_up env c st)"
proof -
  let ?st = "removeSession env c st"
  have inv: "server_inv polite ex ?st" by (rule server_inv_removeSession [OF assms(1)])
  have gone: "map_of (sessions ?st) c = None" by (simp add: removeSession_def Let_def)
  have "bound (hang_up env c st) = bound ?st" "lone polite (hang_up env c st) = lone polite ?st"
    "world (hang_up env c st) = world ?st"
    by (simp_all add: hang_up_def Let_def bound_def lone_def)
  moreover have "states_ok None (hang_up env c st)"
    using inv gone assms(2) by (auto simp: server_inv_def states_ok_def hang_up_def Let_def)
  ultimately show ?thesis using inv by (simp add: server_inv_def)
qed

lemma server_inv_move:
  assumes "server_inv polite ex st" and "ex = None \<or> ex = Some c" and "next = StateAuthed \<or> next = StateInGame"
  shows "server_inv polite None (st\<lparr>connStates := AList.update c next (connStates st)\<rparr>)"
proof -
  let ?st = "st\<lparr>connStates := AList.update c next (connStates st)\<rparr>"
  have "bound ?st = bound st" "lone polite ?st = lone polite st"
    by (simp_all add: bound_def lone_def)
  moreover have "states_ok None ?st"
    using assms by (auto simp: server_inv_def states_ok_def)
  ultimately show ?thesis using assms(1) by (simp add: server_inv_def)
qed

lemma server_inv_session_states:
  assumes "server_inv polite None st" and "map_of (sessions st) c = Some s"
  shows "pendingState s = None \<or> pendingState s = Some StateAuthed"
    and "map_of (connStates st) c = Some StateAuthed \<or> map_of (connStates st) c = Some StateInGame"
  using assms unfolding server_inv_def states_ok_def by blast+

lemma server_inv_take_pending:
  assumes inv: "server_inv polite None st"
  shows "server_inv polite None (take_pending c st)"
proof (cases "map_of (sessions st) c")
  case (Some s)
  consider "pendingState s = None" | "pendingState s = Some StateAuthed"
    using server_inv_session_states(1) [OF inv Some] by auto
  then show ?thesis
  proof cases
    case 2
    let ?st = "st\<lparr>connStates := AList.update c StateAuthed (connStates st)\<rparr>"
    have "server_inv polite None ?st" by (rule server_inv_move [OF inv]) auto
    from server_inv_session [OF this, of c s "s\<lparr>pendingState := None\<rparr>"] Some 2
    show ?thesis by (simp add: take_pending_def getSession_def)
  qed (use inv Some in \<open>simp add: take_pending_def getSession_def\<close>)
qed (use inv in \<open>simp add: take_pending_def getSession_def\<close>)

lemma server_inv_serve:
  assumes r: "buildRegistry = Some r" and inv: "server_inv polite None st"
    and alone: "polite \<Longrightarrow> selects_alone c st"
  shows "server_inv polite None (serve env r c opcode sub req st)"
proof (cases "map_of (connStates st) c")
  case None
  with inv show ?thesis by (simp add: serve_def)
next
  case state: (Some state)
  show ?thesis
  proof (cases "Resolve r state opcode sub")
    case None
    with state inv show ?thesis by (simp add: serve_def)
  next
    case entry: (Some e)
    obtain failed st1 where run: "run_handler env (Handle e) c req st = (failed, st1)" by fastforce
    define ex where "ex = (if Handle e = Dispatch.handleAuthLogin then Some c else None)"
    have fresh: "map_of (sessions st) c = None" if "Handle e = Dispatch.handleAuthLogin"
    proof -
      have "state = StateConnected" using Resolve_auth_login [OF r entry that] by simp
      with state server_inv_session_states(2) [OF inv, of c] show ?thesis
        by (cases "map_of (sessions st) c") auto
    qed
    have inv1: "server_inv polite ex st1"
      using server_inv_run_handler [OF inv fresh alone, of "Handle e" env req] run by (simp add: ex_def)
    have ex: "ex = None \<or> ex = Some c" by (simp add: ex_def)
    show ?thesis
    proof (cases failed)
      case True
      show ?thesis
      proof (cases "Fatal e")
        case fatal: True
        with True state entry run server_inv_hang_up [OF inv1 ex] show ?thesis by (simp add: serve_def)
      next
        case False
        then have "ex = None" using Resolve_auth_login [OF r entry] by (auto simp: ex_def)
        with True False state entry run inv1 show ?thesis by (simp add: serve_def)
      qed
    next
      case False
      define st2 where "st2 = (case Transition e of
            None \<Rightarrow> st1 | Some next \<Rightarrow> st1\<lparr>connStates := AList.update c next (connStates st1)\<rparr>)"
      have "server_inv polite None st2"
      proof (cases "Transition e")
        case None
        then have "ex = None" using Resolve_auth_login [OF r entry] by (auto simp: ex_def)
        with None inv1 show ?thesis by (simp add: st2_def)
      next
        case (Some n)
        then have "n = StateAuthed \<or> n = StateInGame" using Resolve_transition [OF r entry Some] by auto
        from server_inv_move [OF inv1 ex this] Some show ?thesis by (simp add: st2_def)
      qed
      from server_inv_take_pending [OF this, of c] False state entry run show ?thesis
        by (simp add: serve_def st2_def)
    qed
  qed
qed

section \<open>Runs\<close>

text \<open>
  What can happen to the server: a connection completes its handshake, sends a packet, is lost; a
  handler that is not modelled here, or the game loop, changes the world without adding or removing a
  player. In a \<open>polite\<close> run nobody selects a character while one of the same account is in the world.
\<close>

inductive server_run :: "bool \<Rightarrow> Registry \<Rightarrow> game_server \<Rightarrow> bool" for polite r where
  start: "server_run polite r \<lparr>sessions = [], connections = [], world = NewWorldRegistry, database = db,
      loopCmds = [], outbox = [], closed = [], connStates = []\<rparr>"
| handshake: "server_run polite r st \<Longrightarrow> map_of (connStates st) c = None \<Longrightarrow> c \<notin> set (closed st)
    \<Longrightarrow> server_run polite r (st\<lparr>connStates := AList.update c StateConnected (connStates st)\<rparr>)"
| packet: "server_run polite r st \<Longrightarrow> c \<notin> set (closed st) \<Longrightarrow> (polite \<Longrightarrow> selects_alone c st)
    \<Longrightarrow> server_run polite r (serve env r c opcode sub req st)"
| lost: "server_run polite r st \<Longrightarrow> map_of (connStates st) c \<noteq> None \<Longrightarrow> server_run polite r (hang_up env c st)"
| other: "server_run polite r st \<Longrightarrow> player_account wr = player_account (world st) \<Longrightarrow> players_ok wr
    \<Longrightarrow> server_run polite r (st\<lparr>world := wr\<rparr>)"

lemma server_run_inv:
  assumes "server_run polite r st" and r: "buildRegistry = Some r"
  shows "server_inv polite None st"
  using assms(1)
proof induction
  case (start db)
  show ?case
    by (simp add: server_inv_def bound_def states_ok_def players_ok_def lone_def player_account_def NewWorldRegistry_def)
next
  case (handshake st c)
  let ?st = "st\<lparr>connStates := AList.update c StateConnected (connStates st)\<rparr>"
  have "map_of (sessions st) c = None"
    using server_inv_session_states(2) [OF handshake.IH, of c] handshake.hyps(2)
    by (cases "map_of (sessions st) c") auto
  then have "states_ok None ?st"
    using handshake.IH unfolding server_inv_def states_ok_def by simp blast
  moreover have "bound ?st = bound st" "lone polite ?st = lone polite st"
    by (simp_all add: bound_def lone_def)
  ultimately show ?case using handshake.IH by (simp add: server_inv_def)
next
  case (packet st c env opcode sub req)
  show ?case by (rule server_inv_serve [OF r packet.IH packet.hyps(3)])
next
  case (lost st c env)
  show ?case by (rule server_inv_hang_up [OF lost.IH]) simp
next
  case (other st wr)
  show ?case by (rule server_inv_shrink [OF other.IH]) (use other.hyps in simp_all)
qed

section \<open>Properties\<close>

lemma removeSession_gone:
  "map_of (sessions (removeSession env c st)) d = (if d = c then None
     else map_of (sessions st) d)"
proof (cases "map_of (sessions st) c")
  case (Some s)
  then show ?thesis
    by (simp add: removeSession_def getSession_def Let_def core_parts [OF core_drop_from_world])
qed (simp add: removeSession_def getSession_def)

lemma hang_up_parts:
  "sessions (hang_up env c st) = sessions (removeSession env c st)"
  "connections (hang_up env c st) = connections (removeSession env c st)"
  "world (hang_up env c st) = world (removeSession env c st)"
  "database (hang_up env c st) = database (removeSession env c st)"
  by (simp_all add: hang_up_def Let_def)

lemma removeSession_world:
  "map_of (sessions st) c = Some s
     \<Longrightarrow> world (removeSession env c st)
       = world (drop_from_world env (sessAccount s) (st\<lparr>connections := UnregisterIf (sessAccount s) c (connections st)\<rparr>))"
  by (simp add: removeSession_def getSession_def Let_def)



text \<open>
  The server does not enforce that: whoever selects two characters one after the other and disconnects
  leaves one of them in the world, with no session and no connection that would ever remove it.
\<close>

theorem second_character_is_left_behind:
  assumes "buildRegistry = Some r" and "server_run polite r st" and "map_of (sessions st) c = Some s"
    and "player_account (world st) i = Some (sessAccount s)" and "player_account (world st) j = Some (sessAccount s)"
    and "i \<noteq> j"
  shows "\<exists>k. (k = i \<or> k = j) \<and> player_account (world (hang_up env c st)) k = Some (sessAccount s)
    \<and> map_of (connections (hang_up env c st)) (sessAccount s) = None
    \<and> (\<forall>d s'. map_of (sessions (hang_up env c st)) d = Some s' \<longrightarrow> sessAccount s' \<noteq> sessAccount s)"
proof -
  let ?a = "sessAccount s"
  have inv: "server_inv polite None st" by (rule server_run_inv [OF assms(2,1)])
  then have inv': "server_inv polite None (hang_up env c st)" by (rule server_inv_hang_up) simp
  have conn: "map_of (connections st) ?a = Some c" using inv assms(3) by (auto simp: server_inv_def bound_def)
  have gone: "map_of (connections (hang_up env c st)) ?a = None"
  proof (cases "map_of (connections (hang_up env c st)) ?a")
    case (Some d)
    then obtain s' where "map_of (sessions (hang_up env c st)) d = Some s'" "sessAccount s' = ?a"
      using inv' by (auto simp: server_inv_def bound_def)
    then have "d \<noteq> c" "map_of (sessions st) d = Some s'"
      by (simp_all add: hang_up_parts removeSession_gone split: if_splits)
    moreover from this have "map_of (connections st) ?a = Some d"
      using inv \<open>sessAccount s' = ?a\<close> by (auto simp: server_inv_def bound_def)
    ultimately show ?thesis using conn by simp
  qed
  let ?st1 = "st\<lparr>connections := UnregisterIf ?a c (connections st)\<rparr>"
  have ok: "players_ok (world ?st1)" using inv by (simp add: server_inv_def)
  obtain p where p: "GetPlayerByAccount (world st) ?a = Some p"
    using GetPlayerByAccount_None assms(4) by (cases "GetPlayerByAccount (world st) ?a") auto
  obtain k where k: "k = i \<or> k = j" "k \<noteq> wpCharID p" using assms(6) by metis
  have "player_account (world (hang_up env c st)) k = Some ?a"
    unfolding hang_up_parts removeSession_world [OF assms(3)] drop_from_world_accounts(3) [OF ok]
    using k p assms(4,5) by auto
  moreover have "sessAccount s' \<noteq> ?a" if "map_of (sessions (hang_up env c st)) d = Some s'" for d s'
    using inv' that gone unfolding server_inv_def bound_def by (metis option.distinct(1))
  ultimately show ?thesis using k(1) gone by blast
qed

lemma run_login:
  assumes r: "buildRegistry = Some r" and "map_of (connStates st) c = Some StateConnected"
    and "map_of (sessions st) c = None" and "map_of (connections st) (reqAccount req) = None"
    and "link_up env (reqAccount req) (reqKeys req)" and "send_ok env c (CharSelectionInfo (reqAccount req))"
  shows "serve env r c 0x2b sub req st = st\<lparr>
      sessions := AList.update c \<lparr>sessAccount = reqAccount req, sessKeys = reqKeys req, sessLoginAt = False,
        pendingState = None\<rparr> (sessions st),
      connections := AList.update (reqAccount req) c (connections st),
      outbox := outbox st @ [(c, CharSelectionInfo (reqAccount req))],
      connStates := AList.update c StateAuthed (connStates st)\<rparr>"
  using assms
  by (simp add: serve_def Resolve_login_entry [OF r] handleAuthLogin_def kickExistingSession_def GetConnection_def
      Let_def setSession_def Register_def send_to_def take_pending_def getSession_def)

lemma run_select:
  assumes r: "buildRegistry = Some r" and "map_of (connStates st) c = Some StateAuthed"
    and "map_of (sessions st) c = Some s" and "pendingState s = None"
    and "SelectCharacter env (reqCharID req) (sessAccount s) st = Inr char" and "send_ok env c (CharSelected (ID char))"
  shows "serve env r c 0x12 sub req st = st\<lparr>
      world := snd (UpdatePlayerRunWalkState (now_unix env) (ID char) True (AddPlayer (now_unix env) char (world st))),
      outbox := outbox st @ [(c, CharSelected (ID char))]\<rparr>"
  using assms
  by (simp add: serve_def Resolve_select_entry [OF r] handleCharacterSelect_def getSession_def
      Let_def send_to_def take_pending_def)

text \<open>A small server: bob has two characters and logs in on connection 1.\<close>

definition sample_char :: "int \<Rightarrow> Character" where
  "sample_char i = \<lparr>ID = i, AccountName = ''bob'', CharName = ''x'', CharPosition = \<lparr>X = i, Y = 2, Z = 3\<rparr>\<rparr>"

definition sample_db :: "(int, stored_character) go_map" where
  "sample_db = [(10, \<lparr>storedChar = sample_char 10, storedSlot = 0, storedLevel = 1, storedDeleteTime = 0\<rparr>),
     (11, \<lparr>storedChar = sample_char 11, storedSlot = 1, storedLevel = 40, storedDeleteTime = 0\<rparr>)]"

definition sample_env :: game_env where
  "sample_env = \<lparr>link_up = \<lambda>_ _. True, send_ok = \<lambda>_ _. True, list_ok = \<lambda>_. True, paperdoll_ok = \<lambda>_. True,
     update_ok = \<lambda>_. True, entry_ok = \<lambda>_. True, now_unix = 0\<rparr>"

definition sample_request :: "int \<Rightarrow> request" where
  "sample_request n = \<lparr>reqAccount = ''bob'', reqKeys = [1, 2, 3, 4], reqCharID = n\<rparr>"

definition sample_session :: ClientSession where
  "sample_session = \<lparr>sessAccount = ''bob'', sessKeys = [1, 2, 3, 4], sessLoginAt = False, pendingState = None\<rparr>"

definition sample_start :: game_server where
  "sample_start = \<lparr>sessions = [], connections = [], world = NewWorldRegistry, database = sample_db,
      loopCmds = [], outbox = [], closed = [], connStates = [(1, StateConnected)]\<rparr>"

definition sample_login :: "Registry \<Rightarrow> game_server" where
  "sample_login r = serve sample_env r 1 0x2b 0 (sample_request 0) sample_start"

definition sample_playing :: "Registry \<Rightarrow> game_server" where
  "sample_playing r = serve sample_env r 1 0x12 0 (sample_request 0) (sample_login r)"

definition sample_both :: "Registry \<Rightarrow> game_server" where
  "sample_both r = serve sample_env r 1 0x12 0 (sample_request 1) (sample_playing r)"

lemma sample_start_run: "server_run polite r sample_start"
  using server_run.handshake [OF server_run.start [of polite r sample_db], of 1] by (simp add: sample_start_def)

lemma sample_login_run:
  assumes "buildRegistry = Some r"
  shows "server_run polite r (sample_login r)"
  unfolding sample_login_def
  by (rule server_run.packet [OF sample_start_run]) (simp_all add: sample_start_def selects_alone_def)

lemma sample_login_eq:
  assumes "buildRegistry = Some r"
  shows "sample_login r = \<lparr>sessions = [(1, sample_session)],
      connections = [(''bob'', 1)], world = NewWorldRegistry, database = sample_db, loopCmds = [],
      outbox = [(1, CharSelectionInfo ''bob'')], closed = [], connStates = [(1, StateAuthed)]\<rparr>"
  unfolding sample_login_def
  by (subst run_login [OF assms]) (simp_all add: sample_start_def sample_env_def sample_request_def sample_session_def)

lemma sample_playing_run:
  assumes "buildRegistry = Some r"
  shows "server_run polite r (sample_playing r)"
  unfolding sample_playing_def
  by (rule server_run.packet [OF sample_login_run [OF assms]])
    (simp_all add: sample_login_eq [OF assms] selects_alone_def player_account_def NewWorldRegistry_def)

lemma sample_playing_eq:
  assumes "buildRegistry = Some r"
  shows "\<exists>wr out. player_account wr = [10 \<mapsto> ''bob''] \<and> sample_playing r = (sample_login r)\<lparr>world := wr, outbox := out\<rparr>"
proof -
  have "SelectCharacter sample_env (reqCharID (sample_request 0)) (sessAccount sample_session) (sample_login r) = Inr (sample_char 10)"
    by (simp add: sample_login_eq [OF assms] SelectCharacter_def sample_db_def sample_char_def IsMarkedForDeletion_def
        sample_env_def sample_request_def sample_session_def)
  moreover have "map_of (connStates (sample_login r)) 1 = Some StateAuthed" "map_of (sessions (sample_login r)) 1 = Some sample_session"
    "pendingState sample_session = None"
    by (simp_all add: sample_login_eq [OF assms] sample_session_def)
  ultimately have "sample_playing r = (sample_login r)\<lparr>
      world := snd (UpdatePlayerRunWalkState 0 10 True (AddPlayer 0 (sample_char 10) (world (sample_login r)))),
      outbox := outbox (sample_login r) @ [(1, CharSelected 10)]\<rparr>"
    using run_select [OF assms, of "sample_login r" 1 sample_session sample_env "sample_request 0" "sample_char 10" 0]
    by (simp add: sample_playing_def sample_env_def sample_char_def)
  moreover have "player_account (AddPlayer 0 (sample_char 10) (world (sample_login r))) = [10 \<mapsto> ''bob'']"
    by (auto simp: player_account_AddPlayer sample_login_eq [OF assms] player_account_def NewWorldRegistry_def sample_char_def)
  ultimately show ?thesis by (metis run_walk_accounts(1))
qed

lemma sample_both_run:
  assumes "buildRegistry = Some r"
  shows "server_run False r (sample_both r)"
proof -
  obtain wr out where "sample_playing r = (sample_login r)\<lparr>world := wr, outbox := out\<rparr>"
    using sample_playing_eq [OF assms] by blast
  then show ?thesis
    unfolding sample_both_def
    by (intro server_run.packet [OF sample_playing_run [OF assms]]) (simp_all add: sample_login_eq [OF assms])
qed

lemma sample_both_eq:
  assumes "buildRegistry = Some r"
  shows "\<exists>wr out. player_account wr = [10 \<mapsto> ''bob'', 11 \<mapsto> ''bob'']
    \<and> sample_both r = (sample_login r)\<lparr>world := wr, outbox := out\<rparr>"
proof -
  obtain wr out where wr: "player_account wr = [10 \<mapsto> ''bob'']" and
    eq: "sample_playing r = (sample_login r)\<lparr>world := wr, outbox := out\<rparr>"
    using sample_playing_eq [OF assms] by blast
  have "SelectCharacter sample_env (reqCharID (sample_request 1)) (sessAccount sample_session) (sample_playing r) = Inr (sample_char 11)"
    by (simp add: eq sample_login_eq [OF assms] SelectCharacter_def sample_db_def sample_char_def IsMarkedForDeletion_def
        sample_env_def sample_request_def sample_session_def)
  moreover have "map_of (connStates (sample_playing r)) 1 = Some StateAuthed" "map_of (sessions (sample_playing r)) 1 = Some sample_session"
    "pendingState sample_session = None"
    by (simp_all add: eq sample_login_eq [OF assms] sample_session_def)
  ultimately have "sample_both r = (sample_playing r)\<lparr>
      world := snd (UpdatePlayerRunWalkState 0 11 True (AddPlayer 0 (sample_char 11) wr)),
      outbox := out @ [(1, CharSelected 11)]\<rparr>"
    using run_select [OF assms, of "sample_playing r" 1 sample_session sample_env "sample_request 1" "sample_char 11" 0]
    by (simp add: sample_both_def eq sample_env_def sample_char_def)
  moreover have "player_account (AddPlayer 0 (sample_char 11) wr) = [10 \<mapsto> ''bob'', 11 \<mapsto> ''bob'']"
    by (simp add: player_account_AddPlayer wr sample_char_def)
  ultimately show ?thesis
    by (intro exI [of _ "snd (UpdatePlayerRunWalkState 0 11 True (AddPlayer 0 (sample_char 11) wr))"]
        exI [of _ "out @ [(1, CharSelected 11)]"]) (simp add: eq)
qed

lemma sample_registry: "\<exists>r. buildRegistry = Some r"
  using buildRegistry_table by blast



theorem second_character_is_left_behind_witness:
  "\<exists>r k. server_run False r (sample_both r)
     \<and> player_account (world (hang_up sample_env 1 (sample_both r))) k = Some ''bob''
     \<and> map_of (connections (hang_up sample_env 1 (sample_both r))) ''bob'' = None"
proof -
  obtain r where r: "buildRegistry = Some r" using sample_registry by blast
  obtain wr out where st: "player_account wr = [10 \<mapsto> ''bob'', 11 \<mapsto> ''bob'']"
    "sample_both r = (sample_login r)\<lparr>world := wr, outbox := out\<rparr>"
    using sample_both_eq [OF r] by blast
  note run = sample_both_run [OF r]
  have s: "map_of (sessions (sample_both r)) 1 = Some sample_session" and bob: "sessAccount sample_session = ''bob''"
    using st by (simp_all add: sample_login_eq [OF r] sample_session_def)
  have here: "player_account (world (sample_both r)) 10 = Some (sessAccount sample_session)"
    "player_account (world (sample_both r)) 11 = Some (sessAccount sample_session)"
    using st by (simp_all add: bob)
  obtain k where "player_account (world (hang_up sample_env 1 (sample_both r))) k = Some ''bob''"
    "map_of (connections (hang_up sample_env 1 (sample_both r))) ''bob'' = None"
    using second_character_is_left_behind [OF r run s here, of sample_env] by (auto simp: bob)
  with run show ?thesis by blast
qed

text \<open>
  The game server admits anyone. Whatever keys a client sends with its AuthLogin, if the link to the login
  server is up it gets the session of the account it names, in the character selection, before and whatever the login
  server answers; if the link is down it is moved to the character selection all the same, without a session.
\<close>

theorem login_needs_no_key:
  assumes r: "buildRegistry = Some r" and run: "server_run polite r st"
    and state: "map_of (connStates st) c = Some StateConnected"
  shows "let after = serve env r c 0x2b sub req st in
    (link_up env (reqAccount req) (reqKeys req) \<and> send_ok env c (CharSelectionInfo (reqAccount req))
      \<longrightarrow> (\<exists>s. map_of (sessions after) c = Some s \<and> sessAccount s = reqAccount req)
        \<and> map_of (connections after) (reqAccount req) = Some c \<and> map_of (connStates after) c = Some StateAuthed)
    \<and> (\<not> link_up env (reqAccount req) (reqKeys req)
      \<longrightarrow> map_of (sessions after) c = None \<and> map_of (connStates after) c = Some StateAuthed)"
proof -
  have inv: "server_inv polite None st" by (rule server_run_inv [OF run r])
  have none: "map_of (sessions st) c = None"
    using server_inv_session_states(2) [OF inv, of c] state by (cases "map_of (sessions st) c") auto
  let ?a = "reqAccount req"
  let ?s = "\<lparr>sessAccount = ?a, sessKeys = reqKeys req, sessLoginAt = False, pendingState = None\<rparr>"
  define st1 where "st1 = setSession c ?s (kickExistingSession env ?a c st)"
  show ?thesis
  proof (cases "link_up env ?a (reqKeys req)")
    case False
    with state none show ?thesis
      by (simp add: serve_def Resolve_login_entry [OF r] handleAuthLogin_def take_pending_def getSession_def)
  next
    case True
    have st1: "map_of (sessions st1) c = Some ?s" "map_of (connections st1) ?a = Some c"
      by (simp_all add: st1_def setSession_def Register_def)
    have "handleAuthLogin env c ?a (reqKeys req) st = (False, st1\<lparr>outbox := outbox st1 @ [(c, CharSelectionInfo ?a)]\<rparr>)"
      if "send_ok env c (CharSelectionInfo ?a)"
      using True that by (simp add: handleAuthLogin_def st1_def Let_def send_to_def)
    with True state st1 show ?thesis
      by (auto simp: serve_def Resolve_login_entry [OF r] take_pending_def getSession_def Let_def)
  qed
qed

theorem login_needs_no_key_witness:
  "\<exists>r s. map_of (sessions (serve sample_env r 1 0x2b 0 \<lparr>reqAccount = ''bob'', reqKeys = [0, 0, 0, 0], reqCharID = 0\<rparr> sample_start)) 1
     = Some s \<and> sessAccount s = ''bob''"
proof -
  obtain r where r: "buildRegistry = Some r" using sample_registry by blast
  have "map_of (connStates sample_start) 1 = Some StateConnected" by (simp add: sample_start_def)
  from login_needs_no_key [OF r sample_start_run [of False] this, of sample_env 0 "\<lparr>reqAccount = ''bob'', reqKeys = [0, 0, 0, 0], reqCharID = 0\<rparr>"]
  show ?thesis by (auto simp: sample_env_def Let_def)
qed

section \<open>What is saved\<close>

definition rows_ok :: "game_server \<Rightarrow> bool" where
  "rows_ok st \<longleftrightarrow> (\<forall>i row. map_of (database st) i = Some row \<longrightarrow> ID (storedChar row) = i)"

lemma save_absent:
  assumes "rows_ok st" and "GetPlayer (world st) i = None"
  shows "map_of (database (saveCharacterData env i st)) = map_of (database st)"
proof (cases "i = 0 \<or> map_of (database st) i = None")
  case True
  with assms(2) show ?thesis by (auto simp: saveCharacterData_def)
next
  case False
  then obtain row where row: "map_of (database st) i = Some row" "i \<noteq> 0" by auto
  then have "ID (storedChar row) = i" using assms(1) by (simp add: rows_ok_def)
  with row assms(2) show ?thesis
    by (auto simp: saveCharacterData_def db_update_def fun_eq_iff)
qed

lemma drop_from_world_database:
  assumes "rows_ok st"
  shows "map_of (database (drop_from_world env a st)) = map_of (database st)"
proof (cases "GetPlayerByAccount (world st) a")
  case (Some p)
  let ?i = "wpCharID p"
  let ?st = "(loop_send (CmdPlayerDisconnected ?i) st)\<lparr>world := RemovePlayer ?i (world st)\<rparr>"
  have gone: "GetPlayer (world ?st) ?i = None" by (simp add: GetPlayer_gone)
  have rows: "rows_ok ?st" "map_of (database ?st) = map_of (database st)"
    using assms by (simp_all add: rows_ok_def loop_send_def)
  have "database (snd (PerformLogout env ?i ?st)) = database (saveCharacterData env ?i ?st)"
    by (simp add: PerformLogout_def CanPerformLogout_def GetPlayer_gone removeCharacterFromWorld_def)
  with Some save_absent [OF rows(1) gone] rows(2) show ?thesis
    by (simp add: drop_from_world_def Let_def)
qed (simp add: drop_from_world_def)

text \<open>A logout out of combat, with the live character in the world under its own id and a row for it.\<close>

definition may_save :: "game_env \<Rightarrow> ClientSession \<Rightarrow> PlayerWorldState \<Rightarrow> Character \<Rightarrow> stored_character \<Rightarrow> game_server \<Rightarrow> bool" where
  "may_save env s p char row st \<longleftrightarrow>
     GetPlayerByAccount (world st) (sessAccount s) = Some p \<and> wpCharacter p = Some char \<and> ID char = wpCharID p
     \<and> 0 < ID char \<and> map_of (database st) (ID char) = Some row \<and> \<not> wpInCombat p \<and> update_ok env (ID char)"

text \<open>
  A logout saves the character, a lost connection does not. When a client logs out, its character's row
  gets the live character with its live position. When its connection is lost, every row of the database stays
  what it was: the player is taken out of the world before it is saved, so that what is saved is the row itself.
\<close>

theorem lost_connection_saves_nothing:
  assumes "rows_ok st" and "players_ok (world st)" and "map_of (sessions st) c = Some s"
    and "may_save env s p char row st"
  shows "map_of (database (snd (handleLogout env c st))) (ID char)
      = Some (row\<lparr>storedChar := char\<lparr>CharPosition := wpPosition p\<rparr>\<rparr>)
    \<and> map_of (database (hang_up env c st)) = map_of (database st)"
proof -
  let ?a = "sessAccount s" and ?i = "wpCharID p"
  have p: "GetPlayerByAccount (world st) ?a = Some p" "wpCharacter p = Some char" "ID char = ?i" "0 < ?i"
    "map_of (database st) ?i = Some row" "\<not> wpInCombat p" "update_ok env ?i"
    using assms(4) by (auto simp: may_save_def)
  have i: "GetPlayer (world st) ?i = Some p"
    using GetPlayerByAccount_Some(2) [OF p(1) assms(2)] by (simp add: GetPlayer_def)
  have can: "CanPerformLogout (world st) ?i" using i p(6) by (simp add: CanPerformLogout_def)
  let ?st = "loop_send (CmdPlayerDisconnected ?i) st"
  have "database (snd (PerformLogout env ?i ?st))
      = AList.update ?i (row\<lparr>storedChar := char\<lparr>CharPosition := wpPosition p\<rparr>\<rparr>) (database st)"
    using i can p by (simp add: PerformLogout_def saveCharacterData_def db_update_def removeCharacterFromWorld_def)
  then have "map_of (database (snd (handleLogout env c st))) ?i
      = Some (row\<lparr>storedChar := char\<lparr>CharPosition := wpPosition p\<rparr>\<rparr>)"
    using assms(3) p can by (simp add: handleLogout_def getSession_def world_char_def Let_def)
  moreover have "map_of (database (hang_up env c st)) = map_of (database st)"
  proof -
    let ?st1 = "st\<lparr>connections := UnregisterIf ?a c (connections st)\<rparr>"
    have "rows_ok ?st1" using assms(1) by (simp add: rows_ok_def)
    from drop_from_world_database [OF this, of env ?a] assms(3) show ?thesis
      by (simp add: hang_up_parts removeSession_def getSession_def Let_def)
  qed
  ultimately show ?thesis by (simp add: p(3))
qed

theorem lost_connection_saves_nothing_witness:
  "\<exists>st. map_of (database (snd (handleLogout sample_env 1 st))) 10 \<noteq> map_of (database st) 10
     \<and> map_of (database (hang_up sample_env 1 st)) 10 = map_of (database st) 10"
proof -
  define p where "p = \<lparr>wpCharID = 10, wpAccountName = ''bob'', wpCharacter = Some (sample_char 10),
      wpPosition = \<lparr>X = 500, Y = 600, Z = 0\<rparr>, wpHeading = 0, wpOnline = True, wpInCombat = False, wpLastUpdate = 0,
      wpIsMoving = False, wpIsRunning = True, wpTargetID = 0, wpPvPFlagUntil = None, wpKnownNPCs = [],
      wpKnownPlayers = []\<rparr>"
  define st where "st = \<lparr>sessions = [(1, sample_session)], connections = [(''bob'', 1)],
      world = NewWorldRegistry\<lparr>players := [(10, p)]\<rparr>, database = sample_db, loopCmds = [], outbox = [],
      closed = [], connStates = [(1, StateInGame)]\<rparr>"
  define row where "row = \<lparr>storedChar = sample_char 10, storedSlot = 0, storedLevel = 1, storedDeleteTime = 0\<rparr>"
  have "rows_ok st" by (simp add: rows_ok_def st_def sample_db_def sample_char_def)
  moreover have "players_ok (world st)" by (simp add: players_ok_def st_def p_def map_ok_def)
  moreover have "map_of (sessions st) 1 = Some sample_session" by (simp add: st_def)
  moreover have "may_save sample_env sample_session p (sample_char 10) row st"
    by (simp add: may_save_def st_def p_def row_def sample_session_def sample_char_def sample_db_def sample_env_def
        GetPlayerByAccount_def)
  ultimately have "map_of (database (snd (handleLogout sample_env 1 st))) (ID (sample_char 10))
      = Some (row\<lparr>storedChar := (sample_char 10)\<lparr>CharPosition := wpPosition p\<rparr>\<rparr>)
    \<and> map_of (database (hang_up sample_env 1 st)) = map_of (database st)"
    by (rule lost_connection_saves_nothing)
  moreover have "ID (sample_char 10) = 10" by (simp add: sample_char_def)
  moreover have "map_of (database st) 10 = Some row" by (simp add: st_def sample_db_def row_def)
  moreover have "row\<lparr>storedChar := (sample_char 10)\<lparr>CharPosition := wpPosition p\<rparr>\<rparr> \<noteq> row"
    by (simp add: row_def sample_char_def p_def)
  ultimately show ?thesis by (intro exI [of _ st]) simp
qed

text \<open>
  A restart in combat is refused, but not before the game loop has been told that the player is gone:
  it has stopped the fight and hidden the player from everyone.
\<close>

lemma loopCmds_send: "loopCmds (snd (send_to env c p st)) = loopCmds st"
  by (simp add: send_to_def)

lemma refused_restart_despawns:
  assumes "map_of (sessions st) c = Some s" and "players_ok (world st)"
    and "GetPlayerByAccount (world st) (sessAccount s) = Some p" and "0 < wpCharID p" and "wpInCombat p"
  shows "world (snd (handleRequestRestart env c st)) = world st
    \<and> loopCmds (snd (handleRequestRestart env c st)) = loopCmds st @ [CmdPlayerDisconnected (wpCharID p)]"
proof -
  have "GetPlayer (world st) (wpCharID p) = Some p"
    using GetPlayerByAccount_Some(2) [OF assms(3,2)] by (simp add: GetPlayer_def)
  with assms show ?thesis
    by (simp add: handleRequestRestart_def getSession_def world_char_def PerformRestart_def CanPerformLogout_def
        loopCmds_send split_beta Let_def) (simp add: loop_send_def)
qed

end
