(* ===== verification/EventQueue.thy ===== *)
theory EventQueue
  imports L2Prelude "HOL-Library.Multiset"
begin

text \<open>
  The event queue of the game loop, \<open>gameserver/gameloop/eventqueue.go\<close>, and the part of \<open>tick\<close> that
  runs the events that are due (\<open>gameloop.go\<close>). The queue is a slice kept as a binary heap by Go's
  \<open>container/heap\<close>, whose \<open>Push\<close>, \<open>Pop\<close>, \<open>up\<close> and \<open>down\<close> are modelled here with the queue's own
  \<open>Len\<close>, \<open>Less\<close>, \<open>Swap\<close>, \<open>Push\<close> and \<open>Pop\<close> inlined. An event is the instant it is due, in nanoseconds,
  and a payload; what its \<open>Execute\<close> does is a parameter of the loop.
\<close>

section \<open>The heap\<close>

record 'e event =
  ExecuteAt :: int
  Payload :: 'e

type_synonym 'e queue = "'e event list"

definition Less :: "'e queue \<Rightarrow> nat \<Rightarrow> nat \<Rightarrow> bool" where
  "Less items i j \<longleftrightarrow> ExecuteAt (items ! i) < ExecuteAt (items ! j)"

definition Swap :: "'e queue \<Rightarrow> nat \<Rightarrow> nat \<Rightarrow> 'e queue" where
  "Swap items i j = items[i := items ! j, j := items ! i]"

fun heap_up :: "'e queue \<Rightarrow> nat \<Rightarrow> 'e queue" where
  "heap_up items j =
     (if j = 0 then items
      else let i = (j - 1) div 2 in
        if \<not> Less items j i then items else heap_up (Swap items i j) i)"

function heap_down :: "'e queue \<Rightarrow> nat \<Rightarrow> nat \<Rightarrow> 'e queue" where
  "heap_down items i n =
     (let j1 = 2 * i + 1 in
      if n \<le> j1 then items
      else let j2 = j1 + 1; j = (if j2 < n \<and> Less items j2 j1 then j2 else j1) in
        if \<not> Less items j i then items else heap_down (Swap items i j) j n)"
  by pat_completeness auto
termination by (relation "measure (\<lambda>(items, i, n). n - i)") (auto simp: Let_def split: if_splits)

declare heap_up.simps [simp del] heap_down.simps [simp del]

definition Schedule :: "'e event \<Rightarrow> 'e queue \<Rightarrow> 'e queue" where
  "Schedule e items = heap_up (items @ [e]) (length items)"

definition Peek :: "'e queue \<Rightarrow> 'e event option" where
  "Peek items = (if length items = 0 then None else Some (items ! 0))"

definition PopEvent :: "'e queue \<Rightarrow> 'e event option \<times> 'e queue" where
  "PopEvent items =
     (if length items = 0 then (None, items)
      else let n = length items - 1;
               items = heap_down (Swap items 0 n) 0 n
           in (Some (items ! n), take n items))"

text \<open>
  The last loop of \<open>tick\<close>. \<open>exec\<close> is \<open>Execute\<close>: it changes the rest of the game loop's state and
  schedules further events. The result is the queue, the state and the events that were run, in
  order; \<open>None\<close> when the loop has not stopped after \<open>fuel\<close> rounds.
\<close>

fun run_due :: "nat \<Rightarrow> int \<Rightarrow> ('e event \<Rightarrow> 's \<Rightarrow> 's \<times> 'e event list) \<Rightarrow> 'e queue \<Rightarrow> 's
    \<Rightarrow> ('e queue \<times> 's \<times> 'e event list) option" where
  "run_due 0 now exec q s = None"
| "run_due (Suc fuel) now exec q s =
     (case Peek q of
        None \<Rightarrow> Some (q, s, [])
      | Some e \<Rightarrow>
          if ExecuteAt e > now then Some (q, s, [])
          else let (_, q) = PopEvent q;
                   (s, new) = exec e s
               in (case run_due fuel now exec (fold Schedule new q) s of
                     None \<Rightarrow> None
                   | Some (q, s, es) \<Rightarrow> Some (q, s, e # es)))"

section \<open>What a queue of timed events promises\<close>

locale timed_queue =
  fixes invar :: "'q \<Rightarrow> bool"
    and events :: "'q \<Rightarrow> 'e event multiset"
    and schedule :: "'e event \<Rightarrow> 'q \<Rightarrow> 'q"
    and next_event :: "'q \<Rightarrow> 'e event option"
    and pop :: "'q \<Rightarrow> 'e event option \<times> 'q"
  assumes schedule_invar: "invar q \<Longrightarrow> invar (schedule e q)"
    and schedule_events: "events (schedule e q) = add_mset e (events q)"
    and next_none: "next_event q = None \<longleftrightarrow> events q = {#}"
    and next_min: "invar q \<Longrightarrow> next_event q = Some e \<Longrightarrow>
      e \<in># events q \<and> (\<forall>x \<in># events q. ExecuteAt e \<le> ExecuteAt x)"
    and pop_event: "next_event q = Some e \<Longrightarrow> fst (pop q) = Some e"
    and pop_events: "next_event q = Some e \<Longrightarrow> events (snd (pop q)) = events q - {#e#}"
    and pop_invar: "invar q \<Longrightarrow> invar (snd (pop q))"
begin

lemma schedule_all:
  "invar q \<Longrightarrow> invar (fold schedule es q) \<and> events (fold schedule es q) = events q + mset es"
  by (induction es arbitrary: q) (simp_all add: schedule_invar schedule_events)

lemma none_due:
  assumes "invar q" and "next_event q = Some e" and "now < ExecuteAt e"
  shows "\<forall>x \<in># events q. now < ExecuteAt x"
  using next_min [OF assms(1,2)] assms(3) by fastforce

lemma due_after_pop:
  assumes "next_event q = Some e" and "invar q" and "ExecuteAt e \<le> now"
  shows "filter_mset (\<lambda>x. ExecuteAt x \<le> now) (events q)
    = add_mset e (filter_mset (\<lambda>x. ExecuteAt x \<le> now) (events (snd (pop q))))"
  using next_min [OF assms(2,1)] assms(3) pop_events [OF assms(1)] by (auto dest!: multi_member_split)

end

section \<open>The heap is such a queue\<close>

definition parent :: "nat \<Rightarrow> nat" where
  "parent k = (k - 1) div 2"

lemma parent_less: "0 < k \<Longrightarrow> parent k < k"
  unfolding parent_def by linarith

lemma parent_eq: "0 < k \<Longrightarrow> parent k = i \<longleftrightarrow> k = 2 * i + 1 \<or> k = 2 * i + 2"
  unfolding parent_def by presburger

lemma heap_up_step:
  "heap_up q j = (if 0 < j \<and> Less q j (parent j) then heap_up (Swap q (parent j) j) (parent j) else q)"
  by (subst heap_up.simps) (auto simp: Let_def parent_def)

definition heap_upto :: "'e queue \<Rightarrow> nat \<Rightarrow> bool" where
  "heap_upto q n \<longleftrightarrow> (\<forall>k. 0 < k \<longrightarrow> k < n \<longrightarrow> ExecuteAt (q ! parent k) \<le> ExecuteAt (q ! k))"

definition is_heap :: "'e queue \<Rightarrow> bool" where
  "is_heap q \<longleftrightarrow> heap_upto q (length q)"

lemma length_Swap [simp]: "length (Swap q i j) = length q"
  by (simp add: Swap_def)

lemma mset_Swap [simp]: "i < length q \<Longrightarrow> j < length q \<Longrightarrow> mset (Swap q i j) = mset q"
  by (simp add: Swap_def mset_swap)

lemma Swap_nth:
  "i < length q \<Longrightarrow> j < length q \<Longrightarrow> Swap q i j ! k = (if k = j then q ! i else if k = i then q ! j else q ! k)"
  by (simp add: Swap_def nth_list_update)

text \<open>The heap order but for the pair of \<open>j\<close> and its parent, resp. of \<open>i\<close> and its children.\<close>

definition heap_but_up :: "'e queue \<Rightarrow> nat \<Rightarrow> bool" where
  "heap_but_up q j \<longleftrightarrow>
     (\<forall>k. 0 < k \<longrightarrow> k < length q \<longrightarrow> k \<noteq> j \<longrightarrow> ExecuteAt (q ! parent k) \<le> ExecuteAt (q ! k))
     \<and> (\<forall>k. 0 < k \<longrightarrow> k < length q \<longrightarrow> parent k = j \<longrightarrow> 0 < j \<longrightarrow> ExecuteAt (q ! parent j) \<le> ExecuteAt (q ! k))"

definition heap_but_down :: "'e queue \<Rightarrow> nat \<Rightarrow> nat \<Rightarrow> bool" where
  "heap_but_down q i n \<longleftrightarrow>
     (\<forall>k. 0 < k \<longrightarrow> k < n \<longrightarrow> parent k \<noteq> i \<longrightarrow> ExecuteAt (q ! parent k) \<le> ExecuteAt (q ! k))
     \<and> (\<forall>k. 0 < k \<longrightarrow> k < n \<longrightarrow> parent k = i \<longrightarrow> 0 < i \<longrightarrow> ExecuteAt (q ! parent i) \<le> ExecuteAt (q ! k))"

lemma heap_up_ok:
  assumes "j < length q" and "heap_but_up q j"
  shows "is_heap (heap_up q j) \<and> mset (heap_up q j) = mset q"
  using assms
proof (induction j arbitrary: q rule: less_induct)
  case (less j)
  show ?case
  proof (cases "0 < j \<and> Less q j (parent j)")
    case False
    then have "heap_up q j = q" by (subst heap_up_step) auto
    moreover have "is_heap q"
      using False less.prems unfolding is_heap_def heap_upto_def heap_but_up_def Less_def by (metis not_less)
    ultimately show ?thesis by simp
  next
    case True
    define i where "i = parent j"
    let ?q = "Swap q i j"
    have ij: "i < j" "i < length q" using True parent_less [of j] less.prems(1) by (auto simp: i_def)
    have smaller: "ExecuteAt (q ! j) < ExecuteAt (q ! i)" using True by (simp add: Less_def i_def)
    have order: "ExecuteAt (q ! parent k) \<le> ExecuteAt (q ! k)" if "0 < k" "k < length q" "k \<noteq> j" for k
      using less.prems(2) that unfolding heap_but_up_def by blast
    have kids: "ExecuteAt (q ! i) \<le> ExecuteAt (q ! k)" if "0 < k" "k < length q" "parent k = j" for k
      using less.prems(2) that True unfolding heap_but_up_def i_def by blast
    have "heap_but_up ?q i"
      unfolding heap_but_up_def
    proof (intro conjI allI impI)
      fix k assume k: "0 < k" "k < length ?q" "k \<noteq> i"
      show "ExecuteAt (?q ! parent k) \<le> ExecuteAt (?q ! k)"
        using k ij less.prems(1) smaller order [of k] kids [of k]
        by (cases "k = j"; cases "parent k = j"; cases "parent k = i") (auto simp: Swap_nth i_def)
    next
      fix k assume k: "0 < k" "k < length ?q" "parent k = i" "0 < i"
      have "ExecuteAt (q ! parent i) \<le> ExecuteAt (q ! i)" using order [of i] k(4) ij by simp
      moreover have "parent i < i" "i < k" using k parent_less [of i] parent_less [of k] by auto
      ultimately show "ExecuteAt (?q ! parent i) \<le> ExecuteAt (?q ! k)"
        using k ij less.prems(1) order [of k] by (cases "k = j") (auto simp: Swap_nth)
    qed
    then have "is_heap (heap_up ?q i) \<and> mset (heap_up ?q i) = mset ?q"
      using ij by (intro less.IH) auto
    then show ?thesis using True ij less.prems(1) heap_up_step [of q j] by (simp add: i_def)
  qed
qed

definition least_child :: "'e queue \<Rightarrow> nat \<Rightarrow> nat \<Rightarrow> nat" where
  "least_child q i n = (if 2 * i + 2 < n \<and> Less q (2 * i + 2) (2 * i + 1) then 2 * i + 2 else 2 * i + 1)"

lemma heap_down_step:
  "heap_down q i n = (if 2 * i + 1 < n \<and> Less q (least_child q i n) i
     then heap_down (Swap q i (least_child q i n)) (least_child q i n) n else q)"
  by (subst heap_down.simps) (auto simp: Let_def least_child_def)

lemma least_child:
  assumes "2 * i + 1 < n"
  shows "0 < least_child q i n" "least_child q i n < n" "i < least_child q i n"
    "parent (least_child q i n) = i"
    "\<And>k. 0 < k \<Longrightarrow> k < n \<Longrightarrow> parent k = i \<Longrightarrow> ExecuteAt (q ! least_child q i n) \<le> ExecuteAt (q ! k)"
proof -
  show "0 < least_child q i n" "least_child q i n < n" "i < least_child q i n"
    using assms by (auto simp: least_child_def)
  show "parent (least_child q i n) = i" by (simp add: least_child_def parent_def)
  show "\<And>k. 0 < k \<Longrightarrow> k < n \<Longrightarrow> parent k = i \<Longrightarrow> ExecuteAt (q ! least_child q i n) \<le> ExecuteAt (q ! k)"
    by (auto simp: parent_eq least_child_def Less_def)
qed

lemma heap_down_ok:
  assumes "n \<le> length q" and "i < n" and "heap_but_down q i n"
  shows "heap_upto (heap_down q i n) n \<and> mset (heap_down q i n) = mset q \<and> (\<forall>k \<ge> n. heap_down q i n ! k = q ! k)"
  using assms
proof (induction "n - i" arbitrary: q i rule: less_induct)
  case (less i)
  have order: "ExecuteAt (q ! parent k) \<le> ExecuteAt (q ! k)" if "0 < k" "k < n" "parent k \<noteq> i" for k
    using less.prems(3) that unfolding heap_but_down_def by blast
  show ?case
  proof (cases "2 * i + 1 < n \<and> Less q (least_child q i n) i")
    case False
    then have "heap_down q i n = q" by (subst heap_down_step) auto
    moreover have "ExecuteAt (q ! i) \<le> ExecuteAt (q ! k)" if "0 < k" "k < n" "parent k = i" for k
    proof -
      have "2 * i + 1 < n" using that by (auto simp: parent_eq)
      then show ?thesis using False least_child(5) [of i n k q] that by (auto simp: Less_def)
    qed
    ultimately show ?thesis using order unfolding heap_upto_def by metis
  next
    case True
    define j where "j = least_child q i n"
    have j: "0 < j" "j < n" "i < j" "parent j = i" using True least_child(1-4) [of i n q] by (auto simp: j_def)
    have least: "ExecuteAt (q ! j) \<le> ExecuteAt (q ! k)" if "0 < k" "k < n" "parent k = i" for k
      using True least_child(5) [of i n k q] that by (auto simp: j_def)
    have smaller: "ExecuteAt (q ! j) < ExecuteAt (q ! i)" using True by (simp add: Less_def j_def)
    let ?q = "Swap q i j"
    have len: "i < length q" "j < length q" using less.prems(1,2) j by auto
    have "heap_but_down ?q j n"
      unfolding heap_but_down_def
    proof (intro conjI allI impI)
      fix k assume k: "0 < k" "k < n" "parent k \<noteq> j"
      consider "k = j" | "k \<noteq> j" "parent k = i" | "k \<noteq> j" "parent k \<noteq> i" by blast
      then show "ExecuteAt (?q ! parent k) \<le> ExecuteAt (?q ! k)"
      proof cases
        case 1
        then show ?thesis using j smaller len by (simp add: Swap_nth)
      next
        case 2
        then have "k \<noteq> i" using parent_less [of k] k by auto
        then show ?thesis using 2 k j least [of k] len by (simp add: Swap_nth)
      next
        case 3
        have "ExecuteAt (q ! parent k) \<le> ExecuteAt (q ! k)" using order k 3 by blast
        moreover have "ExecuteAt (q ! parent k) \<le> ExecuteAt (q ! j)" if "k = i"
          using less.prems(3) j that k unfolding heap_but_down_def by blast
        ultimately show ?thesis using 3 k len by (auto simp: Swap_nth)
      qed
    next
      fix k assume k: "0 < k" "k < n" "parent k = j" "0 < j"
      then have "j < k" using parent_less by blast
      then show "ExecuteAt (?q ! parent j) \<le> ExecuteAt (?q ! k)"
        using k j len order [of k] by (auto simp: Swap_nth)
    qed
    moreover have "?q ! k = q ! k" if "n \<le> k" for k using that j less.prems(2) len by (simp add: Swap_nth)
    ultimately have "heap_upto (heap_down ?q j n) n \<and> mset (heap_down ?q j n) = mset q
        \<and> (\<forall>k \<ge> n. heap_down ?q j n ! k = q ! k)"
      using less.hyps [of j ?q] j less.prems(1) len by simp
    then show ?thesis using True heap_down_step [of q i n] by (simp add: j_def)
  qed
qed

lemma is_heap_Nil [simp]: "is_heap []"
  by (simp add: is_heap_def heap_upto_def)

lemma heap_root:
  assumes "is_heap q" and "k < length q"
  shows "ExecuteAt (q ! 0) \<le> ExecuteAt (q ! k)"
  using assms(2)
proof (induction k rule: less_induct)
  case (less k)
  show ?case
  proof (cases "k = 0")
    case False
    then have "parent k < k" by (simp add: parent_less)
    moreover have "ExecuteAt (q ! parent k) \<le> ExecuteAt (q ! k)"
      using assms(1) False less.prems unfolding is_heap_def heap_upto_def by blast
    ultimately show ?thesis using less by fastforce
  qed simp
qed

lemma Schedule_ok:
  assumes "is_heap q"
  shows "is_heap (Schedule e q)"
proof -
  have "heap_but_up (q @ [e]) (length q)"
    unfolding heap_but_up_def
  proof (intro conjI allI impI)
    fix k assume k: "0 < k" "k < length (q @ [e])" "k \<noteq> length q"
    then have "parent k < k" "k < length q" by (auto intro: parent_less)
    then show "ExecuteAt ((q @ [e]) ! parent k) \<le> ExecuteAt ((q @ [e]) ! k)"
      using assms k unfolding is_heap_def heap_upto_def by (simp add: nth_append)
  next
    fix k assume "0 < k" "k < length (q @ [e])" "parent k = length q" "0 < length q"
    then show "ExecuteAt ((q @ [e]) ! parent (length q)) \<le> ExecuteAt ((q @ [e]) ! k)"
      using parent_less [of k] by simp
  qed
  then show ?thesis by (simp add: Schedule_def heap_up_ok)
qed

lemma mset_heap_up: "j < length q \<Longrightarrow> mset (heap_up q j) = mset q"
proof (induction j arbitrary: q rule: less_induct)
  case (less j)
  then show ?case
    using parent_less [of j] heap_up_step [of q j] by auto
qed

lemma mset_Schedule: "mset (Schedule e q) = add_mset e (mset q)"
  by (simp add: Schedule_def mset_heap_up)

lemma heap_down_mset: "n \<le> length q \<Longrightarrow> i < n \<Longrightarrow>
  mset (heap_down q i n) = mset q \<and> (\<forall>k \<ge> n. heap_down q i n ! k = q ! k)"
proof (induction "n - i" arbitrary: q i rule: less_induct)
  case (less i)
  show ?case
  proof (cases "2 * i + 1 < n \<and> Less q (least_child q i n) i")
    case True
    define j where "j = least_child q i n"
    have j: "j < n" "i < j" using True least_child(1-4) [of i n q] by (auto simp: j_def)
    then have "mset (heap_down (Swap q i j) j n) = mset (Swap q i j)
        \<and> (\<forall>k \<ge> n. heap_down (Swap q i j) j n ! k = Swap q i j ! k)"
      using less.prems by (intro less.hyps) auto
    then show ?thesis using True j less.prems heap_down_step [of q i n] by (simp add: Swap_nth j_def)
  next
    case False
    then show ?thesis using heap_down_step [of q i n] by auto
  qed
qed

lemma PopEvent_parts:
  assumes "q \<noteq> []"
  shows "fst (PopEvent q) = Some (q ! 0)" "mset (snd (PopEvent q)) = mset q - {#q ! 0#}"
proof -
  define n where "n = length q - 1"
  define r where "r = heap_down (Swap q 0 n) 0 n"
  have n: "n < length q" using assms by (simp add: n_def)
  have r: "mset r = mset q \<and> r ! n = q ! 0"
  proof (cases "n = 0")
    case True
    have "r = Swap q 0 n" unfolding r_def True by (subst heap_down_step) simp
    then show ?thesis using n True by (simp add: Swap_nth)
  next
    case False
    then show ?thesis using heap_down_mset [of n "Swap q 0 n" 0] n assms by (simp add: r_def Swap_nth)
  qed
  then have len: "length r = Suc n" using n by (metis Suc_diff_1 gr_implies_not0 length_0_conv n_def neq0_conv size_mset)
  have "r = take n r @ [r ! n]" using len by (metis lessI take_Suc_conv_app_nth take_all_iff order_refl)
  then have "mset r = add_mset (q ! 0) (mset (take n r))" using r by (metis add.right_neutral add_mset_add_single mset.simps(1) mset.simps(2) mset_append union_mset_add_mset_right)
  moreover have "PopEvent q = (Some (r ! n), take n r)"
    using assms by (simp add: PopEvent_def r_def n_def Let_def)
  ultimately show "fst (PopEvent q) = Some (q ! 0)" "mset (snd (PopEvent q)) = mset q - {#q ! 0#}"
    using r by simp_all
qed

lemma PopEvent_heap:
  assumes "is_heap q"
  shows "is_heap (snd (PopEvent q))"
proof (cases "length q \<le> 1")
  case True
  then show ?thesis
    by (cases q) (auto simp: PopEvent_def Let_def)
next
  case False
  define n where "n = length q - 1"
  have n: "0 < n" "n < length q" "q \<noteq> []" using False by (auto simp: n_def)
  have "heap_but_down (Swap q 0 n) 0 n"
    unfolding heap_but_down_def
  proof (intro conjI allI impI)
    fix k assume k: "0 < k" "k < n" "parent k \<noteq> 0"
    then show "ExecuteAt (Swap q 0 n ! parent k) \<le> ExecuteAt (Swap q 0 n ! k)"
      using assms n parent_less [of k] unfolding is_heap_def heap_upto_def by (simp add: Swap_nth)
  qed simp
  from heap_down_ok [OF _ n(1) this] n
  have upto: "heap_upto (heap_down (Swap q 0 n) 0 n) n" by simp
  have "length (heap_down (Swap q 0 n) 0 n) = length q"
    using heap_down_mset [of n "Swap q 0 n" 0] n by (metis length_Swap less_imp_le size_mset)
  then have len: "length (snd (PopEvent q)) = n"
    using n by (simp add: PopEvent_def Let_def n_def)
  have "snd (PopEvent q) = take n (heap_down (Swap q 0 n) 0 n)"
    using n by (simp add: PopEvent_def Let_def n_def)
  then have "snd (PopEvent q) ! k = heap_down (Swap q 0 n) 0 n ! k" if "k < n" for k
    using that by simp
  then show ?thesis
    using upto len parent_less less_trans unfolding is_heap_def heap_upto_def by metis
qed

interpretation heap_queue: timed_queue is_heap mset Schedule Peek PopEvent
proof unfold_locales
  fix q :: "'a queue" and e
  show "Peek q = None \<longleftrightarrow> mset q = {#}" by (simp add: Peek_def)
  show "e \<in># mset q \<and> (\<forall>x \<in># mset q. ExecuteAt e \<le> ExecuteAt x)" if "is_heap q" "Peek q = Some e"
    using that heap_root [OF that(1)] by (auto simp: Peek_def in_set_conv_nth split: if_splits)
  show "fst (PopEvent q) = Some e" "mset (snd (PopEvent q)) = mset q - {#e#}" if "Peek q = Some e"
    using that PopEvent_parts [of q] by (auto simp: Peek_def split: if_splits)
qed (simp_all add: Schedule_ok mset_Schedule PopEvent_heap)

section \<open>The loop of a tick\<close>

lemma run_due_ok:
  assumes "\<And>e s. \<forall>x \<in> set (snd (exec e s)). now < ExecuteAt x"
    and "is_heap q" and "size (filter_mset (\<lambda>x. ExecuteAt x \<le> now) (mset q)) < fuel"
  shows "\<exists>q' s' es. run_due fuel now exec q s = Some (q', s', es)
    \<and> is_heap q' \<and> (\<forall>x \<in> set q'. now < ExecuteAt x)
    \<and> mset es = filter_mset (\<lambda>x. ExecuteAt x \<le> now) (mset q)
    \<and> sorted (map ExecuteAt es)"
  using assms(2,3)
proof (induction fuel arbitrary: q s)
  case (Suc fuel)
  let ?due = "\<lambda>q. filter_mset (\<lambda>x. ExecuteAt x \<le> now) (mset q)"
  show ?case
  proof (cases "Peek q")
    case None
    then have "q = []" using heap_queue.next_none [of q] by simp
    then show ?thesis by (simp add: Peek_def)
  next
    case (Some e)
    show ?thesis
    proof (cases "now < ExecuteAt e")
      case True
      then have "\<forall>x \<in> set q. now < ExecuteAt x" using heap_queue.none_due [OF Suc.prems(1) Some] by simp
      moreover from this have "?due q = {#}" by auto
      ultimately show ?thesis using True Some Suc.prems(1) by simp
    next
      case False
      then have due: "?due q = add_mset e (?due (snd (PopEvent q)))"
        using heap_queue.due_after_pop [OF Some Suc.prems(1)] by simp
      obtain s1 new where new: "exec e s = (s1, new)" by fastforce
      define q1 where "q1 = fold Schedule new (snd (PopEvent q))"
      have q1: "is_heap q1" "mset q1 = mset (snd (PopEvent q)) + mset new"
        using heap_queue.schedule_all [OF PopEvent_heap [OF Suc.prems(1)]] by (simp_all add: q1_def)
      have "\<forall>x \<in> set new. now < ExecuteAt x" using assms(1) [of e s] new by simp
      then have "?due q1 = ?due (snd (PopEvent q))" by (fastforce simp: q1(2))
      moreover from this have "size (?due q1) < fuel" using Suc.prems(2) due by simp
      ultimately obtain q' s' es where rec: "run_due fuel now exec q1 s1 = Some (q', s', es)" "is_heap q'"
        "\<forall>x \<in> set q'. now < ExecuteAt x" "mset es = ?due (snd (PopEvent q))" "sorted (map ExecuteAt es)"
        using Suc.IH [OF q1(1), of s1] by auto
      have "\<forall>x \<in> set es. ExecuteAt e \<le> ExecuteAt x"
      proof
        fix x assume "x \<in> set es"
        then have "x \<in># ?due q" using rec(4) due by (metis insert_iff set_mset_add_mset_insert set_mset_mset)
        then show "ExecuteAt e \<le> ExecuteAt x" using heap_queue.next_min [OF Suc.prems(1) Some] by auto
      qed
      then show ?thesis
        using rec False Some new due by (auto simp: q1_def split: prod.splits)
    qed
  qed
qed simp

text \<open>The queues the game loop can have: whatever was scheduled and popped, in any order.\<close>

datatype 'e queue_op = Add "'e event" | Pop

fun change_queue :: "'e queue_op \<Rightarrow> 'e queue \<Rightarrow> 'e queue" where
  "change_queue (Add e) q = Schedule e q"
| "change_queue Pop q = snd (PopEvent q)"

lemma queue_ops_heap: "is_heap q \<Longrightarrow> is_heap (fold change_queue ops q)"
proof (induction ops arbitrary: q)
  case (Cons op ops)
  then show ?case by (cases op) (simp_all add: Schedule_ok PopEvent_heap)
qed simp

text \<open>
  The event loop of a tick. Let the queue be what any sequence of scheduling and popping leaves,
  and let no event that is run schedule another that is already due. Then the loop ends, after at
  most as many rounds as there are events; it has run exactly the events that were due, each once,
  in the order of their times, and what remains queued, new events included, is not due yet.
\<close>

theorem tick_runs_due_events:
  assumes "\<And>e s. \<forall>x \<in> set (snd (exec e s)). now < ExecuteAt x"
    and "q = fold change_queue ops []"
  shows "\<exists>q' s' ran. run_due (Suc (length q)) now exec q s = Some (q', s', ran)
    \<and> mset ran = filter_mset (\<lambda>x. ExecuteAt x \<le> now) (mset q)
    \<and> sorted (map ExecuteAt ran)
    \<and> (\<forall>x \<in> set q'. now < ExecuteAt x) \<and> is_heap q'"
proof -
  have "size (filter_mset (\<lambda>x. ExecuteAt x \<le> now) (mset q)) < Suc (length q)"
    using size_mset_mono [OF multiset_filter_subset, of "\<lambda>x. ExecuteAt x \<le> now" "mset q"] by simp
  moreover have "is_heap q" using assms(2) queue_ops_heap [OF is_heap_Nil] by simp
  ultimately obtain q' s' ran where "run_due (Suc (length q)) now exec q s = Some (q', s', ran)"
      "is_heap q'" "\<forall>x \<in> set q'. now < ExecuteAt x"
      "mset ran = filter_mset (\<lambda>x. ExecuteAt x \<le> now) (mset q)" "sorted (map ExecuteAt ran)"
    using run_due_ok [of exec now q, OF assms(1)] by blast
  then show ?thesis by blast
qed

lemma tick_runs_due_events_witness:
  "let at = \<lambda>t. \<lparr>ExecuteAt = t, Payload = ()\<rparr>;
       q = fold change_queue [Add (at 7), Add (at 3), Pop, Add (at 9), Add (at 5)] []
   in \<exists>q' s' ran. run_due (Suc (length q)) 7 (\<lambda>e s. (s + ExecuteAt e, [at 8])) q 0 = Some (q', s', ran)
      \<and> mset ran = filter_mset (\<lambda>x. ExecuteAt x \<le> 7) (mset q) \<and> sorted (map ExecuteAt ran)
      \<and> (\<forall>x \<in> set q'. 7 < ExecuteAt x) \<and> is_heap q'"
  unfolding Let_def by (rule tick_runs_due_events [OF _ refl]) simp

end
