(* ===== verification/Visibility.thy ===== *)
theory Visibility
  imports WorldGrid
begin

text \<open>
  Which players see each other: \<open>gameserver/gameloop/visibility.go\<close> with the radii of
  \<open>registry/visibility.go\<close>. Every player state has the set of players its client has been shown; the
  game loop is the only writer. What is sent is the list of packets with their receiver, in order.
\<close>

definition VisibilityWatchRadius :: int where
  "VisibilityWatchRadius = 3400"

definition VisibilityForgetRadius :: int where
  "VisibilityForgetRadius = VisibilityWatchRadius + 500"

datatype shown = CharInfo int | Relation int | DeleteObject int

type_synonym outbox = "(int \<times> shown) list"

text \<open>\<open>p.KnownPlayers[id]\<close>, the assignment of \<open>true\<close> and the \<open>delete\<close>, on the live state.\<close>

definition knows :: "WorldRegistry \<Rightarrow> int \<Rightarrow> int \<Rightarrow> bool" where
  "knows wr a b \<longleftrightarrow> (case map_of (players wr) a of
     None \<Rightarrow> False | Some s \<Rightarrow> map_of (wpKnownPlayers s) b = Some True)"

definition learn :: "int \<Rightarrow> int \<Rightarrow> WorldRegistry \<Rightarrow> WorldRegistry" where
  "learn a b = modify_player a (\<lambda>s. s\<lparr>wpKnownPlayers := AList.update b True (wpKnownPlayers s)\<rparr>)"

definition forget :: "int \<Rightarrow> int \<Rightarrow> WorldRegistry \<Rightarrow> WorldRegistry" where
  "forget a b = modify_player a (\<lambda>s. s\<lparr>wpKnownPlayers := AList.delete b (wpKnownPlayers s)\<rparr>)"

definition spawn_to :: "int \<Rightarrow> int \<Rightarrow> outbox" where
  "spawn_to viewer spawned = [(viewer, CharInfo spawned), (viewer, Relation spawned)]"

text \<open>Entering range: each side is shown the other unless it was.\<close>

fun enter_range :: "int \<Rightarrow> PlayerWorldState list \<Rightarrow> WorldRegistry \<times> outbox \<Rightarrow> WorldRegistry \<times> outbox" where
  "enter_range charID [] (wr, out) = (wr, out)"
| "enter_range charID (other # others) (wr, out) =
     (if wpCharID other = charID then enter_range charID others (wr, out)
      else let o' = wpCharID other;
               (wr, out) = (if \<not> knows wr charID o' then (learn charID o' wr, out @ spawn_to charID o') else (wr, out));
               (wr, out) = (if \<not> knows wr o' charID then (learn o' charID wr, out @ spawn_to o' charID) else (wr, out))
           in enter_range charID others (wr, out))"

text \<open>Leaving range: \<open>known\<close> is the mover's map as the loop visits it.\<close>

fun leave_range :: "int \<Rightarrow> int list \<Rightarrow> int list \<Rightarrow> WorldRegistry \<times> outbox \<Rightarrow> WorldRegistry \<times> outbox" where
  "leave_range charID keep [] (wr, out) = (wr, out)"
| "leave_range charID keep (i # known) (wr, out) =
     (if i \<in> set keep then leave_range charID keep known (wr, out)
      else let wr = forget charID i wr; out = out @ [(charID, DeleteObject i)];
               (wr, out) = (case GetPlayer wr i of
                   None \<Rightarrow> (wr, out)
                 | Some _ \<Rightarrow> (forget i charID wr, out @ [(i, DeleteObject charID)]))
           in leave_range charID keep known (wr, out))"

definition reconcilePlayerVisibility :: "int \<Rightarrow> WorldRegistry \<Rightarrow> WorldRegistry \<times> outbox" where
  "reconcilePlayerVisibility charID wr =
     (case GetPlayer wr charID of
        None \<Rightarrow> (wr, [])
      | Some mover \<Rightarrow>
          let keep = filter (\<lambda>i. i \<noteq> charID) (map wpCharID (GetPlayersInRange wr (wpPosition mover) VisibilityForgetRadius));
              (wr, out) = enter_range charID (GetPlayersInRange wr (wpPosition mover) VisibilityWatchRadius) (wr, []);
              known = (case GetPlayer wr charID of None \<Rightarrow> [] | Some m \<Rightarrow> map fst (wpKnownPlayers m))
          in leave_range charID keep known (wr, out))"

fun despawn_loop :: "int \<Rightarrow> PlayerWorldState list \<Rightarrow> WorldRegistry \<times> outbox \<Rightarrow> WorldRegistry \<times> outbox" where
  "despawn_loop charID [] (wr, out) = (wr, out)"
| "despawn_loop charID (p # ps) (wr, out) =
     (if wpCharID p = charID then despawn_loop charID ps (wr, out)
      else if knows wr (wpCharID p) charID
      then despawn_loop charID ps (forget (wpCharID p) charID wr, out @ [(wpCharID p, DeleteObject charID)])
      else despawn_loop charID ps (wr, out))"

definition despawnPlayerFromAll :: "int \<Rightarrow> WorldRegistry \<Rightarrow> WorldRegistry \<times> outbox" where
  "despawnPlayerFromAll charID wr = despawn_loop charID (SnapshotPlayers wr) (wr, [])"

section \<open>What the two loops change\<close>

definition present :: "WorldRegistry \<Rightarrow> int \<Rightarrow> bool" where
  "present wr a \<longleftrightarrow> map_of (players wr) a \<noteq> None"

definition same_places :: "WorldRegistry \<Rightarrow> WorldRegistry \<Rightarrow> bool" where
  "same_places wr wr' \<longleftrightarrow> (\<forall>a. map_option (\<lambda>s. (wpPosition s, wpCharID s)) (map_of (players wr') a)
     = map_option (\<lambda>s. (wpPosition s, wpCharID s)) (map_of (players wr) a))"

lemma same_places_refl [simp]: "same_places wr wr"
  by (simp add: same_places_def)

lemma same_places_trans: "same_places a b \<Longrightarrow> same_places b c \<Longrightarrow> same_places a c"
  by (simp add: same_places_def)

lemma same_places_present: "same_places wr wr' \<Longrightarrow> present wr' a \<longleftrightarrow> present wr a"
proof -
  assume "same_places wr wr'"
  then have "map_option (\<lambda>s. (wpPosition s, wpCharID s)) (map_of (players wr') a)
     = map_option (\<lambda>s. (wpPosition s, wpCharID s)) (map_of (players wr) a)"
    unfolding same_places_def by blast
  then show ?thesis
    unfolding present_def by (cases "map_of (players wr) a"; cases "map_of (players wr') a") auto
qed

lemma learn_forget_places [simp]: "same_places wr (learn a b wr)" "same_places wr (forget a b wr)"
  by (auto simp: same_places_def learn_def forget_def modify_player_def split: option.split)

lemma present_learn_forget [simp]: "present (learn a b wr) c = present wr c" "present (forget a b wr) c = present wr c"
  by (simp_all add: same_places_present [OF learn_forget_places(1)] same_places_present [OF learn_forget_places(2)])

lemma knows_learn [simp]: "knows (learn a b wr) a' b' \<longleftrightarrow> (a' = a \<and> b' = b \<and> present wr a) \<or> knows wr a' b'"
  by (auto simp: knows_def learn_def modify_player_def present_def split: option.split)

lemma knows_forget [simp]: "knows (forget a b wr) a' b' \<longleftrightarrow> \<not> (a' = a \<and> b' = b) \<and> knows wr a' b'"
  by (auto simp: knows_def forget_def modify_player_def split: option.split)

lemma knows_present: "knows wr a b \<Longrightarrow> present wr a"
  by (auto simp: knows_def present_def split: option.splits)

lemma enter_range_knows:
  assumes "enter_range c others (wr, out) = (wr', out')" and "present wr c" and "\<forall>p \<in> set others. present wr (wpCharID p)"
  shows "same_places wr wr' \<and> (\<forall>a b. knows wr' a b \<longleftrightarrow> knows wr a b
     \<or> (a = c \<and> b \<noteq> c \<and> b \<in> wpCharID ` set others) \<or> (b = c \<and> a \<noteq> c \<and> a \<in> wpCharID ` set others))"
  using assms
proof (induction others arbitrary: wr out)
  case (Cons p others)
  show ?case
  proof (cases "wpCharID p = c")
    case True
    then show ?thesis using Cons by fastforce
  next
    case False
    let ?o = "wpCharID p"
    define wr1 where "wr1 = (if \<not> knows wr c ?o then learn c ?o wr else wr)"
    define wr2 where "wr2 = (if \<not> knows wr1 ?o c then learn ?o c wr1 else wr1)"
    have "same_places wr wr1" "same_places wr1 wr2" by (simp_all add: wr1_def wr2_def)
    then have places: "same_places wr wr2" by (rule same_places_trans)
    have k: "knows wr2 a b \<longleftrightarrow> knows wr a b \<or> (a = c \<and> b = ?o) \<or> (a = ?o \<and> b = c)" for a b
    proof -
      have "knows wr1 a b \<longleftrightarrow> knows wr a b \<or> (a = c \<and> b = ?o)" "present wr1 ?o" for a b
        using Cons.prems(2,3) unfolding wr1_def by auto
      then show ?thesis unfolding wr2_def by auto
    qed
    obtain out2 where run: "enter_range c others (wr2, out2) = (wr', out')"
      using Cons.prems(1) False by (auto simp: wr1_def wr2_def Let_def split: if_splits)
    have here: "present wr2 c" "\<forall>p \<in> set others. present wr2 (wpCharID p)"
      using Cons.prems(2,3) same_places_present [OF places] by auto
    note ih = Cons.IH [OF run here]
    show ?thesis
    proof (intro conjI allI)
      show "same_places wr wr'" by (rule same_places_trans [OF places conjunct1 [OF ih]])
      show "knows wr' a b \<longleftrightarrow> knows wr a b
         \<or> (a = c \<and> b \<noteq> c \<and> b \<in> wpCharID ` set (p # others)) \<or> (b = c \<and> a \<noteq> c \<and> a \<in> wpCharID ` set (p # others))" for a b
        unfolding conjunct2 [OF ih, rule_format, of a b] k using False by auto
    qed
  qed
qed simp

lemma leave_range_knows:
  assumes "leave_range c keep known (wr, out) = (wr', out')"
  shows "same_places wr wr' \<and> (\<forall>a b. knows wr' a b \<longleftrightarrow> knows wr a b
     \<and> \<not> (a = c \<and> b \<in> set known - set keep) \<and> \<not> (b = c \<and> a \<in> set known - set keep \<and> present wr a))"
  using assms
proof (induction known arbitrary: wr out)
  case (Cons i known)
  show ?case
  proof (cases "i \<in> set keep")
    case True
    then show ?thesis using Cons by fastforce
  next
    case False
    define wr1 where "wr1 = forget c i wr"
    define wr2 where "wr2 = (case GetPlayer wr1 i of None \<Rightarrow> wr1 | Some _ \<Rightarrow> forget i c wr1)"
    have "same_places wr wr1" "same_places wr1 wr2" by (simp_all add: wr1_def wr2_def split: option.split)
    then have places: "same_places wr wr2" by (rule same_places_trans)
    have k: "knows wr2 a b \<longleftrightarrow> knows wr a b \<and> \<not> (a = c \<and> b = i) \<and> \<not> (a = i \<and> b = c)" for a b
      using knows_present [of wr1 i c]
      by (auto simp: wr2_def wr1_def GetPlayer_def present_def split: option.splits)
    obtain out2 where run: "leave_range c keep known (wr2, out2) = (wr', out')"
      using Cons.prems False by (auto simp: wr1_def wr2_def Let_def split: option.splits)
    note ih = Cons.IH [OF run]
    show ?thesis
    proof (intro conjI allI)
      show "same_places wr wr'" by (rule same_places_trans [OF places conjunct1 [OF ih]])
      show "knows wr' a b \<longleftrightarrow> knows wr a b
         \<and> \<not> (a = c \<and> b \<in> set (i # known) - set keep) \<and> \<not> (b = c \<and> a \<in> set (i # known) - set keep \<and> present wr a)" for a b
        unfolding conjunct2 [OF ih, rule_format, of a b] k same_places_present [OF places]
        using False knows_present [of wr a b] by auto
    qed
  qed
qed simp

lemma grid_ok_learn_forget [simp]: "grid_ok wr \<Longrightarrow> grid_ok (learn a b wr)" "grid_ok wr \<Longrightarrow> grid_ok (forget a b wr)"
  by (simp_all add: learn_def forget_def grid_ok_modify)

lemma map_ok_learn_forget [simp]:
  "map_ok (players wr) \<Longrightarrow> map_ok (players (learn a b wr))"
  "map_ok (players wr) \<Longrightarrow> map_ok (players (forget a b wr))"
  by (simp_all add: learn_def forget_def map_ok_players)

lemma world_ok_learn_forget [simp]: "world_ok wr \<Longrightarrow> world_ok (learn a b wr)" "world_ok wr \<Longrightarrow> world_ok (forget a b wr)"
  by (simp_all add: world_ok_def)

lemma world_ok_enter: "world_ok (fst st) \<Longrightarrow> world_ok (fst (enter_range c others st))"
proof (induction c others st rule: enter_range.induct)
  case (2 c p others wr out)
  then show ?case by (auto simp: Let_def)
qed simp

lemma world_ok_leave: "world_ok (fst st) \<Longrightarrow> world_ok (fst (leave_range c keep known st))"
proof (induction c keep known st rule: leave_range.induct)
  case (2 c keep i known wr out)
  then show ?case by (auto simp: Let_def split: option.split)
qed simp

lemma world_ok_despawn: "world_ok (fst st) \<Longrightarrow> world_ok (fst (despawn_loop c ps st))"
proof (induction c ps st rule: despawn_loop.induct)
  case (2 c p ps wr out)
  then show ?case by auto
qed simp

lemma world_ok_reconcile:
  assumes "world_ok wr"
  shows "world_ok (fst (reconcilePlayerVisibility c wr))"
proof (cases "GetPlayer wr c")
  case (Some m)
  obtain wr1 out1 where e: "enter_range c (GetPlayersInRange wr (wpPosition m) VisibilityWatchRadius) (wr, []) = (wr1, out1)"
    by fastforce
  then have "world_ok wr1" using world_ok_enter [of "(wr, [])"] assms by (metis fst_conv)
  then show ?thesis by (simp add: reconcilePlayerVisibility_def Some e Let_def world_ok_leave)
qed (use assms in \<open>simp add: reconcilePlayerVisibility_def\<close>)

lemma despawn_knows:
  "knows (fst (despawn_loop c ps st)) a b \<longleftrightarrow> knows (fst st) a b \<and> \<not> (b = c \<and> a \<noteq> c \<and> a \<in> wpCharID ` set ps)"
proof (induction c ps st rule: despawn_loop.induct)
  case (2 c p ps wr out)
  then show ?case by auto
qed simp


section \<open>What the clients show\<close>

fun show_packet :: "int \<times> shown \<Rightarrow> (int \<Rightarrow> int set) \<Rightarrow> int \<Rightarrow> int set" where
  "show_packet (v, CharInfo x) screen = screen(v := insert x (screen v))"
| "show_packet (v, Relation x) screen = screen"
| "show_packet (v, DeleteObject x) screen = screen(v := screen v - {x})"

definition screens :: "WorldRegistry \<Rightarrow> int \<Rightarrow> int set" where
  "screens wr v = {x. knows wr v x}"

lemma screens_learn: "present wr a \<Longrightarrow> screens (learn a b wr) = (screens wr)(a := insert b (screens wr a))"
  by (auto simp: screens_def fun_eq_iff)

lemma screens_forget: "screens (forget a b wr) = (screens wr)(a := screens wr a - {b})"
  by (auto simp: screens_def fun_eq_iff)

lemma enter_screens:
  assumes "present wr c" and "\<forall>p \<in> set others. present wr (wpCharID p)"
    and "fold show_packet out s0 = screens wr"
    and "enter_range c others (wr, out) = (wr', out')"
  shows "fold show_packet out' s0 = screens wr'"
  using assms
proof (induction others arbitrary: wr out)
  case (Cons p others)
  show ?case
  proof (cases "wpCharID p = c")
    case True
    then show ?thesis using Cons by simp
  next
    case False
    let ?o = "wpCharID p"
    define st1 where "st1 = (if \<not> knows wr c ?o then (learn c ?o wr, out @ spawn_to c ?o) else (wr, out))"
    define st2 where "st2 = (if \<not> knows (fst st1) ?o c then (learn ?o c (fst st1), snd st1 @ spawn_to ?o c) else st1)"
    have pr: "present wr a \<Longrightarrow> present (fst st2) a" for a by (simp add: st1_def st2_def)
    have "fold show_packet (snd st1) s0 = screens (fst st1)" "present (fst st1) ?o"
      using Cons.prems(1-3) by (auto simp: st1_def spawn_to_def screens_learn)
    then have "fold show_packet (snd st2) s0 = screens (fst st2)"
      by (auto simp: st2_def spawn_to_def screens_learn)
    moreover have "enter_range c others (fst st2, snd st2) = (wr', out')"
      using Cons.prems(4) False by (simp add: st1_def st2_def Let_def split: if_splits)
    moreover have "present (fst st2) c" "\<forall>p \<in> set others. present (fst st2) (wpCharID p)"
      using pr Cons.prems(1,2) by auto
    ultimately show ?thesis by (intro Cons.IH)
  qed
qed simp

lemma leave_screens:
  assumes "fold show_packet out s0 = screens wr" and "leave_range c keep known (wr, out) = (wr', out')"
  shows "fold show_packet out' s0 = screens wr'"
  using assms
proof (induction known arbitrary: wr out)
  case (Cons i known)
  show ?case
  proof (cases "i \<in> set keep")
    case True
    then show ?thesis using Cons by simp
  next
    case False
    define st where "st = (case GetPlayer (forget c i wr) i of
        None \<Rightarrow> (forget c i wr, out @ [(c, DeleteObject i)])
      | Some _ \<Rightarrow> (forget i c (forget c i wr), out @ [(c, DeleteObject i), (i, DeleteObject c)]))"
    have "fold show_packet (snd st) s0 = screens (fst st)"
      using Cons.prems(1) by (auto simp: st_def screens_forget split: option.split)
    moreover have "leave_range c keep known (fst st, snd st) = (wr', out')"
      using Cons.prems(2) False by (auto simp: st_def Let_def split: option.splits)
    ultimately show ?thesis by (rule Cons.IH)
  qed
qed simp

lemma reconcile_cases:
  assumes "world_ok wr" and "GetPlayer wr c = Some m" and "reconcilePlayerVisibility c wr = (wr', out)"
  defines "W \<equiv> wpCharID ` set (GetPlayersInRange wr (wpPosition m) VisibilityWatchRadius)"
    and "F \<equiv> wpCharID ` set (GetPlayersInRange wr (wpPosition m) VisibilityForgetRadius)"
  shows "same_places wr wr'" "fold show_packet out (screens wr) = screens wr'"
    "knows wr' c b \<longleftrightarrow> b \<noteq> c \<and> b \<in> F \<and> (knows wr c b \<or> b \<in> W)"
    "a \<noteq> c \<Longrightarrow> b \<noteq> c \<Longrightarrow> knows wr' a b \<longleftrightarrow> knows wr a b"
    "a \<noteq> c \<Longrightarrow> knows wr' a c \<Longrightarrow> (knows wr a c \<or> a \<in> W) \<and> (a \<in> F \<or> \<not> knows wr c a)"
    "a \<noteq> c \<Longrightarrow> a \<in> F \<Longrightarrow> knows wr a c \<or> a \<in> W \<Longrightarrow> knows wr' a c"
proof -
  have grid: "grid_ok wr" using assms(1) by (simp add: world_ok_def)
  let ?near = "GetPlayersInRange wr (wpPosition m) VisibilityWatchRadius"
  let ?keep = "filter (\<lambda>i. i \<noteq> c) (map wpCharID (GetPlayersInRange wr (wpPosition m) VisibilityForgetRadius))"
  obtain wr1 out1 where e: "enter_range c ?near (wr, []) = (wr1, out1)" by fastforce
  have pc: "present wr c" using assms(2) by (simp add: GetPlayer_def present_def)
  have pn: "\<forall>p \<in> set ?near. present wr (wpCharID p)"
    using players_in_range(1) [OF grid, of VisibilityWatchRadius] by (fastforce simp: present_def VisibilityWatchRadius_def)
  note ent = enter_range_knows [OF e pc pn]
  define known where "known = (case GetPlayer wr1 c of None \<Rightarrow> [] | Some m \<Rightarrow> map fst (wpKnownPlayers m))"
  have l: "leave_range c ?keep known (wr1, out1) = (wr', out)"
    using assms(3) by (simp add: reconcilePlayerVisibility_def assms(2) e known_def Let_def)
  note lv = leave_range_knows [OF l]
  have known: "b \<in> set known" if "knows wr1 c b" for b
    using that gm.keys_lookup [of "wpKnownPlayers s" for s]
    by (auto simp: known_def knows_def GetPlayer_def split: option.splits)
  have k1: "knows wr1 a b \<longleftrightarrow> knows wr a b \<or> (a = c \<and> b \<noteq> c \<and> b \<in> W) \<or> (b = c \<and> a \<noteq> c \<and> a \<in> W)" for a b
    using ent unfolding W_def by blast
  have k2: "knows wr' a b \<longleftrightarrow> knows wr1 a b \<and> \<not> (a = c \<and> b \<in> set known - set ?keep)
      \<and> \<not> (b = c \<and> a \<in> set known - set ?keep \<and> present wr1 a)" for a b
    using lv by blast
  have keep: "b \<in> set ?keep \<longleftrightarrow> b \<in> F \<and> b \<noteq> c" for b by (auto simp: F_def)
  have "fold show_packet out1 (screens wr) = screens wr1"
    by (rule enter_screens [OF pc pn _ e]) simp
  then show "fold show_packet out (screens wr) = screens wr'" by (rule leave_screens [OF _ l])
  show "same_places wr wr'" by (rule same_places_trans [OF conjunct1 [OF ent] conjunct1 [OF lv]])
  show "knows wr' c b \<longleftrightarrow> b \<noteq> c \<and> b \<in> F \<and> (knows wr c b \<or> b \<in> W)"
    using k1 [of c b] k2 [of c b] known [of b] keep [of b] by auto
  show "knows wr' a b \<longleftrightarrow> knows wr a b" if "a \<noteq> c" "b \<noteq> c"
    using that k1 [of a b] k2 [of a b] by simp
  show "(knows wr a c \<or> a \<in> W) \<and> (a \<in> F \<or> \<not> knows wr c a)" if "a \<noteq> c" "knows wr' a c"
    using that k1 [of a c] k1 [of c a] k2 [of a c] known [of a] keep [of a] knows_present [of wr1 a c] by auto
  show "knows wr' a c" if "a \<noteq> c" "a \<in> F" "knows wr a c \<or> a \<in> W"
    using that k1 [of a c] k2 [of a c] keep [of a] by auto
qed


section \<open>Properties\<close>

datatype seen_op = InWorld world_op | Reconcile int | DespawnAll int

fun seen_change :: "seen_op \<Rightarrow> WorldRegistry \<Rightarrow> WorldRegistry" where
  "seen_change (InWorld op) wr = world_change op wr"
| "seen_change (Reconcile charID) wr = fst (reconcilePlayerVisibility charID wr)"
| "seen_change (DespawnAll charID) wr = fst (despawnPlayerFromAll charID wr)"

definition seen_after :: "seen_op list \<Rightarrow> WorldRegistry" where
  "seen_after ops = fold seen_change ops NewWorldRegistry"

lemma world_ok_seen: "world_ok (seen_after ops)"
proof -
  have "world_ok (seen_change op wr)" if "world_ok wr" for op wr
    using that world_ok_despawn [of "(wr, [])"]
    by (cases op) (simp_all add: world_ok_change world_ok_reconcile despawnPlayerFromAll_def)
  then have "world_ok (fold seen_change ops wr)" if "world_ok wr" for wr
    using that by (induction ops arbitrary: wr) simp_all
  moreover have "world_ok NewWorldRegistry" using world_ok_after [of "[]"] by (simp add: world_after_def)
  ultimately show ?thesis by (simp add: seen_after_def)
qed

definition mutual :: "WorldRegistry \<Rightarrow> bool" where
  "mutual wr \<longleftrightarrow> (\<forall>a b. present wr a \<longrightarrow> present wr b \<longrightarrow> knows wr a b \<longleftrightarrow> knows wr b a)"

text \<open>
  C6: Who sees whom after a move. In every world reached by players entering, moving, leaving and being
  shown to each other, once a player's visibility has been reconciled: the player and everybody
  within the watch radius see each other; the player sees nobody beyond the forget radius and nobody
  who has left; what two other players see of each other is unchanged; if players saw each other
  mutually before, they do so after; and the packets sent turn what every client displays into what
  the server holds it to display.
\<close>

theorem visibility_after_reconcile:
  assumes "wr = seen_after ops" and "GetPlayer wr charID = Some mover"
    and "reconcilePlayerVisibility charID wr = (wr', out)"
  shows "(\<forall>i s. GetPlayer wr i = Some s \<longrightarrow> i \<noteq> charID
        \<longrightarrow> dist2 (wpPosition mover) (wpPosition s) \<le> VisibilityWatchRadius * VisibilityWatchRadius
        \<longrightarrow> knows wr' charID i \<and> knows wr' i charID)
    \<and> (\<forall>i. knows wr' charID i \<longrightarrow> i \<noteq> charID \<and> (\<exists>s. GetPlayer wr i = Some s
        \<and> dist2 (wpPosition mover) (wpPosition s) < (VisibilityForgetRadius + 1) * (VisibilityForgetRadius + 1)))
    \<and> (\<forall>a b. a \<noteq> charID \<longrightarrow> b \<noteq> charID \<longrightarrow> knows wr' a b \<longleftrightarrow> knows wr a b)
    \<and> (mutual wr \<longrightarrow> mutual wr')
    \<and> fold show_packet out (screens wr) = screens wr'"
proof -
  have ok: "world_ok wr" by (simp add: assms(1) world_ok_seen)
  then have grid: "grid_ok wr" by (simp add: world_ok_def)
  note rc = reconcile_cases [OF ok assms(2,3)]
  let ?W = "wpCharID ` set (GetPlayersInRange wr (wpPosition mover) VisibilityWatchRadius)"
  let ?F = "wpCharID ` set (GetPlayersInRange wr (wpPosition mover) VisibilityForgetRadius)"
  have within: "i \<in> ?W \<and> i \<in> ?F" if "GetPlayer wr i = Some s"
    "dist2 (wpPosition mover) (wpPosition s) \<le> VisibilityWatchRadius * VisibilityWatchRadius" for i s
    using that players_in_range(2) [OF grid, of VisibilityWatchRadius i s] players_in_range(2) [OF grid, of VisibilityForgetRadius i s]
      grid_okD(2) [OF grid, of i s]
    by (force simp: GetPlayer_def VisibilityWatchRadius_def VisibilityForgetRadius_def)
  have far: "\<exists>s. GetPlayer wr i = Some s
      \<and> dist2 (wpPosition mover) (wpPosition s) < (VisibilityForgetRadius + 1) * (VisibilityForgetRadius + 1)" if "i \<in> ?F" for i
    using that players_in_range(1) [OF grid, of VisibilityForgetRadius]
    by (fastforce simp: GetPlayer_def VisibilityWatchRadius_def VisibilityForgetRadius_def)
  have WF: "?W \<subseteq> ?F"
  proof
    fix i assume "i \<in> ?W"
    then obtain s where s: "map_of (players wr) i = Some s" "dist2 (wpPosition mover) (wpPosition s) < 3401 * 3401"
      using players_in_range(1) [OF grid, of VisibilityWatchRadius] by (fastforce simp: VisibilityWatchRadius_def)
    then have "s \<in> set (GetPlayersInRange wr (wpPosition mover) VisibilityForgetRadius)"
      by (intro players_in_range(2) [OF grid]) (auto simp: VisibilityWatchRadius_def VisibilityForgetRadius_def)
    then show "i \<in> ?F" using grid_okD(2) [OF grid s(1)] by force
  qed
  have "mutual wr'" if m: "mutual wr"
    unfolding mutual_def
  proof (intro allI impI)
    fix a b assume p: "present wr' a" "present wr' b"
    then have p: "present wr a" "present wr b" using same_places_present [OF rc(1)] by simp_all
    have one: "knows wr' charID x \<longleftrightarrow> knows wr' x charID" if "present wr x" "x \<noteq> charID" for x
    proof -
      have sym: "knows wr charID x \<longleftrightarrow> knows wr x charID"
        using m that assms(2) unfolding mutual_def by (auto simp: present_def GetPlayer_def)
      show ?thesis using rc(3) [of x] rc(5) [of x] rc(6) [of x] that sym WF by auto
    qed
    show "knows wr' a b \<longleftrightarrow> knows wr' b a"
      using one [of a] one [of b] rc(4) [of a b] rc(4) [of b a] m p unfolding mutual_def by blast
  qed
  moreover have "\<forall>i s. GetPlayer wr i = Some s \<longrightarrow> i \<noteq> charID
        \<longrightarrow> dist2 (wpPosition mover) (wpPosition s) \<le> VisibilityWatchRadius * VisibilityWatchRadius
        \<longrightarrow> knows wr' charID i \<and> knows wr' i charID"
    using within rc(3,6) by blast
  moreover have "\<forall>i. knows wr' charID i \<longrightarrow> i \<noteq> charID \<and> (\<exists>s. GetPlayer wr i = Some s
        \<and> dist2 (wpPosition mover) (wpPosition s) < (VisibilityForgetRadius + 1) * (VisibilityForgetRadius + 1))"
    using far rc(3) by simp
  moreover have "\<forall>a b. a \<noteq> charID \<longrightarrow> b \<noteq> charID \<longrightarrow> knows wr' a b \<longleftrightarrow> knows wr a b"
    using rc(4) by simp
  ultimately show ?thesis using rc(2) by (intro conjI) simp_all
qed

lemma visibility_after_reconcile_witness:
  "let at = \<lambda>i x. Enter 0 \<lparr>ID = i, AccountName = ''acc'', CharName = ''name'', CharPosition = \<lparr>X = x, Y = 0, Z = 0\<rparr>\<rparr>;
       wr = seen_after [InWorld (at 1 0), InWorld (at 2 3000)]
   in knows (fst (reconcilePlayerVisibility 1 wr)) 1 2"
proof -
  let ?at = "\<lambda>i x. Enter 0 \<lparr>ID = i, AccountName = ''acc'', CharName = ''name'', CharPosition = \<lparr>X = x, Y = 0, Z = 0\<rparr>\<rparr>"
  let ?wr = "seen_after [InWorld (?at 1 0), InWorld (?at 2 3000)]"
  have p: "\<exists>m. GetPlayer ?wr 1 = Some m \<and> wpPosition m = \<lparr>X = 0, Y = 0, Z = 0\<rparr>"
    "\<exists>m. GetPlayer ?wr 2 = Some m \<and> wpPosition m = \<lparr>X = 3000, Y = 0, Z = 0\<rparr>"
    by (simp_all add: seen_after_def GetPlayer_def AddPlayer_def Let_def NewWorldRegistry_def)
  obtain wr' out where r: "reconcilePlayerVisibility 1 ?wr = (wr', out)" by fastforce
  from p obtain m n where "GetPlayer ?wr 1 = Some m" "wpPosition m = \<lparr>X = 0, Y = 0, Z = 0\<rparr>"
    "GetPlayer ?wr 2 = Some n" "wpPosition n = \<lparr>X = 3000, Y = 0, Z = 0\<rparr>" by blast
  with visibility_after_reconcile [OF refl _ r, of m] have "knows wr' 1 2"
    by (force simp: dist2_def VisibilityWatchRadius_def)
  then show ?thesis using r by (simp add: Let_def)
qed

end
