(* ===== verification/GameRegions.thy ===== *)
theory GameRegions
  imports GoMap "HOL-Library.Signed_Division"
begin

text \<open>
  Which cells of the map are alive, \<open>gameserver/gameloop/regions.go\<close>. Each player holds the 3 by 3 block
  of cells around its own; a cell counts its holders and may be reclaimed some time after the last
  one has left. The keys of the map are the strings \<open>"cx,cy"\<close> of the code.
\<close>

type_synonym cell = "int \<times> int"

record ActiveRegion =
  Key :: string
  PlayerCount :: int
  LastPlayerTime :: int
  Active :: bool

record region_state =
  activeRegions :: "(string, ActiveRegion) go_map"
  playerRegionCenter :: "(int, cell) go_map"

definition regionSize :: int where
  "regionSize = 1000"

definition regionDeactivateTimeout :: int where
  "regionDeactivateTimeout = 30 * 1000000000"

definition cellOf :: "int \<Rightarrow> int \<Rightarrow> cell" where
  "cellOf x y = (x sdiv regionSize, y sdiv regionSize)"

definition cellKey :: "cell \<Rightarrow> string" where
  "cellKey c = format_int (fst c) @ '','' @ format_int (snd c)"

definition surroundingKeys :: "cell \<Rightarrow> string list" where
  "surroundingKeys center =
     concat (map (\<lambda>dx. map (\<lambda>dy. cellKey (fst center + dx, snd center + dy)) [-1..1]) [-1..1])"

fun activate_keys :: "int \<Rightarrow> string list \<Rightarrow> (string, ActiveRegion) go_map \<Rightarrow> (string, ActiveRegion) go_map" where
  "activate_keys now [] m = m"
| "activate_keys now (key # keys) m =
     (let r = (case map_of m key of
          None \<Rightarrow> \<lparr>Key = key, PlayerCount = 0, LastPlayerTime = 0, Active = False\<rparr> | Some r \<Rightarrow> r)
      in activate_keys now keys
           (AList.update key (r\<lparr>PlayerCount := PlayerCount r + 1, LastPlayerTime := now, Active := True\<rparr>) m))"

definition activateRegionBlock :: "int \<Rightarrow> cell \<Rightarrow> region_state \<Rightarrow> region_state" where
  "activateRegionBlock now center st =
     st\<lparr>activeRegions := activate_keys now (surroundingKeys center) (activeRegions st)\<rparr>"

fun deactivate_keys :: "int \<Rightarrow> string list \<Rightarrow> (string, ActiveRegion) go_map \<Rightarrow> (string, ActiveRegion) go_map" where
  "deactivate_keys now [] m = m"
| "deactivate_keys now (key # keys) m =
     (case map_of m key of
        None \<Rightarrow> deactivate_keys now keys m
      | Some r \<Rightarrow>
          let count = PlayerCount r - 1; count = (if count < 0 then 0 else count)
          in deactivate_keys now keys (AList.update key (r\<lparr>PlayerCount := count, LastPlayerTime := now\<rparr>) m))"

definition deactivateRegionBlock :: "int \<Rightarrow> cell \<Rightarrow> region_state \<Rightarrow> region_state" where
  "deactivateRegionBlock now center st =
     st\<lparr>activeRegions := deactivate_keys now (surroundingKeys center) (activeRegions st)\<rparr>"

definition updatePlayerRegions :: "int \<Rightarrow> int \<Rightarrow> int \<Rightarrow> int \<Rightarrow> region_state \<Rightarrow> region_state" where
  "updatePlayerRegions now charID x y st =
     (let newCenter = cellOf x y; old = map_of (playerRegionCenter st) charID in
      if old = Some newCenter then st
      else let st = (case old of None \<Rightarrow> st | Some oldCenter \<Rightarrow> deactivateRegionBlock now oldCenter st);
               st = st\<lparr>playerRegionCenter := AList.update charID newCenter (playerRegionCenter st)\<rparr>
           in activateRegionBlock now newCenter st)"

definition leavePlayerRegions :: "int \<Rightarrow> int \<Rightarrow> region_state \<Rightarrow> region_state" where
  "leavePlayerRegions now charID st =
     (case map_of (playerRegionCenter st) charID of
        None \<Rightarrow> st
      | Some center \<Rightarrow>
          let st = deactivateRegionBlock now center st
          in st\<lparr>playerRegionCenter := AList.delete charID (playerRegionCenter st)\<rparr>)"

definition deactivateStaleRegions :: "int \<Rightarrow> region_state \<Rightarrow> region_state" where
  "deactivateStaleRegions now st =
     st\<lparr>activeRegions := fst (delete_where
        (\<lambda>_ r. PlayerCount r \<le> 0 \<and> now - LastPlayerTime r > regionDeactivateTimeout) (activeRegions st))\<rparr>"

section \<open>The nine keys of a block are nine keys\<close>

definition digits_value :: "string \<Rightarrow> nat" where
  "digits_value s = foldl (\<lambda>a c. 10 * a + (of_char c - 48)) 0 s"

lemma digits_value_itoa [simp]: "digits_value (itoa n) = n"
  by (induction n rule: itoa.induct) (subst itoa.simps, simp add: digits_value_def)

lemma itoa_chars: "c \<in> set (itoa n) \<Longrightarrow> 48 \<le> (of_char c :: nat)"
  by (induction n rule: itoa.induct) (subst (asm) (2) itoa.simps, auto split: if_splits)

lemma itoa_injective: "itoa n = itoa m \<longleftrightarrow> n = m"
  by (metis digits_value_itoa)

lemma itoa_no_sign: "CHR ''-'' \<notin> set (itoa n)" "CHR '','' \<notin> set (itoa n)"
  using itoa_chars by force+

lemma format_int_injective: "format_int i = format_int j \<longleftrightarrow> i = j"
proof -
  have "''-'' @ itoa n \<noteq> itoa m" for n m
    using itoa_no_sign(1) [of m] by (metis append_Cons list.set_intros(1))
  from this this [symmetric] show ?thesis
    by (auto simp: format_int_def itoa_injective)
qed

lemma format_int_no_comma: "CHR '','' \<notin> set (format_int i)"
  by (simp add: format_int_def itoa_no_sign)

lemma append_separator:
  "x \<notin> set as \<Longrightarrow> x \<notin> set bs \<Longrightarrow> as @ x # cs = bs @ x # ds \<longleftrightarrow> as = bs \<and> cs = ds"
  by (induction as arbitrary: bs) (case_tac bs; auto)+

lemma cellKey_injective [simp]: "cellKey c = cellKey d \<longleftrightarrow> c = d"
  by (auto simp: cellKey_def append_separator format_int_no_comma format_int_injective prod_eq_iff)

lemma surroundingKeys_distinct [simp]: "distinct (surroundingKeys c)"
  by (simp add: surroundingKeys_def upto.simps prod_eq_iff)

lemma set_surroundingKeys:
  "k \<in> set (surroundingKeys c) \<longleftrightarrow> (\<exists>dx dy. \<bar>dx\<bar> \<le> 1 \<and> \<bar>dy\<bar> \<le> 1 \<and> k = cellKey (fst c + dx, snd c + dy))"
  by (force simp: surroundingKeys_def)

section \<open>Reference counts\<close>

definition count_at :: "region_state \<Rightarrow> string \<Rightarrow> int" where
  "count_at st k = (case map_of (activeRegions st) k of None \<Rightarrow> 0 | Some r \<Rightarrow> PlayerCount r)"

definition holders :: "region_state \<Rightarrow> string \<Rightarrow> int set" where
  "holders st k = {p. \<exists>c. map_of (playerRegionCenter st) p = Some c \<and> k \<in> set (surroundingKeys c)}"

definition regions_ok :: "region_state \<Rightarrow> bool" where
  "regions_ok st \<longleftrightarrow> map_ok (activeRegions st)
     \<and> (\<forall>k. count_at st k = int (card (holders st k)))
     \<and> (\<forall>k r. map_of (activeRegions st) k = Some r \<longrightarrow> Active r)"

lemma in_holders:
  "p \<in> holders st k \<longleftrightarrow> (case map_of (playerRegionCenter st) p of
     None \<Rightarrow> False | Some c \<Rightarrow> k \<in> set (surroundingKeys c))"
  by (cases "map_of (playerRegionCenter st) p") (auto simp: holders_def)

lemma finite_holders [simp]: "finite (holders st k)"
  by (rule finite_subset [OF _ finite_dom_map_of [of "playerRegionCenter st"]])
    (auto simp: holders_def)

lemma activate_keys_lookup:
  "distinct keys \<Longrightarrow> map_of (activate_keys now keys m) k
     = (if k \<in> set keys
        then Some (case map_of m k of
            None \<Rightarrow> \<lparr>Key = k, PlayerCount = 1, LastPlayerTime = now, Active = True\<rparr>
          | Some r \<Rightarrow> r\<lparr>PlayerCount := PlayerCount r + 1, LastPlayerTime := now, Active := True\<rparr>)
        else map_of m k)"
  by (induction keys arbitrary: m) (auto simp: Let_def split: option.splits)

lemma deactivate_keys_lookup:
  "distinct keys \<Longrightarrow> map_of (deactivate_keys now keys m) k
     = (if k \<in> set keys
        then map_option (\<lambda>r. r\<lparr>PlayerCount := max 0 (PlayerCount r - 1), LastPlayerTime := now\<rparr>) (map_of m k)
        else map_of m k)"
  by (induction keys arbitrary: m) (auto simp: Let_def max_def split: option.splits)

lemma activate_keys_ok: "map_ok m \<Longrightarrow> map_ok (activate_keys now keys m)"
  by (induction keys arbitrary: m) (auto simp: Let_def)

lemma deactivate_keys_ok: "map_ok m \<Longrightarrow> map_ok (deactivate_keys now keys m)"
  by (induction keys arbitrary: m) (auto simp: Let_def split: option.splits)

lemma count_at_activate:
  "count_at (activateRegionBlock now c st) k
     = (if k \<in> set (surroundingKeys c) then count_at st k + 1 else count_at st k)"
  by (simp add: count_at_def activateRegionBlock_def activate_keys_lookup split: option.split)

lemma count_at_deactivate:
  "0 < count_at st k \<Longrightarrow> k \<in> set (surroundingKeys c)
     \<Longrightarrow> count_at (deactivateRegionBlock now c st) k = count_at st k - 1"
  "k \<notin> set (surroundingKeys c) \<Longrightarrow> count_at (deactivateRegionBlock now c st) k = count_at st k"
  by (auto simp: count_at_def deactivateRegionBlock_def deactivate_keys_lookup split: option.splits)

text \<open>A player enters with no block, or leaves the block it has.\<close>

lemma enter_block_ok:
  assumes ok: "regions_ok st" and new: "map_of (playerRegionCenter st) p = None"
  shows "regions_ok (activateRegionBlock now c (st\<lparr>playerRegionCenter := AList.update p c (playerRegionCenter st)\<rparr>))"
proof -
  let ?st = "st\<lparr>playerRegionCenter := AList.update p c (playerRegionCenter st)\<rparr>"
  let ?new = "activateRegionBlock now c ?st"
  have "holders ?new k = (if k \<in> set (surroundingKeys c) then insert p (holders st k) else holders st k)" for k
    using new by (auto simp: set_eq_iff in_holders activateRegionBlock_def)
  moreover have "p \<notin> holders st k" for k
    using new by (simp add: holders_def)
  moreover have "count_at ?st k = count_at st k" for k
    by (simp add: count_at_def)
  ultimately have "count_at ?new k = int (card (holders ?new k))" for k
    using ok by (simp add: count_at_activate regions_ok_def)
  moreover have "map_ok (activeRegions ?new)"
    using ok by (simp add: activateRegionBlock_def activate_keys_ok regions_ok_def)
  moreover have "Active r" if "map_of (activeRegions ?new) k = Some r" for k r
    using that ok
    by (auto simp: activateRegionBlock_def activate_keys_lookup regions_ok_def split: if_splits option.splits)
  ultimately show ?thesis by (simp add: regions_ok_def)
qed

lemma leave_block_ok:
  assumes ok: "regions_ok st" and old: "map_of (playerRegionCenter st) p = Some c"
  shows "regions_ok ((deactivateRegionBlock now c st)
    \<lparr>playerRegionCenter := AList.delete p (playerRegionCenter (deactivateRegionBlock now c st))\<rparr>)" (is "regions_ok ?new")
proof -
  have centers: "playerRegionCenter (deactivateRegionBlock now c st) = playerRegionCenter st"
    by (simp add: deactivateRegionBlock_def)
  have left: "holders ?new k = holders st k - {p}" for k
    using centers by (auto simp: holders_def)
  have count: "count_at ?new k = count_at (deactivateRegionBlock now c st) k" for k
    by (simp add: count_at_def)
  have "count_at ?new k = int (card (holders ?new k))" for k
  proof (cases "k \<in> set (surroundingKeys c)")
    case True
    then have p: "p \<in> holders st k" using old by (simp add: in_holders)
    then have "0 < card (holders st k)" by (auto simp: card_gt_0_iff)
    with ok have "count_at (deactivateRegionBlock now c st) k = count_at st k - 1"
      by (intro count_at_deactivate(1) True) (simp add: regions_ok_def)
    with p ok \<open>0 < card (holders st k)\<close> show ?thesis
      unfolding count left by (simp add: regions_ok_def of_nat_diff)
  next
    case False
    then have "p \<notin> holders st k" using old by (simp add: in_holders)
    with False ok show ?thesis
      unfolding count left by (simp add: count_at_deactivate(2) regions_ok_def)
  qed
  moreover have "map_ok (activeRegions ?new)"
    using ok by (simp add: deactivateRegionBlock_def deactivate_keys_ok regions_ok_def)
  moreover have "Active r" if "map_of (activeRegions ?new) k = Some r" for k r
    using that ok
    by (auto simp: deactivateRegionBlock_def deactivate_keys_lookup regions_ok_def split: if_splits)
  ultimately show ?thesis by (simp add: regions_ok_def)
qed

lemma regions_ok_centers:
  "map_of cs = map_of cs' \<Longrightarrow> regions_ok (st\<lparr>playerRegionCenter := cs\<rparr>) \<longleftrightarrow> regions_ok (st\<lparr>playerRegionCenter := cs'\<rparr>)"
  by (simp add: regions_ok_def count_at_def holders_def)

lemma activate_centers:
  "activateRegionBlock now c (st\<lparr>playerRegionCenter := cs\<rparr>) = (activateRegionBlock now c st)\<lparr>playerRegionCenter := cs\<rparr>"
  by (simp add: activateRegionBlock_def)

lemma updatePlayerRegions_ok:
  assumes ok: "regions_ok st"
  shows "regions_ok (updatePlayerRegions now p x y st)"
proof (cases "map_of (playerRegionCenter st) p")
  case None
  with enter_block_ok [OF ok None] show ?thesis by (simp add: updatePlayerRegions_def Let_def)
next
  case (Some c)
  define new where "new = cellOf x y"
  define mid where "mid = deactivateRegionBlock now c st"
  have centers: "playerRegionCenter mid = playerRegionCenter st"
    by (simp add: mid_def deactivateRegionBlock_def)
  let ?left = "mid\<lparr>playerRegionCenter := AList.delete p (playerRegionCenter mid)\<rparr>"
  have "regions_ok (activateRegionBlock now new (?left\<lparr>playerRegionCenter := AList.update p new (playerRegionCenter ?left)\<rparr>))"
    using leave_block_ok [OF ok Some] by (intro enter_block_ok) (simp_all add: mid_def)
  moreover have "map_of (AList.update p new (AList.delete p cs)) = map_of (AList.update p new cs)" for cs :: "(int, cell) go_map"
    by (rule ext) simp
  ultimately have "regions_ok (activateRegionBlock now new (mid\<lparr>playerRegionCenter := AList.update p new (playerRegionCenter mid)\<rparr>))"
    unfolding activate_centers
    by (simp add: regions_ok_centers [of "AList.update p new (playerRegionCenter mid)"
        "AList.update p new (AList.delete p (playerRegionCenter mid))"])
  with ok Some show ?thesis
    by (simp add: updatePlayerRegions_def Let_def mid_def new_def)
qed

lemma leavePlayerRegions_ok: "regions_ok st \<Longrightarrow> regions_ok (leavePlayerRegions now p st)"
  by (auto simp: leavePlayerRegions_def Let_def leave_block_ok split: option.split)

lemma deactivateStaleRegions_ok:
  assumes ok: "regions_ok st"
  shows "regions_ok (deactivateStaleRegions now st)"
proof -
  let ?new = "deactivateStaleRegions now st"
  have m: "map_ok (activeRegions st)" using ok by (simp add: regions_ok_def)
  have holders: "holders ?new k = holders st k" for k
    by (simp add: holders_def deactivateStaleRegions_def)
  have "0 \<le> count_at st k" for k
    using ok by (simp add: regions_ok_def)
  then have "0 \<le> PlayerCount r" if "map_of (activeRegions st) k = Some r" for k r
    using that by (metis count_at_def option.simps(5))
  then have "count_at ?new k = count_at st k" for k
    by (auto simp: count_at_def deactivateStaleRegions_def delete_where_lookup [OF m] split: option.splits
        intro: order_antisym)
  moreover have "Active r" if "map_of (activeRegions ?new) k = Some r" for k r
    using that ok by (auto simp: deactivateStaleRegions_def delete_where_lookup [OF m] regions_ok_def split: option.splits if_splits)
  ultimately show ?thesis
    using ok delete_where_ok [OF m] by (simp add: regions_ok_def holders) (simp add: deactivateStaleRegions_def)
qed

section \<open>Histories\<close>

datatype region_event =
  Moves int int int
| Leaves int
| Sweep

primrec region_step :: "int \<Rightarrow> region_event \<Rightarrow> region_state \<Rightarrow> region_state" where
  "region_step now (Moves p x y) = updatePlayerRegions now p x y"
| "region_step now (Leaves p) = leavePlayerRegions now p"
| "region_step now Sweep = deactivateStaleRegions now"

definition region_run :: "(int \<times> region_event) list \<Rightarrow> region_state" where
  "region_run events = fold (\<lambda>(now, e). region_step now e) events \<lparr>activeRegions = [], playerRegionCenter = []\<rparr>"

lemma region_step_ok: "regions_ok st \<Longrightarrow> regions_ok (region_step now e st)"
  by (cases e) (simp_all add: updatePlayerRegions_ok leavePlayerRegions_ok deactivateStaleRegions_ok)

lemma region_fold_ok: "regions_ok st \<Longrightarrow> regions_ok (fold (\<lambda>(now, e). region_step now e) events st)"
  by (induction events arbitrary: st) (auto simp: region_step_ok)

lemma region_run_ok: "regions_ok (region_run events)"
  unfolding region_run_def
  by (rule region_fold_ok) (simp add: regions_ok_def count_at_def holders_def)

text \<open>
  After any history of moves, departures and sweeps, the count of a cell is the number of tracked
  players that have the cell among the nine around their own; in particular the clamp at zero of
  \<open>deactivateRegionBlock\<close> never loses a reference. So each of the nine cells of a tracked player is
  there and active, whatever the sweeps have reclaimed, and a sweep long enough after the last
  departure removes a cell that nobody holds.
\<close>

theorem region_reference_counts:
  assumes st: "st = region_run events"
  shows "count_at st k = int (card {p. \<exists>c. map_of (playerRegionCenter st) p = Some c \<and> k \<in> set (surroundingKeys c)})
    \<and> (map_of (playerRegionCenter st) p = Some c \<and> \<bar>dx\<bar> \<le> 1 \<and> \<bar>dy\<bar> \<le> 1
        \<longrightarrow> (\<exists>r. map_of (activeRegions st) (cellKey (fst c + dx, snd c + dy)) = Some r \<and> Active r \<and> 1 \<le> PlayerCount r))
    \<and> (map_of (activeRegions (deactivateStaleRegions now st)) k
        = (case map_of (activeRegions st) k of None \<Rightarrow> None
           | Some r \<Rightarrow> if (\<forall>p c. map_of (playerRegionCenter st) p = Some c \<longrightarrow> k \<notin> set (surroundingKeys c))
                          \<and> regionDeactivateTimeout < now - LastPlayerTime r
                       then None else Some r))"
proof -
  have ok: "regions_ok st" unfolding st by (rule region_run_ok)
  have count: "count_at st k = int (card (holders st k))" for k
    using ok by (simp add: regions_ok_def)
  have held: "holders st k = {} \<longleftrightarrow> count_at st k \<le> 0" for k
    by (simp add: count)
  have "\<exists>r. map_of (activeRegions st) k = Some r \<and> Active r \<and> 1 \<le> PlayerCount r"
    if "p \<in> holders st k" for k
  proof -
    have "0 < count_at st k" using that held [of k] by auto
    then obtain r where r: "map_of (activeRegions st) k = Some r" "0 < PlayerCount r"
      by (auto simp: count_at_def split: option.splits)
    moreover from r(1) ok have "Active r" by (simp add: regions_ok_def)
    ultimately show ?thesis by simp
  qed
  then have block: "map_of (playerRegionCenter st) p = Some c \<and> \<bar>dx\<bar> \<le> 1 \<and> \<bar>dy\<bar> \<le> 1
        \<longrightarrow> (\<exists>r. map_of (activeRegions st) (cellKey (fst c + dx, snd c + dy)) = Some r \<and> Active r \<and> 1 \<le> PlayerCount r)"
    by (auto simp: in_holders set_surroundingKeys)
  have none: "(\<forall>p c. map_of (playerRegionCenter st) p = Some c \<longrightarrow> k \<notin> set (surroundingKeys c)) \<longleftrightarrow> count_at st k \<le> 0"
    unfolding held [symmetric] by (auto simp: holders_def)
  have m: "map_ok (activeRegions st)" using ok by (simp add: regions_ok_def)
  have "map_of (activeRegions (deactivateStaleRegions now st)) k
        = (case map_of (activeRegions st) k of None \<Rightarrow> None
           | Some r \<Rightarrow> if (\<forall>p c. map_of (playerRegionCenter st) p = Some c \<longrightarrow> k \<notin> set (surroundingKeys c))
                          \<and> regionDeactivateTimeout < now - LastPlayerTime r
                       then None else Some r)"
    unfolding none by (simp add: deactivateStaleRegions_def delete_where_lookup [OF m] count_at_def split: option.split)
  with block count [of k] show ?thesis by (simp add: holders_def)
qed

theorem region_reference_counts_witness:
  "count_at (region_run [(0, Moves 1 500 500), (1, Moves 2 1500 500), (2, Sweep)]) (cellKey (1, 0)) = 2
    \<and> (\<exists>r. map_of (activeRegions (region_run [(0, Moves 1 500 500), (1, Moves 2 1500 500), (2, Sweep)]))
          (cellKey (2, 1)) = Some r \<and> Active r)"
proof -
  define st where "st = region_run [(0, Moves 1 500 500), (1, Moves 2 1500 500), (2, Sweep)]"
  have cells: "cellOf 500 500 = (0, 0)" "cellOf 1500 500 = (1, 0)"
    by (simp_all add: cellOf_def regionSize_def signed_divide_int_def)
  have centers: "playerRegionCenter st = [(1, (0, 0)), (2, (1, 0))]"
    by (simp add: st_def region_run_def updatePlayerRegions_def deactivateStaleRegions_def cells
        activateRegionBlock_def Let_def)
  have "{p. \<exists>c. map_of (playerRegionCenter st) p = Some c \<and> cellKey (1, 0) \<in> set (surroundingKeys c)} = {1, 2}"
    by (auto simp: centers surroundingKeys_def upto.simps)
  then have "count_at st (cellKey (1, 0)) = 2"
    using region_reference_counts [OF st_def, of "cellKey (1, 0)"] by simp
  moreover have "\<exists>r. map_of (activeRegions st) (cellKey (2, 1)) = Some r \<and> Active r"
    using region_reference_counts [OF st_def, of _ 2 "(1, 0)" 1 1] by (auto simp: centers)
  ultimately show ?thesis unfolding st_def by blast
qed

end
