(* ===== verification/Buffs.thy ===== *)
theory Buffs
  imports Complex_Main GoMap
begin

text \<open>
  Buffs and PvP flags of the game server: the list of effects of a character
  (\<open>gameserver/models/buff.go\<close>) with its stacking rules, what the game loop does with it
  (\<open>gameloop/buff.go\<close>), the PvP flag (\<open>gameloop/pvp.go\<close>) and the once-a-second sweep over both, with
  the fields of \<open>models/skill.go\<close> and \<open>models/statmods.go\<close> they read. Instants are nanoseconds, the
  zero \<open>time.Time\<close> is \<open>None\<close>. The type variable \<open>'f\<close> is \<open>float64\<close>: the values of modifiers are copied,
  never computed with. The hit points of a character appear as the flag whether they are positive,
  which no tick changes; what a tick does to them is an action of the result. The packets are actions
  too, in the order the loop sends them.
\<close>

section \<open>Skills\<close>

definition operate_continuous :: "string \<Rightarrow> bool" where
  "operate_continuous t \<longleftrightarrow> t = ''A2'' \<or> t = ''A4'' \<or> t = ''DA2''"

definition operate_self_continuous :: "string \<Rightarrow> bool" where
  "operate_self_continuous t \<longleftrightarrow> t = ''A3''"

definition operate_toggle :: "string \<Rightarrow> bool" where
  "operate_toggle t \<longleftrightarrow> t = ''T''"

record 'f SkillFunc =
  sfOp :: string
  sfStat :: string
  sfVal :: 'f

record 'f StatModifier =
  smStat :: string
  smOp :: string
  smVal :: 'f

record 'f SkillEffect =
  seName :: string
  seScope :: string
  seParams :: "(string, string) go_map"
  seFuncs :: "'f SkillFunc list"

record 'f Skill =
  skID :: int
  skLevel :: int
  skDisplayID :: int
  skDisplayLevel :: int
  skOperateType :: string
  skAbnormalType :: string
  skAbnormalLvl :: int
  skAbnormalTime :: int
  skEffects :: "'f SkillEffect list"

definition IsToggle :: "'f Skill \<Rightarrow> bool" where
  "IsToggle s = operate_toggle (skOperateType s)"

definition isBuffSkill :: "'f Skill \<Rightarrow> bool" where
  "isBuffSkill skill \<longleftrightarrow> operate_continuous (skOperateType skill)
     \<or> operate_self_continuous (skOperateType skill) \<or> IsToggle skill"

definition ModifiersFromFuncs :: "'f SkillFunc list \<Rightarrow> 'f StatModifier list" where
  "ModifiersFromFuncs funcs = map (\<lambda>f. \<lparr>smStat = sfStat f, smOp = sfOp f, smVal = sfVal f\<rparr>) funcs"

section \<open>The effects of a character\<close>

datatype TickKind = TickNone | TickHP | TickMP

record BuffTick =
  btKind :: TickKind
  btPower :: int
  btIntervalSec :: int
  btFatal :: bool

record 'f BuffInfo =
  biSkillID :: int
  biSkillLevel :: int
  biDisplayID :: int
  biDisplayLevel :: int
  biAbnormalType :: string
  biAbnormalLvl :: int
  biDurationSec :: int
  biToggle :: bool
  biMods :: "'f StatModifier list"
  biTicks :: "BuffTick list"
  biExpiresAt :: "int option"
  biNextTick :: "int option"

definition second :: int where
  "second = 1000000000"

definition HasTicks :: "'f BuffInfo \<Rightarrow> bool" where
  "HasTicks b \<longleftrightarrow> length (biTicks b) > 0"

definition TickInterval :: "'f BuffInfo \<Rightarrow> int" where
  "TickInterval b =
     (case biTicks b of
        [] \<Rightarrow> 0
      | t # _ \<Rightarrow> if btIntervalSec t \<le> 0 then 0 else btIntervalSec t * second)"

type_synonym 'f CharEffectList = "'f BuffInfo list"

text \<open>The index of the first element with the property; \<open>-1\<close> in the code is \<open>None\<close>.\<close>

fun index_where :: "('a \<Rightarrow> bool) \<Rightarrow> 'a list \<Rightarrow> nat option" where
  "index_where P [] = None"
| "index_where P (x # xs) = (if P x then Some 0 else map_option Suc (index_where P xs))"

definition indexOfSkill :: "'f CharEffectList \<Rightarrow> int \<Rightarrow> nat option" where
  "indexOfSkill l skillID = index_where (\<lambda>b. biSkillID b = skillID) l"

definition indexOfType :: "'f CharEffectList \<Rightarrow> string \<Rightarrow> nat option" where
  "indexOfType l t = index_where (\<lambda>b. biAbnormalType b = t) l"

definition removeAt :: "nat \<Rightarrow> 'f CharEffectList \<Rightarrow> 'f CharEffectList" where
  "removeAt i l = take i l @ drop (i + 1) l"

definition HasSkill :: "'f CharEffectList \<Rightarrow> int \<Rightarrow> bool" where
  "HasSkill l skillID \<longleftrightarrow> indexOfSkill l skillID \<noteq> None"

definition AbnormalNone :: string where
  "AbnormalNone = ''NONE''"

definition Add :: "'f BuffInfo \<Rightarrow> 'f CharEffectList \<Rightarrow> bool \<times> 'f CharEffectList" where
  "Add b l =
     (let l = (case indexOfSkill l (biSkillID b) of None \<Rightarrow> l | Some i \<Rightarrow> removeAt i l)
      in if biAbnormalType b \<noteq> '''' \<and> biAbnormalType b \<noteq> AbnormalNone
         then (case indexOfType l (biAbnormalType b) of
                 None \<Rightarrow> (True, l @ [b])
               | Some i \<Rightarrow>
                   if biAbnormalLvl b < biAbnormalLvl (l ! i) then (False, l)
                   else (True, removeAt i l @ [b]))
         else (True, l @ [b]))"

definition RemoveSkill :: "int \<Rightarrow> 'f CharEffectList \<Rightarrow> bool \<times> 'f CharEffectList" where
  "RemoveSkill skillID l =
     (case indexOfSkill l skillID of None \<Rightarrow> (False, l) | Some i \<Rightarrow> (True, removeAt i l))"

definition expired :: "int \<Rightarrow> 'f BuffInfo \<Rightarrow> bool" where
  "expired now b = (case biExpiresAt b of None \<Rightarrow> False | Some t \<Rightarrow> \<not> now < t)"

fun RemoveExpired :: "int \<Rightarrow> 'f CharEffectList \<Rightarrow> 'f BuffInfo list \<times> 'f CharEffectList" where
  "RemoveExpired now [] = ([], [])"
| "RemoveExpired now (b # l) =
     (let (gone, kept) = RemoveExpired now l
      in if expired now b then (b # gone, kept) else (gone, b # kept))"

definition Mods :: "'f CharEffectList \<Rightarrow> 'f StatModifier list" where
  "Mods l = concat (map biMods l)"

section \<open>Stacking\<close>

definition real_type :: "string \<Rightarrow> bool" where
  "real_type t \<longleftrightarrow> t \<noteq> '''' \<and> t \<noteq> AbnormalNone"

text \<open>What the list promises: a skill once, and an abnormal type once.\<close>

definition effects_ok :: "'f CharEffectList \<Rightarrow> bool" where
  "effects_ok l \<longleftrightarrow> distinct (map biSkillID l)
     \<and> distinct (filter real_type (map biAbnormalType l))"

lemma index_where_None: "index_where P xs = None \<longleftrightarrow> (\<forall>x\<in>set xs. \<not> P x)"
  by (induction xs) auto

lemma index_where_Some:
  "index_where P xs = Some i \<Longrightarrow> i < length xs \<and> P (xs ! i) \<and> (\<forall>j<i. \<not> P (xs ! j))"
proof (induction xs arbitrary: i)
  case (Cons x xs)
  show ?case
  proof (cases "P x")
    case False
    with Cons.prems obtain k where k: "index_where P xs = Some k" "i = Suc k" by auto
    show ?thesis using Cons.IH [OF k(1)] False k(2) by (auto simp: less_Suc_eq_0_disj)
  qed (use Cons.prems in auto)
qed simp

lemma removeAt_split: "i < length l \<Longrightarrow> l = take i l @ l ! i # drop (i + 1) l"
  by (simp add: id_take_nth_drop)

lemma effects_ok_sublist:
  assumes "effects_ok (xs @ b # ys)"
  shows "effects_ok (xs @ ys)"
  using assms by (auto simp: effects_ok_def split: if_splits)

lemma effects_ok_removeAt: "effects_ok l \<Longrightarrow> i < length l \<Longrightarrow> effects_ok (removeAt i l)"
  using effects_ok_sublist [of "take i l" "l ! i" "drop (i + 1) l"] removeAt_split [of i l]
  by (simp add: removeAt_def)

lemma removeAt_skill:
  assumes "effects_ok l" "indexOfSkill l s = Some i"
  shows "removeAt i l = filter (\<lambda>b. biSkillID b \<noteq> s) l"
proof -
  have i: "i < length l" "biSkillID (l ! i) = s"
    using index_where_Some assms(2) by (fastforce simp: indexOfSkill_def)+
  define xs ys where "xs = take i l" and "ys = drop (i + 1) l"
  have l: "l = xs @ l ! i # ys" using removeAt_split [OF i(1)] by (simp add: xs_def ys_def)
  have "distinct (map biSkillID (xs @ l ! i # ys))" using assms(1) l by (simp add: effects_ok_def)
  then have "s \<notin> biSkillID ` set xs" "s \<notin> biSkillID ` set ys" using i(2) by auto
  then have "filter (\<lambda>b. biSkillID b \<noteq> s) xs = xs" "filter (\<lambda>b. biSkillID b \<noteq> s) ys = ys"
    by (auto simp: filter_id_conv)
  moreover have "removeAt i l = xs @ ys" by (simp add: removeAt_def xs_def ys_def)
  ultimately show ?thesis using l i(2) by (metis (mono_tags, lifting) filter.simps(2) filter_append)
qed

lemma removeAt_type:
  assumes "effects_ok l" "real_type t" "indexOfType l t = Some i"
  shows "removeAt i l = filter (\<lambda>b. biAbnormalType b \<noteq> t) l"
proof -
  have i: "i < length l" "biAbnormalType (l ! i) = t"
    using index_where_Some assms(3) by (fastforce simp: indexOfType_def)+
  define xs ys where "xs = take i l" and "ys = drop (i + 1) l"
  have l: "l = xs @ l ! i # ys" using removeAt_split [OF i(1)] by (simp add: xs_def ys_def)
  have "distinct (filter real_type (map biAbnormalType (xs @ l ! i # ys)))"
    using assms(1) l by (simp add: effects_ok_def)
  then have "t \<notin> biAbnormalType ` set xs" "t \<notin> biAbnormalType ` set ys" using i(2) assms(2) by auto
  then have "filter (\<lambda>b. biAbnormalType b \<noteq> t) xs = xs" "filter (\<lambda>b. biAbnormalType b \<noteq> t) ys = ys"
    by (auto simp: filter_id_conv)
  moreover have "removeAt i l = xs @ ys" by (simp add: removeAt_def xs_def ys_def)
  ultimately show ?thesis using l i(2) by (metis (mono_tags, lifting) filter.simps(2) filter_append)
qed

lemma removeAt_skill_opt:
  "effects_ok l \<Longrightarrow> (case indexOfSkill l s of None \<Rightarrow> l | Some i \<Rightarrow> removeAt i l) = filter (\<lambda>b. biSkillID b \<noteq> s) l"
  using removeAt_skill [of l s]
  by (auto simp: indexOfSkill_def index_where_None filter_id_conv split: option.split)

lemma effects_ok_filter: "effects_ok l \<Longrightarrow> effects_ok (filter P l)"
proof (induction l rule: rev_induct)
  case (snoc b l)
  have l: "effects_ok l" using snoc.prems effects_ok_sublist [of l b "[]"] by simp
  have ok: "effects_ok (filter P l)" by (rule snoc.IH [OF l])
  have "biSkillID b \<notin> biSkillID ` set l" "real_type (biAbnormalType b) \<Longrightarrow> biAbnormalType b \<notin> biAbnormalType ` set l"
    using snoc.prems by (auto simp: effects_ok_def)
  then have "\<forall>x\<in>set l. biSkillID x \<noteq> biSkillID b"
    "\<forall>x\<in>set l. real_type (biAbnormalType b) \<longrightarrow> biAbnormalType x \<noteq> biAbnormalType b"
    by (metis image_eqI)+
  with ok show ?case by (fastforce simp: effects_ok_def)
qed simp

text \<open>What \<open>Add\<close> does, without indices.\<close>

definition add_spec :: "'f BuffInfo \<Rightarrow> 'f CharEffectList \<Rightarrow> bool \<times> 'f CharEffectList" where
  "add_spec b l =
     (let others = filter (\<lambda>x. biSkillID x \<noteq> biSkillID b) l; rival = (\<lambda>x. real_type (biAbnormalType b) \<and> biAbnormalType x = biAbnormalType b)
      in if \<exists>x\<in>set others. rival x \<and> biAbnormalLvl b < biAbnormalLvl x then (False, others)
         else (True, filter (\<lambda>x. \<not> rival x) others @ [b]))"

lemma same_type_unique:
  assumes "effects_ok l" "x \<in> set l" "y \<in> set l" "biAbnormalType x = biAbnormalType y" "real_type (biAbnormalType y)"
  shows "x = y"
proof -
  obtain xs ys where l: "l = xs @ x # ys" using split_list [OF assms(2)] by blast
  have "biAbnormalType x \<notin> biAbnormalType ` (set xs \<union> set ys)"
    using assms(1,4,5) by (auto simp: effects_ok_def l)
  then show ?thesis using assms(3,4) l by auto
qed

lemma Add_eq_spec:
  assumes "effects_ok l"
  shows "Add b l = add_spec b l"
proof -
  define others where "others = filter (\<lambda>x. biSkillID x \<noteq> biSkillID b) l"
  have ok: "effects_ok others" using assms by (simp add: others_def effects_ok_filter)
  have "(case indexOfSkill l (biSkillID b) of None \<Rightarrow> l | Some i \<Rightarrow> removeAt i l) = others"
    using removeAt_skill_opt [OF assms, of "biSkillID b"] by (simp add: others_def)
  then have add: "Add b l = (if real_type (biAbnormalType b)
         then (case indexOfType others (biAbnormalType b) of None \<Rightarrow> (True, others @ [b])
               | Some i \<Rightarrow> if biAbnormalLvl b < biAbnormalLvl (others ! i) then (False, others)
                   else (True, removeAt i others @ [b]))
         else (True, others @ [b]))"
    by (simp add: Add_def real_type_def Let_def)
  show ?thesis
  proof (cases "real_type (biAbnormalType b)")
    case False
    then show ?thesis by (simp add: add add_spec_def others_def)
  next
    case real: True
    show ?thesis
    proof (cases "indexOfType others (biAbnormalType b)")
      case None
      then have "\<forall>x\<in>set others. biAbnormalType x \<noteq> biAbnormalType b"
        by (simp add: indexOfType_def index_where_None)
      with None real show ?thesis
        by (simp add: add add_spec_def Let_def filter_id_conv flip: others_def)
    next
      case (Some i)
      then have i: "i < length others" "biAbnormalType (others ! i) = biAbnormalType b"
        using index_where_Some by (fastforce simp: indexOfType_def)+
      have "(\<exists>x\<in>set others. biAbnormalType x = biAbnormalType b \<and> biAbnormalLvl b < biAbnormalLvl x)
          \<longleftrightarrow> biAbnormalLvl b < biAbnormalLvl (others ! i)"
        using same_type_unique [OF ok _ nth_mem [OF i(1)]] i real by (metis nth_mem)
      with Some real removeAt_type [OF ok real Some] show ?thesis
        by (simp add: add add_spec_def Let_def flip: others_def)
    qed
  qed
qed

lemma effects_ok_add_spec:
  assumes "effects_ok l"
  shows "effects_ok (snd (add_spec b l))"
proof -
  let ?others = "filter (\<lambda>x. biSkillID x \<noteq> biSkillID b) l"
  let ?kept = "filter (\<lambda>x. \<not> (real_type (biAbnormalType b) \<and> biAbnormalType x = biAbnormalType b)) ?others"
  have ok: "effects_ok ?others" "effects_ok ?kept" using assms by (intro effects_ok_filter, simp)+
  have "biSkillID b \<notin> biSkillID ` set ?kept"
    "real_type (biAbnormalType b) \<Longrightarrow> biAbnormalType b \<notin> biAbnormalType ` set ?kept" by auto
  then have "effects_ok (?kept @ [b])" using ok(2) by (auto simp: effects_ok_def)
  with ok(1) show ?thesis by (simp add: add_spec_def Let_def)
qed

lemma effects_ok_Add: "effects_ok l \<Longrightarrow> effects_ok (snd (Add b l))"
  by (simp add: Add_eq_spec effects_ok_add_spec)

lemma RemoveSkill_filter:
  "effects_ok l \<Longrightarrow> RemoveSkill s l = (HasSkill l s, filter (\<lambda>b. biSkillID b \<noteq> s) l)"
  using removeAt_skill_opt [of l s] by (auto simp: RemoveSkill_def HasSkill_def split: option.split)

lemma RemoveExpired_filter:
  "RemoveExpired now l = (filter (expired now) l, filter (\<lambda>b. \<not> expired now b) l)"
  by (induction l) auto

lemma effects_ok_RemoveSkill: "effects_ok l \<Longrightarrow> effects_ok (snd (RemoveSkill s l))"
  by (simp add: RemoveSkill_filter effects_ok_filter)

lemma effects_ok_RemoveExpired: "effects_ok l \<Longrightarrow> effects_ok (snd (RemoveExpired now l))"
  by (simp add: RemoveExpired_filter effects_ok_filter)

lemma effects_ok_Nil [simp]: "effects_ok []"
  by (simp add: effects_ok_def)

text \<open>Replacing the elements of a list by ones of the same skill and type changes nothing.\<close>

lemma effects_ok_map:
  assumes "\<And>b. biSkillID (f b) = biSkillID b" "\<And>b. biAbnormalType (f b) = biAbnormalType b"
  shows "effects_ok (map f l) = effects_ok l"
  by (simp add: effects_ok_def comp_def assms)

section \<open>From a skill to a buff\<close>

text \<open>\<open>strconv.ParseFloat\<close> is the parameter \<open>parseFloat\<close>; \<open>None\<close> is its error.\<close>

definition parseIntFloor :: "(string \<Rightarrow> rat option) \<Rightarrow> string \<Rightarrow> int" where
  "parseIntFloor parseFloat s =
     (case parseFloat s of None \<Rightarrow> 0 | Some f \<Rightarrow> if f < 0 then \<lceil>f\<rceil> else \<lfloor>f\<rfloor>)"

definition effectPower :: "(string \<Rightarrow> rat option) \<Rightarrow> 'f SkillEffect \<Rightarrow> int" where
  "effectPower parseFloat eff =
     (case map_of (seParams eff) ''power'' of
        Some v \<Rightarrow> parseIntFloor parseFloat v
      | None \<Rightarrow> (case map_of (seParams eff) ''amount'' of
          Some v \<Rightarrow> parseIntFloor parseFloat v
        | None \<Rightarrow> 0))"

text \<open>A missing parameter reads as the empty string.\<close>

definition tickFromEffect :: "(string \<Rightarrow> rat option) \<Rightarrow> 'f SkillEffect \<Rightarrow> TickKind \<Rightarrow> bool \<Rightarrow> BuffTick" where
  "tickFromEffect parseFloat eff kind fatal =
     (let interval = parseIntFloor parseFloat (case map_of (seParams eff) ''ticks'' of None \<Rightarrow> '''' | Some v \<Rightarrow> v);
          interval = (if interval \<le> 0 then 5 else interval)
      in \<lparr>btKind = kind, btPower = effectPower parseFloat eff, btIntervalSec = interval, btFatal = fatal\<rparr>)"

fun collect_effects :: "(string \<Rightarrow> rat option) \<Rightarrow> 'f SkillEffect list \<Rightarrow> 'f BuffInfo \<Rightarrow> 'f BuffInfo" where
  "collect_effects parseFloat [] b = b"
| "collect_effects parseFloat (eff # effs) b =
     collect_effects parseFloat effs
       (if seScope eff \<noteq> ''GENERAL'' \<and> seScope eff \<noteq> ''SELF'' then b
        else if seName eff = ''Buff'' \<or> seName eff = ''Debuff''
        then b\<lparr>biMods := biMods b @ ModifiersFromFuncs (seFuncs eff)\<rparr>
        else if seName eff = ''TickHp'' then b\<lparr>biTicks := biTicks b @ [tickFromEffect parseFloat eff TickHP False]\<rparr>
        else if seName eff = ''TickHpFatal'' then b\<lparr>biTicks := biTicks b @ [tickFromEffect parseFloat eff TickHP True]\<rparr>
        else if seName eff = ''TickMp'' then b\<lparr>biTicks := biTicks b @ [tickFromEffect parseFloat eff TickMP False]\<rparr>
        else b)"

definition buildBuffFromSkill :: "(string \<Rightarrow> rat option) \<Rightarrow> 'f Skill \<Rightarrow> int \<Rightarrow> 'f BuffInfo option" where
  "buildBuffFromSkill parseFloat skill now =
     (let b = collect_effects parseFloat (skEffects skill)
            \<lparr>biSkillID = skID skill, biSkillLevel = skLevel skill, biDisplayID = skDisplayID skill,
             biDisplayLevel = skDisplayLevel skill, biAbnormalType = skAbnormalType skill,
             biAbnormalLvl = skAbnormalLvl skill, biDurationSec = skAbnormalTime skill,
             biToggle = IsToggle skill, biMods = [], biTicks = [], biExpiresAt = None, biNextTick = None\<rparr>
      in if length (biMods b) = 0 \<and> length (biTicks b) = 0 then None
         else let b = (if biDurationSec b > 0 \<and> \<not> biToggle b
                       then b\<lparr>biExpiresAt := Some (now + biDurationSec b * second)\<rparr> else b);
                  b = (if HasTicks b then b\<lparr>biNextTick := Some (now + TickInterval b)\<rparr> else b)
              in Some b)"

section \<open>The game loop\<close>

record 'f buff_char =
  bcAlive :: bool
  bcKarma :: int
  bcStatMods :: "'f StatModifier list"

record 'f buff_player =
  bpCharacter :: "'f buff_char option"
  bpPvPFlagUntil :: "int option"
  bpPassiveMods :: "'f StatModifier list"
  bpEquipMods :: "'f StatModifier list"
  bpEffects :: "'f CharEffectList"

datatype buff_action =
    AbnormalStatusUpdate int "(int \<times> int \<times> int) list"
  | UserInfo int
  | RelationChanged int int int int
  | RestoreStats int int int
  | DoT int int

record 'f buff_loop =
  blPlayers :: "(int, 'f buff_player) go_map"
  buffedPlayers :: "(int, unit) go_map"
  flaggedPlayers :: "(int, unit) go_map"
  blSent :: "buff_action list"

definition NewBuffLoop :: "'f buff_loop" where
  "NewBuffLoop = \<lparr>blPlayers = [], buffedPlayers = [], flaggedPlayers = [], blSent = []\<rparr>"

definition RebuildStatMods :: "'f buff_player \<Rightarrow> 'f buff_player" where
  "RebuildStatMods p =
     (case bpCharacter p of
        None \<Rightarrow> p
      | Some c \<Rightarrow> p\<lparr>bpCharacter := Some (c\<lparr>bcStatMods := bpPassiveMods p @ bpEquipMods p @ Mods (bpEffects p)\<rparr>)\<rparr>)"

definition put_player :: "int \<Rightarrow> 'f buff_player \<Rightarrow> 'f buff_loop \<Rightarrow> 'f buff_loop" where
  "put_player i p st = st\<lparr>blPlayers := AList.update i p (blPlayers st)\<rparr>"

definition emit :: "buff_action list \<Rightarrow> 'f buff_loop \<Rightarrow> 'f buff_loop" where
  "emit out st = st\<lparr>blSent := blSent st @ out\<rparr>"

text \<open>
  \<open>sendAbnormalStatus\<close>: the whole seconds left of each effect, \<open>-1\<close> for one without end. The seconds
  are a \<open>float64\<close> in the code, cut to an integer.
\<close>

definition remain_sec :: "int \<Rightarrow> 'f BuffInfo \<Rightarrow> int" where
  "remain_sec now b =
     (case biExpiresAt b of
        None \<Rightarrow> -1
      | Some t \<Rightarrow> if t - now < 0 then 0 else (t - now) div second)"

definition sendAbnormalStatus :: "int \<Rightarrow> int \<Rightarrow> 'f CharEffectList \<Rightarrow> buff_action" where
  "sendAbnormalStatus now i l =
     AbnormalStatusUpdate i (map (\<lambda>b. (biDisplayID b, biDisplayLevel b, remain_sec now b)) l)"

definition applyBuff :: "(string \<Rightarrow> rat option) \<Rightarrow> int \<Rightarrow> int \<Rightarrow> 'f Skill \<Rightarrow> 'f buff_loop \<Rightarrow> 'f buff_loop" where
  "applyBuff parseFloat now targetID skill st =
     (case map_of (blPlayers st) targetID of
        None \<Rightarrow> st
      | Some target \<Rightarrow>
          if bpCharacter target = None then st
          else (case buildBuffFromSkill parseFloat skill now of
                  None \<Rightarrow> st
                | Some buff \<Rightarrow>
                    let (added, l) = Add buff (bpEffects target); target = target\<lparr>bpEffects := l\<rparr>
                    in if \<not> added then put_player targetID target st
                       else let st = st\<lparr>buffedPlayers := AList.update targetID () (buffedPlayers st)\<rparr>;
                                st = put_player targetID (RebuildStatMods target) st
                            in emit [sendAbnormalStatus now targetID l, UserInfo targetID] st))"

definition toggleOff :: "int \<Rightarrow> int \<Rightarrow> int \<Rightarrow> 'f buff_loop \<Rightarrow> 'f buff_loop" where
  "toggleOff now i skillID st =
     (case map_of (blPlayers st) i of
        None \<Rightarrow> st
      | Some player \<Rightarrow>
          let (removed, l) = RemoveSkill skillID (bpEffects player); player = player\<lparr>bpEffects := l\<rparr>
          in if \<not> removed then st
             else let st = (if length l = 0 then st\<lparr>buffedPlayers := AList.delete i (buffedPlayers st)\<rparr> else st);
                      st = put_player i (RebuildStatMods player) st
                  in emit [sendAbnormalStatus now i l, UserInfo i] st)"

definition wrap32 :: "int \<Rightarrow> int" where
  "wrap32 n = sint (word_of_int n :: 32 word)"

definition tick_sum :: "TickKind \<Rightarrow> BuffTick list \<Rightarrow> int" where
  "tick_sum k ts = sum_list (map btPower (filter (\<lambda>t. btKind t = k) ts))"

definition fireBuffTicks :: "int \<Rightarrow> 'f BuffInfo \<Rightarrow> buff_action list" where
  "fireBuffTicks i b =
     (let hp = tick_sum TickHP (biTicks b); mp = tick_sum TickMP (biTicks b)
      in if hp = 0 \<and> mp = 0 then []
         else RestoreStats i (wrap32 (max hp 0)) (wrap32 (max mp 0)) # (if hp < 0 then [DoT i (- hp)] else []))"

definition tick_due :: "int \<Rightarrow> 'f BuffInfo \<Rightarrow> bool" where
  "tick_due now b =
     (if \<not> HasTicks b then False else (case biNextTick b of None \<Rightarrow> False | Some t \<Rightarrow> \<not> now < t))"

fun tick_buffs :: "int \<Rightarrow> int \<Rightarrow> 'f CharEffectList \<Rightarrow> buff_action list \<times> 'f CharEffectList" where
  "tick_buffs now i [] = ([], [])"
| "tick_buffs now i (b # l) =
     (let (out, l) = tick_buffs now i l
      in if tick_due now b then (fireBuffTicks i b @ out, b\<lparr>biNextTick := Some (now + TickInterval b)\<rparr> # l)
         else (out, b # l))"

text \<open>One turn of the loop over \<open>buffedPlayers\<close>, and the loop: the keys in the order Go visits them.\<close>

definition service_player :: "int \<Rightarrow> int \<Rightarrow> 'f buff_loop \<Rightarrow> 'f buff_loop" where
  "service_player now i st =
     (case map_of (blPlayers st) i of
        None \<Rightarrow> st\<lparr>buffedPlayers := AList.delete i (buffedPlayers st)\<rparr>
      | Some player \<Rightarrow>
          (case bpCharacter player of
             None \<Rightarrow> st\<lparr>buffedPlayers := AList.delete i (buffedPlayers st)\<rparr>
           | Some char \<Rightarrow>
               if length (bpEffects player) = 0 then st\<lparr>buffedPlayers := AList.delete i (buffedPlayers st)\<rparr>
               else let (out, l) = (if bcAlive char then tick_buffs now i (bpEffects player) else ([], bpEffects player));
                        (gone, l) = RemoveExpired now l;
                        st = emit out st
                    in if length gone = 0 then put_player i (player\<lparr>bpEffects := l\<rparr>) st
                       else let st = put_player i (RebuildStatMods (player\<lparr>bpEffects := l\<rparr>)) st;
                                st = emit [sendAbnormalStatus now i l, UserInfo i] st
                            in if length l = 0 then st\<lparr>buffedPlayers := AList.delete i (buffedPlayers st)\<rparr> else st))"

section \<open>PvP flags\<close>

definition pvpFlagDuration :: int where
  "pvpFlagDuration = 120 * second"

definition IsPvPFlagged :: "int \<Rightarrow> 'f buff_player \<Rightarrow> bool" where
  "IsPvPFlagged now p = (case bpPvPFlagUntil p of None \<Rightarrow> False | Some t \<Rightarrow> now < t)"

definition canAttackPlayer :: "'f buff_player option \<Rightarrow> bool \<Rightarrow> int \<Rightarrow> bool \<times> bool" where
  "canAttackPlayer target ctrl now =
     (case target of
        None \<Rightarrow> (False, False)
      | Some p \<Rightarrow>
          (case bpCharacter p of
             None \<Rightarrow> (False, False)
           | Some c \<Rightarrow>
               if IsPvPFlagged now p \<or> bcKarma c > 0 then (True, False)
               else if ctrl then (True, True) else (False, False)))"

definition broadcastRelation :: "int \<Rightarrow> int \<Rightarrow> 'f buff_player \<Rightarrow> buff_action list" where
  "broadcastRelation now i p =
     (case bpCharacter p of
        None \<Rightarrow> []
      | Some c \<Rightarrow>
          let pvp = (if IsPvPFlagged now p then 1 else 0); karma = bcKarma c;
              attackable = (if pvp = (1::int) \<or> karma > 0 then 1 else 0)
          in [RelationChanged i attackable karma pvp])"

definition setPvPFlag :: "int \<Rightarrow> int \<Rightarrow> 'f buff_loop \<Rightarrow> 'f buff_loop" where
  "setPvPFlag now i st =
     (case map_of (blPlayers st) i of
        None \<Rightarrow> st
      | Some player \<Rightarrow>
          if bpCharacter player = None then st
          else let was = IsPvPFlagged now player;
                   player = player\<lparr>bpPvPFlagUntil := Some (now + pvpFlagDuration)\<rparr>;
                   st = put_player i player (st\<lparr>flaggedPlayers := AList.update i () (flaggedPlayers st)\<rparr>)
               in if \<not> was then emit (broadcastRelation now i player @ [UserInfo i]) st else st)"

definition expire_flag :: "int \<Rightarrow> int \<Rightarrow> 'f buff_loop \<Rightarrow> 'f buff_loop" where
  "expire_flag now i st =
     (case map_of (blPlayers st) i of
        None \<Rightarrow> st\<lparr>flaggedPlayers := AList.delete i (flaggedPlayers st)\<rparr>
      | Some player \<Rightarrow>
          (case bpPvPFlagUntil player of
             None \<Rightarrow> st\<lparr>flaggedPlayers := AList.delete i (flaggedPlayers st)\<rparr>
           | Some t \<Rightarrow>
               if \<not> now < t
               then let player = player\<lparr>bpPvPFlagUntil := None\<rparr>;
                        st = put_player i player (st\<lparr>flaggedPlayers := AList.delete i (flaggedPlayers st)\<rparr>)
                    in emit (broadcastRelation now i player @ [UserInfo i]) st
               else st))"

definition expirePvPFlags :: "int \<Rightarrow> 'f buff_loop \<Rightarrow> 'f buff_loop" where
  "expirePvPFlags now st = fold (expire_flag now) (map fst (flaggedPlayers st)) st"

definition serviceBuffs :: "int \<Rightarrow> 'f buff_loop \<Rightarrow> 'f buff_loop" where
  "serviceBuffs now st =
     (let st = expirePvPFlags now st
      in fold (service_player now) (map fst (buffedPlayers st)) st)"

section \<open>Everything that happens to the effects\<close>

text \<open>
  The two deletes \<open>handlePlayerDisconnected\<close> makes here, and what the rest of the server does to these
  fields: a player joins the world with no effect, leaves it, gets new passive and equipment modifiers
  (\<open>EnterWorld\<close> and every change of equipment, which rebuild the modifiers), dies, or changes karma.
\<close>

definition untrack :: "int \<Rightarrow> 'f buff_loop \<Rightarrow> 'f buff_loop" where
  "untrack i st = st\<lparr>buffedPlayers := AList.delete i (buffedPlayers st),
     flaggedPlayers := AList.delete i (flaggedPlayers st)\<rparr>"

definition fresh_player :: "bool \<Rightarrow> int \<Rightarrow> 'f buff_player" where
  "fresh_player alive karma =
     \<lparr>bpCharacter = Some \<lparr>bcAlive = alive, bcKarma = karma, bcStatMods = []\<rparr>, bpPvPFlagUntil = None,
      bpPassiveMods = [], bpEquipMods = [], bpEffects = []\<rparr>"

datatype 'f buff_op =
    ApplyBuff int "'f Skill" | Dispel int int | FlagPvP int | ServiceBuffs | Disconnected int
  | Joined int bool int | Left int | NewMods int "'f StatModifier list" "'f StatModifier list" | Changed int bool int

fun buff_step :: "(string \<Rightarrow> rat option) \<Rightarrow> int \<times> 'f buff_op \<Rightarrow> 'f buff_loop \<Rightarrow> 'f buff_loop" where
  "buff_step pf (now, ApplyBuff i skill) st = applyBuff pf now i skill st"
| "buff_step pf (now, Dispel i s) st = toggleOff now i s st"
| "buff_step pf (now, FlagPvP i) st = setPvPFlag now i st"
| "buff_step pf (now, ServiceBuffs) st = serviceBuffs now st"
| "buff_step pf (now, Disconnected i) st = untrack i st"
| "buff_step pf (now, Joined i alive karma) st =
     put_player i (fresh_player alive karma) st"
| "buff_step pf (now, Left i) st = st\<lparr>blPlayers := AList.delete i (blPlayers st)\<rparr>"
| "buff_step pf (now, NewMods i passive equip) st =
     (case map_of (blPlayers st) i of None \<Rightarrow> st
      | Some p \<Rightarrow> put_player i (RebuildStatMods (p\<lparr>bpPassiveMods := passive, bpEquipMods := equip\<rparr>)) st)"
| "buff_step pf (now, Changed i alive karma) st =
     (case map_of (blPlayers st) i of None \<Rightarrow> st
      | Some p \<Rightarrow> put_player i (p\<lparr>bpCharacter := map_option (\<lambda>c. c\<lparr>bcAlive := alive, bcKarma := karma\<rparr>) (bpCharacter p)\<rparr>) st)"

definition run_buffs :: "(string \<Rightarrow> rat option) \<Rightarrow> (int \<times> 'f buff_op) list \<Rightarrow> 'f buff_loop" where
  "run_buffs pf ops = fold (buff_step pf) ops NewBuffLoop"

section \<open>The sweep reaches every effect and every flag\<close>

definition player_ok :: "(int \<Rightarrow> string) \<Rightarrow> bool \<Rightarrow> bool \<Rightarrow> 'f buff_player \<Rightarrow> bool" where
  "player_ok ty tracked flagged p \<longleftrightarrow> effects_ok (bpEffects p)
     \<and> (\<forall>b\<in>set (bpEffects p). biAbnormalType b = ty (biSkillID b))
     \<and> (bpEffects p \<noteq> [] \<longrightarrow> tracked) \<and> (bpPvPFlagUntil p \<noteq> None \<longrightarrow> flagged)
     \<and> (case bpCharacter p of None \<Rightarrow> bpEffects p = []
        | Some c \<Rightarrow> bcStatMods c = bpPassiveMods p @ bpEquipMods p @ Mods (bpEffects p))"

text \<open>
  The sets of tracked players cover everybody but \<open>gone\<close>: the players whose disconnect was handled
  since they joined.
\<close>

definition loop_ok :: "(int \<Rightarrow> string) \<Rightarrow> int set \<Rightarrow> 'f buff_loop \<Rightarrow> bool" where
  "loop_ok ty gone st \<longleftrightarrow> (\<forall>i p. map_of (blPlayers st) i = Some p \<longrightarrow>
     player_ok ty (map_of (buffedPlayers st) i = Some () \<or> i \<in> gone) (map_of (flaggedPlayers st) i = Some () \<or> i \<in> gone) p)"

named_theorems buff_defs

declare put_player_def [buff_defs] emit_def [buff_defs] untrack_def [buff_defs]

lemma Mods_Nil [simp]: "Mods [] = []"
  by (simp add: Mods_def)

lemma RebuildStatMods_parts [simp]:
  "bpEffects (RebuildStatMods p) = bpEffects p" "bpPvPFlagUntil (RebuildStatMods p) = bpPvPFlagUntil p"
  "bpPassiveMods (RebuildStatMods p) = bpPassiveMods p" "bpEquipMods (RebuildStatMods p) = bpEquipMods p"
  "bpCharacter (RebuildStatMods p) = map_option (\<lambda>c. c\<lparr>bcStatMods := bpPassiveMods p @ bpEquipMods p @ Mods (bpEffects p)\<rparr>)
     (bpCharacter p)"
  by (simp_all add: RebuildStatMods_def split: option.split)

text \<open>A step that changes one player and the tracking of that player only.\<close>

lemma loop_ok_put:
  assumes "loop_ok ty gone st"
    and "blPlayers st' = AList.update i p (blPlayers st)"
    and "\<And>j. j \<noteq> i \<Longrightarrow> map_of (buffedPlayers st') j = map_of (buffedPlayers st) j"
    and "\<And>j. j \<noteq> i \<Longrightarrow> map_of (flaggedPlayers st') j = map_of (flaggedPlayers st) j"
    and "player_ok ty (map_of (buffedPlayers st') i = Some () \<or> i \<in> gone) (map_of (flaggedPlayers st') i = Some () \<or> i \<in> gone) p"
  shows "loop_ok ty gone st'"
  using assms by (auto simp: loop_ok_def)

lemma loop_okD: "loop_ok ty gone st \<Longrightarrow> map_of (blPlayers st) i = Some p
    \<Longrightarrow> player_ok ty (map_of (buffedPlayers st) i = Some () \<or> i \<in> gone) (map_of (flaggedPlayers st) i = Some () \<or> i \<in> gone) p"
  by (simp add: loop_ok_def)

lemma player_ok_mono: "player_ok ty a b p \<Longrightarrow> (a \<Longrightarrow> a') \<Longrightarrow> (b \<Longrightarrow> b') \<Longrightarrow> player_ok ty a' b' p"
  by (cases "bpCharacter p") (auto simp: player_ok_def)

lemma loop_ok_emit [simp]: "loop_ok ty gone (emit out st) = loop_ok ty gone st"
  by (simp add: loop_ok_def emit_def)

lemma collect_effects_keeps:
  "biSkillID (collect_effects pf effs b) = biSkillID b"
  "biAbnormalType (collect_effects pf effs b) = biAbnormalType b"
  "biExpiresAt (collect_effects pf effs b) = biExpiresAt b"
  "biDurationSec (collect_effects pf effs b) = biDurationSec b"
  "biToggle (collect_effects pf effs b) = biToggle b"
  by (induction effs arbitrary: b) simp_all

lemma buildBuffFromSkill_keeps:
  assumes "buildBuffFromSkill pf skill now = Some b"
  shows "biSkillID b = skID skill" "biAbnormalType b = skAbnormalType skill"
  using assms by (auto simp: buildBuffFromSkill_def Let_def collect_effects_keeps split: if_splits)

text \<open>A refused buff leaves the list as it was, when the abnormal type belongs to the skill.\<close>

lemma Add_refused:
  assumes ok: "effects_ok l" and ty: "\<forall>x\<in>set l. biAbnormalType x = ty (biSkillID x)" "biAbnormalType b = ty (biSkillID b)"
    and no: "Add b l = (False, l')"
  shows "l' = l"
proof -
  obtain x where x: "x \<in> set l" "biSkillID x \<noteq> biSkillID b" "real_type (biAbnormalType b)"
    "biAbnormalType x = biAbnormalType b" and l': "l' = filter (\<lambda>x. biSkillID x \<noteq> biSkillID b) l"
    using no unfolding Add_eq_spec [OF ok] by (auto simp: add_spec_def Let_def split: if_splits)
  have "biSkillID y \<noteq> biSkillID b" if "y \<in> set l" for y
    using same_type_unique [OF ok that x(1)] x ty that by auto
  then show ?thesis by (simp add: l' filter_id_conv)
qed

lemma Add_members: "Add b l = (r, l') \<Longrightarrow> effects_ok l \<Longrightarrow> set l' \<subseteq> insert b (set l)"
  by (auto simp: Add_eq_spec add_spec_def Let_def split: if_splits)

lemma loop_ok_applyBuff:
  assumes inv: "loop_ok ty gone st" and ty: "skAbnormalType skill = ty (skID skill)"
  shows "loop_ok ty gone (applyBuff pf now i skill st)"
proof (cases "\<exists>p c b. map_of (blPlayers st) i = Some p \<and> bpCharacter p = Some c \<and> buildBuffFromSkill pf skill now = Some b")
  case True
  then obtain p c b where p: "map_of (blPlayers st) i = Some p" "bpCharacter p = Some c"
    and b: "buildBuffFromSkill pf skill now = Some b" by blast
  obtain added l where add: "Add b (bpEffects p) = (added, l)" by fastforce
  have pok: "player_ok ty (map_of (buffedPlayers st) i = Some () \<or> i \<in> gone) (map_of (flaggedPlayers st) i = Some () \<or> i \<in> gone) p"
    by (rule loop_okD [OF inv p(1)])
  then have ok: "effects_ok (bpEffects p)" "\<forall>x\<in>set (bpEffects p). biAbnormalType x = ty (biSkillID x)"
    by (simp_all add: player_ok_def)
  have bt: "biAbnormalType b = ty (biSkillID b)" using buildBuffFromSkill_keeps [OF b] ty by simp
  have lok: "effects_ok l" using effects_ok_Add [OF ok(1), of b] add by simp
  have lty: "\<forall>x\<in>set l. biAbnormalType x = ty (biSkillID x)"
    using Add_members [OF add ok(1)] ok(2) bt by blast
  show ?thesis
  proof (cases added)
    case False
    then have "l = bpEffects p" using Add_refused [OF ok bt] add by simp
    with False p b add have "applyBuff pf now i skill st = put_player i p st"
      by (simp add: applyBuff_def)
    then show ?thesis using loop_ok_put [OF inv, of _ i p] pok by (simp add: put_player_def)
  next
    case True
    let ?p = "RebuildStatMods (p\<lparr>bpEffects := l\<rparr>)"
    have "player_ok ty True (map_of (flaggedPlayers st) i = Some () \<or> i \<in> gone) ?p"
      using pok lok lty p(2) by (simp add: player_ok_def)
    then have "loop_ok ty gone (put_player i ?p (st\<lparr>buffedPlayers := AList.update i () (buffedPlayers st)\<rparr>))"
      using loop_ok_put [OF inv, of _ i ?p] by (simp add: put_player_def)
    then show ?thesis using True p b add by (simp add: applyBuff_def)
  qed
qed (use inv in \<open>auto simp: applyBuff_def split: option.split\<close>)

lemma loop_ok_toggleOff:
  assumes inv: "loop_ok ty gone st"
  shows "loop_ok ty gone (toggleOff now i s st)"
proof (cases "map_of (blPlayers st) i")
  case (Some p)
  obtain removed l where rem: "RemoveSkill s (bpEffects p) = (removed, l)" by fastforce
  have pok: "player_ok ty (map_of (buffedPlayers st) i = Some () \<or> i \<in> gone) (map_of (flaggedPlayers st) i = Some () \<or> i \<in> gone) p"
    by (rule loop_okD [OF inv Some])
  then have l: "effects_ok l" "set l \<subseteq> set (bpEffects p)"
    using effects_ok_RemoveSkill [of "bpEffects p" s] rem RemoveSkill_filter [of "bpEffects p" s]
    by (auto simp: player_ok_def)
  let ?p = "RebuildStatMods (p\<lparr>bpEffects := l\<rparr>)"
  let ?st = "if l = [] then st\<lparr>buffedPlayers := AList.delete i (buffedPlayers st)\<rparr> else st"
  have "player_ok ty (map_of (buffedPlayers ?st) i = Some () \<or> i \<in> gone) (map_of (flaggedPlayers ?st) i = Some () \<or> i \<in> gone) ?p"
    using pok l by (auto simp: player_ok_def split: option.splits)
  then have "loop_ok ty gone (put_player i ?p ?st)"
    using loop_ok_put [OF inv, of _ i ?p] by (simp add: put_player_def)
  then show ?thesis using Some rem inv by (simp add: toggleOff_def)
qed (use inv in \<open>simp add: toggleOff_def\<close>)

lemma tick_buffs_map:
  "snd (tick_buffs now i l) = map (\<lambda>b. if tick_due now b then b\<lparr>biNextTick := Some (now + TickInterval b)\<rparr> else b) l"
  by (induction l) (auto simp: case_prod_unfold Let_def)

lemma tick_buffs_keeps:
  assumes "tick_buffs now i l = (out, l')"
  shows "map biSkillID l' = map biSkillID l" "map biAbnormalType l' = map biAbnormalType l"
    "Mods l' = Mods l" "length l' = length l"
proof -
  have l': "l' = map (\<lambda>b. if tick_due now b then b\<lparr>biNextTick := Some (now + TickInterval b)\<rparr> else b) l"
    using tick_buffs_map [of now i l] assms by simp
  show "map biSkillID l' = map biSkillID l" "map biAbnormalType l' = map biAbnormalType l"
    "Mods l' = Mods l" "length l' = length l"
    unfolding l' by (induction l) (auto simp: Mods_def)
qed

lemma effects_ok_cong:
  "map biSkillID l' = map biSkillID l \<Longrightarrow> map biAbnormalType l' = map biAbnormalType l \<Longrightarrow> effects_ok l' = effects_ok l"
  by (simp add: effects_ok_def)

lemma typed_cong:
  assumes "map biSkillID l' = map biSkillID l" "map biAbnormalType l' = map biAbnormalType l"
    "\<forall>b\<in>set l. biAbnormalType b = ty (biSkillID b)"
  shows "\<forall>b\<in>set l'. biAbnormalType b = ty (biSkillID b)"
proof -
  have "map biAbnormalType l = map ty (map biSkillID l)" using assms(3) by simp
  then have "map biAbnormalType l' = map ty (map biSkillID l')" using assms(1,2) by simp
  then show ?thesis by simp
qed

lemma loop_ok_untracked:
  assumes "loop_ok ty gone st" "\<And>p. map_of (blPlayers st) i = Some p \<Longrightarrow> bpEffects p = []"
  shows "loop_ok ty gone (st\<lparr>buffedPlayers := AList.delete i (buffedPlayers st)\<rparr>)"
  using assms unfolding loop_ok_def by (auto simp: player_ok_def)

text \<open>One turn of the loop: what is left of player \<open>i\<close>, and nothing of another player is touched.\<close>

lemma service_player_other:
  "j \<noteq> i \<Longrightarrow> map_of (blPlayers (service_player now i st)) j = map_of (blPlayers st) j"
  by (simp add: service_player_def Let_def case_prod_unfold buff_defs split: option.split)

lemma service_player_live:
  assumes "map_of (blPlayers st) i = Some p" "bpCharacter p = Some c" "bpEffects p \<noteq> []"
  obtains l where "map biSkillID l = map biSkillID (bpEffects p)" "map biAbnormalType l = map biAbnormalType (bpEffects p)"
    "Mods l = Mods (bpEffects p)"
    "service_player now i st =
       (let kept = filter (\<lambda>b. \<not> expired now b) l; quiet = (filter (expired now) l = []);
            st = emit (if bcAlive c then fst (tick_buffs now i (bpEffects p)) else []) st
        in if quiet then put_player i (p\<lparr>bpEffects := kept\<rparr>) st
           else let st = emit [sendAbnormalStatus now i kept, UserInfo i] (put_player i (RebuildStatMods (p\<lparr>bpEffects := kept\<rparr>)) st)
                in if kept = [] then st\<lparr>buffedPlayers := AList.delete i (buffedPlayers st)\<rparr> else st)"
proof -
  obtain out l where ticks: "tick_buffs now i (bpEffects p) = (out, l)" by fastforce
  define k where "k = (if bcAlive c then l else bpEffects p)"
  have "map biSkillID k = map biSkillID (bpEffects p)" "map biAbnormalType k = map biAbnormalType (bpEffects p)"
    "Mods k = Mods (bpEffects p)" using tick_buffs_keeps [OF ticks] by (simp_all add: k_def)
  moreover have "service_player now i st =
       (let kept = filter (\<lambda>b. \<not> expired now b) k; quiet = (filter (expired now) k = []);
            st = emit (if bcAlive c then fst (tick_buffs now i (bpEffects p)) else []) st
        in if quiet then put_player i (p\<lparr>bpEffects := kept\<rparr>) st
           else let st = emit [sendAbnormalStatus now i kept, UserInfo i] (put_player i (RebuildStatMods (p\<lparr>bpEffects := kept\<rparr>)) st)
                in if kept = [] then st\<lparr>buffedPlayers := AList.delete i (buffedPlayers st)\<rparr> else st)"
    using assms ticks by (cases "bcAlive c") (simp_all add: service_player_def k_def RemoveExpired_filter Let_def)
  ultimately show thesis using that by blast
qed

lemma player_ok_no_char: "player_ok ty a b p \<Longrightarrow> bpCharacter p = None \<Longrightarrow> bpEffects p = []"
  by (simp add: player_ok_def)

lemma service_player_idle:
  assumes inv: "loop_ok ty gone st"
    and "\<not> (\<exists>p c. map_of (blPlayers st) i = Some p \<and> bpCharacter p = Some c \<and> bpEffects p \<noteq> [])"
  shows "service_player now i st = st\<lparr>buffedPlayers := AList.delete i (buffedPlayers st)\<rparr>"
    "map_of (blPlayers st) i = Some p \<Longrightarrow> bpEffects p = []"
proof -
  show *: "bpEffects p = []" if "map_of (blPlayers st) i = Some p" for p
    using assms(2) player_ok_no_char [OF loop_okD [OF inv that]] that by (cases "bpCharacter p") auto
  then show "service_player now i st = st\<lparr>buffedPlayers := AList.delete i (buffedPlayers st)\<rparr>"
    by (auto simp: service_player_def split: option.split)
qed

lemma loop_ok_service_player:
  assumes inv: "loop_ok ty gone st"
  shows "loop_ok ty gone (service_player now i st)"
proof (cases "\<exists>p c. map_of (blPlayers st) i = Some p \<and> bpCharacter p = Some c \<and> bpEffects p \<noteq> []")
  case True
  then obtain p c where p: "map_of (blPlayers st) i = Some p" "bpCharacter p = Some c" "bpEffects p \<noteq> []" by blast
  from p obtain l where l: "map biSkillID l = map biSkillID (bpEffects p)" "map biAbnormalType l = map biAbnormalType (bpEffects p)"
    "Mods l = Mods (bpEffects p)" and run: "service_player now i st =
       (let kept = filter (\<lambda>b. \<not> expired now b) l; quiet = (filter (expired now) l = []);
            st = emit (if bcAlive c then fst (tick_buffs now i (bpEffects p)) else []) st
        in if quiet then put_player i (p\<lparr>bpEffects := kept\<rparr>) st
           else let st = emit [sendAbnormalStatus now i kept, UserInfo i] (put_player i (RebuildStatMods (p\<lparr>bpEffects := kept\<rparr>)) st)
                in if kept = [] then st\<lparr>buffedPlayers := AList.delete i (buffedPlayers st)\<rparr> else st)"
    by (rule service_player_live)
  let ?kept = "filter (\<lambda>b. \<not> expired now b) l"
  have pok: "player_ok ty (map_of (buffedPlayers st) i = Some () \<or> i \<in> gone) (map_of (flaggedPlayers st) i = Some () \<or> i \<in> gone) p"
    by (rule loop_okD [OF inv p(1)])
  then have p_ok: "effects_ok (bpEffects p)" "\<forall>b\<in>set (bpEffects p). biAbnormalType b = ty (biSkillID b)"
    and tracked: "map_of (buffedPlayers st) i = Some () \<or> i \<in> gone"
    using p(3) by (simp_all add: player_ok_def)
  have "effects_ok l" using effects_ok_cong [OF l(1,2)] p_ok(1) by simp
  then have ok: "effects_ok ?kept" "\<forall>b\<in>set ?kept. biAbnormalType b = ty (biSkillID b)"
    using typed_cong [OF l(1,2) p_ok(2)] by (simp_all add: effects_ok_filter)
  show ?thesis
  proof (cases "filter (expired now) l = []")
    case True
    then have "?kept = l" by (simp add: filter_empty_conv filter_id_conv)
    then have "player_ok ty (map_of (buffedPlayers st) i = Some () \<or> i \<in> gone) (map_of (flaggedPlayers st) i = Some () \<or> i \<in> gone) (p\<lparr>bpEffects := ?kept\<rparr>)"
      using pok ok p l(3) by (auto simp: player_ok_def)
    then show ?thesis using run True loop_ok_put [OF inv, of _ i "p\<lparr>bpEffects := ?kept\<rparr>"]
      by (simp add: buff_defs Let_def)
  next
    case False
    let ?p = "RebuildStatMods (p\<lparr>bpEffects := ?kept\<rparr>)"
    have good: "player_ok ty tr (map_of (flaggedPlayers st) i = Some () \<or> i \<in> gone) ?p" if "tr \<or> ?kept = []" for tr
      using that pok ok p(2) by (auto simp: player_ok_def)
    show ?thesis
    proof (cases "?kept = []")
      case True
      then show ?thesis using run False good [of "i \<in> gone"] loop_ok_put [OF inv, of _ i ?p]
        by (simp add: buff_defs Let_def)
    next
      case kept: False
      then show ?thesis using run False good [of True] tracked loop_ok_put [OF inv, of _ i ?p]
        by (simp add: buff_defs Let_def)
    qed
  qed
next
  case False
  show ?thesis
    using loop_ok_untracked [OF inv service_player_idle(2) [OF inv False]] service_player_idle(1) [OF inv False]
    by simp
qed

definition no_expired :: "int \<Rightarrow> 'f buff_loop \<Rightarrow> int \<Rightarrow> bool" where
  "no_expired now st i \<longleftrightarrow> (\<forall>p. map_of (blPlayers st) i = Some p \<longrightarrow> (\<forall>b\<in>set (bpEffects p). \<not> expired now b))"

lemma no_expired_service:
  assumes "loop_ok ty gone st"
  shows "no_expired now (service_player now i st) i"
proof (cases "\<exists>p c. map_of (blPlayers st) i = Some p \<and> bpCharacter p = Some c \<and> bpEffects p \<noteq> []")
  case True
  then obtain p c where p: "map_of (blPlayers st) i = Some p" "bpCharacter p = Some c" "bpEffects p \<noteq> []" by blast
  show ?thesis
    by (rule service_player_live [OF p, of now]) (simp add: no_expired_def buff_defs Let_def)
next
  case False
  show ?thesis
    using service_player_idle(2) [OF assms False] service_player_idle(1) [OF assms False]
    by (auto simp: no_expired_def)
qed

lemma no_expired_other: "no_expired now st j \<Longrightarrow> j \<noteq> i \<Longrightarrow> no_expired now (service_player now i st) j"
  by (simp add: no_expired_def service_player_other)

lemma service_all:
  "loop_ok ty gone st \<Longrightarrow> loop_ok ty gone (fold (service_player now) ks st)
     \<and> (\<forall>j. j \<in> set ks \<or> no_expired now st j \<longrightarrow> no_expired now (fold (service_player now) ks st) j)"
proof (induction ks arbitrary: st)
  case (Cons i ks)
  note step = Cons.IH [OF loop_ok_service_player [OF Cons.prems, of now i]]
  have "no_expired now (service_player now i st) j" if "j = i \<or> no_expired now st j" for j
    using that no_expired_service [OF Cons.prems, of now i] no_expired_other [of now st j i] by blast
  with step show ?case by auto
qed simp

definition no_old_flag :: "int \<Rightarrow> 'f buff_loop \<Rightarrow> int \<Rightarrow> bool" where
  "no_old_flag now st i \<longleftrightarrow> (\<forall>p t. map_of (blPlayers st) i = Some p \<longrightarrow> bpPvPFlagUntil p = Some t \<longrightarrow> now < t)"

lemma loop_ok_expire_flag:
  assumes inv: "loop_ok ty gone st"
  shows "loop_ok ty gone (expire_flag now i st)"
proof (cases "\<exists>p t. map_of (blPlayers st) i = Some p \<and> bpPvPFlagUntil p = Some t")
  case True
  then obtain p t where p: "map_of (blPlayers st) i = Some p" "bpPvPFlagUntil p = Some t" by blast
  let ?p = "p\<lparr>bpPvPFlagUntil := None\<rparr>"
  have "player_ok ty (map_of (buffedPlayers st) i = Some () \<or> i \<in> gone) (i \<in> gone) ?p"
    using loop_okD [OF inv p(1)] by (cases "bpCharacter p") (simp_all add: player_ok_def)
  then have "loop_ok ty gone (put_player i ?p (st\<lparr>flaggedPlayers := AList.delete i (flaggedPlayers st)\<rparr>))"
    using loop_ok_put [OF inv, of _ i ?p] by (simp add: put_player_def)
  then show ?thesis using p inv by (simp add: expire_flag_def Let_def)
next
  case False
  then have "expire_flag now i st = st\<lparr>flaggedPlayers := AList.delete i (flaggedPlayers st)\<rparr>"
    by (auto simp: expire_flag_def split: option.split)
  moreover have "loop_ok ty gone (st\<lparr>flaggedPlayers := AList.delete i (flaggedPlayers st)\<rparr>)"
    using inv False unfolding loop_ok_def by (auto simp: player_ok_def)
  ultimately show ?thesis by simp
qed

lemma expire_flag_other: "j \<noteq> i \<Longrightarrow> map_of (blPlayers (expire_flag now i st)) j = map_of (blPlayers st) j"
  by (simp add: expire_flag_def buff_defs Let_def split: option.split)

lemma no_old_flag_expire: "j = i \<or> no_old_flag now st j \<Longrightarrow> no_old_flag now (expire_flag now i st) j"
  by (cases "j = i") (auto simp: no_old_flag_def expire_flag_other expire_flag_def buff_defs Let_def
      split: option.split if_splits)

lemma expire_all:
  "loop_ok ty gone st \<Longrightarrow> loop_ok ty gone (fold (expire_flag now) ks st)
     \<and> (\<forall>j. j \<in> set ks \<or> no_old_flag now st j \<longrightarrow> no_old_flag now (fold (expire_flag now) ks st) j)"
proof (induction ks arbitrary: st)
  case (Cons i ks)
  show ?case
    using Cons.IH [OF loop_ok_expire_flag [OF Cons.prems, of now i]] no_old_flag_expire [of _ i now st] by auto
qed simp

lemma tracked_key: "map_of m i = Some () \<Longrightarrow> i \<in> set (map fst m)"
  by (force dest: map_of_SomeD)

lemma loop_ok_expirePvPFlags: "loop_ok ty gone st \<Longrightarrow> loop_ok ty gone (expirePvPFlags now st)"
  by (simp add: expirePvPFlags_def expire_all)

lemma no_old_flag_expirePvPFlags:
  assumes "loop_ok ty gone st"
    and "i \<notin> gone"
  shows "no_old_flag now (expirePvPFlags now st) i"
proof -
  have "i \<in> set (map fst (flaggedPlayers st)) \<or> no_old_flag now st i"
    using loop_okD [OF assms(1), of i] assms(2) tracked_key [of "flaggedPlayers st" i]
    by (auto simp: no_old_flag_def player_ok_def)
  then show ?thesis using expire_all [OF assms(1), of now] unfolding expirePvPFlags_def by blast
qed

lemma service_player_flag:
  "no_old_flag now st j \<Longrightarrow> no_old_flag now (service_player now i st) j"
  by (cases "j = i") (auto simp: no_old_flag_def service_player_other service_player_def buff_defs Let_def case_prod_unfold
      split: option.splits if_splits)

lemma service_fold_flag:
  "no_old_flag now st j \<Longrightarrow> no_old_flag now (fold (service_player now) ks st) j"
  by (induction ks arbitrary: st) (simp_all add: service_player_flag)

lemma serviceBuffs_ok:
  assumes inv: "loop_ok ty gone st"
  shows "loop_ok ty gone (serviceBuffs now st)"
    and "i \<notin> gone \<Longrightarrow> no_expired now (serviceBuffs now st) i" and "i \<notin> gone \<Longrightarrow> no_old_flag now (serviceBuffs now st) i"
proof -
  let ?st = "expirePvPFlags now st"
  have ok: "loop_ok ty gone ?st" by (rule loop_ok_expirePvPFlags [OF inv])
  show "loop_ok ty gone (serviceBuffs now st)"
    using service_all [OF ok, of now] unfolding serviceBuffs_def Let_def by blast
  assume i: "i \<notin> gone"
  have "i \<in> set (map fst (buffedPlayers ?st)) \<or> no_expired now ?st i"
    using loop_okD [OF ok, of i] i tracked_key [of "buffedPlayers ?st" i] by (force simp: no_expired_def player_ok_def)
  then show "no_expired now (serviceBuffs now st) i" "no_old_flag now (serviceBuffs now st) i"
    using service_all [OF ok, of now] service_fold_flag [OF no_old_flag_expirePvPFlags [OF inv i, of now]]
    unfolding serviceBuffs_def Let_def by blast+
qed

lemma loop_ok_setPvPFlag:
  assumes inv: "loop_ok ty gone st"
  shows "loop_ok ty gone (setPvPFlag now i st)"
proof (cases "map_of (blPlayers st) i")
  case (Some p)
  let ?p = "p\<lparr>bpPvPFlagUntil := Some (now + pvpFlagDuration)\<rparr>"
  have "player_ok ty (map_of (buffedPlayers st) i = Some () \<or> i \<in> gone) True ?p"
    using loop_okD [OF inv Some] by (cases "bpCharacter p") (simp_all add: player_ok_def)
  then have "loop_ok ty gone (put_player i ?p (st\<lparr>flaggedPlayers := AList.update i () (flaggedPlayers st)\<rparr>))"
    using loop_ok_put [OF inv, of _ i ?p] by (simp add: put_player_def)
  with Some inv show ?thesis by (simp add: setPvPFlag_def Let_def)
qed (use inv in \<open>simp add: setPvPFlag_def\<close>)

text \<open>
  The runs. A disconnect may be handled at any time, also for a player that stays in the world: from then
  on, until it joins again, it is one of those \<open>gone\<close>. The abnormal type of a buff belongs to its skill,
  whatever the level.
\<close>

fun op_ok :: "(int \<Rightarrow> string) \<Rightarrow> 'f buff_op \<Rightarrow> bool" where
  "op_ok ty (ApplyBuff i skill) = (skAbnormalType skill = ty (skID skill))"
| "op_ok ty _ = True"

fun gone_after :: "'f buff_op \<Rightarrow> int set \<Rightarrow> int set" where
  "gone_after (Disconnected i) gone = insert i gone"
| "gone_after (Joined i alive karma) gone = gone - {i}"
| "gone_after _ gone = gone"

inductive buff_run :: "(string \<Rightarrow> rat option) \<Rightarrow> (int \<Rightarrow> string) \<Rightarrow> int set \<Rightarrow> 'f buff_loop \<Rightarrow> bool" for pf ty where
  start: "buff_run pf ty {} NewBuffLoop"
| step: "buff_run pf ty gone st \<Longrightarrow> op_ok ty op \<Longrightarrow> buff_run pf ty (gone_after op gone) (buff_step pf (now, op) st)"

lemma loop_ok_step:
  fixes st :: "'a buff_loop"
  assumes inv: "loop_ok ty gone st" and ok: "op_ok ty op"
  shows "loop_ok ty (gone_after op gone) (buff_step pf (now, op) st)"
proof (cases op)
  case (Disconnected i)
  then show ?thesis
    using inv unfolding loop_ok_def by (auto simp: untrack_def intro: player_ok_mono)
next
  case (Left i)
  with inv show ?thesis unfolding loop_ok_def by auto
next
  case (Joined i alive karma)
  have "player_ok ty a b (fresh_player alive karma :: 'a buff_player)" for a b :: bool
    by (simp add: player_ok_def fresh_player_def)
  then show ?thesis using inv by (auto simp: Joined put_player_def loop_ok_def)
next
  case (NewMods i pm em)
  show ?thesis
  proof (cases "map_of (blPlayers st) i")
    case (Some p)
    show ?thesis using loop_okD [OF inv Some]
      by (auto simp: NewMods Some put_player_def player_ok_def split: option.splits intro!: loop_ok_put [OF inv, of _ i])
  qed (use inv NewMods in simp)
next
  case (Changed i alive karma)
  show ?thesis
  proof (cases "map_of (blPlayers st) i")
    case (Some p)
    show ?thesis using loop_okD [OF inv Some]
      by (auto simp: Changed Some put_player_def player_ok_def split: option.splits intro!: loop_ok_put [OF inv, of _ i])
  qed (use inv Changed in simp)
qed (use inv ok in \<open>simp_all add: loop_ok_applyBuff loop_ok_toggleOff loop_ok_setPvPFlag serviceBuffs_ok\<close>)

lemma buff_run_ok: "buff_run pf ty gone st \<Longrightarrow> loop_ok ty gone st"
  by (induction rule: buff_run.induct) (simp_all add: loop_ok_step, simp add: loop_ok_def NewBuffLoop_def)

section \<open>Properties\<close>

text \<open>
  C19: Adding an effect implements the stacking rules of the comment: the older effect of the same skill
  goes, a stronger effect of the same abnormal type refuses the new one, a weaker or equal one is
  replaced; and the list keeps one effect for a skill and one for an abnormal type.
\<close>

theorem buff_stacking:
  assumes "effects_ok l"
  shows "Add b l = add_spec b l \<and> effects_ok (snd (Add b l))
    \<and> effects_ok (snd (RemoveSkill s l)) \<and> effects_ok (snd (RemoveExpired now l))"
  using assms by (simp_all add: Add_eq_spec effects_ok_add_spec effects_ok_RemoveSkill effects_ok_RemoveExpired)

definition sample_effect :: "int SkillEffect" where
  "sample_effect = \<lparr>seName = ''Buff'', seScope = ''GENERAL'', seParams = [],
     seFuncs = [\<lparr>sfOp = ''mul'', sfStat = ''pAtk'', sfVal = 2\<rparr>]\<rparr>"

definition sample_buff_skill :: "int \<Rightarrow> int \<Rightarrow> int Skill" where
  "sample_buff_skill s l = \<lparr>skID = s, skLevel = l, skDisplayID = s, skDisplayLevel = l, skOperateType = ''A2'',
     skAbnormalType = ''PA_UP'', skAbnormalLvl = l, skAbnormalTime = 10, skEffects = [sample_effect]\<rparr>"

definition sample_buff :: "int \<Rightarrow> int \<Rightarrow> int BuffInfo" where
  "sample_buff s l = the (buildBuffFromSkill (\<lambda>_. None) (sample_buff_skill s l) 0)"

lemma sample_buff_parts:
  "buildBuffFromSkill (\<lambda>_. None) (sample_buff_skill s l) now = Some
     \<lparr>biSkillID = s, biSkillLevel = l, biDisplayID = s, biDisplayLevel = l, biAbnormalType = ''PA_UP'',
      biAbnormalLvl = l, biDurationSec = 10, biToggle = False,
      biMods = [\<lparr>smStat = ''pAtk'', smOp = ''mul'', smVal = 2\<rparr>], biTicks = [],
      biExpiresAt = Some (now + 10 * second), biNextTick = None\<rparr>"
  by (simp add: buildBuffFromSkill_def sample_buff_skill_def sample_effect_def IsToggle_def operate_toggle_def
      ModifiersFromFuncs_def HasTicks_def Let_def)

lemma buff_stacking_witness:
  "Add (sample_buff 7 1) [sample_buff 9 2] = (False, [sample_buff 9 2])
   \<and> Add (sample_buff 7 3) [sample_buff 9 2] = (True, [sample_buff 7 3])"
proof -
  have ok: "effects_ok [sample_buff 9 2]" by (simp add: effects_ok_def)
  have parts: "biSkillID (sample_buff s l) = s" "biAbnormalType (sample_buff s l) = ''PA_UP''"
    "biAbnormalLvl (sample_buff s l) = l" for s l by (simp_all add: sample_buff_def sample_buff_parts)
  show ?thesis using buff_stacking [OF ok, of "sample_buff 7 1"] buff_stacking [OF ok, of "sample_buff 7 3"]
    by (simp add: add_spec_def parts real_type_def AbnormalNone_def)
qed


definition sample_run :: "int buff_loop" where
  "sample_run = run_buffs (\<lambda>_. None) [(0, Joined 1 True 0), (0, ApplyBuff 1 (sample_buff_skill 7 1)), (0, FlagPvP 1)]"

lemma sample_run_players:
  "map_of (blPlayers sample_run) 1 = Some \<lparr>bpCharacter = Some \<lparr>bcAlive = True, bcKarma = 0,
       bcStatMods = [\<lparr>smStat = ''pAtk'', smOp = ''mul'', smVal = 2\<rparr>]\<rparr>,
     bpPvPFlagUntil = Some (120 * second), bpPassiveMods = [], bpEquipMods = [], bpEffects = [sample_buff 7 1]\<rparr>"
  by (simp add: sample_run_def run_buffs_def NewBuffLoop_def fresh_player_def applyBuff_def setPvPFlag_def sample_buff_parts
      Add_def indexOfSkill_def indexOfType_def AbnormalNone_def buff_defs RebuildStatMods_def Mods_def pvpFlagDuration_def
      sample_buff_def Let_def)

lemma sample_run_run: "buff_run (\<lambda>_. None) (\<lambda>_. ''PA_UP'') {} sample_run"
proof -
  let ?run = "buff_run (\<lambda>_. None) (\<lambda>_. ''PA_UP'') {} :: int buff_loop \<Rightarrow> bool"
  have step: "?run (buff_step (\<lambda>_. None) (0, op) st)" if "?run st" "op_ok (\<lambda>_. ''PA_UP'') op" "gone_after op {} = {}" for op st
    using buff_run.step [OF that(1,2), of 0] that(3) by simp
  then show ?thesis
    unfolding sample_run_def run_buffs_def fold_simps id_apply comp_apply
    by (intro step buff_run.start) (simp_all add: sample_buff_skill_def)
qed



text \<open>
  The modifiers of a character are, in every run, those of its passive skills, of its equipment and
  of its effects, in this order, and its effects never hold a skill or an abnormal type twice.
\<close>

theorem modifiers_follow_effects:
  assumes "buff_run pf ty gone st" "map_of (blPlayers st) i = Some p" "bpCharacter p = Some c"
  shows "bcStatMods c = bpPassiveMods p @ bpEquipMods p @ Mods (bpEffects p) \<and> effects_ok (bpEffects p)"
  using loop_okD [OF buff_run_ok [OF assms(1)] assms(2)] assms(3) by (simp add: player_ok_def)

lemma modifiers_follow_effects_witness:
  "\<exists>p c. map_of (blPlayers sample_run) 1 = Some p \<and> bpCharacter p = Some c
     \<and> bcStatMods c = [\<lparr>smStat = ''pAtk'', smOp = ''mul'', smVal = 2\<rparr>] \<and> effects_ok (bpEffects p)"
  using modifiers_follow_effects [OF sample_run_run sample_run_players] sample_run_players by simp

text \<open>
  C39: A player whose disconnect the loop handles while it stays in the world, which is what a refused
  restart does (\<open>handleRequestRestart\<close> sends \<open>CmdPlayerDisconnected\<close> before it asks whether the player
  may leave), keeps its effects for good: however often the sweep runs, and however long after their
  end, none is taken away or ticks.
\<close>

theorem refused_restart_freezes_effects:
  assumes "map_of (blPlayers st) i = Some p"
  shows "map_of (blPlayers (fold serviceBuffs ts (untrack i st))) i = Some p"
proof -
  define kept where "kept = (\<lambda>s :: 'a buff_loop. map_of (blPlayers s) i = Some p
    \<and> map_of (buffedPlayers s) i = None \<and> map_of (flaggedPlayers s) i = None)"
  have expire: "kept (expire_flag now j s)" if "kept s" "j \<noteq> i" for now j s
    using that by (auto simp: kept_def expire_flag_other expire_flag_def buff_defs Let_def split: option.split)
  have service: "kept (service_player now j s)" if "kept s" "j \<noteq> i" for now j s
    using that by (auto simp: kept_def service_player_other service_player_def buff_defs Let_def case_prod_unfold
        split: option.split)
  have folds: "kept (fold f ks s)" if "\<And>j s. j \<noteq> i \<Longrightarrow> kept s \<Longrightarrow> kept (f j s)" "kept s" "i \<notin> set ks"
    for f ks s using that by (induction ks arbitrary: s) auto
  have keys: "i \<notin> set (map fst m)" if "map_of m i = None" for m :: "(int, unit) go_map"
    using that by (simp add: map_of_eq_None_iff)
  have "kept (serviceBuffs now s)" if s: "kept s" for now s
  proof -
    have "kept (expirePvPFlags now s)"
      unfolding expirePvPFlags_def by (rule folds) (use s expire keys in \<open>auto simp: kept_def\<close>)
    then show ?thesis
      unfolding serviceBuffs_def Let_def by (intro folds) (use service keys in \<open>auto simp: kept_def\<close>)
  qed
  then have "kept (fold serviceBuffs ts s)" if "kept s" for s
    using that by (induction ts arbitrary: s) auto
  then have "kept (fold serviceBuffs ts (untrack i st))" using assms by (simp add: kept_def untrack_def)
  then show ?thesis by (simp add: kept_def)
qed

lemma refused_restart_freezes_effects_witness:
  "\<exists>p. map_of (blPlayers (fold serviceBuffs [60 * second, 3600 * second] (untrack 1 sample_run))) 1 = Some p
     \<and> bpEffects p = [sample_buff 7 1] \<and> biExpiresAt (sample_buff 7 1) = Some (10 * second)"
  using refused_restart_freezes_effects [OF sample_run_players, of "[60 * second, 3600 * second]"]
  by (simp add: sample_buff_def sample_buff_parts)

end
