(* ===== verification/Items.thy ===== *)
theory Items
  imports GameStores "HOL-Library.Product_Lexorder"
begin

text \<open>
  Items of the game server: the table \<open>character_items\<close> with its constraints and the statements of
  \<open>gameserver/repo/postgres_items.go\<close> on it, with the methods of an item (\<open>models/item.go\<close>).
  A statement may fail: \<open>db_fault\<close> says of every call, by its number, whether it does, so that a theorem
  without a hypothesis on it speaks of every pattern of failures. A row has every column but
  \<open>created_at\<close>; \<open>ExpireTime\<close> is the column \<open>time\<close>. A count is an \<open>int64\<close> in the code and an unbounded
  integer here.
\<close>

section \<open>Items, templates and the table\<close>

datatype ItemLocation = LocInventory | LocPaperdoll | LocWarehouse | LocClanWH | LocPet | LocPetEquip | LocFreight

text \<open>Locations are strings in the code; the order is that of their names.\<close>

fun location_rank :: "ItemLocation \<Rightarrow> nat" where
  "location_rank LocClanWH = 0"
| "location_rank LocFreight = 1"
| "location_rank LocInventory = 2"
| "location_rank LocPaperdoll = 3"
| "location_rank LocPet = 4"
| "location_rank LocPetEquip = 5"
| "location_rank LocWarehouse = 6"

lemma location_rank_inj: "location_rank a = location_rank b \<longleftrightarrow> a = b"
  by (cases a; cases b) simp_all

instantiation ItemLocation :: linorder
begin

definition less_eq_ItemLocation :: "ItemLocation \<Rightarrow> ItemLocation \<Rightarrow> bool" where
  "a \<le> b \<longleftrightarrow> location_rank a \<le> location_rank b"

definition less_ItemLocation :: "ItemLocation \<Rightarrow> ItemLocation \<Rightarrow> bool" where
  "a < b \<longleftrightarrow> location_rank a < location_rank b"

instance
  by standard (auto simp: less_eq_ItemLocation_def less_ItemLocation_def location_rank_inj)

end

record CharacterItem =
  ObjectID :: int
  OwnerID :: int
  ItemID :: int
  Count :: int
  Loc :: ItemLocation
  LocData :: int
  EnchantLevel :: int
  CustomType1 :: int
  CustomType2 :: int
  ManaLeft :: int
  ExpireTime :: int
  AugmentationID :: int
  AugmentationSkill1 :: int
  AugmentationSkill2 :: int
  AttributeFire :: int
  AttributeWater :: int
  AttributeWind :: int
  AttributeEarth :: int
  AttributeHoly :: int
  AttributeDark :: int
  VisualID :: int
  IsBlessed :: bool
  IsProtected :: bool

datatype ItemType2 =
  ItemType2Weapon | ItemType2Armor | ItemType2Accessory | ItemType2Quest | ItemType2Money | ItemType2Other

record ExtractableProduct =
  epID :: int
  epMin :: int
  epMax :: int
  epChance :: int

record ItemTemplate =
  tmID :: int
  BodyPartCode :: int
  Type2 :: ItemType2
  Handler :: string
  EtcItemType :: string
  CrystalType :: int
  IsMagicWeapon :: bool
  Enchantable :: bool
  Stackable :: bool
  Soulshots :: int
  Spiritshots :: int
  ItemSkills :: "(int \<times> int) list"
  CapsuledItems :: "ExtractableProduct list"
  ReuseDelay :: int
  SharedReuseGroup :: int

text \<open>What the item handlers tell the client and the game loop, in order.\<close>

datatype item_note =
    SystemMessage int int
  | ItemSystemMessage int int int
  | SystemMessageWithInt int int int
  | BroadcastShotVisual int int int
  | CastItemSkill int int int
  | ChooseInventoryItem int int

type_synonym item_table = "(int, CharacterItem) go_map"

record items =
  rows :: item_table
  next_object :: int
  db_calls :: nat
  charged :: charged_shots
  reuse :: item_reuse
  auto :: auto_shots
  armed :: enchant_state
  recipes :: "(int \<times> int \<times> bool) list"
  told :: "item_note list"

text \<open>
  The constraints of the table: the primary key, the \<open>CHECK\<close> of each row, and the unique index on the
  paperdoll.
\<close>

definition attributes :: "CharacterItem \<Rightarrow> int list" where
  "attributes i = [AttributeFire i, AttributeWater i, AttributeWind i, AttributeEarth i, AttributeHoly i, AttributeDark i]"

definition row_ok :: "CharacterItem \<Rightarrow> bool" where
  "row_ok r \<longleftrightarrow> 0 < Count r \<and> 0 \<le> EnchantLevel r \<and> EnchantLevel r \<le> 127
     \<and> (if Loc r = LocPaperdoll then 0 \<le> LocData r \<and> LocData r \<le> 25 else LocData r = -1)
     \<and> list_all (\<lambda>v. 0 \<le> v) (attributes r)"

lemma attributes_update [simp]:
  "attributes (r\<lparr>ObjectID := i\<rparr>) = attributes r" "attributes (r\<lparr>OwnerID := i\<rparr>) = attributes r"
  "attributes (r\<lparr>ItemID := i\<rparr>) = attributes r" "attributes (r\<lparr>Count := i\<rparr>) = attributes r"
  "attributes (r\<lparr>Loc := l\<rparr>) = attributes r" "attributes (r\<lparr>LocData := i\<rparr>) = attributes r"
  "attributes (r\<lparr>EnchantLevel := i\<rparr>) = attributes r"
  by (simp_all add: attributes_def)

definition worn_keys :: "item_table \<Rightarrow> (int \<times> int) list" where
  "worn_keys t = map (\<lambda>(_, r). (OwnerID r, LocData r)) (filter (\<lambda>(_, r). Loc r = LocPaperdoll) t)"

definition table_ok :: "item_table \<Rightarrow> bool" where
  "table_ok t \<longleftrightarrow> map_ok t \<and> list_all (\<lambda>(i, r). ObjectID r = i \<and> row_ok r) t \<and> distinct (worn_keys t)"

section \<open>The statements\<close>

type_synonym 'a item_op = "items \<Rightarrow> (go_error + 'a) \<times> items"

definition item_bind :: "'a item_op \<Rightarrow> ('a \<Rightarrow> 'b item_op) \<Rightarrow> 'b item_op" where
  "item_bind m f = (\<lambda>st. case m st of (Inl e, st) \<Rightarrow> (Inl e, st) | (Inr a, st) \<Rightarrow> f a st)"

definition item_return :: "'a \<Rightarrow> 'a item_op" where
  "item_return a = (\<lambda>st. (Inr a, st))"

definition item_fail :: "go_error \<Rightarrow> 'a item_op" where
  "item_fail e = (\<lambda>st. (Inl e, st))"

definition item_modify :: "(items \<Rightarrow> items) \<Rightarrow> unit item_op" where
  "item_modify f = (\<lambda>st. (Inr (), f st))"

text \<open>\<open>fmt.Errorf("...: %w", err)\<close>.\<close>

definition wrap_error :: "string \<Rightarrow> 'a item_op \<Rightarrow> 'a item_op" where
  "wrap_error msg m = (\<lambda>st. case m st of (Inl e, st) \<Rightarrow> (Inl (msg @ '': '' @ e), st) | (Inr a, st) \<Rightarrow> (Inr a, st))"

type_synonym db_fault = "nat \<Rightarrow> bool"

definition query :: "db_fault \<Rightarrow> string \<Rightarrow> (item_table \<Rightarrow> 'a) \<Rightarrow> 'a item_op" where
  "query fault msg f = (\<lambda>st.
     let n = db_calls st; st = st\<lparr>db_calls := n + 1\<rparr>
     in if fault n then (Inl msg, st) else (Inr (f (rows st)), st))"

definition exec :: "db_fault \<Rightarrow> string \<Rightarrow> (item_table \<Rightarrow> item_table) \<Rightarrow> unit item_op" where
  "exec fault msg f = (\<lambda>st.
     let n = db_calls st; st = st\<lparr>db_calls := n + 1\<rparr>; t = f (rows st)
     in if fault n \<or> \<not> table_ok t then (Inl msg, st) else (Inr (), st\<lparr>rows := t\<rparr>))"

definition update_rows :: "(CharacterItem \<Rightarrow> bool) \<Rightarrow> (CharacterItem \<Rightarrow> CharacterItem) \<Rightarrow> item_table \<Rightarrow> item_table" where
  "update_rows P f t = map (\<lambda>(i, r). (i, if P r then f r else r)) t"

definition GetByObjectID :: "db_fault \<Rightarrow> int \<Rightarrow> CharacterItem option item_op" where
  "GetByObjectID fault objectID = query fault ''failed to get item by object ID'' (\<lambda>t. map_of t objectID)"

definition GetEquippedItem :: "db_fault \<Rightarrow> int \<Rightarrow> int \<Rightarrow> CharacterItem option item_op" where
  "GetEquippedItem fault charID slot =
     query fault ''failed to get equipped item''
       (\<lambda>t. find (\<lambda>r. OwnerID r = charID \<and> Loc r = LocPaperdoll \<and> LocData r = slot) (map snd t))"

definition GetByCharacter :: "db_fault \<Rightarrow> int \<Rightarrow> CharacterItem list item_op" where
  "GetByCharacter fault charID =
     query fault ''failed to query character items''
       (\<lambda>t. sort_key (\<lambda>r. (Loc r, LocData r, ObjectID r)) (filter (\<lambda>r. OwnerID r = charID) (map snd t)))"

definition UnequipSlot :: "db_fault \<Rightarrow> int \<Rightarrow> int \<Rightarrow> unit item_op" where
  "UnequipSlot fault charID slot =
     exec fault ''failed to unequip slot''
       (update_rows (\<lambda>r. OwnerID r = charID \<and> Loc r = LocPaperdoll \<and> LocData r = slot)
          (\<lambda>r. r\<lparr>Loc := LocInventory, LocData := -1\<rparr>))"

definition EquipItem :: "db_fault \<Rightarrow> int \<Rightarrow> int \<Rightarrow> unit item_op" where
  "EquipItem fault objectID slot =
     exec fault ''failed to equip item''
       (update_rows (\<lambda>r. ObjectID r = objectID) (\<lambda>r. r\<lparr>Loc := LocPaperdoll, LocData := slot\<rparr>))"

text \<open>\<open>Update\<close> writes every column but the owner, the item and the key.\<close>

definition item_Update :: "db_fault \<Rightarrow> CharacterItem \<Rightarrow> unit item_op" where
  "item_Update fault item =
     exec fault ''failed to update item''
       (update_rows (\<lambda>r. ObjectID r = ObjectID item)
          (\<lambda>r. item\<lparr>OwnerID := OwnerID r, ItemID := ItemID r\<rparr>))"

definition item_Delete :: "db_fault \<Rightarrow> int \<Rightarrow> unit item_op" where
  "item_Delete fault objectID =
     exec fault ''failed to delete item'' (filter (\<lambda>(_, r). ObjectID r \<noteq> objectID))"

text \<open>\<open>Create\<close>: the key comes from the sequence of the table, which no failure gives back.\<close>

definition item_Create :: "db_fault \<Rightarrow> CharacterItem \<Rightarrow> CharacterItem item_op" where
  "item_Create fault item = (\<lambda>st.
     let i = next_object st; item = item\<lparr>ObjectID := i\<rparr>; st = st\<lparr>next_object := i + 1\<rparr>
     in item_bind (exec fault ''failed to create item'' (\<lambda>t. t @ [(i, item)])) (\<lambda>_. item_return item) st)"

definition FindStackableItem :: "db_fault \<Rightarrow> int \<Rightarrow> int \<Rightarrow> ItemLocation \<Rightarrow> CharacterItem option item_op" where
  "FindStackableItem fault charID itemID location =
     query fault ''failed to find stackable item''
       (\<lambda>t. let rs = filter (\<lambda>r. OwnerID r = charID \<and> ItemID r = itemID \<and> Loc r = location
                        \<and> EnchantLevel r = 0 \<and> AugmentationID r = 0) (map snd t)
            in find (\<lambda>r. \<forall>r'\<in>set rs. Count r' \<le> Count r) rs)"

end
