(* ===== verification/Inventory.thy ===== *)
theory Inventory
  imports Items
begin

text \<open>
  The equipment rules, \<open>gameserver/usecase/inventory.go\<close>, with the body parts and paperdoll slots of
  \<open>models/item.go\<close> and the registry of item handlers (\<open>usecase/itemhandler.go\<close>). The item templates, the
  handlers, the clock and the failures of the database are fields of \<open>item_env\<close>.
\<close>

section \<open>Body parts and slots\<close>

abbreviation SlotHair :: int where "SlotHair \<equiv> 2"
abbreviation SlotHair2 :: int where "SlotHair2 \<equiv> 3"
abbreviation SlotRHand :: int where "SlotRHand \<equiv> 5"
abbreviation SlotChest :: int where "SlotChest \<equiv> 6"
abbreviation SlotLHand :: int where "SlotLHand \<equiv> 7"
abbreviation SlotREar :: int where "SlotREar \<equiv> 8"
abbreviation SlotLEar :: int where "SlotLEar \<equiv> 9"
abbreviation SlotLegs :: int where "SlotLegs \<equiv> 11"
abbreviation SlotRFinger :: int where "SlotRFinger \<equiv> 13"
abbreviation SlotLFinger :: int where "SlotLFinger \<equiv> 14"

abbreviation BodyPartLREar :: int where "BodyPartLREar \<equiv> 0x0006"
abbreviation BodyPartLRFinger :: int where "BodyPartLRFinger \<equiv> 0x0030"
abbreviation BodyPartLRHand :: int where "BodyPartLRHand \<equiv> 0x4000"
abbreviation BodyPartFullArmor :: int where "BodyPartFullArmor \<equiv> 0x8000"
abbreviation BodyPartHairAll :: int where "BodyPartHairAll \<equiv> 0x050000"

definition slot_table :: "(int \<times> int) list" where
  "slot_table =
     [(0x0001, 0), (0x0002, SlotREar), (0x0004, SlotLEar), (0x0006, SlotREar), (0x0008, 4),
      (0x0010, SlotRFinger), (0x0020, SlotLFinger), (0x0030, SlotRFinger), (0x0040, 1), (0x0080, SlotRHand),
      (0x0100, SlotLHand), (0x0200, 10), (0x0400, SlotChest), (0x0800, SlotLegs), (0x1000, 12), (0x2000, 23),
      (0x4000, SlotRHand), (0x8000, SlotChest), (0x010000, SlotHair), (0x040000, SlotHair2), (0x050000, SlotHair),
      (0x100000, 16), (0x200000, 15), (0x400000, 17), (0x10000000, 24)]"

definition BodyPartToPaperdollSlot :: "int \<Rightarrow> int option" where
  "BodyPartToPaperdollSlot bodyPartCode = map_of slot_table bodyPartCode"

definition IsDualSlot :: "int \<Rightarrow> bool" where
  "IsDualSlot bodyPartCode \<longleftrightarrow>
     bodyPartCode = BodyPartLREar \<or> bodyPartCode = BodyPartLRFinger \<or> bodyPartCode = BodyPartHairAll"

definition IsTwoHanded :: "int \<Rightarrow> bool" where
  "IsTwoHanded bodyPartCode \<longleftrightarrow> bodyPartCode = BodyPartLRHand"

definition IsFullArmor :: "int \<Rightarrow> bool" where
  "IsFullArmor bodyPartCode \<longleftrightarrow> bodyPartCode = BodyPartFullArmor"

definition IsEquipped :: "CharacterItem \<Rightarrow> bool" where
  "IsEquipped i \<longleftrightarrow> Loc i = LocPaperdoll \<and> 0 \<le> LocData i"

definition Equip :: "int \<Rightarrow> CharacterItem \<Rightarrow> CharacterItem" where
  "Equip slot i = i\<lparr>Loc := LocPaperdoll, LocData := slot\<rparr>"

definition Unequip :: "CharacterItem \<Rightarrow> CharacterItem" where
  "Unequip i = i\<lparr>Loc := LocInventory, LocData := -1\<rparr>"

section \<open>Equipping\<close>

record ChangedItem =
  ciItem :: CharacterItem
  ciUpdateType :: int

record SysMsgSpec =
  smID :: int
  smItemName :: int
  smInts :: "int list"

record ReuseSyncSpec =
  rsItemID :: int
  rsGroupID :: int
  rsRemaining :: int
  rsTotal :: int

record EquipResult =
  erChangedItems :: "ChangedItem list"
  erSuccess :: bool
  erMessages :: "SysMsgSpec list"
  erReuseSync :: "ReuseSyncSpec option"

record PlayerCondition =
  IsDead :: bool
  InCombat :: bool

text \<open>The parameter of a handler, and its result: whether it acted, the item after it, the other items it changed.\<close>

record ItemUseContext =
  useCharID :: int
  useItem :: CharacterItem
  useTemplate :: ItemTemplate
  useAuto :: bool
  useInCombat :: bool

type_synonym item_handler = "ItemUseContext \<Rightarrow> (bool \<times> CharacterItem \<times> ChangedItem list) item_op"

record item_env =
  db :: db_fault
  templateOf :: "int \<Rightarrow> ItemTemplate option"
  handlers :: "(string, item_handler) go_map"
  clock :: int

definition handler_Register :: "string \<Rightarrow> item_handler \<Rightarrow> (string, item_handler) go_map \<Rightarrow> (string, item_handler) go_map" where
  "handler_Register name h m = (if name = '''' then m else AList.update name h m)"

definition handler_Get :: "(string, item_handler) go_map \<Rightarrow> string \<Rightarrow> item_handler option" where
  "handler_Get m name = (if name = '''' then None else map_of m name)"

definition modified :: "CharacterItem \<Rightarrow> ChangedItem" where
  "modified i = \<lparr>ciItem = i, ciUpdateType = 2\<rparr>"

definition unequipItem :: "item_env \<Rightarrow> int \<Rightarrow> CharacterItem \<Rightarrow> ChangedItem list item_op" where
  "unequipItem env charID item =
     (if \<not> IsEquipped item then item_fail ''item is not equipped''
      else let slot = LocData item in
        item_bind (wrap_error (''failed to unequip slot '' @ format_int slot) (UnequipSlot (db env) charID slot)) (\<lambda>_.
        item_bind (if slot = SlotRHand then item_modify (\<lambda>st. st\<lparr>charged := shots_Clear (ObjectID item) (charged st)\<rparr>)
                   else item_return ()) (\<lambda>_.
        item_return [modified (Unequip item)])))"

definition unequipSlotIfOccupied :: "item_env \<Rightarrow> int \<Rightarrow> int \<Rightarrow> ChangedItem list item_op" where
  "unequipSlotIfOccupied env charID slot =
     item_bind (wrap_error (''failed to check slot '' @ format_int slot) (GetEquippedItem (db env) charID slot)) (\<lambda>existing.
       case existing of None \<Rightarrow> item_return [] | Some item \<Rightarrow> unequipItem env charID item)"

text \<open>A failed query counts as a free slot.\<close>

definition free_or_error :: "db_fault \<Rightarrow> int \<Rightarrow> int \<Rightarrow> bool item_op" where
  "free_or_error fault charID slot = (\<lambda>st.
     case GetEquippedItem fault charID slot st of
       (Inl _, st) \<Rightarrow> (Inr True, st) | (Inr found, st) \<Rightarrow> (Inr (found = None), st))"

definition findDualSlot :: "item_env \<Rightarrow> int \<Rightarrow> int \<Rightarrow> int \<Rightarrow> int item_op" where
  "findDualSlot env charID bodyPart primarySlot =
     (let secondary = (if bodyPart = BodyPartLREar then Some SlotLEar
                       else if bodyPart = BodyPartLRFinger then Some SlotLFinger
                       else if bodyPart = BodyPartHairAll then Some SlotHair2 else None)
      in case secondary of
           None \<Rightarrow> item_return primarySlot
         | Some secondarySlot \<Rightarrow>
             item_bind (free_or_error (db env) charID primarySlot) (\<lambda>free.
               if free then item_return primarySlot
               else item_bind (free_or_error (db env) charID secondarySlot) (\<lambda>free.
                 if free then item_return secondarySlot else item_return primarySlot)))"

text \<open>An item for the left hand takes off a two-handed weapon first.\<close>

definition off_two_handed :: "item_env \<Rightarrow> int \<Rightarrow> ChangedItem list item_op" where
  "off_two_handed env charID =
     item_bind (GetEquippedItem (db env) charID SlotRHand) (\<lambda>rhItem.
       case rhItem of
         None \<Rightarrow> item_return []
       | Some rh \<Rightarrow>
           (case templateOf env (ItemID rh) of
              None \<Rightarrow> item_return []
            | Some t \<Rightarrow> if IsTwoHanded (BodyPartCode t) then unequipSlotIfOccupied env charID SlotRHand
                        else item_return []))"

text \<open>What is taken off before an item goes to its slot, and the slot.\<close>

definition clear_conflicts :: "item_env \<Rightarrow> int \<Rightarrow> int \<Rightarrow> int \<Rightarrow> (int \<times> ChangedItem list) item_op" where
  "clear_conflicts env charID bodyPart targetSlot =
     (let off = unequipSlotIfOccupied env charID in
      if IsTwoHanded bodyPart then
        item_bind (off SlotLHand) (\<lambda>c1. item_bind (off SlotRHand) (\<lambda>c2. item_return (targetSlot, c1 @ c2)))
      else if IsFullArmor bodyPart then
        item_bind (off SlotLegs) (\<lambda>c1. item_bind (off SlotChest) (\<lambda>c2. item_return (targetSlot, c1 @ c2)))
      else if IsDualSlot bodyPart then
        item_bind (findDualSlot env charID bodyPart targetSlot) (\<lambda>targetSlot.
          item_bind (off targetSlot) (\<lambda>c. item_return (targetSlot, c)))
      else
        item_bind (if targetSlot = SlotLHand then off_two_handed env charID else item_return []) (\<lambda>c1.
        item_bind (off targetSlot) (\<lambda>c2. item_return (targetSlot, c1 @ c2))))"

definition equipItem :: "item_env \<Rightarrow> int \<Rightarrow> CharacterItem \<Rightarrow> ItemTemplate \<Rightarrow> ChangedItem list item_op" where
  "equipItem env charID item tmpl =
     (case BodyPartToPaperdollSlot (BodyPartCode tmpl) of
        None \<Rightarrow> item_fail ''cannot determine paperdoll slot for body part''
      | Some targetSlot \<Rightarrow>
          item_bind (clear_conflicts env charID (BodyPartCode tmpl) targetSlot) (\<lambda>(targetSlot, changed).
          item_bind (wrap_error ''failed to equip item'' (EquipItem (db env) (ObjectID item) targetSlot)) (\<lambda>_.
            item_return (changed @ [modified (Equip targetSlot item)]))))"

definition UnequipBySlot :: "item_env \<Rightarrow> int \<Rightarrow> int \<Rightarrow> EquipResult item_op" where
  "UnequipBySlot env charID slotBitmask =
     (let failed = \<lparr>erChangedItems = [], erSuccess = False, erMessages = [], erReuseSync = None\<rparr> in
      case BodyPartToPaperdollSlot slotBitmask of
        None \<Rightarrow> item_return failed
      | Some slot \<Rightarrow>
          item_bind (wrap_error ''failed to get equipped item'' (GetEquippedItem (db env) charID slot)) (\<lambda>found.
            case found of
              None \<Rightarrow> item_return failed
            | Some item \<Rightarrow>
                item_bind (wrap_error ''failed to unequip item'' (unequipItem env charID item)) (\<lambda>changed.
                  item_return (failed\<lparr>erChangedItems := changed, erSuccess := True\<rparr>))))"

section \<open>Using an item\<close>

definition sysMsgS1CannotBeUsed :: int where "sysMsgS1CannotBeUsed = 113"
definition sysMsgCannotUseQuestItems :: int where "sysMsgCannotUseQuestItems = 148"
definition sysMsgSecReuseS1 :: int where "sysMsgSecReuseS1 = 2303"
definition sysMsgMinSecReuseS1 :: int where "sysMsgMinSecReuseS1 = 2304"
definition sysMsgHourMinSecReuseS1 :: int where "sysMsgHourMinSecReuseS1 = 2305"

definition millisecond :: int where "millisecond = 1000000"

definition reuseSysMsg :: "int \<Rightarrow> int \<Rightarrow> SysMsgSpec" where
  "reuseSysMsg itemID remaining =
     (let ms = remaining div millisecond; hours = ms div 3600000; minutes = (ms mod 3600000) div 60000;
          seconds = (ms div 1000) mod 60
      in if hours > 0 then \<lparr>smID = sysMsgHourMinSecReuseS1, smItemName = itemID, smInts = [hours, minutes, seconds]\<rparr>
         else if minutes > 0 then \<lparr>smID = sysMsgMinSecReuseS1, smItemName = itemID, smInts = [minutes, seconds]\<rparr>
         else \<lparr>smID = sysMsgSecReuseS1, smItemName = itemID, smInts = [seconds]\<rparr>)"

definition refused :: EquipResult where
  "refused = \<lparr>erChangedItems = [], erSuccess = False, erMessages = [], erReuseSync = None\<rparr>"

definition reuseDenied :: "int \<Rightarrow> int \<Rightarrow> int \<Rightarrow> int \<Rightarrow> EquipResult" where
  "reuseDenied itemID grp remaining whole =
     refused\<lparr>erMessages := [reuseSysMsg itemID remaining],
       erReuseSync := (if grp > 0 then Some \<lparr>rsItemID = itemID, rsGroupID = grp, rsRemaining = remaining, rsTotal = whole\<rparr> else None)\<rparr>"

definition useNonEquipItem :: "item_env \<Rightarrow> int \<Rightarrow> CharacterItem \<Rightarrow> ItemTemplate \<Rightarrow> bool \<Rightarrow> EquipResult item_op" where
  "useNonEquipItem env charID item tmpl inCombat =
     (case handler_Get (handlers env) (Handler tmpl) of
        None \<Rightarrow> item_return refused
      | Some h \<Rightarrow>
          item_bind (wrap_error ''item handler failed''
            (h \<lparr>useCharID = charID, useItem = item, useTemplate = tmpl, useAuto = False, useInCombat = inCombat\<rparr>))
            (\<lambda>(consumed, item, extra).
              if \<not> consumed then item_return refused
              else let updateType = (if Count item \<le> 0 then 3 else 2);
                       result = \<lparr>erChangedItems = \<lparr>ciItem = item, ciUpdateType = updateType\<rparr> # extra, erSuccess = True,
                          erMessages = [], erReuseSync = None\<rparr>;
                       dur = ReuseDelay tmpl * millisecond
                   in if dur > 0
                      then item_bind (item_modify (\<lambda>st. st\<lparr>reuse :=
                               reuse_Add charID (ObjectID item) (SharedReuseGroup tmpl) dur (clock env) (reuse st)\<rparr>)) (\<lambda>_.
                           item_return (if SharedReuseGroup tmpl > 0
                             then result\<lparr>erReuseSync := Some \<lparr>rsItemID = ItemID item, rsGroupID = SharedReuseGroup tmpl,
                                    rsRemaining = dur, rsTotal = dur\<rparr>\<rparr>
                             else result))
                      else item_return result))"

text \<open>The refusals before the fork; \<open>None\<close> lets the use go on.\<close>

definition use_refused :: "item_env \<Rightarrow> int \<Rightarrow> CharacterItem \<Rightarrow> ItemTemplate \<Rightarrow> PlayerCondition \<Rightarrow> items \<Rightarrow> EquipResult option" where
  "use_refused env charID item tmpl cond st =
     (if Type2 tmpl = ItemType2Quest
      then Some (refused\<lparr>erMessages := [\<lparr>smID = sysMsgCannotUseQuestItems, smItemName = 0, smInts = []\<rparr>]\<rparr>)
      else if IsDead cond
      then Some (refused\<lparr>erMessages := [\<lparr>smID = sysMsgS1CannotBeUsed, smItemName = ItemID item, smInts = []\<rparr>]\<rparr>)
      else let dur = ReuseDelay tmpl * millisecond in
        if dur > 0 then
          let rem = RemainingByItem (reuse st) charID (ObjectID item) (clock env) in
          if rem > 0 then Some (reuseDenied (ItemID item) (SharedReuseGroup tmpl) rem dur)
          else let rem = RemainingByGroup (reuse st) charID (SharedReuseGroup tmpl) (clock env) in
            if rem > 0 then Some (reuseDenied (ItemID item) (SharedReuseGroup tmpl) rem dur) else None
        else None)"

definition UseItem :: "item_env \<Rightarrow> int \<Rightarrow> int \<Rightarrow> PlayerCondition \<Rightarrow> EquipResult item_op" where
  "UseItem env charID objectID cond =
     item_bind (wrap_error ''failed to get item'' (GetByObjectID (db env) objectID)) (\<lambda>found.
       case found of
         None \<Rightarrow> item_fail ''item not found''
       | Some item \<Rightarrow>
           if OwnerID item \<noteq> charID then item_fail ''item does not belong to character''
           else (case templateOf env (ItemID item) of
             None \<Rightarrow> item_return refused
           | Some tmpl \<Rightarrow> (\<lambda>st.
               case use_refused env charID item tmpl cond st of
                 Some r \<Rightarrow> (Inr r, st)
               | None \<Rightarrow>
                   if BodyPartCode tmpl = 0 then useNonEquipItem env charID item tmpl (InCombat cond) st
                   else if IsEquipped item
                   then item_bind (wrap_error ''failed to unequip item'' (unequipItem env charID item)) (\<lambda>changed.
                          item_return (refused\<lparr>erChangedItems := changed, erSuccess := True\<rparr>)) st
                   else item_bind (wrap_error ''failed to equip item'' (equipItem env charID item tmpl)) (\<lambda>changed.
                          item_return (refused\<lparr>erChangedItems := changed, erSuccess := True\<rparr>)) st)))"

section \<open>What the statements do to the rows\<close>

definition worn_at :: "int \<Rightarrow> int \<Rightarrow> CharacterItem \<Rightarrow> bool" where
  "worn_at c s r \<longleftrightarrow> OwnerID r = c \<and> Loc r = LocPaperdoll \<and> LocData r = s"

definition take_off :: "int \<Rightarrow> int \<Rightarrow> item_table \<Rightarrow> item_table" where
  "take_off c s = update_rows (worn_at c s) Unequip"

definition occupied :: "item_table \<Rightarrow> int \<Rightarrow> int \<Rightarrow> bool" where
  "occupied t c s \<longleftrightarrow> (\<exists>r\<in>set (map snd t). worn_at c s r)"

lemma keys_update_rows [simp]: "map fst (update_rows P f t) = map fst t"
  by (induction t) (auto simp: update_rows_def)

lemma map_ok_update_rows [simp]: "map_ok (update_rows P f t) = map_ok t"
  by (simp add: map_ok_def)

lemma map_of_update_rows: "map_of (update_rows P f t) i = map_option (\<lambda>r. if P r then f r else r) (map_of t i)"
  by (induction t) (auto simp: update_rows_def)

lemma rows_of_update_rows: "snd ` set (update_rows P f t) = (\<lambda>r. if P r then f r else r) ` snd ` set t"
  by (simp add: update_rows_def image_image case_prod_unfold del: if_image_distrib)

lemma Unequip_parts [simp]:
  "ObjectID (Unequip r) = ObjectID r" "OwnerID (Unequip r) = OwnerID r" "ItemID (Unequip r) = ItemID r"
  "Loc (Unequip r) = LocInventory" "Count (Unequip r) = Count r" "EnchantLevel (Unequip r) = EnchantLevel r"
  "LocData (Unequip r) = -1" "attributes (Unequip r) = attributes r"
  by (simp_all add: Unequip_def)

lemma map_of_take_off: "map_of (take_off c s t) i = map_option (\<lambda>r. if worn_at c s r then Unequip r else r) (map_of t i)"
  by (simp add: take_off_def map_of_update_rows)

lemma worn_keys_take_off: "worn_keys (take_off c s t) = filter (\<lambda>k. k \<noteq> (c, s)) (worn_keys t)"
  by (induction t) (auto simp: worn_keys_def take_off_def update_rows_def worn_at_def split: if_split_asm)

lemma row_ok_Unequip: "row_ok r \<Longrightarrow> row_ok (Unequip r)"
  by (auto simp: row_ok_def)

lemma table_ok_take_off: "table_ok t \<Longrightarrow> table_ok (take_off c s t)"
proof -
  assume t: "table_ok t"
  have "list_all (\<lambda>(i, r). ObjectID r = i \<and> row_ok r) (take_off c s t)"
    using t by (auto simp: table_ok_def list_all_iff take_off_def update_rows_def row_ok_Unequip)
  with t show ?thesis by (simp add: table_ok_def worn_keys_take_off) (simp add: take_off_def)
qed

lemma take_off_free: "\<not> occupied t c s \<Longrightarrow> take_off c s t = t"
  by (induction t) (auto simp: take_off_def update_rows_def occupied_def)

lemma occupied_take_off: "occupied (take_off c s t) c' s' \<longleftrightarrow> occupied t c' s' \<and> (c', s') \<noteq> (c, s)"
proof -
  have "(\<exists>r\<in>snd ` set t. worn_at c' s' (if worn_at c s r then Unequip r else r))
      \<longleftrightarrow> (\<exists>r\<in>snd ` set t. worn_at c' s' r) \<and> (c', s') \<noteq> (c, s)"
    by (auto simp: worn_at_def)
  then show ?thesis unfolding occupied_def take_off_def set_map rows_of_update_rows by (simp only: bex_simps)
qed

lemma take_off_worn_at: "worn_at c s = (\<lambda>r. OwnerID r = c \<and> Loc r = LocPaperdoll \<and> LocData r = s)"
  by (simp add: worn_at_def fun_eq_iff)

lemma UnequipSlot_rows:
  "UnequipSlot fault c s st = (Inr u, st') \<Longrightarrow> rows st' = take_off c s (rows st)"
  "UnequipSlot fault c s st = (Inl e, st') \<Longrightarrow> rows st' = rows st"
  by (auto simp: UnequipSlot_def exec_def take_off_def take_off_worn_at Unequip_def [abs_def] Let_def split: if_splits)

lemma UnequipSlot_works:
  "\<not> fault (db_calls st) \<Longrightarrow> table_ok (rows st)
    \<Longrightarrow> UnequipSlot fault c s st = (Inr (), st\<lparr>db_calls := db_calls st + 1, rows := take_off c s (rows st)\<rparr>)"
  using table_ok_take_off [of "rows st" c s]
  by (simp add: UnequipSlot_def exec_def take_off_def take_off_worn_at Unequip_def [abs_def] Let_def)

lemma GetEquippedItem_found:
  "GetEquippedItem fault c s st = (Inr r, st') \<Longrightarrow> rows st' = rows st
     \<and> (case r of None \<Rightarrow> \<not> occupied (rows st) c s | Some i \<Rightarrow> worn_at c s i \<and> i \<in> set (map snd (rows st)))"
  "GetEquippedItem fault c s st = (Inl e, st') \<Longrightarrow> rows st' = rows st"
  by (cases r; fastforce simp: GetEquippedItem_def query_def Let_def occupied_def worn_at_def find_None_iff find_Some_iff
      split: if_splits)
    (auto simp: GetEquippedItem_def query_def Let_def split: if_splits)

lemma bind_Inr: "item_bind m f st = (Inr b, st') \<longleftrightarrow> (\<exists>a st1. m st = (Inr a, st1) \<and> f a st1 = (Inr b, st'))"
  by (auto simp: item_bind_def split: prod.splits sum.splits)

lemma bind_Inl: "item_bind m f st = (Inl e, st') \<longleftrightarrow> m st = (Inl e, st') \<or> (\<exists>a st1. m st = (Inr a, st1) \<and> f a st1 = (Inl e, st'))"
  by (auto simp: item_bind_def split: prod.splits sum.splits)

lemma wrap_Inr [simp]: "wrap_error msg m st = (Inr b, st') \<longleftrightarrow> m st = (Inr b, st')"
  by (auto simp: wrap_error_def split: prod.splits sum.splits)

lemma wrap_Inl: "wrap_error msg m st = (Inl e, st') \<longleftrightarrow> (\<exists>e'. e = msg @ '': '' @ e' \<and> m st = (Inl e', st'))"
  by (auto simp: wrap_error_def split: prod.splits sum.splits)

lemma return_eq [simp]: "item_return a st = (r, st') \<longleftrightarrow> r = Inr a \<and> st' = st"
  by (auto simp: item_return_def)

lemma fail_eq [simp]: "item_fail e st = (r, st') \<longleftrightarrow> r = Inl e \<and> st' = st"
  by (auto simp: item_fail_def)

lemma modify_eq [simp]: "item_modify f st = (r, st') \<longleftrightarrow> r = Inr () \<and> st' = f st"
  by (auto simp: item_modify_def)

lemma unequipItem_rows:
  "unequipItem env c item st = (Inr cs, st') \<Longrightarrow> rows st' = take_off c (LocData item) (rows st)"
  "unequipItem env c item st = (Inl e, st') \<Longrightarrow> rows st' = rows st"
  by (auto simp: unequipItem_def Let_def bind_Inr bind_Inl wrap_Inl dest: UnequipSlot_rows split: if_splits)

lemma off_rows:
  "unequipSlotIfOccupied env c s st = (Inr cs, st') \<Longrightarrow> rows st' = take_off c s (rows st)"
  "unequipSlotIfOccupied env c s st = (Inl e, st') \<Longrightarrow> rows st' = rows st"
  by (auto simp: unequipSlotIfOccupied_def bind_Inr bind_Inl wrap_Inl take_off_free worn_at_def
      dest!: GetEquippedItem_found unequipItem_rows split: option.splits)

lemma free_or_error_rows: "free_or_error fault c s st = (r, st') \<Longrightarrow> rows st' = rows st"
  by (auto simp: free_or_error_def dest: GetEquippedItem_found split: prod.splits sum.splits)

lemma findDualSlot_rows: "findDualSlot env c bp s st = (r, st') \<Longrightarrow> rows st' = rows st"
  by (cases r) (auto simp: findDualSlot_def Let_def bind_Inr bind_Inl dest!: free_or_error_rows split: if_splits option.splits)

section \<open>A two-handed weapon leaves no left hand\<close>

definition two_handed :: "(int \<Rightarrow> ItemTemplate option) \<Rightarrow> CharacterItem \<Rightarrow> bool" where
  "two_handed tm r = (case tm (ItemID r) of None \<Rightarrow> False | Some t \<Rightarrow> IsTwoHanded (BodyPartCode t))"

definition hands_ok :: "(int \<Rightarrow> ItemTemplate option) \<Rightarrow> item_table \<Rightarrow> bool" where
  "hands_ok tm t \<longleftrightarrow> (\<forall>r\<in>snd ` set t. \<forall>l\<in>snd ` set t.
     worn_at (OwnerID l) SlotRHand r \<and> worn_at (OwnerID l) SlotLHand l \<longrightarrow> \<not> two_handed tm r)"

lemma hands_ok_mono:
  assumes "hands_ok tm t"
    and "\<And>r. r \<in> snd ` set t' \<Longrightarrow> Loc r = LocPaperdoll \<Longrightarrow> \<exists>r'\<in>snd ` set t. OwnerID r' = OwnerID r
      \<and> Loc r' = LocPaperdoll \<and> LocData r' = LocData r \<and> ItemID r' = ItemID r"
  shows "hands_ok tm t'"
  unfolding hands_ok_def
proof (intro ballI impI)
  fix r l assume r: "r \<in> snd ` set t'" and l: "l \<in> snd ` set t'"
    and w: "worn_at (OwnerID l) SlotRHand r \<and> worn_at (OwnerID l) SlotLHand l"
  obtain r' where r': "r' \<in> snd ` set t" "OwnerID r' = OwnerID r" "Loc r' = LocPaperdoll" "LocData r' = LocData r"
    "ItemID r' = ItemID r" using assms(2) [OF r] w by (auto simp: worn_at_def)
  obtain l' where l': "l' \<in> snd ` set t" "OwnerID l' = OwnerID l" "Loc l' = LocPaperdoll" "LocData l' = LocData l"
    using assms(2) [OF l] w by (auto simp: worn_at_def)
  have "\<not> two_handed tm r'"
    using assms(1) r' l' w unfolding hands_ok_def by (metis worn_at_def)
  then show "\<not> two_handed tm r" using r'(5) by (simp add: two_handed_def)
qed

lemma hands_ok_take_off: "hands_ok tm t \<Longrightarrow> hands_ok tm (take_off c s t)"
  by (rule hands_ok_mono) (auto simp: take_off_def rows_of_update_rows split: if_splits)

text \<open>Putting an item on: allowed when the hands do not clash.\<close>

definition put_on :: "int \<Rightarrow> int \<Rightarrow> item_table \<Rightarrow> item_table" where
  "put_on i s = update_rows (\<lambda>r. ObjectID r = i) (Equip s)"

lemma EquipItem_rows:
  "EquipItem fault i s st = (Inr u, st') \<Longrightarrow> rows st' = put_on i s (rows st)"
  "EquipItem fault i s st = (Inl e, st') \<Longrightarrow> rows st' = rows st"
  by (auto simp: EquipItem_def exec_def put_on_def Equip_def [abs_def] Let_def split: if_splits)

lemma Equip_parts [simp]:
  "ObjectID (Equip s r) = ObjectID r" "OwnerID (Equip s r) = OwnerID r" "ItemID (Equip s r) = ItemID r"
  "Loc (Equip s r) = LocPaperdoll" "LocData (Equip s r) = s" "Count (Equip s r) = Count r"
  "EnchantLevel (Equip s r) = EnchantLevel r" "attributes (Equip s r) = attributes r"
  by (simp_all add: Equip_def)

lemma hands_ok_put_on:
  assumes ok: "hands_ok tm t"
    and own: "\<And>r. r \<in> snd ` set t \<Longrightarrow> ObjectID r = i \<Longrightarrow> OwnerID r = c \<and> two_handed tm r = th"
    and clash: "s = SlotRHand \<Longrightarrow> th \<Longrightarrow> \<not> occupied t c SlotLHand"
      "s = SlotLHand \<Longrightarrow> \<forall>r\<in>snd ` set t. worn_at c SlotRHand r \<longrightarrow> \<not> two_handed tm r"
  shows "hands_ok tm (put_on i s t)"
  unfolding hands_ok_def
proof (intro ballI impI)
  fix r l assume r: "r \<in> snd ` set (put_on i s t)" and l: "l \<in> snd ` set (put_on i s t)"
    and w: "worn_at (OwnerID l) SlotRHand r \<and> worn_at (OwnerID l) SlotLHand l"
  obtain r' where r': "r' \<in> snd ` set t" "r = (if ObjectID r' = i then Equip s r' else r')"
    using r unfolding put_on_def rows_of_update_rows by (rule imageE)
  obtain l' where l': "l' \<in> snd ` set t" "l = (if ObjectID l' = i then Equip s l' else l')"
    using l unfolding put_on_def rows_of_update_rows by (rule imageE)
  have same: "two_handed tm r = two_handed tm r'" using r'(2) by (simp add: two_handed_def)
  consider (both) "ObjectID r' \<noteq> i" "ObjectID l' \<noteq> i" | (right) "ObjectID r' = i" "ObjectID l' \<noteq> i"
    | (left) "ObjectID l' = i" "ObjectID r' \<noteq> i" | (no) "ObjectID r' = i" "ObjectID l' = i" by blast
  then show "\<not> two_handed tm r"
  proof cases
    case both
    then have "r = r'" "l = l'" using r' l' by simp_all
    then show ?thesis using ok r'(1) l'(1) w unfolding hands_ok_def by blast
  next
    case right
    then have "s = SlotRHand" "worn_at c SlotLHand l'" using r' l' w own [OF r'(1)] by (auto simp: worn_at_def)
    then have "\<not> th" using clash(1) l'(1) by (auto simp: occupied_def)
    then show ?thesis using own [OF r'(1)] right same by simp
  next
    case left
    then have "s = SlotLHand" "worn_at c SlotRHand r'" using r' l' w own [OF l'(1)] by (auto simp: worn_at_def)
    then show ?thesis using clash(2) r'(1) same by blast
  next
    case no
    then show ?thesis using r' l' w by (auto simp: worn_at_def)
  qed
qed

lemma same_slot:
  assumes "distinct (worn_keys t)" "r \<in> snd ` set t" "r' \<in> snd ` set t" "worn_at c s r" "worn_at c s r'"
  shows "r = r'"
proof -
  let ?F = "filter (\<lambda>(_, r). Loc r = LocPaperdoll) t"
  obtain i i' where i: "(i, r) \<in> set t" "(i', r') \<in> set t" using assms(2,3) by auto
  have "inj_on (\<lambda>(_, r). (OwnerID r, LocData r)) (set ?F)"
    using assms(1) by (simp add: worn_keys_def distinct_map)
  then have "(i, r) = (i', r')"
    by (rule inj_onD) (use i assms(4,5) in \<open>auto simp: worn_at_def\<close>)
  then show ?thesis by simp
qed

lemma off_two_handed_rows:
  assumes "off_two_handed env c st = (r, st')"
  shows "rows st' = rows st \<or> rows st' = take_off c SlotRHand (rows st)"
    and "\<And>cs q. r = Inr cs \<Longrightarrow> distinct (worn_keys (rows st)) \<Longrightarrow> q \<in> snd ` set (rows st') \<Longrightarrow> worn_at c SlotRHand q
      \<Longrightarrow> \<not> two_handed (templateOf env) q"
proof -
  obtain g st1 where get: "GetEquippedItem (db env) c SlotRHand st = (g, st1)" by fastforce
  have "(rows st' = rows st \<or> rows st' = take_off c SlotRHand (rows st)) \<and>
    (\<forall>cs q. r = Inr cs \<longrightarrow> distinct (worn_keys (rows st)) \<longrightarrow> q \<in> snd ` set (rows st') \<longrightarrow> worn_at c SlotRHand q
      \<longrightarrow> \<not> two_handed (templateOf env) q)"
  proof (cases g)
    case (Inl e)
    with get assms show ?thesis
      by (auto simp: off_two_handed_def item_bind_def dest: GetEquippedItem_found)
  next
    case (Inr found)
    then have rows1: "rows st1 = rows st" using get GetEquippedItem_found(1) by blast
    show ?thesis
    proof (cases found)
      case None
      then have "\<not> occupied (rows st) c SlotRHand" using get Inr GetEquippedItem_found(1) by fastforce
      with get Inr None assms rows1 show ?thesis
        by (auto simp: off_two_handed_def item_bind_def occupied_def)
    next
      case (Some rh)
      have rh: "worn_at c SlotRHand rh" "rh \<in> snd ` set (rows st)"
        using get Inr Some GetEquippedItem_found(1) by fastforce+
      show ?thesis
      proof (cases "two_handed (templateOf env) rh")
        case True
        then have "unequipSlotIfOccupied env c SlotRHand st1 = (r, st')"
          using get Inr Some assms by (auto simp: off_two_handed_def item_bind_def two_handed_def split: option.splits)
        have off: "unequipSlotIfOccupied env c SlotRHand st1 = (r, st')" by fact
        have free: "\<not> occupied (take_off c SlotRHand (rows st)) c SlotRHand" by (simp add: occupied_take_off)
        show ?thesis
        proof (cases r)
          case (Inl e)
          then have "rows st' = rows st" using off_rows(2) off rows1 by simp
          with Inl show ?thesis by simp
        next
          case (Inr cs)
          then have "rows st' = take_off c SlotRHand (rows st)" using off_rows(1) off rows1 by simp
          with free show ?thesis unfolding occupied_def set_map by metis
        qed
      next
        case False
        then have "r = Inr []" "st' = st1"
          using get Inr Some assms by (auto simp: off_two_handed_def item_bind_def two_handed_def split: option.splits)
        moreover have "\<not> two_handed (templateOf env) q"
          if "distinct (worn_keys (rows st))" "q \<in> snd ` set (rows st)" "worn_at c SlotRHand q" for q
          using same_slot [OF that(1) rh(2) that(2) rh(1) that(3)] False by simp
        ultimately show ?thesis using rows1 by simp
      qed
    qed
  qed
  then show "rows st' = rows st \<or> rows st' = take_off c SlotRHand (rows st)"
    "\<And>cs q. r = Inr cs \<Longrightarrow> distinct (worn_keys (rows st)) \<Longrightarrow> q \<in> snd ` set (rows st') \<Longrightarrow> worn_at c SlotRHand q
      \<Longrightarrow> \<not> two_handed (templateOf env) q" by blast+
qed

lemma taken_off:
  "\<exists>ss. take_off c s t = fold (take_off c) ss t" "\<exists>ss. take_off c s (take_off c s' t) = fold (take_off c) ss t"
  "\<exists>ss. t = fold (take_off c) ss t"
  by (rule exI [of _ "[s]"], simp, rule exI [of _ "[s', s]"], simp, rule exI [of _ "[]"], simp)

lemma clear_conflicts_rows:
  assumes "clear_conflicts env c bp slot st = (r, st')"
  shows "\<exists>ss. rows st' = fold (take_off c) ss (rows st)"
proof -
  note rules = off_rows findDualSlot_rows off_two_handed_rows(1)
  show ?thesis
    using assms taken_off
    by (cases r)
      (auto simp: clear_conflicts_def Let_def bind_Inr bind_Inl dest!: rules split: if_splits)
qed

lemma hands_ok_fold: "hands_ok tm t \<Longrightarrow> hands_ok tm (fold (take_off c) ss t)"
  by (induction ss arbitrary: t) (auto simp: hands_ok_take_off)

lemma findDualSlot_slot:
  "findDualSlot env c bp p st = (Inr s, st') \<Longrightarrow> s = p \<or> s = SlotLEar \<or> s = SlotLFinger \<or> s = SlotHair2"
  by (auto simp: findDualSlot_def Let_def bind_Inr split: if_splits)

lemma worn_take_off: "q \<in> snd ` set (take_off c s t) \<Longrightarrow> Loc q = LocPaperdoll \<Longrightarrow> q \<in> snd ` set t"
  unfolding take_off_def rows_of_update_rows by (auto split: if_splits)

lemma dual_slots: "IsDualSlot bp \<Longrightarrow> BodyPartToPaperdollSlot bp = Some slot \<Longrightarrow> slot \<in> {SlotREar, SlotRFinger, SlotHair}"
  by (auto simp: IsDualSlot_def BodyPartToPaperdollSlot_def slot_table_def)

lemma two_handed_slot: "IsTwoHanded bp \<Longrightarrow> BodyPartToPaperdollSlot bp = Some slot \<longleftrightarrow> slot = SlotRHand"
  by (auto simp: IsTwoHanded_def BodyPartToPaperdollSlot_def slot_table_def)

lemma full_armor_slot: "IsFullArmor bp \<Longrightarrow> BodyPartToPaperdollSlot bp = Some slot \<longleftrightarrow> slot = SlotChest"
  by (auto simp: IsFullArmor_def BodyPartToPaperdollSlot_def slot_table_def)

lemma clear_conflicts_hands:
  assumes run: "clear_conflicts env c bp slot st = (Inr (s, cs), st')"
    and ok: "table_ok (rows st)" and slot: "BodyPartToPaperdollSlot bp = Some slot"
  shows "s = SlotRHand \<Longrightarrow> IsTwoHanded bp \<Longrightarrow> \<not> occupied (rows st') c SlotLHand"
    and "s = SlotLHand \<Longrightarrow> q \<in> snd ` set (rows st') \<Longrightarrow> worn_at c SlotRHand q \<Longrightarrow> \<not> two_handed (templateOf env) q"
proof -
  show "\<not> occupied (rows st') c SlotLHand" if "s = SlotRHand" "IsTwoHanded bp"
    using run that(2)
    by (auto simp: clear_conflicts_def Let_def bind_Inr occupied_take_off dest!: off_rows(1))
  assume s: "s = SlotLHand" and q: "q \<in> snd ` set (rows st')" "worn_at c SlotRHand q"
  consider (two) "IsTwoHanded bp" | (full) "IsFullArmor bp" | (dual) "IsDualSlot bp" "\<not> IsTwoHanded bp" "\<not> IsFullArmor bp"
    | (single) "\<not> IsDualSlot bp" "\<not> IsTwoHanded bp" "\<not> IsFullArmor bp" by blast
  then show "\<not> two_handed (templateOf env) q"
  proof cases
    case two
    then show ?thesis using run s two_handed_slot [OF two] slot by (auto simp: clear_conflicts_def Let_def bind_Inr)
  next
    case full
    then have "slot = SlotChest" "\<not> IsTwoHanded bp" using full_armor_slot slot by (auto simp: IsFullArmor_def IsTwoHanded_def)
    then show ?thesis using run s full by (auto simp: clear_conflicts_def Let_def bind_Inr)
  next
    case dual
    then obtain st1 where "findDualSlot env c bp slot st = (Inr s, st1)"
      using run by (auto simp: clear_conflicts_def Let_def bind_Inr)
    then show ?thesis using findDualSlot_slot dual_slots [OF dual(1) slot] s by fastforce
  next
    case single
    then obtain c1 st1 c2 where "off_two_handed env c st = (Inr c1, st1)"
      and off: "unequipSlotIfOccupied env c SlotLHand st1 = (Inr c2, st')"
      using run s by (auto simp: clear_conflicts_def Let_def bind_Inr)
    moreover have "q \<in> snd ` set (rows st1)"
      using q worn_take_off off_rows(1) [OF off] by (auto simp: worn_at_def)
    ultimately show ?thesis
      using off_two_handed_rows(2) q(2) ok by (fastforce simp: table_ok_def)
  qed
qed

definition item_inv :: "(int \<Rightarrow> ItemTemplate option) \<Rightarrow> item_table \<Rightarrow> bool" where
  "item_inv tm t \<longleftrightarrow> table_ok t \<and> hands_ok tm t"

lemma item_inv_fold: "item_inv tm t \<Longrightarrow> item_inv tm (fold (take_off c) ss t)"
  by (induction ss arbitrary: t) (auto simp: item_inv_def hands_ok_take_off table_ok_take_off)

lemma row_of_key: "table_ok t \<Longrightarrow> r \<in> snd ` set t \<Longrightarrow> map_of t (ObjectID r) = Some r"
proof -
  assume t: "table_ok t" and "r \<in> snd ` set t"
  then obtain i where i: "(i, r) \<in> set t" by auto
  then have "ObjectID r = i" using t by (auto simp: table_ok_def list_all_iff)
  with i t show ?thesis by (simp add: table_ok_def map_ok_lookup)
qed

lemma fold_take_off_row:
  "map_of t i = Some r \<Longrightarrow> \<exists>r'. map_of (fold (take_off c) ss t) i = Some r' \<and> OwnerID r' = OwnerID r \<and> ItemID r' = ItemID r"
proof (induction ss arbitrary: t r)
  case (Cons s ss)
  have "\<exists>r1. map_of (take_off c s t) i = Some r1 \<and> OwnerID r1 = OwnerID r \<and> ItemID r1 = ItemID r"
    using Cons.prems by (simp add: map_of_take_off)
  then obtain r1 where r1: "map_of (take_off c s t) i = Some r1" "OwnerID r1 = OwnerID r" "ItemID r1 = ItemID r" by blast
  show ?case using Cons.IH [OF r1(1)] r1 by simp
qed simp

lemma item_inv_equipItem:
  assumes inv: "item_inv (templateOf env) (rows st)" and item: "map_of (rows st) (ObjectID item) = Some item"
    and tmpl: "templateOf env (ItemID item) = Some tmpl"
    and run: "equipItem env (OwnerID item) item tmpl st = (r, st')"
  shows "item_inv (templateOf env) (rows st')"
proof (cases "BodyPartToPaperdollSlot (BodyPartCode tmpl)")
  case None
  with run inv show ?thesis by (auto simp: equipItem_def)
next
  case slot: (Some slot)
  let ?c = "OwnerID item"
  obtain r1 st1 where clear: "clear_conflicts env ?c (BodyPartCode tmpl) slot st = (r1, st1)" by fastforce
  obtain ss where ss: "rows st1 = fold (take_off ?c) ss (rows st)" using clear_conflicts_rows [OF clear] by blast
  have inv1: "item_inv (templateOf env) (rows st1)" using item_inv_fold [OF inv] by (simp add: ss)
  show ?thesis
  proof (cases r1)
    case (Inl e)
    then show ?thesis using run slot clear inv1 by (auto simp: equipItem_def item_bind_def)
  next
    case (Inr p)
    obtain s cs where p: "p = (s, cs)" by fastforce
    obtain e st2 where eq: "EquipItem (db env) (ObjectID item) s st1 = (e, st2)" by fastforce
    have st2: "rows st' = rows st2"
      using run slot clear Inr p eq by (cases e) (auto simp: equipItem_def item_bind_def wrap_error_def item_return_def)
    show ?thesis
    proof (cases e)
      case (Inl m)
      then show ?thesis using EquipItem_rows(2) eq inv1 st2 by auto
    next
      case Inr': (Inr u)
      then have rows2: "rows st2 = put_on (ObjectID item) s (rows st1)" using EquipItem_rows(1) eq by auto
      have table2: "table_ok (rows st2)" using eq Inr' by (auto simp: EquipItem_def exec_def Let_def split: if_splits)
      have "OwnerID q = ?c \<and> two_handed (templateOf env) q = IsTwoHanded (BodyPartCode tmpl)"
        if q: "q \<in> snd ` set (rows st1)" "ObjectID q = ObjectID item" for q
      proof -
        have "map_of (rows st1) (ObjectID item) = Some q" using row_of_key [OF _ q(1)] q(2) inv1 by (simp add: item_inv_def)
        then show ?thesis using fold_take_off_row [OF item, of ?c ss] tmpl by (auto simp: ss two_handed_def)
      qed
      then have "hands_ok (templateOf env) (put_on (ObjectID item) s (rows st1))"
        using inv1 clear_conflicts_hands [OF clear [unfolded Inr p] _ slot] inv
        by (intro hands_ok_put_on [where c = ?c and th = "IsTwoHanded (BodyPartCode tmpl)"]) (auto simp: item_inv_def)
      then show ?thesis using table2 st2 rows2 by (simp add: item_inv_def)
    qed
  qed
qed

lemma item_inv_unequipItem:
  assumes "item_inv tm (rows st)" "unequipItem env c item st = (r, st')"
  shows "item_inv tm (rows st')"
  using assms by (cases r) (auto simp: item_inv_def hands_ok_take_off table_ok_take_off dest!: unequipItem_rows)

text \<open>What a handler owes the table: it keeps the invariant when the item it is given is the row of the table.\<close>

definition handler_ok :: "(int \<Rightarrow> ItemTemplate option) \<Rightarrow> item_handler \<Rightarrow> bool" where
  "handler_ok tm h \<longleftrightarrow> (\<forall>u st. item_inv tm (rows st) \<and> map_of (rows st) (ObjectID (useItem u)) = Some (useItem u)
     \<longrightarrow> item_inv tm (rows (snd (h u st))))"

lemma query_rows: "query fault msg f st = (r, st') \<Longrightarrow> rows st' = rows st"
  by (auto simp: query_def Let_def split: if_splits)

lemma GetByObjectID_found:
  "GetByObjectID fault i st = (Inr r, st') \<Longrightarrow> r = map_of (rows st) i"
  by (auto simp: GetByObjectID_def query_def Let_def split: if_splits)

lemma GetByObjectID_rows: "GetByObjectID fault i st = (r, st') \<Longrightarrow> rows st' = rows st"
  unfolding GetByObjectID_def by (rule query_rows)

lemma item_inv_useNonEquipItem:
  assumes inv: "item_inv tm (rows st)" and item: "map_of (rows st) (ObjectID item) = Some item"
    and h: "\<And>n h. map_of (handlers env) n = Some h \<Longrightarrow> handler_ok tm h"
    and run: "useNonEquipItem env c item tmpl inCombat st = (r, st')"
  shows "item_inv tm (rows st')"
proof (cases "handler_Get (handlers env) (Handler tmpl)")
  case None
  with run inv show ?thesis by (auto simp: useNonEquipItem_def)
next
  case (Some h')
  let ?u = "\<lparr>useCharID = c, useItem = item, useTemplate = tmpl, useAuto = False, useInCombat = inCombat\<rparr>"
  obtain r1 st1 where h1: "h' ?u st = (r1, st1)" by fastforce
  have "handler_ok tm h'" using Some h by (auto simp: handler_Get_def split: if_splits)
  then have "item_inv tm (rows st1)" using inv item h1 unfolding handler_ok_def
    by (metis ItemUseContext.select_convs(2) snd_conv)
  moreover have "rows st' = rows st1"
    using run Some h1 by (cases r1)
      (auto simp: useNonEquipItem_def item_bind_def wrap_error_def item_return_def item_modify_def Let_def split: if_splits prod.splits)
  ultimately show ?thesis by simp
qed

lemma item_inv_UseItem:
  assumes inv: "item_inv (templateOf env) (rows st)"
    and h: "\<And>n h. map_of (handlers env) n = Some h \<Longrightarrow> handler_ok (templateOf env) h"
  shows "item_inv (templateOf env) (rows (snd (UseItem env c i cond st)))"
proof -
  obtain g st1 where get: "GetByObjectID (db env) i st = (g, st1)" by fastforce
  have rows1: "rows st1 = rows st" by (rule GetByObjectID_rows [OF get])
  show ?thesis
  proof (cases "\<exists>item tmpl. g = Inr (Some item) \<and> OwnerID item = c \<and> templateOf env (ItemID item) = Some tmpl
      \<and> use_refused env c item tmpl cond st1 = None")
    case False
    note defs = UseItem_def item_bind_def wrap_error_def item_fail_def item_return_def
    have "rows (snd (UseItem env c i cond st)) = rows st1"
    proof (cases g)
      case (Inl e)
      then show ?thesis using get by (simp add: defs)
    next
      case (Inr found)
      show ?thesis
      proof (cases found)
        case None
        then show ?thesis using get Inr by (simp add: defs)
      next
        case (Some item)
        show ?thesis
        proof (cases "OwnerID item = c \<and> templateOf env (ItemID item) \<noteq> None")
          case True
          then obtain tmpl r where "templateOf env (ItemID item) = Some tmpl" "use_refused env c item tmpl cond st1 = Some r"
            using False Inr Some by auto
          then show ?thesis using get Inr Some True by (simp add: defs)
        next
          case False
          then show ?thesis using get Inr Some by (auto simp: defs)
        qed
      qed
    qed
    then show ?thesis using rows1 inv by simp
  next
    case True
    then obtain item tmpl where g: "g = Inr (Some item)" and owner: "OwnerID item = c"
      and tmpl: "templateOf env (ItemID item) = Some tmpl" and go: "use_refused env c item tmpl cond st1 = None" by blast
    have row: "map_of (rows st1) i = Some item" using GetByObjectID_found get g rows1 by fastforce
    then have key: "ObjectID item = i"
      using inv rows1 by (force simp: item_inv_def table_ok_def list_all_iff dest: map_of_SomeD)
    have inv1: "item_inv (templateOf env) (rows st1)" using inv rows1 by simp
    consider (etc) "BodyPartCode tmpl = 0" | (off) "BodyPartCode tmpl \<noteq> 0" "IsEquipped item"
      | (on) "BodyPartCode tmpl \<noteq> 0" "\<not> IsEquipped item" by blast
    then show ?thesis
    proof cases
      case etc
      then have eq: "UseItem env c i cond st = useNonEquipItem env c item tmpl (InCombat cond) st1"
        using get g owner tmpl go by (simp add: UseItem_def item_bind_def wrap_error_def)
      obtain r2 st2 where run: "useNonEquipItem env c item tmpl (InCombat cond) st1 = (r2, st2)" by fastforce
      have "item_inv (templateOf env) (rows st2)"
        by (rule item_inv_useNonEquipItem [OF inv1 _ h run]) (use row key in auto)
      then show ?thesis using eq run by simp
    next
      case off
      obtain r2 st2 where un: "unequipItem env c item st1 = (r2, st2)" by fastforce
      then have "rows (snd (UseItem env c i cond st)) = rows st2"
        using off get g owner tmpl go
        by (cases r2) (auto simp: UseItem_def item_bind_def wrap_error_def item_return_def)
      then show ?thesis using item_inv_unequipItem [OF inv1 un] by simp
    next
      case on
      obtain r2 st2 where eq: "equipItem env c item tmpl st1 = (r2, st2)" by fastforce
      then have "rows (snd (UseItem env c i cond st)) = rows st2"
        using on get g owner tmpl go
        by (cases r2) (auto simp: UseItem_def item_bind_def wrap_error_def item_return_def)
      then show ?thesis using item_inv_equipItem [OF inv1 _ tmpl] eq row key owner by auto
    qed
  qed
qed

lemma item_inv_UnequipBySlot:
  assumes "item_inv tm (rows st)"
  shows "item_inv tm (rows (snd (UnequipBySlot env c bits st)))"
proof (cases "BodyPartToPaperdollSlot bits")
  case (Some s)
  obtain g st1 where get: "GetEquippedItem (db env) c s st = (g, st1)" by fastforce
  have rows1: "rows st1 = rows st" using get by (cases g) (auto dest: GetEquippedItem_found)
  show ?thesis
  proof (cases "\<exists>item. g = Inr (Some item)")
    case True
    then obtain item where g: "g = Inr (Some item)" by blast
    obtain r2 st2 where un: "unequipItem env c item st1 = (r2, st2)" by fastforce
    then have "rows (snd (UnequipBySlot env c bits st)) = rows st2"
      using Some get g by (cases r2) (auto simp: UnequipBySlot_def Let_def item_bind_def wrap_error_def item_return_def)
    then show ?thesis using item_inv_unequipItem [OF _ un] assms rows1 by simp
  next
    case False
    then have "rows (snd (UnequipBySlot env c bits st)) = rows st1"
      using Some get by (auto simp: UnequipBySlot_def Let_def item_bind_def wrap_error_def item_return_def
          split: sum.splits option.splits)
    then show ?thesis using rows1 assms by simp
  qed
qed (use assms in \<open>simp add: UnequipBySlot_def item_return_def Let_def\<close>)

section \<open>Equipping with a database that works\<close>

definition second_slot :: "int \<Rightarrow> int option" where
  "second_slot bp = (if bp = BodyPartLREar then Some SlotLEar else if bp = BodyPartLRFinger then Some SlotLFinger
     else if bp = BodyPartHairAll then Some SlotHair2 else None)"

text \<open>The slot an item goes to and the slots that are emptied for it.\<close>

definition equip_plan :: "(int \<Rightarrow> ItemTemplate option) \<Rightarrow> item_table \<Rightarrow> int \<Rightarrow> int \<Rightarrow> int \<Rightarrow> int \<times> int list" where
  "equip_plan tm t c bp primary =
     (if IsTwoHanded bp then (primary, [SlotLHand, SlotRHand])
      else if IsFullArmor bp then (primary, [SlotLegs, SlotChest])
      else case second_slot bp of
        Some s \<Rightarrow> let target = (if occupied t c primary \<and> \<not> occupied t c s then s else primary) in (target, [target])
      | None \<Rightarrow>
          (primary, if primary = SlotLHand \<and> (\<exists>r\<in>set (map snd t). worn_at c SlotRHand r \<and> two_handed tm r)
                    then [SlotRHand, SlotLHand] else [primary]))"

lemma working_queries:
  assumes "db env = (\<lambda>_. False)"
  shows "GetEquippedItem (db env) c s st
      = (Inr (find (worn_at c s) (map snd (rows st))), st\<lparr>db_calls := db_calls st + 1\<rparr>)"
    and "GetByObjectID (db env) i st = (Inr (map_of (rows st) i), st\<lparr>db_calls := db_calls st + 1\<rparr>)"
  using assms by (simp_all add: GetEquippedItem_def GetByObjectID_def query_def Let_def worn_at_def [abs_def])

lemma find_occupied: "(find (worn_at c s) (map snd t) = None) = (\<not> occupied t c s)"
  by (simp add: find_None_iff occupied_def)

lemma off_works:
  assumes "db env = (\<lambda>_. False)" "table_ok (rows st)" "0 \<le> s"
  shows "\<exists>cs st'. unequipSlotIfOccupied env c s st = (Inr cs, st') \<and> rows st' = take_off c s (rows st) \<and> table_ok (rows st')"
proof -
  have "\<exists>cs st'. unequipSlotIfOccupied env c s st = (Inr cs, st')"
  proof (cases "find (worn_at c s) (map snd (rows st))")
    case None
    then show ?thesis using working_queries(1) [OF assms(1)]
      by (simp add: unequipSlotIfOccupied_def item_bind_def wrap_error_def item_return_def)
  next
    case (Some r)
    then have r: "LocData r = s" "IsEquipped r"
      using assms(3) by (auto simp: find_Some_iff worn_at_def IsEquipped_def)
    let ?st = "st\<lparr>db_calls := db_calls st + 1\<rparr>"
    have "\<exists>st'. UnequipSlot (db env) c s ?st = (Inr (), st')"
      using UnequipSlot_works [of "db env" ?st c s] assms(1,2) by simp
    then show ?thesis using working_queries(1) [OF assms(1), of c s st] Some r
      by (auto simp: unequipSlotIfOccupied_def unequipItem_def Let_def item_bind_def wrap_error_def item_return_def item_modify_def)
  qed
  then show ?thesis using off_rows(1) assms(2) table_ok_take_off by metis
qed

lemma off_two_handed_works:
  assumes "db env = (\<lambda>_. False)" "table_ok (rows st)"
  shows "\<exists>cs st'. off_two_handed env c st = (Inr cs, st') \<and> table_ok (rows st') \<and> rows st' =
    (if \<exists>r\<in>set (map snd (rows st)). worn_at c SlotRHand r \<and> two_handed (templateOf env) r
     then take_off c SlotRHand (rows st) else rows st)"
proof (cases "find (worn_at c SlotRHand) (map snd (rows st))")
  case None
  then have "\<not> occupied (rows st) c SlotRHand" by (simp add: find_occupied)
  then show ?thesis using working_queries(1) [OF assms(1), of c SlotRHand st] None assms(2)
    by (auto simp: off_two_handed_def item_bind_def item_return_def occupied_def)
next
  case (Some r)
  then have r: "worn_at c SlotRHand r" "r \<in> snd ` set (rows st)" by (auto simp: find_Some_iff)
  have th: "(\<exists>q\<in>set (map snd (rows st)). worn_at c SlotRHand q \<and> two_handed (templateOf env) q) = two_handed (templateOf env) r"
    unfolding set_map using same_slot [OF _ r(2) _ r(1)] r assms(2) by (metis table_ok_def)
  let ?st = "st\<lparr>db_calls := db_calls st + 1\<rparr>"
  have off: "\<exists>cs st'. unequipSlotIfOccupied env c SlotRHand ?st = (Inr cs, st') \<and> rows st' = take_off c SlotRHand (rows st) \<and> table_ok (rows st')"
    using off_works [OF assms(1), of ?st SlotRHand c] assms(2) by simp
  show ?thesis
  proof (cases "two_handed (templateOf env) r")
    case True
    then have "off_two_handed env c st = unequipSlotIfOccupied env c SlotRHand ?st"
      using working_queries(1) [OF assms(1), of c SlotRHand st] Some
      by (auto simp: off_two_handed_def item_bind_def two_handed_def split: option.splits)
    then show ?thesis unfolding th using off True by auto
  next
    case False
    then have "off_two_handed env c st = (Inr [], ?st)"
      using working_queries(1) [OF assms(1), of c SlotRHand st] Some
      by (auto simp: off_two_handed_def item_bind_def item_return_def two_handed_def split: option.splits)
    then show ?thesis unfolding th using False assms(2) by simp
  qed
qed

lemma findDualSlot_works:
  assumes "db env = (\<lambda>_. False)" "second_slot bp = Some s"
  shows "\<exists>st'. findDualSlot env c bp p st
      = (Inr (if occupied (rows st) c p \<and> \<not> occupied (rows st) c s then s else p), st') \<and> rows st' = rows st"
  using assms(2) find_occupied [of c p "rows st"] find_occupied [of c s "rows st"]
  by (auto simp: findDualSlot_def second_slot_def Let_def item_bind_def free_or_error_def item_return_def
      working_queries(1) [OF assms(1)] split: if_splits)

lemma IsDualSlot_second: "IsDualSlot bp \<longleftrightarrow> second_slot bp \<noteq> None"
  by (auto simp: IsDualSlot_def second_slot_def)

lemma clear_conflicts_works:
  assumes db: "db env = (\<lambda>_. False)" and ok: "table_ok (rows st)" and p: "0 \<le> p"
  shows "\<exists>cs st'. clear_conflicts env c bp p st = (Inr (fst (equip_plan (templateOf env) (rows st) c bp p), cs), st')
    \<and> rows st' = fold (take_off c) (snd (equip_plan (templateOf env) (rows st) c bp p)) (rows st) \<and> table_ok (rows st')"
proof -
  have pair: "\<exists>c1 st1 c2 st2. unequipSlotIfOccupied env c a st = (Inr c1, st1) \<and> unequipSlotIfOccupied env c b st1 = (Inr c2, st2)
      \<and> rows st2 = take_off c b (take_off c a (rows st)) \<and> table_ok (rows st2)" if "0 \<le> a" "0 \<le> b" for a b
    using off_works [OF db ok that(1), of c] off_works [OF db _ that(2), of _ c] by metis
  consider (two) "IsTwoHanded bp" | (full) "IsFullArmor bp" "\<not> IsTwoHanded bp"
    | (dual) s where "second_slot bp = Some s" "\<not> IsTwoHanded bp" "\<not> IsFullArmor bp"
    | (single) "second_slot bp = None" "\<not> IsTwoHanded bp" "\<not> IsFullArmor bp" by blast
  then show ?thesis
  proof cases
    case two
    with pair [of SlotLHand SlotRHand] show ?thesis
      by (auto simp: clear_conflicts_def Let_def equip_plan_def item_bind_def item_return_def)
  next
    case full
    with pair [of SlotLegs SlotChest] show ?thesis
      by (auto simp: clear_conflicts_def Let_def equip_plan_def item_bind_def item_return_def)
  next
    case dual
    define t where "t = (if occupied (rows st) c p \<and> \<not> occupied (rows st) c s then s else p)"
    have t0: "0 \<le> t" using p dual(1) by (auto simp: t_def second_slot_def split: if_splits)
    obtain st1 where st1: "findDualSlot env c bp p st = (Inr t, st1)" "rows st1 = rows st"
      using findDualSlot_works [OF db dual(1), of c p st] by (auto simp: t_def)
    obtain cs st2 where off: "unequipSlotIfOccupied env c t st1 = (Inr cs, st2)" "rows st2 = take_off c t (rows st)" "table_ok (rows st2)"
      using off_works [OF db _ t0, of st1 c] st1 ok by auto
    have "equip_plan (templateOf env) (rows st) c bp p = (t, [t])" using dual by (simp add: equip_plan_def t_def Let_def)
    then show ?thesis using dual st1 off IsDualSlot_second [of bp]
      by (simp add: clear_conflicts_def Let_def item_bind_def item_return_def)
  next
    case single
    show ?thesis
    proof (cases "p = SlotLHand")
      case True
      obtain c1 st1 where one: "off_two_handed env c st = (Inr c1, st1)" "table_ok (rows st1)" "rows st1 =
          (if \<exists>r\<in>set (map snd (rows st)). worn_at c SlotRHand r \<and> two_handed (templateOf env) r
           then take_off c SlotRHand (rows st) else rows st)"
        using off_two_handed_works [OF db ok, of c] by blast
      obtain c2 st2 where two: "unequipSlotIfOccupied env c SlotLHand st1 = (Inr c2, st2)"
        "rows st2 = take_off c SlotLHand (rows st1)" "table_ok (rows st2)"
        using off_works [OF db one(2), of SlotLHand c] by auto
      show ?thesis using single True one two IsDualSlot_second [of bp]
        by (auto simp: clear_conflicts_def Let_def equip_plan_def item_bind_def item_return_def)
    next
      case False
      then show ?thesis using single off_works [OF db ok p, of c] IsDualSlot_second [of bp]
        by (auto simp: clear_conflicts_def Let_def equip_plan_def item_bind_def item_return_def)
    qed
  qed
qed

lemma worn_distinct:
  assumes "map_ok t"
  shows "distinct (worn_keys t) \<longleftrightarrow> (\<forall>i r j q. (i, r) \<in> set t \<longrightarrow> (j, q) \<in> set t \<longrightarrow> Loc r = LocPaperdoll \<longrightarrow>
    worn_at (OwnerID r) (LocData r) q \<longrightarrow> i = j)"
proof -
  let ?F = "filter (\<lambda>(_, r). Loc r = LocPaperdoll) t"
  have "distinct t" using assms by (simp add: map_ok_def distinct_map)
  then have "distinct (worn_keys t) \<longleftrightarrow> inj_on (\<lambda>(_, r). (OwnerID r, LocData r)) (set ?F)"
    by (simp add: worn_keys_def distinct_map)
  also have "\<dots> \<longleftrightarrow> (\<forall>i r j q. (i, r) \<in> set t \<longrightarrow> (j, q) \<in> set t \<longrightarrow> Loc r = LocPaperdoll \<longrightarrow>
    worn_at (OwnerID r) (LocData r) q \<longrightarrow> i = j)" (is "?inj \<longleftrightarrow> ?all")
  proof
    assume inj: ?inj
    show ?all
    proof (intro allI impI)
      fix i r j q
      assume "(i, r) \<in> set t" "(j, q) \<in> set t" "Loc r = LocPaperdoll" "worn_at (OwnerID r) (LocData r) q"
      then have "(i, r) = (j, q)" by (intro inj_onD [OF inj]) (auto simp: worn_at_def)
      then show "i = j" by simp
    qed
  next
    assume all: ?all
    show ?inj
    proof (rule inj_onI, clarify)
      fix i r j q
      assume m: "(i, r) \<in> set ?F" "(j, q) \<in> set ?F" and "OwnerID r = OwnerID q" "LocData r = LocData q"
      then have "i = j" using all by (auto simp: worn_at_def)
      moreover have "map_of t i = Some r" "map_of t j = Some q" using m assms by (auto simp: map_ok_lookup)
      ultimately show "i = j \<and> r = q" by simp
    qed
  qed
  finally show ?thesis .
qed

lemma mem_update_rows:
  "(j, q) \<in> set (update_rows P f t) \<longleftrightarrow> (\<exists>q'. (j, q') \<in> set t \<and> q = (if P q' then f q' else q'))"
  by (induction t) (auto simp: update_rows_def)

lemma table_ok_put_on:
  assumes ok: "table_ok t" and row: "map_of t i = Some r" and free: "\<not> occupied t (OwnerID r) s" and s: "0 \<le> s" "s \<le> 25"
  shows "table_ok (put_on i s t)"
proof -
  have m: "map_ok t" and l: "\<And>j q. (j, q) \<in> set t \<Longrightarrow> ObjectID q = j \<and> row_ok q" and d: "distinct (worn_keys t)"
    using ok by (auto simp: table_ok_def list_all_iff)
  have mem: "(j, q) \<in> set (put_on i s t) \<longleftrightarrow> (\<exists>q'. (j, q') \<in> set t \<and> q = (if j = i then Equip s q' else q'))" for j q
    unfolding put_on_def mem_update_rows using l by metis
  have only: "q' = r" if "(i, q') \<in> set t" for q' using that row m by (simp add: map_ok_lookup)
  have nobody: "\<not> worn_at (OwnerID r) s q" if "(j, q) \<in> set t" for j q
    using free that by (force simp: occupied_def)
  have "row_ok (Equip s r)" if "row_ok r" for r using that s by (simp add: row_ok_def)
  then have rows: "list_all (\<lambda>(j, q). ObjectID q = j \<and> row_ok q) (put_on i s t)"
    using l by (auto simp: list_all_iff mem)
  have "j = k" if j: "(j, q) \<in> set (put_on i s t)" and k: "(k, p) \<in> set (put_on i s t)"
    and w: "Loc q = LocPaperdoll" "worn_at (OwnerID q) (LocData q) p" for j q k p
  proof (rule ccontr)
    assume ne: "j \<noteq> k"
    obtain q' where q': "(j, q') \<in> set t" "q = (if j = i then Equip s q' else q')" using j mem by blast
    obtain p' where p': "(k, p') \<in> set t" "p = (if k = i then Equip s p' else p')" using k mem by blast
    consider "j = i" "k \<noteq> i" | "k = i" "j \<noteq> i" | "j \<noteq> i" "k \<noteq> i" using ne by blast
    then show False
    proof cases
      case 1
      then have "q = Equip s r" "p = p'" using q' p' only by auto
      then show False using w nobody [OF p'(1)] by simp
    next
      case 2
      then have "p = Equip s r" "q = q'" using q' p' only by auto
      then have "worn_at (OwnerID r) s q'" using w by (auto simp: worn_at_def)
      then show False using nobody [OF q'(1)] by simp
    next
      case 3
      then show False using q' p' w ne d unfolding worn_distinct [OF m] by auto
    qed
  qed
  moreover have mp: "map_ok (put_on i s t)" using m by (simp add: put_on_def)
  ultimately have "distinct (worn_keys (put_on i s t))" unfolding worn_distinct [OF mp] by blast
  then show ?thesis using rows mp by (simp add: table_ok_def)
qed

lemma EquipItem_works:
  assumes "db env = (\<lambda>_. False)" "table_ok (put_on i s (rows st))"
  shows "EquipItem (db env) i s st = (Inr (), st\<lparr>db_calls := db_calls st + 1, rows := put_on i s (rows st)\<rparr>)"
  using assms by (simp add: EquipItem_def exec_def put_on_def Equip_def [abs_def] Let_def)

lemma occupied_fold: "occupied (fold (take_off c) ss t) c s \<longleftrightarrow> occupied t c s \<and> s \<notin> set ss"
  by (induction ss arbitrary: t) (auto simp: occupied_take_off)

lemma table_ok_fold: "table_ok t \<Longrightarrow> table_ok (fold (take_off c) ss t)"
  by (induction ss arbitrary: t) (auto simp: table_ok_take_off)

lemma map_of_fold_take_off:
  "map_of (fold (take_off c) ss t) i
    = map_option (\<lambda>r. if OwnerID r = c \<and> Loc r = LocPaperdoll \<and> LocData r \<in> set ss then Unequip r else r) (map_of t i)"
proof (induction ss arbitrary: t)
  case (Cons s ss)
  show ?case by (cases "map_of t i") (auto simp: Cons map_of_take_off worn_at_def)
qed (simp add: option.map_ident)

lemma slot_range: "BodyPartToPaperdollSlot bp = Some s \<Longrightarrow> 0 \<le> s \<and> s \<le> 25"
proof -
  have "list_all (\<lambda>(_, s). 0 \<le> s \<and> s \<le> 25) slot_table" by (simp add: slot_table_def)
  then show "BodyPartToPaperdollSlot bp = Some s \<Longrightarrow> 0 \<le> s \<and> s \<le> 25"
    by (auto simp: BodyPartToPaperdollSlot_def list_all_iff dest: map_of_SomeD)
qed

lemma equip_plan_slot:
  assumes "equip_plan tm t c bp p = (s, off)" "BodyPartToPaperdollSlot bp = Some p"
  shows "s \<in> set off" "0 \<le> s \<and> s \<le> 25"
proof -
  have "p = SlotRHand" if "IsTwoHanded bp" using two_handed_slot that assms(2) by simp
  moreover have "p = SlotChest" if "IsFullArmor bp" using full_armor_slot that assms(2) by simp
  ultimately show "s \<in> set off" "0 \<le> s \<and> s \<le> 25"
    using assms(1) slot_range [OF assms(2)]
    by (auto simp: equip_plan_def second_slot_def Let_def split: if_splits)
qed

lemma use_refused_calls: "use_refused env c item tmpl cond (st\<lparr>db_calls := n\<rparr>) = use_refused env c item tmpl cond st"
  unfolding use_refused_def Let_def by simp

lemma equip_run:
  assumes db: "db env = (\<lambda>_. False)" and ok: "table_ok (rows st)"
    and item: "map_of (rows st) i = Some item" "OwnerID item = c" "\<not> IsEquipped item"
    and tmpl: "templateOf env (ItemID item) = Some tmpl" "BodyPartToPaperdollSlot (BodyPartCode tmpl) = Some p"
    and allowed: "use_refused env c item tmpl cond st = None"
    and plan: "equip_plan (templateOf env) (rows st) c (BodyPartCode tmpl) p = (s, off)"
  shows "\<exists>res st'. UseItem env c i cond st = (Inr res, st') \<and> erSuccess res
    \<and> rows st' = put_on i s (fold (take_off c) off (rows st)) \<and> table_ok (rows st')"
proof -
  have key: "ObjectID item = i" using ok item(1) by (force simp: table_ok_def list_all_iff dest: map_of_SomeD)
  have bp: "BodyPartCode tmpl \<noteq> 0" using tmpl(2) by (auto simp: BodyPartToPaperdollSlot_def slot_table_def)
  note slot = equip_plan_slot [OF plan tmpl(2)]
  let ?st = "st\<lparr>db_calls := db_calls st + 1\<rparr>"
  obtain cs st1 where clear: "clear_conflicts env c (BodyPartCode tmpl) p ?st = (Inr (s, cs), st1)"
    "rows st1 = fold (take_off c) off (rows st)" "table_ok (rows st1)"
    using clear_conflicts_works [OF db, of ?st p c "BodyPartCode tmpl"] ok slot_range [OF tmpl(2)] plan by auto
  obtain r where r: "map_of (rows st1) i = Some r" "OwnerID r = c"
    using fold_take_off_row [OF item(1)] item(2) clear(2) by metis
  have "table_ok (put_on i s (rows st1))"
    using table_ok_put_on [OF clear(3) r(1)] slot r(2) clear(2) occupied_fold [of c off "rows st" s] by simp
  note eq = EquipItem_works [OF db this]
  have "equipItem env c item tmpl ?st
      = (Inr (cs @ [modified (Equip s item)]), st1\<lparr>db_calls := db_calls st1 + 1, rows := put_on i s (rows st1)\<rparr>)"
    using tmpl(2) clear(1) eq key by (simp add: equipItem_def item_bind_def wrap_error_def item_return_def)
  moreover have "use_refused env c item tmpl cond ?st = None" using allowed use_refused_calls by simp
  ultimately show ?thesis
    using working_queries(2) [OF db, of i st] item tmpl bp clear(2) \<open>table_ok (put_on i s (rows st1))\<close>
    by (simp add: UseItem_def item_bind_def wrap_error_def item_return_def)
qed

section \<open>Properties\<close>

text \<open>
  C20: Equipping does what it promises. When the database works, the use of an item that can be worn and
  is not worn succeeds, without ever meeting the unique index on the paperdoll; the item is then in its
  slot, exactly the items in the way (\<open>equip_plan\<close>: the hands for a two-handed weapon, chest and legs
  for full armor, the free one of two slots for earrings and rings, a two-handed weapon for an item of
  the left hand) are back in the inventory, and no other row of the table has changed.
\<close>

theorem equip_succeeds:
  assumes "db env = (\<lambda>_. False)" "table_ok (rows st)"
    "map_of (rows st) i = Some item" "OwnerID item = c" "\<not> IsEquipped item"
    "templateOf env (ItemID item) = Some tmpl" "BodyPartToPaperdollSlot (BodyPartCode tmpl) = Some p"
    "use_refused env c item tmpl cond st = None"
    "equip_plan (templateOf env) (rows st) c (BodyPartCode tmpl) p = (s, off)"
  shows "\<exists>res st'. UseItem env c i cond st = (Inr res, st') \<and> erSuccess res
    \<and> table_ok (rows st') \<and> map_of (rows st') i = Some (Equip s item)
    \<and> (\<forall>j. j \<noteq> i \<longrightarrow> map_of (rows st') j = map_option
          (\<lambda>r. if OwnerID r = c \<and> Loc r = LocPaperdoll \<and> LocData r \<in> set off then Unequip r else r) (map_of (rows st) j))"
proof -
  obtain res st' where run: "UseItem env c i cond st = (Inr res, st')" "erSuccess res"
    "rows st' = put_on i s (fold (take_off c) off (rows st))" "table_ok (rows st')"
    using equip_run [OF assms] by blast
  have key: "ObjectID r = j" if "map_of (rows st) j = Some r" for j r
    using assms(2) that by (force simp: table_ok_def list_all_iff dest: map_of_SomeD)
  have "map_of (rows st') i = Some (Equip s item)"
    using assms(3,5) key [OF assms(3)]
    by (auto simp: run(3) put_on_def map_of_update_rows map_of_fold_take_off Equip_def Unequip_def IsEquipped_def
        dest: arg_cong [of _ _ LocData])
  moreover have "map_of (rows st') j = map_option
      (\<lambda>r. if OwnerID r = c \<and> Loc r = LocPaperdoll \<and> LocData r \<in> set off then Unequip r else r) (map_of (rows st) j)"
    if "j \<noteq> i" for j
    using that key [of j] by (cases "map_of (rows st) j") (auto simp: run(3) put_on_def map_of_update_rows map_of_fold_take_off)
  ultimately show ?thesis using run by blast
qed


definition plain_template :: "int \<Rightarrow> int \<Rightarrow> ItemTemplate" where
  "plain_template i bp = \<lparr>tmID = i, BodyPartCode = bp, Type2 = ItemType2Armor, Handler = '''', EtcItemType = '''',
     CrystalType = 0, IsMagicWeapon = False, Enchantable = True, Stackable = False, Soulshots = 0, Spiritshots = 0,
     ItemSkills = [], CapsuledItems = [], ReuseDelay = 0, SharedReuseGroup = 0\<rparr>"

definition sample_templates :: "int \<Rightarrow> ItemTemplate option" where
  "sample_templates i = map_option (plain_template i) (map_of [(1, 0x80), (2, 0x4000), (3, 0x100), (4, 0x8000), (5, 0x800)] i)"

definition sample_env :: item_env where
  "sample_env = \<lparr>db = (\<lambda>_. False), templateOf = sample_templates, handlers = [], clock = 0\<rparr>"

definition plain_row :: "int \<Rightarrow> int \<Rightarrow> ItemLocation \<Rightarrow> int \<Rightarrow> CharacterItem" where
  "plain_row i item loc slot = \<lparr>ObjectID = i, OwnerID = 9, ItemID = item, Count = 1, Loc = loc, LocData = slot,
     EnchantLevel = 0, CustomType1 = 0, CustomType2 = 0, ManaLeft = -1, ExpireTime = 0,
      AugmentationID = 0, AugmentationSkill1 = 0, AugmentationSkill2 = 0, AttributeFire = 0, AttributeWater = 0,
      AttributeWind = 0, AttributeEarth = 0, AttributeHoly = 0, AttributeDark = 0, VisualID = 0, IsBlessed = False,
      IsProtected = False\<rparr>"

definition sample_items :: "item_table \<Rightarrow> items" where
  "sample_items t = \<lparr>rows = t, next_object = 100, db_calls = 0, charged = [], reuse = [], auto = [], armed = [],
     recipes = [], told = []\<rparr>"

definition well :: PlayerCondition where
  "well = \<lparr>IsDead = False, InCombat = False\<rparr>"

lemmas sample_item_defs = plain_template_def sample_templates_def sample_env_def plain_row_def sample_items_def well_def

text \<open>A sword and a shield are worn; the two-handed weapon takes both off.\<close>

definition armed_table :: item_table where
  "armed_table = [(11, plain_row 11 1 LocPaperdoll SlotRHand), (12, plain_row 12 3 LocPaperdoll SlotLHand),
     (13, plain_row 13 2 LocInventory (-1)), (14, plain_row 14 5 LocInventory (-1)),
     (15, plain_row 15 4 LocPaperdoll SlotChest), (16, plain_row 16 5 LocWarehouse (-1))]"

lemma armed_table_ok: "table_ok armed_table"
  by (simp add: table_ok_def armed_table_def plain_row_def map_ok_def row_ok_def attributes_def worn_keys_def)

lemma armed_rows [simp]: "rows (sample_items t) = t"
  by (simp add: sample_items_def)

lemma equip_succeeds_witness:
  "\<exists>res st'. UseItem sample_env 9 13 well (sample_items armed_table) = (Inr res, st') \<and> table_ok (rows st')
     \<and> map_of (rows st') 13 = Some (plain_row 13 2 LocPaperdoll SlotRHand)
     \<and> map_of (rows st') 12 = Some (plain_row 12 3 LocInventory (-1))
     \<and> map_of (rows st') 15 = Some (plain_row 15 4 LocPaperdoll SlotChest)"
proof -
  have plan: "equip_plan (templateOf sample_env) (rows (sample_items armed_table)) 9 0x4000 SlotRHand = (SlotRHand, [SlotLHand, SlotRHand])"
    by (simp add: equip_plan_def IsTwoHanded_def)
  have go: "use_refused sample_env 9 (plain_row 13 2 LocInventory (-1)) (plain_template 2 0x4000) well (sample_items armed_table) = None"
    by (simp add: use_refused_def sample_item_defs millisecond_def)
  show ?thesis
    using equip_succeeds [of sample_env "sample_items armed_table" 13 "plain_row 13 2 LocInventory (-1)" 9
        "plain_template 2 0x4000" SlotRHand well SlotRHand "[SlotLHand, SlotRHand]"] plan go armed_table_ok
    by (auto simp: armed_table_def sample_item_defs IsEquipped_def BodyPartToPaperdollSlot_def slot_table_def
        Equip_def Unequip_def)
qed

text \<open>
  Legs can be worn under full armor. Full armor stands for chest and legs, and putting it on takes
  the legs off; putting legs on does not take the full armor off, so that both are worn afterwards.
\<close>

theorem legs_under_full_armor:
  assumes db: "db env = (\<lambda>_. False)" and ok: "table_ok (rows st)"
    and item: "map_of (rows st) i = Some item" "OwnerID item = c" "\<not> IsEquipped item"
      "templateOf env (ItemID item) = Some tmpl" "BodyPartCode tmpl = 0x0800" "use_refused env c item tmpl cond st = None"
    and armor: "map_of (rows st) a = Some r" "worn_at c SlotChest r" "templateOf env (ItemID r) = Some atmpl"
      "IsFullArmor (BodyPartCode atmpl)"
  shows "\<exists>res st'. UseItem env c i cond st = (Inr res, st') \<and> erSuccess res
    \<and> map_of (rows st') i = Some (Equip SlotLegs item) \<and> map_of (rows st') a = Some r"
proof -
  have slot: "BodyPartToPaperdollSlot (BodyPartCode tmpl) = Some SlotLegs"
    by (simp add: item(5) BodyPartToPaperdollSlot_def slot_table_def)
  have plan: "equip_plan (templateOf env) (rows st) c (BodyPartCode tmpl) SlotLegs = (SlotLegs, [SlotLegs])"
    by (simp add: equip_plan_def item(5) IsTwoHanded_def IsFullArmor_def second_slot_def)
  have keys: "ObjectID q = j" if "map_of (rows st) j = Some q" for j q
    using ok that by (force simp: table_ok_def list_all_iff dest: map_of_SomeD)
  have ai: "a \<noteq> i" using armor(1,2) item(1,3) by (auto simp: worn_at_def IsEquipped_def)
  have "\<not> worn_at c SlotLegs item"
    using item(3) by (auto simp: worn_at_def IsEquipped_def)
  then show ?thesis
    using equip_run [OF db ok item(1-4) slot item(6) plan] keys [OF item(1)] keys [OF armor(1)] ai item(1) armor(1,2)
    by (fastforce simp: put_on_def map_of_update_rows map_of_take_off worn_at_def)
qed

lemma legs_under_full_armor_witness:
  "\<exists>res st'. UseItem sample_env 9 14 well (sample_items armed_table) = (Inr res, st')
     \<and> map_of (rows st') 14 = Some (plain_row 14 5 LocPaperdoll SlotLegs)
     \<and> map_of (rows st') 15 = Some (plain_row 15 4 LocPaperdoll SlotChest)"
proof -
  have go: "use_refused sample_env 9 (plain_row 14 5 LocInventory (-1)) (plain_template 5 0x800) well (sample_items armed_table) = None"
    by (simp add: use_refused_def sample_item_defs millisecond_def)
  show ?thesis
    using legs_under_full_armor [of sample_env "sample_items armed_table" 14 "plain_row 14 5 LocInventory (-1)" 9
        "plain_template 5 0x800" well 15 "plain_row 15 4 LocPaperdoll SlotChest" "plain_template 4 0x8000"] go armed_table_ok
    by (auto simp: armed_table_def sample_item_defs IsEquipped_def worn_at_def IsFullArmor_def Equip_def)
qed

text \<open>
  An item in the warehouse can be put on. The use of an item asks who owns it and whether it is worn,
  not where it lies: an item that is in a warehouse goes straight to the paperdoll.
\<close>

theorem warehouse_item_is_worn:
  assumes db: "db env = (\<lambda>_. False)" and ok: "table_ok (rows st)"
    and item: "map_of (rows st) i = Some item" "OwnerID item = c" "Loc item = LocWarehouse"
      "templateOf env (ItemID item) = Some tmpl" "BodyPartToPaperdollSlot (BodyPartCode tmpl) = Some p"
      "use_refused env c item tmpl cond st = None"
  shows "\<exists>res st' r. UseItem env c i cond st = (Inr res, st') \<and> erSuccess res
    \<and> map_of (rows st') i = Some r \<and> IsEquipped r \<and> ItemID r = ItemID item"
proof -
  have worn: "\<not> IsEquipped item" using item(3) by (simp add: IsEquipped_def)
  obtain s off where plan: "equip_plan (templateOf env) (rows st) c (BodyPartCode tmpl) p = (s, off)" by fastforce
  have key: "ObjectID item = i" using ok item(1) by (force simp: table_ok_def list_all_iff dest: map_of_SomeD)
  show ?thesis
    using equip_run [OF db ok item(1,2) worn item(4-6) plan] item(1,3) key equip_plan_slot(2) [OF plan item(5)]
    by (fastforce simp: put_on_def map_of_update_rows map_of_fold_take_off IsEquipped_def)
qed

lemma warehouse_item_is_worn_witness:
  "\<exists>res st' r. UseItem sample_env 9 16 well (sample_items armed_table) = (Inr res, st')
     \<and> map_of (rows st') 16 = Some r \<and> IsEquipped r"
proof -
  have go: "use_refused sample_env 9 (plain_row 16 5 LocWarehouse (-1)) (plain_template 5 0x800) well (sample_items armed_table) = None"
    by (simp add: use_refused_def sample_item_defs millisecond_def)
  show ?thesis
    using warehouse_item_is_worn [of sample_env "sample_items armed_table" 16 "plain_row 16 5 LocWarehouse (-1)" 9
        "plain_template 5 0x800" SlotLegs well] go armed_table_ok
    by (auto simp: armed_table_def sample_item_defs BodyPartToPaperdollSlot_def slot_table_def)
qed

end
