(* ===== verification/ItemHandlers.thy ===== *)
theory ItemHandlers
  imports Inventory
begin

text \<open>
  The handlers of items that are used up, \<open>gameserver/usecase\<close>: soulshots and spiritshots
  (\<open>soulshots.go\<close>), the parked beast and fishing shots (\<open>shotvariants.go\<close>), items that cast a skill
  (\<open>itemskillhandler.go\<close>), boxes (\<open>extractablehandler.go\<close>), recipe scrolls (\<open>recipehandler.go\<close>), and the
  recharge of the automatic shots (\<open>inventory.go\<close>). The notifiers are wired, and what they send is \<open>told\<close>
  in order. The skill data, the recipes of the datapack, the skills of a character and the random
  numbers are fields of \<open>handler_env\<close>. A \<open>Intn\<close> of a bound that is not positive panics, which is the
  error \<open>panic\<close> here. The rate of a box is 1, as \<open>NewExtractableItemsHandler\<close> sets it.
\<close>

record Recipe =
  rcID :: int
  rcCraftLevel :: int
  rcIsDwarven :: bool

record handler_env =
  hdb :: db_fault
  htemplate :: "int \<Rightarrow> ItemTemplate option"
  GetSkill :: "int \<Rightarrow> int \<Rightarrow> string list option"
  recipeOf :: "int \<Rightarrow> Recipe option"
  GetSkillLevel :: "int \<Rightarrow> int \<Rightarrow> int"
  rng :: "nat \<Rightarrow> int \<Rightarrow> int"

definition tell :: "item_note list \<Rightarrow> unit item_op" where
  "tell ns = item_modify (\<lambda>st. st\<lparr>told := told st @ ns\<rparr>)"

definition not_used :: "ItemUseContext \<Rightarrow> (bool \<times> CharacterItem \<times> ChangedItem list) item_op" where
  "not_used use = item_return (False, useItem use, [])"

text \<open>One unit less, in memory and in the table; the row goes with the last unit.\<close>

definition consume_unit :: "db_fault \<Rightarrow> string \<Rightarrow> string \<Rightarrow> CharacterItem \<Rightarrow> CharacterItem item_op" where
  "consume_unit fault deleting updating item =
     (let item = item\<lparr>Count := Count item - 1\<rparr>
      in if Count item \<le> 0
         then item_bind (wrap_error deleting (item_Delete fault (ObjectID item))) (\<lambda>_. item_return (item\<lparr>Count := 0\<rparr>))
         else item_bind (wrap_error updating (item_Update fault item)) (\<lambda>_. item_return item))"

section \<open>Soulshots and spiritshots\<close>

definition gradeSPlus :: "int \<Rightarrow> int" where
  "gradeSPlus g = (if g = 6 \<or> g = 7 then 5 else g)"

definition shotVisualSkill :: "ItemTemplate \<Rightarrow> int \<times> int" where
  "shotVisualSkill shot = (case ItemSkills shot of [] \<Rightarrow> (0, 0) | s # _ \<Rightarrow> s)"

record shotMessages =
  cannotUse :: int
  gradeMismatch :: int
  notEnough :: int
  enabled :: int
  useItemMsg :: int

definition soulShotMessages :: shotMessages where
  "soulShotMessages = \<lparr>cannotUse = 339, gradeMismatch = 337, notEnough = 338, enabled = 342, useItemMsg = 936\<rparr>"

definition spiritShotMessages :: shotMessages where
  "spiritShotMessages = \<lparr>cannotUse = 532, gradeMismatch = 530, notEnough = 531, enabled = 533, useItemMsg = 936\<rparr>"

definition weaponShotCount :: "ShotType \<Rightarrow> ItemTemplate option \<Rightarrow> int" where
  "weaponShotCount shot weapon =
     (case weapon of
        None \<Rightarrow> 0
      | Some w \<Rightarrow> if shot = ShotSpiritshot \<or> shot = ShotBlessedSpiritshot then Spiritshots w else Soulshots w)"

definition shot_refuse :: "ItemUseContext \<Rightarrow> int \<Rightarrow> (bool \<times> CharacterItem \<times> ChangedItem list) item_op" where
  "shot_refuse use m =
     item_bind (if useAuto use then item_return () else tell [SystemMessage (useCharID use) m]) (\<lambda>_. not_used use)"

text \<open>Step 4: the shots are taken from the stack that was used.\<close>

definition shot_consume :: "db_fault \<Rightarrow> CharacterItem \<Rightarrow> int \<Rightarrow> CharacterItem item_op" where
  "shot_consume fault item shotCount =
     (let remaining = Count item - shotCount
      in if remaining \<le> 0
         then item_bind (item_Delete fault (ObjectID item)) (\<lambda>_. item_return (item\<lparr>Count := 0\<rparr>))
         else item_bind (item_Update fault (item\<lparr>Count := remaining\<rparr>)) (\<lambda>_. item_return (item\<lparr>Count := remaining\<rparr>)))"

text \<open>Steps 5 and 6: the weapon holds the charge, and the client hears of it.\<close>

definition shot_charge :: "ShotType \<Rightarrow> shotMessages \<Rightarrow> ItemUseContext \<Rightarrow> CharacterItem \<Rightarrow> int \<Rightarrow> unit item_op" where
  "shot_charge shot msgs use weapon grade =
     (let (skillID, skillLevel) = shotVisualSkill (useTemplate use) in
      item_bind (item_modify (\<lambda>st. st\<lparr>charged := Charge (ObjectID weapon) shot grade (charged st)\<rparr>)) (\<lambda>_.
      tell ((if useAuto use then []
             else [ItemSystemMessage (useCharID use) (useItemMsg msgs) (tmID (useTemplate use)), SystemMessage (useCharID use) (enabled msgs)])
            @ (if skillID > 0 then [BroadcastShotVisual (useCharID use) skillID skillLevel] else []))))"

text \<open>A weapon without a template counts no shots.\<close>

definition shot_UseItem :: "handler_env \<Rightarrow> ShotType \<Rightarrow> shotMessages \<Rightarrow> item_handler" where
  "shot_UseItem env shot msgs use =
     item_bind (GetEquippedItem (hdb env) (useCharID use) SlotRHand) (\<lambda>weapon.
       case weapon of
         None \<Rightarrow> shot_refuse use (cannotUse msgs)
       | Some w \<Rightarrow>
           let wt = htemplate env (ItemID w); shotCount = weaponShotCount shot wt;
               grade = (case wt of None \<Rightarrow> 0 | Some t \<Rightarrow> gradeSPlus (CrystalType t))
           in if shotCount = 0 then shot_refuse use (cannotUse msgs)
              else if grade \<noteq> gradeSPlus (CrystalType (useTemplate use)) then shot_refuse use (gradeMismatch msgs)
              else (\<lambda>st.
                if IsCharged (charged st) (ObjectID w) shot then not_used use st
                else if Count (useItem use) < shotCount then shot_refuse use (notEnough msgs) st
                else item_bind (shot_consume (hdb env) (useItem use) shotCount) (\<lambda>item.
                     item_bind (shot_charge shot msgs use w grade) (\<lambda>_. item_return (True, item, []))) st))"

definition NewSoulShotHandler :: "handler_env \<Rightarrow> item_handler" where
  "NewSoulShotHandler env = shot_UseItem env ShotSoulshot soulShotMessages"

definition NewSpiritShotHandler :: "handler_env \<Rightarrow> item_handler" where
  "NewSpiritShotHandler env = shot_UseItem env ShotSpiritshot spiritShotMessages"

definition NewBlessedSpiritShotHandler :: "handler_env \<Rightarrow> item_handler" where
  "NewBlessedSpiritShotHandler env = shot_UseItem env ShotBlessedSpiritshot spiritShotMessages"

definition msgPetsNotAvailable :: int where "msgPetsNotAvailable = 574"

definition beastShot_UseItem :: item_handler where
  "beastShot_UseItem use = item_bind (tell [SystemMessage (useCharID use) msgPetsNotAvailable]) (\<lambda>_. not_used use)"

definition fishShot_UseItem :: item_handler where
  "fishShot_UseItem use = not_used use"

section \<open>Items that cast a skill\<close>

definition skillHasEscapeEffect :: "string list \<Rightarrow> bool" where
  "skillHasEscapeEffect effects = list_ex (\<lambda>e. e = ''Escape'') effects"

definition ItemSkill_consumeOne :: "db_fault \<Rightarrow> CharacterItem \<Rightarrow> CharacterItem item_op" where
  "ItemSkill_consumeOne fault = consume_unit fault ''failed to delete consumed item'' ''failed to update consumed item count''"

text \<open>The skills of the item that exist; \<open>None\<close> when one of them may not be used in combat.\<close>

fun item_casts :: "handler_env \<Rightarrow> bool \<Rightarrow> (int \<times> int) list \<Rightarrow> (int \<times> int) list option" where
  "item_casts env inCombat [] = Some []"
| "item_casts env inCombat ((i, l) # sks) =
     (case GetSkill env i l of
        None \<Rightarrow> item_casts env inCombat sks
      | Some effects \<Rightarrow>
          if inCombat \<and> skillHasEscapeEffect effects then None
          else map_option (\<lambda>cs. (i, l) # cs) (item_casts env inCombat sks))"

definition ItemSkill_UseItem :: "handler_env \<Rightarrow> item_handler" where
  "ItemSkill_UseItem env use =
     (if ItemSkills (useTemplate use) = [] then not_used use
      else case item_casts env (useInCombat use) (ItemSkills (useTemplate use)) of
             None \<Rightarrow> not_used use
           | Some [] \<Rightarrow> not_used use
           | Some casts \<Rightarrow>
               item_bind (ItemSkill_consumeOne (hdb env) (useItem use)) (\<lambda>item.
               item_bind (tell (map (\<lambda>(i, l). CastItemSkill (useCharID use) i l) casts)) (\<lambda>_.
               item_return (True, item, []))))"

section \<open>Boxes\<close>

definition consumeBox :: "db_fault \<Rightarrow> CharacterItem \<Rightarrow> CharacterItem item_op" where
  "consumeBox fault = consume_unit fault ''failed to delete extracted box'' ''failed to update extracted box count''"

definition newInventoryItem :: "int \<Rightarrow> int \<Rightarrow> int \<Rightarrow> CharacterItem" where
  "newInventoryItem charID itemID cnt =
     \<lparr>ObjectID = 0, OwnerID = charID, ItemID = itemID, Count = cnt, Loc = LocInventory, LocData = -1,
      EnchantLevel = 0, CustomType1 = 0, CustomType2 = 0, ManaLeft = 0, ExpireTime = 0,
      AugmentationID = 0, AugmentationSkill1 = 0, AugmentationSkill2 = 0, AttributeFire = 0, AttributeWater = 0,
      AttributeWind = 0, AttributeEarth = 0, AttributeHoly = 0, AttributeDark = 0, VisualID = 0, IsBlessed = False,
      IsProtected = False\<rparr>"

definition added :: "CharacterItem \<Rightarrow> ChangedItem" where
  "added i = \<lparr>ciItem = i, ciUpdateType = 1\<rparr>"

text \<open>One object for each unit.\<close>

fun create_each :: "db_fault \<Rightarrow> int \<Rightarrow> int \<Rightarrow> nat \<Rightarrow> ChangedItem list item_op" where
  "create_each fault charID itemID 0 = item_return []"
| "create_each fault charID itemID (Suc n) =
     item_bind (wrap_error ''failed to create reward object'' (item_Create fault (newInventoryItem charID itemID 1))) (\<lambda>i.
     item_bind (create_each fault charID itemID n) (\<lambda>is. item_return (added i # is)))"

definition giveReward :: "handler_env \<Rightarrow> int \<Rightarrow> int \<Rightarrow> int \<Rightarrow> ChangedItem list item_op" where
  "giveReward env charID itemID amount =
     (let stackable = (case htemplate env itemID of None \<Rightarrow> False | Some t \<Rightarrow> Stackable t)
      in if stackable
         then item_bind (wrap_error ''failed to look up stackable reward'' (FindStackableItem (hdb env) charID itemID LocInventory)) (\<lambda>existing.
           case existing of
             Some e \<Rightarrow>
               let e = e\<lparr>Count := Count e + amount\<rparr> in
               item_bind (wrap_error ''failed to update reward stack'' (item_Update (hdb env) e)) (\<lambda>_. item_return [modified e])
           | None \<Rightarrow>
               item_bind (wrap_error ''failed to create reward'' (item_Create (hdb env) (newInventoryItem charID itemID amount))) (\<lambda>i.
                 item_return [added i]))
         else create_each (hdb env) charID itemID (nat amount))"

text \<open>The rewards; \<open>k\<close> numbers the random draws.\<close>

fun roll_products :: "handler_env \<Rightarrow> int \<Rightarrow> nat \<Rightarrow> ExtractableProduct list \<Rightarrow> ChangedItem list item_op" where
  "roll_products env charID k [] = item_return []"
| "roll_products env charID k (p # ps) =
     (if rng env k 100000 > epChance p then roll_products env charID (k + 1) ps
      else if epMax p \<noteq> epMin p \<and> epMax p - epMin p + 1 \<le> 0 then item_fail ''panic''
      else let (amount, k) = (if epMax p \<noteq> epMin p then (rng env (k + 1) (epMax p - epMin p + 1) + epMin p, k + 2)
                              else (epMin p, k + 1))
           in if amount \<le> 0 then roll_products env charID k ps
              else item_bind (giveReward env charID (epID p) amount) (\<lambda>cs.
                   item_bind (roll_products env charID k ps) (\<lambda>more. item_return (cs @ more))))"

definition Extractable_UseItem :: "handler_env \<Rightarrow> item_handler" where
  "Extractable_UseItem env use =
     (if CapsuledItems (useTemplate use) = [] then not_used use
      else item_bind (consumeBox (hdb env) (useItem use)) (\<lambda>item.
           item_bind (roll_products env (useCharID use) 0 (CapsuledItems (useTemplate use))) (\<lambda>cs.
           item_return (True, item, cs))))"

section \<open>Recipe scrolls\<close>

definition createDwarvenSkillID :: int where "createDwarvenSkillID = 172"
definition createCommonSkillID :: int where "createCommonSkillID = 1320"
definition defaultRecipeLimit :: int where "defaultRecipeLimit = 50"
definition sysMsgCreateLvlTooLow :: int where "sysMsgCreateLvlTooLow = 404"
definition sysMsgRecipeAlreadyRegistered :: int where "sysMsgRecipeAlreadyRegistered = 840"
definition sysMsgS1Added :: int where "sysMsgS1Added = 851"
definition sysMsgUpToS1Recipes :: int where "sysMsgUpToS1Recipes = 894"
definition sysMsgCantRegisterNoAbility :: int where "sysMsgCantRegisterNoAbility = 1061"

text \<open>The statements on \<open>character_recipes\<close> and \<open>character_skills\<close>; the class index of a row is always 0.\<close>

definition other_query :: "db_fault \<Rightarrow> string \<Rightarrow> (items \<Rightarrow> 'a) \<Rightarrow> 'a item_op" where
  "other_query fault msg f = (\<lambda>st.
     let n = db_calls st; st = st\<lparr>db_calls := n + 1\<rparr> in if fault n then (Inl msg, st) else (Inr (f st), st))"

definition HasRecipe :: "db_fault \<Rightarrow> int \<Rightarrow> int \<Rightarrow> bool item_op" where
  "HasRecipe fault charID recipeID =
     other_query fault ''failed to check recipe existence'' (\<lambda>st. list_ex (\<lambda>(c, r, d). c = charID \<and> r = recipeID) (recipes st))"

definition CountByType :: "db_fault \<Rightarrow> int \<Rightarrow> bool \<Rightarrow> int item_op" where
  "CountByType fault charID isDwarven =
     other_query fault ''failed to count recipes''
       (\<lambda>st. int (length (filter (\<lambda>(c, r, d). c = charID \<and> d = isDwarven) (recipes st))))"

definition AddRecipe :: "db_fault \<Rightarrow> int \<Rightarrow> int \<Rightarrow> bool \<Rightarrow> unit item_op" where
  "AddRecipe fault charID recipeID isDwarven = (\<lambda>st.
     let n = db_calls st; st = st\<lparr>db_calls := n + 1\<rparr>
     in if fault n then (Inl ''failed to add recipe'', st)
        else (Inr (), if list_ex (\<lambda>(c, r, d). c = charID \<and> r = recipeID) (recipes st) then st
                      else st\<lparr>recipes := recipes st @ [(charID, recipeID, isDwarven)]\<rparr>))"

definition Recipe_consumeOne :: "db_fault \<Rightarrow> CharacterItem \<Rightarrow> CharacterItem item_op" where
  "Recipe_consumeOne fault =
     consume_unit fault ''failed to delete consumed recipe scroll'' ''failed to update recipe scroll count''"

definition register_scroll :: "handler_env \<Rightarrow> ItemUseContext \<Rightarrow> Recipe \<Rightarrow> (bool \<times> CharacterItem \<times> ChangedItem list) item_op" where
  "register_scroll env use rp =
     item_bind (wrap_error ''failed to register recipe'' (AddRecipe (hdb env) (useCharID use) (rcID rp) (rcIsDwarven rp))) (\<lambda>_.
     item_bind (Recipe_consumeOne (hdb env) (useItem use)) (\<lambda>item.
     item_bind (tell [ItemSystemMessage (useCharID use) sysMsgS1Added (ItemID (useItem use))]) (\<lambda>_.
     item_return (True, item, []))))"

definition Recipe_UseItem :: "handler_env \<Rightarrow> item_handler" where
  "Recipe_UseItem env use =
     (let c = useCharID use; refuse = (\<lambda>n. item_bind (tell [n]) (\<lambda>_. not_used use)) in
      case recipeOf env (ItemID (useItem use)) of
        None \<Rightarrow> not_used use
      | Some rp \<Rightarrow>
          item_bind (wrap_error ''failed to check recipe registration'' (HasRecipe (hdb env) c (rcID rp))) (\<lambda>has.
          if has then refuse (SystemMessage c sysMsgRecipeAlreadyRegistered)
          else let craftSkillID = (if rcIsDwarven rp then createDwarvenSkillID else createCommonSkillID) in
          item_bind (wrap_error ''failed to read craft skill level''
              (other_query (hdb env) ''failed to get skill level'' (\<lambda>_. GetSkillLevel env c craftSkillID))) (\<lambda>craftLevel.
          if craftLevel < 1 then refuse (SystemMessage c sysMsgCantRegisterNoAbility)
          else if rcCraftLevel rp > craftLevel then refuse (SystemMessage c sysMsgCreateLvlTooLow)
          else
          item_bind (wrap_error ''failed to count registered recipes'' (CountByType (hdb env) c (rcIsDwarven rp))) (\<lambda>cnt.
          if cnt \<ge> defaultRecipeLimit then refuse (SystemMessageWithInt c sysMsgUpToS1Recipes defaultRecipeLimit)
          else
          register_scroll env use rp))))"

section \<open>Arming an enchant scroll\<close>

definition enchant_types :: "string list" where
  "enchant_types = [''SCRL_ENCHANT_WP'', ''SCRL_ENCHANT_AM'', ''BLESS_SCRL_ENCHANT_WP'', ''BLESS_SCRL_ENCHANT_AM'',
     ''ANCIENT_CRYSTAL_ENCHANT_WP'', ''ANCIENT_CRYSTAL_ENCHANT_AM'', ''SCRL_INC_ENCHANT_PROP_WP'', ''SCRL_INC_ENCHANT_PROP_AM'']"

definition has_prefix :: "string \<Rightarrow> string \<Rightarrow> bool" where
  "has_prefix p s \<longleftrightarrow> take (length p) s = p"

definition has_suffix :: "string \<Rightarrow> string \<Rightarrow> bool" where
  "has_suffix p s \<longleftrightarrow> length p \<le> length s \<and> drop (length s - length p) s = p"

text \<open>Weapon, blessed, safe.\<close>

definition classifyEnchantScroll :: "string \<Rightarrow> (bool \<times> bool \<times> bool) option" where
  "classifyEnchantScroll etc =
     (if etc \<in> set enchant_types
      then Some (has_suffix ''_WP'' etc, has_prefix ''BLESS_'' etc, has_prefix ''ANCIENT_CRYSTAL_'' etc) else None)"

definition sysMsgEnchantInProgress :: int where "sysMsgEnchantInProgress = 2188"

definition enchantScroll_UseItem :: item_handler where
  "enchantScroll_UseItem use =
     (if classifyEnchantScroll (EtcItemType (useTemplate use)) = None then not_used use
      else (\<lambda>st.
        if HasActive (armed st) (useCharID use)
        then item_bind (tell [SystemMessage (useCharID use) sysMsgEnchantInProgress]) (\<lambda>_. not_used use) st
        else item_bind (item_modify (\<lambda>st. st\<lparr>armed := SetActive (useCharID use)
                 \<lparr>ScrollObjectID = ObjectID (useItem use), ScrollItemID = tmID (useTemplate use)\<rparr> (armed st)\<rparr>)) (\<lambda>_.
             item_bind (tell [ChooseInventoryItem (useCharID use) (tmID (useTemplate use))]) (\<lambda>_. not_used use)) st))"

section \<open>The handlers the server registers\<close>

definition registered_handlers :: "handler_env \<Rightarrow> (string, item_handler) go_map" where
  "registered_handlers env = fold (\<lambda>(n, h). handler_Register n h)
     [(''SoulShots'', NewSoulShotHandler env), (''SpiritShot'', NewSpiritShotHandler env),
      (''BlessedSpiritShot'', NewBlessedSpiritShotHandler env), (''BeastSoulShot'', beastShot_UseItem),
      (''BeastSpiritShot'', beastShot_UseItem), (''FishShots'', fishShot_UseItem), (''ItemSkills'', ItemSkill_UseItem env),
      (''ManaPotion'', ItemSkill_UseItem env), (''ExtractableItems'', Extractable_UseItem env),
      (''Recipes'', Recipe_UseItem env), (''EnchantScrolls'', enchantScroll_UseItem)] []"

section \<open>Automatic shots\<close>

definition autoSoulShotHandler :: string where "autoSoulShotHandler = ''SoulShots''"

definition findItemStack :: "CharacterItem list \<Rightarrow> int \<Rightarrow> CharacterItem option" where
  "findItemStack its itemID = find (\<lambda>i. ItemID i = itemID \<and> Count i > 0) its"

text \<open>
  The loop over the active shots. \<open>its\<close> is the slice read at the start; a use changes the count of its
  stack in the slice too.
  A use that fails half way may have lowered the count in the slice as well; no later round
  looks at that stack, since the active item ids are distinct.
\<close>

fun recharge_loop :: "item_env \<Rightarrow> int \<Rightarrow> int list \<Rightarrow> CharacterItem list \<Rightarrow> (ChangedItem list \<times> int list) item_op" where
  "recharge_loop env charID [] its = item_return ([], [])"
| "recharge_loop env charID (itemID # active) its =
     (case templateOf env itemID of
        None \<Rightarrow> recharge_loop env charID active its
      | Some tmpl \<Rightarrow>
          if Handler tmpl \<noteq> autoSoulShotHandler then recharge_loop env charID active its
          else (case findItemStack its itemID of
            None \<Rightarrow>
              item_bind (item_modify (\<lambda>st. st\<lparr>auto := Disable charID itemID (auto st)\<rparr>)) (\<lambda>_.
              item_bind (recharge_loop env charID active its) (\<lambda>(cs, off). item_return (cs, itemID # off)))
          | Some stack \<Rightarrow>
              (case handler_Get (handlers env) (Handler tmpl) of
                 None \<Rightarrow> recharge_loop env charID active its
               | Some h \<Rightarrow> (\<lambda>st.
                   case h \<lparr>useCharID = charID, useItem = stack, useTemplate = tmpl, useAuto = True, useInCombat = False\<rparr> st of
                     (Inl _, st) \<Rightarrow> recharge_loop env charID active its st
                   | (Inr (did, item, _), st) \<Rightarrow>
                       let its = map (\<lambda>i. if ObjectID i = ObjectID item then item else i) its in
                       if did
                       then item_bind (recharge_loop env charID active its) (\<lambda>(cs, off).
                              item_return (\<lparr>ciItem = item, ciUpdateType = (if Count item \<le> 0 then 3 else 2)\<rparr> # cs, off)) st
                       else recharge_loop env charID active its st))))"

definition RechargeAutoShots :: "item_env \<Rightarrow> int \<Rightarrow> (ChangedItem list \<times> int list) item_op" where
  "RechargeAutoShots env charID = (\<lambda>st.
     let active = auto_List (auto st) charID
     in if length active = 0 then (Inr ([], []), st)
        else item_bind (GetByCharacter (db env) charID) (recharge_loop env charID active) st)"

section \<open>The handlers keep the table\<close>

lemma exec_rows:
  "exec fault msg f st = (Inr u, st') \<Longrightarrow> rows st' = f (rows st) \<and> table_ok (rows st')"
  "exec fault msg f st = (Inl e, st') \<Longrightarrow> rows st' = rows st"
  by (auto simp: exec_def Let_def split: if_splits)

lemma exec_inv:
  assumes "item_inv tm (rows st)" "exec fault msg f st = (r, st')" "hands_ok tm (f (rows st))"
  shows "item_inv tm (rows st')"
  using assms exec_rows [of fault msg f st] unfolding item_inv_def by (cases r) metis+

lemma item_Update_inv:
  assumes inv: "item_inv tm (rows st)" and row: "map_of (rows st) (ObjectID item) = Some old"
    and same: "Loc item = Loc old" "LocData item = LocData old"
  shows "item_inv tm (rows (snd (item_Update fault item st)))"
proof -
  let ?f = "\<lambda>r. if ObjectID r = ObjectID item then item\<lparr>OwnerID := OwnerID r, ItemID := ItemID r\<rparr> else r"
  have old: "Loc (?f q) = Loc q \<and> LocData (?f q) = LocData q" if "q \<in> snd ` set (rows st)" for q
    using row_of_key [OF _ that] row inv same by (auto simp: item_inv_def)
  have "hands_ok tm (update_rows (\<lambda>r. ObjectID r = ObjectID item) (\<lambda>r. item\<lparr>OwnerID := OwnerID r, ItemID := ItemID r\<rparr>) (rows st))"
  proof (rule hands_ok_mono [of tm "rows st"])
    fix r assume "r \<in> snd ` set (update_rows (\<lambda>r. ObjectID r = ObjectID item) (\<lambda>r. item\<lparr>OwnerID := OwnerID r, ItemID := ItemID r\<rparr>) (rows st))"
      and worn: "Loc r = LocPaperdoll"
    then obtain q where q: "q \<in> snd ` set (rows st)" "r = ?f q" unfolding rows_of_update_rows by blast
    have "OwnerID q = OwnerID r \<and> Loc q = LocPaperdoll \<and> LocData q = LocData r \<and> ItemID q = ItemID r"
    proof -
      have "OwnerID (?f q) = OwnerID q" "ItemID (?f q) = ItemID q" by simp_all
      then show ?thesis using old [OF q(1)] worn unfolding q(2) by metis
    qed
    then show "\<exists>r'\<in>snd ` set (rows st). OwnerID r' = OwnerID r \<and> Loc r' = LocPaperdoll \<and> LocData r' = LocData r \<and> ItemID r' = ItemID r"
      using q(1) by blast
  qed (use inv in \<open>simp add: item_inv_def\<close>)
  then show ?thesis
    using exec_inv [OF inv prod.collapse [symmetric]] by (simp add: item_Update_def)
qed

lemma hands_ok_subset: "hands_ok tm t \<Longrightarrow> snd ` set t' \<subseteq> snd ` set t \<Longrightarrow> hands_ok tm t'"
  by (rule hands_ok_mono [of tm t]) (simp, rule bexI, simp, rule subsetD)

lemma item_Delete_inv:
  assumes inv: "item_inv tm (rows st)"
  shows "item_inv tm (rows (snd (item_Delete fault i st)))"
proof -
  have "hands_ok tm (filter (\<lambda>(_, r). ObjectID r \<noteq> i) (rows st))"
    by (rule hands_ok_subset [of tm "rows st"]) (use inv in \<open>auto simp: item_inv_def\<close>)
  then show ?thesis using exec_inv [OF inv prod.collapse [symmetric]] by (simp add: item_Delete_def)
qed

lemma item_Create_inv:
  assumes inv: "item_inv tm (rows st)" and run: "item_Create fault item st = (r, st')" and loc: "Loc item \<noteq> LocPaperdoll"
  shows "item_inv tm (rows st')"
proof -
  let ?f = "\<lambda>t. t @ [(next_object st, item\<lparr>ObjectID := next_object st\<rparr>)]"
  obtain e st1 where ex: "exec fault ''failed to create item'' ?f (st\<lparr>next_object := next_object st + 1\<rparr>) = (e, st1)" by fastforce
  have "hands_ok tm (?f (rows st))"
    by (rule hands_ok_mono [of tm "rows st"]) (use inv loc in \<open>auto simp: item_inv_def\<close>)
  then have "item_inv tm (rows st1)" using exec_inv [of tm "st\<lparr>next_object := next_object st + 1\<rparr>", OF _ ex] inv by simp
  moreover have "st' = st1" using run ex by (cases e) (auto simp: item_Create_def item_bind_def item_return_def Let_def)
  ultimately show ?thesis by simp
qed

lemma wrap_state: "snd (wrap_error msg m st) = snd (m st)"
  by (simp add: wrap_error_def split: prod.split sum.split)

lemma wrap_pair: "wrap_error msg m st = (r, st') \<Longrightarrow> \<exists>r'. m st = (r', st') \<and> (\<forall>b. r = Inr b \<longrightarrow> r' = Inr b)"
  by (auto simp: wrap_error_def split: prod.splits sum.splits)

lemma bind_inv:
  assumes "item_inv tm (rows (snd (m st)))"
    and "\<And>a st1. m st = (Inr a, st1) \<Longrightarrow> item_inv tm (rows st1) \<Longrightarrow> item_inv tm (rows (snd (f a st1)))"
  shows "item_inv tm (rows (snd (item_bind m f st)))"
  using assms by (auto simp: item_bind_def split: prod.split sum.split)

lemma simple_rows [simp]:
  "rows (snd (item_return a st)) = rows st" "rows (snd (item_fail e st)) = rows st" "rows (snd (tell ns st)) = rows st"
  "rows (snd (not_used use st)) = rows st" "rows (snd (query fault msg f st)) = rows st"
  "rows (snd (other_query fault msg g st)) = rows st" "rows (snd (GetEquippedItem fault c s st)) = rows st"
  by (simp_all add: item_return_def item_fail_def tell_def item_modify_def not_used_def query_def other_query_def
      GetEquippedItem_def Let_def)

lemma consume_unit_inv:
  assumes inv: "item_inv tm (rows st)" and row: "map_of (rows st) (ObjectID item) = Some item"
  shows "item_inv tm (rows (snd (consume_unit fault d u item st)))"
  using item_Delete_inv [OF inv, of fault "ObjectID item"] item_Update_inv [OF inv, of "item\<lparr>Count := Count item - 1\<rparr>" item fault] row
  by (auto simp: consume_unit_def Let_def wrap_state intro!: bind_inv)

lemma consume_inv:
  assumes "item_inv tm (rows st)" "map_of (rows st) (ObjectID item) = Some item"
  shows "item_inv tm (rows (snd (ItemSkill_consumeOne fault item st)))" "item_inv tm (rows (snd (consumeBox fault item st)))"
    "item_inv tm (rows (snd (Recipe_consumeOne fault item st)))"
  using consume_unit_inv [OF assms] by (simp_all add: ItemSkill_consumeOne_def consumeBox_def Recipe_consumeOne_def)

lemma shot_consume_inv:
  assumes inv: "item_inv tm (rows st)" and row: "map_of (rows st) (ObjectID item) = Some item"
  shows "item_inv tm (rows (snd (shot_consume fault item n st)))"
  using item_Delete_inv [OF inv, of fault "ObjectID item"] item_Update_inv [OF inv, of "item\<lparr>Count := Count item - n\<rparr>" item fault] row
  by (auto simp: shot_consume_def Let_def intro!: bind_inv)

lemma shot_rows [simp]:
  "rows (snd (shot_refuse use m st)) = rows st" "rows (snd (shot_charge shot msgs use w g st)) = rows st"
  by (simp_all add: shot_refuse_def shot_charge_def item_bind_def item_return_def tell_def item_modify_def not_used_def
      split: prod.split)

lemma shot_handler_ok: "handler_ok tm (shot_UseItem env shot msgs)"
  unfolding handler_ok_def
proof (intro allI impI, elim conjE)
  fix use :: ItemUseContext and st :: items
  assume inv: "item_inv tm (rows st)" and row: "map_of (rows st) (ObjectID (useItem use)) = Some (useItem use)"
  show "item_inv tm (rows (snd (shot_UseItem env shot msgs use st)))"
    unfolding shot_UseItem_def
  proof (rule bind_inv)
    fix weapon st1
    assume get: "GetEquippedItem (hdb env) (useCharID use) SlotRHand st = (Inr weapon, st1)" and inv1: "item_inv tm (rows st1)"
    have row1: "map_of (rows st1) (ObjectID (useItem use)) = Some (useItem use)"
      using row GetEquippedItem_found(1) [OF get] by simp
    show "item_inv tm (rows (snd ((case weapon of
         None \<Rightarrow> shot_refuse use (cannotUse msgs)
       | Some w \<Rightarrow>
           let wt = htemplate env (ItemID w); shotCount = weaponShotCount shot wt;
               grade = (case wt of None \<Rightarrow> 0 | Some t \<Rightarrow> gradeSPlus (CrystalType t))
           in if shotCount = 0 then shot_refuse use (cannotUse msgs)
              else if grade \<noteq> gradeSPlus (CrystalType (useTemplate use)) then shot_refuse use (gradeMismatch msgs)
              else (\<lambda>st.
                if IsCharged (charged st) (ObjectID w) shot then not_used use st
                else if Count (useItem use) < shotCount then shot_refuse use (notEnough msgs) st
                else item_bind (shot_consume (hdb env) (useItem use) shotCount) (\<lambda>item.
                     item_bind (shot_charge shot msgs use w grade) (\<lambda>_. item_return (True, item, []))) st)) st1)))"
      using inv1 shot_consume_inv [OF inv1 row1]
      by (auto simp: Let_def intro!: bind_inv split: option.split)
  qed (simp add: inv)
qed

lemma item_Create_inv':
  "item_inv tm (rows st) \<Longrightarrow> Loc item \<noteq> LocPaperdoll \<Longrightarrow> item_inv tm (rows (snd (item_Create fault item st)))"
  using item_Create_inv [OF _ prod.collapse [symmetric]] by blast

lemma newInventoryItem_loc [simp]: "Loc (newInventoryItem c i n) = LocInventory"
  by (simp add: newInventoryItem_def)

lemma create_each_inv: "item_inv tm (rows st) \<Longrightarrow> item_inv tm (rows (snd (create_each fault c i n st)))"
proof (induction n arbitrary: st)
  case (Suc n)
  show ?case
    unfolding create_each.simps
    by (rule bind_inv, simp add: wrap_state item_Create_inv' Suc.prems, rule bind_inv, rule Suc.IH) simp_all
qed simp

lemma find_member: "find P xs = Some x \<Longrightarrow> x \<in> set xs"
  by (auto simp: find_Some_iff)

lemma FindStackableItem_row:
  assumes "FindStackableItem fault c i loc st = (Inr (Some e), st')"
  shows "rows st' = rows st" "e \<in> snd ` set (rows st)"
  using assms find_member by (fastforce simp: FindStackableItem_def query_def Let_def split: if_splits)+

lemma giveReward_inv:
  assumes inv: "item_inv tm (rows st)"
  shows "item_inv tm (rows (snd (giveReward env c i n st)))"
proof (cases "case htemplate env i of None \<Rightarrow> False | Some t \<Rightarrow> Stackable t")
  case False
  then show ?thesis using create_each_inv [OF inv] by (simp add: giveReward_def)
next
  case True
  have "item_inv tm (rows (snd (item_bind (wrap_error ''failed to look up stackable reward'' (FindStackableItem (hdb env) c i LocInventory)) (\<lambda>existing.
           case existing of
             Some e \<Rightarrow>
               let e = e\<lparr>Count := Count e + n\<rparr> in
               item_bind (wrap_error ''failed to update reward stack'' (item_Update (hdb env) e)) (\<lambda>_. item_return [modified e])
           | None \<Rightarrow>
               item_bind (wrap_error ''failed to create reward'' (item_Create (hdb env) (newInventoryItem c i n))) (\<lambda>i.
                 item_return [added i])) st)))"
  proof (rule bind_inv)
    show "item_inv tm (rows (snd (wrap_error ''failed to look up stackable reward'' (FindStackableItem (hdb env) c i LocInventory) st)))"
      using inv by (simp add: wrap_state FindStackableItem_def)
  next
    fix existing st1
    assume find: "wrap_error ''failed to look up stackable reward'' (FindStackableItem (hdb env) c i LocInventory) st = (Inr existing, st1)"
      and inv1: "item_inv tm (rows st1)"
    have upd: "item_inv tm (rows (snd (item_Update (hdb env) (e\<lparr>Count := m\<rparr>) st1)))" if "existing = Some e" for e m
    proof -
      have "map_of (rows st1) (ObjectID e) = Some e"
        using FindStackableItem_row [of "hdb env" c i LocInventory st e st1] find that inv1
          row_of_key [of "rows st1" e] by (simp add: item_inv_def)
      then show ?thesis by (intro item_Update_inv [OF inv1, of _ e]) simp_all
    qed
    show "item_inv tm (rows (snd ((case existing of
             Some e \<Rightarrow>
               let e = e\<lparr>Count := Count e + n\<rparr> in
               item_bind (wrap_error ''failed to update reward stack'' (item_Update (hdb env) e)) (\<lambda>_. item_return [modified e])
           | None \<Rightarrow>
               item_bind (wrap_error ''failed to create reward'' (item_Create (hdb env) (newInventoryItem c i n))) (\<lambda>i.
                 item_return [added i])) st1)))"
      using upd inv1 by (auto simp: Let_def wrap_state item_Create_inv' intro!: bind_inv split: option.split)
  qed
  then show ?thesis using True by (simp add: giveReward_def)
qed

lemma roll_products_inv: "item_inv tm (rows st) \<Longrightarrow> item_inv tm (rows (snd (roll_products env c k ps st)))"
  by (induction env c k ps arbitrary: st rule: roll_products.induct)
    (auto simp: giveReward_inv Let_def intro!: bind_inv)

lemma Extractable_ok: "handler_ok tm (Extractable_UseItem env)"
  by (auto simp: handler_ok_def Extractable_UseItem_def roll_products_inv consume_inv intro!: bind_inv)

lemma ItemSkill_ok: "handler_ok tm (ItemSkill_UseItem env)"
  by (auto simp: handler_ok_def ItemSkill_UseItem_def consume_inv intro!: bind_inv split: option.split list.split)

lemma beast_fish_ok: "handler_ok tm beastShot_UseItem" "handler_ok tm fishShot_UseItem"
  by (auto simp: handler_ok_def beastShot_UseItem_def fishShot_UseItem_def intro!: bind_inv)

lemma enchantScroll_ok: "handler_ok tm enchantScroll_UseItem"
  by (auto simp: handler_ok_def enchantScroll_UseItem_def item_modify_def intro!: bind_inv)

lemma recipe_rows [simp]:
  "rows (snd (HasRecipe fault c r st)) = rows st" "rows (snd (CountByType fault c d st)) = rows st"
  "rows (snd (AddRecipe fault c r d st)) = rows st"
  by (simp_all add: HasRecipe_def CountByType_def AddRecipe_def Let_def)

text \<open>A chain of steps that leave the rows alone.\<close>

lemma bind_rows:
  assumes "rows (snd (m st)) = rows st" and "P (rows st)"
    and "\<And>a st1. m st = (Inr a, st1) \<Longrightarrow> rows st1 = rows st \<Longrightarrow> P (rows (snd (f a st1)))"
  shows "P (rows (snd (item_bind m f st)))"
  using assms by (auto simp: item_bind_def split: prod.split sum.split)

lemma Recipe_ok: "handler_ok tm (Recipe_UseItem env)"
  unfolding handler_ok_def
proof (intro allI impI, elim conjE)
  fix use :: ItemUseContext and st :: items
  assume inv: "item_inv tm (rows st)" and row: "map_of (rows st) (ObjectID (useItem use)) = Some (useItem use)"
  have refuse: "item_inv tm (rows (snd (item_bind (tell [n]) (\<lambda>_. not_used use) s)))" if "rows s = rows st" for n s
    using inv that by (auto intro!: bind_inv)
  have register: "item_inv tm (rows (snd (register_scroll env use rp s)))" if "rows s = rows st" for rp s
    unfolding register_scroll_def
    by (rule bind_rows [where P = "item_inv tm"]) (use inv row that in \<open>auto simp: wrap_state consume_inv intro!: bind_inv\<close>)
  show "item_inv tm (rows (snd (Recipe_UseItem env use st)))"
    using inv refuse register
    by (auto simp: Recipe_UseItem_def Let_def wrap_state intro!: bind_rows [where P = "item_inv tm"] split: option.split)
qed

lemma registered_ok: "map_of (registered_handlers env) n = Some h \<Longrightarrow> handler_ok tm h"
  by (auto simp: registered_handlers_def handler_Register_def NewSoulShotHandler_def NewSpiritShotHandler_def
      NewBlessedSpiritShotHandler_def shot_handler_ok beast_fish_ok ItemSkill_ok Extractable_ok Recipe_ok enchantScroll_ok
      split: if_splits)

end
