(* ===== verification/Enchant.thy ===== *)
theory Enchant
  imports Complex_Main ItemHandlers
begin

text \<open>
  Enchanting, \<open>gameserver/usecase/enchant.go\<close>, with the chances of \<open>registry/enchantgroups.go\<close> and the
  data of the scrolls (\<open>registry/enchantdata.go\<close>), which the server loads once. A chance is a \<open>float64\<close>
  in the code and an exact number here: chances are compared, and one sum of two is formed. The random
  number of an attempt is the argument \<open>roll\<close>, \<open>100 * rng()\<close>.
\<close>

unbundle bit_operations_syntax

section \<open>Chances\<close>

record enchantRange =
  erMin :: int
  erMax :: int
  erChance :: rat

record enchantRateItem =
  riGroup :: string
  riItemID :: int
  riSlot :: int
  riMagicWeapon :: "bool option"

definition rate_validate :: "enchantRateItem \<Rightarrow> int \<Rightarrow> bool \<Rightarrow> int \<Rightarrow> bool" where
  "rate_validate ri bodyPart isMagicWeapon itemID =
     (if riItemID ri \<noteq> 0 \<and> riItemID ri \<noteq> itemID then False
      else if riSlot ri \<noteq> 0 \<and> bodyPart AND riSlot ri = 0 then False
      else riMagicWeapon ri = None \<or> riMagicWeapon ri = Some isMagicWeapon)"

record EnchantGroupsRegistry =
  rateGroups :: "(string, enchantRange list) go_map"
  scrollGroups :: "(int, enchantRateItem list) go_map"

fun chanceForLevel :: "enchantRange list \<Rightarrow> enchantRange list \<Rightarrow> int \<Rightarrow> rat" where
  "chanceForLevel all [] level = erChance (last all)"
| "chanceForLevel all (rg # ranges) level =
     (if level \<ge> erMin rg \<and> level \<le> erMax rg then erChance rg else chanceForLevel all ranges level)"

fun chance_of :: "EnchantGroupsRegistry \<Rightarrow> enchantRateItem list \<Rightarrow> int \<Rightarrow> bool \<Rightarrow> int \<Rightarrow> int \<Rightarrow> rat option" where
  "chance_of r [] bodyPart isMagicWeapon itemID level = None"
| "chance_of r (ri # bindings) bodyPart isMagicWeapon itemID level =
     (if \<not> rate_validate ri bodyPart isMagicWeapon itemID then chance_of r bindings bodyPart isMagicWeapon itemID level
      else case map_of (rateGroups r) (riGroup ri) of
             None \<Rightarrow> None
           | Some ranges \<Rightarrow> if length ranges = 0 then None else Some (chanceForLevel ranges ranges level))"

definition Chance :: "EnchantGroupsRegistry \<Rightarrow> int \<Rightarrow> int \<Rightarrow> bool \<Rightarrow> int \<Rightarrow> int \<Rightarrow> rat option" where
  "Chance r scrollGroupID bodyPart isMagicWeapon itemID level =
     (case map_of (scrollGroups r) scrollGroupID of
        None \<Rightarrow> None
      | Some bindings \<Rightarrow> chance_of r bindings bodyPart isMagicWeapon itemID level)"

section \<open>The decision\<close>

datatype EnchantResultCode =
    EnchantCodeSuccess | EnchantCodeFailCrystal | EnchantCodeError | EnchantCodeBlessedFail
  | EnchantCodeFailDestroy | EnchantCodeSafeFail

definition sysMsgInappropriateEnchant :: int where "sysMsgInappropriateEnchant = 355"
definition sysMsgBlessedEnchantFailed :: int where "sysMsgBlessedEnchantFailed = 1517"
definition sysMsgSafeEnchantFailed :: int where "sysMsgSafeEnchantFailed = 6004"
definition sysMsgDoesNotFitScroll :: int where "sysMsgDoesNotFitScroll = 424"

record enchantScrollInfo =
  isWeapon :: bool
  isBlessed :: bool
  isSafe :: bool
  targetGrade :: int
  maxEnchant :: int
  bonusRate :: rat

record enchantTarget =
  etType2 :: ItemType2
  etGrade :: int
  etEnchantLevel :: int
  etEnchantable :: bool
  etBaseChance :: rat

record enchantDecision =
  edCode :: EnchantResultCode
  edNewLevel :: int
  edConsumeScroll :: bool
  edDestroyTarget :: bool
  edSystemMsg :: int

definition enchantTypeMatches :: "bool \<Rightarrow> ItemType2 \<Rightarrow> bool" where
  "enchantTypeMatches scrollIsWeapon t =
     (if scrollIsWeapon then t = ItemType2Weapon else t = ItemType2Armor \<or> t = ItemType2Accessory)"

definition validateEnchant :: "enchantScrollInfo \<Rightarrow> enchantTarget \<Rightarrow> bool" where
  "validateEnchant s t =
     (if \<not> etEnchantable t \<or> \<not> enchantTypeMatches (isWeapon s) (etType2 t) \<or> etGrade t \<noteq> targetGrade s then False
      else if maxEnchant s > 0 \<and> etEnchantLevel t > maxEnchant s then False
      else True)"

definition decideEnchant :: "enchantScrollInfo \<Rightarrow> enchantTarget \<Rightarrow> rat \<Rightarrow> enchantDecision" where
  "decideEnchant s t roll =
     (if \<not> validateEnchant s t
      then \<lparr>edCode = EnchantCodeError, edNewLevel = etEnchantLevel t, edConsumeScroll = False, edDestroyTarget = False,
            edSystemMsg = sysMsgInappropriateEnchant\<rparr>
      else if roll < min (etBaseChance t + bonusRate s) 100
      then \<lparr>edCode = EnchantCodeSuccess, edNewLevel = etEnchantLevel t + 1, edConsumeScroll = True, edDestroyTarget = False,
            edSystemMsg = 0\<rparr>
      else if isSafe s
      then \<lparr>edCode = EnchantCodeSafeFail, edNewLevel = etEnchantLevel t, edConsumeScroll = True, edDestroyTarget = False,
            edSystemMsg = sysMsgSafeEnchantFailed\<rparr>
      else if isBlessed s
      then \<lparr>edCode = EnchantCodeBlessedFail, edNewLevel = 0, edConsumeScroll = True, edDestroyTarget = False,
            edSystemMsg = sysMsgBlessedEnchantFailed\<rparr>
      else \<lparr>edCode = EnchantCodeFailDestroy, edNewLevel = 0, edConsumeScroll = True, edDestroyTarget = True,
            edSystemMsg = 0\<rparr>)"

section \<open>The use case\<close>

record EnchantScrollData =
  TargetGrade :: int
  ScrollGroupID :: int
  MaxEnchant :: int
  BonusRate :: rat

record enchant_env =
  edb :: db_fault
  itemTemplate :: "int \<Rightarrow> ItemTemplate option"
  GetEnchantScroll :: "int \<Rightarrow> EnchantScrollData option"
  groups :: EnchantGroupsRegistry

record EnchantOutcome =
  eoCode :: EnchantResultCode
  eoSystemMsg :: int
  eoTarget :: "CharacterItem option"
  eoTargetDestroyed :: bool
  eoScroll :: "CharacterItem option"
  eoScrollRemoved :: bool
  eoNewEnchantLevel :: int
  eoSuccess :: bool

definition scroll_info :: "bool \<times> bool \<times> bool \<Rightarrow> EnchantScrollData \<Rightarrow> enchantScrollInfo" where
  "scroll_info flags sd =
     (case flags of (w, b, s) \<Rightarrow>
       \<lparr>isWeapon = w, isBlessed = b, isSafe = s, targetGrade = TargetGrade sd, maxEnchant = MaxEnchant sd, bonusRate = BonusRate sd\<rparr>)"

definition target_info :: "ItemTemplate \<Rightarrow> CharacterItem \<Rightarrow> rat \<Rightarrow> enchantTarget" where
  "target_info tmpl target chance =
     \<lparr>etType2 = Type2 tmpl, etGrade = gradeSPlus (CrystalType tmpl), etEnchantLevel = EnchantLevel target,
      etEnchantable = Enchantable tmpl, etBaseChance = chance\<rparr>"

definition consumeScroll :: "db_fault \<Rightarrow> CharacterItem \<Rightarrow> CharacterItem item_op" where
  "consumeScroll fault = consume_unit fault ''delete scroll'' ''update scroll count''"

definition enchant_error :: EnchantOutcome where
  "enchant_error = \<lparr>eoCode = EnchantCodeError, eoSystemMsg = sysMsgInappropriateEnchant, eoTarget = None, eoTargetDestroyed = False,
     eoScroll = None, eoScrollRemoved = False, eoNewEnchantLevel = 0, eoSuccess = False\<rparr>"

text \<open>What the data says of a scroll and a target: the two profiles, or nothing when one of them is missing.\<close>

definition enchant_profiles :: "enchant_env \<Rightarrow> CharacterItem \<Rightarrow> CharacterItem \<Rightarrow> (enchantScrollInfo \<times> enchantTarget) option" where
  "enchant_profiles env scroll target =
     (case (itemTemplate env (ItemID scroll), itemTemplate env (ItemID target)) of
        (Some scrollTmpl, Some targetTmpl) \<Rightarrow>
          (case classifyEnchantScroll (EtcItemType scrollTmpl) of
             None \<Rightarrow> None
           | Some flags \<Rightarrow>
               (case GetEnchantScroll env (ItemID scroll) of
                  None \<Rightarrow> None
                | Some sd \<Rightarrow>
                    (case Chance (groups env) (ScrollGroupID sd) (BodyPartCode targetTmpl) (IsMagicWeapon targetTmpl)
                            (ItemID target) (EnchantLevel target) of
                       None \<Rightarrow> None
                     | Some baseChance \<Rightarrow> Some (scroll_info flags sd, target_info targetTmpl target baseChance))))
      | _ \<Rightarrow> None)"

text \<open>The part after the decision: one scroll is spent, then the target changes.\<close>

definition apply_decision :: "db_fault \<Rightarrow> enchantDecision \<Rightarrow> CharacterItem \<Rightarrow> CharacterItem \<Rightarrow> EnchantOutcome item_op" where
  "apply_decision fault d scroll target =
     (let outcome = \<lparr>eoCode = edCode d, eoSystemMsg = edSystemMsg d, eoTarget = None, eoTargetDestroyed = False, eoScroll = None,
            eoScrollRemoved = False, eoNewEnchantLevel = edNewLevel d, eoSuccess = (edCode d = EnchantCodeSuccess)\<rparr>
      in if edCode d = EnchantCodeError then item_return outcome
         else item_bind (consumeScroll fault scroll) (\<lambda>scroll.
           let outcome = outcome\<lparr>eoScroll := Some scroll, eoScrollRemoved := Count scroll \<le> 0\<rparr> in
           if edDestroyTarget d
           then item_bind (wrap_error ''destroy target'' (item_Delete fault (ObjectID target))) (\<lambda>_.
                item_return (outcome\<lparr>eoTarget := Some target, eoTargetDestroyed := True\<rparr>))
           else let target = target\<lparr>EnchantLevel := edNewLevel d\<rparr> in
                item_bind (wrap_error ''update target enchant'' (item_Update fault target)) (\<lambda>_.
                item_return (outcome\<lparr>eoTarget := Some target\<rparr>))))"

definition EnchantItem :: "enchant_env \<Rightarrow> int \<Rightarrow> int \<Rightarrow> rat \<Rightarrow> EnchantOutcome option item_op" where
  "EnchantItem env charID targetObjectID roll = (\<lambda>st.
     let active = GetActive (armed st) charID; st = st\<lparr>armed := enchant_Clear charID (armed st)\<rparr>
     in case active of
          None \<Rightarrow> (Inr None, st)
        | Some a \<Rightarrow>
            if targetObjectID = 0 then (Inr None, st)
            else item_bind (wrap_error ''load scroll'' (GetByObjectID (edb env) (ScrollObjectID a))) (\<lambda>scroll.
                 item_bind (wrap_error ''load target'' (GetByObjectID (edb env) targetObjectID)) (\<lambda>target.
                 case (scroll, target) of
                   (Some scroll, Some target) \<Rightarrow>
                     if OwnerID target \<noteq> charID \<or> OwnerID scroll \<noteq> charID then item_return (Some enchant_error)
                     else (case enchant_profiles env scroll target of
                             None \<Rightarrow> item_return (Some enchant_error)
                           | Some (s, t) \<Rightarrow>
                               item_bind (apply_decision (edb env) (decideEnchant s t roll) scroll target) (\<lambda>o'.
                                 item_return (Some o')))
                 | _ \<Rightarrow> item_return (Some enchant_error))) st)"

datatype PutEnchantResult = PutEnchantIgnore | PutEnchantInvalid | PutEnchantAccepted

text \<open>\<open>ValidateTarget\<close>, with the message; it does not ask for a chance.\<close>

definition ValidateTarget :: "enchant_env \<Rightarrow> int \<Rightarrow> int \<Rightarrow> (PutEnchantResult \<times> int) item_op" where
  "ValidateTarget env charID targetObjectID = (\<lambda>st.
     let invalid = item_bind (item_modify (\<lambda>st. st\<lparr>armed := enchant_Clear charID (armed st)\<rparr>)) (\<lambda>_.
           item_return (PutEnchantInvalid, sysMsgDoesNotFitScroll)) in
     case GetActive (armed st) charID of
       None \<Rightarrow> (Inr (PutEnchantIgnore, 0), st)
     | Some a \<Rightarrow>
         if targetObjectID = 0 then (Inr (PutEnchantIgnore, 0), st)
         else item_bind (wrap_error ''load scroll'' (GetByObjectID (edb env) (ScrollObjectID a))) (\<lambda>scroll.
              item_bind (wrap_error ''load target'' (GetByObjectID (edb env) targetObjectID)) (\<lambda>target.
              case (scroll, target) of
                (Some scroll, Some target) \<Rightarrow>
                  if OwnerID scroll \<noteq> charID \<or> OwnerID target \<noteq> charID then item_return (PutEnchantIgnore, 0)
                  else (case (itemTemplate env (ItemID scroll), itemTemplate env (ItemID target), GetEnchantScroll env (ItemID scroll)) of
                          (Some scrollTmpl, Some targetTmpl, Some sd) \<Rightarrow>
                            (case classifyEnchantScroll (EtcItemType scrollTmpl) of
                               None \<Rightarrow> invalid
                             | Some flags \<Rightarrow>
                                 if \<not> validateEnchant (scroll_info flags sd) (target_info targetTmpl target 0) then invalid
                                 else item_return (PutEnchantAccepted, 0))
                        | _ \<Rightarrow> invalid)
              | _ \<Rightarrow> item_return (PutEnchantIgnore, 0))) st)"

definition CancelEnchant :: "int \<Rightarrow> items \<Rightarrow> items" where
  "CancelEnchant charID st = st\<lparr>armed := enchant_Clear charID (armed st)\<rparr>"

section \<open>What one attempt does to the table\<close>

lemma object_key: "table_ok t \<Longrightarrow> map_of t i = Some r \<Longrightarrow> ObjectID r = i"
  by (force simp: table_ok_def list_all_iff dest: map_of_SomeD)

lemma map_of_filter_object:
  "table_ok t \<Longrightarrow> map_of (filter (\<lambda>(_, r). ObjectID r \<noteq> i) t) j = (if j = i then None else map_of t j)"
proof -
  assume t: "table_ok t"
  then have "filter (\<lambda>(_, r). ObjectID r \<noteq> i) t = filter (\<lambda>(k, _). k \<noteq> i) t"
    by (intro filter_cong) (auto simp: table_ok_def list_all_iff)
  moreover have "map_of (filter (\<lambda>(k, _). k \<noteq> i) t) j = (if j = i then None else map_of t j)"
    by (induction t) auto
  ultimately show ?thesis by simp
qed

lemma item_Delete_rows:
  "item_Delete fault i st = (Inr u, st') \<Longrightarrow> table_ok (rows st) \<Longrightarrow>
     table_ok (rows st') \<and> (\<forall>j. map_of (rows st') j = (if j = i then None else map_of (rows st) j))"
  "item_Delete fault i st = (Inl e, st') \<Longrightarrow> rows st' = rows st"
  using exec_rows [of fault _ _ st] by (fastforce simp: item_Delete_def map_of_filter_object)+

lemma map_of_item_Update:
  assumes t: "table_ok t" and old: "map_of t (ObjectID item) = Some old" and same: "OwnerID item = OwnerID old" "ItemID item = ItemID old"
  shows "map_of (update_rows (\<lambda>r. ObjectID r = ObjectID item) (\<lambda>r. item\<lparr>OwnerID := OwnerID r, ItemID := ItemID r\<rparr>) t) j
    = (if j = ObjectID item then Some item else map_of t j)"
proof (cases "j = ObjectID item")
  case True
  have "item\<lparr>OwnerID := OwnerID old, ItemID := ItemID old\<rparr> = item" using same by simp
  then show ?thesis using True old object_key [OF t old] by (simp add: map_of_update_rows)
next
  case False
  then show ?thesis using object_key [OF t] by (cases "map_of t j") (auto simp: map_of_update_rows)
qed

lemma item_Update_rows:
  assumes "table_ok (rows st)" "map_of (rows st) (ObjectID item) = Some old" "OwnerID item = OwnerID old" "ItemID item = ItemID old"
  shows "item_Update fault item st = (Inr u, st') \<Longrightarrow> table_ok (rows st') \<and>
      (\<forall>j. map_of (rows st') j = (if j = ObjectID item then Some item else map_of (rows st) j))"
    "item_Update fault item st = (Inl e, st') \<Longrightarrow> rows st' = rows st"
  using exec_rows [of fault _ _ st] map_of_item_Update [OF assms] by (fastforce simp: item_Update_def)+

text \<open>One unit of a row is spent.\<close>

definition spent :: "CharacterItem \<Rightarrow> CharacterItem option" where
  "spent r = (if Count r \<le> 1 then None else Some (r\<lparr>Count := Count r - 1\<rparr>))"

lemma consume_unit_rows:
  assumes t: "table_ok (rows st)" and row: "map_of (rows st) (ObjectID item) = Some item"
    and run: "consume_unit fault d u item st = (res, st')"
  shows "(\<exists>e. res = Inl e \<and> rows st' = rows st)
    \<or> (res = Inr (item\<lparr>Count := max 0 (Count item - 1)\<rparr>) \<and> table_ok (rows st')
        \<and> (\<forall>j. map_of (rows st') j = (if j = ObjectID item then spent item else map_of (rows st) j)))"
proof (cases "Count item \<le> 1")
  case True
  obtain e st1 where ex: "item_Delete fault (ObjectID item) st = (e, st1)" by fastforce
  show ?thesis
  proof (cases e)
    case (Inl m)
    then have "rows st1 = rows st" using item_Delete_rows(2) ex t by simp
    then show ?thesis using run True ex Inl by (auto simp: consume_unit_def Let_def item_bind_def wrap_error_def)
  next
    case (Inr v)
    note rows1 = item_Delete_rows(1) [OF ex [unfolded Inr] t]
    have "res = Inr (item\<lparr>Count := 0\<rparr>)" "st' = st1"
      using run True ex Inr by (auto simp: consume_unit_def Let_def item_bind_def wrap_error_def)
    then show ?thesis using rows1 True by (simp add: spent_def max_def)
  qed
next
  case False
  let ?item = "item\<lparr>Count := Count item - 1\<rparr>"
  obtain e st1 where ex: "item_Update fault ?item st = (e, st1)" by fastforce
  show ?thesis
  proof (cases e)
    case (Inl m)
    then have "rows st1 = rows st" using item_Update_rows(2) [of st ?item item] ex t row by simp
    then show ?thesis using run False ex Inl by (auto simp: consume_unit_def Let_def item_bind_def wrap_error_def)
  next
    case (Inr v)
    note rows1 = item_Update_rows(1) [of st ?item item fault v st1, OF t]
    have "res = Inr ?item" "st' = st1"
      using run False ex Inr by (auto simp: consume_unit_def Let_def item_bind_def wrap_error_def)
    then show ?thesis using rows1 row ex Inr False by (simp add: spent_def max_def)
  qed
qed

lemma spent_upd:
  "\<forall>j. map_of t' j = (if j = i then x else map_of t j) \<Longrightarrow> map_of t' = (map_of t)(i := x)"
  by (auto simp: fun_eq_iff)

lemma consume_unit_upd:
  assumes "table_ok (rows st)" "map_of (rows st) (ObjectID item) = Some item" "consume_unit fault d u item st = (Inr item', st')"
  shows "table_ok (rows st')" "map_of (rows st') = (map_of (rows st))(ObjectID item := spent item)"
    "item' = item\<lparr>Count := max 0 (Count item - 1)\<rparr>"
  using consume_unit_rows [OF assms] by (auto intro: spent_upd)

text \<open>What a decision makes of the target.\<close>

definition enchanted :: "enchantDecision \<Rightarrow> CharacterItem \<Rightarrow> CharacterItem option" where
  "enchanted d target =
     (if edCode d = EnchantCodeError then Some target
      else if edDestroyTarget d then None
      else Some (target\<lparr>EnchantLevel := edNewLevel d\<rparr>))"

lemma apply_decision_rows:
  assumes t: "table_ok (rows st)" and scroll: "map_of (rows st) (ObjectID scroll) = Some scroll"
    and target: "map_of (rows st) (ObjectID target) = Some target" and other: "ObjectID scroll \<noteq> ObjectID target"
    and run: "apply_decision fault d scroll target st = (res, st')"
  shows "table_ok (rows st') \<and>
     (rows st' = rows st \<and> ((\<exists>e. res = Inl e) \<or> edCode d = EnchantCodeError)
      \<or> (map_of (rows st') = (map_of (rows st))(ObjectID scroll := spent scroll) \<and> (\<exists>e. res = Inl e))
      \<or> (map_of (rows st') = (map_of (rows st))(ObjectID scroll := spent scroll, ObjectID target := enchanted d target)
          \<and> (\<exists>o'. res = Inr o' \<and> eoCode o' = edCode d)))"
proof (cases "edCode d = EnchantCodeError")
  case True
  with run t show ?thesis by (auto simp: apply_decision_def)
next
  case False
  obtain e st1 where con: "consumeScroll fault scroll st = (e, st1)" by fastforce
  show ?thesis
  proof (cases e)
    case (Inl m)
    have "rows st1 = rows st" using consume_unit_rows [OF t scroll con [unfolded consumeScroll_def]] Inl by auto
    then show ?thesis using run False con Inl t by (auto simp: apply_decision_def Let_def item_bind_def)
  next
    case (Inr scroll')
    note con' = con [unfolded consumeScroll_def Inr]
    note rows1 = consume_unit_upd [OF t scroll con']
    have target1: "map_of (rows st1) (ObjectID target) = Some target" using rows1(2) target other by simp
    show ?thesis
    proof (cases "edDestroyTarget d")
      case True
      obtain e2 st2 where del: "item_Delete fault (ObjectID target) st1 = (e2, st2)" by fastforce
      show ?thesis
      proof (cases e2)
        case Inl2: (Inl m)
        have "rows st2 = rows st1" using item_Delete_rows(2) del Inl2 rows1(1) by simp
        moreover have "\<exists>e. res = Inl e" "st' = st2" using run
          by (auto simp: apply_decision_def Let_def item_bind_def wrap_error_def False con Inr True del Inl2)
        ultimately show ?thesis using rows1(1,2) by simp
      next
        case Inr2: (Inr v)
        have "map_of (rows st2) = (map_of (rows st1))(ObjectID target := None)" "table_ok (rows st2)"
          using item_Delete_rows(1) [OF del [unfolded Inr2] rows1(1)] by (auto intro: spent_upd)
        moreover have "\<exists>o'. res = Inr o' \<and> eoCode o' = edCode d" "st' = st2" using run
          unfolding apply_decision_def Let_def item_bind_def wrap_error_def item_return_def con Inr del Inr2
          by (force simp add: False con Inr True del Inr2)+
        moreover have "enchanted d target = None" using False True by (simp add: enchanted_def)
        ultimately show ?thesis using rows1(2) by simp
      qed
    next
      case keep: False
      let ?target = "target\<lparr>EnchantLevel := edNewLevel d\<rparr>"
      obtain e2 st2 where upd: "item_Update fault ?target st1 = (e2, st2)" by fastforce
      show ?thesis
      proof (cases e2)
        case Inl2: (Inl m)
        have "rows st2 = rows st1" using item_Update_rows(2) [of st1 ?target target] upd Inl2 rows1(1) target1 by simp
        moreover have "\<exists>e. res = Inl e" "st' = st2" using run
          by (auto simp: apply_decision_def Let_def item_bind_def wrap_error_def False con Inr keep upd Inl2)
        ultimately show ?thesis using rows1(1,2) by simp
      next
        case Inr2: (Inr v)
        have "map_of (rows st2) = (map_of (rows st1))(ObjectID target := Some ?target)" "table_ok (rows st2)"
          using item_Update_rows(1) [of st1 ?target target fault v st2, OF rows1(1)] target1 upd Inr2
          by (auto intro: spent_upd)
        moreover have "\<exists>o'. res = Inr o' \<and> eoCode o' = edCode d" "st' = st2" using run
          unfolding apply_decision_def Let_def item_bind_def wrap_error_def item_return_def con Inr upd Inr2
          by (force simp add: False con Inr keep upd Inr2)+
        moreover have "enchanted d target = Some ?target" using False keep by (simp add: enchanted_def)
        ultimately show ?thesis using rows1(2) by simp
      qed
    qed
  qed
qed

lemma enchant_cases:
  assumes t: "table_ok (rows st)" and active: "GetActive (armed st) c = Some a"
    and run: "EnchantItem env c ti roll st = (res, st')"
  shows "(rows st' = rows st \<and> ((\<exists>e. res = Inl e) \<or> res = Inr None \<or> res = Inr (Some enchant_error)))
    \<or> (\<exists>scroll target s tg st1 r. map_of (rows st) (ScrollObjectID a) = Some scroll \<and> map_of (rows st) ti = Some target
        \<and> OwnerID scroll = c \<and> OwnerID target = c \<and> rows st1 = rows st \<and> enchant_profiles env scroll target = Some (s, tg)
        \<and> apply_decision (edb env) (decideEnchant s tg roll) scroll target st1 = (r, st')
        \<and> (\<forall>o'. r = Inr o' \<longrightarrow> res = Inr (Some o')) \<and> (\<forall>e. r = Inl e \<longrightarrow> res = Inl e))"
proof -
  let ?st = "st\<lparr>armed := enchant_Clear c (armed st)\<rparr>"
  obtain r1 st1 where g1: "GetByObjectID (edb env) (ScrollObjectID a) ?st = (r1, st1)" by fastforce
  obtain r2 st2 where g2: "GetByObjectID (edb env) ti st1 = (r2, st2)" by fastforce
  have rows1: "rows st1 = rows st" using GetByObjectID_rows [OF g1] by simp
  have rows2: "rows st2 = rows st" using GetByObjectID_rows [OF g2] rows1 by simp
  note go = EnchantItem_def active Let_def item_bind_def wrap_error_def item_return_def g1 g2
  show ?thesis
  proof (cases "\<exists>scroll target. ti \<noteq> 0 \<and> r1 = Inr (Some scroll) \<and> r2 = Inr (Some target) \<and> OwnerID scroll = c \<and> OwnerID target = c
      \<and> enchant_profiles env scroll target \<noteq> None")
    case False
    consider "ti = 0" | e where "ti \<noteq> 0" "r1 = Inl e" | e x where "ti \<noteq> 0" "r1 = Inr x" "r2 = Inl e"
      | x where "ti \<noteq> 0" "r1 = Inr None" "r2 = Inr x" | x where "ti \<noteq> 0" "r1 = Inr x" "r2 = Inr None"
      | scroll target where "ti \<noteq> 0" "r1 = Inr (Some scroll)" "r2 = Inr (Some target)" "OwnerID target \<noteq> c \<or> OwnerID scroll \<noteq> c"
      | scroll target where "ti \<noteq> 0" "r1 = Inr (Some scroll)" "r2 = Inr (Some target)" "OwnerID target = c" "OwnerID scroll = c"
          "enchant_profiles env scroll target = None"
      using False by (cases r1; cases r2) (metis option.exhaust)+
    then have "st' \<in> {?st, st1, st2} \<and> ((\<exists>e. res = Inl e) \<or> res = Inr None \<or> res = Inr (Some enchant_error))"
      using run by cases (auto simp: go split: option.splits)
    then show ?thesis using rows1 rows2 by auto
  next
    case True
    then obtain scroll target s tg where ok: "ti \<noteq> 0" "r1 = Inr (Some scroll)" "r2 = Inr (Some target)" "OwnerID scroll = c"
      "OwnerID target = c" "enchant_profiles env scroll target = Some (s, tg)" by auto
    have found: "map_of (rows st) (ScrollObjectID a) = Some scroll" "map_of (rows st) ti = Some target"
      using GetByObjectID_found [OF g1 [unfolded ok(2)]] GetByObjectID_found [OF g2 [unfolded ok(3)]] rows1 by simp_all
    obtain r st3 where ap: "apply_decision (edb env) (decideEnchant s tg roll) scroll target st2 = (r, st3)" by fastforce
    have "st3 = st' \<and> (\<forall>o'. r = Inr o' \<longrightarrow> res = Inr (Some o')) \<and> (\<forall>e. r = Inl e \<longrightarrow> res = Inl e)"
      using run by (cases r) (auto simp: go ok ap)
    then show ?thesis using found ok rows2 ap by blast
  qed
qed


lemma table_ok_update_rows:
  assumes t: "table_ok t"
    and f: "\<And>r. r \<in> snd ` set t \<Longrightarrow> P r \<Longrightarrow> ObjectID (f r) = ObjectID r \<and> OwnerID (f r) = OwnerID r \<and> Loc (f r) = Loc r
      \<and> LocData (f r) = LocData r \<and> row_ok (f r)"
  shows "table_ok (update_rows P f t)"
proof -
  have "worn_keys (update_rows P f t) = worn_keys t"
    using f by (induction t) (auto simp: worn_keys_def update_rows_def split: if_splits)
  moreover have "list_all (\<lambda>(i, r). ObjectID r = i \<and> row_ok r) (update_rows P f t)"
    using t f by (force simp: table_ok_def list_all_iff update_rows_def)
  ultimately show ?thesis using t by (simp add: table_ok_def)
qed

lemma table_ok_delete:
  assumes "table_ok t"
  shows "table_ok (filter (\<lambda>(_, r). ObjectID r \<noteq> i) t)"
proof -
  have "worn_keys (filter P t) = map (\<lambda>(_, r). (OwnerID r, LocData r)) (filter P (filter (\<lambda>(_, r). Loc r = LocPaperdoll) t))" for P
    by (simp add: worn_keys_def conj_commute)
  then have "distinct (worn_keys (filter (\<lambda>(_, r). ObjectID r \<noteq> i) t))"
    using assms by (simp only: table_ok_def worn_keys_def distinct_map_filter)
  then show ?thesis
    using assms by (auto simp: table_ok_def map_ok_def distinct_map_filter list_all_iff)
qed

lemma item_Delete_works:
  "table_ok (rows st) \<Longrightarrow> \<exists>st'. item_Delete (\<lambda>_. False) i st = (Inr (), st')"
  by (simp add: item_Delete_def exec_def Let_def table_ok_delete)

lemma row_ok_of_key: "table_ok t \<Longrightarrow> map_of t i = Some r \<Longrightarrow> row_ok r"
  by (auto simp: table_ok_def list_all_iff dest!: map_of_SomeD)

lemma item_Update_works:
  assumes t: "table_ok (rows st)" and old: "map_of (rows st) (ObjectID item) = Some old"
    and same: "OwnerID item = OwnerID old" "ItemID item = ItemID old" "Loc item = Loc old" "LocData item = LocData old"
    and ok: "row_ok item"
  shows "\<exists>st'. item_Update (\<lambda>_. False) item st = (Inr (), st')"
proof -
  have "table_ok (update_rows (\<lambda>r. ObjectID r = ObjectID item) (\<lambda>r. item\<lparr>OwnerID := OwnerID r, ItemID := ItemID r\<rparr>) (rows st))"
  proof (rule table_ok_update_rows [OF t])
    fix r assume "r \<in> snd ` set (rows st)" "ObjectID r = ObjectID item"
    then have "r = old" using row_of_key [OF t] old by force
    then show "ObjectID (item\<lparr>OwnerID := OwnerID r, ItemID := ItemID r\<rparr>) = ObjectID r
      \<and> OwnerID (item\<lparr>OwnerID := OwnerID r, ItemID := ItemID r\<rparr>) = OwnerID r \<and> Loc (item\<lparr>OwnerID := OwnerID r, ItemID := ItemID r\<rparr>) = Loc r
      \<and> LocData (item\<lparr>OwnerID := OwnerID r, ItemID := ItemID r\<rparr>) = LocData r \<and> row_ok (item\<lparr>OwnerID := OwnerID r, ItemID := ItemID r\<rparr>)"
      using same ok object_key [OF t old] by (simp add: row_ok_def split: if_splits)
  qed
  then show ?thesis by (simp add: item_Update_def exec_def Let_def)
qed

lemma item_Update_refused:
  assumes t: "table_ok (rows st)" and old: "map_of (rows st) (ObjectID item) = Some old" and bad: "\<not> row_ok item"
    and same: "OwnerID item = OwnerID old" "ItemID item = ItemID old"
  shows "\<exists>st'. item_Update fault item st = (Inl ''failed to update item'', st')"
proof -
  have "map_of (update_rows (\<lambda>r. ObjectID r = ObjectID item) (\<lambda>r. item\<lparr>OwnerID := OwnerID r, ItemID := ItemID r\<rparr>) (rows st)) (ObjectID item)
      = Some item"
    using map_of_item_Update [OF t old same] by simp
  then have "\<not> table_ok (update_rows (\<lambda>r. ObjectID r = ObjectID item) (\<lambda>r. item\<lparr>OwnerID := OwnerID r, ItemID := ItemID r\<rparr>) (rows st))"
    using row_ok_of_key bad by blast
  then show ?thesis by (simp add: item_Update_def exec_def Let_def)
qed

lemma consume_unit_works:
  assumes t: "table_ok (rows st)" and row: "map_of (rows st) (ObjectID item) = Some item"
  shows "\<exists>i' st'. consume_unit (\<lambda>_. False) d u item st = (Inr i', st')"
proof (cases "Count item \<le> 1")
  case True
  then show ?thesis using item_Delete_works [OF t, of "ObjectID item"]
    by (auto simp: consume_unit_def Let_def item_bind_def wrap_error_def)
next
  case False
  then have "row_ok (item\<lparr>Count := Count item - 1\<rparr>)" using row_ok_of_key [OF t row] by (simp add: row_ok_def)
  then show ?thesis using item_Update_works [OF t, of "item\<lparr>Count := Count item - 1\<rparr>" item] row False
    by (auto simp: consume_unit_def Let_def item_bind_def wrap_error_def)
qed

lemma apply_decision_works:
  assumes t: "table_ok (rows st)" and scroll: "map_of (rows st) (ObjectID scroll) = Some scroll"
    and target: "map_of (rows st) (ObjectID target) = Some target" and other: "ObjectID scroll \<noteq> ObjectID target"
    and level: "0 \<le> edNewLevel d \<and> edNewLevel d \<le> 127"
  shows "\<exists>o' st'. apply_decision (\<lambda>_. False) d scroll target st = (Inr o', st')"
proof (cases "edCode d = EnchantCodeError")
  case False
  obtain scroll' st1 where con: "consume_unit (\<lambda>_. False) ''delete scroll'' ''update scroll count'' scroll st = (Inr scroll', st1)"
    using consume_unit_works [OF t scroll] by blast
  note rows1 = consume_unit_upd [OF t scroll con]
  have target1: "map_of (rows st1) (ObjectID target) = Some target" using rows1(2) target other by simp
  have row: "row_ok (target\<lparr>EnchantLevel := edNewLevel d\<rparr>)" using row_ok_of_key [OF t target] level by (simp add: row_ok_def)
  obtain st2 where del: "item_Delete (\<lambda>_. False) (ObjectID target) st1 = (Inr (), st2)"
    using item_Delete_works [OF rows1(1)] by blast
  obtain st3 where upd: "item_Update (\<lambda>_. False) (target\<lparr>EnchantLevel := edNewLevel d\<rparr>) st1 = (Inr (), st3)"
    using item_Update_works [OF rows1(1), of "target\<lparr>EnchantLevel := edNewLevel d\<rparr>" target] target1 row by auto
  show ?thesis
    using False con del upd
    by (cases "edDestroyTarget d")
      (simp_all add: apply_decision_def consumeScroll_def Let_def item_bind_def wrap_error_def item_return_def)
qed (simp add: apply_decision_def item_return_def)

lemma apply_decision_refused:
  assumes t: "table_ok (rows st)" and scroll: "map_of (rows st) (ObjectID scroll) = Some scroll"
    and target: "map_of (rows st) (ObjectID target) = Some target" and other: "ObjectID scroll \<noteq> ObjectID target"
    and d: "edCode d \<noteq> EnchantCodeError" "\<not> edDestroyTarget d" "edNewLevel d > 127"
  shows "\<exists>e st'. apply_decision (\<lambda>_. False) d scroll target st = (Inl e, st')
    \<and> map_of (rows st') = (map_of (rows st))(ObjectID scroll := spent scroll)"
proof -
  obtain scroll' st1 where con: "consume_unit (\<lambda>_. False) ''delete scroll'' ''update scroll count'' scroll st = (Inr scroll', st1)"
    using consume_unit_works [OF t scroll] by blast
  note rows1 = consume_unit_upd [OF t scroll con]
  have target1: "map_of (rows st1) (ObjectID target) = Some target" using rows1(2) target other by simp
  obtain st2 where upd: "item_Update (\<lambda>_. False) (target\<lparr>EnchantLevel := edNewLevel d\<rparr>) st1 = (Inl ''failed to update item'', st2)"
    using item_Update_refused [OF rows1(1), of "target\<lparr>EnchantLevel := edNewLevel d\<rparr>" target] target1 d(3)
    by (auto simp: row_ok_def)
  have "rows st2 = rows st1" using item_Update_rows(2) [of st1 "target\<lparr>EnchantLevel := edNewLevel d\<rparr>" target] upd rows1(1) target1 by simp
  then show ?thesis
    using d con upd rows1(2)
    by (simp add: apply_decision_def consumeScroll_def Let_def item_bind_def wrap_error_def)
qed

lemma decide_level: "0 \<le> etEnchantLevel t \<Longrightarrow> 0 \<le> edNewLevel (decideEnchant s t roll)"
  by (simp add: decideEnchant_def)

lemma target_info_level [simp]: "etEnchantLevel (target_info tmpl target ch) = EnchantLevel target"
  by (simp add: target_info_def)

lemma profile_level: "enchant_profiles env scroll target = Some (s, t) \<Longrightarrow> etEnchantLevel t = EnchantLevel target"
  by (auto simp: enchant_profiles_def split: option.splits prod.splits)

lemma decide_new_level:
  "edCode (decideEnchant s t roll) = EnchantCodeSuccess \<Longrightarrow> edNewLevel (decideEnchant s t roll) = etEnchantLevel t + 1
     \<and> \<not> edDestroyTarget (decideEnchant s t roll)"
  "edCode (decideEnchant s t roll) \<noteq> EnchantCodeSuccess \<Longrightarrow> 0 \<le> etEnchantLevel t \<Longrightarrow>
     edNewLevel (decideEnchant s t roll) \<le> etEnchantLevel t"
  by (auto simp: decideEnchant_def split: if_splits)

text \<open>An attempt on rows that are there, with a database that works, is the decision applied.\<close>

lemma enchant_run:
  assumes active: "GetActive (armed st) c = Some a" and zero: "ti \<noteq> 0"
    and rows: "map_of (rows st) (ScrollObjectID a) = Some scroll" "map_of (rows st) ti = Some target"
    and own: "OwnerID scroll = c" "OwnerID target = c"
    and prof: "enchant_profiles env scroll target = Some (s, tg)" and db: "edb env = (\<lambda>_. False)"
  shows "EnchantItem env c ti roll st = (case apply_decision (\<lambda>_. False) (decideEnchant s tg roll) scroll target
      (st\<lparr>armed := enchant_Clear c (armed st), db_calls := db_calls st + 2\<rparr>) of
        (Inl e, st) \<Rightarrow> (Inl e, st) | (Inr o', st) \<Rightarrow> (Inr (Some o'), st))"
  using assms by (simp add: EnchantItem_def item_bind_def item_return_def wrap_error_def GetByObjectID_def query_def Let_def
      split: prod.split sum.split)

section \<open>Properties\<close>

text \<open>
  C8: An enchantment is paid before the item changes. Whatever the database refuses, an attempt with an
  armed scroll on another item of the table ends in one of three ways: no row has changed; one unit of
  the scroll is gone and nothing else has changed, and the attempt is an error; or one unit of the scroll
  is gone and the target is what the decision of that attempt makes of it, both items belong to the
  player, and the outcome says so. The table keeps its constraints in each of them.
\<close>

theorem enchant_pays_first:
  assumes "table_ok (rows st)" "GetActive (armed st) c = Some a" "ScrollObjectID a \<noteq> ti"
    "EnchantItem env c ti roll st = (res, st')"
  shows "table_ok (rows st') \<and>
    (rows st' = rows st
     \<or> (\<exists>scroll target s t. map_of (rows st) (ScrollObjectID a) = Some scroll \<and> map_of (rows st) ti = Some target
         \<and> OwnerID scroll = c \<and> OwnerID target = c \<and> enchant_profiles env scroll target = Some (s, t)
         \<and> ((\<exists>e. res = Inl e) \<and> map_of (rows st') = (map_of (rows st))(ScrollObjectID a := spent scroll)
            \<or> (\<exists>o'. res = Inr (Some o') \<and> eoCode o' = edCode (decideEnchant s t roll))
               \<and> map_of (rows st') = (map_of (rows st))(ScrollObjectID a := spent scroll,
                    ti := enchanted (decideEnchant s t roll) target))))"
  using enchant_cases [OF assms(1,2,4)]
proof (elim disjE exE conjE)
  fix scroll target s tg st1 r
  assume found: "map_of (rows st) (ScrollObjectID a) = Some scroll" "map_of (rows st) ti = Some target"
    and own: "OwnerID scroll = c" "OwnerID target = c" and rows1: "rows st1 = rows st"
    and prof: "enchant_profiles env scroll target = Some (s, tg)"
    and ap: "apply_decision (edb env) (decideEnchant s tg roll) scroll target st1 = (r, st')"
    and res: "\<forall>o'. r = Inr o' \<longrightarrow> res = Inr (Some o')" "\<forall>e. r = Inl e \<longrightarrow> res = Inl e"
  have keys: "ObjectID scroll = ScrollObjectID a" "ObjectID target = ti"
    using object_key [OF assms(1)] found by simp_all
  have t1: "table_ok (rows st1)" "map_of (rows st1) (ObjectID scroll) = Some scroll" "map_of (rows st1) (ObjectID target) = Some target"
    "ObjectID scroll \<noteq> ObjectID target" using assms(1,3) found keys by (simp_all add: rows1)
  show ?thesis
    using apply_decision_rows [OF t1 ap] found own prof res unfolding keys rows1 by metis
qed (simp_all add: assms(1))

text \<open>
  The outcome of an enchantment. When the database works, the scroll and the target are rows of the
  player, and the data fit each other, the attempt returns the decision's code; unless the decision is
  an error, exactly one unit of the scroll is spent, and the target is one level up on success, as it
  was under a safe scroll, at level 0 under a blessed one, and deleted otherwise.
\<close>

theorem enchant_outcome:
  assumes "table_ok (rows st)" "GetActive (armed st) c = Some a" "ScrollObjectID a \<noteq> ti" "ti \<noteq> 0"
    "map_of (rows st) (ScrollObjectID a) = Some scroll" "map_of (rows st) ti = Some target"
    "OwnerID scroll = c" "OwnerID target = c" "enchant_profiles env scroll target = Some (s, t)" "edb env = (\<lambda>_. False)"
    "validateEnchant s t" "EnchantLevel target < 127"
  shows "\<exists>o' st'. EnchantItem env c ti roll st = (Inr (Some o'), st')
    \<and> map_of (rows st') = (map_of (rows st))(ScrollObjectID a := spent scroll,
         ti := (if roll < min (etBaseChance t + bonusRate s) 100 then Some (target\<lparr>EnchantLevel := EnchantLevel target + 1\<rparr>)
                else if isSafe s then Some target
                else if isBlessed s then Some (target\<lparr>EnchantLevel := 0\<rparr>) else None))"
proof -
  let ?d = "decideEnchant s t roll" and ?st = "st\<lparr>armed := enchant_Clear c (armed st), db_calls := db_calls st + 2\<rparr>"
  note level = profile_level [OF assms(9)]
  have keys: "ObjectID scroll = ScrollObjectID a" "ObjectID target = ti"
    using object_key [OF assms(1)] assms(5,6) by simp_all
  have t1: "table_ok (rows ?st)" "map_of (rows ?st) (ObjectID scroll) = Some scroll" "map_of (rows ?st) (ObjectID target) = Some target"
    "ObjectID scroll \<noteq> ObjectID target" using assms(1,3,5,6) keys by simp_all
  have l0: "0 \<le> EnchantLevel target" using row_ok_of_key [OF assms(1,6)] by (simp add: row_ok_def)
  have bounds: "0 \<le> edNewLevel ?d \<and> edNewLevel ?d \<le> 127" using l0 assms(12) level by (simp add: decideEnchant_def)
  obtain o' st' where ap: "apply_decision (\<lambda>_. False) ?d scroll target ?st = (Inr o', st')"
    using apply_decision_works [OF t1 bounds] by blast
  have code: "edCode ?d \<noteq> EnchantCodeError" using assms(11) by (simp add: decideEnchant_def)
  have rows': "map_of (rows st') = (map_of (rows st))(ScrollObjectID a := spent scroll, ti := enchanted ?d target)"
    using apply_decision_rows [OF t1 ap] code keys by auto
  have "enchanted ?d target = (if roll < min (etBaseChance t + bonusRate s) 100 then Some (target\<lparr>EnchantLevel := EnchantLevel target + 1\<rparr>)
                else if isSafe s then Some target
                else if isBlessed s then Some (target\<lparr>EnchantLevel := 0\<rparr>) else None)"
    using assms(11) level by (simp add: enchanted_def decideEnchant_def)
  then show ?thesis
    using rows' enchant_run [OF assms(2,4,5-10), of roll] ap by simp
qed

text \<open>
  A success at level 127 costs the scroll. The level of a row is at most 127 (the \<open>CHECK\<close> of the
  table), and the data of a scroll without a limit lets the attempt go on: the scroll is spent, the
  update of the target is refused, and the player gets an error and no level.
\<close>

theorem enchant_at_limit_loses_scroll:
  assumes "table_ok (rows st)" "GetActive (armed st) c = Some a" "ScrollObjectID a \<noteq> ti" "ti \<noteq> 0"
    "map_of (rows st) (ScrollObjectID a) = Some scroll" "map_of (rows st) ti = Some target"
    "OwnerID scroll = c" "OwnerID target = c" "enchant_profiles env scroll target = Some (s, t)" "edb env = (\<lambda>_. False)"
    "edCode (decideEnchant s t roll) = EnchantCodeSuccess" "EnchantLevel target = 127"
  shows "\<exists>e st'. EnchantItem env c ti roll st = (Inl e, st')
    \<and> map_of (rows st') = (map_of (rows st))(ScrollObjectID a := spent scroll)"
proof -
  let ?d = "decideEnchant s t roll" and ?st = "st\<lparr>armed := enchant_Clear c (armed st), db_calls := db_calls st + 2\<rparr>"
  have keys: "ObjectID scroll = ScrollObjectID a" "ObjectID target = ti"
    using object_key [OF assms(1)] assms(5,6) by simp_all
  have t1: "table_ok (rows ?st)" "map_of (rows ?st) (ObjectID scroll) = Some scroll" "map_of (rows ?st) (ObjectID target) = Some target"
    "ObjectID scroll \<noteq> ObjectID target" using assms(1,3,5,6) keys by simp_all
  have "edNewLevel ?d = 128 \<and> \<not> edDestroyTarget ?d"
    using decide_new_level(1) [OF assms(11)] profile_level [OF assms(9)] assms(12) by simp
  then obtain e st' where ap: "apply_decision (\<lambda>_. False) ?d scroll target ?st = (Inl e, st')"
    "map_of (rows st') = (map_of (rows ?st))(ObjectID scroll := spent scroll)"
    using apply_decision_refused [OF t1, of ?d] assms(11) by auto
  show ?thesis
    using enchant_run [OF assms(2,4,5-10), of roll] ap by (simp add: keys)
qed

text \<open>A plain weapon scroll and two swords, at level 3 and at level 127.\<close>

definition scroll_template :: ItemTemplate where
  "scroll_template = (plain_template 729 0)\<lparr>Type2 := ItemType2Other, EtcItemType := ''SCRL_ENCHANT_WP'', Handler := ''EnchantScrolls''\<rparr>"

definition sword_template :: ItemTemplate where
  "sword_template = (plain_template 80 0x80)\<lparr>Type2 := ItemType2Weapon\<rparr>"

definition enchant_sample :: enchant_env where
  "enchant_sample = \<lparr>edb = (\<lambda>_. False),
     itemTemplate = (\<lambda>i. if i = 729 then Some scroll_template else if i = 80 then Some sword_template else None),
     GetEnchantScroll = (\<lambda>i. if i = 729 then Some \<lparr>TargetGrade = 0, ScrollGroupID = 0, MaxEnchant = 0, BonusRate = 0\<rparr> else None),
     groups = \<lparr>rateGroups = [(''w'', [\<lparr>erMin = 0, erMax = 2, erChance = 100\<rparr>, \<lparr>erMin = 3, erMax = 127, erChance = 66\<rparr>])],
       scrollGroups = [(0, [\<lparr>riGroup = ''w'', riItemID = 0, riSlot = 0, riMagicWeapon = None\<rparr>])]\<rparr>\<rparr>"

definition sword_row :: "int \<Rightarrow> int \<Rightarrow> CharacterItem" where
  "sword_row i level = (plain_row i 80 LocInventory (-1))\<lparr>EnchantLevel := level\<rparr>"

definition scroll_row :: "int \<Rightarrow> CharacterItem" where
  "scroll_row cnt = (plain_row 20 729 LocInventory (-1))\<lparr>Count := cnt\<rparr>"

definition enchant_items :: items where
  "enchant_items = (sample_items [(20, scroll_row 5), (21, sword_row 21 3), (22, sword_row 22 127)])
     \<lparr>armed := [(9, \<lparr>ScrollObjectID = 20, ScrollItemID = 729\<rparr>)]\<rparr>"

lemmas enchant_sample_defs = enchant_sample_def scroll_template_def sword_template_def plain_template_def

lemma enchant_items_ok: "table_ok (rows enchant_items)"
  by (simp add: table_ok_def enchant_items_def sample_items_def scroll_row_def sword_row_def plain_row_def map_ok_def
      row_ok_def attributes_def worn_keys_def)

lemma enchant_items_lookup:
  "GetActive (armed enchant_items) 9 = Some \<lparr>ScrollObjectID = 20, ScrollItemID = 729\<rparr>"
  "map_of (rows enchant_items) 20 = Some (scroll_row 5)" "map_of (rows enchant_items) 21 = Some (sword_row 21 3)"
  "map_of (rows enchant_items) 22 = Some (sword_row 22 127)"
  "OwnerID (scroll_row n) = 9" "OwnerID (sword_row i l) = 9" "EnchantLevel (sword_row i l) = l"
  "spent (scroll_row 5) = Some (scroll_row 4)" "sword_row i l\<lparr>EnchantLevel := m\<rparr> = sword_row i m"
  by (simp_all add: enchant_items_def sample_items_def GetActive_def scroll_row_def sword_row_def plain_row_def spent_def)

lemma enchant_items_profile:
  "enchant_profiles enchant_sample (scroll_row 5) (sword_row i l) =
     Some (\<lparr>isWeapon = True, isBlessed = False, isSafe = False, targetGrade = 0, maxEnchant = 0, bonusRate = 0\<rparr>,
       \<lparr>etType2 = ItemType2Weapon, etGrade = 0, etEnchantLevel = l, etEnchantable = True,
        etBaseChance = chanceForLevel [\<lparr>erMin = 0, erMax = 2, erChance = 100\<rparr>, \<lparr>erMin = 3, erMax = 127, erChance = 66\<rparr>]
          [\<lparr>erMin = 0, erMax = 2, erChance = 100\<rparr>, \<lparr>erMin = 3, erMax = 127, erChance = 66\<rparr>] l\<rparr>)"
  by (simp add: enchant_profiles_def enchant_sample_defs scroll_row_def sword_row_def plain_row_def classifyEnchantScroll_def
      enchant_types_def has_suffix_def has_prefix_def Chance_def rate_validate_def scroll_info_def target_info_def gradeSPlus_def
      del: chanceForLevel.simps)

lemma enchant_outcome_witness:
  "\<exists>o' st'. EnchantItem enchant_sample 9 21 10 enchant_items = (Inr (Some o'), st')
    \<and> map_of (rows st') = (map_of (rows enchant_items))(20 := Some (scroll_row 4), 21 := Some (sword_row 21 4))"
  using enchant_outcome [OF enchant_items_ok enchant_items_lookup(1) _ _ _ _ _ _ enchant_items_profile [of 21 3], of 21 10]
  by (simp add: enchant_items_lookup validateEnchant_def enchantTypeMatches_def) (simp add: enchant_sample_def)

lemma enchant_pays_first_witness:
  "\<exists>res st'. EnchantItem enchant_sample 9 21 80 enchant_items = (res, st') \<and> table_ok (rows st')"
  using enchant_pays_first [OF enchant_items_ok enchant_items_lookup(1), of 21 enchant_sample 80]
  by (cases "EnchantItem enchant_sample 9 21 80 enchant_items") simp

lemma enchant_at_limit_loses_scroll_witness:
  "\<exists>e st'. EnchantItem enchant_sample 9 22 10 enchant_items = (Inl e, st')
    \<and> map_of (rows st') = (map_of (rows enchant_items))(20 := Some (scroll_row 4))"
  using enchant_at_limit_loses_scroll [OF enchant_items_ok enchant_items_lookup(1) _ _ _ _ _ _
      enchant_items_profile [of 22 127], of 22 10]
  by (simp add: enchant_items_lookup validateEnchant_def enchantTypeMatches_def decideEnchant_def) (simp add: enchant_sample_def)

section \<open>Every operation keeps the table and the hands\<close>

lemma update_rows_none: "\<forall>r\<in>snd ` set t. \<not> P r \<Longrightarrow> update_rows P f t = t"
  by (induction t) (auto simp: update_rows_def)

lemma item_Update_gone:
  assumes "table_ok (rows st)" "map_of (rows st) (ObjectID item) = None"
  shows "rows (snd (item_Update fault item st)) = rows st"
proof -
  have "\<forall>r\<in>snd ` set (rows st). ObjectID r \<noteq> ObjectID item" using row_of_key [OF assms(1)] assms(2) by force
  from update_rows_none [OF this] show ?thesis by (simp add: item_Update_def exec_def Let_def)
qed

lemma consumed_row:
  assumes inv: "item_inv tm (rows st)" and scroll: "map_of (rows st) (ObjectID scroll) = Some scroll"
    and target: "map_of (rows st) (ObjectID target) = Some target" and con: "consumeScroll fault scroll st = (Inr scroll', st1)"
    and inv1: "item_inv tm (rows st1)"
  shows "item_inv tm (rows (snd (item_Update fault (target\<lparr>EnchantLevel := n\<rparr>) st1)))"
proof (cases "map_of (rows st1) (ObjectID target)")
  case None
  then show ?thesis using item_Update_gone [of st1 "target\<lparr>EnchantLevel := n\<rparr>"] inv1 by (simp add: item_inv_def)
next
  case (Some old)
  have t: "table_ok (rows st)" using inv by (simp add: item_inv_def)
  note upd = fun_cong [OF consume_unit_upd(2) [OF t scroll con [unfolded consumeScroll_def]], of "ObjectID target"]
  have "Loc old = Loc target \<and> LocData old = LocData target"
  proof (cases "ObjectID target = ObjectID scroll")
    case True
    then have same: "scroll = target" using scroll target by (metis option.inject)
    have "spent target = Some old" using Some upd unfolding same by simp
    then show ?thesis by (auto simp: spent_def split: if_splits)
  next
    case False
    then show ?thesis using Some upd target by simp
  qed
  then show ?thesis using Some by (intro item_Update_inv [OF inv1, of _ old]) simp_all
qed

lemma apply_decision_inv:
  assumes inv: "item_inv tm (rows st)" and scroll: "map_of (rows st) (ObjectID scroll) = Some scroll"
    and target: "map_of (rows st) (ObjectID target) = Some target"
  shows "item_inv tm (rows (snd (apply_decision fault d scroll target st)))"
proof (cases "edCode d = EnchantCodeError")
  case False
  have "item_inv tm (rows (snd (consumeScroll fault scroll st)))"
    using consume_unit_inv [OF inv scroll] by (simp add: consumeScroll_def)
  then show ?thesis
    using consumed_row [OF inv scroll target] item_Delete_inv
    unfolding apply_decision_def Let_def if_not_P [OF False]
    by (auto simp: wrap_state intro!: bind_inv)
qed (use inv in \<open>simp add: apply_decision_def\<close>)

lemma EnchantItem_inv:
  assumes inv: "item_inv tm (rows st)"
  shows "item_inv tm (rows (snd (EnchantItem env c ti roll st)))"
proof (cases "GetActive (armed st) c")
  case None
  then show ?thesis using inv by (simp add: EnchantItem_def Let_def)
next
  case (Some a)
  have t: "table_ok (rows st)" using inv by (simp add: item_inv_def)
  obtain res st' where run: "EnchantItem env c ti roll st = (res, st')" by fastforce
  show ?thesis
    using enchant_cases [OF t Some run]
  proof (elim disjE exE conjE)
    fix scroll target s tg st1 r
    assume found: "map_of (rows st) (ScrollObjectID a) = Some scroll" "map_of (rows st) ti = Some target" and rows1: "rows st1 = rows st"
      and ap: "apply_decision (edb env) (decideEnchant s tg roll) scroll target st1 = (r, st')"
    have "item_inv tm (rows (snd (apply_decision (edb env) (decideEnchant s tg roll) scroll target st1)))"
      using apply_decision_inv [of tm st1 scroll target] inv found object_key [OF t] by (simp add: rows1)
    then show ?thesis by (simp add: ap run)
  qed (use inv run in simp_all)
qed

lemma ValidateTarget_rows: "rows (snd (ValidateTarget env c ti st)) = rows st"
  by (auto simp: ValidateTarget_def item_bind_def wrap_error_def GetByObjectID_def query_def item_return_def item_modify_def Let_def
      split: option.split prod.split)

lemma CancelEnchant_rows: "rows (CancelEnchant c st) = rows st"
  by (simp add: CancelEnchant_def)

end
