(* ===== verification/ItemSteps.thy ===== *)
theory ItemSteps
  imports Enchant
begin

text \<open>
  The item operations together: a character's items through any sequence of uses, takings-off, recharges
  and enchantments, with the handlers the server registers and any failures of the database.
\<close>

section \<open>Recharging keeps the table and the hands\<close>

lemma item_Delete_others:
  assumes "item_Delete fault i st = (r, st')" "table_ok (rows st)" "j \<noteq> i"
  shows "map_of (rows st') j = map_of (rows st) j"
proof (cases r)
  case (Inl e)
  then show ?thesis using item_Delete_rows(2) assms(1,2) by simp
next
  case (Inr u)
  from item_Delete_rows(1) [OF assms(1) [unfolded Inr] assms(2)] assms(3) show ?thesis by simp
qed

lemma item_Update_others:
  assumes "item_Update fault item st = (r, st')" "table_ok (rows st)" "j \<noteq> ObjectID item"
  shows "map_of (rows st') j = map_of (rows st) j"
proof -
  let ?f = "update_rows (\<lambda>r. ObjectID r = ObjectID item) (\<lambda>r. item\<lparr>OwnerID := OwnerID r, ItemID := ItemID r\<rparr>)"
  have "map_of (?f (rows st)) j = map_of (rows st) j"
    using assms(3) object_key [OF assms(2), of j] by (cases "map_of (rows st) j") (auto simp: map_of_update_rows)
  moreover have "rows st' = rows st \<or> rows st' = ?f (rows st)"
    using assms(1) unfolding item_Update_def by (cases r) (simp_all add: exec_rows)
  ultimately show ?thesis by metis
qed

text \<open>What the use of a shot does to the table: nothing but to the row of the shot.\<close>

lemma shot_consume_others:
  assumes "shot_consume fault item n st = (r, st')" "table_ok (rows st)" "j \<noteq> ObjectID item"
  shows "map_of (rows st') j = map_of (rows st) j"
proof (cases "Count item - n \<le> 0")
  case True
  obtain e st1 where run: "item_Delete fault (ObjectID item) st = (e, st1)" by fastforce
  then have "st' = st1" using assms(1) True by (cases e) (auto simp: shot_consume_def Let_def item_bind_def item_return_def)
  then show ?thesis using item_Delete_others [OF run assms(2,3)] by simp
next
  case False
  obtain e st1 where run: "item_Update fault (item\<lparr>Count := Count item - n\<rparr>) st = (e, st1)" by fastforce
  then have "st' = st1" using assms(1) False by (cases e) (auto simp: shot_consume_def Let_def item_bind_def item_return_def)
  then show ?thesis using item_Update_others [OF run assms(2)] assms(3) by simp
qed

lemma shot_consume_item:
  "shot_consume fault item n st = (Inr item', st') \<Longrightarrow> ObjectID item' = ObjectID item \<and> ItemID item' = ItemID item"
  by (auto simp: shot_consume_def Let_def bind_Inr split: if_splits)

text \<open>The branches of a shot handler, by what they do to the rows.\<close>

lemma shot_UseItem_cases:
  assumes "shot_UseItem env shot msgs use st = (r, st')"
  shows "(rows st' = rows st \<and> charged st' = charged st \<and> (\<forall>did item cs. r = Inr (did, item, cs) \<longrightarrow> \<not> did \<and> item = useItem use))
    \<or> (\<exists>w st1 st2 r1. GetEquippedItem (hdb env) (useCharID use) SlotRHand st = (Inr (Some w), st1)
        \<and> \<not> IsCharged (charged st) (ObjectID w) shot
        \<and> weaponShotCount shot (htemplate env (ItemID w)) \<noteq> 0
        \<and> weaponShotCount shot (htemplate env (ItemID w)) \<le> Count (useItem use)
        \<and> shot_consume (hdb env) (useItem use) (weaponShotCount shot (htemplate env (ItemID w))) st1 = (r1, st2)
        \<and> ((\<exists>e. r1 = Inl e \<and> r = Inl e \<and> st' = st2)
           \<or> (\<exists>item. r1 = Inr item \<and> r = Inr (True, item, []) \<and> rows st' = rows st2 \<and> charged st' = Charge (ObjectID w) shot (gradeSPlus (CrystalType (useTemplate use))) (charged st2))))"
proof -
  obtain g st1 where get: "GetEquippedItem (hdb env) (useCharID use) SlotRHand st = (g, st1)" by fastforce
  have st1: "rows st1 = rows st" "charged st1 = charged st"
    using get by (auto simp: GetEquippedItem_def query_def Let_def split: if_splits)
  note defs = shot_UseItem_def item_bind_def get
  have quiet: "rows st2 = rows st \<and> charged st2 = charged st \<and> r' = Inr (False, useItem use, [])"
    if "shot_refuse use m st1 = (r', st2) \<or> not_used use st1 = (r', st2)" for m st2 r'
    using that st1
    by (auto simp: shot_refuse_def item_bind_def item_return_def tell_def item_modify_def not_used_def split: if_splits)
  show ?thesis
  proof (cases "\<exists>w. g = Inr (Some w) \<and> weaponShotCount shot (htemplate env (ItemID w)) \<noteq> 0 \<and>
      (case htemplate env (ItemID w) of None \<Rightarrow> 0 | Some t \<Rightarrow> gradeSPlus (CrystalType t)) = gradeSPlus (CrystalType (useTemplate use))
      \<and> \<not> IsCharged (charged st1) (ObjectID w) shot \<and> weaponShotCount shot (htemplate env (ItemID w)) \<le> Count (useItem use)")
    case False
    have "(\<exists>e. r = Inl e \<and> st' = st1) \<or> (\<exists>m. shot_refuse use m st1 = (r, st')) \<or> not_used use st1 = (r, st')"
    proof (cases g)
      case (Inl e)
      then show ?thesis using assms by (auto simp: defs)
    next
      case (Inr found)
      show ?thesis
      proof (cases found)
        case None
        then show ?thesis using assms Inr by (auto simp: defs)
      next
        case (Some w)
        then show ?thesis using assms Inr False by (auto simp: defs Let_def split: if_splits)
      qed
    qed
    then have "rows st' = rows st \<and> charged st' = charged st \<and> ((\<exists>e. r = Inl e) \<or> r = Inr (False, useItem use, []))"
      using quiet st1 by blast
    then show ?thesis by auto
  next
    case True
    then obtain w where w: "g = Inr (Some w)" "weaponShotCount shot (htemplate env (ItemID w)) \<noteq> 0"
      "(case htemplate env (ItemID w) of None \<Rightarrow> 0 | Some t \<Rightarrow> gradeSPlus (CrystalType t)) = gradeSPlus (CrystalType (useTemplate use))"
      "\<not> IsCharged (charged st1) (ObjectID w) shot" "weaponShotCount shot (htemplate env (ItemID w)) \<le> Count (useItem use)" by blast
    let ?n = "weaponShotCount shot (htemplate env (ItemID w))" and ?g = "gradeSPlus (CrystalType (useTemplate use))"
    obtain r1 st2 where con: "shot_consume (hdb env) (useItem use) ?n st1 = (r1, st2)" by fastforce
    have run: "shot_UseItem env shot msgs use st = item_bind (shot_consume (hdb env) (useItem use) ?n) (\<lambda>item.
        item_bind (shot_charge shot msgs use w ?g) (\<lambda>_. item_return (True, item, []))) st1"
      using w by (simp add: shot_UseItem_def item_bind_def [of "GetEquippedItem (hdb env) (useCharID use) SlotRHand"] get Let_def)
    have "(\<exists>e. r1 = Inl e \<and> r = Inl e \<and> st' = st2)
       \<or> (\<exists>item. r1 = Inr item \<and> r = Inr (True, item, []) \<and> rows st' = rows st2 \<and> charged st' = Charge (ObjectID w) shot (gradeSPlus (CrystalType (useTemplate use))) (charged st2))"
      using assms unfolding run
      by (cases r1) (auto simp: item_bind_def con item_return_def shot_charge_def tell_def item_modify_def split: prod.splits)
    then show ?thesis using get w st1 con by auto
  qed
qed

lemma shot_consume_rows:
  assumes t: "table_ok (rows st)" and row: "map_of (rows st) (ObjectID item) = Some item"
    and run: "shot_consume fault item n st = (r, st')"
  shows "(\<exists>e. r = Inl e \<and> rows st' = rows st)
    \<or> (\<exists>item'. r = Inr item' \<and> ObjectID item' = ObjectID item \<and> ItemID item' = ItemID item \<and> table_ok (rows st')
        \<and> map_of (rows st') (ObjectID item) = (if Count item \<le> n then None else Some (item\<lparr>Count := Count item - n\<rparr>))
        \<and> (if Count item \<le> n then Count item' = 0 else item' = item\<lparr>Count := Count item - n\<rparr>))"
proof (cases "Count item - n \<le> 0")
  case True
  obtain e st1 where del: "item_Delete fault (ObjectID item) st = (e, st1)" by fastforce
  show ?thesis
  proof (cases e)
    case (Inl m)
    then have "r = Inl m" "st' = st1" using run True del by (simp_all add: shot_consume_def Let_def item_bind_def)
    then show ?thesis using item_Delete_rows(2) [OF del [unfolded Inl]] by simp
  next
    case (Inr u)
    have "r = Inr (item\<lparr>Count := 0\<rparr>)" "st' = st1"
      using run True del Inr by (auto simp: shot_consume_def Let_def item_bind_def)
    then show ?thesis using item_Delete_rows(1) [OF del [unfolded Inr] t] True by simp
  qed
next
  case False
  let ?item = "item\<lparr>Count := Count item - n\<rparr>"
  obtain e st1 where upd: "item_Update fault ?item st = (e, st1)" by fastforce
  show ?thesis
  proof (cases e)
    case (Inl m)
    then have "r = Inl m" "st' = st1" using run False upd by (simp_all add: shot_consume_def Let_def item_bind_def)
    then show ?thesis using item_Update_rows(2) [of st ?item item fault m st1] upd Inl t row by simp
  next
    case (Inr u)
    have r: "r = Inr ?item" "st' = st1"
      using run False upd Inr by (auto simp: shot_consume_def Let_def item_bind_def)
    have "table_ok (rows st1) \<and> (\<forall>j. map_of (rows st1) j = (if j = ObjectID ?item then Some ?item else map_of (rows st) j))"
      by (rule item_Update_rows(1) [of st ?item item fault u]) (use t row upd Inr in simp_all)
    then show ?thesis using r False by simp
  qed
qed

definition fresh :: "CharacterItem list \<Rightarrow> items \<Rightarrow> bool" where
  "fresh its st \<longleftrightarrow> (\<forall>i\<in>set its. Count i > 0 \<longrightarrow> map_of (rows st) (ObjectID i) = Some i)"

lemma fresh_rows: "fresh its st \<Longrightarrow> rows st' = rows st \<Longrightarrow> fresh its st'"
  by (simp add: fresh_def)

lemma shot_use_fresh:
  assumes inv: "item_inv tm (rows st)" and fresh: "fresh its st" and stack: "useItem use \<in> set its" "Count (useItem use) > 0"
    and run: "shot_UseItem env shot msgs use st = (r, st')"
  shows "(case r of Inl _ \<Rightarrow> fresh its st'
    | Inr (did, item, cs) \<Rightarrow> fresh (map (\<lambda>i. if ObjectID i = ObjectID item then item else i) its) st')"
proof -
  let ?i = "useItem use"
  have t: "table_ok (rows st)" using inv by (simp add: item_inv_def)
  have row: "map_of (rows st) (ObjectID ?i) = Some ?i" using fresh stack by (simp add: fresh_def)
  have same: "ObjectID i = ObjectID ?i \<Longrightarrow> i \<in> set its \<Longrightarrow> Count i > 0 \<Longrightarrow> i = ?i" for i
    using fresh row by (fastforce simp: fresh_def)
  show ?thesis
    using shot_UseItem_cases [OF run]
  proof (elim disjE exE conjE)
    assume rows: "rows st' = rows st" and quiet: "\<forall>did item cs. r = Inr (did, item, cs) \<longrightarrow> \<not> did \<and> item = ?i"
    have "fresh (map (\<lambda>i. if ObjectID i = ObjectID ?i then ?i else i) its) st'"
      using fresh row rows by (auto simp: fresh_def)
    then show ?thesis using quiet fresh_rows [OF fresh rows] by (auto split: sum.split prod.split)
  next
    fix w st1 st2 r1 e
    assume get: "GetEquippedItem (hdb env) (useCharID use) SlotRHand st = (Inr (Some w), st1)"
      and con: "shot_consume (hdb env) ?i (weaponShotCount shot (htemplate env (ItemID w))) st1 = (r1, st2)"
      and r: "r1 = Inl e" "r = Inl e" "st' = st2"
    have st1: "rows st1 = rows st" using GetEquippedItem_found(1) [OF get] by simp
    have "rows st2 = rows st" using shot_consume_rows [OF _ _ con] t row r(1) unfolding st1 by auto
    then show ?thesis using fresh_rows [OF fresh] r by simp
  next
    fix w st1 st2 r1 item
    assume get: "GetEquippedItem (hdb env) (useCharID use) SlotRHand st = (Inr (Some w), st1)"
      and con: "shot_consume (hdb env) ?i (weaponShotCount shot (htemplate env (ItemID w))) st1 = (r1, st2)"
      and r: "r1 = Inr item" "r = Inr (True, item, [])" "rows st' = rows st2"
    have st1: "rows st1 = rows st" using GetEquippedItem_found(1) [OF get] by simp
    have eff: "ObjectID item = ObjectID ?i" "Count item > 0 \<Longrightarrow> map_of (rows st2) (ObjectID ?i) = Some item"
      using shot_consume_rows [OF _ _ con] t row r(1) unfolding st1 by (auto split: if_splits)
    have others: "map_of (rows st2) j = map_of (rows st) j" if "j \<noteq> ObjectID ?i" for j
      using shot_consume_others [OF con _ that] t unfolding st1 by simp
    have "fresh (map (\<lambda>i. if ObjectID i = ObjectID item then item else i) its) st'"
      unfolding fresh_def
    proof (intro ballI impI)
      fix i assume i: "i \<in> set (map (\<lambda>i. if ObjectID i = ObjectID item then item else i) its)" "Count i > 0"
      then obtain q where q: "q \<in> set its" "i = (if ObjectID q = ObjectID item then item else q)" by auto
      show "map_of (rows st') (ObjectID i) = Some i"
        using q i(2) eff others [of "ObjectID q"] fresh r(3) by (auto simp: fresh_def split: if_splits)
    qed
    then show ?thesis using r(2) by simp
  qed
qed

lemma soulshot_handler: "handler_Get (registered_handlers he) ''SoulShots'' = Some (NewSoulShotHandler he)"
  by (simp add: handler_Get_def registered_handlers_def handler_Register_def)

lemma soulshot_inv:
  assumes "item_inv tm (rows st)" "map_of (rows st) (ObjectID (useItem use)) = Some (useItem use)" "NewSoulShotHandler he use st = (r, st')"
  shows "item_inv tm (rows st')"
  using shot_handler_ok [of tm he ShotSoulshot soulShotMessages] assms unfolding handler_ok_def NewSoulShotHandler_def
  by (metis snd_conv)

lemma recharge_loop_inv:
  assumes h: "handlers env = registered_handlers he"
  shows "item_inv tm (rows st) \<Longrightarrow> fresh its st \<Longrightarrow> item_inv tm (rows (snd (recharge_loop env c active its st)))"
proof (induction active arbitrary: its st)
  case (Cons itemID active)
  consider (skip) "templateOf env itemID = None"
    | (other) tmpl where "templateOf env itemID = Some tmpl" "Handler tmpl \<noteq> autoSoulShotHandler"
    | (gone) tmpl where "templateOf env itemID = Some tmpl" "Handler tmpl = autoSoulShotHandler" "findItemStack its itemID = None"
    | (shoot) tmpl stack where "templateOf env itemID = Some tmpl" "Handler tmpl = autoSoulShotHandler" "findItemStack its itemID = Some stack"
    by (cases "templateOf env itemID"; cases "findItemStack its itemID") blast+
  then show ?case
  proof cases
    case gone
    let ?st = "st\<lparr>auto := Disable c itemID (auto st)\<rparr>"
    have "item_inv tm (rows (snd (recharge_loop env c active its ?st)))"
      using Cons.IH [of ?st its] Cons.prems by (simp add: fresh_def)
    then show ?thesis using gone by (auto simp: item_bind_def item_modify_def item_return_def split: prod.split sum.split)
  next
    case shoot
    let ?u = "\<lparr>useCharID = c, useItem = stack, useTemplate = tmpl, useAuto = True, useInCombat = False\<rparr>"
    obtain r st1 where run: "NewSoulShotHandler he ?u st = (r, st1)" by fastforce
    have stack: "stack \<in> set its" "Count stack > 0"
      using shoot(3) by (auto simp: findItemStack_def find_Some_iff)
    have row: "map_of (rows st) (ObjectID (useItem ?u)) = Some (useItem ?u)"
      using Cons.prems(2) stack by (simp add: fresh_def)
    have inv1: "item_inv tm (rows st1)" by (rule soulshot_inv [OF Cons.prems(1) row run])
    have fr: "(case r of Inl _ \<Rightarrow> fresh its st1
      | Inr (did, item, cs) \<Rightarrow> fresh (map (\<lambda>i. if ObjectID i = ObjectID item then item else i) its) st1)"
      by (rule shot_use_fresh [OF Cons.prems, of ?u]) (use stack run in \<open>simp_all add: NewSoulShotHandler_def\<close>)
    show ?thesis
    proof (cases r)
      case (Inl e)
      then show ?thesis using shoot run h soulshot_handler Cons.IH [OF inv1] fr by (simp add: autoSoulShotHandler_def)
    next
      case (Inr x)
      obtain did item cs where x: "x = (did, item, cs)" by (cases x) auto
      let ?its = "map (\<lambda>i. if ObjectID i = ObjectID item then item else i) its"
      have "item_inv tm (rows (snd (recharge_loop env c active ?its st1)))"
        using Cons.IH [OF inv1] fr by (simp add: Inr x)
      then show ?thesis using shoot run h soulshot_handler Inr x
        by (auto simp: autoSoulShotHandler_def Let_def item_bind_def item_return_def split: prod.split sum.split)
    qed
  qed (use Cons in simp_all)
qed simp

lemma GetByCharacter_fresh:
  assumes "item_inv tm (rows st)" "GetByCharacter fault c st = (Inr its, st')"
  shows "fresh its st' \<and> rows st' = rows st"
  using assms row_of_key [of "rows st"]
  by (auto simp: GetByCharacter_def query_def Let_def fresh_def item_inv_def split: if_splits)

lemma RechargeAutoShots_inv:
  assumes h: "handlers env = registered_handlers he" and inv: "item_inv tm (rows st)"
  shows "item_inv tm (rows (snd (RechargeAutoShots env c st)))"
proof (cases "length (auto_List (auto st) c) = 0")
  case False
  have "item_inv tm (rows (snd (item_bind (GetByCharacter (db env) c) (recharge_loop env c (auto_List (auto st) c)) st)))"
  proof (rule bind_inv)
    show "item_inv tm (rows (snd (GetByCharacter (db env) c st)))"
      using inv by (simp add: GetByCharacter_def)
  next
    fix its st1 assume get: "GetByCharacter (db env) c st = (Inr its, st1)" and inv1: "item_inv tm (rows st1)"
    show "item_inv tm (rows (snd (recharge_loop env c (auto_List (auto st) c) its st1)))"
      by (rule recharge_loop_inv [OF h inv1]) (use GetByCharacter_fresh [OF inv get] in simp)
  qed
  then show ?thesis using False by (simp add: RechargeAutoShots_def Let_def)
qed (use inv in \<open>simp add: RechargeAutoShots_def Let_def\<close>)

section \<open>The operations as steps\<close>

text \<open>
  What the server does with items. Each step has its own environment, and with it its own failures of
  the database; \<open>tm\<close> are the item templates, which do not change.
\<close>

inductive item_step :: "(int \<Rightarrow> ItemTemplate option) \<Rightarrow> items \<Rightarrow> items \<Rightarrow> bool" for tm where
  use: "item_step tm st (snd (UseItem env c i cond st))" if "templateOf env = tm" "handlers env = registered_handlers he"
| unequip: "item_step tm st (snd (UnequipBySlot env c slot st))"
| recharge: "item_step tm st (snd (RechargeAutoShots env c st))" if "handlers env = registered_handlers he"
| enchant: "item_step tm st (snd (EnchantItem ee c i roll st))"
| put_target: "item_step tm st (snd (ValidateTarget ee c i st))"
| cancel: "item_step tm st (CancelEnchant c st)"

inductive_cases item_stepE: "item_step tm st st'"

lemma item_step_inv: "item_step tm st st' \<Longrightarrow> item_inv tm (rows st) \<Longrightarrow> item_inv tm (rows st')"
proof (erule item_stepE)
  fix env he c i cond
  assume "item_inv tm (rows st)" and env: "templateOf env = tm" "handlers env = registered_handlers he"
    and st': "st' = snd (UseItem env c i cond st)"
  then have "item_inv (templateOf env) (rows (snd (UseItem env c i cond st)))"
    by (intro item_inv_UseItem) (auto dest: registered_ok)
  then show "item_inv tm (rows st')" by (simp add: st' env)
qed (auto simp: item_inv_UnequipBySlot RechargeAutoShots_inv EnchantItem_inv ValidateTarget_rows CancelEnchant_rows)

section \<open>The recipe book\<close>

text \<open>Operations that leave the recipe book alone.\<close>

named_theorems book_frame

definition keeps_book :: "'a item_op \<Rightarrow> bool" where
  "keeps_book m \<longleftrightarrow> (\<forall>st. recipes (snd (m st)) = recipes st)"

lemma keeps_bookI: "(\<And>st. recipes (snd (m st)) = recipes st) \<Longrightarrow> keeps_book m"
  by (simp add: keeps_book_def)

lemma keeps_bookD: "keeps_book m \<Longrightarrow> m st = (r, st') \<Longrightarrow> recipes st' = recipes st"
  by (metis keeps_book_def snd_conv)

lemma book_bind [book_frame]: "keeps_book m \<Longrightarrow> (\<And>a. keeps_book (f a)) \<Longrightarrow> keeps_book (item_bind m f)"
  by (fastforce simp: keeps_book_def item_bind_def split: prod.split sum.split dest: keeps_bookD [unfolded keeps_book_def])

lemma book_wrap [book_frame]: "keeps_book m \<Longrightarrow> keeps_book (wrap_error msg m)"
  by (simp add: keeps_book_def wrap_state)

lemma book_simple [book_frame]:
  "keeps_book (item_return a)" "keeps_book (item_fail e)" "keeps_book (tell ns)" "keeps_book (not_used use)"
  "keeps_book (query fault msg f)" "keeps_book (exec fault msg g)" "keeps_book (other_query fault msg h)"
  by (auto simp: keeps_book_def item_return_def item_fail_def tell_def item_modify_def not_used_def query_def exec_def
      other_query_def Let_def)

lemma book_modify [book_frame]: "(\<And>st. recipes (f st) = recipes st) \<Longrightarrow> keeps_book (item_modify f)"
  by (simp add: keeps_book_def item_modify_def)

lemma book_if [book_frame]: "(b \<Longrightarrow> keeps_book m) \<Longrightarrow> (\<not> b \<Longrightarrow> keeps_book n) \<Longrightarrow> keeps_book (if b then m else n)"
  by simp

lemma book_statements [book_frame]:
  "keeps_book (GetByObjectID fault i)" "keeps_book (GetEquippedItem fault c s)" "keeps_book (GetByCharacter fault c)"
  "keeps_book (UnequipSlot fault c s)" "keeps_book (EquipItem fault i s)" "keeps_book (item_Update fault item)"
  "keeps_book (item_Delete fault i)" "keeps_book (FindStackableItem fault c i loc)"
  "keeps_book (HasRecipe fault c r)" "keeps_book (CountByType fault c d)"
  by (simp_all add: GetByObjectID_def GetEquippedItem_def GetByCharacter_def UnequipSlot_def EquipItem_def item_Update_def
      item_Delete_def FindStackableItem_def HasRecipe_def CountByType_def book_frame)

lemma book_Create [book_frame]: "keeps_book (item_Create fault item)"
  by (rule keeps_bookI) (simp add: item_Create_def Let_def item_bind_def exec_def item_return_def)

lemma book_unequip [book_frame]: "keeps_book (unequipItem env c item)"
  unfolding unequipItem_def Let_def by (intro book_frame) simp

lemma book_off [book_frame]: "keeps_book (unequipSlotIfOccupied env c s)"
  unfolding unequipSlotIfOccupied_def by (intro book_frame) (auto intro: book_frame split: option.split)

lemma book_free [book_frame]: "keeps_book (free_or_error fault c s)"
  using book_statements(2) [of fault c s]
  by (auto simp: free_or_error_def keeps_book_def split: prod.split sum.split) (metis snd_conv)+

lemma book_dual [book_frame]: "keeps_book (findDualSlot env c bp s)"
  unfolding findDualSlot_def Let_def by (auto intro!: book_frame split: option.split)

lemma book_off_two [book_frame]: "keeps_book (off_two_handed env c)"
  unfolding off_two_handed_def by (auto intro!: book_frame split: option.split)

lemma book_clear [book_frame]: "keeps_book (clear_conflicts env c bp s)"
  unfolding clear_conflicts_def Let_def by (auto intro!: book_frame)

lemma book_equip [book_frame]: "keeps_book (equipItem env c item tmpl)"
  unfolding equipItem_def by (auto intro!: book_frame split: option.split)

lemma book_UnequipBySlot [book_frame]: "keeps_book (UnequipBySlot env c s)"
  unfolding UnequipBySlot_def Let_def by (auto intro!: book_frame split: option.split)

lemma book_consume [book_frame]: "keeps_book (consume_unit fault d u item)" "keeps_book (shot_consume fault item n)"
  unfolding consume_unit_def shot_consume_def Let_def by (auto intro!: book_frame)

lemma book_if_state [book_frame]:
  "keeps_book m \<Longrightarrow> keeps_book n \<Longrightarrow> keeps_book (\<lambda>st. if P st then m st else n st)"
  by (simp add: keeps_book_def)

lemma book_enchant [book_frame]: "keeps_book (apply_decision fault d scroll target)"
  unfolding apply_decision_def consumeScroll_def Let_def by (auto intro!: book_frame)

lemma book_shot [book_frame]: "keeps_book (shot_UseItem env shot msgs use)"
proof -
  have charge: "keeps_book (shot_charge shot msgs use w g)" for w g
    unfolding shot_charge_def Let_def by (auto intro!: book_frame split: prod.split)
  have refuse: "keeps_book (shot_refuse use m)" for m unfolding shot_refuse_def by (auto intro!: book_frame)
  show ?thesis
    unfolding shot_UseItem_def Let_def
    by (auto intro!: book_frame refuse charge split: option.split)
qed


lemma book_create_each [book_frame]: "keeps_book (create_each fault c i n)"
  by (induction n) (auto intro!: book_frame)

lemma book_reward [book_frame]: "keeps_book (giveReward env c i n)"
  unfolding giveReward_def Let_def by (auto intro!: book_frame split: option.split)

lemma book_roll [book_frame]: "keeps_book (roll_products env c k ps)"
  by (induction env c k ps rule: roll_products.induct) (auto simp: Let_def intro!: book_frame)

lemma book_handlers [book_frame]:
  "keeps_book (ItemSkill_UseItem env use)" "keeps_book (Extractable_UseItem env use)" "keeps_book (beastShot_UseItem use)"
  "keeps_book (fishShot_UseItem use)" "keeps_book (enchantScroll_UseItem use)"
  unfolding ItemSkill_UseItem_def ItemSkill_consumeOne_def Extractable_UseItem_def consumeBox_def beastShot_UseItem_def
    fishShot_UseItem_def enchantScroll_UseItem_def
  by (auto intro!: book_frame split: option.split list.split)

definition book_ok :: "(int \<times> int \<times> bool) list \<Rightarrow> bool" where
  "book_ok rs \<longleftrightarrow> distinct (map (\<lambda>(c, r, d). (c, r)) rs)
     \<and> (\<forall>c d. int (length (filter (\<lambda>(c', r, d'). c' = c \<and> d' = d) rs)) \<le> defaultRecipeLimit)"

definition bounds_book :: "'a item_op \<Rightarrow> bool" where
  "bounds_book m \<longleftrightarrow> (\<forall>st. book_ok (recipes st) \<longrightarrow> book_ok (recipes (snd (m st))))"

lemma bounds_bookD: "bounds_book m \<Longrightarrow> m st = (r, st') \<Longrightarrow> book_ok (recipes st) \<Longrightarrow> book_ok (recipes st')"
  unfolding bounds_book_def by (metis snd_conv)

named_theorems book_bounds

lemma bounds_keeps: "keeps_book m \<Longrightarrow> bounds_book m"
  by (simp add: bounds_book_def keeps_book_def)

lemma bounds_bind [book_bounds]:
  assumes "bounds_book m" "\<And>a. bounds_book (f a)"
  shows "bounds_book (item_bind m f)"
  unfolding bounds_book_def
proof (intro allI impI)
  fix st :: items assume ok: "book_ok (recipes st)"
  obtain r st1 where run: "m st = (r, st1)" by fastforce
  have "book_ok (recipes st1)" by (rule bounds_bookD [OF assms(1) run ok])
  then show "book_ok (recipes (snd (item_bind m f st)))"
    using run assms(2) by (cases r) (simp_all add: item_bind_def bounds_book_def)
qed

lemma bounds_wrap [book_bounds]: "bounds_book m \<Longrightarrow> bounds_book (wrap_error msg m)"
  by (simp add: bounds_book_def wrap_state)

lemma book_ok_add:
  assumes "book_ok rs" "\<not> list_ex (\<lambda>(c', r', d). c' = c \<and> r' = r) rs"
    "int (length (filter (\<lambda>(c', r, d'). c' = c \<and> d' = d) rs)) < defaultRecipeLimit"
  shows "book_ok (rs @ [(c, r, d)])"
  using assms by (auto simp: book_ok_def list_ex_iff case_prod_unfold)

text \<open>The scroll is registered after the two checks of the book.\<close>

lemma register_scroll_bounds:
  assumes "book_ok (recipes st)"
    "int (length (filter (\<lambda>(c', r, d'). c' = useCharID use \<and> d' = rcIsDwarven rp) (recipes st))) < defaultRecipeLimit"
  shows "book_ok (recipes (snd (register_scroll env use rp st)))"
proof -
  let ?add = "AddRecipe (hdb env) (useCharID use) (rcID rp) (rcIsDwarven rp)"
  obtain r st1 where add: "?add st = (r, st1)" by fastforce
  have "book_ok (recipes st1)"
    using add assms book_ok_add [OF assms(1) _ assms(2), of "rcID rp"]
    by (auto simp: AddRecipe_def Let_def split: if_splits)
  moreover have "keeps_book (item_bind (Recipe_consumeOne (hdb env) (useItem use)) (\<lambda>item.
     item_bind (tell [ItemSystemMessage (useCharID use) sysMsgS1Added (ItemID (useItem use))]) (\<lambda>_.
     item_return (True, item, []))))" (is "keeps_book ?rest")
    unfolding Recipe_consumeOne_def by (auto intro!: book_frame)
  then have rest: "recipes (snd (?rest st1)) = recipes st1" unfolding keeps_book_def by blast
  moreover have "register_scroll env use rp st = (case r of Inl e \<Rightarrow> (Inl (''failed to register recipe'' @ '': '' @ e), st1) | Inr _ \<Rightarrow> ?rest st1)"
  proof -
    have wrapped: "wrap_error ''failed to register recipe'' ?add st
        = (case r of Inl e \<Rightarrow> (Inl (''failed to register recipe'' @ '': '' @ e), st1) | Inr u \<Rightarrow> (Inr u, st1))"
      using add by (simp add: wrap_error_def)
    show ?thesis
      unfolding register_scroll_def item_bind_def [of "wrap_error ''failed to register recipe'' ?add"] wrapped by (cases r) simp_all
  qed
  ultimately show ?thesis by (cases r) (simp_all only: sum.case snd_conv rest)
qed

lemma book_step:
  assumes "keeps_book m" "book_ok (recipes st)"
    and "\<And>a st1. m st = (Inr a, st1) \<Longrightarrow> book_ok (recipes st1) \<Longrightarrow> book_ok (recipes (snd (f a st1)))"
  shows "book_ok (recipes (snd (item_bind m f st)))"
proof -
  obtain r st1 where run: "m st = (r, st1)" by fastforce
  have "book_ok (recipes st1)" using keeps_bookD [OF assms(1) run] assms(2) by simp
  then show ?thesis using assms(3) run by (cases r) (simp_all add: item_bind_def)
qed

lemma counted:
  "CountByType fault c d st = (Inr n, st') \<Longrightarrow> \<not> k \<le> n \<Longrightarrow>
    int (length (filter (\<lambda>(c', r, d'). c' = c \<and> d' = d) (recipes st'))) < k"
  by (auto simp: CountByType_def other_query_def Let_def split: if_splits)

lemma recipe_bounds [book_bounds]: "bounds_book (Recipe_UseItem env use)"
  unfolding bounds_book_def
proof (intro allI impI)
  fix st :: items assume ok: "book_ok (recipes st)"
  have refuse: "book_ok (recipes (snd (item_bind (tell [n]) (\<lambda>_. not_used use) s)))" if "book_ok (recipes s)" for n s
  proof -
    have "keeps_book (item_bind (tell [n]) (\<lambda>_. not_used use))" by (intro book_frame)
    then show ?thesis using that by (simp add: keeps_book_def)
  qed
  show "book_ok (recipes (snd (Recipe_UseItem env use st)))"
  proof (cases "recipeOf env (ItemID (useItem use))")
    case None
    then show ?thesis using ok by (simp add: Recipe_UseItem_def not_used_def item_return_def)
  next
    case (Some rp)
    show ?thesis
      unfolding Recipe_UseItem_def Let_def Some option.case
      by (rule book_step, intro book_frame, rule ok, split if_split, intro conjI impI, erule refuse,
          rule book_step, intro book_frame, assumption, split if_split, intro conjI impI, erule refuse,
          split if_split, intro conjI impI, erule refuse,
          rule book_step, intro book_frame, assumption, split if_split, intro conjI impI, erule refuse,
          rule register_scroll_bounds, assumption, rule counted, simp, assumption)
  qed
qed

lemma registered_bounds: "map_of (registered_handlers he) n = Some h \<Longrightarrow> bounds_book (h u)"
  by (auto simp: registered_handlers_def handler_Register_def NewSoulShotHandler_def NewSpiritShotHandler_def
      NewBlessedSpiritShotHandler_def recipe_bounds intro: bounds_keeps book_frame split: if_splits)

lemma useNonEquipItem_bounds [book_bounds]:
  assumes "handlers env = registered_handlers he"
  shows "bounds_book (useNonEquipItem env c item tmpl b)"
proof (cases "handler_Get (handlers env) (Handler tmpl)")
  case None
  then show ?thesis by (auto simp: useNonEquipItem_def intro: bounds_keeps book_frame)
next
  case (Some h)
  have "bounds_book (h u)" for u
    using Some assms registered_bounds by (auto simp: handler_Get_def split: if_splits)
  then show ?thesis
    unfolding useNonEquipItem_def Some option.case Let_def
    by (intro book_bounds) (auto intro!: bounds_keeps book_frame split: prod.split)
qed

lemma bounds_refused:
  "bounds_book m1 \<Longrightarrow> bounds_book m2 \<Longrightarrow> bounds_book m3 \<Longrightarrow>
   bounds_book (\<lambda>st. case P st of Some r \<Rightarrow> (Inr r, st) | None \<Rightarrow> if A then m1 st else if B then m2 st else m3 st)"
  by (simp add: bounds_book_def split: option.split)

lemma UseItem_bounds:
  assumes "handlers env = registered_handlers he"
  shows "bounds_book (UseItem env c i cond)"
proof -
  have "bounds_book (case templateOf env (ItemID item) of
             None \<Rightarrow> item_return refused
           | Some tmpl \<Rightarrow> (\<lambda>st.
               case use_refused env c item tmpl cond st of
                 Some r \<Rightarrow> (Inr r, st)
               | None \<Rightarrow>
                   if BodyPartCode tmpl = 0 then useNonEquipItem env c item tmpl (InCombat cond) st
                   else if IsEquipped item
                   then item_bind (wrap_error ''failed to unequip item'' (unequipItem env c item)) (\<lambda>changed.
                          item_return (refused\<lparr>erChangedItems := changed, erSuccess := True\<rparr>)) st
                   else item_bind (wrap_error ''failed to equip item'' (equipItem env c item tmpl)) (\<lambda>changed.
                          item_return (refused\<lparr>erChangedItems := changed, erSuccess := True\<rparr>)) st))" for item
  proof (cases "templateOf env (ItemID item)")
    case None
    then show ?thesis by (simp add: bounds_keeps book_frame)
  next
    case (Some tmpl)
    show ?thesis
      unfolding Some option.case
      by (intro bounds_refused useNonEquipItem_bounds [OF assms] bounds_keeps book_frame)
  qed
  then show ?thesis
    unfolding UseItem_def by (intro book_bounds) (auto intro!: bounds_keeps book_frame split: option.split)
qed

lemma recharge_keeps:
  assumes h: "handlers env = registered_handlers he"
  shows "keeps_book (recharge_loop env c active its)"
proof (induction active arbitrary: its)
  case (Cons itemID active)
  have step: "keeps_book (\<lambda>st. case NewSoulShotHandler he u st of
        (Inl e, st) \<Rightarrow> recharge_loop env c active its st
      | (Inr (did, item, cs), st) \<Rightarrow>
          let its = map (\<lambda>i. if ObjectID i = ObjectID item then item else i) its in
          if did then item_bind (recharge_loop env c active its) (\<lambda>(cs, off).
            item_return (\<lparr>ciItem = item, ciUpdateType = (if Count item \<le> 0 then 3 else 2)\<rparr> # cs, off)) st
          else recharge_loop env c active its st)" for u
  proof (rule keeps_bookI)
    fix st
    have shot: "keeps_book (NewSoulShotHandler he u)" by (simp add: NewSoulShotHandler_def book_frame)
    have more: "keeps_book (item_bind (recharge_loop env c active its) (\<lambda>(cs, off). item_return (x # cs, off)))" for its and x :: ChangedItem
      by (intro book_frame Cons.IH) (auto intro: book_frame split: prod.split)
    show "recipes (snd (case NewSoulShotHandler he u st of
        (Inl e, st) \<Rightarrow> recharge_loop env c active its st
      | (Inr (did, item, cs), st) \<Rightarrow>
          let its = map (\<lambda>i. if ObjectID i = ObjectID item then item else i) its in
          if did then item_bind (recharge_loop env c active its) (\<lambda>(cs, off).
            item_return (\<lparr>ciItem = item, ciUpdateType = (if Count item \<le> 0 then 3 else 2)\<rparr> # cs, off)) st
          else recharge_loop env c active its st)) = recipes st"
      using keeps_bookD [OF shot] Cons.IH more
      by (auto simp: Let_def keeps_book_def split: prod.split sum.split)
  qed
  show ?case
    using step [of "\<lparr>useCharID = c, useItem = _, useTemplate = _, useAuto = True, useInCombat = False\<rparr>"] soulshot_handler Cons.IH
    by (auto simp: h autoSoulShotHandler_def intro!: book_frame split: option.split)
qed (simp add: book_frame)

lemma recharge_bounds:
  assumes "handlers env = registered_handlers he"
  shows "keeps_book (RechargeAutoShots env c)"
proof (rule keeps_bookI)
  fix st :: items
  have "keeps_book (item_bind (GetByCharacter (db env) c) (recharge_loop env c (auto_List (auto st) c)))"
    by (intro book_frame recharge_keeps [OF assms])
  then show "recipes (snd (RechargeAutoShots env c st)) = recipes st"
    by (simp add: RechargeAutoShots_def Let_def keeps_book_def)
qed

lemma enchant_keeps: "keeps_book (EnchantItem ee c i roll)"
proof (rule keeps_bookI)
  fix st :: items
  have keeps: "recipes (snd (m (st\<lparr>armed := x\<rparr>))) = recipes st" if "keeps_book m" for x and m :: "'a item_op"
    using that by (simp add: keeps_book_def)
  show "recipes (snd (EnchantItem ee c i roll st)) = recipes st"
    unfolding EnchantItem_def Let_def
    by (cases "GetActive (armed st) c") (auto intro!: keeps book_frame split: option.split)
qed

lemma put_target_keeps: "keeps_book (ValidateTarget ee c i)"
proof (rule keeps_bookI)
  fix st :: items
  have keeps: "recipes (snd (m st)) = recipes st" if "keeps_book m" for m :: "'a item_op"
    using that by (simp add: keeps_book_def)
  show "recipes (snd (ValidateTarget ee c i st)) = recipes st"
    unfolding ValidateTarget_def Let_def
    by (cases "GetActive (armed st) c") (auto intro!: keeps book_frame split: option.split)
qed

lemma item_step_bounds: "item_step tm st st' \<Longrightarrow> book_ok (recipes st) \<Longrightarrow> book_ok (recipes st')"
proof (erule item_stepE)
  fix env he c i cond
  assume ok: "book_ok (recipes st)" and h: "handlers env = registered_handlers he" and st': "st' = snd (UseItem env c i cond st)"
  then show "book_ok (recipes st')" using UseItem_bounds [OF h] by (simp add: bounds_book_def)
next
  fix env c slot
  assume "book_ok (recipes st)" "st' = snd (UnequipBySlot env c slot st)"
  then show "book_ok (recipes st')" using book_UnequipBySlot [of env c slot] by (simp add: keeps_book_def)
next
  fix env he c
  assume "book_ok (recipes st)" and h: "handlers env = registered_handlers he" and "st' = snd (RechargeAutoShots env c st)"
  then show "book_ok (recipes st')" using recharge_bounds [OF h, of c] by (simp add: keeps_book_def)
next
  fix ee c i roll
  assume "book_ok (recipes st)" "st' = snd (EnchantItem ee c i roll st)"
  then show "book_ok (recipes st')" using enchant_keeps [of ee c i roll] by (simp add: keeps_book_def)
next
  fix ee c i
  assume "book_ok (recipes st)" "st' = snd (ValidateTarget ee c i st)"
  then show "book_ok (recipes st')" using put_target_keeps [of ee c i] by (simp add: keeps_book_def)
qed (simp add: CancelEnchant_def)

section \<open>Properties\<close>

text \<open>
  C7: No one holds a two-handed weapon and something in the left hand. Whatever sequence of uses,
  takings-off, recharges of shots and enchantments the players send, with the handlers the server
  registers, and whichever statements the database refuses on the way, the table keeps its constraints
  (one item in a slot among them) and no character wears a two-handed weapon together with an item of
  the left hand, if it was so at the start.
\<close>

theorem two_handed_excludes_left_hand:
  assumes "(item_step tm)\<^sup>*\<^sup>* st st'" "table_ok (rows st)" "hands_ok tm (rows st)"
  shows "table_ok (rows st') \<and> (\<forall>c i j r l. map_of (rows st') i = Some r \<and> map_of (rows st') j = Some l
    \<and> worn_at c SlotRHand r \<and> worn_at c SlotLHand l \<longrightarrow> \<not> two_handed tm r)"
proof -
  have "item_inv tm (rows st')"
    using assms(1) by (induction rule: rtranclp_induct) (use assms(2,3) item_step_inv in \<open>auto simp: item_inv_def\<close>)
  moreover have "map_of (rows st') i = Some r \<Longrightarrow> r \<in> snd ` set (rows st')" for i r by (force dest: map_of_SomeD)
  ultimately show ?thesis unfolding item_inv_def hands_ok_def by (metis worn_at_def)
qed

text \<open>
  The recipe book is bounded. Under the same sequences of operations and failures, no character has
  a recipe twice, and none has more than fifty dwarven or more than fifty common ones.
\<close>

theorem recipe_book_bounded:
  assumes "(item_step tm)\<^sup>*\<^sup>* st st'" "book_ok (recipes st)"
  shows "distinct (map (\<lambda>(c, r, d). (c, r)) (recipes st'))
    \<and> (\<forall>c d. length (filter (\<lambda>(c', r, d'). c' = c \<and> d' = d) (recipes st')) \<le> 50)"
proof -
  have "book_ok (recipes st')"
    using assms(1) by (induction rule: rtranclp_induct) (use assms(2) item_step_bounds in auto)
  then show ?thesis by (auto simp: book_ok_def defaultRecipeLimit_def)
qed

lemma shot_consume_charged: "shot_consume fault item n st = (r, st') \<Longrightarrow> charged st' = charged st"
  by (auto simp: shot_consume_def item_Delete_def item_Update_def exec_def item_bind_def item_return_def Let_def split: if_splits)

text \<open>
  A charge is paid for. Whatever the database refuses, a use of a shot either changes neither the
  table nor a charge, or the weapon in the player's right hand, which held no charge of the kind, holds
  one and exactly the shots the weapon asks for have been taken from the stack that was used, the row
  going with its last shot; no other row changes. In particular a failure never leaves a charge unpaid
  or takes shots for nothing.
\<close>

theorem shot_charge_is_paid:
  assumes "table_ok (rows st)" "map_of (rows st) (ObjectID (useItem use)) = Some (useItem use)"
    "shot_UseItem env shot msgs use st = (r, st')"
  shows "(rows st' = rows st \<and> charged st' = charged st)
    \<or> (\<exists>w n. map_of (rows st) (ObjectID w) = Some w \<and> worn_at (useCharID use) SlotRHand w
        \<and> n = weaponShotCount shot (htemplate env (ItemID w)) \<and> n \<le> Count (useItem use)
        \<and> \<not> IsCharged (charged st) (ObjectID w) shot \<and> IsCharged (charged st') (ObjectID w) shot
        \<and> map_of (rows st') = (map_of (rows st))(ObjectID (useItem use) :=
             (if Count (useItem use) = n then None else Some ((useItem use)\<lparr>Count := Count (useItem use) - n\<rparr>))))"
  using shot_UseItem_cases [OF assms(3)]
proof (elim disjE exE conjE)
  fix w :: CharacterItem and st1 st2 r1 e
  assume get: "GetEquippedItem (hdb env) (useCharID use) SlotRHand st = (Inr (Some w), st1)"
    and con: "shot_consume (hdb env) (useItem use) (weaponShotCount shot (htemplate env (ItemID w))) st1 = (r1, st2)"
    and r: "r1 = Inl e" "st' = st2"
  have st1: "rows st1 = rows st" "charged st1 = charged st"
    using get by (auto simp: GetEquippedItem_def query_def Let_def split: if_splits)
  have "rows st2 = rows st" using shot_consume_rows [OF _ _ con] assms(1,2) r(1) unfolding st1 by auto
  then show ?thesis using r shot_consume_charged [OF con] st1 by simp
next
  fix w :: CharacterItem and st1 st2 r1 item
  let ?n = "weaponShotCount shot (htemplate env (ItemID w))" and ?i = "useItem use"
  assume get: "GetEquippedItem (hdb env) (useCharID use) SlotRHand st = (Inr (Some w), st1)"
    and off: "\<not> IsCharged (charged st) (ObjectID w) shot" and enough: "?n \<le> Count ?i"
    and con: "shot_consume (hdb env) ?i ?n st1 = (r1, st2)"
    and r: "r1 = Inr item" "rows st' = rows st2"
      "charged st' = Charge (ObjectID w) shot (gradeSPlus (CrystalType (useTemplate use))) (charged st2)"
  have st1: "rows st1 = rows st" using GetEquippedItem_found(1) [OF get] by simp
  have w: "worn_at (useCharID use) SlotRHand w" "map_of (rows st) (ObjectID w) = Some w"
    using GetEquippedItem_found(1) [OF get] row_of_key [OF assms(1)] by simp_all
  have own: "map_of (rows st2) (ObjectID ?i) = (if Count ?i = ?n then None else Some (?i\<lparr>Count := Count ?i - ?n\<rparr>))"
    using shot_consume_rows [OF _ _ con] assms(1,2) r(1) enough unfolding st1 by auto
  have "map_of (rows st2) j = map_of (rows st) j" if "j \<noteq> ObjectID ?i" for j
    using shot_consume_others [OF con _ that] assms(1) unfolding st1 by simp
  then have "map_of (rows st') = (map_of (rows st))(ObjectID ?i := (if Count ?i = ?n then None else Some (?i\<lparr>Count := Count ?i - ?n\<rparr>)))"
    using own r(2) by (auto simp: fun_eq_iff)
  moreover have "IsCharged (charged st') (ObjectID w) shot" by (simp add: r(3) IsCharged_def Charge_def map_of_update)
  ultimately show ?thesis using w off enough by blast
qed simp

text \<open>A weapon that takes two soulshots, and a stack of five of them.\<close>

definition shot_templates :: "int \<Rightarrow> ItemTemplate option" where
  "shot_templates i = (if i = 1 then Some ((plain_template 1 0x80)\<lparr>Type2 := ItemType2Weapon, Soulshots := 2\<rparr>)
     else if i = 1835 then Some ((plain_template 1835 0)\<lparr>Type2 := ItemType2Other, Handler := ''SoulShots''\<rparr>)
     else if i = 1666 then Some ((plain_template 1666 0)\<lparr>Type2 := ItemType2Other, Handler := ''Recipes''\<rparr>)
     else sample_templates i)"

definition sample_handlers :: handler_env where
  "sample_handlers = \<lparr>hdb = (\<lambda>_. False), htemplate = shot_templates, GetSkill = (\<lambda>_ _. None), recipeOf = (\<lambda>i. if i = 1666 then Some \<lparr>rcID = 1, rcCraftLevel = 1, rcIsDwarven = True\<rparr> else None),
     GetSkillLevel = (\<lambda>_ _. 1), rng = (\<lambda>_ _. 0)\<rparr>"

definition shot_table :: item_table where
  "shot_table = [(11, plain_row 11 1 LocPaperdoll SlotRHand), (17, (plain_row 17 1835 LocInventory (-1))\<lparr>Count := 5\<rparr>)]"

definition shot_use :: ItemUseContext where
  "shot_use = \<lparr>useCharID = 9, useItem = (plain_row 17 1835 LocInventory (-1))\<lparr>Count := 5\<rparr>,
     useTemplate = (plain_template 1835 0)\<lparr>Type2 := ItemType2Other, Handler := ''SoulShots''\<rparr>, useAuto = False, useInCombat = False\<rparr>"

lemma shot_charge_is_paid_witness:
  "\<exists>r st'. shot_UseItem sample_handlers ShotSoulshot soulShotMessages shot_use (sample_items shot_table) = (r, st')
     \<and> IsCharged (charged st') 11 ShotSoulshot \<and> (\<exists>i. map_of (rows st') 17 = Some i \<and> Count i = 3)"
proof -
  let ?out = "shot_UseItem sample_handlers ShotSoulshot soulShotMessages shot_use (sample_items shot_table)"
  have t: "table_ok (rows (sample_items shot_table))"
    by (simp add: table_ok_def shot_table_def sample_items_def plain_row_def map_ok_def row_ok_def attributes_def worn_keys_def)
  have row: "map_of (rows (sample_items shot_table)) (ObjectID (useItem shot_use)) = Some (useItem shot_use)"
    by (simp add: shot_table_def sample_items_def shot_use_def plain_row_def)
  have charged: "charged (snd ?out) \<noteq> charged (sample_items shot_table)" "charged (sample_items shot_table) = []"
    by code_simp+
  have worn: "worn_at 9 SlotRHand w \<Longrightarrow> map_of shot_table i = Some w \<Longrightarrow> w = plain_row 11 1 LocPaperdoll SlotRHand" for w i
    by (auto simp: shot_table_def worn_at_def plain_row_def split: if_splits)
  obtain r st' where run: "?out = (r, st')" by fastforce
  have "charged st' \<noteq> charged (sample_items shot_table)" using charged(1) run by simp
  then obtain w n where w: "map_of shot_table (ObjectID w) = Some w" "worn_at 9 SlotRHand w"
    "n = weaponShotCount ShotSoulshot (shot_templates (ItemID w))" "IsCharged (charged st') (ObjectID w) ShotSoulshot"
    and rows': "map_of (rows st') = (map_of shot_table)(ObjectID (useItem shot_use) :=
      (if Count (useItem shot_use) = n then None else Some (useItem shot_use\<lparr>Count := Count (useItem shot_use) - n\<rparr>)))"
    using shot_charge_is_paid [OF t row run] by (auto simp: sample_handlers_def shot_use_def)
  have "w = plain_row 11 1 LocPaperdoll SlotRHand" by (rule worn [OF w(2,1)])
  moreover have "ObjectID (useItem shot_use) = 17" "Count (useItem shot_use) = 5" by (simp_all add: shot_use_def plain_row_def)
  ultimately show ?thesis using run w(3,4) fun_cong [OF rows', of 17]
    by (simp add: plain_row_def weaponShotCount_def shot_templates_def)
qed

lemma sample_inv: "item_inv sample_templates armed_table"
  using armed_table_ok
  by (simp add: item_inv_def hands_ok_def armed_table_def worn_at_def two_handed_def sample_templates_def plain_template_def
      plain_row_def IsTwoHanded_def)

lemma two_handed_excludes_left_hand_witness:
  "let st' = snd (UseItem (sample_env\<lparr>handlers := registered_handlers sample_handlers\<rparr>) 9 13 well (sample_items armed_table))
   in table_ok (rows st') \<and> (\<forall>c i j r l. map_of (rows st') i = Some r \<and> map_of (rows st') j = Some l
      \<and> worn_at c SlotRHand r \<and> worn_at c SlotLHand l \<longrightarrow> \<not> two_handed sample_templates r)"
proof -
  let ?env = "sample_env\<lparr>handlers := registered_handlers sample_handlers\<rparr>"
  have step: "item_step sample_templates (sample_items armed_table) (snd (UseItem ?env 9 13 well (sample_items armed_table)))"
    by (rule item_step.use) (simp_all add: sample_env_def)
  have "table_ok (rows (sample_items armed_table))" "hands_ok sample_templates (rows (sample_items armed_table))"
    using sample_inv by (simp_all add: item_inv_def)
  then show ?thesis
    unfolding Let_def by (rule two_handed_excludes_left_hand [OF r_into_rtranclp [of "item_step sample_templates", OF step]])
qed

text \<open>Two scrolls of a recipe; the first use registers it, the second is refused.\<close>

definition recipe_env :: item_env where
  "recipe_env = \<lparr>db = (\<lambda>_. False), templateOf = shot_templates, handlers = registered_handlers sample_handlers, clock = 0\<rparr>"

definition recipe_items :: items where
  "recipe_items = sample_items [(18, (plain_row 18 1666 LocInventory (-1))\<lparr>Count := 2\<rparr>)]"

definition recipe_used :: items where
  "recipe_used = snd (UseItem recipe_env 9 18 well (snd (UseItem recipe_env 9 18 well recipe_items)))"

lemma recipe_book_bounded_witness:
  "recipes recipe_used = [(9, 1, True)] \<and> distinct (map (\<lambda>(c, r, d). (c, r)) (recipes recipe_used))"
proof -
  have step: "item_step shot_templates st (snd (UseItem recipe_env 9 18 well st))" for st
    by (rule item_step.use [of _ _ sample_handlers]) (simp_all add: recipe_env_def)
  have run: "(item_step shot_templates)\<^sup>*\<^sup>* recipe_items recipe_used"
    unfolding recipe_used_def by (rule rtranclp.rtrancl_into_rtrancl, rule r_into_rtranclp, rule step, rule step)
  have "book_ok (recipes recipe_items)" by (simp add: book_ok_def recipe_items_def sample_items_def defaultRecipeLimit_def)
  moreover have "recipes recipe_used = [(9, 1, True)]" by code_simp
  ultimately show ?thesis using recipe_book_bounded [OF run] by simp
qed

end
