(* ===== verification/ItemModel.thy ===== *)
theory ItemModel
  imports Inventory
begin

text \<open>
  The methods of an item and of a character's inventory (\<open>models/item.go\<close>), and the queries of
  \<open>repo/postgres_items.go\<close> that no operation of the other theories uses. The time is an argument. The
  location of an item is one of the seven names, so that the corresponding test of \<open>Validate\<close> always holds.
\<close>

section \<open>The methods of an item\<close>

definition IsStackable :: "CharacterItem \<Rightarrow> bool" where "IsStackable i \<longleftrightarrow> Count i > 1"
definition IsInInventory :: "CharacterItem \<Rightarrow> bool" where "IsInInventory i \<longleftrightarrow> Loc i = LocInventory"

definition IsInWarehouse :: "CharacterItem \<Rightarrow> bool" where
  "IsInWarehouse i \<longleftrightarrow> Loc i = LocWarehouse \<or> Loc i = LocClanWH \<or> Loc i = LocFreight"

definition IsEnchanted :: "CharacterItem \<Rightarrow> bool" where "IsEnchanted i \<longleftrightarrow> EnchantLevel i > 0"
definition IsAugmented :: "CharacterItem \<Rightarrow> bool" where "IsAugmented i \<longleftrightarrow> AugmentationID i > 0"

definition HasElementalAttribute :: "CharacterItem \<Rightarrow> bool" where
  "HasElementalAttribute i \<longleftrightarrow> AttributeFire i > 0 \<or> AttributeWater i > 0 \<or> AttributeWind i > 0
     \<or> AttributeEarth i > 0 \<or> AttributeHoly i > 0 \<or> AttributeDark i > 0"

datatype ElementalAttribute =
  AttributeNone | AttributeFIRE | AttributeWATER | AttributeWIND | AttributeEARTH | AttributeHOLY | AttributeDARK

fun strongest :: "ElementalAttribute \<times> int \<Rightarrow> (ElementalAttribute \<times> int) list \<Rightarrow> ElementalAttribute \<times> int" where
  "strongest best [] = best"
| "strongest best ((a, v) # as) = strongest (if v > snd best then (a, v) else best) as"

definition GetStrongestElementalAttribute :: "CharacterItem \<Rightarrow> ElementalAttribute \<times> int" where
  "GetStrongestElementalAttribute i = strongest (AttributeNone, 0)
     [(AttributeFIRE, AttributeFire i), (AttributeWATER, AttributeWater i), (AttributeWIND, AttributeWind i),
      (AttributeEARTH, AttributeEarth i), (AttributeHOLY, AttributeHoly i), (AttributeDARK, AttributeDark i)]"

definition SetElementalAttribute :: "ElementalAttribute \<Rightarrow> int \<Rightarrow> CharacterItem \<Rightarrow> CharacterItem" where
  "SetElementalAttribute a v i =
     (case a of
        AttributeFIRE \<Rightarrow> i\<lparr>AttributeFire := v\<rparr>
      | AttributeWATER \<Rightarrow> i\<lparr>AttributeWater := v\<rparr>
      | AttributeWIND \<Rightarrow> i\<lparr>AttributeWind := v\<rparr>
      | AttributeEARTH \<Rightarrow> i\<lparr>AttributeEarth := v\<rparr>
      | AttributeHOLY \<Rightarrow> i\<lparr>AttributeHoly := v\<rparr>
      | AttributeDARK \<Rightarrow> i\<lparr>AttributeDark := v\<rparr>
      | AttributeNone \<Rightarrow> i)"

definition IsTemporary :: "CharacterItem \<Rightarrow> bool" where "IsTemporary i \<longleftrightarrow> ExpireTime i > 0"

definition IsExpired :: "int \<Rightarrow> CharacterItem \<Rightarrow> bool" where
  "IsExpired now i = (if \<not> IsTemporary i then False else now > ExpireTime i)"

definition GetExpirationTime :: "CharacterItem \<Rightarrow> int option" where
  "GetExpirationTime i = (if \<not> IsTemporary i then None else Some (ExpireTime i))"

definition GetPaperdollSlot :: "CharacterItem \<Rightarrow> int option" where
  "GetPaperdollSlot i = (if \<not> IsEquipped i then None else Some (LocData i))"

definition slot_names :: "(int \<times> string) list" where
  "slot_names = [(0, ''Underwear''), (1, ''Helmet''), (SlotHair, ''Hair''), (SlotHair2, ''Hair 2''), (4, ''Necklace''),
     (SlotRHand, ''Right Hand''), (SlotChest, ''Chest''), (SlotLHand, ''Left Hand''), (SlotREar, ''Right Earring''),
     (SlotLEar, ''Left Earring''), (10, ''Gloves''), (SlotLegs, ''Legs''), (12, ''Feet''), (SlotRFinger, ''Right Ring''),
     (SlotLFinger, ''Left Ring''), (15, ''Left Bracelet''), (16, ''Right Bracelet''), (17, ''Decoration 1''),
     (18, ''Decoration 2''), (19, ''Decoration 3''), (20, ''Decoration 4''), (21, ''Decoration 5''), (22, ''Decoration 6''),
     (23, ''Cloak''), (24, ''Belt''), (25, ''Two-Handed'')]"

definition GetPaperdollSlotName :: "CharacterItem \<Rightarrow> string" where
  "GetPaperdollSlotName i =
     (if \<not> IsEquipped i then ''None''
      else case map_of slot_names (LocData i) of None \<Rightarrow> ''Unknown'' | Some n \<Rightarrow> n)"

definition SetLocation :: "ItemLocation \<Rightarrow> int \<Rightarrow> CharacterItem \<Rightarrow> CharacterItem" where
  "SetLocation location locData i = i\<lparr>Loc := location, LocData := locData\<rparr>"

datatype ItemError =
    ErrInvalidOwner | ErrInvalidItemID | ErrInvalidCount | ErrInvalidLocation | ErrInvalidLocationData
  | ErrInvalidPaperdollSlot | ErrInvalidEnchantLevel | ErrItemNotFound | ErrInsufficientItems | ErrSlotOccupied

definition item_Validate :: "CharacterItem \<Rightarrow> ItemError option" where
  "item_Validate i =
     (if OwnerID i \<le> 0 then Some ErrInvalidOwner
      else if ItemID i \<le> 0 then Some ErrInvalidItemID
      else if Count i \<le> 0 then Some ErrInvalidCount
      else if Loc i = LocPaperdoll \<and> (LocData i < 0 \<or> LocData i > 25) then Some ErrInvalidPaperdollSlot
      else if Loc i \<noteq> LocPaperdoll \<and> LocData i \<noteq> -1 then Some ErrInvalidLocationData
      else if EnchantLevel i < 0 \<or> EnchantLevel i > 127 then Some ErrInvalidEnchantLevel
      else None)"

section \<open>A character's inventory\<close>

record CharacterInventory =
  invOwnerID :: int
  Items :: "CharacterItem list"
  Paperdoll :: "CharacterItem list"

definition GetInventoryItems :: "CharacterInventory \<Rightarrow> CharacterItem list" where
  "GetInventoryItems bag = filter IsInInventory (Items bag)"

definition GetEquippedItems :: "CharacterInventory \<Rightarrow> CharacterItem list" where
  "GetEquippedItems bag = filter IsEquipped (Items bag)"

definition GetItemInSlot :: "int \<Rightarrow> CharacterInventory \<Rightarrow> CharacterItem option" where
  "GetItemInSlot slot bag = find (\<lambda>i. IsEquipped i \<and> LocData i = slot) (Items bag)"

definition GetItemByObjectID :: "int \<Rightarrow> CharacterInventory \<Rightarrow> CharacterItem option" where
  "GetItemByObjectID objectID bag = find (\<lambda>i. ObjectID i = objectID) (Items bag)"

definition GetItemsByItemID :: "int \<Rightarrow> CharacterInventory \<Rightarrow> CharacterItem list" where
  "GetItemsByItemID itemID bag = filter (\<lambda>i. ItemID i = itemID) (Items bag)"

section \<open>More queries\<close>

definition GetInventory :: "db_fault \<Rightarrow> int \<Rightarrow> CharacterItem list item_op" where
  "GetInventory fault charID = query fault ''failed to query inventory items''
     (\<lambda>t. sort_key ObjectID (filter (\<lambda>r. OwnerID r = charID \<and> Loc r = LocInventory) (map snd t)))"

definition GetPaperdoll :: "db_fault \<Rightarrow> int \<Rightarrow> CharacterItem list item_op" where
  "GetPaperdoll fault charID = query fault ''failed to query paperdoll items''
     (\<lambda>t. sort_key LocData (filter (\<lambda>r. OwnerID r = charID \<and> Loc r = LocPaperdoll) (map snd t)))"

definition GetWarehouse :: "db_fault \<Rightarrow> int \<Rightarrow> ItemLocation \<Rightarrow> CharacterItem list item_op" where
  "GetWarehouse fault charID location = query fault ''failed to query warehouse items''
     (\<lambda>t. sort_key ObjectID (filter (\<lambda>r. OwnerID r = charID \<and> Loc r = location) (map snd t)))"

definition GetByItemID :: "db_fault \<Rightarrow> int \<Rightarrow> int \<Rightarrow> CharacterItem list item_op" where
  "GetByItemID fault charID itemID = query fault ''failed to query items by item ID''
     (\<lambda>t. sort_key ObjectID (filter (\<lambda>r. OwnerID r = charID \<and> ItemID r = itemID) (map snd t)))"

definition GetInventoryWeight :: "db_fault \<Rightarrow> int \<Rightarrow> int item_op" where
  "GetInventoryWeight fault charID = query fault ''failed to get inventory weight''
     (\<lambda>t. sum_list (map Count (filter (\<lambda>r. OwnerID r = charID \<and> Loc r = LocInventory) (map snd t))))"

definition GetItemCount :: "db_fault \<Rightarrow> int \<Rightarrow> int \<Rightarrow> int item_op" where
  "GetItemCount fault charID itemID = query fault ''failed to get item count''
     (\<lambda>t. sum_list (map Count (filter (\<lambda>r. OwnerID r = charID \<and> ItemID r = itemID) (map snd t))))"

definition item_DeleteByCharacter :: "db_fault \<Rightarrow> int \<Rightarrow> unit item_op" where
  "item_DeleteByCharacter fault charID =
     exec fault ''failed to delete character items'' (filter (\<lambda>(_, r). OwnerID r \<noteq> charID))"

section \<open>Two ways to read the items of a character\<close>

lemma distinct_objects: "table_ok t \<Longrightarrow> distinct (map ObjectID (map snd t))"
proof -
  assume t: "table_ok t"
  then have "map ObjectID (map snd t) = map fst t" by (auto simp: table_ok_def list_all_iff)
  then show ?thesis using t unfolding table_ok_def map_ok_def by metis
qed

lemma sort_key_unique:
  assumes "inj_on g (set xs)" "distinct xs" "set ys = set xs" "distinct ys" "sorted (map g ys)"
  shows "ys = sort_key g xs"
proof -
  have "distinct (map g ys)" using assms(1,3,4) by (simp add: distinct_map)
  moreover have "sorted (map g (sort_key g xs))" by simp
  moreover have "distinct (map g (sort_key g xs))" using assms(1,2) by (simp add: distinct_map)
  ultimately have "map g ys = map g (sort_key g xs)"
    using assms(3,5) by (intro sorted_distinct_set_unique) simp_all
  then show ?thesis using assms(1,3) by (intro map_inj_on [of g ys]) simp_all
qed


definition reading_order :: "CharacterItem \<Rightarrow> ItemLocation \<times> int \<times> int" where
  "reading_order r = (Loc r, LocData r, ObjectID r)"

lemma distinct_rows: "table_ok t \<Longrightarrow> distinct (map snd t)"
  using distinct_objects distinct_map by blast

lemma sorted_by:
  assumes "sorted (map f xs)" "\<And>x y. x \<in> set xs \<Longrightarrow> y \<in> set xs \<Longrightarrow> f x \<le> f y \<Longrightarrow> g x \<le> g y"
  shows "sorted (map g xs)"
  using assms by (induction xs) auto

lemma reading_order_slots: "reading_order x \<le> reading_order y \<Longrightarrow> Loc x = Loc y \<Longrightarrow> LocData x \<le> LocData y"
  by (auto simp: reading_order_def)

lemma reading_order_objects:
  "reading_order x \<le> reading_order y \<Longrightarrow> Loc x = Loc y \<Longrightarrow> LocData x = LocData y \<Longrightarrow> ObjectID x \<le> ObjectID y"
  by (auto simp: reading_order_def)

lemma view_of_character:
  assumes t: "table_ok t" and inj: "inj_on g (set (filter (\<lambda>r. OwnerID r = c \<and> P r) (map snd t)))"
    and same: "\<And>r. r \<in> snd ` set t \<Longrightarrow> Q r = P r"
    and order: "\<And>x y. x \<in> snd ` set t \<Longrightarrow> y \<in> snd ` set t \<Longrightarrow> P x \<Longrightarrow> P y \<Longrightarrow> OwnerID x = c \<Longrightarrow> OwnerID y = c
      \<Longrightarrow> reading_order x \<le> reading_order y \<Longrightarrow> g x \<le> g y"
  shows "filter Q (sort_key reading_order (filter (\<lambda>r. OwnerID r = c) (map snd t)))
    = sort_key g (filter (\<lambda>r. OwnerID r = c \<and> P r) (map snd t))"
proof (rule sort_key_unique [OF inj])
  let ?S = "sort_key reading_order (filter (\<lambda>r. OwnerID r = c) (map snd t))"
  have S: "distinct ?S" "set ?S = {r \<in> snd ` set t. OwnerID r = c}" using distinct_rows [OF t] by auto
  show "set (filter Q ?S) = set (filter (\<lambda>r. OwnerID r = c \<and> P r) (map snd t))" using same by auto
  show "distinct (filter Q ?S)" "distinct (filter (\<lambda>r. OwnerID r = c \<and> P r) (map snd t))"
    using S(1) distinct_rows [OF t] by simp_all
  have "sorted (map reading_order (filter Q ?S))" by (rule sorted_filter) simp
  then show "sorted (map g (filter Q ?S))"
  proof (rule sorted_by)
    fix x y assume xy: "x \<in> set (filter Q ?S)" "y \<in> set (filter Q ?S)" "reading_order x \<le> reading_order y"
    then have "x \<in> snd ` set t" "y \<in> snd ` set t" "P x" "P y" "OwnerID x = c" "OwnerID y = c" using S(2) same by auto
    then show "g x \<le> g y" using xy(3) by (rule order)
  qed
qed

text \<open>
  The two ways to read the items of a character agree. In a table that keeps its constraints, the
  equipped items and the inventory items that the model picks out of all items of a character are, in
  the same order, what the two queries of the repository return, so that packets built from either
  source list the same items.
\<close>

theorem inventory_views_agree:
  assumes t: "table_ok (rows st)" and read: "GetByCharacter fault c st = (Inr its, st')"
    and worn: "GetPaperdoll fault' c st1 = (Inr worn, st2)" "rows st1 = rows st"
    and carried: "GetInventory fault' c st3 = (Inr carried, st4)" "rows st3 = rows st"
  shows "GetEquippedItems \<lparr>invOwnerID = c, Items = its, Paperdoll = worn\<rparr> = worn
    \<and> GetInventoryItems \<lparr>invOwnerID = c, Items = its, Paperdoll = worn\<rparr> = carried"
proof -
  have its: "its = sort_key reading_order (filter (\<lambda>r. OwnerID r = c) (map snd (rows st)))"
    using read by (auto simp: GetByCharacter_def query_def Let_def reading_order_def [abs_def] split: if_splits)
  have w: "worn = sort_key LocData (filter (\<lambda>r. OwnerID r = c \<and> Loc r = LocPaperdoll) (map snd (rows st)))"
    using worn by (auto simp: GetPaperdoll_def query_def Let_def split: if_splits)
  have i: "carried = sort_key ObjectID (filter (\<lambda>r. OwnerID r = c \<and> Loc r = LocInventory) (map snd (rows st)))"
    using carried by (auto simp: GetInventory_def query_def Let_def split: if_splits)
  have ok: "row_ok r" if "r \<in> snd ` set (rows st)" for r using t that by (auto simp: table_ok_def list_all_iff)
  have ord: "reading_order x \<le> reading_order y \<Longrightarrow> Loc x = LocPaperdoll \<Longrightarrow> Loc y = LocPaperdoll \<Longrightarrow> LocData x \<le> LocData y" for x y
    using reading_order_slots by simp
  have Q: "IsEquipped r = (Loc r = LocPaperdoll)" if "r \<in> snd ` set (rows st)" for r
    using ok [OF that] by (auto simp: IsEquipped_def row_ok_def)
  have minus: "LocData r = -1" if "r \<in> snd ` set (rows st)" "Loc r = LocInventory" for r
    using ok [OF that(1)] that(2) by (simp add: row_ok_def)
  have "inj_on LocData (set (filter (\<lambda>r. OwnerID r = c \<and> Loc r = LocPaperdoll) (map snd (rows st))))"
    using same_slot [of "rows st"] t by (auto simp: inj_on_def table_ok_def worn_at_def)
  then have "filter IsEquipped its = worn"
    unfolding its w by (rule view_of_character [OF t])
      (rule Q, assumption, rule ord)
  moreover have "inj_on ObjectID (set (filter (\<lambda>r. OwnerID r = c \<and> Loc r = LocInventory) (map snd (rows st))))"
    using distinct_objects [OF t] by (auto simp: distinct_map inj_on_def)
  then have "filter IsInInventory its = carried"
    unfolding its i by (rule view_of_character [OF t])
      (rule IsInInventory_def, rule reading_order_objects, simp_all add: minus)
  ultimately show ?thesis by (simp add: GetEquippedItems_def GetInventoryItems_def)
qed

lemma inventory_views_agree_witness:
  "\<exists>its. fst (GetByCharacter (\<lambda>_. False) 9 (sample_items armed_table)) = Inr its
     \<and> fst (GetPaperdoll (\<lambda>_. False) 9 (sample_items armed_table))
       = Inr (GetEquippedItems \<lparr>invOwnerID = 9, Items = its, Paperdoll = []\<rparr>)"
proof -
  let ?st = "sample_items armed_table" and ?ok = "\<lambda>_. False"
  obtain its st1 where read: "GetByCharacter ?ok 9 ?st = (Inr its, st1)" by (simp add: GetByCharacter_def query_def Let_def)
  obtain w st2 where worn: "GetPaperdoll ?ok 9 ?st = (Inr w, st2)" by (simp add: GetPaperdoll_def query_def Let_def)
  obtain i st3 where inventory: "GetInventory ?ok 9 ?st = (Inr i, st3)" by (simp add: GetInventory_def query_def Let_def)
  show ?thesis
    using inventory_views_agree [OF _ read worn _ inventory] armed_table_ok read worn by (simp add: GetEquippedItems_def)
qed

text \<open>
  The validation of an item in the code accepts exactly what the constraints of the table accept: for
  an item with an owner, a template and no negative attribute, \<open>Validate\<close> returns no error exactly when
  the row passes every \<open>CHECK\<close>, so that an item that has been validated is not refused by the table
  unless its slot is taken, and the other way round.
\<close>

theorem Validate_matches_checks:
  assumes "0 < OwnerID i" "0 < ItemID i" "\<forall>v\<in>set (attributes i). 0 \<le> v"
  shows "item_Validate i = None \<longleftrightarrow> row_ok i"
  using assms by (auto simp: item_Validate_def row_ok_def list_all_iff)

lemma Validate_matches_checks_witness:
  "row_ok (plain_row 11 1 LocPaperdoll SlotRHand) \<and> \<not> row_ok (plain_row 11 1 LocInventory 3)"
  using Validate_matches_checks [of "plain_row 11 1 LocPaperdoll SlotRHand"] Validate_matches_checks [of "plain_row 11 1 LocInventory 3"]
  by (simp add: plain_row_def attributes_def item_Validate_def)

end
