(* ===== verification/Stats.thy ===== *)
theory Stats
  imports L2Prelude
begin

text \<open>
  The base statistics of a character: the bonus tables of \<open>models/stats.go\<close> and the functions of
  \<open>models/statcalc.go\<close> that a new character needs. A bonus is written in the code as a decimal fraction
  with two digits; here it is that fraction in hundredths, and the products with it are exact. The binary
  product of the code differs by less than one part in a billion, so that the rounded result can differ
  only where the exact product ends in one half.
\<close>

definition strBonus :: "int list" where
  "strBonus =
    [29, 30, 31, 32, 34, 35, 36, 37, 39, 40, 42, 43, 45, 46, 48, 50, 51, 53, 55, 57,
     59, 61, 63, 66, 68, 71, 73, 76, 78, 81, 84, 87, 90, 94, 97, 101, 104, 108, 112, 116,
     120, 124, 129, 133, 138, 143, 148, 154, 159, 165, 171, 177, 183, 190, 197, 204, 211, 219, 227, 235,
     243, 252, 261, 271, 280, 291, 301, 312, 323, 335, 347, 359, 372, 386, 399, 414, 429, 444, 460, 477,
     494, 512, 530, 549, 569, 589, 611, 633, 655, 679, 703, 729, 755, 782, 810, 839, 870, 901, 933, 967]"

definition intBonus :: "int list" where
  "intBonus =
    [54, 55, 56, 57, 58, 59, 61, 62, 63, 64, 65, 67, 68, 69, 71, 72, 74, 75, 77, 78,
     80, 81, 83, 85, 86, 88, 90, 92, 94, 95, 97, 99, 101, 103, 105, 107, 110, 112, 114, 116,
     119, 121, 123, 126, 128, 131, 134, 136, 139, 142, 145, 147, 150, 153, 157, 160, 163, 166, 169, 173,
     176, 180, 183, 187, 191, 195, 199, 202, 207, 211, 215, 219, 224, 228, 233, 237, 242, 247, 252, 257,
     262, 267, 273, 278, 284, 289, 295, 301, 307, 313, 319, 326, 332, 339, 346, 353, 360, 367, 374, 382]"

definition conBonus :: "int list" where
  "conBonus =
    [45, 46, 47, 48, 50, 51, 53, 54, 56, 58, 59, 61, 63, 65, 67, 69, 71, 73, 75, 77,
     80, 82, 85, 87, 90, 93, 95, 98, 101, 104, 107, 110, 114, 117, 121, 124, 128, 132, 136, 140,
     144, 148, 153, 158, 162, 167, 172, 177, 183, 188, 194, 200, 206, 212, 218, 225, 231, 238, 245, 253,
     260, 268, 276, 284, 293, 302, 311, 320, 330, 340, 350, 360, 371, 382, 394, 406, 418, 430, 443, 456,
     470, 484, 499, 514, 529, 545, 561, 578, 596, 613, 632, 651, 670, 690, 711, 733, 754, 777, 800, 824]"

definition menBonus :: "int list" where
  "menBonus =
    [100, 101, 102, 103, 104, 105, 106, 107, 108, 109, 111, 112, 113, 114, 115, 116, 117, 119, 120, 121,
     122, 123, 125, 126, 127, 128, 130, 131, 132, 134, 135, 136, 138, 139, 140, 142, 143, 145, 146, 148,
     149, 150, 152, 153, 155, 157, 158, 160, 161, 163, 165, 166, 168, 170, 171, 173, 175, 176, 178, 180,
     182, 184, 185, 187, 189, 191, 193, 195, 197, 199, 201, 203, 205, 207, 209, 211, 213, 215, 217, 220,
     222, 224, 226, 229, 231, 233, 235, 238, 240, 243, 245, 247, 250, 252, 255, 258, 260, 263, 265, 268]"

definition dexBonus :: "int list" where
  "dexBonus =
    [84, 85, 86, 86, 87, 88, 89, 90, 90, 91, 92, 93, 94, 94, 95, 96, 97, 98, 99, 100,
     101, 101, 102, 103, 104, 105, 106, 107, 108, 109, 110, 111, 112, 113, 114, 115, 116, 117, 118, 119,
     120, 121, 122, 124, 125, 126, 127, 128, 129, 130, 132, 133, 134, 135, 136, 138, 139, 140, 141, 143,
     144, 145, 147, 148, 149, 151, 152, 153, 155, 156, 157, 159, 160, 162, 163, 165, 166, 168, 169, 171,
     172, 174, 175, 177, 178, 180, 182, 183, 185, 187, 188, 190, 192, 193, 195, 197, 199, 200, 202, 204]"

definition witBonus :: "int list" where
  "witBonus =
    [39, 40, 42, 44, 46, 48, 51, 53, 56, 58, 61, 64, 68, 71, 75, 78, 82, 86, 91, 95,
     100, 105, 110, 116, 122, 128, 134, 141, 148, 155, 163, 171, 180, 189, 198, 208, 218, 229, 241, 253,
     265, 279, 293, 307, 323, 339, 356, 373, 392, 412, 432, 454, 476, 500, 525, 552, 579, 608, 639, 670,
     704, 739, 776, 815, 856, 899, 943, 991, 1040, 1092, 1147, 1204, 1264, 1327, 1394, 1464, 1537, 1614, 1694, 1779,
     1868, 1961, 2059, 2162, 2270, 2384, 2503, 2628, 2760, 2898, 3043, 3195, 3355, 3522, 3698, 3883, 4077, 4281, 4495, 4720]"

text \<open>\<open>clampStat\<close> keeps the index inside the table.\<close>

definition clampStat :: "int \<Rightarrow> int" where
  "clampStat val = (if val < 0 then 0 else if val > 99 then 99 else val)"

definition STRBonus :: "int \<Rightarrow> int" where "STRBonus val = strBonus ! nat (clampStat val)"
definition INTBonus :: "int \<Rightarrow> int" where "INTBonus val = intBonus ! nat (clampStat val)"
definition CONBonus :: "int \<Rightarrow> int" where "CONBonus val = conBonus ! nat (clampStat val)"
definition MENBonus :: "int \<Rightarrow> int" where "MENBonus val = menBonus ! nat (clampStat val)"
definition DEXBonus :: "int \<Rightarrow> int" where "DEXBonus val = dexBonus ! nat (clampStat val)"
definition WITBonus :: "int \<Rightarrow> int" where "WITBonus val = witBonus ! nat (clampStat val)"

text \<open>Also in hundredths: \<open>(level + 89) / 100\<close>.\<close>

definition LevelMod :: "int \<Rightarrow> int" where
  "LevelMod level = level + 89"

text \<open>\<open>math.Round\<close> of a number of hundredths: half away from zero.\<close>

definition round_hundredths :: "int \<Rightarrow> int" where
  "round_hundredths x = (if 0 \<le> x then (x + 50) div 100 else - ((- x + 50) div 100))"

definition ComputeMaxHP :: "int \<Rightarrow> int \<Rightarrow> int" where
  "ComputeMaxHP baseHP con = round_hundredths (baseHP * CONBonus con)"

definition ComputeMaxMP :: "int \<Rightarrow> int \<Rightarrow> int" where
  "ComputeMaxMP baseMP men = round_hundredths (baseMP * MENBonus men)"

definition ComputeMaxCP :: "int \<Rightarrow> int \<Rightarrow> int" where
  "ComputeMaxCP baseCP con = round_hundredths (baseCP * CONBonus con)"

record CombatBaseStats =
  BasePAtk :: int
  BaseMAtk :: int
  BaseCritRate :: int
  BasePAtkSpd :: int
  BaseMAtkSpd :: int
  BasePDefChest :: int
  BasePDefLegs :: int
  BasePDefHead :: int
  BasePDefFeet :: int
  BasePDefGloves :: int
  BasePDefUnderwear :: int
  BasePDefCloak :: int
  BaseMDefREar :: int
  BaseMDefLEar :: int
  BaseMDefRFinger :: int
  BaseMDefLFinger :: int
  BaseMDefNeck :: int
  BaseRunSpd :: int
  BaseWalkSpd :: int
  BaseSwimRunSpd :: int
  BaseSwimWalkSpd :: int

definition TotalBasePDef :: "CombatBaseStats \<Rightarrow> int" where
  "TotalBasePDef c = BasePDefChest c + BasePDefLegs c + BasePDefHead c + BasePDefFeet c + BasePDefGloves c
     + BasePDefUnderwear c + BasePDefCloak c"

definition TotalBaseMDef :: "CombatBaseStats \<Rightarrow> int" where
  "TotalBaseMDef c = BaseMDefREar c + BaseMDefLEar c + BaseMDefRFinger c + BaseMDefLFinger c + BaseMDefNeck c"

lemma bonus_table_size [simp]:
  "length strBonus = 100" "length intBonus = 100" "length conBonus = 100"
  "length menBonus = 100" "length dexBonus = 100" "length witBonus = 100"
  by (simp_all add: strBonus_def intBonus_def conBonus_def menBonus_def dexBonus_def witBonus_def)

lemma clampStat_range: "nat (clampStat val) < 100"
  by (auto simp: clampStat_def)

lemma clampStat_mono: "a \<le> b \<Longrightarrow> clampStat a \<le> clampStat b"
  by (simp add: clampStat_def)

lemma con_men_sorted: "sorted conBonus" "sorted menBonus"
  by (simp_all add: conBonus_def menBonus_def)

lemma con_men_positive: "list_all (\<lambda>v. 0 < v) conBonus" "list_all (\<lambda>v. 0 < v) menBonus"
  by (simp_all add: conBonus_def menBonus_def)

lemma CONBonus_mono: "a \<le> b \<Longrightarrow> CONBonus a \<le> CONBonus b"
  unfolding CONBonus_def
  by (rule sorted_nth_mono [OF con_men_sorted(1)]) (use clampStat_mono [of a b] clampStat_range [of b] in simp_all)

lemma MENBonus_mono: "a \<le> b \<Longrightarrow> MENBonus a \<le> MENBonus b"
  unfolding MENBonus_def
  by (rule sorted_nth_mono [OF con_men_sorted(2)]) (use clampStat_mono [of a b] clampStat_range [of b] in simp_all)

lemma round_hundredths_mono: "a \<le> b \<Longrightarrow> round_hundredths a \<le> round_hundredths b"
proof (cases "0 \<le> a")
  case False
  assume "a \<le> b"
  then show ?thesis using False by (auto simp: round_hundredths_def intro: order_trans [of _ 0] zdiv_mono1)
qed (auto simp: round_hundredths_def intro: zdiv_mono1)
end
