(* ===== verification/CharacterTemplates.thy ===== *)
theory CharacterTemplates
  imports Stats ItemModel
begin

text \<open>
  The templates of new characters (\<open>usecase/character_templates.go\<close>) with the constants of races, sexes
  and classes (\<open>models/character.go\<close>).
\<close>

section \<open>Races, sexes, classes\<close>

definition RaceHuman :: int where "RaceHuman = 0"
definition RaceElf :: int where "RaceElf = 1"
definition RaceDarkElf :: int where "RaceDarkElf = 2"
definition RaceOrc :: int where "RaceOrc = 3"
definition RaceDwarf :: int where "RaceDwarf = 4"
definition RaceKamael :: int where "RaceKamael = 5"

definition SexMale :: int where "SexMale = 0"
definition SexFemale :: int where "SexFemale = 1"

definition ClassHumanFighter :: int where "ClassHumanFighter = 0"
definition ClassHumanMystic :: int where "ClassHumanMystic = 10"
definition ClassElfFighter :: int where "ClassElfFighter = 18"
definition ClassElfMystic :: int where "ClassElfMystic = 25"
definition ClassDarkElfFighter :: int where "ClassDarkElfFighter = 31"
definition ClassDarkElfMystic :: int where "ClassDarkElfMystic = 38"
definition ClassOrcFighter :: int where "ClassOrcFighter = 44"
definition ClassOrcMystic :: int where "ClassOrcMystic = 49"
definition ClassDwarfFighter :: int where "ClassDwarfFighter = 53"
definition ClassKamaelSoldier :: int where "ClassKamaelSoldier = 123"

lemmas class_consts =
  RaceHuman_def RaceElf_def RaceDarkElf_def RaceOrc_def RaceDwarf_def RaceKamael_def SexMale_def SexFemale_def
  ClassHumanFighter_def ClassHumanMystic_def ClassElfFighter_def ClassElfMystic_def ClassDarkElfFighter_def
  ClassDarkElfMystic_def ClassOrcFighter_def ClassOrcMystic_def ClassDwarfFighter_def ClassKamaelSoldier_def

section \<open>The templates\<close>

record Position =
  X :: int
  Y :: int
  Z :: int

record CharacterBaseStats =
  stSTR :: int
  stDEX :: int
  stCON :: int
  stINT :: int
  stWIT :: int
  stMEN :: int
  stHP :: int
  stMP :: int
  stCP :: int
  Combat :: CombatBaseStats

record StartingItemData =
  siItemID :: int
  siCount :: int
  siLocation :: ItemLocation
  siLocData :: int

record CharacterTemplate =
  tRace :: int
  tClassID :: int
  tClassName :: string
  tBaseStats :: CharacterBaseStats
  tStartingItems :: "StartingItemData list"
  tStartingSkills :: "(int \<times> int) list"
  tStartingPosition :: Position

definition fighterCombatStats :: CombatBaseStats where
  "fighterCombatStats = \<lparr>BasePAtk = 4, BaseMAtk = 6, BaseCritRate = 4, BasePAtkSpd = 300, BaseMAtkSpd = 333,
     BasePDefChest = 31, BasePDefLegs = 18, BasePDefHead = 12, BasePDefFeet = 7, BasePDefGloves = 8,
     BasePDefUnderwear = 3, BasePDefCloak = 1, BaseMDefREar = 9, BaseMDefLEar = 9, BaseMDefRFinger = 5,
     BaseMDefLFinger = 5, BaseMDefNeck = 13, BaseRunSpd = 120, BaseWalkSpd = 50, BaseSwimRunSpd = 50,
     BaseSwimWalkSpd = 50\<rparr>"

definition mysticCombatStats :: CombatBaseStats where
  "mysticCombatStats = \<lparr>BasePAtk = 3, BaseMAtk = 6, BaseCritRate = 4, BasePAtkSpd = 300, BaseMAtkSpd = 333,
     BasePDefChest = 15, BasePDefLegs = 8, BasePDefHead = 12, BasePDefFeet = 7, BasePDefGloves = 8,
     BasePDefUnderwear = 3, BasePDefCloak = 1, BaseMDefREar = 9, BaseMDefLEar = 9, BaseMDefRFinger = 5,
     BaseMDefLFinger = 5, BaseMDefNeck = 13, BaseRunSpd = 120, BaseWalkSpd = 50, BaseSwimRunSpd = 50,
     BaseSwimWalkSpd = 50\<rparr>"

definition orcMysticCombatStats :: CombatBaseStats where
  "orcMysticCombatStats = mysticCombatStats\<lparr>BasePAtk := 4\<rparr>"

text \<open>Short forms of the literals.\<close>

definition item_at :: "int \<Rightarrow> int \<Rightarrow> ItemLocation \<Rightarrow> int \<Rightarrow> StartingItemData" where
  "item_at i n l d = \<lparr>siItemID = i, siCount = n, siLocation = l, siLocData = d\<rparr>"

definition base_stats :: "int list \<Rightarrow> CombatBaseStats \<Rightarrow> CharacterBaseStats" where
  "base_stats v c = \<lparr>stSTR = v ! 0, stDEX = v ! 1, stCON = v ! 2, stINT = v ! 3, stWIT = v ! 4, stMEN = v ! 5,
     stHP = v ! 6, stMP = v ! 7, stCP = v ! 8, Combat = c\<rparr>"

definition templateHumanFighter :: CharacterTemplate where
  "templateHumanFighter = \<lparr>tRace = RaceHuman, tClassID = ClassHumanFighter, tClassName = ''Human Fighter'',
     tBaseStats = base_stats [40, 30, 43, 25, 11, 25, 669, 588, 334] fighterCombatStats,
     tStartingItems =
      [item_at 2369 1 LocPaperdoll SlotRHand,
       item_at 1146 1 LocPaperdoll SlotChest,
       item_at 1147 1 LocPaperdoll SlotLegs,
       item_at 736 100 LocInventory (-1),
       item_at 1060 100 LocInventory (-1)],
     tStartingSkills = [(1177, 1), (1184, 1), (1146, 1)],
     tStartingPosition = \<lparr>X = -84318, Y = 244579, Z = -3730\<rparr>\<rparr>"

definition templateHumanMystic :: CharacterTemplate where
  "templateHumanMystic = \<lparr>tRace = RaceHuman, tClassID = ClassHumanMystic, tClassName = ''Human Mystic'',
     tBaseStats = base_stats [25, 25, 30, 41, 35, 39, 588, 792, 294] mysticCombatStats,
     tStartingItems =
      [item_at 6 1 LocPaperdoll SlotRHand,
       item_at 425 1 LocPaperdoll SlotChest,
       item_at 461 1 LocPaperdoll SlotLegs,
       item_at 728 100 LocInventory (-1),
       item_at 1060 100 LocInventory (-1)],
     tStartingSkills = [(1005, 1), (1001, 1), (1177, 1)],
     tStartingPosition = \<lparr>X = -84318, Y = 244579, Z = -3730\<rparr>\<rparr>"

definition templateElfFighter :: CharacterTemplate where
  "templateElfFighter = \<lparr>tRace = RaceElf, tClassID = ClassElfFighter, tClassName = ''Elf Fighter'',
     tBaseStats = base_stats [36, 35, 36, 25, 14, 25, 588, 588, 294] fighterCombatStats,
     tStartingItems =
      [item_at 2369 1 LocPaperdoll SlotRHand,
       item_at 1146 1 LocPaperdoll SlotChest,
       item_at 1147 1 LocPaperdoll SlotLegs,
       item_at 736 100 LocInventory (-1),
       item_at 1060 100 LocInventory (-1)],
     tStartingSkills = [(1177, 1), (1184, 1), (1146, 1)],
     tStartingPosition = \<lparr>X = 46934, Y = 51467, Z = -2977\<rparr>\<rparr>"

definition templateElfMystic :: CharacterTemplate where
  "templateElfMystic = \<lparr>tRace = RaceElf, tClassID = ClassElfMystic, tClassName = ''Elf Mystic'',
     tBaseStats = base_stats [25, 25, 31, 37, 35, 40, 588, 792, 294] mysticCombatStats,
     tStartingItems =
      [item_at 6 1 LocPaperdoll SlotRHand,
       item_at 425 1 LocPaperdoll SlotChest,
       item_at 461 1 LocPaperdoll SlotLegs,
       item_at 728 100 LocInventory (-1),
       item_at 1060 100 LocInventory (-1)],
     tStartingSkills = [(1005, 1), (1002, 1), (1177, 1)],
     tStartingPosition = \<lparr>X = 46934, Y = 51467, Z = -2977\<rparr>\<rparr>"

definition templateDarkElfFighter :: CharacterTemplate where
  "templateDarkElfFighter = \<lparr>tRace = RaceDarkElf, tClassID = ClassDarkElfFighter, tClassName = ''Dark Elf Fighter'',
     tBaseStats = base_stats [41, 32, 32, 25, 12, 25, 588, 588, 294] fighterCombatStats,
     tStartingItems =
      [item_at 2369 1 LocPaperdoll SlotRHand,
       item_at 1146 1 LocPaperdoll SlotChest,
       item_at 1147 1 LocPaperdoll SlotLegs,
       item_at 736 100 LocInventory (-1),
       item_at 1060 100 LocInventory (-1)],
     tStartingSkills = [(1177, 1), (1184, 1), (1146, 1)],
     tStartingPosition = \<lparr>X = 28384, Y = 11056, Z = -4233\<rparr>\<rparr>"

definition templateDarkElfMystic :: CharacterTemplate where
  "templateDarkElfMystic = \<lparr>tRace = RaceDarkElf, tClassID = ClassDarkElfMystic, tClassName = ''Dark Elf Mystic'',
     tBaseStats = base_stats [25, 25, 31, 37, 35, 40, 588, 792, 294] mysticCombatStats,
     tStartingItems =
      [item_at 6 1 LocPaperdoll SlotRHand,
       item_at 425 1 LocPaperdoll SlotChest,
       item_at 461 1 LocPaperdoll SlotLegs,
       item_at 728 100 LocInventory (-1),
       item_at 1060 100 LocInventory (-1)],
     tStartingSkills = [(1005, 1), (1002, 1), (1177, 1)],
     tStartingPosition = \<lparr>X = 28384, Y = 11056, Z = -4233\<rparr>\<rparr>"

definition templateOrcFighter :: CharacterTemplate where
  "templateOrcFighter = \<lparr>tRace = RaceOrc, tClassID = ClassOrcFighter, tClassName = ''Orc Fighter'',
     tBaseStats = base_stats [40, 26, 47, 25, 12, 27, 669, 588, 334] fighterCombatStats,
     tStartingItems =
      [item_at 2369 1 LocPaperdoll SlotRHand,
       item_at 1146 1 LocPaperdoll SlotChest,
       item_at 1147 1 LocPaperdoll SlotLegs,
       item_at 736 100 LocInventory (-1),
       item_at 1060 100 LocInventory (-1)],
     tStartingSkills = [(1177, 1), (1184, 1), (1146, 1)],
     tStartingPosition = \<lparr>X = -45186, Y = -112459, Z = -236\<rparr>\<rparr>"

definition templateOrcMystic :: CharacterTemplate where
  "templateOrcMystic = \<lparr>tRace = RaceOrc, tClassID = ClassOrcMystic, tClassName = ''Orc Mystic'',
     tBaseStats = base_stats [25, 25, 34, 37, 35, 42, 588, 792, 294] orcMysticCombatStats,
     tStartingItems =
      [item_at 6 1 LocPaperdoll SlotRHand,
       item_at 425 1 LocPaperdoll SlotChest,
       item_at 461 1 LocPaperdoll SlotLegs,
       item_at 728 100 LocInventory (-1),
       item_at 1060 100 LocInventory (-1)],
     tStartingSkills = [(1005, 1), (1002, 1), (1177, 1)],
     tStartingPosition = \<lparr>X = -45186, Y = -112459, Z = -236\<rparr>\<rparr>"

definition templateDwarfFighter :: CharacterTemplate where
  "templateDwarfFighter = \<lparr>tRace = RaceDwarf, tClassID = ClassDwarfFighter, tClassName = ''Dwarf Fighter'',
     tBaseStats = base_stats [39, 29, 45, 25, 11, 25, 669, 588, 334] fighterCombatStats,
     tStartingItems =
      [item_at 2370 1 LocPaperdoll SlotRHand,
       item_at 1146 1 LocPaperdoll SlotChest,
       item_at 1147 1 LocPaperdoll SlotLegs,
       item_at 736 100 LocInventory (-1),
       item_at 1060 100 LocInventory (-1)],
     tStartingSkills = [(1177, 1), (1184, 1), (1146, 1)],
     tStartingPosition = \<lparr>X = 108512, Y = -173026, Z = -406\<rparr>\<rparr>"

definition templateKamaelSoldier :: CharacterTemplate where
  "templateKamaelSoldier = \<lparr>tRace = RaceKamael, tClassID = ClassKamaelSoldier, tClassName = ''Kamael Soldier'',
     tBaseStats = base_stats [40, 33, 35, 25, 12, 25, 588, 588, 294] fighterCombatStats,
     tStartingItems =
      [item_at 2369 1 LocPaperdoll SlotRHand,
       item_at 1146 1 LocPaperdoll SlotChest,
       item_at 1147 1 LocPaperdoll SlotLegs,
       item_at 736 100 LocInventory (-1),
       item_at 1060 100 LocInventory (-1)],
     tStartingSkills = [(1177, 1), (1184, 1), (1146, 1)],
     tStartingPosition = \<lparr>X = -125740, Y = 38016, Z = 1251\<rparr>\<rparr>"

definition getDefaultCharacterTemplates :: "CharacterTemplate list" where
  "getDefaultCharacterTemplates =
    [templateHumanFighter, templateHumanMystic, templateElfFighter, templateElfMystic,
     templateDarkElfFighter, templateDarkElfMystic, templateOrcFighter, templateOrcMystic,
     templateDwarfFighter, templateKamaelSoldier]"

lemmas template_defs =
  getDefaultCharacterTemplates_def templateHumanFighter_def templateHumanMystic_def templateElfFighter_def templateElfMystic_def
  templateDarkElfFighter_def templateDarkElfMystic_def templateOrcFighter_def templateOrcMystic_def
  templateDwarfFighter_def templateKamaelSoldier_def

definition getCharacterTemplate :: "int \<Rightarrow> int \<Rightarrow> CharacterTemplate option" where
  "getCharacterTemplate race classID =
     find (\<lambda>t. tRace t = race \<and> tClassID t = classID) getDefaultCharacterTemplates"

section \<open>What may be asked for\<close>

definition isValidRace :: "int \<Rightarrow> bool" where
  "isValidRace race \<longleftrightarrow> race \<ge> RaceHuman \<and> race \<le> RaceKamael"

definition isValidSex :: "int \<Rightarrow> bool" where
  "isValidSex sex \<longleftrightarrow> sex = SexMale \<or> sex = SexFemale"

definition validClasses :: "(int, int list) go_map" where
  "validClasses =
     [(RaceHuman, [ClassHumanFighter, ClassHumanMystic]), (RaceElf, [ClassElfFighter, ClassElfMystic]),
      (RaceDarkElf, [ClassDarkElfFighter, ClassDarkElfMystic]), (RaceOrc, [ClassOrcFighter, ClassOrcMystic]),
      (RaceDwarf, [ClassDwarfFighter]), (RaceKamael, [ClassKamaelSoldier])]"

definition isValidClassForRace :: "int \<Rightarrow> int \<Rightarrow> bool" where
  "isValidClassForRace race classID =
     (case map_of validClasses race of None \<Rightarrow> False | Some classes \<Rightarrow> classID \<in> set classes)"

text \<open>The table that \<open>GetCombatBaseStatsByClass\<close> builds once; a later template of a class overwrites.\<close>

definition combatStatsByClass :: "(int, CombatBaseStats) go_map" where
  "combatStatsByClass = fold (\<lambda>t. AList.update (tClassID t) (Combat (tBaseStats t))) getDefaultCharacterTemplates []"

definition GetCombatBaseStatsByClass :: "int \<Rightarrow> CombatBaseStats" where
  "GetCombatBaseStatsByClass classID =
     (case map_of combatStatsByClass classID of Some cs \<Rightarrow> cs | None \<Rightarrow> fighterCombatStats)"

section \<open>Validation and templates agree\<close>

lemma template_keys:
  "map (\<lambda>t. (tRace t, tClassID t)) getDefaultCharacterTemplates =
     [(0, 0), (0, 10), (1, 18), (1, 25), (2, 31), (2, 38), (3, 44), (3, 49), (4, 53), (5, 123)]"
  by (simp add: template_defs class_consts)

lemma valid_class_cases:
  "isValidClassForRace race classID \<longleftrightarrow> (race, classID) \<in> set (map (\<lambda>t. (tRace t, tClassID t)) getDefaultCharacterTemplates)"
  unfolding template_keys by (auto simp: isValidClassForRace_def validClasses_def class_consts)

lemma getCharacterTemplate_Some:
  "getCharacterTemplate race classID = Some t \<Longrightarrow> t \<in> set getDefaultCharacterTemplates \<and> tRace t = race \<and> tClassID t = classID"
  by (auto simp: getCharacterTemplate_def find_Some_iff)

lemma valid_class_has_template: "isValidClassForRace race classID \<longleftrightarrow> getCharacterTemplate race classID \<noteq> None"
  by (auto simp: valid_class_cases getCharacterTemplate_def find_None_iff)

lemma valid_class_valid_race: "isValidClassForRace race classID \<Longrightarrow> isValidRace race"
  unfolding valid_class_cases template_keys by (auto simp: isValidRace_def class_consts)

definition starting_item_ok :: "StartingItemData \<Rightarrow> bool" where
  "starting_item_ok i \<longleftrightarrow> 0 < siCount i
     \<and> (if siLocation i = LocPaperdoll then 0 \<le> siLocData i \<and> siLocData i \<le> 25 else siLocData i = -1)"

definition starting_kit_ok :: "CharacterTemplate \<Rightarrow> bool" where
  "starting_kit_ok t \<longleftrightarrow> list_all starting_item_ok (tStartingItems t)
     \<and> distinct (map siLocData (filter (\<lambda>i. siLocation i = LocPaperdoll) (tStartingItems t)))"

lemma starting_kits_ok: "list_all starting_kit_ok getDefaultCharacterTemplates"
  by (simp add: template_defs starting_kit_ok_def starting_item_ok_def item_at_def)

lemma template_kit_ok: "getCharacterTemplate race classID = Some t \<Longrightarrow> starting_kit_ok t"
  using starting_kits_ok by (auto simp: list_all_iff dest: getCharacterTemplate_Some)

lemma combat_stats_of_template:
  "t \<in> set getDefaultCharacterTemplates \<Longrightarrow> GetCombatBaseStatsByClass (tClassID t) = Combat (tBaseStats t)"
  by (auto simp: GetCombatBaseStatsByClass_def combatStatsByClass_def template_defs class_consts base_stats_def)

text \<open>
  The checks of a new character and the table of templates agree: the pairs of race and class that pass
  are those that have a template, their race is valid, and for these the combat statistics looked up by the
  class alone, at every later computation, are those of the template, and the starting items satisfy the
  constraints of the item table.
\<close>

theorem templates_match_validation:
  "(isValidClassForRace race classID \<longleftrightarrow> getCharacterTemplate race classID \<noteq> None)
   \<and> \<not> (isValidClassForRace race classID \<and> \<not> isValidRace race)
   \<and> (case getCharacterTemplate race classID of
        Some t \<Rightarrow> GetCombatBaseStatsByClass classID = Combat (tBaseStats t) \<and> starting_kit_ok t
      | None \<Rightarrow> True)"
proof (cases "getCharacterTemplate race classID")
  case None
  then show ?thesis by (simp add: valid_class_has_template)
next
  case (Some t)
  moreover have "isValidRace race"
    using Some valid_class_has_template [of race classID] by (intro valid_class_valid_race [of race classID]) simp
  moreover have "GetCombatBaseStatsByClass classID = Combat (tBaseStats t)"
    using combat_stats_of_template getCharacterTemplate_Some [OF Some] by auto
  ultimately show ?thesis using template_kit_ok [OF Some] valid_class_has_template by simp
qed

end
