(* ===== verification/SkillTree.thy ===== *)
theory SkillTree
  imports GoMap "HOL-Library.Product_Lexorder"
begin

text \<open>
  Learning skills: the class skill trees (\<open>registry/skilltree.go\<close>), the class categories
  (\<open>registry/categorydata.go\<close>), the trainers (\<open>registry/trainers.go\<close>), and the learning dialogue of the
  game loop (\<open>gameloop/skilllearn.go\<close>) with the client handlers that feed it
  (\<open>handlers/client/skills_learn.go\<close>) and the part of \<open>loadPlayerSkills\<close> that makes the map of known
  skills. The XML reader is not modelled: the trees start from the parsed document. A map that the code
  leaves nil is \<open>None\<close>; writing to it panics, and so does the model (the outer \<open>None\<close>).
\<close>

section \<open>The class skill trees\<close>

record SkillRef =
  refID :: int
  refLevel :: int

record classTreeEntry =
  SkillID :: int
  SkillLvl :: int
  GetLevel :: int
  AutoGet :: bool
  LevelUpSp :: int
  LearnedByNpc :: bool
  PreReqs :: "SkillRef list"

record SkillLearn =
  slID :: int
  slLevel :: int
  slGetLevel :: int
  slLevelUpSp :: int
  slLearnedByNpc :: bool
  slPreReqs :: "SkillRef list"

definition toLearn :: "classTreeEntry \<Rightarrow> SkillLearn" where
  "toLearn e = \<lparr>slID = SkillID e, slLevel = SkillLvl e, slGetLevel = GetLevel e, slLevelUpSp = LevelUpSp e,
     slLearnedByNpc = LearnedByNpc e, slPreReqs = PreReqs e\<rparr>"

record xmlClassSkillTree =
  xmlType :: string
  xmlClassID :: int
  xmlParentClassID :: "int option"
  xmlSkills :: "classTreeEntry list"

record SkillTreeData =
  trees :: "(int, classTreeEntry list) go_map"
  parent :: "(int, int) go_map"
  treesLoaded :: bool

definition NewSkillTreeData :: SkillTreeData where
  "NewSkillTreeData = \<lparr>trees = [], parent = [], treesLoaded = False\<rparr>"

definition load_tree :: "xmlClassSkillTree \<Rightarrow> SkillTreeData \<Rightarrow> SkillTreeData" where
  "load_tree t r =
     (if xmlType t \<noteq> '''' \<and> xmlType t \<noteq> ''classSkillTree'' then r
      else let r = (case xmlParentClassID t of
                      Some p \<Rightarrow> if p \<noteq> xmlClassID t then r\<lparr>parent := AList.update (xmlClassID t) p (parent r)\<rparr> else r
                    | None \<Rightarrow> r)
           in r\<lparr>trees := AList.update (xmlClassID t) (xmlSkills t) (trees r)\<rparr>)"

definition skilltree_load :: "xmlClassSkillTree list \<Rightarrow> SkillTreeData" where
  "skilltree_load doc = fold load_tree doc NewSkillTreeData\<lparr>treesLoaded := True\<rparr>"

text \<open>
  The walk up the parents that every query does: the classes visited, in order. It stops at a class
  without a parent and at one already seen.
\<close>

function class_chain :: "(int, int) go_map \<Rightarrow> int list \<Rightarrow> int \<Rightarrow> int list" where
  "class_chain par seen cid =
     (if cid \<in> set seen then []
      else cid # (case map_of par cid of None \<Rightarrow> [] | Some p \<Rightarrow> class_chain par (cid # seen) p))"
  by pat_completeness auto

termination
proof (relation "measure (\<lambda>(par, seen, _). length (filter (\<lambda>(k, _). k \<notin> set seen) par))", simp_all add: split_def)
  fix par :: "(int, int) go_map" and seen :: "int list" and cid p
  assume new: "cid \<notin> set seen" and "map_of par cid = Some p"
  hence "(cid, p) \<in> set par" by (metis map_of_SomeD)
  hence "length (filter (\<lambda>x. fst x \<noteq> cid) (filter (\<lambda>x. fst x \<notin> set seen) par)) < length (filter (\<lambda>x. fst x \<notin> set seen) par)"
    using new by (intro length_filter_less [of "(cid, p)"]) auto
  moreover have "filter (\<lambda>x. fst x \<noteq> cid) (filter (\<lambda>x. fst x \<notin> set seen) par)
      = filter (\<lambda>x. fst x \<noteq> cid \<and> fst x \<notin> set seen) par"
    by (simp add: filter_filter conj_commute)
  ultimately show "length (filter (\<lambda>x. fst x \<noteq> cid \<and> fst x \<notin> set seen) par)
      < length (filter (\<lambda>x. fst x \<notin> set seen) par)" by simp
qed

declare class_chain.simps [simp del]

definition tree_entries :: "SkillTreeData \<Rightarrow> int \<Rightarrow> classTreeEntry list" where
  "tree_entries r classID =
     concat (map (\<lambda>cid. case map_of (trees r) cid of None \<Rightarrow> [] | Some es \<Rightarrow> es) (class_chain (parent r) [] classID))"

text \<open>A missing key of a Go map reads as zero.\<close>

definition map_get :: "(int, int) go_map \<Rightarrow> int \<Rightarrow> int" where
  "map_get m k = (case map_of m k of None \<Rightarrow> 0 | Some v \<Rightarrow> v)"

definition auto_best :: "int \<Rightarrow> classTreeEntry \<Rightarrow> (int, int) go_map \<Rightarrow> (int, int) go_map" where
  "auto_best level e best =
     (if \<not> AutoGet e \<or> level < GetLevel e then best
      else if SkillLvl e > map_get best (SkillID e) then AList.update (SkillID e) (SkillLvl e) best else best)"

definition AutoGetSkills :: "SkillTreeData \<Rightarrow> int \<Rightarrow> int \<Rightarrow> (int \<times> int) list" where
  "AutoGetSkills r classID level = sort_key fst (fold (auto_best level) (tree_entries r classID) [])"

text \<open>\<open>known\<close> is read only: a nil map reads as an empty one. The sort need not be stable; the model's is.\<close>

definition known_level :: "(int, int) go_map option \<Rightarrow> int \<Rightarrow> int" where
  "known_level known s = (case known of None \<Rightarrow> 0 | Some m \<Rightarrow> map_get m s)"

definition learnable :: "int \<Rightarrow> (int, int) go_map option \<Rightarrow> classTreeEntry \<Rightarrow> bool" where
  "learnable playerLevel known e \<longleftrightarrow>
     \<not> (\<not> LearnedByNpc e \<or> playerLevel < GetLevel e)
     \<and> (let cur = known_level known (SkillID e) in (cur = 0 \<and> SkillLvl e = 1) \<or> cur = SkillLvl e - 1)"

definition GetLearnableSkills :: "SkillTreeData \<Rightarrow> int \<Rightarrow> int \<Rightarrow> (int, int) go_map option \<Rightarrow> SkillLearn list" where
  "GetLearnableSkills r classID playerLevel known =
     sort_key (\<lambda>s. (slID s, slLevel s)) (map toLearn (filter (learnable playerLevel known) (tree_entries r classID)))"

definition GetSkillLearn :: "SkillTreeData \<Rightarrow> int \<Rightarrow> int \<Rightarrow> int \<Rightarrow> SkillLearn option" where
  "GetSkillLearn r classID skillID level =
     map_option toLearn (find (\<lambda>e. SkillID e = skillID \<and> SkillLvl e = level \<and> LearnedByNpc e) (tree_entries r classID))"

section \<open>Categories and trainers\<close>

type_synonym CategoryData = "(string, (int, bool) go_map) go_map"

definition category_load :: "(string \<times> int list) list \<Rightarrow> CategoryData" where
  "category_load doc =
     fold (\<lambda>(name, ids). AList.update name (fold (\<lambda>i. AList.update i True) ids [])) doc []"

definition InCategory :: "CategoryData \<Rightarrow> string \<Rightarrow> int \<Rightarrow> bool" where
  "InCategory c category classID =
     (case map_of c category of None \<Rightarrow> False | Some s \<Rightarrow> map_of s classID = Some True)"

record coachCond =
  condRace :: int
  condSex :: int
  condCategory :: string

definition cond :: "int \<Rightarrow> int \<Rightarrow> string \<Rightarrow> coachCond" where
  "cond r s c = \<lparr>condRace = r, condSex = s, condCategory = c\<rparr>"

definition fighterConds :: "coachCond list" where
  "fighterConds = [cond 0 (-1) ''HUMAN_FALL_CLASS'', cond 1 (-1) ''ELF_FALL_CLASS'', cond 2 (-1) ''DELF_FALL_CLASS'',
     cond 3 (-1) ''ORC_FALL_CLASS'', cond 4 (-1) ''DWARF_SMITH_CLASS'']"

definition mageConds :: "coachCond list" where
  "mageConds = [cond 0 (-1) ''HUMAN_MALL_CLASS'', cond 1 (-1) ''ELF_MALL_CLASS'', cond 2 (-1) ''DELF_MALL_CLASS'',
     cond 3 (-1) ''ORC_MALL_CLASS'']"

definition clericConds :: "coachCond list" where
  "clericConds = [cond 0 (-1) ''HUMAN_CALL_CLASS'', cond 1 (-1) ''ELF_CALL_CLASS'', cond 2 (-1) ''DELF_CALL_CLASS'']"

definition wizardConds :: "coachCond list" where
  "wizardConds = [cond 0 (-1) ''HUMAN_WALL_CLASS'', cond 1 (-1) ''ELF_WALL_CLASS'', cond 2 (-1) ''DELF_WALL_CLASS'']"

definition kamaelConds :: "coachCond list" where
  "kamaelConds = [cond 5 0 ''KAMAEL_MALE_MAIN_OCCUPATION'', cond 5 1 ''KAMAEL_FEMALE_MAIN_OCCUPATION'']"

definition fighterCoachNPCs :: "int list" where
  "fighterCoachNPCs =
    [30010, 30014, 30027, 30028, 30029, 30064, 30065, 30105, 30106, 30107, 30108, 30143, 30155, 30156,
     30184, 30185, 30186, 30192, 30325, 30326, 30327, 30328, 30329, 30360, 30369, 30374, 30378, 30459,
     30460, 30463, 30472, 30475, 30501, 30506, 30509, 30514, 30569, 30570, 30679, 30683, 30690, 30691,
     30692, 30693, 30700, 30705, 30850, 30851, 30852, 30853, 30863, 30866, 30901, 30902, 30903, 30904,
     30911, 30914, 31277, 31278, 31286, 31289, 31322, 31323, 31325, 31327, 31580, 31582, 31966, 31967,
     31975, 31978, 32148, 32151, 32156, 32161]"

definition mageCoachNPCs :: "int list" where
  "mageCoachNPCs =
    [30144, 30145, 30158, 30194, 30330, 30377, 30464, 30476, 30502, 30507, 30510, 30515, 30571, 30572,
     30682, 30701, 30706, 30864, 30867, 30912, 30915, 31287, 31290, 31335, 31337, 31581, 31976, 31979,
     32152, 32162]"

definition clericCoachNPCs :: "int list" where
  "clericCoachNPCs =
    [30022, 30030, 30032, 30036, 30067, 30068, 30116, 30117, 30118, 30119, 30188, 30293, 30375, 30473,
     30680, 30858, 30859, 30860, 30861, 30906, 30908, 31280, 31281, 31329, 31330, 31969, 31970, 32155]"

definition wizardCoachNPCs :: "int list" where
  "wizardCoachNPCs =
    [30033, 30034, 30035, 30069, 30110, 30111, 30112, 30113, 30114, 30157, 30171, 30189, 30190, 30344,
     30345, 30376, 30461, 30695, 30696, 30697, 30698, 30715, 30717, 30718, 30720, 30721, 30833, 30835,
     30855, 30856, 30907, 30909, 31282, 31283, 31332, 31333, 31971, 31972, 32149]"

definition kamaelCoachNPCs :: "int list" where
  "kamaelCoachNPCs =
    [32141, 32142, 32143, 32144, 32182, 32183, 32194, 32195, 32197, 32198, 32200, 32201, 32203, 32204,
     32207, 32208, 32211, 32212, 32215, 32216, 32219, 32220, 32223, 32224, 32227, 32228, 32231, 32232]"


definition add_coach :: "int list \<Rightarrow> coachCond list \<Rightarrow> (int, coachCond list) go_map \<Rightarrow> (int, coachCond list) go_map" where
  "add_coach ids conds m = fold (\<lambda>i. AList.update i conds) ids m"

definition npcTrainers :: "(int, coachCond list) go_map" where
  "npcTrainers =
     add_coach kamaelCoachNPCs kamaelConds (add_coach wizardCoachNPCs wizardConds
       (add_coach clericCoachNPCs clericConds (add_coach mageCoachNPCs mageConds
         (add_coach fighterCoachNPCs fighterConds []))))"

definition IsTrainer :: "int \<Rightarrow> bool" where
  "IsTrainer npcID \<longleftrightarrow> map_of npcTrainers npcID \<noteq> None"

definition CanTeach :: "CategoryData \<Rightarrow> int \<Rightarrow> int \<Rightarrow> int \<Rightarrow> int \<Rightarrow> bool" where
  "CanTeach cats npcID race sex classID =
     (case map_of npcTrainers npcID of
        None \<Rightarrow> False
      | Some conds \<Rightarrow> list_ex (\<lambda>c. condRace c = race \<and> (condSex c = -1 \<or> condSex c = sex)
                                 \<and> InCategory cats (condCategory c) classID) conds)"

section \<open>Learning from a trainer\<close>

datatype learn_packet =
    AcquireSkillList "(int \<times> int \<times> int) list"
  | AcquireSkillInfo int int int
  | AcquireSkillDone
  | LearnMessage int
  | SkillList "(int \<times> int \<times> bool \<times> bool) list"
  | StatusSP int int

definition SysMsgLearnedSkillS1 :: int where "SysMsgLearnedSkillS1 = 277"
definition SysMsgNotEnoughSpToLearn :: int where "SysMsgNotEnoughSpToLearn = 278"

text \<open>A player of the world: \<open>teChar\<close> is nil until a character is set.\<close>

record trainee_char =
  teClassID :: int
  teRace :: int
  teSex :: int
  teLevel :: int
  teSP :: int

record trainee =
  teX :: int
  teY :: int
  teTarget :: int
  teChar :: "trainee_char option"
  teKnown :: "(int, int) go_map option"

record trainer_npc =
  trTemplate :: "int option"
  trX :: int
  trY :: int

record learn_env =
  skillTree :: SkillTreeData
  categories :: CategoryData
  trainers :: "(int, trainer_npc) go_map"
  is_passive :: "int \<Rightarrow> int \<Rightarrow> bool"
  has_sink :: bool

record learning =
  trainees :: "(int, trainee) go_map"
  skillLearnSink :: "(int \<times> int \<times> int) list"
  learnSent :: "(int \<times> learn_packet) list"

definition to_int32 :: "int \<Rightarrow> int" where
  "to_int32 x = sint (word_of_int x :: 32 word)"

definition sendLearn :: "int \<Rightarrow> learn_packet \<Rightarrow> learning \<Rightarrow> learning" where
  "sendLearn charID p st = st\<lparr>learnSent := learnSent st @ [(charID, p)]\<rparr>"

definition canReachTrainer :: "learn_env \<Rightarrow> trainee \<Rightarrow> trainee_char \<Rightarrow> int \<Rightarrow> bool" where
  "canReachTrainer env player char npcObjID =
     (case map_of (trainers env) npcObjID of
        None \<Rightarrow> False
      | Some npc \<Rightarrow>
          (case trTemplate npc of
             None \<Rightarrow> False
           | Some templateID \<Rightarrow>
               if \<not> CanTeach (categories env) templateID (teRace char) (teSex char) (teClassID char) then False
               else let dx = teX player - trX npc; dy = teY player - trY npc in dx * dx + dy * dy \<le> 150 * 150))"

definition handleOpenSkillLearn :: "learn_env \<Rightarrow> int \<Rightarrow> int \<Rightarrow> learning \<Rightarrow> learning" where
  "handleOpenSkillLearn env charID npcObjID st =
     (case map_of (trainees st) charID of
        None \<Rightarrow> st
      | Some player \<Rightarrow>
          (case teChar player of
             None \<Rightarrow> st
           | Some char \<Rightarrow>
               if \<not> canReachTrainer env player char npcObjID then st
               else let ls = GetLearnableSkills (skillTree env) (teClassID char) (teLevel char) (teKnown player)
                    in sendLearn charID
                         (AcquireSkillList (map (\<lambda>s. (slID s, to_int32 (slLevel s), to_int32 (slLevelUpSp s))) ls)) st))"

definition handleSkillLearnInfo :: "learn_env \<Rightarrow> int \<Rightarrow> int \<Rightarrow> int \<Rightarrow> learning \<Rightarrow> learning" where
  "handleSkillLearnInfo env charID skillID level st =
     (case map_of (trainees st) charID of
        None \<Rightarrow> st
      | Some player \<Rightarrow>
          (case teChar player of
             None \<Rightarrow> st
           | Some char \<Rightarrow>
               (case GetSkillLearn (skillTree env) (teClassID char) skillID level of
                  None \<Rightarrow> st
                | Some sl \<Rightarrow> sendLearn charID (AcquireSkillInfo skillID level (to_int32 (slLevelUpSp sl))) st)))"

text \<open>The order of the list is that of a \<open>range\<close> over the map.\<close>

definition buildSkillListForPlayer :: "learn_env \<Rightarrow> trainee \<Rightarrow> learn_packet" where
  "buildSkillListForPlayer env player =
     SkillList (map (\<lambda>(i, lvl). (i, lvl, is_passive env i lvl, lvl > 100))
       (case teKnown player of None \<Rightarrow> [] | Some m \<Rightarrow> m))"

definition handleLearnSkill :: "learn_env \<Rightarrow> int \<Rightarrow> int \<Rightarrow> int \<Rightarrow> int \<Rightarrow> learning \<Rightarrow> learning option" where
  "handleLearnSkill env charID npcObjID skillID level st =
     (case map_of (trainees st) charID of
        None \<Rightarrow> Some st
      | Some player \<Rightarrow>
          (case teChar player of
             None \<Rightarrow> Some st
           | Some char \<Rightarrow>
               if \<not> canReachTrainer env player char npcObjID then Some st
               else (case GetSkillLearn (skillTree env) (teClassID char) skillID level of
                  None \<Rightarrow> Some st
                | Some sl \<Rightarrow>
                    if teLevel char < slGetLevel sl then Some st
                    else if list_ex (\<lambda>pr. known_level (teKnown player) (refID pr) \<noteq> refLevel pr) (slPreReqs sl) then Some st
                    else if known_level (teKnown player) skillID \<ge> level then Some st
                    else if teSP char < slLevelUpSp sl
                    then Some (sendLearn charID (LearnMessage SysMsgNotEnoughSpToLearn) st)
                    else (case teKnown player of
                        None \<Rightarrow> None
                      | Some known \<Rightarrow>
                          let char = char\<lparr>teSP := teSP char - slLevelUpSp sl\<rparr>;
                              player = player\<lparr>teChar := Some char, teKnown := Some (AList.update skillID level known)\<rparr>;
                              st = st\<lparr>trainees := AList.update charID player (trainees st)\<rparr>;
                              st = (if has_sink env then st\<lparr>skillLearnSink := skillLearnSink st @ [(charID, skillID, level)]\<rparr> else st);
                              st = sendLearn charID AcquireSkillDone st;
                              st = sendLearn charID (LearnMessage SysMsgLearnedSkillS1) st;
                              st = sendLearn charID (buildSkillListForPlayer env player) st;
                              st = sendLearn charID (StatusSP charID (to_int32 (teSP char))) st
                          in Some (handleOpenSkillLearn env charID npcObjID st)))))"

text \<open>
  At world entry the learned rows of the database become the map; when the query fails the map stays
  what it was, nil for a player that has just been selected.
\<close>

definition loadPlayerSkills :: "(int \<times> int) list option \<Rightarrow> trainee \<Rightarrow> trainee" where
  "loadPlayerSkills skills player =
     (case skills of
        None \<Rightarrow> player
      | Some rows \<Rightarrow> player\<lparr>teKnown := Some (fold (\<lambda>(i, lvl). AList.update i (to_int32 lvl)) rows [])\<rparr>)"

section \<open>The requests of the client and the commands\<close>

datatype learn_cmd =
    CmdOpenSkillLearn int int
  | CmdSkillLearnInfo int int int
  | CmdLearnSkill int int int int

text \<open>
  The handlers: the packet as parsed (\<open>None\<close> when it is malformed), the account of the session, and the
  player of that account in the world with its target. \<open>None\<close>: the request is dropped.
\<close>

definition learnSkillsBypass :: string where
  "learnSkillsBypass = ''learn_skills''"

definition handleRequestBypassToServer
    :: "string option \<Rightarrow> string option \<Rightarrow> (string \<Rightarrow> (int \<times> trainee) option) \<Rightarrow> learn_cmd option" where
  "handleRequestBypassToServer pkt session playerOf =
     (case pkt of None \<Rightarrow> None
      | Some command \<Rightarrow> (case session of None \<Rightarrow> None
      | Some account \<Rightarrow> (case playerOf account of None \<Rightarrow> None
      | Some (charID, player) \<Rightarrow>
          if command = learnSkillsBypass then Some (CmdOpenSkillLearn charID (teTarget player)) else None)))"

definition handleRequestAcquireSkillInfo
    :: "(int \<times> int) option \<Rightarrow> string option \<Rightarrow> (string \<Rightarrow> (int \<times> trainee) option) \<Rightarrow> learn_cmd option" where
  "handleRequestAcquireSkillInfo pkt session playerOf =
     (case pkt of None \<Rightarrow> None
      | Some (skillID, level) \<Rightarrow> (case session of None \<Rightarrow> None
      | Some account \<Rightarrow> (case playerOf account of None \<Rightarrow> None
      | Some (charID, player) \<Rightarrow> Some (CmdSkillLearnInfo charID skillID level))))"

definition handleRequestAcquireSkill
    :: "(int \<times> int) option \<Rightarrow> string option \<Rightarrow> (string \<Rightarrow> (int \<times> trainee) option) \<Rightarrow> learn_cmd option" where
  "handleRequestAcquireSkill pkt session playerOf =
     (case pkt of None \<Rightarrow> None
      | Some (skillID, level) \<Rightarrow> (case session of None \<Rightarrow> None
      | Some account \<Rightarrow> (case playerOf account of None \<Rightarrow> None
      | Some (charID, player) \<Rightarrow> Some (CmdLearnSkill charID (teTarget player) skillID level))))"

text \<open>The game loop on these commands; \<open>None\<close> is a panic.\<close>

fun processLearnCmd :: "learn_env \<Rightarrow> learn_cmd \<Rightarrow> learning \<Rightarrow> learning option" where
  "processLearnCmd env (CmdOpenSkillLearn charID npc) st = Some (handleOpenSkillLearn env charID npc st)"
| "processLearnCmd env (CmdSkillLearnInfo charID skillID level) st = Some (handleSkillLearnInfo env charID skillID level st)"
| "processLearnCmd env (CmdLearnSkill charID npc skillID level) st = handleLearnSkill env charID npc skillID level st"

fun learn_run :: "learn_env \<Rightarrow> learn_cmd list \<Rightarrow> learning \<Rightarrow> learning option" where
  "learn_run env [] st = Some st"
| "learn_run env (c # cs) st = Option.bind (processLearnCmd env c st) (learn_run env cs)"

section \<open>The walk up the parents\<close>

definition parent_rel :: "(int, int) go_map \<Rightarrow> (int \<times> int) set" where
  "parent_rel par = {(c, p). map_of par c = Some p}"

lemma class_chain_sound: "c \<in> set (class_chain par seen cid) \<Longrightarrow> (cid, c) \<in> (parent_rel par)\<^sup>*"
proof (induction par seen cid rule: class_chain.induct)
  case (1 par seen cid)
  consider "c = cid" | p where "cid \<notin> set seen" "map_of par cid = Some p" "c \<in> set (class_chain par (cid # seen) p)"
    using "1.prems" by (cases "map_of par cid") (auto simp: class_chain.simps [of par seen cid] split: if_splits)
  then show ?case
  proof cases
    case (2 p)
    then have "(cid, p) \<in> parent_rel par" by (simp add: parent_rel_def)
    then show ?thesis using "1.IH" [OF 2] by (rule converse_rtrancl_into_rtrancl)
  qed simp
qed

lemma class_chain_closed:
  "x \<in> set (class_chain par seen cid) \<Longrightarrow> map_of par x = Some y
   \<Longrightarrow> y \<in> set (class_chain par seen cid) \<or> y \<in> set seen"
proof (induction par seen cid rule: class_chain.induct)
  case (1 par seen cid)
  show ?case
  proof (cases "cid \<in> set seen \<or> map_of par cid = None")
    case True
    then show ?thesis using "1.prems" by (auto simp: class_chain.simps [of par seen cid] split: if_splits)
  next
    case False
    then obtain p where p: "map_of par cid = Some p" and new: "cid \<notin> set seen" by auto
    have eq: "class_chain par seen cid = cid # class_chain par (cid # seen) p"
      using p new by (simp add: class_chain.simps [of par seen cid])
    have head: "p \<in> set (class_chain par (cid # seen) p) \<or> p \<in> set (cid # seen)"
      by (subst class_chain.simps) simp
    show ?thesis
    proof (cases "x \<in> set (class_chain par (cid # seen) p)")
      case True
      then show ?thesis using "1.IH" [OF new p True "1.prems"(2)] by (auto simp: eq)
    next
      case False
      hence "y = p" using "1.prems" p by (simp add: eq)
      then show ?thesis using head by (auto simp: eq)
    qed
  qed
qed

lemma class_chain_ancestors: "set (class_chain par [] cid) = {c. (cid, c) \<in> (parent_rel par)\<^sup>*}"
proof (intro set_eqI iffI)
  fix c assume "c \<in> {c. (cid, c) \<in> (parent_rel par)\<^sup>*}"
  hence "(cid, c) \<in> (parent_rel par)\<^sup>*" by simp
  then show "c \<in> set (class_chain par [] cid)"
  proof induction
    case base
    show ?case by (subst class_chain.simps) simp
  next
    case (step y z)
    then show ?case using class_chain_closed [of y par "[]" cid z] by (simp add: parent_rel_def)
  qed
qed (auto dest: class_chain_sound)

definition class_entries :: "SkillTreeData \<Rightarrow> int \<Rightarrow> classTreeEntry set" where
  "class_entries r classID =
     {e. \<exists>cid es. (classID, cid) \<in> (parent_rel (parent r))\<^sup>* \<and> map_of (trees r) cid = Some es \<and> e \<in> set es}"

lemma set_tree_entries: "set (tree_entries r classID) = class_entries r classID"
proof (intro set_eqI iffI)
  fix e assume "e \<in> set (tree_entries r classID)"
  then show "e \<in> class_entries r classID"
    by (auto simp: tree_entries_def class_entries_def class_chain_ancestors split: option.splits dest!: sym [of "Some _"])
next
  fix e assume "e \<in> class_entries r classID"
  then obtain cid es where "cid \<in> set (class_chain (parent r) [] classID)" "map_of (trees r) cid = Some es" "e \<in> set es"
    by (auto simp: class_entries_def class_chain_ancestors)
  then show "e \<in> set (tree_entries r classID)" by (force simp: tree_entries_def)
qed

section \<open>The skills of a class\<close>

definition auto_levels :: "SkillTreeData \<Rightarrow> int \<Rightarrow> int \<Rightarrow> int \<Rightarrow> int set" where
  "auto_levels r classID level s =
     SkillLvl ` {e \<in> class_entries r classID. AutoGet e \<and> GetLevel e \<le> level \<and> SkillID e = s}"

lemma map_get_update: "map_get (AList.update k v m) s = (if s = k then v else map_get m s)"
  by (simp add: map_get_def update_conv')

lemma Max_insert_max: "finite M \<Longrightarrow> Max (insert (max a b) M) = Max (insert (a::int) (insert b M))"
  by (cases "M = {}") (simp_all add: max.assoc)

lemma map_get_best:
  "map_get (fold (auto_best level) es b) s =
     Max (insert (map_get b s) (SkillLvl ` {e \<in> set es. AutoGet e \<and> GetLevel e \<le> level \<and> SkillID e = s}))"
proof (induction es arbitrary: b)
  case (Cons e es)
  let ?M = "SkillLvl ` {e \<in> set es. AutoGet e \<and> GetLevel e \<le> level \<and> SkillID e = s}"
  have fin: "finite ?M" by simp
  show ?case
  proof (cases "AutoGet e \<and> GetLevel e \<le> level \<and> SkillID e = s")
    case True
    have split_set: "{e' \<in> set (e # es). AutoGet e' \<and> GetLevel e' \<le> level \<and> SkillID e' = s}
        = insert e {e \<in> set es. AutoGet e \<and> GetLevel e \<le> level \<and> SkillID e = s}" using True by auto
    have "map_get (auto_best level e b) s = max (map_get b s) (SkillLvl e)"
      using True by (auto simp: auto_best_def map_get_update)
    then have "map_get (fold (auto_best level) (e # es) b) s = Max (insert (max (map_get b s) (SkillLvl e)) ?M)"
      by (simp add: Cons.IH)
    also have "\<dots> = Max (insert (map_get b s) (insert (SkillLvl e) ?M))"
      by (rule Max_insert_max [OF fin])
    finally show ?thesis by (simp only: split_set image_insert)
  next
    case False
    have split_set: "{e' \<in> set (e # es). AutoGet e' \<and> GetLevel e' \<le> level \<and> SkillID e' = s}
        = {e \<in> set es. AutoGet e \<and> GetLevel e \<le> level \<and> SkillID e = s}" using False by auto
    have "map_get (auto_best level e b) s = map_get b s"
      using False by (auto simp: auto_best_def map_get_update)
    then show ?thesis by (simp only: split_set fold.simps comp_apply Cons.IH)
  qed
qed simp

lemma auto_best_ok: "map_ok b \<Longrightarrow> map_ok (fold (auto_best level) es b)"
  by (induction es arbitrary: b) (simp_all add: auto_best_def)

lemma auto_best_pos:
  "(\<And>v. map_of b s = Some v \<Longrightarrow> 0 < v) \<Longrightarrow> map_of (fold (auto_best level) es b) s = Some v \<Longrightarrow> 0 < v"
proof (induction es arbitrary: b)
  case (Cons e es)
  have "0 < w" if "map_of (auto_best level e b) s = Some w" for w
  proof (cases "SkillID e = s \<and> SkillLvl e > map_get b s \<and> AutoGet e \<and> GetLevel e \<le> level")
    case True
    then have "w = SkillLvl e" using that by (simp add: auto_best_def update_conv')
    moreover have "0 \<le> map_get b s" using Cons.prems(1) by (auto simp: map_get_def split: option.splits dest: less_imp_le)
    ultimately show ?thesis using True by simp
  next
    case False
    then have "map_of b s = Some w" using that by (auto simp: auto_best_def update_conv' split: if_splits)
    then show ?thesis by (rule Cons.prems(1))
  qed
  from Cons.IH [OF this] Cons.prems(2) show ?case by simp
qed simp

lemma AutoGetSkills_positive: "(s, v) \<in> set (AutoGetSkills r classID level) \<Longrightarrow> 0 < v"
proof -
  let ?b = "fold (auto_best level) (tree_entries r classID) []"
  assume "(s, v) \<in> set (AutoGetSkills r classID level)"
  moreover have "map_ok ?b" by (rule auto_best_ok) simp
  ultimately have "map_of ?b s = Some v" by (simp add: AutoGetSkills_def map_ok_def)
  then show ?thesis using auto_best_pos [of "[]" s level _ v] by simp
qed

text \<open>
  C24: The skills granted by a class at a level are exactly, for every skill with an automatic
  entry of positive level in the class or any of its ancestors that the level reaches, the highest such
  level; one entry per skill, in the order of the skill ids; a cycle among the parents does not matter.
\<close>

theorem AutoGetSkills_highest:
  "sorted (map fst (AutoGetSkills r classID level))
   \<and> distinct (map fst (AutoGetSkills r classID level))
   \<and> ((s, v) \<in> set (AutoGetSkills r classID level)
      \<longleftrightarrow> 0 < v \<and> auto_levels r classID level s \<noteq> {} \<and> v = Max (auto_levels r classID level s))"
proof (intro conjI)
  let ?b = "fold (auto_best level) (tree_entries r classID) []"
  let ?A = "auto_levels r classID level s"
  have ok: "map_ok ?b" by (rule auto_best_ok) simp
  have fin: "finite ?A" by (simp add: auto_levels_def set_tree_entries [symmetric])
  show "sorted (map fst (AutoGetSkills r classID level))" by (simp add: AutoGetSkills_def)
  show "distinct (map fst (AutoGetSkills r classID level))"
    using ok by (simp add: AutoGetSkills_def map_ok_def distinct_map)
  have mem: "(s, v) \<in> set (AutoGetSkills r classID level) \<longleftrightarrow> map_of ?b s = Some v"
    using ok by (simp add: AutoGetSkills_def map_ok_def)
  have get: "map_get ?b s = Max (insert 0 ?A)"
    using map_get_best [of level "tree_entries r classID" "[]" s]
    by (simp add: map_get_def set_tree_entries auto_levels_def)
  have pos: "0 < w" if "map_of ?b s = Some w" for w using auto_best_pos [OF _ that] by simp
  show "(s, v) \<in> set (AutoGetSkills r classID level) \<longleftrightarrow> 0 < v \<and> ?A \<noteq> {} \<and> v = Max ?A"
  proof (cases "map_of ?b s")
    case None
    then have "Max (insert 0 ?A) = 0" using get by (simp add: map_get_def)
    then show ?thesis using fin mem None by (cases "?A = {}") (auto simp: max_def split: if_splits)
  next
    case (Some w)
    then have "Max (insert 0 ?A) = w" "0 < w" using get pos by (simp_all add: map_get_def)
    then show ?thesis using fin mem Some by (cases "?A = {}") (auto simp: max_def split: if_splits)
  qed
qed

section \<open>Learning a skill\<close>

definition learn_ok :: "learn_env \<Rightarrow> trainee \<Rightarrow> trainee_char \<Rightarrow> int \<Rightarrow> int \<Rightarrow> int \<Rightarrow> SkillLearn \<Rightarrow> bool" where
  "learn_ok env player char npc skillID level sl \<longleftrightarrow>
     canReachTrainer env player char npc \<and> GetSkillLearn (skillTree env) (teClassID char) skillID level = Some sl
     \<and> slGetLevel sl \<le> teLevel char \<and> (\<forall>pr\<in>set (slPreReqs sl). known_level (teKnown player) (refID pr) = refLevel pr)
     \<and> known_level (teKnown player) skillID < level \<and> slLevelUpSp sl \<le> teSP char"

definition learned :: "int \<Rightarrow> trainee \<Rightarrow> trainee_char \<Rightarrow> (int, int) go_map \<Rightarrow> SkillLearn \<Rightarrow> learning \<Rightarrow> (int, trainee) go_map" where
  "learned charID player char known sl st =
     AList.update charID (player\<lparr>teChar := Some (char\<lparr>teSP := teSP char - slLevelUpSp sl\<rparr>),
       teKnown := Some (AList.update (slID sl) (slLevel sl) known)\<rparr>) (trainees st)"

lemma sendLearn_keeps [simp]:
  "trainees (sendLearn c p st) = trainees st" "skillLearnSink (sendLearn c p st) = skillLearnSink st"
  by (simp_all add: sendLearn_def)

lemma handleOpenSkillLearn_keeps [simp]:
  "trainees (handleOpenSkillLearn env c npc st) = trainees st"
  "skillLearnSink (handleOpenSkillLearn env c npc st) = skillLearnSink st"
  by (simp_all add: handleOpenSkillLearn_def Let_def split: option.splits)

lemma handleSkillLearnInfo_keeps [simp]:
  "trainees (handleSkillLearnInfo env c s l st) = trainees st"
  "skillLearnSink (handleSkillLearnInfo env c s l st) = skillLearnSink st"
  by (simp_all add: handleSkillLearnInfo_def split: option.splits)

lemma GetSkillLearn_key: "GetSkillLearn r c s l = Some sl \<Longrightarrow> slID sl = s \<and> slLevel sl = l \<and> slLearnedByNpc sl"
  by (auto simp: GetSkillLearn_def toLearn_def find_Some_iff)

lemma handleLearnSkill_refused:
  assumes "map_of (trainees st) c = Some player" "teChar player = Some char"
    and "\<And>sl. \<not> learn_ok env player char npc s l sl"
  shows "\<exists>st'. handleLearnSkill env c npc s l st = Some st' \<and> trainees st' = trainees st \<and> skillLearnSink st' = skillLearnSink st"
proof (cases "GetSkillLearn (skillTree env) (teClassID char) s l")
  case (Some sl)
  have "\<not> learn_ok env player char npc s l sl" by (rule assms(3))
  then show ?thesis using assms(1,2) Some
    by (auto simp: handleLearnSkill_def learn_ok_def list_ex_iff Let_def split: option.splits)
qed (use assms in \<open>simp add: handleLearnSkill_def\<close>)

lemma handleLearnSkill_accepted:
  assumes "map_of (trainees st) c = Some player" "teChar player = Some char" "learn_ok env player char npc s l sl"
  shows "teKnown player = None \<Longrightarrow> handleLearnSkill env c npc s l st = None"
    and "teKnown player = Some known \<Longrightarrow>
      \<exists>st'. handleLearnSkill env c npc s l st = Some st' \<and> trainees st' = learned c player char known sl st
        \<and> skillLearnSink st' = skillLearnSink st @ (if has_sink env then [(c, s, l)] else [])"
  using assms GetSkillLearn_key [of "skillTree env" "teClassID char" s l sl]
  by (auto simp: handleLearnSkill_def learn_ok_def list_ex_iff Let_def learned_def)

lemma handleLearnSkill_cases:
  assumes "handleLearnSkill env c npc s l st = Some st'"
  obtains (same) "trainees st' = trainees st" "skillLearnSink st' = skillLearnSink st"
  | (learn) player char known sl where
      "map_of (trainees st) c = Some player" "teChar player = Some char" "teKnown player = Some known"
      "learn_ok env player char npc s l sl" "trainees st' = learned c player char known sl st"
      "skillLearnSink st' = skillLearnSink st @ (if has_sink env then [(c, s, l)] else [])"
proof (cases "map_of (trainees st) c")
  case None
  then show ?thesis using assms same by (simp add: handleLearnSkill_def)
next
  case (Some player)
  note P = this
  show ?thesis
  proof (cases "teChar player")
    case None
    then show ?thesis using assms same P by (simp add: handleLearnSkill_def)
  next
    case (Some char)
    show ?thesis
    proof (cases "\<exists>sl. learn_ok env player char npc s l sl")
      case True
      then obtain sl where sl: "learn_ok env player char npc s l sl" ..
      show ?thesis
        using handleLearnSkill_accepted [OF P Some sl] assms learn [OF P Some _ sl] by (cases "teKnown player") auto
    next
      case False
      then obtain st2 where "handleLearnSkill env c npc s l st = Some st2" "trainees st2 = trainees st"
          "skillLearnSink st2 = skillLearnSink st"
        using handleLearnSkill_refused [OF P Some, of env npc s l] by blast
      then show ?thesis using assms same by simp
    qed
  qed
qed

text \<open>
  C23: A request that changes a player was made within reach of a trainer who teaches the class, for
  an entry a trainer may teach of the class or one of its ancestors, at a level that the player has reached,
  above the level known, with every prerequisite at its exact level; exactly the price is paid, the points
  never fall below zero, exactly the known level of that skill changes, and the write to the database is
  queued once.
\<close>

theorem learning_is_paid:
  assumes "handleLearnSkill env c npc s l st = Some st'" and "map_of (trainees st') c \<noteq> map_of (trainees st) c"
  shows "\<exists>player char known e sp.
    map_of (trainees st) c = Some player \<and> teChar player = Some char \<and> teKnown player = Some known
    \<and> canReachTrainer env player char npc
    \<and> e \<in> class_entries (skillTree env) (teClassID char) \<and> SkillID e = s \<and> SkillLvl e = l \<and> LearnedByNpc e
    \<and> GetLevel e \<le> teLevel char \<and> map_get known s < l
    \<and> list_all (\<lambda>pr. map_get known (refID pr) = refLevel pr) (PreReqs e)
    \<and> sp = teSP char - LevelUpSp e \<and> 0 \<le> sp
    \<and> map_of (trainees st') = (map_of (trainees st))(c \<mapsto>
         player\<lparr>teChar := Some (char\<lparr>teSP := sp\<rparr>), teKnown := Some (AList.update s l known)\<rparr>)
    \<and> skillLearnSink st' = skillLearnSink st @ (if has_sink env then [(c, s, l)] else [])"
  using assms(1)
proof (cases rule: handleLearnSkill_cases)
  case same
  then show ?thesis using assms(2) by simp
next
  case (learn player char known sl)
  then obtain e where e: "find (\<lambda>e. SkillID e = s \<and> SkillLvl e = l \<and> LearnedByNpc e)
      (tree_entries (skillTree env) (teClassID char)) = Some e" and sl: "sl = toLearn e"
    by (auto simp: learn_ok_def GetSkillLearn_def)
  have "e \<in> set (tree_entries (skillTree env) (teClassID char))" "SkillID e = s" "SkillLvl e = l" "LearnedByNpc e"
    using e by (auto simp: find_Some_iff)
  then show ?thesis
    using learn sl
    by (intro exI [of _ player] exI [of _ char] exI [of _ known] exI [of _ e] exI [of _ "teSP char - LevelUpSp e"])
      (auto simp: learn_ok_def learned_def toLearn_def known_level_def list_all_iff update_conv' set_tree_entries)
qed

section \<open>The log of learned skills\<close>

definition known_of :: "learning \<Rightarrow> int \<Rightarrow> int \<Rightarrow> int option" where
  "known_of st c = (case map_of (trainees st) c of None \<Rightarrow> (\<lambda>_. None)
     | Some player \<Rightarrow> (case teKnown player of None \<Rightarrow> (\<lambda>_. None) | Some m \<Rightarrow> map_of m))"

definition replay :: "(int \<times> int \<times> int) list \<Rightarrow> int \<Rightarrow> (int \<Rightarrow> int option) \<Rightarrow> int \<Rightarrow> int option" where
  "replay log c f = fold (\<lambda>(i, s, l) f. if i = c then f(s \<mapsto> l) else f) log f"

lemma replay_append: "replay (xs @ ys) c f = replay ys c (replay xs c f)"
  by (simp add: replay_def)

lemma processLearnCmd_log:
  assumes "has_sink env" "processLearnCmd env cmd st = Some st'"
  shows "\<exists>log. skillLearnSink st' = skillLearnSink st @ log \<and> (\<forall>c. known_of st' c = replay log c (known_of st c))
    \<and> (\<forall>(i, s, l) \<in> set log. case known_of st i s of None \<Rightarrow> 0 < l | Some l0 \<Rightarrow> l0 < l) \<and> length log \<le> 1"
proof -
  have none: "known_of st' c = known_of st c" if "trainees st' = trainees st" for c using that by (simp add: known_of_def)
  show ?thesis
  proof (cases cmd)
    case (CmdLearnSkill c npc s l)
    then have "handleLearnSkill env c npc s l st = Some st'" using assms by simp
    then show ?thesis
    proof (cases rule: handleLearnSkill_cases)
      case same
      then show ?thesis by (intro exI [of _ "[]"]) (simp add: none replay_def)
    next
      case (learn player char known sl)
      have sl: "slID sl = s" "slLevel sl = l" using learn(4) GetSkillLearn_key by (auto simp: learn_ok_def)
      have "known_of st' i = replay [(c, s, l)] i (known_of st i)" for i
        using learn sl by (auto simp: known_of_def learned_def replay_def update_conv')
      then show ?thesis using learn assms(1)
        by (intro exI [of _ "[(c, s, l)]"])
          (auto simp: learn_ok_def known_of_def known_level_def map_get_def split: option.splits)
    qed
  qed (use assms none in \<open>auto simp: replay_def known_of_def\<close>)
qed

lemma processLearnCmd_panics:
  "processLearnCmd env cmd st = None \<Longrightarrow>
   \<exists>c npc s l player char sl. cmd = CmdLearnSkill c npc s l \<and> map_of (trainees st) c = Some player
     \<and> teChar player = Some char \<and> teKnown player = None \<and> learn_ok env player char npc s l sl"
proof (cases cmd)
  case (CmdLearnSkill c npc s l)
  moreover assume "processLearnCmd env cmd st = None"
  ultimately have none: "handleLearnSkill env c npc s l st = None" by simp
  then obtain player where P: "map_of (trainees st) c = Some player"
    by (cases "map_of (trainees st) c") (simp_all add: handleLearnSkill_def)
  then obtain char where C: "teChar player = Some char"
    using none by (cases "teChar player") (simp_all add: handleLearnSkill_def)
  obtain sl where sl: "learn_ok env player char npc s l sl"
    using handleLearnSkill_refused [OF P C] none by fastforce
  have "teKnown player = None"
    using handleLearnSkill_accepted(2) [OF P C sl] none by (cases "teKnown player") auto
  then show ?thesis using CmdLearnSkill P C sl by blast
qed auto

definition known_at :: "learning \<Rightarrow> int \<Rightarrow> int \<Rightarrow> int" where
  "known_at st c s = (case known_of st c s of None \<Rightarrow> 0 | Some l \<Rightarrow> l)"

text \<open>
  C25: Along any run of learning commands, the queue of database writes grows by a log whose
  upserts, replayed in order on the map of known skills a player started with, give the map that the game
  holds; no known level ever falls.
\<close>

theorem learning_replays:
  assumes "has_sink env" "learn_run env cmds st = Some st'"
  shows "\<exists>log. skillLearnSink st' = skillLearnSink st @ log \<and> length log \<le> length cmds
    \<and> (\<lambda>c. known_of st' c) = (\<lambda>c. replay log c (known_of st c))
    \<and> known_at st c s \<le> known_at st' c s"
  using assms(2)
proof (induction cmds arbitrary: st)
  case Nil
  then show ?case by (intro exI [of _ "[]"]) (simp add: replay_def)
next
  case (Cons cmd cmds)
  then obtain st1 where step: "processLearnCmd env cmd st = Some st1" and run: "learn_run env cmds st1 = Some st'"
    by (auto simp: bind_eq_Some_conv)
  obtain l1 where l1: "skillLearnSink st1 = skillLearnSink st @ l1" "\<And>c. known_of st1 c = replay l1 c (known_of st c)"
      "length l1 \<le> 1" "\<forall>(i, s, l) \<in> set l1. case known_of st i s of None \<Rightarrow> 0 < l | Some l0 \<Rightarrow> l0 < l"
    using processLearnCmd_log [OF assms(1) step] by blast
  obtain l2 where l2: "skillLearnSink st' = skillLearnSink st1 @ l2" "length l2 \<le> length cmds"
      "(\<lambda>c. known_of st' c) = (\<lambda>c. replay l2 c (known_of st1 c))" "known_at st1 c s \<le> known_at st' c s"
    using Cons.IH [OF run] by blast
  consider "l1 = []" | i s' l where "l1 = [(i, s', l)]" using l1(3) by (cases l1) auto
  then have "known_at st c s \<le> known_at st1 c s"
    using l1(2) [of c] l1(4) by cases (auto simp: known_at_def replay_def split: option.splits)
  moreover have "known_of st1 = (\<lambda>c. replay l1 c (known_of st c))" using l1(2) by (rule ext)
  ultimately show ?case using l1(1,3) l2
    by (intro exI [of _ "l1 @ l2"]) (simp add: replay_append)
qed

section \<open>What the window offers\<close>

lemma offered_entry:
  assumes "sl \<in> set (GetLearnableSkills r classID level known)"
  obtains e where "e \<in> set (tree_entries r classID)" "sl = toLearn e" "learnable level known e"
  using assms by (auto simp: GetLearnableSkills_def)



section \<open>Two weaknesses\<close>

text \<open>
  The level below need not be known. A request for any trainer's entry of the class that the
  window does not offer, because it is not the next level, is granted all the same, for the price of that
  entry alone.
\<close>

theorem learning_skips_levels:
  assumes "map_of (trainees st) c = Some player" "teChar player = Some char" "teKnown player = Some known"
    and "canReachTrainer env player char npc"
    and "GetSkillLearn (skillTree env) (teClassID char) s l = Some sl" "map_get known s < l - 1" "l \<noteq> 1"
    and "slGetLevel sl \<le> teLevel char" "slLevelUpSp sl \<le> teSP char" "slPreReqs sl = []"
  shows "sl \<notin> set (GetLearnableSkills (skillTree env) (teClassID char) (teLevel char) (teKnown player))
    \<and> (\<exists>st' player'. handleLearnSkill env c npc s l st = Some st' \<and> map_of (trainees st') c = Some player'
        \<and> known_level (teKnown player') s = l \<and> map_option teSP (teChar player') = Some (teSP char - slLevelUpSp sl))"
proof
  have sl: "slID sl = s" "slLevel sl = l" using GetSkillLearn_key [OF assms(5)] by auto
  show "sl \<notin> set (GetLearnableSkills (skillTree env) (teClassID char) (teLevel char) (teKnown player))"
  proof
    assume "sl \<in> set (GetLearnableSkills (skillTree env) (teClassID char) (teLevel char) (teKnown player))"
    then obtain e where "sl = toLearn e" "learnable (teLevel char) (teKnown player) e" by (rule offered_entry)
    then show False using assms(3,6,7) sl by (auto simp: learnable_def toLearn_def known_level_def Let_def)
  qed
  have ok: "learn_ok env player char npc s l sl" using assms by (simp add: learn_ok_def known_level_def)
  show "\<exists>st' player'. handleLearnSkill env c npc s l st = Some st' \<and> map_of (trainees st') c = Some player'
        \<and> known_level (teKnown player') s = l \<and> map_option teSP (teChar player') = Some (teSP char - slLevelUpSp sl)"
    using handleLearnSkill_accepted(2) [OF assms(1,2) ok assms(3)] sl
    by (auto simp: learned_def update_conv' known_level_def map_get_def)
qed

text \<open>
  When the query for the known skills fails at world entry, the map stays nil and the next
  successful request to learn a skill panics the game loop; with the query answered it does not.
\<close>

theorem failed_skill_query_panics:
  assumes "map_of (trainees st) c = Some (loadPlayerSkills rows player)" "teKnown player = None" "teChar player = Some char"
    and "canReachTrainer env player char npc"
    and "GetSkillLearn (skillTree env) (teClassID char) s l = Some sl" "0 < l" "slGetLevel sl \<le> teLevel char"
      "slLevelUpSp sl \<le> teSP char" "slPreReqs sl = []" "rows = None \<or> rows = Some []"
  shows "handleLearnSkill env c npc s l st = None \<longleftrightarrow> rows = None"
proof (cases rows)
  case None
  then have "learn_ok env player char npc s l sl" using assms by (simp add: learn_ok_def known_level_def)
  then show ?thesis using handleLearnSkill_accepted(1) [of st c player char env npc s l sl] assms None
    by (simp add: loadPlayerSkills_def)
next
  case (Some r)
  let ?p = "player\<lparr>teKnown := Some []\<rparr>"
  have "canReachTrainer env ?p char npc" using assms(4) by (auto simp: canReachTrainer_def Let_def split: option.splits if_splits)
  then have "learn_ok env ?p char npc s l sl" using assms by (simp add: learn_ok_def known_level_def map_get_def)
  then show ?thesis using handleLearnSkill_accepted(2) [of st c ?p char env npc s l sl "[]"] assms Some
    by (auto simp: loadPlayerSkills_def)
qed

section \<open>Witnesses\<close>

definition strike :: "int \<Rightarrow> int \<Rightarrow> int \<Rightarrow> classTreeEntry" where
  "strike lvl at sp = \<lparr>SkillID = 3, SkillLvl = lvl, GetLevel = at, AutoGet = False, LevelUpSp = sp, LearnedByNpc = True, PreReqs = []\<rparr>"

definition sample_learn_env :: learn_env where
  "sample_learn_env = \<lparr>skillTree = skilltree_load
       [\<lparr>xmlType = ''classSkillTree'', xmlClassID = 0, xmlParentClassID = None, xmlSkills = [strike 1 5 50, strike 2 5 60]\<rparr>],
     categories = category_load [(''HUMAN_FALL_CLASS'', [0, 1])],
     trainers = [(700, \<lparr>trTemplate = Some 30010, trX = 90, trY = 0\<rparr>)], is_passive = (\<lambda>_ _. False), has_sink = True\<rparr>"

definition sample_char5 :: trainee_char where
  "sample_char5 = \<lparr>teClassID = 0, teRace = 0, teSex = 1, teLevel = 5, teSP = 100\<rparr>"

definition sample_trainee :: "(int, int) go_map option \<Rightarrow> trainee" where
  "sample_trainee known = \<lparr>teX = 0, teY = 0, teTarget = 700,
     teChar = Some sample_char5, teKnown = known\<rparr>"

definition sample_learning :: "(int, int) go_map option \<Rightarrow> learning" where
  "sample_learning known = \<lparr>trainees = [(1, sample_trainee known)], skillLearnSink = [], learnSent = []\<rparr>"

lemma sample_chain: "tree_entries (skillTree sample_learn_env) 0 = [strike 1 5 50, strike 2 5 60]"
  by (simp add: tree_entries_def class_chain.simps sample_learn_env_def skilltree_load_def load_tree_def NewSkillTreeData_def)

lemma map_of_add_coach: "map_of (add_coach ids conds m) i = (if i \<in> set ids then Some conds else map_of m i)"
  by (induction ids arbitrary: m) (simp_all add: add_coach_def update_conv')

lemma sample_reach: "canReachTrainer sample_learn_env (sample_trainee known) sample_char5 700"
  by (simp add: canReachTrainer_def sample_learn_env_def sample_trainee_def sample_char5_def CanTeach_def npcTrainers_def map_of_add_coach
      fighterCoachNPCs_def mageCoachNPCs_def clericCoachNPCs_def wizardCoachNPCs_def kamaelCoachNPCs_def fighterConds_def
      cond_def InCategory_def category_load_def)


lemma sample_learnable: "GetSkillLearn (skillTree sample_learn_env) 0 3 l =
   (if l = 1 then Some (toLearn (strike 1 5 50)) else if l = 2 then Some (toLearn (strike 2 5 60)) else None)"
  by (simp add: GetSkillLearn_def sample_chain) (simp add: strike_def)

lemma sample_known: "teKnown (sample_trainee k) = k" "teChar (sample_trainee k) = Some sample_char5"
    "teClassID sample_char5 = 0" "teLevel sample_char5 = 5"
    "teSP sample_char5 = 100"
    "map_of (trainees (sample_learning k)) 1 = Some (sample_trainee k)" "has_sink sample_learn_env"
  by (simp_all add: sample_trainee_def sample_learning_def sample_learn_env_def sample_char5_def)

lemma sample_accept:
  assumes "known_level k 3 < l" "l = 1 \<or> l = 2"
  shows "learn_ok sample_learn_env (sample_trainee k) sample_char5 700 3 l (toLearn (strike l 5 (40 + 10 * l)))"
  using assms by (auto simp: learn_ok_def sample_reach sample_known sample_learnable toLearn_def strike_def)

lemma sample_learns:
  assumes "map_get k 3 < l" "l = 1 \<or> l = 2"
  obtains st' where "handleLearnSkill sample_learn_env 1 700 3 l (sample_learning (Some k)) = Some st'"
    "map_of (trainees st') 1 \<noteq> map_of (trainees (sample_learning (Some k))) 1"
    "skillLearnSink st' = [(1, 3, l)]"
proof -
  have "known_level (Some k) 3 < l" using assms(1) by (simp add: known_level_def)
  note ok = sample_accept [OF this assms(2)]
  obtain st' where st': "handleLearnSkill sample_learn_env 1 700 3 l (sample_learning (Some k)) = Some st'"
      "trainees st' = learned 1 (sample_trainee (Some k)) sample_char5 k (toLearn (strike l 5 (40 + 10 * l))) (sample_learning (Some k))"
      "skillLearnSink st' = [(1, 3, l)]"
    using handleLearnSkill_accepted(2) [OF sample_known(6) sample_known(2) ok sample_known(1)]
    by (auto simp: sample_known sample_learning_def)
  have "map_of (trainees st') 1 \<noteq> map_of (trainees (sample_learning (Some k))) 1"
    using assms(2) by (auto simp: st' learned_def update_conv' sample_known sample_trainee_def sample_char5_def sample_learning_def toLearn_def strike_def)
  then show ?thesis using st' that by blast
qed

lemma learning_is_paid_witness:
  "\<exists>st'. handleLearnSkill sample_learn_env 1 700 3 1 (sample_learning (Some [])) = Some st'
    \<and> skillLearnSink st' = [(1, 3, 1)]"
proof -
  obtain st' where "handleLearnSkill sample_learn_env 1 700 3 1 (sample_learning (Some [])) = Some st'"
    "map_of (trainees st') 1 \<noteq> map_of (trainees (sample_learning (Some []))) 1"
    by (rule sample_learns [of "[]" 1]) (simp_all add: map_get_def)
  from learning_is_paid [OF this] this(1) show ?thesis
    by (auto simp: sample_known sample_learning_def)
qed

lemma learning_replays_witness:
  "\<exists>st' log. learn_run sample_learn_env [CmdOpenSkillLearn 1 700, CmdSkillLearnInfo 1 3 1] (sample_learning (Some [])) = Some st'
    \<and> skillLearnSink st' = log \<and> length log \<le> 2"
  using learning_replays [of sample_learn_env "[CmdOpenSkillLearn 1 700, CmdSkillLearnInfo 1 3 1]" "sample_learning (Some [])"]
  by (auto simp: sample_known sample_learning_def)


lemma learning_skips_levels_witness:
  "\<exists>st' player'. handleLearnSkill sample_learn_env 1 700 3 2 (sample_learning (Some [])) = Some st'
    \<and> map_of (trainees st') 1 = Some player' \<and> known_level (teKnown player') 3 = 2
    \<and> map_option teSP (teChar player') = Some 40"
proof -
  have sl: "GetSkillLearn (skillTree sample_learn_env) (teClassID sample_char5) 3 2 = Some (toLearn (strike 2 5 60))"
    by (simp add: sample_known sample_learnable)
  have "slGetLevel (toLearn (strike 2 5 60)) = 5" "slPreReqs (toLearn (strike 2 5 60)) = []" "slLevelUpSp (toLearn (strike 2 5 60)) = 60"
    by (simp_all add: toLearn_def strike_def)
  then show ?thesis
    using learning_skips_levels [OF sample_known(6) sample_known(2) sample_known(1) sample_reach sl]
    by (auto simp: sample_known map_get_def)
qed

lemma failed_skill_query_panics_witness:
  "handleLearnSkill sample_learn_env 1 700 3 1 (sample_learning None) = None"
proof -
  have load: "map_of (trainees (sample_learning None)) 1 = Some (loadPlayerSkills None (sample_trainee None))"
    by (simp add: sample_known loadPlayerSkills_def)
  have sl: "GetSkillLearn (skillTree sample_learn_env) (teClassID sample_char5) 3 1 = Some (toLearn (strike 1 5 50))"
    by (simp add: sample_known sample_learnable)
  have "slGetLevel (toLearn (strike 1 5 50)) = 5" "slPreReqs (toLearn (strike 1 5 50)) = []" "slLevelUpSp (toLearn (strike 1 5 50)) = 50"
    by (simp_all add: toLearn_def strike_def)
  then show ?thesis
    using failed_skill_query_panics [OF load sample_known(1) sample_known(2) sample_reach sl]
    by (auto simp: sample_known)
qed

end
