(* ===== verification/Characters.thy ===== *)
theory Characters
  imports CharacterTemplates SkillTree Complex_Main
begin

text \<open>
  Characters: the record and its methods (\<open>models/character.go\<close>), the tables of characters, skills and
  shortcuts with their constraints (\<open>schema/migrations\<close>) and the statements of \<open>repo/postgres.go\<close>,
  \<open>repo/postgres_skills.go\<close> and \<open>repo/postgres_shortcuts.go\<close> on them. As for the items, every statement may
  fail: the calls share the counter of the item table. The time is an argument, the same for all reads of
  the clock within one operation. Strings are ASCII, where \<open>strings.ToLower\<close>, \<open>strings.TrimSpace\<close> and the
  \<open>LOWER\<close> of the database agree; columns hold unbounded integers.
\<close>

section \<open>A character\<close>

record Character =
  ID :: int
  AccountName :: string
  Name :: string
  Level :: int
  MaxHP :: int
  CurrentHP :: rat
  MaxMP :: int
  CurrentMP :: rat
  MaxCP :: int
  CurrentCP :: int
  Face :: int
  HairStyle :: int
  HairColor :: int
  Sex :: int
  Experience :: int
  SP :: int
  Karma :: int
  PKKills :: int
  PvPKills :: int
  ClanID :: int
  Race :: int
  ClassID :: int
  BaseClass :: int
  DeleteTime :: int
  VitalityPoints :: int
  AccessLevel :: int
  Position :: Position
  Heading :: int
  CreatedAt :: int
  LastAccess :: int
  OnlineTime :: int
  OnlineStatus :: bool
  CharSlot :: int
  Newbie :: bool
  Noble :: bool
  Hero :: bool
  HeroEndDate :: "int option"
  DeathPenaltyLevel :: int
  Title :: string
  RecHave :: int
  RecLeft :: int
  Fame :: int
  FishingPoints :: int
  PaperdollItems :: "int list"
  PaperdollObjectIDs :: "int list"
  BaseSTR :: int
  BaseDEX :: int
  BaseCON :: int
  BaseINT :: int
  BaseWIT :: int
  BaseMEN :: int

definition IsMarkedForDeletion :: "Character \<Rightarrow> bool" where
  "IsMarkedForDeletion c \<longleftrightarrow> DeleteTime c > 0"

definition GetDeletionTimeRemaining :: "int \<Rightarrow> Character \<Rightarrow> int" where
  "GetDeletionTimeRemaining now c =
     (if \<not> IsMarkedForDeletion c then 0
      else let remaining = DeleteTime c - now in if remaining < 0 then 0 else remaining)"

definition CanBeDeleted :: "int \<Rightarrow> Character \<Rightarrow> bool" where
  "CanBeDeleted now c =
     (if Level c \<ge> 20 then IsMarkedForDeletion c \<and> GetDeletionTimeRemaining now c = 0 else True)"

definition MarkForDeletion :: "int \<Rightarrow> int \<Rightarrow> Character \<Rightarrow> Character" where
  "MarkForDeletion now duration c = c\<lparr>DeleteTime := now + duration\<rparr>"

definition CancelDeletion :: "Character \<Rightarrow> Character" where
  "CancelDeletion c = c\<lparr>DeleteTime := 0\<rparr>"

definition IsAlive :: "Character \<Rightarrow> bool" where "IsAlive c \<longleftrightarrow> CurrentHP c > 0"
definition IsOnline :: "Character \<Rightarrow> bool" where "IsOnline c \<longleftrightarrow> OnlineStatus c"
definition IsNoble :: "Character \<Rightarrow> bool" where "IsNoble c \<longleftrightarrow> Noble c"
definition IsNewbie :: "Character \<Rightarrow> bool" where "IsNewbie c \<longleftrightarrow> Newbie c"
definition HasClan :: "Character \<Rightarrow> bool" where "HasClan c \<longleftrightarrow> ClanID c > 0"

definition IsHero :: "int \<Rightarrow> Character \<Rightarrow> bool" where
  "IsHero now c = (if \<not> Hero c then False else case HeroEndDate c of None \<Rightarrow> True | Some e \<Rightarrow> now < e)"

definition GetRaceName :: "Character \<Rightarrow> string" where
  "GetRaceName c =
     (if Race c = RaceHuman then ''Human'' else if Race c = RaceElf then ''Elf''
      else if Race c = RaceDarkElf then ''Dark Elf'' else if Race c = RaceOrc then ''Orc''
      else if Race c = RaceDwarf then ''Dwarf'' else if Race c = RaceKamael then ''Kamael'' else ''Unknown'')"

definition GetSexName :: "Character \<Rightarrow> string" where
  "GetSexName c = (if Sex c = SexMale then ''Male'' else if Sex c = SexFemale then ''Female'' else ''Unknown'')"

definition GetDistanceTo :: "Character \<Rightarrow> Position \<Rightarrow> int" where
  "GetDistanceTo c pos =
     (let dx = X (Position c) - X pos; dy = Y (Position c) - Y pos; dz = Z (Position c) - Z pos
      in dx * dx + dy * dy + dz * dz)"

definition SetPosition :: "int \<Rightarrow> int \<Rightarrow> int \<Rightarrow> Character \<Rightarrow> Character" where
  "SetPosition x y z c = c\<lparr>Position := \<lparr>X = x, Y = y, Z = z\<rparr>\<rparr>"

definition SetHeading :: "int \<Rightarrow> Character \<Rightarrow> Character" where
  "SetHeading heading c = c\<lparr>Heading := if heading < 0 then 0 else if heading > 65535 then 65535 else heading\<rparr>"

datatype char_error =
    ErrInvalidCharacterName | ErrInvalidRace | ErrInvalidSex | ErrInvalidClass | ErrCharacterNotFound
  | ErrCharacterExists | ErrInvalidSlot | ErrTooManyCharacters
  | Errorf string
  | Wrapped string char_error

fun errors_Is :: "char_error \<Rightarrow> char_error \<Rightarrow> bool" where
  "errors_Is (Wrapped m e) target = (Wrapped m e = target \<or> errors_Is e target)"
| "errors_Is e target = (e = target)"

definition ValidateForCreation :: "Character \<Rightarrow> char_error option" where
  "ValidateForCreation c =
     (if length (Name c) < 1 \<or> length (Name c) > 16 then Some ErrInvalidCharacterName
      else if Race c < 0 \<or> Race c > 5 then Some ErrInvalidRace
      else if Sex c < 0 \<or> Sex c > 1 then Some ErrInvalidSex
      else if ClassID c < 0 then Some ErrInvalidClass
      else None)"

record CharacterListEntry =
  leCharacter :: Character
  lePaperdollItems :: "CharacterItem list"
  leCanDelete :: bool
  leDeletionTimer :: int

definition ToListEntry :: "int \<Rightarrow> Character \<Rightarrow> CharacterListEntry" where
  "ToListEntry now c = \<lparr>leCharacter = c, lePaperdollItems = [], leCanDelete = CanBeDeleted now c,
     leDeletionTimer = GetDeletionTimeRemaining now c\<rparr>"

section \<open>The tables\<close>

record CharacterShortcut =
  scCharID :: int
  scSlot :: int
  scPage :: int
  scType :: int
  scShortcutID :: int
  scLevel :: int
  scSubLevel :: int

text \<open>
  Skills are keyed by character and skill, shortcuts by character, slot and page: the column \<open>class_index\<close>
  of both keys is always 0. The columns \<open>learned_at\<close> are left out.
\<close>

record game_db =
  chars :: "(int, Character) go_map"
  next_char :: int
  char_skills :: "(int \<times> int, int) go_map"
  char_shortcuts :: "(int \<times> int \<times> int, CharacterShortcut) go_map"
  itemdb :: items

definition char_row_ok :: "Character \<Rightarrow> bool" where
  "char_row_ok c \<longleftrightarrow> 1 \<le> Level c \<and> Level c \<le> 85 \<and> (Sex c = 0 \<or> Sex c = 1) \<and> 0 \<le> Race c \<and> Race c \<le> 5
     \<and> 0 \<le> AccessLevel c \<and> 0 \<le> CharSlot c \<and> CharSlot c \<le> 6
     \<and> length (AccountName c) \<le> 45 \<and> length (Name c) \<le> 35 \<and> length (Title c) \<le> 255"

definition char_keys_ok :: "(int, Character) go_map \<Rightarrow> bool" where
  "char_keys_ok t \<longleftrightarrow> map_ok t \<and> list_all (\<lambda>(i, c). ID c = i \<and> char_row_ok c) t
     \<and> distinct (map (Name \<circ> snd) t) \<and> distinct (map (\<lambda>(_, c). (AccountName c, CharSlot c)) t)"

definition skills_ok :: "(int \<times> int, int) go_map \<Rightarrow> bool" where
  "skills_ok t \<longleftrightarrow> map_ok t \<and> list_all (\<lambda>(_, level). 1 \<le> level \<and> level \<le> 99) t"

definition shortcut_ok :: "(int \<times> int \<times> int) \<times> CharacterShortcut \<Rightarrow> bool" where
  "shortcut_ok e = (case e of ((c, s, p), sc) \<Rightarrow>
     scCharID sc = c \<and> scSlot sc = s \<and> scPage sc = p \<and> 0 \<le> s \<and> s \<le> 143 \<and> 0 \<le> p \<and> p \<le> 23
     \<and> 0 \<le> scType sc \<and> scType sc \<le> 6 \<and> 0 \<le> scLevel sc)"

text \<open>Every row of the other tables belongs to a character.\<close>

definition owners :: "game_db \<Rightarrow> int set" where
  "owners st = fst ` fst ` set (char_skills st) \<union> fst ` fst ` set (char_shortcuts st)
     \<union> OwnerID ` snd ` set (rows (itemdb st)) \<union> fst ` set (recipes (itemdb st))"

definition db_ok :: "game_db \<Rightarrow> bool" where
  "db_ok st \<longleftrightarrow> char_keys_ok (chars st) \<and> skills_ok (char_skills st)
     \<and> map_ok (char_shortcuts st) \<and> list_all shortcut_ok (char_shortcuts st)
     \<and> table_ok (rows (itemdb st)) \<and> owners st \<subseteq> fst ` set (chars st)"

section \<open>Statements and transactions\<close>

type_synonym 'a db_op = "game_db \<Rightarrow> (char_error + 'a) \<times> game_db"

definition db_bind :: "'a db_op \<Rightarrow> ('a \<Rightarrow> 'b db_op) \<Rightarrow> 'b db_op" where
  "db_bind m f = (\<lambda>st. case m st of (Inl e, st) \<Rightarrow> (Inl e, st) | (Inr a, st) \<Rightarrow> f a st)"

definition db_return :: "'a \<Rightarrow> 'a db_op" where
  "db_return a = (\<lambda>st. (Inr a, st))"

definition db_fail :: "char_error \<Rightarrow> 'a db_op" where
  "db_fail e = (\<lambda>st. (Inl e, st))"

text \<open>\<open>fmt.Errorf("...: %w", err)\<close>, and a caller that carries on after an error.\<close>

definition db_wrap :: "string \<Rightarrow> 'a db_op \<Rightarrow> 'a db_op" where
  "db_wrap msg m = (\<lambda>st. case m st of (Inl e, st) \<Rightarrow> (Inl (Wrapped msg e), st) | (Inr a, st) \<Rightarrow> (Inr a, st))"

definition db_try :: "'a db_op \<Rightarrow> (char_error + 'a) db_op" where
  "db_try m = (\<lambda>st. case m st of (r, st) \<Rightarrow> (Inr r, st))"

definition calls :: "game_db \<Rightarrow> nat" where
  "calls st = db_calls (itemdb st)"

definition count_call :: "game_db \<Rightarrow> game_db" where
  "count_call st = st\<lparr>itemdb := (itemdb st)\<lparr>db_calls := calls st + 1\<rparr>\<rparr>"

definition db_query :: "db_fault \<Rightarrow> string \<Rightarrow> (game_db \<Rightarrow> 'a) \<Rightarrow> 'a db_op" where
  "db_query fault msg f = (\<lambda>st. (if fault (calls st) then Inl (Errorf msg) else Inr (f st), count_call st))"

definition db_exec :: "db_fault \<Rightarrow> string \<Rightarrow> (game_db \<Rightarrow> game_db) \<Rightarrow> unit db_op" where
  "db_exec fault msg f = (\<lambda>st.
     if fault (calls st) \<or> \<not> db_ok (f st) then (Inl (Errorf msg), count_call st) else (Inr (), count_call (f st)))"

text \<open>A statement of the item repository, with the foreign key of its table.\<close>

definition on_items :: "'a item_op \<Rightarrow> 'a db_op" where
  "on_items m = (\<lambda>st.
     case m (itemdb st) of
       (Inl e, i) \<Rightarrow> (Inl (Errorf e), st\<lparr>itemdb := i\<rparr>)
     | (Inr a, i) \<Rightarrow> if db_ok (st\<lparr>itemdb := i\<rparr>) then (Inr a, st\<lparr>itemdb := i\<rparr>)
                   else (Inl (Errorf ''violates foreign key constraint''),
                         st\<lparr>itemdb := i\<lparr>rows := rows (itemdb st), recipes := recipes (itemdb st)\<rparr>\<rparr>))"

text \<open>
  A rollback gives every table back; the sequences and the number of calls stay. A failed commit leaves
  nothing behind either.
\<close>

definition rolled_back :: "game_db \<Rightarrow> game_db \<Rightarrow> game_db" where
  "rolled_back old new = new\<lparr>chars := chars old, char_skills := char_skills old, char_shortcuts := char_shortcuts old,
     itemdb := (itemdb new)\<lparr>rows := rows (itemdb old), recipes := recipes (itemdb old)\<rparr>\<rparr>"

definition WithTransaction :: "db_fault \<Rightarrow> 'a db_op \<Rightarrow> 'a db_op" where
  "WithTransaction fault fn = (\<lambda>st.
     if fault (calls st) then (Inl (Errorf ''failed to begin transaction''), count_call st)
     else case fn (count_call st) of
       (Inl e, st') \<Rightarrow> (Inl (if fault (calls st') then Wrapped ''transaction error'' e else e), rolled_back st (count_call st'))
     | (Inr a, st') \<Rightarrow>
         if fault (calls st') then (Inl (Errorf ''commit''), rolled_back st (count_call st'))
         else (Inr a, count_call st'))"

section \<open>The repository of characters\<close>

definition char_rows :: "game_db \<Rightarrow> Character list" where
  "char_rows st = map snd (chars st)"

definition GetByAccount :: "db_fault \<Rightarrow> string \<Rightarrow> Character list db_op" where
  "GetByAccount fault accountName = db_query fault ''failed to query characters''
     (\<lambda>st. sort_key CharSlot (filter (\<lambda>c. AccountName c = accountName) (char_rows st)))"

definition GetByAccountSlotID :: "db_fault \<Rightarrow> string \<Rightarrow> int \<Rightarrow> Character option db_op" where
  "GetByAccountSlotID fault accountName charSlot = db_query fault ''failed to get character by account slotID''
     (\<lambda>st. find (\<lambda>c. CharSlot c = charSlot \<and> AccountName c = accountName) (char_rows st))"

definition char_GetByID :: "db_fault \<Rightarrow> int \<Rightarrow> Character option db_op" where
  "char_GetByID fault charID = db_query fault ''failed to get character by ID'' (\<lambda>st. map_of (chars st) charID)"

definition GetByName :: "db_fault \<Rightarrow> string \<Rightarrow> Character option db_op" where
  "GetByName fault name = db_query fault ''failed to get character by name''
     (\<lambda>st. find (\<lambda>c. Name c = name) (char_rows st))"

text \<open>\<open>Create\<close> returns the character with the key from the sequence, which no failure gives back.\<close>

definition char_Create :: "db_fault \<Rightarrow> int \<Rightarrow> Character \<Rightarrow> Character db_op" where
  "char_Create fault now char = (\<lambda>st.
     let i = next_char st; char = char\<lparr>ID := i, CreatedAt := now\<rparr>
     in db_bind (db_exec fault ''failed to create character'' (\<lambda>st. st\<lparr>chars := chars st @ [(i, char)]\<rparr>))
          (\<lambda>_. db_return char) (st\<lparr>next_char := i + 1\<rparr>))"

definition update_chars :: "int \<Rightarrow> (Character \<Rightarrow> Character) \<Rightarrow> game_db \<Rightarrow> game_db" where
  "update_chars charID f st = st\<lparr>chars := map (\<lambda>(i, c). (i, if i = charID then f c else c)) (chars st)\<rparr>"

text \<open>\<open>Update\<close> writes every column but the key, the account, the name and the time of creation.\<close>

definition char_Update :: "db_fault \<Rightarrow> Character \<Rightarrow> unit db_op" where
  "char_Update fault char = db_exec fault ''failed to update character''
     (update_chars (ID char)
        (\<lambda>c. char\<lparr>ID := ID c, AccountName := AccountName c, Name := Name c, CreatedAt := CreatedAt c\<rparr>))"

text \<open>The foreign keys cascade.\<close>

definition delete_char :: "int \<Rightarrow> game_db \<Rightarrow> game_db" where
  "delete_char charID st = st\<lparr>
     chars := filter (\<lambda>(i, _). i \<noteq> charID) (chars st),
     char_skills := filter (\<lambda>((c, _), _). c \<noteq> charID) (char_skills st),
     char_shortcuts := filter (\<lambda>((c, _), _). c \<noteq> charID) (char_shortcuts st),
     itemdb := (itemdb st)\<lparr>rows := filter (\<lambda>(_, r). OwnerID r \<noteq> charID) (rows (itemdb st)),
       recipes := filter (\<lambda>(c, _). c \<noteq> charID) (recipes (itemdb st))\<rparr>\<rparr>"

definition char_Delete :: "db_fault \<Rightarrow> int \<Rightarrow> unit db_op" where
  "char_Delete fault charID = db_exec fault ''failed to delete character'' (delete_char charID)"

definition to_lower_char :: "char \<Rightarrow> char" where
  "to_lower_char c = (let n = of_char c :: nat in if 65 \<le> n \<and> n \<le> 90 then char_of (n + 32) else c)"

definition ToLower :: "string \<Rightarrow> string" where
  "ToLower s = map to_lower_char s"

definition is_space :: "char \<Rightarrow> bool" where
  "is_space c \<longleftrightarrow> (of_char c :: nat) \<in> {9, 10, 11, 12, 13, 32}"

definition TrimSpace :: "string \<Rightarrow> string" where
  "TrimSpace s = rev (dropWhile is_space (rev (dropWhile is_space s)))"

definition NormalizeAccountName :: "string \<Rightarrow> string" where
  "NormalizeAccountName name = ToLower (TrimSpace name)"

definition GetCount :: "db_fault \<Rightarrow> string \<Rightarrow> (nat \<times> nat) db_op" where
  "GetCount fault accountName = db_query fault ''failed to get character count''
     (\<lambda>st. let cs = filter (\<lambda>c. ToLower (AccountName c) = ToLower accountName) (char_rows st)
           in (length cs, length (filter (\<lambda>c. DeleteTime c > 0) cs)))"

definition IsNameTaken :: "db_fault \<Rightarrow> string \<Rightarrow> bool db_op" where
  "IsNameTaken fault name = db_query fault ''failed to check name availability''
     (\<lambda>st. length (filter (\<lambda>c. Name c = name) (char_rows st)) > 0)"

definition GetBySlot :: "db_fault \<Rightarrow> string \<Rightarrow> int \<Rightarrow> Character option db_op" where
  "GetBySlot fault accountName slot = db_bind (GetByAccount fault accountName)
     (\<lambda>cs. db_return (find (\<lambda>c. CharSlot c = slot) cs))"

definition GetMaxSlot :: "db_fault \<Rightarrow> string \<Rightarrow> int db_op" where
  "GetMaxSlot fault accountName = db_query fault ''failed to get max slot''
     (\<lambda>st. let slots = map CharSlot (filter (\<lambda>c. AccountName c = accountName) (char_rows st))
           in if slots = [] then -1 else Max (set slots))"

text \<open>In the order of the table: the query asks for none.\<close>

definition GetDeleteCandidates :: "db_fault \<Rightarrow> int \<Rightarrow> Character list db_op" where
  "GetDeleteCandidates fault now = db_query fault ''failed to get delete candidates''
     (\<lambda>st. filter (\<lambda>c. DeleteTime c > 0 \<and> DeleteTime c \<le> now) (char_rows st))"

definition SetOnlineStatus :: "db_fault \<Rightarrow> int \<Rightarrow> bool \<Rightarrow> unit db_op" where
  "SetOnlineStatus fault charID online = db_exec fault ''failed to set online status''
     (update_chars charID (\<lambda>c. c\<lparr>OnlineStatus := online\<rparr>))"

definition UpdatePosition :: "db_fault \<Rightarrow> int \<Rightarrow> int \<Rightarrow> int \<Rightarrow> int \<Rightarrow> int \<Rightarrow> unit db_op" where
  "UpdatePosition fault charID x y z heading = db_exec fault ''failed to update position''
     (update_chars charID (\<lambda>c. c\<lparr>Position := \<lparr>X = x, Y = y, Z = z\<rparr>, Heading := heading\<rparr>))"

definition UpdateLastAccess :: "db_fault \<Rightarrow> int \<Rightarrow> int \<Rightarrow> unit db_op" where
  "UpdateLastAccess fault now charID = db_exec fault ''failed to update last access''
     (update_chars charID (\<lambda>c. c\<lparr>LastAccess := now\<rparr>))"

definition UpdateExperience :: "db_fault \<Rightarrow> int \<Rightarrow> int \<Rightarrow> int \<Rightarrow> unit db_op" where
  "UpdateExperience fault charID experience sp = db_exec fault ''failed to update experience''
     (update_chars charID (\<lambda>c. c\<lparr>Experience := experience, SP := sp\<rparr>))"

definition UpdateKarma :: "db_fault \<Rightarrow> int \<Rightarrow> int \<Rightarrow> unit db_op" where
  "UpdateKarma fault charID karma = db_exec fault ''failed to update karma''
     (update_chars charID (\<lambda>c. c\<lparr>Karma := karma\<rparr>))"

section \<open>The repositories of skills and shortcuts\<close>

definition skill_GetByCharacter :: "db_fault \<Rightarrow> int \<Rightarrow> (int \<times> int) list db_op" where
  "skill_GetByCharacter fault charID = db_query fault ''failed to query character skills''
     (\<lambda>st. sort_key fst (map (\<lambda>((_, s), l). (s, l)) (filter (\<lambda>((c, _), _). c = charID) (char_skills st))))"

definition GetSkill :: "db_fault \<Rightarrow> int \<Rightarrow> int \<Rightarrow> int option db_op" where
  "GetSkill fault charID skillID = db_query fault ''failed to get skill'' (\<lambda>st. map_of (char_skills st) (charID, skillID))"

definition LearnSkill :: "db_fault \<Rightarrow> int \<Rightarrow> int \<Rightarrow> int \<Rightarrow> unit db_op" where
  "LearnSkill fault charID skillID level = db_exec fault ''failed to learn skill''
     (\<lambda>st. st\<lparr>char_skills := AList.update (charID, skillID) level (char_skills st)\<rparr>)"

definition UpdateSkill :: "db_fault \<Rightarrow> int \<Rightarrow> int \<Rightarrow> int \<Rightarrow> unit db_op" where
  "UpdateSkill fault charID skillID level = db_exec fault ''failed to update skill''
     (\<lambda>st. st\<lparr>char_skills := map (\<lambda>(k, l). (k, if k = (charID, skillID) then level else l)) (char_skills st)\<rparr>)"

definition ForgetSkill :: "db_fault \<Rightarrow> int \<Rightarrow> int \<Rightarrow> unit db_op" where
  "ForgetSkill fault charID skillID = db_exec fault ''failed to forget skill''
     (\<lambda>st. st\<lparr>char_skills := filter (\<lambda>(k, _). k \<noteq> (charID, skillID)) (char_skills st)\<rparr>)"

definition skill_DeleteByCharacter :: "db_fault \<Rightarrow> int \<Rightarrow> unit db_op" where
  "skill_DeleteByCharacter fault charID = db_exec fault ''failed to delete character skills''
     (\<lambda>st. st\<lparr>char_skills := filter (\<lambda>((c, _), _). c \<noteq> charID) (char_skills st)\<rparr>)"

definition HasSkill :: "db_fault \<Rightarrow> int \<Rightarrow> int \<Rightarrow> bool db_op" where
  "HasSkill fault charID skillID = db_query fault ''failed to check skill existence''
     (\<lambda>st. length (filter (\<lambda>(k, _). k = (charID, skillID)) (char_skills st)) > 0)"

definition GetSkillLevel :: "db_fault \<Rightarrow> int \<Rightarrow> int \<Rightarrow> int db_op" where
  "GetSkillLevel fault charID skillID = db_query fault ''failed to get skill level''
     (\<lambda>st. case map_of (char_skills st) (charID, skillID) of None \<Rightarrow> 0 | Some l \<Rightarrow> l)"

text \<open>The type is not looked at, as the comment of the code says.\<close>

definition GetSkillsByType :: "db_fault \<Rightarrow> int \<Rightarrow> int \<Rightarrow> (int \<times> int) list db_op" where
  "GetSkillsByType fault charID skillType = skill_GetByCharacter fault charID"

definition shortcuts_where :: "(CharacterShortcut \<Rightarrow> bool) \<Rightarrow> game_db \<Rightarrow> CharacterShortcut list" where
  "shortcuts_where P st = filter P (map snd (char_shortcuts st))"

definition shortcut_GetByCharacter :: "db_fault \<Rightarrow> int \<Rightarrow> CharacterShortcut list db_op" where
  "shortcut_GetByCharacter fault charID = db_query fault ''failed to query character shortcuts''
     (\<lambda>st. sort_key (\<lambda>s. (scPage s, scSlot s)) (shortcuts_where (\<lambda>s. scCharID s = charID) st))"

definition GetByPage :: "db_fault \<Rightarrow> int \<Rightarrow> int \<Rightarrow> CharacterShortcut list db_op" where
  "GetByPage fault charID page = db_query fault ''failed to query shortcuts by page''
     (\<lambda>st. sort_key scSlot (shortcuts_where (\<lambda>s. scCharID s = charID \<and> scPage s = page) st))"

definition shortcut_GetBySlot :: "db_fault \<Rightarrow> int \<Rightarrow> int \<Rightarrow> int \<Rightarrow> CharacterShortcut option db_op" where
  "shortcut_GetBySlot fault charID slot page = db_query fault ''failed to get shortcut by slot''
     (\<lambda>st. map_of (char_shortcuts st) (charID, slot, page))"

definition SetShortcut :: "db_fault \<Rightarrow> CharacterShortcut \<Rightarrow> unit db_op" where
  "SetShortcut fault sc = db_exec fault ''failed to set shortcut''
     (\<lambda>st. st\<lparr>char_shortcuts := AList.update (scCharID sc, scSlot sc, scPage sc) sc (char_shortcuts st)\<rparr>)"

definition shortcut_Delete :: "db_fault \<Rightarrow> int \<Rightarrow> int \<Rightarrow> int \<Rightarrow> unit db_op" where
  "shortcut_Delete fault charID slot page = db_exec fault ''failed to delete shortcut''
     (\<lambda>st. st\<lparr>char_shortcuts := filter (\<lambda>(k, _). k \<noteq> (charID, slot, page)) (char_shortcuts st)\<rparr>)"

definition shortcut_DeleteByCharacter :: "db_fault \<Rightarrow> int \<Rightarrow> unit db_op" where
  "shortcut_DeleteByCharacter fault charID = db_exec fault ''failed to delete character shortcuts''
     (\<lambda>st. st\<lparr>char_shortcuts := filter (\<lambda>((c, _), _). c \<noteq> charID) (char_shortcuts st)\<rparr>)"

definition ClearPage :: "db_fault \<Rightarrow> int \<Rightarrow> int \<Rightarrow> unit db_op" where
  "ClearPage fault charID page = db_exec fault ''failed to clear shortcut page''
     (\<lambda>st. st\<lparr>char_shortcuts := filter (\<lambda>((c, _, p), _). \<not> (c = charID \<and> p = page)) (char_shortcuts st)\<rparr>)"

definition GetMaxPage :: "db_fault \<Rightarrow> int \<Rightarrow> int db_op" where
  "GetMaxPage fault charID = db_query fault ''failed to get max shortcut page''
     (\<lambda>st. let ps = map scPage (shortcuts_where (\<lambda>s. scCharID s = charID) st) in if ps = [] then 0 else Max (set ps))"

end
