(* ===== verification/CharacterUseCase.thy ===== *)
theory CharacterUseCase
  imports Characters
begin

text \<open>
  The use case of characters (\<open>usecase/character.go\<close>) and its handlers (\<open>handlers/client/character.go\<close>):
  listing, creating, selecting and deleting. A handler's result says whether it returned an error, which
  closes the connection; what it sends is the list of packets.
\<close>

section \<open>Listing\<close>

definition GetCharacterList :: "db_fault \<Rightarrow> string \<Rightarrow> Character list db_op" where
  "GetCharacterList fault accountName = db_wrap ''failed to get character list'' (GetByAccount fault accountName)"

text \<open>A failed query for the paperdoll of one character leaves that entry without items.\<close>

fun list_entries :: "db_fault \<Rightarrow> int \<Rightarrow> Character list \<Rightarrow> CharacterListEntry list db_op" where
  "list_entries fault now [] = db_return []"
| "list_entries fault now (c # cs) =
     db_bind (db_try (on_items (GetPaperdoll fault (ID c)))) (\<lambda>its.
     db_bind (list_entries fault now cs) (\<lambda>es.
       db_return ((case its of Inl _ \<Rightarrow> ToListEntry now c | Inr l \<Rightarrow> (ToListEntry now c)\<lparr>lePaperdollItems := l\<rparr>) # es)))"

definition GetCharacterListEntries :: "db_fault \<Rightarrow> int \<Rightarrow> string \<Rightarrow> CharacterListEntry list db_op" where
  "GetCharacterListEntries fault now accountName =
     db_bind (GetCharacterList fault accountName) (list_entries fault now)"

section \<open>Creating\<close>

record CharacterCreateRequest =
  reqAccountName :: string
  reqName :: string
  reqRace :: int
  reqSex :: int
  reqClassID :: int
  reqHairStyle :: int
  reqHairColor :: int
  reqFace :: int

definition is_letter :: "char \<Rightarrow> bool" where
  "is_letter c \<longleftrightarrow> (let n = of_char c :: nat in (97 \<le> n \<and> n \<le> 122) \<or> (65 \<le> n \<and> n \<le> 90))"

definition reservedNames :: "string list" where
  "reservedNames = [''admin'', ''gm'', ''mod'', ''moderator'', ''support'']"

text \<open>A byte that is not ASCII decodes to a rune that is no letter either.\<close>

definition validateCharacterName :: "string \<Rightarrow> bool" where
  "validateCharacterName name \<longleftrightarrow>
     \<not> (length name < 1 \<or> length name > 16) \<and> list_all is_letter name \<and> ToLower name \<notin> set reservedNames"

definition db_guard :: "bool \<Rightarrow> char_error \<Rightarrow> unit db_op" where
  "db_guard b e = (if b then db_return () else db_fail e)"

definition validateCharacterCreation :: "db_fault \<Rightarrow> CharacterCreateRequest \<Rightarrow> unit db_op" where
  "validateCharacterCreation fault req =
     db_bind (db_guard (validateCharacterName (reqName req)) ErrInvalidCharacterName) (\<lambda>_.
     db_bind (db_wrap ''failed to check name availability'' (IsNameTaken fault (reqName req))) (\<lambda>taken.
     db_bind (db_guard (\<not> taken) ErrCharacterExists) (\<lambda>_.
     db_bind (db_guard (isValidRace (reqRace req)) ErrInvalidRace) (\<lambda>_.
     db_bind (db_guard (isValidSex (reqSex req)) ErrInvalidSex) (\<lambda>_.
     db_bind (db_guard (isValidClassForRace (reqRace req) (reqClassID req)) ErrInvalidClass) (\<lambda>_.
     db_bind (db_wrap ''failed to check character count'' (GetCount fault (reqAccountName req))) (\<lambda>(total, _).
       db_guard (\<not> total \<ge> 7) ErrTooManyCharacters)))))))"

definition free_slot :: "Character list \<Rightarrow> int option" where
  "free_slot cs = find (\<lambda>s. s \<notin> CharSlot ` set cs) [0..6]"

definition findAvailableSlot :: "db_fault \<Rightarrow> string \<Rightarrow> int db_op" where
  "findAvailableSlot fault accountName =
     db_bind (GetByAccount fault accountName) (\<lambda>cs.
       case free_slot cs of Some slot \<Rightarrow> db_return slot | None \<Rightarrow> db_fail (Errorf ''no available character slots''))"

definition buildNewCharacter :: "int \<Rightarrow> CharacterCreateRequest \<Rightarrow> CharacterTemplate \<Rightarrow> int \<Rightarrow> Character" where
  "buildNewCharacter now req t slot =
     (let b = tBaseStats t; maxHP = ComputeMaxHP (stHP b) (stCON b); maxMP = ComputeMaxMP (stMP b) (stMEN b);
          maxCP = ComputeMaxCP (stCP b) (stCON b)
      in \<lparr>ID = 0, AccountName = reqAccountName req, Name = reqName req, Level = 1,
          MaxHP = maxHP, CurrentHP = of_int maxHP, MaxMP = maxMP, CurrentMP = of_int maxMP, MaxCP = maxCP, CurrentCP = maxCP,
          Face = reqFace req, HairStyle = reqHairStyle req, HairColor = reqHairColor req, Sex = reqSex req,
          Experience = 0, SP = 0, Karma = 0, PKKills = 0, PvPKills = 0, ClanID = 0,
          Race = reqRace req, ClassID = reqClassID req, BaseClass = reqClassID req, DeleteTime = 0,
          VitalityPoints = 2000, AccessLevel = 0, Position = tStartingPosition t, Heading = 0,
          CreatedAt = now, LastAccess = now, OnlineTime = 0, OnlineStatus = False, CharSlot = slot,
          Newbie = True, Noble = False, Hero = False, HeroEndDate = None, DeathPenaltyLevel = 0, Title = '''',
          RecHave = 0, RecLeft = 10, Fame = 0, FishingPoints = 0,
          PaperdollItems = replicate 26 0, PaperdollObjectIDs = replicate 26 0,
          BaseSTR = stSTR b, BaseDEX = stDEX b, BaseCON = stCON b, BaseINT = stINT b, BaseWIT = stWIT b, BaseMEN = stMEN b\<rparr>)"

definition starting_item :: "int \<Rightarrow> StartingItemData \<Rightarrow> CharacterItem" where
  "starting_item charID d = \<lparr>ObjectID = 0, OwnerID = charID, ItemID = siItemID d, Count = siCount d,
     Loc = siLocation d, LocData = siLocData d, EnchantLevel = 0, CustomType1 = 0, CustomType2 = 0, ManaLeft = 0,
     ExpireTime = 0, AugmentationID = 0, AugmentationSkill1 = 0, AugmentationSkill2 = 0, AttributeFire = 0,
     AttributeWater = 0, AttributeWind = 0, AttributeEarth = 0, AttributeHoly = 0, AttributeDark = 0, VisualID = 0,
     IsBlessed = False, IsProtected = False\<rparr>"

fun createStartingItems :: "db_fault \<Rightarrow> int \<Rightarrow> StartingItemData list \<Rightarrow> unit db_op" where
  "createStartingItems fault charID [] = db_return ()"
| "createStartingItems fault charID (d # ds) =
     db_bind (db_wrap ''failed to create starting item'' (on_items (item_Create fault (starting_item charID d)))) (\<lambda>_.
       createStartingItems fault charID ds)"

text \<open>The skills that are missing, or known at a lower level, in the order of the tree.\<close>

fun grant_loop :: "db_fault \<Rightarrow> int \<Rightarrow> (int, int) go_map \<Rightarrow> (int \<times> int) list \<Rightarrow> (int \<times> int) list db_op" where
  "grant_loop fault charID have [] = db_return []"
| "grant_loop fault charID have ((s, level) # desired) =
     (if (case map_of have s of Some lvl \<Rightarrow> lvl \<ge> level | None \<Rightarrow> False) then grant_loop fault charID have desired
      else db_bind (db_wrap ''failed to grant auto-get skill'' (LearnSkill fault charID s level)) (\<lambda>_.
           db_bind (grant_loop fault charID have desired) (\<lambda>granted. db_return ((s, level) # granted))))"

definition grantAutoGetSkills
    :: "db_fault \<Rightarrow> SkillTreeData \<Rightarrow> Character \<Rightarrow> (int \<times> int) list \<Rightarrow> (int \<times> int) list db_op" where
  "grantAutoGetSkills fault tree char existing =
     (let desired = AutoGetSkills tree (ClassID char) (Level char)
      in if desired = [] then db_return []
         else grant_loop fault (ID char) (fold (\<lambda>(s, l). AList.update s l) existing []) desired)"

definition ReconcileAutoGetSkills :: "db_fault \<Rightarrow> SkillTreeData \<Rightarrow> Character \<Rightarrow> (int \<times> int) list db_op" where
  "ReconcileAutoGetSkills fault tree char =
     db_bind (skill_GetByCharacter fault (ID char)) (grantAutoGetSkills fault tree char)"

definition CreateCharacter :: "db_fault \<Rightarrow> int \<Rightarrow> SkillTreeData \<Rightarrow> CharacterCreateRequest \<Rightarrow> Character db_op" where
  "CreateCharacter fault now tree req =
     (let req = req\<lparr>reqAccountName := NormalizeAccountName (reqAccountName req)\<rparr>
      in db_bind (validateCharacterCreation fault req) (\<lambda>_.
           case getCharacterTemplate (reqRace req) (reqClassID req) of
             None \<Rightarrow> db_fail (Errorf ''invalid race/class combination'')
           | Some t \<Rightarrow>
               db_bind (findAvailableSlot fault (reqAccountName req)) (\<lambda>slot.
                 WithTransaction fault
                   (db_bind (db_wrap ''failed to create character'' (char_Create fault now (buildNewCharacter now req t slot))) (\<lambda>char.
                    db_bind (db_wrap ''failed to create starting items'' (createStartingItems fault (ID char) (tStartingItems t))) (\<lambda>_.
                    db_bind (db_wrap ''failed to grant starting skills'' (grantAutoGetSkills fault tree char [])) (\<lambda>_.
                      db_return char)))))))"

section \<open>Selecting\<close>

text \<open>
  The number is looked up as a slot. The time of the last access goes to the row whose key is that number;
  an error there is ignored.
\<close>

definition wear :: "CharacterItem \<Rightarrow> Character \<Rightarrow> Character" where
  "wear item c =
     (if LocData item \<ge> 0 \<and> LocData item < int (length (PaperdollItems c))
      then c\<lparr>PaperdollItems := (PaperdollItems c)[nat (LocData item) := ItemID item],
             PaperdollObjectIDs := (PaperdollObjectIDs c)[nat (LocData item) := ObjectID item]\<rparr>
      else c)"

definition SelectCharacter :: "db_fault \<Rightarrow> int \<Rightarrow> int \<Rightarrow> string \<Rightarrow> Character db_op" where
  "SelectCharacter fault now charID accountName =
     db_bind (db_wrap ''failed to load character'' (GetByAccountSlotID fault accountName charID)) (\<lambda>row.
       case row of
         None \<Rightarrow> db_fail ErrCharacterNotFound
       | Some char \<Rightarrow>
           db_bind (db_guard (AccountName char = accountName) (Errorf ''character does not belong to account'')) (\<lambda>_.
           db_bind (db_guard (\<not> (IsMarkedForDeletion char \<and> \<not> CanBeDeleted now char))
                     (Errorf ''character is marked for deletion'')) (\<lambda>_.
           db_bind (db_try (UpdateLastAccess fault now charID)) (\<lambda>_.
           db_bind (db_wrap ''failed to load character items'' (on_items (GetPaperdoll fault (ID char)))) (\<lambda>its.
             db_return (fold wear its char))))))"

section \<open>Deleting\<close>

definition permanentlyDeleteCharacter :: "db_fault \<Rightarrow> int \<Rightarrow> unit db_op" where
  "permanentlyDeleteCharacter fault charID = WithTransaction fault
     (db_bind (db_wrap ''failed to delete character items'' (on_items (item_DeleteByCharacter fault charID))) (\<lambda>_.
      db_bind (db_wrap ''failed to delete character skills'' (skill_DeleteByCharacter fault charID)) (\<lambda>_.
      db_bind (db_wrap ''failed to delete character shortcuts'' (shortcut_DeleteByCharacter fault charID)) (\<lambda>_.
        db_wrap ''failed to delete character'' (char_Delete fault charID)))))"

definition load_own :: "db_fault \<Rightarrow> int \<Rightarrow> string \<Rightarrow> Character db_op" where
  "load_own fault charID accountName =
     db_bind (db_wrap ''failed to load character'' (char_GetByID fault charID)) (\<lambda>row.
       case row of
         None \<Rightarrow> db_fail ErrCharacterNotFound
       | Some char \<Rightarrow> db_bind (db_guard (AccountName char = accountName) (Errorf ''character does not belong to account''))
                        (\<lambda>_. db_return char))"

definition seven_days :: int where
  "seven_days = 7 * 24 * 3600"

definition DeleteCharacter :: "db_fault \<Rightarrow> int \<Rightarrow> int \<Rightarrow> string \<Rightarrow> unit db_op" where
  "DeleteCharacter fault now charID accountName =
     db_bind (load_own fault charID accountName) (\<lambda>char.
       if CanBeDeleted now char then permanentlyDeleteCharacter fault charID
       else db_wrap ''failed to mark character for deletion'' (char_Update fault (MarkForDeletion now seven_days char)))"

definition CancelCharacterDeletion :: "db_fault \<Rightarrow> int \<Rightarrow> string \<Rightarrow> unit db_op" where
  "CancelCharacterDeletion fault charID accountName =
     db_bind (load_own fault charID accountName) (\<lambda>char.
     db_bind (db_guard (IsMarkedForDeletion char) (Errorf ''character is not marked for deletion'')) (\<lambda>_.
       db_wrap ''failed to cancel character deletion'' (char_Update fault (CancelDeletion char))))"

fun delete_each :: "db_fault \<Rightarrow> Character list \<Rightarrow> nat db_op" where
  "delete_each fault [] = db_return 0"
| "delete_each fault (c # cs) =
     db_bind (db_try (permanentlyDeleteCharacter fault (ID c))) (\<lambda>r.
     db_bind (delete_each fault cs) (\<lambda>n. db_return (case r of Inl _ \<Rightarrow> n | Inr _ \<Rightarrow> n + 1)))"

definition ProcessScheduledDeletions :: "db_fault \<Rightarrow> int \<Rightarrow> nat db_op" where
  "ProcessScheduledDeletions fault now =
     db_bind (db_wrap ''failed to get delete candidates'' (GetDeleteCandidates fault now)) (delete_each fault)"

section \<open>What every operation keeps\<close>

definition same_tables :: "game_db \<Rightarrow> game_db \<Rightarrow> bool" where
  "same_tables st st' \<longleftrightarrow> chars st' = chars st \<and> char_skills st' = char_skills st
     \<and> char_shortcuts st' = char_shortcuts st \<and> rows (itemdb st') = rows (itemdb st)
     \<and> recipes (itemdb st') = recipes (itemdb st)"

lemma same_tables_refl [simp]: "same_tables st st"
  by (simp add: same_tables_def)

lemma same_tables_trans: "same_tables a b \<Longrightarrow> same_tables b c \<Longrightarrow> same_tables a c"
  by (simp add: same_tables_def)

lemma same_tables_count [simp]:
  "same_tables st (count_call st') \<longleftrightarrow> same_tables st st'" "same_tables (count_call st) st' \<longleftrightarrow> same_tables st st'"
  by (simp_all add: same_tables_def count_call_def)

lemma same_tables_rolled_back [simp]: "same_tables old (rolled_back old new)"
  by (simp add: same_tables_def rolled_back_def)

lemma db_ok_same: "same_tables st st' \<Longrightarrow> db_ok st' = db_ok st"
  by (simp add: same_tables_def db_ok_def owners_def)

lemma count_call_tables [simp]:
  "chars (count_call st) = chars st" "char_skills (count_call st) = char_skills st"
  "char_shortcuts (count_call st) = char_shortcuts st" "rows (itemdb (count_call st)) = rows (itemdb st)"
  "recipes (itemdb (count_call st)) = recipes (itemdb st)" "next_char (count_call st) = next_char st"
  "next_object (itemdb (count_call st)) = next_object (itemdb st)"
  by (simp_all add: count_call_def)

text \<open>An operation of the items that leaves the tables alone when it fails, and the recipes always.\<close>

definition table_op :: "'a item_op \<Rightarrow> bool" where
  "table_op m \<longleftrightarrow> (\<forall>i. recipes (snd (m i)) = recipes i \<and> (isl (fst (m i)) \<longrightarrow> rows (snd (m i)) = rows i))"

lemma table_op_query [simp]: "table_op (query fault msg f)"
  by (simp add: table_op_def query_def Let_def)

lemma table_op_exec [simp]: "table_op (exec fault msg f)"
  by (simp add: table_op_def exec_def Let_def)

lemma table_op_items [simp]:
  "table_op (GetPaperdoll fault c)" "table_op (item_DeleteByCharacter fault c)"
  by (simp_all add: GetPaperdoll_def item_DeleteByCharacter_def)

lemma table_op_Create [simp]: "table_op (item_Create fault item)"
  by (simp add: table_op_def item_Create_def item_bind_def item_return_def exec_def Let_def)

text \<open>\<open>db_keeps P m\<close>: the operation \<open>m\<close> takes databases with \<open>P\<close> to such databases, whatever fails.\<close>

definition db_keeps :: "(game_db \<Rightarrow> bool) \<Rightarrow> 'a db_op \<Rightarrow> bool" where
  "db_keeps P m \<longleftrightarrow> (\<forall>st. P st \<longrightarrow> P (snd (m st)))"

locale table_property =
  fixes P :: "game_db \<Rightarrow> bool"
  assumes same: "same_tables st st' \<Longrightarrow> P st \<Longrightarrow> P st'"
begin

lemma keeps_return: "db_keeps P (db_return a)"
  by (simp add: db_keeps_def db_return_def)

lemma keeps_fail: "db_keeps P (db_fail e)"
  by (simp add: db_keeps_def db_fail_def)

lemma keeps_guard: "db_keeps P (db_guard b e)"
  by (simp add: db_guard_def keeps_return keeps_fail)

lemma keeps_bind: "db_keeps P m \<Longrightarrow> (\<And>a. db_keeps P (f a)) \<Longrightarrow> db_keeps P (db_bind m f)"
  unfolding db_keeps_def db_bind_def by (fastforce split: prod.splits sum.splits)

lemma keeps_wrap: "db_keeps P m \<Longrightarrow> db_keeps P (db_wrap msg m)"
  unfolding db_keeps_def db_wrap_def by (fastforce split: prod.splits sum.splits)

lemma keeps_try: "db_keeps P m \<Longrightarrow> db_keeps P (db_try m)"
  unfolding db_keeps_def db_try_def by (fastforce split: prod.splits)

lemma keeps_query: "db_keeps P (db_query fault msg f)"
proof -
  have "P (count_call st)" if "P st" for st by (rule same [OF _ that]) simp
  then show ?thesis by (simp add: db_keeps_def db_query_def)
qed

lemma keeps_exec: "(\<And>st. P st \<Longrightarrow> db_ok (f st) \<Longrightarrow> P (f st)) \<Longrightarrow> db_keeps P (db_exec fault msg f)"
proof -
  assume f: "\<And>st. P st \<Longrightarrow> db_ok (f st) \<Longrightarrow> P (f st)"
  have count: "P (count_call st)" if "P st" for st by (rule same [OF _ that]) simp
  show ?thesis by (auto simp: db_keeps_def db_exec_def intro: count f)
qed

lemma keeps_transaction: "db_keeps P m \<Longrightarrow> db_keeps P (WithTransaction fault m)"
proof -
  assume m: "db_keeps P m"
  have "P (snd (WithTransaction fault m st))" if "P st" for st
  proof -
    have "P (count_call st)" by (rule same [OF _ that]) simp
    then have step: "P (snd (m (count_call st)))" using m by (simp add: db_keeps_def)
    have undo: "P (rolled_back st x)" for x by (rule same [OF _ that]) simp
    show ?thesis using that \<open>P (count_call st)\<close> step undo
      by (auto simp: WithTransaction_def split: prod.splits sum.splits intro: same [rotated])
  qed
  then show ?thesis by (simp add: db_keeps_def)
qed

end

interpretation dbok: table_property db_ok
  by unfold_locales (simp add: db_ok_same)

lemma dbok_exec: "db_keeps db_ok (db_exec fault msg f)"
  by (rule dbok.keeps_exec)

lemma dbok_on_items: "table_op m \<Longrightarrow> db_keeps db_ok (on_items m)"
proof -
  assume m: "table_op m"
  have "db_ok (snd (on_items m st))" if ok: "db_ok st" for st
  proof (cases "m (itemdb st)")
    case (Pair r i)
    have rec: "recipes i = recipes (itemdb st)" and same: "isl r \<longrightarrow> rows i = rows (itemdb st)"
      using m Pair unfolding table_op_def by (metis fst_conv snd_conv)+
    have "db_ok (st\<lparr>itemdb := i\<lparr>rows := rows (itemdb st), recipes := recipes (itemdb st)\<rparr>\<rparr>)"
      by (rule iffD2 [OF db_ok_same ok]) (simp add: same_tables_def)
    moreover have "db_ok (st\<lparr>itemdb := i\<rparr>)" if "isl r"
      by (rule iffD2 [OF db_ok_same ok]) (use rec same that in \<open>simp add: same_tables_def\<close>)
    ultimately show ?thesis using Pair by (cases r) (simp_all add: on_items_def)
  qed
  then show ?thesis by (simp add: db_keeps_def)
qed

lemmas dbok_rules = dbok.keeps_return dbok.keeps_fail dbok.keeps_guard dbok.keeps_bind dbok.keeps_wrap dbok.keeps_try
  dbok.keeps_query dbok.keeps_transaction dbok_exec dbok_on_items

lemma dbok_char_Create: "db_keeps db_ok (char_Create fault now char)"
proof -
  have "db_ok (snd (char_Create fault now char st))" if "db_ok st" for st
  proof -
    have "db_ok (st\<lparr>next_char := next_char st + 1\<rparr>)"
      by (rule iffD2 [OF db_ok_same that]) (simp add: same_tables_def)
    moreover have "db_keeps db_ok (db_bind (db_exec fault msg f) (\<lambda>_. db_return c))" for msg f and c :: Character
      by (intro dbok_rules)
    ultimately show ?thesis by (simp add: char_Create_def db_keeps_def Let_def)
  qed
  then show ?thesis by (simp add: db_keeps_def)
qed

lemma dbok_createStartingItems: "db_keeps db_ok (createStartingItems fault c ds)"
  by (induction ds) (auto intro!: dbok_rules)

lemma dbok_grant_loop: "db_keeps db_ok (grant_loop fault c have desired)"
  by (induction desired) (auto simp: LearnSkill_def split: option.splits intro!: dbok_rules)

lemma dbok_CreateCharacter: "db_keeps db_ok (CreateCharacter fault now tree req)"
  unfolding CreateCharacter_def Let_def validateCharacterCreation_def IsNameTaken_def GetCount_def findAvailableSlot_def
    GetByAccount_def grantAutoGetSkills_def
  by (auto split: option.splits prod.splits intro!: dbok_rules dbok_char_Create dbok_createStartingItems dbok_grant_loop)

lemma dbok_permanentlyDelete: "db_keeps db_ok (permanentlyDeleteCharacter fault c)"
  unfolding permanentlyDeleteCharacter_def skill_DeleteByCharacter_def shortcut_DeleteByCharacter_def char_Delete_def
  by (auto intro!: dbok_rules)

lemma dbok_DeleteCharacter: "db_keeps db_ok (DeleteCharacter fault now c account)"
  unfolding DeleteCharacter_def load_own_def char_GetByID_def char_Update_def
  by (auto split: option.splits intro!: dbok_rules dbok_permanentlyDelete)

lemma dbok_CancelCharacterDeletion: "db_keeps db_ok (CancelCharacterDeletion fault c account)"
  unfolding CancelCharacterDeletion_def load_own_def char_GetByID_def char_Update_def
  by (auto split: option.splits intro!: dbok_rules)

lemma dbok_delete_each: "db_keeps db_ok (delete_each fault cs)"
  by (induction cs) (auto intro!: dbok_rules dbok_permanentlyDelete)

lemma dbok_ProcessScheduledDeletions: "db_keeps db_ok (ProcessScheduledDeletions fault now)"
  unfolding ProcessScheduledDeletions_def GetDeleteCandidates_def by (auto intro!: dbok_rules dbok_delete_each)

lemma dbok_SelectCharacter: "db_keeps db_ok (SelectCharacter fault now slot account)"
  unfolding SelectCharacter_def GetByAccountSlotID_def UpdateLastAccess_def
  by (auto split: option.splits intro!: dbok_rules)

section \<open>The characters of an account\<close>

definition names_ok :: "game_db \<Rightarrow> bool" where
  "names_ok st \<longleftrightarrow> list_all (\<lambda>(_, c). validateCharacterName (Name c) \<and> NormalizeAccountName (AccountName c) = AccountName c) (chars st)"

text \<open>A property of the characters alone.\<close>

locale chars_property = table_property +
  assumes only_chars: "chars st' = chars st \<Longrightarrow> P st \<Longrightarrow> P st'"
begin

lemma keeps_on_items: "db_keeps P (on_items m)"
  by (auto simp: db_keeps_def on_items_def split: prod.splits sum.splits intro: only_chars [rotated])

lemma keeps_other_table: "(\<And>st. chars (f st) = chars st) \<Longrightarrow> db_keeps P (db_exec fault msg f)"
  by (rule keeps_exec) (auto intro: only_chars [rotated])

lemma keeps_sequence: "P st \<Longrightarrow> P (st\<lparr>next_char := i\<rparr>)"
  by (rule only_chars [rotated]) simp_all

end

interpretation names: chars_property names_ok
  by unfold_locales (simp_all add: names_ok_def same_tables_def)

lemmas names_rules = names.keeps_return names.keeps_fail names.keeps_guard names.keeps_bind names.keeps_wrap names.keeps_try
  names.keeps_query names.keeps_transaction names.keeps_on_items

lemma names_update:
  "names_ok st \<Longrightarrow> (\<And>c. Name (f c) = Name c \<and> AccountName (f c) = AccountName c) \<Longrightarrow> names_ok (update_chars i f st)"
  by (auto simp: names_ok_def update_chars_def list_all_iff)

lemma names_delete: "names_ok st \<Longrightarrow> names_ok (delete_char i st)"
  by (auto simp: names_ok_def delete_char_def list_all_iff)

lemma names_char_Create:
  assumes "validateCharacterName (Name char)" "NormalizeAccountName (AccountName char) = AccountName char"
  shows "db_keeps names_ok (char_Create fault now char)"
proof -
  have "db_keeps names_ok (db_bind (db_exec fault msg (\<lambda>st. st\<lparr>chars := chars st @ [(i, char\<lparr>ID := i, CreatedAt := now\<rparr>)]\<rparr>)) (\<lambda>_. db_return c))"
    for msg i and c :: Character
    by (intro names_rules names.keeps_exec) (use assms in \<open>simp add: names_ok_def\<close>)
  then show ?thesis by (simp add: char_Create_def Let_def db_keeps_def names.keeps_sequence)
qed

lemma of_char_lower: "(of_char (to_lower_char c) :: nat) = (let n = of_char c in if 65 \<le> n \<and> n \<le> 90 then n + 32 else n)"
  by (simp add: to_lower_char_def Let_def)

lemma to_lower_idem [simp]: "to_lower_char (to_lower_char c) = to_lower_char c"
  by (simp add: to_lower_char_def of_char_lower Let_def)

lemma space_lower [simp]: "is_space (to_lower_char c) = is_space c"
  by (auto simp: is_space_def of_char_lower Let_def)

lemma dropWhile_space_lower: "dropWhile is_space (map to_lower_char s) = map to_lower_char (dropWhile is_space s)"
  by (simp add: dropWhile_map comp_def)

lemma Trim_lower: "TrimSpace (ToLower s) = ToLower (TrimSpace s)"
  by (simp add: TrimSpace_def ToLower_def dropWhile_space_lower rev_map)

lemma Trim_idem: "TrimSpace (TrimSpace s) = TrimSpace s"
proof -
  let ?t = "dropWhile is_space s"
  let ?u = "rev (dropWhile is_space (rev ?t))"
  have "dropWhile is_space ?u = ?u"
  proof (cases ?u)
    case (Cons a as)
    have "?u = []" if "?t = []" by (simp only: that) simp
    then have "?t \<noteq> []" using Cons by auto
    then obtain b bs where t: "?t = b # bs" by (cases ?t) auto
    then have b: "\<not> is_space b" using hd_dropWhile [of is_space s] by simp
    have "rev ?t = rev bs @ [b]" by (simp add: t)
    then have "dropWhile is_space (rev ?t) = dropWhile is_space (rev bs) @ [b]"
      using b by (cases "\<forall>x\<in>set (rev bs). is_space x") (auto simp: dropWhile_append dropWhile_eq_Nil_conv)
    then have "hd ?u = b" by simp
    then show ?thesis using Cons b by simp
  qed (simp only: dropWhile.simps)
  then show ?thesis by (simp add: TrimSpace_def dropWhile_idem)
qed

lemma Normalize_idem: "NormalizeAccountName (NormalizeAccountName s) = NormalizeAccountName s"
proof -
  have "ToLower (ToLower x) = ToLower x" for x by (simp add: ToLower_def)
  then show ?thesis by (simp add: NormalizeAccountName_def Trim_lower Trim_idem)
qed


lemma names_createStartingItems: "db_keeps names_ok (createStartingItems fault c ds)"
  by (induction ds) (auto intro!: names_rules)

lemma names_LearnSkill: "db_keeps names_ok (LearnSkill fault c s l)"
  unfolding LearnSkill_def by (rule names.keeps_other_table) simp

lemma names_grant_loop: "db_keeps names_ok (grant_loop fault c have desired)"
  by (induction desired) (auto split: option.splits intro!: names_rules names_LearnSkill)

lemma names_CreateCharacter: "db_keeps names_ok (CreateCharacter fault now tree req)"
proof -
  let ?req = "req\<lparr>reqAccountName := NormalizeAccountName (reqAccountName req)\<rparr>"
  show ?thesis
  proof (cases "validateCharacterName (reqName req)")
    case False
    then have "CreateCharacter fault now tree req st = (Inl ErrInvalidCharacterName, st)" for st
      by (simp add: CreateCharacter_def validateCharacterCreation_def db_guard_def db_bind_def db_fail_def Let_def)
    then show ?thesis by (simp add: db_keeps_def)
  next
    case True
    have "db_keeps names_ok (char_Create fault now (buildNewCharacter now ?req t slot))" for t slot
      by (rule names_char_Create) (use True in \<open>simp_all add: buildNewCharacter_def Let_def Normalize_idem\<close>)
    then show ?thesis
      unfolding CreateCharacter_def Let_def validateCharacterCreation_def IsNameTaken_def GetCount_def findAvailableSlot_def
        GetByAccount_def grantAutoGetSkills_def
      by (auto split: option.splits prod.splits intro!: names_rules names_createStartingItems names_grant_loop)
  qed
qed

lemma names_char_Update: "db_keeps names_ok (char_Update fault c)"
  unfolding char_Update_def by (rule names.keeps_exec) (rule names_update, simp_all)

lemma names_char_Delete: "db_keeps names_ok (char_Delete fault c)"
  unfolding char_Delete_def by (rule names.keeps_exec) (rule names_delete)

lemma names_permanentlyDelete: "db_keeps names_ok (permanentlyDeleteCharacter fault c)"
  unfolding permanentlyDeleteCharacter_def skill_DeleteByCharacter_def shortcut_DeleteByCharacter_def
  by (auto intro!: names_rules names_char_Delete names.keeps_other_table)

lemma names_DeleteCharacter: "db_keeps names_ok (DeleteCharacter fault now c account)"
  unfolding DeleteCharacter_def load_own_def char_GetByID_def
  by (auto split: option.splits intro!: names_rules names_permanentlyDelete names_char_Update)

lemma names_CancelCharacterDeletion: "db_keeps names_ok (CancelCharacterDeletion fault c account)"
  unfolding CancelCharacterDeletion_def load_own_def char_GetByID_def
  by (auto split: option.splits intro!: names_rules names_char_Update)

lemma names_delete_each: "db_keeps names_ok (delete_each fault cs)"
  by (induction cs) (auto intro!: names_rules names_permanentlyDelete)

lemma names_ProcessScheduledDeletions: "db_keeps names_ok (ProcessScheduledDeletions fault now)"
  unfolding ProcessScheduledDeletions_def GetDeleteCandidates_def by (auto intro!: names_rules names_delete_each)

lemma names_UpdateLastAccess: "db_keeps names_ok (UpdateLastAccess fault now c)"
  unfolding UpdateLastAccess_def by (rule names.keeps_exec) (rule names_update, simp_all)

lemma names_SelectCharacter: "db_keeps names_ok (SelectCharacter fault now slot account)"
  unfolding SelectCharacter_def GetByAccountSlotID_def
  by (auto split: option.splits intro!: names_rules names_UpdateLastAccess)

section \<open>The life of the table\<close>

text \<open>
  The operations on characters in any order, each with its own failures: creating, selecting, deleting,
  cancelling, the sweep of expired characters, the grant of missing skills at world entry, the save of a
  character that leaves the game, a shortcut that is set.
\<close>

inductive char_step :: "game_db \<Rightarrow> game_db \<Rightarrow> bool" where
  create: "char_step st (snd (CreateCharacter fault now tree req st))"
| select: "char_step st (snd (SelectCharacter fault now slot account st))"
| delete: "char_step st (snd (DeleteCharacter fault now charID account st))"
| cancel: "char_step st (snd (CancelCharacterDeletion fault charID account st))"
| sweep: "char_step st (snd (ProcessScheduledDeletions fault now st))"
| reconcile: "char_step st (snd (ReconcileAutoGetSkills fault tree char st))"
| save: "char_step st (snd (char_Update fault char st))"
| shortcut: "char_step st (snd (SetShortcut fault sc st))"

definition roster_ok :: "game_db \<Rightarrow> bool" where
  "roster_ok st \<longleftrightarrow> db_ok st \<and> names_ok st"

lemma dbok_Reconcile: "db_keeps db_ok (ReconcileAutoGetSkills fault tree char)"
  unfolding ReconcileAutoGetSkills_def grantAutoGetSkills_def skill_GetByCharacter_def
  by (auto simp: Let_def intro!: dbok_rules dbok_grant_loop)

lemma names_Reconcile: "db_keeps names_ok (ReconcileAutoGetSkills fault tree char)"
  unfolding ReconcileAutoGetSkills_def grantAutoGetSkills_def skill_GetByCharacter_def
  by (auto simp: Let_def intro!: names_rules names_grant_loop)

lemma names_SetShortcut: "db_keeps names_ok (SetShortcut fault sc)"
  unfolding SetShortcut_def by (rule names.keeps_other_table) simp

lemma roster_step: "char_step st st' \<Longrightarrow> roster_ok st \<Longrightarrow> roster_ok st'"
proof (induction rule: char_step.induct)
  case (create st fault now tree req)
  then show ?case using dbok_CreateCharacter names_CreateCharacter by (simp add: roster_ok_def db_keeps_def)
next
  case (select st fault now slot account)
  then show ?case using dbok_SelectCharacter names_SelectCharacter by (simp add: roster_ok_def db_keeps_def)
next
  case (delete st fault now charID account)
  then show ?case using dbok_DeleteCharacter names_DeleteCharacter by (simp add: roster_ok_def db_keeps_def)
next
  case (cancel st fault charID account)
  then show ?case using dbok_CancelCharacterDeletion names_CancelCharacterDeletion by (simp add: roster_ok_def db_keeps_def)
next
  case (sweep st fault now)
  then show ?case using dbok_ProcessScheduledDeletions names_ProcessScheduledDeletions by (simp add: roster_ok_def db_keeps_def)
next
  case (reconcile st fault tree char)
  then show ?case using dbok_Reconcile names_Reconcile by (simp add: roster_ok_def db_keeps_def)
next
  case (save st fault char)
  then show ?case using dbok_exec names_char_Update by (simp add: roster_ok_def db_keeps_def char_Update_def)
next
  case (shortcut st fault sc)
  then show ?case using dbok_exec names_SetShortcut by (simp add: roster_ok_def db_keeps_def SetShortcut_def)
qed

lemma roster_reachable: "char_step\<^sup>*\<^sup>* st st' \<Longrightarrow> roster_ok st \<Longrightarrow> roster_ok st'"
  by (induction rule: rtranclp_induct) (auto intro: roster_step)

definition account_chars :: "string \<Rightarrow> game_db \<Rightarrow> Character list" where
  "account_chars account st = filter (\<lambda>c. AccountName c = account) (char_rows st)"

lemma account_slots:
  assumes "db_ok st"
  shows "distinct (map CharSlot (account_chars account st))" "CharSlot ` set (account_chars account st) \<subseteq> {0..6}"
proof -
  have d: "distinct (map (\<lambda>c. (AccountName c, CharSlot c)) (char_rows st))"
    using assms by (simp add: db_ok_def char_keys_ok_def char_rows_def comp_def case_prod_unfold)
  then have "inj_on (\<lambda>c. (AccountName c, CharSlot c)) (set (char_rows st))" "distinct (char_rows st)"
    by (auto simp: distinct_map)
  then show "distinct (map CharSlot (account_chars account st))"
    by (auto simp: account_chars_def distinct_map inj_on_def)
  show "CharSlot ` set (account_chars account st) \<subseteq> {0..6}"
    using assms by (force simp: db_ok_def char_keys_ok_def char_rows_def account_chars_def list_all_iff char_row_ok_def)
qed

lemma account_bound: "db_ok st \<Longrightarrow> length (account_chars account st) \<le> 7"
proof -
  assume ok: "db_ok st"
  have "length (account_chars account st) = card (CharSlot ` set (account_chars account st))"
    using distinct_card [OF account_slots(1) [OF ok, of account]] by simp
  also have "\<dots> \<le> card {0..6::int}" by (rule card_mono) (use account_slots(2) [OF ok] in auto)
  finally show ?thesis by simp
qed

definition empty_db :: game_db where
  "empty_db = \<lparr>chars = [], next_char = 1, char_skills = [], char_shortcuts = [],
     itemdb = \<lparr>rows = [], next_object = 1, db_calls = 0, charged = [], reuse = [], auto = [],
       armed = [], recipes = [], told = []\<rparr>\<rparr>"

lemma empty_roster: "roster_ok empty_db"
  by (simp add: roster_ok_def db_ok_def names_ok_def empty_db_def char_keys_ok_def skills_ok_def map_ok_def table_ok_def
      worn_keys_def owners_def)

text \<open>
  C27: Whatever is created, selected, deleted, swept or saved in whatever order, and whatever statements
  fail on the way: an account never has more than seven characters, they lie in different slots from 0 to 6,
  every name of the server is unique, made of one to sixteen letters and not reserved, and every item, skill,
  shortcut and recipe belongs to a character that exists.
\<close>

theorem account_roster:
  assumes "char_step\<^sup>*\<^sup>* empty_db st"
  shows "length (account_chars account st) \<le> 7
    \<and> distinct (map CharSlot (account_chars account st)) \<and> CharSlot ` set (account_chars account st) \<subseteq> {0..6}
    \<and> distinct (map Name (char_rows st)) \<and> list_all (\<lambda>c. validateCharacterName (Name c)) (char_rows st)
    \<and> owners st \<subseteq> ID ` set (char_rows st)"
proof (intro conjI)
  have r: "db_ok st" "names_ok st" using roster_reachable [OF assms empty_roster] by (auto simp: roster_ok_def)
  show "length (account_chars account st) \<le> 7" by (rule account_bound [OF r(1)])
  show "distinct (map CharSlot (account_chars account st))" "CharSlot ` set (account_chars account st) \<subseteq> {0..6}"
    by (rule account_slots [OF r(1)])+
  show "distinct (map Name (char_rows st))" using r(1) by (simp add: db_ok_def char_keys_ok_def char_rows_def)
  show "list_all (\<lambda>c. validateCharacterName (Name c)) (char_rows st)"
    using r(2) by (auto simp: names_ok_def char_rows_def list_all_iff)
  have "fst ` set (chars st) \<subseteq> ID ` set (char_rows st)"
    using r(1) by (force simp: db_ok_def char_keys_ok_def char_rows_def list_all_iff)
  then show "owners st \<subseteq> ID ` set (char_rows st)" using r(1) by (auto simp: db_ok_def)
qed

section \<open>Creating is all or nothing\<close>

interpretation frame: table_property "same_tables st0" for st0
  by unfold_locales (erule (1) same_tables_trans [rotated])

lemma frame_on_items_query: "db_keeps (same_tables st0) (on_items (query fault msg f))"
  by (auto simp: db_keeps_def on_items_def query_def Let_def same_tables_def)

definition fails_clean :: "'a db_op \<Rightarrow> bool" where
  "fails_clean m \<longleftrightarrow> (\<forall>st e st'. m st = (Inl e, st') \<longrightarrow> same_tables st st')"

lemma clean_reads: "(\<And>st0. db_keeps (same_tables st0) m) \<Longrightarrow> fails_clean m"
  unfolding db_keeps_def fails_clean_def by (metis same_tables_refl snd_conv)

lemma clean_bind: "(\<And>st0. db_keeps (same_tables st0) m) \<Longrightarrow> (\<And>a. fails_clean (f a)) \<Longrightarrow> fails_clean (db_bind m f)"
proof -
  assume m: "\<And>st0. db_keeps (same_tables st0) m" and f: "\<And>a. fails_clean (f a)"
  have "same_tables st st'" if run: "db_bind m f st = (Inl e, st')" for st e st'
  proof -
    obtain r s where ms: "m st = (r, s)" by (cases "m st")
    then have s: "same_tables st s" using m [of st] by (auto simp: db_keeps_def dest: spec [of _ st])
    show ?thesis
    proof (cases r)
      case (Inl e')
      then show ?thesis using run ms s by (simp add: db_bind_def)
    next
      case (Inr a)
      then have "same_tables s st'" using run ms f [of a] by (simp add: db_bind_def fails_clean_def)
      then show ?thesis using s same_tables_trans by blast
    qed
  qed
  then show ?thesis by (simp add: fails_clean_def)
qed

lemma clean_transaction: "fails_clean (WithTransaction fault m)"
  by (auto simp: fails_clean_def WithTransaction_def split: if_splits prod.splits sum.splits)

lemma frame_validate: "db_keeps (same_tables st0) (validateCharacterCreation fault req)"
  unfolding validateCharacterCreation_def IsNameTaken_def GetCount_def
  by (auto intro!: frame.keeps_bind frame.keeps_guard frame.keeps_wrap frame.keeps_query split: prod.splits)

lemma frame_findSlot: "db_keeps (same_tables st0) (findAvailableSlot fault account)"
  unfolding findAvailableSlot_def GetByAccount_def
  by (auto intro!: frame.keeps_bind frame.keeps_query frame.keeps_return frame.keeps_fail split: option.splits)

lemma clean_CreateCharacter: "fails_clean (CreateCharacter fault now tree req)"
  unfolding CreateCharacter_def Let_def
  by (auto intro!: clean_bind clean_transaction frame_validate frame_findSlot clean_reads [OF frame.keeps_fail] split: option.splits)

section \<open>What a success did\<close>

lemma db_bind_Inr: "db_bind m f st = (Inr b, st') \<longleftrightarrow> (\<exists>a s. m st = (Inr a, s) \<and> f a s = (Inr b, st'))"
  by (auto simp: db_bind_def split: prod.splits sum.splits)

lemma db_wrap_Inr: "db_wrap msg m st = (Inr b, st') \<longleftrightarrow> m st = (Inr b, st')"
  by (auto simp: db_wrap_def split: prod.splits sum.splits)

lemma db_guard_Inr: "db_guard b e st = (Inr u, st') \<longleftrightarrow> b \<and> st' = st"
  by (auto simp: db_guard_def db_return_def db_fail_def)

lemma db_return_Inr: "db_return a st = (Inr b, st') \<longleftrightarrow> b = a \<and> st' = st"
  by (auto simp: db_return_def)

lemma db_query_Inr: "db_query fault msg f st = (Inr b, st') \<longleftrightarrow> \<not> fault (calls st) \<and> b = f st \<and> st' = count_call st"
  by (auto simp: db_query_def)

lemma db_exec_Inr: "db_exec fault msg f st = (Inr u, st') \<longleftrightarrow> \<not> fault (calls st) \<and> db_ok (f st) \<and> st' = count_call (f st)"
  by (auto simp: db_exec_def)

lemma transaction_Inr:
  "WithTransaction fault m st = (Inr b, st') \<longleftrightarrow>
     (\<exists>s. \<not> fault (calls st) \<and> m (count_call st) = (Inr b, s) \<and> \<not> fault (calls s) \<and> st' = count_call s)"
  by (auto simp: WithTransaction_def split: if_splits prod.splits sum.splits)

lemmas db_Inr = db_bind_Inr db_wrap_Inr db_guard_Inr db_return_Inr db_query_Inr db_exec_Inr transaction_Inr

lemma item_Create_Inr:
  "on_items (item_Create fault item) st = (Inr b, st') \<Longrightarrow>
     \<exists>k. chars st' = chars st \<and> char_skills st' = char_skills st \<and> char_shortcuts st' = char_shortcuts st
       \<and> recipes (itemdb st') = recipes (itemdb st) \<and> next_char st' = next_char st
       \<and> rows (itemdb st') = rows (itemdb st) @ [(k, item\<lparr>ObjectID := k\<rparr>)]"
  by (auto simp: on_items_def item_Create_def item_bind_def item_return_def exec_def Let_def split: if_splits)

lemma createStartingItems_Inr:
  "createStartingItems fault c ds st = (Inr u, st') \<Longrightarrow>
     chars st' = chars st \<and> char_skills st' = char_skills st \<and> char_shortcuts st' = char_shortcuts st
     \<and> recipes (itemdb st') = recipes (itemdb st) \<and> next_char st' = next_char st
     \<and> (\<exists>kit. rows (itemdb st') = rows (itemdb st) @ kit \<and> map (\<lambda>(k, r). r\<lparr>ObjectID := 0\<rparr>) kit = map (starting_item c) ds)"
proof (induction ds arbitrary: st)
  case (Cons d ds)
  then obtain b s where d: "on_items (item_Create fault (starting_item c d)) st = (Inr b, s)"
      and ds: "createStartingItems fault c ds s = (Inr u, st')" by (auto simp: db_Inr)
  obtain k where k: "rows (itemdb s) = rows (itemdb st) @ [(k, (starting_item c d)\<lparr>ObjectID := k\<rparr>)]"
      "chars s = chars st" "char_skills s = char_skills st" "char_shortcuts s = char_shortcuts st"
      "recipes (itemdb s) = recipes (itemdb st)" "next_char s = next_char st" using item_Create_Inr [OF d] by blast
  obtain kit where kit: "rows (itemdb st') = rows (itemdb s) @ kit"
      "map (\<lambda>(k, r). r\<lparr>ObjectID := 0\<rparr>) kit = map (starting_item c) ds" using Cons.IH [OF ds] by blast
  show ?case using Cons.IH [OF ds] k kit
    by (intro conjI exI [of _ "(k, (starting_item c d)\<lparr>ObjectID := k\<rparr>) # kit"]) (simp_all add: starting_item_def)
qed (simp add: db_return_def)

lemma grant_loop_Inr:
  "grant_loop fault c [] desired st = (Inr g, st') \<Longrightarrow>
     chars st' = chars st \<and> char_shortcuts st' = char_shortcuts st \<and> rows (itemdb st') = rows (itemdb st)
     \<and> recipes (itemdb st') = recipes (itemdb st) \<and> next_char st' = next_char st
     \<and> char_skills st' = fold (\<lambda>(s, l). AList.update (c, s) l) desired (char_skills st) \<and> g = desired"
proof (induction desired arbitrary: st g)
  case (Cons d desired)
  obtain s l where sl: "d = (s, l)" by (cases d)
  with Cons.prems obtain s1 g' where "LearnSkill fault c s l st = (Inr (), s1)" "grant_loop fault c [] desired s1 = (Inr g', st')"
      "g = (s, l) # g'" by (auto simp: db_Inr)
  then show ?case using Cons.IH [of s1 g'] sl by (auto simp: LearnSkill_def db_Inr)
qed (simp add: db_return_def)

lemma slots_upto: "[0..6::int] = [0, 1, 2, 3, 4, 5, 6]"
  by (simp add: upto.simps)

lemma below_slot: "0 \<le> s \<Longrightarrow> s \<le> 6 \<Longrightarrow> s = 0 \<or> s = 1 \<or> s = 2 \<or> s = 3 \<or> s = 4 \<or> s = 5 \<or> s = (6::int)"
  by presburger

lemma free_slot_Some:
  assumes "free_slot cs = Some s"
  shows "s \<in> {0..6} \<and> s \<notin> CharSlot ` set cs \<and> {0..<s} \<subseteq> CharSlot ` set cs"
proof -
  have "[0..6] = takeWhile (\<lambda>s. \<not> s \<notin> CharSlot ` set cs) [0..6] @ dropWhile (\<lambda>s. \<not> s \<notin> CharSlot ` set cs) [0..6]" by simp
  have s: "s \<in> {0..6}" "s \<notin> CharSlot ` set cs" using assms by (auto simp: free_slot_def find_Some_iff dest!: nth_mem)
  have "x \<in> CharSlot ` set cs" if "0 \<le> x" "x < s" for x
  proof -
    obtain i where i: "i < 7" "s = [0..6] ! i" "\<forall>j<i. \<not> [0..6] ! j \<notin> CharSlot ` set cs"
      using assms by (auto simp: free_slot_def find_Some_iff)
    have "[0..6] ! nat x = x" "[0..6] ! i = int i" using that s(1) i(1) by (simp_all add: nth_upto)
    then show ?thesis using i that by (metis nat_less_iff)
  qed
  then show ?thesis using s by auto
qed

lemma free_slot_exists: "length cs < 7 \<Longrightarrow> free_slot cs \<noteq> None"
proof
  assume short: "length cs < 7" and "free_slot cs = None"
  then have "{0..6} \<subseteq> CharSlot ` set cs" by (auto simp: free_slot_def find_None_iff)
  then have "card {0..6::int} \<le> card (CharSlot ` set cs)" by (intro card_mono) auto
  also have "\<dots> \<le> length cs" by (metis card_length image_set length_map)
  finally show False using short by simp
qed

definition created :: "int \<Rightarrow> SkillTreeData \<Rightarrow> CharacterCreateRequest \<Rightarrow> CharacterTemplate \<Rightarrow> int \<Rightarrow> game_db \<Rightarrow> Character \<Rightarrow> game_db \<Rightarrow> bool" where
  "created now tree req t slot st char st' \<longleftrightarrow>
     char = (buildNewCharacter now req t slot)\<lparr>ID := next_char st, CreatedAt := now\<rparr>
     \<and> chars st' = chars st @ [(next_char st, char)]
     \<and> (\<exists>kit. rows (itemdb st') = rows (itemdb st) @ kit
          \<and> map (\<lambda>(k, r). r\<lparr>ObjectID := 0\<rparr>) kit = map (starting_item (next_char st)) (tStartingItems t))
     \<and> char_skills st' = fold (\<lambda>(s, l). AList.update (next_char st, s) l) (AutoGetSkills tree (reqClassID req) 1) (char_skills st)
     \<and> char_shortcuts st' = char_shortcuts st \<and> recipes (itemdb st') = recipes (itemdb st)"

lemma char_Create_Inr:
  "char_Create fault now c st = (Inr char, s) \<Longrightarrow> char = c\<lparr>ID := next_char st, CreatedAt := now\<rparr>
     \<and> chars s = chars st @ [(next_char st, char)] \<and> char_skills s = char_skills st \<and> char_shortcuts s = char_shortcuts st
     \<and> rows (itemdb s) = rows (itemdb st) \<and> recipes (itemdb s) = recipes (itemdb st)"
  by (auto simp: char_Create_def Let_def db_Inr)

lemma grant_Inr:
  "grantAutoGetSkills fault tree char [] st = (Inr g, st') \<Longrightarrow>
     chars st' = chars st \<and> char_shortcuts st' = char_shortcuts st \<and> rows (itemdb st') = rows (itemdb st)
     \<and> recipes (itemdb st') = recipes (itemdb st)
     \<and> char_skills st' = fold (\<lambda>(s, l). AList.update (ID char, s) l) (AutoGetSkills tree (ClassID char) (Level char)) (char_skills st)"
  using grant_loop_Inr [of fault "ID char" "AutoGetSkills tree (ClassID char) (Level char)" st g st']
  by (auto simp: grantAutoGetSkills_def Let_def db_Inr split: if_splits)

text \<open>
  C28: Creating a character is all or nothing: when it fails, wherever it fails, every table is as before.
  When it succeeds, the name was valid and free, the account had fewer than seven characters, and the
  tables have gained exactly the new row with the next key, in the lowest free slot of the account, the
  starting items of its template and the skills that its class has at level 1; nothing else has changed.
\<close>

theorem create_is_atomic:
  "case CreateCharacter fault now tree req st of
     (Inl e, st') \<Rightarrow> same_tables st st'
   | (Inr char, st') \<Rightarrow>
      (let req' = req\<lparr>reqAccountName := NormalizeAccountName (reqAccountName req)\<rparr>;
           account = reqAccountName req'; used = CharSlot ` set (account_chars account st)
       in \<exists>t slot. getCharacterTemplate (reqRace req) (reqClassID req) = Some t
            \<and> validateCharacterName (reqName req) \<and> reqName req \<notin> Name ` set (char_rows st)
            \<and> isValidSex (reqSex req)
            \<and> length (filter (\<lambda>c. ToLower (AccountName c) = ToLower account) (char_rows st)) < 7
            \<and> slot \<in> {0..6} \<and> slot \<notin> used \<and> {0..<slot} \<subseteq> used
            \<and> created now tree req' t slot st char st')"
proof (cases "CreateCharacter fault now tree req st")
  case (Pair r st')
  show ?thesis
  proof (cases r)
    case (Inl e)
    then show ?thesis using Pair clean_CreateCharacter by (simp add: fails_clean_def)
  next
    case (Inr char)
    let ?req = "req\<lparr>reqAccountName := NormalizeAccountName (reqAccountName req)\<rparr>"
    let ?account = "NormalizeAccountName (reqAccountName req)"
    have run: "CreateCharacter fault now tree req st = (Inr char, st')" using Pair Inr by simp
    obtain t where t: "getCharacterTemplate (reqRace req) (reqClassID req) = Some t"
      using run by (cases "getCharacterTemplate (reqRace req) (reqClassID req)")
        (auto simp: CreateCharacter_def Let_def db_Inr db_fail_def)
    obtain s1 s2 slot where valid: "validateCharacterCreation fault ?req st = (Inr (), s1)"
        and slot: "findAvailableSlot fault ?account s1 = (Inr slot, s2)"
        and tx: "WithTransaction fault
           (db_bind (db_wrap ''failed to create character'' (char_Create fault now (buildNewCharacter now ?req t slot))) (\<lambda>char.
            db_bind (db_wrap ''failed to create starting items'' (createStartingItems fault (ID char) (tStartingItems t))) (\<lambda>_.
            db_bind (db_wrap ''failed to grant starting skills'' (grantAutoGetSkills fault tree char [])) (\<lambda>_.
              db_return char)))) s2 = (Inr char, st')"
      using run t by (auto simp: CreateCharacter_def Let_def db_bind_Inr)
    have "validateCharacterName (reqName req)" "reqName req \<notin> Name ` set (char_rows st)" "isValidSex (reqSex req)"
        "length (filter (\<lambda>c. ToLower (AccountName c) = ToLower ?account) (char_rows st)) < 7"
        "same_tables st s1" "next_char s1 = next_char st"
      using valid by (auto simp: validateCharacterCreation_def IsNameTaken_def GetCount_def db_Inr Let_def char_rows_def filter_empty_conv
          split: prod.splits)
    moreover have "free_slot (account_chars ?account s1) = Some slot" "same_tables s1 s2" "next_char s2 = next_char s1"
      using slot by (auto simp: findAvailableSlot_def GetByAccount_def db_Inr free_slot_def account_chars_def char_rows_def
          db_fail_def split: option.splits)
    moreover have "created now tree ?req t slot s2 char st'"
    proof -
      obtain a b d where c: "char_Create fault now (buildNewCharacter now ?req t slot) (count_call s2) = (Inr char, a)"
          and i: "createStartingItems fault (ID char) (tStartingItems t) a = (Inr (), b)"
          and g: "grantAutoGetSkills fault tree char [] b = (Inr (fst d), snd d)" and st': "st' = count_call (snd d)"
        using tx by (auto simp: db_Inr)
      show ?thesis
        using char_Create_Inr [OF c] createStartingItems_Inr [OF i] grant_Inr [OF g] st'
        by (auto simp: created_def buildNewCharacter_def Let_def)
    qed
    ultimately show ?thesis
      using free_slot_Some [of "account_chars ?account s1" slot] t
      by (auto simp: run Let_def same_tables_def account_chars_def char_rows_def created_def)
  qed
qed

section \<open>A valid request succeeds\<close>

abbreviation no_fault :: db_fault where
  "no_fault \<equiv> (\<lambda>_. False)"

text \<open>The sequences of the keys are ahead of the keys in use.\<close>

definition sequences_ok :: "game_db \<Rightarrow> bool" where
  "sequences_ok st \<longleftrightarrow> (\<forall>k\<in>fst ` set (chars st). k < next_char st)
     \<and> (\<forall>k\<in>fst ` set (rows (itemdb st)). k < next_object (itemdb st))"

lemma db_ok_add_item:
  assumes "db_ok st" "c \<in> fst ` set (chars st)" "starting_item_ok d" "k \<notin> fst ` set (rows (itemdb st))"
    and "siLocation d = LocPaperdoll \<longrightarrow> (c, siLocData d) \<notin> set (worn_keys (rows (itemdb st)))"
    and same: "chars st' = chars st" "char_skills st' = char_skills st" "char_shortcuts st' = char_shortcuts st"
      "recipes (itemdb st') = recipes (itemdb st)"
      "rows (itemdb st') = rows (itemdb st) @ [(k, (starting_item c d)\<lparr>ObjectID := k\<rparr>)]"
  shows "db_ok st'"
proof -
  let ?r = "(starting_item c d)\<lparr>ObjectID := k\<rparr>"
  have "row_ok ?r" using assms(3) by (auto simp: row_ok_def starting_item_ok_def starting_item_def attributes_def)
  moreover have "worn_keys [(k, ?r)] = (if siLocation d = LocPaperdoll then [(c, siLocData d)] else [])"
    by (simp add: worn_keys_def starting_item_def)
  moreover have "worn_keys (rows (itemdb st) @ [(k, ?r)]) = worn_keys (rows (itemdb st)) @ worn_keys [(k, ?r)]"
    by (simp add: worn_keys_def)
  ultimately have "table_ok (rows (itemdb st) @ [(k, ?r)])"
    using assms(1,4,5) by (auto simp: db_ok_def table_ok_def map_ok_def)
  moreover have "OwnerID ?r = c" by (simp add: starting_item_def)
  ultimately show ?thesis using assms(1,2) same by (auto simp: db_ok_def owners_def)
qed

lemma on_items_Create_succeeds:
  assumes "db_ok st" "c \<in> fst ` set (chars st)" "starting_item_ok d" "\<forall>k\<in>fst ` set (rows (itemdb st)). k < next_object (itemdb st)"
    and "siLocation d = LocPaperdoll \<longrightarrow> (c, siLocData d) \<notin> set (worn_keys (rows (itemdb st)))"
  shows "\<exists>b st'. on_items (item_Create no_fault (starting_item c d)) st = (Inr b, st') \<and> db_ok st'
    \<and> chars st' = chars st \<and> char_skills st' = char_skills st \<and> next_object (itemdb st') = next_object (itemdb st) + 1
    \<and> rows (itemdb st') = rows (itemdb st) @ [(next_object (itemdb st), (starting_item c d)\<lparr>ObjectID := next_object (itemdb st)\<rparr>)]"
proof -
  let ?k = "next_object (itemdb st)" and ?i = "itemdb st"
  let ?i' = "?i\<lparr>next_object := ?k + 1, db_calls := db_calls ?i + 1, rows := rows ?i @ [(?k, (starting_item c d)\<lparr>ObjectID := ?k\<rparr>)]\<rparr>"
  have ok: "db_ok (st\<lparr>itemdb := ?i'\<rparr>)"
    by (rule db_ok_add_item [OF assms(1-3) _ assms(5)]) (use assms(4) in auto)
  then have "table_ok (rows ?i')" by (simp add: db_ok_def)
  then have "item_Create no_fault (starting_item c d) ?i = (Inr ((starting_item c d)\<lparr>ObjectID := ?k\<rparr>), ?i')"
    by (simp add: item_Create_def item_bind_def item_return_def exec_def Let_def)
  then show ?thesis using ok by (auto simp: on_items_def)
qed

lemma createStartingItems_succeeds:
  assumes "db_ok st" "c \<in> fst ` set (chars st)" "list_all starting_item_ok ds"
    "\<forall>k\<in>fst ` set (rows (itemdb st)). k < next_object (itemdb st)"
    "distinct (map siLocData (filter (\<lambda>i. siLocation i = LocPaperdoll) ds))"
    "\<forall>d\<in>set ds. siLocation d = LocPaperdoll \<longrightarrow> (c, siLocData d) \<notin> set (worn_keys (rows (itemdb st)))"
  shows "\<exists>st'. createStartingItems no_fault c ds st = (Inr (), st') \<and> db_ok st' \<and> chars st' = chars st"
  using assms
proof (induction ds arbitrary: st)
  case Nil
  then show ?case by (simp add: db_return_def)
next
  case (Cons d ds)
  obtain b s where s: "on_items (item_Create no_fault (starting_item c d)) st = (Inr b, s)" "db_ok s" "chars s = chars st"
      "next_object (itemdb s) = next_object (itemdb st) + 1"
      "rows (itemdb s) = rows (itemdb st) @ [(next_object (itemdb st), (starting_item c d)\<lparr>ObjectID := next_object (itemdb st)\<rparr>)]"
    using on_items_Create_succeeds [of st c d] Cons.prems by auto
  have worn: "set (worn_keys (rows (itemdb s))) =
      set (worn_keys (rows (itemdb st))) \<union> (if siLocation d = LocPaperdoll then {(c, siLocData d)} else {})"
    by (auto simp: s(5) worn_keys_def starting_item_def)
  have "\<exists>st'. createStartingItems no_fault c ds s = (Inr (), st') \<and> db_ok st' \<and> chars st' = chars s"
  proof (rule Cons.IH)
    show "\<forall>k\<in>fst ` set (rows (itemdb s)). k < next_object (itemdb s)" using Cons.prems(4) s by auto
    show "\<forall>d\<in>set ds. siLocation d = LocPaperdoll \<longrightarrow> (c, siLocData d) \<notin> set (worn_keys (rows (itemdb s)))"
      proof (intro ballI impI)
      fix d' assume d': "d' \<in> set ds" "siLocation d' = LocPaperdoll"
      then have "siLocData d' \<in> siLocData ` {x \<in> set ds. siLocation x = LocPaperdoll}" by (intro imageI) simp
      moreover have "siLocData d \<notin> siLocData ` {x \<in> set ds. siLocation x = LocPaperdoll}" if "siLocation d = LocPaperdoll"
        using Cons.prems(5) that by simp
      ultimately have "siLocData d' \<noteq> siLocData d" if "siLocation d = LocPaperdoll" using that by metis
      then show "(c, siLocData d') \<notin> set (worn_keys (rows (itemdb s)))" using Cons.prems(6) d' by (auto simp: worn)
    qed
    show "distinct (map siLocData (filter (\<lambda>i. siLocation i = LocPaperdoll) ds))" using Cons.prems(5) by (auto split: if_splits)
  qed (use Cons.prems s in auto)
  then show ?case using s by (auto simp: db_bind_def db_wrap_def)
qed

lemma db_ok_count [simp]: "db_ok (count_call st) = db_ok st"
  by (rule db_ok_same) simp

lemma set_update_subset: "set (AList.update k v m) \<subseteq> insert (k, v) (set m)"
  by (induction m) auto

lemma LearnSkill_succeeds:
  assumes "db_ok st" "c \<in> fst ` set (chars st)" "1 \<le> l" "l \<le> 99"
  shows "\<exists>st'. LearnSkill no_fault c s l st = (Inr (), st') \<and> db_ok st' \<and> chars st' = chars st"
proof -
  let ?st = "st\<lparr>char_skills := AList.update (c, s) l (char_skills st)\<rparr>"
  have sub: "set (char_skills ?st) \<subseteq> insert ((c, s), l) (set (char_skills st))" using set_update_subset by simp
  have "\<forall>e\<in>insert ((c, s), l) (set (char_skills st)). (case e of (_, level) \<Rightarrow> 1 \<le> level \<and> level \<le> 99)"
    using assms by (auto simp: db_ok_def skills_ok_def list_all_iff)
  then have "list_all (\<lambda>(_, level). 1 \<le> level \<and> level \<le> 99) (char_skills ?st)" using sub unfolding list_all_iff by blast
  moreover have "map_ok (char_skills ?st)" using assms(1) by (simp add: db_ok_def skills_ok_def)
  ultimately have "skills_ok (char_skills ?st)" by (simp add: skills_ok_def)
  moreover have "owners ?st \<subseteq> insert c (owners st)"
  proof -
    let ?R = "fst ` fst ` set (char_shortcuts st) \<union> OwnerID ` snd ` set (rows (itemdb st)) \<union> fst ` set (recipes (itemdb st))"
    have "owners ?st = fst ` fst ` set (char_skills ?st) \<union> ?R" "owners st = fst ` fst ` set (char_skills st) \<union> ?R"
      by (simp_all add: owners_def Un_assoc)
    moreover have "fst ` fst ` set (char_skills ?st) \<subseteq> insert c (fst ` fst ` set (char_skills st))"
      using image_mono [OF image_mono [OF sub], of fst fst] by simp
    ultimately show ?thesis by (metis Un_insert_left Un_mono subset_refl)
  qed
  ultimately have "db_ok ?st" using assms by (auto simp: db_ok_def)
  then show ?thesis
    by (simp add: LearnSkill_def db_exec_def)
qed

lemma grant_loop_succeeds:
  assumes "db_ok st" "c \<in> fst ` set (chars st)" "\<forall>(s, l)\<in>set desired. 1 \<le> l \<and> l \<le> 99"
  shows "\<exists>g st'. grant_loop no_fault c [] desired st = (Inr g, st')"
  using assms
proof (induction desired arbitrary: st)
  case (Cons d desired)
  obtain s l where d: "d = (s, l)" by (cases d)
  obtain s1 where s1: "LearnSkill no_fault c s l st = (Inr (), s1)" "db_ok s1" "chars s1 = chars st"
    using LearnSkill_succeeds [of st c l s] Cons.prems d by auto
  then obtain g st' where "grant_loop no_fault c [] desired s1 = (Inr g, st')" using Cons.IH [of s1] Cons.prems by auto
  then show ?case using s1 d by (auto simp: db_bind_def db_wrap_def db_return_def)
qed (simp add: db_return_def)


lemma length_filter_mono: "(\<And>x. P x \<Longrightarrow> Q x) \<Longrightarrow> length (filter P xs) \<le> length (filter Q xs)"
  by (induction xs) (auto intro: le_SucI)

lemma db_ok_add_char:
  assumes ok: "db_ok st" and "next_char st \<notin> fst ` set (chars st)" "ID c = next_char st" "char_row_ok c"
    "Name c \<notin> Name ` set (char_rows st)" "CharSlot c \<notin> CharSlot ` set (account_chars (AccountName c) st)"
    and same: "chars st' = chars st @ [(next_char st, c)]" "char_skills st' = char_skills st" "char_shortcuts st' = char_shortcuts st"
      "rows (itemdb st') = rows (itemdb st)" "recipes (itemdb st') = recipes (itemdb st)"
  shows "db_ok st'"
proof -
  have "(AccountName c, CharSlot c) \<notin> (\<lambda>(_, c). (AccountName c, CharSlot c)) ` set (chars st)"
  proof
    assume "(AccountName c, CharSlot c) \<in> (\<lambda>(_, c). (AccountName c, CharSlot c)) ` set (chars st)"
    then obtain i b where b: "(i, b) \<in> set (chars st)" "AccountName b = AccountName c" "CharSlot c = CharSlot b" by auto
    then have "b \<in> set (account_chars (AccountName c) st)" by (force simp: account_chars_def char_rows_def)
    then show False using assms(6) b(3) by auto
  qed
  moreover have "Name c \<notin> (Name \<circ> snd) ` set (chars st)" using assms(5) by (auto simp: char_rows_def)
  ultimately have "char_keys_ok (chars st')"
    using assms(1-4) by (simp add: same db_ok_def char_keys_ok_def map_ok_def)
  moreover have "owners st' = owners st" by (simp add: owners_def same)
  ultimately show ?thesis using ok by (simp add: same db_ok_def) blast
qed



definition sample_create :: CharacterCreateRequest where
  "sample_create = \<lparr>reqAccountName = ''Alice'', reqName = ''Bob'', reqRace = 0, reqSex = 1, reqClassID = 10,
     reqHairStyle = 0, reqHairColor = 0, reqFace = 0\<rparr>"

lemma sample_name: "validateCharacterName ''Bob''"
  by (simp add: validateCharacterName_def is_letter_def ToLower_def to_lower_char_def reservedNames_def Let_def)

lemma sample_account: "NormalizeAccountName ''Alice'' = ''alice''"
  by code_simp


lemma account_roster_witness:
  "length (account_chars ''alice'' (snd (CreateCharacter no_fault 0 (skillTree sample_learn_env) sample_create empty_db))) \<le> 7"
  using account_roster [of "snd (CreateCharacter no_fault 0 (skillTree sample_learn_env) sample_create empty_db)" "''alice''"]
  by (simp add: r_into_rtranclp [of char_step, OF char_step.create])

section \<open>Deleting\<close>

lemma permanentlyDelete_Inr:
  assumes "permanentlyDeleteCharacter fault c st = (Inr u, st')"
  shows "same_tables (delete_char c st) st'"
proof -
  obtain a b d e where "on_items (item_DeleteByCharacter fault c) (count_call st) = (Inr (), a)"
      and "skill_DeleteByCharacter fault c a = (Inr (), b)" and "shortcut_DeleteByCharacter fault c b = (Inr (), d)"
      and "char_Delete fault c d = (Inr (), e)" "st' = count_call e"
    using assms by (auto simp: permanentlyDeleteCharacter_def db_Inr)
  then show ?thesis
    by (auto simp: on_items_def item_DeleteByCharacter_def exec_def skill_DeleteByCharacter_def shortcut_DeleteByCharacter_def
        char_Delete_def db_Inr same_tables_def delete_char_def Let_def split: if_splits)
qed

lemma clean_wrap: "fails_clean m \<Longrightarrow> fails_clean (db_wrap msg m)"
  by (fastforce simp: fails_clean_def db_wrap_def split: prod.splits sum.splits)

lemma clean_exec: "fails_clean (db_exec fault msg f)"
  by (auto simp: fails_clean_def db_exec_def split: if_splits)

lemma clean_load_own: "db_keeps (same_tables st0) (load_own fault c account)"
  unfolding load_own_def char_GetByID_def
  by (auto intro!: frame.keeps_bind frame.keeps_wrap frame.keeps_query frame.keeps_return frame.keeps_fail frame.keeps_guard
      split: option.splits)

lemma clean_DeleteCharacter: "fails_clean (DeleteCharacter fault now c account)"
  unfolding DeleteCharacter_def permanentlyDeleteCharacter_def char_Update_def
  by (auto intro!: clean_bind clean_load_own clean_transaction clean_wrap clean_exec)

lemma load_own_Inr:
  "load_own fault c account st = (Inr char, s) \<longleftrightarrow>
     \<not> fault (calls st) \<and> map_of (chars st) c = Some char \<and> AccountName char = account \<and> s = count_call st"
  by (auto simp: load_own_def char_GetByID_def db_Inr db_fail_def split: option.splits)

lemma update_chars_cong: "(\<And>r. (c, r) \<in> set (chars st) \<Longrightarrow> f r = g r) \<Longrightarrow> update_chars c f st = update_chars c g st"
proof -
  assume eq: "\<And>r. (c, r) \<in> set (chars st) \<Longrightarrow> f r = g r"
  have "map (\<lambda>(i, r). (i, if i = c then f r else r)) (chars st) = map (\<lambda>(i, r). (i, if i = c then g r else r)) (chars st)"
    by (rule map_cong [OF refl]) (auto simp: eq)
  then show ?thesis by (simp add: update_chars_def)
qed

lemma MarkForDeletion_fun: "MarkForDeletion now d = (\<lambda>c. c\<lparr>DeleteTime := now + d\<rparr>)"
  by (rule ext) (simp add: MarkForDeletion_def)

lemma update_own_row:
  assumes "db_ok st" "map_of (chars st) c = Some char"
  shows "update_chars (ID char) (\<lambda>r. (f char)\<lparr>ID := ID r, AccountName := AccountName r, Name := Name r, CreatedAt := CreatedAt r\<rparr>) st
    = update_chars c (\<lambda>r. (f r)\<lparr>ID := ID r, AccountName := AccountName r, Name := Name r, CreatedAt := CreatedAt r\<rparr>) st"
proof -
  have ok: "map_ok (chars st)" "\<forall>(i, r)\<in>set (chars st). ID r = i" using assms(1) by (auto simp: db_ok_def char_keys_ok_def list_all_iff)
  have "ID char = c" using ok(2) map_of_SomeD [OF assms(2)] by auto
  moreover have "r = char" if "(c, r) \<in> set (chars st)" for r
    using that ok(1) assms(2) by (metis map_ok_def map_of_eq_Some_iff option.inject)
  ultimately show ?thesis by (metis (no_types, lifting) update_chars_cong)
qed

lemma mark_update:
  assumes "db_ok st" "map_of (chars st) c = Some char" "char_Update fault (MarkForDeletion now d char) st = (Inr u, st')"
  shows "same_tables (update_chars c (MarkForDeletion now d) st) st'"
proof -
  have "same_tables (update_chars (ID char) (\<lambda>r. (MarkForDeletion now d char)\<lparr>ID := ID r, AccountName := AccountName r,
      Name := Name r, CreatedAt := CreatedAt r\<rparr>) st) st'"
    using assms(3) by (simp add: char_Update_def db_Inr) (simp add: MarkForDeletion_def)
  then show ?thesis unfolding update_own_row [OF assms(1,2)] by (simp add: MarkForDeletion_fun)
qed

lemma deleted_gone: "c \<notin> owners (delete_char c st) \<and> c \<notin> fst ` set (chars (delete_char c st))"
  by (auto simp: owners_def delete_char_def)

text \<open>
  C29: A request to delete that fails leaves every table as it was. One that succeeds was for a character of
  that account. Below level 20, or when its seven days are over, the character is gone with every item,
  skill, shortcut and recipe it had, and no other row has changed. Otherwise its timer is set to seven days
  from now and nothing else happens, also when it was running already.
\<close>

theorem deletion_is_complete:
  assumes "db_ok st" "DeleteCharacter fault now c account st = (r, st')"
  shows "case r of Inl e \<Rightarrow> same_tables st st'
    | Inr _ \<Rightarrow> \<exists>char. map_of (chars st) c = Some char \<and> AccountName char = account
        \<and> (if Level char < 20 \<or> (0 < DeleteTime char \<and> DeleteTime char \<le> now)
           then same_tables (delete_char c st) st' \<and> c \<notin> owners st' \<and> map_of (chars st') c = None
           else same_tables (update_chars c (\<lambda>char. char\<lparr>DeleteTime := now + 7 * 24 * 3600\<rparr>) st) st')"
proof (cases r)
  case (Inl e)
  then show ?thesis using assms(2) clean_DeleteCharacter by (simp add: fails_clean_def)
next
  case (Inr u)
  obtain char where char: "map_of (chars st) c = Some char" "AccountName char = account"
    and run: "(if CanBeDeleted now char then permanentlyDeleteCharacter fault c
       else db_wrap ''failed to mark character for deletion'' (char_Update fault (MarkForDeletion now seven_days char))) (count_call st)
       = (Inr (), st')"
    using assms(2) Inr by (auto simp: DeleteCharacter_def db_bind_Inr load_own_Inr)
  have can: "CanBeDeleted now char \<longleftrightarrow> Level char < 20 \<or> (0 < DeleteTime char \<and> DeleteTime char \<le> now)"
    by (auto simp: CanBeDeleted_def IsMarkedForDeletion_def GetDeletionTimeRemaining_def Let_def)
  show ?thesis
  proof (cases "CanBeDeleted now char")
    case True
    then have "permanentlyDeleteCharacter fault c (count_call st) = (Inr (), st')" using run by simp
    then have "same_tables (delete_char c (count_call st)) st'" by (rule permanentlyDelete_Inr)
    then have same: "same_tables (delete_char c st) st'" by (simp add: same_tables_def delete_char_def)
    then have "owners st' = owners (delete_char c st)" "chars st' = chars (delete_char c st)"
      by (simp_all add: same_tables_def owners_def)
    then show ?thesis using Inr char can True same deleted_gone [of c st] by (simp add: map_of_eq_None_iff)
  next
    case False
    then have "char_Update fault (MarkForDeletion now seven_days char) (count_call st) = (Inr (), st')"
      using run by (simp add: db_wrap_Inr)
    then have "same_tables (update_chars c (MarkForDeletion now seven_days) (count_call st)) st'"
      by (intro mark_update) (use assms(1) char in simp_all)
    then have "same_tables (update_chars c (\<lambda>char. char\<lparr>DeleteTime := now + 7 * 24 * 3600\<rparr>) st) st'"
      by (simp add: same_tables_def update_chars_def MarkForDeletion_fun seven_days_def)
    moreover have "\<not> (Level char < 20 \<or> (0 < DeleteTime char \<and> DeleteTime char \<le> now))" using can False by blast
    ultimately show ?thesis using Inr char by auto
  qed
qed

section \<open>The number of a character\<close>

lemma index_below:
  fixes xs :: "int list"
  assumes "sorted xs" "distinct xs" "set xs \<subseteq> {0..}" "i < length xs"
  shows "int i \<le> xs ! i"
  using assms(4)
proof (induction i)
  case 0
  then show ?case using assms(3) nth_mem by fastforce
next
  case (Suc i)
  then have "xs ! i < xs ! Suc i"
    using assms(1,2) by (metis Suc_lessD le_neq_trans lessI nat_less_le nth_eq_iff_index_eq sorted_iff_nth_mono)
  then show ?case using Suc by simp
qed

lemma index_is_value:
  fixes xs :: "int list"
  assumes "sorted xs" "distinct xs" "set xs \<subseteq> {0..}" "i < length xs"
  shows "xs ! i = int i \<longleftrightarrow> {0..int i} \<subseteq> set xs"
proof
  assume eq: "xs ! i = int i"
  have sub: "(\<lambda>j. xs ! j) ` {..i} \<subseteq> {0..int i}"
  proof (intro image_subsetI)
    fix j assume "j \<in> {..i}"
    then have "xs ! j \<le> xs ! i" "xs ! j \<in> set xs" using assms(1,4) by (simp_all add: sorted_nth_mono)
    then show "xs ! j \<in> {0..int i}" using eq assms(3) by auto
  qed
  have "inj_on (\<lambda>j. xs ! j) {..i}" by (rule inj_on_nth [OF assms(2)]) (use assms(4) in auto)
  then have "card ((\<lambda>j. xs ! j) ` {..i}) = card {0..int i}" by (simp add: card_image)
  then have "(\<lambda>j. xs ! j) ` {..i} = {0..int i}" by (intro card_subset_eq [OF _ sub]) simp
  moreover have "(\<lambda>j. xs ! j) ` {..i} \<subseteq> set xs" using assms(4) by (intro image_subsetI) simp
  ultimately show "{0..int i} \<subseteq> set xs" by simp
next
  assume sub: "{0..int i} \<subseteq> set xs"
  show "xs ! i = int i"
  proof (rule ccontr)
    assume "xs ! i \<noteq> int i"
    then have "int i < xs ! i" using index_below [OF assms] by simp
    then have "{0..int i} \<subseteq> (\<lambda>j. xs ! j) ` {..<i}"
    proof -
      assume gt: "int i < xs ! i"
      show ?thesis
      proof
        fix x assume x: "x \<in> {0..int i}"
        then obtain j where j: "j < length xs" "xs ! j = x" using sub by (metis in_set_conv_nth subsetD)
        then have "\<not> i \<le> j" using gt x assms(1) by (meson atLeastAtMost_iff leD le_less_trans sorted_iff_nth_mono order_trans)
        then show "x \<in> (\<lambda>j. xs ! j) ` {..<i}" using j by auto
      qed
    qed
    then have "card {0..int i} \<le> card {..<i}" by (metis card_image_le card_mono finite_imageI finite_lessThan le_trans)
    then show False by simp
  qed
qed

section \<open>Selecting by the number in the list\<close>

lemma find_unique:
  assumes "x \<in> set xs" "P x" "\<And>y. y \<in> set xs \<Longrightarrow> P y \<Longrightarrow> y = x"
  shows "find P xs = Some x"
proof (cases "find P xs")
  case None
  then show ?thesis using assms(1,2) by (simp add: find_None_iff)
next
  case (Some y)
  then have "y \<in> set xs" "P y" by (auto simp: find_Some_iff)
  then show ?thesis using assms(3) Some by simp
qed

lemma row_ok_LastAccess [simp]: "char_row_ok (c\<lparr>LastAccess := now\<rparr>) = char_row_ok c"
  by (simp add: char_row_ok_def)

lemma map_of_keyed: "map_of (map (\<lambda>(k, v). (k, f k v)) xs) k = map_option (f k) (map_of xs k)"
  by (induction xs) auto

lemma on_items_paperdoll: "chars (snd (on_items (GetPaperdoll fault c) st)) = chars st"
  by (simp add: on_items_def GetPaperdoll_def query_def Let_def)

lemma find_slot:
  assumes "db_ok st" "c \<in> set (account_chars account st)"
  shows "find (\<lambda>r. CharSlot r = CharSlot c \<and> AccountName r = account) (char_rows st) = Some c"
proof (rule find_unique)
  have "inj_on CharSlot (set (account_chars account st))" using account_slots(1) [OF assms(1)] by (simp add: distinct_map)
  then show "y = c" if "y \<in> set (char_rows st)" "CharSlot y = CharSlot c \<and> AccountName y = account" for y
    using that assms(2) by (simp add: inj_on_def account_chars_def)
qed (use assms(2) in \<open>auto simp: account_chars_def\<close>)

text \<open>
  C31: The list that the client shows is sorted by slot and has no gaps, and deleting goes by the place in
  that list; selecting looks the number up as a slot. The two agree on the character at place i exactly when
  no slot of the account up to i is free: once a character has been deleted, the places after it name other
  characters, or none.
\<close>

theorem select_takes_the_slot:
  assumes "db_ok st" "GetCharacterList no_fault account st = (Inr cs, st')" "i < length cs"
  shows "(\<exists>s. GetByAccountSlotID no_fault account (int i) st = (Inr (Some (cs ! i)), s))
    \<longleftrightarrow> {0..int i} \<subseteq> CharSlot ` set (account_chars account st)"
proof -
  have cs: "cs = sort_key CharSlot (account_chars account st)"
    using assms(2) by (auto simp: GetCharacterList_def GetByAccount_def db_Inr account_chars_def)
  have set: "set cs = set (account_chars account st)" by (simp add: cs)
  have slots: "sorted (map CharSlot cs)" "distinct (map CharSlot cs)" "set (map CharSlot cs) \<subseteq> {0..}"
    using account_slots [OF assms(1), of account] distinct_map [of CharSlot cs] distinct_map [of CharSlot "account_chars account st"]
    by (auto simp: cs)
  have mem: "cs ! i \<in> set (account_chars account st)" using assms(3) set nth_mem by metis
  have "(\<exists>s. GetByAccountSlotID no_fault account (int i) st = (Inr (Some (cs ! i)), s))
      \<longleftrightarrow> find (\<lambda>r. CharSlot r = int i \<and> AccountName r = account) (char_rows st) = Some (cs ! i)"
    by (auto simp: GetByAccountSlotID_def db_query_def)
  also have "\<dots> \<longleftrightarrow> CharSlot (cs ! i) = int i"
    using find_slot [OF assms(1) mem] by (auto simp: find_Some_iff)
  also have "\<dots> \<longleftrightarrow> {0..int i} \<subseteq> set (map CharSlot cs)"
    using index_is_value [OF slots] assms(3) by simp
  finally show ?thesis by (simp add: set)
qed

text \<open>
  Selecting a character writes the time of the access to the row whose key is the number of the slot: the
  character that was selected keeps its old time, unless its key happens to be that number, and the row of
  somebody else with that key gets the time instead.
\<close>

theorem select_stamps_another_character:
  assumes "db_ok st" "SelectCharacter no_fault now slot account st = (Inr char, st')" "ID char \<noteq> slot"
  shows "map_of (chars st') (ID char) = map_of (chars st) (ID char)
    \<and> map_of (chars st') slot = map_option (\<lambda>c. c\<lparr>LastAccess := now\<rparr>) (map_of (chars st) slot)"
proof -
  obtain r b where r: "UpdateLastAccess no_fault now slot (count_call st) = (r, b)" and "chars st' = chars b"
  proof -
    obtain row where "find (\<lambda>c. CharSlot c = slot \<and> AccountName c = account) (char_rows st) = Some row"
      using assms(2) by (cases "find (\<lambda>c. CharSlot c = slot \<and> AccountName c = account) (char_rows st)")
        (auto simp: SelectCharacter_def GetByAccountSlotID_def db_Inr db_fail_def)
    then obtain its where "on_items (GetPaperdoll no_fault (ID row)) (snd (UpdateLastAccess no_fault now slot (count_call st))) = (Inr its, st')"
      using assms(2) by (auto simp: SelectCharacter_def GetByAccountSlotID_def db_Inr db_try_def split: prod.splits)
    then have "chars st' = chars (snd (UpdateLastAccess no_fault now slot (count_call st)))"
      using on_items_paperdoll [of no_fault "ID row"] by (metis snd_conv)
    then show ?thesis using that by (metis prod.collapse)
  qed
  moreover have "db_ok (update_chars slot (\<lambda>c. c\<lparr>LastAccess := now\<rparr>) (count_call st))"
  proof -
    let ?f = "\<lambda>(i, c). (i, if i = slot then c\<lparr>LastAccess := now\<rparr> else c)"
    have "map fst (map ?f (chars st)) = map fst (chars st)" "map (Name \<circ> snd) (map ?f (chars st)) = map (Name \<circ> snd) (chars st)"
        "map (\<lambda>(_, c). (AccountName c, CharSlot c)) (map ?f (chars st)) = map (\<lambda>(_, c). (AccountName c, CharSlot c)) (chars st)"
      by auto
    moreover have "list_all (\<lambda>(i, c). ID c = i \<and> char_row_ok c) (map ?f (chars st))"
      using assms(1) by (auto simp: db_ok_def char_keys_ok_def list_all_iff)
    ultimately have "char_keys_ok (map ?f (chars st))"
      using assms(1) unfolding db_ok_def char_keys_ok_def map_ok_def by metis
    moreover have "fst ` set (map ?f (chars st)) = fst ` set (chars st)" by (force simp: image_iff)
    ultimately show ?thesis using assms(1) by (simp add: db_ok_def update_chars_def owners_def)
  qed
  ultimately have "chars st' = map (\<lambda>(i, c). (i, if i = slot then c\<lparr>LastAccess := now\<rparr> else c)) (chars st)"
    by (auto simp: UpdateLastAccess_def db_exec_def update_chars_def)
  then have "map_of (chars st') i = map_option (\<lambda>c. if i = slot then c\<lparr>LastAccess := now\<rparr> else c) (map_of (chars st) i)" for i
    using map_of_keyed [of "\<lambda>i c. if i = slot then c\<lparr>LastAccess := now\<rparr> else c" "chars st" i] by simp
  then show ?thesis using assms(3) by (simp add: option.map_ident)
qed

section \<open>A sample account\<close>

text \<open>An account whose first character has been deleted: two are left, in the slots 1 and 2.\<close>

definition sample_character :: "int \<Rightarrow> string \<Rightarrow> int \<Rightarrow> Character" where
  "sample_character i name slot =
     (buildNewCharacter 0 (sample_create\<lparr>reqAccountName := ''alice'', reqName := name\<rparr>) templateHumanMystic slot)\<lparr>ID := i\<rparr>"

definition sample_char_db :: game_db where
  "sample_char_db = empty_db\<lparr>chars := [(5, sample_character 5 ''Bob'' 1), (2, sample_character 2 ''Eve'' 2)], next_char := 6\<rparr>"

lemma sample_character_fields [simp]:
  "ID (sample_character i n s) = i" "Name (sample_character i n s) = n" "CharSlot (sample_character i n s) = s"
  "AccountName (sample_character i n s) = ''alice''" "Level (sample_character i n s) = 1" "DeleteTime (sample_character i n s) = 0"
  by (simp_all add: sample_character_def buildNewCharacter_def Let_def)

lemma sample_character_row: "0 \<le> s \<Longrightarrow> s \<le> 6 \<Longrightarrow> length n \<le> 35 \<Longrightarrow> char_row_ok (sample_character i n s)"
  by (simp add: char_row_ok_def) (simp add: sample_character_def buildNewCharacter_def Let_def sample_create_def)

lemma sample_char_db_ok: "db_ok sample_char_db"
  by (simp add: db_ok_def char_keys_ok_def sample_char_db_def empty_db_def sample_character_row skills_ok_def map_ok_def
      table_ok_def worn_keys_def owners_def)

lemma sample_list: "GetCharacterList no_fault ''alice'' sample_char_db =
   (Inr [sample_character 5 ''Bob'' 1, sample_character 2 ''Eve'' 2], count_call sample_char_db)"
  by (simp add: GetCharacterList_def GetByAccount_def db_wrap_def db_query_def) (simp add: char_rows_def sample_char_db_def)

lemma select_takes_the_slot_witness:
  "\<not> (\<exists>s. GetByAccountSlotID no_fault ''alice'' 0 sample_char_db = (Inr (Some (sample_character 5 ''Bob'' 1)), s))"
  using select_takes_the_slot [OF sample_char_db_ok sample_list, of 0]
  by (simp add: account_chars_def char_rows_def sample_char_db_def)

lemma on_items_query: "db_ok st \<Longrightarrow> on_items (query no_fault msg f) st = (Inr (f (rows (itemdb st))), count_call st)"
proof -
  assume "db_ok st"
  then have "db_ok (count_call st)" by simp
  then show ?thesis by (simp add: on_items_def query_def count_call_def calls_def Let_def)
qed

lemma sample_select: "\<exists>st'. SelectCharacter no_fault 9 1 ''alice'' sample_char_db = (Inr (sample_character 5 ''Bob'' 1), st')"
proof -
  let ?c = "sample_character 5 ''Bob'' 1" and ?st = "sample_char_db"
  have row: "GetByAccountSlotID no_fault ''alice'' 1 ?st = (Inr (Some ?c), count_call ?st)"
    by (simp add: GetByAccountSlotID_def db_query_def) (simp add: char_rows_def sample_char_db_def)
  have "update_chars 1 f (count_call ?st) = count_call ?st" for f
    by (simp add: update_chars_def) (simp add: sample_char_db_def count_call_def)
  then have stamp: "UpdateLastAccess no_fault 9 1 (count_call ?st) = (Inr (), count_call (count_call ?st))"
    using sample_char_db_ok by (simp add: UpdateLastAccess_def db_exec_def)
  have worn: "on_items (GetPaperdoll no_fault 5) (count_call (count_call ?st)) = (Inr [], count_call (count_call (count_call ?st)))"
    using sample_char_db_ok by (simp add: GetPaperdoll_def on_items_query) (simp add: sample_char_db_def empty_db_def)
  have "\<not> IsMarkedForDeletion ?c" by (simp add: IsMarkedForDeletion_def)
  then show ?thesis
    by (simp add: SelectCharacter_def db_bind_def db_wrap_def db_guard_def db_return_def db_try_def row stamp worn)
qed

lemma select_stamps_another_character_witness:
  "\<exists>st'. SelectCharacter no_fault 9 1 ''alice'' sample_char_db = (Inr (sample_character 5 ''Bob'' 1), st')
     \<and> map_of (chars st') 5 = map_of (chars sample_char_db) 5"
proof -
  obtain st' where "SelectCharacter no_fault 9 1 ''alice'' sample_char_db = (Inr (sample_character 5 ''Bob'' 1), st')"
    using sample_select by blast
  with select_stamps_another_character [OF sample_char_db_ok this] show ?thesis by simp
qed

lemma deletion_is_complete_witness:
  "case DeleteCharacter no_fault 9 5 ''alice'' sample_char_db of
     (Inl e, st') \<Rightarrow> same_tables sample_char_db st' | (Inr _, st') \<Rightarrow> map_of (chars st') 5 = None"
proof (cases "DeleteCharacter no_fault 9 5 ''alice'' sample_char_db")
  case (Pair r st')
  have "map_of (chars sample_char_db) 5 = Some (sample_character 5 ''Bob'' 1)" by (simp add: sample_char_db_def)
  with deletion_is_complete [OF sample_char_db_ok Pair] show ?thesis by (simp add: Pair split: sum.splits)
qed

end
