(* ===== verification/Experience.thy ===== *)
theory Experience
  imports CharacterTemplates Complex_Main
begin

text \<open>
  Experience and levels, \<open>gameserver/data/experience.go\<close>. Floating-point factors are exact rationals here, and a
  conversion to an integer cuts the exact value; the code's \<open>float64\<close> may differ from it in the last unit.
\<close>

section \<open>The table\<close>

definition expTable :: "int list" where
  "expTable =
    [0, 0, 68, 363, 1168, 2884, 6038, 11287, 19423, 31378, 48229, 71202, 101677, 141193, 191454, 254330,
     331867, 426288, 540000, 675596, 835862, 1023784, 1242546, 1495543, 1786379, 2118876, 2497077,
     2925250, 3407897, 3949754, 4555796, 5231246, 5981576, 6812513, 7730044, 8740422, 9850166, 11066072,
     12395215, 13844951, 15422929, 17137087, 18995665, 21007203, 23180550, 25524868, 28049635, 30764654,
     33680052, 36806289, 40154162, 45525133, 51262490, 57383988, 63907911, 70853089, 80700831, 91162654,
     102265881, 114038596, 126509653, 146308200, 167244337, 189364894, 212717908, 237352644, 271975263,
     308443198, 346827154, 387199547, 429634523, 474207979, 532694979, 606322775, 696381369, 804225364,
     931275828, 1151275834, 1511275834, 2044287599, 3075966164, 4295351949, 5766985062, 7793077345,
     10235368963, 13180481103, 16890558728, 21138534249]"

definition MaxLevel :: int where "MaxLevel = 85"

definition ExpForLevel :: "int \<Rightarrow> int" where
  "ExpForLevel level = (if level < 1 \<or> level > 87 then 0 else expTable ! nat level)"

text \<open>The loop of \<open>LevelForExp\<close> from \<open>lvl\<close> down to 1.\<close>

fun level_down :: "nat \<Rightarrow> int \<Rightarrow> int" where
  "level_down 0 totalExp = 1"
| "level_down (Suc l) totalExp =
     (if totalExp \<ge> expTable ! Suc l then int (Suc l) else level_down l totalExp)"

definition LevelForExp :: "int \<Rightarrow> int" where
  "LevelForExp totalExp = level_down 87 totalExp"

text \<open>A level below \<open>-1\<close> is an index out of range: \<open>None\<close>.\<close>

definition ExpToNextLevel :: "int \<Rightarrow> int \<Rightarrow> int option" where
  "ExpToNextLevel currentLevel currentExp =
     (if currentLevel \<ge> MaxLevel then Some 0
      else if currentLevel + 1 < 0 then None
      else let nextLevelExp = expTable ! nat (currentLevel + 1); remaining = nextLevelExp - currentExp
           in Some (if remaining < 0 then 0 else remaining))"

definition ExpPercent :: "int \<Rightarrow> int \<Rightarrow> rat" where
  "ExpPercent currentLevel currentExp =
     (if currentLevel \<ge> MaxLevel \<or> currentLevel < 1 then 0
      else let curThreshold = expTable ! nat currentLevel;
               nextThreshold = expTable ! nat (currentLevel + 1);
               total' = nextThreshold - curThreshold
           in if total' \<le> 0 then 0
              else let progress = currentExp - curThreshold
                   in if progress < 0 then 0
                      else let pct = of_int progress / of_int total' * 100 in if pct > 100 then 100 else pct)"

text \<open>The conversion of a floating-point number to an integer: towards zero.\<close>

definition trunc :: "rat \<Rightarrow> int" where
  "trunc q = (if q < 0 then - \<lfloor>- q\<rfloor> else \<lfloor>q\<rfloor>)"

definition CalcNPCBaseExp :: "int \<Rightarrow> rat \<Rightarrow> int" where
  "CalcNPCBaseExp npcLevel expRate = trunc (of_int (npcLevel * npcLevel) * expRate)"

definition LevelPenalty :: "int \<Rightarrow> int \<Rightarrow> rat" where
  "LevelPenalty playerLevel npcLevel =
     (let diff = playerLevel - npcLevel in if diff \<le> 5 then 1 else (5 / 6) ^ nat (diff - 5))"

section \<open>Facts\<close>

lemma length_expTable [simp]: "length expTable = 88"
  by (simp add: expTable_def)

definition increasing :: "int list \<Rightarrow> bool" where
  "increasing xs = list_all (\<lambda>(a, b). a < b) (zip xs (tl xs))"

lemma expTable_steps: "increasing (tl expTable)"
  by (simp add: increasing_def expTable_def)

lemma increasing_sorted: "increasing xs \<Longrightarrow> sorted_wrt (<) xs"
proof (induction xs)
  case (Cons x xs)
  show ?case
  proof (cases xs)
    case (Cons y ys)
    with \<open>increasing (x # xs)\<close> have "x < y" and "increasing xs"
      by (auto simp: increasing_def)
    then show ?thesis
      using Cons.IH Cons by auto
  qed simp
qed simp

lemma expTable_less: "1 \<le> i \<Longrightarrow> i < j \<Longrightarrow> j < 88 \<Longrightarrow> expTable ! i < expTable ! j"
proof -
  assume *: "1 \<le> i" "i < j" "j < 88"
  have "tl expTable ! (i - 1) < tl expTable ! (j - 1)"
    using sorted_wrt_nth_less [OF increasing_sorted [OF expTable_steps], of "i - 1" "j - 1"] * by simp
  then show ?thesis
    using * by (simp add: nth_tl)
qed

lemma expTable_le: "1 \<le> i \<Longrightarrow> i \<le> j \<Longrightarrow> j < 88 \<Longrightarrow> expTable ! i \<le> expTable ! j"
  using expTable_less [of i j] by (cases "i = j") simp_all

lemma expTable_1: "expTable ! 1 = 0"
  by (simp add: expTable_def)

text \<open>\<open>LevelForExp\<close> is the highest level whose threshold is reached.\<close>

lemma level_down_bounds: "1 \<le> level_down n e" "level_down n e \<le> max 1 (int n)"
  by (induction n) auto

lemma level_down_reached: "1 < level_down n e \<Longrightarrow> expTable ! nat (level_down n e) \<le> e"
  by (induction n) (auto split: if_splits simp: nat_add_distrib)

lemma level_down_next: "level_down n e < int k \<Longrightarrow> k \<le> n \<Longrightarrow> 1 \<le> k \<Longrightarrow> e < expTable ! k"
  by (induction n) (auto split: if_splits simp: le_Suc_eq)

lemma LevelForExp_bounds: "1 \<le> LevelForExp e" "LevelForExp e \<le> 87"
  using level_down_bounds [where n = 87 and e = e] by (simp_all add: LevelForExp_def)

lemma LevelForExp_reached: "0 \<le> e \<Longrightarrow> ExpForLevel (LevelForExp e) \<le> e"
  using level_down_reached [where n = 87 and e = e] LevelForExp_bounds [of e] expTable_1
  by (cases "LevelForExp e = 1") (auto simp: LevelForExp_def ExpForLevel_def)

lemma LevelForExp_next: "LevelForExp e < l \<Longrightarrow> l \<le> 87 \<Longrightarrow> e < ExpForLevel l"
  using level_down_next [of 87 e "nat l"] LevelForExp_bounds [of e] by (auto simp: LevelForExp_def ExpForLevel_def)

lemma LevelForExp_mono: "a \<le> b \<Longrightarrow> LevelForExp a \<le> LevelForExp b"
proof (rule ccontr)
  assume "a \<le> b" and "\<not> LevelForExp a \<le> LevelForExp b"
  then have "b < ExpForLevel (LevelForExp a)" and "1 < LevelForExp a"
    using LevelForExp_next [of b "LevelForExp a"] LevelForExp_bounds [of a] LevelForExp_bounds [of b] by auto
  moreover have "expTable ! nat (LevelForExp a) \<le> a"
    using level_down_reached [where n = 87 and e = a] \<open>1 < LevelForExp a\<close> by (simp add: LevelForExp_def)
  ultimately show False
    using \<open>a \<le> b\<close> LevelForExp_bounds [of a] by (simp add: ExpForLevel_def)
qed

lemma ExpForLevel_less: "1 \<le> l \<Longrightarrow> l < m \<Longrightarrow> m \<le> 87 \<Longrightarrow> ExpForLevel l < ExpForLevel m"
  by (simp add: ExpForLevel_def) (rule expTable_less; simp)

lemma LevelPenalty_range: "0 < LevelPenalty p n" "LevelPenalty p n \<le> 1"
  by (auto simp: LevelPenalty_def Let_def power_le_one)

lemma trunc_le: "0 \<le> q \<Longrightarrow> of_int (trunc q) \<le> q"
  by (simp add: trunc_def)

lemma trunc_nonneg: "0 \<le> q \<Longrightarrow> 0 \<le> trunc q"
  by (simp add: trunc_def)

text \<open>
  C32: Levels and experience. \<open>LevelForExp\<close> is the inverse of the table on levels: the threshold of a level
  from 1 to 87 gives that level, an amount of experience is between the threshold of its level and that of
  the next one, and more experience never lowers the level.
\<close>

theorem level_thresholds:
  "(\<forall>l \<in> {1..87}. LevelForExp (ExpForLevel l) = l)
   \<and> (\<forall>e. 0 \<le> e \<longrightarrow> ExpForLevel (LevelForExp e) \<le> e
        \<and> (LevelForExp e < 87 \<longrightarrow> e < ExpForLevel (LevelForExp e + 1)))
   \<and> (\<forall>a b. a \<le> b \<longrightarrow> LevelForExp a \<le> LevelForExp b)"
proof (intro conjI ballI allI impI)
  fix l :: int
  assume l: "l \<in> {1..87}"
  have nonneg: "0 \<le> ExpForLevel l"
    using ExpForLevel_less [of 1 l] l expTable_1 by (cases "l = 1") (auto simp: ExpForLevel_def)
  have "\<not> LevelForExp (ExpForLevel l) < l"
    using LevelForExp_next [of "ExpForLevel l" l] l by auto
  moreover have "\<not> l < LevelForExp (ExpForLevel l)"
    using LevelForExp_reached [OF nonneg] ExpForLevel_less [of l "LevelForExp (ExpForLevel l)"] l
      LevelForExp_bounds [of "ExpForLevel l"] by auto
  ultimately show "LevelForExp (ExpForLevel l) = l"
    by simp
qed (use LevelForExp_reached LevelForExp_next LevelForExp_mono in auto)

lemma level_thresholds_witness:
  "LevelForExp 67 = 1 \<and> LevelForExp 68 = 2 \<and> LevelForExp (ExpForLevel 20) = 20"
proof -
  have "LevelForExp (ExpForLevel 20) = 20"
    using level_thresholds by auto
  then show ?thesis
    by (simp add: LevelForExp_def expTable_def numeral_eq_Suc)
qed

end
