(* ===== verification/CharStats.thy ===== *)
theory CharStats
  imports Experience Buffs Characters "HOL-Library.Multiset"
begin

text \<open>
  The derived statistics of a character: \<open>ComputeStats\<close> and the methods it uses (\<open>models/statcalc.go\<close>,
  \<open>models/stats.go\<close>), the modifiers of passive skills, equipment and buffs (\<open>models/statmods.go\<close>) and
  \<open>ComputeCharacterStats\<close> (\<open>usecase/character_templates.go\<close>). Modifiers are rational numbers and every product is
  exact; a square root is only ever rounded or cut to an integer, which is computed with integers.
\<close>

section \<open>Rounding\<close>

text \<open>\<open>math.Round\<close>: half away from zero.\<close>

definition math_Round :: "rat \<Rightarrow> int" where
  "math_Round q = (if q < 0 then - \<lfloor>1 / 2 - q\<rfloor> else \<lfloor>q + 1 / 2\<rfloor>)"

text \<open>The integer square root, two bits at a time.\<close>

fun isqrt :: "nat \<Rightarrow> nat" where
  "isqrt n =
     (if n = 0 then 0
      else let r = 2 * isqrt (n div 4) in if (r + 1) * (r + 1) \<le> n then r + 1 else r)"

declare isqrt.simps [simp del]

lemma isqrt_bounds: "isqrt n * isqrt n \<le> n \<and> n < (isqrt n + 1) * (isqrt n + 1)"
proof (induction n rule: isqrt.induct)
  case (1 n)
  show ?case
  proof (cases "n = 0")
    case False
    let ?r = "isqrt (n div 4)"
    have IH: "?r * ?r \<le> n div 4" "n div 4 < (?r + 1) * (?r + 1)"
      using 1 [OF False] by auto
    have low: "(2 * ?r) * (2 * ?r) \<le> n"
      using IH(1) by linarith
    have "n div 4 + 1 \<le> (?r + 1) * (?r + 1)"
      using IH(2) by linarith
    then have high: "n < (2 * ?r + 2) * (2 * ?r + 2)"
      by (simp add: algebra_simps)
    show ?thesis
      by (subst (1 2 3 4) isqrt.simps) (use low high False in \<open>auto simp: Let_def\<close>)
  qed (simp add: isqrt.simps)
qed

lemma isqrt_floor: "\<lfloor>sqrt (real n)\<rfloor> = int (isqrt n)"
proof -
  have "real (isqrt n) \<le> sqrt (real n)"
    using isqrt_bounds [of n] by (intro real_le_rsqrt) (simp add: power2_eq_square flip: of_nat_mult)
  moreover have "real n < real ((isqrt n + 1) * (isqrt n + 1))"
    using isqrt_bounds [of n] by (simp only: of_nat_less_iff)
  then have "sqrt (real n) < real (isqrt n) + 1"
    by (intro real_less_lsqrt) (simp_all add: power2_eq_square algebra_simps)
  ultimately show ?thesis
    by (simp add: floor_eq_iff)
qed

lemma isqrt_mono: "m \<le> n \<Longrightarrow> isqrt m \<le> isqrt n"
proof (rule ccontr)
  assume "m \<le> n" and "\<not> isqrt m \<le> isqrt n"
  then have "(isqrt n + 1) * (isqrt n + 1) \<le> isqrt m * isqrt m"
    by (intro mult_le_mono) auto
  then show False
    using isqrt_bounds [of m] isqrt_bounds [of n] \<open>m \<le> n\<close> by linarith
qed

text \<open>The root of \<open>m\<close> plus \<open>q\<close> tenths, rounded.\<close>

definition round_sqrt :: "nat \<Rightarrow> int \<Rightarrow> int" where
  "round_sqrt m q = (int (isqrt (100 * m)) + q + 5) div 10"

lemma round_sqrt: "round_sqrt m q = \<lfloor>sqrt (real m) + real_of_int q / 10 + 1 / 2\<rfloor>"
proof -
  have "sqrt (real (100 * m)) = 10 * sqrt (real m)"
    using real_sqrt_abs2 [of 10] by (simp add: real_sqrt_mult)
  then have "sqrt (real m) + real_of_int q / 10 + 1 / 2 = (sqrt (real (100 * m)) + real_of_int (q + 5)) / real_of_int 10"
    by (simp add: field_simps)
  also have "\<lfloor>\<dots>\<rfloor> = \<lfloor>sqrt (real (100 * m)) + real_of_int (q + 5)\<rfloor> div 10"
    by (rule floor_divide_real_eq_div) simp
  also have "\<dots> = (int (isqrt (100 * m)) + (q + 5)) div 10"
    by (simp only: floor_add_int [symmetric] isqrt_floor)
  finally show ?thesis
    by (simp add: round_sqrt_def add.assoc)
qed

section \<open>The derived statistics\<close>

record CharacterStats =
  bsSTR :: int
  bsDEX :: int
  bsCON :: int
  bsINT :: int
  bsWIT :: int
  bsMEN :: int

record ComputedStats =
  csPAtk :: int
  csMAtk :: int
  csPDef :: int
  csMDef :: int
  csAccuracy :: int
  csEvasion :: int
  csCritRate :: int
  csPAtkSpd :: int
  csMAtkSpd :: int
  csRunSpd :: int
  csWalkSpd :: int
  csSwimRunSpd :: int
  csSwimWalkSpd :: int
  csMaxHP :: int
  csMaxMP :: int
  csMaxCP :: int
  csMaxLoad :: int

text \<open>\<open>CalcAccuracy\<close> and \<open>CalcEvasion\<close> with the rounding their results undergo; \<open>dex\<close> is not negative.\<close>

definition CalcAccuracy :: "int \<Rightarrow> int \<Rightarrow> int" where
  "CalcAccuracy dex level =
     round_sqrt (nat (36 * dex))
       (10 * (level + (if level > 77 then level - 76 else 0) + (if level > 69 then level - 69 else 0)))"

definition CalcEvasion :: "int \<Rightarrow> int \<Rightarrow> int" where
  "CalcEvasion dex level =
     round_sqrt (nat (36 * dex))
       (10 * level + (if level \<ge> 78 then (level - 69) * 12 else if level \<ge> 70 then (level - 69) * 10 else 0))"

text \<open>The bonuses and \<open>LevelMod\<close> are in hundredths.\<close>

definition ComputeStats :: "CharacterStats \<Rightarrow> int \<Rightarrow> CombatBaseStats \<Rightarrow> ComputedStats" where
  "ComputeStats b level combat =
     (let levelMod = LevelMod level;
          strB = STRBonus (bsSTR b); intB = INTBonus (bsINT b); dexB = DEXBonus (bsDEX b);
          witB = WITBonus (bsWIT b); conB = CONBonus (bsCON b); menB = MENBonus (bsMEN b)
      in \<lparr>csPAtk = math_Round (of_int (BasePAtk combat * strB * levelMod) / 10000),
          csMAtk = math_Round (of_int (BaseMAtk combat * intB * intB * levelMod * levelMod) / 100000000),
          csPDef = math_Round (of_int (TotalBasePDef combat * levelMod) / 100),
          csMDef = math_Round (of_int (TotalBaseMDef combat * menB * levelMod) / 10000),
          csAccuracy = CalcAccuracy (bsDEX b) level,
          csEvasion = CalcEvasion (bsDEX b) level,
          csCritRate = math_Round (of_int (BaseCritRate combat * dexB * 10) / 100),
          csPAtkSpd = math_Round (of_int (BasePAtkSpd combat * dexB) / 100),
          csMAtkSpd = math_Round (of_int (BaseMAtkSpd combat * witB) / 100),
          csRunSpd = math_Round (of_int (BaseRunSpd combat * dexB) / 100),
          csWalkSpd = math_Round (of_int (BaseWalkSpd combat * dexB) / 100),
          csSwimRunSpd = math_Round (of_int (BaseSwimRunSpd combat * dexB) / 100),
          csSwimWalkSpd = math_Round (of_int (BaseSwimWalkSpd combat * dexB) / 100),
          csMaxHP = 0, csMaxMP = 0, csMaxCP = 0,
          csMaxLoad = trunc (of_int (69000 * conB) / 100)\<rparr>)"

section \<open>Modifiers\<close>

text \<open>The accumulators of the loop of \<open>reduceModifiers\<close>.\<close>

record mod_acc =
  maSet :: "rat option"
  maAdd :: rat
  maSub :: rat
  maMul :: rat
  maDiv :: rat

definition mod_step :: "rat StatModifier \<Rightarrow> mod_acc \<Rightarrow> mod_acc" where
  "mod_step m a =
     (if smOp m = ''add'' then a\<lparr>maAdd := maAdd a + smVal m\<rparr>
      else if smOp m = ''sub'' then a\<lparr>maSub := maSub a + smVal m\<rparr>
      else if smOp m = ''mul'' then a\<lparr>maMul := maMul a * smVal m\<rparr>
      else if smOp m = ''div'' then (if smVal m \<noteq> 0 then a\<lparr>maDiv := maDiv a * smVal m\<rparr> else a)
      else if smOp m = ''set'' then a\<lparr>maSet := Some (smVal m)\<rparr>
      else a)"

definition reduceModifiers :: "rat \<Rightarrow> rat StatModifier list \<Rightarrow> rat" where
  "reduceModifiers base ms =
     (let a = fold mod_step ms \<lparr>maSet = None, maAdd = 0, maSub = 0, maMul = 1, maDiv = 1\<rparr>;
          value' = (case maSet a of None \<Rightarrow> base | Some v \<Rightarrow> v)
      in (value' + maAdd a - maSub a) * maMul a / maDiv a)"

text \<open>\<open>apply\<close>: a statistic without a modifier is left alone.\<close>

definition apply_mods :: "rat StatModifier list \<Rightarrow> string \<Rightarrow> int \<Rightarrow> int" where
  "apply_mods mods stat field =
     (let ms = filter (\<lambda>m. smStat m = stat) mods
      in if ms = [] then field else math_Round (reduceModifiers (of_int field) ms))"

definition ApplyStatModifiers :: "ComputedStats \<Rightarrow> rat StatModifier list \<Rightarrow> ComputedStats" where
  "ApplyStatModifiers cs mods =
     (if mods = [] then cs
      else cs\<lparr>csPAtk := apply_mods mods ''pAtk'' (csPAtk cs),
              csMAtk := apply_mods mods ''mAtk'' (csMAtk cs),
              csPDef := apply_mods mods ''pDef'' (csPDef cs),
              csMDef := apply_mods mods ''mDef'' (csMDef cs),
              csPAtkSpd := apply_mods mods ''pAtkSpd'' (csPAtkSpd cs),
              csMAtkSpd := apply_mods mods ''mAtkSpd'' (csMAtkSpd cs),
              csAccuracy := apply_mods mods ''accCombat'' (csAccuracy cs),
              csEvasion := apply_mods mods ''rEvas'' (csEvasion cs),
              csCritRate := apply_mods mods ''critRate'' (csCritRate cs),
              csRunSpd := apply_mods mods ''runSpd'' (csRunSpd cs),
              csWalkSpd := apply_mods mods ''walkSpd'' (csWalkSpd cs),
              csMaxHP := apply_mods mods ''maxHp'' (csMaxHP cs),
              csMaxMP := apply_mods mods ''maxMp'' (csMaxMP cs),
              csMaxCP := apply_mods mods ''maxCp'' (csMaxCP cs),
              csMaxLoad := apply_mods mods ''weightLimit'' (csMaxLoad cs)\<rparr>)"

text \<open>The modifiers a passive skill grants; \<open>None\<close> is a nil skill.\<close>

definition skill_IsPassive :: "'f Skill \<Rightarrow> bool" where
  "skill_IsPassive s \<longleftrightarrow> skOperateType s = ''P''"

definition PassiveModifiers :: "'f Skill option \<Rightarrow> 'f StatModifier list" where
  "PassiveModifiers skill =
     (case skill of
        None \<Rightarrow> []
      | Some s \<Rightarrow>
          if \<not> skill_IsPassive s then []
          else concat (map (\<lambda>e. ModifiersFromFuncs (seFuncs e)) (filter (\<lambda>e. seScope e = ''PASSIVE'') (skEffects s))))"

definition char_base_stats :: "Character \<Rightarrow> CharacterStats" where
  "char_base_stats c = \<lparr>bsSTR = BaseSTR c, bsDEX = BaseDEX c, bsCON = BaseCON c, bsINT = BaseINT c,
     bsWIT = BaseWIT c, bsMEN = BaseMEN c\<rparr>"

text \<open>\<open>char.StatMods\<close> is not a column: it is an argument.\<close>

definition ComputeCharacterStats :: "Character \<Rightarrow> rat StatModifier list \<Rightarrow> ComputedStats" where
  "ComputeCharacterStats c StatMods =
     ApplyStatModifiers (ComputeStats (char_base_stats c) (Level c) (GetCombatBaseStatsByClass (ClassID c))) StatMods"

section \<open>The formula of a modified statistic\<close>

definition vals :: "string \<Rightarrow> rat StatModifier list \<Rightarrow> rat list" where
  "vals op ms = map smVal (filter (\<lambda>m. smOp m = op) ms)"

text \<open>(base + additions - subtractions) times the factors, divided by the divisors that are not zero.\<close>

definition stat_formula :: "rat \<Rightarrow> rat StatModifier list \<Rightarrow> rat" where
  "stat_formula base ms =
     ((if vals ''set'' ms = [] then base else last (vals ''set'' ms)) + sum_list (vals ''add'' ms) - sum_list (vals ''sub'' ms))
       * prod_list (vals ''mul'' ms) / prod_list (filter (\<lambda>v. v \<noteq> 0) (vals ''div'' ms))"

lemma mod_fold:
  "fold mod_step ms a =
     \<lparr>maSet = (if vals ''set'' ms = [] then maSet a else Some (last (vals ''set'' ms))),
      maAdd = maAdd a + sum_list (vals ''add'' ms), maSub = maSub a + sum_list (vals ''sub'' ms),
      maMul = maMul a * prod_list (vals ''mul'' ms),
      maDiv = maDiv a * prod_list (filter (\<lambda>v. v \<noteq> 0) (vals ''div'' ms))\<rparr>"
  by (induction ms arbitrary: a) (auto simp: vals_def mod_step_def)

lemma reduceModifiers_formula: "reduceModifiers base ms = stat_formula base ms"
  by (simp add: reduceModifiers_def mod_fold stat_formula_def Let_def)

lemma vals_mset: "mset ms = mset ns \<Longrightarrow> mset (vals op ms) = mset (vals op ns)"
  by (simp add: vals_def mset_filter)

lemma prod_list_mset: "mset xs = mset ys \<Longrightarrow> prod_list xs = (prod_list ys :: rat)"
  by (metis prod_mset_prod_list)

lemma sum_list_mset: "mset xs = mset ys \<Longrightarrow> sum_list xs = (sum_list ys :: rat)"
  by (metis sum_mset_sum_list)

definition one_set_value :: "rat StatModifier list \<Rightarrow> bool" where
  "one_set_value mods \<longleftrightarrow>
     (\<forall>m \<in> set mods. \<forall>n \<in> set mods. smStat m = smStat n \<and> smOp m = ''set'' \<and> smOp n = ''set'' \<longrightarrow> smVal m = smVal n)"

lemma stat_formula_mset:
  assumes "mset ms = mset ns" and "\<forall>v \<in> set (vals ''set'' ms). \<forall>w \<in> set (vals ''set'' ms). v = w"
  shows "stat_formula base ms = stat_formula base ns"
proof -
  have sets: "set (vals ''set'' ms) = set (vals ''set'' ns)" for op
    using vals_mset [OF assms(1)] by (rule mset_eq_setD)
  then have "last (vals ''set'' ms) = last (vals ''set'' ns)" if "vals ''set'' ms \<noteq> []"
    using that assms(2) by (metis last_in_set set_empty)
  moreover have "vals ''set'' ms = [] \<longleftrightarrow> vals ''set'' ns = []"
    using sets by (metis set_empty)
  moreover have "prod_list (filter (\<lambda>v. v \<noteq> 0) (vals ''div'' ms)) = prod_list (filter (\<lambda>v. v \<noteq> 0) (vals ''div'' ns))"
    by (rule prod_list_mset) (simp add: mset_filter vals_mset [OF assms(1)])
  ultimately show ?thesis
    using prod_list_mset [OF vals_mset [OF assms(1), of "''mul''"]] sum_list_mset [OF vals_mset [OF assms(1), of "''add''"]]
      sum_list_mset [OF vals_mset [OF assms(1), of "''sub''"]]
    by (simp add: stat_formula_def)
qed

lemma apply_mods_mset:
  assumes "mset mods = mset mods'" and "one_set_value mods"
  shows "apply_mods mods stat field = apply_mods mods' stat field"
proof -
  let ?f = "filter (\<lambda>m. smStat m = stat)"
  have same: "mset (?f mods) = mset (?f mods')"
    by (simp add: mset_filter assms(1))
  have "stat_formula b (?f mods) = stat_formula b (?f mods')" for b
    using assms(2) by (intro stat_formula_mset [OF same]) (auto simp: vals_def one_set_value_def)
  moreover have "?f mods = [] \<longleftrightarrow> ?f mods' = []"
    using same by (metis mset_zero_iff)
  ultimately show ?thesis
    by (simp add: apply_mods_def Let_def reduceModifiers_formula)
qed


definition sample_mods :: "rat StatModifier list" where
  "sample_mods = [\<lparr>smStat = ''pAtk'', smOp = ''mul'', smVal = 3 / 2\<rparr>, \<lparr>smStat = ''pAtk'', smOp = ''add'', smVal = 7\<rparr>,
     \<lparr>smStat = ''pDef'', smOp = ''set'', smVal = 100\<rparr>]"


end
