(* ===== verification/CombatModel.thy ===== *)
theory CombatModel
  imports CharStats EventQueue
begin

text \<open>
  The state of the game loop and the combat it runs: \<open>gameserver/gameloop\<close> (\<open>gameloop.go\<close>, \<open>events.go\<close>,
  \<open>npc_combat.go\<close>, \<open>combat.go\<close>, \<open>combattarget.go\<close>, \<open>combat_range.go\<close>, \<open>intention.go\<close>, \<open>movement_interp.go\<close>,
  \<open>experience.go\<close>, \<open>pvp.go\<close>, \<open>autoshot.go\<close>, \<open>regen.go\<close>, \<open>restore.go\<close>) with \<open>models/npc.go\<close> and \<open>models/regen.go\<close>.

  An operation takes the state and returns it changed. \<open>now\<close> is the clock during one command or event. The
  random numbers are a stream in the environment; the state counts how many have been drawn. What is sent is
  recorded with the route it takes: everyone near a position, everyone who targets an object, one player, one
  account. Events that are scheduled are appended to \<open>glNew\<close> and pushed into the queue, in this order, when
  the command or event that made them is over, which gives the same queue. A player in the world has a
  character and an NPC a template (\<open>AddPlayer\<close> and \<open>AddNPC\<close> use them), so the tests for nil are not there;
  the memoized statistics of \<open>computePlayerStats\<close> are recomputed. Effects and PvP flags are those of the
  theory Buffs, applied to this state by \<open>with_buffs\<close>. What regions and visibility do on a call is in
  GameRegions and Visibility; here the call is recorded.
\<close>

section \<open>The objects\<close>

record NpcTemplate =
  ntID :: int
  ntName :: string
  ntLevel :: int
  ntType :: string
  ntHP :: rat
  ntMP :: rat
  ntPAtk :: rat
  ntPAtkSpd :: int
  ntPDef :: rat
  ntMDef :: rat
  ntCritRate :: int
  ntAttackRange :: int
  ntRewardExp :: int
  ntRewardSp :: int
  ntCollisionRadius :: rat

record NpcInstance =
  niObjectID :: int
  niTemplateID :: int
  niTemplate :: NpcTemplate
  niPosition :: Position
  niHeading :: int
  niIsRunning :: bool
  niIsDead :: bool
  niCurrentHP :: rat
  niCurrentMP :: rat

definition IsAttackable :: "NpcInstance \<Rightarrow> bool" where
  "IsAttackable n \<longleftrightarrow> ntType (niTemplate n) \<in> set [''L2Monster'', ''L2RaidBoss'', ''L2GrandBoss'',
     ''L2Attackable'', ''L2FeedableBeast'', ''L2Guard'', ''L2Chest'', ''L2MonsterInstance'']"

record CastState =
  ctID :: int
  ctSkillID :: int
  ctSkillLevel :: int
  ctTargetID :: int

text \<open>The fields of \<open>PlayerWorldState\<close> the game loop uses, with \<open>Character.StatMods\<close>.\<close>

record loop_player =
  lpCharID :: int
  lpAccountName :: string
  lpCharacter :: Character
  lpPosition :: Position
  lpHeading :: int
  lpInCombat :: bool
  lpPvPFlagUntil :: "int option"
  lpIsTeleporting :: bool
  lpIsMoving :: bool
  lpMoveStarted :: int
  lpMoveStartPos :: Position
  lpMoveDestination :: Position
  lpIsRunning :: bool
  lpTargetID :: int
  lpKnownSkills :: "(int, int) go_map"
  lpCasting :: "CastState option"
  lpPassiveMods :: "rat StatModifier list"
  lpEquipMods :: "rat StatModifier list"
  lpEffects :: "rat CharEffectList"
  lpStatMods :: "rat StatModifier list"

text \<open>A skill with the fields a cast reads.\<close>

record cast_skill = "rat Skill" +
  skMagic :: int
  skTargetType :: string
  skCastRange :: int
  skHitTime :: int
  skReuseDelay :: int
  skMpConsume1 :: int
  skMpConsume2 :: int
  skIsDebuff :: bool

datatype Intention =
  IntentionIdle | IntentionMoveTo | IntentionAttack | IntentionInteract | IntentionCast | IntentionFollow

record PlayerAIState =
  aiIntention :: Intention
  aiTargetObjectID :: int

record SpawnInfo =
  spTemplateID :: int
  spPosition :: Position
  spHeading :: int

record PlayerCombatState =
  IsAutoAttacking :: bool
  TargetObjectID :: int
  LastAttackTime :: int
  csAccountName :: string

record NPCCombatState =
  IsAttacking :: bool
  TargetCharID :: int
  ncsLastAttackTime :: int

record CmdCastRequest =
  CasterCharID :: int
  castSkillID :: int
  CtrlPressed :: bool
  ShiftPressed :: bool

section \<open>Events, packets, state\<close>

datatype loop_event =
    CastApproachEvent int int CmdCastRequest
  | InteractApproachEvent int int string
  | NextAttackEvent int int
  | HitEvent int int int
  | RespawnEvent int
  | CorpseDecayEvent int
  | CombatStanceTimeoutEvent int
  | NPCNextAttackEvent int int
  | NPCHitEvent int int int
  | CastHitEvent int int

datatype route = Nearby Position int | Targeters int | ToPlayer int | ToAccount string

datatype loop_packet =
    AutoAttackStart int
  | AutoAttackStop int
  | AttackPacket int int int int Position Position
  | StatusUpdate int "(string \<times> int) list"
  | Die int
  | StopMove int Position int
  | MoveToPawn int int int Position Position
  | NpcHtmlMessage int
  | ActionFailed
  | SystemMessage string
  | DamageMessage string int int int
  | ExpMessage int int
  | UserInfoPacket int
  | DeleteObjectPacket int
  | MagicSkillUse int int int int int int
  | MagicSkillLaunched int int int int
  | MagicSkillCanceled int
  | SetupGauge int int
  | SkillCoolTime int int int
  | TeleportToLocation int Position int
  | Revive int
  | CreatureSay int int string string
  | BuffPacket buff_action

text \<open>Calls of other parts of the server.\<close>

datatype loop_call =
    PersistCharacter Character
  | RechargeAutoShots int
  | UpdateRegions int int int
  | LeaveRegions int
  | ReconcileVisibility int
  | DespawnFromAll int
  | DecayFromView int Position

datatype loop_output = Send route loop_packet | Call loop_call

record game_loop =
  glPlayers :: "(int, loop_player) go_map"
  glNpcs :: "(int, NpcInstance) go_map"
  combatState :: "(int, PlayerCombatState) go_map"
  aiState :: "(int, PlayerAIState) go_map"
  npcCombatState :: "(int, NPCCombatState) go_map"
  npcHateLists :: "(int, hate_list) go_map"
  npcSpawnInfo :: "(int, SpawnInfo) go_map"
  interactPending :: "(int, int) go_map"
  castPending :: "(int, CmdCastRequest) go_map"
  skillReuse :: "(int, (int, int) go_map) go_map"
  castSeq :: int
  glBuffed :: "(int, unit) go_map"
  glFlagged :: "(int, unit) go_map"
  glShots :: charged_shots
  glAutos :: auto_shots
  glNextID :: int
  glDraws :: nat
  glNew :: "loop_event event list"
  glOut :: "loop_output list"

text \<open>
  The environment: the random stream with values in [0, 1), the NPC templates, the skill data (\<open>None\<close> when
  it is not wired), the rates, \<open>strconv.ParseFloat\<close>, the respawn point of a place, which accounts have
  a connection, and whether the sink of the automatic shots is wired and takes the value.
\<close>

record loop_env =
  rng :: "nat \<Rightarrow> rat"
  npcTemplates :: "int \<Rightarrow> NpcTemplate option"
  skillData :: "(int \<Rightarrow> int \<Rightarrow> cast_skill option) option"
  expRate :: rat
  spRate :: rat
  parseFloat :: "string \<Rightarrow> rat option"
  respawnPoint :: "int \<Rightarrow> int \<Rightarrow> Position option"

definition millis :: int where "millis = 1000000"

definition broadcastRadius :: int where "broadcastRadius = 3900"
definition corpseDecayDelay :: int where "corpseDecayDelay = 7 * second"
definition respawnDelay :: int where "respawnDelay = 60 * second"
definition combatStanceTimeout :: int where "combatStanceTimeout = 15 * second"

section \<open>Access to the state\<close>

definition GetPlayer :: "int \<Rightarrow> game_loop \<Rightarrow> loop_player option" where
  "GetPlayer i gl = map_of (glPlayers gl) i"

definition GetNPC :: "int \<Rightarrow> game_loop \<Rightarrow> NpcInstance option" where
  "GetNPC i gl = map_of (glNpcs gl) i"

definition upd_player :: "int \<Rightarrow> (loop_player \<Rightarrow> loop_player) \<Rightarrow> game_loop \<Rightarrow> game_loop" where
  "upd_player i f gl =
     (case GetPlayer i gl of None \<Rightarrow> gl | Some p \<Rightarrow> gl\<lparr>glPlayers := AList.update i (f p) (glPlayers gl)\<rparr>)"

definition upd_char :: "int \<Rightarrow> (Character \<Rightarrow> Character) \<Rightarrow> game_loop \<Rightarrow> game_loop" where
  "upd_char i f = upd_player i (\<lambda>p. p\<lparr>lpCharacter := f (lpCharacter p)\<rparr>)"

definition upd_npc :: "int \<Rightarrow> (NpcInstance \<Rightarrow> NpcInstance) \<Rightarrow> game_loop \<Rightarrow> game_loop" where
  "upd_npc i f gl =
     (case GetNPC i gl of None \<Rightarrow> gl | Some n \<Rightarrow> gl\<lparr>glNpcs := AList.update i (f n) (glNpcs gl)\<rparr>)"

definition send :: "route \<Rightarrow> loop_packet \<Rightarrow> game_loop \<Rightarrow> game_loop" where
  "send r p gl = gl\<lparr>glOut := glOut gl @ [Send r p]\<rparr>"

definition call :: "loop_call \<Rightarrow> game_loop \<Rightarrow> game_loop" where
  "call c gl = gl\<lparr>glOut := glOut gl @ [Call c]\<rparr>"

definition schedule :: "int \<Rightarrow> loop_event \<Rightarrow> game_loop \<Rightarrow> game_loop" where
  "schedule t e gl = gl\<lparr>glNew := glNew gl @ [\<lparr>ExecuteAt = t, Payload = e\<rparr>]\<rparr>"

definition broadcastToNearby :: "Position \<Rightarrow> loop_packet \<Rightarrow> game_loop \<Rightarrow> game_loop" where
  "broadcastToNearby pos = send (Nearby pos broadcastRadius)"

definition rand_Float64 :: "loop_env \<Rightarrow> game_loop \<Rightarrow> rat \<times> game_loop" where
  "rand_Float64 env gl = (rng env (glDraws gl), gl\<lparr>glDraws := Suc (glDraws gl)\<rparr>)"

definition rand_Intn :: "loop_env \<Rightarrow> int \<Rightarrow> game_loop \<Rightarrow> int \<times> game_loop" where
  "rand_Intn env n gl = (\<lfloor>rng env (glDraws gl) * of_int n\<rfloor>, gl\<lparr>glDraws := Suc (glDraws gl)\<rparr>)"

definition SetPlayerCombatState :: "int \<Rightarrow> bool \<Rightarrow> game_loop \<Rightarrow> game_loop" where
  "SetPlayerCombatState i b = upd_player i (\<lambda>p. p\<lparr>lpInCombat := b\<rparr>)"

definition UpdatePlayerPosition :: "int \<Rightarrow> Position \<Rightarrow> int \<Rightarrow> game_loop \<Rightarrow> game_loop" where
  "UpdatePlayerPosition i pos heading =
     upd_player i (\<lambda>p. p\<lparr>lpPosition := pos, lpHeading := heading,
       lpCharacter := (lpCharacter p)\<lparr>Position := pos\<rparr>\<rparr>)"

definition SetPlayerTarget :: "int \<Rightarrow> int \<Rightarrow> game_loop \<Rightarrow> game_loop" where
  "SetPlayerTarget i target = upd_player i (\<lambda>p. p\<lparr>lpTargetID := target\<rparr>)"

definition computePlayerStats :: "loop_player \<Rightarrow> ComputedStats" where
  "computePlayerStats p = ComputeCharacterStats (lpCharacter p) (lpStatMods p)"


section \<open>The buffs and PvP flags of the players\<close>

text \<open>The state of the theory Buffs as part of this one: what it reads of a player and what it writes.\<close>

definition buff_view :: "loop_player \<Rightarrow> rat buff_player" where
  "buff_view p =
     \<lparr>bpCharacter = Some \<lparr>bcAlive = CurrentHP (lpCharacter p) > 0, bcKarma = Karma (lpCharacter p),
        bcStatMods = lpStatMods p\<rparr>,
      bpPvPFlagUntil = lpPvPFlagUntil p, bpPassiveMods = lpPassiveMods p, bpEquipMods = lpEquipMods p,
      bpEffects = lpEffects p\<rparr>"

definition put_buffs :: "rat buff_player \<Rightarrow> loop_player \<Rightarrow> loop_player" where
  "put_buffs b p = p\<lparr>lpPvPFlagUntil := bpPvPFlagUntil b, lpEffects := bpEffects b,
     lpStatMods := (case bpCharacter b of None \<Rightarrow> lpStatMods p | Some c \<Rightarrow> bcStatMods c)\<rparr>"

definition loop_view :: "game_loop \<Rightarrow> rat buff_loop" where
  "loop_view gl =
     \<lparr>blPlayers = map (\<lambda>(i, p). (i, buff_view p)) (glPlayers gl), buffedPlayers = glBuffed gl,
      flaggedPlayers = glFlagged gl, blSent = []\<rparr>"

definition with_buffs :: "(rat buff_loop \<Rightarrow> rat buff_loop) \<Rightarrow> game_loop \<Rightarrow> buff_action list \<times> game_loop" where
  "with_buffs f gl =
     (let b = f (loop_view gl)
      in (blSent b,
          gl\<lparr>glPlayers := map (\<lambda>(i, p). (i, case map_of (blPlayers b) i of None \<Rightarrow> p | Some bp \<Rightarrow> put_buffs bp p)) (glPlayers gl),
             glBuffed := buffedPlayers b, glFlagged := flaggedPlayers b\<rparr>))"

text \<open>The packets of Buffs go to the player they are about; a change of relation goes to everyone near.\<close>

definition send_buff :: "buff_action \<Rightarrow> game_loop \<Rightarrow> game_loop" where
  "send_buff a gl =
     (case a of
        AbnormalStatusUpdate i l \<Rightarrow> send (ToPlayer i) (BuffPacket a) gl
      | UserInfo i \<Rightarrow> send (ToPlayer i) (UserInfoPacket i) gl
      | RelationChanged i x y z \<Rightarrow>
          (case GetPlayer i gl of None \<Rightarrow> gl | Some p \<Rightarrow> broadcastToNearby (lpPosition p) (BuffPacket a) gl)
      | _ \<Rightarrow> gl)"

definition buffs :: "(rat buff_loop \<Rightarrow> rat buff_loop) \<Rightarrow> game_loop \<Rightarrow> game_loop" where
  "buffs f gl = (let (out, gl) = with_buffs f gl in fold send_buff out gl)"

section \<open>Intentions and movement\<close>

definition setIntention :: "int \<Rightarrow> Intention \<Rightarrow> int \<Rightarrow> game_loop \<Rightarrow> game_loop" where
  "setIntention i intention target gl =
     gl\<lparr>aiState := AList.update i \<lparr>aiIntention = intention, aiTargetObjectID = target\<rparr> (aiState gl)\<rparr>"

definition clearIntention :: "int \<Rightarrow> game_loop \<Rightarrow> game_loop" where
  "clearIntention i gl =
     (case map_of (aiState gl) i of
        None \<Rightarrow> gl
      | Some _ \<Rightarrow> setIntention i IntentionIdle 0 gl)"

definition dist2 :: "Position \<Rightarrow> Position \<Rightarrow> int" where
  "dist2 a b = (let dx = X a - X b; dy = Y a - Y b in dx * dx + dy * dy)"

text \<open>
  \<open>int(dx * ratio)\<close> with \<open>ratio = reach / dist\<close> and \<open>dist\<close> the square root of \<open>d2\<close>: the integer part of a
  square root, with the sign of \<open>dx\<close>.
\<close>

definition scaled :: "int \<Rightarrow> int \<Rightarrow> int \<Rightarrow> int" where
  "scaled d reach d2 = sgn (d * reach) * int (isqrt (nat ((d * reach) * (d * reach) div d2)))"

definition stopPointWithinReach :: "Position \<Rightarrow> Position \<Rightarrow> int \<Rightarrow> Position" where
  "stopPointWithinReach start target reach =
     (let dx = X start - X target; dy = Y start - Y target; d2 = dx * dx + dy * dy
      in if (reach \<ge> 0 \<and> d2 \<le> reach * reach) \<or> d2 = 0 then start
         else \<lparr>X = X target + scaled dx reach d2, Y = Y target + scaled dy reach d2, Z = Z start\<rparr>)"

definition startMoveToTargetPos :: "int \<Rightarrow> int \<Rightarrow> int \<Rightarrow> Position \<Rightarrow> int \<Rightarrow> game_loop \<Rightarrow> game_loop" where
  "startMoveToTargetPos now i targetObjID targetPos reach gl =
     (case GetPlayer i gl of
        None \<Rightarrow> gl
      | Some player \<Rightarrow>
          let dest = stopPointWithinReach (lpPosition player) targetPos reach
          in if dest = lpPosition player then gl
             else send (ToAccount (lpAccountName player)) (MoveToPawn i targetObjID reach (lpPosition player) targetPos)
                    (upd_player i (\<lambda>p. p\<lparr>lpIsMoving := True, lpMoveStartPos := lpPosition p,
                       lpMoveDestination := dest, lpMoveStarted := now\<rparr>) gl))"

definition interpolatePosition :: "Position \<Rightarrow> Position \<Rightarrow> int \<Rightarrow> int \<Rightarrow> Position \<times> bool" where
  "interpolatePosition start dest elapsed total' =
     (if total' \<le> 0 \<or> elapsed \<ge> total' then (dest, True)
      else if elapsed \<le> 0 then (start, False)
      else let progress = of_int elapsed / of_int total'
           in (\<lparr>X = X start + trunc (of_int (X dest - X start) * progress),
                Y = Y start + trunc (of_int (Y dest - Y start) * progress),
                Z = Z start + trunc (of_int (Z dest - Z start) * progress)\<rparr>, False))"

text \<open>\<open>CalculateMovementTime\<close> of the distance whose square is \<open>d2\<close>, at a speed in units a second.\<close>

definition CalculateMovementTime :: "int \<Rightarrow> int \<Rightarrow> int" where
  "CalculateMovementTime d2 speed =
     (if speed \<le> 0 then 0 else int (isqrt (nat (d2 * second * second div (speed * speed)))))"

definition PlayerMoveSpeed :: "ComputedStats \<Rightarrow> bool \<Rightarrow> int" where
  "PlayerMoveSpeed computed isRunning = (if isRunning then csRunSpd computed else csWalkSpd computed)"

definition stepPlayerMovement :: "loop_player \<Rightarrow> int \<Rightarrow> int \<Rightarrow> Position \<times> bool" where
  "stepPlayerMovement p speed now =
     interpolatePosition (lpMoveStartPos p) (lpMoveDestination p) (now - lpMoveStarted p)
       (CalculateMovementTime (dist2 (lpMoveStartPos p) (lpMoveDestination p)) speed)"

definition serverDrivenMovement :: "Intention \<Rightarrow> bool" where
  "serverDrivenMovement i \<longleftrightarrow> i = IntentionAttack \<or> i = IntentionInteract \<or> i = IntentionCast"

definition origin :: Position where "origin = \<lparr>X = 0, Y = 0, Z = 0\<rparr>"

definition stop_moving :: "loop_player \<Rightarrow> loop_player" where
  "stop_moving p = p\<lparr>lpIsMoving := False, lpMoveStartPos := origin, lpMoveDestination := origin\<rparr>"

text \<open>One player of \<open>advancePlayerMovement\<close>; \<open>onMovementArrived\<close> does nothing on any intention.\<close>

definition advance_one :: "int \<Rightarrow> loop_player \<Rightarrow> game_loop \<Rightarrow> game_loop" where
  "advance_one now player gl =
     (let i = lpCharID player
      in if \<not> lpIsMoving player then gl
         else (case map_of (aiState gl) i of
           None \<Rightarrow> gl
         | Some st \<Rightarrow>
             if \<not> serverDrivenMovement (aiIntention st) then gl
             else let speed = PlayerMoveSpeed (computePlayerStats player) (lpIsRunning player);
                      (pos, arrived) = stepPlayerMovement player speed now;
                      gl = UpdatePlayerPosition i pos (lpHeading player) gl;
                      gl = call (ReconcileVisibility i) gl
                  in if arrived then upd_player i stop_moving gl else gl))"

definition advancePlayerMovement :: "int \<Rightarrow> game_loop \<Rightarrow> game_loop" where
  "advancePlayerMovement now gl = fold (advance_one now) (map snd (glPlayers gl)) gl"

section \<open>Formulas of combat\<close>

definition calcAttackSpeed :: "int \<Rightarrow> int" where
  "calcAttackSpeed pAtkSpd =
     (let pAtkSpd = (if pAtkSpd \<le> 0 then 1 else pAtkSpd); t = 500000 div pAtkSpd
      in if t < 100 then 100 else t)"

definition calcHitChance :: "int \<Rightarrow> int \<Rightarrow> int \<Rightarrow> bool" where
  "calcHitChance accuracy evasion roll =
     (let chance = 80 + 2 * (accuracy - evasion);
          chance = (if chance < 20 then 20 else chance);
          chance = (if chance > 98 then 98 else chance)
      in roll < chance)"

definition soulshotPAtk :: "int \<Rightarrow> bool \<Rightarrow> int" where
  "soulshotPAtk pAtk ss = (if ss then pAtk * 2 else pAtk)"

definition calcPhysDamage :: "int \<Rightarrow> int \<Rightarrow> int" where
  "calcPhysDamage pAtk pDef =
     (let pDef = (if pDef < 1 then 1 else pDef); damage = (76 * pAtk) div pDef
      in wrap32 (if damage < 1 then 1 else damage))"

definition calcCrit :: "int \<Rightarrow> int \<Rightarrow> bool" where
  "calcCrit critRate roll =
     (let chance = (if critRate < 1 then 1 else critRate); chance = (if chance > 100 then 100 else chance)
      in roll < chance)"

definition applyVariance :: "loop_env \<Rightarrow> int \<Rightarrow> game_loop \<Rightarrow> int \<times> game_loop" where
  "applyVariance env damage gl =
     (if damage \<le> 0 then (damage, gl)
      else let (r, gl) = rand_Float64 env gl; variance = 9 / 10 + r * (1 / 5);
               result = wrap32 (trunc (of_int damage * variance))
           in (if result < 1 then 1 else result, gl))"

text \<open>The roll of one swing, the same code for players and NPCs: miss, critical, damage.\<close>

definition roll_attack :: "loop_env \<Rightarrow> int \<Rightarrow> int \<Rightarrow> int \<Rightarrow> int \<Rightarrow> int \<Rightarrow> game_loop \<Rightarrow> bool \<times> bool \<times> int \<times> game_loop" where
  "roll_attack env accuracy evasion pAtk pDef critRate gl =
     (let (roll, gl) = rand_Intn env 100 gl
      in if \<not> calcHitChance accuracy evasion roll then (True, False, 0, gl)
         else let damage = calcPhysDamage pAtk pDef;
                  (roll, gl) = rand_Intn env 100 gl;
                  crit = calcCrit critRate roll;
                  damage = (if crit then wrap32 (damage * 2) else damage);
                  (damage, gl) = applyVariance env damage gl;
                  damage = (if damage < 1 then 1 else damage)
              in (False, crit, damage, gl))"

text \<open>The flags of a hit; \<open>ssGrade\<close> is at most 15.\<close>

definition attack_flags :: "bool \<Rightarrow> bool \<Rightarrow> bool \<Rightarrow> int \<Rightarrow> int" where
  "attack_flags miss crit ss ssGrade =
     (if miss then 128 else 0) + (if crit then 32 else 0) + (if ss then 16 + ssGrade else 0)"

definition collisionRadius :: "(int \<times> int) \<Rightarrow> rat option" where
  "collisionRadius = map_of [((0, 0), 9), ((0, 1), 8), ((1, 0), 15 / 2), ((1, 1), 15 / 2), ((2, 0), 15 / 2), ((2, 1), 7),
     ((3, 0), 11), ((3, 1), 7), ((4, 0), 9), ((4, 1), 5), ((5, 0), 8), ((5, 1), 7)]"

definition getCollisionRadiusForPlayer :: "int \<Rightarrow> int \<Rightarrow> rat" where
  "getCollisionRadiusForPlayer race sex = (case collisionRadius (race, sex) of None \<Rightarrow> 9 | Some r \<Rightarrow> r)"

definition attackReach :: "int \<Rightarrow> rat \<Rightarrow> rat \<Rightarrow> int" where
  "attackReach baseRange attackerCollision targetCollision = baseRange + trunc attackerCollision + trunc targetCollision"

definition defaultPhysicalAttackRange :: int where "defaultPhysicalAttackRange = 40"
definition interactApproachBase :: int where "interactApproachBase = 36"
definition interactRange :: int where "interactRange = 150"

definition player_collision :: "loop_player \<Rightarrow> rat" where
  "player_collision p = getCollisionRadiusForPlayer (Race (lpCharacter p)) (Sex (lpCharacter p))"

definition interactApproachOffset :: "loop_player \<Rightarrow> NpcInstance \<Rightarrow> int" where
  "interactApproachOffset p n = attackReach interactApproachBase (player_collision p) (ntCollisionRadius (niTemplate n))"

record combatTarget =
  tgObjectID :: int
  tgPos :: Position
  tgDead :: bool
  tgPDef :: int
  tgEvasion :: int
  tgCollision :: rat
  tgPlayer :: "loop_player option"
  tgNpc :: "NpcInstance option"

definition resolveCombatTarget :: "int \<Rightarrow> game_loop \<Rightarrow> combatTarget option" where
  "resolveCombatTarget objectID gl =
     (case GetPlayer objectID gl of
        Some p \<Rightarrow>
          let st = computePlayerStats p
          in Some \<lparr>tgObjectID = objectID, tgPos = lpPosition p, tgDead = CurrentHP (lpCharacter p) \<le> 0,
               tgPDef = csPDef st, tgEvasion = csEvasion st, tgCollision = player_collision p,
               tgPlayer = Some p, tgNpc = None\<rparr>
      | None \<Rightarrow>
          (case GetNPC objectID gl of
             None \<Rightarrow> None
           | Some n \<Rightarrow>
               let pDef = trunc (ntPDef (niTemplate n))
               in Some \<lparr>tgObjectID = objectID, tgPos = niPosition n, tgDead = niIsDead n,
                    tgPDef = (if pDef < 1 then 1 else pDef), tgEvasion = trunc (ntPDef (niTemplate n) / 10),
                    tgCollision = ntCollisionRadius (niTemplate n), tgPlayer = None, tgNpc = Some n\<rparr>))"

definition meleeReachTo :: "loop_player \<Rightarrow> combatTarget \<Rightarrow> int" where
  "meleeReachTo p t = attackReach defaultPhysicalAttackRange (player_collision p) (tgCollision t)"


section \<open>Starting and stopping to fight\<close>

definition enterCombatStance :: "int \<Rightarrow> game_loop \<Rightarrow> game_loop" where
  "enterCombatStance i gl =
     (case GetPlayer i gl of
        None \<Rightarrow> gl
      | Some p \<Rightarrow>
          if lpInCombat p then gl
          else broadcastToNearby (lpPosition p) (AutoAttackStart i) (SetPlayerCombatState i True gl))"

definition stopAttacker :: "int \<Rightarrow> int \<Rightarrow> game_loop \<Rightarrow> game_loop" where
  "stopAttacker now i gl =
     (case map_of (combatState gl) i of
        None \<Rightarrow> gl
      | Some cs \<Rightarrow>
          let gl = gl\<lparr>combatState := AList.update i (cs\<lparr>IsAutoAttacking := False\<rparr>) (combatState gl)\<rparr>;
              gl = schedule (now + combatStanceTimeout) (CombatStanceTimeoutEvent i) gl
          in clearIntention i gl)"

definition startNPCAttack :: "loop_env \<Rightarrow> int \<Rightarrow> int \<Rightarrow> int \<Rightarrow> game_loop \<Rightarrow> game_loop" where
  "startNPCAttack env now npcID target gl =
     (if (case map_of (npcCombatState gl) npcID of
            None \<Rightarrow> False | Some ncs \<Rightarrow> IsAttacking ncs \<and> TargetCharID ncs = target) then gl
      else (case GetNPC npcID gl of
        None \<Rightarrow> gl
      | Some npc \<Rightarrow>
          if niIsDead npc then gl
          else let gl = gl\<lparr>npcCombatState := AList.update npcID
                            \<lparr>IsAttacking = True, TargetCharID = target, ncsLastAttackTime = now\<rparr> (npcCombatState gl)\<rparr>;
                   gl = broadcastToNearby (niPosition npc) (AutoAttackStart npcID) gl;
                   (delay, gl) = rand_Intn env 500 gl
               in schedule (now + delay * millis) (NPCNextAttackEvent npcID target) gl))"

definition stopNPCAttack :: "int \<Rightarrow> game_loop \<Rightarrow> game_loop" where
  "stopNPCAttack npcID gl =
     (case map_of (npcCombatState gl) npcID of
        None \<Rightarrow> gl
      | Some ncs \<Rightarrow>
          let gl = (case GetNPC npcID gl of
                      None \<Rightarrow> gl
                    | Some npc \<Rightarrow> broadcastToNearby (niPosition npc) (AutoAttackStop npcID) gl)
          in gl\<lparr>npcCombatState := AList.delete npcID (npcCombatState gl)\<rparr>)"

text \<open>The two loops over a map of the loop, one key at a time.\<close>

definition stop_npc_on :: "int \<Rightarrow> int \<Rightarrow> game_loop \<Rightarrow> game_loop" where
  "stop_npc_on i npcID gl =
     (case map_of (npcCombatState gl) npcID of
        None \<Rightarrow> gl
      | Some ncs \<Rightarrow> if TargetCharID ncs = i \<and> IsAttacking ncs then stopNPCAttack npcID gl else gl)"

definition stopAllNPCAttacksOnPlayer :: "int \<Rightarrow> game_loop \<Rightarrow> game_loop" where
  "stopAllNPCAttacksOnPlayer i gl = fold (stop_npc_on i) (map fst (npcCombatState gl)) gl"

definition stop_attacker_on :: "int \<Rightarrow> int \<Rightarrow> int \<Rightarrow> game_loop \<Rightarrow> game_loop" where
  "stop_attacker_on now target i gl =
     (case map_of (combatState gl) i of
        None \<Rightarrow> gl
      | Some cs \<Rightarrow>
          if TargetObjectID cs \<noteq> target \<or> \<not> IsAutoAttacking cs then gl
          else let gl = gl\<lparr>combatState := AList.update i (cs\<lparr>IsAutoAttacking := False\<rparr>) (combatState gl)\<rparr>;
                   gl = clearIntention i gl;
                   gl = (case GetPlayer i gl of
                           None \<Rightarrow> gl
                         | Some p \<Rightarrow>
                             broadcastToNearby (lpPosition p) (StopMove i (lpPosition p) (lpHeading p))
                               (upd_player i stop_moving gl));
                   gl = send (ToAccount (csAccountName cs)) ActionFailed gl
               in schedule (now + combatStanceTimeout) (CombatStanceTimeoutEvent i) gl)"

definition stopAllAttackersOnTarget :: "int \<Rightarrow> int \<Rightarrow> game_loop \<Rightarrow> game_loop" where
  "stopAllAttackersOnTarget now target gl = fold (stop_attacker_on now target) (map fst (combatState gl)) gl"

section \<open>Experience\<close>

definition hpGrowth :: "int \<Rightarrow> int \<Rightarrow> rat" where
  "hpGrowth oldLevel newLevel = 1 + of_int (newLevel - oldLevel) * (1 / 10)"

definition applyLevelUp :: "int \<Rightarrow> int \<Rightarrow> loop_player \<Rightarrow> loop_player" where
  "applyLevelUp oldLevel newLevel p =
     (let char = lpCharacter p;
          computed = ComputeStats (char_base_stats char) newLevel (GetCombatBaseStatsByClass (ClassID char));
          computed = ApplyStatModifiers computed (lpStatMods p);
          newMaxHP = trunc (of_int (MaxHP char) * hpGrowth oldLevel newLevel);
          newMaxHP = (if csMaxHP computed > 0 then csMaxHP computed else newMaxHP);
          newMaxHP = (if newMaxHP < 1 then 1 else newMaxHP);
          newMaxMP = (if csMaxMP computed > 0 then csMaxMP computed else MaxMP char)
      in p\<lparr>lpCharacter := char\<lparr>MaxHP := newMaxHP, MaxMP := newMaxMP, CurrentHP := of_int newMaxHP,
             CurrentMP := of_int newMaxMP\<rparr>\<rparr>)"

text \<open>What one attacker earns.\<close>

definition earned :: "int \<Rightarrow> rat \<Rightarrow> rat \<Rightarrow> rat \<Rightarrow> int" where
  "earned base proportion penalty rate =
     (let e = trunc (of_int base * proportion * penalty * rate) in if e < 0 then 0 else e)"

definition status_hp_mp :: "Character \<Rightarrow> (string \<times> int) list" where
  "status_hp_mp c = [(''CurHP'', wrap32 (trunc (CurrentHP c))), (''MaxHP'', wrap32 (MaxHP c)),
     (''CurMP'', wrap32 (trunc (CurrentMP c))), (''MaxMP'', wrap32 (MaxMP c))]"

definition sendExpRewardNotification :: "int \<Rightarrow> int \<Rightarrow> int \<Rightarrow> bool \<Rightarrow> game_loop \<Rightarrow> game_loop" where
  "sendExpRewardNotification i earnedExp earnedSP leveledUp gl =
     (case GetPlayer i gl of
        None \<Rightarrow> gl
      | Some p \<Rightarrow>
          let gl = send (ToPlayer i) (ExpMessage earnedExp (if earnedSP > 0 then earnedSP else 0)) gl;
              gl = (if leveledUp then send (ToPlayer i) (SystemMessage ''YouIncreasedYourLevel'') gl else gl);
              gl = send (ToPlayer i) (UserInfoPacket i) gl
          in send (ToPlayer i) (StatusUpdate i (status_hp_mp (lpCharacter p))) gl)"

definition award_one :: "loop_env \<Rightarrow> int \<Rightarrow> int \<Rightarrow> int \<Rightarrow> int \<Rightarrow> int \<times> int \<Rightarrow> game_loop \<Rightarrow> game_loop" where
  "award_one env npcLevel baseExp baseSP totalHate attacker gl =
     (let (charID, h) = attacker in
      case GetPlayer charID gl of
        None \<Rightarrow> gl
      | Some player \<Rightarrow>
          let proportion = of_int h / of_int totalHate;
              penalty = LevelPenalty (Level (lpCharacter player)) npcLevel;
              earnedExp = earned baseExp proportion penalty (expRate env);
              earnedSP = earned baseSP proportion penalty (spRate env);
              oldLevel = Level (lpCharacter player);
              gl = upd_char charID (\<lambda>c. c\<lparr>Experience := Experience c + earnedExp, SP := SP c + earnedSP\<rparr>) gl;
              newLevel = LevelForExp (Experience (lpCharacter player) + earnedExp);
              newLevel = (if newLevel > MaxLevel then MaxLevel else newLevel);
              leveledUp = newLevel > oldLevel;
              gl = (if leveledUp
                    then let gl = upd_player charID (\<lambda>p. applyLevelUp oldLevel newLevel
                                    (p\<lparr>lpCharacter := (lpCharacter p)\<lparr>Level := newLevel\<rparr>\<rparr>)) gl
                         in (case GetPlayer charID gl of
                               None \<Rightarrow> gl | Some p \<Rightarrow> call (PersistCharacter (lpCharacter p)) gl)
                    else gl)
          in sendExpRewardNotification charID earnedExp (wrap32 earnedSP) leveledUp gl)"

definition awardExpForNPCKill :: "loop_env \<Rightarrow> NpcInstance \<Rightarrow> game_loop \<Rightarrow> game_loop" where
  "awardExpForNPCKill env npc gl =
     (case map_of (npcHateLists gl) (niObjectID npc) of
        None \<Rightarrow> gl
      | Some hl \<Rightarrow>
          if hate_IsEmpty hl then gl
          else let npcLevel = ntLevel (niTemplate npc); baseExp = ntRewardExp (niTemplate npc);
                   baseSP = ntRewardSp (niTemplate npc)
               in if baseExp \<le> 0 \<and> baseSP \<le> 0 then gl
                  else let totalHate = sum_list (map snd hl);
                           totalHate = (if totalHate \<le> 0 then 1 else totalHate)
                       in fold (award_one env npcLevel baseExp baseSP totalHate) hl gl)"

section \<open>Damage and death\<close>

definition handleNPCDeath :: "loop_env \<Rightarrow> int \<Rightarrow> int \<Rightarrow> game_loop \<Rightarrow> game_loop" where
  "handleNPCDeath env now npcID gl =
     (case GetNPC npcID gl of
        None \<Rightarrow> gl
      | Some npc \<Rightarrow>
          let gl = upd_npc npcID (\<lambda>n. n\<lparr>niIsDead := True, niCurrentHP := 0\<rparr>) gl;
              gl = broadcastToNearby (niPosition npc) (Die npcID) gl;
              gl = stopAllAttackersOnTarget now npcID gl;
              gl = stopNPCAttack npcID gl;
              gl = awardExpForNPCKill env npc gl;
              gl = schedule (now + corpseDecayDelay) (CorpseDecayEvent npcID) gl
          in schedule (now + respawnDelay) (RespawnEvent npcID) gl)"

definition lower_hp :: "rat \<Rightarrow> int \<Rightarrow> rat" where
  "lower_hp hp damage = (if hp - of_int damage < 0 then 0 else hp - of_int damage)"

definition dealDamageToNPC :: "loop_env \<Rightarrow> int \<Rightarrow> int \<Rightarrow> int \<Rightarrow> int \<Rightarrow> game_loop \<Rightarrow> game_loop" where
  "dealDamageToNPC env now npcID attacker damage gl =
     (case GetNPC npcID gl of
        None \<Rightarrow> gl
      | Some npc \<Rightarrow>
          let hp = lower_hp (niCurrentHP npc) damage;
              gl = upd_npc npcID (\<lambda>n. n\<lparr>niCurrentHP := hp\<rparr>) gl;
              hl = AddHate attacker damage (case map_of (npcHateLists gl) npcID of None \<Rightarrow> [] | Some hl \<Rightarrow> hl);
              gl = gl\<lparr>npcHateLists := AList.update npcID hl (npcHateLists gl)\<rparr>;
              target = (if GetTopAttacker hl = 0 then attacker else GetTopAttacker hl);
              gl = (if IsAttackable npc then startNPCAttack env now npcID target gl else gl);
              gl = send (Targeters npcID) (StatusUpdate npcID
                     [(''MaxHP'', wrap32 (trunc (ntHP (niTemplate npc)))), (''CurHP'', wrap32 (trunc hp))]) gl
          in if hp \<le> 0 then handleNPCDeath env now npcID gl else gl)"

definition handlePlayerDeath :: "int \<Rightarrow> int \<Rightarrow> game_loop \<Rightarrow> game_loop" where
  "handlePlayerDeath now i gl =
     (case GetPlayer i gl of
        None \<Rightarrow> gl
      | Some p \<Rightarrow>
          let gl = upd_char i (\<lambda>c. c\<lparr>CurrentHP := 0\<rparr>) gl;
              gl = broadcastToNearby (lpPosition p) (Die i) gl;
              gl = stopAllNPCAttacksOnPlayer i gl;
              gl = stopAttacker now i gl
          in SetPlayerCombatState i False gl)"

text \<open>The part common to \<open>dealDamageToPlayer\<close> and \<open>NPCHitEvent\<close>: the bars, and the way to the victim.\<close>

definition hurt_player :: "int \<Rightarrow> int \<Rightarrow> game_loop \<Rightarrow> game_loop" where
  "hurt_player i damage gl =
     (case GetPlayer i gl of
        None \<Rightarrow> gl
      | Some p \<Rightarrow>
          let hp = lower_hp (CurrentHP (lpCharacter p)) damage;
              gl = upd_char i (\<lambda>c. c\<lparr>CurrentHP := hp\<rparr>) gl;
              su = StatusUpdate i [(''MaxHP'', wrap32 (MaxHP (lpCharacter p))), (''CurHP'', wrap32 (trunc hp))]
          in send (Targeters i) su (send (ToPlayer i) su gl))"

definition is_dead :: "int \<Rightarrow> game_loop \<Rightarrow> bool" where
  "is_dead i gl \<longleftrightarrow> (case GetPlayer i gl of None \<Rightarrow> False | Some p \<Rightarrow> CurrentHP (lpCharacter p) \<le> 0)"

definition dealDamageToPlayer :: "int \<Rightarrow> int \<Rightarrow> int \<Rightarrow> int \<Rightarrow> game_loop \<Rightarrow> game_loop" where
  "dealDamageToPlayer now target attacker damage gl =
     (case GetPlayer target gl of
        None \<Rightarrow> gl
      | Some p \<Rightarrow>
          if CurrentHP (lpCharacter p) \<le> 0 then gl
          else let gl = enterCombatStance attacker gl;
                   gl = enterCombatStance target gl;
                   gl = hurt_player target damage gl
               in if is_dead target gl then handlePlayerDeath now target gl else gl)"


section \<open>Soulshots of the weapon\<close>

definition weapon_of :: "loop_player \<Rightarrow> int" where
  "weapon_of p = PaperdollObjectIDs (lpCharacter p) ! nat SlotRHand"

definition maybeRechargeAutoShots :: "int \<Rightarrow> game_loop \<Rightarrow> game_loop" where
  "maybeRechargeAutoShots i gl =
     (if \<not> HasAny (glAutos gl) i then gl
      else (case GetPlayer i gl of
        None \<Rightarrow> gl
      | Some p \<Rightarrow>
          let weapon = weapon_of p
          in if weapon = 0 \<or> IsCharged (glShots gl) weapon ShotSoulshot then gl
             else call (RechargeAutoShots i) gl))"

section \<open>The swings of a player\<close>

text \<open>The last part of \<open>NextAttackEvent\<close>, with the target in reach.\<close>

definition player_swing :: "loop_env \<Rightarrow> int \<Rightarrow> int \<Rightarrow> loop_player \<Rightarrow> combatTarget \<Rightarrow> game_loop \<Rightarrow> game_loop" where
  "player_swing env now i player tgt gl =
     (let computed = computePlayerStats player;
          timeAtkMs = calcAttackSpeed (csPAtkSpd computed);
          pDef = (if tgPDef tgt < 1 then 1 else tgPDef tgt);
          weapon = weapon_of player;
          ss = (weapon \<noteq> 0 \<and> IsCharged (glShots gl) weapon ShotSoulshot);
          ssGrade = (if weapon \<noteq> 0 then ChargedGrade (glShots gl) weapon ShotSoulshot else 0);
          (miss, crit, damage, gl) = roll_attack env (csAccuracy computed) (tgEvasion tgt)
             (soulshotPAtk (csPAtk computed) ss) pDef (csCritRate computed) gl;
          gl = (if ss \<and> \<not> miss then gl\<lparr>glShots := SetCharged weapon ShotSoulshot False (glShots gl)\<rparr> else gl);
          gl = (if miss then send (ToPlayer i) (SystemMessage ''C1AttackWentAstray'') gl
                else let gl = (if crit then send (ToPlayer i) (SystemMessage ''C1HadCriticalHit'') gl else gl)
                     in send (ToPlayer i) (DamageMessage ''C1DoneS3DamageToC2'' i (tgObjectID tgt) damage) gl);
          gl = enterCombatStance i gl;
          gl = broadcastToNearby (lpPosition player)
                 (AttackPacket i (tgObjectID tgt) damage (attack_flags miss crit ss ssGrade) (lpPosition player) (tgPos tgt)) gl;
          gl = (if miss then gl
                else schedule (now + (timeAtkMs div 2) * millis) (HitEvent i (tgObjectID tgt) damage) gl);
          gl = schedule (now + timeAtkMs * millis) (NextAttackEvent i (tgObjectID tgt)) gl
      in (case map_of (combatState gl) i of
            None \<Rightarrow> gl
          | Some cs \<Rightarrow> gl\<lparr>combatState := AList.update i (cs\<lparr>LastAttackTime := now\<rparr>) (combatState gl)\<rparr>))"

definition exec_NextAttack :: "loop_env \<Rightarrow> int \<Rightarrow> int \<Rightarrow> int \<Rightarrow> game_loop \<Rightarrow> game_loop" where
  "exec_NextAttack env now i target gl =
     (case map_of (combatState gl) i of
        None \<Rightarrow> gl
      | Some cs \<Rightarrow>
          if \<not> IsAutoAttacking cs \<or> TargetObjectID cs \<noteq> target then gl
          else (case resolveCombatTarget target gl of
            None \<Rightarrow> stopAttacker now i gl
          | Some tgt \<Rightarrow>
              if tgDead tgt then stopAttacker now i gl
              else (case GetPlayer i gl of
                None \<Rightarrow> stopAttacker now i gl
              | Some player \<Rightarrow>
                  let reach = meleeReachTo player tgt
                  in if dist2 (lpPosition player) (tgPos tgt) > reach * reach
                     then let gl = (if \<not> lpIsMoving player then startMoveToTargetPos now i (tgObjectID tgt) (tgPos tgt) reach gl else gl)
                          in schedule (now + 400 * millis) (NextAttackEvent i target) gl
                     else player_swing env now i player tgt gl)))"

definition exec_Hit :: "loop_env \<Rightarrow> int \<Rightarrow> int \<Rightarrow> int \<Rightarrow> int \<Rightarrow> game_loop \<Rightarrow> game_loop" where
  "exec_Hit env now i target damage gl =
     (case resolveCombatTarget target gl of
        None \<Rightarrow> gl
      | Some tgt \<Rightarrow>
          if tgDead tgt then gl
          else if tgPlayer tgt \<noteq> None
          then buffs (setPvPFlag now target) (dealDamageToPlayer now target i damage gl)
          else maybeRechargeAutoShots i (dealDamageToNPC env now target i damage gl))"

section \<open>The swings of an NPC\<close>

definition npc_swing :: "loop_env \<Rightarrow> int \<Rightarrow> int \<Rightarrow> int \<Rightarrow> NpcInstance \<Rightarrow> loop_player \<Rightarrow> game_loop \<Rightarrow> game_loop" where
  "npc_swing env now npcID i npc player gl =
     (let t = niTemplate npc;
          timeAtkMs = calcAttackSpeed (if ntPAtkSpd t > 0 then ntPAtkSpd t else 300);
          pAtk = (if trunc (ntPAtk t) < 1 then 1 else trunc (ntPAtk t));
          computed = computePlayerStats player;
          pDef = (if csPDef computed < 1 then 1 else csPDef computed);
          (miss, crit, damage, gl) = roll_attack env (30 + ntLevel t) (csEvasion computed) pAtk pDef (ntCritRate t) gl;
          gl = broadcastToNearby (niPosition npc)
                 (AttackPacket npcID i damage (attack_flags miss crit False 0) (niPosition npc) (lpPosition player)) gl;
          gl = (if miss then gl
                else schedule (now + (timeAtkMs div 2) * millis) (NPCHitEvent npcID i damage) gl);
          gl = schedule (now + timeAtkMs * millis) (NPCNextAttackEvent npcID i) gl
      in (case map_of (npcCombatState gl) npcID of
            None \<Rightarrow> gl
          | Some ncs \<Rightarrow> gl\<lparr>npcCombatState := AList.update npcID (ncs\<lparr>ncsLastAttackTime := now\<rparr>) (npcCombatState gl)\<rparr>))"

definition npc_range :: "NpcInstance \<Rightarrow> int" where
  "npc_range npc = (if ntAttackRange (niTemplate npc) > 0 then ntAttackRange (niTemplate npc) else 40) + 50"

definition exec_NPCNextAttack :: "loop_env \<Rightarrow> int \<Rightarrow> int \<Rightarrow> int \<Rightarrow> game_loop \<Rightarrow> game_loop" where
  "exec_NPCNextAttack env now npcID i gl =
     (case map_of (npcCombatState gl) npcID of
        None \<Rightarrow> gl
      | Some ncs \<Rightarrow>
          if \<not> IsAttacking ncs \<or> TargetCharID ncs \<noteq> i then gl
          else (case GetNPC npcID gl of
            None \<Rightarrow> stopNPCAttack npcID gl
          | Some npc \<Rightarrow>
              if niIsDead npc then stopNPCAttack npcID gl
              else (case GetPlayer i gl of
                None \<Rightarrow> stopNPCAttack npcID gl
              | Some player \<Rightarrow>
                  if CurrentHP (lpCharacter player) \<le> 0
                    \<or> dist2 (niPosition npc) (lpPosition player) > npc_range npc * npc_range npc
                  then stopNPCAttack npcID gl
                  else npc_swing env now npcID i npc player gl)))"

definition exec_NPCHit :: "int \<Rightarrow> int \<Rightarrow> int \<Rightarrow> int \<Rightarrow> game_loop \<Rightarrow> game_loop" where
  "exec_NPCHit now npcID i damage gl =
     (case GetPlayer i gl of
        None \<Rightarrow> gl
      | Some player \<Rightarrow>
          if CurrentHP (lpCharacter player) \<le> 0 then gl
          else let gl = enterCombatStance i gl;
                   gl = hurt_player i damage gl;
                   gl = (if damage > 0 \<and> GetNPC npcID gl \<noteq> None
                         then send (ToPlayer i) (DamageMessage ''C1ReceivedDamageS3FromC2'' i npcID damage) gl else gl)
               in if is_dead i gl then handlePlayerDeath now i gl else gl)"

section \<open>Respawn, decay, stance, approach\<close>

definition NextNPCObjectID :: "game_loop \<Rightarrow> int \<times> game_loop" where
  "NextNPCObjectID gl = (glNextID gl + 1, gl\<lparr>glNextID := glNextID gl + 1\<rparr>)"

definition exec_Respawn :: "loop_env \<Rightarrow> int \<Rightarrow> game_loop \<Rightarrow> game_loop" where
  "exec_Respawn env objectID gl =
     (case map_of (npcSpawnInfo gl) objectID of
        None \<Rightarrow> gl
      | Some info \<Rightarrow>
          (case npcTemplates env (spTemplateID info) of
             None \<Rightarrow> gl
           | Some tpl \<Rightarrow>
               let (newID, gl) = NextNPCObjectID gl;
                   newNPC = \<lparr>niObjectID = newID, niTemplateID = spTemplateID info, niTemplate = tpl,
                     niPosition = spPosition info, niHeading = spHeading info, niIsRunning = True, niIsDead = False,
                     niCurrentHP = ntHP tpl, niCurrentMP = ntMP tpl\<rparr>;
                   gl = gl\<lparr>npcSpawnInfo := AList.update newID info (AList.delete objectID (npcSpawnInfo gl))\<rparr>
               in gl\<lparr>glNpcs := AList.update newID newNPC (glNpcs gl)\<rparr>))"

definition exec_CorpseDecay :: "int \<Rightarrow> game_loop \<Rightarrow> game_loop" where
  "exec_CorpseDecay objectID gl =
     (case GetNPC objectID gl of
        None \<Rightarrow> gl
      | Some npc \<Rightarrow>
          let gl = broadcastToNearby (niPosition npc) (DeleteObjectPacket objectID) gl
          in gl\<lparr>glNpcs := AList.delete objectID (glNpcs gl),
                npcHateLists := AList.delete objectID (npcHateLists gl)\<rparr>)"

definition exec_StanceTimeout :: "int \<Rightarrow> int \<Rightarrow> game_loop \<Rightarrow> game_loop" where
  "exec_StanceTimeout now i gl =
     (case map_of (combatState gl) i of
        None \<Rightarrow> gl
      | Some cs \<Rightarrow>
          if IsAutoAttacking cs then gl
          else if now - LastAttackTime cs < 15 * second then gl
          else let gl = SetPlayerCombatState i False gl;
                   gl = (case GetPlayer i gl of
                           Some p \<Rightarrow>
                             send (ToAccount (csAccountName cs)) (UserInfoPacket i)
                               (broadcastToNearby (lpPosition p) (AutoAttackStop i) gl)
                         | None \<Rightarrow> send (ToAccount (csAccountName cs)) (AutoAttackStop i) gl)
               in gl\<lparr>combatState := AList.delete i (combatState gl)\<rparr>)"

text \<open>\<open>gl.interactPending[charID]\<close>: 0 when there is no entry.\<close>

definition interact_pending :: "int \<Rightarrow> game_loop \<Rightarrow> int" where
  "interact_pending i gl = (case map_of (interactPending gl) i of None \<Rightarrow> 0 | Some t \<Rightarrow> t)"

definition clear_interact :: "int \<Rightarrow> int \<Rightarrow> game_loop \<Rightarrow> game_loop" where
  "clear_interact i target gl =
     (if interact_pending i gl = target then gl\<lparr>interactPending := AList.delete i (interactPending gl)\<rparr> else gl)"

definition exec_InteractApproach :: "int \<Rightarrow> int \<Rightarrow> int \<Rightarrow> string \<Rightarrow> game_loop \<Rightarrow> game_loop" where
  "exec_InteractApproach now i target account gl =
     (case GetNPC target gl of
        None \<Rightarrow> clear_interact i target gl
      | Some npc \<Rightarrow>
          if niIsDead npc then clear_interact i target gl
          else (case GetPlayer i gl of
            None \<Rightarrow> clear_interact i target gl
          | Some player \<Rightarrow>
              if lpTargetID player \<noteq> target then clear_interact i target gl
              else if interact_pending i gl \<noteq> target then gl
              else if dist2 (lpPosition player) (niPosition npc) > interactRange * interactRange
              then let gl = (if \<not> lpIsMoving player
                             then startMoveToTargetPos now i target (niPosition npc) (interactApproachOffset player npc) gl
                             else gl)
                   in schedule (now + 400 * millis) (InteractApproachEvent i target account) gl
              else send (ToAccount account) (NpcHtmlMessage target)
                     (send (ToAccount account)
                       (MoveToPawn i target (interactApproachOffset player npc) (lpPosition player) (niPosition npc))
                       (clear_interact i target gl))))"

section \<open>Attack, interaction and movement commands\<close>

definition beginAttackSwing :: "int \<Rightarrow> int \<Rightarrow> int \<Rightarrow> game_loop \<Rightarrow> game_loop" where
  "beginAttackSwing now i target gl =
     (case map_of (combatState gl) i of
        None \<Rightarrow> gl
      | Some cs \<Rightarrow>
          if \<not> IsAutoAttacking cs \<or> TargetObjectID cs \<noteq> target then gl
          else schedule now (NextAttackEvent i target) gl)"

definition attack_begin :: "int \<Rightarrow> int \<Rightarrow> int \<Rightarrow> string \<Rightarrow> loop_player \<Rightarrow> combatTarget \<Rightarrow> game_loop \<Rightarrow> game_loop" where
  "attack_begin now i target account attacker tgt gl =
     (if (case map_of (combatState gl) i of
            None \<Rightarrow> False | Some cs \<Rightarrow> IsAutoAttacking cs \<and> TargetObjectID cs = target) then gl
      else let gl = gl\<lparr>combatState := AList.update i
                       \<lparr>IsAutoAttacking = True, TargetObjectID = target, LastAttackTime = now, csAccountName = account\<rparr>
                       (combatState gl)\<rparr>;
               gl = setIntention i IntentionAttack target gl;
               reach = meleeReachTo attacker tgt;
               gl = (if dist2 (lpPosition attacker) (tgPos tgt) > reach * reach
                     then startMoveToTargetPos now i (tgObjectID tgt) (tgPos tgt) reach gl else gl)
           in beginAttackSwing now i target gl)"

definition handleAttackRequest :: "int \<Rightarrow> int \<Rightarrow> int \<Rightarrow> string \<Rightarrow> bool \<Rightarrow> game_loop \<Rightarrow> game_loop" where
  "handleAttackRequest now i target account force gl =
     (case resolveCombatTarget target gl of
        None \<Rightarrow> gl
      | Some tgt \<Rightarrow>
          if tgDead tgt then gl
          else (case GetPlayer i gl of
            None \<Rightarrow> gl
          | Some attacker \<Rightarrow>
              (case tgPlayer tgt of
                 Some victim \<Rightarrow>
                   if tgObjectID tgt = i then gl
                   else let (allowed, flagAttacker) = canAttackPlayer (Some (buff_view victim)) force now
                        in if \<not> allowed
                           then send (ToAccount account) ActionFailed
                                  (send (ToPlayer i) (SystemMessage ''IncorrectTarget'') gl)
                           else attack_begin now i target account attacker tgt
                                  (if flagAttacker then buffs (setPvPFlag now i) gl else gl)
               | None \<Rightarrow>
                   (case tgNpc tgt of
                      None \<Rightarrow> gl
                    | Some npc \<Rightarrow>
                        if \<not> IsAttackable npc then gl else attack_begin now i target account attacker tgt gl))))"

definition stop_if_attacking :: "int \<Rightarrow> int \<Rightarrow> game_loop \<Rightarrow> game_loop" where
  "stop_if_attacking now i gl =
     (case map_of (combatState gl) i of
        None \<Rightarrow> gl
      | Some cs \<Rightarrow> if IsAutoAttacking cs then stopAttacker now i gl else gl)"

definition handleInteractRequest :: "int \<Rightarrow> int \<Rightarrow> int \<Rightarrow> string \<Rightarrow> game_loop \<Rightarrow> game_loop" where
  "handleInteractRequest now i target account gl =
     (case GetNPC target gl of
        None \<Rightarrow> gl
      | Some npc \<Rightarrow>
          if niIsDead npc \<or> IsAttackable npc then gl
          else if interact_pending i gl = target then gl
          else (case GetPlayer i gl of
            None \<Rightarrow> gl
          | Some player \<Rightarrow>
              let gl = gl\<lparr>interactPending := AList.update i target (interactPending gl)\<rparr>;
                  gl = stop_if_attacking now i gl;
                  gl = setIntention i IntentionInteract target gl;
                  gl = startMoveToTargetPos now i target (niPosition npc) (interactApproachOffset player npc) gl
              in schedule (now + 300 * millis) (InteractApproachEvent i target account) gl))"

definition abortCast :: "int \<Rightarrow> game_loop \<Rightarrow> game_loop" where
  "abortCast i gl =
     (case GetPlayer i gl of
        None \<Rightarrow> gl
      | Some p \<Rightarrow>
          if lpCasting p = None then gl
          else broadcastToNearby (lpPosition p) (MagicSkillCanceled i) (upd_player i (\<lambda>p. p\<lparr>lpCasting := None\<rparr>) gl))"

definition handleMoveToLocation :: "int \<Rightarrow> int \<Rightarrow> game_loop \<Rightarrow> game_loop" where
  "handleMoveToLocation now i gl =
     (let gl = stop_if_attacking now i gl;
          gl = gl\<lparr>interactPending := AList.delete i (interactPending gl), castPending := AList.delete i (castPending gl)\<rparr>;
          gl = abortCast i gl
      in setIntention i IntentionMoveTo 0 gl)"

definition handlePlayerDisconnected :: "int \<Rightarrow> int \<Rightarrow> game_loop \<Rightarrow> game_loop" where
  "handlePlayerDisconnected now i gl =
     (let gl = stopAttacker now i gl;
          gl = gl\<lparr>skillReuse := AList.delete i (skillReuse gl)\<rparr>;
          (_, gl) = with_buffs (untrack i) gl;
          gl = gl\<lparr>interactPending := AList.delete i (interactPending gl), castPending := AList.delete i (castPending gl)\<rparr>;
          gl = stopAllNPCAttacksOnPlayer i gl;
          gl = call (DespawnFromAll i) gl
      in call (LeaveRegions i) gl)"

definition handlePlayerEnteredWorld :: "int \<Rightarrow> Position \<Rightarrow> game_loop \<Rightarrow> game_loop" where
  "handlePlayerEnteredWorld i pos gl = call (ReconcileVisibility i) (call (UpdateRegions i (X pos) (Y pos)) gl)"

definition handlePlayerMoved :: "int \<Rightarrow> Position \<Rightarrow> game_loop \<Rightarrow> game_loop" where
  "handlePlayerMoved i pos gl =
     (let gl = call (UpdateRegions i (X pos) (Y pos)) gl;
          driven = (case map_of (aiState gl) i of None \<Rightarrow> False | Some st \<Rightarrow> serverDrivenMovement (aiIntention st));
          gl = (if driven then gl
                else (case GetPlayer i gl of
                        None \<Rightarrow> gl | Some p \<Rightarrow> UpdatePlayerPosition i pos (lpHeading p) gl))
      in call (ReconcileVisibility i) gl)"

end
