(* ===== verification/CastModel.thy ===== *)
theory CastModel
  imports CombatModel
begin

text \<open>
  Casting, restoring and the rest of the commands of the game loop (\<open>cast.go\<close>, \<open>restore.go\<close>, \<open>regen.go\<close>,
  \<open>buff.go\<close>, \<open>teleport.go\<close>, \<open>chat.go\<close>, \<open>persist.go\<close>, the dispatch of \<open>gameloop.go\<close>), and the loop as a step relation.
  A damage or a duration that the code computes with \<open>float64\<close> is the integer part of the exact value.
\<close>

section \<open>Restoring\<close>

definition clampFloat :: "rat \<Rightarrow> rat \<Rightarrow> rat" where
  "clampFloat v m = (if v > m then m else v)"

definition clampInt :: "int \<Rightarrow> int \<Rightarrow> int" where
  "clampInt v m = (if v > m then m else v)"

definition vitals :: "Character \<Rightarrow> (string \<times> int) list" where
  "vitals c = [(''CurHP'', wrap32 (trunc (CurrentHP c))), (''MaxHP'', wrap32 (MaxHP c)),
     (''CurMP'', wrap32 (trunc (CurrentMP c))), (''MaxMP'', wrap32 (MaxMP c)),
     (''CurCP'', wrap32 (CurrentCP c)), (''MaxCP'', wrap32 (MaxCP c))]"

definition restored :: "int \<Rightarrow> int \<Rightarrow> int \<Rightarrow> Character \<Rightarrow> Character" where
  "restored hp mp cp c =
     (let c = (if hp > 0 then c\<lparr>CurrentHP := clampFloat (CurrentHP c + of_int hp) (of_int (MaxHP c))\<rparr> else c);
          c = (if mp > 0 then c\<lparr>CurrentMP := clampFloat (CurrentMP c + of_int mp) (of_int (MaxMP c))\<rparr> else c)
      in if cp > 0 then c\<lparr>CurrentCP := clampInt (CurrentCP c + cp) (MaxCP c)\<rparr> else c)"

definition handleRestoreStats :: "int \<Rightarrow> int \<Rightarrow> int \<Rightarrow> int \<Rightarrow> game_loop \<Rightarrow> game_loop" where
  "handleRestoreStats i hp mp cp gl =
     (case GetPlayer i gl of
        None \<Rightarrow> gl
      | Some p \<Rightarrow>
          if CurrentHP (lpCharacter p) \<le> 0 then gl
          else let c = restored hp mp cp (lpCharacter p);
                   gl = upd_char i (\<lambda>_. c) gl;
                   gl = send (ToPlayer i) (StatusUpdate i (vitals c)) gl;
                   gl = send (ToPlayer i) (UserInfoPacket i) gl
               in send (Targeters i) (StatusUpdate i (vitals c)) gl)"

definition HpRegenPerTick :: "int \<Rightarrow> rat" where
  "HpRegenPerTick level = max 2 (7 / 5 + of_int level / 10)"

definition MpRegenPerTick :: "int \<Rightarrow> rat" where
  "MpRegenPerTick level = max (9 / 10) (3 / 5 + 3 / 100 * of_int (min level 80))"

definition CpRegenPerTick :: "int \<Rightarrow> rat" where
  "CpRegenPerTick level = max 2 (1 / 2 + of_int (min level 80) / 10)"

definition regenerated :: "Character \<Rightarrow> Character" where
  "regenerated c = c\<lparr>CurrentHP := clampFloat (CurrentHP c + HpRegenPerTick (Level c)) (of_int (MaxHP c)),
     CurrentMP := clampFloat (CurrentMP c + MpRegenPerTick (Level c)) (of_int (MaxMP c)),
     CurrentCP := clampInt (CurrentCP c + trunc (CpRegenPerTick (Level c))) (MaxCP c)\<rparr>"

text \<open>One player of the loop; \<open>player\<close> is the pointer the loop holds.\<close>

definition regen_one :: "int \<Rightarrow> game_loop \<Rightarrow> game_loop" where
  "regen_one i gl =
     (case GetPlayer i gl of
        None \<Rightarrow> gl
      | Some p \<Rightarrow>
          let char = lpCharacter p; c = regenerated char
          in if CurrentHP char \<le> 0 then gl
             else if CurrentHP c = CurrentHP char \<and> CurrentMP c = CurrentMP char \<and> CurrentCP c = CurrentCP char then gl
             else let su = StatusUpdate i [(''CurHP'', wrap32 (trunc (CurrentHP c))),
                        (''CurMP'', wrap32 (trunc (CurrentMP c))), (''CurCP'', wrap32 (CurrentCP c))]
                  in send (Targeters i) su (send (ToPlayer i) su (upd_char i (\<lambda>_. c) gl)))"

definition regenPlayers :: "game_loop \<Rightarrow> game_loop" where
  "regenPlayers gl = fold regen_one (map fst (glPlayers gl)) gl"

definition applyDoTToPlayer :: "int \<Rightarrow> int \<Rightarrow> game_loop \<Rightarrow> game_loop" where
  "applyDoTToPlayer i dmg gl =
     (case GetPlayer i gl of
        None \<Rightarrow> gl
      | Some p \<Rightarrow>
          let hp = CurrentHP (lpCharacter p) - of_int dmg; hp = (if hp < 1 then 1 else hp);
              su = StatusUpdate i [(''CurHP'', wrap32 (trunc hp))]
          in send (Targeters i) su (send (ToPlayer i) su (upd_char i (\<lambda>c. c\<lparr>CurrentHP := hp\<rparr>) gl)))"

text \<open>What the sweep over the effects decides is carried out in its order.\<close>

definition perform :: "buff_action \<Rightarrow> game_loop \<Rightarrow> game_loop" where
  "perform a gl =
     (case a of
        RestoreStats i hp mp \<Rightarrow> handleRestoreStats i hp mp 0 gl
      | DoT i dmg \<Rightarrow> applyDoTToPlayer i dmg gl
      | _ \<Rightarrow> send_buff a gl)"

definition loop_serviceBuffs :: "int \<Rightarrow> game_loop \<Rightarrow> game_loop" where
  "loop_serviceBuffs now gl = (let (out, gl) = with_buffs (serviceBuffs now) gl in fold perform out gl)"

definition autosave_one :: "loop_player \<Rightarrow> game_loop \<Rightarrow> game_loop" where
  "autosave_one p gl = call (PersistCharacter (lpCharacter p)) gl"

definition autosaveOnlinePlayers :: "game_loop \<Rightarrow> game_loop" where
  "autosaveOnlinePlayers gl = fold autosave_one (map snd (glPlayers gl)) gl"

section \<open>Teleports\<close>

definition teleportZOffset :: int where "teleportZOffset = 5"

definition handleTeleport :: "int \<Rightarrow> int \<Rightarrow> Position \<Rightarrow> int \<Rightarrow> game_loop \<Rightarrow> game_loop" where
  "handleTeleport now i cmdDest heading gl =
     (case GetPlayer i gl of
        None \<Rightarrow> gl
      | Some player \<Rightarrow>
          let gl = stopAttacker now i gl;
              gl = SetPlayerTarget i 0 gl;
              gl = upd_player i stop_moving gl;
              dest = cmdDest\<lparr>Z := Z cmdDest + teleportZOffset\<rparr>;
              oldPos = lpPosition player;
              gl = broadcastToNearby oldPos (TeleportToLocation i dest heading) gl;
              gl = call (DecayFromView i oldPos) gl;
              gl = upd_player i (\<lambda>p. p\<lparr>lpIsTeleporting := True\<rparr>) gl
          in UpdatePlayerPosition i dest heading gl)"

definition handleRevive :: "int \<Rightarrow> int \<Rightarrow> Position \<Rightarrow> int \<Rightarrow> game_loop \<Rightarrow> game_loop" where
  "handleRevive now i dest heading gl =
     (case GetPlayer i gl of
        None \<Rightarrow> gl
      | Some p \<Rightarrow>
          let gl = upd_char i (\<lambda>c. c\<lparr>CurrentHP := of_int (MaxHP c)\<rparr>) gl;
              gl = broadcastToNearby (lpPosition p) (Revive i) gl
          in handleTeleport now i dest heading gl)"

definition applyEscape :: "loop_env \<Rightarrow> int \<Rightarrow> int \<Rightarrow> string \<Rightarrow> game_loop \<Rightarrow> game_loop" where
  "applyEscape env now i escapeType gl =
     (if escapeType \<noteq> '''' \<and> escapeType \<noteq> ''TOWN'' then gl
      else (case GetPlayer i gl of
        None \<Rightarrow> gl
      | Some p \<Rightarrow>
          (case respawnPoint env (X (lpPosition p)) (Y (lpPosition p)) of
             None \<Rightarrow> gl
           | Some dest \<Rightarrow> handleTeleport now i dest 0 gl)))"

section \<open>The effects of a skill\<close>

definition skill_IsActive :: "cast_skill \<Rightarrow> bool" where
  "skill_IsActive s \<longleftrightarrow>
     skOperateType s \<in> set [''A1'', ''A2'', ''A3'', ''A4'', ''CA1'', ''CA5'', ''DA1'', ''DA2'']"

definition skill_IsToggle :: "cast_skill \<Rightarrow> bool" where
  "skill_IsToggle s = IsToggle (Skill.truncate s)"

definition isOffensiveSkill :: "cast_skill \<Rightarrow> bool" where
  "isOffensiveSkill s \<longleftrightarrow> skIsDebuff s
     \<or> (\<exists>e \<in> set (skEffects s). seName e \<in> set [''MagicalAttack'', ''MagicalAttackRange'', ''MagicalAttackMp'',
          ''MagicalAttackByAbnormal'', ''PhysicalAttack'', ''PhysicalAttackHpLink'', ''PhysicalAttackMute'',
          ''DeathLink'', ''Blow''])"

record skill_powers =
  pwHP :: int
  pwMP :: int
  pwCP :: int
  pwMagic :: int
  pwPhys :: int
  pwDrain :: int

text \<open>The loop over the effects: \<open>Inl\<close> with the kind of escape where it returns.\<close>

fun sum_effects :: "(string \<Rightarrow> rat option) \<Rightarrow> rat SkillEffect list \<Rightarrow> skill_powers \<Rightarrow> string + skill_powers" where
  "sum_effects pf [] w = Inr w"
| "sum_effects pf (eff # effs) w =
     (let n = seName eff; v = effectPower pf eff in
      if seScope eff \<noteq> ''GENERAL'' \<and> seScope eff \<noteq> ''SELF'' then sum_effects pf effs w
      else if n = ''Escape''
      then Inl (case map_of (seParams eff) ''escapeType'' of None \<Rightarrow> '''' | Some t \<Rightarrow> t)
      else sum_effects pf effs
        (if n \<in> set [''Heal'', ''Hp'', ''HealPercent''] then w\<lparr>pwHP := pwHP w + v\<rparr>
         else if n \<in> set [''ManaHeal'', ''Mp'', ''ManaHealPercent''] then w\<lparr>pwMP := pwMP w + v\<rparr>
         else if n \<in> set [''Cp'', ''CpHeal'', ''CpHealPercent''] then w\<lparr>pwCP := pwCP w + v\<rparr>
         else if n \<in> set [''MagicalAttack'', ''MagicalAttackRange'', ''MagicalAttackMp'', ''MagicalAttackByAbnormal'']
         then w\<lparr>pwMagic := pwMagic w + v\<rparr>
         else if n \<in> set [''PhysicalAttack'', ''PhysicalAttackHpLink'', ''PhysicalAttackMute'']
         then w\<lparr>pwPhys := pwPhys w + v\<rparr>
         else if n \<in> set [''HpDrain'', ''DeathLink''] then w\<lparr>pwDrain := pwDrain w + v\<rparr>
         else w))"

definition calcPhysSkillDamage :: "int \<Rightarrow> int \<Rightarrow> int \<Rightarrow> int" where
  "calcPhysSkillDamage pAtk pDef pwr =
     (let pDef = (if pDef < 1 then 1 else pDef); damage = (76 * (pAtk + pwr)) div pDef
      in if damage < 1 then 1 else damage)"

text \<open>The power is positive where this is called.\<close>

definition calcMagicDamage :: "int \<Rightarrow> rat \<Rightarrow> int \<Rightarrow> int" where
  "calcMagicDamage mAtk mDef pwr =
     (let mDef = (if mDef < 1 then 1 else mDef);
          damage = int (isqrt (nat \<lfloor>of_int (91 * 91 * pwr * pwr * mAtk) / (mDef * mDef)\<rfloor>))
      in if damage < 1 then 1 else damage)"

definition dealSkillDamageToNPC :: "loop_env \<Rightarrow> int \<Rightarrow> int \<Rightarrow> int \<Rightarrow> int \<Rightarrow> game_loop \<Rightarrow> game_loop" where
  "dealSkillDamageToNPC env now casterID npcID damage gl =
     send (ToPlayer casterID) (DamageMessage ''C1DoneS3DamageToC2'' casterID npcID (wrap32 damage))
       (dealDamageToNPC env now npcID casterID damage gl)"

definition heal_alive :: "int \<Rightarrow> int \<Rightarrow> game_loop \<Rightarrow> game_loop" where
  "heal_alive i hp gl =
     (case GetPlayer i gl of
        None \<Rightarrow> gl
      | Some p \<Rightarrow> if CurrentHP (lpCharacter p) > 0 then handleRestoreStats i (wrap32 hp) 0 0 gl else gl)"

definition pvp_damage :: "int \<Rightarrow> int \<Rightarrow> int \<Rightarrow> ComputedStats \<Rightarrow> ComputedStats \<Rightarrow> skill_powers \<Rightarrow> game_loop \<Rightarrow> game_loop" where
  "pvp_damage now casterID targetID cst dst w gl =
     (let magic = (if pwMagic w > 0 then calcMagicDamage (csMAtk cst) (of_int (csMDef dst)) (pwMagic w) else 0);
          phys = (if pwPhys w > 0 then calcPhysSkillDamage (csPAtk cst) (csPDef dst) (pwPhys w) else 0);
          drain = (if pwDrain w > 0 then calcMagicDamage (csMAtk cst) (of_int (csMDef dst)) (pwDrain w) else 0);
          total' = magic + phys + drain;
          gl = dealDamageToPlayer now targetID casterID total' gl;
          gl = buffs (setPvPFlag now targetID) gl;
          gl = send (ToPlayer casterID) (DamageMessage ''C1DoneS3DamageToC2'' casterID targetID (wrap32 total')) gl
      in if drain > 0 then heal_alive casterID (drain div 2) gl else gl)"

definition pve_damage :: "loop_env \<Rightarrow> int \<Rightarrow> int \<Rightarrow> int \<Rightarrow> NpcTemplate \<Rightarrow> ComputedStats \<Rightarrow> skill_powers \<Rightarrow> game_loop \<Rightarrow> game_loop" where
  "pve_damage env now casterID npcID t cst w gl =
     (let gl = (if pwMagic w > 0
                then dealSkillDamageToNPC env now casterID npcID (calcMagicDamage (csMAtk cst) (ntMDef t) (pwMagic w)) gl
                else gl);
          gl = (if pwPhys w > 0
                then dealSkillDamageToNPC env now casterID npcID (calcPhysSkillDamage (csPAtk cst) (trunc (ntPDef t)) (pwPhys w)) gl
                else gl)
      in if pwDrain w > 0
         then let dmg = calcMagicDamage (csMAtk cst) (ntMDef t) (pwDrain w)
              in heal_alive casterID (dmg div 2) (dealSkillDamageToNPC env now casterID npcID dmg gl)
         else gl)"

definition applySkillEffects :: "loop_env \<Rightarrow> int \<Rightarrow> int \<Rightarrow> int \<Rightarrow> cast_skill \<Rightarrow> game_loop \<Rightarrow> game_loop" where
  "applySkillEffects env now casterID targetID skill gl =
     (if isBuffSkill (Skill.truncate skill)
      then buffs (applyBuff (parseFloat env) now targetID (Skill.truncate skill)) gl
      else (case sum_effects (parseFloat env) (skEffects skill)
               \<lparr>pwHP = 0, pwMP = 0, pwCP = 0, pwMagic = 0, pwPhys = 0, pwDrain = 0\<rparr> of
        Inl escapeType \<Rightarrow> applyEscape env now casterID escapeType gl
      | Inr w \<Rightarrow>
          let gl = (if (pwHP w > 0 \<or> pwMP w > 0 \<or> pwCP w > 0) \<and> GetPlayer targetID gl \<noteq> None
                    then handleRestoreStats targetID (wrap32 (pwHP w)) (wrap32 (pwMP w)) (wrap32 (pwCP w)) gl else gl)
          in if pwMagic w \<le> 0 \<and> pwPhys w \<le> 0 \<and> pwDrain w \<le> 0 then gl
             else (case GetPlayer casterID gl of
               None \<Rightarrow> gl
             | Some caster \<Rightarrow>
                 let cst = computePlayerStats caster
                 in (case (if targetID = casterID then None else GetPlayer targetID gl) of
                      Some tgt \<Rightarrow>
                        if CurrentHP (lpCharacter tgt) \<le> 0 then gl
                        else pvp_damage now casterID targetID cst (computePlayerStats tgt) w gl
                    | None \<Rightarrow>
                        (case GetNPC targetID gl of
                           None \<Rightarrow> gl
                         | Some npc \<Rightarrow>
                             if niIsDead npc then gl
                             else pve_damage env now casterID targetID (niTemplate npc) cst w gl)))))"


section \<open>Casting\<close>

definition GetSkill :: "loop_env \<Rightarrow> int \<Rightarrow> int \<Rightarrow> cast_skill option" where
  "GetSkill env skillID level = (case skillData env of None \<Rightarrow> None | Some sd \<Rightarrow> sd skillID level)"

definition isSkillOnReuse :: "int \<Rightarrow> int \<Rightarrow> int \<Rightarrow> game_loop \<Rightarrow> bool" where
  "isSkillOnReuse now i skillID gl \<longleftrightarrow>
     (case map_of (submap (skillReuse gl) i) skillID of None \<Rightarrow> False | Some readyAt \<Rightarrow> now < readyAt)"

definition armSkillReuse :: "int \<Rightarrow> int \<Rightarrow> int \<Rightarrow> int \<Rightarrow> int \<Rightarrow> game_loop \<Rightarrow> game_loop" where
  "armSkillReuse now i skillID skillLevel reuseMillis gl =
     (if reuseMillis \<le> 0 then gl
      else send (ToPlayer i) (SkillCoolTime skillID skillLevel (wrap32 reuseMillis))
        (gl\<lparr>skillReuse := AList.update i
               (AList.update skillID (now + reuseMillis * millis) (submap (skillReuse gl) i)) (skillReuse gl)\<rparr>))"

definition objectPosition :: "int \<Rightarrow> Position \<Rightarrow> game_loop \<Rightarrow> Position" where
  "objectPosition objectID dflt gl =
     (case GetPlayer objectID gl of
        Some p \<Rightarrow> lpPosition p
      | None \<Rightarrow> (case GetNPC objectID gl of Some n \<Rightarrow> niPosition n | None \<Rightarrow> dflt))"

definition castTime :: "loop_player \<Rightarrow> cast_skill \<Rightarrow> int" where
  "castTime caster skill =
     (if skHitTime skill \<le> 0 then 0
      else let stats = computePlayerStats caster;
               speed = (if skMagic skill = 1 then csMAtkSpd stats else csPAtkSpd stats);
               speed = (if speed < 1 then 1 else speed);
               t = of_int (skHitTime skill) / of_int speed * 333;
               t = (if t < 500 \<and> skHitTime skill > 500 then 500 else t)
           in trunc t * millis)"

definition targetInCastRange :: "loop_player \<Rightarrow> int \<Rightarrow> cast_skill \<Rightarrow> game_loop \<Rightarrow> bool" where
  "targetInCastRange caster targetID skill gl \<longleftrightarrow>
     skCastRange skill \<le> 0 \<or> targetID = lpCharID caster
     \<or> (let reach = skCastRange skill + 80
        in dist2 (lpPosition caster) (objectPosition targetID (lpPosition caster) gl) \<le> reach * reach)"

definition resolveCastTarget :: "loop_player \<Rightarrow> cast_skill \<Rightarrow> int" where
  "resolveCastTarget caster skill =
     (if skTargetType skill = ''SELF'' then lpCharID caster
      else if lpTargetID caster \<noteq> 0 then lpTargetID caster
      else if \<not> isOffensiveSkill skill then lpCharID caster
      else 0)"

definition startCastApproach :: "int \<Rightarrow> loop_player \<Rightarrow> CmdCastRequest \<Rightarrow> int \<Rightarrow> cast_skill \<Rightarrow> game_loop \<Rightarrow> game_loop" where
  "startCastApproach now caster cmd target skill gl =
     (let i = CasterCharID cmd in
      if (case map_of (castPending gl) i of None \<Rightarrow> False | Some pend \<Rightarrow> castSkillID pend = castSkillID cmd) then gl
      else let gl = stop_if_attacking now i gl;
               gl = gl\<lparr>interactPending := AList.delete i (interactPending gl),
                       castPending := AList.update i cmd (castPending gl)\<rparr>;
               gl = setIntention i IntentionCast target gl;
               tpos = objectPosition target (lpPosition caster) gl;
               gl = startMoveToTargetPos now i target tpos (skCastRange skill) gl
           in schedule (now + 300 * millis) (CastApproachEvent i target cmd) gl)"

text \<open>A cast whose checks have passed: \<open>caster\<close> has paid, the level is known.\<close>

definition beginCast :: "loop_env \<Rightarrow> int \<Rightarrow> int \<Rightarrow> int \<Rightarrow> cast_skill \<Rightarrow> int \<Rightarrow> int \<Rightarrow> game_loop \<Rightarrow> game_loop" where
  "beginCast env now i target skill skillID level gl =
     (case GetPlayer i gl of
        None \<Rightarrow> gl
      | Some caster \<Rightarrow>
          let reuse = wrap32 (skReuseDelay skill); pos = lpPosition caster in
          if skill_IsToggle skill
          then let gl = broadcastToNearby pos (MagicSkillUse i target skillID level 0 reuse) gl;
                   gl = broadcastToNearby pos (MagicSkillLaunched i skillID level target) gl;
                   gl = applySkillEffects env now i target skill gl
               in armSkillReuse now i skillID level (skReuseDelay skill) gl
          else let hitTime = castTime caster skill; castID = castSeq gl + 1;
                   gl = gl\<lparr>castSeq := castID\<rparr>;
                   gl = upd_player i (\<lambda>p. p\<lparr>lpCasting := Some \<lparr>ctID = castID, ctSkillID = skillID,
                          ctSkillLevel = level, ctTargetID = target\<rparr>\<rparr>) gl;
                   gl = broadcastToNearby pos (MagicSkillUse i target skillID level (hitTime div millis) reuse) gl;
                   gl = send (ToPlayer i) (SetupGauge i (hitTime div millis)) gl
               in schedule (now + hitTime) (CastHitEvent i castID) gl)"

text \<open>The PvP gate of an offensive skill: refused, or the state with the attacker flagged.\<close>

definition cast_gate :: "int \<Rightarrow> loop_player \<Rightarrow> int \<Rightarrow> cast_skill \<Rightarrow> bool \<Rightarrow> game_loop \<Rightarrow> bool \<times> game_loop" where
  "cast_gate now caster target skill ctrl gl =
     (if isOffensiveSkill skill \<and> target \<noteq> lpCharID caster
      then (case GetPlayer target gl of
              None \<Rightarrow> (True, gl)
            | Some tgt \<Rightarrow>
                let (allowed, flagAttacker) = canAttackPlayer (Some (buff_view tgt)) ctrl now
                in if \<not> allowed
                   then (False, send (ToPlayer (lpCharID caster)) ActionFailed
                                  (send (ToPlayer (lpCharID caster)) (SystemMessage ''IncorrectTarget'') gl))
                   else (True, if flagAttacker then buffs (setPvPFlag now (lpCharID caster)) gl else gl))
      else (True, gl))"

definition handleCastRequest :: "loop_env \<Rightarrow> int \<Rightarrow> CmdCastRequest \<Rightarrow> game_loop \<Rightarrow> game_loop" where
  "handleCastRequest env now cmd gl =
     (if skillData env = None then gl
      else let i = CasterCharID cmd; skillID = castSkillID cmd in
      case GetPlayer i gl of
        None \<Rightarrow> gl
      | Some caster \<Rightarrow>
          let char = lpCharacter caster;
              level = (case map_of (lpKnownSkills caster) skillID of None \<Rightarrow> 0 | Some l \<Rightarrow> l)
          in if CurrentHP char \<le> 0 then gl
             else if lpCasting caster \<noteq> None then gl
             else if level \<le> 0 then gl
             else (case GetSkill env skillID level of
               None \<Rightarrow> gl
             | Some skill \<Rightarrow>
                 if \<not> skill_IsActive skill \<and> \<not> skill_IsToggle skill then gl
                 else if skill_IsToggle skill \<and> Buffs.HasSkill (lpEffects caster) skillID
                 then buffs (toggleOff now i skillID) gl
                 else if isSkillOnReuse now i skillID gl then gl
                 else let target = resolveCastTarget caster skill
                      in if target = 0 then gl
                         else if \<not> targetInCastRange caster target skill gl
                         then startCastApproach now caster cmd target skill gl
                         else let gl = gl\<lparr>castPending := AList.delete i (castPending gl)\<rparr>;
                                  (allowed, gl) = cast_gate now caster target skill (CtrlPressed cmd) gl
                              in if \<not> allowed then gl
                                 else if trunc (CurrentMP char) < skMpConsume1 skill + skMpConsume2 skill
                                 then send (ToPlayer i) (SystemMessage ''NotEnoughMp'') gl
                                 else beginCast env now i target skill skillID level
                                        (if skMpConsume1 skill > 0
                                         then upd_char i (\<lambda>c. c\<lparr>CurrentMP := CurrentMP c - of_int (skMpConsume1 skill)\<rparr>) gl
                                         else gl)))"

definition exec_CastHit :: "loop_env \<Rightarrow> int \<Rightarrow> int \<Rightarrow> int \<Rightarrow> game_loop \<Rightarrow> game_loop" where
  "exec_CastHit env now i castID gl =
     (case GetPlayer i gl of
        None \<Rightarrow> gl
      | Some caster \<Rightarrow>
          (case lpCasting caster of
             None \<Rightarrow> gl
           | Some cast \<Rightarrow>
               if ctID cast \<noteq> castID then gl
               else let gl = upd_player i (\<lambda>p. p\<lparr>lpCasting := None\<rparr>) gl; char = lpCharacter caster
                    in if CurrentHP char \<le> 0 then gl
                       else (case GetSkill env (ctSkillID cast) (ctSkillLevel cast) of
                         None \<Rightarrow> gl
                       | Some skill \<Rightarrow>
                           let c2 = skMpConsume2 skill;
                               gl = (if c2 > 0
                                     then if trunc (CurrentMP char) < c2
                                          then send (ToPlayer i) (SystemMessage ''NotEnoughMp'') gl
                                          else upd_char i (\<lambda>c. c\<lparr>CurrentMP := CurrentMP c - of_int c2\<rparr>) gl
                                     else gl);
                               gl = broadcastToNearby (lpPosition caster)
                                      (MagicSkillLaunched i (ctSkillID cast) (ctSkillLevel cast) (ctTargetID cast)) gl;
                               gl = applySkillEffects env now i (ctTargetID cast) skill gl
                           in armSkillReuse now i (ctSkillID cast) (ctSkillLevel cast) (skReuseDelay skill) gl)))"

definition clear_cast :: "int \<Rightarrow> int \<Rightarrow> game_loop \<Rightarrow> game_loop" where
  "clear_cast i skillID gl =
     (case map_of (castPending gl) i of
        None \<Rightarrow> gl
      | Some pend \<Rightarrow> if castSkillID pend = skillID then gl\<lparr>castPending := AList.delete i (castPending gl)\<rparr> else gl)"

definition exec_CastApproach :: "loop_env \<Rightarrow> int \<Rightarrow> int \<Rightarrow> int \<Rightarrow> CmdCastRequest \<Rightarrow> game_loop \<Rightarrow> game_loop" where
  "exec_CastApproach env now i target cmd gl =
     (let skillID = castSkillID cmd in
      if (case map_of (castPending gl) i of None \<Rightarrow> True | Some pend \<Rightarrow> castSkillID pend \<noteq> skillID) then gl
      else (case GetPlayer i gl of
        None \<Rightarrow> clear_cast i skillID gl
      | Some caster \<Rightarrow>
          if CurrentHP (lpCharacter caster) \<le> 0 then clear_cast i skillID gl
          else if lpCasting caster \<noteq> None then clear_cast i skillID gl
          else if target \<noteq> i \<and> lpTargetID caster \<noteq> target then clear_cast i skillID gl
          else (case GetSkill env skillID (case map_of (lpKnownSkills caster) skillID of None \<Rightarrow> 0 | Some l \<Rightarrow> l) of
            None \<Rightarrow> clear_cast i skillID gl
          | Some skill \<Rightarrow>
              if \<not> targetInCastRange caster target skill gl
              then let gl = (if \<not> lpIsMoving caster
                             then startMoveToTargetPos now i target (objectPosition target (lpPosition caster) gl)
                                    (skCastRange skill) gl
                             else gl)
                   in schedule (now + 400 * millis) (CastApproachEvent i target cmd) gl
              else let gl = clear_cast i skillID gl;
                       gl = upd_player i (\<lambda>p. p\<lparr>lpIsMoving := False\<rparr>) gl;
                       gl = clearIntention i gl
                   in handleCastRequest env now cmd gl)))"

definition handleItemSkillCast :: "loop_env \<Rightarrow> int \<Rightarrow> int \<Rightarrow> int \<Rightarrow> int \<Rightarrow> game_loop \<Rightarrow> game_loop" where
  "handleItemSkillCast env now i skillID level gl =
     (if skillData env = None then gl
      else (case GetPlayer i gl of
        None \<Rightarrow> gl
      | Some caster \<Rightarrow>
          if CurrentHP (lpCharacter caster) \<le> 0 then gl
          else (case GetSkill env skillID level of
            None \<Rightarrow> gl
          | Some skill \<Rightarrow>
              let gl = broadcastToNearby (lpPosition caster) (MagicSkillUse i i skillID level 0 0) gl;
                  gl = broadcastToNearby (lpPosition caster) (MagicSkillLaunched i skillID level i) gl
              in applySkillEffects env now i i skill gl)))"

section \<open>Chat\<close>

definition chatAllRadius :: int where "chatAllRadius = 1250"
definition chatShoutRadius :: int where "chatShoutRadius = 7000"

text \<open>\<open>GetPlayerByName\<close>: the first player with the name, whatever its case.\<close>

definition GetPlayerByName :: "string \<Rightarrow> game_loop \<Rightarrow> loop_player option" where
  "GetPlayerByName name gl =
     map_option snd (find (\<lambda>(i, p). ToLower (Name (lpCharacter p)) = ToLower name) (glPlayers gl))"

definition handleChatMessage :: "int \<Rightarrow> string \<Rightarrow> int \<Rightarrow> string \<Rightarrow> string \<Rightarrow> string \<Rightarrow> game_loop \<Rightarrow> game_loop" where
  "handleChatMessage senderID account chatType senderName txt target gl =
     (let pkt = CreatureSay senderID chatType senderName txt in
      if chatType = 0 \<or> chatType = 1
      then (case GetPlayer senderID gl of
              None \<Rightarrow> gl
            | Some sender \<Rightarrow>
                send (Nearby (lpPosition sender) (if chatType = 0 then chatAllRadius else chatShoutRadius)) pkt gl)
      else if chatType = 2
      then (case GetPlayerByName target gl of
              None \<Rightarrow> send (ToAccount account) (SystemMessage ''TargetNotFound'') gl
            | Some t \<Rightarrow>
                send (ToAccount account) (CreatureSay senderID chatType (''->'' @ Name (lpCharacter t)) txt)
                  (send (ToAccount (lpAccountName t)) pkt gl))
      else gl)"

section \<open>The loop\<close>

datatype loop_cmd =
    CmdAttackRequest int int string bool
  | CmdInteractRequest int int string
  | CmdCancelAttack int
  | CmdPlayerDisconnected int
  | CmdPlayerEnteredWorld int Position
  | CmdPlayerMoved int Position
  | CmdMoveToLocation int
  | CmdTeleport int Position int
  | CmdRevive int Position int
  | CmdRestoreStats int int int int
  | CmdCast CmdCastRequest
  | CmdItemSkillCast int int int
  | CmdDispel int int
  | CmdChatMessage int string int string string string

fun processCommand :: "loop_env \<Rightarrow> int \<Rightarrow> loop_cmd \<Rightarrow> game_loop \<Rightarrow> game_loop" where
  "processCommand env now (CmdAttackRequest i target account force) gl = handleAttackRequest now i target account force gl"
| "processCommand env now (CmdInteractRequest i target account) gl = handleInteractRequest now i target account gl"
| "processCommand env now (CmdCancelAttack i) gl = stopAttacker now i gl"
| "processCommand env now (CmdPlayerDisconnected i) gl = handlePlayerDisconnected now i gl"
| "processCommand env now (CmdPlayerEnteredWorld i pos) gl = handlePlayerEnteredWorld i pos gl"
| "processCommand env now (CmdPlayerMoved i pos) gl = handlePlayerMoved i pos gl"
| "processCommand env now (CmdMoveToLocation i) gl = handleMoveToLocation now i gl"
| "processCommand env now (CmdTeleport i dest h) gl = handleTeleport now i dest h gl"
| "processCommand env now (CmdRevive i dest h) gl = handleRevive now i dest h gl"
| "processCommand env now (CmdRestoreStats i hp mp cp) gl = handleRestoreStats i hp mp cp gl"
| "processCommand env now (CmdCast cmd) gl = handleCastRequest env now cmd gl"
| "processCommand env now (CmdItemSkillCast i s l) gl = handleItemSkillCast env now i s l gl"
| "processCommand env now (CmdDispel i s) gl = buffs (toggleOff now i s) gl"
| "processCommand env now (CmdChatMessage i account t name txt target) gl = handleChatMessage i account t name txt target gl"

fun exec_event :: "loop_env \<Rightarrow> int \<Rightarrow> loop_event \<Rightarrow> game_loop \<Rightarrow> game_loop" where
  "exec_event env now (CastApproachEvent i target cmd) gl = exec_CastApproach env now i target cmd gl"
| "exec_event env now (InteractApproachEvent i target account) gl = exec_InteractApproach now i target account gl"
| "exec_event env now (NextAttackEvent i target) gl = exec_NextAttack env now i target gl"
| "exec_event env now (HitEvent i target d) gl = exec_Hit env now i target d gl"
| "exec_event env now (RespawnEvent n) gl = exec_Respawn env n gl"
| "exec_event env now (CorpseDecayEvent n) gl = exec_CorpseDecay n gl"
| "exec_event env now (CombatStanceTimeoutEvent i) gl = exec_StanceTimeout now i gl"
| "exec_event env now (NPCNextAttackEvent n i) gl = exec_NPCNextAttack env now n i gl"
| "exec_event env now (NPCHitEvent n i d) gl = exec_NPCHit now n i d gl"
| "exec_event env now (CastHitEvent i c) gl = exec_CastHit env now i c gl"

text \<open>What a command or an event has scheduled goes into the queue when it is over.\<close>

type_synonym loop_state = "loop_event queue \<times> game_loop"

definition flush :: "loop_event queue \<Rightarrow> game_loop \<Rightarrow> loop_state" where
  "flush q gl = (fold Schedule (glNew gl) q, gl\<lparr>glNew := []\<rparr>)"

text \<open>\<open>Execute\<close> as \<open>run_due\<close> wants it: \<open>now\<close> is the same for all the events of one tick.\<close>

definition exec_due :: "loop_env \<Rightarrow> int \<Rightarrow> loop_event event \<Rightarrow> game_loop \<Rightarrow> game_loop \<times> loop_event event list" where
  "exec_due env now e gl = (let gl = exec_event env now (Payload e) gl in (gl\<lparr>glNew := []\<rparr>, glNew gl))"

definition tick :: "loop_env \<Rightarrow> nat \<Rightarrow> int \<Rightarrow> loop_cmd list \<Rightarrow> loop_state \<Rightarrow> loop_state option" where
  "tick env fuel now cmds s =
     (let (q, gl) = fold (\<lambda>c (q, gl). flush q (processCommand env now c gl)) cmds s;
          gl = advancePlayerMovement now gl
      in (case run_due fuel now (exec_due env now) q gl of
            None \<Rightarrow> None
          | Some (q, gl, _) \<Rightarrow> Some (q, gl)))"

end
