(* ===== verification/LoopInvariants.thy ===== *)
theory LoopInvariants
  imports CastModel
begin

text \<open>
  What the operations of the game loop keep. An invariant that the elementary changes of the state keep
  (locale \<open>loop_frame\<close>) and that survives a death (locale \<open>loop_inv\<close>) is kept by every command and by every
  event but those that add or remove an NPC or end a combat stance; each invariant of the loop is an
  interpretation.
\<close>

section \<open>Elementary facts\<close>

lemma GetPlayer_upd [simp]:
  "GetPlayer j (upd_player i f gl) = (if j = i then map_option f (GetPlayer i gl) else GetPlayer j gl)"
  by (simp add: GetPlayer_def upd_player_def split: option.split)

lemma upd_player_same [simp]:
  "glNpcs (upd_player i f gl) = glNpcs gl" "combatState (upd_player i f gl) = combatState gl"
  "aiState (upd_player i f gl) = aiState gl" "npcCombatState (upd_player i f gl) = npcCombatState gl"
  "npcHateLists (upd_player i f gl) = npcHateLists gl" "npcSpawnInfo (upd_player i f gl) = npcSpawnInfo gl"
  "glNew (upd_player i f gl) = glNew gl" "glOut (upd_player i f gl) = glOut gl" "glNextID (upd_player i f gl) = glNextID gl"
  by (simp_all add: upd_player_def split: option.split)

lemma GetNPC_upd [simp]:
  "GetNPC j (upd_npc i f gl) = (if j = i then map_option f (GetNPC i gl) else GetNPC j gl)"
  by (simp add: GetNPC_def upd_npc_def split: option.split)

lemma upd_npc_same [simp]:
  "glPlayers (upd_npc i f gl) = glPlayers gl" "combatState (upd_npc i f gl) = combatState gl"
  "npcSpawnInfo (upd_npc i f gl) = npcSpawnInfo gl" "npcHateLists (upd_npc i f gl) = npcHateLists gl"
  "glNew (upd_npc i f gl) = glNew gl" "glOut (upd_npc i f gl) = glOut gl" "glNextID (upd_npc i f gl) = glNextID gl"
  by (simp_all add: upd_npc_def split: option.split)

lemma trunc_le_self: "0 \<le> q \<Longrightarrow> of_int (trunc q) \<le> q"
  by (rule trunc_le)

lemma fold_pres: "I s \<Longrightarrow> (\<And>x s. I s \<Longrightarrow> I (f x s)) \<Longrightarrow> I (fold f xs s)"
  by (induction xs arbitrary: s) auto

section \<open>The vitals of a character\<close>

definition char_ok :: "Character \<Rightarrow> bool" where
  "char_ok c \<longleftrightarrow> 1 \<le> MaxHP c \<and> 0 \<le> CurrentHP c \<and> CurrentHP c \<le> of_int (MaxHP c)
     \<and> 0 \<le> MaxMP c \<and> 0 \<le> CurrentMP c \<and> CurrentMP c \<le> of_int (MaxMP c)
     \<and> 0 \<le> CurrentCP c \<and> CurrentCP c \<le> MaxCP c"

text \<open>A change of a player that leaves its identity and its combat stance alone and its vitals in range.\<close>

definition keeps :: "(loop_player \<Rightarrow> loop_player) \<Rightarrow> bool" where
  "keeps f \<longleftrightarrow> (\<forall>p. lpCharID (f p) = lpCharID p \<and> lpInCombat (f p) = lpInCombat p
     \<and> (char_ok (lpCharacter p) \<longrightarrow> char_ok (lpCharacter (f p))))"

lemma keeps_stop [simp]: "keeps stop_moving"
  by (simp add: keeps_def stop_moving_def)

lemma keeps_fields [simp]:
  "keeps (\<lambda>p. p\<lparr>lpTargetID := t\<rparr>)" "keeps (\<lambda>p. p\<lparr>lpCasting := c\<rparr>)" "keeps (\<lambda>p. p\<lparr>lpIsTeleporting := b\<rparr>)"
  "keeps (\<lambda>p. p\<lparr>lpIsMoving := b\<rparr>)"
  "keeps (\<lambda>p. p\<lparr>lpIsMoving := True, lpMoveStartPos := lpPosition p, lpMoveDestination := dest, lpMoveStarted := now\<rparr>)"
  "keeps (\<lambda>p. p\<lparr>lpPosition := pos, lpHeading := h, lpCharacter := (lpCharacter p)\<lparr>Position := pos\<rparr>\<rparr>)"
  by (simp_all add: keeps_def char_ok_def)

lemma keeps_char: "(\<And>c. char_ok c \<Longrightarrow> char_ok (f c)) \<Longrightarrow> keeps (\<lambda>p. p\<lparr>lpCharacter := f (lpCharacter p)\<rparr>)"
  by (simp add: keeps_def)

lemma keeps_exp [simp]: "char_ok c \<Longrightarrow> char_ok (c\<lparr>Experience := e, SP := s\<rparr>)"
  by (simp add: char_ok_def)

lemma keeps_zero [simp]: "char_ok c \<Longrightarrow> char_ok (c\<lparr>CurrentHP := 0\<rparr>)"
  by (simp add: char_ok_def)

lemma keeps_full [simp]: "char_ok c \<Longrightarrow> char_ok (c\<lparr>CurrentHP := of_int (MaxHP c)\<rparr>)"
  by (simp add: char_ok_def)

lemma keeps_restored [simp]: "char_ok c \<Longrightarrow> char_ok (restored hp mp cp c)"
  by (auto simp: char_ok_def restored_def clampFloat_def clampInt_def Let_def)

lemma regen_pos: "0 \<le> HpRegenPerTick l" "0 \<le> MpRegenPerTick l" "0 \<le> trunc (CpRegenPerTick l)"
  by (auto simp: HpRegenPerTick_def MpRegenPerTick_def CpRegenPerTick_def le_max_iff_disj intro!: trunc_nonneg)

lemma keeps_regenerated [simp]: "char_ok c \<Longrightarrow> char_ok (regenerated c)"
  using regen_pos [of "Level c"] by (auto simp: char_ok_def regenerated_def clampFloat_def clampInt_def)

lemma keeps_levelup [simp]: "keeps (\<lambda>p. applyLevelUp old new (p\<lparr>lpCharacter := (lpCharacter p)\<lparr>Level := new\<rparr>\<rparr>))"
  by (auto simp: keeps_def applyLevelUp_def Let_def char_ok_def)

lemma roll_shape:
  "\<exists>miss crit d n. roll_attack env a e pa pd cr gl = (miss, crit, d, gl\<lparr>glDraws := n\<rparr>) \<and> 0 \<le> d \<and> (\<not> miss \<longrightarrow> 1 \<le> d)"
  by (auto simp: roll_attack_def applyVariance_def rand_Intn_def rand_Float64_def Let_def)

section \<open>The frame\<close>

text \<open>The events that neither add nor remove an NPC, and do no negative damage.\<close>

fun plain :: "loop_event \<Rightarrow> bool" where
  "plain (HitEvent i t d) = (0 \<le> d)"
| "plain (NPCHitEvent n i d) = (0 \<le> d)"
| "plain (RespawnEvent n) = False"
| "plain (CorpseDecayEvent n) = False"
| "plain e = True"

text \<open>How many further rounds of one tick an event can cause: an event that is due at once has a smaller rank.\<close>

fun rank :: "loop_event \<Rightarrow> nat" where
  "rank (CastApproachEvent i t c) = 3"
| "rank (CastHitEvent i c) = 2"
| "rank (HitEvent i t d) = 2"
| "rank (NPCHitEvent n i d) = 2"
| "rank e = 1"

lemma attack_speed_min: "100 \<le> calcAttackSpeed a"
  by (simp add: calcAttackSpeed_def Let_def)

lemma attack_speed_pos [simp]: "0 < calcAttackSpeed a" "0 < calcAttackSpeed a div 2"
  using attack_speed_min [of a] by linarith+

lemma delays_pos [simp]: "0 < combatStanceTimeout" "0 < corpseDecayDelay" "0 < respawnDelay" "0 < millis"
  by (simp_all add: combatStanceTimeout_def corpseDecayDelay_def respawnDelay_def second_def millis_def)

text \<open>
  \<open>ok t e\<close>: an event \<open>e\<close> may be scheduled for the time \<open>t\<close> when the clock says \<open>now\<close>.
\<close>

locale loop_frame =
  fixes I :: "game_loop \<Rightarrow> bool" and now :: int and ok :: "int \<Rightarrow> loop_event \<Rightarrow> bool"
  assumes out: "I gl \<Longrightarrow> I (gl\<lparr>glOut := glOut gl @ x\<rparr>)"
    and draws: "I gl \<Longrightarrow> I (gl\<lparr>glDraws := n\<rparr>)"
    and ai: "I gl \<Longrightarrow> I (gl\<lparr>aiState := a\<rparr>)"
    and ipend: "I gl \<Longrightarrow> I (gl\<lparr>interactPending := ip\<rparr>)"
    and cpend: "I gl \<Longrightarrow> I (gl\<lparr>castPending := cp\<rparr>)"
    and reuse: "I gl \<Longrightarrow> I (gl\<lparr>skillReuse := r\<rparr>)"
    and cseq: "I gl \<Longrightarrow> I (gl\<lparr>castSeq := k\<rparr>)"
    and shots: "I gl \<Longrightarrow> I (gl\<lparr>glShots := sh\<rparr>)"
    and npcfight: "I gl \<Longrightarrow> I (gl\<lparr>npcCombatState := nc\<rparr>)"
    and hate: "I gl \<Longrightarrow> I (gl\<lparr>npcHateLists := hl\<rparr>)"
    and later: "now < t \<Longrightarrow> plain e \<Longrightarrow> ok t e"
    and sched: "I gl \<Longrightarrow> ok t e \<Longrightarrow> I (gl\<lparr>glNew := glNew gl @ [\<lparr>ExecuteAt = t, Payload = e\<rparr>]\<rparr>)"
    and stop_cs: "I gl \<Longrightarrow> map_of (combatState gl) i = Some cs \<Longrightarrow>
      I (gl\<lparr>combatState := AList.update i (cs\<lparr>IsAutoAttacking := False\<rparr>) (combatState gl)\<rparr>)"
    and swing_cs: "I gl \<Longrightarrow> map_of (combatState gl) i = Some cs \<Longrightarrow>
      I (gl\<lparr>combatState := AList.update i (cs\<lparr>LastAttackTime := lt\<rparr>) (combatState gl)\<rparr>)"
    and player: "I gl \<Longrightarrow> keeps f \<Longrightarrow> I (upd_player i f gl)"
    and enter: "I gl \<Longrightarrow> I (SetPlayerCombatState i True gl)"
    and buffs: "I gl \<Longrightarrow> I (snd (with_buffs g gl))"
begin

text \<open>One \<open>let\<close> at a time, so that an intermediate state is only known by the invariant.\<close>

lemma let_state: "I e \<Longrightarrow> (\<And>g. I g \<Longrightarrow> I (f g)) \<Longrightarrow> I (let g = e in f g)"
  by simp

lemma let_any: "(\<And>x. x = e \<Longrightarrow> I (f x)) \<Longrightarrow> I (let x = e in f x)"
  by simp

lemma if_op [simp]: "I (if b then x else y) \<longleftrightarrow> (if b then I x else I y)"
  by simp

lemma out_ops [simp]: "I gl \<Longrightarrow> I (send r p gl)" "I gl \<Longrightarrow> I (call c gl)" "I gl \<Longrightarrow> I (broadcastToNearby pos p gl)"
  by (simp_all add: send_def call_def broadcastToNearby_def out)

lemma sched_op [simp]: "I gl \<Longrightarrow> ok t e \<Longrightarrow> I (schedule t e gl)"
  by (simp add: schedule_def sched)

lemma sched_later [simp]: "I gl \<Longrightarrow> 0 < t \<Longrightarrow> plain e \<Longrightarrow> I (schedule (now + t) e gl)"
  by (simp add: later)

lemma char_op: "I gl \<Longrightarrow> (\<And>c. char_ok c \<Longrightarrow> char_ok (f c)) \<Longrightarrow> I (upd_char i f gl)"
  by (simp add: upd_char_def player keeps_char)

lemma send_buff_op [simp]: "I gl \<Longrightarrow> I (send_buff a gl)"
  by (simp add: send_buff_def split: buff_action.split option.split)

lemma buffs_op [simp]: "I gl \<Longrightarrow> I (CombatModel.buffs g gl)"
  using buffs [of gl g] by (auto simp: CombatModel.buffs_def Let_def split_beta intro!: fold_pres [of I])

lemma intention_op [simp]: "I gl \<Longrightarrow> I (setIntention i a t gl)" "I gl \<Longrightarrow> I (clearIntention i gl)"
  by (simp_all add: setIntention_def clearIntention_def ai split: option.split)

lemma position_op [simp]: "I gl \<Longrightarrow> I (UpdatePlayerPosition i pos h gl)" "I gl \<Longrightarrow> I (SetPlayerTarget i t gl)"
  by (simp_all add: UpdatePlayerPosition_def SetPlayerTarget_def player)

lemma move_op [simp]: "I gl \<Longrightarrow> I (startMoveToTargetPos now i t pos reach gl)"
  by (simp add: startMoveToTargetPos_def Let_def player split: option.split)

lemma stance_op [simp]: "I gl \<Longrightarrow> I (enterCombatStance i gl)"
  by (simp add: enterCombatStance_def enter split: option.split)

lemma stop_op [simp]: "I gl \<Longrightarrow> I (stopAttacker now i gl)"
  by (simp add: stopAttacker_def Let_def stop_cs split: option.split)

lemma stop_if_op [simp]: "I gl \<Longrightarrow> I (stop_if_attacking now i gl)"
  by (simp add: stop_if_attacking_def split: option.split)

lemma stop_npc_op [simp]: "I gl \<Longrightarrow> I (stopNPCAttack n gl)"
  by (simp add: stopNPCAttack_def Let_def npcfight split: option.split)

lemma stop_npcs_op [simp]: "I gl \<Longrightarrow> I (stopAllNPCAttacksOnPlayer i gl)"
  unfolding stopAllNPCAttacksOnPlayer_def
  by (rule fold_pres) (simp_all add: stop_npc_on_def split: option.split)

lemma stop_attackers_op [simp]: "I gl \<Longrightarrow> I (stopAllAttackersOnTarget now t gl)"
  unfolding stopAllAttackersOnTarget_def
  by (rule fold_pres) (simp_all add: stop_attacker_on_def Let_def stop_cs player split: option.split)

lemma award_op [simp]: "I gl \<Longrightarrow> I (awardExpForNPCKill env npc gl)"
proof -
  have "I gl \<Longrightarrow> I (award_one env l b s t a gl)" for l b s t a gl
    by (cases a)
      (simp add: award_one_def Let_def sendExpRewardNotification_def player char_op split: option.split)
  then show "I gl \<Longrightarrow> I (awardExpForNPCKill env npc gl)"
    by (auto simp: awardExpForNPCKill_def Let_def intro!: fold_pres [of I] split: option.split)
qed

lemma char_at:
  assumes "I gl" and "GetPlayer i gl = Some p" and "char_ok (lpCharacter p) \<Longrightarrow> char_ok (f (lpCharacter p))"
  shows "I (upd_char i f gl)"
proof -
  let ?f = "\<lambda>q. q\<lparr>lpCharacter := if lpCharacter q = lpCharacter p then f (lpCharacter q) else lpCharacter q\<rparr>"
  have "upd_char i f gl = upd_player i ?f gl"
    using assms(2) by (simp add: upd_char_def upd_player_def)
  then show ?thesis
    using player [OF assms(1), of ?f i] assms(3) by (auto simp: keeps_def)
qed

lemma hurt_op [simp]: "I gl \<Longrightarrow> 0 \<le> d \<Longrightarrow> I (hurt_player i d gl)"
  by (auto simp: hurt_player_def Let_def lower_hp_def char_ok_def intro!: out_ops char_at split: option.split)

lemma restore_op [simp]: "I gl \<Longrightarrow> I (handleRestoreStats i hp mp cp gl)"
  by (auto simp: handleRestoreStats_def Let_def intro!: out_ops char_at split: option.split)

lemma regen_op [simp]: "I gl \<Longrightarrow> I (regenPlayers gl)"
  unfolding regenPlayers_def
  by (rule fold_pres) (auto simp: regen_one_def Let_def intro!: out_ops char_at split: option.split)

lemma dot_op [simp]: "I gl \<Longrightarrow> 0 \<le> d \<Longrightarrow> I (applyDoTToPlayer i d gl)"
  by (auto simp: applyDoTToPlayer_def Let_def char_ok_def intro!: out_ops char_at split: option.split)

lemma heal_op [simp]: "I gl \<Longrightarrow> I (heal_alive i hp gl)"
  by (simp add: heal_alive_def split: option.split)

lemma autosave_op [simp]: "I gl \<Longrightarrow> I (autosaveOnlinePlayers gl)"
  unfolding autosaveOnlinePlayers_def by (rule fold_pres) (simp_all add: autosave_one_def)

lemma advance_op [simp]: "I gl \<Longrightarrow> I (advancePlayerMovement now gl)"
  unfolding advancePlayerMovement_def
  by (rule fold_pres) (simp_all add: advance_one_def Let_def player split_beta split: option.split)

lemma teleport_op [simp]: "I gl \<Longrightarrow> I (handleTeleport now i dest h gl)"
  by (simp add: handleTeleport_def Let_def player split: option.split)

lemma revive_op [simp]: "I gl \<Longrightarrow> I (handleRevive now i dest h gl)"
  by (simp add: handleRevive_def Let_def char_op split: option.split)

lemma escape_op [simp]: "I gl \<Longrightarrow> I (applyEscape env now i t gl)"
  by (simp add: applyEscape_def split: option.split)

lemma approach_op [simp]: "I gl \<Longrightarrow> I (startCastApproach now caster cmd target skill gl)"
  by (simp add: startCastApproach_def Let_def ipend cpend split: option.split)

lemma interact_op [simp]: "I gl \<Longrightarrow> I (handleInteractRequest now i t account gl)"
  by (simp add: handleInteractRequest_def Let_def ipend split: option.split)

lemma clear_op [simp]: "I gl \<Longrightarrow> I (clear_interact i t gl)" "I gl \<Longrightarrow> I (clear_cast i k gl)"
  by (simp_all add: clear_interact_def clear_cast_def ipend cpend split: option.split)

lemma interact_event [simp]: "I gl \<Longrightarrow> I (exec_InteractApproach now i t account gl)"
  by (simp add: exec_InteractApproach_def Let_def split: option.split)

lemma abort_op [simp]: "I gl \<Longrightarrow> I (abortCast i gl)"
  by (simp add: abortCast_def player split: option.split)

lemma walk_op [simp]: "I gl \<Longrightarrow> I (handleMoveToLocation now i gl)"
proof -
  assume "I gl"
  then have "I (stop_if_attacking now i gl)"
    by simp
  from cpend [OF ipend [OF this]] show ?thesis
    by (simp add: handleMoveToLocation_def Let_def)
qed

lemma disconnect_op [simp]: "I gl \<Longrightarrow> I (handlePlayerDisconnected now i gl)"
  by (simp add: handlePlayerDisconnected_def Let_def split_beta ipend cpend reuse buffs)

lemma moved_op [simp]: "I gl \<Longrightarrow> I (handlePlayerEnteredWorld i pos gl)" "I gl \<Longrightarrow> I (handlePlayerMoved i pos gl)"
  by (simp_all add: handlePlayerEnteredWorld_def handlePlayerMoved_def Let_def split: option.split)

lemma arm_op [simp]: "I gl \<Longrightarrow> I (armSkillReuse now i s l r gl)"
  by (simp add: armSkillReuse_def reuse)

lemma chat_op [simp]: "I gl \<Longrightarrow> I (handleChatMessage i a t n x tg gl)"
  by (simp add: handleChatMessage_def Let_def split: option.split)

lemma recharge_op [simp]: "I gl \<Longrightarrow> I (maybeRechargeAutoShots i gl)"
  by (simp add: maybeRechargeAutoShots_def Let_def split: option.split)

lemma gate_op [simp]: "I gl \<Longrightarrow> I (snd (cast_gate now caster target skill ctrl gl))"
  by (simp add: cast_gate_def Let_def split_beta split: option.split)

lemma let_roll:
  assumes "I gl" and "\<And>miss crit d g. I g \<Longrightarrow> 0 \<le> d \<Longrightarrow> I (f miss crit d g)"
  shows "I (let (miss, crit, d, g) = roll_attack env a e pa pd cr gl in f miss crit d g)"
proof -
  obtain miss crit d n where "roll_attack env a e pa pd cr gl = (miss, crit, d, gl\<lparr>glDraws := n\<rparr>)" and "0 \<le> d"
    using roll_shape by blast
  then show ?thesis
    using assms(2) [OF draws [OF assms(1)]] by simp
qed

lemma swing_op [simp]: "I gl \<Longrightarrow> I (player_swing env now i p t gl)"
  unfolding player_swing_def
  by ((rule let_roll, assumption) | (rule let_state, simp add: shots) | rule let_any)+
    (simp add: swing_cs split: option.split)

lemma npc_swing_op [simp]: "I gl \<Longrightarrow> I (npc_swing env now n i npc p gl)"
  unfolding npc_swing_def
  by ((rule let_roll, assumption) | (rule let_state, simp) | rule let_any)+
    (simp add: npcfight split: option.split)

lemma next_attack_op [simp]: "I gl \<Longrightarrow> I (exec_NextAttack env now i t gl)"
  by (simp add: exec_NextAttack_def Let_def split: option.split)

lemma npc_attack_op [simp]: "I gl \<Longrightarrow> I (exec_NPCNextAttack env now n i gl)"
  by (simp add: exec_NPCNextAttack_def split: option.split)

end

section \<open>Deaths, fights, casts\<close>

lemma map_of_map_key: "map_of (map (\<lambda>(i, p). (i, g i p)) xs) k = map_option (g k) (map_of xs k)"
  by (induction xs) auto

lemma GetPlayer_with_buffs:
  "GetPlayer i (snd (with_buffs f gl)) =
     map_option (\<lambda>p. case map_of (blPlayers (f (loop_view gl))) i of None \<Rightarrow> p | Some b \<Rightarrow> put_buffs b p) (GetPlayer i gl)"
  by (simp add: with_buffs_def Let_def GetPlayer_def map_of_map_key)

lemma buffs_same:
  "GetPlayer i (CombatModel.buffs f gl) = GetPlayer i (snd (with_buffs f gl))"
  "GetNPC j (CombatModel.buffs f gl) = GetNPC j gl"
  "combatState (CombatModel.buffs f gl) = combatState gl"
proof -
  have "GetPlayer i (fold send_buff l gl') = GetPlayer i gl' \<and> GetNPC j (fold send_buff l gl') = GetNPC j gl'
      \<and> combatState (fold send_buff l gl') = combatState gl'"
    for l and gl' :: game_loop
    by (induction l arbitrary: gl')
      (auto simp: send_buff_def send_def broadcastToNearby_def GetPlayer_def GetNPC_def split: buff_action.split option.split)
  then show "GetPlayer i (CombatModel.buffs f gl) = GetPlayer i (snd (with_buffs f gl))"
    "GetNPC j (CombatModel.buffs f gl) = GetNPC j gl" "combatState (CombatModel.buffs f gl) = combatState gl"
    by (simp_all add: CombatModel.buffs_def Let_def split_beta) (simp_all add: with_buffs_def Let_def GetNPC_def)
qed

lemma char_buffs: "map_option lpCharacter (GetPlayer i (CombatModel.buffs f gl)) = map_option lpCharacter (GetPlayer i gl)"
  by (simp add: buffs_same GetPlayer_with_buffs option.map_comp)
    (cases "GetPlayer i gl"; simp add: put_buffs_def split: option.split)

lemma char_gate:
  assumes "GetPlayer i gl = Some p"
  shows "\<exists>q. GetPlayer i (snd (cast_gate now caster target skill ctrl gl)) = Some q \<and> lpCharacter q = lpCharacter p"
proof -
  have "\<exists>q. GetPlayer i (CombatModel.buffs f gl) = Some q \<and> lpCharacter q = lpCharacter p" for f
    using char_buffs [of i f gl] assms by (cases "GetPlayer i (CombatModel.buffs f gl)") auto
  then show ?thesis
    using assms by (simp add: cast_gate_def Let_def split_beta send_def GetPlayer_def split: option.split)
qed

text \<open>The sweep over the effects does no negative damage.\<close>

definition dots_ok :: "buff_action list \<Rightarrow> bool" where
  "dots_ok l \<longleftrightarrow> (\<forall>i d. DoT i d \<in> set l \<longrightarrow> 0 \<le> d)"

lemma dots_tick: "dots_ok (fst (tick_buffs now i l))"
proof (induction l)
  case (Cons b l)
  have "dots_ok (fireBuffTicks i b)"
    by (auto simp: dots_ok_def fireBuffTicks_def Let_def split: if_splits)
  with Cons show ?case
    by (auto simp: dots_ok_def Let_def split_beta)
qed (simp add: dots_ok_def)

lemma dots_tickD: "DoT j d \<in> set (fst (tick_buffs now i l)) \<Longrightarrow> 0 \<le> d"
  using dots_tick unfolding dots_ok_def by blast

lemma dots_service: "dots_ok (blSent st) \<Longrightarrow> dots_ok (blSent (serviceBuffs now st))"
proof -
  have flag: "dots_ok (blSent st) \<Longrightarrow> dots_ok (blSent (expire_flag now i st))" for i and st :: "'f buff_loop"
    by (auto simp: expire_flag_def dots_ok_def emit_def put_player_def broadcastRelation_def Let_def split: option.split)
  have serve: "dots_ok (blSent st) \<Longrightarrow> dots_ok (blSent (service_player now i st))" for i and st :: "'f buff_loop"
    by (auto simp: service_player_def dots_ok_def emit_def put_player_def sendAbnormalStatus_def Let_def split_beta
        dest: dots_tickD split: option.split)
  assume "dots_ok (blSent st)"
  then have "dots_ok (blSent (expirePvPFlags now st))"
    unfolding expirePvPFlags_def by (rule fold_pres [of "\<lambda>s. dots_ok (blSent s)"]) (rule flag)
  then show ?thesis
    unfolding serviceBuffs_def Let_def by (rule fold_pres [of "\<lambda>s. dots_ok (blSent s)"]) (rule serve)
qed

locale loop_inv = loop_frame +
  fixes env :: loop_env and fighter :: "int \<Rightarrow> bool"
  assumes costs: "I gl \<Longrightarrow> GetSkill env k l = Some sk \<Longrightarrow> 0 \<le> skMpConsume2 sk"
    and rng0: "I gl \<Longrightarrow> 0 \<le> rng env draw"
    and soon: "now \<le> t \<Longrightarrow> plain e \<Longrightarrow> rank e < 2 \<Longrightarrow> ok t e"
    and npc_hp: "I gl \<Longrightarrow> GetNPC n gl = Some npc \<Longrightarrow> 0 \<le> d \<Longrightarrow>
      I (upd_npc n (\<lambda>m. m\<lparr>niCurrentHP := lower_hp (niCurrentHP npc) d\<rparr>) gl)"
    and npc_death: "I gl \<Longrightarrow> I (handleNPCDeath env now n gl)"
    and player_death: "I gl \<Longrightarrow> I (handlePlayerDeath now i gl)"
    and fight: "I gl \<Longrightarrow> fighter i \<Longrightarrow> I (gl\<lparr>combatState := AList.update i cs (combatState gl)\<rparr>)"
    and timeout: "I gl \<Longrightarrow> I (exec_StanceTimeout now i gl)"
begin

lemma start_npc_op [simp]: "I gl \<Longrightarrow> I (startNPCAttack env now n t gl)"
proof -
  assume gl: "I gl"
  then have "0 \<le> \<lfloor>rng env k * 500\<rfloor> * millis" for k
    using rng0 [OF gl, of k] by (simp add: millis_def)
  with gl show ?thesis
    by (simp add: startNPCAttack_def rand_Intn_def Let_def npcfight draws soon split: option.split)
qed

lemma damage_npc [simp]: "I gl \<Longrightarrow> 0 \<le> d \<Longrightarrow> I (dealDamageToNPC env now n a d gl)"
  by (simp add: dealDamageToNPC_def Let_def npc_hp hate npc_death split: option.split)

lemma damage_player [simp]: "I gl \<Longrightarrow> 0 \<le> d \<Longrightarrow> I (dealDamageToPlayer now t a d gl)"
  by (simp add: dealDamageToPlayer_def Let_def player_death split: option.split)

lemma magic_pos: "0 \<le> calcMagicDamage a m k" "0 \<le> calcPhysSkillDamage pa pd k"
  by (auto simp: calcMagicDamage_def calcPhysSkillDamage_def Let_def)

lemma skill_op [simp]: "I gl \<Longrightarrow> I (applySkillEffects env now i t sk gl)"
  by (simp add: applySkillEffects_def pvp_damage_def pve_damage_def dealSkillDamageToNPC_def Let_def magic_pos
      split: sum.split option.split)

lemma hit_op [simp]: "I gl \<Longrightarrow> 0 \<le> d \<Longrightarrow> I (exec_Hit env now i t d gl)"
  by (simp add: exec_Hit_def split: option.split)

lemma npc_hit_op [simp]: "I gl \<Longrightarrow> 0 \<le> d \<Longrightarrow> I (exec_NPCHit now n i d gl)"
  by (simp add: exec_NPCHit_def Let_def player_death split: option.split)

lemma pay_op:
  assumes "I gl" and "map_option lpCharacter (GetPlayer i gl) = Some c" and "k \<le> trunc (CurrentMP c)" and "0 \<le> k"
  shows "I (upd_char i (\<lambda>c. c\<lparr>CurrentMP := CurrentMP c - of_int k\<rparr>) gl)"
proof -
  obtain p where p: "GetPlayer i gl = Some p" "lpCharacter p = c"
    using assms(2) by auto
  have "char_ok (c\<lparr>CurrentMP := CurrentMP c - of_int k\<rparr>)" if "char_ok c"
  proof -
    have "of_int k \<le> CurrentMP c"
      using trunc_le [of "CurrentMP c"] assms(3) that by (auto simp: char_ok_def)
    then show ?thesis
      using that assms(4) by (auto simp: char_ok_def)
  qed
  then show ?thesis
    using char_at [OF assms(1) p(1)] p(2) by simp
qed

lemma cast_hit_op [simp]:
  assumes gl: "I gl"
  shows "I (exec_CastHit env now i castID gl)"
proof (cases "GetPlayer i gl")
  case (Some caster)
  let ?g = "upd_player i (\<lambda>p. p\<lparr>lpCasting := None\<rparr>) gl"
  have "I (upd_char i (\<lambda>c. c\<lparr>CurrentMP := CurrentMP c - of_int c2\<rparr>) ?g)"
    if "c2 > 0" "\<not> trunc (CurrentMP (lpCharacter caster)) < c2" for c2
    using that by (intro pay_op [where c = "lpCharacter caster"]) (auto simp: Some gl player)
  then show ?thesis
    using gl Some by (simp add: exec_CastHit_def Let_def player split: option.split)
qed (simp add: exec_CastHit_def gl)

end

lemma castTime_nonneg [simp]: "0 \<le> castTime caster sk"
  by (auto simp: castTime_def Let_def millis_def intro!: trunc_nonneg)

locale loop_all = loop_inv +
  assumes at_once: "now \<le> t \<Longrightarrow> plain e \<Longrightarrow> rank e < 3 \<Longrightarrow> ok t e"
begin

lemma begin_op [simp]: "I gl \<Longrightarrow> I (beginCast env now i t sk k l gl)"
proof -
  assume gl: "I gl"
  show ?thesis
  proof (cases "GetPlayer i gl")
    case (Some caster)
    show ?thesis
      using gl cseq [OF gl]
      by (simp add: beginCast_def Some Let_def player at_once)
  qed (simp add: beginCast_def gl)
qed

lemma cast_op [simp]:
  assumes gl: "I gl"
  shows "I (handleCastRequest env now cmd gl)"
proof (cases "GetPlayer (CasterCharID cmd) gl")
  case (Some caster)
  let ?i = "CasterCharID cmd" and ?k = "castSkillID cmd"
  let ?l = "case map_of (lpKnownSkills caster) ?k of None \<Rightarrow> 0 | Some l \<Rightarrow> l"
  show ?thesis
  proof (cases "GetSkill env ?k ?l")
    case (Some sk)
    let ?t = "resolveCastTarget caster sk"
    let ?g = "gl\<lparr>castPending := AList.delete ?i (castPending gl)\<rparr>"
    let ?h = "snd (cast_gate now caster ?t sk (CtrlPressed cmd) ?g)"
    have h: "I ?h"
      by (simp add: gl cpend)
    have "GetPlayer ?i ?g = Some caster"
      using \<open>GetPlayer ?i gl = Some caster\<close> by (simp add: GetPlayer_def)
    then obtain q where "GetPlayer ?i ?h = Some q" "lpCharacter q = lpCharacter caster"
      using char_gate by blast
    then have "I (upd_char ?i (\<lambda>c. c\<lparr>CurrentMP := CurrentMP c - of_int (skMpConsume1 sk)\<rparr>) ?h)"
      if "skMpConsume1 sk > 0" "\<not> trunc (CurrentMP (lpCharacter caster)) < skMpConsume1 sk + skMpConsume2 sk"
      using that costs [OF gl Some] by (intro pay_op [OF h, where c = "lpCharacter caster"]) auto
    then show ?thesis
      using gl h Some \<open>GetPlayer ?i gl = Some caster\<close>
      by (simp add: handleCastRequest_def Let_def split_beta)
  qed (simp add: handleCastRequest_def Let_def Some gl)
qed (simp add: handleCastRequest_def Let_def gl)

lemma cast_approach_op [simp]: "I gl \<Longrightarrow> I (exec_CastApproach env now i t cmd gl)"
  by (simp add: exec_CastApproach_def Let_def player split: option.split)

lemma item_skill_op [simp]: "I gl \<Longrightarrow> I (handleItemSkillCast env now i k l gl)"
  by (simp add: handleItemSkillCast_def Let_def split: option.split)

lemma begin_swing_op [simp]: "I gl \<Longrightarrow> I (beginAttackSwing now i t gl)"
  by (simp add: beginAttackSwing_def at_once split: option.split)

lemma attack_begin_op [simp]: "I gl \<Longrightarrow> fighter i \<Longrightarrow> I (attack_begin now i t account attacker tgt gl)"
  by (simp add: attack_begin_def Let_def fight split: option.split)

lemma attack_op [simp]: "I gl \<Longrightarrow> fighter i \<Longrightarrow> I (handleAttackRequest now i t account force gl)"
  by (simp add: handleAttackRequest_def Let_def split_beta split: option.split)

lemma command_keeps:
  assumes "I gl" and "\<And>i t account force. cmd = CmdAttackRequest i t account force \<Longrightarrow> fighter i"
  shows "I (processCommand env now cmd gl)"
  using assms by (cases cmd) simp_all

lemma event_keeps: "I gl \<Longrightarrow> plain e \<Longrightarrow> I (exec_event env now e gl)"
  by (cases e) (simp_all add: timeout)

lemma perform_op: "I gl \<Longrightarrow> dots_ok l \<Longrightarrow> I (fold perform l gl)"
proof (induction l arbitrary: gl)
  case (Cons a l)
  then have "I (perform a gl)"
    by (auto simp: perform_def dots_ok_def split: buff_action.split)
  with Cons show ?case
    by (auto simp: dots_ok_def)
qed simp

lemma sweep_keeps: "I gl \<Longrightarrow> I (loop_serviceBuffs now gl)"
  using dots_service [of "loop_view gl" now] buffs [of gl "serviceBuffs now"]
  by (auto simp: loop_serviceBuffs_def Let_def split_beta with_buffs_def loop_view_def dots_ok_def intro!: perform_op)

end

end
