(* ===== verification/LoopSteps.thy ===== *)
theory LoopSteps
  imports LoopInvariants
begin

text \<open>
  The game loop as a step relation and the invariants of its state: vitals stay in range, no spawn point is
  lost. One step is one command, one event that is due, one sweep, or what another goroutine does to
  the players; a tick is a sequence of such steps.
\<close>

section \<open>Start and steps\<close>

definition NewGameLoop :: game_loop where
  "NewGameLoop = \<lparr>glPlayers = [], glNpcs = [], combatState = [], aiState = [], npcCombatState = [], npcHateLists = [],
     npcSpawnInfo = [], interactPending = [], castPending = [], skillReuse = [], castSeq = 0, glBuffed = [], glFlagged = [],
     glShots = [], glAutos = [], glNextID = 1000000, glDraws = 0, glNew = [], glOut = []\<rparr>"

definition spawn_of :: "NpcInstance \<Rightarrow> SpawnInfo" where
  "spawn_of n = \<lparr>spTemplateID = niTemplateID n, spPosition = niPosition n, spHeading = niHeading n\<rparr>"

definition RegisterWorldSpawns :: "game_loop \<Rightarrow> game_loop" where
  "RegisterWorldSpawns gl =
     gl\<lparr>npcSpawnInfo := fold (\<lambda>(i, n) m. AList.update (niObjectID n) (spawn_of n) m) (glNpcs gl) (npcSpawnInfo gl)\<rparr>"

text \<open>
  A world as the server loads it: NPCs with full hit points under fresh numbers. \<open>env_ok\<close>: random numbers
  in [0, 1), no negative costs, NPCs with hit points, rewards that are not negative.
\<close>

definition env_ok :: "loop_env \<Rightarrow> bool" where
  "env_ok env \<longleftrightarrow> (\<forall>k. 0 \<le> rng env k \<and> rng env k < 1)
     \<and> (\<forall>k l sk. GetSkill env k l = Some sk \<longrightarrow> 0 \<le> skMpConsume2 sk)
     \<and> (\<forall>t tpl. npcTemplates env t = Some tpl \<longrightarrow> 0 < ntHP tpl)"

definition loaded :: "loop_env \<Rightarrow> game_loop \<Rightarrow> bool" where
  "loaded env gl \<longleftrightarrow> (\<exists>npcs. gl = RegisterWorldSpawns (NewGameLoop\<lparr>glNpcs := npcs, glNextID := 1000000 + int (length npcs)\<rparr>)
     \<and> map fst npcs = map (\<lambda>k. 1000001 + int k) [0..<length npcs]
     \<and> (\<forall>(i, n) \<in> set npcs. niObjectID n = i \<and> \<not> niIsDead n \<and> npcTemplates env (niTemplateID n) = Some (niTemplate n)
          \<and> niCurrentHP n = ntHP (niTemplate n)))"

definition fresh_loop_player :: "Character \<Rightarrow> loop_player" where
  "fresh_loop_player c = \<lparr>lpCharID = ID c, lpAccountName = AccountName c, lpCharacter = c, lpPosition = Position c,
     lpHeading = 0, lpInCombat = False, lpPvPFlagUntil = None, lpIsTeleporting = False, lpIsMoving = False,
     lpMoveStarted = 0, lpMoveStartPos = origin, lpMoveDestination = origin, lpIsRunning = True, lpTargetID = 0,
     lpKnownSkills = [], lpCasting = None, lpPassiveMods = [], lpEquipMods = [], lpEffects = [], lpStatMods = []\<rparr>"

text \<open>
  What the goroutines of the connections do to a player state: it joins, leaves, chooses a target, is given
  its skills and modifiers, walks, and (un)equips; a charge is put on a weapon.
\<close>

inductive loop_step :: "loop_env \<Rightarrow> loop_state \<Rightarrow> loop_state \<Rightarrow> bool" for env where
  command: "loop_step env (q, gl) (flush q (processCommand env now cmd gl))"
| event: "Peek q = Some e \<Longrightarrow> ExecuteAt e \<le> now \<Longrightarrow>
    loop_step env (q, gl) (flush (snd (PopEvent q)) (exec_event env now (Payload e) gl))"
| move: "loop_step env (q, gl) (q, advancePlayerMovement now gl)"
| regen: "loop_step env (q, gl) (q, regenPlayers gl)"
| sweep: "loop_step env (q, gl) (q, loop_serviceBuffs now gl)"
| autosave: "loop_step env (q, gl) (q, autosaveOnlinePlayers gl)"
| join: "char_ok c \<Longrightarrow> loop_step env (q, gl) (q, gl\<lparr>glPlayers := AList.update (ID c) (fresh_loop_player c) (glPlayers gl)\<rparr>)"
| leave: "loop_step env (q, gl) (q, gl\<lparr>glPlayers := AList.delete i (glPlayers gl)\<rparr>)"
| target: "loop_step env (q, gl) (q, SetPlayerTarget i t gl)"
| outfit: "loop_step env (q, gl) (q, upd_player i (\<lambda>p. p\<lparr>lpPosition := pos, lpHeading := h, lpKnownSkills := ks, lpPassiveMods := pm, lpEquipMods := em,
    lpStatMods := sm, lpIsMoving := m, lpMoveStartPos := a, lpMoveDestination := b, lpMoveStarted := t, lpIsRunning := r,
    lpCharacter := (lpCharacter p)\<lparr>Position := pos, PaperdollItems := worn, PaperdollObjectIDs := wornIDs\<rparr>\<rparr>) gl)"
| charge: "loop_step env (q, gl) (q, gl\<lparr>glShots := sh, glAutos := au\<rparr>)"

text \<open>A tick is a sequence of steps.\<close>

lemma run_due_steps:
  "run_due fuel now (exec_due env now) q gl = Some (q', gl', es) \<Longrightarrow> (loop_step env)\<^sup>*\<^sup>* (q, gl) (q', gl')"
proof (induction fuel arbitrary: q gl es)
  case (Suc fuel)
  show ?case
  proof (cases "\<exists>e. Peek q = Some e \<and> ExecuteAt e \<le> now")
    case True
    then obtain e where e: "Peek q = Some e" "ExecuteAt e \<le> now"
      by blast
    let ?g = "exec_event env now (Payload e) gl"
    have run: "exec_due env now e gl = (?g\<lparr>glNew := []\<rparr>, glNew ?g)"
      by (simp add: exec_due_def Let_def)
    obtain es' where "run_due fuel now (exec_due env now) (fold Schedule (glNew ?g) (snd (PopEvent q))) (?g\<lparr>glNew := []\<rparr>)
        = Some (q', gl', es')"
      using Suc.prems e by (auto simp: run Let_def split_beta split: option.splits)
    then have "(loop_step env)\<^sup>*\<^sup>* (flush (snd (PopEvent q)) ?g) (q', gl')"
      unfolding flush_def by (rule Suc.IH)
    then show ?thesis
      using event [OF e, of env gl] by (blast intro: converse_rtranclp_into_rtranclp)
  next
    case False
    then show ?thesis
      using Suc.prems by (auto split: option.splits)
  qed
qed simp

lemma tick_steps: "tick env fuel now cmds s = Some s' \<Longrightarrow> (loop_step env)\<^sup>*\<^sup>* s s'"
proof -
  have cmds: "(loop_step env)\<^sup>*\<^sup>* s (fold (\<lambda>c (q, gl). flush q (processCommand env now c gl)) cmds s)" for s
  proof (induction cmds arbitrary: s)
    case (Cons c cmds)
    show ?case
      using Cons [of "flush (fst s) (processCommand env now c (snd s))"] command [of env "fst s" "snd s" now c]
      by (cases s) (auto intro: converse_rtranclp_into_rtranclp)
  qed simp
  assume "tick env fuel now cmds s = Some s'"
  moreover obtain q gl where f: "fold (\<lambda>c (q, gl). flush q (processCommand env now c gl)) cmds s = (q, gl)"
    by fastforce
  ultimately obtain es where "run_due fuel now (exec_due env now) q (advancePlayerMovement now gl) = Some (fst s', snd s', es)"
    by (auto simp: tick_def Let_def split: option.splits)
  then have "(loop_step env)\<^sup>*\<^sup>* (q, advancePlayerMovement now gl) s'"
    using run_due_steps by fastforce
  then have "(loop_step env)\<^sup>*\<^sup>* (q, gl) s'"
    using move [of env q gl now] by (blast intro: converse_rtranclp_into_rtranclp)
  then show ?thesis
    using cmds [of s] f by simp
qed


section \<open>Vitals\<close>

definition npc_ok :: "NpcInstance \<Rightarrow> bool" where
  "npc_ok n \<longleftrightarrow> 0 \<le> niCurrentHP n \<and> niCurrentHP n \<le> ntHP (niTemplate n) \<and> (niIsDead n \<longrightarrow> niCurrentHP n = 0)"

fun harmless :: "loop_event \<Rightarrow> bool" where
  "harmless (HitEvent i t d) = (0 \<le> d)"
| "harmless (NPCHitEvent n i d) = (0 \<le> d)"
| "harmless e = True"

lemma plain_harmless: "plain e \<Longrightarrow> harmless e"
  by (cases e) simp_all

definition vit_ok :: "game_loop \<Rightarrow> bool" where
  "vit_ok gl \<longleftrightarrow> (\<forall>i p. GetPlayer i gl = Some p \<longrightarrow> char_ok (lpCharacter p))
     \<and> (\<forall>i n. GetNPC i gl = Some n \<longrightarrow> npc_ok n) \<and> (\<forall>x \<in> set (glNew gl). harmless (Payload x))"

lemma Get_simps [simp]:
  "GetPlayer i (gl\<lparr>glOut := a\<rparr>) = GetPlayer i gl" "GetPlayer i (gl\<lparr>glDraws := b\<rparr>) = GetPlayer i gl"
  "GetPlayer i (gl\<lparr>aiState := c\<rparr>) = GetPlayer i gl" "GetPlayer i (gl\<lparr>interactPending := d\<rparr>) = GetPlayer i gl"
  "GetPlayer i (gl\<lparr>castPending := e\<rparr>) = GetPlayer i gl" "GetPlayer i (gl\<lparr>skillReuse := f\<rparr>) = GetPlayer i gl"
  "GetPlayer i (gl\<lparr>castSeq := g\<rparr>) = GetPlayer i gl" "GetPlayer i (gl\<lparr>glShots := h\<rparr>) = GetPlayer i gl"
  "GetPlayer i (gl\<lparr>npcCombatState := k\<rparr>) = GetPlayer i gl" "GetPlayer i (gl\<lparr>npcHateLists := l\<rparr>) = GetPlayer i gl"
  "GetPlayer i (gl\<lparr>glNew := m\<rparr>) = GetPlayer i gl" "GetPlayer i (gl\<lparr>combatState := n\<rparr>) = GetPlayer i gl"
  "GetPlayer i (gl\<lparr>glNpcs := o'\<rparr>) = GetPlayer i gl" "GetPlayer i (gl\<lparr>npcSpawnInfo := r\<rparr>) = GetPlayer i gl"
  "GetPlayer i (gl\<lparr>glNextID := s\<rparr>) = GetPlayer i gl" "GetPlayer i (upd_npc j w gl) = GetPlayer i gl"
  "GetNPC i (gl\<lparr>glOut := a\<rparr>) = GetNPC i gl" "GetNPC i (gl\<lparr>glDraws := b\<rparr>) = GetNPC i gl"
  "GetNPC i (gl\<lparr>aiState := c\<rparr>) = GetNPC i gl" "GetNPC i (gl\<lparr>interactPending := d\<rparr>) = GetNPC i gl"
  "GetNPC i (gl\<lparr>castPending := e\<rparr>) = GetNPC i gl" "GetNPC i (gl\<lparr>skillReuse := f\<rparr>) = GetNPC i gl"
  "GetNPC i (gl\<lparr>castSeq := g\<rparr>) = GetNPC i gl" "GetNPC i (gl\<lparr>glShots := h\<rparr>) = GetNPC i gl"
  "GetNPC i (gl\<lparr>npcCombatState := k\<rparr>) = GetNPC i gl" "GetNPC i (gl\<lparr>npcHateLists := l\<rparr>) = GetNPC i gl"
  "GetNPC i (gl\<lparr>glNew := m\<rparr>) = GetNPC i gl" "GetNPC i (gl\<lparr>combatState := n\<rparr>) = GetNPC i gl"
  "GetNPC i (gl\<lparr>glPlayers := p\<rparr>) = GetNPC i gl" "GetNPC i (gl\<lparr>npcSpawnInfo := r\<rparr>) = GetNPC i gl"
  "GetNPC i (gl\<lparr>glNextID := s\<rparr>) = GetNPC i gl" "GetNPC i (upd_player j v gl) = GetNPC i gl"
  by (simp_all add: GetPlayer_def GetNPC_def)

lemma with_buffs_same [simp]:
  "GetNPC i (snd (with_buffs f gl)) = GetNPC i gl" "combatState (snd (with_buffs f gl)) = combatState gl"
  "glNew (snd (with_buffs f gl)) = glNew gl" "glOut (snd (with_buffs f gl)) = glOut gl"
  "npcSpawnInfo (snd (with_buffs f gl)) = npcSpawnInfo gl" "glNextID (snd (with_buffs f gl)) = glNextID gl"
  by (simp_all add: with_buffs_def Let_def GetNPC_def)

lemma put_buffs_same [simp]:
  "lpCharacter (put_buffs b p) = lpCharacter p" "lpCharID (put_buffs b p) = lpCharID p"
  "lpInCombat (put_buffs b p) = lpInCombat p"
  by (simp_all add: put_buffs_def split: option.split)

lemma player_with_buffs:
  assumes "GetPlayer i (snd (with_buffs f gl)) = Some p"
  shows "\<exists>q. GetPlayer i gl = Some q \<and> lpCharacter p = lpCharacter q \<and> lpCharID p = lpCharID q \<and> lpInCombat p = lpInCombat q"
  using assms by (cases "map_of (blPlayers (f (loop_view gl))) i") (auto simp: GetPlayer_with_buffs)

definition vital :: "loop_env \<Rightarrow> game_loop \<Rightarrow> bool" where
  "vital env gl \<longleftrightarrow> env_ok env \<and> vit_ok gl"

lemma vital_buffs: "vital env gl \<Longrightarrow> vital env (snd (with_buffs g gl))"
  by (auto simp: vital_def vit_ok_def dest!: player_with_buffs)

lemma vital_player:
  assumes "vital env gl" and "\<And>p. char_ok (lpCharacter p) \<Longrightarrow> char_ok (lpCharacter (f p))"
  shows "vital env (upd_player i f gl)"
  using assms by (auto simp: vital_def vit_ok_def split: if_splits)

lemma vital_npc:
  assumes "vital env gl" and "\<And>n. GetNPC i gl = Some n \<Longrightarrow> npc_ok n \<Longrightarrow> npc_ok (f n)"
  shows "vital env (upd_npc i f gl)"
  using assms by (auto simp: vital_def vit_ok_def split: if_splits)

lemma vital_stance: "vital env gl \<Longrightarrow> vital env (SetPlayerCombatState i b gl)"
  unfolding SetPlayerCombatState_def by (rule vital_player) simp_all

lemma vital_fields [simp]:
  "vital env (gl\<lparr>glOut := a\<rparr>) = vital env gl" "vital env (gl\<lparr>glDraws := b\<rparr>) = vital env gl"
  "vital env (gl\<lparr>aiState := c\<rparr>) = vital env gl" "vital env (gl\<lparr>interactPending := d\<rparr>) = vital env gl"
  "vital env (gl\<lparr>castPending := e\<rparr>) = vital env gl" "vital env (gl\<lparr>skillReuse := f\<rparr>) = vital env gl"
  "vital env (gl\<lparr>castSeq := g\<rparr>) = vital env gl" "vital env (gl\<lparr>glShots := h\<rparr>) = vital env gl"
  "vital env (gl\<lparr>npcCombatState := k\<rparr>) = vital env gl" "vital env (gl\<lparr>npcHateLists := l\<rparr>) = vital env gl"
  "vital env (gl\<lparr>combatState := n\<rparr>) = vital env gl" "vital env (gl\<lparr>npcSpawnInfo := r\<rparr>) = vital env gl"
  "vital env (gl\<lparr>glNextID := s\<rparr>) = vital env gl"
  by (simp_all add: vital_def vit_ok_def)

lemma vital_new: "vital env gl \<Longrightarrow> harmless e \<Longrightarrow> vital env (gl\<lparr>glNew := glNew gl @ [\<lparr>ExecuteAt = t, Payload = e\<rparr>]\<rparr>)"
  by (auto simp: vital_def vit_ok_def)

interpretation vitf: loop_frame "vital env" now "\<lambda>t e. harmless e" for env now
  by unfold_locales
    (simp_all add: vital_new vital_player keeps_def vital_stance vital_buffs plain_harmless)

lemma vital_death: "vital env gl \<Longrightarrow> vital env (handleNPCDeath env now n gl)"
proof (cases "GetNPC n gl")
  case (Some npc)
  assume "vital env gl"
  then have "vital env (upd_npc n (\<lambda>n. n\<lparr>niIsDead := True, niCurrentHP := 0\<rparr>) gl)"
    by (rule vital_npc) (auto simp: npc_ok_def)
  then show ?thesis
    by (simp add: handleNPCDeath_def Let_def Some)
qed (simp add: handleNPCDeath_def)

interpretation vit: loop_all "vital env" now "\<lambda>t e. harmless e" env "\<lambda>_. True" for env now
proof unfold_locales
  fix gl i n npc d k l sk draw
  assume v: "vital env gl"
  show "vital env (handleNPCDeath env now n gl)"
    by (rule vital_death [OF v])
  show "vital env (handlePlayerDeath now i gl)"
    using v by (simp add: handlePlayerDeath_def Let_def vital_stance vitf.char_op split: option.split)
  show "vital env (exec_StanceTimeout now i gl)"
    using v by (simp add: exec_StanceTimeout_def Let_def vital_stance split: option.split)
  show "vital env (upd_npc n (\<lambda>m. m\<lparr>niCurrentHP := lower_hp (niCurrentHP npc) d\<rparr>) gl)"
    if "GetNPC n gl = Some npc" "0 \<le> d"
    using v by (rule vital_npc) (use that in \<open>auto simp: npc_ok_def lower_hp_def\<close>)
  show "0 \<le> skMpConsume2 sk" if "GetSkill env k l = Some sk"
    using that v by (auto simp: vital_def env_ok_def)
  show "0 \<le> rng env draw"
    using v by (auto simp: vital_def env_ok_def)
qed (simp_all add: plain_harmless)


lemma set_Schedule [simp]: "set (fold Schedule es q) = set es \<union> set q"
proof (induction es arbitrary: q)
  case (Cons e es)
  have "set (Schedule e q) = insert e (set q)"
    using mset_Schedule [of e q] by (metis set_mset_add_mset_insert set_mset_mset)
  with Cons show ?case
    by simp
qed simp

lemma set_Pop: "Peek q = Some e \<Longrightarrow> set (snd (PopEvent q)) \<subseteq> set q \<and> e \<in> set q"
  using heap_queue.pop_events [of q e] by (metis Peek_def in_diffD nth_mem_mset option.distinct(1) option.inject
      set_mset_mset subsetI length_greater_0_conv length_0_conv)

lemma vital_respawn: "vital env gl \<Longrightarrow> vital env (exec_Respawn env n gl)"
  by (auto simp: exec_Respawn_def NextNPCObjectID_def Let_def vital_def vit_ok_def npc_ok_def env_ok_def GetPlayer_def GetNPC_def
      less_imp_le split: option.split if_splits)

lemma vital_decay: "vital env gl \<Longrightarrow> vital env (exec_CorpseDecay n gl)"
  by (auto simp: exec_CorpseDecay_def Let_def vital_def vit_ok_def GetPlayer_def GetNPC_def broadcastToNearby_def send_def
      map_of_delete split: option.split if_splits)

lemma vital_event: "vital env gl \<Longrightarrow> harmless e \<Longrightarrow> vital env (exec_event env now e gl)"
proof (cases "plain e")
  assume "vital env gl"
  case True
  with \<open>vital env gl\<close> show ?thesis
    by (rule vit.event_keeps)
next
  assume "vital env gl" and "harmless e"
  case False
  with \<open>vital env gl\<close> \<open>harmless e\<close> show ?thesis
    by (cases e) (simp_all add: vital_respawn vital_decay)
qed

definition state_ok :: "loop_env \<Rightarrow> loop_state \<Rightarrow> bool" where
  "state_ok env s \<longleftrightarrow> vital env (snd s) \<and> (\<forall>x \<in> set (fst s). harmless (Payload x))"

lemma state_flush: "vital env gl \<Longrightarrow> (\<forall>x \<in> set q. harmless (Payload x)) \<Longrightarrow> state_ok env (flush q gl)"
  by (auto simp: state_ok_def flush_def vital_def vit_ok_def)

lemma state_step: "loop_step env s s' \<Longrightarrow> state_ok env s \<Longrightarrow> state_ok env s'"
proof (induction rule: loop_step.induct)
  case (command q gl now cmd)
  then show ?case
    by (intro state_flush vit.command_keeps) (simp_all add: state_ok_def)
next
  case (event q e now gl)
  then show ?case
    using set_Pop [of q e] by (intro state_flush vital_event) (auto simp: state_ok_def)
next
  case (join c q gl)
  then show ?case
    by (auto simp: state_ok_def vital_def vit_ok_def GetPlayer_def fresh_loop_player_def GetNPC_def split: if_splits)
next
  case (leave q gl i)
  then show ?case
    by (auto simp: state_ok_def vital_def vit_ok_def GetPlayer_def GetNPC_def map_of_delete split: if_splits)
next
  case (outfit q gl)
  then show ?case
    by (auto simp: state_ok_def char_ok_def intro!: vital_player)
next
  case (charge q gl sh au)
  then show ?case
    by (auto simp: state_ok_def vital_def vit_ok_def GetPlayer_def GetNPC_def)
next
  case (sweep q gl now)
  then show ?case
    by (auto simp: state_ok_def intro: vit.sweep_keeps)
qed (auto simp: state_ok_def)

lemma state_steps: "(loop_step env)\<^sup>*\<^sup>* s s' \<Longrightarrow> state_ok env s \<Longrightarrow> state_ok env s'"
  by (induction rule: rtranclp_induct) (auto intro: state_step)

lemma loaded_facts:
  assumes "loaded env gl"
  shows "glPlayers gl = []" "glNew gl = []" "combatState gl = []"
    "\<And>i n. (i, n) \<in> set (glNpcs gl) \<Longrightarrow> niObjectID n = i \<and> \<not> niIsDead n \<and> niCurrentHP n = ntHP (niTemplate n)
       \<and> npcTemplates env (niTemplateID n) = Some (niTemplate n) \<and> 1000000 < i \<and> i \<le> glNextID gl"
    "distinct (map fst (glNpcs gl))"
    "npcSpawnInfo gl = fold (\<lambda>(i, n) m. AList.update (niObjectID n) (spawn_of n) m) (glNpcs gl) []"
proof -
  obtain npcs where g: "gl = RegisterWorldSpawns (NewGameLoop\<lparr>glNpcs := npcs, glNextID := 1000000 + int (length npcs)\<rparr>)"
    and ids: "map fst npcs = map (\<lambda>k. 1000001 + int k) [0..<length npcs]"
    and ns: "\<forall>(i, n) \<in> set npcs. niObjectID n = i \<and> \<not> niIsDead n \<and> npcTemplates env (niTemplateID n) = Some (niTemplate n)
      \<and> niCurrentHP n = ntHP (niTemplate n)"
    using assms unfolding loaded_def by blast
  have gl: "glNpcs gl = npcs" "glNextID gl = 1000000 + int (length npcs)"
    using g by (simp_all add: RegisterWorldSpawns_def)
  show "glPlayers gl = []" "glNew gl = []" "combatState gl = []"
    "npcSpawnInfo gl = fold (\<lambda>(i, n) m. AList.update (niObjectID n) (spawn_of n) m) (glNpcs gl) []"
    using g by (simp_all add: RegisterWorldSpawns_def NewGameLoop_def)
  show "distinct (map fst (glNpcs gl))"
    by (simp add: gl ids distinct_map inj_on_def)
  fix i n
  assume i: "(i, n) \<in> set (glNpcs gl)"
  then have "i \<in> set (map fst npcs)"
    by (force simp: gl)
  then have "1000000 < i \<and> i \<le> glNextID gl"
    by (auto simp: ids gl)
  then show "niObjectID n = i \<and> \<not> niIsDead n \<and> niCurrentHP n = ntHP (niTemplate n)
       \<and> npcTemplates env (niTemplateID n) = Some (niTemplate n) \<and> 1000000 < i \<and> i \<le> glNextID gl"
    using ns i by (auto simp: gl)
qed

lemma state_loaded:
  assumes "env_ok env" and "loaded env gl"
  shows "state_ok env ([], gl)"
proof -
  have "npc_ok n" if "GetNPC i gl = Some n" for i n
  proof -
    have "(i, n) \<in> set (glNpcs gl)"
      using that by (simp add: GetNPC_def map_of_SomeD)
    from loaded_facts(4) [OF assms(2) this] show ?thesis
      using assms(1) by (auto simp: npc_ok_def env_ok_def intro: less_imp_le)
  qed
  then show ?thesis
    using loaded_facts(1,2) [OF assms(2)] assms(1)
    by (simp add: state_ok_def vital_def vit_ok_def GetPlayer_def)
qed

section \<open>A sample world\<close>

definition sample_fighter :: "int \<Rightarrow> string \<Rightarrow> Character" where
  "sample_fighter i name =
     \<lparr>ID = i, AccountName = name, Name = name, Level = 1,
      MaxHP = 80, CurrentHP = 80, MaxMP = 30, CurrentMP = 30, MaxCP = 32, CurrentCP = 32,
      Face = 0, HairStyle = 0, HairColor = 0, Sex = 0, Experience = 0, SP = 0, Karma = 0, PKKills = 0, PvPKills = 0,
      ClanID = 0, Race = 0, ClassID = 0, BaseClass = 0, DeleteTime = 0, VitalityPoints = 0, AccessLevel = 0,
      Position = origin, Heading = 0, CreatedAt = 0, LastAccess = 0, OnlineTime = 0, OnlineStatus = True, CharSlot = 0,
      Newbie = True, Noble = False, Hero = False, HeroEndDate = None, DeathPenaltyLevel = 0, Title = '''',
      RecHave = 0, RecLeft = 0, Fame = 0, FishingPoints = 0,
      PaperdollItems = replicate 26 0, PaperdollObjectIDs = replicate 26 0,
      BaseSTR = 40, BaseDEX = 30, BaseCON = 43, BaseINT = 21, BaseWIT = 11, BaseMEN = 25\<rparr>"

definition sample_template :: NpcTemplate where
  "sample_template = \<lparr>ntID = 20120, ntName = ''Wolf'', ntLevel = 4, ntType = ''L2Monster'', ntHP = 50, ntMP = 10,
     ntPAtk = 8, ntPAtkSpd = 250, ntPDef = 40, ntMDef = 30, ntCritRate = 4, ntAttackRange = 40, ntRewardExp = 130,
     ntRewardSp = 5, ntCollisionRadius = 9\<rparr>"

definition sample_npc :: NpcInstance where
  "sample_npc = \<lparr>niObjectID = 1000001, niTemplateID = 20120, niTemplate = sample_template, niPosition = origin, niHeading = 0,
     niIsRunning = True, niIsDead = False, niCurrentHP = 50, niCurrentMP = 10\<rparr>"

definition sample_env :: loop_env where
  "sample_env = \<lparr>rng = \<lambda>_. 1 / 2, npcTemplates = \<lambda>t. if t = 20120 then Some sample_template else None,
     skillData = None, expRate = 1, spRate = 1, parseFloat = \<lambda>_. None, respawnPoint = \<lambda>_ _. None\<rparr>"

definition sample_world :: game_loop where
  "sample_world = RegisterWorldSpawns (NewGameLoop\<lparr>glNpcs := [(1000001, sample_npc)], glNextID := 1000001\<rparr>)"

lemma sample_char_ok: "char_ok (sample_fighter i name)"
  by (simp add: char_ok_def sample_fighter_def)

lemma sample_env_ok: "env_ok sample_env"
  by (simp add: env_ok_def sample_env_def GetSkill_def sample_template_def)

lemma sample_loaded: "loaded sample_env sample_world"
  unfolding loaded_def
  by (rule exI [of _ "[(1000001, sample_npc)]"]) (simp add: sample_world_def sample_npc_def sample_env_def sample_template_def)

section \<open>Properties\<close>


definition sample_fight :: loop_state where
  "sample_fight = flush [] (processCommand sample_env 0 (CmdAttackRequest 7 1000001 ''bob'' False)
     (sample_world\<lparr>glPlayers := [(7, fresh_loop_player (sample_fighter 7 ''bob''))]\<rparr>))"

lemma sample_fight_steps: "(loop_step sample_env)\<^sup>*\<^sup>* ([], sample_world) sample_fight"
proof -
  have "loop_step sample_env ([], sample_world)
      ([], sample_world\<lparr>glPlayers := [(7, fresh_loop_player (sample_fighter 7 ''bob''))]\<rparr>)"
    using join [OF sample_char_ok, of sample_env "[]" sample_world 7 "''bob''"]
    by (simp add: sample_fighter_def sample_world_def RegisterWorldSpawns_def NewGameLoop_def)
  then show ?thesis
    unfolding sample_fight_def by (blast intro: command rtranclp.rtrancl_into_rtrancl r_into_rtranclp)
qed

lemma sample_fight_player: "GetPlayer 7 (snd sample_fight) = Some (fresh_loop_player (sample_fighter 7 ''bob''))"
  by (simp add: sample_fight_def flush_def handleAttackRequest_def resolveCombatTarget_def GetPlayer_def GetNPC_def
      sample_world_def RegisterWorldSpawns_def NewGameLoop_def sample_npc_def attack_begin_def beginAttackSwing_def
      setIntention_def schedule_def Let_def IsAttackable_def sample_template_def meleeReachTo_def attackReach_def
      dist2_def fresh_loop_player_def sample_fighter_def origin_def)


end
