(* ===== verification/LoopSpawns.thy ===== *)
theory LoopSpawns
  imports LoopSteps
begin

text \<open>
  Spawn points: the dead NPC of a spawn point comes back under a new number. The invariant speaks of the
  events still in the queue (\<open>Q\<close>) and of those the running handler has scheduled.
\<close>

definition pending :: "loop_event event set \<Rightarrow> game_loop \<Rightarrow> loop_event set" where
  "pending Q gl = Payload ` (Q \<union> set (glNew gl))"

definition alive :: "int \<Rightarrow> game_loop \<Rightarrow> bool" where
  "alive i gl \<longleftrightarrow> (\<exists>n. GetNPC i gl = Some n \<and> \<not> niIsDead n)"

definition spawns_kept :: "SpawnInfo multiset \<Rightarrow> loop_event event set \<Rightarrow> game_loop \<Rightarrow> bool" where
  "spawns_kept S Q gl \<longleftrightarrow>
     mset (map snd (npcSpawnInfo gl)) = S \<and> distinct (map fst (npcSpawnInfo gl))
     \<and> (\<forall>i \<in> set (map fst (npcSpawnInfo gl)). i \<le> glNextID gl \<and> (alive i gl \<or> RespawnEvent i \<in> pending Q gl))
     \<and> (\<forall>i info n. (i, info) \<in> set (npcSpawnInfo gl) \<longrightarrow> GetNPC i gl = Some n \<longrightarrow> spawn_of n = info)
     \<and> (\<forall>i. CorpseDecayEvent i \<in> pending Q gl \<longrightarrow> i \<le> glNextID gl \<and> \<not> alive i gl)
     \<and> (\<forall>i n. GetNPC i gl = Some n \<longrightarrow> i \<le> glNextID gl)"

lemma spawn_of_hp [simp]: "spawn_of (n\<lparr>niCurrentHP := hp\<rparr>) = spawn_of n" "spawn_of (n\<lparr>niIsDead := d\<rparr>) = spawn_of n"
  by (simp_all add: spawn_of_def)

definition templates_known :: "loop_env \<Rightarrow> SpawnInfo multiset \<Rightarrow> bool" where
  "templates_known env S \<longleftrightarrow> (\<forall>info \<in># S. npcTemplates env (spTemplateID info) \<noteq> None)"

definition spawning :: "loop_env \<Rightarrow> SpawnInfo multiset \<Rightarrow> loop_event event set \<Rightarrow> game_loop \<Rightarrow> bool" where
  "spawning env S Q gl \<longleftrightarrow> env_ok env \<and> templates_known env S \<and> spawns_kept S Q gl"

lemma spawning_fields [simp]:
  "spawning env S Q (gl\<lparr>glOut := a\<rparr>) = spawning env S Q gl" "spawning env S Q (gl\<lparr>glDraws := b\<rparr>) = spawning env S Q gl"
  "spawning env S Q (gl\<lparr>aiState := c\<rparr>) = spawning env S Q gl" "spawning env S Q (gl\<lparr>interactPending := d\<rparr>) = spawning env S Q gl"
  "spawning env S Q (gl\<lparr>castPending := e\<rparr>) = spawning env S Q gl" "spawning env S Q (gl\<lparr>skillReuse := f\<rparr>) = spawning env S Q gl"
  "spawning env S Q (gl\<lparr>castSeq := g\<rparr>) = spawning env S Q gl" "spawning env S Q (gl\<lparr>glShots := h\<rparr>) = spawning env S Q gl"
  "spawning env S Q (gl\<lparr>npcCombatState := k\<rparr>) = spawning env S Q gl" "spawning env S Q (gl\<lparr>npcHateLists := l\<rparr>) = spawning env S Q gl"
  "spawning env S Q (gl\<lparr>combatState := n\<rparr>) = spawning env S Q gl" "spawning env S Q (gl\<lparr>glPlayers := m\<rparr>) = spawning env S Q gl"
  "spawning env S Q (gl\<lparr>glAutos := o'\<rparr>) = spawning env S Q gl"
  by (simp_all add: spawning_def spawns_kept_def alive_def pending_def GetNPC_def)

lemma spawning_charge: "spawning env S Q (gl\<lparr>glShots := h, glAutos := o'\<rparr>) = spawning env S Q gl"
  by (simp add: spawning_def spawns_kept_def alive_def pending_def GetNPC_def)

lemma spawning_player [simp]: "spawning env S Q (upd_player i f gl) = spawning env S Q gl"
  by (simp add: upd_player_def split: option.split)

lemma spawning_buffs [simp]: "spawning env S Q (snd (with_buffs f gl)) = spawning env S Q gl"
  by (simp add: spawning_def spawns_kept_def alive_def pending_def)

lemma spawning_new:
  "spawning env S Q gl \<Longrightarrow> plain e \<Longrightarrow> spawning env S Q (gl\<lparr>glNew := glNew gl @ [\<lparr>ExecuteAt = t, Payload = e\<rparr>]\<rparr>)"
  by (auto simp: spawning_def spawns_kept_def alive_def pending_def)

interpretation spawnf: loop_frame "spawning env S Q" now "\<lambda>t e. plain e" for env S Q now
  by unfold_locales (simp_all add: SetPlayerCombatState_def spawning_new)

text \<open>A death: the NPC is not alive, its corpse will decay and its spawn point has a respawn pending.\<close>

definition dying :: "int \<Rightarrow> loop_env \<Rightarrow> SpawnInfo multiset \<Rightarrow> loop_event event set \<Rightarrow> game_loop \<Rightarrow> bool" where
  "dying k env S Q gl \<longleftrightarrow> spawning env S (insert \<lparr>ExecuteAt = 0, Payload = RespawnEvent k\<rparr> Q) gl \<and> \<not> alive k gl \<and> k \<le> glNextID gl"

lemma dying_fields [simp]:
  "dying j env S Q (gl\<lparr>glOut := a\<rparr>) = dying j env S Q gl" "dying j env S Q (gl\<lparr>glDraws := b\<rparr>) = dying j env S Q gl"
  "dying j env S Q (gl\<lparr>aiState := c\<rparr>) = dying j env S Q gl" "dying j env S Q (gl\<lparr>interactPending := d\<rparr>) = dying j env S Q gl"
  "dying j env S Q (gl\<lparr>castPending := e\<rparr>) = dying j env S Q gl" "dying j env S Q (gl\<lparr>skillReuse := f\<rparr>) = dying j env S Q gl"
  "dying j env S Q (gl\<lparr>castSeq := g\<rparr>) = dying j env S Q gl" "dying j env S Q (gl\<lparr>glShots := h\<rparr>) = dying j env S Q gl"
  "dying j env S Q (gl\<lparr>npcCombatState := k\<rparr>) = dying j env S Q gl" "dying j env S Q (gl\<lparr>npcHateLists := l\<rparr>) = dying j env S Q gl"
  "dying j env S Q (gl\<lparr>combatState := n\<rparr>) = dying j env S Q gl" "dying j env S Q (upd_player i ff gl) = dying j env S Q gl"
  "dying j env S Q (snd (with_buffs fb gl)) = dying j env S Q gl"
  by (simp_all add: dying_def alive_def)

interpretation dyingf: loop_frame "dying k env S Q" now "\<lambda>t e. plain e" for k env S Q now
  by unfold_locales (simp_all add: SetPlayerCombatState_def, simp add: dying_def spawning_new, simp add: alive_def)

lemma spawning_death: "spawning env S Q gl \<Longrightarrow> spawning env S Q (handleNPCDeath env now k gl)"
proof (cases "GetNPC k gl")
  case (Some npc)
  assume s: "spawning env S Q gl"
  let ?g = "awardExpForNPCKill env npc (stopNPCAttack k (stopAllAttackersOnTarget now k (broadcastToNearby (niPosition npc) (Die k)
     (upd_npc k (\<lambda>n. n\<lparr>niIsDead := True, niCurrentHP := 0\<rparr>) gl))))"
  have "dying k env S Q (upd_npc k (\<lambda>n. n\<lparr>niIsDead := True, niCurrentHP := 0\<rparr>) gl)"
    using s Some by (auto simp: dying_def spawning_def spawns_kept_def alive_def pending_def split: if_splits)
  then have "dying k env S Q ?g"
    by simp
  then have "spawning env S Q (schedule (now + respawnDelay) (RespawnEvent k) (schedule (now + corpseDecayDelay) (CorpseDecayEvent k) ?g))"
    by (auto simp: dying_def spawning_def spawns_kept_def schedule_def pending_def alive_def)
  then show ?thesis
    by (simp add: handleNPCDeath_def Let_def Some)
qed (simp add: handleNPCDeath_def)

interpretation spawn: loop_all "spawning env S Q" now "\<lambda>t e. plain e" env "\<lambda>_. True" for env S Q now
proof unfold_locales
  fix gl i n npc d k l sk draw
  assume v: "spawning env S Q gl"
  show "spawning env S Q (handleNPCDeath env now n gl)"
    by (rule spawning_death [OF v])
  show "spawning env S Q (handlePlayerDeath now i gl)"
    using v by (simp add: handlePlayerDeath_def Let_def SetPlayerCombatState_def spawnf.char_op split: option.split)
  show "spawning env S Q (exec_StanceTimeout now i gl)"
    using v by (simp add: exec_StanceTimeout_def Let_def SetPlayerCombatState_def split: option.split)
  show "spawning env S Q (upd_npc n (\<lambda>m. m\<lparr>niCurrentHP := lower_hp (niCurrentHP npc) d\<rparr>) gl)"
    if "GetNPC n gl = Some npc" "0 \<le> d"
    using v that by (auto simp: spawning_def spawns_kept_def pending_def alive_def split: if_splits)
  show "0 \<le> skMpConsume2 sk" if "GetSkill env k l = Some sk"
    using that v by (auto simp: spawning_def env_ok_def)
  show "0 \<le> rng env draw"
    using v by (auto simp: spawning_def env_ok_def)
qed simp_all

lemma update_fresh: "k \<notin> set (map fst m) \<Longrightarrow> AList.update k v m = m @ [(k, v)]"
  by (induction m) auto

lemma mset_delete:
  "distinct (map fst m) \<Longrightarrow> map_of m k = Some v \<Longrightarrow> mset (map snd m) = add_mset v (mset (map snd (AList.delete k m)))"
proof (induction m)
  case (Cons x m)
  have "AList.delete k m = m" if "k \<notin> set (map fst m)"
    using that by (simp add: delete_notin_dom image_iff)
  with Cons show ?case
    by (cases x) (auto split: if_splits)
qed simp

lemma spawning_drop:
  assumes "spawning env S (insert e Q) gl" and "\<And>k. Payload e \<noteq> RespawnEvent k"
  shows "spawning env S Q gl"
proof -
  have "RespawnEvent k \<in> pending (insert e Q) gl \<longleftrightarrow> RespawnEvent k \<in> pending Q gl" for k
    using assms(2) [of k] by (auto simp: pending_def)
  moreover have "pending Q gl \<subseteq> pending (insert e Q) gl"
    by (auto simp: pending_def)
  ultimately show ?thesis
    using assms(1) unfolding spawning_def spawns_kept_def by blast
qed

lemma spawning_respawn:
  assumes s: "spawning env S (insert e Q) gl" and e: "Payload e = RespawnEvent k"
  shows "spawning env S Q (exec_Respawn env k gl)"
proof (cases "map_of (npcSpawnInfo gl) k")
  case None
  then have "k \<notin> set (map fst (npcSpawnInfo gl))"
    by (simp add: map_of_eq_None_iff)
  then have "alive i gl \<or> RespawnEvent i \<in> pending Q gl" if "i \<in> set (map fst (npcSpawnInfo gl))" for i
    using that s e by (auto simp: spawning_def spawns_kept_def pending_def)
  moreover have "CorpseDecayEvent i \<in> pending Q gl \<Longrightarrow> CorpseDecayEvent i \<in> pending (insert e Q) gl" for i
    by (auto simp: pending_def)
  ultimately have "spawning env S Q gl"
    using s by (simp add: spawning_def spawns_kept_def)
  then show ?thesis
    by (simp add: exec_Respawn_def None)
next
  case (Some info)
  let ?m = "npcSpawnInfo gl" and ?i = "glNextID gl + 1"
  have kept: "spawns_kept S (insert e Q) gl" and env: "templates_known env S"
    using s by (simp_all add: spawning_def)
  have "info \<in> set (map snd ?m)"
    using map_of_SomeD [OF Some] by (force simp: image_iff)
  then have "info \<in># S"
    using kept by (metis set_mset_mset spawns_kept_def)
  then obtain tpl where tpl: "npcTemplates env (spTemplateID info) = Some tpl"
    using env by (auto simp: templates_known_def)
  have le: "j \<le> glNextID gl" if "j \<in> set (map fst ?m)" for j
    using kept that unfolding spawns_kept_def by blast
  then have fresh: "?i \<notin> set (map fst (AList.delete k ?m))"
    by (force simp: delete_keys)
  define new where "new = AList.delete k ?m @ [(?i, info)]"
  define npc where "npc = \<lparr>niObjectID = ?i, niTemplateID = spTemplateID info, niTemplate = tpl, niPosition = spPosition info,
    niHeading = spHeading info, niIsRunning = True, niIsDead = False, niCurrentHP = ntHP tpl, niCurrentMP = ntMP tpl\<rparr>"
  have result: "exec_Respawn env k gl = gl\<lparr>glNextID := ?i, npcSpawnInfo := new, glNpcs := AList.update ?i npc (glNpcs gl)\<rparr>"
    using update_fresh [OF fresh] by (simp add: exec_Respawn_def Some tpl NextNPCObjectID_def Let_def new_def npc_def)
  let ?r = "exec_Respawn env k gl"
  have npcs: "GetNPC j ?r = (if j = ?i then Some npc else GetNPC j gl)" for j
    by (simp add: result GetNPC_def)
  have pend: "pending Q ?r = pending Q gl"
    by (simp add: pending_def result)
  have dm: "distinct (map fst ?m)" and sm: "mset (map snd ?m) = S"
    using kept by (simp_all add: spawns_kept_def)
  have "mset (map snd new) = S"
    using mset_delete [OF dm Some] sm by (simp add: new_def)
  moreover have "distinct (map fst new)"
    using fresh dm by (simp add: new_def distinct_delete)
  moreover have "j \<le> ?i \<and> (alive j ?r \<or> RespawnEvent j \<in> pending Q ?r)" if "j \<in> set (map fst new)" for j
  proof (cases "j = ?i")
    case False
    then have j: "j \<in> set (map fst ?m)" "j \<noteq> k"
      using that by (auto simp: new_def delete_keys)
    then have "alive j gl \<or> RespawnEvent j \<in> pending (insert e Q) gl"
      using kept unfolding spawns_kept_def by blast
    then show ?thesis
      using j le [OF j(1)] e False by (auto simp: alive_def npcs pend) (auto simp: pending_def)
  qed (simp add: alive_def npcs npc_def)
  moreover have "spawn_of n = info'" if "(j, info') \<in> set new" "GetNPC j ?r = Some n" for j info' n
  proof (cases "j = ?i")
    case True
    moreover have "info' = info"
      using that(1) True fresh by (force simp: new_def)
    ultimately show ?thesis
      using that(2) by (cases info) (auto simp: npcs npc_def spawn_of_def)
  next
    case False
    then have "(j, info') \<in> set ?m"
      using that(1) by (auto simp: new_def AList.delete_eq)
    then show ?thesis
      using that(2) False kept unfolding spawns_kept_def by (auto simp: npcs)
  qed
  moreover have "i \<le> ?i \<and> \<not> alive i ?r" if "CorpseDecayEvent i \<in> pending Q ?r" for i
  proof -
    have "CorpseDecayEvent i \<in> pending (insert e Q) gl"
      using that by (auto simp: pend) (auto simp: pending_def)
    then have "i \<le> glNextID gl \<and> \<not> alive i gl"
      using kept unfolding spawns_kept_def by blast
    then show ?thesis
      by (auto simp: alive_def npcs)
  qed
  moreover have "j \<le> ?i" if "GetNPC j ?r = Some n" for j n
    using that kept by (auto simp: npcs spawns_kept_def split: if_splits)
  ultimately have "spawns_kept S Q ?r"
    unfolding spawns_kept_def by (simp add: result)
  then show ?thesis
    using s by (simp add: spawning_def)
qed

lemma spawning_decay:
  assumes "spawning env S (insert e Q) gl" and "Payload e = CorpseDecayEvent k"
  shows "spawning env S Q (exec_CorpseDecay k gl)"
proof (cases "GetNPC k gl")
  case None
  then show ?thesis
    using spawning_drop [OF assms(1)] assms(2) by (simp add: exec_CorpseDecay_def)
next
  case (Some npc)
  have dead: "\<not> alive k gl"
    using assms by (auto simp: spawning_def spawns_kept_def pending_def)
  have g: "spawning env S Q gl"
    using spawning_drop [OF assms(1)] assms(2) by simp
  let ?g = "gl\<lparr>glNpcs := AList.delete k (glNpcs gl)\<rparr>"
  have npcs: "GetNPC j ?g = (if j = k then None else GetNPC j gl)" for j
    by (simp add: GetNPC_def)
  have "alive j ?g \<longleftrightarrow> alive j gl" for j
    using dead by (auto simp: alive_def npcs)
  then have "spawning env S Q ?g"
    using g by (auto simp: spawning_def spawns_kept_def npcs pending_def split: if_splits)
  then have "spawning env S Q (?g\<lparr>npcHateLists := AList.delete k (npcHateLists gl)\<rparr>\<lparr>glOut := out\<rparr>)" for out
    by (simp only: spawning_fields)
  moreover have "exec_CorpseDecay k gl = ?g\<lparr>npcHateLists := AList.delete k (npcHateLists gl)\<rparr>
      \<lparr>glOut := glOut gl @ [Send (Nearby (niPosition npc) broadcastRadius) (DeleteObjectPacket k)]\<rparr>"
    by (simp add: exec_CorpseDecay_def Some Let_def broadcastToNearby_def send_def)
  ultimately show ?thesis
    by simp
qed

lemma spawning_event:
  assumes "spawning env S (insert e Q) gl" and "harmless (Payload e)"
  shows "spawning env S Q (exec_event env now (Payload e) gl)"
proof (cases "\<exists>k. Payload e = RespawnEvent k \<or> Payload e = CorpseDecayEvent k")
  case True
  then show ?thesis
    using spawning_respawn [OF assms(1)] spawning_decay [OF assms(1)] by auto
next
  case False
  then have "plain (Payload e)"
    using assms(2) by (cases "Payload e") auto
  moreover have "spawning env S Q gl"
    using False by (intro spawning_drop [OF assms(1)]) auto
  ultimately show ?thesis
    by (intro spawn.event_keeps)
qed

text \<open>The steps outside the queue schedule nothing.\<close>

lemma new_advance: "glNew (fold (advance_one now) ps gl) = glNew gl"
proof (induction ps arbitrary: gl)
  case (Cons p ps)
  have "glNew (advance_one now p gl) = glNew gl"
    by (simp add: advance_one_def Let_def UpdatePlayerPosition_def split_beta call_def split: option.split)
  with Cons show ?case
    by simp
qed simp

lemma new_regen: "glNew (fold regen_one is gl) = glNew gl"
proof (induction "is" arbitrary: gl)
  case (Cons i js)
  have "glNew (regen_one i gl) = glNew gl"
    by (simp add: regen_one_def Let_def send_def upd_char_def split: option.split)
  with Cons show ?case
    by simp
qed simp

lemma new_autosave: "glNew (fold autosave_one ps gl) = glNew gl"
  by (induction ps arbitrary: gl) (simp_all add: autosave_one_def call_def)

lemma new_perform: "glNew (fold perform as gl) = glNew gl"
proof (induction as arbitrary: gl)
  case (Cons a as)
  have "glNew (perform a gl) = glNew gl"
    by (cases a) (simp_all add: perform_def send_buff_def handleRestoreStats_def applyDoTToPlayer_def Let_def send_def upd_char_def
        call_def broadcastToNearby_def split: option.split)
  with Cons show ?case
    by simp
qed simp

lemma new_sweep: "glNew (loop_serviceBuffs now gl) = glNew gl"
  by (simp add: loop_serviceBuffs_def split_beta Let_def new_perform)

lemma nothing_new: "loop_step env s s' \<Longrightarrow> glNew (snd s) = [] \<Longrightarrow> glNew (snd s') = []"
  by (induction rule: loop_step.induct)
     (simp_all add: flush_def advancePlayerMovement_def regenPlayers_def autosaveOnlinePlayers_def new_advance new_regen
       new_autosave new_sweep SetPlayerTarget_def)

definition spawn_state :: "loop_env \<Rightarrow> SpawnInfo multiset \<Rightarrow> loop_state \<Rightarrow> bool" where
  "spawn_state env S s \<longleftrightarrow> state_ok env s \<and> spawning env S (set (fst s)) (snd s) \<and> glNew (snd s) = []"

lemma spawning_flush: "spawning env S (set q) gl \<Longrightarrow> spawning env S (set (fst (flush q gl))) (snd (flush q gl))"
proof -
  have "pending (set (fst (flush q gl))) (snd (flush q gl)) = pending (set q) gl"
    by (auto simp: flush_def pending_def)
  then show "spawning env S (set q) gl \<Longrightarrow> ?thesis"
    by (simp add: spawning_def spawns_kept_def alive_def flush_def)
qed

lemma set_Pop_eq: "Peek q = Some e \<Longrightarrow> set q = insert e (set (snd (PopEvent q)))"
  using heap_queue.pop_events [of q e] set_Pop [of q e]
  by (metis insert_DiffM set_mset_add_mset_insert set_mset_mset in_multiset_in_set)

lemma spawn_step: "loop_step env s s' \<Longrightarrow> spawn_state env S s \<Longrightarrow> spawn_state env S s'"
proof -
  assume step: "loop_step env s s'" and st: "spawn_state env S s"
  have "spawning env S (set (fst s')) (snd s')"
    using step st
  proof (induction rule: loop_step.induct)
    case (command q gl now cmd)
    then show ?case
      by (intro spawning_flush spawn.command_keeps) (simp_all add: spawn_state_def)
  next
    case (event q e now gl)
    then show ?case
      using set_Pop_eq [OF event(1)]
      by (intro spawning_flush spawning_event) (auto simp: spawn_state_def state_ok_def)
  next
    case (sweep q gl now)
    then show ?case
      by (auto simp: spawn_state_def intro: spawn.sweep_keeps)
  next
    case (charge q gl sh au)
    then show ?case
      by (simp add: spawn_state_def spawning_charge)
  qed (auto simp: spawn_state_def)
  with st show ?thesis
    using state_step [OF step] nothing_new [OF step] by (simp add: spawn_state_def)
qed

lemma spawn_steps: "(loop_step env)\<^sup>*\<^sup>* s s' \<Longrightarrow> spawn_state env S s \<Longrightarrow> spawn_state env S s'"
  by (induction rule: rtranclp_induct) (auto intro: spawn_step)

lemma register_all:
  "distinct (map fst npcs) \<Longrightarrow> set (map fst npcs) \<inter> set (map fst m) = {} \<Longrightarrow> \<forall>(i, n) \<in> set npcs. niObjectID n = i \<Longrightarrow>
    fold (\<lambda>(i, n) m. AList.update (niObjectID n) (spawn_of n) m) npcs m = m @ map (\<lambda>(i, n). (i, spawn_of n)) npcs"
  by (induction npcs arbitrary: m) (auto simp: update_fresh image_iff)

lemma spawn_loaded:
  assumes "env_ok env" and l: "loaded env gl"
  shows "spawn_state env (mset (map (spawn_of \<circ> snd) (glNpcs gl))) ([], gl)"
proof -
  let ?ns = "glNpcs gl"
  have d: "distinct (map fst ?ns)"
    using loaded_facts(5) [OF l] by simp
  have every: "niObjectID n = i \<and> \<not> niIsDead n \<and> niCurrentHP n = ntHP (niTemplate n)
       \<and> npcTemplates env (niTemplateID n) = Some (niTemplate n) \<and> 1000000 < i \<and> i \<le> glNextID gl" if "(i, n) \<in> set ?ns" for i n
    using loaded_facts(4) [OF l that] .
  have info: "npcSpawnInfo gl = map (\<lambda>(i, n). (i, spawn_of n)) ?ns"
    using register_all [of ?ns "[]"] d every loaded_facts(6) [OF l] by auto
  have here: "GetNPC i gl = Some n" if "(i, n) \<in> set ?ns" for i n
    using that d by (simp add: GetNPC_def)
  have back': "(i, n) \<in> set ?ns" if "GetNPC i gl = Some n" for i n
    using map_of_SomeD that by (simp add: GetNPC_def)
  have "spawns_kept (mset (map (spawn_of \<circ> snd) ?ns)) {} gl"
    unfolding spawns_kept_def
  proof (intro conjI allI ballI impI)
    show "mset (map snd (npcSpawnInfo gl)) = mset (map (spawn_of \<circ> snd) ?ns)"
      by (simp add: info comp_def case_prod_unfold)
    show "distinct (map fst (npcSpawnInfo gl))"
      using d by (simp add: info comp_def case_prod_unfold)
  next
    fix i assume "i \<in> set (map fst (npcSpawnInfo gl))"
    then obtain n where "(i, n) \<in> set ?ns"
      by (auto simp: info)
    then show "i \<le> glNextID gl" "alive i gl \<or> RespawnEvent i \<in> pending {} gl"
      using every here by (auto simp: alive_def)
  next
    fix i info' n assume "(i, info') \<in> set (npcSpawnInfo gl)" "GetNPC i gl = Some n"
    then show "spawn_of n = info'"
      using here by (auto simp: info)
  next
    fix i n assume "GetNPC i gl = Some n"
    then show "i \<le> glNextID gl"
      using back' every by blast
  qed (use loaded_facts(2) [OF l] in \<open>auto simp: pending_def\<close>)
  moreover have "templates_known env (mset (map (spawn_of \<circ> snd) ?ns))"
    using every by (force simp: templates_known_def spawn_of_def)
  ultimately show ?thesis
    using assms state_loaded [OF assms] loaded_facts(2) [OF l] by (simp add: spawn_state_def spawning_def)
qed

section \<open>Properties\<close>

text \<open>
  C13: No spawn point is lost. From a loaded world on, through every interleaving of commands, timed events,
  sweeps and sessions coming and going, the loop keeps one entry per spawn point of the world it was loaded
  with, with the same template, place and heading; and each entry has either a living NPC of exactly that
  template, place and heading in the world or its respawn in the queue.
\<close>

theorem no_spawn_is_lost:
  assumes "env_ok env" and "loaded env gl0" and "(loop_step env)\<^sup>*\<^sup>* ([], gl0) (q, gl)"
  shows "mset (map snd (npcSpawnInfo gl)) = mset (map (spawn_of \<circ> snd) (glNpcs gl0))
    \<and> (\<forall>i info. (i, info) \<in> set (npcSpawnInfo gl) \<longrightarrow>
         (\<exists>n. GetNPC i gl = Some n \<and> \<not> niIsDead n \<and> spawn_of n = info) \<or> RespawnEvent i \<in> Payload ` set q)"
proof -
  have "spawn_state env (mset (map (spawn_of \<circ> snd) (glNpcs gl0))) (q, gl)"
    by (rule spawn_steps [OF assms(3) spawn_loaded [OF assms(1,2)]])
  then have k: "spawns_kept (mset (map (spawn_of \<circ> snd) (glNpcs gl0))) (set q) gl" and "glNew gl = []"
    by (simp_all add: spawn_state_def spawning_def)
  then have "pending (set q) gl = Payload ` set q"
    by (simp add: pending_def)
  with k show ?thesis
    unfolding spawns_kept_def alive_def by (metis (no_types, lifting) fst_conv image_eqI list.set_map)
qed

lemma no_spawn_is_lost_witness:
  "mset (map snd (npcSpawnInfo (snd sample_fight))) = {#spawn_of sample_npc#}"
  using no_spawn_is_lost [OF sample_env_ok sample_loaded, of "fst sample_fight" "snd sample_fight"] sample_fight_steps
  by (simp add: sample_world_def RegisterWorldSpawns_def NewGameLoop_def)

end
