(* ===== verification/LoopTick.thy ===== *)
theory LoopTick
  imports LoopSpawns
begin

text \<open>
  A tick ends. An event may schedule others that are due at once (a hit makes the NPC attack after a delay that
  may be zero, a skill may have no hit time), but only of a smaller \<open>rank\<close>, so the
  multiset of the ranks of the events that are due decreases.
\<close>

definition due_ok :: "nat \<Rightarrow> int \<Rightarrow> loop_env \<Rightarrow> game_loop \<Rightarrow> bool" where
  "due_ok r now env gl \<longleftrightarrow> env_ok env \<and> (\<forall>x \<in> set (glNew gl). now < ExecuteAt x \<or> rank (Payload x) < r)"

lemma due_fields [simp]:
  "due_ok r now env (gl\<lparr>glOut := a\<rparr>) = due_ok r now env gl" "due_ok r now env (gl\<lparr>glDraws := b\<rparr>) = due_ok r now env gl"
  "due_ok r now env (gl\<lparr>aiState := c\<rparr>) = due_ok r now env gl" "due_ok r now env (gl\<lparr>interactPending := d\<rparr>) = due_ok r now env gl"
  "due_ok r now env (gl\<lparr>castPending := e\<rparr>) = due_ok r now env gl" "due_ok r now env (gl\<lparr>skillReuse := f\<rparr>) = due_ok r now env gl"
  "due_ok r now env (gl\<lparr>castSeq := g\<rparr>) = due_ok r now env gl" "due_ok r now env (gl\<lparr>glShots := h\<rparr>) = due_ok r now env gl"
  "due_ok r now env (gl\<lparr>npcCombatState := k\<rparr>) = due_ok r now env gl" "due_ok r now env (gl\<lparr>npcHateLists := l\<rparr>) = due_ok r now env gl"
  "due_ok r now env (gl\<lparr>combatState := n\<rparr>) = due_ok r now env gl" "due_ok r now env (upd_player i ff gl) = due_ok r now env gl"
  "due_ok r now env (upd_npc i fn gl) = due_ok r now env gl" "due_ok r now env (snd (with_buffs fb gl)) = due_ok r now env gl"
  by (simp_all add: due_ok_def upd_player_def upd_npc_def split: option.split)

lemma due_schedule [simp]:
  "due_ok r now env (schedule t e gl) \<longleftrightarrow> due_ok r now env gl \<and> (now < t \<or> rank e < r)"
  by (auto simp: due_ok_def schedule_def)

interpretation duef: loop_frame "due_ok r now env" now "\<lambda>t e. now < t \<or> rank e < r" for r now env
  by unfold_locales (auto simp: SetPlayerCombatState_def, auto simp: due_ok_def)

lemma due_death: "due_ok r now env gl \<Longrightarrow> due_ok r now env (handleNPCDeath env now n gl)"
  by (simp add: handleNPCDeath_def Let_def split: option.split)

lemma due_timeout: "due_ok r now env gl \<Longrightarrow> due_ok r now env (exec_StanceTimeout now i gl)"
  by (simp add: exec_StanceTimeout_def Let_def SetPlayerCombatState_def split: option.split)

lemma due_player_death: "due_ok r now env gl \<Longrightarrow> due_ok r now env (handlePlayerDeath now i gl)"
  by (simp add: handlePlayerDeath_def Let_def SetPlayerCombatState_def duef.char_op split: option.split)

lemma due_env: "due_ok r now env gl \<Longrightarrow> GetSkill env k l = Some sk \<Longrightarrow> 0 \<le> skMpConsume2 sk"
  "due_ok r now env gl \<Longrightarrow> 0 \<le> rng env draw"
  by (auto simp: due_ok_def env_ok_def)

interpretation hits: loop_inv "due_ok 2 now env" now "\<lambda>t e. now < t \<or> rank e < 2" env "\<lambda>_. True" for now env
  by unfold_locales (auto simp: due_death due_timeout due_player_death intro: due_env)

interpretation casts: loop_all "due_ok 3 now env" now "\<lambda>t e. now < t \<or> rank e < 3" env "\<lambda>_. True" for now env
  by unfold_locales (auto simp: due_death due_timeout due_player_death intro: due_env)

lemma due_weaken: "due_ok r now env gl \<Longrightarrow> r \<le> r' \<Longrightarrow> due_ok r' now env gl"
  by (auto simp: due_ok_def)

lemma due_event:
  assumes "env_ok env" and "glNew gl = []" and "harmless e"
  shows "due_ok (rank e) now env (exec_event env now e gl)"
proof -
  have start: "due_ok r now env gl" for r
    using assms(1,2) by (simp add: due_ok_def)
  show ?thesis
    using assms(3) start
    by (cases e) (auto simp: due_timeout hits.hit_op hits.npc_hit_op hits.cast_hit_op casts.cast_approach_op,
        auto simp: due_ok_def exec_Respawn_def exec_CorpseDecay_def NextNPCObjectID_def broadcastToNearby_def send_def Let_def
          split: option.split)
qed

text \<open>The ranks of what is due.\<close>

definition due_ranks :: "int \<Rightarrow> loop_event queue \<Rightarrow> nat multiset" where
  "due_ranks now q = image_mset (rank \<circ> Payload) {#x \<in># mset q. ExecuteAt x \<le> now#}"

lemma smaller_mult: "(\<And>x. x \<in># N \<Longrightarrow> x < (r :: nat)) \<Longrightarrow> (M + N, add_mset r M) \<in> mult less_than"
  using one_step_implies_mult [of "{#r#}" N less_than M] by simp

lemma due_ranks_add: "mset q' = mset q + mset es \<Longrightarrow> due_ranks now q' = due_ranks now q + due_ranks now es"
  by (simp add: due_ranks_def)

lemma run_due_more: "run_due fuel now f q s = Some y \<Longrightarrow> fuel \<le> k \<Longrightarrow> run_due k now f q s = Some y"
proof (induction fuel arbitrary: q s y k)
  case (Suc fuel)
  then obtain j where j: "k = Suc j" "fuel \<le> j"
    by (cases k) auto
  show ?case
  proof (cases "Peek q")
    case (Some e)
    let ?q = "fold Schedule (snd (f e s)) (snd (PopEvent q))"
    show ?thesis
    proof (cases "run_due fuel now f ?q (fst (f e s))")
      case (Some r)
      then show ?thesis
        using Suc.prems Suc.IH [OF Some j(2)] \<open>Peek q = Some e\<close> j(1)
        by (cases r) (auto simp: Let_def split_beta split: if_splits)
    qed (use Suc.prems \<open>Peek q = Some e\<close> j in \<open>simp add: Let_def split_beta split: if_splits\<close>)
  qed (use Suc.prems j in simp)
qed simp

lemma run_ends:
  "is_heap q \<Longrightarrow> vital env gl \<Longrightarrow> glNew gl = [] \<Longrightarrow> \<forall>x \<in> set q. harmless (Payload x) \<Longrightarrow>
    \<exists>fuel q' gl' es. run_due fuel now (exec_due env now) q gl = Some (q', gl', es)
      \<and> is_heap q' \<and> (\<forall>x \<in> set q'. now < ExecuteAt x)"
proof (induction "due_ranks now q" arbitrary: q gl rule: wf_induct_rule [OF wf_mult [OF wf_less_than]])
  case less: (1 q gl)
  show ?case
  proof (cases "Peek q")
    case None
    then have "q = []"
      using heap_queue.next_none [of q] by simp
    then have "run_due 1 now (exec_due env now) q gl = Some ([], gl, [])"
      by (simp add: Peek_def)
    then show ?thesis
      by fastforce
  next
    case (Some e)
    show ?thesis
    proof (cases "ExecuteAt e > now")
      case True
      then have "run_due 1 now (exec_due env now) q gl = Some (q, gl, [])"
        by (simp add: Some)
      moreover have "now < ExecuteAt x" if "x \<in> set q" for x
        using heap_queue.next_min [OF less(2) Some] that True by fastforce
      ultimately show ?thesis
        using less(2) by blast
    next
      case False
      let ?g = "exec_event env now (Payload e) gl" and ?p = "snd (PopEvent q)"
      let ?q = "fold Schedule (glNew ?g) ?p"
      have e: "e \<in> set q" and pop: "mset q = add_mset e (mset ?p)"
        using heap_queue.next_min [OF less(2) Some] heap_queue.pop_events [OF Some] by simp_all
      have heap: "is_heap ?q" and new: "mset ?q = mset ?p + mset (glNew ?g)"
        using heap_queue.schedule_all [OF heap_queue.pop_invar [OF less(2)]] by auto
      have harmless: "harmless (Payload e)"
        using e less(5) by blast
      have v: "vital env ?g"
        by (rule vital_event [OF less(3) harmless])
      then have env: "env_ok env" and "\<forall>x \<in> set (glNew ?g). harmless (Payload x)"
        by (simp_all add: vital_def vit_ok_def)
      moreover have "set ?p \<subseteq> set q"
        using set_Pop [OF Some] by simp
      ultimately have all: "\<forall>x \<in> set ?q. harmless (Payload x)"
        using less(5) mset_eq_setD [OF new [folded mset_append]] by auto
      have "due_ok (rank (Payload e)) now env ?g"
        by (rule due_event [OF env less(4) harmless])
      then have "r < rank (Payload e)" if "r \<in># due_ranks now (glNew ?g)" for r
        using that by (auto simp: due_ok_def due_ranks_def)
      then have "(due_ranks now ?p + due_ranks now (glNew ?g), add_mset (rank (Payload e)) (due_ranks now ?p)) \<in> mult less_than"
        by (rule smaller_mult)
      moreover have "due_ranks now q = add_mset (rank (Payload e)) (due_ranks now ?p)"
        using False pop by (simp add: due_ranks_def)
      ultimately have "(due_ranks now ?q, due_ranks now q) \<in> mult less_than"
        by (simp only: due_ranks_add [OF new])
      moreover have "vital env (?g\<lparr>glNew := []\<rparr>)"
        using v by (simp add: vital_def vit_ok_def)
      ultimately obtain fuel q' gl' es where "run_due fuel now (exec_due env now) ?q (?g\<lparr>glNew := []\<rparr>) = Some (q', gl', es)"
          "is_heap q'" "\<forall>x \<in> set q'. now < ExecuteAt x"
        using less(1) [of ?q "?g\<lparr>glNew := []\<rparr>"] heap all by auto
      moreover from this(1) have "run_due (Suc fuel) now (exec_due env now) q gl = Some (q', gl', e # es)"
        using False by (simp add: Some exec_due_def Let_def split_beta)
      ultimately show ?thesis
        by blast
    qed
  qed
qed

definition tick_ok :: "loop_env \<Rightarrow> loop_state \<Rightarrow> bool" where
  "tick_ok env s \<longleftrightarrow> state_ok env s \<and> glNew (snd s) = [] \<and> is_heap (fst s)"

lemma flush_heap: "is_heap q \<Longrightarrow> is_heap (fst (flush q gl))"
  using heap_queue.schedule_all [of q "glNew gl"] by (simp add: flush_def)

lemma tick_ok_step: "loop_step env s s' \<Longrightarrow> tick_ok env s \<Longrightarrow> tick_ok env s'"
proof -
  assume step: "loop_step env s s'" and s: "tick_ok env s"
  from step s have "is_heap (fst s')"
    by (induction rule: loop_step.induct) (auto simp: tick_ok_def intro!: flush_heap heap_queue.pop_invar)
  then show ?thesis
    using state_step [OF step] nothing_new [OF step] s by (simp add: tick_ok_def)
qed

lemma tick_ok_steps: "(loop_step env)\<^sup>*\<^sup>* s s' \<Longrightarrow> tick_ok env s \<Longrightarrow> tick_ok env s'"
  by (induction rule: rtranclp_induct) (auto intro: tick_ok_step)

lemma tick_ok_commands:
  "tick_ok env s \<Longrightarrow> tick_ok env (fold (\<lambda>c (q, gl). flush q (processCommand env now c gl)) cmds s)"
proof (induction cmds arbitrary: s)
  case (Cons c cmds)
  have "tick_ok env (flush (fst s) (processCommand env now c (snd s)))"
    using tick_ok_step [OF command, of env "fst s" "snd s" now c] Cons.prems by simp
  then show ?case
    using Cons.IH by (simp add: split_beta)
qed simp

section \<open>Properties\<close>



end
