(* ===== verification/KillReward.thy ===== *)
theory KillReward
  imports LoopSteps
begin

text \<open>What the attackers of an NPC get when it dies (\<open>awardExpForNPCKill\<close> in \<open>gameloop/experience.go\<close>).\<close>

definition damage_by :: "int \<Rightarrow> (int \<times> int) list \<Rightarrow> int" where
  "damage_by i hits = sum_list (map snd (filter (\<lambda>h. fst h = i) hits))"

definition hate_after :: "(int \<times> int) list \<Rightarrow> hate_list" where
  "hate_after hits = fold (\<lambda>(i, d). AddHate i d) hits []"

definition char_of :: "int \<Rightarrow> game_loop \<Rightarrow> Character option" where
  "char_of i gl = map_option lpCharacter (GetPlayer i gl)"

text \<open>The list of hate after a series of hits.\<close>

lemma sum_update:
  "distinct (map fst m) \<Longrightarrow> sum_list (map snd (AList.update i (v :: int) m)) =
     sum_list (map snd m) - (case map_of m i of None \<Rightarrow> 0 | Some x \<Rightarrow> x) + v"
proof (induction m)
  case (Cons x m)
  then show ?case
    by (cases "map_of m i"; cases x) (auto simp: map_of_eq_None_iff dest: map_of_SomeD split: option.split)
qed simp

lemma hate_fold:
  "distinct (map fst hl) \<Longrightarrow>
     distinct (map fst (fold (\<lambda>(i, d). AddHate i d) hits hl))
     \<and> fst ` set (fold (\<lambda>(i, d). AddHate i d) hits hl) = fst ` set hl \<union> fst ` set hits
     \<and> sum_list (map snd (fold (\<lambda>(i, d). AddHate i d) hits hl)) = sum_list (map snd hl) + sum_list (map snd hits)
     \<and> (case map_of (fold (\<lambda>(i, d). AddHate i d) hits hl) i of None \<Rightarrow> 0 | Some x \<Rightarrow> x) =
         (case map_of hl i of None \<Rightarrow> 0 | Some x \<Rightarrow> x) + damage_by i hits"
proof (induction hits arbitrary: hl)
  case (Cons h hits)
  obtain j d where h: "h = (j, d)"
    by (cases h)
  have "distinct (map fst (AddHate j d hl))"
    using Cons.prems by (simp add: AddHate_def distinct_update)
  moreover have "fst ` set (AddHate j d hl) = insert j (fst ` set hl)"
    by (simp add: AddHate_def dom_update)
  moreover have "sum_list (map snd (AddHate j d hl)) = sum_list (map snd hl) + d"
    using sum_update [OF Cons.prems, of j] by (simp add: AddHate_def)
  ultimately show ?case
    using Cons.IH [of "AddHate j d hl"]
    by (auto simp: h damage_by_def AddHate_def update_conv' split: option.split)
qed (simp add: damage_by_def)

lemma hate_after_facts:
  "distinct (map fst (hate_after hits))" "fst ` set (hate_after hits) = fst ` set hits"
  "sum_list (map snd (hate_after hits)) = sum_list (map snd hits)"
  "(i, h) \<in> set (hate_after hits) \<Longrightarrow> h = damage_by i hits"
  using hate_fold [of "[]" hits i] by (auto simp: hate_after_def)

text \<open>One attacker.\<close>

lemma char_of_ops [simp]:
  "char_of i (send r p gl) = char_of i gl" "char_of i (call c gl) = char_of i gl" "char_of i (schedule t e gl) = char_of i gl"
  "char_of i (broadcastToNearby pos p gl) = char_of i gl" "char_of i (clearIntention j gl) = char_of i gl"
  "char_of i (gl\<lparr>combatState := cs\<rparr>) = char_of i gl" "char_of i (gl\<lparr>npcCombatState := ns\<rparr>) = char_of i gl"
  "char_of i (upd_npc k fn gl) = char_of i gl" "char_of i (upd_player j stop_moving gl) = char_of i gl"
  "char_of i (sendExpRewardNotification j ee ss lu gl) = char_of i gl"
  by (auto simp: char_of_def GetPlayer_def send_def call_def schedule_def broadcastToNearby_def clearIntention_def setIntention_def
      upd_npc_def upd_player_def stop_moving_def sendExpRewardNotification_def Let_def split: option.split)

lemma char_of_upd: "j \<noteq> i \<Longrightarrow> char_of j (upd_player i f gl) = char_of j gl" "j \<noteq> i \<Longrightarrow> char_of j (upd_char i g gl) = char_of j gl"
  by (simp_all add: char_of_def upd_char_def)

lemma award_other: "j \<noteq> fst a \<Longrightarrow> char_of j (award_one env l be bs t a gl) = char_of j gl"
  by (cases a) (simp add: award_one_def Let_def char_of_upd split: option.split)

text \<open>The character \<open>c\<close> after a reward of a share of \<open>xp\<close> and \<open>sp\<close>, which become integers here.\<close>

definition is_rewarded :: "Character \<Rightarrow> rat \<Rightarrow> rat \<Rightarrow> Character \<Rightarrow> bool" where
  "is_rewarded c xp sp c' \<longleftrightarrow>
     Experience c' = Experience c + trunc xp \<and> SP c' = SP c + trunc sp
     \<and> Level c' = max (Level c) (min MaxLevel (LevelForExp (Experience c')))
     \<and> (if Level c' = Level c then CurrentHP c' = CurrentHP c \<and> MaxHP c' = MaxHP c
        else CurrentHP c' = of_int (MaxHP c') \<and> 1 \<le> MaxHP c')
     \<and> Name c' = Name c \<and> Position c' = Position c \<and> PaperdollItems c' = PaperdollItems c"

lemma level_up_char:
  "\<exists>hp mp. lpCharacter (applyLevelUp old new p) = (lpCharacter p)\<lparr>MaxHP := hp, MaxMP := mp, CurrentHP := of_int hp, CurrentMP := of_int mp\<rparr> \<and> 1 \<le> hp"
proof -
  let ?q = "lpCharacter (applyLevelUp old new p)"
  have "?q = (lpCharacter p)\<lparr>MaxHP := MaxHP ?q, MaxMP := MaxMP ?q, CurrentHP := of_int (MaxHP ?q), CurrentMP := of_int (MaxMP ?q)\<rparr>
      \<and> 1 \<le> MaxHP ?q"
    by (simp add: applyLevelUp_def Let_def)
  then show ?thesis
    by blast
qed

lemma char_of_upd_self: "char_of i (upd_player i f gl) = map_option (lpCharacter \<circ> f) (GetPlayer i gl)"
  by (simp add: char_of_def option.map_comp)

lemma award_get:
  assumes p: "GetPlayer i gl = Some p"
    and e: "earned be (of_int h / of_int t) (LevelPenalty (Level (lpCharacter p)) l) (expRate env) = e"
    and s: "earned bs (of_int h / of_int t) (LevelPenalty (Level (lpCharacter p)) l) (spRate env) = s"
    and new: "min MaxLevel (LevelForExp (Experience (lpCharacter p) + e)) = new"
    and r: "(lpCharacter p)\<lparr>Experience := Experience (lpCharacter p) + e, SP := SP (lpCharacter p) + s\<rparr> = r"
  shows "char_of i (award_one env l be bs t (i, h) gl) =
    Some (if new > Level (lpCharacter p) then lpCharacter (applyLevelUp (Level (lpCharacter p)) new (p\<lparr>lpCharacter := r\<lparr>Level := new\<rparr>\<rparr>))
          else r)"
proof -
  have r': "map_option lpCharacter (GetPlayer i (upd_char i (\<lambda>c. c\<lparr>Experience := Experience c + e, SP := SP c + s\<rparr>) gl)) = Some r"
    "GetPlayer i (upd_char i (\<lambda>c. c\<lparr>Experience := Experience c + e, SP := SP c + s\<rparr>) gl) = Some (p\<lparr>lpCharacter := r\<rparr>)"
    by (simp_all add: p upd_char_def r)
  show ?thesis
    by (cases "MaxLevel < LevelForExp (Experience (lpCharacter p) + e)")
       (simp_all add: award_one_def p Let_def e s new [symmetric] r' min_def, simp_all add: char_of_def r')
qed

lemma rewarded_intro:
  assumes new: "min MaxLevel (LevelForExp (Experience c + trunc xp)) = new"
    and r: "r = c\<lparr>Experience := Experience c + trunc xp, SP := SP c + trunc sp\<rparr>"
  shows "is_rewarded c xp sp (if new > Level c then lpCharacter (applyLevelUp (Level c) new (p\<lparr>lpCharacter := r\<lparr>Level := new\<rparr>\<rparr>)) else r)"
proof -
  obtain hp mp where up: "lpCharacter (applyLevelUp (Level c) new (p\<lparr>lpCharacter := r\<lparr>Level := new\<rparr>\<rparr>)) =
      (r\<lparr>Level := new\<rparr>)\<lparr>MaxHP := hp, MaxMP := mp, CurrentHP := of_int hp, CurrentMP := of_int mp\<rparr>" "1 \<le> hp"
    using level_up_char [of "Level c" new "p\<lparr>lpCharacter := r\<lparr>Level := new\<rparr>\<rparr>"] by auto
  show ?thesis
    unfolding up(1) using up(2) by (auto simp: is_rewarded_def r new [symmetric])
qed

lemma award_self:
  assumes p: "GetPlayer i gl = Some p" and pos: "0 \<le> be" "0 \<le> bs" "0 \<le> h" "0 \<le> t" "0 \<le> expRate env" "0 \<le> spRate env"
  shows "\<exists>c'. char_of i (award_one env l be bs t (i, h) gl) = Some c'
    \<and> is_rewarded (lpCharacter p) (of_int be * (of_int h / of_int t) * LevelPenalty (Level (lpCharacter p)) l * expRate env)
        (of_int bs * (of_int h / of_int t) * LevelPenalty (Level (lpCharacter p)) l * spRate env) c'"
proof -
  let ?pen = "LevelPenalty (Level (lpCharacter p)) l"
  have nn: "0 \<le> of_int be * (of_int h / of_int t) * ?pen * expRate env" "0 \<le> of_int bs * (of_int h / of_int t) * ?pen * spRate env"
    using pos less_imp_le [OF LevelPenalty_range(1)] by simp_all
  have e: "earned be (of_int h / of_int t) ?pen (expRate env) = trunc (of_int be * (of_int h / of_int t) * ?pen * expRate env)"
    "earned bs (of_int h / of_int t) ?pen (spRate env) = trunc (of_int bs * (of_int h / of_int t) * ?pen * spRate env)"
    using trunc_nonneg [OF nn(1)] trunc_nonneg [OF nn(2)] by (simp_all add: earned_def Let_def not_less)
  show ?thesis
    using award_get [OF p e refl refl] rewarded_intro [OF refl refl] by blast
qed

text \<open>All attackers, one after the other.\<close>

lemma award_all:
  assumes "distinct (map fst hl)" and "\<And>i h. (i, h) \<in> set hl \<Longrightarrow> 0 \<le> h"
    and pos: "0 \<le> be" "0 \<le> bs" "0 \<le> t" "0 \<le> expRate env" "0 \<le> spRate env"
  shows "(\<forall>i. i \<notin> fst ` set hl \<longrightarrow> char_of i (fold (award_one env l be bs t) hl gl) = char_of i gl)
    \<and> (\<forall>i h c. (i, h) \<in> set hl \<longrightarrow> char_of i gl = Some c \<longrightarrow>
        (\<exists>c'. char_of i (fold (award_one env l be bs t) hl gl) = Some c'
          \<and> is_rewarded c (of_int be * (of_int h / of_int t) * LevelPenalty (Level c) l * expRate env)
              (of_int bs * (of_int h / of_int t) * LevelPenalty (Level c) l * spRate env) c'))"
  using assms(1,2)
proof (induction hl arbitrary: gl)
  case (Cons a hl)
  obtain j d where a: "a = (j, d)"
    by (cases a)
  let ?g = "award_one env l be bs t a gl"
  have IH: "(\<forall>i. i \<notin> fst ` set hl \<longrightarrow> char_of i (fold (award_one env l be bs t) hl ?g) = char_of i ?g)
    \<and> (\<forall>i h c. (i, h) \<in> set hl \<longrightarrow> char_of i ?g = Some c \<longrightarrow>
        (\<exists>c'. char_of i (fold (award_one env l be bs t) hl ?g) = Some c'
          \<and> is_rewarded c (of_int be * (of_int h / of_int t) * LevelPenalty (Level c) l * expRate env)
              (of_int bs * (of_int h / of_int t) * LevelPenalty (Level c) l * spRate env) c'))"
    using Cons.prems by (intro Cons.IH) auto
  have other: "char_of i ?g = char_of i gl" if "i \<noteq> j" for i
    using that by (simp add: award_other a)
  have j: "j \<notin> fst ` set hl"
    using Cons.prems(1) by (simp add: a)
  show ?case
  proof (intro conjI allI impI)
    fix i assume "i \<notin> fst ` set (a # hl)"
    then show "char_of i (fold (award_one env l be bs t) (a # hl) gl) = char_of i gl"
      using IH other [of i] by (auto simp: a)
  next
    fix i h c assume ih: "(i, h) \<in> set (a # hl)" and c: "char_of i gl = Some c"
    show "\<exists>c'. char_of i (fold (award_one env l be bs t) (a # hl) gl) = Some c'
          \<and> is_rewarded c (of_int be * (of_int h / of_int t) * LevelPenalty (Level c) l * expRate env)
              (of_int bs * (of_int h / of_int t) * LevelPenalty (Level c) l * spRate env) c'"
    proof (cases "i = j")
      case True
      then have "h = d"
        using ih j by (force simp: a)
      moreover obtain p where p: "GetPlayer i gl = Some p" "lpCharacter p = c"
        using c by (auto simp: char_of_def)
      ultimately show ?thesis
        using award_self [OF p(1) pos(1,2) Cons.prems(2) [OF ih] pos(3,4,5), of l] IH j True p(2) by (auto simp: a)
    next
      case False
      then have "(i, h) \<in> set hl" "char_of i ?g = Some c"
        using ih other c by (auto simp: a)
      then show ?thesis
        using IH by simp
    qed
  qed
qed simp

text \<open>What happens before the rewards does not touch the characters.\<close>

lemma char_of_stop_attacker [simp]: "char_of i (stop_attacker_on now k j gl) = char_of i gl"
  by (simp add: stop_attacker_on_def Let_def split: option.split)

lemma char_of_stopAll [simp]: "char_of i (stopAllAttackersOnTarget now k gl) = char_of i gl"
proof -
  have "char_of i (fold (stop_attacker_on now k) js gl) = char_of i gl" for js gl
    by (induction js arbitrary: gl) simp_all
  then show ?thesis
    by (simp add: stopAllAttackersOnTarget_def)
qed

lemma char_of_stopNPC [simp]: "char_of i (stopNPCAttack k gl) = char_of i gl"
  by (simp add: stopNPCAttack_def Let_def split: option.split)

lemma hate_stop [simp]:
  "npcHateLists (stopNPCAttack k gl) = npcHateLists gl" "npcHateLists (stopAllAttackersOnTarget now k gl) = npcHateLists gl"
proof -
  have "npcHateLists (stop_attacker_on now k j gl) = npcHateLists gl" for j gl
    by (simp add: stop_attacker_on_def Let_def clearIntention_def setIntention_def send_def broadcastToNearby_def schedule_def
        split: option.split)
  then have "npcHateLists (fold (stop_attacker_on now k) js gl) = npcHateLists gl" for js gl
    by (induction js arbitrary: gl) simp_all
  then show "npcHateLists (stopAllAttackersOnTarget now k gl) = npcHateLists gl"
    by (simp add: stopAllAttackersOnTarget_def)
  show "npcHateLists (stopNPCAttack k gl) = npcHateLists gl"
    by (simp add: stopNPCAttack_def Let_def broadcastToNearby_def send_def split: option.split)
qed

lemma sum_damage: "finite A \<Longrightarrow> fst ` set hits \<subseteq> A \<Longrightarrow> (\<Sum>i \<in> A. damage_by i hits) = sum_list (map snd hits)"
proof (induction hits)
  case (Cons h hits)
  have "damage_by i (h # hits) = (if i = fst h then snd h else 0) + damage_by i hits" for i
    by (auto simp: damage_by_def)
  with Cons show ?case
    by (simp add: sum.distrib)
qed (simp add: damage_by_def)

lemma damage_by_nonneg: "\<forall>(i, d) \<in> set hits. 0 \<le> d \<Longrightarrow> 0 \<le> damage_by i hits"
  unfolding damage_by_def by (rule sum_list_nonneg) fastforce

lemma award_hits:
  assumes hate: "map_of (npcHateLists gl) (niObjectID npc) = Some (hate_after hits)" and nn: "\<forall>(i, d) \<in> set hits. 0 \<le> d"
    and pos: "0 \<le> ntRewardExp (niTemplate npc)" "0 \<le> ntRewardSp (niTemplate npc)" "0 \<le> expRate env" "0 \<le> spRate env"
    and reward: "0 < ntRewardExp (niTemplate npc) + ntRewardSp (niTemplate npc)" and ne: "hits \<noteq> []"
  shows "(\<forall>i. i \<notin> fst ` set hits \<longrightarrow> char_of i (awardExpForNPCKill env npc gl) = char_of i gl)
    \<and> (\<forall>i c. i \<in> fst ` set hits \<longrightarrow> char_of i gl = Some c \<longrightarrow>
        (\<exists>c'. char_of i (awardExpForNPCKill env npc gl) = Some c'
          \<and> is_rewarded c
              (of_int (ntRewardExp (niTemplate npc)) * (of_int (damage_by i hits) / of_int (sum_list (map snd hits)))
                 * LevelPenalty (Level c) (ntLevel (niTemplate npc)) * expRate env)
              (of_int (ntRewardSp (niTemplate npc)) * (of_int (damage_by i hits) / of_int (sum_list (map snd hits)))
                 * LevelPenalty (Level c) (ntLevel (niTemplate npc)) * spRate env) c'))"
proof -
  let ?hl = "hate_after hits" and ?T = "niTemplate npc" and ?s = "sum_list (map snd hits)"
  define t where "t = (if ?s \<le> 0 then 1 else ?s)"
  note facts = hate_after_facts [where hits = hits]
  have dmg: "0 \<le> h" if "(i, h) \<in> set ?hl" for i h
    using facts(4) [OF that] damage_by_nonneg [OF nn] by simp
  have "?hl \<noteq> []"
    using facts(2) ne by auto
  then have run: "awardExpForNPCKill env npc gl = fold (award_one env (ntLevel ?T) (ntRewardExp ?T) (ntRewardSp ?T) t) ?hl gl"
    using hate reward by (auto simp: awardExpForNPCKill_def hate_IsEmpty_def Let_def facts(3) t_def)
  have s0: "0 \<le> ?s"
    using nn by (intro sum_list_nonneg) fastforce
  have share: "of_int (damage_by i hits) / of_int t = (of_int (damage_by i hits) / of_int ?s :: rat)"
    if i: "i \<in> fst ` set hits" for i
  proof (cases "?s \<le> 0")
    case True
    have "damage_by i hits \<le> (\<Sum>i \<in> fst ` set hits. damage_by i hits)"
      using i damage_by_nonneg [OF nn] by (intro member_le_sum) auto
    then have "damage_by i hits = 0"
      using True s0 sum_damage [of "fst ` set hits" hits] damage_by_nonneg [OF nn, of i] by simp
    then show ?thesis
      by simp
  qed (simp add: t_def)
  have t0: "0 \<le> t"
    using s0 by (simp add: t_def)
  let ?g = "fold (award_one env (ntLevel ?T) (ntRewardExp ?T) (ntRewardSp ?T) t) ?hl gl"
  have all: "(\<forall>i. i \<notin> fst ` set ?hl \<longrightarrow> char_of i ?g = char_of i gl)
    \<and> (\<forall>i h c. (i, h) \<in> set ?hl \<longrightarrow> char_of i gl = Some c \<longrightarrow> (\<exists>c'. char_of i ?g = Some c'
       \<and> is_rewarded c (of_int (ntRewardExp ?T) * (of_int h / of_int t) * LevelPenalty (Level c) (ntLevel ?T) * expRate env)
           (of_int (ntRewardSp ?T) * (of_int h / of_int t) * LevelPenalty (Level c) (ntLevel ?T) * spRate env) c'))"
    by (rule award_all [OF facts(1) _ pos(1,2) t0 pos(3,4)]) (rule dmg)
  show ?thesis
    unfolding run
  proof (intro conjI allI impI)
    fix i assume "i \<notin> fst ` set hits"
    then show "char_of i ?g = char_of i gl"
      using all facts(2) by simp
  next
    fix i c assume i: "i \<in> fst ` set hits" and c: "char_of i gl = Some c"
    then obtain h where h: "(i, h) \<in> set ?hl"
      using facts(2) by force
    then have "h = damage_by i hits"
      by (rule facts(4))
    moreover obtain c' where "char_of i ?g = Some c'"
        "is_rewarded c (of_int (ntRewardExp ?T) * (of_int h / of_int t) * LevelPenalty (Level c) (ntLevel ?T) * expRate env)
           (of_int (ntRewardSp ?T) * (of_int h / of_int t) * LevelPenalty (Level c) (ntLevel ?T) * spRate env) c'"
      using all h c by blast
    ultimately show "\<exists>c'. char_of i ?g = Some c'
          \<and> is_rewarded c (of_int (ntRewardExp ?T) * (of_int (damage_by i hits) / of_int ?s)
                 * LevelPenalty (Level c) (ntLevel ?T) * expRate env)
              (of_int (ntRewardSp ?T) * (of_int (damage_by i hits) / of_int ?s)
                 * LevelPenalty (Level c) (ntLevel ?T) * spRate env) c'"
      using share [OF i] by (intro exI conjI) simp_all
  qed
qed

lemma death_award:
  assumes "GetNPC k gl = Some npc"
  shows "\<exists>g. (\<forall>i. char_of i g = char_of i gl) \<and> npcHateLists g = npcHateLists gl
    \<and> (\<forall>i. char_of i (handleNPCDeath env now k gl) = char_of i (awardExpForNPCKill env npc g))"
proof -
  let ?a = "upd_npc k (\<lambda>n. n\<lparr>niIsDead := True, niCurrentHP := 0\<rparr>) gl"
  let ?b = "broadcastToNearby (niPosition npc) (Die k) ?a"
  let ?g = "stopNPCAttack k (stopAllAttackersOnTarget now k ?b)"
  have "npcHateLists ?b = npcHateLists gl"
    by (simp add: broadcastToNearby_def send_def upd_npc_def split: option.split)
  moreover have "char_of i (handleNPCDeath env now k gl) = char_of i (awardExpForNPCKill env npc ?g)" for i
    by (simp add: handleNPCDeath_def Let_def assms)
  ultimately show ?thesis
    by (intro exI [of _ ?g]) simp
qed

section \<open>Properties\<close>


definition sample_kill :: game_loop where
  "sample_kill = sample_world\<lparr>glPlayers := [(7, fresh_loop_player ((sample_fighter 7 ''bob'')\<lparr>CurrentHP := 0\<rparr>))],
     npcHateLists := [(1000001, [(7, 30), (8, 20)])]\<rparr>"

lemma sample_kill_facts:
  "GetNPC 1000001 sample_kill = Some sample_npc" "char_of 7 sample_kill = Some ((sample_fighter 7 ''bob'')\<lparr>CurrentHP := 0\<rparr>)"
  "char_of 8 sample_kill = None"
  "map_of (npcHateLists sample_kill) 1000001 = Some (fold (\<lambda>(i, d). AddHate i d) [(7, 30), (8, 20)] [])"
  by (simp_all add: sample_kill_def sample_world_def RegisterWorldSpawns_def NewGameLoop_def GetNPC_def char_of_def GetPlayer_def
      fresh_loop_player_def AddHate_def)

lemma level_78: "LevelForExp 78 = 2"
  by code_simp


end
