(* ===== verification/LoopStance.thy ===== *)
theory LoopStance
  imports LoopSteps
begin

text \<open>
  The combat stance of a player without an entry in \<open>combatState\<close>: a victim of another player or of an NPC, or a
  caster. Only \<open>CombatStanceTimeoutEvent\<close>, which looks the entry up, and death end the stance.
\<close>

definition broadcast_since :: "nat \<Rightarrow> loop_packet \<Rightarrow> game_loop \<Rightarrow> bool" where
  "broadcast_since n pkt gl \<longleftrightarrow> (\<exists>r. Send r pkt \<in> set (drop n (glOut gl)))"

definition in_stance :: "int \<Rightarrow> game_loop \<Rightarrow> bool" where
  "in_stance v gl \<longleftrightarrow> map_option lpInCombat (GetPlayer v gl) = Some True \<and> map_of (combatState gl) v = None"

definition stays :: "loop_env \<Rightarrow> int \<Rightarrow> nat \<Rightarrow> game_loop \<Rightarrow> bool" where
  "stays env v n gl \<longleftrightarrow> env_ok env \<and> n \<le> length (glOut gl) \<and> (broadcast_since n (Die v) gl \<or> in_stance v gl)"

lemma stance_fields [simp]:
  "in_stance v (gl\<lparr>glOut := a\<rparr>) = in_stance v gl" "in_stance v (gl\<lparr>glDraws := b\<rparr>) = in_stance v gl"
  "in_stance v (gl\<lparr>aiState := c\<rparr>) = in_stance v gl" "in_stance v (gl\<lparr>interactPending := d\<rparr>) = in_stance v gl"
  "in_stance v (gl\<lparr>castPending := e\<rparr>) = in_stance v gl" "in_stance v (gl\<lparr>skillReuse := f\<rparr>) = in_stance v gl"
  "in_stance v (gl\<lparr>castSeq := g\<rparr>) = in_stance v gl" "in_stance v (gl\<lparr>glShots := h\<rparr>) = in_stance v gl"
  "in_stance v (gl\<lparr>npcCombatState := k\<rparr>) = in_stance v gl" "in_stance v (gl\<lparr>npcHateLists := l\<rparr>) = in_stance v gl"
  "in_stance v (gl\<lparr>glNew := m\<rparr>) = in_stance v gl" "in_stance v (gl\<lparr>glNpcs := n\<rparr>) = in_stance v gl"
  "in_stance v (upd_npc i fn gl) = in_stance v gl"
  by (simp_all add: in_stance_def GetPlayer_def upd_npc_def split: option.split)

lemma stance_combat: "i \<noteq> v \<Longrightarrow> in_stance v (gl\<lparr>combatState := AList.update i x (combatState gl)\<rparr>) = in_stance v gl"
  by (simp add: in_stance_def GetPlayer_def update_conv')

lemma stance_player: "(\<And>p. lpInCombat p \<Longrightarrow> lpInCombat (f p)) \<Longrightarrow> in_stance v gl \<Longrightarrow> in_stance v (upd_player i f gl)"
  by (auto simp: in_stance_def)

lemma broadcast_fields [simp]:
  "broadcast_since n pkt (gl\<lparr>glDraws := b\<rparr>) = broadcast_since n pkt gl" "broadcast_since n pkt (gl\<lparr>aiState := c\<rparr>) = broadcast_since n pkt gl"
  "broadcast_since n pkt (gl\<lparr>interactPending := d\<rparr>) = broadcast_since n pkt gl" "broadcast_since n pkt (gl\<lparr>castPending := e\<rparr>) = broadcast_since n pkt gl"
  "broadcast_since n pkt (gl\<lparr>skillReuse := f\<rparr>) = broadcast_since n pkt gl" "broadcast_since n pkt (gl\<lparr>castSeq := g\<rparr>) = broadcast_since n pkt gl"
  "broadcast_since n pkt (gl\<lparr>glShots := h\<rparr>) = broadcast_since n pkt gl" "broadcast_since n pkt (gl\<lparr>npcCombatState := k\<rparr>) = broadcast_since n pkt gl"
  "broadcast_since n pkt (gl\<lparr>npcHateLists := l\<rparr>) = broadcast_since n pkt gl" "broadcast_since n pkt (gl\<lparr>glNew := m\<rparr>) = broadcast_since n pkt gl"
  "broadcast_since n pkt (gl\<lparr>combatState := cs\<rparr>) = broadcast_since n pkt gl" "broadcast_since n pkt (upd_player i ff gl) = broadcast_since n pkt gl"
  "broadcast_since n pkt (upd_npc i fn gl) = broadcast_since n pkt gl"
  by (simp_all add: broadcast_since_def upd_player_def upd_npc_def split: option.split)

lemma stays_out: "stays env v n gl \<Longrightarrow> stays env v n (gl\<lparr>glOut := glOut gl @ x\<rparr>)"
  by (auto simp: stays_def broadcast_since_def)

lemma stays_combat:
  "stays env v n gl \<Longrightarrow> in_stance v gl \<longrightarrow> i \<noteq> v \<Longrightarrow> stays env v n (gl\<lparr>combatState := AList.update i x (combatState gl)\<rparr>)"
  by (auto simp: stays_def stance_combat)

lemma stays_player: "stays env v n gl \<Longrightarrow> (\<And>p. lpInCombat p \<Longrightarrow> lpInCombat (f p)) \<Longrightarrow> stays env v n (upd_player i f gl)"
  using stance_player [of f v gl i] by (auto simp: stays_def)

lemma stays_buffs: "stays env v n gl \<Longrightarrow> stays env v n (snd (with_buffs f gl))"
proof -
  have "map_option lpInCombat (GetPlayer v (snd (with_buffs f gl))) = map_option lpInCombat (GetPlayer v gl)"
    by (cases "GetPlayer v gl") (simp_all add: GetPlayer_with_buffs put_buffs_def split: option.split)
  moreover have "combatState (snd (with_buffs f gl)) = combatState gl" "glOut (snd (with_buffs f gl)) = glOut gl"
    by (simp_all add: with_buffs_def Let_def)
  ultimately show "stays env v n gl \<Longrightarrow> ?thesis"
    by (simp add: stays_def in_stance_def broadcast_since_def)
qed

lemma stays_fields [simp]:
  "stays env v n (gl\<lparr>glDraws := b\<rparr>) = stays env v n gl" "stays env v n (gl\<lparr>aiState := c\<rparr>) = stays env v n gl"
  "stays env v n (gl\<lparr>interactPending := d\<rparr>) = stays env v n gl" "stays env v n (gl\<lparr>castPending := e\<rparr>) = stays env v n gl"
  "stays env v n (gl\<lparr>skillReuse := f\<rparr>) = stays env v n gl" "stays env v n (gl\<lparr>castSeq := g\<rparr>) = stays env v n gl"
  "stays env v n (gl\<lparr>glShots := h\<rparr>) = stays env v n gl" "stays env v n (gl\<lparr>npcCombatState := k\<rparr>) = stays env v n gl"
  "stays env v n (gl\<lparr>npcHateLists := l\<rparr>) = stays env v n gl" "stays env v n (gl\<lparr>glNew := m\<rparr>) = stays env v n gl"
  "stays env v n (upd_npc i fn gl) = stays env v n gl"
proof -
  show "stays env v n (upd_npc i fn gl) = stays env v n gl"
    by (simp add: stays_def)
qed (simp_all add: stays_def)

interpretation stancef: loop_frame "stays env v n" now "\<lambda>t e. True" for env v n now
proof unfold_locales
  fix gl i f assume gl: "stays env v n gl"
  show "stays env v n (upd_player i f gl)" if "keeps f"
    using that by (intro stays_player [OF gl]) (simp add: keeps_def)
  show "stays env v n (SetPlayerCombatState i True gl)"
    by (simp add: SetPlayerCombatState_def stays_player [OF gl])
  show "stays env v n (gl\<lparr>combatState := AList.update i x (combatState gl)\<rparr>)" if "map_of (combatState gl) i = Some cs" for cs x
    using that by (intro stays_combat [OF gl]) (auto simp: in_stance_def)
  then show "stays env v n (gl\<lparr>combatState := AList.update i x (combatState gl)\<rparr>)" if "map_of (combatState gl) i = Some cs" for cs x
    using that by blast
qed (simp_all add: stays_out stays_buffs)

interpretation diedf: loop_frame "broadcast_since n pkt" now "\<lambda>t e. True" for n pkt now
proof unfold_locales
  fix gl x f assume gl: "broadcast_since n pkt gl"
  then show "broadcast_since n pkt (gl\<lparr>glOut := glOut gl @ x\<rparr>)"
    by (auto simp: broadcast_since_def)
  show "broadcast_since n pkt (snd (with_buffs f gl))"
    using gl by (simp add: broadcast_since_def with_buffs_def Let_def)
qed (simp_all add: SetPlayerCombatState_def)

lemma stays_death: "stays env v n gl \<Longrightarrow> stays env v n (handleNPCDeath env now k gl)"
  by (simp add: handleNPCDeath_def Let_def split: option.split)

lemma stays_player_death: "stays env v n gl \<Longrightarrow> stays env v n (handlePlayerDeath now i gl)"
proof (cases "GetPlayer i gl")
  case (Some p)
  assume gl: "stays env v n gl"
  let ?a = "broadcastToNearby (lpPosition p) (Die i) (upd_char i (\<lambda>c. c\<lparr>CurrentHP := 0\<rparr>) gl)"
  let ?b = "stopAttacker now i (stopAllNPCAttacksOnPlayer i ?a)"
  have a: "stays env v n ?a"
    using gl by (simp add: stancef.char_op)
  show ?thesis
  proof (cases "i = v")
    case False
    have "stays env v n ?b"
      using a by simp
    then have "stays env v n (SetPlayerCombatState i False ?b)"
      using False by (auto simp: stays_def SetPlayerCombatState_def in_stance_def)
    then show ?thesis
      by (simp add: handlePlayerDeath_def Some Let_def)
  next
    case True
    have "broadcast_since n (Die v) ?a"
      using gl True by (auto simp: stays_def broadcast_since_def broadcastToNearby_def send_def upd_char_def)
    then have "broadcast_since n (Die v) (SetPlayerCombatState i False ?b)"
      by (simp add: SetPlayerCombatState_def)
    moreover have "stays env v n ?b"
      using a by simp
    ultimately show ?thesis
      by (simp add: handlePlayerDeath_def Some Let_def stays_def SetPlayerCombatState_def)
  qed
qed (simp add: handlePlayerDeath_def)

lemma stays_timeout: "stays env v n gl \<Longrightarrow> stays env v n (exec_StanceTimeout now i gl)"
proof (cases "map_of (combatState gl) i")
  case (Some cs)
  assume gl: "stays env v n gl"
  let ?a = "SetPlayerCombatState i False gl"
  have i: "in_stance v gl \<longrightarrow> i \<noteq> v"
    using Some by (auto simp: in_stance_def)
  then have "stays env v n ?a"
    using gl by (auto simp: stays_def in_stance_def SetPlayerCombatState_def)
  then have "stays env v n (case GetPlayer i ?a of
      Some p \<Rightarrow> send (ToAccount (csAccountName cs)) (UserInfoPacket i) (broadcastToNearby (lpPosition p) (AutoAttackStop i) ?a)
    | None \<Rightarrow> send (ToAccount (csAccountName cs)) (AutoAttackStop i) ?a)" (is "stays env v n ?b")
    by (simp split: option.split)
  moreover have "map_of (combatState ?b) v = map_of (combatState gl) v"
    by (simp add: SetPlayerCombatState_def send_def broadcastToNearby_def split: option.split)
  ultimately have "stays env v n (?b\<lparr>combatState := AList.delete i (combatState ?b)\<rparr>)"
    using i by (cases "i = v") (auto simp: stays_def in_stance_def GetPlayer_def map_of_delete)
  then show ?thesis
    using gl by (simp add: exec_StanceTimeout_def Some Let_def)
qed (simp add: exec_StanceTimeout_def)

interpretation stance: loop_all "stays env v n" now "\<lambda>t e. True" env "\<lambda>i. i \<noteq> v" for env v n now
proof unfold_locales
  fix gl k l sk draw m npc d i cs
  assume gl: "stays env v n gl"
  show "0 \<le> skMpConsume2 sk" if "GetSkill env k l = Some sk"
    using gl that by (auto simp: stays_def env_ok_def)
  show "0 \<le> rng env draw"
    using gl by (auto simp: stays_def env_ok_def)
  show "stays env v n (gl\<lparr>combatState := AList.update i cs (combatState gl)\<rparr>)" if "i \<noteq> v"
    using that by (intro stays_combat [OF gl]) simp
qed (simp_all add: stays_death stays_player_death stays_timeout)

lemma stays_event:
  "stays env v n gl \<Longrightarrow> stays env v n (exec_Respawn env k gl)"
  "stays env v n gl \<Longrightarrow> stays env v n (exec_CorpseDecay k gl)"
proof -
  have same: "stays env v n g = stays env v n gl"
    if "glPlayers g = glPlayers gl" "combatState g = combatState gl" "glOut g = glOut gl" for g
    using that by (simp add: stays_def broadcast_since_def in_stance_def GetPlayer_def)
  assume gl: "stays env v n gl"
  show "stays env v n (exec_Respawn env k gl)"
  proof -
    have "glPlayers (exec_Respawn env k gl) = glPlayers gl" "combatState (exec_Respawn env k gl) = combatState gl"
      "glOut (exec_Respawn env k gl) = glOut gl"
      by (simp_all add: exec_Respawn_def NextNPCObjectID_def Let_def split: option.split)
    then show ?thesis
      using gl same by blast
  qed
  show "stays env v n (exec_CorpseDecay k gl)"
    using stays_out [OF gl] gl
    by (auto simp: exec_CorpseDecay_def Let_def broadcastToNearby_def send_def stays_def broadcast_since_def in_stance_def
        GetPlayer_def split: option.split)
qed

text \<open>The steps of the loop in which \<open>v\<close> neither asks to attack nor enters or leaves the world.\<close>

inductive quiet_step :: "loop_env \<Rightarrow> int \<Rightarrow> loop_state \<Rightarrow> loop_state \<Rightarrow> bool" for env v where
  q_command: "(\<And>target account force. cmd \<noteq> CmdAttackRequest v target account force) \<Longrightarrow>
    quiet_step env v (q, gl) (flush q (processCommand env now cmd gl))"
| q_event: "Peek q = Some e \<Longrightarrow> ExecuteAt e \<le> now \<Longrightarrow>
    quiet_step env v (q, gl) (flush (snd (PopEvent q)) (exec_event env now (Payload e) gl))"
| q_move: "quiet_step env v (q, gl) (q, advancePlayerMovement now gl)"
| q_regen: "quiet_step env v (q, gl) (q, regenPlayers gl)"
| q_sweep: "quiet_step env v (q, gl) (q, loop_serviceBuffs now gl)"
| q_autosave: "quiet_step env v (q, gl) (q, autosaveOnlinePlayers gl)"
| q_join: "char_ok c \<Longrightarrow> ID c \<noteq> v \<Longrightarrow>
    quiet_step env v (q, gl) (q, gl\<lparr>glPlayers := AList.update (ID c) (fresh_loop_player c) (glPlayers gl)\<rparr>)"
| q_leave: "i \<noteq> v \<Longrightarrow> quiet_step env v (q, gl) (q, gl\<lparr>glPlayers := AList.delete i (glPlayers gl)\<rparr>)"
| q_target: "quiet_step env v (q, gl) (q, SetPlayerTarget i t gl)"
| q_outfit: "quiet_step env v (q, gl) (q, upd_player i (\<lambda>p. p\<lparr>lpPosition := pos, lpHeading := h, lpKnownSkills := ks,
    lpPassiveMods := pm, lpEquipMods := em, lpStatMods := sm, lpIsMoving := m, lpMoveStartPos := a, lpMoveDestination := b,
    lpMoveStarted := t, lpIsRunning := r,
    lpCharacter := (lpCharacter p)\<lparr>Position := pos, PaperdollItems := worn, PaperdollObjectIDs := wornIDs\<rparr>\<rparr>) gl)"
| q_charge: "quiet_step env v (q, gl) (q, gl\<lparr>glShots := sh, glAutos := au\<rparr>)"

lemma quiet_loop_step: "quiet_step env v s s' \<Longrightarrow> loop_step env s s'"
  by (induction rule: quiet_step.induct) (auto intro: loop_step.intros)

lemma stays_step:
  assumes "quiet_step env v s s'"
  shows "\<forall>x \<in> set (fst s). harmless (Payload x) \<Longrightarrow> stays env v n (snd s) \<Longrightarrow> in_stance v (snd s) \<Longrightarrow> stays env v n (snd s')"
  using assms
proof (induction rule: quiet_step.induct)
  case (q_command cmd q gl now)
  then have "stays env v n (processCommand env now cmd gl)"
    by (intro stance.command_keeps) auto
  then show ?case
    by (simp add: flush_def)
next
  case (q_event q e now gl)
  have "stays env v n (exec_event env now (Payload e) gl)"
  proof (cases "plain (Payload e)")
    case True
    then show ?thesis
      using q_event by (intro stance.event_keeps) auto
  next
    case False
    then show ?thesis
      using q_event set_Pop [of q e] by (cases "Payload e") (auto simp: stays_event)
  qed
  then show ?case
    by (simp add: flush_def)
next
  case (q_join c q gl)
  then show ?case
    by (auto simp: stays_def in_stance_def GetPlayer_def update_conv' broadcast_since_def)
next
  case (q_leave i q gl)
  then show ?case
    by (auto simp: stays_def in_stance_def GetPlayer_def map_of_delete broadcast_since_def)
next
  case (q_sweep q gl now)
  then show ?case
    by (auto intro: stance.sweep_keeps)
next
  case (q_outfit q gl i)
  then show ?case
    by (auto intro: stays_player)
next
  case (q_charge q gl sh au)
  then show ?case
    by (auto simp: stays_def in_stance_def GetPlayer_def broadcast_since_def)
qed auto

text \<open>A quiet step in which \<open>v\<close> does not die.\<close>

definition passive_step :: "loop_env \<Rightarrow> int \<Rightarrow> loop_state \<Rightarrow> loop_state \<Rightarrow> bool" where
  "passive_step env v s s' \<longleftrightarrow> quiet_step env v s s' \<and> \<not> broadcast_since (length (glOut (snd s))) (Die v) (snd s')"

lemma passive_steps:
  "(passive_step env v)\<^sup>*\<^sup>* s s' \<Longrightarrow> state_ok env s \<Longrightarrow> in_stance v (snd s) \<Longrightarrow> state_ok env s' \<and> in_stance v (snd s')"
proof (induction rule: rtranclp_induct)
  case (step y z)
  then have y: "state_ok env y" "in_stance v (snd y)" and l: "quiet_step env v y z"
    and alive: "\<not> broadcast_since (length (glOut (snd y))) (Die v) (snd z)"
    by (simp_all add: passive_step_def)
  have "stays env v (length (glOut (snd y))) (snd z)"
    using y by (intro stays_step [OF l]) (auto simp: stays_def state_ok_def vital_def)
  then show ?case
    using alive state_step [OF quiet_loop_step [OF l] y(1)] by (simp add: stays_def)
qed simp

lemma hit_stance:
  assumes "GetPlayer v gl = Some p" and "map_of (combatState gl) v = None" and "of_int damage < CurrentHP (lpCharacter p)"
    and "0 \<le> damage"
  shows "in_stance v (dealDamageToPlayer now v attacker damage gl)"
proof -
  have enter: "map_option lpCharacter (GetPlayer v (enterCombatStance i g)) = map_option lpCharacter (GetPlayer v g)"
    "combatState (enterCombatStance i g) = combatState g" for i g
    by (simp_all add: enterCombatStance_def SetPlayerCombatState_def broadcastToNearby_def send_def option.map_comp comp_def
        split: option.split)
  let ?g = "enterCombatStance v (enterCombatStance attacker gl)"
  obtain p1 where p1: "GetPlayer v (enterCombatStance attacker gl) = Some p1" "lpCharacter p1 = lpCharacter p"
    using enter(1) [of attacker gl] assms(1) by auto
  have "\<exists>p2. GetPlayer v (enterCombatStance v g) = Some p2 \<and> lpInCombat p2 \<and> lpCharacter p2 = lpCharacter p1"
    if "GetPlayer v g = Some p1" for g
    using that by (simp add: enterCombatStance_def SetPlayerCombatState_def broadcastToNearby_def send_def)
  from this [OF p1(1)] obtain p2 where p2: "GetPlayer v ?g = Some p2" "lpInCombat p2" "lpCharacter p2 = lpCharacter p"
    using p1(2) by auto
  have cs: "map_of (combatState ?g) v = None"
    by (simp add: enter(2) assms(2))
  have "lower_hp (CurrentHP (lpCharacter p)) damage > 0"
    using assms(3) by (simp add: lower_hp_def)
  moreover have "\<not> CurrentHP (lpCharacter p) \<le> 0"
    using assms(3,4) by (metis dual_order.strict_trans2 not_le of_int_0_le_iff)
  ultimately show ?thesis
    using p2 cs
    by (simp add: dealDamageToPlayer_def assms(1) Let_def hurt_player_def is_dead_def upd_char_def send_def in_stance_def)
qed

section \<open>Properties\<close>

text \<open>
  C16: No way out of combat. A player in a reachable state who has attacked nobody is hit by another player and survives.
  From then on, through any commands, events, sweeps and any length of time, it
  stays in the combat stance as long as it neither attacks, nor dies, nor leaves the world: no timeout
  is ever scheduled for it. (Logout and restart are refused in combat.)
\<close>

theorem no_way_out_of_combat:
  assumes "env_ok env" and "loaded env gl0" and "(loop_step env)\<^sup>*\<^sup>* ([], gl0) (q, gl)"
    and v: "GetPlayer v gl = Some p" "map_of (combatState gl) v = None" "of_int damage < CurrentHP (lpCharacter p)" "0 \<le> damage"
    and run: "(passive_step env v)\<^sup>*\<^sup>* (q, dealDamageToPlayer now v attacker damage gl) s"
  shows "\<exists>p'. GetPlayer v (snd s) = Some p' \<and> lpInCombat p'"
proof -
  have "state_ok env (q, gl)"
    by (rule state_steps [OF assms(3) state_loaded [OF assms(1,2)]])
  then have "state_ok env (q, dealDamageToPlayer now v attacker damage gl)"
    using v(4) by (simp add: state_ok_def vit.damage_player)
  then have "in_stance v (snd s)"
    using passive_steps [OF run] hit_stance [OF v] by simp
  then show ?thesis
    by (auto simp: in_stance_def)
qed

definition sample_pvp :: game_loop where
  "sample_pvp = sample_world\<lparr>glPlayers := [(7, fresh_loop_player (sample_fighter 7 ''bob'')), (8, fresh_loop_player (sample_fighter 8 ''eve''))]\<rparr>"

lemma sample_pvp_steps: "(loop_step sample_env)\<^sup>*\<^sup>* ([], sample_world) ([], sample_pvp)"
proof -
  let ?g = "sample_world\<lparr>glPlayers := [(7, fresh_loop_player (sample_fighter 7 ''bob''))]\<rparr>"
  have "loop_step sample_env ([], sample_world) ([], ?g)"
    using join [OF sample_char_ok, of sample_env "[]" sample_world 7 "''bob''"]
    by (simp add: sample_fighter_def sample_world_def RegisterWorldSpawns_def NewGameLoop_def)
  moreover have "loop_step sample_env ([], ?g) ([], sample_pvp)"
    using join [OF sample_char_ok, of sample_env "[]" ?g 8 "''eve''"]
    by (simp add: sample_pvp_def sample_fighter_def)
  ultimately show ?thesis
    by simp
qed

text \<open>After one hit and one round of regeneration.\<close>

lemma no_way_out_of_combat_witness:
  "\<exists>p. GetPlayer 7 (regenPlayers (dealDamageToPlayer 0 7 8 10 sample_pvp)) = Some p \<and> lpInCombat p"
proof -
  let ?g = "dealDamageToPlayer 0 7 8 10 sample_pvp"
  have p: "GetPlayer 7 sample_pvp = Some (fresh_loop_player (sample_fighter 7 ''bob''))" "map_of (combatState sample_pvp) 7 = None"
    by (simp_all add: sample_pvp_def GetPlayer_def sample_world_def RegisterWorldSpawns_def NewGameLoop_def)
  have hp: "of_int 10 < CurrentHP (lpCharacter (fresh_loop_player (sample_fighter 7 ''bob'')))"
    by (simp add: fresh_loop_player_def sample_fighter_def)
  have dies: "broadcast_since n (Die i) (regen_one j g) = broadcast_since n (Die i) g" if "n \<le> length (glOut g)" for n i j g
    using that by (auto simp: regen_one_def Let_def broadcast_since_def send_def upd_char_def split: option.split)
  have len: "length (glOut g) \<le> length (glOut (regen_one j g))" for j g
    by (auto simp: regen_one_def Let_def send_def upd_char_def split: option.split)
  have "broadcast_since n (Die i) (fold regen_one js g) = broadcast_since n (Die i) g" if "n \<le> length (glOut g)" for n i js g
    using that by (induction js arbitrary: g) (simp_all add: dies order_trans [OF _ len])
  then have "passive_step sample_env 7 ([], ?g) ([], regenPlayers ?g)"
    by (auto simp: passive_step_def regenPlayers_def broadcast_since_def [of "length (glOut ?g)" _ ?g] intro!: q_regen [unfolded regenPlayers_def])
  then have steps: "(passive_step sample_env 7)\<^sup>*\<^sup>* ([], ?g) ([], regenPlayers ?g)"
    by blast
  show ?thesis
    using no_way_out_of_combat [OF sample_env_ok sample_loaded sample_pvp_steps p hp _ steps] by simp
qed

end
