(* ===== verification/LoopPace.thy ===== *)
theory LoopPace
  imports LoopSteps
begin

text \<open>
  The pace of attacks. \<open>NextAttackEvent\<close> swings and schedules itself again after the attack time; it runs as long as
  the attacker still fights that target, and nothing says which request it belongs to.
\<close>

text \<open>A player who can hit an NPC.\<close>

definition in_reach :: "int \<Rightarrow> int \<Rightarrow> game_loop \<Rightarrow> bool" where
  "in_reach i t gl \<longleftrightarrow> GetPlayer t gl = None \<and> (\<exists>npc p. GetNPC t gl = Some npc \<and> \<not> niIsDead npc \<and> IsAttackable npc
     \<and> GetPlayer i gl = Some p
     \<and> dist2 (lpPosition p) (niPosition npc) \<le> (attackReach defaultPhysicalAttackRange (player_collision p) (ntCollisionRadius (niTemplate npc)))\<^sup>2)"

definition fights :: "int \<Rightarrow> int \<Rightarrow> game_loop \<Rightarrow> bool" where
  "fights i t gl \<longleftrightarrow> (\<exists>cs. map_of (combatState gl) i = Some cs \<and> IsAutoAttacking cs \<and> TargetObjectID cs = t)"

definition is_swing :: "int \<Rightarrow> int \<Rightarrow> loop_output \<Rightarrow> bool" where
  "is_swing i t x = (case x of Send r (AttackPacket j u d f a b) \<Rightarrow> j = i \<and> u = t | _ \<Rightarrow> False)"

definition swings :: "int \<Rightarrow> int \<Rightarrow> game_loop \<Rightarrow> nat" where
  "swings i t gl = length (filter (is_swing i t) (glOut gl))"

definition queued :: "int \<Rightarrow> int \<Rightarrow> int \<Rightarrow> game_loop \<Rightarrow> nat" where
  "queued now i t gl = length (filter (\<lambda>e. e = \<lparr>ExecuteAt = now, Payload = NextAttackEvent i t\<rparr>) (glNew gl))"

definition ask_again :: "int \<Rightarrow> int \<Rightarrow> int \<Rightarrow> string \<Rightarrow> bool \<Rightarrow> loop_env \<Rightarrow> game_loop \<Rightarrow> game_loop" where
  "ask_again now i t account force env gl =
     processCommand env now (CmdAttackRequest i t account force) (processCommand env now (CmdCancelAttack i) gl)"

lemma resolve_npc:
  assumes "in_reach i t gl"
  shows "\<exists>tgt p npc. resolveCombatTarget t gl = Some tgt \<and> \<not> tgDead tgt \<and> tgPlayer tgt = None \<and> tgNpc tgt = Some npc \<and> IsAttackable npc
    \<and> tgObjectID tgt = t \<and> GetPlayer i gl = Some p \<and> dist2 (lpPosition p) (tgPos tgt) \<le> (meleeReachTo p tgt)\<^sup>2"
  using assms by (auto simp: in_reach_def resolveCombatTarget_def Let_def meleeReachTo_def)

lemma request_starts:
  assumes r: "in_reach i t gl" and "\<not> fights i t gl"
  shows "in_reach i t (handleAttackRequest now i t account force gl) \<and> fights i t (handleAttackRequest now i t account force gl)
    \<and> queued now i t (handleAttackRequest now i t account force gl) = Suc (queued now i t gl)"
proof -
  obtain tgt p npc where "resolveCombatTarget t gl = Some tgt" "\<not> tgDead tgt" "tgPlayer tgt = None" "tgNpc tgt = Some npc" "IsAttackable npc"
      "tgObjectID tgt = t" "GetPlayer i gl = Some p" "dist2 (lpPosition p) (tgPos tgt) \<le> (meleeReachTo p tgt)\<^sup>2"
    using resolve_npc [OF r] by blast
  then have "handleAttackRequest now i t account force gl =
     (let g = gl\<lparr>combatState := AList.update i
                       \<lparr>IsAutoAttacking = True, TargetObjectID = t, LastAttackTime = now, csAccountName = account\<rparr>
                       (combatState gl)\<rparr>
      in schedule now (NextAttackEvent i t) (setIntention i IntentionAttack t g))"
    using assms(2)
    by (auto simp: handleAttackRequest_def attack_begin_def fights_def Let_def power2_eq_square beginAttackSwing_def setIntention_def
        split: option.split)
  then show ?thesis
    using r by (simp add: Let_def in_reach_def fights_def queued_def schedule_def setIntention_def GetPlayer_def GetNPC_def)
qed

lemma cancel_stops:
  assumes "in_reach i t gl" and "fights i t gl"
  shows "in_reach i t (stopAttacker now i gl) \<and> \<not> fights i t (stopAttacker now i gl)
    \<and> queued now i t (stopAttacker now i gl) = queued now i t gl"
proof -
  obtain cs where "map_of (combatState gl) i = Some cs"
    using assms(2) by (auto simp: fights_def)
  then show ?thesis
    using assms(1)
    by (auto simp: stopAttacker_def Let_def in_reach_def fights_def queued_def schedule_def setIntention_def clearIntention_def
        GetPlayer_def GetNPC_def split: option.split)
qed

lemma ask_again_eq: "ask_again now i t account force env g = handleAttackRequest now i t account force (stopAttacker now i g)"
  by (simp add: ask_again_def)

lemma requests_pile_up:
  assumes "in_reach i t gl" and "\<not> fights i t gl"
  shows "let g = (ask_again now i t account force env ^^ n) (processCommand env now (CmdAttackRequest i t account force) gl)
    in in_reach i t g \<and> fights i t g \<and> queued now i t g = Suc n + queued now i t gl"
proof (induction n)
  case 0
  then show ?case
    using request_starts [OF assms] by simp
next
  case (Suc n)
  let ?g = "(ask_again now i t account force env ^^ n) (processCommand env now (CmdAttackRequest i t account force) gl)"
  have "in_reach i t ?g" "fights i t ?g" "queued now i t ?g = Suc n + queued now i t gl"
    using Suc by (simp_all add: Let_def)
  then show ?case
    using cancel_stops [of i t ?g now] request_starts [of i t "stopAttacker now i ?g" now account force]
      ask_again_eq [of now i t account force env ?g]
    by (simp add: Let_def)
qed

text \<open>The state of a fight with a number of swings seen so far.\<close>

definition calm :: "int \<Rightarrow> int \<Rightarrow> nat \<Rightarrow> game_loop \<Rightarrow> bool" where
  "calm i t k gl \<longleftrightarrow> in_reach i t gl \<and> fights i t gl \<and> swings i t gl = k"

lemma calm_ops:
  "calm i t k gl \<Longrightarrow> calm i t k (gl\<lparr>glDraws := n\<rparr>)" "calm i t k gl \<Longrightarrow> calm i t k (gl\<lparr>glShots := sh\<rparr>)"
  "calm i t k gl \<Longrightarrow> calm i t k (schedule tm e gl)"
  "calm i t k gl \<Longrightarrow> calm i t k (send r (SystemMessage m) gl)" "calm i t k gl \<Longrightarrow> calm i t k (send r (DamageMessage m x y d) gl)"
  "calm i t k gl \<Longrightarrow> calm i t (Suc k) (broadcastToNearby pos (AttackPacket i t d fl pa pb) gl)"
  by (simp_all add: calm_def in_reach_def fights_def swings_def schedule_def send_def broadcastToNearby_def is_swing_def GetPlayer_def GetNPC_def)

lemma calm_enter: "calm i t k gl \<Longrightarrow> calm i t k (enterCombatStance i gl)"
proof -
  assume gl: "calm i t k gl"
  then obtain p where p: "GetPlayer i gl = Some p"
    by (auto simp: calm_def in_reach_def)
  show ?thesis
    using gl p
    by (auto simp: enterCombatStance_def SetPlayerCombatState_def calm_def in_reach_def fights_def swings_def broadcastToNearby_def send_def
        is_swing_def player_collision_def)
qed

lemma calm_swung:
  "calm i t k gl \<Longrightarrow> calm i t k (case map_of (combatState gl) i of None \<Rightarrow> gl
     | Some cs \<Rightarrow> gl\<lparr>combatState := AList.update i (cs\<lparr>LastAttackTime := now\<rparr>) (combatState gl)\<rparr>)"
  by (auto simp: calm_def in_reach_def fights_def swings_def GetPlayer_def GetNPC_def split: option.split)

lemma let_calm: "calm i t k e \<Longrightarrow> (\<And>g. calm i t k g \<Longrightarrow> calm i t j (f g)) \<Longrightarrow> calm i t j (let g = e in f g)"
  by simp

lemma let_skip: "(\<And>x. calm i t j (f x)) \<Longrightarrow> calm i t j (let x = e in f x)"
  by simp

lemma let_roll_calm:
  "calm i t k gl \<Longrightarrow> (\<And>miss crit d g. calm i t k g \<Longrightarrow> calm i t j (f miss crit d g)) \<Longrightarrow>
    calm i t j (let (miss, crit, d, g) = roll_attack env a e pa pd cr gl in f miss crit d g)"
  using roll_shape [of env a e pa pd cr gl] calm_ops(1) by fastforce

lemma swing_calm:
  assumes "calm i (tgObjectID tgt) k gl"
  shows "calm i (tgObjectID tgt) (Suc k) (player_swing env now i p tgt gl)"
  unfolding player_swing_def
  apply (rule let_skip, rule let_skip, rule let_skip, rule let_skip, rule let_skip, rule let_skip)
  apply (rule let_roll_calm, rule assms)
  apply (rule let_calm [where k = k], simp add: calm_ops)
  apply (rule let_calm [where k = k], simp add: calm_ops Let_def)
  apply (rule let_calm [where k = k], simp add: calm_enter)
  apply (rule let_calm [where k = "Suc k"], simp add: calm_ops)
  apply (rule let_calm [where k = "Suc k"], simp add: calm_ops)
  apply (rule let_calm [where k = "Suc k"], simp add: calm_ops)
  apply (rule calm_swung, assumption)
  done

lemma swing_goes_on:
  assumes c: "calm i t k gl"
  shows "calm i t (Suc k) (exec_NextAttack env now i t gl)"
proof -
  obtain tgt p npc where tgt: "resolveCombatTarget t gl = Some tgt" "\<not> tgDead tgt" "tgPlayer tgt = None" "tgNpc tgt = Some npc"
      "IsAttackable npc" "tgObjectID tgt = t" and p: "GetPlayer i gl = Some p"
      and d: "dist2 (lpPosition p) (tgPos tgt) \<le> (meleeReachTo p tgt)\<^sup>2"
    using resolve_npc [of i t gl] c by (auto simp: calm_def)
  have "exec_NextAttack env now i t gl = player_swing env now i p tgt gl"
    using c tgt p d by (auto simp: calm_def exec_NextAttack_def fights_def Let_def power2_eq_square)
  then show ?thesis
    using swing_calm [of i tgt k gl] c tgt(6) by simp
qed

lemma swings_follow: "calm i t k gl \<Longrightarrow> calm i t (n + k) ((exec_NextAttack env now i t ^^ n) gl)"
  by (induction n) (simp_all add: swing_goes_on)

section \<open>Properties\<close>

text \<open>
  C17: The attack speed is not enforced. A player within reach of a living monster that, at one instant, asks to attack,
  and then cancels and asks again \<open>n\<close> times, has \<open>n + 1\<close> swings in the queue for that instant, and each
  of them is carried out when it is run, whatever the weapon: \<open>n + 1\<close> attacks where the attack time allows one.
\<close>

theorem attack_speed_not_enforced:
  fixes env :: loop_env and now :: int and account :: string and force :: bool and n :: nat
  assumes "in_reach i t gl" and "\<not> fights i t gl"
  defines "g \<equiv> (ask_again now i t account force env ^^ n) (processCommand env now (CmdAttackRequest i t account force) gl)"
  shows "queued now i t g = Suc n + queued now i t gl
    \<and> (\<forall>k \<le> Suc n. swings i t ((exec_event env now (NextAttackEvent i t) ^^ k) g) = k + swings i t g)"
proof -
  have "calm i t (swings i t g) g" and "queued now i t g = Suc n + queued now i t gl"
    using requests_pile_up [OF assms(1,2), where now = now and account = account and force = force and env = env and n = n]
    by (simp_all add: g_def calm_def Let_def)
  moreover have "exec_event env now (NextAttackEvent i t) = exec_NextAttack env now i t"
    by (rule ext) simp
  ultimately show ?thesis
    using swings_follow [of i t "swings i t g" g] by (simp add: calm_def)
qed

lemma attack_speed_not_enforced_witness:
  "queued 0 7 1000001 ((ask_again 0 7 1000001 ''bob'' False sample_env ^^ 9)
     (processCommand sample_env 0 (CmdAttackRequest 7 1000001 ''bob'' False)
       (sample_world\<lparr>glPlayers := [(7, fresh_loop_player (sample_fighter 7 ''bob''))]\<rparr>))) = 10"
proof -
  let ?g = "sample_world\<lparr>glPlayers := [(7, fresh_loop_player (sample_fighter 7 ''bob''))]\<rparr>"
  have "in_reach 7 1000001 ?g" "\<not> fights 7 1000001 ?g" "queued 0 7 1000001 ?g = 0"
    by (simp_all add: in_reach_def fights_def queued_def GetPlayer_def GetNPC_def sample_world_def RegisterWorldSpawns_def
        NewGameLoop_def sample_npc_def sample_template_def IsAttackable_def dist2_def fresh_loop_player_def sample_fighter_def origin_def)
  then show ?thesis
    using attack_speed_not_enforced [where i = 7 and t = 1000001 and gl = ?g and now = 0 and n = 9 and account = "''bob''" and force = False and env = sample_env]
    by simp
qed

end
