(* ===== verification/Movement.thy ===== *)
theory Movement
  imports GameSession Visibility L2Packet "HOL-Library.Multiset"
begin

text \<open>
  How players move on the ground: the three packets of \<open>packets/inclient\<close> (\<open>movebackwardtolocation.go\<close>,
  \<open>validateposition.go\<close>, \<open>cannotmoveanymore.go\<close>), \<open>gameserver/usecase/movement.go\<close> and
  \<open>movement_validation.go\<close>, and their handlers in \<open>handlers/client/movement.go\<close>. The state is the
  world registry, the sessions and connections, what was sent and what waits for the game loop. The
  fields of a player that only a movement uses are a map beside the registry. The estimated time of a
  movement, which is only logged, is left out. A coordinate comes from an \<open>int32\<close>, so a \<open>float64\<close>
  distance exceeds an integer limit exactly if the square of the one exceeds the square of the other.
\<close>

section \<open>The packets\<close>

record MoveBackwardToLocation =
  TargetX :: int
  TargetY :: int
  TargetZ :: int
  OriginX :: int
  OriginY :: int
  OriginZ :: int
  MoveMovement :: int

record ValidatePosition =
  vpX :: int
  vpY :: int
  vpZ :: int
  vpHeading :: int
  vpData :: int

record CannotMoveAnymore =
  cmX :: int
  cmY :: int
  cmZ :: int
  cmHeading :: int

text \<open>The \<open>ReadD\<close> of each field in turn, with the error of the first that fails.\<close>

fun read_ds :: "string list \<Rightarrow> reader \<Rightarrow> go_error + int list" where
  "read_ds [] r = Inr []"
| "read_ds (name # names) r =
     (case ReadD r of
        (Inl e, r) \<Rightarrow> Inl (''failed to read '' @ name @ '': '' @ e)
      | (Inr v, r) \<Rightarrow> (case read_ds names r of Inl e \<Rightarrow> Inl e | Inr vs \<Rightarrow> Inr (sint v # vs)))"

definition too_short :: "string \<Rightarrow> byte list \<Rightarrow> go_error" where
  "too_short packet data = packet @ '' packet too short: '' @ format_int (int (length data)) @ '' bytes''"

definition ParseMoveBackwardToLocation :: "byte list \<Rightarrow> go_error + MoveBackwardToLocation" where
  "ParseMoveBackwardToLocation data =
     (if length data < 24 then Inl (too_short ''MoveBackwardToLocation'' data)
      else case read_ds [''TargetX'', ''TargetY'', ''TargetZ'', ''OriginX'', ''OriginY'', ''OriginZ'', ''MoveMovement'']
             (NewReader data) of
             Inl e \<Rightarrow> Inl e
           | Inr v \<Rightarrow> Inr \<lparr>TargetX = v ! 0, TargetY = v ! 1, TargetZ = v ! 2, OriginX = v ! 3, OriginY = v ! 4,
               OriginZ = v ! 5, MoveMovement = v ! 6\<rparr>)"

definition ParseValidatePosition :: "byte list \<Rightarrow> go_error + ValidatePosition" where
  "ParseValidatePosition data =
     (if length data < 20 then Inl (too_short ''ValidatePosition'' data)
      else case read_ds [''X'', ''Y'', ''Z'', ''Heading'', ''Data''] (NewReader data) of
             Inl e \<Rightarrow> Inl e
           | Inr v \<Rightarrow> Inr \<lparr>vpX = v ! 0, vpY = v ! 1, vpZ = v ! 2, vpHeading = v ! 3, vpData = v ! 4\<rparr>)"

definition ParseCannotMoveAnymore :: "byte list \<Rightarrow> go_error + CannotMoveAnymore" where
  "ParseCannotMoveAnymore data =
     (if length data < 16 then Inl (too_short ''CannotMoveAnymore'' data @ '', expected at least 16'')
      else case read_ds [''X coordinate'', ''Y coordinate'', ''Z coordinate'', ''heading''] (NewReader data) of
             Inl e \<Rightarrow> Inl e
           | Inr v \<Rightarrow> Inr \<lparr>cmX = v ! 0, cmY = v ! 1, cmZ = v ! 2, cmHeading = v ! 3\<rparr>)"

definition MAP_MIN_X :: int where
  "MAP_MIN_X = -294912"

definition MAP_MAX_X :: int where
  "MAP_MAX_X = 229376"

definition MAP_MIN_Y :: int where
  "MAP_MIN_Y = -262144"

definition MAP_MAX_Y :: int where
  "MAP_MAX_Y = 294912"

definition MAP_MIN_Z :: int where
  "MAP_MIN_Z = -16384"

definition MAP_MAX_Z :: int where
  "MAP_MAX_Z = 16383"

text \<open>The loop over the named coordinates of one axis: the error names the first out of range.\<close>

definition coords_in :: "int \<Rightarrow> int \<Rightarrow> (string \<times> int) list \<Rightarrow> go_error + unit" where
  "coords_in lo hi coords =
     (case find (\<lambda>(_, v). v < lo \<or> v > hi) coords of
        None \<Rightarrow> Inr ()
      | Some (name, v) \<Rightarrow> Inl (''invalid '' @ name @ '' coordinate: '' @ format_int v @ '' (must be between ''
          @ format_int lo @ '' and '' @ format_int hi @ '')''))"

definition move_Validate :: "MoveBackwardToLocation \<Rightarrow> go_error + unit" where
  "move_Validate p =
     (case coords_in MAP_MIN_X MAP_MAX_X [(''TargetX'', TargetX p), (''OriginX'', OriginX p)] of
        Inl e \<Rightarrow> Inl e
      | Inr _ \<Rightarrow>
      (case coords_in MAP_MIN_Y MAP_MAX_Y [(''TargetY'', TargetY p), (''OriginY'', OriginY p)] of
        Inl e \<Rightarrow> Inl e
      | Inr _ \<Rightarrow>
      (case coords_in MAP_MIN_Z MAP_MAX_Z [(''TargetZ'', TargetZ p), (''OriginZ'', OriginZ p)] of
        Inl e \<Rightarrow> Inl e
      | Inr _ \<Rightarrow>
          if MoveMovement p < 0 \<or> MoveMovement p > 1
          then Inl (''invalid MoveMovement type: '' @ format_int (MoveMovement p) @ '' (must be 0 or 1)'')
          else Inr ())))"

definition position_Validate :: "ValidatePosition \<Rightarrow> go_error + unit" where
  "position_Validate p =
     (case coords_in MAP_MIN_X MAP_MAX_X [(''X'', vpX p)] of
        Inl e \<Rightarrow> Inl e
      | Inr _ \<Rightarrow>
      (case coords_in MAP_MIN_Y MAP_MAX_Y [(''Y'', vpY p)] of
        Inl e \<Rightarrow> Inl e
      | Inr _ \<Rightarrow>
      (case coords_in MAP_MIN_Z MAP_MAX_Z [(''Z'', vpZ p)] of
        Inl e \<Rightarrow> Inl e
      | Inr _ \<Rightarrow>
          if vpHeading p < 0 \<or> vpHeading p > 65535
          then Inl (''invalid heading: '' @ format_int (vpHeading p) @ '' (must be between 0 and 65535)'')
          else Inr ())))"

definition stop_Validate :: "CannotMoveAnymore \<Rightarrow> go_error + unit" where
  "stop_Validate p =
     (let bad = (\<lambda>axis v lo hi. Inl (axis @ '' coordinate '' @ format_int v @ '' outside valid range ['' @ format_int lo
            @ '', '' @ format_int hi @ '']''))
      in if cmX p < MAP_MIN_X \<or> cmX p > MAP_MAX_X then bad ''X'' (cmX p) MAP_MIN_X MAP_MAX_X
         else if cmY p < MAP_MIN_Y \<or> cmY p > MAP_MAX_Y then bad ''Y'' (cmY p) MAP_MIN_Y MAP_MAX_Y
         else if cmZ p < MAP_MIN_Z \<or> cmZ p > MAP_MAX_Z then bad ''Z'' (cmZ p) MAP_MIN_Z MAP_MAX_Z
         else Inr ())"

text \<open>What the handlers send. The bytes of the two packets of \<open>outclient\<close> they build themselves:\<close>

datatype move_packet =
    MoveToLocation int Position Position
  | ValidatePositionServer int Position int
  | NpcInfo NpcInstance
  | NpcDelete int

definition ints :: "int list \<Rightarrow> field list" where
  "ints is = map (\<lambda>i. FD (word_of_int i)) is"

definition MoveToLocation_Build :: "int \<Rightarrow> Position \<Rightarrow> Position \<Rightarrow> byte list" where
  "MoveToLocation_Build objID dst cur =
     fold write_field (FC 0x2f # ints [objID, X dst, Y dst, Z dst, X cur, Y cur, Z cur]) NewWriter"

definition ValidatePositionServer_Build :: "int \<Rightarrow> Position \<Rightarrow> int \<Rightarrow> byte list" where
  "ValidatePositionServer_Build objID pos heading =
     fold write_field (FC 0x61 # ints [objID, X pos, Y pos, Z pos, heading]) NewWriter"

section \<open>The validator\<close>

definition maxMovementDistance :: int where
  "maxMovementDistance = 9900"

definition correctionThreshold :: int where
  "correctionThreshold = 500"

definition maxPositionDeviation :: int where
  "maxPositionDeviation = 600"

text \<open>The square of \<open>CalculateDistance\<close>.\<close>

definition distance3 :: "Position \<Rightarrow> Position \<Rightarrow> int" where
  "distance3 from to = (let dx = X to - X from; dy = Y to - Y from; dz = Z to - Z from
     in dx * dx + dy * dy + dz * dz)"

datatype MovementValidationError =
    ValidationErrorBounds Position
  | ValidationErrorDistance int
  | ValidationErrorTeleport Position Position

definition in_world :: "Position \<Rightarrow> bool" where
  "in_world pos \<longleftrightarrow> \<not> (X pos < MAP_MIN_X \<or> X pos > MAP_MAX_X \<or> Y pos < MAP_MIN_Y \<or> Y pos > MAP_MAX_Y
     \<or> Z pos < MAP_MIN_Z \<or> Z pos > MAP_MAX_Z)"

definition validateWorldBounds :: "Position \<Rightarrow> MovementValidationError option" where
  "validateWorldBounds pos = (if in_world pos then None else Some (ValidationErrorBounds pos))"

definition ValidateMovementRequest :: "Position \<Rightarrow> Position \<Rightarrow> MovementValidationError option" where
  "ValidateMovementRequest from to =
     (case validateWorldBounds to of
        Some e \<Rightarrow> Some e
      | None \<Rightarrow>
          if distance3 from to > maxMovementDistance * maxMovementDistance
          then Some (ValidationErrorDistance (distance3 from to)) else None)"

definition mv_ValidatePosition :: "Position \<Rightarrow> Position \<Rightarrow> MovementValidationError option" where
  "mv_ValidatePosition serverPos clientPos =
     (if distance3 serverPos clientPos > maxPositionDeviation * maxPositionDeviation
      then Some (ValidationErrorTeleport serverPos clientPos) else None)"

definition ShouldCorrectPosition :: "Position \<Rightarrow> Position \<Rightarrow> bool" where
  "ShouldCorrectPosition serverPos clientPos
     \<longleftrightarrow> distance3 serverPos clientPos > correctionThreshold * correctionThreshold"

definition IsValidMovementType :: "int \<Rightarrow> bool" where
  "IsValidMovementType moveType \<longleftrightarrow> moveType \<ge> 0 \<and> moveType \<le> 1"

definition IsSignificantMovement :: "Position \<Rightarrow> Position \<Rightarrow> int \<Rightarrow> bool" where
  "IsSignificantMovement from to threshold \<longleftrightarrow> distance3 from to \<ge> threshold * threshold"

section \<open>The use case\<close>

record move_state =
  MoveStarted :: int
  MoveStartPos :: Position
  MoveDestination :: Position

record grounds =
  gWorld :: WorldRegistry
  gMoves :: "(int, move_state) go_map"

definition Origin :: Position where
  "Origin = \<lparr>X = 0, Y = 0, Z = 0\<rparr>"

definition move_of :: "grounds \<Rightarrow> int \<Rightarrow> move_state" where
  "move_of g charID = (case map_of (gMoves g) charID of
     None \<Rightarrow> \<lparr>MoveStarted = 0, MoveStartPos = Origin, MoveDestination = Origin\<rparr> | Some m \<Rightarrow> m)"

definition player_missing :: "int \<Rightarrow> go_error" where
  "player_missing charID = ''player not found: '' @ format_int charID"

definition StopMovement :: "int \<Rightarrow> int \<Rightarrow> grounds \<Rightarrow> (go_error + unit) \<times> grounds" where
  "StopMovement now charID g =
     (case GetPlayer (gWorld g) charID of
        None \<Rightarrow> (Inl (player_missing charID), g)
      | Some _ \<Rightarrow> (Inr (),
          g\<lparr>gWorld := modify_player charID (\<lambda>s. s\<lparr>wpIsMoving := False, wpLastUpdate := now\<rparr>) (gWorld g),
            gMoves := AList.update charID ((move_of g charID)\<lparr>MoveStartPos := Origin, MoveDestination := Origin\<rparr>) (gMoves g)\<rparr>))"

definition uc_UpdatePosition :: "int \<Rightarrow> int \<Rightarrow> Position \<Rightarrow> int \<Rightarrow> grounds \<Rightarrow> (go_error + unit) \<times> grounds" where
  "uc_UpdatePosition now charID pos heading g =
     (case UpdatePlayerPosition now charID pos heading (gWorld g) of
        (Inl e, wr) \<Rightarrow> (Inl (''failed to update world position: '' @ e), g\<lparr>gWorld := wr\<rparr>)
      | (Inr _, wr) \<Rightarrow> (Inr (), g\<lparr>gWorld := wr\<rparr>))"

definition updateMovementState :: "int \<Rightarrow> int \<Rightarrow> Position \<Rightarrow> grounds \<Rightarrow> (go_error + unit) \<times> grounds" where
  "updateMovementState now charID destination g =
     (case GetPlayer (gWorld g) charID of
        None \<Rightarrow> (Inl (player_missing charID), g)
      | Some playerState \<Rightarrow> (Inr (),
          g\<lparr>gWorld := modify_player charID (\<lambda>s. s\<lparr>wpIsMoving := True, wpLastUpdate := now\<rparr>) (gWorld g),
            gMoves := AList.update charID
              \<lparr>MoveStarted = now, MoveStartPos = wpPosition playerState, MoveDestination = destination\<rparr> (gMoves g)\<rparr>))"

definition GetVisiblePlayers :: "int \<Rightarrow> grounds \<Rightarrow> go_error + PlayerWorldState list" where
  "GetVisiblePlayers charID g =
     (case GetPlayer (gWorld g) charID of
        None \<Rightarrow> Inl (player_missing charID)
      | Some playerState \<Rightarrow>
          Inr (filter (\<lambda>p. wpCharID p \<noteq> charID)
            (GetPlayersInRange (gWorld g) (wpPosition playerState) VisibilityForgetRadius)))"

record MovementResult =
  Success :: bool
  StartPosition :: Position
  TargetPosition :: Position
  VisiblePlayers :: "PlayerWorldState list"
  ValidationError :: "MovementValidationError option"

definition StartMovement :: "int \<Rightarrow> int \<Rightarrow> Position \<Rightarrow> grounds \<Rightarrow> (go_error + MovementResult) \<times> grounds" where
  "StartMovement now charID destination g =
     (case GetPlayer (gWorld g) charID of
        None \<Rightarrow> (Inl (''player not found in world: '' @ format_int charID), g)
      | Some playerState \<Rightarrow>
          let g = (if wpIsMoving playerState then snd (StopMovement now charID g) else g);
              currentPos = wpPosition (case GetPlayer (gWorld g) charID of None \<Rightarrow> playerState | Some p \<Rightarrow> p)
          in case ValidateMovementRequest currentPos destination of
               Some e \<Rightarrow> (Inr \<lparr>Success = False, StartPosition = currentPos, TargetPosition = destination,
                   VisiblePlayers = [], ValidationError = Some e\<rparr>, g)
             | None \<Rightarrow>
                 if \<not> IsSignificantMovement currentPos destination 10
                 then (Inr \<lparr>Success = True, StartPosition = currentPos, TargetPosition = currentPos,
                     VisiblePlayers = [], ValidationError = None\<rparr>, g)
                 else case updateMovementState now charID destination g of
                        (Inl e, g) \<Rightarrow> (Inl (''failed to update movement state: '' @ e), g)
                      | (Inr _, g) \<Rightarrow>
                          (Inr \<lparr>Success = True, StartPosition = currentPos, TargetPosition = destination,
                             VisiblePlayers = (case GetVisiblePlayers charID g of Inl _ \<Rightarrow> [] | Inr ps \<Rightarrow> ps),
                             ValidationError = None\<rparr>, g))"

record PositionCorrectionResult =
  NeedsCorrection :: bool
  ExpectedPos :: Position
  ClientPos :: Position

definition ValidateClientPosition :: "int \<Rightarrow> Position \<Rightarrow> grounds \<Rightarrow> go_error + PositionCorrectionResult" where
  "ValidateClientPosition charID clientPos g =
     (case GetPlayer (gWorld g) charID of
        None \<Rightarrow> Inl (player_missing charID)
      | Some playerState \<Rightarrow>
          Inr \<lparr>NeedsCorrection = ShouldCorrectPosition (wpPosition playerState) clientPos,
            ExpectedPos = wpPosition playerState, ClientPos = clientPos\<rparr>)"

definition GetCurrentPosition :: "int \<Rightarrow> grounds \<Rightarrow> go_error + Position" where
  "GetCurrentPosition charID g =
     (case GetPlayer (gWorld g) charID of None \<Rightarrow> Inl (player_missing charID) | Some p \<Rightarrow> Inr (wpPosition p))"

section \<open>The handlers\<close>

record mover =
  mGrounds :: grounds
  mSessions :: "(conn, ClientSession) go_map"
  mConnections :: "(string, conn) go_map"
  mSent :: "(conn \<times> move_packet) list"
  mCmds :: "(int \<times> Position option) list"

text \<open>
  The commands to the game loop: \<open>CmdMoveToLocation\<close> has no position, \<open>CmdPlayerMoved\<close> has one. What the
  handlers ask of the outside: does \<open>Send\<close> accept a packet, the time, and the order in which
  \<open>sort.Slice\<close>, which is not stable, leaves players at the same distance.
\<close>

record move_env =
  accepts :: "conn \<Rightarrow> move_packet \<Rightarrow> bool"
  clock :: int
  sort_by_distance :: "Position \<Rightarrow> PlayerWorldState list \<Rightarrow> PlayerWorldState list"

definition mv_send :: "move_env \<Rightarrow> conn \<Rightarrow> move_packet \<Rightarrow> mover \<Rightarrow> bool \<times> mover" where
  "mv_send env c p st = (if accepts env c p then (True, st\<lparr>mSent := mSent st @ [(c, p)]\<rparr>) else (False, st))"

definition mv_command :: "int \<Rightarrow> Position option \<Rightarrow> mover \<Rightarrow> mover" where
  "mv_command charID pos st = st\<lparr>mCmds := mCmds st @ [(charID, pos)]\<rparr>"

definition moveBroadcastObserverCap :: nat where
  "moveBroadcastObserverCap = 48"

definition sqDist :: "Position \<Rightarrow> Position \<Rightarrow> int" where
  "sqDist a b = (let dx = X a - X b; dy = Y a - Y b in dx * dx + dy * dy)"

definition closestPlayers :: "move_env \<Rightarrow> PlayerWorldState list \<Rightarrow> Position \<Rightarrow> nat \<Rightarrow> PlayerWorldState list" where
  "closestPlayers env ps pos k = (if length ps \<le> k then ps else take k (sort_by_distance env pos ps))"

fun broadcast_to :: "move_env \<Rightarrow> conn \<Rightarrow> move_packet \<Rightarrow> PlayerWorldState list \<Rightarrow> mover \<Rightarrow> mover" where
  "broadcast_to env excludeClient p [] st = st"
| "broadcast_to env excludeClient p (o' # os) st =
     (let st = (case GetConnection (mConnections st) (wpAccountName o') of
            None \<Rightarrow> st
          | Some c \<Rightarrow> if c \<noteq> excludeClient then snd (mv_send env c p st) else st)
      in broadcast_to env excludeClient p os st)"

definition broadcastMovementToVisiblePlayers :: "move_env \<Rightarrow> int \<Rightarrow> MovementResult \<Rightarrow> conn \<Rightarrow> mover \<Rightarrow> mover" where
  "broadcastMovementToVisiblePlayers env charID result excludeClient st =
     (if VisiblePlayers result = [] then st
      else broadcast_to env excludeClient (MoveToLocation charID (TargetPosition result) (StartPosition result))
             (closestPlayers env (VisiblePlayers result) (StartPosition result) moveBroadcastObserverCap) st)"

definition sendPositionCorrection :: "move_env \<Rightarrow> conn \<Rightarrow> int \<Rightarrow> Position \<Rightarrow> mover \<Rightarrow> (go_error + unit) \<times> mover" where
  "sendPositionCorrection env c charID pos st =
     (case mv_send env c (ValidatePositionServer charID pos 0) st of
        (True, st) \<Rightarrow> (Inr (), st)
      | (False, st) \<Rightarrow> (Inl ''failed to send position correction'', st))"

text \<open>The two loops of \<open>updateNPCVisibility\<close>: an NPC is marked whether or not the packet could be sent.\<close>

fun npc_enter :: "move_env \<Rightarrow> conn \<Rightarrow> NpcInstance list \<Rightarrow> (int, bool) go_map \<times> mover \<Rightarrow> (int, bool) go_map \<times> mover" where
  "npc_enter env c [] (known, st) = (known, st)"
| "npc_enter env c (npc # ns) (known, st) =
     (if map_of known (npcObjectID npc) = Some True then npc_enter env c ns (known, st)
      else npc_enter env c ns (AList.update (npcObjectID npc) True known, snd (mv_send env c (NpcInfo npc) st)))"

fun npc_leave :: "move_env \<Rightarrow> conn \<Rightarrow> int list \<Rightarrow> int list \<Rightarrow> (int, bool) go_map \<times> mover \<Rightarrow> (int, bool) go_map \<times> mover" where
  "npc_leave env c keep [] (known, st) = (known, st)"
| "npc_leave env c keep (i # ids) (known, st) =
     (if i \<in> set keep then npc_leave env c keep ids (known, st)
      else npc_leave env c keep ids (AList.delete i known, snd (mv_send env c (NpcDelete i) st)))"

definition on_world :: "(WorldRegistry \<Rightarrow> WorldRegistry) \<Rightarrow> mover \<Rightarrow> mover" where
  "on_world f st = st\<lparr>mGrounds := (mGrounds st)\<lparr>gWorld := f (gWorld (mGrounds st))\<rparr>\<rparr>"

abbreviation mWorld :: "mover \<Rightarrow> WorldRegistry" where
  "mWorld st \<equiv> gWorld (mGrounds st)"

definition updateNPCVisibility :: "move_env \<Rightarrow> conn \<Rightarrow> PlayerWorldState \<Rightarrow> Position \<Rightarrow> mover \<Rightarrow> mover" where
  "updateNPCVisibility env c playerState pos st =
     (let keep = map npcObjectID (GetNPCsInRange (mWorld st) pos VisibilityForgetRadius);
          (known, st) = npc_enter env c (GetNPCsInRange (mWorld st) pos VisibilityWatchRadius) (wpKnownNPCs playerState, st);
          (known, st) = npc_leave env c keep (map fst known) (known, st)
      in on_world (modify_player (wpCharID playerState) (\<lambda>s. s\<lparr>wpKnownNPCs := known\<rparr>)) st)"

text \<open>The session of the connection and the player of its account, which each handler asks for first.\<close>

definition session_player :: "conn \<Rightarrow> mover \<Rightarrow> go_error + PlayerWorldState" where
  "session_player c st =
     (case map_of (mSessions st) c of
        None \<Rightarrow> Inl ''no session found for client''
      | Some session \<Rightarrow>
          (case GetPlayerByAccount (mWorld st) (sessAccount session) of
             None \<Rightarrow> Inl (''player not found in world: '' @ sessAccount session)
           | Some playerState \<Rightarrow> Inr playerState))"

definition on_grounds :: "(grounds \<Rightarrow> 'a \<times> grounds) \<Rightarrow> mover \<Rightarrow> 'a \<times> mover" where
  "on_grounds f st = (case f (mGrounds st) of (x, g) \<Rightarrow> (x, st\<lparr>mGrounds := g\<rparr>))"

definition handleMoveBackwardToLocation :: "move_env \<Rightarrow> conn \<Rightarrow> byte list \<Rightarrow> mover \<Rightarrow> (go_error + unit) \<times> mover" where
  "handleMoveBackwardToLocation env c payload st =
     (case session_player c st of
        Inl e \<Rightarrow> (Inl e, st)
      | Inr playerState \<Rightarrow>
     (case ParseMoveBackwardToLocation payload of
        Inl e \<Rightarrow> (Inl (''failed to parse movement packet: '' @ e), st)
      | Inr movePacket \<Rightarrow>
     (case move_Validate movePacket of
        Inl e \<Rightarrow> (Inl (''invalid movement packet: '' @ e), st)
      | Inr _ \<Rightarrow>
          let charID = wpCharID playerState;
              destination = \<lparr>X = TargetX movePacket, Y = TargetY movePacket, Z = TargetZ movePacket\<rparr>;
              clientOrigin = \<lparr>X = OriginX movePacket, Y = OriginY movePacket, Z = OriginZ movePacket\<rparr>;
              (_, st) = on_grounds (uc_UpdatePosition (clock env) charID clientOrigin 0) st
          in case on_grounds (StartMovement (clock env) charID destination) st of
               (Inl e, st) \<Rightarrow> (Inl (''movement failed: '' @ e), st)
             | (Inr result, st) \<Rightarrow>
                 if \<not> Success result
                 then (if ValidationError result \<noteq> None
                       then sendPositionCorrection env c charID (StartPosition result) st else (Inr (), st))
                 else case mv_send env c (MoveToLocation charID destination (StartPosition result)) st of
                        (False, st) \<Rightarrow> (Inl ''failed to confirm movement'', st)
                      | (True, st) \<Rightarrow>
                          (Inr (), broadcastMovementToVisiblePlayers env charID result c (mv_command charID None st)))))"

definition handleValidatePosition :: "move_env \<Rightarrow> conn \<Rightarrow> byte list \<Rightarrow> mover \<Rightarrow> (go_error + unit) \<times> mover" where
  "handleValidatePosition env c payload st =
     (case session_player c st of
        Inl e \<Rightarrow> (Inl e, st)
      | Inr playerState \<Rightarrow>
     (case ParseValidatePosition payload of
        Inl e \<Rightarrow> (Inl (''failed to parse validation packet: '' @ e), st)
      | Inr validatePacket \<Rightarrow>
     (case position_Validate validatePacket of
        Inl e \<Rightarrow> (Inl (''invalid validation packet: '' @ e), st)
      | Inr _ \<Rightarrow>
          let charID = wpCharID playerState;
              clientPos = \<lparr>X = vpX validatePacket, Y = vpY validatePacket, Z = vpZ validatePacket\<rparr>;
              go_on = (\<lambda>st. (Inr (), updateNPCVisibility env c playerState clientPos (mv_command charID (Some clientPos) st)))
          in if wpIsMoving playerState then go_on st
             else case ValidateClientPosition charID clientPos (mGrounds st) of
                    Inl e \<Rightarrow> (Inl (''position validation failed: '' @ e), st)
                  | Inr correctionResult \<Rightarrow>
                      if NeedsCorrection correctionResult
                      then sendPositionCorrection env c charID (ExpectedPos correctionResult) st
                      else go_on (snd (on_grounds (uc_UpdatePosition (clock env) charID clientPos (vpHeading validatePacket)) st)))))"

definition handleCannotMoveAnymore :: "move_env \<Rightarrow> conn \<Rightarrow> byte list \<Rightarrow> mover \<Rightarrow> (go_error + unit) \<times> mover" where
  "handleCannotMoveAnymore env c payload st =
     (case session_player c st of
        Inl e \<Rightarrow> (Inl e, st)
      | Inr playerState \<Rightarrow>
     (case ParseCannotMoveAnymore payload of
        Inl e \<Rightarrow> (Inl (''failed to parse movement stop packet: '' @ e), st)
      | Inr stopPacket \<Rightarrow>
     (case stop_Validate stopPacket of
        Inl e \<Rightarrow> (Inl (''invalid movement stop packet: '' @ e), st)
      | Inr _ \<Rightarrow>
          let charID = wpCharID playerState;
              finalPosition = \<lparr>X = cmX stopPacket, Y = cmY stopPacket, Z = cmZ stopPacket\<rparr>
          in case on_grounds (StopMovement (clock env) charID) st of
               (Inl e, st) \<Rightarrow> (Inl (''movement stop failed: '' @ e), st)
             | (Inr _, st) \<Rightarrow>
                 (Inr (), snd (on_grounds (uc_UpdatePosition (clock env) charID finalPosition (cmHeading stopPacket)) st)))))"

text \<open>
  The game loop takes the next command. A ground move only clears the intention there; a reported
  position is taken over, unless the loop itself moves the player (\<open>driven\<close>), and then it is decided who
  sees whom.
\<close>

definition loop_takes :: "int \<Rightarrow> (int \<Rightarrow> bool) \<Rightarrow> mover \<Rightarrow> mover" where
  "loop_takes now driven st =
     (case mCmds st of
        [] \<Rightarrow> st
      | (charID, None) # cmds \<Rightarrow> st\<lparr>mCmds := cmds\<rparr>
      | (charID, Some pos) # cmds \<Rightarrow>
          let wr = mWorld st;
              wr = (if driven charID then wr
                    else case GetPlayer wr charID of
                           None \<Rightarrow> wr
                         | Some p \<Rightarrow> snd (UpdatePlayerPosition now charID pos (wpHeading p) wr))
          in on_world (\<lambda>_. fst (reconcilePlayerVisibility charID wr)) (st\<lparr>mCmds := cmds\<rparr>))"


section \<open>Reading what was written\<close>

lemma fold_ints: "fold write_field (ints is) w = w @ concat (map (\<lambda>i. bytes32 (word_of_int i)) is)"
  by (simp add: fold_write_field ints_def comp_def)

definition int32 :: "int \<Rightarrow> bool" where
  "int32 i \<longleftrightarrow> - (2 ^ 31) \<le> i \<and> i < 2 ^ 31"

lemma int32_exact: "int32 i \<Longrightarrow> sint (word_of_int i :: u32) = i"
  unfolding int32_def by (subst sint_sbintrunc') (rule signed_take_bit_int_eq_self, simp_all)

lemma read_ds_ints:
  assumes "reader_ok r" and "unread r = concat (map (\<lambda>i. bytes32 (word_of_int i)) is) @ rest"
    and "list_all int32 is" and "length names = length is"
  shows "read_ds names r = Inr is"
  using assms
proof (induction names arbitrary: "is" r)
  case (Cons name names)
  then obtain i is' where i: "is = i # is'" by (cases "is") auto
  obtain r' where r': "ReadD r = (Inr (word_of_int i), r')" "reader_ok r'"
    "unread r' = concat (map (\<lambda>i. bytes32 (word_of_int i)) is') @ rest"
    using codec_D.get_put [of r "word_of_int i" "concat (map (\<lambda>i. bytes32 (word_of_int i)) is') @ rest"] Cons.prems(1,2) i
    by auto
  have "read_ds names r' = Inr is'"
    using Cons.IH [of r' is'] r'(2,3) Cons.prems(3,4) i by simp
  then show ?case using r'(1) i Cons.prems(3) by (simp add: int32_exact)
qed simp

lemma read_ds_packet:
  assumes "list_all int32 is" and "length names = length is"
  shows "read_ds names (NewReader (fold write_field (ints is) NewWriter)) = Inr is"
    and "length (fold write_field (ints is) NewWriter) = 4 * length is"
proof -
  have "length (concat (map (\<lambda>i. bytes32 (word_of_int i)) js)) = 4 * length js" for js
    by (induction js) (simp_all add: bytes32_def)
  then show "length (fold write_field (ints is) NewWriter) = 4 * length is" by (simp add: fold_ints NewWriter_def)
  show "read_ds names (NewReader (fold write_field (ints is) NewWriter)) = Inr is"
    using read_ds_ints [of "NewReader (fold write_field (ints is) NewWriter)" "is" "[]" names] assms
    by (simp add: NewReader_def reader_ok_def unread_def fold_ints NewWriter_def)
qed

lemmas map_bounds = MAP_MIN_X_def MAP_MAX_X_def MAP_MIN_Y_def MAP_MAX_Y_def MAP_MIN_Z_def MAP_MAX_Z_def

lemma in_world_int32: "in_world p \<Longrightarrow> int32 (X p) \<and> int32 (Y p) \<and> int32 (Z p)"
  by (simp add: in_world_def int32_def map_bounds)

section \<open>What a packet that is accepted says\<close>

definition target_of :: "MoveBackwardToLocation \<Rightarrow> Position" where
  "target_of p = \<lparr>X = TargetX p, Y = TargetY p, Z = TargetZ p\<rparr>"

definition origin_of :: "MoveBackwardToLocation \<Rightarrow> Position" where
  "origin_of p = \<lparr>X = OriginX p, Y = OriginY p, Z = OriginZ p\<rparr>"

lemma move_Validate_ok: "move_Validate p = Inr u \<longleftrightarrow>
    in_world (target_of p) \<and> in_world (origin_of p) \<and> IsValidMovementType (MoveMovement p)"
  by (auto simp: move_Validate_def coords_in_def in_world_def target_of_def origin_of_def IsValidMovementType_def
      split: if_splits)

lemma position_Validate_ok: "position_Validate p = Inr u \<longleftrightarrow>
    in_world \<lparr>X = vpX p, Y = vpY p, Z = vpZ p\<rparr> \<and> 0 \<le> vpHeading p \<and> vpHeading p \<le> 65535"
  by (auto simp: position_Validate_def coords_in_def in_world_def split: if_splits)

lemma stop_Validate_ok: "stop_Validate p = Inr u \<longleftrightarrow> in_world \<lparr>X = cmX p, Y = cmY p, Z = cmZ p\<rparr>"
  by (auto simp: stop_Validate_def in_world_def Let_def split: if_splits)

section \<open>Where a player is\<close>

lemma world_ok_players_ok: "world_ok wr \<Longrightarrow> players_ok wr"
  by (auto simp: world_ok_def players_ok_def grid_ok_def map_ok_lookup)

lemma session_player_here:
  assumes "session_player c st = Inr p" and "world_ok (mWorld st)"
  shows "GetPlayer (mWorld st) (wpCharID p) = Some p"
  using assms GetPlayerByAccount_Some [OF _ world_ok_players_ok]
  by (auto simp: session_player_def GetPlayer_def split: option.splits)

definition moved_to :: "int \<Rightarrow> Position \<Rightarrow> int \<Rightarrow> PlayerWorldState \<Rightarrow> PlayerWorldState" where
  "moved_to now pos heading s = s\<lparr>wpPosition := pos, wpHeading := heading, wpLastUpdate := now,
     wpCharacter := map_option (\<lambda>c. c\<lparr>CharPosition := pos\<rparr>) (wpCharacter s)\<rparr>"

lemma players_moved: "map_of (players (snd (UpdatePlayerPosition now i pos heading wr)))
    = (map_of (players wr))(i := map_option (moved_to now pos heading) (map_of (players wr) i))"
  by (auto simp: UpdatePlayerPosition_def moved_to_def Let_def fun_eq_iff split: option.split)

lemma players_modified: "map_of (players (modify_player i f wr))
    = (map_of (players wr))(i := map_option f (map_of (players wr) i))"
  by (auto simp: modify_player_def fun_eq_iff split: option.split)

lemma uc_UpdatePosition_parts [simp]:
  "gWorld (snd (uc_UpdatePosition now i pos heading g)) = snd (UpdatePlayerPosition now i pos heading (gWorld g))"
  "gMoves (snd (uc_UpdatePosition now i pos heading g)) = gMoves g"
  by (auto simp: uc_UpdatePosition_def split: sum.split prod.split)

lemma on_grounds_parts [simp]:
  "mGrounds (snd (on_grounds f st)) = snd (f (mGrounds st))" "fst (on_grounds f st) = fst (f (mGrounds st))"
  "mSessions (snd (on_grounds f st)) = mSessions st" "mConnections (snd (on_grounds f st)) = mConnections st"
  "mSent (snd (on_grounds f st)) = mSent st" "mCmds (snd (on_grounds f st)) = mCmds st"
  by (simp_all add: on_grounds_def split: prod.split)

lemma mv_send_parts [simp]:
  "mGrounds (snd (mv_send env c p st)) = mGrounds st" "mCmds (snd (mv_send env c p st)) = mCmds st"
  "mSessions (snd (mv_send env c p st)) = mSessions st" "mConnections (snd (mv_send env c p st)) = mConnections st"
  "fst (mv_send env c p st) = accepts env c p"
  "mSent (snd (mv_send env c p st)) = mSent st @ (if accepts env c p then [(c, p)] else [])"
  by (simp_all add: mv_send_def)

lemma distance3_self [simp]: "distance3 p p = 0"
  by (simp add: distance3_def)

text \<open>A movement never starts anywhere but where the registry has the player.\<close>

lemma StartMovement_cases:
  fixes now i :: int
  assumes "GetPlayer (gWorld g) i = Some p"
  defines "g1 \<equiv> if wpIsMoving p then snd (StopMovement now i g) else g"
    and "answer \<equiv> \<lambda>ok to seen e. \<lparr>Success = ok, StartPosition = wpPosition p, TargetPosition = to,
      VisiblePlayers = seen, ValidationError = e\<rparr>"
  shows "StartMovement now i d g =
     (case ValidateMovementRequest (wpPosition p) d of
        Some e \<Rightarrow> (Inr (answer False d [] (Some e)), g1)
      | None \<Rightarrow>
          if distance3 (wpPosition p) d < 100 then (Inr (answer True (wpPosition p) [] None), g1)
          else let g2 = snd (updateMovementState now i d g1)
               in (Inr (answer True d (case GetVisiblePlayers i g2 of Inl _ \<Rightarrow> [] | Inr ps \<Rightarrow> ps) None), g2))"
proof -
  have "\<exists>p1. GetPlayer (gWorld g1) i = Some p1 \<and> wpPosition p1 = wpPosition p"
    using assms(1) by (auto simp: g1_def StopMovement_def GetPlayer_def players_modified)
  then obtain p1 where p1: "GetPlayer (gWorld g1) i = Some p1" "wpPosition p1 = wpPosition p" by blast
  then have "fst (updateMovementState now i d g1) = Inr ()" by (simp add: updateMovementState_def)
  then obtain g2 where g2: "updateMovementState now i d g1 = (Inr (), g2)" by (metis prod.collapse)
  show ?thesis
    using assms(1) p1 g2
    by (simp add: StartMovement_def g1_def [symmetric] answer_def IsSignificantMovement_def Let_def not_less split: option.split)
qed


lemma StartMovement_player:
  fixes now i :: int
  assumes "GetPlayer (gWorld g) i = Some p"
  obtains p' where "GetPlayer (gWorld (snd (StartMovement now i d g))) i = Some p'" "wpPosition p' = wpPosition p"
    "wpCharacter p' = wpCharacter p"
    "wpIsMoving p' \<longleftrightarrow> ValidateMovementRequest (wpPosition p) d = None \<and> 100 \<le> distance3 (wpPosition p) d"
proof -
  have "\<exists>p'. GetPlayer (gWorld (snd (StartMovement now i d g))) i = Some p' \<and> wpPosition p' = wpPosition p
      \<and> wpCharacter p' = wpCharacter p
      \<and> (wpIsMoving p' \<longleftrightarrow> ValidateMovementRequest (wpPosition p) d = None \<and> 100 \<le> distance3 (wpPosition p) d)"
    using assms unfolding StartMovement_cases [OF assms]
    by (auto simp: StopMovement_def updateMovementState_def GetPlayer_def players_modified Let_def split: option.split)
  then show ?thesis using that by blast
qed

lemma broadcast_grounds [simp]: "mGrounds (broadcast_to env c pk ps st) = mGrounds st" "mCmds (broadcast_to env c pk ps st) = mCmds st"
  by (induction ps arbitrary: st) (auto simp: Let_def split: option.split)

lemma broadcast_move_grounds [simp]:
  "mGrounds (broadcastMovementToVisiblePlayers env i r c st) = mGrounds st"
  "mCmds (broadcastMovementToVisiblePlayers env i r c st) = mCmds st"
  by (simp_all add: broadcastMovementToVisiblePlayers_def)

lemma correction_parts [simp]:
  "mGrounds (snd (sendPositionCorrection env c i pos st)) = mGrounds st"
  "mCmds (snd (sendPositionCorrection env c i pos st)) = mCmds st"
  "mSent (snd (sendPositionCorrection env c i pos st))
     = mSent st @ (if accepts env c (ValidatePositionServer i pos 0) then [(c, ValidatePositionServer i pos 0)] else [])"
  by (simp_all add: sendPositionCorrection_def mv_send_def)

lemma mv_command_parts [simp]:
  "mGrounds (mv_command i pos st) = mGrounds st" "mCmds (mv_command i pos st) = mCmds st @ [(i, pos)]"
  "mSent (mv_command i pos st) = mSent st" "mConnections (mv_command i pos st) = mConnections st"
  by (simp_all add: mv_command_def)

text \<open>An accepted request in the two steps that change the world; what is sent comes after.\<close>

lemma handleMove_grounds:
  fixes env :: move_env
  assumes "session_player c st = Inr p" and "ParseMoveBackwardToLocation payload = Inr pkt" and "move_Validate pkt = Inr ()"
  defines "g1 \<equiv> snd (uc_UpdatePosition (clock env) (wpCharID p) (origin_of pkt) 0 (mGrounds st))"
  shows "mGrounds (snd (handleMoveBackwardToLocation env c payload st)) = snd (StartMovement (clock env) (wpCharID p) (target_of pkt) g1)"
    and "ValidateMovementRequest (origin_of pkt) (target_of pkt) \<noteq> None \<Longrightarrow> GetPlayer (gWorld g1) (wpCharID p) = Some p1
      \<Longrightarrow> wpPosition p1 = origin_of pkt \<Longrightarrow>
      snd (handleMoveBackwardToLocation env c payload st)
        = snd (sendPositionCorrection env c (wpCharID p) (origin_of pkt) (st\<lparr>mGrounds := mGrounds (snd (handleMoveBackwardToLocation env c payload st))\<rparr>))"
proof -
  obtain u where u: "uc_UpdatePosition (clock env) (wpCharID p) (origin_of pkt) 0 (mGrounds st) = (u, g1)"
    unfolding g1_def by (metis prod.collapse)
  obtain r g2 where g2: "StartMovement (clock env) (wpCharID p) (target_of pkt) g1 = (r, g2)" by fastforce
  note run = handleMoveBackwardToLocation_def assms(1-3) on_grounds_def u g2 target_of_def [symmetric] origin_of_def [symmetric]
  show "mGrounds (snd (handleMoveBackwardToLocation env c payload st)) = snd (StartMovement (clock env) (wpCharID p) (target_of pkt) g1)"
    by (auto simp: run Let_def mv_send_def split: sum.split prod.split)
  assume "ValidateMovementRequest (origin_of pkt) (target_of pkt) \<noteq> None" "GetPlayer (gWorld g1) (wpCharID p) = Some p1"
    "wpPosition p1 = origin_of pkt"
  with g2 have "\<exists>e. r = Inr \<lparr>Success = False, StartPosition = origin_of pkt, TargetPosition = target_of pkt,
      VisiblePlayers = [], ValidationError = Some e\<rparr>"
    unfolding StartMovement_cases [OF \<open>GetPlayer (gWorld g1) (wpCharID p) = Some p1\<close>] by auto
  then show "snd (handleMoveBackwardToLocation env c payload st)
        = snd (sendPositionCorrection env c (wpCharID p) (origin_of pkt) (st\<lparr>mGrounds := mGrounds (snd (handleMoveBackwardToLocation env c payload st))\<rparr>))"
    by (auto simp: run Let_def)
qed

lemma request_ok: "in_world d \<Longrightarrow> ValidateMovementRequest a d = None \<longleftrightarrow> distance3 a d \<le> 9900 * 9900"
  by (simp add: ValidateMovementRequest_def validateWorldBounds_def maxMovementDistance_def not_less)

text \<open>
  C18: The server believes where a client says it is. Whatever accepted request to move a player sends,
  the player is afterwards at the origin the packet names, anywhere in the world and however far from
  where it was; so is the character that will be saved. The limit of 9900 units holds only between the
  two places of the same packet: a request beyond it is answered by a correction, to that origin.
\<close>

theorem origin_is_believed:
  fixes env :: move_env and payload :: "byte list"
  assumes "world_ok (mWorld st)" and "session_player c st = Inr p"
    and "ParseMoveBackwardToLocation payload = Inr pkt" and "move_Validate pkt = Inr ()"
  defines "st' \<equiv> snd (handleMoveBackwardToLocation env c payload st)"
    and "far \<equiv> 9900 * 9900 < distance3 (origin_of pkt) (target_of pkt)"
    and "correction \<equiv> ValidatePositionServer (wpCharID p) (origin_of pkt) 0"
  shows "(\<exists>p'. GetPlayer (mWorld st') (wpCharID p) = Some p' \<and> wpPosition p' = origin_of pkt
      \<and> map_option CharPosition (wpCharacter p') = map_option (\<lambda>_. origin_of pkt) (wpCharacter p)
      \<and> (wpIsMoving p' \<longleftrightarrow> \<not> far \<and> 100 \<le> distance3 (origin_of pkt) (target_of pkt)))
    \<and> (far \<longrightarrow> mSent st' = mSent st @ (if accepts env c correction then [(c, correction)] else []))"
proof -
  let ?g = "snd (uc_UpdatePosition (clock env) (wpCharID p) (origin_of pkt) 0 (mGrounds st))"
  let ?p1 = "moved_to (clock env) (origin_of pkt) 0 p"
  have p1: "GetPlayer (gWorld ?g) (wpCharID p) = Some ?p1"
    using session_player_here [OF assms(2,1)] by (simp add: GetPlayer_def players_moved)
  have valid: "ValidateMovementRequest (origin_of pkt) (target_of pkt) = None \<longleftrightarrow> \<not> far"
    using assms(4) by (simp add: move_Validate_ok request_ok far_def not_less)
  note run = handleMove_grounds [OF assms(2-4), of env]
  obtain p' where "GetPlayer (gWorld (snd (StartMovement (clock env) (wpCharID p) (target_of pkt) ?g))) (wpCharID p) = Some p'"
    "wpPosition p' = wpPosition ?p1" "wpCharacter p' = wpCharacter ?p1"
    "wpIsMoving p' \<longleftrightarrow> ValidateMovementRequest (wpPosition ?p1) (target_of pkt) = None \<and> 100 \<le> distance3 (wpPosition ?p1) (target_of pkt)"
    by (rule StartMovement_player [OF p1])
  moreover have "far \<Longrightarrow> st' = snd (sendPositionCorrection env c (wpCharID p) (origin_of pkt) (st\<lparr>mGrounds := mGrounds st'\<rparr>))"
    unfolding st'_def by (rule run(2) [OF _ p1]) (use valid in \<open>simp_all add: moved_to_def\<close>)
  then have "far \<Longrightarrow> mSent st' = mSent st @ (if accepts env c correction then [(c, correction)] else [])"
    by (metis correction_def correction_parts(3) mover.select_convs(4) mover.surjective mover.update_convs(1))
  ultimately show ?thesis
    using valid run(1) by (auto simp: st'_def moved_to_def option.map_comp comp_def)
qed


definition request_bytes :: "Position \<Rightarrow> Position \<Rightarrow> byte list" where
  "request_bytes dst org = fold write_field (ints [X dst, Y dst, Z dst, X org, Y org, Z org, 1]) NewWriter"

lemma request_bytes_parse:
  assumes "in_world dst" and "in_world org"
  obtains pkt where "ParseMoveBackwardToLocation (request_bytes dst org) = Inr pkt" "move_Validate pkt = Inr ()"
    "target_of pkt = dst" "origin_of pkt = org"
proof -
  let ?is = "[X dst, Y dst, Z dst, X org, Y org, Z org, 1]"
  have i: "list_all int32 ?is" using assms in_world_int32 [of dst] in_world_int32 [of org] by (simp add: int32_def)
  define pkt where "pkt = \<lparr>TargetX = X dst, TargetY = Y dst, TargetZ = Z dst, OriginX = X org, OriginY = Y org,
      OriginZ = Z org, MoveMovement = 1\<rparr>"
  have "ParseMoveBackwardToLocation (request_bytes dst org) = Inr pkt"
    using read_ds_packet(1) [OF i, of "[''TargetX'', ''TargetY'', ''TargetZ'', ''OriginX'', ''OriginY'', ''OriginZ'', ''MoveMovement'']"]
      read_ds_packet(2) [OF i, of "replicate 7 []"]
    by (simp add: ParseMoveBackwardToLocation_def request_bytes_def pkt_def del: read_ds.simps)
  moreover have "target_of pkt = dst" "origin_of pkt = org" by (simp_all add: pkt_def target_of_def origin_of_def)
  ultimately show ?thesis using that [of pkt] assms by (simp add: move_Validate_ok IsValidMovementType_def pkt_def)
qed

definition sample_walker :: mover where
  "sample_walker = \<lparr>mGrounds = \<lparr>gWorld = AddPlayer 0 \<lparr>ID = 7, AccountName = ''bob'', CharName = ''Bob'', CharPosition = Origin\<rparr>
       NewWorldRegistry, gMoves = []\<rparr>,
     mSessions = [(1, \<lparr>sessAccount = ''bob'', sessKeys = [], sessLoginAt = True, pendingState = None\<rparr>)],
     mConnections = [(''bob'', 1)], mSent = [], mCmds = []\<rparr>"

definition sample_move_env :: move_env where
  "sample_move_env = \<lparr>accepts = \<lambda>_ _. True, clock = 5, sort_by_distance = \<lambda>pos. sort_key (\<lambda>p. sqDist (wpPosition p) pos)\<rparr>"

lemma sample_walker_ok: "world_ok (mWorld sample_walker)"
proof -
  have "map_ok (players NewWorldRegistry)" by (simp add: NewWorldRegistry_def)
  then show ?thesis
    by (simp add: sample_walker_def world_ok_def grid_ok_AddPlayer grid_ok_new map_ok_players)
qed

lemma sample_walker_player: "\<exists>p. session_player 1 sample_walker = Inr p \<and> wpCharID p = 7"
  by (simp add: session_player_def sample_walker_def GetPlayerByAccount_def players_AddPlayer NewWorldRegistry_def)

lemma origin_is_believed_witness:
  "\<exists>p'. GetPlayer (mWorld (snd (handleMoveBackwardToLocation sample_move_env 1
       (request_bytes \<lparr>X = 200000, Y = 200000, Z = 0\<rparr> \<lparr>X = 200000, Y = 200000, Z = 0\<rparr>) sample_walker))) 7 = Some p'
     \<and> wpPosition p' = \<lparr>X = 200000, Y = 200000, Z = 0\<rparr>"
proof -
  let ?q = "\<lparr>X = 200000, Y = 200000, Z = 0\<rparr>"
  have q: "in_world ?q" by (simp add: in_world_def map_bounds)
  obtain pkt where pkt: "ParseMoveBackwardToLocation (request_bytes ?q ?q) = Inr pkt" "move_Validate pkt = Inr ()"
    "target_of pkt = ?q" "origin_of pkt = ?q"
    by (rule request_bytes_parse [OF q q])
  obtain p where p: "session_player 1 sample_walker = Inr p" "wpCharID p = 7" using sample_walker_player by blast
  from origin_is_believed [OF sample_walker_ok p(1) pkt(1,2), of sample_move_env] p(2) pkt(4) show ?thesis by auto
qed

section \<open>What every movement keeps\<close>

text \<open>
  The registry is consistent, everybody is in the world and stands where the character that will be
  saved stands, whoever is on the way has somewhere in the world to go, between 10 and 9900 units from
  where the way began, and no place outside the world waits for the game loop.
\<close>

definition on_the_way :: "move_state \<Rightarrow> bool" where
  "on_the_way m \<longleftrightarrow> in_world (MoveDestination m) \<and> 10 * 10 \<le> distance3 (MoveStartPos m) (MoveDestination m)
     \<and> distance3 (MoveStartPos m) (MoveDestination m) \<le> 9900 * 9900"

definition placed :: "PlayerWorldState \<Rightarrow> bool" where
  "placed p \<longleftrightarrow> in_world (wpPosition p) \<and> (\<forall>ch. wpCharacter p = Some ch \<longrightarrow> CharPosition ch = wpPosition p)"

definition grounds_ok :: "grounds \<Rightarrow> bool" where
  "grounds_ok g \<longleftrightarrow> world_ok (gWorld g) \<and> (\<forall>i p. map_of (players (gWorld g)) i = Some p \<longrightarrow>
     placed p \<and> (wpIsMoving p \<longrightarrow> on_the_way (move_of g i)))"

definition move_inv :: "mover \<Rightarrow> bool" where
  "move_inv st \<longleftrightarrow> grounds_ok (mGrounds st) \<and> (\<forall>i pos. (i, Some pos) \<in> set (mCmds st) \<longrightarrow> in_world pos)"

lemma placed_moved [simp]: "in_world pos \<Longrightarrow> placed (moved_to now pos h p)"
  by (auto simp: placed_def moved_to_def)

lemma moving_moved [simp]: "wpIsMoving (moved_to now pos h p) = wpIsMoving p"
  by (simp add: moved_to_def)

lemma world_ok_moved: "world_ok wr \<Longrightarrow> world_ok (snd (UpdatePlayerPosition now i pos h wr))"
  by (simp add: world_ok_def grid_ok_move map_ok_players)

lemma grounds_ok_position:
  assumes "grounds_ok g" and "in_world pos"
  shows "grounds_ok (g\<lparr>gWorld := snd (UpdatePlayerPosition now i pos h (gWorld g))\<rparr>)"
  using assms by (auto simp: grounds_ok_def world_ok_moved players_moved move_of_def split: if_splits)

lemma grounds_ok_update: "grounds_ok g \<Longrightarrow> in_world pos \<Longrightarrow> grounds_ok (snd (uc_UpdatePosition now i pos h g))"
  using grounds_ok_position [of g pos now i h]
  by (auto simp: uc_UpdatePosition_def split: sum.split prod.split)

lemma grounds_ok_modify:
  assumes "grounds_ok g" and "\<And>s. wpPosition (f s) = wpPosition s \<and> wpCharID (f s) = wpCharID s \<and> wpCharacter (f s) = wpCharacter s"
    and "\<And>p. map_of (players (gWorld g)) i = Some p \<Longrightarrow> wpIsMoving (f p) \<Longrightarrow> on_the_way m"
  shows "grounds_ok (g\<lparr>gWorld := modify_player i f (gWorld g), gMoves := AList.update i m (gMoves g)\<rparr>)"
  using assms by (auto simp: grounds_ok_def world_ok_def grid_ok_modify map_ok_players players_modified move_of_def placed_def
      split: if_splits)

lemma grounds_ok_stop: "grounds_ok g \<Longrightarrow> grounds_ok (snd (StopMovement now i g))"
  by (auto simp: StopMovement_def intro!: grounds_ok_modify split: option.split)

lemma grounds_ok_start:
  assumes "grounds_ok g" and "GetPlayer (gWorld g) i = Some p" and "ValidateMovementRequest (wpPosition p) d = None"
    and "100 \<le> distance3 (wpPosition p) d"
  shows "grounds_ok (snd (updateMovementState now i d g))"
proof -
  have "in_world d" "distance3 (wpPosition p) d \<le> 9900 * 9900"
    using assms(3) by (auto simp: ValidateMovementRequest_def validateWorldBounds_def maxMovementDistance_def split: if_splits)
  then show ?thesis using assms(1,2,4)
    by (auto simp: updateMovementState_def on_the_way_def intro!: grounds_ok_modify split: option.split)
qed

lemma grounds_ok_StartMovement:
  assumes "grounds_ok g"
  shows "grounds_ok (snd (StartMovement now i d g))"
proof (cases "GetPlayer (gWorld g) i")
  case (Some p)
  define g1 where "g1 = (if wpIsMoving p then snd (StopMovement now i g) else g)"
  have ok: "grounds_ok g1" using assms by (simp add: g1_def grounds_ok_stop)
  have "\<exists>p1. GetPlayer (gWorld g1) i = Some p1 \<and> wpPosition p1 = wpPosition p"
    using Some by (auto simp: g1_def StopMovement_def GetPlayer_def players_modified)
  then obtain p1 where p1: "GetPlayer (gWorld g1) i = Some p1" "wpPosition p1 = wpPosition p" by blast
  show ?thesis
    using ok grounds_ok_start [OF ok p1(1), of d now] p1(2)
    unfolding StartMovement_cases [OF Some] g1_def [symmetric] by (auto simp: Let_def not_less split: option.split)
qed (use assms in \<open>simp add: StartMovement_def\<close>)


text \<open>What leaves positions, characters and movements alone.\<close>

definition same_bodies :: "WorldRegistry \<Rightarrow> WorldRegistry \<Rightarrow> bool" where
  "same_bodies wr wr' \<longleftrightarrow> (\<forall>i. map_option (\<lambda>p. (wpPosition p, wpCharacter p, wpIsMoving p)) (map_of (players wr') i)
     = map_option (\<lambda>p. (wpPosition p, wpCharacter p, wpIsMoving p)) (map_of (players wr) i))"

lemma same_bodies_refl [simp]: "same_bodies wr wr"
  by (simp add: same_bodies_def)

lemma same_bodies_trans: "same_bodies a b \<Longrightarrow> same_bodies b c \<Longrightarrow> same_bodies a c"
  by (simp add: same_bodies_def)

lemma same_bodies_learn_forget: "same_bodies wr (learn a b wr)" "same_bodies wr (forget a b wr)"
  by (auto simp: same_bodies_def learn_def forget_def players_modified option.map_comp comp_def)

lemma same_bodies_step [simp]:
  "same_bodies wr wr' \<Longrightarrow> same_bodies wr (learn a b wr')" "same_bodies wr wr' \<Longrightarrow> same_bodies wr (forget a b wr')"
  by (blast intro: same_bodies_trans same_bodies_learn_forget)+

lemma same_bodies_enter: "same_bodies wr (fst st) \<Longrightarrow> same_bodies wr (fst (enter_range c others st))"
proof (induction c others st rule: enter_range.induct)
  case (2 c p others wr' out)
  then show ?case by (auto simp: Let_def)
qed simp

lemma same_bodies_leave: "same_bodies wr (fst st) \<Longrightarrow> same_bodies wr (fst (leave_range c keep known st))"
proof (induction c keep known st rule: leave_range.induct)
  case (2 c keep i known wr' out)
  then show ?case by (auto simp: Let_def split: option.split)
qed simp

lemma same_bodies_reconcile: "same_bodies wr (fst (reconcilePlayerVisibility c wr))"
proof (cases "GetPlayer wr c")
  case (Some m)
  obtain wr1 out1 where e: "enter_range c (GetPlayersInRange wr (wpPosition m) VisibilityWatchRadius) (wr, []) = (wr1, out1)"
    by fastforce
  then have "same_bodies wr wr1" using same_bodies_enter [of wr "(wr, [])"] by (metis fst_conv same_bodies_refl)
  then show ?thesis by (simp add: reconcilePlayerVisibility_def Some e Let_def same_bodies_leave)
qed (simp add: reconcilePlayerVisibility_def)

lemma grounds_ok_same_bodies:
  assumes "grounds_ok g" and "same_bodies (gWorld g) wr" and "world_ok wr"
  shows "grounds_ok (g\<lparr>gWorld := wr\<rparr>)"
proof -
  have "placed p \<and> (wpIsMoving p \<longrightarrow> on_the_way (move_of g i))" if "map_of (players wr) i = Some p" for i p
  proof -
    note here = that
    have "map_option (\<lambda>p. (wpPosition p, wpCharacter p, wpIsMoving p)) (map_of (players wr) i)
        = map_option (\<lambda>p. (wpPosition p, wpCharacter p, wpIsMoving p)) (map_of (players (gWorld g)) i)"
      using assms(2) unfolding same_bodies_def by (rule spec)
    then obtain p0 where "map_of (players (gWorld g)) i = Some p0" "wpPosition p0 = wpPosition p"
      "wpCharacter p0 = wpCharacter p" "wpIsMoving p0 = wpIsMoving p"
      using here by (cases "map_of (players (gWorld g)) i") auto
    then show ?thesis using assms(1) unfolding grounds_ok_def placed_def by metis
  qed
  then show ?thesis using assms(3) by (simp add: grounds_ok_def move_of_def)
qed

lemma npc_loops_parts [simp]:
  "mGrounds (snd (npc_enter env c ns ks)) = mGrounds (snd ks)" "mCmds (snd (npc_enter env c ns ks)) = mCmds (snd ks)"
  "mGrounds (snd (npc_leave env c keep ids ks)) = mGrounds (snd ks)" "mCmds (snd (npc_leave env c keep ids ks)) = mCmds (snd ks)"
proof -
  show "mGrounds (snd (npc_enter env c ns ks)) = mGrounds (snd ks)" "mCmds (snd (npc_enter env c ns ks)) = mCmds (snd ks)"
    by (induction env c ns ks rule: npc_enter.induct) simp_all
  show "mGrounds (snd (npc_leave env c keep ids ks)) = mGrounds (snd ks)" "mCmds (snd (npc_leave env c keep ids ks)) = mCmds (snd ks)"
    by (induction env c keep ids ks rule: npc_leave.induct) simp_all
qed

lemma updateNPC_parts:
  obtains known where "mGrounds (updateNPCVisibility env c p pos st)
      = (mGrounds st)\<lparr>gWorld := modify_player (wpCharID p) (\<lambda>s. s\<lparr>wpKnownNPCs := known\<rparr>) (mWorld st)\<rparr>"
    "mCmds (updateNPCVisibility env c p pos st) = mCmds st"
proof -
  obtain k1 st1 where e: "npc_enter env c (GetNPCsInRange (mWorld st) pos VisibilityWatchRadius) (wpKnownNPCs p, st) = (k1, st1)"
    by fastforce
  obtain k2 st2 where l: "npc_leave env c (map npcObjectID (GetNPCsInRange (mWorld st) pos VisibilityForgetRadius)) (map fst k1) (k1, st1) = (k2, st2)"
    by fastforce
  have "mGrounds st2 = mGrounds st" "mCmds st2 = mCmds st"
    using npc_loops_parts(1,2) [of env c "GetNPCsInRange (mWorld st) pos VisibilityWatchRadius" "(wpKnownNPCs p, st)"]
      npc_loops_parts(3,4) [of env c "map npcObjectID (GetNPCsInRange (mWorld st) pos VisibilityForgetRadius)" "map fst k1" "(k1, st1)"]
    by (simp_all add: e l)
  then show ?thesis using that [of k2] by (simp add: updateNPCVisibility_def e l on_world_def)
qed

lemma grounds_ok_known: "grounds_ok g \<Longrightarrow> grounds_ok (g\<lparr>gWorld := modify_player i (\<lambda>s. s\<lparr>wpKnownNPCs := k\<rparr>) (gWorld g)\<rparr>)"
  by (rule grounds_ok_same_bodies)
    (auto simp: same_bodies_def players_modified option.map_comp comp_def grounds_ok_def world_ok_def grid_ok_modify map_ok_players)

lemma move_inv_npcs: "move_inv st \<Longrightarrow> move_inv (updateNPCVisibility env c p pos st)"
  by (rule updateNPC_parts [of env c p pos st]) (simp add: move_inv_def grounds_ok_known)

lemma move_inv_grounds:
  assumes "move_inv st" and "grounds_ok g" and "mGrounds st' = g" and "mCmds st' = mCmds st"
  shows "move_inv st'"
  using assms by (simp add: move_inv_def)

text \<open>The steps: a packet of any of the three kinds on any connection, or the loop taking a command.\<close>

datatype move_request = MoveRequest | PositionReport | StopReport

fun handle_move :: "move_request \<Rightarrow> move_env \<Rightarrow> conn \<Rightarrow> byte list \<Rightarrow> mover \<Rightarrow> (go_error + unit) \<times> mover" where
  "handle_move MoveRequest = handleMoveBackwardToLocation"
| "handle_move PositionReport = handleValidatePosition"
| "handle_move StopReport = handleCannotMoveAnymore"

inductive movement :: "mover \<Rightarrow> mover \<Rightarrow> bool" for st0 where
  start: "movement st0 st0"
| packet: "movement st0 st \<Longrightarrow> movement st0 (snd (handle_move req env c payload st))"
| loop: "movement st0 st \<Longrightarrow> movement st0 (loop_takes now driven st)"

lemma move_inv_request: "move_inv st \<Longrightarrow> move_inv (snd (handleMoveBackwardToLocation env c payload st))"
proof -
  assume inv: "move_inv st"
  show "move_inv (snd (handleMoveBackwardToLocation env c payload st))"
  proof (cases "session_player c st")
    case (Inr p)
    show ?thesis
    proof (cases "ParseMoveBackwardToLocation payload")
      case (Inr pkt)
      note parsed = Inr
      show ?thesis
      proof (cases "move_Validate pkt")
        case (Inr u)
        then have ok: "move_Validate pkt = Inr ()" "in_world (origin_of pkt)" by (simp_all add: move_Validate_ok)
        note run = handleMove_grounds(1) [OF \<open>session_player c st = Inr p\<close> parsed ok(1), of env]
        have g: "grounds_ok (mGrounds (snd (handleMoveBackwardToLocation env c payload st)))"
          unfolding run using inv ok(2) by (simp add: grounds_ok_StartMovement grounds_ok_update move_inv_def)
        have "set (mCmds (snd (handleMoveBackwardToLocation env c payload st))) \<subseteq> set (mCmds st) \<union> {(wpCharID p, None)}"
          by (auto simp: handleMoveBackwardToLocation_def \<open>session_player c st = Inr p\<close> parsed ok(1) Let_def mv_send_def
              on_grounds_def split: sum.splits prod.splits if_splits)
        then show ?thesis using g inv unfolding move_inv_def by blast
      qed (simp add: handleMoveBackwardToLocation_def \<open>session_player c st = Inr p\<close> parsed inv)
    qed (simp add: handleMoveBackwardToLocation_def \<open>session_player c st = Inr p\<close> inv)
  qed (simp add: handleMoveBackwardToLocation_def inv)
qed


lemma move_inv_report:
  assumes inv: "move_inv st"
  shows "move_inv (snd (handleValidatePosition env c payload st))"
proof (cases "session_player c st")
  case (Inr p)
  note p = Inr
  show ?thesis
  proof (cases "ParseValidatePosition payload")
    case (Inr pkt)
    note parsed = Inr
    show ?thesis
    proof (cases "position_Validate pkt")
      case (Inr u)
      let ?q = "\<lparr>X = vpX pkt, Y = vpY pkt, Z = vpZ pkt\<rparr>"
      have q: "in_world ?q" using Inr by (simp add: position_Validate_ok)
      have reported: "move_inv (mv_command (wpCharID p) (Some ?q) st1)" if "move_inv st1" for st1
        using that q by (auto simp: move_inv_def)
      define st2 where "st2 = snd (on_grounds (uc_UpdatePosition (clock env) (wpCharID p) ?q (vpHeading pkt)) st)"
      have "move_inv st2" using inv q by (simp add: st2_def move_inv_def grounds_ok_update)
      then show ?thesis
        using inv reported move_inv_npcs
        by (simp add: handleValidatePosition_def p parsed Inr Let_def st2_def [symmetric] move_inv_def [of "snd (sendPositionCorrection _ _ _ _ _)"]
            move_inv_def [of st] split: sum.split)
    qed (simp add: handleValidatePosition_def p parsed inv)
  qed (simp add: handleValidatePosition_def p inv)
qed (simp add: handleValidatePosition_def inv)

lemma move_inv_stop:
  assumes inv: "move_inv st"
  shows "move_inv (snd (handleCannotMoveAnymore env c payload st))"
proof (cases "session_player c st")
  case (Inr p)
  note p = Inr
  show ?thesis
  proof (cases "ParseCannotMoveAnymore payload")
    case (Inr pkt)
    note parsed = Inr
    show ?thesis
    proof (cases "stop_Validate pkt")
      case (Inr u)
      let ?q = "\<lparr>X = cmX pkt, Y = cmY pkt, Z = cmZ pkt\<rparr>"
      have q: "in_world ?q" using Inr by (simp add: stop_Validate_ok)
      obtain r st2 where s: "on_grounds (StopMovement (clock env) (wpCharID p)) st = (r, st2)" by fastforce
      have "move_inv st2"
        using inv on_grounds_parts [of "StopMovement (clock env) (wpCharID p)" st] by (simp add: s move_inv_def grounds_ok_stop)
      then show ?thesis
        using q by (simp add: handleCannotMoveAnymore_def p parsed Inr Let_def s move_inv_def grounds_ok_update split: sum.split)
    qed (simp add: handleCannotMoveAnymore_def p parsed inv)
  qed (simp add: handleCannotMoveAnymore_def p inv)
qed (simp add: handleCannotMoveAnymore_def inv)

lemma move_inv_loop:
  assumes inv: "move_inv st"
  shows "move_inv (loop_takes now driven st)"
proof (cases "mCmds st")
  case (Cons cmd cmds)
  obtain i what where cmd: "cmd = (i, what)" by fastforce
  show ?thesis
  proof (cases what)
    case None
    then show ?thesis using inv Cons cmd by (auto simp: loop_takes_def move_inv_def)
  next
    case (Some pos)
    define wr where "wr = (if driven i then mWorld st else case GetPlayer (mWorld st) i of None \<Rightarrow> mWorld st
        | Some p \<Rightarrow> snd (UpdatePlayerPosition now i pos (wpHeading p) (mWorld st)))"
    have g: "grounds_ok (mGrounds st)" "in_world pos" using inv Cons cmd Some by (auto simp: move_inv_def)
    have ok: "grounds_ok ((mGrounds st)\<lparr>gWorld := wr\<rparr>)"
      using g grounds_ok_position [OF g, of now i] by (auto simp: wr_def split: option.split)
    then have "grounds_ok ((mGrounds st)\<lparr>gWorld := fst (reconcilePlayerVisibility i wr)\<rparr>)"
      using grounds_ok_same_bodies [OF ok, of "fst (reconcilePlayerVisibility i wr)"]
      by (simp add: same_bodies_reconcile world_ok_reconcile grounds_ok_def)
    then show ?thesis
      using inv Cons cmd Some by (auto simp: loop_takes_def Let_def wr_def [symmetric] on_world_def move_inv_def)
  qed
qed (use inv in \<open>simp add: loop_takes_def\<close>)


lemma sample_walker_inv: "move_inv sample_walker"
proof -
  have "in_world Origin" by (simp add: in_world_def map_bounds Origin_def)
  then show ?thesis
    using sample_walker_ok by (simp add: move_inv_def grounds_ok_def sample_walker_def players_AddPlayer placed_def NewWorldRegistry_def)
qed



section \<open>Which NPCs a client shows\<close>

definition shown_ids :: "(int, bool) go_map \<Rightarrow> int set" where
  "shown_ids known = {i. map_of known i = Some True}"

definition only_true :: "(int, bool) go_map \<Rightarrow> bool" where
  "only_true known \<longleftrightarrow> map_ok known \<and> (\<forall>i v. map_of known i = Some v \<longrightarrow> v)"

text \<open>What a client has on its screen after a packet to it.\<close>

fun show_npc :: "conn \<times> move_packet \<Rightarrow> int set \<Rightarrow> int set" where
  "show_npc (c, NpcInfo n) S = insert (npcObjectID n) S"
| "show_npc (c, NpcDelete i) S = S - {i}"
| "show_npc (c, _) S = S"

lemma shown_ids_changes [simp]:
  "shown_ids (AList.update i True known) = insert i (shown_ids known)" "shown_ids (AList.delete i known) = shown_ids known - {i}"
  by (auto simp: shown_ids_def)

lemma only_true_changes [simp]:
  "only_true known \<Longrightarrow> only_true (AList.update i True known)" "only_true known \<Longrightarrow> only_true (AList.delete i known)"
  by (auto simp: only_true_def split: if_splits)

lemma only_true_keys: "only_true known \<Longrightarrow> set (map fst known) = shown_ids known"
proof -
  assume k: "only_true known"
  have "i \<in> set (map fst known) \<longleftrightarrow> map_of known i \<noteq> None" for i by (simp add: map_of_eq_None_iff)
  then show ?thesis using k by (force simp: shown_ids_def only_true_def)
qed

lemma npc_enter_shows:
  assumes "npc_enter env c ns (known, st) = (known', st')" and "only_true known"
  shows "only_true known' \<and> shown_ids known' = shown_ids known \<union> npcObjectID ` set ns
    \<and> ((\<forall>pk. accepts env c pk) \<longrightarrow> (\<exists>out. mSent st' = mSent st @ out \<and> fold show_npc out (shown_ids known) = shown_ids known'))"
  using assms
proof (induction ns arbitrary: known st)
  case (Cons n ns)
  show ?case
  proof (cases "map_of known (npcObjectID n) = Some True")
    case True
    then show ?thesis using Cons.IH [of known st] Cons.prems by (auto simp: shown_ids_def)
  next
    case False
    let ?k = "AList.update (npcObjectID n) True known" and ?s = "snd (mv_send env c (NpcInfo n) st)"
    note ih = Cons.IH [of ?k ?s] 
    have "\<exists>out. mSent st' = mSent st @ out \<and> fold show_npc out (shown_ids known) = shown_ids known'"
      if ok: "\<forall>pk. accepts env c pk"
    proof -
      obtain out where out: "mSent st' = mSent ?s @ out" "fold show_npc out (shown_ids ?k) = shown_ids known'"
        using ih Cons.prems False ok by auto
      then show ?thesis using ok by (intro exI [of _ "(c, NpcInfo n) # out"]) (simp add: mv_send_def)
    qed
    then show ?thesis using ih Cons.prems False by auto
  qed
next
  case Nil
  then show ?case by (auto intro: exI [of _ "[]"])
qed

lemma npc_leave_shows:
  assumes "npc_leave env c keep ids (known, st) = (known', st')" and "only_true known"
  shows "only_true known' \<and> shown_ids known' = shown_ids known - (set ids - set keep)
    \<and> ((\<forall>pk. accepts env c pk) \<longrightarrow> (\<exists>out. mSent st' = mSent st @ out \<and> fold show_npc out (shown_ids known) = shown_ids known'))"
  using assms
proof (induction ids arbitrary: known st)
  case (Cons i ids)
  show ?case
  proof (cases "i \<in> set keep")
    case True
    then show ?thesis using Cons.IH [of known st] Cons.prems by auto
  next
    case False
    let ?k = "AList.delete i known" and ?s = "snd (mv_send env c (NpcDelete i) st)"
    note ih = Cons.IH [of ?k ?s]
    have "\<exists>out. mSent st' = mSent st @ out \<and> fold show_npc out (shown_ids known) = shown_ids known'"
      if ok: "\<forall>pk. accepts env c pk"
    proof -
      obtain out where out: "mSent st' = mSent ?s @ out" "fold show_npc out (shown_ids ?k) = shown_ids known'"
        using ih Cons.prems False ok by auto
      then show ?thesis using ok by (intro exI [of _ "(c, NpcDelete i) # out"]) (simp add: mv_send_def)
    qed
    then show ?thesis using ih Cons.prems False by auto
  qed
next
  case Nil
  then show ?case by (auto intro: exI [of _ "[]"])
qed

lemma watch_within_forget:
  assumes "grid_ok wr"
  shows "set (GetNPCsInRange wr pos VisibilityWatchRadius) \<subseteq> set (GetNPCsInRange wr pos VisibilityForgetRadius)"
proof
  fix n assume "n \<in> set (GetNPCsInRange wr pos VisibilityWatchRadius)"
  then have n: "map_of (npcs wr) (npcObjectID n) = Some n" "dist2 pos (npcPosition n) < 3401 * 3401"
    using npcs_in_range(1) [OF assms, of 3400 n pos] by (simp_all add: VisibilityWatchRadius_def)
  then show "n \<in> set (GetNPCsInRange wr pos VisibilityForgetRadius)"
    using npcs_in_range(2) [OF assms, of 3900 "npcObjectID n" n pos] by (simp add: VisibilityForgetRadius_def VisibilityWatchRadius_def)
qed

text \<open>
  C11: Which NPCs a client shows. After a reported position the NPCs marked as shown are exactly those
  within the watch radius and, of the ones shown before, those within the forget radius: so everything
  within 3400 units is shown, nothing from 3901 units on, and nothing flickers in between. As long as
  the connection accepts packets, what the client has on its screen is what is marked.
\<close>

theorem npcs_shown_after_report:
  fixes env :: move_env and c :: conn and pos :: Position
  assumes "world_ok (mWorld st)" and "GetPlayer (mWorld st) (wpCharID p) = Some p" and "only_true (wpKnownNPCs p)"
  defines "st' \<equiv> updateNPCVisibility env c p pos st"
    and "within \<equiv> \<lambda>r. npcObjectID ` set (GetNPCsInRange (mWorld st) pos r)"
  shows "\<exists>p'. GetPlayer (mWorld st') (wpCharID p) = Some p'
    \<and> shown_ids (wpKnownNPCs p') = (shown_ids (wpKnownNPCs p) \<inter> within VisibilityForgetRadius) \<union> within VisibilityWatchRadius
    \<and> only_true (wpKnownNPCs p')
    \<and> {i. \<exists>n. GetNPC (mWorld st') i = Some n \<and> dist2 pos (npcPosition n) \<le> 3400 * 3400} \<subseteq> shown_ids (wpKnownNPCs p')
    \<and> shown_ids (wpKnownNPCs p') \<subseteq> {i. \<exists>n. GetNPC (mWorld st') i = Some n \<and> dist2 pos (npcPosition n) < 3901 * 3901}
    \<and> ((\<forall>pk. accepts env c pk) \<longrightarrow> (\<exists>out. mSent st' = mSent st @ out
        \<and> fold show_npc out (shown_ids (wpKnownNPCs p)) = shown_ids (wpKnownNPCs p')))"
proof -
  let ?W = "GetNPCsInRange (mWorld st) pos VisibilityWatchRadius" and ?F = "GetNPCsInRange (mWorld st) pos VisibilityForgetRadius"
  have grid: "grid_ok (mWorld st)" using assms(1) by (simp add: world_ok_def)
  obtain k1 st1 where e: "npc_enter env c ?W (wpKnownNPCs p, st) = (k1, st1)" by fastforce
  obtain k2 st2 where l: "npc_leave env c (map npcObjectID ?F) (map fst k1) (k1, st1) = (k2, st2)" by fastforce
  note enter = npc_enter_shows [OF e assms(3)]
  note leave = npc_leave_shows [OF l, OF conjunct1 [OF enter]]
  have "mGrounds st2 = mGrounds st"
    using npc_loops_parts(1) [of env c ?W "(wpKnownNPCs p, st)"] npc_loops_parts(3) [of env c "map npcObjectID ?F" "map fst k1" "(k1, st1)"]
    by (simp add: e l)
  then have st': "mWorld st' = modify_player (wpCharID p) (\<lambda>s. s\<lparr>wpKnownNPCs := k2\<rparr>) (mWorld st)" "mSent st' = mSent st2"
    by (simp_all add: st'_def updateNPCVisibility_def e l on_world_def)
  then have p': "GetPlayer (mWorld st') (wpCharID p) = Some (p\<lparr>wpKnownNPCs := k2\<rparr>)" "npcs (mWorld st') = npcs (mWorld st)"
    using assms(2) by (simp_all add: GetPlayer_def players_modified) (simp add: modify_player_def split: option.split)
  have k2: "shown_ids k2 = (shown_ids (wpKnownNPCs p) \<inter> within VisibilityForgetRadius) \<union> within VisibilityWatchRadius"
    using leave enter only_true_keys [of k1] watch_within_forget [OF grid, of pos] by (auto simp: within_def)
  have watch: "{i. \<exists>n. GetNPC (mWorld st') i = Some n \<and> dist2 pos (npcPosition n) \<le> 3400 * 3400} \<subseteq> within VisibilityWatchRadius"
    using npcs_in_range(2) [OF grid, of 3400 _ _ pos] grid_okD(3) [OF grid]
    by (force simp: GetNPC_def p'(2) within_def VisibilityWatchRadius_def)
  have "within VisibilityForgetRadius \<subseteq> {i. \<exists>n. GetNPC (mWorld st') i = Some n \<and> dist2 pos (npcPosition n) < 3901 * 3901}"
    using npcs_in_range(1) [OF grid, of 3900 _ pos]
    by (force simp: GetNPC_def p'(2) within_def VisibilityForgetRadius_def VisibilityWatchRadius_def)
  moreover have "within VisibilityWatchRadius \<subseteq> within VisibilityForgetRadius"
    using watch_within_forget [OF grid, of pos] by (auto simp: within_def)
  moreover have "\<exists>out. mSent st' = mSent st @ out \<and> fold show_npc out (shown_ids (wpKnownNPCs p)) = shown_ids k2"
    if ok: "\<forall>pk. accepts env c pk"
  proof -
    obtain out1 where "mSent st1 = mSent st @ out1" "fold show_npc out1 (shown_ids (wpKnownNPCs p)) = shown_ids k1"
      using enter ok by blast
    moreover obtain out2 where "mSent st2 = mSent st1 @ out2" "fold show_npc out2 (shown_ids k1) = shown_ids k2"
      using leave ok by blast
    ultimately show ?thesis by (intro exI [of _ "out1 @ out2"]) (simp add: st'(2))
  qed
  ultimately show ?thesis using p'(1) k2 watch leave by auto
qed


definition sample_orc :: NpcInstance where
  "sample_orc = \<lparr>npcObjectID = 9, npcName = ''orc'', npcPosition = \<lparr>X = 100, Y = 0, Z = 0\<rparr>\<rparr>"

lemma npcs_shown_after_report_witness:
  "\<exists>p p'. session_player 1 sample_walker = Inr p
     \<and> GetPlayer (mWorld (updateNPCVisibility sample_move_env 1 p Origin (on_world (AddNPC sample_orc) sample_walker))) 7 = Some p'
     \<and> 9 \<in> shown_ids (wpKnownNPCs p')"
proof -
  let ?st = "on_world (AddNPC sample_orc) sample_walker"
  obtain p where p: "session_player 1 sample_walker = Inr p" "wpCharID p = 7" "GetPlayer (mWorld sample_walker) 7 = Some p"
    using sample_walker_player session_player_here [OF _ sample_walker_ok] by metis
  have ok: "world_ok (mWorld ?st)"
    using sample_walker_ok by (simp add: on_world_def world_ok_def grid_ok_AddNPC map_ok_players)
  have here: "GetPlayer (mWorld ?st) (wpCharID p) = Some p" "GetNPC (mWorld ?st) 9 = Some sample_orc"
    using p(2,3) by (simp_all add: on_world_def AddNPC_def GetPlayer_def GetNPC_def Let_def sample_orc_def)
  have "only_true (wpKnownNPCs p)"
    using p(3) by (auto simp: sample_walker_def GetPlayer_def players_AddPlayer NewWorldRegistry_def only_true_def)
  note shown = npcs_shown_after_report [OF ok here(1) this, of sample_move_env 1 Origin]
  then obtain p' where p': "GetPlayer (mWorld (updateNPCVisibility sample_move_env 1 p Origin ?st)) 7 = Some p'"
    "{i. \<exists>n. GetNPC (mWorld (updateNPCVisibility sample_move_env 1 p Origin ?st)) i = Some n
       \<and> dist2 Origin (npcPosition n) \<le> 3400 * 3400} \<subseteq> shown_ids (wpKnownNPCs p')"
    using p(2) by auto
  obtain known where "mGrounds (updateNPCVisibility sample_move_env 1 p Origin ?st)
      = (mGrounds ?st)\<lparr>gWorld := modify_player (wpCharID p) (\<lambda>s. s\<lparr>wpKnownNPCs := known\<rparr>) (mWorld ?st)\<rparr>"
    by (rule updateNPC_parts)
  then have "GetNPC (mWorld (updateNPCVisibility sample_move_env 1 p Origin ?st)) 9 = Some sample_orc"
    using here(2) by (simp add: GetNPC_def modify_player_def split: option.split)
  then have "9 \<in> shown_ids (wpKnownNPCs p')"
    using p'(2) by (auto simp: dist2_def Origin_def sample_orc_def)
  then show ?thesis using p(1) p'(1) by blast
qed

section \<open>Who is told of a movement\<close>

text \<open>What \<open>sort.Slice\<close> promises: the same players, ordered by their distance.\<close>

definition sorts :: "move_env \<Rightarrow> bool" where
  "sorts env \<longleftrightarrow> (\<forall>pos ps. mset (sort_by_distance env pos ps) = mset ps
     \<and> sorted (map (\<lambda>p. sqDist (wpPosition p) pos) (sort_by_distance env pos ps)))"

lemma closestPlayers_nearest:
  assumes "sorts env"
  shows "length (closestPlayers env ps pos k) = min k (length ps)"
    and "\<exists>rest. mset (closestPlayers env ps pos k) + mset rest = mset ps \<and> (\<forall>a \<in> set (closestPlayers env ps pos k).
       \<forall>b \<in> set rest. sqDist (wpPosition a) pos \<le> sqDist (wpPosition b) pos)"
proof -
  let ?s = "sort_by_distance env pos ps"
  have s: "mset ?s = mset ps" "sorted (map (\<lambda>p. sqDist (wpPosition p) pos) ?s)" using assms by (auto simp: sorts_def)
  have len: "length ?s = length ps" using s(1) by (rule mset_eq_length)
  then show "length (closestPlayers env ps pos k) = min k (length ps)" by (simp add: closestPlayers_def)
  show "\<exists>rest. mset (closestPlayers env ps pos k) + mset rest = mset ps \<and> (\<forall>a \<in> set (closestPlayers env ps pos k).
       \<forall>b \<in> set rest. sqDist (wpPosition a) pos \<le> sqDist (wpPosition b) pos)"
  proof (cases "length ps \<le> k")
    case True
    then show ?thesis by (intro exI [of _ "[]"]) (simp add: closestPlayers_def)
  next
    case False
    have "mset (take k ?s) + mset (drop k ?s) = mset ps" using s(1) by (metis append_take_drop_id mset_append)
    moreover have "sqDist (wpPosition a) pos \<le> sqDist (wpPosition b) pos" if "a \<in> set (take k ?s)" "b \<in> set (drop k ?s)" for a b
    proof -
      have "sorted (map (\<lambda>p. sqDist (wpPosition p) pos) (take k ?s @ drop k ?s))" using s(2) by simp
      then show ?thesis using that unfolding map_append sorted_append by auto
    qed
    ultimately show ?thesis using False by (intro exI [of _ "drop k ?s"]) (simp add: closestPlayers_def)
  qed
qed

definition told :: "move_env \<Rightarrow> conn \<Rightarrow> move_packet \<Rightarrow> (string, conn) go_map \<Rightarrow> PlayerWorldState list \<Rightarrow> (conn \<times> move_packet) list" where
  "told env c pk conns ps = map (\<lambda>d. (d, pk))
     (filter (\<lambda>d. d \<noteq> c \<and> accepts env d pk) (List.map_filter (\<lambda>o'. GetConnection conns (wpAccountName o')) ps))"

lemma broadcast_to_sent: "mSent (broadcast_to env c pk ps st) = mSent st @ told env c pk (mConnections st) ps"
proof (induction ps arbitrary: st)
  case (Cons p ps)
  then show ?case
    by (auto simp: told_def map_filter_def mv_send_def split: option.split)
qed (simp add: told_def map_filter_def)

text \<open>
  C40: Who is told that a player moves: of the others in the forget radius of the place where it stands
  the 48 that are nearest, or all if they are fewer, each that is connected and not the mover's own
  connection once, in one packet. Nobody who is left out is nearer than one who is told.
\<close>

theorem movement_fan_out:
  fixes env :: move_env and c :: conn
  assumes "sorts env" and "world_ok (gWorld g)" and "GetPlayer (gWorld g) i = Some p"
    and "GetVisiblePlayers i g = Inr (VisiblePlayers r)"
  defines "pk \<equiv> MoveToLocation i (TargetPosition r) (StartPosition r)"
    and "away \<equiv> \<lambda>q. sqDist (wpPosition q) (StartPosition r)"
  shows "\<exists>chosen rest. mSent (broadcastMovementToVisiblePlayers env i r c st)
        = mSent st @ told env c pk (mConnections st) chosen
    \<and> mset chosen + mset rest = mset (VisiblePlayers r) \<and> length chosen = min 48 (length (VisiblePlayers r))
    \<and> (\<forall>a \<in> set chosen. \<forall>b \<in> set rest. away a \<le> away b)
    \<and> distinct (map wpCharID (VisiblePlayers r))
    \<and> wpCharID ` set (VisiblePlayers r) \<subseteq> {j. j \<noteq> i \<and> (\<exists>q. GetPlayer (gWorld g) j = Some q
        \<and> dist2 (wpPosition p) (wpPosition q) < 3901 * 3901)}
    \<and> {j. j \<noteq> i \<and> (\<exists>q. GetPlayer (gWorld g) j = Some q \<and> dist2 (wpPosition p) (wpPosition q) \<le> 3900 * 3900)}
        \<subseteq> wpCharID ` set (VisiblePlayers r)"
proof -
  have grid: "grid_ok (gWorld g)" using assms(2) by (simp add: world_ok_def)
  let ?seen = "GetPlayersInRange (gWorld g) (wpPosition p) 3900"
  have v: "VisiblePlayers r = filter (\<lambda>q. wpCharID q \<noteq> i) ?seen"
    using assms(3,4) by (simp add: GetVisiblePlayers_def VisibilityForgetRadius_def VisibilityWatchRadius_def)
  let ?chosen = "closestPlayers env (VisiblePlayers r) (StartPosition r) 48"
  note near = closestPlayers_nearest [OF assms(1), of "VisiblePlayers r" "StartPosition r" 48]
  obtain rest where rest: "mset ?chosen + mset rest = mset (VisiblePlayers r)" "\<forall>a \<in> set ?chosen. \<forall>b \<in> set rest. away a \<le> away b"
    using near(2) unfolding away_def by blast
  have "mSent (broadcastMovementToVisiblePlayers env i r c st) = mSent st @ told env c pk (mConnections st) ?chosen"
    by (simp add: broadcastMovementToVisiblePlayers_def pk_def broadcast_to_sent moveBroadcastObserverCap_def)
      (simp add: closestPlayers_def told_def map_filter_def)
  moreover have "distinct (map wpCharID (VisiblePlayers r))"
    unfolding v using players_in_range(3) [OF grid, of 3900 "wpPosition p"] by (simp add: distinct_map_filter)
  moreover have "wpCharID ` set (VisiblePlayers r) \<subseteq> {j. j \<noteq> i \<and> (\<exists>q. GetPlayer (gWorld g) j = Some q
        \<and> dist2 (wpPosition p) (wpPosition q) < 3901 * 3901)}"
    using players_in_range(1) [OF grid, of 3900 _ "wpPosition p"] unfolding v by (force simp: GetPlayer_def)
  moreover have "{j. j \<noteq> i \<and> (\<exists>q. GetPlayer (gWorld g) j = Some q \<and> dist2 (wpPosition p) (wpPosition q) \<le> 3900 * 3900)}
        \<subseteq> wpCharID ` set (VisiblePlayers r)"
    using players_in_range(2) [OF grid, of 3900 _ _ "wpPosition p"] grid_okD(2) [OF grid] unfolding v by (force simp: GetPlayer_def)
  ultimately show ?thesis using rest near(1) by (intro exI [of _ ?chosen] exI [of _ rest]) simp
qed


definition sample_pair :: mover where
  "sample_pair = on_world (AddPlayer 0 \<lparr>ID = 8, AccountName = ''eve'', CharName = ''Eve'', CharPosition = \<lparr>X = 30, Y = 40, Z = 0\<rparr>\<rparr>)
     (sample_walker\<lparr>mConnections := [(''bob'', 1), (''eve'', 2)]\<rparr>)"

definition sample_way :: "PlayerWorldState list \<Rightarrow> MovementResult" where
  "sample_way seen = \<lparr>Success = True, StartPosition = Origin, TargetPosition = \<lparr>X = 500, Y = 0, Z = 0\<rparr>, VisiblePlayers = seen,
     ValidationError = None\<rparr>"

lemma sample_sorts: "sorts sample_move_env"
  by (simp add: sorts_def sample_move_env_def)

lemma movement_fan_out_witness:
  "\<exists>seen chosen. GetVisiblePlayers 7 (mGrounds sample_pair) = Inr seen \<and> 8 \<in> wpCharID ` set seen
     \<and> mSent (broadcastMovementToVisiblePlayers sample_move_env 7 (sample_way seen) 1 sample_pair)
       = told sample_move_env 1 (MoveToLocation 7 \<lparr>X = 500, Y = 0, Z = 0\<rparr> Origin) [(''bob'', 1), (''eve'', 2)] chosen
     \<and> length chosen = min 48 (length seen)"
proof -
  have ok: "world_ok (gWorld (mGrounds sample_pair))"
    using sample_walker_ok by (simp add: sample_pair_def on_world_def world_ok_def grid_ok_AddPlayer map_ok_players)
  obtain p q where p: "GetPlayer (gWorld (mGrounds sample_pair)) 7 = Some p" "wpPosition p = Origin"
    and q: "GetPlayer (gWorld (mGrounds sample_pair)) 8 = Some q" "wpPosition q = \<lparr>X = 30, Y = 40, Z = 0\<rparr>"
    by (auto simp: sample_pair_def sample_walker_def on_world_def GetPlayer_def players_AddPlayer NewWorldRegistry_def)
  obtain seen where seen: "GetVisiblePlayers 7 (mGrounds sample_pair) = Inr seen"
    using p(1) by (auto simp: GetVisiblePlayers_def)
  have r: "GetVisiblePlayers 7 (mGrounds sample_pair) = Inr (VisiblePlayers (sample_way seen))"
    using seen by (simp add: sample_way_def)
  from movement_fan_out [OF sample_sorts ok p(1) r, of 1 sample_pair] obtain chosen where
    chosen: "mSent (broadcastMovementToVisiblePlayers sample_move_env 7 (sample_way seen) 1 sample_pair) = mSent sample_pair
       @ told sample_move_env 1 (MoveToLocation 7 (TargetPosition (sample_way seen)) (StartPosition (sample_way seen))) (mConnections sample_pair) chosen"
    "length chosen = min 48 (length (VisiblePlayers (sample_way seen)))"
    "{j. j \<noteq> 7 \<and> (\<exists>q. GetPlayer (gWorld (mGrounds sample_pair)) j = Some q \<and> dist2 (wpPosition p) (wpPosition q) \<le> 3900 * 3900)}
        \<subseteq> wpCharID ` set (VisiblePlayers (sample_way seen))" by blast
  have "dist2 (wpPosition p) (wpPosition q) \<le> 3900 * 3900" using p(2) q(2) by (simp add: dist2_def Origin_def)
  then have "8 \<in> wpCharID ` set (VisiblePlayers (sample_way seen))" using chosen(3) q(1) by auto
  moreover have "mSent sample_pair = []" "mConnections sample_pair = [(''bob'', 1), (''eve'', 2)]"
    by (simp_all add: sample_pair_def on_world_def sample_walker_def)
  ultimately show ?thesis using seen chosen(1,2) by (intro exI [of _ seen] exI [of _ chosen]) (simp add: sample_way_def)
qed

section \<open>Drift\<close>

text \<open>
  A player that stands is corrected when it reports a place more than 500 units away, and then nothing
  changes; otherwise the report is taken over at once.
\<close>

lemma standing_report:
  assumes "world_ok (mWorld st)" and "session_player c st = Inr p" and "ParseValidatePosition payload = Inr pkt"
    and "position_Validate pkt = Inr ()" and "\<not> wpIsMoving p"
  defines "q \<equiv> \<lparr>X = vpX pkt, Y = vpY pkt, Z = vpZ pkt\<rparr>"
  shows "if 500 * 500 < distance3 (wpPosition p) q
     then snd (handleValidatePosition env c payload st) = snd (sendPositionCorrection env c (wpCharID p) (wpPosition p) st)
     else \<exists>p'. GetPlayer (mWorld (snd (handleValidatePosition env c payload st))) (wpCharID p) = Some p' \<and> wpPosition p' = q"
proof -
  have p: "GetPlayer (mWorld st) (wpCharID p) = Some p" by (rule session_player_here [OF assms(2,1)])
  let ?st2 = "snd (on_grounds (uc_UpdatePosition (clock env) (wpCharID p) q (vpHeading pkt)) st)"
  let ?st3 = "mv_command (wpCharID p) (Some q) ?st2"
  obtain known where "mGrounds (updateNPCVisibility env c p q ?st3)
      = (mGrounds ?st3)\<lparr>gWorld := modify_player (wpCharID p) (\<lambda>s. s\<lparr>wpKnownNPCs := known\<rparr>) (mWorld ?st3)\<rparr>"
    by (rule updateNPC_parts)
  then have "\<exists>p'. GetPlayer (mWorld (updateNPCVisibility env c p q ?st3)) (wpCharID p) = Some p' \<and> wpPosition p' = q"
    using p by (simp add: GetPlayer_def players_modified players_moved moved_to_def)
  then show ?thesis
    using assms(2-5) p
    by (simp add: handleValidatePosition_def ValidateClientPosition_def ShouldCorrectPosition_def correctionThreshold_def
        Let_def q_def [symmetric])
qed

end
