(* ===== verification/Spec2Isabelle.thy ===== *)
theory Spec2Isabelle
  imports LoginCrypt Blowfish GameCrypt L2Packet LoginHandlers GameConn GameSession EventQueue Visibility GameRegions Buffs ItemSteps ItemModel CharacterUseCase LoopSpawns LoopTick KillReward LoopStance LoopPace Movement
begin

text \<open>
  A verification development of the l2go servers.

  \<^bold>\<open>The program.\<close> Two server programs cooperate. The login server (\<open>src/internal/loginserver\<close>) authenticates
  game clients, keeps the list of the game servers that are up, and hands out a session key for the game
  server the client picks. The game server (\<open>src/internal/gameserver\<close>) is connected to the login server,
  consumes the session key of a client that arrives, lets it manage its characters and then runs the world:
  one goroutine, the game loop, owns the state of play, and the handlers of the client packets send it
  commands. Both use the packages under \<open>src/pkg\<close> (ciphers, packet buffers).

  \<^bold>\<open>Conventions.\<close> Fixed-width unsigned integers whose wrap-around matters are words; identifiers that are only
  compared and copied, and numbers that stay far from their bounds, are \<open>int\<close> or \<open>nat\<close>, and every theory says
  which. A Go map is an association list (GoMap). A pointer to a state is the state wherever the code hands out
  the pointer it stores. A slice is a list; an index out of range, and every other panic, is \<open>None\<close> or a
  value of the result type. What the code asks of the outside (random numbers, the clock, the
  database's failures, the sockets, bcrypt, the files of the datapack) is an argument or a field of an
  environment record. Where the order of goroutines matters, the operations are the steps of an inductive
  relation, one step for each section the code runs under a mutex or without giving up control.

  \<^bold>\<open>Foundations.\<close>
  \<^item> L2Prelude: words, byte lists, options and the error monad; GoMap: maps, with the locale
    \<open>keyed_store\<close>; Utf16: the strings of the protocol.
  \<^item> LoginCrypt, BlowfishTables, Blowfish, GameCrypt, Rsa: \<open>pkg/crypt\<close>, \<open>transport/gamecrypt\<close> and the
    raw RSA of the two key exchanges. The ciphers invert; the checksum survives the wire; a conversation over the
    chained game cipher decrypts (locale \<open>packet_stream\<close>).
  \<^item> L2Packet, LoginWire: the packet buffers of the two servers. Every write has a read that inverts it
    (locales \<open>field_codec\<close> and \<open>lenient_codec\<close>).

  \<^bold>\<open>The login server and the link.\<close>
  \<^item> LoginSession: session keys, \<open>models/session.go\<close> and \<open>usecase/session.go\<close>; a key is spent once.
  \<^item> NetAddr, LoginRegistry, ServerList: addresses and subnets, the registry of game servers, character
    counts, the server list packet.
  \<^item> LoginPackets, ServerWire: the packets between client, login server and game server.
  \<^item> Transport: framing, encryption and checksum on both ends of the link, over any chunking by the network.
  \<^item> LoginHandlers: the handlers and use cases, and the life of the client connections as a step relation:
    who is logged in has been authenticated, one connection per account, what malformed packets do.

  \<^bold>\<open>The game server: connections and sessions.\<close>
  \<^item> GameConn: \<open>transport/client/conn.go\<close>, the queue and the writer goroutine in every interleaving.
  \<^item> Dispatch: the registry of the packet handlers and every registration; which state admits which opcode.
  \<^item> GameSession: login, selection, entering, restart, logout, kick and disconnect over all
    connections: one session per account, nobody is left behind in the world.

  \<^bold>\<open>The game server: the world and the game loop.\<close>
  \<^item> WorldGrid, Visibility, GameRegions: \<open>registry/world.go\<close>, the visibility of players to each other and
    the reference counts of the live regions. Range queries find everything in range; after a
    reconciliation, who sees whom is symmetric and right.
  \<^item> EventQueue: the heap of timed events and the part of \<open>tick\<close> that runs them.
  \<^item> GameStores: the small registries (reuse, shots, targets, hate).
  \<^item> Buffs: the effects of a character, their stacking and expiry, the PvP flag and the sweep.
  \<^item> Experience, CharStats: \<open>data/experience.go\<close> and the statistics of a character with its modifiers,
    \<open>models/statcalc.go\<close>, \<open>stats.go\<close> and \<open>statmods.go\<close>.
  \<^item> CombatModel, CastModel: the whole state of the game loop and every command and event on it, from
    \<open>gameloop/gameloop.go\<close>, \<open>events.go\<close>, \<open>npc_combat.go\<close>, \<open>combat.go\<close>, \<open>pvp.go\<close>, \<open>experience.go\<close>,
    \<open>cast.go\<close>, \<open>restore.go\<close>, \<open>regen.go\<close>, \<open>teleport.go\<close>, \<open>chat.go\<close>; what a handler sends and asks of other
    parts is a list in the state, what it schedules goes into the queue when it is over.
  \<^item> LoopInvariants: the locales \<open>loop_frame\<close>, \<open>loop_inv\<close> and \<open>loop_all\<close>. A property of the state that survives
    the few primitive writes survives every command, every event and every sweep; the proof walks
    through all of them once.
  \<^item> LoopSteps, LoopSpawns, LoopTick, KillReward, LoopStance, LoopPace: everything the loop does as one step
    relation. Vital values stay in range; no spawn point is ever lost; every tick ends; what a kill is worth; two
    flaws: the combat stance that nothing ends, and the pace of attacks that nothing enforces.

  \<^bold>\<open>The game server: items.\<close>
  \<^item> Items, ItemModel: the rows of \<open>character_items\<close> under the constraints of the schema, the statements of
    \<open>repo/postgres_items.go\<close>, the methods of \<open>models/item.go\<close>.
  \<^item> Inventory, ItemHandlers, Enchant: equipping, using, enchanting. Every call of the database may fail
    (\<open>db_fault\<close>, by the number of the call), so a theorem that does not mention it holds under every
    pattern of failures.
  \<^item> ItemSteps: any sequence of these operations: what is equipped fits together, what is charged was paid.

  \<^bold>\<open>The game server: characters.\<close>
  \<^item> SkillTree: the skill trees of the classes, trainers, and the dialogue in which skills are learned.
  \<^item> Stats, CharacterTemplates: the bonus tables, the initial hit points, and the templates of new characters.
  \<^item> Characters: the rows of characters, skills and shortcuts with the statements of \<open>repo/postgres.go\<close>,
    \<open>postgres_skills.go\<close> and \<open>postgres_shortcuts.go\<close>, transactions and constraints; the
    locales \<open>table_property\<close> and \<open>chars_property\<close> state what every statement keeps.
  \<^item> CharacterUseCase: \<open>usecase/character.go\<close>: listing, creating, selecting, deleting. Creation is
    atomic, the roster of an account stays bounded with distinct names, deletion leaves nothing.

  \<^bold>\<open>Bounds and fuel.\<close> No loop of the model runs out of fuel where the code would go on: the loops are
  structural recursions over the slices they walk, or recursions on a measure proved to decrease (the heap
  operations, the readers of a socket), and the one in \<open>tick\<close>, which takes fuel, is proved to end with enough of it.

  \<^bold>\<open>Not modelled.\<close> SQL text and the driver (the statements are modelled by what they do to the
  rows); the XML loaders of the datapack, whose results are parameters; configuration,
  construction, metrics and logging; floating-point arithmetic (\<open>float64\<close> values are exact numbers where they
  are compared or combined, and each theory that does so says it, or are only copied); the stress clients.
  Parts named in the manifest as \<open>partly\<close> say what is left out of them.
\<close>

end
